(* ===== verification/Prelude.thy ===== *)
theory Prelude
  imports Main "HOL-Library.Word"
begin

text \<open>
  Shared vocabulary of the development: the machine integers and byte strings of the Rust
  sources, the three ways a Rust call can end (a value, an error value, a panic) with the
  combinators that the \<open>?\<close> operator, \<open>ok_or\<close>, \<open>map_err\<close> and \<open>expect\<close> stand for, the
  operations of \<open>Vec\<close> and slices that the components use, little- and big-endian integers,
  and the four library locales: \<open>bounded_buffer\<close> (a capped queue), \<open>kv_store\<close> (a keyed
  store), \<open>serde\<close> (a serialiser with its parser) and \<open>symmetric_chain\<close> (a hash chain with a
  32-bit index).
\<close>

unbundle bit_operations_syntax

type_synonym u8 = "8 word"
type_synonym u16 = "16 word"
type_synonym u32 = "32 word"
type_synonym u64 = "64 word"
type_synonym bytes = "u8 list"

named_theorems result_simps "equations that decide how a chain of Rust calls ends"
named_theorems wf_simps "unfolding of well-formedness predicates"

subsection \<open>Results\<close>

text \<open>
  A Rust call that returns \<open>Result<T, E>\<close> ends with \<open>Ok v\<close>, with \<open>Err e\<close>, or does not return
  because it panicked (a failed \<open>expect\<close> or \<open>assert!\<close>, an index out of range).
\<close>

datatype (dead 'a, dead 'e) result = Ok 'a | Err 'e | Panic

primrec bindR :: "('a, 'e) result \<Rightarrow> ('a \<Rightarrow> ('b, 'e) result) \<Rightarrow> ('b, 'e) result" where
  "bindR (Ok a) f = f a"
| "bindR (Err e) f = Err e"
| "bindR Panic f = Panic"

primrec map_err :: "('e \<Rightarrow> 'f) \<Rightarrow> ('a, 'e) result \<Rightarrow> ('a, 'f) result" where
  "map_err g (Ok a) = Ok a"
| "map_err g (Err e) = Err (g e)"
| "map_err g Panic = Panic"

primrec mapR :: "('a \<Rightarrow> 'b) \<Rightarrow> ('a, 'e) result \<Rightarrow> ('b, 'e) result" where
  "mapR g (Ok a) = Ok (g a)"
| "mapR g (Err e) = Err e"
| "mapR g Panic = Panic"

primrec ok_or :: "'e \<Rightarrow> 'a option \<Rightarrow> ('a, 'e) result" where
  "ok_or e None = Err e"
| "ok_or e (Some a) = Ok a"

text \<open>\<open>Option::expect\<close> and \<open>Result::expect\<close>.\<close>

primrec expect_some :: "'a option \<Rightarrow> ('a, 'e) result" where
  "expect_some None = Panic"
| "expect_some (Some a) = Ok a"

primrec expect_ok :: "('a, 'f) result \<Rightarrow> ('a, 'e) result" where
  "expect_ok (Ok a) = Ok a"
| "expect_ok (Err e) = Panic"
| "expect_ok Panic = Panic"

primrec assertR :: "bool \<Rightarrow> (unit, 'e) result" where
  "assertR True = Ok ()"
| "assertR False = Panic"

primrec is_ok :: "('a, 'e) result \<Rightarrow> bool" where
  "is_ok (Ok a) = True"
| "is_ok (Err e) = False"
| "is_ok Panic = False"

text \<open>\<open>Result::ok\<close>; a panic never becomes \<open>None\<close>, so it is used on results that cannot panic.\<close>

primrec ok_opt :: "('a, 'e) result \<Rightarrow> 'a option" where
  "ok_opt (Ok a) = Some a"
| "ok_opt (Err e) = None"
| "ok_opt Panic = None"

lemma bindR_eq_Ok [result_simps]: "bindR m f = Ok y \<longleftrightarrow> (\<exists>x. m = Ok x \<and> f x = Ok y)"
  by (cases m) auto

lemma bindR_eq_Err [result_simps]:
  "bindR m f = Err e \<longleftrightarrow> m = Err e \<or> (\<exists>x. m = Ok x \<and> f x = Err e)"
  by (cases m) auto

lemma bindR_no_panic: "m \<noteq> Panic \<Longrightarrow> (\<And>x. m = Ok x \<Longrightarrow> f x \<noteq> Panic) \<Longrightarrow> bindR m f \<noteq> Panic"
  by (cases m) simp_all

lemma if_no_panic: "(b \<Longrightarrow> x \<noteq> Panic) \<Longrightarrow> (\<not> b \<Longrightarrow> y \<noteq> Panic) \<Longrightarrow> (if b then x else y) \<noteq> Panic"
  by simp

lemmas no_panic_intros = bindR_no_panic if_no_panic

lemma bindR_eq_Panic [result_simps]:
  "bindR m f = Panic \<longleftrightarrow> m = Panic \<or> (\<exists>x. m = Ok x \<and> f x = Panic)"
  by (cases m) auto

lemma bindR_assoc: "bindR (bindR m f) g = bindR m (\<lambda>x. bindR (f x) g)"
  by (cases m) auto

lemma map_err_eq_Ok [result_simps]: "map_err g m = Ok y \<longleftrightarrow> m = Ok y"
  by (cases m) auto

lemma map_err_eq_Err [result_simps]: "map_err g m = Err e \<longleftrightarrow> (\<exists>e'. m = Err e' \<and> e = g e')"
  by (cases m) auto

lemma map_err_eq_Panic [result_simps]: "map_err g m = Panic \<longleftrightarrow> m = Panic"
  by (cases m) auto

lemma mapR_eq_Ok [result_simps]: "mapR g m = Ok y \<longleftrightarrow> (\<exists>x. m = Ok x \<and> y = g x)"
  by (cases m) auto

lemma mapR_eq_Err [result_simps]: "mapR g m = Err e \<longleftrightarrow> m = Err e"
  by (cases m) auto

lemma mapR_eq_Panic [result_simps]: "mapR g m = Panic \<longleftrightarrow> m = Panic"
  by (cases m) auto

lemma ok_or_eq_Ok [result_simps]: "ok_or e m = Ok y \<longleftrightarrow> m = Some y"
  by (cases m) auto

lemma ok_or_eq_Err [result_simps]: "ok_or e m = Err e' \<longleftrightarrow> m = None \<and> e' = e"
  by (cases m) auto

lemma ok_or_neq_Panic [simp]: "ok_or e m \<noteq> Panic"
  by (cases m) auto

lemma expect_some_eq_Ok [result_simps]: "expect_some m = Ok y \<longleftrightarrow> m = Some y"
  by (cases m) auto

lemma expect_some_neq_Err [simp]: "expect_some m \<noteq> Err e"
  by (cases m) auto

lemma expect_some_eq_Panic [result_simps]: "expect_some m = Panic \<longleftrightarrow> m = None"
  by (cases m) auto

lemma expect_ok_eq_Ok [result_simps]: "expect_ok m = Ok y \<longleftrightarrow> m = Ok y"
  by (cases m) auto

lemma assertR_eq [result_simps]:
  "assertR b = Ok u \<longleftrightarrow> b" "assertR b = Panic \<longleftrightarrow> \<not> b" "assertR b \<noteq> Err e"
  by (cases b; simp)+

lemma bindR_cong [fundef_cong]:
  "m = m' \<Longrightarrow> (\<And>x. m' = Ok x \<Longrightarrow> f x = f' x) \<Longrightarrow> bindR m f = bindR m' f'"
  by (cases m') auto

text \<open>
  The same for calls that also change a state that survives the error (the random number
  generator, the stores): the outcome is paired with the state.
\<close>

definition bindS :: "('a, 'e) result \<times> 's \<Rightarrow> ('a \<Rightarrow> 's \<Rightarrow> ('b, 'e) result \<times> 's) \<Rightarrow> ('b, 'e) result \<times> 's" where
  "bindS p f = (case fst p of Ok a \<Rightarrow> f a (snd p) | Err e \<Rightarrow> (Err e, snd p) | Panic \<Rightarrow> (Panic, snd p))"

lemma bindS_simps [simp]:
  "bindS (Ok a, s) f = f a s" "bindS (Err e, s) f = (Err e, s)" "bindS (Panic, s) f = (Panic, s)"
  by (simp_all add: bindS_def)

lemma bindS_eq_Ok [result_simps]:
  "bindS p f = (Ok y, s') \<longleftrightarrow> (\<exists>a s. p = (Ok a, s) \<and> f a s = (Ok y, s'))"
  by (cases p; cases "fst p") auto

lemma bindS_eq_Err [result_simps]:
  "bindS p f = (Err e, s') \<longleftrightarrow> p = (Err e, s') \<or> (\<exists>a s. p = (Ok a, s) \<and> f a s = (Err e, s'))"
  by (cases p; cases "fst p") auto

lemma bindS_eq_Panic [result_simps]:
  "bindS p f = (Panic, s') \<longleftrightarrow> p = (Panic, s') \<or> (\<exists>a s. p = (Ok a, s) \<and> f a s = (Panic, s'))"
  by (cases p; cases "fst p") auto

lemma bindS_cong [fundef_cong]:
  "p = p' \<Longrightarrow> (\<And>x s. p' = (Ok x, s) \<Longrightarrow> f x s = f' x s) \<Longrightarrow> bindS p f = bindS p' f'"
  by (cases p'; cases "fst p'") auto

subsection \<open>Vectors and slices\<close>

text \<open>\<open>Vec::remove(i)\<close> and \<open>Iterator::position\<close>; \<open>remove_nth\<close> is applied in range only.\<close>

definition remove_nth :: "nat \<Rightarrow> 'a list \<Rightarrow> 'a list" where
  "remove_nth i xs = take i xs @ drop (Suc i) xs"

primrec position :: "('a \<Rightarrow> bool) \<Rightarrow> 'a list \<Rightarrow> nat option" where
  "position P [] = None"
| "position P (x # xs) = (if P x then Some 0 else map_option Suc (position P xs))"

lemma length_remove_nth: "i < length xs \<Longrightarrow> length (remove_nth i xs) = length xs - 1"
  by (simp add: remove_nth_def)

lemma set_remove_nth: "set (remove_nth i xs) \<subseteq> set xs"
  using set_take_subset [of i xs] set_drop_subset [of "Suc i" xs] by (auto simp: remove_nth_def)

lemma remove_nth_split: "remove_nth (length ys) (ys @ x # zs) = ys @ zs"
  by (simp add: remove_nth_def)

lemma map_remove_nth: "map f (remove_nth i xs) = remove_nth i (map f xs)"
  by (simp add: remove_nth_def take_map drop_map)

lemma position_None: "position P xs = None \<longleftrightarrow> (\<forall>x \<in> set xs. \<not> P x)"
  by (induction xs) auto

lemma position_Some:
  "position P xs = Some i \<longleftrightarrow> i < length xs \<and> P (xs ! i) \<and> (\<forall>j < i. \<not> P (xs ! j))"
proof (induction xs arbitrary: i)
  case (Cons x xs)
  show ?case
    by (cases i) (auto simp: Cons.IH less_Suc_eq_0_disj)
qed simp

lemma distinct_remove_nth: "distinct xs \<Longrightarrow> distinct (remove_nth i xs)"
  unfolding remove_nth_def
  by (simp add: distinct_take distinct_drop)
     (meson disjoint_iff distinct_append in_set_dropD set_take_disj_set_drop_if_distinct le_Suc_eq
       le_refl)

lemma remove_nth_notin:
  assumes "distinct xs" "i < length xs"
  shows "xs ! i \<notin> set (remove_nth i xs)"
proof -
  have "xs = take i xs @ xs ! i # drop (Suc i) xs"
    using assms(2) by (rule id_take_nth_drop)
  then have "distinct (take i xs @ xs ! i # drop (Suc i) xs)" using assms(1) by simp
  then show ?thesis by (simp add: remove_nth_def)
qed

subsection \<open>Integers as bytes\<close>

primrec le_nat :: "bytes \<Rightarrow> nat" where
  "le_nat [] = 0"
| "le_nat (b # bs) = unat b + 256 * le_nat bs"

primrec le_bytes :: "nat \<Rightarrow> nat \<Rightarrow> bytes" where
  "le_bytes 0 n = []"
| "le_bytes (Suc k) n = of_nat (n mod 256) # le_bytes k (n div 256)"

definition be_nat :: "bytes \<Rightarrow> nat" where
  "be_nat bs = le_nat (rev bs)"

definition be_bytes :: "nat \<Rightarrow> nat \<Rightarrow> bytes" where
  "be_bytes k n = rev (le_bytes k n)"

lemma length_le_bytes [simp]: "length (le_bytes k n) = k"
  by (induction k arbitrary: n) auto

lemma length_be_bytes [simp]: "length (be_bytes k n) = k"
  by (simp add: be_bytes_def)

lemma unat_u8_less [simp]: "unat (b :: u8) < 256"
  using unsigned_less [of b, where 'a = nat] by simp

lemma le_nat_append: "le_nat (xs @ ys) = le_nat xs + 256 ^ length xs * le_nat ys"
  by (induction xs) (auto simp: algebra_simps)

lemma le_nat_less: "le_nat bs < 256 ^ length bs"
proof (induction bs)
  case (Cons b bs)
  then have "256 * le_nat bs + 256 \<le> 256 * 256 ^ length bs" by simp
  moreover have "unat b < 256" by simp
  ultimately have "unat b + 256 * le_nat bs < 256 * 256 ^ length bs" by linarith
  then show ?case by simp
qed simp

lemma le_nat_le_bytes: "n < 256 ^ k \<Longrightarrow> le_nat (le_bytes k n) = n"
proof (induction k arbitrary: n)
  case (Suc k)
  have "unat (word_of_nat (n mod 256) :: u8) = n mod 256"
    by (simp add: unat_of_nat)
  moreover have "n div 256 < 256 ^ k" using Suc.prems by (simp add: less_mult_imp_div_less)
  ultimately show ?case by (simp add: Suc.IH)
qed simp

lemma le_bytes_le_nat: "le_bytes (length bs) (le_nat bs) = bs"
  by (induction bs) simp_all

lemma be_nat_be_bytes: "n < 256 ^ k \<Longrightarrow> be_nat (be_bytes k n) = n"
  by (simp add: be_nat_def be_bytes_def le_nat_le_bytes)

lemma be_bytes_be_nat: "be_bytes (length bs) (be_nat bs) = bs"
  using le_bytes_le_nat [of "rev bs"] by (simp add: be_nat_def be_bytes_def)

text \<open>The bytes of an ASCII literal such as \<open>b"WhisperRatchet"\<close>.\<close>

definition ascii :: "string \<Rightarrow> bytes" where
  "ascii s = map of_char s"

subsection \<open>Slices in blocks\<close>

text \<open>The \<open>chunks\<close> of a slice: blocks of the given size, the last one possibly shorter.\<close>

function slice_chunks :: "nat \<Rightarrow> 'a list \<Rightarrow> 'a list list" where
  "slice_chunks n xs = (if xs = [] \<or> n = 0 then [] else take n xs # slice_chunks n (drop n xs))"
  by pat_completeness auto
termination
  by (relation "measure (\<lambda>(n, xs). length xs)") auto

declare slice_chunks.simps [simp del]

lemma slice_chunks_Nil [simp]: "slice_chunks n [] = []"
  by (simp add: slice_chunks.simps)

lemma concat_slice_chunks: "0 < n \<Longrightarrow> concat (slice_chunks n xs) = xs"
  by (induction n xs rule: slice_chunks.induct) (subst slice_chunks.simps, auto)

lemma slice_chunks_append:
  assumes "length xs mod n = 0" "0 < n"
  shows "slice_chunks n (xs @ ys) = slice_chunks n xs @ slice_chunks n ys"
  using assms
proof (induction n xs rule: slice_chunks.induct)
  case (1 n xs)
  show ?case
  proof (cases "xs = []")
    case False
    then have "n \<le> length xs" using 1(2) by (metis length_greater_0_conv mod_less neq0_conv not_le)
    then show ?thesis
      using 1 False slice_chunks.simps [of n "xs @ ys"] slice_chunks.simps [of n xs] by (auto simp: le_mod_geq)
  qed simp
qed

lemma slice_chunks_one: "xs \<noteq> [] \<Longrightarrow> length xs \<le> n \<Longrightarrow> slice_chunks n xs = [xs]"
  by (subst slice_chunks.simps) (auto simp: neq_Nil_conv)

lemma length_slice_chunks:
  assumes "length xs mod n = 0" "0 < n" "c \<in> set (slice_chunks n xs)"
  shows "length c = n"
  using assms
proof (induction n xs rule: slice_chunks.induct)
  case (1 n xs)
  show ?case
  proof (cases "xs = []")
    case False
    then have "n \<le> length xs" using 1(2) by (metis length_greater_0_conv mod_less neq0_conv not_le)
    then show ?thesis
      using 1 False slice_chunks.simps [of n xs] by (auto simp: le_mod_geq)
  qed (use 1 in simp)
qed

text \<open>The slice \<open>xs[i..j]\<close>, which panics when the range does not lie within \<open>xs\<close>.\<close>

definition slice_range :: "'a list \<Rightarrow> nat \<Rightarrow> nat \<Rightarrow> ('a list, 'e) result" where
  "slice_range xs i j = (if i \<le> j \<and> j \<le> length xs then Ok (take (j - i) (drop i xs)) else Panic)"

text \<open>\<open>usize::div_ceil\<close>\<close>

definition div_ceil :: "nat \<Rightarrow> nat \<Rightarrow> nat" where
  "div_ceil a b = (if a mod b = 0 then a div b else a div b + 1)"

lemma div_ceil_bounds:
  assumes "0 < b"
  shows "a \<le> div_ceil a b * b" "k < div_ceil a b \<Longrightarrow> k * b < a"
proof -
  have a: "a = a div b * b + a mod b" by simp
  have "a \<le> b + a div b * b" using a mod_less_divisor [OF assms, of a] by linarith
  then show "a \<le> div_ceil a b * b" using a by (auto simp: div_ceil_def)
  assume k: "k < div_ceil a b"
  show "k * b < a"
  proof (cases "a mod b = 0")
    case True
    then have "k < a div b" "a = a div b * b" using k a by (simp_all add: div_ceil_def)
    then show ?thesis using assms by (metis mult_less_mono1)
  next
    case False
    then have "k \<le> a div b" using k by (simp add: div_ceil_def)
    then have "k * b \<le> a div b * b" by simp
    then show ?thesis using a False by linarith
  qed
qed

subsection \<open>Wrapping 32-bit counters\<close>

lemma u32_lt_Suc:
  fixes i n :: u32
  assumes "i < n"
  shows "i + 1 \<le> n" and "unat (i + 1) = Suc (unat i)"
proof -
  have "unat i < unat n" using assms by (simp add: word_less_nat_alt)
  moreover have "unat n < 2 ^ 32" using unsigned_less [of n, where 'a = nat] by simp
  ultimately have "unat i + 1 < 2 ^ 32" by linarith
  then show *: "unat (i + 1) = Suc (unat i)" by (simp add: unat_word_ariths)
  show "i + 1 \<le> n" using \<open>unat i < unat n\<close> by (simp only: word_le_nat_alt *)
qed

lemma u32_Suc_no_wrap:
  fixes n :: u32
  assumes "n \<noteq> - 1"
  shows "unat (n + 1) = Suc (unat n)" and "n < n + 1"
proof -
  have "n < - 1" using assms by (simp add: order_less_le)
  then show *: "unat (n + 1) = Suc (unat n)" by (rule u32_lt_Suc(2))
  show "n < n + 1" by (simp only: word_less_nat_alt *)
qed

lemma u32_add_of_nat:
  fixes i n :: u32
  assumes "i \<le> n"
  shows "i + of_nat (unat n - unat i) = n"
proof -
  have "unat (n - i) = unat n - unat i" using assms by (rule unat_sub)
  then have "of_nat (unat n - unat i) = (of_nat (unat (n - i)) :: u32)" by simp
  then show ?thesis by simp
qed

lemma u32_unat_add:
  fixes i n :: u32
  assumes "i \<le> n" "k \<le> unat n - unat i"
  shows "unat (i + of_nat k) = unat i + k"
proof -
  have "unat n < 2 ^ 32" using unsigned_less [of n, where 'a = nat] by simp
  moreover have "unat i \<le> unat n" using assms(1) by (simp add: word_le_nat_alt)
  ultimately have "unat i + k < 2 ^ 32" using assms(2) by linarith
  then show ?thesis by (simp add: unat_word_ariths unat_of_nat)
qed

subsection \<open>A capped queue\<close>

text \<open>
  Every bounded collection of the sources (skipped message keys, receiver chains, archived
  sessions, sender key states) adds one element and drops the oldest ones. The locale states
  what the callers rely on: the new element is in, nothing else appears, the cap is kept, and
  below the cap nothing is lost.
\<close>

locale bounded_buffer =
  fixes push :: "'a \<Rightarrow> 'a list \<Rightarrow> 'a list" and cap :: nat and key :: "'a \<Rightarrow> 'k"
  assumes push_new: "x \<in> set (push x xs)"
    and push_subset: "set (push x xs) \<subseteq> insert x (set xs)"
    and push_bound: "length xs \<le> cap \<Longrightarrow> length (push x xs) \<le> cap"
    and push_room: "length xs < cap \<Longrightarrow> set (push x xs) = insert x (set xs)"
    and push_distinct:
      "distinct (map key xs) \<Longrightarrow> key x \<notin> key ` set xs \<Longrightarrow> distinct (map key (push x xs))"
begin

lemma push_all: "\<forall>y \<in> set xs. P y \<Longrightarrow> P x \<Longrightarrow> \<forall>y \<in> set (push x xs). P y"
  using push_subset by blast

lemma push_many_bound: "length xs \<le> cap \<Longrightarrow> length (fold push ys xs) \<le> cap"
  by (induction ys arbitrary: xs) (auto simp: push_bound)

lemma push_many_subset: "set (fold push ys xs) \<subseteq> set ys \<union> set xs"
proof (induction ys arbitrary: xs)
  case (Cons y ys)
  have "set (fold push ys (push y xs)) \<subseteq> set ys \<union> set (push y xs)" by (rule Cons.IH)
  also have "\<dots> \<subseteq> set ys \<union> insert y (set xs)" using push_subset by blast
  finally show ?case by auto
qed simp

lemma push_many_all:
  "\<forall>y \<in> set xs. P y \<Longrightarrow> \<forall>y \<in> set ys. P y \<Longrightarrow> \<forall>y \<in> set (fold push ys xs). P y"
  using push_many_subset by blast

lemma push_many_distinct:
  "distinct (map key ys) \<Longrightarrow> distinct (map key xs) \<Longrightarrow> key ` set ys \<inter> key ` set xs = {} \<Longrightarrow>
   distinct (map key (fold push ys xs))"
proof (induction ys arbitrary: xs)
  case (Cons y ys)
  have "key y \<notin> key ` set xs" using Cons.prems by auto
  then have "distinct (map key (push y xs))" using Cons.prems(2) push_distinct by blast
  moreover have "key ` set ys \<inter> key ` set (push y xs) = {}"
  proof -
    have "key ` set (push y xs) \<subseteq> insert (key y) (key ` set xs)" using push_subset by blast
    moreover have "key ` set ys \<inter> insert (key y) (key ` set xs) = {}" using Cons.prems by auto
    ultimately show ?thesis by blast
  qed
  ultimately show ?case using Cons.IH Cons.prems(1) by simp
qed simp

lemma push_many_room:
  "length xs + length ys \<le> cap \<Longrightarrow> (\<And>zs z. length zs < cap \<Longrightarrow> length (push z zs) = Suc (length zs)) \<Longrightarrow>
   set (fold push ys xs) = set ys \<union> set xs"
proof (induction ys arbitrary: xs)
  case (Cons y ys)
  have len: "length xs < cap" using Cons.prems(1) by simp
  then have "length (push y xs) + length ys \<le> cap" using Cons.prems by simp
  then have "set (fold push ys (push y xs)) = set ys \<union> set (push y xs)"
    using Cons.IH Cons.prems(2) by blast
  then show ?case using push_room [OF len] by auto
qed simp

end

subsection \<open>A keyed store\<close>

locale kv_store =
  fixes load :: "'k \<Rightarrow> 's \<Rightarrow> 'v option" and store :: "'k \<Rightarrow> 'v \<Rightarrow> 's \<Rightarrow> 's"
  assumes load_store_same: "load k (store k v s) = Some v"
    and load_store_other: "k \<noteq> k' \<Longrightarrow> load k' (store k v s) = load k' s"
begin

lemma load_store: "load k' (store k v s) = (if k' = k then Some v else load k' s)"
  by (simp add: load_store_same load_store_other)

lemma load_store_overwrite: "load k' (store k w (store k v s)) = load k' (store k w s)"
  by (simp add: load_store)

lemma load_store_commute:
  "k \<noteq> j \<Longrightarrow> load k' (store k v (store j w s)) = load k' (store j w (store k v s))"
  by (simp add: load_store)

end

subsection \<open>A serialiser and its parser\<close>

locale serde =
  fixes ser :: "'a \<Rightarrow> bytes" and de :: "bytes \<Rightarrow> ('a, 'e) result" and wf :: "'a \<Rightarrow> bool"
  assumes de_ser: "wf x \<Longrightarrow> de (ser x) = Ok x"
begin

lemma ser_inj: "wf x \<Longrightarrow> wf y \<Longrightarrow> ser x = ser y \<Longrightarrow> x = y"
  by (metis de_ser result.inject(1))

lemma ser_eq_iff: "wf x \<Longrightarrow> wf y \<Longrightarrow> ser x = ser y \<longleftrightarrow> x = y"
  using ser_inj by blast

lemma ser_inj_on: "inj_on ser {x. wf x}"
  by (rule inj_onI) (auto intro: ser_inj)

end

text \<open>A parser that peels a serialized value off the front of its input and returns the rest.\<close>

locale stream_parser =
  fixes ser :: "'a \<Rightarrow> bytes"
    and parse :: "bytes \<Rightarrow> ('a \<times> bytes, 'e) result"
    and ok :: "'a \<Rightarrow> bool"
  assumes parse_ser: "ok x \<Longrightarrow> parse (ser x @ rest) = Ok (x, rest)"
begin

lemma uniquely_decodable:
  assumes "ok x" "ok y" "ser x @ r = ser y @ r'"
  shows "x = y \<and> r = r'"
proof -
  have "(Ok (x, r) :: (_, 'e) result) = Ok (y, r')"
    using parse_ser [OF assms(1), of r] parse_ser [OF assms(2), of r'] unfolding assms(3) by (rule trans [OF sym])
  then show ?thesis by simp
qed

end

subsection \<open>A hash chain with a 32-bit index\<close>

text \<open>
  Both ratchets (1:1 sessions and sender keys) step a symmetric chain whose index is a
  \<open>u32\<close>. \<open>walk c n\<close> lists the chain keys that a receiver passes on the way from \<open>c\<close> to index \<open>n\<close>.
\<close>

locale symmetric_chain =
  fixes idx :: "'c \<Rightarrow> u32" and nxt :: "'c \<Rightarrow> 'c"
  assumes idx_nxt: "idx (nxt c) = idx c + 1"
begin

definition walk :: "'c \<Rightarrow> u32 \<Rightarrow> 'c list" where
  "walk c n = map (\<lambda>k. (nxt ^^ k) c) [0..<unat n - unat (idx c)]"

lemma idx_funpow: "idx ((nxt ^^ k) c) = idx c + of_nat k"
  by (induction k) (simp_all add: idx_nxt)

lemma idx_target: "idx c \<le> n \<Longrightarrow> idx ((nxt ^^ (unat n - unat (idx c))) c) = n"
  by (simp add: idx_funpow u32_add_of_nat)

lemma walk_done: "\<not> idx c < n \<Longrightarrow> walk c n = []"
  by (simp add: walk_def word_less_nat_alt)

lemma walk_step:
  assumes "idx c < n"
  shows "walk c n = c # walk (nxt c) n"
proof -
  have lt: "unat (idx c) < unat n" using assms by (simp add: word_less_nat_alt)
  have nx: "unat (idx (nxt c)) = Suc (unat (idx c))" using u32_lt_Suc(2) [OF assms] by (simp add: idx_nxt)
  have "unat n - unat (idx c) = Suc (unat n - unat (idx (nxt c)))" using lt nx by simp
  moreover have "[0..<Suc m] = 0 # map Suc [0..<m]" for m
    by (simp add: map_Suc_upt upt_conv_Cons del: upt_Suc)
  ultimately show ?thesis by (simp add: walk_def comp_def funpow_swap1 del: upt_Suc)
qed

lemma idx_walk: "map (unat \<circ> idx) (walk c n) = [unat (idx c)..<unat n]"
proof (cases "idx c \<le> n")
  case True
  have "map (unat \<circ> idx) (walk c n) = map (\<lambda>k. unat (idx c) + k) [0..<unat n - unat (idx c)]"
    using u32_unat_add [OF True] by (simp add: walk_def idx_funpow)
  also have "\<dots> = [unat (idx c)..<unat n]"
    using True by (simp add: map_add_upt word_le_nat_alt add.commute)
  finally show ?thesis .
next
  case False
  then show ?thesis by (simp add: walk_def word_le_nat_alt)
qed

lemma walk_bounds: "d \<in> set (walk c n) \<Longrightarrow> idx c \<le> idx d \<and> idx d < n"
proof -
  assume "d \<in> set (walk c n)"
  then have "unat (idx d) \<in> set (map (unat \<circ> idx) (walk c n))" by auto
  then show ?thesis by (simp only: idx_walk) (simp add: word_le_nat_alt word_less_nat_alt)
qed

lemma distinct_walk: "distinct (map idx (walk c n))"
proof -
  have "distinct (map unat (map idx (walk c n)))" using idx_walk [of c n] by (simp add: comp_def)
  then show ?thesis by (simp only: distinct_map)
qed

lemma walk_hits: "idx c \<le> j \<Longrightarrow> j < n \<Longrightarrow> \<exists>d \<in> set (walk c n). idx d = j"
proof -
  assume "idx c \<le> j" "j < n"
  then have "unat j \<in> set (map (unat \<circ> idx) (walk c n))"
    by (simp only: idx_walk) (simp add: word_le_nat_alt word_less_nat_alt)
  then show ?thesis by (auto simp: word_unat_eq_iff)
qed

text \<open>The chain key at an index that is not behind the given one.\<close>

definition reach :: "'c \<Rightarrow> u32 \<Rightarrow> 'c" where
  "reach c n = (nxt ^^ (unat n - unat (idx c))) c"

lemma idx_reach: "idx c \<le> n \<Longrightarrow> idx (reach c n) = n"
  by (simp add: reach_def idx_target)

lemma reach_same [simp]: "reach c (idx c) = c"
  by (simp add: reach_def)

lemma reach_reach:
  assumes "idx c \<le> p" "p \<le> n"
  shows "reach (reach c p) n = reach c n"
proof -
  have le: "unat (idx c) \<le> unat p" "unat p \<le> unat n" using assms by (simp_all add: word_le_nat_alt)
  have "reach (reach c p) n = (nxt ^^ (unat n - unat p + (unat p - unat (idx c)))) c"
    unfolding funpow_add comp_apply reach_def [symmetric] using idx_reach [OF assms(1)] by (simp add: reach_def)
  then show ?thesis using le by (simp add: reach_def)
qed

lemma nxt_reach:
  assumes "idx c \<le> n" "n \<noteq> - 1"
  shows "nxt (reach c n) = reach c (n + 1)"
proof -
  have "unat (n + 1) - unat (idx c) = Suc (unat n - unat (idx c))"
    using u32_Suc_no_wrap(1) [OF assms(2)] assms(1) by (simp add: word_le_nat_alt Suc_diff_le)
  then show ?thesis by (simp add: reach_def)
qed

lemma walk_reach:
  assumes "d \<in> set (walk c n)"
  shows "d = reach c (idx d)"
proof -
  obtain k where k: "d = (nxt ^^ k) c" "k < unat n - unat (idx c)" using assms by (auto simp: walk_def)
  have "idx c \<le> n" using k(2) by (simp add: word_le_nat_alt)
  then have "unat (idx d) = unat (idx c) + k"
    using u32_unat_add [of "idx c" n k] k by (simp add: idx_funpow)
  then show ?thesis by (simp add: reach_def k(1))
qed

end

end
