(* ===== verification/Types.thy ===== *)
theory Types
  imports Prelude
begin

text \<open>
  The enumerations and small structs every component shares: key types of the curve and of the
  KEM, message types, device and protocol addresses, and the error enumeration of the crate
  (\<open>rust/protocol/src/error.rs\<close>). Newtype wrappers over \<open>u32\<close> (\<open>PreKeyId\<close>, \<open>SignedPreKeyId\<close>,
  \<open>KyberPreKeyId\<close>) and over \<open>u64\<close> (\<open>Timestamp\<close>) are type synonyms.
\<close>

type_synonym uuid = bytes
type_synonym pre_key_id = u32
type_synonym signed_pre_key_id = u32
type_synonym kyber_pre_key_id = u32
type_synonym timestamp = u64

text \<open>\<open>Timestamp::add_millis\<close>, \<open>sub_millis\<close>: unchecked additions.\<close>

definition Timestamp_add_millis :: "timestamp \<Rightarrow> u64 \<Rightarrow> timestamp" where
  "Timestamp_add_millis t milliseconds = t + milliseconds"

definition Timestamp_sub_millis :: "timestamp \<Rightarrow> u64 \<Rightarrow> timestamp" where
  "Timestamp_sub_millis t milliseconds = t - milliseconds"

datatype key_type = Djb

datatype curve_error = CNoKeyTypeIdentifier | CBadKeyType u8 | CBadKeyLength key_type nat

text \<open>The KEMs of the default feature set (\<open>kyber768\<close> is behind a non-default feature).\<close>

datatype kem_key_type = Kyber1024 | MLKEM1024

datatype ciphertext_message_type = Whisper | PreKey | SenderKey | Plaintext

datatype direction = Sending | Receiving

text \<open>A \<open>DeviceId\<close> wraps a \<open>NonZeroU8\<close>; \<open>device_id_ok\<close> is the range its constructors keep.\<close>

datatype device_id = DeviceId (device_id_value: u8)

record protocol_address =
  pa_name :: string
  pa_device_id :: device_id

datatype signal_error =
    InvalidArgument string
  | InvalidState string string
  | InvalidProtobufEncoding
  | CiphertextMessageTooShort nat
  | LegacyCiphertextVersion u8
  | UnrecognizedCiphertextVersion u8
  | UnrecognizedMessageVersion u32
  | NoKeyTypeIdentifier
  | BadKeyType u8
  | BadKeyLength key_type nat
  | SignatureValidationFailed
  | UntrustedIdentity protocol_address
  | InvalidPreKeyId
  | InvalidSignedPreKeyId
  | InvalidKyberPreKeyId
  | InvalidMacKeyLength nat
  | NoSenderKeyState uuid
  | InvalidProtocolAddress string u32
  | SessionNotFound protocol_address
  | InvalidSessionStructure string
  | InvalidSenderKeySession uuid
  | InvalidRegistrationId protocol_address u32
  | DuplicatedMessage u32 u32
  | InvalidMessage ciphertext_message_type string
  | FfiBindingError string
  | ApplicationCallbackError string string
  | InvalidSealedSenderMessage string
  | UnknownSealedSenderVersion u8
  | SealedSenderSelfSend
  | UnknownSealedSenderServerCertificateId u32
  | BadKEMKeyType u8
  | WrongKEMKeyType u8 u8
  | BadKEMKeyLength kem_key_type nat
  | BadKEMCiphertextLength kem_key_type nat
  | BadSealedPQXDHMac

text \<open>\<open>impl From<CurveError> for SignalProtocolError\<close>\<close>

primrec from_curve_error :: "curve_error \<Rightarrow> signal_error" where
  "from_curve_error CNoKeyTypeIdentifier = NoKeyTypeIdentifier"
| "from_curve_error (CBadKeyType raw) = BadKeyType raw"
| "from_curve_error (CBadKeyLength kt len) = BadKeyLength kt len"

text \<open>\<open>CiphertextMessageType\<close> has a \<open>u8\<close> representation and a \<open>TryFrom<u8>\<close>.\<close>

primrec message_type_value :: "ciphertext_message_type \<Rightarrow> u8" where
  "message_type_value Whisper = 2"
| "message_type_value PreKey = 3"
| "message_type_value SenderKey = 7"
| "message_type_value Plaintext = 8"

definition message_type_try_from :: "u8 \<Rightarrow> ciphertext_message_type option" where
  "message_type_try_from x =
     (if x = 2 then Some Whisper else if x = 3 then Some PreKey
      else if x = 7 then Some SenderKey else if x = 8 then Some Plaintext else None)"

lemma message_type_roundtrip [simp]: "message_type_try_from (message_type_value t) = Some t"
  by (cases t) (simp_all add: message_type_try_from_def)

subsection \<open>Constants of \<open>consts.rs\<close>\<close>

definition MAX_FORWARD_JUMPS :: nat where "MAX_FORWARD_JUMPS = 25000"
definition MAX_MESSAGE_KEYS :: nat where "MAX_MESSAGE_KEYS = 2000"
definition MAX_RECEIVER_CHAINS :: nat where "MAX_RECEIVER_CHAINS = 5"
definition ARCHIVED_STATES_MAX_LENGTH :: nat where "ARCHIVED_STATES_MAX_LENGTH = 40"
definition MAX_SENDER_KEY_STATES :: nat where "MAX_SENDER_KEY_STATES = 5"

text \<open>Versions of \<open>protocol.rs\<close>.\<close>

definition CIPHERTEXT_MESSAGE_CURRENT_VERSION :: u8 where "CIPHERTEXT_MESSAGE_CURRENT_VERSION = 4"
definition CIPHERTEXT_MESSAGE_PRE_KYBER_VERSION :: u8 where "CIPHERTEXT_MESSAGE_PRE_KYBER_VERSION = 3"

text \<open>In seconds: \<open>Duration::from_secs(60 * 60 * 24 * 30)\<close>.\<close>

definition MAX_UNACKNOWLEDGED_SESSION_AGE :: nat where
  "MAX_UNACKNOWLEDGED_SESSION_AGE = 60 * 60 * 24 * 30"

lemma consts_pos [simp]:
  "0 < MAX_MESSAGE_KEYS" "0 < MAX_RECEIVER_CHAINS" "0 < ARCHIVED_STATES_MAX_LENGTH"
  "0 < MAX_SENDER_KEY_STATES"
  by (simp_all add: MAX_MESSAGE_KEYS_def MAX_RECEIVER_CHAINS_def ARCHIVED_STATES_MAX_LENGTH_def
      MAX_SENDER_KEY_STATES_def)

subsection \<open>Time\<close>

text \<open>
  A \<open>SystemTime\<close> is a number of nanoseconds relative to the Unix epoch. Its seconds are an
  \<open>i64\<close> on Unix, and adding a \<open>Duration\<close> beyond that range panics.
\<close>

type_synonym system_time = int

definition time_add_secs :: "system_time \<Rightarrow> nat \<Rightarrow> (system_time, 'e) result" where
  "time_add_secs t s =
     (if t div 10 ^ 9 + int s \<le> 2 ^ 63 - 1 then Ok (t + int s * 10 ^ 9) else Panic)"

text \<open>\<open>now.duration_since(UNIX_EPOCH).unwrap_or_default().as_secs()\<close>\<close>

definition secs_since_epoch :: "system_time \<Rightarrow> u64" where
  "secs_since_epoch now = (if now < 0 then 0 else word_of_int (now div 10 ^ 9))"

end
