(* ===== verification/Proto.thy ===== *)
theory Proto
  imports Types
begin

text \<open>
  The protobuf messages of \<open>rust/protocol/src/proto/*.proto\<close> as records, one field per
  protobuf field: a proto3 scalar is its value, an \<open>optional\<close> or message field is an \<open>option\<close>,
  a \<open>repeated\<close> field is a list. The encoders and decoders are generated by \<open>prost\<close> at build time
  and are parameters of the model (theory \<open>Externals\<close>).
\<close>

subsection \<open>\<open>storage.proto\<close>\<close>

record pb_chain_key =
  ck_index :: u32
  ck_key :: bytes

record pb_message_key =
  mk_index :: u32
  mk_cipher_key :: bytes
  mk_mac_key :: bytes
  mk_iv :: bytes
  mk_seed :: bytes

record pb_chain =
  c_sender_ratchet_key :: bytes
  c_sender_ratchet_key_private :: bytes
  c_chain_key :: "pb_chain_key option"
  c_message_keys :: "pb_message_key list"

record pb_pending_pre_key =
  ppk_pre_key_id :: "u32 option"
  ppk_signed_pre_key_id :: u32 \<comment> \<open>declared \<open>int32\<close>; the code casts it to and from \<open>u32\<close>\<close>
  ppk_base_key :: bytes
  ppk_timestamp :: u64

record pb_pending_kyber_pre_key =
  pkk_pre_key_id :: u32
  pkk_ciphertext :: bytes

record session_structure =
  s_session_version :: u32
  s_local_identity_public :: bytes
  s_remote_identity_public :: bytes
  s_root_key :: bytes
  s_previous_counter :: u32
  s_sender_chain :: "pb_chain option"
  s_receiver_chains :: "pb_chain list"
  s_pending_pre_key :: "pb_pending_pre_key option"
  s_pending_kyber_pre_key :: "pb_pending_kyber_pre_key option"
  s_remote_registration_id :: u32
  s_local_registration_id :: u32
  s_alice_base_key :: bytes
  s_pq_ratchet_state :: bytes

record record_structure =
  rs_current_session :: "session_structure option"
  rs_previous_sessions :: "bytes list"

record pre_key_record_structure =
  pkr_id :: u32
  pkr_public_key :: bytes
  pkr_private_key :: bytes

record signed_pre_key_record_structure =
  spk_id :: u32
  spk_public_key :: bytes
  spk_private_key :: bytes
  spk_signature :: bytes
  spk_timestamp :: u64

record identity_key_pair_structure =
  ikp_public_key :: bytes
  ikp_private_key :: bytes

record pb_sender_chain_key =
  sck_iteration :: u32
  sck_seed :: bytes

record pb_sender_message_key =
  smk_iteration :: u32
  smk_seed :: bytes

record pb_sender_signing_key =
  ssk_public :: bytes
  ssk_private :: bytes

record sender_key_state_structure =
  sks_message_version :: u32
  sks_chain_id :: u32
  sks_sender_chain_key :: "pb_sender_chain_key option"
  sks_sender_signing_key :: "pb_sender_signing_key option"
  sks_sender_message_keys :: "pb_sender_message_key list"

record sender_key_record_structure =
  skr_sender_key_states :: "sender_key_state_structure list"

subsection \<open>\<open>wire.proto\<close>\<close>

record pb_signal_message =
  wsm_ratchet_key :: "bytes option"
  wsm_counter :: "u32 option"
  wsm_previous_counter :: "u32 option"
  wsm_ciphertext :: "bytes option"
  wsm_pq_ratchet :: "bytes option"

record pb_pre_key_signal_message =
  wpk_registration_id :: "u32 option"
  wpk_pre_key_id :: "u32 option"
  wpk_signed_pre_key_id :: "u32 option"
  wpk_kyber_pre_key_id :: "u32 option"
  wpk_kyber_ciphertext :: "bytes option"
  wpk_base_key :: "bytes option"
  wpk_identity_key :: "bytes option"
  wpk_message :: "bytes option"

record pb_sender_key_message =
  wsk_distribution_uuid :: "bytes option"
  wsk_chain_id :: "u32 option"
  wsk_iteration :: "u32 option"
  wsk_ciphertext :: "bytes option"

record pb_sender_key_distribution_message =
  wsd_distribution_uuid :: "bytes option"
  wsd_chain_id :: "u32 option"
  wsd_iteration :: "u32 option"
  wsd_chain_key :: "bytes option"
  wsd_signing_key :: "bytes option"

record pb_sealed_pqxdh_message =
  wsp_pre_key_id :: "u32 option"
  wsp_signed_pre_key_id :: "u32 option"
  wsp_mlkem_pre_key_id :: "u32 option"
  wsp_ec_ephemeral :: "bytes option"
  wsp_kem_ciphertext :: "bytes option"
  wsp_inner_msg_ct :: "bytes option"
  wsp_sealed_ciphertext :: "bytes option"

subsection \<open>\<open>fingerprint.proto\<close> and \<open>service.proto\<close>\<close>

record pb_logical_fingerprint =
  lf_content :: "bytes option"

record pb_combined_fingerprints =
  cf_version :: "u32 option"
  cf_local_fingerprint :: "pb_logical_fingerprint option"
  cf_remote_fingerprint :: "pb_logical_fingerprint option"

record pb_decryption_error_message =
  dem_ratchet_key :: "bytes option"
  dem_timestamp :: "u64 option"
  dem_device_id :: "u32 option"

text \<open>Of \<open>Content\<close>, the field the sources set and read.\<close>

record pb_content =
  con_decryption_error_message :: "bytes option"

end
