(* ===== verification/Externals.thy ===== *)
theory Externals
  imports Proto
begin

text \<open>
  The third-party code that the repository calls, as one record of parameters (\<open>'r env\<close>), an
  argument of every definition that uses it: the caller's random number generator (state type
  \<open>'r\<close>), the RustCrypto hashes and ciphers, the \<open>dalek\<close> curve arithmetic, \<open>libcrux\<close>'s KEMs,
  the \<open>spqr\<close> post-quantum ratchet, the \<open>uuid\<close> crate's text form and the protobuf codecs that
  \<open>prost\<close> generates. Nothing is assumed about the parameters here; the laws that particular
  theorems use (round trips, Diffie-Hellman commutativity, output lengths) are the named
  predicates below, and each is stated as a hypothesis where it is used.
\<close>

type_synonym edpoint = bytes
type_synonym scalar = bytes

record 'm codec =
  encode :: "'m \<Rightarrow> bytes"
  decode :: "bytes \<Rightarrow> 'm option"

datatype spqr_error = StateDecode | OtherSpqrError string

datatype spqr_direction = A2B | B2A

record spqr_params =
  sp_auth_key :: bytes
  sp_version :: nat
  sp_min_version :: nat
  sp_direction :: spqr_direction
  sp_max_jump :: u32
  sp_max_ooo_keys :: u32

record 'r env =
  log_info_enabled :: bool \<comment> \<open>whether \<open>log::info!\<close> evaluates its arguments\<close>
  rng_fill_bytes :: "nat \<Rightarrow> 'r \<Rightarrow> bytes \<times> 'r"
  rng_random_bytes :: "nat \<Rightarrow> 'r \<Rightarrow> bytes \<times> 'r" \<comment> \<open>\<open>Rng::random::<[u8; N]>()\<close>\<close>
  rng_u32 :: "'r \<Rightarrow> u32 \<times> 'r"
  hmac_sha256_raw :: "bytes \<Rightarrow> bytes \<Rightarrow> bytes"
  hkdf_sha256 :: "bytes option \<Rightarrow> bytes \<Rightarrow> bytes \<Rightarrow> nat \<Rightarrow> bytes"
  sha512 :: "bytes \<Rightarrow> bytes"
  aes256_ctr32be :: "bytes \<Rightarrow> bytes \<Rightarrow> nat \<Rightarrow> bytes"
  cbc_pkcs7_encrypt :: "bytes \<Rightarrow> bytes \<Rightarrow> bytes \<Rightarrow> bytes"
  cbc_pkcs7_decrypt :: "bytes \<Rightarrow> bytes \<Rightarrow> bytes \<Rightarrow> bytes option"
  clamp_integer :: "bytes \<Rightarrow> bytes"
  x25519 :: "bytes \<Rightarrow> bytes \<Rightarrow> bytes"
  x25519_base :: "bytes \<Rightarrow> bytes"
  scalar_from_bytes_mod_order :: "bytes \<Rightarrow> scalar"
  scalar_from_hash :: "bytes \<Rightarrow> scalar"
  scalar_mul :: "scalar \<Rightarrow> scalar \<Rightarrow> scalar"
  scalar_add :: "scalar \<Rightarrow> scalar \<Rightarrow> scalar"
  ed_basepoint_mul :: "scalar \<Rightarrow> edpoint"
  ed_neg :: "edpoint \<Rightarrow> edpoint"
  ed_double_scalar_mul_basepoint :: "scalar \<Rightarrow> edpoint \<Rightarrow> scalar \<Rightarrow> edpoint"
  ed_compress :: "edpoint \<Rightarrow> bytes"
  ed_is_torsion_free :: "edpoint \<Rightarrow> bool"
  mont_to_edwards :: "bytes \<Rightarrow> u8 \<Rightarrow> edpoint option"
  kem_generate_key_pair :: "kem_key_type \<Rightarrow> bytes \<Rightarrow> bytes \<times> bytes"
  kem_encapsulate :: "kem_key_type \<Rightarrow> bytes \<Rightarrow> bytes \<Rightarrow> bytes \<times> bytes"
  kem_decapsulate :: "kem_key_type \<Rightarrow> bytes \<Rightarrow> bytes \<Rightarrow> bytes"
  spqr_initial_state :: "spqr_params \<Rightarrow> (bytes, spqr_error) result"
  spqr_send :: "bytes \<Rightarrow> 'r \<Rightarrow> (bytes \<times> bytes option \<times> bytes, spqr_error) result \<times> 'r"
  spqr_recv :: "bytes \<Rightarrow> bytes \<Rightarrow> (bytes \<times> bytes option, spqr_error) result"
  spqr_error_display :: "spqr_error \<Rightarrow> string"
  uuid_to_string :: "uuid \<Rightarrow> string"
  uuid_try_parse :: "string \<Rightarrow> uuid option"
  session_codec :: "session_structure codec"
  record_codec :: "record_structure codec"
  pre_key_record_codec :: "pre_key_record_structure codec"
  signed_pre_key_record_codec :: "signed_pre_key_record_structure codec"
  identity_key_pair_codec :: "identity_key_pair_structure codec"
  sender_key_record_codec :: "sender_key_record_structure codec"
  signal_message_codec :: "pb_signal_message codec"
  pre_key_signal_message_codec :: "pb_pre_key_signal_message codec"
  sender_key_message_codec :: "pb_sender_key_message codec"
  sender_key_distribution_codec :: "pb_sender_key_distribution_message codec"
  sealed_pqxdh_codec :: "pb_sealed_pqxdh_message codec"
  fingerprint_codec :: "pb_combined_fingerprints codec"
  decryption_error_codec :: "pb_decryption_error_message codec"
  content_codec :: "pb_content codec"

subsection \<open>Laws that theorems name as hypotheses\<close>

text \<open>What \<open>prost\<close> documents: decoding an encoded message gives it back.\<close>

definition codec_ok :: "'m codec \<Rightarrow> bool" where
  "codec_ok c \<longleftrightarrow> (\<forall>m. decode c (encode c m) = Some m)"

lemma codec_okD [simp]: "codec_ok c \<Longrightarrow> decode c (encode c m) = Some m"
  by (simp add: codec_ok_def)

text \<open>Output lengths of the hash functions, of AES-CTR's key stream and of X25519.\<close>

definition hash_lengths :: "'r env \<Rightarrow> bool" where
  "hash_lengths E \<longleftrightarrow>
     (\<forall>k m. length (hmac_sha256_raw E k m) = 32) \<and>
     (\<forall>s i l n. length (hkdf_sha256 E s i l n) = n) \<and>
     (\<forall>m. length (sha512 E m) = 64)"

definition keystream_length :: "'r env \<Rightarrow> bool" where
  "keystream_length E \<longleftrightarrow> (\<forall>k n l. length (aes256_ctr32be E k n l) = l)"

definition curve_lengths :: "'r env \<Rightarrow> bool" where
  "curve_lengths E \<longleftrightarrow>
     (\<forall>b. length b = 32 \<longrightarrow> length (clamp_integer E b) = 32) \<and>
     (\<forall>a. length (x25519_base E a) = 32) \<and>
     (\<forall>a u. length (x25519 E a u) = 32)"

definition rng_length :: "'r env \<Rightarrow> bool" where
  "rng_length E \<longleftrightarrow> (\<forall>n r. length (fst (rng_fill_bytes E n r)) = n) \<and>
     (\<forall>n r. length (fst (rng_random_bytes E n r)) = n)"

text \<open>CBC with PKCS#7: the ciphertext is a positive number of blocks and decrypts to its plaintext.\<close>

definition cbc_ok :: "'r env \<Rightarrow> bool" where
  "cbc_ok E \<longleftrightarrow> (\<forall>k iv p. length k = 32 \<longrightarrow> length iv = 16 \<longrightarrow>
     cbc_pkcs7_encrypt E k iv p \<noteq> [] \<and>
     length (cbc_pkcs7_encrypt E k iv p) mod 16 = 0 \<and>
     cbc_pkcs7_decrypt E k iv (cbc_pkcs7_encrypt E k iv p) = Some p)"

text \<open>Clamping is idempotent, and X25519 agreements commute.\<close>

definition dh_ok :: "'r env \<Rightarrow> bool" where
  "dh_ok E \<longleftrightarrow>
     (\<forall>b. clamp_integer E (clamp_integer E b) = clamp_integer E b) \<and>
     (\<forall>a b. x25519 E a (x25519_base E b) = x25519 E b (x25519_base E a))"

end
