(* ===== verification/Curve_Utils.thy ===== *)
theory Curve_Utils
  imports Types
begin

text \<open>
  \<open>rust/core/src/curve/utils.rs\<close>: the branch-free byte operations and the comparison of two
  keys built from them. Each routine is shown equal to the branching expression that its comment
  names, and \<open>constant_time_cmp\<close> to the plain lexicographic order (shorter strings first).
\<close>

definition expand_top_bit :: "u8 \<Rightarrow> u8" where
  "expand_top_bit a = 0 - drop_bit 7 a"

definition ct_is_zero :: "u8 \<Rightarrow> u8" where
  "ct_is_zero a = expand_top_bit (NOT a AND (a - 1))"

definition ct_is_eq :: "u8 \<Rightarrow> u8 \<Rightarrow> u8" where
  "ct_is_eq a b = ct_is_zero (a XOR b)"

definition ct_is_lt :: "u8 \<Rightarrow> u8 \<Rightarrow> u8" where
  "ct_is_lt a b = expand_top_bit (a XOR ((a XOR b) OR ((a - b) XOR a)))"

definition ct_select :: "u8 \<Rightarrow> u8 \<Rightarrow> u8 \<Rightarrow> u8" where
  "ct_select m a b = b XOR (m AND (a XOR b))"

datatype ordering = Less | Equal | Greater

text \<open>The loop visits the bytes from the last to the first; \<open>cmp_step\<close> is its body.\<close>

definition cmp_step :: "u8 \<Rightarrow> u8 \<Rightarrow> u8 \<Rightarrow> u8" where
  "cmp_step a b result =
     ct_select (ct_is_eq a b) result (ct_select (ct_is_lt a b) 1 255)"

fun cmp_loop :: "nat \<Rightarrow> bytes \<Rightarrow> bytes \<Rightarrow> u8 \<Rightarrow> u8" where
  "cmp_loop 0 x y result = result"
| "cmp_loop (Suc k) x y result = cmp_loop k x y (cmp_step (x ! k) (y ! k) result)"

definition constant_time_cmp :: "bytes \<Rightarrow> bytes \<Rightarrow> ordering" where
  "constant_time_cmp x y =
     (if length x < length y then Less
      else if length x > length y then Greater
      else let result = cmp_loop (length x) x y 0 in
        if result = 0 then Equal else if result = 1 then Less else Greater)"

subsection \<open>The byte operations compute what their comments say\<close>

lemma bit_7_iff: "bit (a :: u8) 7 \<longleftrightarrow> 128 \<le> unat a"
proof -
  have "unat a div 128 < 2" using unat_u8_less [of a] by (simp add: less_mult_imp_div_less)
  then have "odd (unat a div 128) \<longleftrightarrow> unat a div 128 = 1"
    by (metis One_nat_def even_zero less_2_cases odd_one)
  also have "\<dots> \<longleftrightarrow> 128 \<le> unat a"
    using unat_u8_less [of a] by linarith
  finally have "bit (unat a) 7 \<longleftrightarrow> 128 \<le> unat a" by (simp add: bit_iff_odd)
  then show ?thesis by (simp add: bit_unsigned_iff)
qed

lemma expand_top_bit_eq: "expand_top_bit a = (if bit a 7 then 255 else 0)"
proof -
  have "unat (drop_bit 7 a) = unat a div 128"
    by (subst unat_drop_bit_eq) (simp add: drop_bit_eq_div)
  also have "\<dots> = (if bit a 7 then 1 else 0)"
    using unat_u8_less [of a] by (auto simp: bit_7_iff div_nat_eqI)
  finally have "drop_bit 7 a = (if bit a 7 then 1 else 0)"
    by (simp add: word_unat_eq_iff split: if_splits)
  then show ?thesis by (simp add: expand_top_bit_def)
qed

lemma ct_is_zero_eq: "ct_is_zero a = (if a = 0 then 255 else 0)"
proof (cases "a = 0")
  case True
  then show ?thesis by (simp add: ct_is_zero_def expand_top_bit_eq bit_simps)
next
  case False
  have "\<not> bit (NOT a AND (a - 1)) 7"
  proof
    assume "bit (NOT a AND (a - 1)) 7"
    then have "\<not> bit a 7" and "bit (a - 1) 7" by (auto simp: bit_simps)
    moreover have "unat (a - 1) = unat a - 1" using False by (rule unat_minus_one)
    ultimately show False by (simp add: bit_7_iff)
  qed
  then show ?thesis using False by (simp add: ct_is_zero_def expand_top_bit_eq)
qed

lemma ct_is_eq_eq: "ct_is_eq a b = (if a = b then 255 else 0)"
proof -
  have "a XOR b = 0 \<longleftrightarrow> a = b" by (auto simp: bit_eq_iff bit_simps)
  then show ?thesis by (simp add: ct_is_eq_def ct_is_zero_eq)
qed

lemma unat_u8_minus:
  "unat (a - b :: u8) = (if unat b \<le> unat a then unat a - unat b else unat a + 256 - unat b)"
  by (simp add: unat_sub_if_size word_size)

lemma lt_by_halves:
  fixes x y :: nat
  assumes "x < 256" "y < 256"
  shows "(if (128 \<le> x) = (128 \<le> y) then 128 \<le> (if y \<le> x then x - y else x + 256 - y) else 128 \<le> y)
         \<longleftrightarrow> x < y"
  using assms by (cases "128 \<le> x"; cases "128 \<le> y"; cases "y \<le> x"; simp; arith)

lemma ct_is_lt_eq: "ct_is_lt a b = (if a < b then 255 else 0)"
proof -
  have "bit (a XOR ((a XOR b) OR ((a - b) XOR a))) 7 \<longleftrightarrow>
        (if bit a 7 = bit b 7 then bit (a - b) 7 else bit b 7)"
    by (auto simp: bit_simps)
  also have "\<dots> \<longleftrightarrow> unat a < unat b"
    unfolding bit_7_iff unat_u8_minus by (rule lt_by_halves) simp_all
  finally show ?thesis by (simp add: ct_is_lt_def expand_top_bit_eq word_less_nat_alt)
qed

lemma ct_select_eq:
  "ct_select 255 a b = a" "ct_select 0 a b = b"
proof -
  have m: "(255 :: u8) = - 1" by simp
  show "ct_select 255 a b = a"
    unfolding ct_select_def m by (simp add: bit_eq_iff bit_simps) blast
  show "ct_select 0 a b = b" by (simp add: ct_select_def)
qed

lemma cmp_step_eq: "cmp_step a b r = (if a = b then r else if a < b then 1 else 255)"
  by (simp add: cmp_step_def ct_is_eq_eq ct_is_lt_eq ct_select_eq)

subsection \<open>The comparison is lexicographic\<close>

text \<open>The order of byte strings of equal length, as \<open>[u8]\<close>'s \<open>Ord\<close> has it.\<close>

fun lex_cmp :: "bytes \<Rightarrow> bytes \<Rightarrow> ordering" where
  "lex_cmp (a # x) (b # y) = (if a = b then lex_cmp x y else if a < b then Less else Greater)"
| "lex_cmp [] [] = Equal"
| "lex_cmp [] (b # y) = Less"
| "lex_cmp (a # x) [] = Greater"

definition ordering_code :: "u8 \<Rightarrow> ordering" where
  "ordering_code r = (if r = 0 then Equal else if r = 1 then Less else Greater)"

lemma cmp_loop_Cons:
  "cmp_loop (Suc k) (a # x) (b # y) r = cmp_step a b (cmp_loop k x y r)"
  by (induction k arbitrary: r) simp_all

lemma cmp_loop_lex:
  "length x = length y \<Longrightarrow> ordering_code (cmp_loop (length x) x y 0) = lex_cmp x y"
proof (induction x y rule: lex_cmp.induct)
  case (1 a x b y)
  have "ordering_code (cmp_step a b (cmp_loop (length x) x y 0)) = lex_cmp (a # x) (b # y)"
    using 1 by (cases "a = b") (simp_all add: cmp_step_eq ordering_code_def)
  then show ?case by (simp only: list.size cmp_loop_Cons add_Suc_right add_0_right)
qed (simp_all add: ordering_code_def)

lemma constant_time_cmp_lex:
  "constant_time_cmp x y =
     (if length x < length y then Less else if length x > length y then Greater else lex_cmp x y)"
  using cmp_loop_lex [of x y] by (simp add: constant_time_cmp_def Let_def ordering_code_def)

lemma lex_cmp_Equal: "length x = length y \<Longrightarrow> lex_cmp x y = Equal \<longleftrightarrow> x = y"
  by (induction x y rule: lex_cmp.induct) auto

lemma lex_cmp_be:
  assumes "length x = length y"
  shows "lex_cmp x y =
     (if be_nat x < be_nat y then Less else if be_nat x = be_nat y then Equal else Greater)"
  using assms
proof (induction x y rule: lex_cmp.induct)
  case (1 a x b y)
  have expand: "be_nat (c # z) = be_nat z + 256 ^ length z * unat c" for c z
    by (simp add: be_nat_def le_nat_append)
  have bx: "be_nat x < 256 ^ length y" and by': "be_nat y < 256 ^ length y"
    using le_nat_less [of "rev x"] le_nat_less [of "rev y"] "1.prems" by (simp_all add: be_nat_def)
  have less: "be_nat u + 256 ^ length y * m < be_nat v + 256 ^ length y * n"
    if "m < n" "be_nat u < 256 ^ length y" for u v m n
  proof -
    have "256 ^ length y * Suc m \<le> 256 ^ length y * n" using that(1) by (simp only: mult_le_mono2 Suc_leI)
    then show ?thesis using that(2) by simp
  qed
  consider (eq) "a = b" | (lt) "a < b" | (gt) "b < a" by fastforce
  then show ?case
  proof cases
    case eq
    then show ?thesis using "1.IH" "1.prems" by (simp add: expand)
  next
    case lt
    then have "unat a < unat b" by (simp add: word_less_nat_alt)
    from less [OF this bx, of y] show ?thesis using lt "1.prems" by (auto simp: expand)
  next
    case gt
    then have "unat b < unat a" by (simp add: word_less_nat_alt)
    from less [OF this by', of x] show ?thesis using gt "1.prems" by (auto simp: expand)
  qed
qed simp_all

end
