(* ===== verification/Curve.thy ===== *)
theory Curve
  imports Externals Curve_Utils
begin

text \<open>
  \<open>rust/core/src/curve.rs\<close> and \<open>curve/curve25519.rs\<close>: public and private keys, their byte
  formats, key agreement, XEdDSA signatures and the canonicity test. A Rust array \<open>[u8; 32]\<close>
  is a byte list; \<open>public_key_ok\<close> and \<open>private_key_ok\<close> state the length the Rust type fixes.
  The arithmetic of the \<open>dalek\<close> crates is taken from the environment.
\<close>

datatype public_key = DjbPublicKey (public_key_bytes: bytes)
datatype private_key = DjbPrivateKey (private_key_data: bytes)

record key_pair =
  kp_public_key :: public_key
  kp_private_key :: private_key

definition public_key_ok :: "public_key \<Rightarrow> bool" where
  "public_key_ok k \<longleftrightarrow> length (public_key_bytes k) = 32"

definition private_key_ok :: "private_key \<Rightarrow> bool" where
  "private_key_ok k \<longleftrightarrow> length (private_key_data k) = 32"

declare public_key_ok_def [wf_simps] private_key_ok_def [wf_simps]

definition KeyType_value :: "key_type \<Rightarrow> u8" where
  "KeyType_value t = (case t of Djb \<Rightarrow> 0x05)"

definition KeyType_try_from :: "u8 \<Rightarrow> (key_type, curve_error) result" where
  "KeyType_try_from x = (if x = 0x05 then Ok Djb else Err (CBadKeyType x))"

subsection \<open>\<open>PublicKey\<close>\<close>

definition PublicKey_deserialize :: "bytes \<Rightarrow> (public_key, curve_error) result" where
  "PublicKey_deserialize input =
     (case input of
        [] \<Rightarrow> Err CNoKeyTypeIdentifier
      | t # key \<Rightarrow> bindR (KeyType_try_from t) (\<lambda>kt. case kt of
          Djb \<Rightarrow>
            if length key < 32 then Err (CBadKeyLength Djb (length key + 1))
            else Ok (DjbPublicKey (take 32 key))))"

definition from_djb_public_key_bytes :: "bytes \<Rightarrow> (public_key, curve_error) result" where
  "from_djb_public_key_bytes bs =
     (if length bs = 32 then Ok (DjbPublicKey bs) else Err (CBadKeyLength Djb (length bs)))"

definition PublicKey_key_type :: "public_key \<Rightarrow> key_type" where
  "PublicKey_key_type k = (case k of DjbPublicKey _ \<Rightarrow> Djb)"

definition PublicKey_serialize :: "public_key \<Rightarrow> bytes" where
  "PublicKey_serialize k = KeyType_value (PublicKey_key_type k) # public_key_bytes k"

definition is_torsion_free :: "'r env \<Rightarrow> public_key \<Rightarrow> bool" where
  "is_torsion_free E k =
     (case mont_to_edwards E (public_key_bytes k) 0 of
        None \<Rightarrow> False | Some ed \<Rightarrow> ed_is_torsion_free E ed)"

definition scalar_is_in_range :: "public_key \<Rightarrow> bool" where
  "scalar_is_in_range pk =
     (let k = public_key_bytes pk in
      \<not> (k ! 31 AND 0x80 \<noteq> 0
         \<or> (k ! 0 \<ge> 0 - 19 \<and> take 30 (drop 1 k) = replicate 30 0xFF \<and> k ! 31 = 0x7F)))"

definition is_canonical :: "'r env \<Rightarrow> public_key \<Rightarrow> bool" where
  "is_canonical E k \<longleftrightarrow> is_torsion_free E k \<and> scalar_is_in_range k"

definition PublicKey_cmp :: "public_key \<Rightarrow> public_key \<Rightarrow> ordering" where
  "PublicKey_cmp a b = constant_time_cmp (public_key_bytes a) (public_key_bytes b)"

subsection \<open>\<open>curve25519::PrivateKey\<close>\<close>

definition c25519_new :: "'r env \<Rightarrow> 'r \<Rightarrow> bytes \<times> 'r" where
  "c25519_new E r = (let (b, r') = rng_fill_bytes E 32 r in (clamp_integer E b, r'))"

definition xeddsa_hash_prefix :: bytes where
  "xeddsa_hash_prefix = 0xFE # replicate 31 0xFF"

definition c25519_calculate_signature ::
    "'r env \<Rightarrow> bytes \<Rightarrow> bytes list \<Rightarrow> 'r \<Rightarrow> bytes \<times> 'r" where
  "c25519_calculate_signature E secret message r =
     (let (random_bytes, r') = rng_fill_bytes E 64 r;
          key_data = secret;
          a = scalar_from_bytes_mod_order E key_data;
          ed_public_key = ed_compress E (ed_basepoint_mul E a);
          sign_bit = ed_public_key ! 31 AND 0x80;
          r_sc = scalar_from_hash E (sha512 E (xeddsa_hash_prefix @ key_data @ concat message @ random_bytes));
          cap_r = ed_compress E (ed_basepoint_mul E r_sc);
          h = scalar_from_hash E (sha512 E (cap_r @ ed_public_key @ concat message));
          s = scalar_add E (scalar_mul E h a) r_sc;
          sig = cap_r @ s
      in (sig[63 := ((sig ! 63) AND 0x7F) OR sign_bit], r'))"

definition c25519_verify_signature :: "'r env \<Rightarrow> bytes \<Rightarrow> bytes list \<Rightarrow> bytes \<Rightarrow> bool" where
  "c25519_verify_signature E their_public_key message signature =
     (case mont_to_edwards E their_public_key (drop_bit 7 (signature ! 63 AND 0x80)) of
        None \<Rightarrow> False
      | Some ed_pub_key_point \<Rightarrow>
          let cap_a = ed_compress E ed_pub_key_point;
              cap_r = take 32 signature;
              s0 = drop 32 signature;
              s = s0[31 := s0 ! 31 AND 0x7F]
          in if s ! 31 AND 0xE0 \<noteq> 0 then False
             else
               let minus_cap_a = ed_neg E ed_pub_key_point;
                   h = scalar_from_hash E (sha512 E (cap_r @ cap_a @ concat message));
                   check = ed_double_scalar_mul_basepoint E h minus_cap_a
                             (scalar_from_bytes_mod_order E s)
               in ed_compress E check = cap_r)"

subsection \<open>\<open>PrivateKey\<close> and \<open>KeyPair\<close>\<close>

definition PrivateKey_deserialize :: "'r env \<Rightarrow> bytes \<Rightarrow> (private_key, curve_error) result" where
  "PrivateKey_deserialize E v =
     (if length v = 32 then Ok (DjbPrivateKey (clamp_integer E v))
      else Err (CBadKeyLength Djb (length v)))"

definition PrivateKey_serialize :: "private_key \<Rightarrow> bytes" where
  "PrivateKey_serialize k = private_key_data k"

definition PrivateKey_public_key :: "'r env \<Rightarrow> private_key \<Rightarrow> public_key" where
  "PrivateKey_public_key E k = DjbPublicKey (x25519_base E (clamp_integer E (private_key_data k)))"

definition calculate_signature_for_multipart_message ::
    "'r env \<Rightarrow> private_key \<Rightarrow> bytes list \<Rightarrow> 'r \<Rightarrow> bytes \<times> 'r" where
  "calculate_signature_for_multipart_message E k message r =
     c25519_calculate_signature E (clamp_integer E (private_key_data k)) message r"

definition PrivateKey_calculate_signature :: "'r env \<Rightarrow> private_key \<Rightarrow> bytes \<Rightarrow> 'r \<Rightarrow> bytes \<times> 'r" where
  "PrivateKey_calculate_signature E k message r =
     calculate_signature_for_multipart_message E k [message] r"

definition calculate_agreement :: "'r env \<Rightarrow> private_key \<Rightarrow> public_key \<Rightarrow> bytes" where
  "calculate_agreement E k their_key =
     x25519 E (clamp_integer E (private_key_data k)) (public_key_bytes their_key)"

definition verify_signature_for_multipart_message ::
    "'r env \<Rightarrow> public_key \<Rightarrow> bytes list \<Rightarrow> bytes \<Rightarrow> bool" where
  "verify_signature_for_multipart_message E k message signature =
     (if length signature \<noteq> 64 then False
      else c25519_verify_signature E (public_key_bytes k) message signature)"

definition verify_signature :: "'r env \<Rightarrow> public_key \<Rightarrow> bytes \<Rightarrow> bytes \<Rightarrow> bool" where
  "verify_signature E k message signature =
     verify_signature_for_multipart_message E k [message] signature"

definition KeyPair_generate :: "'r env \<Rightarrow> 'r \<Rightarrow> key_pair \<times> 'r" where
  "KeyPair_generate E r =
     (let (b, r') = c25519_new E r
      in (\<lparr>kp_public_key = DjbPublicKey (x25519_base E b), kp_private_key = DjbPrivateKey b\<rparr>, r'))"

definition KeyPair_from_public_and_private ::
    "'r env \<Rightarrow> bytes \<Rightarrow> bytes \<Rightarrow> (key_pair, curve_error) result" where
  "KeyPair_from_public_and_private E pub priv =
     bindR (PublicKey_deserialize pub) (\<lambda>public_key.
     bindR (PrivateKey_deserialize E priv) (\<lambda>private_key.
     Ok \<lparr>kp_public_key = public_key, kp_private_key = private_key\<rparr>))"

subsection \<open>Byte formats\<close>

lemma length_PublicKey_serialize: "public_key_ok k \<Longrightarrow> length (PublicKey_serialize k) = 33"
  by (cases k) (simp add: PublicKey_serialize_def public_key_ok_def)

lemma PublicKey_serialize_neq_Nil [simp]: "PublicKey_serialize k \<noteq> []"
  by (simp add: PublicKey_serialize_def)

text \<open>Parsing accepts trailing bytes, as the comment in the source says.\<close>

lemma PublicKey_deserialize_serialize:
  assumes "public_key_ok k"
  shows "PublicKey_deserialize (PublicKey_serialize k @ tail) = Ok k"
  using assms
  by (cases k) (simp add: PublicKey_deserialize_def PublicKey_serialize_def PublicKey_key_type_def
      KeyType_value_def KeyType_try_from_def public_key_ok_def)

lemma PublicKey_deserialize_ok: "PublicKey_deserialize v = Ok k \<Longrightarrow> public_key_ok k"
  by (auto simp: PublicKey_deserialize_def KeyType_try_from_def public_key_ok_def result_simps
      split: list.splits if_splits key_type.splits)

lemma PublicKey_deserialize_no_panic [simp]: "PublicKey_deserialize v \<noteq> Panic"
  by (auto simp: PublicKey_deserialize_def KeyType_try_from_def split: list.splits key_type.splits)

lemma PrivateKey_deserialize_no_panic [simp]: "PrivateKey_deserialize E v \<noteq> Panic"
  by (simp add: PrivateKey_deserialize_def)

interpretation public_key_serde: serde PublicKey_serialize PublicKey_deserialize public_key_ok
  using PublicKey_deserialize_serialize [where tail = "[]"] by unfold_locales simp

lemma KeyPair_generate_ok:
  assumes "curve_lengths E" "rng_length E"
  shows "public_key_ok (kp_public_key (fst (KeyPair_generate E r)))"
    and "private_key_ok (kp_private_key (fst (KeyPair_generate E r)))"
  using assms
  by (auto simp: KeyPair_generate_def c25519_new_def curve_lengths_def rng_length_def wf_simps
      split: prod.splits)
     (metis fst_conv)

text \<open>A generated key pair is consistent: its public half is derived from its private half.\<close>

definition key_pair_ok :: "'r env \<Rightarrow> key_pair \<Rightarrow> bool" where
  "key_pair_ok E kp \<longleftrightarrow>
     kp_public_key kp = PrivateKey_public_key E (kp_private_key kp) \<and>
     clamp_integer E (private_key_data (kp_private_key kp)) = private_key_data (kp_private_key kp)"

lemma KeyPair_generate_key_pair_ok:
  assumes "dh_ok E"
  shows "key_pair_ok E (fst (KeyPair_generate E r))"
  using assms
  by (simp add: key_pair_ok_def KeyPair_generate_def c25519_new_def PrivateKey_public_key_def
      dh_ok_def split: prod.splits)

text \<open>Diffie-Hellman agreement between consistent key pairs.\<close>

lemma calculate_agreement_commute:
  assumes "dh_ok E"
  shows "calculate_agreement E a (PrivateKey_public_key E b) =
         calculate_agreement E b (PrivateKey_public_key E a)"
  using assms by (simp add: calculate_agreement_def PrivateKey_public_key_def dh_ok_def)

lemma length_calculate_agreement: "curve_lengths E \<Longrightarrow> length (calculate_agreement E a b) = 32"
  by (simp add: calculate_agreement_def curve_lengths_def)

subsection \<open>Range of the key as an integer\<close>

lemma le_nat_replicate_max: "le_nat (replicate n 255) = 256 ^ n - 1"
proof (induction n)
  case (Suc n)
  have "(1::nat) \<le> 256 ^ n" by simp
  moreover have "unat (255 :: u8) = 255" by (simp add: unsigned_numeral)
  ultimately show ?case using Suc by (simp add: algebra_simps)
qed simp

lemma le_nat_max_iff: "le_nat bs = 256 ^ length bs - 1 \<longleftrightarrow> bs = replicate (length bs) 255"
proof
  assume eq: "le_nat bs = 256 ^ length bs - 1"
  have "le_bytes (length bs) (le_nat bs) = le_bytes (length bs) (le_nat (replicate (length bs) 255))"
    using eq by (simp add: le_nat_replicate_max)
  then show "bs = replicate (length bs) 255"
    using le_bytes_le_nat [of bs] le_bytes_le_nat [of "replicate (length bs) 255"] by simp
next
  assume "bs = replicate (length bs) 255"
  then show "le_nat bs = 256 ^ length bs - 1"
    by (metis le_nat_replicate_max)
qed

lemma bytes32_split:
  assumes "length k = 32"
  shows "\<exists>k0 mid k31. k = k0 # mid @ [k31] \<and> length mid = 30"
proof -
  obtain k0 t where k: "k = k0 # t" using assms by (cases k) auto
  then obtain mid k31 where "t = mid @ [k31]" using assms by (cases t rule: rev_cases) auto
  then show ?thesis using k assms by auto
qed

lemma high_bit_iff: "(b :: u8) AND 0x80 \<noteq> 0 \<longleftrightarrow> 128 \<le> unat b"
proof -
  have e: "(0x80 :: u8) = 2 ^ 7" by simp
  have "bit (b AND 0x80) n \<longleftrightarrow> n = 7 \<and> bit b 7" for n
    unfolding e by (simp only: bit_and_iff bit_exp_iff) auto
  moreover have "x = 0 \<longleftrightarrow> (\<forall>n. \<not> bit x n)" for x :: u8
    by (metis bit_0_eq bit_eqI bot_apply bot_bool_def)
  ultimately have "b AND 0x80 \<noteq> 0 \<longleftrightarrow> bit b 7" by auto
  then show ?thesis by (simp add: bit_7_iff)
qed

text \<open>Top-level split on the high limb: \<open>c\<close> is the first byte, \<open>h\<close> the value of the other 31.\<close>

lemma range_split:
  fixes c h :: nat
  assumes "c < 256" "h \<le> 2 ^ 247 - 1"
  shows "c + 256 * h < 2 ^ 255 - 19 \<longleftrightarrow> \<not> (237 \<le> c \<and> h = 2 ^ 247 - 1)"
  using assms by auto

lemma scalar_is_in_range_le:
  assumes "length k = 32"
  shows "scalar_is_in_range (DjbPublicKey k) \<longleftrightarrow> le_nat k < 2 ^ 255 - 19"
proof -
  obtain k0 mid k31 where k: "k = k0 # mid @ [k31]" and mid: "length mid = 30"
    using bytes32_split [OF assms] by blast
  define h where "h = le_nat mid + 256 ^ 30 * unat k31"
  have val: "le_nat k = unat k0 + 256 * h" by (simp add: k le_nat_append mid h_def)
  have midlt: "le_nat mid < 256 ^ 30" using le_nat_less [of mid] by (simp add: mid)
  have nth: "k ! 31 = k31" "k ! 0 = k0" "take 30 (drop (Suc 0) k) = mid"
    by (simp_all add: k mid nth_append nth_Cons')
  have k0: "- 19 \<le> k0 \<longleftrightarrow> 237 \<le> unat k0"
  proof -
    have "(- 19 :: u8) = 237" by simp
    moreover have "unat (237 :: u8) = 237" by (simp add: unsigned_numeral)
    ultimately show ?thesis by (simp only: word_le_nat_alt)
  qed
  show ?thesis
  proof (cases "128 \<le> unat k31")
    case True
    then have "256 ^ 30 * 128 \<le> h" unfolding h_def by (simp add: trans_le_add2)
    then have "2 ^ 255 \<le> le_nat k" by (simp add: val)
    moreover have "\<not> scalar_is_in_range (DjbPublicKey k)"
      using True by (simp add: scalar_is_in_range_def nth high_bit_iff Let_def)
    ultimately show ?thesis by auto
  next
    case False
    have all1: "h = 2 ^ 247 - 1 \<longleftrightarrow> k31 = 0x7F \<and> mid = replicate 30 255"
    proof -
      have "k31 = 0x7F \<longleftrightarrow> unat k31 = 127" by (simp add: word_unat_eq_iff)
      moreover have "mid = replicate 30 255 \<longleftrightarrow> le_nat mid = 256 ^ 30 - 1"
        using le_nat_max_iff [of mid] mid by simp
      ultimately show ?thesis using midlt False unfolding h_def by auto
    qed
    have "h \<le> 2 ^ 247 - 1" using midlt False unfolding h_def by simp
    from range_split [OF _ this, of "unat k0"] all1 show ?thesis
      using False by (auto simp: scalar_is_in_range_def nth high_bit_iff Let_def val k0)
  qed
qed

subsection \<open>XEdDSA signatures verify\<close>

text \<open>
  What the signature scheme needs of the curve arithmetic: encodings have 32 bytes, sums of
  scalars are reduced (below \<open>2^253\<close>, so the three top bits are clear) and survive a round
  trip through bytes, the Montgomery public key maps back to the Edwards point with the given
  sign, and the verification equation of the group.
\<close>

definition xeddsa_ok :: "'r env \<Rightarrow> bool" where
  "xeddsa_ok E \<longleftrightarrow>
     (\<forall>p. length (ed_compress E p) = 32) \<and>
     (\<forall>x y. length (scalar_add E x y) = 32 \<and> scalar_add E x y ! 31 AND 0xE0 = 0 \<and>
        scalar_from_bytes_mod_order E (scalar_add E x y) = scalar_add E x y) \<and>
     (\<forall>k. clamp_integer E k = k \<longrightarrow>
        (let A = ed_basepoint_mul E (scalar_from_bytes_mod_order E k)
         in mont_to_edwards E (x25519_base E k) (drop_bit 7 (ed_compress E A ! 31 AND 0x80)) = Some A)) \<and>
     (\<forall>h a r. ed_double_scalar_mul_basepoint E h (ed_neg E (ed_basepoint_mul E a))
        (scalar_add E (scalar_mul E h a) r) = ed_basepoint_mul E r)"

lemma bit_0x7F: "bit (0x7F :: u8) n \<longleftrightarrow> n < 7"
proof -
  have e: "(0x7F :: u8) = mask 7" by (simp add: mask_eq_exp_minus_1)
  show ?thesis unfolding e by (simp only: bit_mask_iff) auto
qed

lemma bit_0x80: "bit (0x80 :: u8) n \<longleftrightarrow> n = 7"
proof -
  have "(0x80 :: u8) = 2 ^ 7" by simp
  then show ?thesis by (simp only: bit_exp_iff) auto
qed

lemma clear_high: "(x :: u8) AND 0xE0 = 0 \<Longrightarrow> x AND 0x7F = x"
proof -
  assume "x AND 0xE0 = 0"
  moreover have "bit (0xE0 :: u8) 7" by simp
  ultimately have "\<not> bit x 7" by (metis bit_0_eq bit_and_iff bot_apply bot_bool_def)
  then have "bit x n \<Longrightarrow> n < 7" for n
    using bit_imp_le_length [of x n] by (cases "n = 7") auto
  then show ?thesis by (intro bit_eqI) (simp only: bit_and_iff bit_0x7F, blast)
qed

lemma sign_byte:
  fixes x y :: u8
  shows "(((x AND 0x7F) OR (y AND 0x80)) AND 0x80) = y AND 0x80"
    and "(((x AND 0x7F) OR (y AND 0x80)) AND 0x7F) = x AND 0x7F"
  by (intro bit_eqI, simp only: bit_and_iff bit_or_iff bit_0x7F bit_0x80, auto)+

lemma signature_layout:
  fixes R s :: bytes and y :: u8
  assumes "length R = 32" "length s = 32"
  defines "sig \<equiv> (R @ s)[63 := (((R @ s) ! 63) AND 0x7F) OR (y AND 0x80)]"
  shows "length sig = 64" "take 32 sig = R" "sig ! 63 AND 0x80 = y AND 0x80"
    and "s ! 31 AND 0xE0 = 0 \<Longrightarrow> (drop 32 sig)[31 := drop 32 sig ! 31 AND 0x7F] = s"
proof -
  have sig: "sig = R @ s[31 := (s ! 31 AND 0x7F) OR (y AND 0x80)]"
    using assms(1,2) by (simp add: sig_def list_update_append nth_append)
  show "length sig = 64" "take 32 sig = R" using assms(1,2) by (simp_all add: sig)
  show "sig ! 63 AND 0x80 = y AND 0x80"
    using assms(1,2) by (simp add: sig nth_append sign_byte(1))
  assume "s ! 31 AND 0xE0 = 0"
  then have clear: "s ! 31 AND 0x7F = s ! 31" by (rule clear_high)
  show "(drop 32 sig)[31 := drop 32 sig ! 31 AND 0x7F] = s"
    using assms(1,2) sign_byte(2) [of "s ! 31" y] by (simp add: sig clear)
qed

lemma xeddsa_sign_verify:
  assumes ok: "xeddsa_ok E" and clamped: "clamp_integer E k = k"
  shows "c25519_verify_signature E (x25519_base E k) message
           (fst (c25519_calculate_signature E k message r))"
    and "length (fst (c25519_calculate_signature E k message r)) = 64"
proof -
  obtain rnd r' where rnd: "rng_fill_bytes E 64 r = (rnd, r')" by fastforce
  define a where "a = scalar_from_bytes_mod_order E k"
  define A where "A = ed_basepoint_mul E a"
  define rs where "rs = scalar_from_hash E (sha512 E (xeddsa_hash_prefix @ k @ concat message @ rnd))"
  define R where "R = ed_compress E (ed_basepoint_mul E rs)"
  define h where "h = scalar_from_hash E (sha512 E (R @ ed_compress E A @ concat message))"
  define s where "s = scalar_add E (scalar_mul E h a) rs"
  define sig where "sig = (R @ s)[63 := (((R @ s) ! 63) AND 0x7F) OR (ed_compress E A ! 31 AND 0x80)]"
  have fst_sig: "fst (c25519_calculate_signature E k message r) = sig"
    by (simp add: c25519_calculate_signature_def rnd Let_def sig_def s_def h_def R_def rs_def A_def a_def)
  have lens: "length R = 32" "length s = 32" using ok by (simp_all add: xeddsa_ok_def R_def s_def)
  have s31: "s ! 31 AND 0xE0 = 0" "scalar_from_bytes_mod_order E s = s"
    using ok by (simp_all add: xeddsa_ok_def s_def)
  note layout = signature_layout [OF lens, of "ed_compress E A ! 31", folded sig_def]
  have pt: "mont_to_edwards E (x25519_base E k) (drop_bit 7 (sig ! 63 AND 0x80)) = Some A"
    using ok clamped by (simp add: layout(3) xeddsa_ok_def Let_def A_def a_def)
  have eqn: "ed_double_scalar_mul_basepoint E h (ed_neg E A) s = ed_basepoint_mul E rs"
    using ok by (simp add: xeddsa_ok_def A_def s_def)
  show "length (fst (c25519_calculate_signature E k message r)) = 64"
    by (simp add: fst_sig layout(1))
  show "c25519_verify_signature E (x25519_base E k) message
          (fst (c25519_calculate_signature E k message r))"
    unfolding fst_sig c25519_verify_signature_def
    by (simp only: pt option.case layout(2) layout(4) [OF s31(1)] Let_def s31 h_def [symmetric] eqn
        R_def [symmetric]) simp
qed

lemma signature_roundtrip:
  assumes "xeddsa_ok E" "dh_ok E"
  shows "verify_signature_for_multipart_message E (PrivateKey_public_key E k) message
           (fst (calculate_signature_for_multipart_message E k message r))"
proof -
  have "clamp_integer E (clamp_integer E (private_key_data k)) = clamp_integer E (private_key_data k)"
    using assms(2) by (simp add: dh_ok_def)
  from xeddsa_sign_verify [OF assms(1) this] show ?thesis
    by (simp add: verify_signature_for_multipart_message_def PrivateKey_public_key_def
        calculate_signature_for_multipart_message_def)
qed

end
