(* ===== verification/Crypto.thy ===== *)
theory Crypto
  imports Externals
begin

text \<open>
  \<open>rust/protocol/src/crypto.rs\<close> and \<open>rust/crypto/src/aes_cbc.rs\<close>: the wrappers around
  AES-256-CTR with a zero nonce, HMAC-SHA256, their encrypt-then-MAC combination with a ten-byte
  tag, and AES-256-CBC with PKCS#7 padding. A stream cipher's \<open>apply_keystream\<close> is the XOR with
  the key stream.
\<close>

datatype encryption_error = EncBadKeyOrIv
datatype decryption_error = BadKeyOrIv | BadCiphertext string

definition apply_keystream :: "bytes \<Rightarrow> bytes \<Rightarrow> bytes" where
  "apply_keystream ks buf = map2 (XOR) buf ks"

definition aes_256_ctr_encrypt :: "'r env \<Rightarrow> bytes \<Rightarrow> bytes \<Rightarrow> (bytes, encryption_error) result" where
  "aes_256_ctr_encrypt E ptext key =
     (if length key \<noteq> 32 then Err EncBadKeyOrIv
      else let zero_nonce = replicate 16 0
           in Ok (apply_keystream (aes256_ctr32be E key zero_nonce (length ptext)) ptext))"

definition aes_256_ctr_decrypt :: "'r env \<Rightarrow> bytes \<Rightarrow> bytes \<Rightarrow> (bytes, decryption_error) result" where
  "aes_256_ctr_decrypt E ctext key =
     map_err (\<lambda>e. case e of EncBadKeyOrIv \<Rightarrow> BadKeyOrIv) (aes_256_ctr_encrypt E ctext key)"

definition hmac_sha256 :: "'r env \<Rightarrow> bytes \<Rightarrow> bytes \<Rightarrow> bytes" where
  "hmac_sha256 E key input = hmac_sha256_raw E key input"

definition aes256_ctr_hmacsha256_encrypt ::
    "'r env \<Rightarrow> bytes \<Rightarrow> bytes \<Rightarrow> bytes \<Rightarrow> (bytes, encryption_error) result" where
  "aes256_ctr_hmacsha256_encrypt E msg cipher_key mac_key =
     bindR (aes_256_ctr_encrypt E msg cipher_key) (\<lambda>ctext.
     let mac = hmac_sha256 E mac_key ctext
     in Ok (ctext @ take 10 mac))"

definition aes256_ctr_hmacsha256_decrypt ::
    "'r env \<Rightarrow> bytes \<Rightarrow> bytes \<Rightarrow> bytes \<Rightarrow> (bytes, decryption_error) result" where
  "aes256_ctr_hmacsha256_decrypt E ctext cipher_key mac_key =
     (if length ctext < 10 then Err (BadCiphertext ''truncated ciphertext'')
      else
        let ptext_len = length ctext - 10;
            our_mac = hmac_sha256 E mac_key (take ptext_len ctext);
            same = (take 10 our_mac = drop ptext_len ctext)
        in if \<not> same then Err (BadCiphertext ''MAC verification failed'')
           else aes_256_ctr_decrypt E (take ptext_len ctext) cipher_key)"

definition aes_256_cbc_encrypt ::
    "'r env \<Rightarrow> bytes \<Rightarrow> bytes \<Rightarrow> bytes \<Rightarrow> (bytes, encryption_error) result" where
  "aes_256_cbc_encrypt E ptext key iv =
     (if length key \<noteq> 32 \<or> length iv \<noteq> 16 then Err EncBadKeyOrIv
      else Ok (cbc_pkcs7_encrypt E key iv ptext))"

definition aes_256_cbc_decrypt ::
    "'r env \<Rightarrow> bytes \<Rightarrow> bytes \<Rightarrow> bytes \<Rightarrow> (bytes, decryption_error) result" where
  "aes_256_cbc_decrypt E ctext key iv =
     (if ctext = [] \<or> length ctext mod 16 \<noteq> 0
      then Err (BadCiphertext ''ciphertext length must be a non-zero multiple of 16'')
      else if length key \<noteq> 32 \<or> length iv \<noteq> 16 then Err BadKeyOrIv
      else ok_or (BadCiphertext ''failed to decrypt'') (cbc_pkcs7_decrypt E key iv ctext))"

subsection \<open>Lemmas\<close>

lemma apply_keystream_twice: "length ks = length p \<Longrightarrow> apply_keystream ks (apply_keystream ks p) = p"
  by (induction p ks rule: list_induct2') (auto simp: apply_keystream_def xor.assoc)

lemma length_apply_keystream: "length ks = length p \<Longrightarrow> length (apply_keystream ks p) = length p"
  by (simp add: apply_keystream_def)

lemma aes_256_ctr_length:
  "keystream_length E \<Longrightarrow> aes_256_ctr_encrypt E p k = Ok c \<Longrightarrow> length c = length p"
  by (auto simp: aes_256_ctr_encrypt_def keystream_length_def length_apply_keystream Let_def
      split: if_splits)

lemma aes_256_ctr_roundtrip:
  assumes "keystream_length E" "length k = 32"
  shows "\<exists>c. aes_256_ctr_encrypt E p k = Ok c \<and> length c = length p \<and> aes_256_ctr_decrypt E c k = Ok p"
  using assms
  by (auto simp: aes_256_ctr_encrypt_def aes_256_ctr_decrypt_def keystream_length_def
      length_apply_keystream apply_keystream_twice Let_def)

lemma ctr_hmac_decrypt_split:
  assumes "length tag = 10"
  shows "aes256_ctr_hmacsha256_decrypt E (body @ tag) ck mk =
     (if take 10 (hmac_sha256 E mk body) = tag then aes_256_ctr_decrypt E body ck
      else Err (BadCiphertext ''MAC verification failed''))"
  using assms by (simp add: aes256_ctr_hmacsha256_decrypt_def Let_def)

lemma ctr_hmac_roundtrip:
  assumes "hash_lengths E" "keystream_length E" "length ck = 32"
  shows "\<exists>c. aes256_ctr_hmacsha256_encrypt E p ck mk = Ok c \<and> length c = length p + 10 \<and>
    aes256_ctr_hmacsha256_decrypt E c ck mk = Ok p"
proof -
  obtain c where c: "aes_256_ctr_encrypt E p ck = Ok c" "length c = length p" "aes_256_ctr_decrypt E c ck = Ok p"
    using aes_256_ctr_roundtrip [OF assms(2,3)] by blast
  have len: "length (take 10 (hmac_sha256 E mk x)) = 10" for x
    using assms(1) by (simp add: hash_lengths_def hmac_sha256_def)
  show ?thesis
    using c ctr_hmac_decrypt_split [OF len [of c], of E c ck mk] len [of c]
    by (auto simp: aes256_ctr_hmacsha256_encrypt_def)
qed

lemma aes_256_cbc_roundtrip:
  assumes "cbc_ok E" "length k = 32" "length iv = 16"
  shows "aes_256_cbc_encrypt E p k iv = Ok (cbc_pkcs7_encrypt E k iv p)"
    and "aes_256_cbc_decrypt E (cbc_pkcs7_encrypt E k iv p) k iv = Ok p"
  using assms by (auto simp: aes_256_cbc_encrypt_def aes_256_cbc_decrypt_def cbc_ok_def)

lemma aes_cbc_no_panic [simp]:
  "aes_256_cbc_encrypt E p k iv \<noteq> Panic" "aes_256_cbc_decrypt E c k iv \<noteq> Panic"
  by (simp_all add: aes_256_cbc_encrypt_def aes_256_cbc_decrypt_def)

end
