(* ===== verification/Kem_Parameters.thy ===== *)
theory Kem_Parameters
  imports Externals
begin

text \<open>
  The trait \<open>Parameters\<close> of \<open>rust/protocol/src/kem.rs\<close> and its implementations in \<open>kem/kyber1024.rs\<close> and
  \<open>kem/mlkem1024.rs\<close>, with \<open>DynParameters\<close>, which adds the error mapping and is selected by the key type.
  The lengths are those of the 1024 parameter set of \<open>libcrux\<close>; \<open>kem_encapsulate\<close> and its companions of
  \<open>env\<close> are the functions of that crate, one family per key type.
\<close>

subsection \<open>The trait\<close>

text \<open>The error types of \<open>Parameters::encapsulate\<close> and \<open>Parameters::decapsulate\<close>.\<close>

datatype bad_key_length = Bad_KEM_Key_Length
datatype decapsulate_error = Decapsulate_BadKeyLength | Decapsulate_BadCiphertext

record kem_constants =
  KEY_TYPE :: kem_key_type
  PUBLIC_KEY_LENGTH :: nat
  SECRET_KEY_LENGTH :: nat
  CIPHERTEXT_LENGTH :: nat
  SHARED_SECRET_LENGTH :: nat

text \<open>
  What the rest of the library takes of an implementation: a wrong length is reported, nothing panics, and
  inputs of the right lengths succeed.
\<close>

locale kem_module =
  fixes K :: kem_constants
    and encapsulate :: "bytes \<Rightarrow> 'r \<Rightarrow> (bytes \<times> bytes, bad_key_length) result \<times> 'r"
    and decapsulate :: "bytes \<Rightarrow> bytes \<Rightarrow> (bytes, decapsulate_error) result"
  assumes encapsulate_length: "length pk \<noteq> PUBLIC_KEY_LENGTH K \<Longrightarrow> encapsulate pk r = (Err Bad_KEM_Key_Length, r)"
    and encapsulate_ok: "length pk = PUBLIC_KEY_LENGTH K \<Longrightarrow> \<exists>x r'. encapsulate pk r = (Ok x, r')"
    and decapsulate_key: "length sk \<noteq> SECRET_KEY_LENGTH K \<Longrightarrow> decapsulate sk ct = Err Decapsulate_BadKeyLength"
    and decapsulate_ciphertext: "length sk = SECRET_KEY_LENGTH K \<Longrightarrow> length ct \<noteq> CIPHERTEXT_LENGTH K \<Longrightarrow>
      decapsulate sk ct = Err Decapsulate_BadCiphertext"
    and decapsulate_ok: "length sk = SECRET_KEY_LENGTH K \<Longrightarrow> length ct = CIPHERTEXT_LENGTH K \<Longrightarrow>
      \<exists>ss. decapsulate sk ct = Ok ss"
begin

lemma encapsulate_no_panic: "fst (encapsulate pk r) \<noteq> Panic"
  using encapsulate_length [of pk r] encapsulate_ok [of pk r]
  by (cases "length pk = PUBLIC_KEY_LENGTH K") auto

lemma encapsulate_succeeds_iff: "is_ok (fst (encapsulate pk r)) \<longleftrightarrow> length pk = PUBLIC_KEY_LENGTH K"
  using encapsulate_length [of pk r] encapsulate_ok [of pk r]
  by (cases "length pk = PUBLIC_KEY_LENGTH K") auto

lemma decapsulate_no_panic: "decapsulate sk ct \<noteq> Panic"
  using decapsulate_key [of sk ct] decapsulate_ciphertext [of sk ct] decapsulate_ok [of sk ct]
  by (cases "length sk = SECRET_KEY_LENGTH K"; cases "length ct = CIPHERTEXT_LENGTH K") auto

lemma decapsulate_succeeds_iff:
  "is_ok (decapsulate sk ct) \<longleftrightarrow> length sk = SECRET_KEY_LENGTH K \<and> length ct = CIPHERTEXT_LENGTH K"
  using decapsulate_key [of sk ct] decapsulate_ciphertext [of sk ct] decapsulate_ok [of sk ct]
  by (cases "length sk = SECRET_KEY_LENGTH K"; cases "length ct = CIPHERTEXT_LENGTH K") auto

end

subsection \<open>\<open>kyber1024.rs\<close>\<close>

text \<open>The conversions to the sized arrays of \<open>libcrux\<close> fail on a wrong length.\<close>

definition kyber1024_constants :: kem_constants where
  "kyber1024_constants = \<lparr>KEY_TYPE = Kyber1024, PUBLIC_KEY_LENGTH = 1568, SECRET_KEY_LENGTH = 3168,
     CIPHERTEXT_LENGTH = 1568, SHARED_SECRET_LENGTH = 32\<rparr>"

text \<open>\<open>csprng.random()\<close> draws 64 bytes for a key pair and 32 for an encapsulation. A key pair is public key first.\<close>

definition kyber1024_generate :: "'r env \<Rightarrow> 'r \<Rightarrow> (bytes \<times> bytes) \<times> 'r" where
  "kyber1024_generate E r =
     (let (rnd, r') = rng_random_bytes E 64 r;
          (sk, pk) = kem_generate_key_pair E Kyber1024 rnd
      in ((pk, sk), r'))"

definition kyber1024_encapsulate :: "'r env \<Rightarrow> bytes \<Rightarrow> 'r \<Rightarrow> (bytes \<times> bytes, bad_key_length) result \<times> 'r" where
  "kyber1024_encapsulate E pub_key r =
     (if length pub_key \<noteq> 1568 then (Err Bad_KEM_Key_Length, r)
      else let (rnd, r') = rng_random_bytes E 32 r;
               (kyber_ct, kyber_ss) = kem_encapsulate E Kyber1024 pub_key rnd
           in (Ok (kyber_ss, kyber_ct), r'))"

definition kyber1024_decapsulate :: "'r env \<Rightarrow> bytes \<Rightarrow> bytes \<Rightarrow> (bytes, decapsulate_error) result" where
  "kyber1024_decapsulate E secret_key ciphertext =
     (if length secret_key \<noteq> 3168 then Err Decapsulate_BadKeyLength
      else if length ciphertext \<noteq> 1568 then Err Decapsulate_BadCiphertext
      else Ok (kem_decapsulate E Kyber1024 secret_key ciphertext))"

interpretation kyber1024: kem_module kyber1024_constants "kyber1024_encapsulate E" "kyber1024_decapsulate E" for E
  by unfold_locales (auto simp: kyber1024_constants_def kyber1024_encapsulate_def kyber1024_decapsulate_def Let_def
      split: prod.splits)

subsection \<open>\<open>mlkem1024.rs\<close>\<close>

text \<open>The constant \<open>KEY_TYPE\<close> of this module is that of Kyber too.\<close>

definition mlkem1024_constants :: kem_constants where
  "mlkem1024_constants = \<lparr>KEY_TYPE = Kyber1024, PUBLIC_KEY_LENGTH = 1568, SECRET_KEY_LENGTH = 3168,
     CIPHERTEXT_LENGTH = 1568, SHARED_SECRET_LENGTH = 32\<rparr>"

definition mlkem1024_generate :: "'r env \<Rightarrow> 'r \<Rightarrow> (bytes \<times> bytes) \<times> 'r" where
  "mlkem1024_generate E r =
     (let (rnd, r') = rng_random_bytes E 64 r;
          (sk, pk) = kem_generate_key_pair E MLKEM1024 rnd
      in ((pk, sk), r'))"

definition mlkem1024_encapsulate :: "'r env \<Rightarrow> bytes \<Rightarrow> 'r \<Rightarrow> (bytes \<times> bytes, bad_key_length) result \<times> 'r" where
  "mlkem1024_encapsulate E pub_key r =
     (if length pub_key \<noteq> 1568 then (Err Bad_KEM_Key_Length, r)
      else let (rnd, r') = rng_random_bytes E 32 r;
               (mlkem_ct, mlkem_ss) = kem_encapsulate E MLKEM1024 pub_key rnd
           in (Ok (mlkem_ss, mlkem_ct), r'))"

definition mlkem1024_decapsulate :: "'r env \<Rightarrow> bytes \<Rightarrow> bytes \<Rightarrow> (bytes, decapsulate_error) result" where
  "mlkem1024_decapsulate E secret_key ciphertext =
     (if length secret_key \<noteq> 3168 then Err Decapsulate_BadKeyLength
      else if length ciphertext \<noteq> 1568 then Err Decapsulate_BadCiphertext
      else Ok (kem_decapsulate E MLKEM1024 secret_key ciphertext))"

interpretation mlkem1024: kem_module mlkem1024_constants "mlkem1024_encapsulate E" "mlkem1024_decapsulate E" for E
  by unfold_locales (auto simp: mlkem1024_constants_def mlkem1024_encapsulate_def mlkem1024_decapsulate_def Let_def
      split: prod.splits)

subsection \<open>Selection by the key type\<close>

text \<open>\<open>KeyType::parameters\<close>, and the functions of \<open>DynParameters\<close> on what it returns.\<close>

primrec kem_parameters :: "kem_key_type \<Rightarrow> kem_constants" where
  "kem_parameters Kyber1024 = kyber1024_constants"
| "kem_parameters MLKEM1024 = mlkem1024_constants"

definition kem_public_key_length :: "kem_key_type \<Rightarrow> nat" where
  "kem_public_key_length t = PUBLIC_KEY_LENGTH (kem_parameters t)"
definition kem_secret_key_length :: "kem_key_type \<Rightarrow> nat" where
  "kem_secret_key_length t = SECRET_KEY_LENGTH (kem_parameters t)"
definition kem_ciphertext_length :: "kem_key_type \<Rightarrow> nat" where
  "kem_ciphertext_length t = CIPHERTEXT_LENGTH (kem_parameters t)"
definition kem_shared_secret_length :: "kem_key_type \<Rightarrow> nat" where
  "kem_shared_secret_length t = SHARED_SECRET_LENGTH (kem_parameters t)"

lemma kem_lengths:
  "kem_public_key_length t = 1568" "kem_secret_key_length t = 3168" "kem_ciphertext_length t = 1568"
  "kem_shared_secret_length t = 32"
  by (cases t; simp add: kem_public_key_length_def kem_secret_key_length_def kem_ciphertext_length_def
      kem_shared_secret_length_def kyber1024_constants_def mlkem1024_constants_def)+

definition kem_param_generate :: "'r env \<Rightarrow> kem_key_type \<Rightarrow> 'r \<Rightarrow> (bytes \<times> bytes) \<times> 'r" where
  "kem_param_generate E t r =
     (case t of Kyber1024 \<Rightarrow> kyber1024_generate E r | MLKEM1024 \<Rightarrow> mlkem1024_generate E r)"

definition kem_param_encapsulate ::
    "'r env \<Rightarrow> kem_key_type \<Rightarrow> bytes \<Rightarrow> 'r \<Rightarrow> (bytes \<times> bytes, signal_error) result \<times> 'r" where
  "kem_param_encapsulate E t pub_key r =
     (let (res, r') = (case t of
              Kyber1024 \<Rightarrow> kyber1024_encapsulate E pub_key r
            | MLKEM1024 \<Rightarrow> mlkem1024_encapsulate E pub_key r)
      in (map_err (\<lambda>_. BadKEMKeyLength (KEY_TYPE (kem_parameters t)) (length pub_key)) res, r'))"

definition kem_param_decapsulate ::
    "'r env \<Rightarrow> kem_key_type \<Rightarrow> bytes \<Rightarrow> bytes \<Rightarrow> (bytes, signal_error) result" where
  "kem_param_decapsulate E t secret_key ciphertext =
     map_err (\<lambda>e. case e of
         Decapsulate_BadKeyLength \<Rightarrow> BadKEMKeyLength (KEY_TYPE (kem_parameters t)) (length secret_key)
       | Decapsulate_BadCiphertext \<Rightarrow> BadKEMCiphertextLength (KEY_TYPE (kem_parameters t)) (length ciphertext))
     (case t of
         Kyber1024 \<Rightarrow> kyber1024_decapsulate E secret_key ciphertext
       | MLKEM1024 \<Rightarrow> mlkem1024_decapsulate E secret_key ciphertext)"

text \<open>The two families behave alike up to the functions of \<open>libcrux\<close> and the type that an error names.\<close>

lemma kem_param_generate_eq:
  "kem_param_generate E t r =
     (let (rnd, r') = rng_random_bytes E 64 r; (sk, pk) = kem_generate_key_pair E t rnd in ((pk, sk), r'))"
  by (cases t) (simp_all add: kem_param_generate_def kyber1024_generate_def mlkem1024_generate_def)

lemma kem_param_encapsulate_eq:
  "kem_param_encapsulate E t pk r =
     (if length pk \<noteq> kem_public_key_length t then (Err (BadKEMKeyLength Kyber1024 (length pk)), r)
      else let (rnd, r') = rng_random_bytes E 32 r; (ct, ss) = kem_encapsulate E t pk rnd in (Ok (ss, ct), r'))"
  by (cases t) (simp_all add: kem_param_encapsulate_def kyber1024_encapsulate_def mlkem1024_encapsulate_def
      kem_lengths kyber1024_constants_def mlkem1024_constants_def Let_def split: prod.splits)

lemma kem_param_decapsulate_eq:
  "kem_param_decapsulate E t sk ct =
     (if length sk \<noteq> kem_secret_key_length t then Err (BadKEMKeyLength Kyber1024 (length sk))
      else if length ct \<noteq> kem_ciphertext_length t then Err (BadKEMCiphertextLength Kyber1024 (length ct))
      else Ok (kem_decapsulate E t sk ct))"
  by (cases t) (simp_all add: kem_param_decapsulate_def kyber1024_decapsulate_def mlkem1024_decapsulate_def
      kem_lengths kyber1024_constants_def mlkem1024_constants_def)

end
