(* ===== verification/Kem.thy ===== *)
theory Kem
  imports Kem_Parameters
begin

text \<open>
  \<open>rust/protocol/src/kem.rs\<close>: typed KEM keys, their byte formats, encapsulation and decapsulation with the
  length and type checks. The crate's default features select Kyber1024 and ML-KEM 1024.
\<close>

record kem_key =
  kk_key_type :: kem_key_type
  kk_key_data :: bytes

record kem_key_pair =
  kkp_public_key :: kem_key
  kkp_secret_key :: kem_key

primrec kem_KeyType_value :: "kem_key_type \<Rightarrow> u8" where
  "kem_KeyType_value Kyber1024 = 0x08"
| "kem_KeyType_value MLKEM1024 = 0x0A"

definition kem_KeyType_try_from :: "u8 \<Rightarrow> (kem_key_type, signal_error) result" where
  "kem_KeyType_try_from x =
     (if x = 0x08 then Ok Kyber1024 else if x = 0x0A then Ok MLKEM1024 else Err (BadKEMKeyType x))"

text \<open>\<open>Key<T>::deserialize\<close>, with \<open>T::key_length\<close> as its argument, and \<open>Key<T>::serialize\<close>.\<close>

definition kem_Key_deserialize :: "(kem_key_type \<Rightarrow> nat) \<Rightarrow> bytes \<Rightarrow> (kem_key, signal_error) result" where
  "kem_Key_deserialize key_length v =
     (case v of
        [] \<Rightarrow> Err NoKeyTypeIdentifier
      | t # d \<Rightarrow> bindR (kem_KeyType_try_from t) (\<lambda>key_type.
          if length v \<noteq> key_length key_type + 1 then Err (BadKEMKeyLength key_type (length v))
          else Ok \<lparr>kk_key_type = key_type, kk_key_data = d\<rparr>))"

definition kem_Key_serialize :: "kem_key \<Rightarrow> bytes" where
  "kem_Key_serialize k = kem_KeyType_value (kk_key_type k) # kk_key_data k"

definition kem_PublicKey_deserialize :: "bytes \<Rightarrow> (kem_key, signal_error) result" where
  "kem_PublicKey_deserialize = kem_Key_deserialize kem_public_key_length"

definition kem_SecretKey_deserialize :: "bytes \<Rightarrow> (kem_key, signal_error) result" where
  "kem_SecretKey_deserialize = kem_Key_deserialize kem_secret_key_length"

text \<open>\<open>Ciphertext::deserialize\<close> and \<open>serialize\<close>: the raw ciphertext behind a type byte.\<close>

definition kem_Ciphertext_deserialize :: "bytes \<Rightarrow> (kem_key_type \<times> bytes, signal_error) result" where
  "kem_Ciphertext_deserialize v =
     (case v of
        [] \<Rightarrow> Err NoKeyTypeIdentifier
      | t # d \<Rightarrow> bindR (kem_KeyType_try_from t) (\<lambda>key_type.
          if length v \<noteq> kem_ciphertext_length key_type + 1
          then Err (BadKEMCiphertextLength key_type (length v))
          else Ok (key_type, d)))"

definition kem_Ciphertext_serialize :: "kem_key_type \<times> bytes \<Rightarrow> bytes" where
  "kem_Ciphertext_serialize ct = kem_KeyType_value (fst ct) # snd ct"

definition kem_PublicKey_encapsulate ::
    "'r env \<Rightarrow> kem_key \<Rightarrow> 'r \<Rightarrow> (bytes \<times> bytes, signal_error) result \<times> 'r" where
  "kem_PublicKey_encapsulate E pk r =
     (let (res, r') = kem_param_encapsulate E (kk_key_type pk) (kk_key_data pk) r
      in (bindR res (\<lambda>(ss, ct). Ok (ss, kem_Ciphertext_serialize (kk_key_type pk, ct))), r'))"

definition kem_SecretKey_decapsulate ::
    "'r env \<Rightarrow> kem_key \<Rightarrow> bytes \<Rightarrow> (bytes, signal_error) result" where
  "kem_SecretKey_decapsulate E sk ct_bytes =
     bindR (kem_Ciphertext_deserialize ct_bytes) (\<lambda>(ct_type, ct_data).
       if ct_type \<noteq> kk_key_type sk
       then Err (WrongKEMKeyType (kem_KeyType_value ct_type) (kem_KeyType_value (kk_key_type sk)))
       else kem_param_decapsulate E (kk_key_type sk) (kk_key_data sk) ct_data)"

definition kem_KeyPair_generate :: "'r env \<Rightarrow> kem_key_type \<Rightarrow> 'r \<Rightarrow> kem_key_pair \<times> 'r" where
  "kem_KeyPair_generate E t r =
     (let ((pk, sk), r') = kem_param_generate E t r
      in (\<lparr>kkp_public_key = \<lparr>kk_key_type = t, kk_key_data = pk\<rparr>,
           kkp_secret_key = \<lparr>kk_key_type = t, kk_key_data = sk\<rparr>\<rparr>, r'))"

text \<open>\<open>KeyPair::new\<close> asserts that the types agree.\<close>

definition kem_KeyPair_new :: "kem_key \<Rightarrow> kem_key \<Rightarrow> (kem_key_pair, 'e) result" where
  "kem_KeyPair_new public_key secret_key =
     (if kk_key_type public_key \<noteq> kk_key_type secret_key then Panic
      else Ok \<lparr>kkp_public_key = public_key, kkp_secret_key = secret_key\<rparr>)"

text \<open>\<open>ct_eq\<close> of public keys, on which their equality rests.\<close>

definition kem_PublicKey_ct_eq :: "kem_key \<Rightarrow> kem_key \<Rightarrow> bool" where
  "kem_PublicKey_ct_eq k l =
     (if kk_key_type k \<noteq> kk_key_type l then False else kk_key_data k = kk_key_data l)"

lemma kem_PublicKey_ct_eq_iff: "kem_PublicKey_ct_eq k l \<longleftrightarrow> k = l"
  by (cases k; cases l) (auto simp: kem_PublicKey_ct_eq_def)

definition kem_KeyPair_from_public_and_private ::
    "bytes \<Rightarrow> bytes \<Rightarrow> (kem_key_pair, signal_error) result" where
  "kem_KeyPair_from_public_and_private pub sec =
     bindR (kem_PublicKey_deserialize pub) (\<lambda>public_key.
     bindR (kem_SecretKey_deserialize sec) (\<lambda>secret_key.
     if kk_key_type public_key \<noteq> kk_key_type secret_key
     then Err (WrongKEMKeyType (kem_KeyType_value (kk_key_type secret_key))
                 (kem_KeyType_value (kk_key_type public_key)))
     else Ok \<lparr>kkp_public_key = public_key, kkp_secret_key = secret_key\<rparr>))"

subsection \<open>Byte formats\<close>

lemma kem_KeyType_roundtrip [simp]: "kem_KeyType_try_from (kem_KeyType_value t) = Ok t"
  by (cases t) (simp_all add: kem_KeyType_try_from_def)

lemma kem_KeyType_try_from_no_panic [simp]: "kem_KeyType_try_from x \<noteq> Panic"
  by (simp add: kem_KeyType_try_from_def)

definition kem_key_ok :: "(kem_key_type \<Rightarrow> nat) \<Rightarrow> kem_key \<Rightarrow> bool" where
  "kem_key_ok len k \<longleftrightarrow> length (kk_key_data k) = len (kk_key_type k)"

lemma kem_Key_deserialize_ok: "kem_Key_deserialize len v = Ok k \<Longrightarrow> kem_key_ok len k"
  by (auto simp: kem_Key_deserialize_def kem_key_ok_def result_simps split: list.splits if_splits)

text \<open>
  Keys that were parsed or generated have the right lengths, so the length errors of the modules, which name
  Kyber also for an ML-KEM key, stay inside the library.
\<close>

lemma kem_PublicKey_encapsulate_Ok:
  assumes "kem_key_ok kem_public_key_length pk"
  shows "\<exists>x r'. kem_PublicKey_encapsulate E pk r = (Ok x, r')"
  using assms by (auto simp: kem_PublicKey_encapsulate_def kem_param_encapsulate_eq kem_key_ok_def Let_def
      split: prod.splits)

lemma kem_length_errors_name_kyber:
  "length pk \<noteq> 1568 \<Longrightarrow> kem_param_encapsulate E MLKEM1024 pk r = (Err (BadKEMKeyLength Kyber1024 (length pk)), r)"
  "length sk \<noteq> 3168 \<Longrightarrow> kem_param_decapsulate E MLKEM1024 sk ct = Err (BadKEMKeyLength Kyber1024 (length sk))"
  by (simp_all add: kem_param_encapsulate_eq kem_param_decapsulate_eq kem_lengths)

lemma kem_Key_deserialize_serialize:
  "kem_key_ok len k \<Longrightarrow> kem_Key_deserialize len (kem_Key_serialize k) = Ok k"
  by (simp add: kem_key_ok_def kem_Key_deserialize_def kem_Key_serialize_def)

interpretation kem_public_serde:
  serde kem_Key_serialize kem_PublicKey_deserialize "kem_key_ok kem_public_key_length"
  by unfold_locales (simp add: kem_PublicKey_deserialize_def kem_Key_deserialize_serialize)

interpretation kem_secret_serde:
  serde kem_Key_serialize kem_SecretKey_deserialize "kem_key_ok kem_secret_key_length"
  by unfold_locales (simp add: kem_SecretKey_deserialize_def kem_Key_deserialize_serialize)

interpretation kem_ciphertext_serde:
  serde kem_Ciphertext_serialize kem_Ciphertext_deserialize
    "\<lambda>(t, d). length d = kem_ciphertext_length t"
  by unfold_locales (auto simp: kem_Ciphertext_deserialize_def kem_Ciphertext_serialize_def)

lemma kem_SecretKey_decapsulate_no_panic [simp]: "kem_SecretKey_decapsulate E sk ct \<noteq> Panic"
  by (auto simp: kem_SecretKey_decapsulate_def kem_Ciphertext_deserialize_def
      kem_param_decapsulate_eq result_simps split: list.splits if_splits)

text \<open>
  A key pair is \<^emph>\<open>matching\<close> when its two halves have the same type and the right sizes, and
  decapsulating with the secret half inverts encapsulating to the public half: the correctness
  property that the KEM promises for the pairs its key generation returns.
\<close>

definition kem_matching :: "'r env \<Rightarrow> kem_key \<Rightarrow> kem_key \<Rightarrow> bool" where
  "kem_matching E pk sk \<longleftrightarrow>
     kk_key_type pk = kk_key_type sk \<and>
     kem_key_ok kem_public_key_length pk \<and> kem_key_ok kem_secret_key_length sk \<and>
     (\<forall>rnd. length (fst (kem_encapsulate E (kk_key_type pk) (kk_key_data pk) rnd)) =
              kem_ciphertext_length (kk_key_type pk) \<and>
        kem_decapsulate E (kk_key_type sk) (kk_key_data sk)
          (fst (kem_encapsulate E (kk_key_type pk) (kk_key_data pk) rnd)) =
        snd (kem_encapsulate E (kk_key_type pk) (kk_key_data pk) rnd))"

lemma kem_roundtrip:
  assumes "kem_matching E pk sk"
  shows "\<exists>ss ct r'. kem_PublicKey_encapsulate E pk r = (Ok (ss, ct), r') \<and>
           kem_SecretKey_decapsulate E sk ct = Ok ss"
proof -
  obtain rnd r' where rnd: "rng_random_bytes E 32 r = (rnd, r')" by fastforce
  obtain ct ss where enc: "kem_encapsulate E (kk_key_type pk) (kk_key_data pk) rnd = (ct, ss)"
    by fastforce
  have "length ct = kem_ciphertext_length (kk_key_type pk)"
    and "kem_decapsulate E (kk_key_type sk) (kk_key_data sk) ct = ss"
    and "kk_key_type pk = kk_key_type sk"
    and "length (kk_key_data pk) = kem_public_key_length (kk_key_type pk)"
    and "length (kk_key_data sk) = kem_secret_key_length (kk_key_type sk)"
    using assms enc by (auto simp: kem_matching_def kem_key_ok_def dest!: spec [where x = rnd])
  moreover from this have "kem_encapsulate E (kk_key_type sk) (kk_key_data pk) rnd = (ct, ss)"
    using enc by simp
  ultimately show ?thesis
    using kem_ciphertext_serde.de_ser [of "(kk_key_type pk, ct)"]
    by (simp add: kem_PublicKey_encapsulate_def kem_param_encapsulate_eq rnd
        kem_SecretKey_decapsulate_def kem_param_decapsulate_eq)
qed

end
