(* ===== verification/Identity_Key.thy ===== *)
theory Identity_Key
  imports Curve
begin

text \<open>
  \<open>rust/protocol/src/identity_key.rs\<close>. \<open>IdentityKey\<close> is a wrapper around \<open>PublicKey\<close> and is
  represented by it; \<open>IdentityKeyPair\<close> is a record.
\<close>

type_synonym identity_key = public_key

record identity_key_pair =
  id_identity_key :: identity_key
  id_private_key :: private_key

definition IdentityKey_serialize :: "identity_key \<Rightarrow> bytes" where
  "IdentityKey_serialize k = PublicKey_serialize k"

definition IdentityKey_decode :: "bytes \<Rightarrow> (identity_key, signal_error) result" where
  "IdentityKey_decode v = map_err from_curve_error (PublicKey_deserialize v)"

definition ALTERNATE_IDENTITY_SIGNATURE_PREFIX_1 :: bytes where
  "ALTERNATE_IDENTITY_SIGNATURE_PREFIX_1 = replicate 32 0xFF"

definition ALTERNATE_IDENTITY_SIGNATURE_PREFIX_2 :: bytes where
  "ALTERNATE_IDENTITY_SIGNATURE_PREFIX_2 = ascii ''Signal_PNI_Signature''"

definition verify_alternate_identity :: "'r env \<Rightarrow> identity_key \<Rightarrow> identity_key \<Rightarrow> bytes \<Rightarrow> bool" where
  "verify_alternate_identity E self other signature =
     verify_signature_for_multipart_message E self
       [ALTERNATE_IDENTITY_SIGNATURE_PREFIX_1, ALTERNATE_IDENTITY_SIGNATURE_PREFIX_2,
        IdentityKey_serialize other] signature"

definition sign_alternate_identity ::
    "'r env \<Rightarrow> identity_key_pair \<Rightarrow> identity_key \<Rightarrow> 'r \<Rightarrow> bytes \<times> 'r" where
  "sign_alternate_identity E self other r =
     calculate_signature_for_multipart_message E (id_private_key self)
       [ALTERNATE_IDENTITY_SIGNATURE_PREFIX_1, ALTERNATE_IDENTITY_SIGNATURE_PREFIX_2,
        IdentityKey_serialize other] r"

definition IdentityKeyPair_generate :: "'r env \<Rightarrow> 'r \<Rightarrow> identity_key_pair \<times> 'r" where
  "IdentityKeyPair_generate E r =
     (let (kp, r') = KeyPair_generate E r
      in (\<lparr>id_identity_key = kp_public_key kp, id_private_key = kp_private_key kp\<rparr>, r'))"

definition IdentityKeyPair_serialize :: "'r env \<Rightarrow> identity_key_pair \<Rightarrow> bytes" where
  "IdentityKeyPair_serialize E p =
     encode (identity_key_pair_codec E)
       \<lparr>ikp_public_key = IdentityKey_serialize (id_identity_key p),
        ikp_private_key = PrivateKey_serialize (id_private_key p)\<rparr>"

definition IdentityKeyPair_try_from :: "'r env \<Rightarrow> bytes \<Rightarrow> (identity_key_pair, signal_error) result" where
  "IdentityKeyPair_try_from E v =
     bindR (ok_or InvalidProtobufEncoding (decode (identity_key_pair_codec E) v)) (\<lambda>structure.
     bindR (IdentityKey_decode (ikp_public_key structure)) (\<lambda>identity_key.
     bindR (map_err from_curve_error (PrivateKey_deserialize E (ikp_private_key structure))) (\<lambda>private_key.
     Ok \<lparr>id_identity_key = identity_key, id_private_key = private_key\<rparr>)))"

text \<open>A consistent identity: the public half is derived from the (clamped) private half.\<close>

definition identity_key_pair_ok :: "'r env \<Rightarrow> identity_key_pair \<Rightarrow> bool" where
  "identity_key_pair_ok E p \<longleftrightarrow>
     id_identity_key p = PrivateKey_public_key E (id_private_key p) \<and>
     private_key_ok (id_private_key p) \<and>
     clamp_integer E (private_key_data (id_private_key p)) = private_key_data (id_private_key p)"

lemma IdentityKey_decode_serialize: "public_key_ok k \<Longrightarrow> IdentityKey_decode (IdentityKey_serialize k) = Ok k"
  by (simp add: IdentityKey_decode_def IdentityKey_serialize_def public_key_serde.de_ser)

lemma IdentityKey_decode_no_panic [simp]: "IdentityKey_decode v \<noteq> Panic"
  by (simp add: IdentityKey_decode_def result_simps)

lemma identity_key_pair_public_ok:
  "identity_key_pair_ok E p \<Longrightarrow> curve_lengths E \<Longrightarrow> public_key_ok (id_identity_key p)"
  by (simp add: identity_key_pair_ok_def PrivateKey_public_key_def public_key_ok_def curve_lengths_def)

lemma PrivateKey_deserialize_serialize:
  "private_key_ok k \<Longrightarrow> clamp_integer E (private_key_data k) = private_key_data k \<Longrightarrow>
   PrivateKey_deserialize E (PrivateKey_serialize k) = Ok k"
  by (cases k) (simp add: PrivateKey_deserialize_def PrivateKey_serialize_def private_key_ok_def)

lemma IdentityKeyPair_roundtrip:
  assumes "codec_ok (identity_key_pair_codec E)" "curve_lengths E" "identity_key_pair_ok E p"
  shows "IdentityKeyPair_try_from E (IdentityKeyPair_serialize E p) = Ok p"
  using assms identity_key_pair_public_ok [OF assms(3,2)]
  by (simp add: IdentityKeyPair_try_from_def IdentityKeyPair_serialize_def
      IdentityKey_decode_serialize PrivateKey_deserialize_serialize identity_key_pair_ok_def)

lemma alternate_identity_verifies:
  assumes "xeddsa_ok E" "dh_ok E" "identity_key_pair_ok E p"
  shows "verify_alternate_identity E (id_identity_key p) other
           (fst (sign_alternate_identity E p other r))"
  using signature_roundtrip [OF assms(1,2), of "id_private_key p"] assms(3)
  by (simp add: verify_alternate_identity_def sign_alternate_identity_def identity_key_pair_ok_def)

end
