(* ===== verification/Ratchet_Keys.thy ===== *)
theory Ratchet_Keys
  imports Curve Crypto
begin

text \<open>
  \<open>rust/protocol/src/ratchet/keys.rs\<close>: the symmetric chain key, the per-message keys derived
  from it, the root key and its Diffie-Hellman step. Indices are \<open>u32\<close> words: \<open>self.index + 1\<close> is
  compiled without overflow checks in the release profile the repository builds, so it wraps.
\<close>

record message_keys =
  mks_cipher_key :: bytes
  mks_mac_key :: bytes
  mks_iv :: bytes
  mks_counter :: u32

datatype message_key_generator = Keys message_keys | Seed bytes u32

record chain_key =
  chain_key_key :: bytes
  chain_key_index :: u32

datatype root_key = RootKey (root_key_key: bytes)

definition derive_message_keys :: "'r env \<Rightarrow> bytes \<Rightarrow> bytes option \<Rightarrow> u32 \<Rightarrow> message_keys" where
  "derive_message_keys E input_key_material optional_salt counter =
     (let okm = hkdf_sha256 E optional_salt input_key_material (ascii ''WhisperMessageKeys'') 80
      in \<lparr>mks_cipher_key = take 32 okm, mks_mac_key = take 32 (drop 32 okm),
          mks_iv = take 16 (drop 64 okm), mks_counter = counter\<rparr>)"

fun generate_keys :: "'r env \<Rightarrow> message_key_generator \<Rightarrow> bytes option \<Rightarrow> (message_keys, 'e) result" where
  "generate_keys E (Seed seed counter) pqr_key = Ok (derive_message_keys E seed pqr_key counter)"
| "generate_keys E (Keys k) pqr_key = bindR (assertR (pqr_key = None)) (\<lambda>_. Ok k)"

fun into_pb :: "message_key_generator \<Rightarrow> pb_message_key" where
  "into_pb (Keys k) =
     \<lparr>mk_index = mks_counter k, mk_cipher_key = mks_cipher_key k, mk_mac_key = mks_mac_key k,
      mk_iv = mks_iv k, mk_seed = []\<rparr>"
| "into_pb (Seed seed counter) =
     \<lparr>mk_index = counter, mk_cipher_key = [], mk_mac_key = [], mk_iv = [], mk_seed = seed\<rparr>"

definition from_pb :: "pb_message_key \<Rightarrow> (message_key_generator, string) result" where
  "from_pb pb =
     (if mk_seed pb = [] then
        if length (mk_cipher_key pb) \<noteq> 32 then Err ''invalid message cipher key''
        else if length (mk_mac_key pb) \<noteq> 32 then Err ''invalid message MAC key''
        else if length (mk_iv pb) \<noteq> 16 then Err ''invalid message IV''
        else Ok (Keys \<lparr>mks_cipher_key = mk_cipher_key pb, mks_mac_key = mk_mac_key pb,
                       mks_iv = mk_iv pb, mks_counter = mk_index pb\<rparr>)
      else Ok (Seed (mk_seed pb) (mk_index pb)))"

definition calculate_base_material :: "'r env \<Rightarrow> chain_key \<Rightarrow> u8 \<Rightarrow> bytes" where
  "calculate_base_material E ck seed = hmac_sha256 E (chain_key_key ck) [seed]"

definition next_chain_key :: "'r env \<Rightarrow> chain_key \<Rightarrow> chain_key" where
  "next_chain_key E ck =
     \<lparr>chain_key_key = calculate_base_material E ck 0x02, chain_key_index = chain_key_index ck + 1\<rparr>"

definition chain_message_keys :: "'r env \<Rightarrow> chain_key \<Rightarrow> message_key_generator" where
  "chain_message_keys E ck = Seed (calculate_base_material E ck 0x01) (chain_key_index ck)"

definition create_chain :: "'r env \<Rightarrow> root_key \<Rightarrow> public_key \<Rightarrow> private_key \<Rightarrow> root_key \<times> chain_key" where
  "create_chain E self their_ratchet_key our_ratchet_key =
     (let shared_secret = calculate_agreement E our_ratchet_key their_ratchet_key;
          derived = hkdf_sha256 E (Some (root_key_key self)) shared_secret (ascii ''WhisperRatchet'') 64
      in (RootKey (take 32 derived),
          \<lparr>chain_key_key = take 32 (drop 32 derived), chain_key_index = 0\<rparr>))"

subsection \<open>Lemmas\<close>

definition chain_key_ok :: "chain_key \<Rightarrow> bool" where
  "chain_key_ok ck \<longleftrightarrow> length (chain_key_key ck) = 32"

declare chain_key_ok_def [wf_simps]

interpretation ratchet_chain: symmetric_chain chain_key_index "next_chain_key E" for E :: "'r env"
  by unfold_locales (simp add: next_chain_key_def)

abbreviation chain_walk :: "'r env \<Rightarrow> chain_key \<Rightarrow> u32 \<Rightarrow> chain_key list" where
  "chain_walk E \<equiv> symmetric_chain.walk chain_key_index (next_chain_key E)"

lemma chain_key_ok_next [simp]: "hash_lengths E \<Longrightarrow> chain_key_ok (next_chain_key E ck)"
  by (simp add: chain_key_ok_def next_chain_key_def calculate_base_material_def hmac_sha256_def
      hash_lengths_def)

lemma chain_key_ok_funpow:
  "hash_lengths E \<Longrightarrow> chain_key_ok ck \<Longrightarrow> chain_key_ok ((next_chain_key E ^^ n) ck)"
  by (cases n) simp_all

lemma create_chain_ok [simp]:
  "hash_lengths E \<Longrightarrow> chain_key_ok (snd (create_chain E rk pk sk))"
  "hash_lengths E \<Longrightarrow> length (root_key_key (fst (create_chain E rk pk sk))) = 32"
  "chain_key_index (snd (create_chain E rk pk sk)) = 0"
  by (simp_all add: create_chain_def chain_key_ok_def hash_lengths_def Let_def)

lemma chain_seed_length:
  "hash_lengths E \<Longrightarrow> length (calculate_base_material E ck s) = 32"
  by (simp add: calculate_base_material_def hmac_sha256_def hash_lengths_def)

text \<open>A stored chain seed comes back from storage: it is not empty, so it is read as a seed.\<close>

lemma from_pb_into_pb_seed: "seed \<noteq> [] \<Longrightarrow> from_pb (into_pb (Seed seed n)) = Ok (Seed seed n)"
  by (simp add: from_pb_def)

lemma from_pb_into_pb_keys:
  "length (mks_cipher_key k) = 32 \<Longrightarrow> length (mks_mac_key k) = 32 \<Longrightarrow> length (mks_iv k) = 16 \<Longrightarrow>
   from_pb (into_pb (Keys k)) = Ok (Keys k)"
  by (simp add: from_pb_def)

lemma chain_message_keys_pb:
  "mk_index (into_pb (chain_message_keys E ck)) = chain_key_index ck"
  by (simp add: chain_message_keys_def)

lemma from_pb_chain_message_keys:
  "hash_lengths E \<Longrightarrow> from_pb (into_pb (chain_message_keys E ck)) = Ok (chain_message_keys E ck)"
  using chain_seed_length [of E ck 1]
  by (auto simp: chain_message_keys_def from_pb_def)

lemma from_pb_no_panic [simp]: "from_pb pb \<noteq> Panic"
  by (simp add: from_pb_def)

text \<open>Both sides of a Diffie-Hellman ratchet step derive the same root and chain key.\<close>

lemma create_chain_agree:
  assumes "dh_ok E"
  shows "create_chain E rk (PrivateKey_public_key E b) a = create_chain E rk (PrivateKey_public_key E a) b"
  using calculate_agreement_commute [OF assms, of a b] by (simp add: create_chain_def)

lemma derive_message_keys_lengths:
  assumes "hash_lengths E"
  shows "length (mks_cipher_key (derive_message_keys E ikm salt n)) = 32"
    and "length (mks_mac_key (derive_message_keys E ikm salt n)) = 32"
    and "length (mks_iv (derive_message_keys E ikm salt n)) = 16"
  using assms by (simp_all add: derive_message_keys_def hash_lengths_def Let_def)

end
