(* ===== verification/Session_State.thy ===== *)
theory Session_State
  imports Identity_Key Ratchet_Keys
begin

text \<open>
  The \<open>SessionState\<close> half of \<open>rust/protocol/src/state/session.rs\<close>. \<open>SessionState\<close> wraps the
  protobuf \<open>SessionStructure\<close> and is represented by it. An operation that takes \<open>&mut self\<close>
  returns the new state; a fallible one returns it inside \<open>Ok\<close> (every caller in the sources works
  on a clone that it drops on an error). \<open>InvalidSessionError(msg)\<close> is the error string.
\<close>

type_synonym session_state = session_structure
type_synonym invalid_session_error = string

definition from_invalid_session_error :: "invalid_session_error \<Rightarrow> signal_error" where
  "from_invalid_session_error e = InvalidSessionStructure e"

definition SessionState_new ::
    "u8 \<Rightarrow> identity_key \<Rightarrow> identity_key \<Rightarrow> root_key \<Rightarrow> public_key \<Rightarrow> bytes \<Rightarrow> session_state" where
  "SessionState_new version our_identity their_identity root_key alice_base_key pq_ratchet_state =
     \<lparr>s_session_version = ucast version,
      s_local_identity_public = PublicKey_serialize our_identity,
      s_remote_identity_public = IdentityKey_serialize their_identity,
      s_root_key = root_key_key root_key,
      s_previous_counter = 0,
      s_sender_chain = None,
      s_receiver_chains = [],
      s_pending_pre_key = None,
      s_pending_kyber_pre_key = None,
      s_remote_registration_id = 0,
      s_local_registration_id = 0,
      s_alice_base_key = PublicKey_serialize alice_base_key,
      s_pq_ratchet_state = pq_ratchet_state\<rparr>"

definition session_version :: "session_state \<Rightarrow> (u32, invalid_session_error) result" where
  "session_version st = (if s_session_version st = 0 then Ok 2 else Ok (s_session_version st))"

definition remote_identity_key :: "session_state \<Rightarrow> (identity_key option, invalid_session_error) result" where
  "remote_identity_key st =
     (if s_remote_identity_public st = [] then Ok None
      else bindR (map_err (\<lambda>_. ''invalid remote identity key'')
             (IdentityKey_decode (s_remote_identity_public st))) (\<lambda>k. Ok (Some k)))"

definition remote_identity_key_bytes :: "session_state \<Rightarrow> (bytes option, invalid_session_error) result" where
  "remote_identity_key_bytes st =
     bindR (remote_identity_key st) (\<lambda>k. Ok (map_option IdentityKey_serialize k))"

definition local_identity_key :: "session_state \<Rightarrow> (identity_key, invalid_session_error) result" where
  "local_identity_key st =
     map_err (\<lambda>_. ''invalid local identity key'') (IdentityKey_decode (s_local_identity_public st))"

definition local_identity_key_bytes :: "session_state \<Rightarrow> (bytes, invalid_session_error) result" where
  "local_identity_key_bytes st = bindR (local_identity_key st) (\<lambda>k. Ok (IdentityKey_serialize k))"

definition session_with_self :: "session_state \<Rightarrow> (bool, invalid_session_error) result" where
  "session_with_self st =
     bindR (remote_identity_key_bytes st) (\<lambda>remote. case remote of
       Some remote_id \<Rightarrow> bindR (local_identity_key_bytes st) (\<lambda>local_id. Ok (remote_id = local_id))
     | None \<Rightarrow> Ok False)"

definition state_root_key :: "session_state \<Rightarrow> (root_key, invalid_session_error) result" where
  "state_root_key st =
     (if length (s_root_key st) = 32 then Ok (RootKey (s_root_key st)) else Err ''invalid root key'')"

definition set_root_key :: "root_key \<Rightarrow> session_state \<Rightarrow> session_state" where
  "set_root_key rk st = st\<lparr>s_root_key := root_key_key rk\<rparr>"

definition set_previous_counter :: "u32 \<Rightarrow> session_state \<Rightarrow> session_state" where
  "set_previous_counter ctr st = st\<lparr>s_previous_counter := ctr\<rparr>"

definition sender_ratchet_key :: "session_state \<Rightarrow> (public_key, invalid_session_error) result" where
  "sender_ratchet_key st =
     (case s_sender_chain st of
        None \<Rightarrow> Err ''missing sender chain''
      | Some c \<Rightarrow> map_err (\<lambda>_. ''invalid sender chain ratchet key'')
                    (PublicKey_deserialize (c_sender_ratchet_key c)))"

definition sender_ratchet_private_key ::
    "'r env \<Rightarrow> session_state \<Rightarrow> (private_key, invalid_session_error) result" where
  "sender_ratchet_private_key E st =
     (case s_sender_chain st of
        None \<Rightarrow> Err ''missing sender chain''
      | Some c \<Rightarrow> map_err (\<lambda>_. ''invalid sender chain private ratchet key'')
                    (PrivateKey_deserialize E (c_sender_ratchet_key_private c)))"

subsection \<open>Usability of a session for sending\<close>

definition NotStale :: u32 where "NotStale = 1"
definition EstablishedWithPqxdh :: u32 where "EstablishedWithPqxdh = 2"
definition Spqr :: u32 where "Spqr = 4"

definition requires :: "u32 \<Rightarrow> u32 \<Rightarrow> bool" where
  "requires requirements flag \<longleftrightarrow> requirements AND flag = flag"

text \<open>The test \<open>UNIX_EPOCH + timestamp + MAX_UNACKNOWLEDGED_SESSION_AGE < now\<close>.\<close>

definition unacknowledged_too_old :: "u64 \<Rightarrow> system_time \<Rightarrow> (bool, 'e) result" where
  "unacknowledged_too_old ts now =
     bindR (time_add_secs 0 (unat ts)) (\<lambda>creation_timestamp.
     bindR (time_add_secs creation_timestamp MAX_UNACKNOWLEDGED_SESSION_AGE) (\<lambda>limit.
     Ok (limit < now)))"

definition has_usable_sender_chain ::
    "session_state \<Rightarrow> system_time \<Rightarrow> u32 \<Rightarrow> (bool, invalid_session_error) result" where
  "has_usable_sender_chain st now requirements =
     (if s_sender_chain st = None then Ok False
      else
        bindR (if requires requirements NotStale
               then (case s_pending_pre_key st of
                       Some pending \<Rightarrow> unacknowledged_too_old (ppk_timestamp pending) now
                     | None \<Rightarrow> Ok False)
               else Ok False) (\<lambda>stale.
        if stale then Ok False
        else
          bindR (if requires requirements EstablishedWithPqxdh
                 then bindR (session_version st) (\<lambda>v. Ok (v \<le> ucast CIPHERTEXT_MESSAGE_PRE_KYBER_VERSION))
                 else Ok False) (\<lambda>pre_kyber.
          if pre_kyber then Ok False
          else if requires requirements Spqr \<and> s_pq_ratchet_state st = [] then Ok False
          else Ok True)))"

subsection \<open>Receiver chains\<close>

fun find_receiver_chain ::
    "nat \<Rightarrow> pb_chain list \<Rightarrow> public_key \<Rightarrow> ((pb_chain \<times> nat) option, invalid_session_error) result" where
  "find_receiver_chain idx [] sender = Ok None"
| "find_receiver_chain idx (chain # cs) sender =
     bindR (map_err (\<lambda>_. ''invalid receiver chain ratchet key'')
             (PublicKey_deserialize (c_sender_ratchet_key chain))) (\<lambda>chain_ratchet_key.
     if chain_ratchet_key = sender then Ok (Some (chain, idx))
     else find_receiver_chain (Suc idx) cs sender)"

definition get_receiver_chain ::
    "session_state \<Rightarrow> public_key \<Rightarrow> ((pb_chain \<times> nat) option, invalid_session_error) result" where
  "get_receiver_chain st sender = find_receiver_chain 0 (s_receiver_chains st) sender"

definition get_receiver_chain_key ::
    "session_state \<Rightarrow> public_key \<Rightarrow> (chain_key option, invalid_session_error) result" where
  "get_receiver_chain_key st sender =
     bindR (get_receiver_chain st sender) (\<lambda>found. case found of
       None \<Rightarrow> Ok None
     | Some (chain, _) \<Rightarrow> (case c_chain_key chain of
         None \<Rightarrow> Err ''missing receiver chain key''
       | Some c \<Rightarrow>
           if length (ck_key c) \<noteq> 32 then Err ''invalid receiver chain key''
           else Ok (Some \<lparr>chain_key_key = ck_key c, chain_key_index = ck_index c\<rparr>)))"

definition to_pb_chain_key :: "chain_key \<Rightarrow> pb_chain_key" where
  "to_pb_chain_key ck = \<lparr>ck_index = chain_key_index ck, ck_key = chain_key_key ck\<rparr>"

text \<open>\<open>push\<close> at the end, then \<open>remove(0)\<close> when the count exceeds the maximum.\<close>

definition push_receiver_chain :: "pb_chain \<Rightarrow> pb_chain list \<Rightarrow> pb_chain list" where
  "push_receiver_chain chain cs =
     (let cs' = cs @ [chain]
      in if length cs' > MAX_RECEIVER_CHAINS then remove_nth 0 cs' else cs')"

definition add_receiver_chain :: "public_key \<Rightarrow> chain_key \<Rightarrow> session_state \<Rightarrow> session_state" where
  "add_receiver_chain sender ck st =
     st\<lparr>s_receiver_chains := push_receiver_chain
          \<lparr>c_sender_ratchet_key = PublicKey_serialize sender, c_sender_ratchet_key_private = [],
           c_chain_key = Some (to_pb_chain_key ck), c_message_keys = []\<rparr>
          (s_receiver_chains st)\<rparr>"

definition set_sender_chain :: "key_pair \<Rightarrow> chain_key \<Rightarrow> session_state \<Rightarrow> session_state" where
  "set_sender_chain sender next_ck st =
     st\<lparr>s_sender_chain := Some
          \<lparr>c_sender_ratchet_key = PublicKey_serialize (kp_public_key sender),
           c_sender_ratchet_key_private = PrivateKey_serialize (kp_private_key sender),
           c_chain_key = Some (to_pb_chain_key next_ck), c_message_keys = []\<rparr>\<rparr>"

definition get_sender_chain_key :: "session_state \<Rightarrow> (chain_key, invalid_session_error) result" where
  "get_sender_chain_key st =
     bindR (ok_or ''missing sender chain'' (s_sender_chain st)) (\<lambda>sender_chain.
     bindR (ok_or ''missing sender chain key'' (c_chain_key sender_chain)) (\<lambda>ck.
     if length (ck_key ck) \<noteq> 32 then Err ''invalid sender chain key''
     else Ok \<lparr>chain_key_key = ck_key ck, chain_key_index = ck_index ck\<rparr>))"

definition set_sender_chain_key :: "chain_key \<Rightarrow> session_state \<Rightarrow> session_state" where
  "set_sender_chain_key next_ck st =
     st\<lparr>s_sender_chain := Some (case s_sender_chain st of
          None \<Rightarrow> \<lparr>c_sender_ratchet_key = [], c_sender_ratchet_key_private = [],
                   c_chain_key = Some (to_pb_chain_key next_ck), c_message_keys = []\<rparr>
        | Some c \<Rightarrow> c\<lparr>c_chain_key := Some (to_pb_chain_key next_ck)\<rparr>)\<rparr>"

definition set_chain_at :: "nat \<Rightarrow> pb_chain \<Rightarrow> session_state \<Rightarrow> session_state" where
  "set_chain_at i chain st = st\<lparr>s_receiver_chains := (s_receiver_chains st)[i := chain]\<rparr>"

definition get_message_keys ::
    "public_key \<Rightarrow> u32 \<Rightarrow> session_state \<Rightarrow>
     (message_key_generator option \<times> session_state, invalid_session_error) result" where
  "get_message_keys sender counter st =
     bindR (get_receiver_chain st sender) (\<lambda>found. case found of
       None \<Rightarrow> Ok (None, st)
     | Some (chain, i) \<Rightarrow>
         (case position (\<lambda>m. mk_index m = counter) (c_message_keys chain) of
            None \<Rightarrow> Ok (None, st)
          | Some pos \<Rightarrow>
              bindR (from_pb (c_message_keys chain ! pos)) (\<lambda>keys.
              Ok (Some keys,
                  set_chain_at i (chain\<lparr>c_message_keys := remove_nth pos (c_message_keys chain)\<rparr>) st))))"

text \<open>\<open>insert(0, _)\<close>, then \<open>pop\<close> when the count exceeds the maximum.\<close>

definition push_message_key :: "pb_message_key \<Rightarrow> pb_message_key list \<Rightarrow> pb_message_key list" where
  "push_message_key mk mks =
     (let mks' = mk # mks in if length mks' > MAX_MESSAGE_KEYS then butlast mks' else mks')"

definition set_message_keys ::
    "public_key \<Rightarrow> message_key_generator \<Rightarrow> session_state \<Rightarrow> (session_state, invalid_session_error) result" where
  "set_message_keys sender mkg st =
     bindR (get_receiver_chain st sender) (\<lambda>found.
     bindR (expect_some found) (\<lambda>(chain, i).
     Ok (set_chain_at i
           (chain\<lparr>c_message_keys := push_message_key (into_pb mkg) (c_message_keys chain)\<rparr>) st)))"

definition set_receiver_chain_key ::
    "public_key \<Rightarrow> chain_key \<Rightarrow> session_state \<Rightarrow> (session_state, invalid_session_error) result" where
  "set_receiver_chain_key sender ck st =
     bindR (get_receiver_chain st sender) (\<lambda>found.
     bindR (expect_some found) (\<lambda>(chain, i).
     Ok (set_chain_at i (chain\<lparr>c_chain_key := Some (to_pb_chain_key ck)\<rparr>) st)))"

subsection \<open>Pending pre-key data\<close>

definition set_unacknowledged_pre_key_message ::
    "pre_key_id option \<Rightarrow> signed_pre_key_id \<Rightarrow> public_key \<Rightarrow> system_time \<Rightarrow> session_state \<Rightarrow> session_state" where
  "set_unacknowledged_pre_key_message pre_key_id signed_ec_pre_key_id base_key now st =
     st\<lparr>s_pending_pre_key := Some
          \<lparr>ppk_pre_key_id = pre_key_id, ppk_signed_pre_key_id = signed_ec_pre_key_id,
           ppk_base_key = PublicKey_serialize base_key, ppk_timestamp = secs_since_epoch now\<rparr>\<rparr>"

definition set_kyber_ciphertext :: "bytes \<Rightarrow> session_state \<Rightarrow> session_state" where
  "set_kyber_ciphertext ciphertext st =
     st\<lparr>s_pending_kyber_pre_key := Some \<lparr>pkk_pre_key_id = - 1, pkk_ciphertext = ciphertext\<rparr>\<rparr>"

definition set_unacknowledged_kyber_pre_key_id ::
    "kyber_pre_key_id \<Rightarrow> session_state \<Rightarrow> (session_state, 'e) result" where
  "set_unacknowledged_kyber_pre_key_id kyber_id st =
     bindR (expect_some (s_pending_kyber_pre_key st)) (\<lambda>pending.
     Ok (st\<lparr>s_pending_kyber_pre_key := Some (pending\<lparr>pkk_pre_key_id := kyber_id\<rparr>)\<rparr>))"

record unacknowledged_items =
  ui_pre_key_id :: "pre_key_id option"
  ui_signed_pre_key_id :: signed_pre_key_id
  ui_base_key :: public_key
  ui_kyber_pre_key_id :: "kyber_pre_key_id option"
  ui_kyber_ciphertext :: "bytes option"
  ui_timestamp :: u64

text \<open>
  The creation time of the items is \<open>UNIX_EPOCH + timestamp\<close>; it is kept as the number of seconds
  after the check that the addition does not overflow.
\<close>

definition unacknowledged_pre_key_message_items ::
    "session_state \<Rightarrow> (unacknowledged_items option, invalid_session_error) result" where
  "unacknowledged_pre_key_message_items st =
     (case s_pending_pre_key st of
        None \<Rightarrow> Ok None
      | Some pending \<Rightarrow>
          bindR (map_err (\<lambda>_. ''invalid pending PreKey message base key'')
                  (PublicKey_deserialize (ppk_base_key pending))) (\<lambda>base_key.
          bindR (time_add_secs 0 (unat (ppk_timestamp pending))) (\<lambda>_.
          Ok (Some \<lparr>ui_pre_key_id = ppk_pre_key_id pending,
                    ui_signed_pre_key_id = ppk_signed_pre_key_id pending,
                    ui_base_key = base_key,
                    ui_kyber_pre_key_id = map_option pkk_pre_key_id (s_pending_kyber_pre_key st),
                    ui_kyber_ciphertext = map_option pkk_ciphertext (s_pending_kyber_pre_key st),
                    ui_timestamp = ppk_timestamp pending\<rparr>))))"

definition clear_unacknowledged_pre_key_message :: "session_state \<Rightarrow> session_state" where
  "clear_unacknowledged_pre_key_message st =
     st\<lparr>s_pending_pre_key := None, s_pending_kyber_pre_key := None\<rparr>"

definition set_remote_registration_id :: "u32 \<Rightarrow> session_state \<Rightarrow> session_state" where
  "set_remote_registration_id registration_id st = st\<lparr>s_remote_registration_id := registration_id\<rparr>"

definition set_local_registration_id :: "u32 \<Rightarrow> session_state \<Rightarrow> session_state" where
  "set_local_registration_id registration_id st = st\<lparr>s_local_registration_id := registration_id\<rparr>"

definition get_kyber_ciphertext :: "session_state \<Rightarrow> bytes option" where
  "get_kyber_ciphertext st = map_option pkk_ciphertext (s_pending_kyber_pre_key st)"

subsection \<open>The post-quantum ratchet\<close>

definition pq_ratchet_recv ::
    "'r env \<Rightarrow> bytes \<Rightarrow> session_state \<Rightarrow> (bytes option \<times> session_state, spqr_error) result" where
  "pq_ratchet_recv E msg st =
     bindR (spqr_recv E (s_pq_ratchet_state st) msg) (\<lambda>(state, key).
     Ok (key, st\<lparr>s_pq_ratchet_state := state\<rparr>))"

definition pq_ratchet_send ::
    "'r env \<Rightarrow> session_state \<Rightarrow> 'r \<Rightarrow>
     (bytes \<times> bytes option \<times> session_state, spqr_error) result \<times> 'r" where
  "pq_ratchet_send E st r =
     (let (res, r') = spqr_send E (s_pq_ratchet_state st) r
      in (bindR res (\<lambda>(state, key, msg). Ok (msg, key, st\<lparr>s_pq_ratchet_state := state\<rparr>)), r'))"

subsection \<open>The two capped collections\<close>

interpretation message_key_buffer: bounded_buffer push_message_key MAX_MESSAGE_KEYS mk_index
proof
  fix x :: pb_message_key and xs
  show "x \<in> set (push_message_key x xs)"
    by (cases xs) (auto simp: push_message_key_def Let_def MAX_MESSAGE_KEYS_def)
  show "set (push_message_key x xs) \<subseteq> insert x (set xs)"
    by (auto simp: push_message_key_def Let_def dest: in_set_butlastD split: if_splits)
  show "length (push_message_key x xs) \<le> MAX_MESSAGE_KEYS" if "length xs \<le> MAX_MESSAGE_KEYS"
    using that by (simp add: push_message_key_def Let_def)
  show "set (push_message_key x xs) = insert x (set xs)" if "length xs < MAX_MESSAGE_KEYS"
    using that by (simp add: push_message_key_def Let_def)
  show "distinct (map mk_index (push_message_key x xs))"
    if "distinct (map mk_index xs)" "mk_index x \<notin> mk_index ` set xs"
    using that by (auto simp: push_message_key_def Let_def map_butlast distinct_butlast dest: in_set_butlastD)
qed

lemma push_message_key_length:
  "length (push_message_key x xs) = min (Suc (length xs)) (if length xs < MAX_MESSAGE_KEYS
     then MAX_MESSAGE_KEYS else length xs)"
  by (auto simp: push_message_key_def Let_def)

interpretation receiver_chain_buffer:
  bounded_buffer push_receiver_chain MAX_RECEIVER_CHAINS c_sender_ratchet_key
proof
  fix x :: pb_chain and xs
  have rm: "remove_nth 0 (xs @ [x]) = tl xs @ [x]" if "xs \<noteq> []"
    using that by (cases xs) (simp_all add: remove_nth_def)
  show "x \<in> set (push_receiver_chain x xs)"
    using rm by (cases xs) (auto simp: push_receiver_chain_def Let_def MAX_RECEIVER_CHAINS_def remove_nth_def)
  show "set (push_receiver_chain x xs) \<subseteq> insert x (set xs)"
    using set_remove_nth [of 0 "xs @ [x]"] by (auto simp: push_receiver_chain_def Let_def)
  show "length (push_receiver_chain x xs) \<le> MAX_RECEIVER_CHAINS" if "length xs \<le> MAX_RECEIVER_CHAINS"
    using that by (simp add: push_receiver_chain_def Let_def length_remove_nth)
  show "set (push_receiver_chain x xs) = insert x (set xs)" if "length xs < MAX_RECEIVER_CHAINS"
    using that by (simp add: push_receiver_chain_def Let_def)
  show "distinct (map c_sender_ratchet_key (push_receiver_chain x xs))"
    if "distinct (map c_sender_ratchet_key xs)" "c_sender_ratchet_key x \<notin> c_sender_ratchet_key ` set xs"
    using that by (simp add: push_receiver_chain_def Let_def map_remove_nth distinct_remove_nth)
qed

subsection \<open>The session invariant\<close>

text \<open>
  A receiver chain holds the serialization of a public key and a 32-byte chain key, at most
  \<open>MAX_MESSAGE_KEYS\<close> skipped keys with distinct counters, all below the index of the chain.
\<close>

definition receiver_chain_ok :: "pb_chain \<Rightarrow> bool" where
  "receiver_chain_ok c \<longleftrightarrow>
     (\<exists>pk. public_key_ok pk \<and> c_sender_ratchet_key c = PublicKey_serialize pk) \<and>
     length (c_message_keys c) \<le> MAX_MESSAGE_KEYS \<and>
     distinct (map mk_index (c_message_keys c)) \<and>
     (\<exists>ck. c_chain_key c = Some ck \<and> length (ck_key ck) = 32 \<and>
           (\<forall>m \<in> set (c_message_keys c). mk_index m < ck_index ck))"

definition session_ok :: "session_state \<Rightarrow> bool" where
  "session_ok st \<longleftrightarrow>
     length (s_root_key st) = 32 \<and>
     length (s_receiver_chains st) \<le> MAX_RECEIVER_CHAINS \<and>
     distinct (map c_sender_ratchet_key (s_receiver_chains st)) \<and>
     (\<forall>c \<in> set (s_receiver_chains st). receiver_chain_ok c)"

lemma find_receiver_chain_spec:
  assumes "\<forall>c \<in> set cs. receiver_chain_ok c" "public_key_ok sender"
  shows "find_receiver_chain i cs sender =
    Ok (map_option (\<lambda>j. (cs ! j, i + j))
          (position (\<lambda>c. c_sender_ratchet_key c = PublicKey_serialize sender) cs))"
  using assms(1)
proof (induction cs arbitrary: i)
  case (Cons c cs)
  obtain pk where pk: "public_key_ok pk" "c_sender_ratchet_key c = PublicKey_serialize pk"
    using Cons.prems by (auto simp: receiver_chain_ok_def)
  have eq: "pk = sender \<longleftrightarrow> PublicKey_serialize pk = PublicKey_serialize sender"
    using public_key_serde.ser_eq_iff [OF pk(1) assms(2)] by simp
  show ?case
    using Cons pk by (auto simp: eq public_key_serde.de_ser [OF pk(1)] public_key_serde.de_ser [OF assms(2)] option.map_comp comp_def)
qed simp

lemma get_receiver_chain_spec:
  assumes "session_ok st" "public_key_ok sender"
  shows "get_receiver_chain st sender =
    Ok (map_option (\<lambda>j. (s_receiver_chains st ! j, j))
          (position (\<lambda>c. c_sender_ratchet_key c = PublicKey_serialize sender) (s_receiver_chains st)))"
  using assms by (simp add: get_receiver_chain_def session_ok_def find_receiver_chain_spec)

text \<open>What a lookup yields: a chain of the session, at its index, under the wanted key.\<close>

lemma get_receiver_chain_SomeD:
  assumes "session_ok st" "public_key_ok sender" "get_receiver_chain st sender = Ok (Some (c, i))"
  shows "i < length (s_receiver_chains st)" "s_receiver_chains st ! i = c"
    "c_sender_ratchet_key c = PublicKey_serialize sender" "receiver_chain_ok c"
  using assms(3) unfolding get_receiver_chain_spec [OF assms(1,2)]
  using assms(1) by (auto simp: position_Some session_ok_def)

lemma get_receiver_chain_NoneD:
  assumes "session_ok st" "public_key_ok sender" "get_receiver_chain st sender = Ok None"
    "c \<in> set (s_receiver_chains st)"
  shows "c_sender_ratchet_key c \<noteq> PublicKey_serialize sender"
  using assms(3,4) unfolding get_receiver_chain_spec [OF assms(1,2)] by (auto simp: position_None)

text \<open>Replacing the chain found by another one under the same key; no invariant is needed.\<close>

lemma find_receiver_chain_SomeD:
  "find_receiver_chain i cs sender = Ok (Some (c, j)) \<Longrightarrow>
   i \<le> j \<and> j - i < length cs \<and> cs ! (j - i) = c \<and>
   PublicKey_deserialize (c_sender_ratchet_key c) = Ok sender"
proof (induction cs arbitrary: i)
  case (Cons d cs)
  show ?case
  proof (cases "PublicKey_deserialize (c_sender_ratchet_key d) = Ok sender")
    case True
    then show ?thesis using Cons.prems by auto
  next
    case False
    then have "find_receiver_chain (Suc i) cs sender = Ok (Some (c, j))"
      using Cons.prems by (auto simp: result_simps split: if_splits)
    from Cons.IH [OF this] show ?thesis by (auto simp: nth_Cons' Suc_diff_le)
  qed
qed simp

lemma find_receiver_chain_update:
  "find_receiver_chain i cs sender = Ok (Some (c, j)) \<Longrightarrow>
   c_sender_ratchet_key c' = c_sender_ratchet_key c \<Longrightarrow>
   find_receiver_chain i (cs[j - i := c']) sender = Ok (Some (c', j))"
proof (induction cs arbitrary: i)
  case (Cons d cs)
  show ?case
  proof (cases "PublicKey_deserialize (c_sender_ratchet_key d) = Ok sender")
    case True
    then show ?thesis using Cons.prems by auto
  next
    case False
    then have rest: "find_receiver_chain (Suc i) cs sender = Ok (Some (c, j))"
      using Cons.prems by (auto simp: result_simps split: if_splits)
    then have "j - i = Suc (j - Suc i)" using find_receiver_chain_SomeD by fastforce
    then show ?thesis
      using Cons.IH [OF rest Cons.prems(2)] Cons.prems(1) False
      by (auto simp: result_simps split: if_splits)
  qed
qed simp

lemma get_receiver_chain_set_chain_at:
  assumes "get_receiver_chain st sender = Ok (Some (c, i))"
    "c_sender_ratchet_key c' = c_sender_ratchet_key c"
  shows "get_receiver_chain (set_chain_at i c' st) sender = Ok (Some (c', i))"
  using find_receiver_chain_update [OF assms [unfolded get_receiver_chain_def]]
  by (simp add: get_receiver_chain_def set_chain_at_def)

lemma set_chain_at_twice [simp]: "set_chain_at i c' (set_chain_at i c st) = set_chain_at i c' st"
  by (simp add: set_chain_at_def)

lemma set_chain_at_same:
  "get_receiver_chain st sender = Ok (Some (c, i)) \<Longrightarrow> set_chain_at i c st = st"
  using find_receiver_chain_SomeD [of 0 "s_receiver_chains st" sender c i]
  by (simp add: get_receiver_chain_def set_chain_at_def)
    (metis list_update_id session_structure.surjective session_structure.update_convs(7))

lemma session_ok_set_chain_at:
  assumes "session_ok st" "i < length (s_receiver_chains st)" "receiver_chain_ok c'"
    "c_sender_ratchet_key c' = c_sender_ratchet_key (s_receiver_chains st ! i)"
  shows "session_ok (set_chain_at i c' st)"
proof -
  have "map c_sender_ratchet_key ((s_receiver_chains st)[i := c']) =
      map c_sender_ratchet_key (s_receiver_chains st)"
    using assms(2,4) by (simp add: map_update list_update_same_conv)
  moreover have "set ((s_receiver_chains st)[i := c']) \<subseteq> insert c' (set (s_receiver_chains st))"
    by (rule set_update_subset_insert)
  ultimately show ?thesis
    using assms(1,3) by (auto simp: session_ok_def set_chain_at_def)
qed

text \<open>The operations on a chain that is there.\<close>

lemma set_message_keys_found:
  "get_receiver_chain st sender = Ok (Some (c, i)) \<Longrightarrow>
   set_message_keys sender g st =
     Ok (set_chain_at i (c\<lparr>c_message_keys := push_message_key (into_pb g) (c_message_keys c)\<rparr>) st)"
  by (simp add: set_message_keys_def)

lemma set_receiver_chain_key_found:
  "get_receiver_chain st sender = Ok (Some (c, i)) \<Longrightarrow>
   set_receiver_chain_key sender ck st =
     Ok (set_chain_at i (c\<lparr>c_chain_key := Some (to_pb_chain_key ck)\<rparr>) st)"
  by (simp add: set_receiver_chain_key_def)

lemma get_message_keys_found:
  "get_receiver_chain st sender = Ok (Some (c, i)) \<Longrightarrow>
   get_message_keys sender n st =
     (case position (\<lambda>m. mk_index m = n) (c_message_keys c) of
        None \<Rightarrow> Ok (None, st)
      | Some p \<Rightarrow>
          bindR (from_pb (c_message_keys c ! p)) (\<lambda>keys.
          Ok (Some keys, set_chain_at i (c\<lparr>c_message_keys := remove_nth p (c_message_keys c)\<rparr>) st)))"
  by (simp add: get_message_keys_def)

lemma to_pb_chain_key_sel [simp]:
  "ck_index (to_pb_chain_key ck) = chain_key_index ck" "ck_key (to_pb_chain_key ck) = chain_key_key ck"
  by (simp_all add: to_pb_chain_key_def)

lemma get_receiver_chain_key_found:
  "get_receiver_chain st sender = Ok (Some (c, i)) \<Longrightarrow> c_chain_key c = Some (to_pb_chain_key ck) \<Longrightarrow>
   chain_key_ok ck \<Longrightarrow> get_receiver_chain_key st sender = Ok (Some ck)"
  by (simp add: get_receiver_chain_key_def chain_key_ok_def)

lemma receiver_chain_ok_remove:
  assumes "receiver_chain_ok c"
  shows "receiver_chain_ok (c\<lparr>c_message_keys := remove_nth p (c_message_keys c)\<rparr>)"
proof -
  have "set (remove_nth p (c_message_keys c)) \<subseteq> set (c_message_keys c)" by (rule set_remove_nth)
  moreover have "length (remove_nth p (c_message_keys c)) \<le> length (c_message_keys c)"
    by (simp add: remove_nth_def)
  ultimately show ?thesis
    using assms by (auto simp: receiver_chain_ok_def map_remove_nth distinct_remove_nth)
qed

subsection \<open>Every operation keeps the invariant\<close>

lemma SessionState_new_ok: "length (root_key_key rk) = 32 \<Longrightarrow> session_ok (SessionState_new v a b rk bk pq)"
  by (simp add: SessionState_new_def session_ok_def)

lemma session_ok_frame:
  "s_root_key st' = s_root_key st \<Longrightarrow> s_receiver_chains st' = s_receiver_chains st \<Longrightarrow>
   session_ok st' = session_ok st"
  by (simp add: session_ok_def)

lemma session_ok_simple [simp]:
  "session_ok (set_previous_counter n st) = session_ok st"
  "session_ok (set_sender_chain kp ck st) = session_ok st"
  "session_ok (set_sender_chain_key ck st) = session_ok st"
  "session_ok (set_unacknowledged_pre_key_message p s k now st) = session_ok st"
  "session_ok (set_kyber_ciphertext b st) = session_ok st"
  "session_ok (clear_unacknowledged_pre_key_message st) = session_ok st"
  "session_ok (set_remote_registration_id r st) = session_ok st"
  "session_ok (set_local_registration_id r st) = session_ok st"
  "session_ok (st\<lparr>s_pq_ratchet_state := pq\<rparr>) = session_ok st"
  by (simp_all add: session_ok_def set_previous_counter_def set_sender_chain_def
      set_sender_chain_key_def set_unacknowledged_pre_key_message_def set_kyber_ciphertext_def
      clear_unacknowledged_pre_key_message_def set_remote_registration_id_def
      set_local_registration_id_def)

lemma session_ok_set_root_key:
  "session_ok st \<Longrightarrow> length (root_key_key rk) = 32 \<Longrightarrow> session_ok (set_root_key rk st)"
  by (simp add: session_ok_def set_root_key_def)

lemma session_ok_add_receiver_chain:
  assumes "session_ok st" "public_key_ok sender" "chain_key_ok ck"
    "get_receiver_chain st sender = Ok None"
  shows "session_ok (add_receiver_chain sender ck st)"
proof -
  let ?c = "\<lparr>c_sender_ratchet_key = PublicKey_serialize sender, c_sender_ratchet_key_private = [],
      c_chain_key = Some (to_pb_chain_key ck), c_message_keys = []\<rparr>"
  have ok: "receiver_chain_ok ?c"
    using assms(2,3) by (auto simp: receiver_chain_ok_def chain_key_ok_def)
  have fresh: "c_sender_ratchet_key ?c \<notin> c_sender_ratchet_key ` set (s_receiver_chains st)"
    using get_receiver_chain_NoneD [OF assms(1,2,4)] by fastforce
  show ?thesis
    using assms(1) ok fresh receiver_chain_buffer.push_bound receiver_chain_buffer.push_distinct
      receiver_chain_buffer.push_all [of "s_receiver_chains st" receiver_chain_ok ?c]
    by (simp add: session_ok_def add_receiver_chain_def)
qed

lemma session_ok_get_message_keys:
  assumes "session_ok st" "public_key_ok sender" "get_message_keys sender n st = Ok (k, st')"
  shows "session_ok st'"
proof -
  obtain found where f: "get_receiver_chain st sender = Ok found"
    using assms(3) by (auto simp: get_message_keys_def result_simps)
  consider "st' = st" | c i p where "get_receiver_chain st sender = Ok (Some (c, i))"
      "st' = set_chain_at i (c\<lparr>c_message_keys := remove_nth p (c_message_keys c)\<rparr>) st"
  proof (cases found)
    case None
    then show ?thesis using f assms(3) that(1) by (simp add: get_message_keys_def)
  next
    case (Some ci)
    then obtain c i where "get_receiver_chain st sender = Ok (Some (c, i))" using f by (cases ci) auto
    then show ?thesis
      using assms(3) that by (auto simp: get_message_keys_found result_simps split: option.split_asm)
  qed
  then show ?thesis
  proof cases
    case 1
    then show ?thesis using assms(1) by simp
  next
    case 2
    note found = get_receiver_chain_SomeD [OF assms(1,2) 2(1)]
    show ?thesis
      unfolding 2(2) using assms(1) found receiver_chain_ok_remove
      by (intro session_ok_set_chain_at) auto
  qed
qed

end
