(* ===== verification/Session_Record.thy ===== *)
theory Session_Record
  imports Session_State
begin

text \<open>
  The \<open>SessionRecord\<close> half of \<open>rust/protocol/src/state/session.rs\<close>: the current session and the
  archive of serialized previous sessions, newest first and at most
  \<open>ARCHIVED_STATES_MAX_LENGTH\<close> of them, with the operations that archive and promote sessions.
  An operation on \<open>&mut self\<close> returns the new record; one that can fail leaves the record as it
  was on the error, because the sources mutate only after the last \<open>?\<close>.
\<close>

record session_record =
  sr_current_session :: "session_state option"
  sr_previous_sessions :: "bytes list"

definition SessionRecord_new_fresh :: session_record where
  "SessionRecord_new_fresh = \<lparr>sr_current_session = None, sr_previous_sessions = []\<rparr>"

definition SessionRecord_new :: "session_state \<Rightarrow> session_record" where
  "SessionRecord_new state = \<lparr>sr_current_session = Some state, sr_previous_sessions = []\<rparr>"

definition SessionRecord_deserialize :: "'r env \<Rightarrow> bytes \<Rightarrow> (session_record, signal_error) result" where
  "SessionRecord_deserialize E bs =
     (case decode (record_codec E) bs of
        None \<Rightarrow> Err (from_invalid_session_error ''failed to decode session record protobuf'')
      | Some record \<Rightarrow> Ok \<lparr>sr_current_session = rs_current_session record,
                          sr_previous_sessions = rs_previous_sessions record\<rparr>)"

definition SessionRecord_serialize :: "'r env \<Rightarrow> session_record \<Rightarrow> bytes" where
  "SessionRecord_serialize E rec =
     encode (record_codec E) \<lparr>rs_current_session = sr_current_session rec,
                              rs_previous_sessions = sr_previous_sessions rec\<rparr>"

text \<open>One item of the iterator \<open>previous_session_states\<close>.\<close>

definition decode_previous :: "'r env \<Rightarrow> bytes \<Rightarrow> (session_state, invalid_session_error) result" where
  "decode_previous E bs =
     (case decode (session_codec E) bs of
        None \<Rightarrow> Err ''failed to decode previous session protobuf''
      | Some st \<Rightarrow> Ok st)"

definition previous_session_states ::
    "'r env \<Rightarrow> session_record \<Rightarrow> (session_state, invalid_session_error) result list" where
  "previous_session_states E rec = map (decode_previous E) (sr_previous_sessions rec)"

subsection \<open>Archiving and promoting\<close>

text \<open>\<open>pop\<close> the oldest archived session when the archive is full, then \<open>insert(0, _)\<close>.\<close>

definition push_archived :: "bytes \<Rightarrow> bytes list \<Rightarrow> bytes list" where
  "push_archived b bs = b # (if length bs \<ge> ARCHIVED_STATES_MAX_LENGTH then butlast bs else bs)"

definition archive_current_state_inner :: "'r env \<Rightarrow> session_record \<Rightarrow> bool \<times> session_record" where
  "archive_current_state_inner E rec =
     (case sr_current_session rec of
        Some current_session \<Rightarrow>
          (True, rec\<lparr>sr_current_session := None,
                     sr_previous_sessions := push_archived
                       (encode (session_codec E) (clear_unacknowledged_pre_key_message current_session))
                       (sr_previous_sessions rec)\<rparr>)
      | None \<Rightarrow> (False, rec))"

definition archive_current_state :: "'r env \<Rightarrow> session_record \<Rightarrow> session_record" where
  "archive_current_state E rec = snd (archive_current_state_inner E rec)"

definition set_session_state :: "session_state \<Rightarrow> session_record \<Rightarrow> session_record" where
  "set_session_state st rec = rec\<lparr>sr_current_session := Some st\<rparr>"

definition promote_state :: "'r env \<Rightarrow> session_state \<Rightarrow> session_record \<Rightarrow> session_record" where
  "promote_state E new_state rec =
     (snd (archive_current_state_inner E rec))\<lparr>sr_current_session := Some new_state\<rparr>"

text \<open>\<open>Vec::remove\<close> panics out of range; both callers pass an index from the enumeration.\<close>

definition promote_old_session ::
    "'r env \<Rightarrow> nat \<Rightarrow> session_state \<Rightarrow> session_record \<Rightarrow> (session_record, 'e) result" where
  "promote_old_session E old_session updated_session rec =
     bindR (assertR (old_session < length (sr_previous_sessions rec))) (\<lambda>_.
     Ok (promote_state E updated_session
           (rec\<lparr>sr_previous_sessions := remove_nth old_session (sr_previous_sessions rec)\<rparr>)))"

definition session_matches :: "u32 \<Rightarrow> bytes \<Rightarrow> session_state \<Rightarrow> (bool, invalid_session_error) result" where
  "session_matches version base_key st =
     bindR (session_version st) (\<lambda>v. Ok (v = version \<and> base_key = s_alice_base_key st))"

fun find_session_to_promote ::
    "u32 \<Rightarrow> bytes \<Rightarrow> nat \<Rightarrow> (session_state, invalid_session_error) result list \<Rightarrow>
     ((nat \<times> session_state) option, invalid_session_error) result" where
  "find_session_to_promote version base_key i [] = Ok None"
| "find_session_to_promote version base_key i (prev # rest) =
     bindR prev (\<lambda>previous.
     bindR (session_matches version base_key previous) (\<lambda>matches.
     if matches then Ok (Some (i, previous))
     else find_session_to_promote version base_key (Suc i) rest))"

definition promote_matching_session ::
    "'r env \<Rightarrow> u32 \<Rightarrow> bytes \<Rightarrow> session_record \<Rightarrow> (bool \<times> session_record, invalid_session_error) result" where
  "promote_matching_session E version base_key rec =
     bindR (case sr_current_session rec of
              Some current_session \<Rightarrow> session_matches version base_key current_session
            | None \<Rightarrow> Ok False) (\<lambda>current_matches.
     if current_matches then Ok (True, rec)
     else
       bindR (find_session_to_promote version base_key 0 (previous_session_states E rec)) (\<lambda>found.
       case found of
         Some (i, state) \<Rightarrow> bindR (promote_old_session E i state rec) (\<lambda>rec'. Ok (True, rec'))
       | None \<Rightarrow> Ok (False, rec)))"

subsection \<open>Queries on the current session\<close>

definition current_or_invalid :: "string \<Rightarrow> session_record \<Rightarrow> (session_state, signal_error) result" where
  "current_or_invalid fname rec = ok_or (InvalidState fname ''No current session'') (sr_current_session rec)"

definition current_pq_state :: "session_record \<Rightarrow> bytes option" where
  "current_pq_state rec = map_option s_pq_ratchet_state (sr_current_session rec)"

definition record_remote_registration_id :: "session_record \<Rightarrow> (u32, signal_error) result" where
  "record_remote_registration_id rec =
     bindR (current_or_invalid ''remote_registration_id'' rec) (\<lambda>st. Ok (s_remote_registration_id st))"

definition record_local_registration_id :: "session_record \<Rightarrow> (u32, signal_error) result" where
  "record_local_registration_id rec =
     bindR (current_or_invalid ''local_registration_id'' rec) (\<lambda>st. Ok (s_local_registration_id st))"

definition record_session_version :: "session_record \<Rightarrow> (u32, signal_error) result" where
  "record_session_version rec =
     bindR (current_or_invalid ''session_version'' rec) (\<lambda>st.
     map_err from_invalid_session_error (session_version st))"

definition record_local_identity_key_bytes :: "session_record \<Rightarrow> (bytes, signal_error) result" where
  "record_local_identity_key_bytes rec =
     bindR (current_or_invalid ''local_identity_key_bytes'' rec) (\<lambda>st.
     map_err from_invalid_session_error (local_identity_key_bytes st))"

definition record_remote_identity_key_bytes :: "session_record \<Rightarrow> (bytes option, signal_error) result" where
  "record_remote_identity_key_bytes rec =
     bindR (current_or_invalid ''remote_identity_key_bytes'' rec) (\<lambda>st.
     map_err from_invalid_session_error (remote_identity_key_bytes st))"

definition record_has_usable_sender_chain ::
    "session_record \<Rightarrow> system_time \<Rightarrow> u32 \<Rightarrow> (bool, signal_error) result" where
  "record_has_usable_sender_chain rec now requirements =
     (case sr_current_session rec of
        Some session \<Rightarrow> map_err from_invalid_session_error (has_usable_sender_chain session now requirements)
      | None \<Rightarrow> Ok False)"

definition record_alice_base_key :: "session_record \<Rightarrow> (bytes, signal_error) result" where
  "record_alice_base_key rec =
     bindR (current_or_invalid ''alice_base_key'' rec) (\<lambda>st. Ok (s_alice_base_key st))"

definition record_get_receiver_chain_key_bytes ::
    "session_record \<Rightarrow> public_key \<Rightarrow> (bytes option, signal_error) result" where
  "record_get_receiver_chain_key_bytes rec sender =
     bindR (current_or_invalid ''get_receiver_chain_key'' rec) (\<lambda>st.
     bindR (map_err from_invalid_session_error (get_receiver_chain_key st sender)) (\<lambda>ck.
     Ok (map_option chain_key_key ck)))"

definition record_get_sender_chain_key_bytes :: "session_record \<Rightarrow> (bytes, signal_error) result" where
  "record_get_sender_chain_key_bytes rec =
     bindR (current_or_invalid ''get_sender_chain_key_bytes'' rec) (\<lambda>st.
     bindR (map_err from_invalid_session_error (get_sender_chain_key st)) (\<lambda>ck.
     Ok (chain_key_key ck)))"

definition current_ratchet_key_matches :: "session_record \<Rightarrow> public_key \<Rightarrow> (bool, signal_error) result" where
  "current_ratchet_key_matches rec key =
     (case sr_current_session rec of
        Some session \<Rightarrow>
          bindR (map_err from_invalid_session_error (sender_ratchet_key session)) (\<lambda>k. Ok (k = key))
      | None \<Rightarrow> Ok False)"

definition record_get_kyber_ciphertext :: "session_record \<Rightarrow> (bytes option, signal_error) result" where
  "record_get_kyber_ciphertext rec =
     bindR (current_or_invalid ''get_kyber_ciphertext'' rec) (\<lambda>st. Ok (get_kyber_ciphertext st))"

subsection \<open>Lemmas\<close>

interpretation archive_buffer: bounded_buffer push_archived ARCHIVED_STATES_MAX_LENGTH id
proof
  fix x :: bytes and xs
  show "x \<in> set (push_archived x xs)" by (simp add: push_archived_def)
  show "set (push_archived x xs) \<subseteq> insert x (set xs)"
    by (auto simp: push_archived_def dest: in_set_butlastD split: if_splits)
  show "length (push_archived x xs) \<le> ARCHIVED_STATES_MAX_LENGTH"
    if "length xs \<le> ARCHIVED_STATES_MAX_LENGTH"
    using that by (simp add: push_archived_def ARCHIVED_STATES_MAX_LENGTH_def)
  show "set (push_archived x xs) = insert x (set xs)" if "length xs < ARCHIVED_STATES_MAX_LENGTH"
    using that by (simp add: push_archived_def)
  show "distinct (map id (push_archived x xs))" if "distinct (map id xs)" "id x \<notin> id ` set xs"
    using that by (auto simp: push_archived_def distinct_butlast dest: in_set_butlastD)
qed

interpretation session_record_serde:
  serde "SessionRecord_serialize E" "SessionRecord_deserialize E" "\<lambda>_. codec_ok (record_codec E)" for E
  by unfold_locales (simp add: SessionRecord_serialize_def SessionRecord_deserialize_def)

text \<open>
  The record invariant: a bounded archive whose entries all parse to sessions with no pending pre-key data, and
  sessions that satisfy an invariant \<open>I\<close> of their own. A well-formed record consists of well-formed sessions.
\<close>

definition archived_inv :: "'r env \<Rightarrow> (session_state \<Rightarrow> bool) \<Rightarrow> bytes \<Rightarrow> bool" where
  "archived_inv E I bs \<longleftrightarrow> (\<exists>st. decode_previous E bs = Ok st \<and> I st \<and>
     s_pending_pre_key st = None \<and> s_pending_kyber_pre_key st = None)"

definition record_inv :: "'r env \<Rightarrow> (session_state \<Rightarrow> bool) \<Rightarrow> session_record \<Rightarrow> bool" where
  "record_inv E I rec \<longleftrightarrow>
     pred_option I (sr_current_session rec) \<and>
     length (sr_previous_sessions rec) \<le> ARCHIVED_STATES_MAX_LENGTH \<and>
     (\<forall>bs \<in> set (sr_previous_sessions rec). archived_inv E I bs)"

abbreviation record_ok :: "'r env \<Rightarrow> session_record \<Rightarrow> bool" where
  "record_ok E \<equiv> record_inv E session_ok"

lemma record_inv_fresh: "record_inv E I SessionRecord_new_fresh"
  by (simp add: record_inv_def SessionRecord_new_fresh_def)

lemma record_inv_new: "I st \<Longrightarrow> record_inv E I (SessionRecord_new st)"
  by (simp add: record_inv_def SessionRecord_new_def)

lemma record_inv_current: "record_inv E I rec \<Longrightarrow> sr_current_session rec = Some st \<Longrightarrow> I st"
  by (simp add: record_inv_def)

lemma record_inv_previous:
  "record_inv E I rec \<Longrightarrow> i < length (sr_previous_sessions rec) \<Longrightarrow>
   decode_previous E (sr_previous_sessions rec ! i) = Ok st \<Longrightarrow> I st"
  by (metis archived_inv_def nth_mem record_inv_def result.inject(1))

lemma record_inv_set_session_state:
  "record_inv E I rec \<Longrightarrow> I st \<Longrightarrow> record_inv E I (set_session_state st rec)"
  by (simp add: record_inv_def set_session_state_def)

lemma record_inv_mono:
  assumes "record_inv E I rec" "\<And>st. I st \<Longrightarrow> J st"
  shows "record_inv E J rec"
  using assms by (auto simp: record_inv_def archived_inv_def pred_option_def)

text \<open>The invariants of sessions that a record keeps: those that do not depend on the pending pre-key.\<close>

locale archivable =
  fixes I :: "session_state \<Rightarrow> bool"
  assumes clear: "I st \<Longrightarrow> I (clear_unacknowledged_pre_key_message st)"
begin

lemma archived_clear:
  assumes "codec_ok (session_codec E)" "I st"
  shows "archived_inv E I (encode (session_codec E) (clear_unacknowledged_pre_key_message st))"
  using assms clear [of st]
  by (simp add: archived_inv_def decode_previous_def) (simp add: clear_unacknowledged_pre_key_message_def)

lemma record_archive:
  assumes "codec_ok (session_codec E)" "record_inv E I rec"
  shows "record_inv E I (snd (archive_current_state_inner E rec))"
proof (cases "sr_current_session rec")
  case (Some st)
  let ?b = "encode (session_codec E) (clear_unacknowledged_pre_key_message st)"
  have "archived_inv E I ?b"
    using assms Some by (auto simp: record_inv_def intro: archived_clear)
  then have "\<forall>bs \<in> set (push_archived ?b (sr_previous_sessions rec)). archived_inv E I bs"
    using assms(2) archive_buffer.push_all [of "sr_previous_sessions rec" "archived_inv E I" ?b]
    by (simp add: record_inv_def)
  then show ?thesis
    using assms(2) Some archive_buffer.push_bound by (simp add: archive_current_state_inner_def record_inv_def)
qed (use assms in \<open>simp add: archive_current_state_inner_def\<close>)

lemma record_promote_state:
  "codec_ok (session_codec E) \<Longrightarrow> record_inv E I rec \<Longrightarrow> I st \<Longrightarrow> record_inv E I (promote_state E st rec)"
  using record_archive [of E rec] by (simp add: promote_state_def record_inv_def)

lemma record_promote_old_session:
  assumes "codec_ok (session_codec E)" "record_inv E I rec" "I st"
    "promote_old_session E i st rec = Ok rec'"
  shows "record_inv E I rec'"
proof -
  have lt: "i < length (sr_previous_sessions rec)"
    and rec': "rec' = promote_state E st (rec\<lparr>sr_previous_sessions := remove_nth i (sr_previous_sessions rec)\<rparr>)"
    using assms(4) by (auto simp: promote_old_session_def result_simps)
  have "record_inv E I (rec\<lparr>sr_previous_sessions := remove_nth i (sr_previous_sessions rec)\<rparr>)"
    using assms(2) lt set_remove_nth [of i "sr_previous_sessions rec"]
    by (auto simp: record_inv_def length_remove_nth)
  then show ?thesis unfolding rec' by (intro record_promote_state assms)
qed

end

interpretation well_formed: archivable session_ok
  by unfold_locales (simp add: session_ok_def clear_unacknowledged_pre_key_message_def)

lemma session_version_Ok: "session_version st = Ok (if s_session_version st = 0 then 2 else s_session_version st)"
  by (simp add: session_version_def)

lemma session_matches_Ok:
  "session_matches v k st =
     Ok ((if s_session_version st = 0 then 2 else s_session_version st) = v \<and> k = s_alice_base_key st)"
  by (simp add: session_matches_def session_version_Ok)

lemma find_session_to_promote_SomeD:
  "find_session_to_promote v k i prevs = Ok (Some (j, st)) \<Longrightarrow>
   i \<le> j \<and> j - i < length prevs \<and> prevs ! (j - i) = Ok st \<and> session_matches v k st = Ok True"
proof (induction prevs arbitrary: i)
  case (Cons p prevs)
  show ?case
  proof (cases p)
    case (Ok q)
    then consider "session_matches v k q = Ok True" "j = i" "q = st"
      | "find_session_to_promote v k (Suc i) prevs = Ok (Some (j, st))"
      using Cons.prems by (auto simp: session_matches_Ok split: if_splits)
    then show ?thesis
    proof cases
      case 1
      then show ?thesis using Ok by simp
    next
      case 2
      note ih = Cons.IH [OF 2]
      then have "j - i = Suc (j - Suc i)" by linarith
      then show ?thesis using ih by simp
    qed
  qed (use Cons.prems in auto)
qed simp

lemma find_session_to_promote_NoneD:
  "find_session_to_promote v k i prevs = Ok None \<Longrightarrow> Ok st \<in> set prevs \<Longrightarrow>
   session_matches v k st = Ok False"
proof (induction prevs arbitrary: i)
  case (Cons p prevs)
  show ?case
  proof (cases p)
    case (Ok q)
    then have "session_matches v k q = Ok False" "find_session_to_promote v k (Suc i) prevs = Ok None"
      using Cons.prems(1) by (auto simp: session_matches_Ok split: if_splits)
    then show ?thesis using Cons.IH Cons.prems(2) Ok by auto
  qed (use Cons.prems in auto)
qed simp

lemma find_session_to_promote_no_panic:
  "Panic \<notin> set prevs \<Longrightarrow> find_session_to_promote v k i prevs \<noteq> Panic"
  by (induction prevs arbitrary: i) (auto simp: result_simps session_matches_Ok split: if_splits)

lemma decode_previous_no_panic [simp]: "decode_previous E b \<noteq> Panic"
  by (simp add: decode_previous_def split: option.split)

lemma promote_matching_session_no_panic: "promote_matching_session E v k rec \<noteq> Panic"
proof -
  have "find_session_to_promote v k 0 (previous_session_states E rec) \<noteq> Panic"
    by (rule find_session_to_promote_no_panic)
      (metis previous_session_states_def decode_previous_no_panic imageE list.set_map)
  moreover have "promote_old_session E i st rec \<noteq> (Panic :: (_, invalid_session_error) result)"
    if "find_session_to_promote v k 0 (previous_session_states E rec) = Ok (Some (i, st))" for i st
    using find_session_to_promote_SomeD [OF that]
    by (simp add: promote_old_session_def previous_session_states_def)
  ultimately show ?thesis
    by (auto simp: promote_matching_session_def result_simps session_matches_Ok
        split: option.splits if_splits)
qed

lemma promote_matching_session_cases:
  assumes "promote_matching_session E v k rec = Ok (b, rec')"
  obtains
    (current) st where "b" "rec' = rec" "sr_current_session rec = Some st" "session_matches v k st = Ok True"
  | (old) i st where "b" "i < length (sr_previous_sessions rec)"
      "decode_previous E (sr_previous_sessions rec ! i) = Ok st" "session_matches v k st = Ok True"
      "promote_old_session E i st rec = (Ok rec' :: (_, invalid_session_error) result)"
  | (absent) "\<not> b" "rec' = rec"
      "\<And>st. sr_current_session rec = Some st \<Longrightarrow> session_matches v k st = Ok False"
      "\<And>bs st. bs \<in> set (sr_previous_sessions rec) \<Longrightarrow> decode_previous E bs = Ok st \<Longrightarrow>
         session_matches v k st = Ok False"
proof -
  obtain m where m: "(case sr_current_session rec of
      Some current_session \<Rightarrow> session_matches v k current_session | None \<Rightarrow> Ok False) = Ok m"
    using assms by (auto simp: promote_matching_session_def bindR_eq_Ok)
  show thesis
  proof (cases m)
    case True
    then show thesis using m assms current
      by (auto simp: promote_matching_session_def split: option.splits)
  next
    case False
    have cur: "session_matches v k st = Ok False" if "sr_current_session rec = Some st" for st
      using m False that by simp
    obtain found where f: "find_session_to_promote v k 0 (previous_session_states E rec) = Ok found"
      using assms m False by (auto simp: promote_matching_session_def bindR_eq_Ok)
    show thesis
    proof (cases found)
      case None
      have "session_matches v k st = Ok False"
        if "bs \<in> set (sr_previous_sessions rec)" "decode_previous E bs = Ok st" for bs st
        using find_session_to_promote_NoneD [OF f [unfolded None], of st] that
        by (auto simp: previous_session_states_def rev_image_eqI)
      then show thesis using assms m False f None cur
        by (intro absent) (auto simp: promote_matching_session_def)
    next
      case (Some x)
      obtain i st where x: "x = (i, st)" by (cases x)
      note D = find_session_to_promote_SomeD [OF f [unfolded Some x]]
      show thesis
      proof (rule old [of i st])
        show "promote_old_session E i st rec = (Ok rec' :: (_, invalid_session_error) result)" and b
          using assms m False f Some x by (auto simp: promote_matching_session_def result_simps)
      qed (use D in \<open>auto simp: previous_session_states_def\<close>)
    qed
  qed
qed

lemma promote_old_session_current:
  "promote_old_session E i st rec = Ok rec' \<Longrightarrow> sr_current_session rec' = Some st"
  by (auto simp: promote_old_session_def promote_state_def result_simps)

context archivable
begin

lemma record_promote_matching:
  assumes "codec_ok (session_codec E)" "record_inv E I rec" "promote_matching_session E v k rec = Ok (b, rec')"
  shows "record_inv E I rec'"
  using assms(3)
proof (cases rule: promote_matching_session_cases)
  case (old i st)
  have "I st" using record_inv_previous [OF assms(2) old(2,3)] .
  then show ?thesis using record_promote_old_session assms old by blast
qed (use assms in auto)

end

subsection \<open>How long an archived session stays\<close>

abbreviation archived_form :: "'r env \<Rightarrow> session_state \<Rightarrow> bytes" where
  "archived_form E st \<equiv> encode (session_codec E) (clear_unacknowledged_pre_key_message st)"

lemma decode_archived_form [simp]:
  "codec_ok (session_codec E) \<Longrightarrow> decode_previous E (archived_form E st) = Ok (clear_unacknowledged_pre_key_message st)"
  by (simp add: decode_previous_def)

lemma session_matches_clear [simp]: "session_matches v k (clear_unacknowledged_pre_key_message st) = session_matches v k st"
  by (simp add: session_matches_Ok clear_unacknowledged_pre_key_message_def)

lemma push_archived_take:
  assumes "length bs \<le> ARCHIVED_STATES_MAX_LENGTH"
  shows "push_archived b bs = take ARCHIVED_STATES_MAX_LENGTH (b # bs)"
  using assms by (cases "length bs = ARCHIVED_STATES_MAX_LENGTH")
    (auto simp: push_archived_def butlast_conv_take ARCHIVED_STATES_MAX_LENGTH_def)

text \<open>After a row of new sessions, the archive holds the sessions before the last one, newest first.\<close>

lemma fold_promote_state:
  assumes "sr_current_session rec = Some st" "length (sr_previous_sessions rec) \<le> ARCHIVED_STATES_MAX_LENGTH"
  shows "fold (promote_state E) sts rec =
    rec\<lparr>sr_current_session := Some (last (st # sts)),
        sr_previous_sessions := take ARCHIVED_STATES_MAX_LENGTH
          (map (archived_form E) (rev (butlast (st # sts))) @ sr_previous_sessions rec)\<rparr>"
  using assms
proof (induction sts arbitrary: rec st)
  case (Cons s sts)
  let ?rec = "promote_state E s rec"
  have rec: "?rec = rec\<lparr>sr_current_session := Some s,
      sr_previous_sessions := take ARCHIVED_STATES_MAX_LENGTH (archived_form E st # sr_previous_sessions rec)\<rparr>"
    using Cons.prems by (simp add: promote_state_def archive_current_state_inner_def push_archived_take)
  have "fold (promote_state E) sts ?rec = ?rec\<lparr>sr_current_session := Some (last (s # sts)),
      sr_previous_sessions := take ARCHIVED_STATES_MAX_LENGTH
        (map (archived_form E) (rev (butlast (s # sts))) @ sr_previous_sessions ?rec)\<rparr>"
    by (rule Cons.IH) (simp_all add: rec)
  then show ?case by (simp add: rec min_def)
qed simp

lemma find_session_to_promote_skip:
  assumes "\<forall>s \<in> set sts. session_matches v k s = Ok False"
  shows "find_session_to_promote v k i (map Ok sts @ ps) = find_session_to_promote v k (i + length sts) ps"
  using assms by (induction sts arbitrary: i) simp_all

lemma replaced_session_promoted:
  assumes "codec_ok (session_codec E)" "sr_current_session rec = Some st"
    "length (sr_previous_sessions rec) \<le> ARCHIVED_STATES_MAX_LENGTH"
    "session_matches v k st = Ok True" "\<forall>s \<in> set sts. session_matches v k s = Ok False"
    "sts \<noteq> []" "length sts \<le> ARCHIVED_STATES_MAX_LENGTH"
  shows "promote_matching_session E v k (fold (promote_state E) sts rec) =
    Ok (True, rec\<lparr>sr_current_session := Some (clear_unacknowledged_pre_key_message st),
      sr_previous_sessions := map (archived_form E) (rev sts) @
        take (ARCHIVED_STATES_MAX_LENGTH - length sts) (sr_previous_sessions rec)\<rparr>)"
proof -
  obtain s ss where sts: "rev sts = s # ss" using assms(6) by (cases "rev sts") auto
  then have sts': "sts = rev ss @ [s]" by (metis rev.simps(2) rev_rev_ident)
  let ?old = "take (ARCHIVED_STATES_MAX_LENGTH - length sts) (sr_previous_sessions rec)"
  have prev: "fold (promote_state E) sts rec = rec\<lparr>sr_current_session := Some s,
      sr_previous_sessions := map (archived_form E) ss @ archived_form E st # ?old\<rparr>"
    using assms(7) unfolding fold_promote_state [OF assms(2,3)]
    by (simp add: sts' butlast_append take_Cons')
  have "find_session_to_promote v k 0 (map (decode_previous E) (map (archived_form E) ss @ archived_form E st # ?old)) =
      Ok (Some (length ss, clear_unacknowledged_pre_key_message st))"
    using find_session_to_promote_skip [of "map clear_unacknowledged_pre_key_message ss" v k 0] assms(1,4,5)
    by (simp add: sts' comp_def)
  moreover have "\<not> ARCHIVED_STATES_MAX_LENGTH \<le> length (map (archived_form E) ss @ ?old)"
    using assms(7) by (auto simp: sts' min_def)
  then have "push_archived (archived_form E s) (map (archived_form E) ss @ ?old) =
      archived_form E s # map (archived_form E) ss @ ?old"
    by (simp only: push_archived_def if_False)
  moreover have "remove_nth (length ss) (map (archived_form E) ss @ archived_form E st # ?old) = map (archived_form E) ss @ ?old"
    by (simp add: remove_nth_def)
  moreover have "session_matches v k s = Ok False" using assms(5) by (simp add: sts')
  ultimately show ?thesis
    by (simp add: prev promote_matching_session_def previous_session_states_def promote_old_session_def
        promote_state_def archive_current_state_inner_def sts)
qed

end
