(* ===== verification/Messages.thy ===== *)
theory Messages
  imports Identity_Key
begin

text \<open>
  The wire messages of \<open>rust/protocol/src/protocol.rs\<close>: constructors, parsers, MAC and signature
  checks. Each struct keeps the bytes it was parsed from or serialized to, as in the sources.
  A slice taken beyond the end of a vector panics; the parsers check lengths first.
\<close>

definition SENDERKEY_MESSAGE_CURRENT_VERSION :: u8 where "SENDERKEY_MESSAGE_CURRENT_VERSION = 3"
definition SIGNAL_MAC_LENGTH :: nat where "SIGNAL_MAC_LENGTH = 8"
definition SIGNATURE_LEN :: nat where "SIGNATURE_LEN = 64"

text \<open>\<open>((message_version & 0xF) << 4) | current\<close>\<close>

definition version_byte :: "u8 \<Rightarrow> u8 \<Rightarrow> u8" where
  "version_byte message_version current = push_bit 4 (message_version AND 0xF) OR current"

subsection \<open>\<open>SignalMessage\<close>\<close>

record signal_message =
  sm_message_version :: u8
  sm_sender_ratchet_key :: public_key
  sm_counter :: u32
  sm_previous_counter :: u32
  sm_ciphertext :: bytes
  sm_pq_ratchet :: bytes
  sm_serialized :: bytes

definition SignalMessage_compute_mac ::
    "'r env \<Rightarrow> identity_key \<Rightarrow> identity_key \<Rightarrow> bytes \<Rightarrow> bytes \<Rightarrow> (bytes, signal_error) result" where
  "SignalMessage_compute_mac E sender_identity_key receiver_identity_key mac_key message =
     (if length mac_key \<noteq> 32 then Err (InvalidMacKeyLength (length mac_key))
      else Ok (take SIGNAL_MAC_LENGTH (hmac_sha256_raw E mac_key
             (PublicKey_serialize sender_identity_key @ PublicKey_serialize receiver_identity_key
              @ message))))"

definition SignalMessage_new ::
    "'r env \<Rightarrow> u8 \<Rightarrow> bytes \<Rightarrow> public_key \<Rightarrow> u32 \<Rightarrow> u32 \<Rightarrow> bytes \<Rightarrow> identity_key \<Rightarrow> identity_key \<Rightarrow> bytes \<Rightarrow>
     (signal_message, signal_error) result" where
  "SignalMessage_new E message_version mac_key sender_ratchet_key counter previous_counter ciphertext
       sender_identity_key receiver_identity_key pq_ratchet =
     (let message = \<lparr>wsm_ratchet_key = Some (PublicKey_serialize sender_ratchet_key),
                     wsm_counter = Some counter,
                     wsm_previous_counter = Some previous_counter,
                     wsm_ciphertext = Some ciphertext,
                     wsm_pq_ratchet = (if pq_ratchet = [] then None else Some pq_ratchet)\<rparr>;
          serialized = version_byte message_version CIPHERTEXT_MESSAGE_CURRENT_VERSION
                         # encode (signal_message_codec E) message
      in bindR (SignalMessage_compute_mac E sender_identity_key receiver_identity_key mac_key serialized) (\<lambda>mac.
         Ok \<lparr>sm_message_version = message_version, sm_sender_ratchet_key = sender_ratchet_key,
             sm_counter = counter, sm_previous_counter = previous_counter,
             sm_ciphertext = ciphertext, sm_pq_ratchet = pq_ratchet,
             sm_serialized = serialized @ mac\<rparr>))"

definition SignalMessage_verify_mac ::
    "'r env \<Rightarrow> signal_message \<Rightarrow> identity_key \<Rightarrow> identity_key \<Rightarrow> bytes \<Rightarrow> (bool, signal_error) result" where
  "SignalMessage_verify_mac E m sender_identity_key receiver_identity_key mac_key =
     bindR (assertR (SIGNAL_MAC_LENGTH \<le> length (sm_serialized m))) (\<lambda>_.
     let n = length (sm_serialized m) - SIGNAL_MAC_LENGTH
     in bindR (SignalMessage_compute_mac E sender_identity_key receiver_identity_key mac_key
                (take n (sm_serialized m))) (\<lambda>our_mac.
        Ok (our_mac = drop n (sm_serialized m))))"

text \<open>The version check shared by the two parsers of 1:1 messages.\<close>

definition check_message_version :: "u8 \<Rightarrow> (unit, signal_error) result" where
  "check_message_version v =
     (if v < CIPHERTEXT_MESSAGE_PRE_KYBER_VERSION then Err (LegacyCiphertextVersion v)
      else if v > CIPHERTEXT_MESSAGE_CURRENT_VERSION then Err (UnrecognizedCiphertextVersion v)
      else Ok ())"

definition SignalMessage_try_from :: "'r env \<Rightarrow> bytes \<Rightarrow> (signal_message, signal_error) result" where
  "SignalMessage_try_from E v =
     (if length v < SIGNAL_MAC_LENGTH + 1 then Err (CiphertextMessageTooShort (length v))
      else
        let message_version = drop_bit 4 (hd v)
        in bindR (check_message_version message_version) (\<lambda>_.
           bindR (ok_or InvalidProtobufEncoding
                   (decode (signal_message_codec E) (drop 1 (take (length v - SIGNAL_MAC_LENGTH) v)))) (\<lambda>p.
           bindR (ok_or InvalidProtobufEncoding (wsm_ratchet_key p)) (\<lambda>rk.
           bindR (map_err from_curve_error (PublicKey_deserialize rk)) (\<lambda>sender_ratchet_key.
           bindR (ok_or InvalidProtobufEncoding (wsm_counter p)) (\<lambda>counter.
           bindR (ok_or InvalidProtobufEncoding (wsm_ciphertext p)) (\<lambda>ciphertext.
           Ok \<lparr>sm_message_version = message_version, sm_sender_ratchet_key = sender_ratchet_key,
               sm_counter = counter,
               sm_previous_counter = (case wsm_previous_counter p of None \<Rightarrow> 0 | Some c \<Rightarrow> c),
               sm_ciphertext = ciphertext,
               sm_pq_ratchet = (case wsm_pq_ratchet p of None \<Rightarrow> [] | Some b \<Rightarrow> b),
               sm_serialized = v\<rparr>)))))))"

subsection \<open>\<open>PreKeySignalMessage\<close>\<close>

record kyber_payload =
  kyp_pre_key_id :: kyber_pre_key_id
  kyp_ciphertext :: bytes

record pre_key_signal_message =
  pkm_message_version :: u8
  pkm_registration_id :: u32
  pkm_pre_key_id :: "pre_key_id option"
  pkm_signed_pre_key_id :: signed_pre_key_id
  pkm_kyber_payload :: "kyber_payload option"
  pkm_base_key :: public_key
  pkm_identity_key :: identity_key
  pkm_message :: signal_message
  pkm_serialized :: bytes

definition PreKeySignalMessage_new ::
    "'r env \<Rightarrow> u8 \<Rightarrow> u32 \<Rightarrow> pre_key_id option \<Rightarrow> signed_pre_key_id \<Rightarrow> kyber_payload option \<Rightarrow>
     public_key \<Rightarrow> identity_key \<Rightarrow> signal_message \<Rightarrow> pre_key_signal_message" where
  "PreKeySignalMessage_new E message_version registration_id pre_key_id signed_pre_key_id kyber_payload
       base_key identity_key message =
     (let proto_message =
            \<lparr>wpk_registration_id = Some registration_id,
             wpk_pre_key_id = pre_key_id,
             wpk_signed_pre_key_id = Some signed_pre_key_id,
             wpk_kyber_pre_key_id = map_option kyp_pre_key_id kyber_payload,
             wpk_kyber_ciphertext = map_option kyp_ciphertext kyber_payload,
             wpk_base_key = Some (PublicKey_serialize base_key),
             wpk_identity_key = Some (IdentityKey_serialize identity_key),
             wpk_message = Some (sm_serialized message)\<rparr>
      in \<lparr>pkm_message_version = message_version, pkm_registration_id = registration_id,
          pkm_pre_key_id = pre_key_id, pkm_signed_pre_key_id = signed_pre_key_id,
          pkm_kyber_payload = kyber_payload, pkm_base_key = base_key,
          pkm_identity_key = identity_key, pkm_message = message,
          pkm_serialized = version_byte message_version CIPHERTEXT_MESSAGE_CURRENT_VERSION
                             # encode (pre_key_signal_message_codec E) proto_message\<rparr>)"

definition parse_kyber_payload ::
    "u8 \<Rightarrow> u32 option \<Rightarrow> bytes option \<Rightarrow> (kyber_payload option, signal_error) result" where
  "parse_kyber_payload message_version kyber_id kyber_ct =
     (case (kyber_id, kyber_ct) of
        (Some i, Some ct) \<Rightarrow> Ok (Some \<lparr>kyp_pre_key_id = i, kyp_ciphertext = ct\<rparr>)
      | (None, None) \<Rightarrow>
          if message_version \<le> CIPHERTEXT_MESSAGE_PRE_KYBER_VERSION then Ok None
          else Err (InvalidMessage PreKey ''Kyber pre key must be present for this session version'')
      | _ \<Rightarrow> Err (InvalidMessage PreKey
               ''Both or neither kyber pre_key_id and kyber_ciphertext can be present''))"

definition PreKeySignalMessage_try_from ::
    "'r env \<Rightarrow> bytes \<Rightarrow> (pre_key_signal_message, signal_error) result" where
  "PreKeySignalMessage_try_from E v =
     (if v = [] then Err (CiphertextMessageTooShort (length v))
      else
        let message_version = drop_bit 4 (hd v)
        in bindR (check_message_version message_version) (\<lambda>_.
           bindR (ok_or InvalidProtobufEncoding (decode (pre_key_signal_message_codec E) (drop 1 v))) (\<lambda>p.
           bindR (ok_or InvalidProtobufEncoding (wpk_base_key p)) (\<lambda>bk.
           bindR (ok_or InvalidProtobufEncoding (wpk_identity_key p)) (\<lambda>ik.
           bindR (ok_or InvalidProtobufEncoding (wpk_message p)) (\<lambda>msg.
           bindR (ok_or InvalidProtobufEncoding (wpk_signed_pre_key_id p)) (\<lambda>signed_pre_key_id.
           bindR (map_err from_curve_error (PublicKey_deserialize bk)) (\<lambda>base_key.
           bindR (parse_kyber_payload message_version (wpk_kyber_pre_key_id p) (wpk_kyber_ciphertext p)) (\<lambda>kyber_payload.
           bindR (IdentityKey_decode ik) (\<lambda>identity_key.
           bindR (SignalMessage_try_from E msg) (\<lambda>message.
           Ok \<lparr>pkm_message_version = message_version,
               pkm_registration_id = (case wpk_registration_id p of None \<Rightarrow> 0 | Some i \<Rightarrow> i),
               pkm_pre_key_id = wpk_pre_key_id p, pkm_signed_pre_key_id = signed_pre_key_id,
               pkm_kyber_payload = kyber_payload, pkm_base_key = base_key,
               pkm_identity_key = identity_key, pkm_message = message,
               pkm_serialized = v\<rparr>)))))))))))"

subsection \<open>\<open>SenderKeyMessage\<close>\<close>

record sender_key_message =
  skm_message_version :: u8
  skm_distribution_id :: uuid
  skm_chain_id :: u32
  skm_iteration :: u32
  skm_ciphertext :: bytes
  skm_serialized :: bytes

definition SenderKeyMessage_new ::
    "'r env \<Rightarrow> u8 \<Rightarrow> uuid \<Rightarrow> u32 \<Rightarrow> u32 \<Rightarrow> bytes \<Rightarrow> 'r \<Rightarrow> private_key \<Rightarrow> sender_key_message \<times> 'r" where
  "SenderKeyMessage_new E message_version distribution_id chain_id iteration ciphertext r signature_key =
     (let proto_message = \<lparr>wsk_distribution_uuid = Some distribution_id, wsk_chain_id = Some chain_id,
                           wsk_iteration = Some iteration, wsk_ciphertext = Some ciphertext\<rparr>;
          serialized = version_byte message_version SENDERKEY_MESSAGE_CURRENT_VERSION
                         # encode (sender_key_message_codec E) proto_message;
          (signature, r') = PrivateKey_calculate_signature E signature_key serialized r
      in (\<lparr>skm_message_version = SENDERKEY_MESSAGE_CURRENT_VERSION,
           skm_distribution_id = distribution_id, skm_chain_id = chain_id,
           skm_iteration = iteration, skm_ciphertext = ciphertext,
           skm_serialized = serialized @ signature\<rparr>, r'))"

definition SenderKeyMessage_verify_signature ::
    "'r env \<Rightarrow> sender_key_message \<Rightarrow> public_key \<Rightarrow> (bool, signal_error) result" where
  "SenderKeyMessage_verify_signature E m signature_key =
     bindR (assertR (SIGNATURE_LEN \<le> length (skm_serialized m))) (\<lambda>_.
     let n = length (skm_serialized m) - SIGNATURE_LEN
     in Ok (verify_signature E signature_key (take n (skm_serialized m)) (drop n (skm_serialized m))))"

definition check_sender_key_version :: "u8 \<Rightarrow> (unit, signal_error) result" where
  "check_sender_key_version v =
     (if v < SENDERKEY_MESSAGE_CURRENT_VERSION then Err (LegacyCiphertextVersion v)
      else if v > SENDERKEY_MESSAGE_CURRENT_VERSION then Err (UnrecognizedCiphertextVersion v)
      else Ok ())"

text \<open>\<open>Uuid::from_slice\<close> accepts exactly sixteen bytes.\<close>

definition uuid_from_slice :: "bytes \<Rightarrow> uuid option" where
  "uuid_from_slice b = (if length b = 16 then Some b else None)"

definition SenderKeyMessage_try_from :: "'r env \<Rightarrow> bytes \<Rightarrow> (sender_key_message, signal_error) result" where
  "SenderKeyMessage_try_from E v =
     (if length v < 1 + SIGNATURE_LEN then Err (CiphertextMessageTooShort (length v))
      else
        let message_version = drop_bit 4 (hd v)
        in bindR (check_sender_key_version message_version) (\<lambda>_.
           bindR (ok_or InvalidProtobufEncoding
                   (decode (sender_key_message_codec E) (drop 1 (take (length v - SIGNATURE_LEN) v)))) (\<lambda>p.
           bindR (ok_or InvalidProtobufEncoding (Option.bind (wsk_distribution_uuid p) uuid_from_slice)) (\<lambda>distribution_id.
           bindR (ok_or InvalidProtobufEncoding (wsk_chain_id p)) (\<lambda>chain_id.
           bindR (ok_or InvalidProtobufEncoding (wsk_iteration p)) (\<lambda>iteration.
           bindR (ok_or InvalidProtobufEncoding (wsk_ciphertext p)) (\<lambda>ciphertext.
           Ok \<lparr>skm_message_version = message_version, skm_distribution_id = distribution_id,
               skm_chain_id = chain_id, skm_iteration = iteration,
               skm_ciphertext = ciphertext, skm_serialized = v\<rparr>)))))))"

subsection \<open>\<open>SenderKeyDistributionMessage\<close>\<close>

record sender_key_distribution_message =
  skd_message_version :: u8
  skd_distribution_id :: uuid
  skd_chain_id :: u32
  skd_iteration :: u32
  skd_chain_key :: bytes
  skd_signing_key :: public_key
  skd_serialized :: bytes

definition SenderKeyDistributionMessage_new ::
    "'r env \<Rightarrow> u8 \<Rightarrow> uuid \<Rightarrow> u32 \<Rightarrow> u32 \<Rightarrow> bytes \<Rightarrow> public_key \<Rightarrow> sender_key_distribution_message" where
  "SenderKeyDistributionMessage_new E message_version distribution_id chain_id iteration ck signing_key =
     (let proto_message = \<lparr>wsd_distribution_uuid = Some distribution_id, wsd_chain_id = Some chain_id,
                           wsd_iteration = Some iteration, wsd_chain_key = Some ck,
                           wsd_signing_key = Some (PublicKey_serialize signing_key)\<rparr>
      in \<lparr>skd_message_version = message_version, skd_distribution_id = distribution_id,
          skd_chain_id = chain_id, skd_iteration = iteration, skd_chain_key = ck,
          skd_signing_key = signing_key,
          skd_serialized = version_byte message_version SENDERKEY_MESSAGE_CURRENT_VERSION
                             # encode (sender_key_distribution_codec E) proto_message\<rparr>)"

definition SenderKeyDistributionMessage_try_from ::
    "'r env \<Rightarrow> bytes \<Rightarrow> (sender_key_distribution_message, signal_error) result" where
  "SenderKeyDistributionMessage_try_from E v =
     (if length v < 1 + 32 + 32 then Err (CiphertextMessageTooShort (length v))
      else
        let message_version = drop_bit 4 (hd v)
        in bindR (check_sender_key_version message_version) (\<lambda>_.
           bindR (ok_or InvalidProtobufEncoding (decode (sender_key_distribution_codec E) (drop 1 v))) (\<lambda>p.
           bindR (ok_or InvalidProtobufEncoding (Option.bind (wsd_distribution_uuid p) uuid_from_slice)) (\<lambda>distribution_id.
           bindR (ok_or InvalidProtobufEncoding (wsd_chain_id p)) (\<lambda>chain_id.
           bindR (ok_or InvalidProtobufEncoding (wsd_iteration p)) (\<lambda>iteration.
           bindR (ok_or InvalidProtobufEncoding (wsd_chain_key p)) (\<lambda>ck.
           bindR (ok_or InvalidProtobufEncoding (wsd_signing_key p)) (\<lambda>signing_key_bytes.
           if length ck \<noteq> 32 \<or> length signing_key_bytes \<noteq> 33 then Err InvalidProtobufEncoding
           else
             bindR (map_err from_curve_error (PublicKey_deserialize signing_key_bytes)) (\<lambda>signing_key.
             Ok \<lparr>skd_message_version = message_version, skd_distribution_id = distribution_id,
                 skd_chain_id = chain_id, skd_iteration = iteration, skd_chain_key = ck,
                 skd_signing_key = signing_key, skd_serialized = v\<rparr>)))))))))"

subsection \<open>\<open>DecryptionErrorMessage\<close> and \<open>PlaintextContent\<close>\<close>

record decryption_error_message =
  de_ratchet_key :: "public_key option"
  de_timestamp :: timestamp
  de_device_id :: u32
  de_serialized :: bytes

definition DecryptionErrorMessage_for_original ::
    "'r env \<Rightarrow> bytes \<Rightarrow> ciphertext_message_type \<Rightarrow> timestamp \<Rightarrow> u32 \<Rightarrow>
     (decryption_error_message, signal_error) result" where
  "DecryptionErrorMessage_for_original E original_bytes original_type original_timestamp device =
     bindR (case original_type of
              Whisper \<Rightarrow> bindR (SignalMessage_try_from E original_bytes) (\<lambda>m. Ok (Some (sm_sender_ratchet_key m)))
            | PreKey \<Rightarrow> bindR (PreKeySignalMessage_try_from E original_bytes) (\<lambda>m.
                          Ok (Some (sm_sender_ratchet_key (pkm_message m))))
            | SenderKey \<Rightarrow> Ok None
            | Plaintext \<Rightarrow> Err (InvalidArgument
                ''cannot create a DecryptionErrorMessage for plaintext content; it is not encrypted'')) (\<lambda>ratchet_key.
     let proto_message = \<lparr>dem_ratchet_key = map_option PublicKey_serialize ratchet_key,
                          dem_timestamp = Some original_timestamp, dem_device_id = Some device\<rparr>
     in Ok \<lparr>de_ratchet_key = ratchet_key, de_timestamp = original_timestamp, de_device_id = device,
            de_serialized = encode (decryption_error_codec E) proto_message\<rparr>)"

definition DecryptionErrorMessage_try_from ::
    "'r env \<Rightarrow> bytes \<Rightarrow> (decryption_error_message, signal_error) result" where
  "DecryptionErrorMessage_try_from E v =
     bindR (ok_or InvalidProtobufEncoding (decode (decryption_error_codec E) v)) (\<lambda>p.
     bindR (ok_or InvalidProtobufEncoding (dem_timestamp p)) (\<lambda>ts.
     bindR (case dem_ratchet_key p of
              None \<Rightarrow> Ok None
            | Some k \<Rightarrow> bindR (map_err from_curve_error (PublicKey_deserialize k)) (\<lambda>pk. Ok (Some pk))) (\<lambda>ratchet_key.
     Ok \<lparr>de_ratchet_key = ratchet_key, de_timestamp = ts,
         de_device_id = (case dem_device_id p of None \<Rightarrow> 0 | Some d \<Rightarrow> d), de_serialized = v\<rparr>)))"

definition PLAINTEXT_CONTEXT_IDENTIFIER_BYTE :: u8 where "PLAINTEXT_CONTEXT_IDENTIFIER_BYTE = 0xC0"
definition PADDING_BOUNDARY_BYTE :: u8 where "PADDING_BOUNDARY_BYTE = 0x80"

datatype plaintext_content = PlaintextContent (pc_serialized: bytes)

definition PlaintextContent_body :: "plaintext_content \<Rightarrow> bytes" where
  "PlaintextContent_body p = drop 1 (pc_serialized p)"

definition PlaintextContent_from :: "'r env \<Rightarrow> decryption_error_message \<Rightarrow> plaintext_content" where
  "PlaintextContent_from E message =
     PlaintextContent (PLAINTEXT_CONTEXT_IDENTIFIER_BYTE
       # encode (content_codec E) \<lparr>con_decryption_error_message = Some (de_serialized message)\<rparr>
       @ [PADDING_BOUNDARY_BYTE])"

definition PlaintextContent_try_from :: "bytes \<Rightarrow> (plaintext_content, signal_error) result" where
  "PlaintextContent_try_from v =
     (case v of
        [] \<Rightarrow> Err (CiphertextMessageTooShort 0)
      | b # _ \<Rightarrow> if b \<noteq> PLAINTEXT_CONTEXT_IDENTIFIER_BYTE then Err (UnrecognizedMessageVersion (ucast b))
                 else Ok (PlaintextContent v))"

definition extract_decryption_error_message_from_serialized_content ::
    "'r env \<Rightarrow> bytes \<Rightarrow> (decryption_error_message, signal_error) result" where
  "extract_decryption_error_message_from_serialized_content E bs =
     (if bs = [] \<or> last bs \<noteq> PADDING_BOUNDARY_BYTE then Err InvalidProtobufEncoding
      else
        bindR (ok_or InvalidProtobufEncoding (decode (content_codec E) (butlast bs))) (\<lambda>content.
        bindR (ok_or (InvalidArgument ''Content does not contain DecryptionErrorMessage'')
                (con_decryption_error_message content)) (\<lambda>b.
        DecryptionErrorMessage_try_from E b)))"

subsection \<open>\<open>CiphertextMessage\<close>\<close>

datatype ciphertext_message =
    CSignalMessage signal_message
  | CPreKeySignalMessage pre_key_signal_message
  | CSenderKeyMessage sender_key_message
  | CPlaintextContent plaintext_content

primrec message_type :: "ciphertext_message \<Rightarrow> ciphertext_message_type" where
  "message_type (CSignalMessage _) = Whisper"
| "message_type (CPreKeySignalMessage _) = PreKey"
| "message_type (CSenderKeyMessage _) = SenderKey"
| "message_type (CPlaintextContent _) = Plaintext"

primrec CiphertextMessage_serialize :: "ciphertext_message \<Rightarrow> bytes" where
  "CiphertextMessage_serialize (CSignalMessage x) = sm_serialized x"
| "CiphertextMessage_serialize (CPreKeySignalMessage x) = pkm_serialized x"
| "CiphertextMessage_serialize (CSenderKeyMessage x) = skm_serialized x"
| "CiphertextMessage_serialize (CPlaintextContent x) = pc_serialized x"

subsection \<open>Versions\<close>

lemma drop_bit_version_byte:
  "v \<in> {3, 4} \<Longrightarrow> drop_bit 4 (version_byte v CIPHERTEXT_MESSAGE_CURRENT_VERSION) = v"
  "drop_bit 4 (version_byte 3 SENDERKEY_MESSAGE_CURRENT_VERSION) = 3"
  by (auto simp: version_byte_def CIPHERTEXT_MESSAGE_CURRENT_VERSION_def
      SENDERKEY_MESSAGE_CURRENT_VERSION_def)

lemma check_message_version_Ok: "check_message_version v = Ok u \<longleftrightarrow> v = 3 \<or> v = 4"
proof -
  have "v < 3 \<longleftrightarrow> unat v < 3" "4 < v \<longleftrightarrow> 4 < unat v" "v = 3 \<longleftrightarrow> unat v = 3" "v = 4 \<longleftrightarrow> unat v = 4"
    by (simp_all add: word_less_nat_alt word_unat_eq_iff)
  then show ?thesis
    by (simp add: check_message_version_def CIPHERTEXT_MESSAGE_CURRENT_VERSION_def
        CIPHERTEXT_MESSAGE_PRE_KYBER_VERSION_def) linarith
qed

lemma check_sender_key_version_Ok: "check_sender_key_version v = Ok u \<longleftrightarrow> v = 3"
  by (auto simp: check_sender_key_version_def SENDERKEY_MESSAGE_CURRENT_VERSION_def)

lemma check_version_no_panic [simp]:
  "check_message_version v \<noteq> Panic" "check_sender_key_version v \<noteq> Panic"
  by (simp_all add: check_message_version_def check_sender_key_version_def)

subsection \<open>\<open>SignalMessage\<close>\<close>

lemma compute_mac_no_panic [simp]: "SignalMessage_compute_mac E a b k m \<noteq> Panic"
  by (simp add: SignalMessage_compute_mac_def)

lemma compute_mac_length:
  "hash_lengths E \<Longrightarrow> SignalMessage_compute_mac E a b k m = Ok mac \<Longrightarrow> length mac = SIGNAL_MAC_LENGTH"
  by (auto simp: SignalMessage_compute_mac_def hash_lengths_def SIGNAL_MAC_LENGTH_def split: if_splits)

text \<open>Building a message fails only on a MAC key of the wrong length.\<close>

lemma SignalMessage_new_Ok: "length mac_key = 32 \<Longrightarrow> \<exists>m. SignalMessage_new E v mac_key rk n pn ct a b pq = Ok m"
  by (simp add: SignalMessage_new_def SignalMessage_compute_mac_def Let_def)

lemma SignalMessage_new_fields:
  assumes "SignalMessage_new E v mac_key rk n pn ct a b pq = Ok m"
  shows "sm_message_version m = v" "sm_sender_ratchet_key m = rk" "sm_counter m = n"
    "sm_previous_counter m = pn" "sm_ciphertext m = ct" "sm_pq_ratchet m = pq" "length mac_key = 32"
  using assms by (auto simp: SignalMessage_new_def SignalMessage_compute_mac_def Let_def split: if_splits)

lemma SignalMessage_new_serialized:
  assumes "hash_lengths E" "SignalMessage_new E v mac_key rk n pn ct a b pq = Ok m"
  obtains body mac where "sm_serialized m = body @ mac" "length mac = SIGNAL_MAC_LENGTH"
    "SignalMessage_compute_mac E a b mac_key body = Ok mac"
    "body = version_byte v CIPHERTEXT_MESSAGE_CURRENT_VERSION # encode (signal_message_codec E)
       \<lparr>wsm_ratchet_key = Some (PublicKey_serialize rk), wsm_counter = Some n,
        wsm_previous_counter = Some pn, wsm_ciphertext = Some ct,
        wsm_pq_ratchet = (if pq = [] then None else Some pq)\<rparr>"
  using assms(2) compute_mac_length [OF assms(1)] that
  by (auto simp: SignalMessage_new_def Let_def bindR_eq_Ok)

lemma verify_mac_new:
  assumes "hash_lengths E" "SignalMessage_new E v mac_key rk n pn ct a b pq = Ok m"
  shows "SignalMessage_verify_mac E m a b mac_key = Ok True"
proof -
  obtain body mac where "sm_serialized m = body @ mac" "length mac = SIGNAL_MAC_LENGTH"
    "SignalMessage_compute_mac E a b mac_key body = Ok mac"
    using SignalMessage_new_serialized [OF assms] by metis
  then show ?thesis by (simp add: SignalMessage_verify_mac_def Let_def)
qed

lemma SignalMessage_roundtrip:
  assumes "hash_lengths E" "codec_ok (signal_message_codec E)" "public_key_ok rk" "v \<in> {3, 4}"
    "SignalMessage_new E v mac_key rk n pn ct a b pq = Ok m"
  shows "SignalMessage_try_from E (sm_serialized m) = Ok m"
proof -
  obtain body mac where ser: "sm_serialized m = body @ mac" "length mac = SIGNAL_MAC_LENGTH"
    "body = version_byte v CIPHERTEXT_MESSAGE_CURRENT_VERSION # encode (signal_message_codec E)
       \<lparr>wsm_ratchet_key = Some (PublicKey_serialize rk), wsm_counter = Some n,
        wsm_previous_counter = Some pn, wsm_ciphertext = Some ct,
        wsm_pq_ratchet = (if pq = [] then None else Some pq)\<rparr>"
    using SignalMessage_new_serialized [OF assms(1,5)] by metis
  have chk: "check_message_version v = Ok ()" using assms(4) by (auto simp: check_message_version_Ok)
  have "\<not> length (sm_serialized m) < SIGNAL_MAC_LENGTH + 1" using ser by simp
  then show ?thesis
    using ser assms(2) chk drop_bit_version_byte(1) [OF assms(4)] public_key_serde.de_ser [OF assms(3)]
      SignalMessage_new_fields [OF assms(5)]
    by (simp add: SignalMessage_try_from_def Let_def)
qed

lemma SignalMessage_try_from_OkD:
  assumes "SignalMessage_try_from E v = Ok m"
  shows "sm_serialized m = v" "SIGNAL_MAC_LENGTH < length v" "sm_message_version m = 3 \<or> sm_message_version m = 4"
    "public_key_ok (sm_sender_ratchet_key m)"
  using assms PublicKey_deserialize_ok
  by (auto simp: SignalMessage_try_from_def Let_def result_simps check_message_version_Ok split: if_splits)

lemma SignalMessage_try_from_no_panic [simp]: "SignalMessage_try_from E v \<noteq> Panic"
  by (auto simp: SignalMessage_try_from_def Let_def result_simps)

lemma verify_mac_no_panic:
  "SIGNAL_MAC_LENGTH \<le> length (sm_serialized m) \<Longrightarrow> SignalMessage_verify_mac E m a b k \<noteq> Panic"
  by (auto simp: SignalMessage_verify_mac_def Let_def result_simps)

text \<open>A message verifies exactly when its last eight bytes are the MAC of what precedes them.\<close>

lemma verify_mac_iff:
  assumes "length k = 32" "SIGNAL_MAC_LENGTH \<le> length (sm_serialized m)"
  shows "SignalMessage_verify_mac E m a b k = Ok True \<longleftrightarrow>
    (\<exists>body mac. sm_serialized m = body @ mac \<and> length mac = SIGNAL_MAC_LENGTH \<and>
       SignalMessage_compute_mac E a b k body = Ok mac)" (is "_ \<longleftrightarrow> ?R")
proof
  let ?n = "length (sm_serialized m) - SIGNAL_MAC_LENGTH"
  assume "SignalMessage_verify_mac E m a b k = Ok True"
  then have "SignalMessage_compute_mac E a b k (take ?n (sm_serialized m)) = Ok (drop ?n (sm_serialized m))"
    by (auto simp: SignalMessage_verify_mac_def Let_def bindR_eq_Ok)
  then show ?R using assms(2) by (intro exI [of _ "take ?n (sm_serialized m)"] exI [of _ "drop ?n (sm_serialized m)"]) simp
next
  assume ?R
  then show "SignalMessage_verify_mac E m a b k = Ok True"
    by (auto simp: SignalMessage_verify_mac_def Let_def)
qed

subsection \<open>\<open>PreKeySignalMessage\<close>\<close>

lemma parse_kyber_payload_roundtrip:
  "v = 3 \<or> kp \<noteq> None \<Longrightarrow> parse_kyber_payload v (map_option kyp_pre_key_id kp) (map_option kyp_ciphertext kp) = Ok kp"
  by (cases kp) (auto simp: parse_kyber_payload_def CIPHERTEXT_MESSAGE_PRE_KYBER_VERSION_def)

lemma parse_kyber_payload_no_panic [simp]: "parse_kyber_payload v i c \<noteq> Panic"
  by (simp add: parse_kyber_payload_def split: option.splits)

lemma PreKeySignalMessage_roundtrip:
  fixes reg :: u32 and pid :: "pre_key_id option" and sid :: signed_pre_key_id
  assumes "codec_ok (pre_key_signal_message_codec E)" "v \<in> {3, 4}" "v = 3 \<or> kp \<noteq> None"
    "public_key_ok base" "public_key_ok ident" "SignalMessage_try_from E (sm_serialized m) = Ok m"
  defines "pm \<equiv> PreKeySignalMessage_new E v reg pid sid kp base ident m"
  shows "PreKeySignalMessage_try_from E (pkm_serialized pm) = Ok pm"
proof -
  have "check_message_version v = Ok ()" using assms(2) by (auto simp: check_message_version_Ok)
  then show ?thesis
    using assms(1,6) drop_bit_version_byte(1) [OF assms(2)] public_key_serde.de_ser [OF assms(4)]
      parse_kyber_payload_roundtrip [OF assms(3)] IdentityKey_decode_serialize [OF assms(5)]
    by (simp add: pm_def PreKeySignalMessage_new_def PreKeySignalMessage_try_from_def Let_def)
qed

lemma PreKeySignalMessage_try_from_OkD:
  assumes "PreKeySignalMessage_try_from E v = Ok m"
  shows "pkm_serialized m = v" "pkm_message_version m = 3 \<or> pkm_message_version m = 4"
    "public_key_ok (pkm_base_key m)" "public_key_ok (pkm_identity_key m)"
    "\<exists>b. SignalMessage_try_from E b = Ok (pkm_message m)"
    "pkm_message_version m = 4 \<Longrightarrow> pkm_kyber_payload m \<noteq> None"
  using assms PublicKey_deserialize_ok
  by (auto simp: PreKeySignalMessage_try_from_def IdentityKey_decode_def parse_kyber_payload_def Let_def
      result_simps check_message_version_Ok CIPHERTEXT_MESSAGE_PRE_KYBER_VERSION_def
      split: if_splits option.splits) blast+

lemma PreKeySignalMessage_try_from_no_panic [simp]: "PreKeySignalMessage_try_from E v \<noteq> Panic"
  by (auto simp: PreKeySignalMessage_try_from_def Let_def result_simps)

subsection \<open>Sender key messages\<close>

lemma SenderKeyMessage_new_ok:
  fixes chain iter :: u32 and ct :: bytes and r :: 'r and k :: private_key
  assumes "xeddsa_ok E" "dh_ok E" "codec_ok (sender_key_message_codec E)" "length dist = 16"
  defines "m \<equiv> fst (SenderKeyMessage_new E 3 dist chain iter ct r k)"
  shows "SenderKeyMessage_verify_signature E m (PrivateKey_public_key E k) = Ok True"
    and "SenderKeyMessage_try_from E (skm_serialized m) = Ok m"
proof -
  let ?body = "version_byte 3 SENDERKEY_MESSAGE_CURRENT_VERSION # encode (sender_key_message_codec E)
      \<lparr>wsk_distribution_uuid = Some dist, wsk_chain_id = Some chain, wsk_iteration = Some iter,
       wsk_ciphertext = Some ct\<rparr>"
  let ?sig = "fst (PrivateKey_calculate_signature E k ?body r)"
  have m: "m = \<lparr>skm_message_version = SENDERKEY_MESSAGE_CURRENT_VERSION, skm_distribution_id = dist,
      skm_chain_id = chain, skm_iteration = iter, skm_ciphertext = ct, skm_serialized = ?body @ ?sig\<rparr>"
    by (simp add: m_def SenderKeyMessage_new_def Let_def split: prod.split)
  have ver: "verify_signature E (PrivateKey_public_key E k) ?body ?sig"
    unfolding verify_signature_def PrivateKey_calculate_signature_def
    by (rule signature_roundtrip [OF assms(1,2)])
  then have len: "length ?sig = SIGNATURE_LEN"
    by (auto simp: verify_signature_def verify_signature_for_multipart_message_def SIGNATURE_LEN_def
        split: if_splits)
  show "SenderKeyMessage_verify_signature E m (PrivateKey_public_key E k) = Ok True"
    using ver len by (simp add: m SenderKeyMessage_verify_signature_def Let_def)
  show "SenderKeyMessage_try_from E (skm_serialized m) = Ok m"
    using len assms(3,4)
    by (simp add: m SenderKeyMessage_try_from_def Let_def drop_bit_version_byte(2) uuid_from_slice_def
        check_sender_key_version_def) (simp add: SENDERKEY_MESSAGE_CURRENT_VERSION_def)
qed

text \<open>
  The parser of distribution messages refuses fewer than 65 bytes, so the round trip asks that the
  encoding holds at least the 64 bytes of its two keys.
\<close>

lemma SenderKeyDistributionMessage_roundtrip:
  fixes chain iter :: u32
  assumes "codec_ok (sender_key_distribution_codec E)" "length dist = 16" "length ck = 32" "public_key_ok sk"
  defines "m \<equiv> SenderKeyDistributionMessage_new E 3 dist chain iter ck sk"
  assumes "65 \<le> length (skd_serialized m)"
  shows "SenderKeyDistributionMessage_try_from E (skd_serialized m) = Ok m"
proof -
  have "check_sender_key_version 3 = Ok ()" by (simp add: check_sender_key_version_Ok)
  moreover have "\<not> length (skd_serialized m) < 1 + 32 + 32" using assms(6) by simp
  ultimately show ?thesis
    using assms(1-4) length_PublicKey_serialize [OF assms(4)] public_key_serde.de_ser [OF assms(4)]
    unfolding SenderKeyDistributionMessage_try_from_def
    by (simp add: m_def SenderKeyDistributionMessage_new_def Let_def drop_bit_version_byte(2)
        uuid_from_slice_def)
qed

subsection \<open>Decryption errors\<close>

lemma DecryptionErrorMessage_roundtrip:
  assumes "codec_ok (decryption_error_codec E)"
    "DecryptionErrorMessage_for_original E bs t ts d = Ok m"
  shows "DecryptionErrorMessage_try_from E (de_serialized m) = Ok m"
proof -
  obtain rk where m: "m = \<lparr>de_ratchet_key = rk, de_timestamp = ts, de_device_id = d,
      de_serialized = encode (decryption_error_codec E)
        \<lparr>dem_ratchet_key = map_option PublicKey_serialize rk, dem_timestamp = Some ts, dem_device_id = Some d\<rparr>\<rparr>"
    and "\<forall>k. rk = Some k \<longrightarrow> public_key_ok k"
    using assms(2)
    by (cases t) (auto simp: DecryptionErrorMessage_for_original_def Let_def result_simps
        dest: SignalMessage_try_from_OkD PreKeySignalMessage_try_from_OkD(5))
  then show ?thesis
    using assms(1) by (cases rk) (auto simp: DecryptionErrorMessage_try_from_def public_key_serde.de_ser)
qed

lemma PlaintextContent_roundtrip:
  assumes "codec_ok (content_codec E)" "DecryptionErrorMessage_try_from E (de_serialized m) = Ok m"
  shows "PlaintextContent_try_from (pc_serialized (PlaintextContent_from E m)) = Ok (PlaintextContent_from E m)"
    and "extract_decryption_error_message_from_serialized_content E
           (PlaintextContent_body (PlaintextContent_from E m)) = Ok m"
  using assms
  by (simp_all add: PlaintextContent_try_from_def PlaintextContent_from_def PlaintextContent_body_def
      extract_decryption_error_message_from_serialized_content_def)

end
