(* ===== verification/Session_Cipher.thy ===== *)
theory Session_Cipher
  imports Session_Record Messages
begin

text \<open>
  The receiving half of the Double Ratchet in \<open>rust/protocol/src/session_cipher.rs\<close>, on session
  states and session records: the Diffie-Hellman step, the loop that stores skipped message keys,
  the choice of the message key, decryption with one state and with a whole record. Log
  lines are not modelled, except for the two whose arguments contain an \<open>expect\<close>: they are
  evaluated when the \<open>info\<close> level is enabled.
\<close>

abbreviation inv_session :: "('a, invalid_session_error) result \<Rightarrow> ('a, signal_error) result" where
  "inv_session \<equiv> map_err from_invalid_session_error"

subsection \<open>Chain keys\<close>

definition get_or_create_chain_key ::
    "'r env \<Rightarrow> session_state \<Rightarrow> public_key \<Rightarrow> 'r \<Rightarrow> (chain_key \<times> session_state, signal_error) result \<times> 'r" where
  "get_or_create_chain_key E st their_ephemeral r =
     bindS (inv_session (get_receiver_chain_key st their_ephemeral), r) (\<lambda>existing r.
     case existing of
       Some chain \<Rightarrow> (Ok (chain, st), r)
     | None \<Rightarrow>
         bindS (inv_session (state_root_key st), r) (\<lambda>root_key r.
         bindS (inv_session (sender_ratchet_private_key E st), r) (\<lambda>our_ephemeral r.
         let receiver_chain = create_chain E root_key their_ephemeral our_ephemeral;
             (our_new_ephemeral, r') = KeyPair_generate E r;
             sender_chain = create_chain E (fst receiver_chain) their_ephemeral
                              (kp_private_key our_new_ephemeral);
             st1 = set_root_key (fst sender_chain) st;
             st2 = add_receiver_chain their_ephemeral (snd receiver_chain) st1
         in bindS (inv_session (get_sender_chain_key st2), r') (\<lambda>sender_ck r'.
            let current_index = chain_key_index sender_ck;
                previous_index = (if current_index > 0 then current_index - 1 else 0);
                st3 = set_previous_counter previous_index st2;
                st4 = set_sender_chain our_new_ephemeral (snd sender_chain) st3
            in (Ok (snd receiver_chain, st4), r')))))"

subsection \<open>Message keys\<close>

text \<open>The loop \<open>while chain_key.index() < counter\<close>.\<close>

function skip_message_keys ::
    "'r env \<Rightarrow> public_key \<Rightarrow> u32 \<Rightarrow> chain_key \<Rightarrow> session_state \<Rightarrow>
     (chain_key \<times> session_state, invalid_session_error) result" where
  "skip_message_keys E their_ephemeral counter ck st =
     (if chain_key_index ck < counter then
        bindR (set_message_keys their_ephemeral (chain_message_keys E ck) st) (\<lambda>st'.
        skip_message_keys E their_ephemeral counter (next_chain_key E ck) st')
      else Ok (ck, st))"
  by pat_completeness auto
termination
proof (relation "measure (\<lambda>(E, te, counter, ck, st). unat counter - unat (chain_key_index ck))")
  fix E :: "'r env" and te counter and ck :: chain_key and st st' :: session_state
  assume lt: "chain_key_index ck < counter"
  have "unat (chain_key_index ck) < unat counter" using lt by (simp add: word_less_nat_alt)
  then show "((E, te, counter, next_chain_key E ck, st'), E, te, counter, ck, st)
      \<in> measure (\<lambda>(E, te, counter, ck, st). unat counter - unat (chain_key_index ck))"
    using u32_lt_Suc(2) [OF lt] by (simp add: next_chain_key_def)
qed simp

declare skip_message_keys.simps [simp del]

definition get_or_create_message_key ::
    "'r env \<Rightarrow> session_state \<Rightarrow> public_key \<Rightarrow> ciphertext_message_type \<Rightarrow> chain_key \<Rightarrow> u32 \<Rightarrow>
     (message_key_generator \<times> session_state, signal_error) result" where
  "get_or_create_message_key E st their_ephemeral original_message_type ck counter =
     (let chain_index = chain_key_index ck in
      if chain_index > counter then
        bindR (inv_session (get_message_keys their_ephemeral counter st)) (\<lambda>(keys, st').
        case keys of
          Some keys \<Rightarrow> Ok (keys, st')
        | None \<Rightarrow> Err (DuplicatedMessage chain_index counter))
      else
        bindR (assertR (chain_index \<le> counter)) (\<lambda>_.
        let jump = unat (counter - chain_index) in
        bindR (if jump > MAX_FORWARD_JUMPS then
                 bindR (inv_session (session_with_self st)) (\<lambda>self.
                 if self then Ok ()
                 else Err (InvalidMessage original_message_type ''message from too far into the future''))
               else Ok ()) (\<lambda>_.
        bindR (inv_session (skip_message_keys E their_ephemeral counter ck st)) (\<lambda>(ck', st').
        bindR (inv_session (set_receiver_chain_key their_ephemeral (next_chain_key E ck') st')) (\<lambda>st''.
        Ok (chain_message_keys E ck', st''))))))"

subsection \<open>Decryption with one session state\<close>

definition pq_recv_error :: "'r env \<Rightarrow> ciphertext_message_type \<Rightarrow> spqr_error \<Rightarrow> signal_error" where
  "pq_recv_error E original_message_type e =
     (case e of
        StateDecode \<Rightarrow> InvalidState ''decrypt_message_with_state''
                        (''post-quantum ratchet error: '' @ spqr_error_display E e)
      | _ \<Rightarrow> InvalidMessage original_message_type ''post-quantum ratchet error'')"

definition decrypt_message_with_state ::
    "'r env \<Rightarrow> session_state \<Rightarrow> signal_message \<Rightarrow> ciphertext_message_type \<Rightarrow> 'r \<Rightarrow>
     (bytes \<times> session_state, signal_error) result \<times> 'r" where
  "decrypt_message_with_state E st ciphertext original_message_type r =
     bindS (map_err (\<lambda>_. InvalidMessage original_message_type ''No session available to decrypt'')
             (state_root_key st), r) (\<lambda>_ r.
     let ciphertext_version = ucast (sm_message_version ciphertext) :: u32 in
     bindS (inv_session (session_version st), r) (\<lambda>v r.
     if ciphertext_version \<noteq> v then (Err (UnrecognizedMessageVersion ciphertext_version), r)
     else
       let their_ephemeral = sm_sender_ratchet_key ciphertext;
           counter = sm_counter ciphertext in
       bindS (get_or_create_chain_key E st their_ephemeral r) (\<lambda>(ck, st1) r.
       (bindR (get_or_create_message_key E st1 their_ephemeral original_message_type ck counter) (\<lambda>(message_key_gen, st2).
        bindR (map_err (pq_recv_error E original_message_type)
                (pq_ratchet_recv E (sm_pq_ratchet ciphertext) st2)) (\<lambda>(pqr_key, st3).
        bindR (generate_keys E message_key_gen pqr_key) (\<lambda>message_keys.
        bindR (inv_session (remote_identity_key st3)) (\<lambda>remote.
        bindR (ok_or (InvalidSessionStructure ''cannot decrypt without remote identity key'') remote) (\<lambda>their_identity_key.
        bindR (inv_session (local_identity_key st3)) (\<lambda>our_identity_key.
        bindR (SignalMessage_verify_mac E ciphertext their_identity_key our_identity_key
                (mks_mac_key message_keys)) (\<lambda>mac_valid.
        if \<not> mac_valid then Err (InvalidMessage original_message_type ''MAC verification failed'')
        else
          bindR (map_err (\<lambda>e. case e of
                    BadKeyOrIv \<Rightarrow> InvalidSessionStructure ''invalid receiver chain message keys''
                  | BadCiphertext _ \<Rightarrow> InvalidMessage original_message_type ''failed to decrypt'')
                  (aes_256_cbc_decrypt E (sm_ciphertext ciphertext) (mks_cipher_key message_keys)
                    (mks_iv message_keys))) (\<lambda>ptext.
          Ok (ptext, clear_unacknowledged_pre_key_message st3))))))))), r))))"

subsection \<open>Decryption with a record\<close>

text \<open>\<open>sender_ratchet_key_for_logging().expect(..)\<close> inside \<open>log::info!\<close>.\<close>

definition log_base_key :: "'r env \<Rightarrow> session_state \<Rightarrow> (unit, signal_error) result" where
  "log_base_key E st =
     (if log_info_enabled E then bindR (expect_ok (sender_ratchet_key st)) (\<lambda>_. Ok ()) else Ok ())"

text \<open>The pattern \<open>Err(SignalProtocolError::DuplicatedMessage(_, _))\<close>.\<close>

definition is_duplicated :: "signal_error \<Rightarrow> bool" where
  "is_duplicated e = (case e of DuplicatedMessage _ _ \<Rightarrow> True | _ \<Rightarrow> False)"

fun try_previous_sessions ::
    "'r env \<Rightarrow> signal_message \<Rightarrow> ciphertext_message_type \<Rightarrow> nat \<Rightarrow>
     (session_state, invalid_session_error) result list \<Rightarrow> 'r \<Rightarrow>
     ((bytes \<times> nat \<times> session_state) option, signal_error) result \<times> 'r" where
  "try_previous_sessions E ciphertext mtype idx [] r = (Ok None, r)"
| "try_previous_sessions E ciphertext mtype idx (p # rest) r =
     bindS (inv_session p, r) (\<lambda>previous r.
     (case decrypt_message_with_state E previous ciphertext mtype r of
        (Ok (ptext, previous'), r') \<Rightarrow>
          bindS (log_base_key E previous', r') (\<lambda>_ r'. (Ok (Some (ptext, idx, previous')), r'))
      | (Err e, r') \<Rightarrow>
          if is_duplicated e then (Err e, r')
          else try_previous_sessions E ciphertext mtype (Suc idx) rest r'
      | (Panic, r') \<Rightarrow> (Panic, r')))"

definition try_old_sessions ::
    "'r env \<Rightarrow> session_record \<Rightarrow> signal_message \<Rightarrow> ciphertext_message_type \<Rightarrow> 'r \<Rightarrow>
     (bytes \<times> session_record, signal_error) result \<times> 'r" where
  "try_old_sessions E rec ciphertext mtype r =
     bindS (try_previous_sessions E ciphertext mtype 0 (previous_session_states E rec) r) (\<lambda>updated_session r.
     case updated_session of
       Some (ptext, idx, st) \<Rightarrow> (bindR (promote_old_session E idx st rec) (\<lambda>rec'. Ok (ptext, rec')), r)
     | None \<Rightarrow> (Err (InvalidMessage mtype ''decryption failed''), r))"

definition decrypt_message_with_record ::
    "'r env \<Rightarrow> session_record \<Rightarrow> signal_message \<Rightarrow> ciphertext_message_type \<Rightarrow> 'r \<Rightarrow>
     (bytes \<times> session_record, signal_error) result \<times> 'r" where
  "decrypt_message_with_record E rec ciphertext mtype r =
     (case sr_current_session rec of
        None \<Rightarrow> try_old_sessions E rec ciphertext mtype r
      | Some current_state \<Rightarrow>
          (case decrypt_message_with_state E current_state ciphertext mtype r of
             (Ok (ptext, current_state'), r') \<Rightarrow>
               bindS (log_base_key E current_state', r') (\<lambda>_ r'.
               (Ok (ptext, set_session_state current_state' rec), r'))
           | (Err e, r') \<Rightarrow>
               if is_duplicated e then (Err e, r')
               else (case mtype of
                  PreKey \<Rightarrow> (Err (InvalidMessage mtype ''decryption failed''), r')
                | Whisper \<Rightarrow> try_old_sessions E rec ciphertext mtype r'
                | _ \<Rightarrow> (Panic, r'))
           | (Panic, r') \<Rightarrow> (Panic, r')))"

subsection \<open>The skip loop\<close>

text \<open>The stored form of the message keys between the chain key and the counter, oldest first.\<close>

definition skipped_keys :: "'r env \<Rightarrow> chain_key \<Rightarrow> u32 \<Rightarrow> pb_message_key list" where
  "skipped_keys E ck n = map (\<lambda>d. into_pb (chain_message_keys E d)) (chain_walk E ck n)"

lemma map_mk_index_skipped: "map mk_index (skipped_keys E ck n) = map chain_key_index (chain_walk E ck n)"
  by (simp add: skipped_keys_def chain_message_keys_pb)

lemma skipped_keys_bounds: "m \<in> set (skipped_keys E ck n) \<Longrightarrow> chain_key_index ck \<le> mk_index m \<and> mk_index m < n"
  using ratchet_chain.walk_bounds by (fastforce simp: skipped_keys_def chain_message_keys_pb)

lemma distinct_skipped_keys: "distinct (map mk_index (skipped_keys E ck n))"
  unfolding map_mk_index_skipped by (rule ratchet_chain.distinct_walk)

definition jump_to :: "'r env \<Rightarrow> chain_key \<Rightarrow> u32 \<Rightarrow> chain_key" where
  "jump_to E ck n = (next_chain_key E ^^ (unat n - unat (chain_key_index ck))) ck"

lemma jump_to_index: "chain_key_index ck \<le> n \<Longrightarrow> chain_key_index (jump_to E ck n) = n"
  by (simp add: jump_to_def ratchet_chain.idx_target)

lemma jump_to_step:
  assumes "chain_key_index ck < n"
  shows "jump_to E ck n = jump_to E (next_chain_key E ck) n"
proof -
  have "unat (chain_key_index ck) < unat n" using assms by (simp add: word_less_nat_alt)
  moreover have "unat (chain_key_index (next_chain_key E ck)) = Suc (unat (chain_key_index ck))"
    using u32_lt_Suc(2) [OF assms] by (simp add: next_chain_key_def)
  ultimately have "unat n - unat (chain_key_index ck) =
      Suc (unat n - unat (chain_key_index (next_chain_key E ck)))" by simp
  then show ?thesis by (simp add: jump_to_def funpow_swap1)
qed

lemma skip_message_keys_spec:
  assumes "get_receiver_chain st te = Ok (Some (c, i))"
  shows "skip_message_keys E te n ck st =
    Ok (jump_to E ck n, set_chain_at i
          (c\<lparr>c_message_keys := fold push_message_key (skipped_keys E ck n) (c_message_keys c)\<rparr>) st)"
  using assms
proof (induction E te n ck st arbitrary: c rule: skip_message_keys.induct)
  case (1 E te n ck st)
  show ?case
  proof (cases "chain_key_index ck < n")
    case True
    let ?c' = "c\<lparr>c_message_keys := push_message_key (into_pb (chain_message_keys E ck)) (c_message_keys c)\<rparr>"
    let ?st' = "set_chain_at i ?c' st"
    have upd: "set_message_keys te (chain_message_keys E ck) st = Ok ?st'"
      using "1.prems" by (rule set_message_keys_found)
    have found: "get_receiver_chain ?st' te = Ok (Some (?c', i))"
      using "1.prems" by (rule get_receiver_chain_set_chain_at) simp
    have "skip_message_keys E te n ck st = skip_message_keys E te n (next_chain_key E ck) ?st'"
      using True upd by (simp add: skip_message_keys.simps [of E te n ck st])
    then show ?thesis
      using "1.IH" [OF True upd found] jump_to_step [OF True, of E]
      by (simp add: skipped_keys_def ratchet_chain.walk_step [OF True])
  next
    case False
    then have "jump_to E ck n = ck" by (simp add: jump_to_def word_less_nat_alt)
    then show ?thesis
      using False set_chain_at_same [OF "1.prems"]
      by (simp add: skip_message_keys.simps [of E te n ck st] skipped_keys_def ratchet_chain.walk_done)
  qed
qed

subsection \<open>The chosen message key\<close>

lemma session_with_self_no_panic: "session_with_self st \<noteq> Panic"
  by (auto simp: session_with_self_def remote_identity_key_bytes_def remote_identity_key_def
      local_identity_key_bytes_def local_identity_key_def result_simps split: option.splits if_splits)

text \<open>A counter ahead of the chain, when the jump is allowed.\<close>

definition jump_allowed :: "session_state \<Rightarrow> u32 \<Rightarrow> u32 \<Rightarrow> bool" where
  "jump_allowed st chain_index counter \<longleftrightarrow>
     unat counter - unat chain_index \<le> MAX_FORWARD_JUMPS \<or> session_with_self st = Ok True"

lemma get_or_create_message_key_ahead:
  assumes "get_receiver_chain st te = Ok (Some (c, i))" "chain_key_index ck \<le> n"
    "jump_allowed st (chain_key_index ck) n"
  shows "get_or_create_message_key E st te t ck n =
    Ok (chain_message_keys E (jump_to E ck n), set_chain_at i
          (c\<lparr>c_message_keys := fold push_message_key (skipped_keys E ck n) (c_message_keys c),
             c_chain_key := Some (to_pb_chain_key (next_chain_key E (jump_to E ck n)))\<rparr>) st)"
proof -
  let ?c' = "c\<lparr>c_message_keys := fold push_message_key (skipped_keys E ck n) (c_message_keys c)\<rparr>"
  have "unat (n - chain_key_index ck) = unat n - unat (chain_key_index ck)"
    using assms(2) by (rule unat_sub)
  moreover have "get_receiver_chain (set_chain_at i ?c' st) te = Ok (Some (?c', i))"
    using assms(1) by (rule get_receiver_chain_set_chain_at) simp
  note set_receiver_chain_key_found [OF this]
  ultimately show ?thesis
    using assms(2,3) leD [OF assms(2)] skip_message_keys_spec [OF assms(1), where E = E]
    by (auto simp: get_or_create_message_key_def Let_def jump_allowed_def)
qed

lemma get_or_create_message_key_too_far:
  assumes "chain_key_index ck \<le> n" "MAX_FORWARD_JUMPS < unat n - unat (chain_key_index ck)"
    "session_with_self st = Ok False"
  shows "get_or_create_message_key E st te t ck n =
    Err (InvalidMessage t ''message from too far into the future'')"
proof -
  have "unat (n - chain_key_index ck) = unat n - unat (chain_key_index ck)"
    using assms(1) by (rule unat_sub)
  then show ?thesis using assms leD [OF assms(1)] by (simp add: get_or_create_message_key_def Let_def)
qed

text \<open>A counter behind the chain: a stored key, once, or a duplicate.\<close>

lemma get_or_create_message_key_behind:
  assumes "get_receiver_chain st te = Ok (Some (c, i))" "n < chain_key_index ck"
  shows "get_or_create_message_key E st te t ck n =
    (case position (\<lambda>m. mk_index m = n) (c_message_keys c) of
       None \<Rightarrow> Err (DuplicatedMessage (chain_key_index ck) n)
     | Some p \<Rightarrow> bindR (inv_session (from_pb (c_message_keys c ! p))) (\<lambda>keys.
         Ok (keys, set_chain_at i (c\<lparr>c_message_keys := remove_nth p (c_message_keys c)\<rparr>) st)))"
  using assms(2)
  by (cases "position (\<lambda>m. mk_index m = n) (c_message_keys c)")
    (cases "from_pb (c_message_keys c ! the (position (\<lambda>m. mk_index m = n) (c_message_keys c)))";
      auto simp: get_or_create_message_key_def Let_def get_message_keys_found [OF assms(1)])+

lemma get_or_create_message_key_cases:
  assumes "get_receiver_chain st te = Ok (Some (c, i))"
    "get_or_create_message_key E st te t ck n = Ok (g, st')"
  obtains
    (stored) p where "n < chain_key_index ck" "p < length (c_message_keys c)"
      "mk_index (c_message_keys c ! p) = n" "from_pb (c_message_keys c ! p) = Ok g"
      "st' = set_chain_at i (c\<lparr>c_message_keys := remove_nth p (c_message_keys c)\<rparr>) st"
  | (ahead) "chain_key_index ck \<le> n" "jump_allowed st (chain_key_index ck) n"
      "g = chain_message_keys E (jump_to E ck n)"
      "st' = set_chain_at i
          (c\<lparr>c_message_keys := fold push_message_key (skipped_keys E ck n) (c_message_keys c),
             c_chain_key := Some (to_pb_chain_key (next_chain_key E (jump_to E ck n)))\<rparr>) st"
proof (cases "n < chain_key_index ck")
  case True
  then show thesis
    using assms(2) stored unfolding get_or_create_message_key_behind [OF assms(1) True]
    by (auto simp: result_simps position_Some split: option.split_asm)
next
  case False
  then have le: "chain_key_index ck \<le> n" by simp
  have "unat (n - chain_key_index ck) = unat n - unat (chain_key_index ck)"
    using le by (rule unat_sub)
  then have "jump_allowed st (chain_key_index ck) n"
    using assms(2) le False by (auto simp: get_or_create_message_key_def Let_def jump_allowed_def result_simps
        split: if_splits)
  from get_or_create_message_key_ahead [OF assms(1) le this, where E = E] ahead [OF le this] assms(2)
  show thesis by simp
qed

end
