(* ===== verification/Ratchet_Correctness.thy ===== *)
theory Ratchet_Correctness
  imports Session_Cipher
begin

text \<open>
  Correctness of the receiving ratchet. A receiver chain tracks a chain of message keys that
  starts at index 0 when its stored chain key and all its stored skipped keys lie on it. The
  chosen key for a counter is then the key of that counter, whatever the order of delivery;
  a counter that was used is refused from then on; and the session invariant is kept.
\<close>

definition nth_chain_key :: "'r env \<Rightarrow> chain_key \<Rightarrow> u32 \<Rightarrow> chain_key" where
  "nth_chain_key E ck0 n = (next_chain_key E ^^ unat n) ck0"

definition chain_tracks :: "'r env \<Rightarrow> chain_key \<Rightarrow> pb_chain \<Rightarrow> bool" where
  "chain_tracks E ck0 c \<longleftrightarrow>
     chain_key_index ck0 = 0 \<and> chain_key_ok ck0 \<and>
     (\<exists>p. c_chain_key c = Some (to_pb_chain_key (nth_chain_key E ck0 p))) \<and>
     (\<forall>m \<in> set (c_message_keys c). m = into_pb (chain_message_keys E (nth_chain_key E ck0 (mk_index m))))"

text \<open>The counter was used: it lies behind the chain and no stored key has it.\<close>

definition consumed :: "pb_chain \<Rightarrow> u32 \<Rightarrow> bool" where
  "consumed c n \<longleftrightarrow>
     (\<exists>ck. c_chain_key c = Some ck \<and> n < ck_index ck) \<and> n \<notin> mk_index ` set (c_message_keys c)"

lemma nth_chain_key_index: "chain_key_index ck0 = 0 \<Longrightarrow> chain_key_index (nth_chain_key E ck0 n) = n"
  by (simp add: nth_chain_key_def ratchet_chain.idx_funpow)

lemma nth_chain_key_ok: "hash_lengths E \<Longrightarrow> chain_key_ok ck0 \<Longrightarrow> chain_key_ok (nth_chain_key E ck0 n)"
  by (simp add: nth_chain_key_def chain_key_ok_funpow)

lemma jump_to_nth:
  assumes "chain_key_index ck0 = 0" "p \<le> n"
  shows "jump_to E (nth_chain_key E ck0 p) n = nth_chain_key E ck0 n"
proof -
  have sum: "unat n - unat p + unat p = unat n" using assms(2) by (simp add: word_le_nat_alt)
  have "jump_to E (nth_chain_key E ck0 p) n = (next_chain_key E ^^ (unat n - unat p + unat p)) ck0"
    unfolding jump_to_def nth_chain_key_index [OF assms(1)] funpow_add comp_apply
    by (simp only: nth_chain_key_def)
  then show ?thesis by (simp only: sum nth_chain_key_def)
qed

lemma next_nth_chain_key: "n \<noteq> - 1 \<Longrightarrow> next_chain_key E (nth_chain_key E ck0 n) = nth_chain_key E ck0 (n + 1)"
  by (simp add: nth_chain_key_def u32_Suc_no_wrap(1))

lemma walk_nth:
  assumes "chain_key_index ck0 = 0" "d \<in> set (chain_walk E (nth_chain_key E ck0 p) n)"
  shows "d = nth_chain_key E ck0 (chain_key_index d)"
proof -
  have bounds: "p \<le> chain_key_index d"
    using ratchet_chain.walk_bounds [OF assms(2)] by (simp add: nth_chain_key_index [OF assms(1)])
  obtain k where d: "d = (next_chain_key E ^^ k) (nth_chain_key E ck0 p)"
    and k: "k < unat n - unat p"
    using assms(2) by (auto simp: ratchet_chain.walk_def nth_chain_key_index [OF assms(1)])
  have "unat p < unat n" using k by simp
  then have "p \<le> n" by (simp add: word_le_nat_alt)
  then have "unat (p + of_nat k) = unat p + k" using k by (intro u32_unat_add) auto
  moreover have "chain_key_index d = p + of_nat k"
    by (simp add: d ratchet_chain.idx_funpow nth_chain_key_index [OF assms(1)])
  ultimately show ?thesis
    by (simp add: d nth_chain_key_def add.commute [of "unat p"] funpow_add)
qed

lemma skipped_keys_nth:
  assumes "chain_key_index ck0 = 0" "m \<in> set (skipped_keys E (nth_chain_key E ck0 p) n)"
  shows "m = into_pb (chain_message_keys E (nth_chain_key E ck0 (mk_index m)))"
proof -
  obtain d where d: "d \<in> set (chain_walk E (nth_chain_key E ck0 p) n)" "m = into_pb (chain_message_keys E d)"
    using assms(2) by (auto simp: skipped_keys_def)
  have "mk_index m = chain_key_index d" by (simp add: d(2) chain_message_keys_pb)
  then show ?thesis using walk_nth [OF assms(1) d(1)] d(2) by simp
qed

subsection \<open>The key of a counter\<close>

lemma tracked_chain_key:
  assumes "get_receiver_chain st te = Ok (Some (c, i))" "hash_lengths E" "chain_tracks E ck0 c"
  obtains p where "c_chain_key c = Some (to_pb_chain_key (nth_chain_key E ck0 p))"
    "get_receiver_chain_key st te = Ok (Some (nth_chain_key E ck0 p))"
  using assms get_receiver_chain_key_found [OF assms(1)]
  by (auto simp: chain_tracks_def nth_chain_key_ok)

text \<open>The updated chain of \<open>get_or_create_message_key\<close> when the counter is not behind it.\<close>

definition advanced :: "'r env \<Rightarrow> chain_key \<Rightarrow> u32 \<Rightarrow> pb_chain \<Rightarrow> pb_chain" where
  "advanced E ck n c =
     c\<lparr>c_message_keys := fold push_message_key (skipped_keys E ck n) (c_message_keys c),
       c_chain_key := Some (to_pb_chain_key (next_chain_key E (jump_to E ck n)))\<rparr>"

lemma tracks_advanced:
  assumes "chain_tracks E ck0 c" "ck = nth_chain_key E ck0 p" "p \<le> n" "n \<noteq> - 1"
  shows "chain_tracks E ck0 (advanced E ck n c)"
proof -
  have i0: "chain_key_index ck0 = 0" using assms(1) by (simp add: chain_tracks_def)
  let ?good = "\<lambda>m. m = into_pb (chain_message_keys E (nth_chain_key E ck0 (mk_index m)))"
  have "\<forall>m \<in> set (fold push_message_key (skipped_keys E ck n) (c_message_keys c)). ?good m"
    using assms(1) skipped_keys_nth [OF i0, of _ E p n] assms(2)
    by (intro message_key_buffer.push_many_all) (auto simp: chain_tracks_def)
  then show ?thesis
    using assms i0 by (auto simp: chain_tracks_def advanced_def jump_to_nth next_nth_chain_key)
qed

lemma receiver_chain_ok_advanced:
  assumes "receiver_chain_ok c" "hash_lengths E" "c_chain_key c = Some (to_pb_chain_key ck)"
    "chain_key_index ck \<le> n" "n \<noteq> - 1"
  shows "receiver_chain_ok (advanced E ck n c)"
proof -
  let ?mks = "fold push_message_key (skipped_keys E ck n) (c_message_keys c)"
  have old: "length (c_message_keys c) \<le> MAX_MESSAGE_KEYS" "distinct (map mk_index (c_message_keys c))"
    "\<forall>m \<in> set (c_message_keys c). mk_index m < chain_key_index ck"
    using assms(1,3) by (auto simp: receiver_chain_ok_def)
  have "distinct (map mk_index ?mks)"
    using old skipped_keys_bounds [of _ E ck n]
    by (intro message_key_buffer.push_many_distinct distinct_skipped_keys) (auto, fastforce)
  moreover have "\<forall>m \<in> set ?mks. mk_index m < n"
    using old(3) skipped_keys_bounds [of _ E ck n] assms(4)
    by (intro message_key_buffer.push_many_all) auto
  then have "\<forall>m \<in> set ?mks. mk_index m < n + 1"
    using u32_Suc_no_wrap(2) [OF assms(5)] by (meson less_trans)
  moreover have "length ?mks \<le> MAX_MESSAGE_KEYS"
    using old(1) by (rule message_key_buffer.push_many_bound)
  moreover have "chain_key_index (next_chain_key E (jump_to E ck n)) = n + 1"
    by (simp add: ratchet_chain.idx_nxt jump_to_index [OF assms(4)])
  moreover have "chain_key_ok (next_chain_key E (jump_to E ck n))" using assms(2) by simp
  ultimately show ?thesis
    using assms(1) by (auto simp: receiver_chain_ok_def advanced_def chain_key_ok_def)
qed

lemma consumed_advanced:
  assumes "receiver_chain_ok c" "c_chain_key c = Some (to_pb_chain_key ck)" "chain_key_index ck \<le> n" "n \<noteq> - 1"
  shows "consumed (advanced E ck n c) n" and "consumed c j \<Longrightarrow> consumed (advanced E ck n c) j"
proof -
  let ?mks = "fold push_message_key (skipped_keys E ck n) (c_message_keys c)"
  have sub: "set ?mks \<subseteq> set (skipped_keys E ck n) \<union> set (c_message_keys c)"
    by (rule message_key_buffer.push_many_subset)
  have old: "\<forall>m \<in> set (c_message_keys c). mk_index m < chain_key_index ck"
    using assms(1,2) by (auto simp: receiver_chain_ok_def)
  have idx: "chain_key_index (next_chain_key E (jump_to E ck n)) = n + 1"
    by (simp add: ratchet_chain.idx_nxt jump_to_index [OF assms(3)])
  have "n < n + 1" using assms(4) by (rule u32_Suc_no_wrap(2))
  moreover have "n \<notin> mk_index ` set ?mks"
    using sub old assms(3) skipped_keys_bounds [of _ E ck n] by fastforce
  ultimately show "consumed (advanced E ck n c) n" by (simp add: consumed_def advanced_def idx)
  assume j: "consumed c j"
  then have "j < chain_key_index ck" "j \<notin> mk_index ` set (c_message_keys c)"
    using assms(2) by (auto simp: consumed_def)
  moreover have "j < n + 1" using \<open>j < chain_key_index ck\<close> assms(3) \<open>n < n + 1\<close> by simp
  ultimately show "consumed (advanced E ck n c) j"
    using sub skipped_keys_bounds [of _ E ck n] by (fastforce simp: consumed_def advanced_def idx)
qed

lemma consumed_remove:
  assumes "receiver_chain_ok c" "c_chain_key c = Some ck" "p < length (c_message_keys c)"
  shows "consumed (c\<lparr>c_message_keys := remove_nth p (c_message_keys c)\<rparr>) (mk_index (c_message_keys c ! p))"
    and "consumed c j \<Longrightarrow> consumed (c\<lparr>c_message_keys := remove_nth p (c_message_keys c)\<rparr>) j"
proof -
  have "distinct (map mk_index (c_message_keys c))" using assms(1) by (simp add: receiver_chain_ok_def)
  then have "map mk_index (c_message_keys c) ! p \<notin> set (remove_nth p (map mk_index (c_message_keys c)))"
    using assms(3) by (intro remove_nth_notin) auto
  then show "consumed (c\<lparr>c_message_keys := remove_nth p (c_message_keys c)\<rparr>) (mk_index (c_message_keys c ! p))"
    using assms by (auto simp: consumed_def receiver_chain_ok_def map_remove_nth [symmetric])
  assume "consumed c j"
  then show "consumed (c\<lparr>c_message_keys := remove_nth p (c_message_keys c)\<rparr>) j"
    using set_remove_nth [of p "c_message_keys c"] by (auto simp: consumed_def)
qed

text \<open>One successful use of the chain, with everything it preserves.\<close>

lemma get_or_create_message_key_step:
  assumes "session_ok st" "public_key_ok te" "hash_lengths E"
    and found: "get_receiver_chain st te = Ok (Some (c, i))"
    and ck: "c_chain_key c = Some (to_pb_chain_key ck)"
    and step: "get_or_create_message_key E st te t ck n = Ok (g, st')" and "n \<noteq> - 1"
  obtains c' where "get_receiver_chain st' te = Ok (Some (c', i))" "st' = set_chain_at i c' st"
    "session_ok st'" "consumed c' n" "\<And>j. consumed c j \<Longrightarrow> consumed c' j"
    "\<And>ck0. chain_tracks E ck0 c \<Longrightarrow> g = chain_message_keys E (nth_chain_key E ck0 n) \<and> chain_tracks E ck0 c'"
proof -
  note D = get_receiver_chain_SomeD [OF assms(1,2) found]
  show thesis
    using found step
  proof (cases rule: get_or_create_message_key_cases)
    case (stored p)
    let ?c' = "c\<lparr>c_message_keys := remove_nth p (c_message_keys c)\<rparr>"
    have tracks: "g = chain_message_keys E (nth_chain_key E ck0 n) \<and> chain_tracks E ck0 ?c'"
      if tr: "chain_tracks E ck0 c" for ck0
    proof -
      have "c_message_keys c ! p = into_pb (chain_message_keys E (nth_chain_key E ck0 n))"
        using tr stored(2,3) by (metis chain_tracks_def nth_mem)
      then have "from_pb (c_message_keys c ! p) = Ok (chain_message_keys E (nth_chain_key E ck0 n))"
        using from_pb_chain_message_keys [OF assms(3)] by simp
      then show ?thesis
        using tr stored(4) set_remove_nth [of p "c_message_keys c"] by (auto simp: chain_tracks_def)
    qed
    show thesis
    proof (rule that [of ?c'])
      show "get_receiver_chain st' te = Ok (Some (?c', i))"
        unfolding stored(5) using found by (rule get_receiver_chain_set_chain_at) simp
      show "session_ok st'"
        unfolding stored(5) using assms(1) D receiver_chain_ok_remove
        by (intro session_ok_set_chain_at) auto
    qed (use stored tracks consumed_remove [OF D(4) ck stored(2)] in auto)
  next
    case ahead
    let ?c' = "advanced E ck n c"
    have st': "st' = set_chain_at i ?c' st" using ahead(4) by (simp add: advanced_def)
    have "g = chain_message_keys E (nth_chain_key E ck0 n) \<and> chain_tracks E ck0 ?c'"
      if tr: "chain_tracks E ck0 c" for ck0
    proof -
      obtain p where p: "c_chain_key c = Some (to_pb_chain_key (nth_chain_key E ck0 p))"
        using tr by (auto simp: chain_tracks_def)
      then have ckp: "ck = nth_chain_key E ck0 p" using ck by (simp add: to_pb_chain_key_def)
      have i0: "chain_key_index ck0 = 0" using tr by (simp add: chain_tracks_def)
      have "p \<le> n" using ahead(1) by (simp add: ckp nth_chain_key_index [OF i0])
      then show ?thesis
        using ahead(3) tracks_advanced [OF tr ckp _ \<open>n \<noteq> - 1\<close>] ckp by (simp add: jump_to_nth [OF i0])
    qed
    moreover have "get_receiver_chain st' te = Ok (Some (?c', i))"
      unfolding st' using found by (rule get_receiver_chain_set_chain_at) (simp add: advanced_def)
    moreover have "session_ok st'"
      unfolding st' using assms(1) D receiver_chain_ok_advanced [OF D(4) assms(3) ck ahead(1) \<open>n \<noteq> - 1\<close>]
      by (intro session_ok_set_chain_at) (auto simp: advanced_def)
    ultimately show thesis
      using that [of ?c'] st' consumed_advanced [OF D(4) ck ahead(1) \<open>n \<noteq> - 1\<close>] by blast
  qed
qed

text \<open>A used counter is refused, and the state does not change.\<close>

lemma consumed_is_duplicate:
  assumes "get_receiver_chain st te = Ok (Some (c, i))" "c_chain_key c = Some (to_pb_chain_key ck)"
    "consumed c n"
  shows "get_or_create_message_key E st te t ck n = Err (DuplicatedMessage (chain_key_index ck) n)"
proof -
  have "n < chain_key_index ck" "position (\<lambda>m. mk_index m = n) (c_message_keys c) = None"
    using assms(2,3) by (auto simp: consumed_def position_None)
  then show ?thesis by (simp add: get_or_create_message_key_behind [OF assms(1)])
qed

subsection \<open>The chain of a message\<close>

text \<open>
  After \<open>get_or_create_chain_key\<close> the session has a receiver chain for the sender's ratchet key,
  with the returned chain key in it: the one it had, or a new chain without skipped keys.
\<close>

lemma session_ok_chain_key:
  assumes "session_ok st" "public_key_ok te" "get_receiver_chain st te = Ok (Some (c, i))"
    "get_receiver_chain_key st te = Ok (Some ck)"
  shows "c_chain_key c = Some (to_pb_chain_key ck)"
proof -
  obtain k where "c_chain_key c = Some k" "length (ck_key k) = 32"
    using get_receiver_chain_SomeD(4) [OF assms(1-3)] by (auto simp: receiver_chain_ok_def)
  then show ?thesis
    using assms(3,4) by (simp add: get_receiver_chain_key_def to_pb_chain_key_def) auto
qed

lemma add_receiver_chain_found:
  assumes "session_ok (add_receiver_chain te ck st)" "public_key_ok te"
  obtains i where "get_receiver_chain (add_receiver_chain te ck st) te =
    Ok (Some (\<lparr>c_sender_ratchet_key = PublicKey_serialize te, c_sender_ratchet_key_private = [],
       c_chain_key = Some (to_pb_chain_key ck), c_message_keys = []\<rparr>, i))"
proof -
  let ?c = "\<lparr>c_sender_ratchet_key = PublicKey_serialize te, c_sender_ratchet_key_private = [],
       c_chain_key = Some (to_pb_chain_key ck), c_message_keys = []\<rparr>"
  let ?st = "add_receiver_chain te ck st"
  let ?cs = "s_receiver_chains ?st"
  have mem: "?c \<in> set ?cs"
    using receiver_chain_buffer.push_new [of ?c] by (simp add: add_receiver_chain_def)
  have "position (\<lambda>c. c_sender_ratchet_key c = PublicKey_serialize te) ?cs \<noteq> None"
    unfolding position_None using bexI [OF _ mem, of "\<lambda>c. c_sender_ratchet_key c = PublicKey_serialize te"]
    by simp
  then obtain j where j: "position (\<lambda>c. c_sender_ratchet_key c = PublicKey_serialize te) ?cs = Some j"
    by blast
  then have j': "j < length ?cs" "c_sender_ratchet_key (?cs ! j) = PublicKey_serialize te"
    by (simp_all add: position_Some)
  have "distinct (map c_sender_ratchet_key ?cs)" using assms(1) by (simp add: session_ok_def)
  then have "inj_on c_sender_ratchet_key (set ?cs)" by (simp add: distinct_map)
  then have "?cs ! j = ?c" by (rule inj_onD) (use mem j' in auto)
  then show thesis using that j unfolding get_receiver_chain_spec [OF assms] by simp
qed

lemma get_receiver_chain_key_None:
  assumes "get_receiver_chain_key st te = Ok None"
  shows "get_receiver_chain st te = Ok None"
proof (cases "get_receiver_chain st te")
  case (Ok found)
  show ?thesis
  proof (cases found)
    case (Some ci)
    then show ?thesis
      using assms Ok by (cases ci) (simp add: get_receiver_chain_key_def split: option.splits if_splits)
  qed (use Ok in simp)
qed (use assms in \<open>simp_all add: get_receiver_chain_key_def\<close>)

lemma session_frames [simp]:
  "get_receiver_chain (set_sender_chain kp ck st) = get_receiver_chain st"
  "get_receiver_chain (set_previous_counter n st) = get_receiver_chain st"
  "get_receiver_chain (clear_unacknowledged_pre_key_message st) = get_receiver_chain st"
  "get_receiver_chain (set_root_key rk st) = get_receiver_chain st"
  "get_receiver_chain (st\<lparr>s_pq_ratchet_state := pq\<rparr>) = get_receiver_chain st"
  by (simp_all add: fun_eq_iff get_receiver_chain_def set_sender_chain_def set_previous_counter_def
      clear_unacknowledged_pre_key_message_def set_root_key_def)

text \<open>The fields the ratchet never changes.\<close>

definition same_identity :: "session_state \<Rightarrow> session_state \<Rightarrow> bool" where
  "same_identity st st' \<longleftrightarrow>
     s_session_version st' = s_session_version st \<and>
     s_local_identity_public st' = s_local_identity_public st \<and>
     s_remote_identity_public st' = s_remote_identity_public st \<and>
     s_alice_base_key st' = s_alice_base_key st"

lemma same_identity_simps [simp]:
  "same_identity st st"
  "same_identity st (set_chain_at i c st') = same_identity st st'"
  "same_identity st (set_sender_chain kp ck st') = same_identity st st'"
  "same_identity st (set_previous_counter n st') = same_identity st st'"
  "same_identity st (add_receiver_chain te ck st') = same_identity st st'"
  "same_identity st (set_root_key rk st') = same_identity st st'"
  "same_identity st (clear_unacknowledged_pre_key_message st') = same_identity st st'"
  "same_identity st (st'\<lparr>s_pq_ratchet_state := pq\<rparr>) = same_identity st st'"
  by (simp_all add: same_identity_def set_chain_at_def set_sender_chain_def set_previous_counter_def
      add_receiver_chain_def set_root_key_def clear_unacknowledged_pre_key_message_def)

lemma same_identityD:
  assumes "same_identity st st'"
  shows "session_version st' = session_version st" "remote_identity_key st' = remote_identity_key st"
    "local_identity_key st' = local_identity_key st" "session_with_self st' = session_with_self st"
proof -
  show v: "session_version st' = session_version st" "remote_identity_key st' = remote_identity_key st"
    "local_identity_key st' = local_identity_key st"
    using assms by (simp_all add: same_identity_def session_version_def remote_identity_key_def local_identity_key_def)
  show "session_with_self st' = session_with_self st"
    unfolding session_with_self_def remote_identity_key_bytes_def local_identity_key_bytes_def v ..
qed

lemma get_or_create_chain_key_step:
  assumes "session_ok st" "public_key_ok te" "hash_lengths E"
    and step: "get_or_create_chain_key E st te r = (Ok (ck, st1), r1)"
  obtains
    (existing) c i where "st1 = st" "r1 = r" "get_receiver_chain st te = Ok (Some (c, i))"
      "c_chain_key c = Some (to_pb_chain_key ck)"
  | (created) c i rk our where "get_receiver_chain st te = Ok None"
      "state_root_key st = Ok rk" "sender_ratchet_private_key E st = Ok our"
      "ck = snd (create_chain E rk te our)" "session_ok st1" "same_identity st st1"
      "get_receiver_chain st1 te = Ok (Some (c, i))" "c_chain_key c = Some (to_pb_chain_key ck)"
      "c_message_keys c = []" "r1 = snd (KeyPair_generate E r)"
      "s_sender_chain st1 \<noteq> None" "s_pq_ratchet_state st1 = s_pq_ratchet_state st"
proof -
  obtain ex where ex: "get_receiver_chain_key st te = Ok ex"
    using step by (auto simp: get_or_create_chain_key_def result_simps)
  show thesis
  proof (cases ex)
    case (Some ck')
    then have eq: "ck' = ck" "st1 = st" "r1 = r" using step ex by (simp_all add: get_or_create_chain_key_def)
    obtain c i where ci: "get_receiver_chain st te = Ok (Some (c, i))"
      using ex Some by (auto simp: get_receiver_chain_key_def bindR_eq_Ok split: option.splits)
    then show thesis
      using existing eq session_ok_chain_key [OF assms(1,2) ci] ex Some by simp
  next
    case None
    have no: "get_receiver_chain st te = Ok None" using ex None by (simp add: get_receiver_chain_key_None)
    obtain rk our where rk: "state_root_key st = Ok rk" and our: "sender_ratchet_private_key E st = Ok our"
      using step ex None by (auto simp: get_or_create_chain_key_def result_simps)
    obtain kp r' where kp: "KeyPair_generate E r = (kp, r')" by fastforce
    define rc where "rc = create_chain E rk te our"
    define sc where "sc = create_chain E (fst rc) te (kp_private_key kp)"
    let ?st2 = "add_receiver_chain te (snd rc) (set_root_key (fst sc) st)"
    obtain n where st1: "st1 = set_sender_chain kp (snd sc) (set_previous_counter n ?st2)"
      and ck: "ck = snd rc" and r1: "r1 = r'"
      using step ex None rk our kp
      by (simp add: get_or_create_chain_key_def Let_def bindS_eq_Ok flip: rc_def) (auto simp flip: sc_def)
    have ok0: "session_ok (set_root_key (fst sc) st)"
      using assms(1,3) by (simp add: session_ok_set_root_key sc_def)
    have "get_receiver_chain (set_root_key (fst sc) st) te = Ok None"
      using no by simp
    then have ok2: "session_ok ?st2"
      using session_ok_add_receiver_chain [OF ok0 assms(2)] assms(3) by (simp add: rc_def)
    then obtain i where "get_receiver_chain ?st2 te = Ok (Some (\<lparr>c_sender_ratchet_key = PublicKey_serialize te,
        c_sender_ratchet_key_private = [], c_chain_key = Some (to_pb_chain_key (snd rc)), c_message_keys = []\<rparr>, i))"
      using add_receiver_chain_found [OF _ assms(2)] by blast
    then have fnd: "get_receiver_chain st1 te = Ok (Some (\<lparr>c_sender_ratchet_key = PublicKey_serialize te,
        c_sender_ratchet_key_private = [], c_chain_key = Some (to_pb_chain_key ck), c_message_keys = []\<rparr>, i))"
      by (simp add: st1 ck)
    have "session_ok st1" "same_identity st st1" "s_sender_chain st1 \<noteq> None"
      "s_pq_ratchet_state st1 = s_pq_ratchet_state st"
      using ok2 by (simp_all add: st1 set_sender_chain_def set_previous_counter_def add_receiver_chain_def
          set_root_key_def same_identity_def session_ok_def)
    then show thesis
      using created [OF no rk our _ _ _ fnd] ck r1 kp by (simp add: rc_def)
  qed
qed

subsection \<open>Decryption with one state\<close>

lemma decrypt_message_with_state_cases:
  assumes "decrypt_message_with_state E st m t r = (Ok (ptext, st'), r')"
  obtains ck st1 g st2 pq key mk their_id our_id where
    "length (s_root_key st) = 32"
    "session_version st = Ok (ucast (sm_message_version m))"
    "get_or_create_chain_key E st (sm_sender_ratchet_key m) r = (Ok (ck, st1), r')"
    "get_or_create_message_key E st1 (sm_sender_ratchet_key m) t ck (sm_counter m) = Ok (g, st2)"
    "spqr_recv E (s_pq_ratchet_state st2) (sm_pq_ratchet m) = Ok (pq, key)"
    "generate_keys E g key = (Ok mk :: (_, signal_error) result)"
    "remote_identity_key st2 = Ok (Some their_id)" "local_identity_key st2 = Ok our_id"
    "SignalMessage_verify_mac E m their_id our_id (mks_mac_key mk) = Ok True"
    "aes_256_cbc_decrypt E (sm_ciphertext m) (mks_cipher_key mk) (mks_iv mk) = Ok ptext"
    "st' = clear_unacknowledged_pre_key_message (st2\<lparr>s_pq_ratchet_state := pq\<rparr>)"
proof -
  have same: "remote_identity_key (st2\<lparr>s_pq_ratchet_state := pq\<rparr>) = remote_identity_key st2"
    "local_identity_key (st2\<lparr>s_pq_ratchet_state := pq\<rparr>) = local_identity_key st2" for st2 pq
    by (simp_all add: remote_identity_key_def local_identity_key_def)
  have "length (s_root_key st) = 32"
    using assms by (auto simp: decrypt_message_with_state_def state_root_key_def split: if_splits)
  moreover have v: "session_version st = Ok (ucast (sm_message_version m))"
    using assms by (auto simp: decrypt_message_with_state_def Let_def result_simps split: if_splits)
  ultimately show thesis
    using assms that
    by (auto simp: decrypt_message_with_state_def Let_def result_simps state_root_key_def
        pq_ratchet_recv_def same split: if_splits)
qed

lemma decrypt_message_with_state_step:
  assumes "session_ok st" "public_key_ok (sm_sender_ratchet_key m)" "hash_lengths E" "sm_counter m \<noteq> - 1"
    and dec: "decrypt_message_with_state E st m t r = (Ok (ptext, st'), r')"
  obtains c i where "session_ok st'" "same_identity st st'"
    "get_receiver_chain st' (sm_sender_ratchet_key m) = Ok (Some (c, i))" "consumed c (sm_counter m)"
    "\<And>c0 i0 j. get_receiver_chain st (sm_sender_ratchet_key m) = Ok (Some (c0, i0)) \<Longrightarrow> consumed c0 j \<Longrightarrow>
        consumed c j"
    "\<exists>k. remote_identity_key st' = Ok (Some k)"
    "s_sender_chain st \<noteq> None \<Longrightarrow> s_sender_chain st' \<noteq> None"
  using dec
proof (cases rule: decrypt_message_with_state_cases)
  case (1 ck st1 g st2 pq key mk their_id our_id)
  let ?te = "sm_sender_ratchet_key m"
  obtain c1 i1 where st1: "session_ok st1" "same_identity st st1" "get_receiver_chain st1 ?te = Ok (Some (c1, i1))"
      "c_chain_key c1 = Some (to_pb_chain_key ck)"
      "\<And>c0 i0. get_receiver_chain st ?te = Ok (Some (c0, i0)) \<Longrightarrow> c0 = c1"
      "s_sender_chain st \<noteq> None \<Longrightarrow> s_sender_chain st1 \<noteq> None"
    using assms(1,2,3) 1(3)
  proof (cases rule: get_or_create_chain_key_step)
    case (existing c i)
    then show ?thesis using that assms(1) by simp
  next
    case (created c i rk our)
    then show ?thesis using that by simp
  qed
  obtain c2 where st2: "get_receiver_chain st2 ?te = Ok (Some (c2, i1))" "st2 = set_chain_at i1 c2 st1"
      "session_ok st2" "consumed c2 (sm_counter m)" "\<And>j. consumed c1 j \<Longrightarrow> consumed c2 j"
    using get_or_create_message_key_step [OF st1(1) assms(2,3) st1(3,4) 1(4) assms(4)] by metis
  have same: "same_identity st st'" using st1(2) st2(2) 1(11) by simp
  then have "remote_identity_key st' = remote_identity_key st" by (rule same_identityD)
  moreover have "remote_identity_key st2 = remote_identity_key st"
    using st1(2) st2(2) by (intro same_identityD(2)) simp
  moreover have "s_sender_chain st' = s_sender_chain st1"
    using 1(11) st2(2) by (simp add: clear_unacknowledged_pre_key_message_def set_chain_at_def)
  ultimately show thesis
    using that [of c2 i1] same st1 st2 1(7,11) by auto
qed

lemma decrypt_consumed_is_duplicate:
  assumes "session_ok st" "public_key_ok (sm_sender_ratchet_key m)"
    "session_version st = Ok (ucast (sm_message_version m))"
    "get_receiver_chain st (sm_sender_ratchet_key m) = Ok (Some (c, i))" "consumed c (sm_counter m)"
  shows "\<exists>n. decrypt_message_with_state E st m t r = (Err (DuplicatedMessage n (sm_counter m)), r)"
proof -
  obtain k where k: "c_chain_key c = Some k" "length (ck_key k) = 32"
    using get_receiver_chain_SomeD(4) [OF assms(1,2,4)] by (auto simp: receiver_chain_ok_def)
  let ?ck = "\<lparr>chain_key_key = ck_key k, chain_key_index = ck_index k\<rparr>"
  have ck: "c_chain_key c = Some (to_pb_chain_key ?ck)" using k by (simp add: to_pb_chain_key_def)
  have "get_receiver_chain_key st (sm_sender_ratchet_key m) = Ok (Some ?ck)"
    using get_receiver_chain_key_found [OF assms(4) ck] k by (simp add: chain_key_ok_def)
  then have "get_or_create_chain_key E st (sm_sender_ratchet_key m) r = (Ok (?ck, st), r)"
    by (simp add: get_or_create_chain_key_def)
  moreover have "length (s_root_key st) = 32" using assms(1) by (simp add: session_ok_def)
  ultimately show ?thesis
    using assms(3) consumed_is_duplicate [OF assms(4) ck assms(5), of E t]
    by (simp add: decrypt_message_with_state_def Let_def state_root_key_def)
qed

subsection \<open>Decrypting what the sender encrypted\<close>

text \<open>The counter can be decrypted: it is ahead within the allowed jump, or its key is stored.\<close>

definition available :: "session_state \<Rightarrow> pb_chain \<Rightarrow> u32 \<Rightarrow> bool" where
  "available st c n \<longleftrightarrow>
     (\<exists>ck. c_chain_key c = Some ck \<and> ck_index ck \<le> n \<and> jump_allowed st (ck_index ck) n) \<or>
     (\<exists>ck. c_chain_key c = Some ck \<and> n < ck_index ck) \<and> n \<in> mk_index ` set (c_message_keys c)"

lemma get_or_create_message_key_available:
  assumes found: "get_receiver_chain st te = Ok (Some (c, i))" and "hash_lengths E"
    and tr: "chain_tracks E ck0 c" and ck: "c_chain_key c = Some (to_pb_chain_key ck)"
    and av: "available st c n"
  shows "\<exists>c'. get_or_create_message_key E st te t ck n =
    Ok (chain_message_keys E (nth_chain_key E ck0 n), set_chain_at i c' st)"
proof -
  have i0: "chain_key_index ck0 = 0" using tr by (simp add: chain_tracks_def)
  obtain p where "c_chain_key c = Some (to_pb_chain_key (nth_chain_key E ck0 p))"
    using tr by (auto simp: chain_tracks_def)
  then have ckp: "ck = nth_chain_key E ck0 p" using ck by (simp add: to_pb_chain_key_def)
  have p: "chain_key_index ck = p" by (simp add: ckp nth_chain_key_index [OF i0])
  show ?thesis
  proof (cases "n < chain_key_index ck")
    case True
    then have "n \<in> mk_index ` set (c_message_keys c)"
      using av ck by (auto simp: available_def)
    then obtain q where q: "position (\<lambda>m. mk_index m = n) (c_message_keys c) = Some q"
      by (metis (mono_tags, lifting) imageE not_Some_eq position_None)
    then have "q < length (c_message_keys c)" "mk_index (c_message_keys c ! q) = n"
      by (simp_all add: position_Some)
    then have "c_message_keys c ! q = into_pb (chain_message_keys E (nth_chain_key E ck0 n))"
      using tr by (metis chain_tracks_def nth_mem)
    then show ?thesis
      using q from_pb_chain_message_keys [OF assms(2)]
      by (auto simp: get_or_create_message_key_behind [OF found True])
  next
    case False
    then have le: "chain_key_index ck \<le> n" by simp
    moreover have "jump_allowed st (chain_key_index ck) n"
      using av ck False by (auto simp: available_def)
    ultimately show ?thesis
      using p by (auto simp: get_or_create_message_key_ahead [OF found] ckp jump_to_nth [OF i0])
  qed
qed

lemma decrypt_message_with_state_correct:
  assumes "hash_lengths E" "cbc_ok E" "length (s_root_key st) = 32"
    and ver: "session_version st = Ok (ucast v)"
    and chain: "get_or_create_chain_key E st te r = (Ok (ck, st1), r1)" "same_identity st st1"
      "get_receiver_chain st1 te = Ok (Some (c, i))" "c_chain_key c = Some (to_pb_chain_key ck)"
      "chain_tracks E ck0 c" "available st1 c n"
    and pq: "spqr_recv E (s_pq_ratchet_state st1) pq_msg = Ok (pq', key)"
    and keys: "generate_keys E (chain_message_keys E (nth_chain_key E ck0 n)) key =
        (Ok mk :: (_, signal_error) result)"
    and ids: "remote_identity_key st = Ok (Some sender_id)" "local_identity_key st = Ok receiver_id"
    and enc: "aes_256_cbc_encrypt E ptext (mks_cipher_key mk) (mks_iv mk) = Ok ct"
    and msg: "SignalMessage_new E v (mks_mac_key mk) te n pn ct sender_id receiver_id pq_msg = Ok m"
  shows "\<exists>st'. decrypt_message_with_state E st m t r = (Ok (ptext, st'), r1)"
proof -
  note fields = SignalMessage_new_fields [OF msg]
  obtain c' where gk: "get_or_create_message_key E st1 te t ck n =
      Ok (chain_message_keys E (nth_chain_key E ck0 n), set_chain_at i c' st1)"
    using get_or_create_message_key_available [OF chain(3) assms(1) chain(5,4,6)] by blast
  let ?st2 = "set_chain_at i c' st1"
  have pq2: "pq_ratchet_recv E pq_msg ?st2 = Ok (key, ?st2\<lparr>s_pq_ratchet_state := pq'\<rparr>)"
    using pq by (simp add: pq_ratchet_recv_def set_chain_at_def)
  have same: "same_identity st (?st2\<lparr>s_pq_ratchet_state := pq'\<rparr>)" using chain(2) by simp
  note ids' = same_identityD(2,3) [OF same]
  have dec: "aes_256_cbc_decrypt E ct (mks_cipher_key mk) (mks_iv mk) = Ok ptext"
    using aes_256_cbc_roundtrip [OF assms(2)] enc
    by (auto simp: aes_256_cbc_encrypt_def split: if_splits)
  show ?thesis
    using assms(3) ver chain(1) gk pq2 keys ids verify_mac_new [OF assms(1) msg] dec fields
    by (simp add: decrypt_message_with_state_def Let_def state_root_key_def ids')
qed

end
