(* ===== verification/Session_Shape.thy ===== *)
theory Session_Shape
  imports Ratchet_Correctness
begin

text \<open>
  The part of the session invariant that no received message can break. A message with counter \<open>u32::MAX\<close> resets the
  index of its receiver chain to 0, after which skipped keys may lie ahead of the chain and repeat a counter; the sizes
  of all collections and keys stay as they are. A session without its skipped keys (\<open>forget_keys\<close>) is well-formed
  exactly if it has this shape, so that the lemmas on well-formed sessions carry over.
\<close>

definition chain_shape :: "pb_chain \<Rightarrow> bool" where
  "chain_shape c \<longleftrightarrow>
     (\<exists>pk. public_key_ok pk \<and> c_sender_ratchet_key c = PublicKey_serialize pk) \<and>
     length (c_message_keys c) \<le> MAX_MESSAGE_KEYS \<and>
     (\<exists>ck. c_chain_key c = Some ck \<and> length (ck_key ck) = 32)"

definition session_shape :: "session_state \<Rightarrow> bool" where
  "session_shape st \<longleftrightarrow>
     length (s_root_key st) = 32 \<and>
     length (s_receiver_chains st) \<le> MAX_RECEIVER_CHAINS \<and>
     distinct (map c_sender_ratchet_key (s_receiver_chains st)) \<and>
     (\<forall>c \<in> set (s_receiver_chains st). chain_shape c)"

lemma session_ok_shape: "session_ok st \<Longrightarrow> session_shape st"
  by (auto simp: session_ok_def session_shape_def receiver_chain_ok_def chain_shape_def)

subsection \<open>Without the skipped keys\<close>

abbreviation forget_chain :: "pb_chain \<Rightarrow> pb_chain" where
  "forget_chain c \<equiv> c\<lparr>c_message_keys := []\<rparr>"

definition forget_keys :: "session_state \<Rightarrow> session_state" where
  "forget_keys st = st\<lparr>s_receiver_chains := map forget_chain (s_receiver_chains st)\<rparr>"

definition keys_bounded :: "session_state \<Rightarrow> bool" where
  "keys_bounded st \<longleftrightarrow> (\<forall>c \<in> set (s_receiver_chains st). length (c_message_keys c) \<le> MAX_MESSAGE_KEYS)"

lemma session_shape_forget: "session_shape st \<longleftrightarrow> session_ok (forget_keys st) \<and> keys_bounded st"
  by (auto simp: session_shape_def session_ok_def forget_keys_def chain_shape_def receiver_chain_ok_def keys_bounded_def
      comp_def MAX_MESSAGE_KEYS_def)

lemma find_receiver_chain_forget:
  "find_receiver_chain i (map forget_chain cs) te = mapR (map_option (map_prod forget_chain id)) (find_receiver_chain i cs te)"
proof (induction cs arbitrary: i)
  case (Cons c cs)
  then show ?case by (cases "PublicKey_deserialize (c_sender_ratchet_key c)") simp_all
qed simp

lemma get_receiver_chain_forget:
  "get_receiver_chain (forget_keys st) te = mapR (map_option (map_prod forget_chain id)) (get_receiver_chain st te)"
  by (simp add: get_receiver_chain_def forget_keys_def find_receiver_chain_forget)

lemma push_receiver_chain_forget:
  "map forget_chain (push_receiver_chain c cs) = push_receiver_chain (forget_chain c) (map forget_chain cs)"
  by (simp add: push_receiver_chain_def Let_def map_remove_nth)

lemma forget_keys_simps [simp]:
  "forget_keys (add_receiver_chain te ck st) = add_receiver_chain te ck (forget_keys st)"
  "forget_keys (set_sender_chain kp ck st) = set_sender_chain kp ck (forget_keys st)"
  "forget_keys (set_previous_counter n st) = set_previous_counter n (forget_keys st)"
  "forget_keys (set_root_key rk st) = set_root_key rk (forget_keys st)"
  "forget_keys (set_chain_at i c st) = set_chain_at i (forget_chain c) (forget_keys st)"
  "state_root_key (forget_keys st) = state_root_key st"
  "sender_ratchet_private_key E (forget_keys st) = sender_ratchet_private_key E st"
  "get_sender_chain_key (forget_keys st) = get_sender_chain_key st"
  by (simp_all add: forget_keys_def add_receiver_chain_def push_receiver_chain_forget set_sender_chain_def
      set_previous_counter_def set_root_key_def set_chain_at_def map_update state_root_key_def
      sender_ratchet_private_key_def get_sender_chain_key_def)

lemma get_receiver_chain_key_forget [simp]: "get_receiver_chain_key (forget_keys st) te = get_receiver_chain_key st te"
  by (cases "get_receiver_chain st te") (auto simp: get_receiver_chain_key_def get_receiver_chain_forget split: option.splits)

lemma get_or_create_chain_key_forget:
  assumes "get_or_create_chain_key E st te r = (Ok (ck, st1), r1)"
  shows "get_or_create_chain_key E (forget_keys st) te r = (Ok (ck, forget_keys st1), r1)"
proof -
  obtain kp r' where kp: "KeyPair_generate E r = (kp, r')" by (rule prod.exhaust)
  obtain existing where existing: "get_receiver_chain_key st te = Ok existing"
    using assms by (auto simp: get_or_create_chain_key_def result_simps)
  show ?thesis
  proof (cases existing)
    case None
    obtain root where root: "state_root_key st = Ok root"
      using assms existing None by (cases "state_root_key st") (simp_all add: get_or_create_chain_key_def)
    obtain our where our: "sender_ratchet_private_key E st = Ok our"
      using assms existing None root by (cases "sender_ratchet_private_key E st") (simp_all add: get_or_create_chain_key_def)
    have reads: "get_sender_chain_key (add_receiver_chain te k (set_root_key rk st0)) = get_sender_chain_key st0" for k rk st0
      by (simp add: get_sender_chain_key_def add_receiver_chain_def set_root_key_def)
    obtain sender where sender: "get_sender_chain_key st = Ok sender"
      using assms existing None root our kp
      by (cases "get_sender_chain_key st") (simp_all add: get_or_create_chain_key_def Let_def reads)
    show ?thesis
      using assms existing None root our sender kp
      by (auto simp: get_or_create_chain_key_def Let_def reads)
  qed (use assms existing in \<open>auto simp: get_or_create_chain_key_def\<close>)
qed

subsection \<open>What decryption keeps\<close>

lemma get_or_create_chain_key_shape:
  assumes "session_shape st" "public_key_ok te" "hash_lengths E"
    and step: "get_or_create_chain_key E st te r = (Ok (ck, st1), r1)"
  obtains c i where "session_shape st1" "get_receiver_chain st1 te = Ok (Some (c, i))"
proof -
  have ok: "session_ok (forget_keys st)" "keys_bounded st" using assms(1) by (simp_all add: session_shape_forget)
  note step' = get_or_create_chain_key_forget [OF step]
  obtain c' i where found: "session_ok (forget_keys st1)" "get_receiver_chain (forget_keys st1) te = Ok (Some (c', i))"
    using ok(1) assms(2,3) step' by (cases rule: get_or_create_chain_key_step) (use ok(1) in auto)
  then obtain c where c: "get_receiver_chain st1 te = Ok (Some (c, i))"
    by (cases "get_receiver_chain st1 te") (auto simp: get_receiver_chain_forget)
  have add: "keys_bounded (add_receiver_chain te k st0)" if "keys_bounded st0" for k st0
    using that receiver_chain_buffer.push_subset by (fastforce simp: keys_bounded_def add_receiver_chain_def)
  have frames: "keys_bounded (set_sender_chain kp k st0) = keys_bounded st0" "keys_bounded (set_previous_counter n st0) = keys_bounded st0"
    "keys_bounded (set_root_key rk st0) = keys_bounded st0" for kp k n rk st0
    by (simp_all add: keys_bounded_def set_sender_chain_def set_previous_counter_def set_root_key_def)
  obtain kp r' where kp: "KeyPair_generate E r = (kp, r')" by (rule prod.exhaust)
  obtain ex where "get_receiver_chain_key st te = Ok ex"
    using step by (auto simp: get_or_create_chain_key_def result_simps)
  then have "keys_bounded st1"
    using step kp ok(2) add by (cases ex) (auto simp: get_or_create_chain_key_def Let_def result_simps frames)
  then show thesis using that found(1) c by (simp add: session_shape_forget)
qed

lemma get_or_create_message_key_shape:
  assumes "session_shape st" "public_key_ok te" "hash_lengths E"
    and found: "get_receiver_chain st te = Ok (Some (c, i))"
    and step: "get_or_create_message_key E st te t ck n = Ok (g, st')"
  obtains c' where "st' = set_chain_at i c' st" "session_shape st'"
proof -
  have ok: "session_ok (forget_keys st)" "keys_bounded st" using assms(1) by (simp_all add: session_shape_forget)
  note D = get_receiver_chain_SomeD [OF ok(1) assms(2), of "forget_chain c" i]
  have D': "i < length (s_receiver_chains (forget_keys st))" "s_receiver_chains (forget_keys st) ! i = forget_chain c"
      "receiver_chain_ok (forget_chain c)"
    using D found by (simp_all add: get_receiver_chain_forget)
  have i: "i < length (s_receiver_chains st)" using D'(1) by (simp add: forget_keys_def)
  have c: "s_receiver_chains st ! i = c"
    using find_receiver_chain_SomeD [OF found [unfolded get_receiver_chain_def]] by simp
  have len: "length (c_message_keys c) \<le> MAX_MESSAGE_KEYS" using ok(2) i c by (metis keys_bounded_def nth_mem)
  have shape: "session_shape (set_chain_at i c' st)"
    if "c_sender_ratchet_key c' = c_sender_ratchet_key c" "length (c_message_keys c') \<le> MAX_MESSAGE_KEYS"
      "\<exists>k. c_chain_key c' = Some k \<and> length (ck_key k) = 32" for c'
  proof -
    have "session_ok (set_chain_at i (forget_chain c') (forget_keys st))"
      using that D'(3) by (intro session_ok_set_chain_at [OF ok(1) D'(1)]) (auto simp: D'(2) receiver_chain_ok_def)
    moreover have "keys_bounded (set_chain_at i c' st)"
      using ok(2) that(2) set_update_subset_insert [of "s_receiver_chains st" i c'] by (auto simp: keys_bounded_def set_chain_at_def)
    ultimately show ?thesis by (simp add: session_shape_forget)
  qed
  show thesis
    using found step
  proof (cases rule: get_or_create_message_key_cases)
    case (stored p)
    show ?thesis
      by (rule that [OF stored(5)], unfold stored(5), rule shape)
        (use len D'(3) in \<open>auto simp: receiver_chain_ok_def length_remove_nth remove_nth_def\<close>)
  next
    case ahead
    have "chain_key_ok (next_chain_key E (jump_to E ck n))" using assms(3) by simp
    then show ?thesis
      using that [OF ahead(4)] shape message_key_buffer.push_many_bound [OF len] unfolding ahead(4)
      by (simp add: chain_key_ok_def)
  qed
qed

lemma decrypt_message_with_state_shape:
  assumes "session_shape st" "public_key_ok (sm_sender_ratchet_key m)" "hash_lengths E"
    and dec: "decrypt_message_with_state E st m t r = (Ok (ptext, st'), r')"
  shows "session_shape st'" and "\<exists>k. remote_identity_key st' = Ok (Some k)"
proof -
  have "session_shape st' \<and> (\<exists>k. remote_identity_key st' = Ok (Some k))"
    using dec
  proof (cases rule: decrypt_message_with_state_cases)
    case (1 ck st1 g st2 pq key mk their_id our_id)
    obtain c i where c: "session_shape st1" "get_receiver_chain st1 (sm_sender_ratchet_key m) = Ok (Some (c, i))"
      using assms(1-3) 1(3) by (rule get_or_create_chain_key_shape)
    have "session_shape st2" using c(1) assms(2,3) c(2) 1(4) by (rule get_or_create_message_key_shape)
    then have "session_shape st'" by (simp add: 1(11) session_shape_def clear_unacknowledged_pre_key_message_def)
    moreover have "remote_identity_key st' = Ok (Some their_id)"
      using 1(7) by (simp add: 1(11) remote_identity_key_def clear_unacknowledged_pre_key_message_def split: if_splits)
    ultimately show ?thesis by blast
  qed
  then show "session_shape st'" "\<exists>k. remote_identity_key st' = Ok (Some k)" by blast+
qed

end
