(* ===== verification/Record_Correctness.thy ===== *)
theory Record_Correctness
  imports Session_Shape
begin

text \<open>
  What decryption does to a whole session record (\<open>decrypt_message_with_record\<close>): it keeps the
  record invariant, a used counter is reported as a duplicate, an archived session that decrypts
  is promoted, and on parsed messages nothing panics, whatever their counter.
\<close>

subsection \<open>Absence of panics\<close>

lemma get_receiver_chain_no_panic [simp]: "get_receiver_chain st te \<noteq> Panic"
proof -
  have "find_receiver_chain i cs te \<noteq> Panic" for i cs
    by (induction cs arbitrary: i) (auto simp: result_simps)
  then show ?thesis by (simp add: get_receiver_chain_def)
qed

lemma session_reads_no_panic [simp]:
  "get_receiver_chain_key st te \<noteq> Panic" "state_root_key st \<noteq> Panic"
  "sender_ratchet_private_key E st \<noteq> Panic" "get_sender_chain_key st \<noteq> Panic"
  "remote_identity_key st \<noteq> Panic" "local_identity_key st \<noteq> Panic" "session_version st \<noteq> Panic"
  "sender_ratchet_key st \<noteq> Panic"
  by (auto simp: get_receiver_chain_key_def state_root_key_def sender_ratchet_private_key_def
      get_sender_chain_key_def remote_identity_key_def local_identity_key_def session_version_def
      sender_ratchet_key_def result_simps split: option.splits)

lemma get_or_create_chain_key_no_panic: "get_or_create_chain_key E st te r \<noteq> (Panic, r')"
  by (auto simp: get_or_create_chain_key_def Let_def result_simps split: option.splits prod.splits)

text \<open>All stored keys are seeds (keys written by the current code), never legacy expanded keys.\<close>

definition seeded :: "session_state \<Rightarrow> bool" where
  "seeded st \<longleftrightarrow> (\<forall>c \<in> set (s_receiver_chains st). \<forall>m \<in> set (c_message_keys c). mk_seed m \<noteq> [])"

lemma seeded_set_chain_at:
  assumes "seeded st" "\<forall>m \<in> set (c_message_keys c). mk_seed m \<noteq> []"
  shows "seeded (set_chain_at i c st)"
  using assms set_update_subset_insert [of "s_receiver_chains st" i c]
  by (auto simp: seeded_def set_chain_at_def)

lemma found_seeded:
  assumes "seeded st" "get_receiver_chain st te = Ok (Some (c, i))"
  shows "\<forall>m \<in> set (c_message_keys c). mk_seed m \<noteq> []"
  using assms find_receiver_chain_SomeD [OF assms(2) [unfolded get_receiver_chain_def]]
  by (metis diff_zero nth_mem seeded_def)

lemma get_or_create_message_key_seed:
  assumes "seeded st" "hash_lengths E" and found: "get_receiver_chain st te = Ok (Some (c, i))"
    and step: "get_or_create_message_key E st te t ck n = Ok (g, st')"
  shows "\<exists>s k. g = Seed s k" and "seeded st'"
proof -
  note old = found_seeded [OF assms(1) found]
  have "(\<exists>s k. g = Seed s k) \<and> seeded st'"
    using found step
  proof (cases rule: get_or_create_message_key_cases)
    case (stored p)
    have "mk_seed (c_message_keys c ! p) \<noteq> []" using old stored(2) by simp
    then have "\<exists>s k. g = Seed s k" using stored(4) by (simp add: from_pb_def) auto
    then show ?thesis
      using stored(5) old set_remove_nth [of p "c_message_keys c"] assms(1)
      by (auto intro!: seeded_set_chain_at)
  next
    case ahead
    have "calculate_base_material E d s \<noteq> []" for d s
      using chain_seed_length [OF assms(2), of d s] by auto
    then have "\<forall>m \<in> set (skipped_keys E ck n). mk_seed m \<noteq> []"
      by (auto simp: skipped_keys_def chain_message_keys_def)
    then have "\<forall>m \<in> set (fold push_message_key (skipped_keys E ck n) (c_message_keys c)). mk_seed m \<noteq> []"
      using old by (intro message_key_buffer.push_many_all) auto
    then show ?thesis
      using ahead(3,4) assms(1) by (auto simp: chain_message_keys_def intro!: seeded_set_chain_at)
  qed
  then show "\<exists>s k. g = Seed s k" "seeded st'" by auto
qed

lemma get_or_create_message_key_no_panic:
  assumes "get_receiver_chain st te = Ok (Some (c, i))"
  shows "get_or_create_message_key E st te t ck n \<noteq> Panic"
proof (cases "n < chain_key_index ck")
  case True
  show ?thesis
    unfolding get_or_create_message_key_behind [OF assms True]
    by (auto simp: result_simps split: option.splits)
next
  case False
  then have le: "chain_key_index ck \<le> n" by simp
  show ?thesis
  proof (cases "jump_allowed st (chain_key_index ck) n")
    case True
    then show ?thesis by (simp add: get_or_create_message_key_ahead [OF assms le])
  next
    case far: False
    have "unat (n - chain_key_index ck) = unat n - unat (chain_key_index ck)" using le by (rule unat_sub)
    then show ?thesis
      using far le False session_with_self_no_panic [of st]
      by (cases "session_with_self st") (auto simp: get_or_create_message_key_def Let_def jump_allowed_def)
  qed
qed

lemma seeded_get_or_create_chain_key:
  assumes "seeded st" "get_or_create_chain_key E st te r = (Ok (ck, st1), r1)"
  shows "seeded st1"
proof -
  have add: "seeded (add_receiver_chain te k st0)" if "seeded st0" for k st0
    using that receiver_chain_buffer.push_subset
    by (fastforce simp: seeded_def add_receiver_chain_def)
  have frames: "seeded (set_sender_chain kp k st0) = seeded st0" "seeded (set_previous_counter n st0) = seeded st0"
    "seeded (set_root_key rk st0) = seeded st0" for kp k n rk st0
    by (simp_all add: seeded_def set_sender_chain_def set_previous_counter_def set_root_key_def)
  obtain kp r' where kp: "KeyPair_generate E r = (kp, r')" by fastforce
  obtain ex where ex: "get_receiver_chain_key st te = Ok ex"
    using assms(2) by (auto simp: get_or_create_chain_key_def result_simps)
  show ?thesis
    using assms kp ex add
    by (cases ex) (auto simp: get_or_create_chain_key_def Let_def result_simps frames)
qed

definition spqr_total :: "'r env \<Rightarrow> bool" where
  "spqr_total E \<longleftrightarrow> (\<forall>s m. spqr_recv E s m \<noteq> Panic) \<and> (\<forall>s r. fst (spqr_send E s r) \<noteq> Panic)"

lemma decrypt_message_with_state_no_panic:
  assumes "session_shape st" "seeded st" "public_key_ok (sm_sender_ratchet_key m)"
    "SIGNAL_MAC_LENGTH \<le> length (sm_serialized m)" "hash_lengths E" "spqr_total E"
  shows "decrypt_message_with_state E st m t r \<noteq> (Panic, r')"
proof
  assume "decrypt_message_with_state E st m t r = (Panic, r')"
  then obtain ck st1 where gc: "get_or_create_chain_key E st (sm_sender_ratchet_key m) r = (Ok (ck, st1), r')"
    and rest: "get_or_create_message_key E st1 (sm_sender_ratchet_key m) t ck (sm_counter m) = Panic \<or>
      (\<exists>g st2 key. get_or_create_message_key E st1 (sm_sender_ratchet_key m) t ck (sm_counter m) = Ok (g, st2) \<and>
        generate_keys E g key = (Panic :: (_, signal_error) result))"
    using assms(4,6) get_or_create_chain_key_no_panic [of E st _ r]
    by (auto simp: decrypt_message_with_state_def Let_def result_simps pq_ratchet_recv_def spqr_total_def
        verify_mac_no_panic split: if_splits)
  obtain c i where found: "get_receiver_chain st1 (sm_sender_ratchet_key m) = Ok (Some (c, i))"
    using assms(1,3,5) gc by (rule get_or_create_chain_key_shape)
  have "seeded st1" using assms(2) gc by (rule seeded_get_or_create_chain_key)
  with rest found assms(5) show False
    using get_or_create_message_key_no_panic [OF found, of E t ck "sm_counter m"]
      get_or_create_message_key_seed(1) [OF _ _ found] by fastforce
qed

subsection \<open>Which session decrypted\<close>

lemma try_previous_sessions_Some:
  "try_previous_sessions E m t idx ps r = (Ok (Some (ptext, j, st')), r') \<Longrightarrow>
   idx \<le> j \<and> j - idx < length ps \<and>
   (\<exists>st r0. ps ! (j - idx) = Ok st \<and> decrypt_message_with_state E st m t r0 = (Ok (ptext, st'), r'))"
proof (induction ps arbitrary: idx r)
  case (Cons p ps)
  obtain st where p: "p = Ok st" using Cons.prems by (cases p) auto
  obtain res r1 where d: "decrypt_message_with_state E st m t r = (res, r1)" by fastforce
  show ?case
  proof (cases res)
    case (Ok x)
    obtain ptext0 st0 where x: "x = (ptext0, st0)" by (cases x)
    show ?thesis using Cons.prems p d Ok x by (auto simp: result_simps)
  next
    case (Err e)
    then have "try_previous_sessions E m t (Suc idx) ps r1 = (Ok (Some (ptext, j, st')), r')"
      using Cons.prems p d by (auto split: if_splits)
    note ih = Cons.IH [OF this]
    then have "j - idx = Suc (j - Suc idx)" by linarith
    then show ?thesis using ih by simp
  qed (use Cons.prems p d in auto)
qed simp

lemma try_old_sessions_Ok:
  assumes "try_old_sessions E rec m t r = (Ok (ptext, rec'), r')"
  obtains i st st' r0 where "i < length (sr_previous_sessions rec)"
    "decode_previous E (sr_previous_sessions rec ! i) = Ok st"
    "decrypt_message_with_state E st m t r0 = (Ok (ptext, st'), r')"
    "promote_old_session E i st' rec = (Ok rec' :: (_, signal_error) result)"
proof -
  obtain i st' where "try_previous_sessions E m t 0 (previous_session_states E rec) r = (Ok (Some (ptext, i, st')), r')"
    and prom: "promote_old_session E i st' rec = (Ok rec' :: (_, signal_error) result)"
    using assms by (auto simp: try_old_sessions_def result_simps split: option.splits)
  from try_previous_sessions_Some [OF this(1)] prom show thesis
    using that by (auto simp: previous_session_states_def)
qed

lemma decrypt_message_with_record_cases:
  assumes "decrypt_message_with_record E rec m t r = (Ok (ptext, rec'), r')"
  obtains
    (current) st st' where "sr_current_session rec = Some st"
      "decrypt_message_with_state E st m t r = (Ok (ptext, st'), r')" "rec' = set_session_state st' rec"
  | (previous) i st st' r0 where "i < length (sr_previous_sessions rec)"
      "decode_previous E (sr_previous_sessions rec ! i) = Ok st"
      "decrypt_message_with_state E st m t r0 = (Ok (ptext, st'), r')"
      "promote_old_session E i st' rec = (Ok rec' :: (_, signal_error) result)"
proof (cases "sr_current_session rec")
  case None
  then have "try_old_sessions E rec m t r = (Ok (ptext, rec'), r')"
    using assms by (simp add: decrypt_message_with_record_def)
  then show thesis by (rule try_old_sessions_Ok) (rule previous)
next
  case (Some st)
  obtain res r1 where d: "decrypt_message_with_state E st m t r = (res, r1)" by fastforce
  show thesis
  proof (cases res)
    case (Ok x)
    then show thesis
      using assms Some d current [OF Some]
      by (cases x) (auto simp: decrypt_message_with_record_def result_simps)
  next
    case (Err e)
    then have "try_old_sessions E rec m t r1 = (Ok (ptext, rec'), r')"
      using assms Some d
      by (auto simp: decrypt_message_with_record_def split: if_splits ciphertext_message_type.splits)
    then show thesis by (rule try_old_sessions_Ok) (rule previous)
  qed (use assms Some d in \<open>auto simp: decrypt_message_with_record_def\<close>)
qed

text \<open>The session that decrypted a message, and the record that holds it.\<close>

definition used_in :: "signal_message \<Rightarrow> session_state \<Rightarrow> bool" where
  "used_in m st \<longleftrightarrow>
     session_version st = Ok (ucast (sm_message_version m)) \<and>
     (\<exists>c i. get_receiver_chain st (sm_sender_ratchet_key m) = Ok (Some (c, i)) \<and> consumed c (sm_counter m)) \<and>
     (\<exists>k. remote_identity_key st = Ok (Some k))"

lemma decrypt_message_with_state_used:
  assumes "session_ok st" "public_key_ok (sm_sender_ratchet_key m)" "hash_lengths E" "sm_counter m \<noteq> - 1"
    and dec: "decrypt_message_with_state E st m t r = (Ok (ptext, st'), r')"
  shows "session_ok st'" and "used_in m st'"
proof -
  have "session_version st = Ok (ucast (sm_message_version m))"
    using dec by (rule decrypt_message_with_state_cases)
  moreover obtain c i where *: "session_ok st'" "same_identity st st'"
    "get_receiver_chain st' (sm_sender_ratchet_key m) = Ok (Some (c, i))" "consumed c (sm_counter m)"
    "\<exists>k. remote_identity_key st' = Ok (Some k)"
    using decrypt_message_with_state_step [OF assms] by metis
  ultimately show "session_ok st'" "used_in m st'"
    using same_identityD(1) [OF *(2)] by (auto simp: used_in_def)
qed

lemma decrypt_message_with_record_step:
  assumes "codec_ok (session_codec E)" "record_ok E rec" "public_key_ok (sm_sender_ratchet_key m)"
    "hash_lengths E" "sm_counter m \<noteq> - 1"
    and dec: "decrypt_message_with_record E rec m t r = (Ok (ptext, rec'), r')"
  shows "record_ok E rec'" and "\<exists>st. sr_current_session rec' = Some st \<and> session_ok st \<and> used_in m st"
proof -
  have "record_ok E rec' \<and> (\<exists>st. sr_current_session rec' = Some st \<and> session_ok st \<and> used_in m st)"
    using dec
  proof (cases rule: decrypt_message_with_record_cases)
    case (current st st')
    then have "session_ok st" using assms(2) by (simp add: record_inv_def)
    note st' = decrypt_message_with_state_used [OF this assms(3-5) current(2)]
    then show ?thesis
      using current(3) assms(2) by (simp add: record_inv_set_session_state) (simp add: set_session_state_def)
  next
    case (previous i st st' r0)
    have "session_ok st" using record_inv_previous [OF assms(2) previous(1,2)] .
    note st' = decrypt_message_with_state_used [OF this assms(3-5) previous(3)]
    then show ?thesis
      using well_formed.record_promote_old_session [OF assms(1,2) st'(1) previous(4)]
        promote_old_session_current [OF previous(4)] by simp
  qed
  then show "record_ok E rec'" "\<exists>st. sr_current_session rec' = Some st \<and> session_ok st \<and> used_in m st"
    by auto
qed

text \<open>After a successful decryption the same message is a duplicate.\<close>

lemma decrypt_message_with_record_replay:
  assumes "codec_ok (session_codec E)" "record_ok E rec" "public_key_ok (sm_sender_ratchet_key m)"
    "hash_lengths E" "sm_counter m \<noteq> - 1"
    "decrypt_message_with_record E rec m t r = (Ok (ptext, rec'), r')"
  shows "\<exists>n. decrypt_message_with_record E rec' m t' s = (Err (DuplicatedMessage n (sm_counter m)), s)"
proof -
  obtain st where st: "sr_current_session rec' = Some st" "session_ok st" "used_in m st"
    using decrypt_message_with_record_step(2) [OF assms] by blast
  then obtain c i where "get_receiver_chain st (sm_sender_ratchet_key m) = Ok (Some (c, i))"
      "consumed c (sm_counter m)" "session_version st = Ok (ucast (sm_message_version m))"
    by (auto simp: used_in_def)
  from decrypt_consumed_is_duplicate [OF st(2) assms(3) this(3,1,2), of E t' s] st(1)
  show ?thesis by (auto simp: decrypt_message_with_record_def is_duplicated_def)
qed

subsection \<open>Healthy and sound sessions\<close>

text \<open>
  A healthy session is well-formed, stores seeds only and has a readable sender ratchet key. A sound session has at
  least the shape of a well-formed one. Decryption keeps sound sessions whatever the counter of the message, and
  healthy ones for every counter but the last.
\<close>

definition session_healthy :: "session_state \<Rightarrow> bool" where
  "session_healthy st \<longleftrightarrow> session_ok st \<and> seeded st \<and> is_ok (sender_ratchet_key st)"

definition session_sound :: "session_state \<Rightarrow> bool" where
  "session_sound st \<longleftrightarrow> session_shape st \<and> seeded st \<and> is_ok (sender_ratchet_key st)"

abbreviation record_healthy :: "'r env \<Rightarrow> session_record \<Rightarrow> bool" where
  "record_healthy E \<equiv> record_inv E session_healthy"

abbreviation record_sound :: "'r env \<Rightarrow> session_record \<Rightarrow> bool" where
  "record_sound E \<equiv> record_inv E session_sound"

lemma session_healthy_iff: "session_healthy st \<longleftrightarrow> session_sound st \<and> session_ok st"
  using session_ok_shape by (auto simp: session_healthy_def session_sound_def)

lemma record_healthy_ok: "record_healthy E rec \<Longrightarrow> record_ok E rec"
  by (erule record_inv_mono) (simp add: session_healthy_def)

lemma sender_key_get_or_create_chain_key:
  assumes "is_ok (sender_ratchet_key st)" "curve_lengths E" "rng_length E"
    "get_or_create_chain_key E st te r = (Ok (ck, st1), r1)"
  shows "is_ok (sender_ratchet_key st1)"
proof -
  obtain kp r' where kp: "KeyPair_generate E r = (kp, r')" by fastforce
  have "public_key_ok (kp_public_key kp)" using KeyPair_generate_ok(1) [OF assms(2,3), of r] kp by simp
  then have new: "is_ok (sender_ratchet_key (set_sender_chain kp k st0))" for k st0
    by (simp add: sender_ratchet_key_def set_sender_chain_def public_key_serde.de_ser)
  obtain ex where ex: "get_receiver_chain_key st te = Ok ex"
    using assms(4) by (auto simp: get_or_create_chain_key_def result_simps)
  show ?thesis
    using assms kp ex new
    by (cases ex) (auto simp: get_or_create_chain_key_def Let_def result_simps)
qed

lemma session_sound_decrypt:
  assumes "session_sound st" "public_key_ok (sm_sender_ratchet_key m)" "hash_lengths E" "curve_lengths E" "rng_length E"
    and dec: "decrypt_message_with_state E st m t r = (Ok (ptext, st'), r')"
  shows "session_sound st'"
  using dec
proof (cases rule: decrypt_message_with_state_cases)
  case (1 ck st1 g st2 pq key mk their_id our_id)
  have st: "session_shape st" "seeded st" "is_ok (sender_ratchet_key st)"
    using assms(1) by (simp_all add: session_sound_def)
  obtain c i where found: "session_shape st1" "get_receiver_chain st1 (sm_sender_ratchet_key m) = Ok (Some (c, i))"
    using st(1) assms(2,3) 1(3) by (rule get_or_create_chain_key_shape)
  have "seeded st1" using st(2) 1(3) by (rule seeded_get_or_create_chain_key)
  then have "seeded st2" using get_or_create_message_key_seed(2) [OF _ assms(3) found(2) 1(4)] by simp
  then have "seeded st'" by (simp add: 1(11) seeded_def clear_unacknowledged_pre_key_message_def)
  moreover obtain c' where "st2 = set_chain_at i c' st1"
    using found(1) assms(2,3) found(2) 1(4) by (rule get_or_create_message_key_shape)
  then have "sender_ratchet_key st' = sender_ratchet_key st1"
    by (simp add: 1(11) sender_ratchet_key_def clear_unacknowledged_pre_key_message_def set_chain_at_def)
  moreover have "is_ok (sender_ratchet_key st1)"
    using st(3) assms(4,5) 1(3) by (rule sender_key_get_or_create_chain_key)
  moreover have "session_shape st'" using decrypt_message_with_state_shape(1) [OF st(1) assms(2,3) dec] .
  ultimately show ?thesis by (simp add: session_sound_def)
qed

lemma session_healthy_decrypt:
  assumes "session_healthy st" "public_key_ok (sm_sender_ratchet_key m)" "hash_lengths E"
    "curve_lengths E" "rng_length E" "sm_counter m \<noteq> - 1"
    and dec: "decrypt_message_with_state E st m t r = (Ok (ptext, st'), r')"
  shows "session_healthy st'"
  using session_sound_decrypt [OF _ assms(2-5) dec] decrypt_message_with_state_used(1) [OF _ assms(2,3,6) dec] assms(1)
  by (simp add: session_healthy_iff)

subsection \<open>Sound records never panic\<close>

text \<open>The assumptions on the environment under which the receiving side is shown not to panic.\<close>

definition env_lengths :: "'r env \<Rightarrow> bool" where
  "env_lengths E \<longleftrightarrow> hash_lengths E \<and> curve_lengths E \<and> rng_length E \<and> spqr_total E"

definition message_ok :: "signal_message \<Rightarrow> bool" where
  "message_ok m \<longleftrightarrow> public_key_ok (sm_sender_ratchet_key m) \<and> SIGNAL_MAC_LENGTH \<le> length (sm_serialized m)"

lemma message_ok_parsed: "SignalMessage_try_from E v = Ok m \<Longrightarrow> message_ok m"
  using SignalMessage_try_from_OkD [of E v m] by (simp add: message_ok_def)

lemma log_base_key_healthy: "session_healthy st \<Longrightarrow> log_base_key E st = Ok ()"
  by (cases "sender_ratchet_key st") (auto simp: session_healthy_def log_base_key_def)

lemma sound_decrypt_no_panic:
  assumes "session_sound st" "env_lengths E" "message_ok m"
  shows "decrypt_message_with_state E st m t r \<noteq> (Panic, r')"
  using assms by (intro decrypt_message_with_state_no_panic)
    (auto simp: session_sound_def env_lengths_def message_ok_def)

lemma sound_decrypt_log:
  assumes "session_sound st" "env_lengths E" "message_ok m"
    and dec: "decrypt_message_with_state E st m t r = (Ok (ptext, st'), r')"
  shows "log_base_key E st' = Ok ()"
proof -
  have "session_sound st'"
    using session_sound_decrypt [OF assms(1) _ _ _ _ dec] assms(2,3) by (simp add: env_lengths_def message_ok_def)
  then show ?thesis by (cases "sender_ratchet_key st'") (auto simp: session_sound_def log_base_key_def)
qed

lemma try_previous_sessions_no_panic:
  assumes "env_lengths E" "message_ok m" "Panic \<notin> set ps" "\<forall>st. Ok st \<in> set ps \<longrightarrow> session_sound st"
  shows "try_previous_sessions E m t idx ps r \<noteq> (Panic, r')"
  using assms(3,4)
proof (induction ps arbitrary: idx r)
  case (Cons p ps)
  show ?case
  proof (cases p)
    case (Ok st)
    then have st: "session_sound st" using Cons.prems by simp
    obtain res r1 where d: "decrypt_message_with_state E st m t r = (res, r1)" by fastforce
    show ?thesis
    proof (cases res)
      case res: (Ok x)
      obtain pt st' where x: "x = (pt, st')" by (cases x)
      then show ?thesis using Ok d res sound_decrypt_log [OF st assms(1,2)] by simp
    next
      case (Err e)
      then show ?thesis using Ok d Cons.IH Cons.prems by auto
    next
      case Panic
      then show ?thesis using d sound_decrypt_no_panic [OF st assms(1,2)] by simp
    qed
  qed (use Cons.prems in auto)
qed simp

lemma try_old_sessions_no_panic:
  assumes "env_lengths E" "message_ok m" "record_sound E rec"
  shows "try_old_sessions E rec m t r \<noteq> (Panic, r')"
proof -
  let ?ps = "previous_session_states E rec"
  have "Panic \<notin> set ?ps"
    by (metis decode_previous_no_panic imageE list.set_map previous_session_states_def)
  moreover have "\<forall>st. Ok st \<in> set ?ps \<longrightarrow> session_sound st"
    using assms(3) by (auto simp: previous_session_states_def record_inv_def archived_inv_def)
  ultimately have np: "try_previous_sessions E m t 0 ?ps r \<noteq> (Panic, r')"
    by (rule try_previous_sessions_no_panic [OF assms(1,2)])
  have "promote_old_session E i st' rec \<noteq> (Panic :: (_, signal_error) result)"
    if "try_previous_sessions E m t 0 ?ps r = (Ok (Some (ptext, i, st')), r')" for ptext i st'
    using try_previous_sessions_Some [OF that] by (simp add: promote_old_session_def previous_session_states_def)
  then show ?thesis
    using np by (auto simp: try_old_sessions_def result_simps split: option.splits)
qed

lemma decrypt_message_with_record_no_panic:
  assumes "env_lengths E" "message_ok m" "record_sound E rec" "t \<in> {Whisper, PreKey}"
  shows "fst (decrypt_message_with_record E rec m t r) \<noteq> Panic"
proof (cases "sr_current_session rec")
  case None
  then show ?thesis
    using try_old_sessions_no_panic [OF assms(1-3)]
    by (simp add: decrypt_message_with_record_def) (metis prod.collapse)
next
  case (Some st)
  have st: "session_sound st" using assms(3) Some by (rule record_inv_current)
  obtain res r1 where d: "decrypt_message_with_state E st m t r = (res, r1)" by fastforce
  have old: "fst (try_old_sessions E rec m t r1) \<noteq> Panic"
    using try_old_sessions_no_panic [OF assms(1-3)] by (metis prod.collapse)
  show ?thesis
  proof (cases res)
    case (Ok x)
    obtain pt st' where x: "x = (pt, st')" by (cases x)
    then show ?thesis
      using Some d Ok sound_decrypt_log [OF st assms(1,2)] by (simp add: decrypt_message_with_record_def)
  next
    case (Err e)
    then show ?thesis using Some d old assms(4) by (auto simp: decrypt_message_with_record_def)
  next
    case Panic
    then show ?thesis using d sound_decrypt_no_panic [OF st assms(1,2)] by simp
  qed
qed

text \<open>After a decryption the session that decrypted is current and knows the peer.\<close>

lemma decrypt_message_with_record_remote:
  assumes "env_lengths E" "message_ok m" "record_sound E rec"
    "decrypt_message_with_record E rec m t r = (Ok (ptext, rec'), r')"
  shows "\<exists>st k. sr_current_session rec' = Some st \<and> remote_identity_key st = Ok (Some k)"
proof -
  have known: "\<exists>k. remote_identity_key st' = Ok (Some k)"
    if "session_sound st" "decrypt_message_with_state E st m t r0 = (Ok (ptext, st'), r')" for st st' r0
    using decrypt_message_with_state_shape(2) [OF _ _ _ that(2)] that(1) assms(1,2)
    by (simp add: session_sound_def env_lengths_def message_ok_def)
  show ?thesis
    using assms(4)
  proof (cases rule: decrypt_message_with_record_cases)
    case (current st st')
    then show ?thesis using known record_inv_current [OF assms(3)] by (simp add: set_session_state_def)
  next
    case (previous i st st' r0)
    then show ?thesis using known record_inv_previous [OF assms(3)] promote_old_session_current by blast
  qed
qed

end
