(* ===== verification/Sender_Keys.thy ===== *)
theory Sender_Keys
  imports Curve Crypto
begin

text \<open>
  \<open>rust/protocol/src/sender_keys.rs\<close>: the sender chain key with its checked counter, the
  per-message keys, the state of one sender chain and the record of up to
  \<open>MAX_SENDER_KEY_STATES\<close> states. \<open>SenderKeyState\<close> wraps its protobuf structure and is represented
  by it.
\<close>

record sender_message_key =
  smsg_iteration :: u32
  smsg_iv :: bytes
  smsg_cipher_key :: bytes
  smsg_seed :: bytes

record sender_chain_key =
  sch_iteration :: u32
  sch_chain_key :: bytes

type_synonym sender_key_state = sender_key_state_structure

record sender_key_record =
  skrec_states :: "sender_key_state list"

definition SenderMessageKey_new :: "'r env \<Rightarrow> u32 \<Rightarrow> bytes \<Rightarrow> sender_message_key" where
  "SenderMessageKey_new E iteration seed =
     (let derived = hkdf_sha256 E None seed (ascii ''WhisperGroup'') 48
      in \<lparr>smsg_iteration = iteration, smsg_iv = take 16 derived,
          smsg_cipher_key = take 32 (drop 16 derived), smsg_seed = seed\<rparr>)"

definition SenderMessageKey_from_protobuf :: "'r env \<Rightarrow> pb_sender_message_key \<Rightarrow> sender_message_key" where
  "SenderMessageKey_from_protobuf E smk = SenderMessageKey_new E (smk_iteration smk) (smk_seed smk)"

definition SenderMessageKey_as_protobuf :: "sender_message_key \<Rightarrow> pb_sender_message_key" where
  "SenderMessageKey_as_protobuf k = \<lparr>smk_iteration = smsg_iteration k, smk_seed = smsg_seed k\<rparr>"

definition get_derivative :: "'r env \<Rightarrow> sender_chain_key \<Rightarrow> u8 \<Rightarrow> bytes" where
  "get_derivative E ck label = hmac_sha256 E (sch_chain_key ck) [label]"

definition SenderChainKey_next :: "'r env \<Rightarrow> sender_chain_key \<Rightarrow> (sender_chain_key, signal_error) result" where
  "SenderChainKey_next E ck =
     (if sch_iteration ck = - 1 then Err (InvalidState ''sender_chain_key_next'' ''Sender chain is too long'')
      else Ok \<lparr>sch_iteration = sch_iteration ck + 1, sch_chain_key = get_derivative E ck 0x02\<rparr>)"

definition sender_message_key_of :: "'r env \<Rightarrow> sender_chain_key \<Rightarrow> sender_message_key" where
  "sender_message_key_of E ck = SenderMessageKey_new E (sch_iteration ck) (get_derivative E ck 0x01)"

definition SenderChainKey_as_protobuf :: "sender_chain_key \<Rightarrow> pb_sender_chain_key" where
  "SenderChainKey_as_protobuf ck = \<lparr>sck_iteration = sch_iteration ck, sck_seed = sch_chain_key ck\<rparr>"

subsection \<open>\<open>SenderKeyState\<close>\<close>

definition SenderKeyState_new ::
    "u8 \<Rightarrow> u32 \<Rightarrow> u32 \<Rightarrow> bytes \<Rightarrow> public_key \<Rightarrow> private_key option \<Rightarrow> sender_key_state" where
  "SenderKeyState_new message_version chain_id iteration chain_key signature_key signature_private_key =
     \<lparr>sks_message_version = ucast message_version,
      sks_chain_id = chain_id,
      sks_sender_chain_key = Some (SenderChainKey_as_protobuf
        \<lparr>sch_iteration = iteration, sch_chain_key = chain_key\<rparr>),
      sks_sender_signing_key = Some
        \<lparr>ssk_public = PublicKey_serialize signature_key,
         ssk_private = (case signature_private_key of None \<Rightarrow> [] | Some k \<Rightarrow> PrivateKey_serialize k)\<rparr>,
      sks_sender_message_keys = []\<rparr>"

definition state_message_version :: "sender_key_state \<Rightarrow> u32" where
  "state_message_version st = (if sks_message_version st = 0 then 3 else sks_message_version st)"

definition state_sender_chain_key :: "sender_key_state \<Rightarrow> sender_chain_key option" where
  "state_sender_chain_key st =
     map_option (\<lambda>c. \<lparr>sch_iteration = sck_iteration c, sch_chain_key = sck_seed c\<rparr>) (sks_sender_chain_key st)"

definition set_state_chain_key :: "sender_chain_key \<Rightarrow> sender_key_state \<Rightarrow> sender_key_state" where
  "set_state_chain_key ck st = st\<lparr>sks_sender_chain_key := Some (SenderChainKey_as_protobuf ck)\<rparr>"

definition signing_key_public :: "sender_key_state \<Rightarrow> (public_key, string) result" where
  "signing_key_public st =
     (case sks_sender_signing_key st of
        Some k \<Rightarrow> map_err (\<lambda>_. ''invalid public signing key'') (PublicKey_deserialize (ssk_public k))
      | None \<Rightarrow> Err ''missing signing key'')"

definition signing_key_private :: "'r env \<Rightarrow> sender_key_state \<Rightarrow> (private_key, string) result" where
  "signing_key_private E st =
     (case sks_sender_signing_key st of
        Some k \<Rightarrow> map_err (\<lambda>_. ''invalid private signing key'') (PrivateKey_deserialize E (ssk_private k))
      | None \<Rightarrow> Err ''missing signing key'')"

text \<open>The loop \<open>while v.len() > cap { v.remove(0); }\<close>.\<close>

function trim_front :: "nat \<Rightarrow> 'a list \<Rightarrow> 'a list" where
  "trim_front cap v = (if length v > cap then trim_front cap (remove_nth 0 v) else v)"
  by pat_completeness auto
termination
  by (relation "measure (\<lambda>(cap, v). length v)")
    (auto simp: remove_nth_def)

declare trim_front.simps [simp del]

definition push_sender_message_key ::
    "pb_sender_message_key \<Rightarrow> pb_sender_message_key list \<Rightarrow> pb_sender_message_key list" where
  "push_sender_message_key k ks = trim_front MAX_MESSAGE_KEYS (ks @ [k])"

definition add_sender_message_key :: "sender_message_key \<Rightarrow> sender_key_state \<Rightarrow> sender_key_state" where
  "add_sender_message_key k st =
     st\<lparr>sks_sender_message_keys :=
          push_sender_message_key (SenderMessageKey_as_protobuf k) (sks_sender_message_keys st)\<rparr>"

definition remove_sender_message_key ::
    "'r env \<Rightarrow> u32 \<Rightarrow> sender_key_state \<Rightarrow> sender_message_key option \<times> sender_key_state" where
  "remove_sender_message_key E iteration st =
     (case position (\<lambda>x. smk_iteration x = iteration) (sks_sender_message_keys st) of
        Some index \<Rightarrow>
          (Some (SenderMessageKey_from_protobuf E (sks_sender_message_keys st ! index)),
           st\<lparr>sks_sender_message_keys := remove_nth index (sks_sender_message_keys st)\<rparr>)
      | None \<Rightarrow> (None, st))"

subsection \<open>\<open>SenderKeyRecord\<close>\<close>

definition SenderKeyRecord_new_empty :: sender_key_record where
  "SenderKeyRecord_new_empty = \<lparr>skrec_states = []\<rparr>"

definition SenderKeyRecord_deserialize :: "'r env \<Rightarrow> bytes \<Rightarrow> (sender_key_record, signal_error) result" where
  "SenderKeyRecord_deserialize E buf =
     bindR (ok_or InvalidProtobufEncoding (decode (sender_key_record_codec E) buf)) (\<lambda>skr.
     Ok \<lparr>skrec_states = skr_sender_key_states skr\<rparr>)"

definition SenderKeyRecord_serialize :: "'r env \<Rightarrow> sender_key_record \<Rightarrow> bytes" where
  "SenderKeyRecord_serialize E rec =
     encode (sender_key_record_codec E) \<lparr>skr_sender_key_states = skrec_states rec\<rparr>"

definition record_sender_key_state :: "sender_key_record \<Rightarrow> (sender_key_state, string) result" where
  "record_sender_key_state rec =
     (case skrec_states rec of st # _ \<Rightarrow> Ok st | [] \<Rightarrow> Err ''empty sender key state'')"

text \<open>The index of the first state with the chain id; the sources return a reference into the deque.\<close>

definition sender_key_state_for_chain_id :: "sender_key_record \<Rightarrow> u32 \<Rightarrow> (nat \<times> sender_key_state) option" where
  "sender_key_state_for_chain_id rec chain_id =
     map_option (\<lambda>i. (i, skrec_states rec ! i))
       (position (\<lambda>st. sks_chain_id st = chain_id) (skrec_states rec))"

definition remove_state ::
    "u32 \<Rightarrow> public_key \<Rightarrow> sender_key_state list \<Rightarrow> sender_key_state option \<times> sender_key_state list" where
  "remove_state chain_id signature_key sts =
     (case position (\<lambda>st. sks_chain_id st = chain_id \<and> ok_opt (signing_key_public st) = Some signature_key) sts of
        None \<Rightarrow> (None, sts)
      | Some index \<Rightarrow> (Some (sts ! index), remove_nth index sts))"

definition remove_states_with_chain_id :: "u32 \<Rightarrow> sender_key_state list \<Rightarrow> nat \<times> sender_key_state list" where
  "remove_states_with_chain_id chain_id sts =
     (let sts' = filter (\<lambda>st. sks_chain_id st \<noteq> chain_id) sts in (length sts - length sts', sts'))"

text \<open>The loop \<open>while v.len() >= cap { v.pop_back(); }\<close>; it ends because \<open>pop_back\<close> shortens the deque.\<close>

function trim_back :: "nat \<Rightarrow> 'a list \<Rightarrow> 'a list" where
  "trim_back cap v = (if length v \<ge> cap \<and> v \<noteq> [] then trim_back cap (butlast v) else v)"
  by pat_completeness auto
termination
  by (relation "measure (\<lambda>(cap, v). length v)") auto

declare trim_back.simps [simp del]

definition push_sender_key_state :: "sender_key_state \<Rightarrow> sender_key_state list \<Rightarrow> sender_key_state list" where
  "push_sender_key_state st sts = st # trim_back MAX_SENDER_KEY_STATES sts"

definition add_sender_key_state ::
    "u8 \<Rightarrow> u32 \<Rightarrow> u32 \<Rightarrow> bytes \<Rightarrow> public_key \<Rightarrow> private_key option \<Rightarrow> sender_key_record \<Rightarrow> sender_key_record" where
  "add_sender_key_state message_version chain_id iteration chain_key signature_key signature_private_key rec =
     (let (existing_state, sts1) = remove_state chain_id signature_key (skrec_states rec);
          (removed, sts2) = remove_states_with_chain_id chain_id sts1;
          state = (case existing_state of
                     None \<Rightarrow> SenderKeyState_new message_version chain_id iteration chain_key signature_key
                               signature_private_key
                   | Some st \<Rightarrow> st)
      in rec\<lparr>skrec_states := push_sender_key_state state sts2\<rparr>)"

subsection \<open>The trimming loops\<close>

lemma trim_front_drop: "trim_front cap v = drop (length v - cap) v"
proof (induction cap v rule: trim_front.induct)
  case (1 cap v)
  show ?case
  proof (cases "length v > cap")
    case True
    then have "trim_front cap v = drop (length (tl v) - cap) (tl v)"
      using 1 by (simp add: trim_front.simps [of cap v] remove_nth_def drop_Suc)
    then show ?thesis using True by (cases v) (simp_all add: Suc_diff_le)
  qed (simp add: trim_front.simps [of cap v])
qed

lemma trim_back_take: "0 < cap \<Longrightarrow> trim_back cap v = take (cap - 1) v"
proof (induction cap v rule: trim_back.induct)
  case (1 cap v)
  show ?case
  proof (cases "length v \<ge> cap \<and> v \<noteq> []")
    case True
    then have "trim_back cap v = take (cap - 1) (butlast v)"
      using 1 by (simp add: trim_back.simps [of cap v])
    then show ?thesis using True 1(2) by (simp add: butlast_conv_take min_absorb1 diff_le_mono)
  next
    case False
    then show ?thesis using 1(2) by (auto simp: trim_back.simps [of cap v])
  qed
qed

interpretation sender_message_key_buffer:
  bounded_buffer push_sender_message_key MAX_MESSAGE_KEYS smk_iteration
proof
  fix x :: pb_sender_message_key and xs
  have eq: "push_sender_message_key x xs = drop (Suc (length xs) - MAX_MESSAGE_KEYS) xs @ [x]"
    by (simp add: push_sender_message_key_def trim_front_drop MAX_MESSAGE_KEYS_def)
  show "x \<in> set (push_sender_message_key x xs)" by (simp add: eq)
  show "set (push_sender_message_key x xs) \<subseteq> insert x (set xs)"
    using set_drop_subset by (fastforce simp: eq)
  show "length (push_sender_message_key x xs) \<le> MAX_MESSAGE_KEYS" if "length xs \<le> MAX_MESSAGE_KEYS"
    using that by (simp add: eq MAX_MESSAGE_KEYS_def)
  show "set (push_sender_message_key x xs) = insert x (set xs)" if "length xs < MAX_MESSAGE_KEYS"
    using that by (simp add: eq)
  show "distinct (map smk_iteration (push_sender_message_key x xs))"
    if "distinct (map smk_iteration xs)" "smk_iteration x \<notin> smk_iteration ` set xs"
    using that by (auto simp: eq drop_map [symmetric] dest: in_set_dropD)
qed

interpretation sender_key_state_buffer:
  bounded_buffer push_sender_key_state MAX_SENDER_KEY_STATES sks_chain_id
proof
  fix x :: sender_key_state and xs
  have eq: "push_sender_key_state x xs = x # take (MAX_SENDER_KEY_STATES - 1) xs"
    by (simp add: push_sender_key_state_def trim_back_take)
  show "x \<in> set (push_sender_key_state x xs)" by (simp add: eq)
  show "set (push_sender_key_state x xs) \<subseteq> insert x (set xs)"
    using set_take_subset by (fastforce simp: eq)
  show "length (push_sender_key_state x xs) \<le> MAX_SENDER_KEY_STATES" if "length xs \<le> MAX_SENDER_KEY_STATES"
    using that by (simp add: eq MAX_SENDER_KEY_STATES_def)
  show "set (push_sender_key_state x xs) = insert x (set xs)" if "length xs < MAX_SENDER_KEY_STATES"
    using that by (simp add: eq MAX_SENDER_KEY_STATES_def)
  show "distinct (map sks_chain_id (push_sender_key_state x xs))"
    if "distinct (map sks_chain_id xs)" "sks_chain_id x \<notin> sks_chain_id ` set xs"
    using that by (auto simp: eq take_map [symmetric] dest: in_set_takeD)
qed

interpretation sender_key_record_serde:
  serde "SenderKeyRecord_serialize E" "SenderKeyRecord_deserialize E" "\<lambda>_. codec_ok (sender_key_record_codec E)"
  for E
  by unfold_locales (simp add: SenderKeyRecord_serialize_def SenderKeyRecord_deserialize_def)

subsection \<open>The record invariant\<close>

text \<open>
  Stored message keys have distinct iterations below that of the chain key and stay below the
  cap; a record has at most \<open>MAX_SENDER_KEY_STATES\<close> states, with distinct chain ids.
\<close>

definition sender_state_ok :: "sender_key_state \<Rightarrow> bool" where
  "sender_state_ok st \<longleftrightarrow>
     length (sks_sender_message_keys st) \<le> MAX_MESSAGE_KEYS \<and>
     distinct (map smk_iteration (sks_sender_message_keys st)) \<and>
     (\<exists>ck. sks_sender_chain_key st = Some ck \<and>
       (\<forall>k \<in> set (sks_sender_message_keys st). smk_iteration k < sck_iteration ck))"

definition sender_record_ok :: "sender_key_record \<Rightarrow> bool" where
  "sender_record_ok rec \<longleftrightarrow>
     length (skrec_states rec) \<le> MAX_SENDER_KEY_STATES \<and>
     distinct (map sks_chain_id (skrec_states rec)) \<and>
     (\<forall>st \<in> set (skrec_states rec). sender_state_ok st)"

lemma SenderKeyState_new_ok: "sender_state_ok (SenderKeyState_new v c i ck pk sk)"
  by (simp add: sender_state_ok_def SenderKeyState_new_def)

lemma sender_record_ok_empty: "sender_record_ok SenderKeyRecord_new_empty"
  by (simp add: sender_record_ok_def SenderKeyRecord_new_empty_def)

lemma remove_state_cases:
  obtains (none) "remove_state cid pk sts = (None, sts)"
      "\<forall>st \<in> set sts. \<not> (sks_chain_id st = cid \<and> ok_opt (signing_key_public st) = Some pk)"
  | (some) i where "i < length sts" "remove_state cid pk sts = (Some (sts ! i), remove_nth i sts)"
      "sks_chain_id (sts ! i) = cid" "ok_opt (signing_key_public (sts ! i)) = Some pk"
proof (cases "position (\<lambda>st. sks_chain_id st = cid \<and> ok_opt (signing_key_public st) = Some pk) sts")
  case None
  then have "remove_state cid pk sts = (None, sts)" by (simp add: remove_state_def)
  then show thesis using None none unfolding position_None by blast
next
  case (Some i)
  then have "remove_state cid pk sts = (Some (sts ! i), remove_nth i sts)" by (simp add: remove_state_def)
  then show thesis using Some some [of i] unfolding position_Some by blast
qed

text \<open>What the record holds after adding a state: that state first, and no other with its chain id.\<close>

lemma add_sender_key_state_spec:
  obtains st rest where
    "skrec_states (add_sender_key_state v cid it ck pk sk rec) = push_sender_key_state st rest"
    "sks_chain_id st = cid" "set rest \<subseteq> {s \<in> set (skrec_states rec). sks_chain_id s \<noteq> cid}"
    "length rest \<le> length (skrec_states rec)"
    "distinct (map sks_chain_id (skrec_states rec)) \<Longrightarrow> distinct (map sks_chain_id rest)"
    "st \<in> set (skrec_states rec) \<and> ok_opt (signing_key_public st) = Some pk \<or>
     st = SenderKeyState_new v cid it ck pk sk \<and>
       (\<forall>s \<in> set (skrec_states rec). \<not> (sks_chain_id s = cid \<and> ok_opt (signing_key_public s) = Some pk))"
proof (cases rule: remove_state_cases [of cid pk "skrec_states rec"])
  case none
  show thesis
    by (rule that [of "SenderKeyState_new v cid it ck pk sk"
          "filter (\<lambda>st. sks_chain_id st \<noteq> cid) (skrec_states rec)"])
      (use none in \<open>auto simp: add_sender_key_state_def remove_states_with_chain_id_def Let_def
          SenderKeyState_new_def distinct_map_filter\<close>)
next
  case (some i)
  let ?rest = "filter (\<lambda>st. sks_chain_id st \<noteq> cid) (remove_nth i (skrec_states rec))"
  have "length ?rest \<le> length (remove_nth i (skrec_states rec))" by (rule length_filter_le)
  then have "length ?rest \<le> length (skrec_states rec)" using some(1) by (simp add: length_remove_nth)
  moreover have "distinct (map sks_chain_id ?rest)" if "distinct (map sks_chain_id (skrec_states rec))"
    using distinct_remove_nth [OF that, of i] by (simp add: map_remove_nth [symmetric] distinct_map_filter)
  ultimately show thesis
    using some set_remove_nth [of i "skrec_states rec"]
    by (intro that [of "skrec_states rec ! i" ?rest])
      (auto simp: add_sender_key_state_def remove_states_with_chain_id_def Let_def)
qed

lemma sender_record_ok_add:
  assumes "sender_record_ok rec"
  shows "sender_record_ok (add_sender_key_state v cid it ck pk sk rec)"
proof -
  obtain st rest where a: "skrec_states (add_sender_key_state v cid it ck pk sk rec) = push_sender_key_state st rest"
    "sks_chain_id st = cid" "set rest \<subseteq> {s \<in> set (skrec_states rec). sks_chain_id s \<noteq> cid}"
    "length rest \<le> length (skrec_states rec)" "distinct (map sks_chain_id rest)"
    "st \<in> set (skrec_states rec) \<or> st = SenderKeyState_new v cid it ck pk sk"
    using assms by (auto simp: sender_record_ok_def intro: add_sender_key_state_spec [of v cid it ck pk sk rec])
  have "\<forall>s \<in> set rest. sender_state_ok s" using a(3) assms by (auto simp: sender_record_ok_def)
  moreover have "sender_state_ok st"
    using a(6) assms SenderKeyState_new_ok by (auto simp: sender_record_ok_def)
  ultimately have "\<forall>s \<in> set (push_sender_key_state st rest). sender_state_ok s"
    by (rule sender_key_state_buffer.push_all)
  moreover have "sks_chain_id st \<notin> sks_chain_id ` set rest" using a(2,3) by auto
  then have "distinct (map sks_chain_id (push_sender_key_state st rest))"
    using a(5) sender_key_state_buffer.push_distinct by blast
  moreover have "length (push_sender_key_state st rest) \<le> MAX_SENDER_KEY_STATES"
    using a(4) assms by (intro sender_key_state_buffer.push_bound) (simp add: sender_record_ok_def)
  ultimately show ?thesis using a(1) by (simp add: sender_record_ok_def)
qed

text \<open>The states in full: the first one with chain id and signing key is reused, the others with the chain id are dropped.\<close>

lemma position_find: "map_option ((!) xs) (position P xs) = find P xs"
  by (induction xs) (auto simp: option.map_comp comp_def)

lemma filter_remove_nth:
  assumes "i < length xs" "\<not> Q (xs ! i)"
  shows "filter Q (remove_nth i xs) = filter Q xs"
proof -
  have "filter Q xs = filter Q (take i xs @ xs ! i # drop (Suc i) xs)" using assms(1) by (simp add: id_take_nth_drop [symmetric])
  then show ?thesis using assms(2) by (simp add: remove_nth_def)
qed

lemma add_sender_key_state_eq:
  "skrec_states (add_sender_key_state v cid it ck pk sk rec) =
     (case find (\<lambda>s. sks_chain_id s = cid \<and> ok_opt (signing_key_public s) = Some pk) (skrec_states rec) of
        Some s \<Rightarrow> s | None \<Rightarrow> SenderKeyState_new v cid it ck pk sk) #
     take (MAX_SENDER_KEY_STATES - 1) (filter (\<lambda>s. sks_chain_id s \<noteq> cid) (skrec_states rec))"
proof (cases "position (\<lambda>s. sks_chain_id s = cid \<and> ok_opt (signing_key_public s) = Some pk) (skrec_states rec)")
  case None
  then have "find (\<lambda>s. sks_chain_id s = cid \<and> ok_opt (signing_key_public s) = Some pk) (skrec_states rec) = None"
    by (simp flip: position_find)
  then show ?thesis
    using None by (simp add: add_sender_key_state_def remove_state_def remove_states_with_chain_id_def Let_def
        push_sender_key_state_def trim_back_take)
next
  case (Some i)
  then have "find (\<lambda>s. sks_chain_id s = cid \<and> ok_opt (signing_key_public s) = Some pk) (skrec_states rec) =
      Some (skrec_states rec ! i)"
    by (simp flip: position_find)
  moreover have "i < length (skrec_states rec)" "sks_chain_id (skrec_states rec ! i) = cid"
    using Some by (simp_all add: position_Some)
  ultimately show ?thesis
    using Some by (simp add: add_sender_key_state_def remove_state_def remove_states_with_chain_id_def Let_def
        push_sender_key_state_def trim_back_take filter_remove_nth)
qed

lemma add_sender_key_state_first:
  assumes "st = (case find (\<lambda>s. sks_chain_id s = cid \<and> ok_opt (signing_key_public s) = Some pk) (skrec_states rec) of
      Some s \<Rightarrow> s | None \<Rightarrow> SenderKeyState_new v cid it ck pk sk)"
  shows "sender_key_state_for_chain_id (add_sender_key_state v cid it ck pk sk rec) cid = Some (0, st)"
proof -
  have "sks_chain_id st = cid"
  proof (cases "find (\<lambda>s. sks_chain_id s = cid \<and> ok_opt (signing_key_public s) = Some pk) (skrec_states rec)")
    case None
    then show ?thesis by (simp add: assms SenderKeyState_new_def)
  next
    case (Some s)
    then have "sks_chain_id s = cid" by (auto simp: find_Some_iff)
    then show ?thesis by (simp add: assms Some)
  qed
  then show ?thesis
    unfolding sender_key_state_for_chain_id_def add_sender_key_state_eq assms [symmetric] by simp
qed

end
