(* ===== verification/Prekeys.thy ===== *)
theory Prekeys
  imports Identity_Key Kem
begin

text \<open>
  \<open>rust/protocol/src/state/prekey.rs\<close>, \<open>signed_prekey.rs\<close>, \<open>kyber_prekey.rs\<close> and \<open>bundle.rs\<close>: the
  stored pre-key records, represented by the protobuf structures they wrap, and the pre-key
  bundle with its optional-field form. Methods that only read a field are the record selectors.
\<close>

type_synonym pre_key_record = pre_key_record_structure
type_synonym signed_pre_key_record = signed_pre_key_record_structure
type_synonym kyber_pre_key_record = signed_pre_key_record_structure

subsection \<open>Records\<close>

definition PreKeyRecord_new :: "pre_key_id \<Rightarrow> key_pair \<Rightarrow> pre_key_record" where
  "PreKeyRecord_new i key =
     \<lparr>pkr_id = i, pkr_public_key = PublicKey_serialize (kp_public_key key),
      pkr_private_key = PrivateKey_serialize (kp_private_key key)\<rparr>"

definition PreKeyRecord_deserialize :: "'r env \<Rightarrow> bytes \<Rightarrow> (pre_key_record, signal_error) result" where
  "PreKeyRecord_deserialize E v = ok_or InvalidProtobufEncoding (decode (pre_key_record_codec E) v)"

definition PreKeyRecord_serialize :: "'r env \<Rightarrow> pre_key_record \<Rightarrow> bytes" where
  "PreKeyRecord_serialize E p = encode (pre_key_record_codec E) p"

definition PreKeyRecord_key_pair :: "'r env \<Rightarrow> pre_key_record \<Rightarrow> (key_pair, signal_error) result" where
  "PreKeyRecord_key_pair E p =
     map_err from_curve_error (KeyPair_from_public_and_private E (pkr_public_key p) (pkr_private_key p))"

definition PreKeyRecord_public_key :: "pre_key_record \<Rightarrow> (public_key, signal_error) result" where
  "PreKeyRecord_public_key p = map_err from_curve_error (PublicKey_deserialize (pkr_public_key p))"

definition PreKeyRecord_private_key :: "'r env \<Rightarrow> pre_key_record \<Rightarrow> (private_key, signal_error) result" where
  "PreKeyRecord_private_key E p = map_err from_curve_error (PrivateKey_deserialize E (pkr_private_key p))"

text \<open>\<open>GenericSignedPreKey\<close> for the two key pair types.\<close>

definition SignedPreKeyRecord_new ::
    "signed_pre_key_id \<Rightarrow> timestamp \<Rightarrow> key_pair \<Rightarrow> bytes \<Rightarrow> signed_pre_key_record" where
  "SignedPreKeyRecord_new i ts key signature =
     \<lparr>spk_id = i, spk_public_key = PublicKey_serialize (kp_public_key key),
      spk_private_key = PrivateKey_serialize (kp_private_key key), spk_signature = signature,
      spk_timestamp = ts\<rparr>"

definition KyberPreKeyRecord_new ::
    "kyber_pre_key_id \<Rightarrow> timestamp \<Rightarrow> kem_key_pair \<Rightarrow> bytes \<Rightarrow> kyber_pre_key_record" where
  "KyberPreKeyRecord_new i ts key signature =
     \<lparr>spk_id = i, spk_public_key = kem_Key_serialize (kkp_public_key key),
      spk_private_key = kem_Key_serialize (kkp_secret_key key), spk_signature = signature,
      spk_timestamp = ts\<rparr>"

definition SignedPreKey_serialize :: "'r env \<Rightarrow> signed_pre_key_record_structure \<Rightarrow> bytes" where
  "SignedPreKey_serialize E p = encode (signed_pre_key_record_codec E) p"

definition SignedPreKey_deserialize ::
    "'r env \<Rightarrow> bytes \<Rightarrow> (signed_pre_key_record_structure, signal_error) result" where
  "SignedPreKey_deserialize E v = ok_or InvalidProtobufEncoding (decode (signed_pre_key_record_codec E) v)"

definition SignedPreKeyRecord_key_pair :: "'r env \<Rightarrow> signed_pre_key_record \<Rightarrow> (key_pair, signal_error) result" where
  "SignedPreKeyRecord_key_pair E p =
     map_err from_curve_error (KeyPair_from_public_and_private E (spk_public_key p) (spk_private_key p))"

definition SignedPreKeyRecord_public_key :: "signed_pre_key_record \<Rightarrow> (public_key, signal_error) result" where
  "SignedPreKeyRecord_public_key p = map_err from_curve_error (PublicKey_deserialize (spk_public_key p))"

definition SignedPreKeyRecord_private_key ::
    "'r env \<Rightarrow> signed_pre_key_record \<Rightarrow> (private_key, signal_error) result" where
  "SignedPreKeyRecord_private_key E p = map_err from_curve_error (PrivateKey_deserialize E (spk_private_key p))"

definition KyberPreKeyRecord_key_pair :: "kyber_pre_key_record \<Rightarrow> (kem_key_pair, signal_error) result" where
  "KyberPreKeyRecord_key_pair p = kem_KeyPair_from_public_and_private (spk_public_key p) (spk_private_key p)"

definition KyberPreKeyRecord_public_key :: "kyber_pre_key_record \<Rightarrow> (kem_key, signal_error) result" where
  "KyberPreKeyRecord_public_key p = kem_PublicKey_deserialize (spk_public_key p)"

definition KyberPreKeyRecord_secret_key :: "kyber_pre_key_record \<Rightarrow> (kem_key, signal_error) result" where
  "KyberPreKeyRecord_secret_key p = kem_SecretKey_deserialize (spk_private_key p)"

text \<open>
  \<open>KyberPreKeyRecord::generate\<close>; the system generator and the clock are its two inputs. The clock
  is the number of milliseconds since the epoch, and both \<open>expect\<close>s fail out of range.
\<close>

definition KyberPreKeyRecord_generate ::
    "'r env \<Rightarrow> kem_key_type \<Rightarrow> kyber_pre_key_id \<Rightarrow> private_key \<Rightarrow> int \<Rightarrow> 'r \<Rightarrow>
     (kyber_pre_key_record, signal_error) result \<times> 'r" where
  "KyberPreKeyRecord_generate E kt i signing_key now_millis r =
     (let (kp, r1) = kem_KeyPair_generate E kt r;
          (signature, r2) = PrivateKey_calculate_signature E signing_key (kem_Key_serialize (kkp_public_key kp)) r1
      in (bindR (assertR (0 \<le> now_millis \<and> now_millis < 2 ^ 64)) (\<lambda>_.
          Ok (KyberPreKeyRecord_new i (word_of_int now_millis) kp signature)), r2))"

subsection \<open>\<open>PreKeyBundle\<close>\<close>

record ec_signed_pre_key =
  esp_id :: signed_pre_key_id
  esp_public_key :: public_key
  esp_signature :: bytes

record kyber_pre_key =
  kpk_id :: kyber_pre_key_id
  kpk_public_key :: kem_key
  kpk_signature :: bytes

record pre_key_bundle =
  b_registration_id :: u32
  b_device_id :: device_id
  b_pre_key_id :: "pre_key_id option"
  b_pre_key_public :: "public_key option"
  b_ec_signed_pre_key :: ec_signed_pre_key
  b_identity_key :: identity_key
  b_kyber_pre_key :: kyber_pre_key

record pre_key_bundle_content =
  bc_registration_id :: "u32 option"
  bc_device_id :: "device_id option"
  bc_pre_key_id :: "pre_key_id option"
  bc_pre_key_public :: "public_key option"
  bc_signed_pre_key_id :: "signed_pre_key_id option"
  bc_signed_pre_key_public :: "public_key option"
  bc_signed_pre_key_signature :: "bytes option"
  bc_identity_key :: "identity_key option"
  bc_kyber_pre_key_id :: "kyber_pre_key_id option"
  bc_kyber_pre_key_public :: "kem_key option"
  bc_kyber_pre_key_signature :: "bytes option"

definition PreKeyBundle_new ::
    "u32 \<Rightarrow> device_id \<Rightarrow> (pre_key_id \<times> public_key) option \<Rightarrow> signed_pre_key_id \<Rightarrow> public_key \<Rightarrow> bytes \<Rightarrow>
     kyber_pre_key_id \<Rightarrow> kem_key \<Rightarrow> bytes \<Rightarrow> identity_key \<Rightarrow> pre_key_bundle" where
  "PreKeyBundle_new registration_id device pre_key signed_id signed_public signed_signature
       kyber_id kyber_public kyber_signature identity =
     \<lparr>b_registration_id = registration_id, b_device_id = device,
      b_pre_key_id = map_option fst pre_key, b_pre_key_public = map_option snd pre_key,
      b_ec_signed_pre_key = \<lparr>esp_id = signed_id, esp_public_key = signed_public,
                             esp_signature = signed_signature\<rparr>,
      b_identity_key = identity,
      b_kyber_pre_key = \<lparr>kpk_id = kyber_id, kpk_public_key = kyber_public,
                         kpk_signature = kyber_signature\<rparr>\<rparr>"

definition PreKeyBundleContent_from :: "pre_key_bundle \<Rightarrow> pre_key_bundle_content" where
  "PreKeyBundleContent_from b =
     \<lparr>bc_registration_id = Some (b_registration_id b), bc_device_id = Some (b_device_id b),
      bc_pre_key_id = b_pre_key_id b, bc_pre_key_public = b_pre_key_public b,
      bc_signed_pre_key_id = Some (esp_id (b_ec_signed_pre_key b)),
      bc_signed_pre_key_public = Some (esp_public_key (b_ec_signed_pre_key b)),
      bc_signed_pre_key_signature = Some (esp_signature (b_ec_signed_pre_key b)),
      bc_identity_key = Some (b_identity_key b),
      bc_kyber_pre_key_id = Some (kpk_id (b_kyber_pre_key b)),
      bc_kyber_pre_key_public = Some (kpk_public_key (b_kyber_pre_key b)),
      bc_kyber_pre_key_signature = Some (kpk_signature (b_kyber_pre_key b))\<rparr>"

definition required :: "string \<Rightarrow> 'a option \<Rightarrow> ('a, signal_error) result" where
  "required field = ok_or (InvalidArgument (field @ '' is required''))"

definition PreKeyBundle_try_from :: "pre_key_bundle_content \<Rightarrow> (pre_key_bundle, signal_error) result" where
  "PreKeyBundle_try_from c =
     bindR (required ''registration_id'' (bc_registration_id c)) (\<lambda>registration_id.
     bindR (required ''device_id'' (bc_device_id c)) (\<lambda>device.
     let pre_key = Option.bind (bc_pre_key_id c) (\<lambda>i. map_option (\<lambda>p. (i, p)) (bc_pre_key_public c)) in
     bindR (required ''signed_pre_key_id'' (bc_signed_pre_key_id c)) (\<lambda>signed_id.
     bindR (required ''signed_pre_key_public'' (bc_signed_pre_key_public c)) (\<lambda>signed_public.
     bindR (required ''signed_pre_key_signature'' (bc_signed_pre_key_signature c)) (\<lambda>signed_signature.
     bindR (required ''kyber_pre_key_id'' (bc_kyber_pre_key_id c)) (\<lambda>kyber_id.
     bindR (required ''kyber_pre_key_public'' (bc_kyber_pre_key_public c)) (\<lambda>kyber_public.
     bindR (required ''kyber_pre_key_signature'' (bc_kyber_pre_key_signature c)) (\<lambda>kyber_signature.
     bindR (required ''identity_key'' (bc_identity_key c)) (\<lambda>identity.
     Ok (PreKeyBundle_new registration_id device pre_key signed_id signed_public signed_signature
           kyber_id kyber_public kyber_signature identity))))))))))"

definition PreKeyBundle_modify ::
    "(pre_key_bundle_content \<Rightarrow> pre_key_bundle_content) \<Rightarrow> pre_key_bundle \<Rightarrow> (pre_key_bundle, signal_error) result" where
  "PreKeyBundle_modify f b = PreKeyBundle_try_from (f (PreKeyBundleContent_from b))"

subsection \<open>Lemmas\<close>

interpretation pre_key_record_serde:
  serde "PreKeyRecord_serialize E" "PreKeyRecord_deserialize E" "\<lambda>_. codec_ok (pre_key_record_codec E)" for E
  by unfold_locales (simp add: PreKeyRecord_serialize_def PreKeyRecord_deserialize_def)

interpretation signed_pre_key_record_serde:
  serde "SignedPreKey_serialize E" "SignedPreKey_deserialize E" "\<lambda>_. codec_ok (signed_pre_key_record_codec E)"
  for E
  by unfold_locales (simp add: SignedPreKey_serialize_def SignedPreKey_deserialize_def)

text \<open>The key pair stored in a record comes back from it.\<close>

lemma KeyPair_stored:
  assumes "key_pair_ok E kp" "public_key_ok (kp_public_key kp)" "private_key_ok (kp_private_key kp)"
  shows "KeyPair_from_public_and_private E (PublicKey_serialize (kp_public_key kp))
    (PrivateKey_serialize (kp_private_key kp)) = Ok kp"
  using assms
  by (simp add: KeyPair_from_public_and_private_def public_key_serde.de_ser key_pair_ok_def
      PrivateKey_deserialize_serialize)

lemma PreKeyRecord_key_pair_new:
  assumes "key_pair_ok E kp" "public_key_ok (kp_public_key kp)" "private_key_ok (kp_private_key kp)"
  shows "PreKeyRecord_key_pair E (PreKeyRecord_new i kp) = Ok kp"
    and "SignedPreKeyRecord_key_pair E (SignedPreKeyRecord_new i ts kp sig) = Ok kp"
  using KeyPair_stored [OF assms]
  by (simp_all add: PreKeyRecord_key_pair_def PreKeyRecord_new_def SignedPreKeyRecord_key_pair_def
      SignedPreKeyRecord_new_def)

lemma KyberPreKeyRecord_key_pair_new:
  assumes "kem_key_ok kem_public_key_length (kkp_public_key kp)"
    "kem_key_ok kem_secret_key_length (kkp_secret_key kp)"
    "kk_key_type (kkp_public_key kp) = kk_key_type (kkp_secret_key kp)"
  shows "KyberPreKeyRecord_key_pair (KyberPreKeyRecord_new i ts kp sig) = Ok kp"
  using assms kem_public_serde.de_ser [OF assms(1)] kem_secret_serde.de_ser [OF assms(2)]
  by (simp add: KyberPreKeyRecord_key_pair_def KyberPreKeyRecord_new_def
      kem_KeyPair_from_public_and_private_def)

text \<open>A bundle whose one-time key is given by id and key together is rebuilt by the conversion.\<close>

lemma PreKeyBundle_roundtrip:
  assumes "(b_pre_key_id b = None) = (b_pre_key_public b = None)"
  shows "PreKeyBundle_try_from (PreKeyBundleContent_from b) = Ok b"
  using assms
  by (cases "b_pre_key_id b"; cases "b_pre_key_public b")
    (auto simp: PreKeyBundle_try_from_def PreKeyBundleContent_from_def PreKeyBundle_new_def required_def)

end
