(* ===== verification/Storage.thy ===== *)
theory Storage
  imports Session_Record Sender_Keys Prekeys
begin

text \<open>
  The in-memory stores of \<open>rust/protocol/src/storage/inmem.rs\<close>, which implement the store traits of
  \<open>traits.rs\<close>. A \<open>HashMap\<close> is a finite-domain map; the bundle of all six stores is one record, and
  the trait methods act on it through the store they belong to.
\<close>

datatype identity_change = NewOrUnchanged | ReplacedExisting

record identity_key_store =
  is_key_pair :: identity_key_pair
  is_registration_id :: u32
  is_known_keys :: "protocol_address \<rightharpoonup> identity_key"

record kyber_pre_key_store =
  ks_kyber_pre_keys :: "kyber_pre_key_id \<rightharpoonup> kyber_pre_key_record"
  ks_base_keys_seen :: "kyber_pre_key_id \<times> signed_pre_key_id \<rightharpoonup> public_key list"

record protocol_store =
  st_sessions :: "protocol_address \<rightharpoonup> session_record"
  st_pre_keys :: "pre_key_id \<rightharpoonup> pre_key_record"
  st_signed_pre_keys :: "signed_pre_key_id \<rightharpoonup> signed_pre_key_record"
  st_kyber :: kyber_pre_key_store
  st_identity :: identity_key_store
  st_sender_keys :: "protocol_address \<times> uuid \<rightharpoonup> sender_key_record"

definition InMemSignalProtocolStore_new :: "identity_key_pair \<Rightarrow> u32 \<Rightarrow> protocol_store" where
  "InMemSignalProtocolStore_new key_pair registration_id =
     \<lparr>st_sessions = Map.empty, st_pre_keys = Map.empty, st_signed_pre_keys = Map.empty,
      st_kyber = \<lparr>ks_kyber_pre_keys = Map.empty, ks_base_keys_seen = Map.empty\<rparr>,
      st_identity = \<lparr>is_key_pair = key_pair, is_registration_id = registration_id,
                     is_known_keys = Map.empty\<rparr>,
      st_sender_keys = Map.empty\<rparr>"

subsection \<open>Identities\<close>

definition get_identity_key_pair :: "protocol_store \<Rightarrow> identity_key_pair" where
  "get_identity_key_pair s = is_key_pair (st_identity s)"

definition get_local_registration_id :: "protocol_store \<Rightarrow> u32" where
  "get_local_registration_id s = is_registration_id (st_identity s)"

definition save_identity ::
    "protocol_address \<Rightarrow> identity_key \<Rightarrow> protocol_store \<Rightarrow> identity_change \<times> protocol_store" where
  "save_identity address identity s =
     (let known = is_known_keys (st_identity s);
          s' = s\<lparr>st_identity := (st_identity s)\<lparr>is_known_keys := known(address \<mapsto> identity)\<rparr>\<rparr>
      in case known address of
           None \<Rightarrow> (NewOrUnchanged, s')
         | Some k \<Rightarrow> if k = identity then (NewOrUnchanged, s) else (ReplacedExisting, s'))"

definition is_trusted_identity :: "protocol_address \<Rightarrow> identity_key \<Rightarrow> direction \<Rightarrow> protocol_store \<Rightarrow> bool" where
  "is_trusted_identity address identity d s =
     (case is_known_keys (st_identity s) address of None \<Rightarrow> True | Some k \<Rightarrow> k = identity)"

definition get_identity :: "protocol_address \<Rightarrow> protocol_store \<Rightarrow> identity_key option" where
  "get_identity address s = is_known_keys (st_identity s) address"

definition reset_identities :: "protocol_store \<Rightarrow> protocol_store" where
  "reset_identities s = s\<lparr>st_identity := (st_identity s)\<lparr>is_known_keys := Map.empty\<rparr>\<rparr>"

subsection \<open>Pre-keys\<close>

definition get_pre_key :: "pre_key_id \<Rightarrow> protocol_store \<Rightarrow> (pre_key_record, signal_error) result" where
  "get_pre_key i s = ok_or InvalidPreKeyId (st_pre_keys s i)"

definition save_pre_key :: "pre_key_id \<Rightarrow> pre_key_record \<Rightarrow> protocol_store \<Rightarrow> protocol_store" where
  "save_pre_key i rec s = s\<lparr>st_pre_keys := (st_pre_keys s)(i \<mapsto> rec)\<rparr>"

definition remove_pre_key :: "pre_key_id \<Rightarrow> protocol_store \<Rightarrow> protocol_store" where
  "remove_pre_key i s = s\<lparr>st_pre_keys := (st_pre_keys s)(i := None)\<rparr>"

definition get_signed_pre_key ::
    "signed_pre_key_id \<Rightarrow> protocol_store \<Rightarrow> (signed_pre_key_record, signal_error) result" where
  "get_signed_pre_key i s = ok_or InvalidSignedPreKeyId (st_signed_pre_keys s i)"

definition save_signed_pre_key :: "signed_pre_key_id \<Rightarrow> signed_pre_key_record \<Rightarrow> protocol_store \<Rightarrow> protocol_store" where
  "save_signed_pre_key i rec s = s\<lparr>st_signed_pre_keys := (st_signed_pre_keys s)(i \<mapsto> rec)\<rparr>"

definition get_kyber_pre_key ::
    "kyber_pre_key_id \<Rightarrow> protocol_store \<Rightarrow> (kyber_pre_key_record, signal_error) result" where
  "get_kyber_pre_key i s = ok_or InvalidKyberPreKeyId (ks_kyber_pre_keys (st_kyber s) i)"

definition save_kyber_pre_key :: "kyber_pre_key_id \<Rightarrow> kyber_pre_key_record \<Rightarrow> protocol_store \<Rightarrow> protocol_store" where
  "save_kyber_pre_key i rec s =
     s\<lparr>st_kyber := (st_kyber s)\<lparr>ks_kyber_pre_keys := (ks_kyber_pre_keys (st_kyber s))(i \<mapsto> rec)\<rparr>\<rparr>"

definition base_keys_seen :: "kyber_pre_key_id \<Rightarrow> signed_pre_key_id \<Rightarrow> protocol_store \<Rightarrow> public_key list" where
  "base_keys_seen kyber_id ec_id s =
     (case ks_base_keys_seen (st_kyber s) (kyber_id, ec_id) of None \<Rightarrow> [] | Some ks \<Rightarrow> ks)"

text \<open>\<open>entry(..).or_default()\<close> creates the entry, then a seen base key is refused.\<close>

definition set_base_keys_seen ::
    "kyber_pre_key_id \<Rightarrow> signed_pre_key_id \<Rightarrow> public_key list \<Rightarrow> protocol_store \<Rightarrow> protocol_store" where
  "set_base_keys_seen kyber_id ec_id ks s =
     s\<lparr>st_kyber := (st_kyber s)\<lparr>ks_base_keys_seen :=
          (ks_base_keys_seen (st_kyber s))((kyber_id, ec_id) \<mapsto> ks)\<rparr>\<rparr>"

definition mark_kyber_pre_key_used ::
    "kyber_pre_key_id \<Rightarrow> signed_pre_key_id \<Rightarrow> public_key \<Rightarrow> protocol_store \<Rightarrow>
     (unit, signal_error) result \<times> protocol_store" where
  "mark_kyber_pre_key_used kyber_id ec_id base_key s =
     (let seen = base_keys_seen kyber_id ec_id s in
      if base_key \<in> set seen
      then (Err (InvalidMessage PreKey ''reused base key''), set_base_keys_seen kyber_id ec_id seen s)
      else (Ok (), set_base_keys_seen kyber_id ec_id (seen @ [base_key]) s))"

subsection \<open>Sessions and sender keys\<close>

definition load_session :: "protocol_address \<Rightarrow> protocol_store \<Rightarrow> session_record option" where
  "load_session address s = st_sessions s address"

definition store_session :: "protocol_address \<Rightarrow> session_record \<Rightarrow> protocol_store \<Rightarrow> protocol_store" where
  "store_session address rec s = s\<lparr>st_sessions := (st_sessions s)(address \<mapsto> rec)\<rparr>"

fun load_existing_sessions ::
    "protocol_address list \<Rightarrow> protocol_store \<Rightarrow> (session_record list, signal_error) result" where
  "load_existing_sessions [] s = Ok []"
| "load_existing_sessions (address # rest) s =
     bindR (ok_or (SessionNotFound address) (st_sessions s address)) (\<lambda>rec.
     bindR (load_existing_sessions rest s) (\<lambda>recs. Ok (rec # recs)))"

definition load_sender_key :: "protocol_address \<Rightarrow> uuid \<Rightarrow> protocol_store \<Rightarrow> sender_key_record option" where
  "load_sender_key sender distribution_id s = st_sender_keys s (sender, distribution_id)"

definition store_sender_key ::
    "protocol_address \<Rightarrow> uuid \<Rightarrow> sender_key_record \<Rightarrow> protocol_store \<Rightarrow> protocol_store" where
  "store_sender_key sender distribution_id rec s =
     s\<lparr>st_sender_keys := (st_sender_keys s)((sender, distribution_id) \<mapsto> rec)\<rparr>"

subsection \<open>The store laws\<close>

interpretation sessions: kv_store load_session store_session
  by unfold_locales (simp_all add: load_session_def store_session_def)

interpretation pre_keys: kv_store "\<lambda>i s. ok_opt (get_pre_key i s)" save_pre_key
  by unfold_locales (simp_all add: get_pre_key_def save_pre_key_def)

interpretation signed_pre_keys: kv_store "\<lambda>i s. ok_opt (get_signed_pre_key i s)" save_signed_pre_key
  by unfold_locales (simp_all add: get_signed_pre_key_def save_signed_pre_key_def)

interpretation kyber_pre_keys: kv_store "\<lambda>i s. ok_opt (get_kyber_pre_key i s)" save_kyber_pre_key
  by unfold_locales (simp_all add: get_kyber_pre_key_def save_kyber_pre_key_def)

interpretation sender_keys:
  kv_store "\<lambda>k s. load_sender_key (fst k) (snd k) s" "\<lambda>k. store_sender_key (fst k) (snd k)"
  by unfold_locales (simp_all add: load_sender_key_def store_sender_key_def)

interpretation identities: kv_store get_identity "\<lambda>a k s. snd (save_identity a k s)"
  by unfold_locales (auto simp: get_identity_def save_identity_def Let_def split: option.splits)

text \<open>Trust on first use: a saved identity is trusted, and any other one is not.\<close>

lemma is_trusted_after_save:
  "is_trusted_identity a k d (snd (save_identity a k0 s)) \<longleftrightarrow> k = k0"
  "a' \<noteq> a \<Longrightarrow> is_trusted_identity a' k d (snd (save_identity a k0 s)) = is_trusted_identity a' k d s"
  by (auto simp: is_trusted_identity_def save_identity_def Let_def split: option.splits)

text \<open>The store records a base key once: marking it a second time fails, now and later.\<close>

lemma mark_kyber_pre_key_used_seen:
  "fst (mark_kyber_pre_key_used i e k s) = Ok () \<longleftrightarrow> k \<notin> set (base_keys_seen i e s)"
  "k \<in> set (base_keys_seen i e (snd (mark_kyber_pre_key_used i e k s)))"
  "k \<in> set (base_keys_seen i e s) \<Longrightarrow> k \<in> set (base_keys_seen i e (snd (mark_kyber_pre_key_used i' e' k' s)))"
  by (auto simp: mark_kyber_pre_key_used_def set_base_keys_seen_def base_keys_seen_def Let_def)

lemma load_existing_sessions_Ok:
  "load_existing_sessions as s = Ok recs \<longleftrightarrow> map (st_sessions s) as = map Some recs"
  by (induction as arbitrary: recs) (auto simp: result_simps map_eq_Cons_conv Cons_eq_map_conv)

end
