(* ===== verification/Session_Init.thy ===== *)
theory Session_Init
  imports Session_Record Prekeys
begin

text \<open>
  \<open>rust/protocol/src/ratchet.rs\<close>, \<open>ratchet/params.rs\<close> and the sending half of \<open>pqxdh.rs\<close>: the PQXDH
  key agreement and the session each side derives from it.
\<close>

record alice_parameters =
  ap_our_identity_key_pair :: identity_key_pair
  ap_our_base_key_pair :: key_pair
  ap_their_identity_key :: identity_key
  ap_their_signed_pre_key :: public_key
  ap_their_one_time_pre_key :: "public_key option"
  ap_their_ratchet_key :: public_key
  ap_their_kyber_pre_key :: kem_key

record bob_parameters =
  bp_our_identity_key_pair :: identity_key_pair
  bp_our_signed_pre_key_pair :: key_pair
  bp_our_one_time_pre_key_pair :: "key_pair option"
  bp_our_ratchet_key_pair :: key_pair
  bp_our_kyber_pre_key_pair :: kem_key_pair
  bp_their_identity_key :: identity_key
  bp_their_base_key :: public_key
  bp_their_kyber_ciphertext :: bytes

definition AliceSignalProtocolParameters_new ::
    "identity_key_pair \<Rightarrow> key_pair \<Rightarrow> identity_key \<Rightarrow> public_key \<Rightarrow> public_key \<Rightarrow> kem_key \<Rightarrow> alice_parameters" where
  "AliceSignalProtocolParameters_new our_identity our_base their_identity their_signed their_ratchet their_kyber =
     \<lparr>ap_our_identity_key_pair = our_identity, ap_our_base_key_pair = our_base,
      ap_their_identity_key = their_identity, ap_their_signed_pre_key = their_signed,
      ap_their_one_time_pre_key = None, ap_their_ratchet_key = their_ratchet,
      ap_their_kyber_pre_key = their_kyber\<rparr>"

definition set_their_one_time_pre_key :: "public_key \<Rightarrow> alice_parameters \<Rightarrow> alice_parameters" where
  "set_their_one_time_pre_key k p = p\<lparr>ap_their_one_time_pre_key := Some k\<rparr>"

definition derive_keys_with_label :: "'r env \<Rightarrow> bytes \<Rightarrow> bytes \<Rightarrow> root_key \<times> chain_key \<times> bytes" where
  "derive_keys_with_label E label secret_input =
     (let secrets = hkdf_sha256 E None secret_input label 96
      in (RootKey (take 32 secrets),
          \<lparr>chain_key_key = take 32 (drop 32 secrets), chain_key_index = 0\<rparr>,
          take 32 (drop 64 secrets)))"

definition derive_keys :: "'r env \<Rightarrow> bytes \<Rightarrow> root_key \<times> chain_key \<times> bytes" where
  "derive_keys E secret_input =
     derive_keys_with_label E (ascii ''WhisperText_X25519_SHA-256_CRYSTALS-KYBER-1024'') secret_input"

text \<open>\<open>spqr::Params\<close> with \<open>spqr_chain_params(self_session)\<close>; the limits are \<open>u32\<close>s.\<close>

definition spqr_session_params :: "spqr_direction \<Rightarrow> bytes \<Rightarrow> bool \<Rightarrow> spqr_params" where
  "spqr_session_params d auth_key self_connection =
     \<lparr>sp_auth_key = auth_key, sp_version = 1, sp_min_version = 0, sp_direction = d,
      sp_max_jump = (if self_connection then - 1 else of_nat MAX_FORWARD_JUMPS),
      sp_max_ooo_keys = of_nat MAX_MESSAGE_KEYS\<rparr>"

definition discontinuity_bytes :: bytes where
  "discontinuity_bytes = replicate 32 0xFF"

definition initialize_alice_session ::
    "'r env \<Rightarrow> alice_parameters \<Rightarrow> 'r \<Rightarrow> (session_state, signal_error) result \<times> 'r" where
  "initialize_alice_session E parameters r =
     (let local_identity = id_identity_key (ap_our_identity_key_pair parameters);
          our_base_private_key = kp_private_key (ap_our_base_key_pair parameters);
          secrets1 = discontinuity_bytes
            @ calculate_agreement E (id_private_key (ap_our_identity_key_pair parameters))
                (ap_their_signed_pre_key parameters)
            @ calculate_agreement E our_base_private_key (ap_their_identity_key parameters)
            @ calculate_agreement E our_base_private_key (ap_their_signed_pre_key parameters)
            @ (case ap_their_one_time_pre_key parameters of
                 None \<Rightarrow> []
               | Some their_one_time_prekey \<Rightarrow> calculate_agreement E our_base_private_key their_one_time_prekey)
      in bindS (kem_PublicKey_encapsulate E (ap_their_kyber_pre_key parameters) r) (\<lambda>(ss, kyber_ciphertext) r1.
         let (root_key, ck, pqr_key) = derive_keys E (secrets1 @ ss);
             (sending_ratchet_key, r2) = KeyPair_generate E r1;
             (sending_chain_root_key, sending_chain_chain_key) =
               create_chain E root_key (ap_their_ratchet_key parameters) (kp_private_key sending_ratchet_key);
             self_session = (local_identity = ap_their_identity_key parameters)
         in bindS (map_err (\<lambda>e. InvalidArgument
                    (''post-quantum ratchet: error creating initial A2B state: '' @ spqr_error_display E e))
                  (spqr_initial_state E (spqr_session_params A2B pqr_key self_session)), r2) (\<lambda>pqr_state r2.
            (Ok (set_kyber_ciphertext kyber_ciphertext
                  (set_sender_chain sending_ratchet_key sending_chain_chain_key
                    (add_receiver_chain (ap_their_ratchet_key parameters) ck
                      (SessionState_new CIPHERTEXT_MESSAGE_CURRENT_VERSION local_identity
                        (ap_their_identity_key parameters) sending_chain_root_key
                        (kp_public_key (ap_our_base_key_pair parameters)) pqr_state)))), r2))))"

definition initialize_bob_session :: "'r env \<Rightarrow> bob_parameters \<Rightarrow> (session_state, signal_error) result" where
  "initialize_bob_session E parameters =
     (if \<not> is_canonical E (bp_their_base_key parameters)
      then Err (InvalidMessage PreKey ''incoming base key is invalid'')
      else
        let local_identity = id_identity_key (bp_our_identity_key_pair parameters);
            signed_private = kp_private_key (bp_our_signed_pre_key_pair parameters);
            secrets1 = discontinuity_bytes
              @ calculate_agreement E signed_private (bp_their_identity_key parameters)
              @ calculate_agreement E (id_private_key (bp_our_identity_key_pair parameters))
                  (bp_their_base_key parameters)
              @ calculate_agreement E signed_private (bp_their_base_key parameters)
              @ (case bp_our_one_time_pre_key_pair parameters of
                   None \<Rightarrow> []
                 | Some kp \<Rightarrow> calculate_agreement E (kp_private_key kp) (bp_their_base_key parameters))
        in bindR (kem_SecretKey_decapsulate E (kkp_secret_key (bp_our_kyber_pre_key_pair parameters))
                   (bp_their_kyber_ciphertext parameters)) (\<lambda>ss.
           let (root_key, ck, pqr_key) = derive_keys E (secrets1 @ ss);
               self_session = (local_identity = bp_their_identity_key parameters)
           in bindR (map_err (\<lambda>e. InvalidArgument
                      (''post-quantum ratchet: error creating initial B2A state: '' @ spqr_error_display E e))
                    (spqr_initial_state E (spqr_session_params B2A pqr_key self_session))) (\<lambda>pqr_state.
              Ok (set_sender_chain (bp_our_ratchet_key_pair parameters) ck
                    (SessionState_new CIPHERTEXT_MESSAGE_CURRENT_VERSION local_identity
                      (bp_their_identity_key parameters) root_key (bp_their_base_key parameters) pqr_state)))))"

definition initialize_alice_session_record ::
    "'r env \<Rightarrow> alice_parameters \<Rightarrow> 'r \<Rightarrow> (session_record, signal_error) result \<times> 'r" where
  "initialize_alice_session_record E parameters r =
     bindS (initialize_alice_session E parameters r) (\<lambda>st r. (Ok (SessionRecord_new st), r))"

definition initialize_bob_session_record ::
    "'r env \<Rightarrow> bob_parameters \<Rightarrow> (session_record, signal_error) result" where
  "initialize_bob_session_record E parameters =
     bindR (initialize_bob_session E parameters) (\<lambda>st. Ok (SessionRecord_new st))"

subsection \<open>\<open>pqxdh.rs\<close>\<close>

record pqxdh_message_data =
  px_base_key :: public_key
  px_pre_key_id :: "pre_key_id option"
  px_signed_pre_key_id :: signed_pre_key_id
  px_kyber_pre_key_id :: kyber_pre_key_id
  px_kyber_ciphertext :: bytes

text \<open>\<open>send\<close>: the certificate and the registration id are unused by the code.\<close>

definition pqxdh_send ::
    "'r env \<Rightarrow> pre_key_bundle \<Rightarrow> identity_key_pair \<Rightarrow> 'r \<Rightarrow>
     (pqxdh_message_data \<times> bytes, signal_error) result \<times> 'r" where
  "pqxdh_send E bundle local_identity r =
     (let (ephemeral, r1) = KeyPair_generate E r;
          our_base_private_key = kp_private_key ephemeral;
          signed = esp_public_key (b_ec_signed_pre_key bundle);
          secrets1 = discontinuity_bytes
            @ calculate_agreement E (id_private_key local_identity) signed
            @ calculate_agreement E our_base_private_key (b_identity_key bundle)
            @ calculate_agreement E our_base_private_key signed
            @ (case b_pre_key_public bundle of
                 None \<Rightarrow> [] | Some k \<Rightarrow> calculate_agreement E our_base_private_key k)
      in bindS (kem_PublicKey_encapsulate E (kpk_public_key (b_kyber_pre_key bundle)) r1) (\<lambda>(ss, ct) r2.
         (Ok (\<lparr>px_base_key = kp_public_key ephemeral, px_pre_key_id = b_pre_key_id bundle,
               px_signed_pre_key_id = esp_id (b_ec_signed_pre_key bundle),
               px_kyber_pre_key_id = kpk_id (b_kyber_pre_key bundle), px_kyber_ciphertext = ct\<rparr>,
              hkdf_sha256 E None (secrets1 @ ss)
                (ascii ''WhisperText_X25519_SHA-256_CRYSTALS-KYBER-1024'') 96), r2)))"

text \<open>\<open>recv\<close> is \<open>todo!()\<close>; its result would hold the sender's certificate, a registration id and the session key.\<close>

definition pqxdh_recv :: "bytes \<Rightarrow> 's \<Rightarrow> ('c \<times> u32 \<times> bytes, signal_error) result" where
  "pqxdh_recv msg_bytes stores = Panic"

subsection \<open>Both sides derive the same keys\<close>

lemma derive_keys_ok:
  assumes "hash_lengths E" "derive_keys E s = (rk, ck, pk)"
  shows "length (root_key_key rk) = 32" "chain_key_ok ck" "chain_key_index ck = 0" "length pk = 32"
  using assms
  by (auto simp: derive_keys_def derive_keys_with_label_def Let_def hash_lengths_def chain_key_ok_def)

text \<open>
  Bob's parameters answer Alice's: Bob holds the private halves of the keys Alice used, and
  the ciphertext that her encapsulation produced.
\<close>

definition parameters_match :: "'r env \<Rightarrow> alice_parameters \<Rightarrow> bob_parameters \<Rightarrow> bool" where
  "parameters_match E a b \<longleftrightarrow>
     id_identity_key (ap_our_identity_key_pair a) = PrivateKey_public_key E (id_private_key (ap_our_identity_key_pair a)) \<and>
     kp_public_key (ap_our_base_key_pair a) = PrivateKey_public_key E (kp_private_key (ap_our_base_key_pair a)) \<and>
     id_identity_key (bp_our_identity_key_pair b) = PrivateKey_public_key E (id_private_key (bp_our_identity_key_pair b)) \<and>
     ap_their_identity_key a = id_identity_key (bp_our_identity_key_pair b) \<and>
     ap_their_signed_pre_key a = PrivateKey_public_key E (kp_private_key (bp_our_signed_pre_key_pair b)) \<and>
     ap_their_one_time_pre_key a =
       map_option (\<lambda>kp. PrivateKey_public_key E (kp_private_key kp)) (bp_our_one_time_pre_key_pair b) \<and>
     ap_their_ratchet_key a = PrivateKey_public_key E (kp_private_key (bp_our_ratchet_key_pair b)) \<and>
     kp_public_key (bp_our_ratchet_key_pair b) = ap_their_ratchet_key a \<and>
     bp_their_identity_key b = id_identity_key (ap_our_identity_key_pair a) \<and>
     bp_their_base_key b = kp_public_key (ap_our_base_key_pair a)"

text \<open>The Diffie-Hellman part of the secret, as each side computes it.\<close>

definition alice_dh :: "'r env \<Rightarrow> alice_parameters \<Rightarrow> bytes" where
  "alice_dh E p =
     discontinuity_bytes
     @ calculate_agreement E (id_private_key (ap_our_identity_key_pair p)) (ap_their_signed_pre_key p)
     @ calculate_agreement E (kp_private_key (ap_our_base_key_pair p)) (ap_their_identity_key p)
     @ calculate_agreement E (kp_private_key (ap_our_base_key_pair p)) (ap_their_signed_pre_key p)
     @ (case ap_their_one_time_pre_key p of
          None \<Rightarrow> [] | Some k \<Rightarrow> calculate_agreement E (kp_private_key (ap_our_base_key_pair p)) k)"

definition bob_dh :: "'r env \<Rightarrow> bob_parameters \<Rightarrow> bytes" where
  "bob_dh E p =
     discontinuity_bytes
     @ calculate_agreement E (kp_private_key (bp_our_signed_pre_key_pair p)) (bp_their_identity_key p)
     @ calculate_agreement E (id_private_key (bp_our_identity_key_pair p)) (bp_their_base_key p)
     @ calculate_agreement E (kp_private_key (bp_our_signed_pre_key_pair p)) (bp_their_base_key p)
     @ (case bp_our_one_time_pre_key_pair p of
          None \<Rightarrow> [] | Some kp \<Rightarrow> calculate_agreement E (kp_private_key kp) (bp_their_base_key p))"

lemma dh_agree:
  assumes "dh_ok E" "parameters_match E a b"
  shows "alice_dh E a = bob_dh E b"
  using assms(2) calculate_agreement_commute [OF assms(1)]
  by (cases "bp_our_one_time_pre_key_pair b") (simp_all add: parameters_match_def alice_dh_def bob_dh_def)

text \<open>The two sessions, each as a function of the shared secret.\<close>

lemma initialize_alice_session_Ok:
  assumes "kem_PublicKey_encapsulate E (ap_their_kyber_pre_key a) r = (Ok (ss, ct), r1)"
    "derive_keys E (alice_dh E a @ ss) = (rk, ck, pqr)" "KeyPair_generate E r1 = (kp, r2)"
    "create_chain E rk (ap_their_ratchet_key a) (kp_private_key kp) = (rk', ck')"
    "spqr_initial_state E (spqr_session_params A2B pqr
       (id_identity_key (ap_our_identity_key_pair a) = ap_their_identity_key a)) = Ok pq"
  shows "initialize_alice_session E a r =
    (Ok (set_kyber_ciphertext ct (set_sender_chain kp ck' (add_receiver_chain (ap_their_ratchet_key a) ck
       (SessionState_new CIPHERTEXT_MESSAGE_CURRENT_VERSION (id_identity_key (ap_our_identity_key_pair a))
          (ap_their_identity_key a) rk' (kp_public_key (ap_our_base_key_pair a)) pq)))), r2)"
  using assms by (simp add: initialize_alice_session_def Let_def alice_dh_def)

lemma initialize_bob_session_Ok:
  assumes "is_canonical E (bp_their_base_key b)"
    "kem_SecretKey_decapsulate E (kkp_secret_key (bp_our_kyber_pre_key_pair b)) (bp_their_kyber_ciphertext b) = Ok ss"
    "derive_keys E (bob_dh E b @ ss) = (rk, ck, pqr)"
    "spqr_initial_state E (spqr_session_params B2A pqr
       (id_identity_key (bp_our_identity_key_pair b) = bp_their_identity_key b)) = Ok pq"
  shows "initialize_bob_session E b =
    Ok (set_sender_chain (bp_our_ratchet_key_pair b) ck
       (SessionState_new CIPHERTEXT_MESSAGE_CURRENT_VERSION (id_identity_key (bp_our_identity_key_pair b))
          (bp_their_identity_key b) rk (bp_their_base_key b) pq))"
  using assms by (simp add: initialize_bob_session_def Let_def bob_dh_def)

end
