(* ===== verification/Address.thy ===== *)
theory Address
  imports Externals
begin

text \<open>
  \<open>rust/core/src/address.rs\<close> and \<open>e164.rs\<close>: service ids with their binary and text forms, device
  ids, protocol addresses and phone numbers. The text form of a UUID belongs to the \<open>uuid\<close> crate
  and comes from the environment; decimal printing and parsing of integers is Rust's.
\<close>

subsection \<open>Decimal numbers\<close>

definition digit_char :: "nat \<Rightarrow> char" where
  "digit_char d = char_of (48 + d)"

definition digit_value :: "char \<Rightarrow> nat option" where
  "digit_value c = (let n = of_char c :: nat in if 48 \<le> n \<and> n \<le> 57 then Some (n - 48) else None)"

fun nat_to_string :: "nat \<Rightarrow> string" where
  "nat_to_string n = (if n < 10 then [digit_char n] else nat_to_string (n div 10) @ [digit_char (n mod 10)])"

declare nat_to_string.simps [simp del]

datatype int_error = IntEmpty | IntInvalidDigit | IntPosOverflow | IntZero

text \<open>\<open>u64::from_str\<close>: an optional sign, then digits, each step checked for overflow.\<close>

fun parse_digits :: "nat \<Rightarrow> string \<Rightarrow> (nat, int_error) result" where
  "parse_digits acc [] = Ok acc"
| "parse_digits acc (c # cs) =
     (case digit_value c of
        None \<Rightarrow> Err IntInvalidDigit
      | Some d \<Rightarrow> if acc * 10 + d \<ge> 2 ^ 64 then Err IntPosOverflow else parse_digits (acc * 10 + d) cs)"

definition parse_u64 :: "string \<Rightarrow> (nat, int_error) result" where
  "parse_u64 s =
     (case s of
        [] \<Rightarrow> Err IntEmpty
      | [c] \<Rightarrow> if c = CHR ''+'' \<or> c = CHR ''-'' then Err IntInvalidDigit else parse_digits 0 s
      | c # cs \<Rightarrow> if c = CHR ''+'' then parse_digits 0 cs else parse_digits 0 s)"

definition parse_nonzero_u64 :: "string \<Rightarrow> (nat, int_error) result" where
  "parse_nonzero_u64 s = bindR (parse_u64 s) (\<lambda>n. if n = 0 then Err IntZero else Ok n)"

subsection \<open>Service ids\<close>

datatype service_id_kind = KAci | KPni

datatype service_id = Aci uuid | Pni uuid

primrec kind_value :: "service_id_kind \<Rightarrow> u8" where
  "kind_value KAci = 0"
| "kind_value KPni = 1"

definition kind_try_from :: "u8 \<Rightarrow> service_id_kind option" where
  "kind_try_from b = (if b = 0 then Some KAci else if b = 1 then Some KPni else None)"

primrec kind_display :: "service_id_kind \<Rightarrow> string" where
  "kind_display KAci = ''ACI''"
| "kind_display KPni = ''PNI''"

primrec service_id_kind_of :: "service_id \<Rightarrow> service_id_kind" where
  "service_id_kind_of (Aci _) = KAci"
| "service_id_kind_of (Pni _) = KPni"

primrec raw_uuid :: "service_id \<Rightarrow> uuid" where
  "raw_uuid (Aci u) = u"
| "raw_uuid (Pni u) = u"

definition service_id_fixed_width_binary :: "service_id \<Rightarrow> bytes" where
  "service_id_fixed_width_binary s = kind_value (service_id_kind_of s) # raw_uuid s"

definition service_id_binary :: "service_id \<Rightarrow> bytes" where
  "service_id_binary s = (case s of Aci u \<Rightarrow> u | Pni _ \<Rightarrow> service_id_fixed_width_binary s)"

definition service_id_string :: "'r env \<Rightarrow> service_id \<Rightarrow> string" where
  "service_id_string E s =
     (case s of
        Aci u \<Rightarrow> uuid_to_string E u
      | Pni u \<Rightarrow> kind_display (service_id_kind_of s) @ '':'' @ uuid_to_string E u)"

text \<open>The argument is a \<open>[u8; 17]\<close>.\<close>

definition parse_from_service_id_fixed_width_binary :: "bytes \<Rightarrow> service_id option" where
  "parse_from_service_id_fixed_width_binary bs =
     (let uuid = drop 1 bs in
      case kind_try_from (bs ! 0) of
        None \<Rightarrow> None
      | Some KAci \<Rightarrow> Some (Aci uuid)
      | Some KPni \<Rightarrow> Some (Pni uuid))"

definition parse_from_service_id_binary :: "bytes \<Rightarrow> service_id option" where
  "parse_from_service_id_binary bs =
     (if length bs = 16 then Some (Aci bs)
      else if length bs = 17 then
        (case parse_from_service_id_fixed_width_binary bs of
           None \<Rightarrow> None
         | Some s \<Rightarrow> if service_id_kind_of s = KAci then None else Some s)
      else None)"

definition try_parse_hyphenated :: "'r env \<Rightarrow> string \<Rightarrow> uuid option" where
  "try_parse_hyphenated E input = (if length input \<noteq> 36 then None else uuid_try_parse E input)"

definition parse_from_service_id_string :: "'r env \<Rightarrow> string \<Rightarrow> service_id option" where
  "parse_from_service_id_string E input =
     (if take 4 input = ''PNI:'' then map_option Pni (try_parse_hyphenated E (drop 4 input))
      else map_option Aci (try_parse_hyphenated E input))"

text \<open>\<open>TryFrom<ServiceId> for SpecificServiceId<KIND>\<close>, with the kind as an argument.\<close>

definition specific_try_from ::
    "service_id_kind \<Rightarrow> service_id \<Rightarrow> (uuid, service_id_kind \<times> service_id_kind) result" where
  "specific_try_from expected s =
     (if kind_value (service_id_kind_of s) = kind_value expected then Ok (raw_uuid s)
      else Err (expected, service_id_kind_of s))"

subsection \<open>Device ids and addresses\<close>

datatype invalid_device_id = InvalidDeviceId

definition MAX_VALID_DEVICE_ID :: u8 where "MAX_VALID_DEVICE_ID = 127"

definition DeviceId_new_nonzero :: "u8 \<Rightarrow> (device_id, invalid_device_id) result" where
  "DeviceId_new_nonzero i = (if i \<le> MAX_VALID_DEVICE_ID then Ok (DeviceId i) else Err InvalidDeviceId)"

definition DeviceId_new :: "u8 \<Rightarrow> (device_id, invalid_device_id) result" where
  "DeviceId_new i = (if i = 0 then Err InvalidDeviceId else DeviceId_new_nonzero i)"

definition DeviceId_try_from_u32 :: "u32 \<Rightarrow> (device_id, invalid_device_id) result" where
  "DeviceId_try_from_u32 v = (if unat v < 256 then DeviceId_new (ucast v) else Err InvalidDeviceId)"

definition DeviceId_try_from_i32 :: "32 word \<Rightarrow> (device_id, invalid_device_id) result" where
  "DeviceId_try_from_i32 v =
     (if 0 \<le> sint v \<and> sint v < 256 then DeviceId_new (ucast v) else Err InvalidDeviceId)"

definition DeviceId_into_u32 :: "device_id \<Rightarrow> u32" where
  "DeviceId_into_u32 d = ucast (device_id_value d)"

definition DeviceId_display :: "device_id \<Rightarrow> string" where
  "DeviceId_display d = nat_to_string (unat (device_id_value d))"

definition ProtocolAddress_new :: "string \<Rightarrow> device_id \<Rightarrow> protocol_address" where
  "ProtocolAddress_new name device = \<lparr>pa_name = name, pa_device_id = device\<rparr>"

definition to_protocol_address :: "'r env \<Rightarrow> service_id \<Rightarrow> device_id \<Rightarrow> protocol_address" where
  "to_protocol_address E s device = ProtocolAddress_new (service_id_string E s) device"

definition ProtocolAddress_display :: "protocol_address \<Rightarrow> string" where
  "ProtocolAddress_display a = pa_name a @ ''.'' @ DeviceId_display (pa_device_id a)"

subsection \<open>Phone numbers\<close>

text \<open>An \<open>E164\<close> wraps a \<open>NonZeroU64\<close>; \<open>e164_ok\<close> is that range.\<close>

datatype e164 = E164 (e164_number: u64)

definition e164_ok :: "e164 \<Rightarrow> bool" where
  "e164_ok e \<longleftrightarrow> e164_number e \<noteq> 0"

definition E164_to_be_bytes :: "e164 \<Rightarrow> bytes" where
  "E164_to_be_bytes e = be_bytes 8 (unat (e164_number e))"

definition E164_from_be_bytes :: "bytes \<Rightarrow> e164 option" where
  "E164_from_be_bytes bs = (if be_nat bs = 0 then None else Some (E164 (of_nat (be_nat bs))))"

definition E164_from_str :: "string \<Rightarrow> (e164, int_error) result" where
  "E164_from_str s =
     (let s' = (case s of c # cs \<Rightarrow> if c = CHR ''+'' then cs else s | [] \<Rightarrow> s)
      in bindR (parse_nonzero_u64 s') (\<lambda>n. Ok (E164 (of_nat n))))"

definition E164_display :: "e164 \<Rightarrow> string" where
  "E164_display e = ''+'' @ nat_to_string (unat (e164_number e))"

subsection \<open>Decimal round trip\<close>

lemma digit_value_char: "d < 10 \<Longrightarrow> digit_value (digit_char d) = Some d"
  by (simp add: digit_value_def digit_char_def Let_def)

lemma digit_char_not_sign: "d < 10 \<Longrightarrow> digit_char d \<noteq> CHR ''+'' \<and> digit_char d \<noteq> CHR ''-''"
proof -
  assume "d < 10"
  then have "of_char (digit_char d) = (48 + d :: nat)" by (simp add: digit_char_def)
  then have "of_char (digit_char d) \<noteq> (of_char (CHR ''+'') :: nat)"
    and "of_char (digit_char d) \<noteq> (of_char (CHR ''-'') :: nat)" by simp_all
  then show ?thesis by auto
qed

lemma nat_to_string_neq_Nil: "nat_to_string n \<noteq> []"
  by (simp add: nat_to_string.simps [of n])

lemma nat_to_string_hd: "\<exists>d < 10. hd (nat_to_string n) = digit_char d"
proof (induction n rule: nat_to_string.induct)
  case (1 n)
  show ?case
    using 1 nat_to_string_neq_Nil by (auto simp: nat_to_string.simps [of n])
qed

lemma parse_digits_append:
  "parse_digits acc xs = Ok m \<Longrightarrow> parse_digits acc (xs @ ys) = parse_digits m ys"
  by (induction xs arbitrary: acc) (auto split: option.splits if_splits)

lemma parse_nat_to_string: "n < 2 ^ 64 \<Longrightarrow> parse_digits 0 (nat_to_string n) = Ok n"
proof (induction n rule: nat_to_string.induct)
  case (1 n)
  show ?case
  proof (cases "n < 10")
    case True
    then show ?thesis by (simp add: nat_to_string.simps [of n] digit_value_char)
  next
    case False
    then have "parse_digits 0 (nat_to_string (n div 10)) = Ok (n div 10)" using 1 by simp
    from parse_digits_append [OF this] show ?thesis
      using False 1(2) by (simp add: nat_to_string.simps [of n] digit_value_char)
  qed
qed

lemma parse_u64_nat_to_string: "n < 2 ^ 64 \<Longrightarrow> parse_u64 (nat_to_string n) = Ok n"
proof -
  assume lt: "n < 2 ^ 64"
  obtain c cs where s: "nat_to_string n = c # cs" using nat_to_string_neq_Nil [of n] by (cases "nat_to_string n") auto
  then have "c \<noteq> CHR ''+'' \<and> c \<noteq> CHR ''-''" using nat_to_string_hd [of n] digit_char_not_sign by auto
  then show ?thesis using parse_nat_to_string [OF lt] s by (cases cs) (auto simp: parse_u64_def)
qed

subsection \<open>Round trips\<close>

lemma E164_bytes_roundtrip: "e164_ok e \<Longrightarrow> E164_from_be_bytes (E164_to_be_bytes e) = Some e"
proof -
  assume ok: "e164_ok e"
  have "unat (e164_number e) < 256 ^ 8" using unsigned_less [of "e164_number e", where 'a = nat] by simp
  then have "be_nat (E164_to_be_bytes e) = unat (e164_number e)"
    unfolding E164_to_be_bytes_def by (rule be_nat_be_bytes)
  then show ?thesis
    using ok by (cases e) (simp add: E164_from_be_bytes_def e164_ok_def unat_eq_0)
qed

lemma E164_string_roundtrip:
  assumes "e164_ok e"
  shows "E164_from_str (E164_display e) = Ok e"
    and "E164_from_str (nat_to_string (unat (e164_number e))) = Ok e"
proof -
  let ?n = "unat (e164_number e)"
  have lt: "?n < 2 ^ 64" using unsigned_less [of "e164_number e", where 'a = nat] by simp
  have nz: "?n \<noteq> 0" using assms by (simp add: e164_ok_def unat_eq_0)
  have p: "parse_nonzero_u64 (nat_to_string ?n) = Ok ?n"
    using parse_u64_nat_to_string [OF lt] nz by (simp add: parse_nonzero_u64_def)
  then show "E164_from_str (E164_display e) = Ok e"
    by (simp add: E164_from_str_def E164_display_def)
  obtain c cs where s: "nat_to_string ?n = c # cs" using nat_to_string_neq_Nil [of ?n] by (cases "nat_to_string ?n") auto
  then have "c \<noteq> CHR ''+''" using nat_to_string_hd [of ?n] digit_char_not_sign by auto
  then show "E164_from_str (nat_to_string ?n) = Ok e"
    using p s by (simp add: E164_from_str_def)
qed

text \<open>The parser strips one plus sign and hands the rest to an integer parser that accepts another.\<close>

lemma E164_double_plus: "E164_from_str (CHR ''+'' # E164_display e) = E164_from_str (E164_display e)"
proof -
  obtain c cs where s: "nat_to_string (unat (e164_number e)) = c # cs"
    using nat_to_string_neq_Nil [of "unat (e164_number e)"] by (cases "nat_to_string (unat (e164_number e))") auto
  then have "c \<noteq> CHR ''+'' \<and> c \<noteq> CHR ''-''"
    using nat_to_string_hd [of "unat (e164_number e)"] digit_char_not_sign by auto
  then show ?thesis
    using s by (cases cs) (auto simp: E164_from_str_def E164_display_def parse_nonzero_u64_def parse_u64_def)
qed

definition device_id_ok :: "device_id \<Rightarrow> bool" where
  "device_id_ok d \<longleftrightarrow> 1 \<le> unat (device_id_value d) \<and> unat (device_id_value d) \<le> 127"

lemma DeviceId_new_Ok: "DeviceId_new i = Ok d \<longleftrightarrow> device_id_ok d \<and> d = DeviceId i"
proof -
  have "i \<le> 127 \<longleftrightarrow> unat i \<le> 127" by (simp add: word_le_nat_alt)
  moreover have "i = 0 \<longleftrightarrow> unat i = 0" by (simp add: unat_eq_0)
  ultimately show ?thesis
    by (auto simp: DeviceId_new_def DeviceId_new_nonzero_def MAX_VALID_DEVICE_ID_def device_id_ok_def)
qed

lemma unat_ucast_u32_u8: "unat (v :: u32) < 256 \<Longrightarrow> unat (ucast v :: u8) = unat v"
  by (simp add: unsigned_ucast_eq take_bit_nat_eq_self)

lemma DeviceId_u32_Ok: "DeviceId_try_from_u32 v = Ok d \<longleftrightarrow> device_id_ok d \<and> DeviceId_into_u32 d = v"
proof -
  have up: "unat (ucast b :: u32) = unat b" for b :: u8
    using unat_u8_less [of b] by (simp add: unsigned_ucast_eq take_bit_nat_eq_self del: unat_u8_less)
  have down: "(ucast (ucast b :: u32) :: u8) = b" for b
    by (simp only: word_unat_eq_iff) (simp add: unat_ucast_u32_u8 up)
  show ?thesis
  proof
    assume "DeviceId_try_from_u32 v = Ok d"
    then have lt: "unat v < 256" and d: "device_id_ok d" "d = DeviceId (ucast v)"
      by (auto simp: DeviceId_try_from_u32_def DeviceId_new_Ok split: if_splits)
    have "unat (DeviceId_into_u32 d) = unat v"
      using lt by (simp add: d(2) DeviceId_into_u32_def up unat_ucast_u32_u8)
    then show "device_id_ok d \<and> DeviceId_into_u32 d = v" using d(1) by (simp add: word_unat_eq_iff)
  next
    assume "device_id_ok d \<and> DeviceId_into_u32 d = v"
    then have ok: "device_id_ok d" and v: "v = ucast (device_id_value d)" by (auto simp: DeviceId_into_u32_def)
    then show "DeviceId_try_from_u32 v = Ok d"
      by (cases d) (simp add: DeviceId_try_from_u32_def DeviceId_new_Ok up down)
  qed
qed

lemma service_id_binary_roundtrip:
  assumes "length (raw_uuid s) = 16"
  shows "parse_from_service_id_binary (service_id_binary s) = Some s"
    and "parse_from_service_id_fixed_width_binary (service_id_fixed_width_binary s) = Some s"
  using assms
  by (cases s; simp add: parse_from_service_id_binary_def service_id_binary_def kind_try_from_def
      parse_from_service_id_fixed_width_binary_def service_id_fixed_width_binary_def Let_def)+

text \<open>The binary format is canonical: what parses is the serialization of its result.\<close>

lemma service_id_binary_canonical:
  assumes "parse_from_service_id_binary bs = Some s"
  shows "service_id_binary s = bs" and "length (raw_uuid s) = 16"
proof -
  consider "length bs = 16" "s = Aci bs" | u where "bs = 1 # u" "length u = 16" "s = Pni u"
    using assms
    by (cases bs) (auto simp: parse_from_service_id_binary_def parse_from_service_id_fixed_width_binary_def
        kind_try_from_def Let_def split: if_splits)
  then show "service_id_binary s = bs" "length (raw_uuid s) = 16"
    by (cases; simp add: service_id_binary_def service_id_fixed_width_binary_def)+
qed

text \<open>What the \<open>uuid\<close> crate promises of its hyphenated form: 36 characters of hex and hyphens.\<close>

definition uuid_text_ok :: "'r env \<Rightarrow> bool" where
  "uuid_text_ok E \<longleftrightarrow> (\<forall>u. length u = 16 \<longrightarrow>
     length (uuid_to_string E u) = 36 \<and> uuid_try_parse E (uuid_to_string E u) = Some u \<and>
     CHR ''P'' \<notin> set (uuid_to_string E u))"

lemma service_id_string_roundtrip:
  assumes "uuid_text_ok E" "length (raw_uuid s) = 16"
  shows "parse_from_service_id_string E (service_id_string E s) = Some s"
proof (cases s)
  case (Aci u)
  then have u: "length (uuid_to_string E u) = 36" "uuid_try_parse E (uuid_to_string E u) = Some u"
    "CHR ''P'' \<notin> set (uuid_to_string E u)"
    using assms by (simp_all add: uuid_text_ok_def)
  have "take 4 (uuid_to_string E u) \<noteq> ''PNI:''"
    using u(3) in_set_takeD by (metis list.set_intros(1))
  then show ?thesis using u Aci by (simp add: parse_from_service_id_string_def service_id_string_def try_parse_hyphenated_def)
next
  case (Pni u)
  then show ?thesis
    using assms by (simp add: uuid_text_ok_def parse_from_service_id_string_def service_id_string_def try_parse_hyphenated_def)
qed

end
