(* ===== verification/Typed_Ids.thy ===== *)
theory Typed_Ids
  imports Address
begin

text \<open>
  \<open>SpecificServiceId\<close> of \<open>rust/core/src/address.rs\<close>, the types \<open>Aci\<close> and \<open>Pni\<close>: a UUID of a known kind, with
  the kind as an argument in place of the const parameter.
\<close>

definition specific_into :: "service_id_kind \<Rightarrow> uuid \<Rightarrow> service_id" where
  "specific_into kind u = (case kind of KAci \<Rightarrow> Aci u | KPni \<Rightarrow> Pni u)"

definition from_uuid_bytes :: "bytes \<Rightarrow> uuid" where "from_uuid_bytes bs = bs"

definition specific_service_id_binary :: "service_id_kind \<Rightarrow> uuid \<Rightarrow> bytes" where
  "specific_service_id_binary kind u = service_id_binary (specific_into kind u)"

definition specific_service_id_fixed_width_binary :: "service_id_kind \<Rightarrow> uuid \<Rightarrow> bytes" where
  "specific_service_id_fixed_width_binary kind u = service_id_fixed_width_binary (specific_into kind u)"

definition specific_service_id_string :: "'r env \<Rightarrow> service_id_kind \<Rightarrow> uuid \<Rightarrow> string" where
  "specific_service_id_string E kind u = service_id_string E (specific_into kind u)"

definition specific_parse_from_service_id_binary :: "service_id_kind \<Rightarrow> bytes \<Rightarrow> uuid option" where
  "specific_parse_from_service_id_binary kind bs =
     Option.bind (parse_from_service_id_binary bs) (\<lambda>s. ok_opt (specific_try_from kind s))"

definition specific_parse_from_service_id_fixed_width_binary :: "service_id_kind \<Rightarrow> bytes \<Rightarrow> uuid option" where
  "specific_parse_from_service_id_fixed_width_binary kind bs =
     Option.bind (parse_from_service_id_fixed_width_binary bs) (\<lambda>s. ok_opt (specific_try_from kind s))"

definition specific_parse_from_service_id_string :: "'r env \<Rightarrow> service_id_kind \<Rightarrow> string \<Rightarrow> uuid option" where
  "specific_parse_from_service_id_string E kind input =
     Option.bind (parse_from_service_id_string E input) (\<lambda>s. ok_opt (specific_try_from kind s))"

definition specific_eq :: "service_id_kind \<Rightarrow> uuid \<Rightarrow> service_id \<Rightarrow> bool" where
  "specific_eq kind u other = (specific_into kind u = other)"

definition ServiceId_debug :: "'r env \<Rightarrow> service_id \<Rightarrow> string" where
  "ServiceId_debug E s = ''<'' @ kind_display (service_id_kind_of s) @ '':'' @ uuid_to_string E (raw_uuid s) @ ''>''"

subsection \<open>Typed parsers accept their own kind\<close>

lemma specific_try_from_iff: "specific_try_from kind s = Ok u \<longleftrightarrow> s = specific_into kind u"
  by (cases kind; cases s) (auto simp: specific_try_from_def specific_into_def)

lemma specific_into_raw: "raw_uuid (specific_into kind u) = u"
  by (cases kind) (simp_all add: specific_into_def)

lemma ok_opt_specific: "ok_opt (specific_try_from kind s) = (if service_id_kind_of s = kind then Some (raw_uuid s) else None)"
  by (cases kind; cases s) (simp_all add: specific_try_from_def)

text \<open>A format of service ids: what is written for an id with a UUID of 16 bytes parses back.\<close>

locale service_id_format =
  fixes print_id :: "service_id \<Rightarrow> 'w" and parse_id :: "'w \<Rightarrow> service_id option" and usable :: bool
  assumes parse_print: "usable \<Longrightarrow> length (raw_uuid s) = 16 \<Longrightarrow> parse_id (print_id s) = Some s"
begin

lemma typed_parse:
  assumes "usable" "length (raw_uuid s) = 16"
  shows "Option.bind (parse_id (print_id s)) (\<lambda>s. ok_opt (specific_try_from kind s)) =
    (if service_id_kind_of s = kind then Some (raw_uuid s) else None)"
  by (simp add: parse_print [OF assms] ok_opt_specific)

end

interpretation binary_format: service_id_format service_id_binary parse_from_service_id_binary True
  by unfold_locales (rule service_id_binary_roundtrip(1))

interpretation fixed_width_format:
  service_id_format service_id_fixed_width_binary parse_from_service_id_fixed_width_binary True
  by unfold_locales (rule service_id_binary_roundtrip(2))

interpretation string_format:
  service_id_format "service_id_string E" "parse_from_service_id_string E" "uuid_text_ok E" for E
  by unfold_locales (rule service_id_string_roundtrip)

lemma typed_parsers:
  assumes "uuid_text_ok E" "length (raw_uuid s) = 16"
  shows "specific_parse_from_service_id_binary kind (service_id_binary s) =
      (if service_id_kind_of s = kind then Some (raw_uuid s) else None)"
    "specific_parse_from_service_id_fixed_width_binary kind (service_id_fixed_width_binary s) =
      (if service_id_kind_of s = kind then Some (raw_uuid s) else None)"
    "specific_parse_from_service_id_string E kind (service_id_string E s) =
      (if service_id_kind_of s = kind then Some (raw_uuid s) else None)"
  unfolding specific_parse_from_service_id_binary_def specific_parse_from_service_id_fixed_width_binary_def
    specific_parse_from_service_id_string_def
  using assms by (simp_all add: binary_format.typed_parse fixed_width_format.typed_parse string_format.typed_parse)

end
