(* ===== verification/Orders.thy ===== *)
theory Orders
  imports Curve Typed_Ids
begin

text \<open>
  The \<open>Ord\<close> implementations of the crate \<open>core\<close>: the constant-time order of public keys, and the derived orders of
  service ids, device ids and protocol addresses. Rust's contract of \<open>Ord::cmp\<close> is the locale \<open>rust_ord\<close>; each type
  is an instance of \<open>linorder\<close> through it.
\<close>

primrec flip_ordering :: "ordering \<Rightarrow> ordering" where
  "flip_ordering Less = Greater"
| "flip_ordering Equal = Equal"
| "flip_ordering Greater = Less"

text \<open>\<open>Ordering::then\<close>, by which derived implementations compare field after field.\<close>

definition then_cmp :: "ordering \<Rightarrow> ordering \<Rightarrow> ordering" where
  "then_cmp a b = (case a of Equal \<Rightarrow> b | _ \<Rightarrow> a)"

locale rust_ord =
  fixes cmp :: "'a \<Rightarrow> 'a \<Rightarrow> ordering"
  assumes cmp_eq: "cmp a b = Equal \<longleftrightarrow> a = b"
    and cmp_flip: "cmp b a = flip_ordering (cmp a b)"
    and cmp_trans: "cmp a b = Less \<Longrightarrow> cmp b c = Less \<Longrightarrow> cmp a c = Less"
begin

lemma le_refl: "cmp a a \<noteq> Greater"
  using cmp_eq [of a a] by simp

lemma le_total: "cmp a b \<noteq> Greater \<or> cmp b a \<noteq> Greater"
  using cmp_flip [of b a] by (cases "cmp a b") simp_all

lemma le_antisym: "cmp a b \<noteq> Greater \<Longrightarrow> cmp b a \<noteq> Greater \<Longrightarrow> a = b"
  using cmp_flip [of b a] cmp_eq [of a b] by (cases "cmp a b") simp_all

lemma le_trans: "cmp a b \<noteq> Greater \<Longrightarrow> cmp b c \<noteq> Greater \<Longrightarrow> cmp a c \<noteq> Greater"
  using cmp_eq [of a b] cmp_eq [of b c] cmp_trans [of a b c]
  by (cases "cmp a b"; cases "cmp b c"; cases "cmp a c") simp_all

lemma less_iff: "cmp a b = Less \<longleftrightarrow> cmp a b \<noteq> Greater \<and> \<not> cmp b a \<noteq> Greater"
  using cmp_flip [of b a] by (cases "cmp a b") simp_all

end

text \<open>The orders of two fields make the order of their pairs.\<close>

locale rust_ord_pair = a: rust_ord cmp_a + b: rust_ord cmp_b
  for cmp_a :: "'a \<Rightarrow> 'a \<Rightarrow> ordering" and cmp_b :: "'b \<Rightarrow> 'b \<Rightarrow> ordering"
begin

lemma pair_ord: "rust_ord (\<lambda>x y. then_cmp (cmp_a (fst x) (fst y)) (cmp_b (snd x) (snd y)))"
proof
  fix x y z :: "'a \<times> 'b"
  let ?c = "\<lambda>x y. then_cmp (cmp_a (fst x) (fst y)) (cmp_b (snd x) (snd y))"
  show "?c x y = Equal \<longleftrightarrow> x = y"
    using a.cmp_eq [of "fst x" "fst y"] b.cmp_eq [of "snd x" "snd y"]
    by (cases "cmp_a (fst x) (fst y)") (auto simp: then_cmp_def prod_eq_iff)
  show "?c y x = flip_ordering (?c x y)"
    using a.cmp_flip [of "fst y" "fst x"] b.cmp_flip [of "snd y" "snd x"]
    by (cases "cmp_a (fst x) (fst y)") (simp_all add: then_cmp_def)
  assume "?c x y = Less" "?c y z = Less"
  then show "?c x z = Less"
    using a.cmp_eq [of "fst x" "fst y"] a.cmp_eq [of "fst y" "fst z"] a.cmp_trans [of "fst x" "fst y" "fst z"]
      b.cmp_trans [of "snd x" "snd y" "snd z"]
    by (cases "cmp_a (fst x) (fst y)"; cases "cmp_a (fst y) (fst z)"; cases "cmp_a (fst x) (fst z)")
      (simp_all add: then_cmp_def)
qed

end

lemma rust_ord_inj:
  assumes "rust_ord cmp" "inj f"
  shows "rust_ord (\<lambda>x y. cmp (f x) (f y))"
proof -
  have same: "cmp (f x) (f y) = Equal \<longleftrightarrow> x = y" for x y
    using rust_ord.cmp_eq [OF assms(1)] assms(2) by (simp add: inj_eq)
  show ?thesis
    by unfold_locales (use same rust_ord.cmp_flip [OF assms(1)] rust_ord.cmp_trans [OF assms(1)] in blast)+
qed

subsection \<open>The comparisons\<close>

definition linear_cmp :: "'a :: linorder \<Rightarrow> 'a \<Rightarrow> ordering" where
  "linear_cmp a b = (if a < b then Less else if a = b then Equal else Greater)"

interpretation linear_order: rust_ord "linear_cmp :: 'a :: linorder \<Rightarrow> 'a \<Rightarrow> ordering"
  by unfold_locales (auto simp: linear_cmp_def split: if_splits)

interpretation lex_order: rust_ord lex_cmp
proof
  fix x y z :: bytes
  show eq: "lex_cmp x y = Equal \<longleftrightarrow> x = y" by (induction x y rule: lex_cmp.induct) auto
  show "lex_cmp y x = flip_ordering (lex_cmp x y)" by (induction x y rule: lex_cmp.induct) auto
  assume "lex_cmp x y = Less" "lex_cmp y z = Less"
  then show "lex_cmp x z = Less"
  proof (induction x y arbitrary: z rule: lex_cmp.induct)
    case (1 a x b y)
    then show ?case by (cases z) (auto split: if_splits)
  next
    case (3 b y)
    then show ?case by (cases z) simp_all
  qed simp_all
qed

interpretation length_lex_order: rust_ord_pair "linear_cmp :: nat \<Rightarrow> nat \<Rightarrow> ordering" lex_cmp
  by unfold_locales

lemma constant_time_cmp_pair:
  "constant_time_cmp x y = then_cmp (linear_cmp (length x) (length y)) (lex_cmp x y)"
  by (simp add: constant_time_cmp_lex then_cmp_def linear_cmp_def)

interpretation constant_time_order: rust_ord constant_time_cmp
proof -
  have "inj (\<lambda>x :: bytes. (length x, x))" by (rule injI) simp
  from rust_ord_inj [OF length_lex_order.pair_ord this] show "rust_ord constant_time_cmp"
    by (simp add: constant_time_cmp_pair [abs_def])
qed

interpretation public_key_order: rust_ord PublicKey_cmp
proof -
  have "inj public_key_bytes" by (rule injI) (simp add: public_key.expand)
  from rust_ord_inj [OF constant_time_order.rust_ord_axioms this] show "rust_ord PublicKey_cmp"
    by (simp add: PublicKey_cmp_def [abs_def])
qed

text \<open>Derived implementations: variants in the order of their declaration, then their contents; fields in order.\<close>

fun ServiceId_cmp :: "service_id \<Rightarrow> service_id \<Rightarrow> ordering" where
  "ServiceId_cmp (Aci a) (Aci b) = lex_cmp a b"
| "ServiceId_cmp (Aci a) (Pni b) = Less"
| "ServiceId_cmp (Pni a) (Aci b) = Greater"
| "ServiceId_cmp (Pni a) (Pni b) = lex_cmp a b"

definition DeviceId_cmp :: "device_id \<Rightarrow> device_id \<Rightarrow> ordering" where
  "DeviceId_cmp a b = linear_cmp (device_id_value a) (device_id_value b)"

definition ProtocolAddress_cmp :: "protocol_address \<Rightarrow> protocol_address \<Rightarrow> ordering" where
  "ProtocolAddress_cmp a b =
     then_cmp (lex_cmp (ascii (pa_name a)) (ascii (pa_name b))) (DeviceId_cmp (pa_device_id a) (pa_device_id b))"

text \<open>The order of service ids is that of their fixed-width binary forms.\<close>

lemma ServiceId_cmp_binary:
  "ServiceId_cmp a b = lex_cmp (service_id_fixed_width_binary a) (service_id_fixed_width_binary b)"
  by (cases a; cases b) (simp_all add: service_id_fixed_width_binary_def)

interpretation service_id_order: rust_ord ServiceId_cmp
proof -
  have "inj service_id_fixed_width_binary"
  proof (rule injI)
    fix a b assume "service_id_fixed_width_binary a = service_id_fixed_width_binary b"
    then show "a = b" by (cases a; cases b) (simp_all add: service_id_fixed_width_binary_def)
  qed
  from rust_ord_inj [OF lex_order.rust_ord_axioms this] show "rust_ord ServiceId_cmp"
    by (simp add: ServiceId_cmp_binary [abs_def])
qed

interpretation device_id_order: rust_ord DeviceId_cmp
proof -
  have "inj device_id_value" by (rule injI) (simp add: device_id.expand)
  from rust_ord_inj [OF linear_order.rust_ord_axioms this] show "rust_ord DeviceId_cmp"
    by (simp add: DeviceId_cmp_def [abs_def])
qed

interpretation name_device_order: rust_ord_pair lex_cmp DeviceId_cmp
  by unfold_locales

lemma inj_ascii: "inj ascii"
proof (rule injI)
  fix s t :: string assume "ascii s = ascii t"
  moreover have "inj (\<lambda>c. of_nat (of_char c) :: u8)"
  proof (rule injI)
    fix c d :: char assume eq: "(of_nat (of_char c) :: u8) = of_nat (of_char d)"
    have "unat (of_nat (of_char c) :: u8) = (of_char c :: nat)" for c :: char
      by (simp add: unsigned_of_nat take_bit_nat_eq_self)
    then have "(of_char c :: nat) = of_char d" using eq by metis
    then show "c = d" by simp
  qed
  ultimately show "s = t" by (simp add: ascii_def inj_map_eq_map of_nat_of_char)
qed

interpretation address_order: rust_ord ProtocolAddress_cmp
proof -
  have "inj (\<lambda>a :: protocol_address. (ascii (pa_name a), pa_device_id a))"
    by (rule injI) (auto simp: inj_eq [OF inj_ascii])
  from rust_ord_inj [OF name_device_order.pair_ord this] show "rust_ord ProtocolAddress_cmp"
    by (simp add: ProtocolAddress_cmp_def [abs_def])
qed

subsection \<open>Instances\<close>

instantiation public_key :: linorder
begin

definition less_eq_public_key :: "public_key \<Rightarrow> public_key \<Rightarrow> bool" where "a \<le> b \<longleftrightarrow> PublicKey_cmp a b \<noteq> Greater"
definition less_public_key :: "public_key \<Rightarrow> public_key \<Rightarrow> bool" where "a < b \<longleftrightarrow> PublicKey_cmp a b = Less"

instance
  by (intro_classes; unfold less_eq_public_key_def less_public_key_def)
    (rule public_key_order.less_iff public_key_order.le_refl public_key_order.le_total |
     erule (1) public_key_order.le_trans | erule (1) public_key_order.le_antisym)+

end

instantiation service_id :: linorder
begin

definition less_eq_service_id :: "service_id \<Rightarrow> service_id \<Rightarrow> bool" where "a \<le> b \<longleftrightarrow> ServiceId_cmp a b \<noteq> Greater"
definition less_service_id :: "service_id \<Rightarrow> service_id \<Rightarrow> bool" where "a < b \<longleftrightarrow> ServiceId_cmp a b = Less"

instance
  by (intro_classes; unfold less_eq_service_id_def less_service_id_def)
    (rule service_id_order.less_iff service_id_order.le_refl service_id_order.le_total |
     erule (1) service_id_order.le_trans | erule (1) service_id_order.le_antisym)+

end

instantiation device_id :: linorder
begin

definition less_eq_device_id :: "device_id \<Rightarrow> device_id \<Rightarrow> bool" where "a \<le> b \<longleftrightarrow> DeviceId_cmp a b \<noteq> Greater"
definition less_device_id :: "device_id \<Rightarrow> device_id \<Rightarrow> bool" where "a < b \<longleftrightarrow> DeviceId_cmp a b = Less"

instance
  by (intro_classes; unfold less_eq_device_id_def less_device_id_def)
    (rule device_id_order.less_iff device_id_order.le_refl device_id_order.le_total |
     erule (1) device_id_order.le_trans | erule (1) device_id_order.le_antisym)+

end

lemma PublicKey_cmp_linear: "PublicKey_cmp = linear_cmp"
proof (intro ext)
  fix a b :: public_key
  show "PublicKey_cmp a b = linear_cmp a b"
    using public_key_order.cmp_eq [of a b] by (cases "PublicKey_cmp a b") (simp_all add: linear_cmp_def less_public_key_def)
qed

end
