(* ===== verification/Session_Handlers.thy ===== *)
theory Session_Handlers
  imports Session_Cipher Session_Init Storage Address
begin

text \<open>
  The entry points of 1:1 messaging: \<open>rust/protocol/src/session.rs\<close> (processing a pre-key message
  and a pre-key bundle) and the handlers of \<open>session_cipher.rs\<close> (encrypting, decrypting). They run
  on the in-memory stores together with the caller's random number generator; the pair is
  returned on every path, because the stores outlive an error.
\<close>

type_synonym 'r world = "protocol_store \<times> 'r"

subsection \<open>\<open>session.rs\<close>\<close>

record pre_keys_used =
  pu_one_time_ec_pre_key_id :: "pre_key_id option"
  pu_signed_ec_pre_key_id :: signed_pre_key_id
  pu_kyber_pre_key_id :: "kyber_pre_key_id option"

definition process_prekey_impl ::
    "'r env \<Rightarrow> pre_key_signal_message \<Rightarrow> session_record \<Rightarrow> protocol_store \<Rightarrow>
     (pre_keys_used option \<times> session_record, signal_error) result" where
  "process_prekey_impl E message rec s =
     bindR (inv_session (promote_matching_session E (ucast (pkm_message_version message))
             (PublicKey_serialize (pkm_base_key message)) rec)) (\<lambda>(found, rec1).
     if found then Ok (None, rec1)
     else if pkm_message_version message = CIPHERTEXT_MESSAGE_PRE_KYBER_VERSION
     then Err (InvalidMessage PreKey ''X3DH no longer supported'')
     else
       bindR (get_signed_pre_key (pkm_signed_pre_key_id message) s) (\<lambda>signed_rec.
       bindR (SignedPreKeyRecord_key_pair E signed_rec) (\<lambda>our_signed_pre_key_pair.
       bindR (case pkm_kyber_payload message of
                Some payload \<Rightarrow> bindR (get_kyber_pre_key (kyp_pre_key_id payload) s) KyberPreKeyRecord_key_pair
              | None \<Rightarrow> Err (InvalidMessage PreKey ''missing pq pre-key ID'')) (\<lambda>our_kyber_pre_key_pair.
       bindR (ok_or (InvalidMessage PreKey ''missing pq ciphertext'')
               (map_option kyp_ciphertext (pkm_kyber_payload message))) (\<lambda>kyber_ciphertext.
       bindR (case pkm_pre_key_id message of
                Some i \<Rightarrow> bindR (get_pre_key i s) (\<lambda>p. bindR (PreKeyRecord_key_pair E p) (\<lambda>kp. Ok (Some kp)))
              | None \<Rightarrow> Ok None) (\<lambda>our_one_time_pre_key_pair.
       let parameters =
         \<lparr>bp_our_identity_key_pair = get_identity_key_pair s,
          bp_our_signed_pre_key_pair = our_signed_pre_key_pair,
          bp_our_one_time_pre_key_pair = our_one_time_pre_key_pair,
          bp_our_ratchet_key_pair = our_signed_pre_key_pair,
          bp_our_kyber_pre_key_pair = our_kyber_pre_key_pair,
          bp_their_identity_key = pkm_identity_key message,
          bp_their_base_key = pkm_base_key message,
          bp_their_kyber_ciphertext = kyber_ciphertext\<rparr> in
       bindR (initialize_bob_session E parameters) (\<lambda>new_session.
       let new_session1 = set_local_registration_id (get_local_registration_id s) new_session;
           new_session2 = set_remote_registration_id (pkm_registration_id message) new_session1
       in Ok (Some \<lparr>pu_one_time_ec_pre_key_id = pkm_pre_key_id message,
                    pu_signed_ec_pre_key_id = pkm_signed_pre_key_id message,
                    pu_kyber_pre_key_id = map_option kyp_pre_key_id (pkm_kyber_payload message)\<rparr>,
              promote_state E new_session2 rec1))))))))"

text \<open>
  \<open>process_prekey\<close>; the identity to save is the message's identity key for the given address, and
  is read off the message by the caller.
\<close>

definition process_prekey ::
    "'r env \<Rightarrow> pre_key_signal_message \<Rightarrow> protocol_address \<Rightarrow> session_record \<Rightarrow> protocol_store \<Rightarrow>
     (pre_keys_used option \<times> identity_key \<times> session_record, signal_error) result" where
  "process_prekey E message remote_address rec s =
     (let their_identity_key = pkm_identity_key message in
      if \<not> is_trusted_identity remote_address their_identity_key Receiving s
      then Err (UntrustedIdentity remote_address)
      else
        bindR (process_prekey_impl E message rec s) (\<lambda>(used, rec').
        Ok (used, their_identity_key, rec')))"

definition process_prekey_bundle ::
    "'r env \<Rightarrow> protocol_address \<Rightarrow> pre_key_bundle \<Rightarrow> system_time \<Rightarrow> 'r world \<Rightarrow>
     (unit, signal_error) result \<times> 'r world" where
  "process_prekey_bundle E remote_address bundle now w =
     (let (s, r) = w;
          their_identity_key = b_identity_key bundle in
      if \<not> is_trusted_identity remote_address their_identity_key Sending s
      then (Err (UntrustedIdentity remote_address), w)
      else if \<not> verify_signature E their_identity_key
                  (PublicKey_serialize (esp_public_key (b_ec_signed_pre_key bundle)))
                  (esp_signature (b_ec_signed_pre_key bundle))
      then (Err SignatureValidationFailed, w)
      else if \<not> verify_signature E their_identity_key
                  (kem_Key_serialize (kpk_public_key (b_kyber_pre_key bundle)))
                  (kpk_signature (b_kyber_pre_key bundle))
      then (Err SignatureValidationFailed, w)
      else
        let rec = (case load_session remote_address s of None \<Rightarrow> SessionRecord_new_fresh | Some rec \<Rightarrow> rec);
            (our_base_key_pair, r1) = KeyPair_generate E r;
            their_signed_prekey = esp_public_key (b_ec_signed_pre_key bundle);
            parameters0 = AliceSignalProtocolParameters_new (get_identity_key_pair s) our_base_key_pair
              their_identity_key their_signed_prekey their_signed_prekey
              (kpk_public_key (b_kyber_pre_key bundle));
            parameters = (case b_pre_key_public bundle of
                            Some key \<Rightarrow> set_their_one_time_pre_key key parameters0
                          | None \<Rightarrow> parameters0)
        in (case initialize_alice_session E parameters r1 of
              (Ok session, r2) \<Rightarrow>
                let session1 = set_unacknowledged_pre_key_message (b_pre_key_id bundle)
                      (esp_id (b_ec_signed_pre_key bundle)) (kp_public_key our_base_key_pair) now session
                in (case set_unacknowledged_kyber_pre_key_id (kpk_id (b_kyber_pre_key bundle)) session1 of
                      Ok session2 \<Rightarrow>
                        let session3 = set_local_registration_id (get_local_registration_id s) session2;
                            session4 = set_remote_registration_id (b_registration_id bundle) session3;
                            s1 = snd (save_identity remote_address their_identity_key s);
                            s2 = store_session remote_address (promote_state E session4 rec) s1
                        in (Ok (), (s2, r2))
                    | Err e \<Rightarrow> (Err e, (s, r2))
                    | Panic \<Rightarrow> (Panic, (s, r2)))
            | (Err e, r2) \<Rightarrow> (Err e, (s, r2))
            | (Panic, r2) \<Rightarrow> (Panic, (s, r2))))"

subsection \<open>\<open>message_encrypt\<close>\<close>

definition pq_send_error :: "'r env \<Rightarrow> spqr_error \<Rightarrow> signal_error" where
  "pq_send_error E e =
     InvalidState ''message_encrypt'' (''post-quantum ratchet send error: '' @ spqr_error_display E e)"

text \<open>
  The pure part of \<open>message_encrypt\<close>: from the loaded session state to the message and the
  updated state. \<open>chain_key.index()\<close> is the counter of the message.
\<close>

definition encrypt_with_state ::
    "'r env \<Rightarrow> bytes \<Rightarrow> protocol_address \<Rightarrow> system_time \<Rightarrow> session_state \<Rightarrow> 'r \<Rightarrow>
     (ciphertext_message \<times> identity_key \<times> session_state, signal_error) result \<times> 'r" where
  "encrypt_with_state E ptext remote_address now st r =
     bindS (inv_session (get_sender_chain_key st), r) (\<lambda>ck r.
     let (sent, r') = pq_ratchet_send E st r in
     bindS (map_err (pq_send_error E) sent, r') (\<lambda>(pqr_msg, pqr_key, st1) r.
     (bindR (generate_keys E (chain_message_keys E ck) pqr_key) (\<lambda>message_keys.
      bindR (inv_session (sender_ratchet_key st1)) (\<lambda>sender_ephemeral.
      let previous_counter = s_previous_counter st1 in
      bindR (inv_session (session_version st1)) (\<lambda>v.
      bindR (if unat v < 256 then Ok (ucast v :: u8)
             else Err (InvalidSessionStructure ''version does not fit in u8'')) (\<lambda>version.
      bindR (inv_session (local_identity_key st1)) (\<lambda>our_identity_key.
      bindR (inv_session (remote_identity_key st1)) (\<lambda>remote.
      bindR (ok_or (InvalidState ''message_encrypt''
               (''no remote identity key for '' @ ProtocolAddress_display remote_address)) remote) (\<lambda>their_identity_key.
      bindR (map_err (\<lambda>_. InvalidSessionStructure ''invalid sender chain message keys'')
              (aes_256_cbc_encrypt E ptext (mks_cipher_key message_keys) (mks_iv message_keys))) (\<lambda>ctext.
      bindR (inv_session (unacknowledged_pre_key_message_items st1)) (\<lambda>items.
      bindR (case items of
               Some items \<Rightarrow>
                 bindR (unacknowledged_too_old (ui_timestamp items) now) (\<lambda>stale.
                 if stale then Err (SessionNotFound remote_address)
                 else
                   bindR (SignalMessage_new E version (mks_mac_key message_keys) sender_ephemeral
                           (chain_key_index ck) previous_counter ctext our_identity_key their_identity_key
                           pqr_msg) (\<lambda>message.
                   let kyber_payload =
                     (case (ui_kyber_pre_key_id items, ui_kyber_ciphertext items) of
                        (Some i, Some ct) \<Rightarrow> Some \<lparr>kyp_pre_key_id = i, kyp_ciphertext = ct\<rparr>
                      | _ \<Rightarrow> None)
                   in Ok (CPreKeySignalMessage (PreKeySignalMessage_new E version
                            (s_local_registration_id st1) (ui_pre_key_id items)
                            (ui_signed_pre_key_id items) kyber_payload (ui_base_key items)
                            our_identity_key message))))
             | None \<Rightarrow>
                 bindR (SignalMessage_new E version (mks_mac_key message_keys) sender_ephemeral
                         (chain_key_index ck) previous_counter ctext our_identity_key their_identity_key
                         pqr_msg) (\<lambda>message. Ok (CSignalMessage message))) (\<lambda>message.
      Ok (message, their_identity_key, set_sender_chain_key (next_chain_key E ck) st1))))))))))), r)))"

definition message_encrypt ::
    "'r env \<Rightarrow> bytes \<Rightarrow> protocol_address \<Rightarrow> system_time \<Rightarrow> 'r world \<Rightarrow>
     (ciphertext_message, signal_error) result \<times> 'r world" where
  "message_encrypt E ptext remote_address now w =
     (let (s, r) = w in
      case load_session remote_address s of
        None \<Rightarrow> (Err (SessionNotFound remote_address), w)
      | Some rec \<Rightarrow>
          (case sr_current_session rec of
             None \<Rightarrow> (Err (SessionNotFound remote_address), w)
           | Some st \<Rightarrow>
               (case encrypt_with_state E ptext remote_address now st r of
                  (Ok (message, their_identity_key, st'), r') \<Rightarrow>
                    if \<not> is_trusted_identity remote_address their_identity_key Sending s
                    then (Err (UntrustedIdentity remote_address), (s, r'))
                    else
                      let s1 = snd (save_identity remote_address their_identity_key s);
                          s2 = store_session remote_address (set_session_state st' rec) s1
                      in (Ok message, (s2, r'))
                | (Err e, r') \<Rightarrow> (Err e, (s, r'))
                | (Panic, r') \<Rightarrow> (Panic, (s, r')))))"

subsection \<open>\<open>message_decrypt\<close>\<close>

text \<open>The updates of the stores after a pre-key message was decrypted.\<close>

definition consume_pre_keys ::
    "pre_keys_used option \<Rightarrow> public_key \<Rightarrow> protocol_store \<Rightarrow> (unit, signal_error) result \<times> protocol_store" where
  "consume_pre_keys used base_key s =
     (case used of
        None \<Rightarrow> (Ok (), s)
      | Some u \<Rightarrow>
          bindS (case pu_kyber_pre_key_id u of
                   Some i \<Rightarrow> mark_kyber_pre_key_used i (pu_signed_ec_pre_key_id u) base_key s
                 | None \<Rightarrow> (Ok (), s)) (\<lambda>_ s.
          case pu_one_time_ec_pre_key_id u of
            Some i \<Rightarrow> (Ok (), remove_pre_key i s)
          | None \<Rightarrow> (Ok (), s)))"

definition message_decrypt_prekey ::
    "'r env \<Rightarrow> pre_key_signal_message \<Rightarrow> protocol_address \<Rightarrow> 'r world \<Rightarrow>
     (bytes, signal_error) result \<times> 'r world" where
  "message_decrypt_prekey E ciphertext remote_address w =
     (let (s, r) = w;
          rec = (case load_session remote_address s of None \<Rightarrow> SessionRecord_new_fresh | Some rec \<Rightarrow> rec)
      in case process_prekey E ciphertext remote_address rec s of
           Err e \<Rightarrow> (Err e, w)
         | Panic \<Rightarrow> (Panic, w)
         | Ok (used, their_identity_key, rec1) \<Rightarrow>
             (case decrypt_message_with_record E rec1 (pkm_message ciphertext) PreKey r of
                (Err e, r') \<Rightarrow> (Err e, (s, r'))
              | (Panic, r') \<Rightarrow> (Panic, (s, r'))
              | (Ok (ptext, rec2), r') \<Rightarrow>
                  let s1 = snd (save_identity remote_address their_identity_key s)
                  in (case consume_pre_keys used (pkm_base_key ciphertext) s1 of
                        (Ok _, s2) \<Rightarrow> (Ok ptext, (store_session remote_address rec2 s2, r'))
                      | (Err e, s2) \<Rightarrow> (Err e, (s2, r'))
                      | (Panic, s2) \<Rightarrow> (Panic, (s2, r')))))"

definition message_decrypt_signal ::
    "'r env \<Rightarrow> signal_message \<Rightarrow> protocol_address \<Rightarrow> 'r world \<Rightarrow> (bytes, signal_error) result \<times> 'r world" where
  "message_decrypt_signal E ciphertext remote_address w =
     (let (s, r) = w in
      case load_session remote_address s of
        None \<Rightarrow> (Err (SessionNotFound remote_address), w)
      | Some rec \<Rightarrow>
          (case decrypt_message_with_record E rec ciphertext Whisper r of
             (Err e, r') \<Rightarrow> (Err e, (s, r'))
           | (Panic, r') \<Rightarrow> (Panic, (s, r'))
           | (Ok (ptext, rec'), r') \<Rightarrow>
               (case bindR (expect_some (sr_current_session rec')) (\<lambda>st.
                     bindR (expect_ok (remote_identity_key st)) expect_some) of
                  Ok their_identity_key \<Rightarrow>
                    if \<not> is_trusted_identity remote_address their_identity_key Receiving s
                    then (Err (UntrustedIdentity remote_address), (s, r'))
                    else
                      let s1 = snd (save_identity remote_address their_identity_key s)
                      in (Ok ptext, (store_session remote_address rec' s1, r'))
                | Err e \<Rightarrow> (Err e, (s, r'))
                | Panic \<Rightarrow> (Panic, (s, r')))))"

text \<open>The debug form of the message type, for the error text.\<close>

primrec message_type_debug :: "ciphertext_message_type \<Rightarrow> string" where
  "message_type_debug Whisper = ''Whisper''"
| "message_type_debug PreKey = ''PreKey''"
| "message_type_debug SenderKey = ''SenderKey''"
| "message_type_debug Plaintext = ''Plaintext''"

definition message_decrypt ::
    "'r env \<Rightarrow> ciphertext_message \<Rightarrow> protocol_address \<Rightarrow> 'r world \<Rightarrow> (bytes, signal_error) result \<times> 'r world" where
  "message_decrypt E ciphertext remote_address w =
     (case ciphertext of
        CSignalMessage m \<Rightarrow> message_decrypt_signal E m remote_address w
      | CPreKeySignalMessage m \<Rightarrow> message_decrypt_prekey E m remote_address w
      | _ \<Rightarrow> (Err (InvalidArgument (''message_decrypt cannot be used to decrypt ''
                 @ message_type_debug (message_type ciphertext) @ '' messages'')), w))"

end
