(* ===== verification/Failure_Log.thy ===== *)
theory Failure_Log
  imports Address Session_Handlers
begin

text \<open>
  The texts of errors (\<open>displaydoc::Display\<close> on \<open>SignalProtocolError\<close> and \<open>CurveError\<close>) and the report that
  \<open>session_cipher.rs\<close> writes to the log when no session decrypts a message. \<open>hex::encode\<close> is the parameter \<open>hx\<close>.
\<close>

subsection \<open>Hexadecimal numbers\<close>

definition hex_digit :: "nat \<Rightarrow> nat \<Rightarrow> char" where
  "hex_digit ten d = char_of (if d < 10 then 48 + d else ten + (d - 10))"

text \<open>The formats \<open>{:#04x}\<close> of a byte and \<open>{:X}\<close>.\<close>

definition format_04x :: "u8 \<Rightarrow> string" where
  "format_04x b = ''0x'' @ [hex_digit 97 (unat b div 16), hex_digit 97 (unat b mod 16)]"

fun format_X :: "nat \<Rightarrow> string" where
  "format_X n = (if n < 16 then [hex_digit 65 n] else format_X (n div 16) @ [hex_digit 65 (n mod 16)])"

declare format_X.simps [simp del]

subsection \<open>Error texts\<close>

text \<open>The derived \<open>Debug\<close> of the key type; that of the message type is \<open>message_type_debug\<close>.\<close>

primrec key_type_debug :: "key_type \<Rightarrow> string" where
  "key_type_debug Djb = ''Djb''"

text \<open>\<open>impl Display for KeyType\<close> of the curve is its \<open>Debug\<close>; that of the KEM key type comes from its documentation.\<close>

definition key_type_display :: "key_type \<Rightarrow> string" where
  "key_type_display t = key_type_debug t"

primrec kem_key_type_display :: "kem_key_type \<Rightarrow> string" where
  "kem_key_type_display Kyber1024 = ''Kyber1024 key''"
| "kem_key_type_display MLKEM1024 = ''ML-KEM 1024 key''"

primrec curve_error_display :: "curve_error \<Rightarrow> string" where
  "curve_error_display CNoKeyTypeIdentifier = ''no key type identifier''"
| "curve_error_display (CBadKeyType b) = ''bad key type <'' @ format_04x b @ ''>''"
| "curve_error_display (CBadKeyLength t n) =
     ''bad key length <'' @ nat_to_string n @ ''> for key with type <'' @ key_type_display t @ ''>''"

primrec error_display :: "'r env \<Rightarrow> signal_error \<Rightarrow> string" where
  "error_display E (InvalidArgument s) = ''invalid argument: '' @ s"
| "error_display E (InvalidState f s) = ''invalid state for call to '' @ f @ '' to succeed: '' @ s"
| "error_display E InvalidProtobufEncoding = ''protobuf encoding was invalid''"
| "error_display E (CiphertextMessageTooShort n) =
     ''ciphertext serialized bytes were too short <'' @ nat_to_string n @ ''>''"
| "error_display E (LegacyCiphertextVersion v) = ''ciphertext version was too old <'' @ nat_to_string (unat v) @ ''>''"
| "error_display E (UnrecognizedCiphertextVersion v) =
     ''ciphertext version was unrecognized <'' @ nat_to_string (unat v) @ ''>''"
| "error_display E (UnrecognizedMessageVersion v) = ''unrecognized message version <'' @ nat_to_string (unat v) @ ''>''"
| "error_display E NoKeyTypeIdentifier = ''no key type identifier''"
| "error_display E (BadKeyType b) = ''bad key type <'' @ format_04x b @ ''>''"
| "error_display E (BadKeyLength t n) =
     ''bad key length <'' @ nat_to_string n @ ''> for key with type <'' @ key_type_display t @ ''>''"
| "error_display E SignatureValidationFailed = ''invalid signature detected''"
| "error_display E (UntrustedIdentity a) = ''untrusted identity for address '' @ ProtocolAddress_display a"
| "error_display E InvalidPreKeyId = ''invalid prekey identifier''"
| "error_display E InvalidSignedPreKeyId = ''invalid signed prekey identifier''"
| "error_display E InvalidKyberPreKeyId = ''invalid Kyber prekey identifier''"
| "error_display E (InvalidMacKeyLength n) = ''invalid MAC key length <'' @ nat_to_string n @ ''>''"
| "error_display E (NoSenderKeyState i) = ''missing sender key state for distribution ID '' @ uuid_to_string E i"
| "error_display E (InvalidProtocolAddress s d) =
     ''protocol address is invalid: '' @ s @ ''.'' @ nat_to_string (unat d)"
| "error_display E (SessionNotFound a) = ''session with '' @ ProtocolAddress_display a @ '' not found''"
| "error_display E (InvalidSessionStructure s) = ''invalid session: '' @ s"
| "error_display E (InvalidSenderKeySession i) =
     ''invalid sender key session with distribution ID '' @ uuid_to_string E i"
| "error_display E (InvalidRegistrationId a n) =
     ''session for '' @ ProtocolAddress_display a @ '' has invalid registration ID '' @ format_X (unat n)"
| "error_display E (DuplicatedMessage i j) =
     ''message with old counter '' @ nat_to_string (unat i) @ '' / '' @ nat_to_string (unat j)"
| "error_display E (InvalidMessage t s) = ''invalid '' @ message_type_debug t @ '' message: '' @ s"
| "error_display E (FfiBindingError s) = ''error while invoking an ffi callback: '' @ s"
| "error_display E (ApplicationCallbackError f s) = ''error in method call '' @ [CHR 0x27] @ f @ [CHR 0x27] @ '': '' @ s"
| "error_display E (InvalidSealedSenderMessage s) = ''invalid sealed sender message: '' @ s"
| "error_display E (UnknownSealedSenderVersion v) =
     ''unknown sealed sender message version '' @ nat_to_string (unat v)"
| "error_display E SealedSenderSelfSend = ''self send of a sealed sender message''"
| "error_display E (UnknownSealedSenderServerCertificateId i) =
     ''unknown server certificate ID: '' @ nat_to_string (unat i)"
| "error_display E (BadKEMKeyType b) = ''bad KEM key type <'' @ format_04x b @ ''>''"
| "error_display E (WrongKEMKeyType b c) =
     ''unexpected KEM key type <'' @ format_04x b @ ''> (expected <'' @ format_04x c @ ''>)''"
| "error_display E (BadKEMKeyLength t n) =
     ''bad KEM key length <'' @ nat_to_string n @ ''> for key with type <'' @ kem_key_type_display t @ ''>''"
| "error_display E (BadKEMCiphertextLength t n) =
     ''bad KEM ciphertext length <'' @ nat_to_string n @ ''> for key with type <'' @ kem_key_type_display t @ ''>''"
| "error_display E BadSealedPQXDHMac = ''invalid MAC on Sealed PQXDH message''"

text \<open>\<open>for_application_callback\<close>: the boxed error is represented by its text.\<close>

definition for_application_callback :: "string \<Rightarrow> string \<Rightarrow> signal_error" where
  "for_application_callback method error = ApplicationCallbackError method error"

text \<open>A curve error keeps its text as an error of the crate.\<close>

lemma from_curve_error_display: "error_display E (from_curve_error e) = curve_error_display e"
  by (cases e) simp_all

subsection \<open>The report\<close>

definition all_receiver_chain_logging_info :: "session_state \<Rightarrow> (bytes \<times> u32 option) list" where
  "all_receiver_chain_logging_info st =
     map (\<lambda>c. (c_sender_ratchet_key c, map_option ck_index (c_chain_key c))) (s_receiver_chains st)"

definition sender_ratchet_key_for_logging ::
    "(bytes \<Rightarrow> string) \<Rightarrow> session_state \<Rightarrow> (string, invalid_session_error) result" where
  "sender_ratchet_key_for_logging hx st = bindR (sender_ratchet_key st) (\<lambda>k. Ok (hx (public_key_bytes k)))"

text \<open>\<open>impl Display for InvalidSessionError\<close>\<close>

definition invalid_session_display :: "invalid_session_error \<Rightarrow> string" where
  "invalid_session_display e = e"

definition chain_line :: "(bytes \<Rightarrow> string) \<Rightarrow> bytes \<times> u32 option \<Rightarrow> string" where
  "chain_line hx chain =
     ''Receiver chain with sender ratchet public key '' @ hx (fst chain) @ '' chain key index '' @
       (case snd chain of Some i \<Rightarrow> nat_to_string (unat i) | None \<Rightarrow> ''missing in protobuf'')"

definition append_session_summary ::
    "'r env \<Rightarrow> (bytes \<Rightarrow> string) \<Rightarrow> string list \<Rightarrow> nat \<Rightarrow> (session_state, invalid_session_error) result \<Rightarrow>
     signal_error option \<Rightarrow> string list" where
  "append_session_summary E hx lines idx state err =
     (let chains = mapR all_receiver_chain_logging_info state;
          n = ''Candidate session '' @ nat_to_string idx
      in case err of
           Some e \<Rightarrow>
             (let failed = n @ '' failed with '' @ [CHR 0x27] @ error_display E e @ [CHR 0x27] in
              case chains of
                Ok cs \<Rightarrow> lines @ [failed @ '', had '' @ nat_to_string (length cs) @ '' receiver chains''] @ map (chain_line hx) cs
              | Err state_err \<Rightarrow>
                  lines @ [failed @ ''; cannot get receiver chain info ('' @ invalid_session_display state_err @ '')'']
              | Panic \<Rightarrow> lines)
         | None \<Rightarrow>
             (case chains of
                Ok cs \<Rightarrow> lines @ [n @ '' had '' @ nat_to_string (length cs) @ '' receiver chains''] @ map (chain_line hx) cs
              | Err state_err \<Rightarrow>
                  lines @ [n @ '': cannot get receiver chain info ('' @ invalid_session_display state_err @ '')'']
              | Panic \<Rightarrow> lines))"

text \<open>\<open>lines.join("\n")\<close>\<close>

fun join_lines :: "string list \<Rightarrow> string" where
  "join_lines [] = []"
| "join_lines [l] = l"
| "join_lines (l # ls) = l @ [CHR 0x0A] @ join_lines ls"

text \<open>The loop over the older sessions, each with the next error as long as there is one.\<close>

definition summaries ::
    "'r env \<Rightarrow> (bytes \<Rightarrow> string) \<Rightarrow> (nat \<times> (session_state, invalid_session_error) result \<times> signal_error option) list \<Rightarrow>
     string list \<Rightarrow> string list" where
  "summaries E hx items lines = fold (\<lambda>(idx, state, err) ls. append_session_summary E hx ls (idx + 1) state err) items lines"

definition failure_headline :: "(bytes \<Rightarrow> string) \<Rightarrow> protocol_address \<Rightarrow> signal_message \<Rightarrow> string" where
  "failure_headline hx remote_address ciphertext =
     ''Message from '' @ ProtocolAddress_display remote_address @
     '' failed to decrypt; sender ratchet public key '' @ hx (public_key_bytes (sm_sender_ratchet_key ciphertext)) @
     '' message counter '' @ nat_to_string (unat (sm_counter ciphertext))"

definition create_decryption_failure_log ::
    "'r env \<Rightarrow> (bytes \<Rightarrow> string) \<Rightarrow> protocol_address \<Rightarrow> signal_error list \<Rightarrow> session_record \<Rightarrow> signal_message \<Rightarrow>
     (string, signal_error) result" where
  "create_decryption_failure_log E hx remote_address errs rec ciphertext =
     (let lines = [failure_headline hx remote_address ciphertext];
          (errs, lines) = (case sr_current_session rec of
              Some current \<Rightarrow>
                (let err = (case errs of [] \<Rightarrow> None | e # _ \<Rightarrow> Some e);
                     errs = (if err \<noteq> None then drop 1 errs else errs)
                 in (errs, append_session_summary E hx lines 0 (Ok current) err))
            | None \<Rightarrow> (errs, lines @ [''No current session'']));
          states = previous_session_states E rec;
          items = enumerate 0 (zip states (map Some errs @ replicate (length states) None))
      in Ok (join_lines (summaries E hx items lines)))"

text \<open>
  The \<open>CurrentOrPrevious\<close> of \<open>decrypt_message_with_record\<close>, which appears in messages to the log only.
\<close>

datatype current_or_previous = Current | Previous

primrec current_or_previous_display :: "current_or_previous \<Rightarrow> string" where
  "current_or_previous_display Current = ''current''"
| "current_or_previous_display Previous = ''previous''"

text \<open>
  The report is always made: the calls with \<open>?\<close> in \<open>session_cipher.rs\<close> have no error to pass on, so that leaving the
  log out changes no result. Each session tried has its summary, with the error it failed with.
\<close>

lemma create_decryption_failure_log_Ok: "is_ok (create_decryption_failure_log E hx a errs rec m)"
  by (auto simp: create_decryption_failure_log_def Let_def split: option.splits list.splits)

definition summary_head :: "'r env \<Rightarrow> nat \<Rightarrow> (session_state, invalid_session_error) result \<Rightarrow> signal_error option \<Rightarrow> string" where
  "summary_head E idx state err = hd (append_session_summary E (\<lambda>b. []) [] idx state err)"

lemma append_session_summary_extends:
  "state \<noteq> Panic \<Longrightarrow> \<exists>more. append_session_summary E hx lines idx state err = lines @ summary_head E idx state err # more"
  by (cases state) (auto simp: append_session_summary_def summary_head_def Let_def split: option.splits)

lemma summaries_keep: "set lines \<subseteq> set (summaries E hx items lines)"
proof (induction items arbitrary: lines)
  case (Cons i items)
  obtain idx state err where i: "i = (idx, state, err)" by (rule prod_cases3)
  have "set lines \<subseteq> set (append_session_summary E hx lines (idx + 1) state err)"
    by (auto simp: append_session_summary_def Let_def split: option.splits result.splits)
  then show ?case using Cons by (force simp: summaries_def i)
qed (simp add: summaries_def)

lemma summaries_item:
  assumes "(idx, state, err) \<in> set items" "state \<noteq> Panic"
  shows "summary_head E (idx + 1) state err \<in> set (summaries E hx items lines)"
  using assms(1)
proof (induction items arbitrary: lines)
  case (Cons i items)
  show ?case
  proof (cases "i = (idx, state, err)")
    case True
    obtain more where "append_session_summary E hx lines (idx + 1) state err = lines @ summary_head E (idx + 1) state err # more"
      using append_session_summary_extends [OF assms(2)] by blast
    then show ?thesis
      using summaries_keep [of "lines @ summary_head E (idx + 1) state err # more" E hx items]
      by (simp add: summaries_def True)
  next
    case False
    then show ?thesis using Cons by (cases i) (auto simp: summaries_def)
  qed
qed simp

text \<open>The lines of the report: the first error is that of the current session, the others are those of the older ones.\<close>

definition log_lines ::
    "'r env \<Rightarrow> (bytes \<Rightarrow> string) \<Rightarrow> signal_error list \<Rightarrow> session_record \<Rightarrow> string list \<Rightarrow> bool" where
  "log_lines E hx errs rec lines \<longleftrightarrow>
     (case sr_current_session rec of
        None \<Rightarrow> ''No current session'' \<in> set lines \<and>
          (\<forall>i < length errs. i < length (previous_session_states E rec) \<longrightarrow>
             summary_head E (i + 1) (previous_session_states E rec ! i) (Some (errs ! i)) \<in> set lines)
      | Some st \<Rightarrow> (errs \<noteq> [] \<longrightarrow> summary_head E 0 (Ok st) (Some (hd errs)) \<in> set lines) \<and>
          (\<forall>i < length errs - 1. i < length (previous_session_states E rec) \<longrightarrow>
             summary_head E (i + 1) (previous_session_states E rec ! i) (Some (errs ! (i + 1))) \<in> set lines))"

lemma previous_session_states_no_panic: "i < length (previous_session_states E rec) \<Longrightarrow> previous_session_states E rec ! i \<noteq> Panic"
  by (auto simp: previous_session_states_def decode_previous_def split: option.splits)

lemma summaries_errors:
  assumes "i < length errs" "i < length states" "states ! i \<noteq> Panic"
  shows "summary_head E (i + 1) (states ! i) (Some (errs ! i)) \<in>
    set (summaries E hx (enumerate 0 (zip states (map Some errs @ replicate (length states) None))) lines)"
proof -
  have "enumerate 0 (zip states (map Some errs @ replicate (length states) None)) ! i = (i, states ! i, Some (errs ! i))"
    using assms(1,2) by (simp add: nth_enumerate_eq nth_append)
  then have "(i, states ! i, Some (errs ! i)) \<in> set (enumerate 0 (zip states (map Some errs @ replicate (length states) None)))"
    using assms(1,2) by (metis length_enumerate length_append length_map length_replicate length_zip min_less_iff_conj
        nth_mem trans_less_add2)
  then show ?thesis using assms(3) by (rule summaries_item)
qed

lemma create_decryption_failure_log_lines:
  "\<exists>lines. create_decryption_failure_log E hx a errs rec m = Ok (join_lines lines) \<and> log_lines E hx errs rec lines"
proof -
  let ?first = "failure_headline hx a m"
  define states where "states = previous_session_states E rec"
  let ?lines = "\<lambda>es. summaries E hx (enumerate 0 (zip states (map Some es @ replicate (length states) None)))"
  have errors: "summary_head E (i + 1) (states ! i) (Some (es ! i)) \<in> set (?lines es start)"
    if "i < length es" "i < length states" for i es start
    using summaries_errors [OF that] previous_session_states_no_panic that(2) unfolding states_def by blast
  show ?thesis
  proof (cases "sr_current_session rec")
    case None
    have "''No current session'' \<in> set (?lines errs [?first, ''No current session''])" using summaries_keep by force
    then have "log_lines E hx errs rec (?lines errs [?first, ''No current session''])"
      using None errors [of _ errs] by (simp add: log_lines_def states_def)
    moreover have "create_decryption_failure_log E hx a errs rec m = Ok (join_lines (?lines errs [?first, ''No current session'']))"
      using None by (simp add: create_decryption_failure_log_def Let_def states_def)
    ultimately show ?thesis by blast
  next
    case (Some st)
    let ?start = "\<lambda>err. append_session_summary E hx [?first] 0 (Ok st) err"
    have start: "summary_head E 0 (Ok st) err \<in> set (?lines es (?start err))" for err es
      using append_session_summary_extends [of "Ok st" E hx "[?first]" 0 err] summaries_keep by fastforce
    show ?thesis
    proof (cases errs)
      case Nil
      have "create_decryption_failure_log E hx a errs rec m = Ok (join_lines (?lines [] (?start None)))"
        using Some Nil by (simp add: create_decryption_failure_log_def Let_def states_def)
      then show ?thesis using Some Nil by (auto simp: log_lines_def)
    next
      case (Cons e es)
      have "log_lines E hx errs rec (?lines es (?start (Some e)))"
        using Some Cons start [of "Some e" es] errors [of _ es] by (simp add: log_lines_def states_def)
      moreover have "create_decryption_failure_log E hx a errs rec m = Ok (join_lines (?lines es (?start (Some e))))"
        using Some Cons by (simp add: create_decryption_failure_log_def Let_def states_def)
      ultimately show ?thesis by blast
    qed
  qed
qed

end
