(* ===== verification/Handlers_Correctness.thy ===== *)
theory Handlers_Correctness
  imports Record_Correctness Session_Handlers
begin

text \<open>
  What the entry points of 1:1 messaging do to the stores: a failed decryption or encryption
  leaves them as they were, a success keeps the record invariant of every session, a replayed
  message is refused, and the first message of a new session decrypts to what was encrypted.
\<close>

subsection \<open>\<open>message_decrypt_signal\<close>\<close>

definition store_ok :: "'r env \<Rightarrow> protocol_store \<Rightarrow> bool" where
  "store_ok E s \<longleftrightarrow> (\<forall>a rec. load_session a s = Some rec \<longrightarrow> record_ok E rec)"

lemma load_session_save_identity [simp]: "load_session a (snd (save_identity b k s)) = load_session a s"
  by (auto simp: load_session_def save_identity_def Let_def split: option.splits)

lemma is_trusted_store_session [simp]: "is_trusted_identity a k d (store_session b rec s) = is_trusted_identity a k d s"
  by (simp add: is_trusted_identity_def store_session_def)

lemma get_identity_store_session [simp]: "get_identity a (store_session b rec s) = get_identity a s"
  by (simp add: get_identity_def store_session_def)

lemma store_ok_store_session:
  "store_ok E s \<Longrightarrow> record_ok E rec \<Longrightarrow> store_ok E (store_session a rec s)"
  by (auto simp: store_ok_def sessions.load_store split: if_splits)

lemma store_ok_save_identity [simp]: "store_ok E (snd (save_identity a k s)) = store_ok E s"
  by (simp add: store_ok_def)

lemma message_decrypt_signal_cases:
  assumes "message_decrypt_signal E m a (s, r) = (Ok ptext, (s', r'))"
  obtains rec rec' st k where "load_session a s = Some rec"
    "decrypt_message_with_record E rec m Whisper r = (Ok (ptext, rec'), r')"
    "sr_current_session rec' = Some st" "remote_identity_key st = Ok (Some k)"
    "is_trusted_identity a k Receiving s"
    "s' = store_session a rec' (snd (save_identity a k s))"
proof -
  obtain rec where rec: "load_session a s = Some rec"
    using assms by (auto simp: message_decrypt_signal_def split: option.splits)
  obtain res r1 where d: "decrypt_message_with_record E rec m Whisper r = (res, r1)" by fastforce
  obtain pt rec' where res: "res = Ok (pt, rec')"
    using assms rec d by (cases res) (auto simp: message_decrypt_signal_def)
  obtain k where k: "bindR (expect_some (sr_current_session rec')) (\<lambda>st.
      bindR (expect_ok (remote_identity_key st)) expect_some) = (Ok k :: (_, signal_error) result)"
    using assms rec d res by (auto simp: message_decrypt_signal_def split: result.splits)
  then obtain st where "sr_current_session rec' = Some st" "remote_identity_key st = Ok (Some k)"
    by (auto simp: result_simps)
  then show thesis
    using assms rec d res k that by (auto simp: message_decrypt_signal_def Let_def split: if_splits)
qed

lemma message_decrypt_signal_frame:
  assumes "message_decrypt_signal E m a (s, r) = (res, (s', r'))"
  shows "is_ok res \<or> s' = s"
proof (cases "load_session a s")
  case (Some rec)
  obtain x r1 where d: "decrypt_message_with_record E rec m Whisper r = (x, r1)" by fastforce
  show ?thesis
  proof (cases x)
    case (Ok y)
    then show ?thesis
      using assms Some d by (cases y) (auto simp: message_decrypt_signal_def Let_def split: result.splits if_splits)
  qed (use assms Some d in \<open>auto simp: message_decrypt_signal_def\<close>)
qed (use assms in \<open>auto simp: message_decrypt_signal_def\<close>)

lemma message_decrypt_signal_store_ok:
  assumes "codec_ok (session_codec E)" "hash_lengths E" "public_key_ok (sm_sender_ratchet_key m)"
    "sm_counter m \<noteq> - 1" "store_ok E s" "message_decrypt_signal E m a (s, r) = (res, (s', r'))"
  shows "store_ok E s'"
proof (cases res)
  case (Ok ptext)
  then have "message_decrypt_signal E m a (s, r) = (Ok ptext, (s', r'))" using assms(6) by simp
  then show ?thesis
  proof (cases rule: message_decrypt_signal_cases)
    case (1 rec rec' st k)
    have "record_ok E rec" using assms(5) 1(1) by (auto simp: store_ok_def)
    then have "record_ok E rec'"
      using decrypt_message_with_record_step(1) [OF assms(1) _ assms(3,2,4) 1(2)] by simp
    then show ?thesis using assms(5) 1(6) by (simp add: store_ok_store_session)
  qed
next
  case (Err e)
  then show ?thesis using message_decrypt_signal_frame [OF assms(6)] assms(5) by simp
next
  case Panic
  then show ?thesis using message_decrypt_signal_frame [OF assms(6)] assms(5) by simp
qed

lemma message_decrypt_signal_replay:
  assumes "codec_ok (session_codec E)" "hash_lengths E" "public_key_ok (sm_sender_ratchet_key m)"
    "sm_counter m \<noteq> - 1" "store_ok E s" "message_decrypt_signal E m a (s, r) = (Ok ptext, (s', r'))"
  shows "\<exists>n. message_decrypt_signal E m a (s', r2) = (Err (DuplicatedMessage n (sm_counter m)), (s', r2))"
  using assms(6)
proof (cases rule: message_decrypt_signal_cases)
  case (1 rec rec' st k)
  have "record_ok E rec" using assms(5) 1(1) by (auto simp: store_ok_def)
  then obtain n where "decrypt_message_with_record E rec' m Whisper r2 = (Err (DuplicatedMessage n (sm_counter m)), r2)"
    using decrypt_message_with_record_replay [OF assms(1) _ assms(3,2,4) 1(2)] by blast
  then show ?thesis
    using 1(6) by (auto simp: message_decrypt_signal_def sessions.load_store_same)
qed

text \<open>The three \<open>expect\<close>s after a successful decryption never fail, so a panic can only come from below.\<close>

lemma message_decrypt_signal_no_panic:
  assumes "env_lengths E" "message_ok m" "\<forall>rec. load_session a s = Some rec \<longrightarrow> record_sound E rec"
  shows "fst (message_decrypt_signal E m a (s, r)) \<noteq> Panic"
proof (cases "load_session a s")
  case (Some rec)
  obtain x r1 where d: "decrypt_message_with_record E rec m Whisper r = (x, r1)" by fastforce
  have rec: "record_sound E rec" using assms(3) Some by simp
  then have np: "x \<noteq> Panic"
    using decrypt_message_with_record_no_panic [OF assms(1,2), of rec Whisper r] d by simp
  show ?thesis
  proof (cases x)
    case (Ok y)
    obtain pt rec' where y: "y = (pt, rec')" by (cases y)
    obtain st k where "sr_current_session rec' = Some st" "remote_identity_key st = Ok (Some k)"
      using decrypt_message_with_record_remote [OF assms(1,2) rec] d Ok y by blast
    then show ?thesis using Some d Ok y by (simp add: message_decrypt_signal_def Let_def)
  qed (use Some d np in \<open>auto simp: message_decrypt_signal_def\<close>)
qed (simp add: message_decrypt_signal_def)

subsection \<open>\<open>message_encrypt\<close>\<close>

lemma session_reads_pq [simp]:
  "sender_ratchet_key (st\<lparr>s_pq_ratchet_state := pq\<rparr>) = sender_ratchet_key st"
  "session_version (st\<lparr>s_pq_ratchet_state := pq\<rparr>) = session_version st"
  "local_identity_key (st\<lparr>s_pq_ratchet_state := pq\<rparr>) = local_identity_key st"
  "remote_identity_key (st\<lparr>s_pq_ratchet_state := pq\<rparr>) = remote_identity_key st"
  "unacknowledged_pre_key_message_items (st\<lparr>s_pq_ratchet_state := pq\<rparr>) = unacknowledged_pre_key_message_items st"
  by (simp_all add: sender_ratchet_key_def session_version_def local_identity_key_def remote_identity_key_def
      unacknowledged_pre_key_message_items_def cong: option.case_cong)

definition kyber_payload_of :: "unacknowledged_items \<Rightarrow> kyber_payload option" where
  "kyber_payload_of items =
     (case (ui_kyber_pre_key_id items, ui_kyber_ciphertext items) of
        (Some i, Some ct) \<Rightarrow> Some \<lparr>kyp_pre_key_id = i, kyp_ciphertext = ct\<rparr>
      | _ \<Rightarrow> None)"

lemma encrypt_with_state_cases:
  assumes "encrypt_with_state E ptext a now st r = (Ok (msg, their_id, st'), r')"
  obtains ck pq key pq_msg mk eph v our_id ct m items where
    "get_sender_chain_key st = Ok ck"
    "spqr_send E (s_pq_ratchet_state st) r = (Ok (pq, key, pq_msg), r')"
    "generate_keys E (chain_message_keys E ck) key = (Ok mk :: (_, signal_error) result)"
    "sender_ratchet_key st = Ok eph" "session_version st = Ok v" "unat v < 256"
    "local_identity_key st = Ok our_id" "remote_identity_key st = Ok (Some their_id)"
    "aes_256_cbc_encrypt E ptext (mks_cipher_key mk) (mks_iv mk) = Ok ct"
    "unacknowledged_pre_key_message_items st = Ok items"
    "SignalMessage_new E (ucast v) (mks_mac_key mk) eph (chain_key_index ck) (s_previous_counter st) ct
       our_id their_id pq_msg = Ok m"
    "msg = (case items of
        None \<Rightarrow> CSignalMessage m
      | Some items \<Rightarrow> CPreKeySignalMessage (PreKeySignalMessage_new E (ucast v) (s_local_registration_id st)
          (ui_pre_key_id items) (ui_signed_pre_key_id items) (kyber_payload_of items) (ui_base_key items) our_id m))"
    "st' = set_sender_chain_key (next_chain_key E ck) (st\<lparr>s_pq_ratchet_state := pq\<rparr>)"
proof -
  obtain ck where ck: "get_sender_chain_key st = Ok ck"
    using assms by (auto simp: encrypt_with_state_def result_simps)
  obtain res r1 where send: "spqr_send E (s_pq_ratchet_state st) r = (res, r1)" by fastforce
  obtain pq key pq_msg where res: "res = Ok (pq, key, pq_msg)"
    using assms ck send by (cases res) (auto simp: encrypt_with_state_def pq_ratchet_send_def)
  obtain items where it: "unacknowledged_pre_key_message_items st = Ok items"
    using assms ck send res by (auto simp: encrypt_with_state_def pq_ratchet_send_def Let_def result_simps)
  show thesis
    using assms ck send res it that
    by (cases items) (auto simp: encrypt_with_state_def pq_ratchet_send_def Let_def result_simps kyber_payload_of_def
        split: if_splits)
qed

lemma message_encrypt_cases:
  assumes "message_encrypt E ptext a now (s, r) = (Ok msg, (s', r'))"
  obtains rec st st' k where "load_session a s = Some rec" "sr_current_session rec = Some st"
    "encrypt_with_state E ptext a now st r = (Ok (msg, k, st'), r')" "is_trusted_identity a k Sending s"
    "s' = store_session a (set_session_state st' rec) (snd (save_identity a k s))"
proof -
  obtain rec where rec: "load_session a s = Some rec"
    using assms by (auto simp: message_encrypt_def split: option.splits)
  obtain st where st: "sr_current_session rec = Some st"
    using assms rec by (auto simp: message_encrypt_def split: option.splits)
  obtain x r1 where e: "encrypt_with_state E ptext a now st r = (x, r1)" by fastforce
  show thesis
  proof (cases x)
    case (Ok y)
    then show thesis
      using assms rec st e that by (cases y) (auto simp: message_encrypt_def Let_def split: if_splits)
  qed (use assms rec st e in \<open>auto simp: message_encrypt_def\<close>)
qed

lemma message_encrypt_frame:
  assumes "message_encrypt E ptext a now (s, r) = (res, (s', r'))"
  shows "is_ok res \<or> s' = s"
proof (cases "load_session a s")
  case (Some rec)
  show ?thesis
  proof (cases "sr_current_session rec")
    case st: (Some st)
    obtain x r1 where e: "encrypt_with_state E ptext a now st r = (x, r1)" by fastforce
    show ?thesis
      using assms Some st e by (cases x) (auto simp: message_encrypt_def Let_def split: if_splits)
  qed (use assms Some in \<open>auto simp: message_encrypt_def\<close>)
qed (use assms in \<open>auto simp: message_encrypt_def\<close>)

lemma message_encrypt_store_ok:
  assumes "store_ok E s" "message_encrypt E ptext a now (s, r) = (res, (s', r'))"
  shows "store_ok E s'"
proof (cases "is_ok res")
  case True
  then obtain msg where "message_encrypt E ptext a now (s, r) = (Ok msg, (s', r'))"
    using assms(2) by (cases res) auto
  then show ?thesis
  proof (cases rule: message_encrypt_cases)
    case (1 rec st st' k)
    have rec: "record_ok E rec" using assms(1) 1(1) by (auto simp: store_ok_def)
    have "session_ok st'"
      using 1(3)
    proof (cases rule: encrypt_with_state_cases)
      case 1
      then show ?thesis using rec \<open>sr_current_session rec = Some st\<close> by (simp add: record_inv_def)
    qed
    then show ?thesis using assms(1) 1(5) rec by (simp add: store_ok_store_session record_inv_set_session_state)
  qed
next
  case False
  then show ?thesis using message_encrypt_frame [OF assms(2)] assms(1) by simp
qed

text \<open>The chain index is the counter of the message, and the stored chain moves on by one.\<close>

definition signal_part :: "ciphertext_message \<Rightarrow> signal_message option" where
  "signal_part msg = (case msg of CSignalMessage m \<Rightarrow> Some m | CPreKeySignalMessage p \<Rightarrow> Some (pkm_message p) | _ \<Rightarrow> None)"

lemma get_sender_chain_key_set:
  "s_sender_chain st \<noteq> None \<Longrightarrow> chain_key_ok ck \<Longrightarrow> get_sender_chain_key (set_sender_chain_key ck st) = Ok ck"
  by (auto simp: get_sender_chain_key_def set_sender_chain_key_def to_pb_chain_key_def chain_key_ok_def)

lemma encrypt_with_state_counter:
  assumes "hash_lengths E" "encrypt_with_state E ptext a now st r = (Ok (msg, k, st'), r')"
  shows "\<exists>m ck. signal_part msg = Some m \<and> get_sender_chain_key st = Ok ck \<and> sm_counter m = chain_key_index ck \<and>
     get_sender_chain_key st' = Ok (next_chain_key E ck)"
  using assms(2)
proof (cases rule: encrypt_with_state_cases)
  case (1 ck pq key pq_msg mk eph v our_id ct m items)
  have "s_sender_chain st \<noteq> None" using 1(1) by (auto simp: get_sender_chain_key_def result_simps)
  then have "get_sender_chain_key st' = Ok (next_chain_key E ck)"
    unfolding 1(13) using assms(1) by (intro get_sender_chain_key_set) simp_all
  moreover have "signal_part msg = Some m"
    by (cases items) (simp_all add: 1(12) signal_part_def PreKeySignalMessage_new_def Let_def)
  ultimately show ?thesis using 1(1) SignalMessage_new_fields(3) [OF 1(11)] by auto
qed

subsection \<open>The first message of a session\<close>

text \<open>
  What the \<open>spqr\<close> crate promises of a fresh pair of states made from the same authentication key:
  a message of the one side is accepted by the other, with the same key.
\<close>

definition spqr_pairs :: "'r env \<Rightarrow> bool" where
  "spqr_pairs E \<longleftrightarrow> (\<forall>k self a. spqr_initial_state E (spqr_session_params A2B k self) = Ok a \<longrightarrow>
     (\<exists>b. spqr_initial_state E (spqr_session_params B2A k self) = Ok b \<and>
       (\<forall>r a' key msg r'. spqr_send E a r = (Ok (a', key, msg), r') \<longrightarrow> (\<exists>b'. spqr_recv E b msg = Ok (b', key)))))"

lemma initialize_alice_session_cases:
  assumes "initialize_alice_session E a r = (Ok st, r')"
  obtains ss ct r1 rk ck pqr kp rk' ck' pq where
    "kem_PublicKey_encapsulate E (ap_their_kyber_pre_key a) r = (Ok (ss, ct), r1)"
    "derive_keys E (alice_dh E a @ ss) = (rk, ck, pqr)" "KeyPair_generate E r1 = (kp, r')"
    "create_chain E rk (ap_their_ratchet_key a) (kp_private_key kp) = (rk', ck')"
    "spqr_initial_state E (spqr_session_params A2B pqr
       (id_identity_key (ap_our_identity_key_pair a) = ap_their_identity_key a)) = Ok pq"
    "st = set_kyber_ciphertext ct (set_sender_chain kp ck' (add_receiver_chain (ap_their_ratchet_key a) ck
       (SessionState_new CIPHERTEXT_MESSAGE_CURRENT_VERSION (id_identity_key (ap_our_identity_key_pair a))
          (ap_their_identity_key a) rk' (kp_public_key (ap_our_base_key_pair a)) pq)))"
proof -
  obtain res r1 where k: "kem_PublicKey_encapsulate E (ap_their_kyber_pre_key a) r = (res, r1)" by fastforce
  obtain ss ct where res: "res = Ok (ss, ct)"
    using assms k by (cases res) (auto simp: initialize_alice_session_def)
  obtain rk ck pqr where d: "derive_keys E (alice_dh E a @ ss) = (rk, ck, pqr)" by (metis prod_cases3)
  obtain kp r2 where kp: "KeyPair_generate E r1 = (kp, r2)" by fastforce
  obtain rk' ck' where c: "create_chain E rk (ap_their_ratchet_key a) (kp_private_key kp) = (rk', ck')" by fastforce
  show thesis
    using assms k res d kp c that
    by (auto simp: initialize_alice_session_def Let_def alice_dh_def result_simps)
qed

lemma get_or_create_chain_key_creates:
  assumes "s_receiver_chains st = []" "state_root_key st = Ok rk" "sender_ratchet_private_key E st = Ok our"
    "get_sender_chain_key st = Ok sck"
  shows "\<exists>st1. get_or_create_chain_key E st te r =
    (Ok (snd (create_chain E rk te our), st1), snd (KeyPair_generate E r))"
proof -
  have "get_sender_chain_key (add_receiver_chain te k (set_root_key rk' st)) = Ok sck" for k rk'
    using assms(4) by (simp add: get_sender_chain_key_def add_receiver_chain_def set_root_key_def)
  then show ?thesis
    using assms by (simp add: get_or_create_chain_key_def get_receiver_chain_key_def get_receiver_chain_def
        Let_def split: prod.splits)
qed

text \<open>
  Bob's fresh session decrypts the first message that Alice encrypts with hers, whatever else
  (registration ids, pending pre-key data) was set in the meantime.
\<close>

definition sends_as :: "session_state \<Rightarrow> session_state \<Rightarrow> bool" where
  "sends_as st0 st \<longleftrightarrow>
     s_sender_chain st = s_sender_chain st0 \<and> s_session_version st = s_session_version st0 \<and>
     s_local_identity_public st = s_local_identity_public st0 \<and>
     s_remote_identity_public st = s_remote_identity_public st0 \<and>
     s_root_key st = s_root_key st0 \<and> s_receiver_chains st = s_receiver_chains st0 \<and>
     s_pq_ratchet_state st = s_pq_ratchet_state st0"

lemma sends_as_reads:
  assumes "sends_as st0 st"
  shows "get_sender_chain_key st = get_sender_chain_key st0" "sender_ratchet_key st = sender_ratchet_key st0"
    "sender_ratchet_private_key E st = sender_ratchet_private_key E st0"
    "session_version st = session_version st0" "local_identity_key st = local_identity_key st0"
    "remote_identity_key st = remote_identity_key st0" "state_root_key st = state_root_key st0"
    "session_ok st = session_ok st0" "session_healthy st = session_healthy st0"
  using assms
  by (simp_all add: session_healthy_def seeded_def sends_as_def get_sender_chain_key_def sender_ratchet_key_def sender_ratchet_private_key_def
      session_version_def local_identity_key_def remote_identity_key_def state_root_key_def session_ok_def)

definition alice_session ::
    "alice_parameters \<Rightarrow> root_key \<Rightarrow> chain_key \<Rightarrow> key_pair \<Rightarrow> chain_key \<Rightarrow> bytes \<Rightarrow> bytes \<Rightarrow> session_state" where
  "alice_session a rk' ck kp ck' ct pq =
     set_kyber_ciphertext ct (set_sender_chain kp ck' (add_receiver_chain (ap_their_ratchet_key a) ck
       (SessionState_new CIPHERTEXT_MESSAGE_CURRENT_VERSION (id_identity_key (ap_our_identity_key_pair a))
          (ap_their_identity_key a) rk' (kp_public_key (ap_our_base_key_pair a)) pq)))"

definition bob_session :: "bob_parameters \<Rightarrow> root_key \<Rightarrow> chain_key \<Rightarrow> bytes \<Rightarrow> session_state" where
  "bob_session b rk ck pq =
     set_sender_chain (bp_our_ratchet_key_pair b) ck
       (SessionState_new CIPHERTEXT_MESSAGE_CURRENT_VERSION (id_identity_key (bp_our_identity_key_pair b))
          (bp_their_identity_key b) rk (bp_their_base_key b) pq)"

lemmas session_unfold =
  alice_session_def bob_session_def set_kyber_ciphertext_def set_sender_chain_def add_receiver_chain_def
  SessionState_new_def CIPHERTEXT_MESSAGE_CURRENT_VERSION_def IdentityKey_serialize_def

lemma decode_PublicKey_serialize: "public_key_ok k \<Longrightarrow> IdentityKey_decode (PublicKey_serialize k) = Ok k"
  using IdentityKey_decode_serialize by (simp add: IdentityKey_serialize_def)

text \<open>What Alice's session offers to \<open>message_encrypt\<close>.\<close>

lemma alice_session_reads:
  assumes "chain_key_ok ck'" "public_key_ok (kp_public_key kp)"
    "public_key_ok (id_identity_key (ap_our_identity_key_pair a))" "public_key_ok (ap_their_identity_key a)"
  shows "get_sender_chain_key (alice_session a rk' ck kp ck' ct pq) = Ok ck'"
    "sender_ratchet_key (alice_session a rk' ck kp ck' ct pq) = Ok (kp_public_key kp)"
    "session_version (alice_session a rk' ck kp ck' ct pq) = Ok 4"
    "local_identity_key (alice_session a rk' ck kp ck' ct pq) = Ok (id_identity_key (ap_our_identity_key_pair a))"
    "remote_identity_key (alice_session a rk' ck kp ck' ct pq) = Ok (Some (ap_their_identity_key a))"
    "s_pq_ratchet_state (alice_session a rk' ck kp ck' ct pq) = pq"
    "get_kyber_ciphertext (alice_session a rk' ck kp ck' ct pq) = Some ct"
  using assms
  by (simp_all add: session_unfold get_sender_chain_key_def to_pb_chain_key_def chain_key_ok_def
      sender_ratchet_key_def public_key_serde.de_ser session_version_def local_identity_key_def
      remote_identity_key_def decode_PublicKey_serialize get_kyber_ciphertext_def)

text \<open>What Bob's session offers to the first decryption.\<close>

lemma bob_session_reads:
  assumes "length (root_key_key rk) = 32" "chain_key_ok ck"
    "key_pair_ok E (bp_our_ratchet_key_pair b)" "private_key_ok (kp_private_key (bp_our_ratchet_key_pair b))"
    "public_key_ok (id_identity_key (bp_our_identity_key_pair b))" "public_key_ok (bp_their_identity_key b)"
    "public_key_ok (kp_public_key (bp_our_ratchet_key_pair b))"
  shows "session_healthy (bob_session b rk ck pq)" "s_receiver_chains (bob_session b rk ck pq) = []"
    "state_root_key (bob_session b rk ck pq) = Ok rk"
    "get_sender_chain_key (bob_session b rk ck pq) = Ok ck"
    "sender_ratchet_private_key E (bob_session b rk ck pq) = Ok (kp_private_key (bp_our_ratchet_key_pair b))"
    "session_version (bob_session b rk ck pq) = Ok 4"
    "local_identity_key (bob_session b rk ck pq) = Ok (id_identity_key (bp_our_identity_key_pair b))"
    "remote_identity_key (bob_session b rk ck pq) = Ok (Some (bp_their_identity_key b))"
    "s_pq_ratchet_state (bob_session b rk ck pq) = pq"
  using assms PrivateKey_deserialize_serialize [of "kp_private_key (bp_our_ratchet_key_pair b)" E]
  by (simp_all add: session_unfold session_ok_def state_root_key_def get_sender_chain_key_def to_pb_chain_key_def
      chain_key_ok_def sender_ratchet_private_key_def key_pair_ok_def session_version_def
      local_identity_key_def remote_identity_key_def decode_PublicKey_serialize
      session_healthy_def seeded_def sender_ratchet_key_def public_key_serde.de_ser)

text \<open>A session without receiver chains creates the first one for the sender's ratchet key.\<close>

lemma first_receiver_chain:
  assumes "session_ok st" "s_receiver_chains st = []" "state_root_key st = Ok rk"
    "get_sender_chain_key st = Ok sck" "sender_ratchet_private_key E st = Ok our"
    "public_key_ok te" "hash_lengths E"
  obtains st1 r1 c i where
    "get_or_create_chain_key E st te r = (Ok (snd (create_chain E rk te our), st1), r1)"
    "same_identity st st1" "get_receiver_chain st1 te = Ok (Some (c, i))"
    "c_chain_key c = Some (to_pb_chain_key (snd (create_chain E rk te our)))"
    "chain_tracks E (snd (create_chain E rk te our)) c" "available st1 c 0"
    "s_pq_ratchet_state st1 = s_pq_ratchet_state st"
proof -
  let ?ck = "snd (create_chain E rk te our)"
  obtain st1 where gc: "get_or_create_chain_key E st te r = (Ok (?ck, st1), snd (KeyPair_generate E r))"
    using get_or_create_chain_key_creates [OF assms(2,3,5,4)] by blast
  show thesis
    using assms(1,6,7) gc
  proof (cases rule: get_or_create_chain_key_step)
    case (existing c i)
    then show thesis using assms(2) by (simp add: get_receiver_chain_def)
  next
    case (created c i rk0 our0)
    have "chain_tracks E ?ck c"
      using created(8,9) assms(7) by (auto simp: chain_tracks_def nth_chain_key_def intro!: exI [of _ 0])
    moreover have "available st1 c 0"
      using created(8) by (auto simp: available_def jump_allowed_def)
    ultimately show thesis using that gc created by blast
  qed
qed

lemma kem_pair_decapsulates:
  "kem_matching E pk sk \<Longrightarrow> kem_PublicKey_encapsulate E pk r = (Ok (ss, ct), r1) \<Longrightarrow>
   kem_SecretKey_decapsulate E sk ct = Ok ss"
  using kem_roundtrip [of E pk sk r] by auto

text \<open>Two fresh states made from the same key are related, for any relation that the crate promises.\<close>

definition spqr_linked :: "'r env \<Rightarrow> (bytes \<Rightarrow> bytes \<Rightarrow> bool) \<Rightarrow> bool" where
  "spqr_linked E P \<longleftrightarrow> (\<forall>k self a. spqr_initial_state E (spqr_session_params A2B k self) = Ok a \<longrightarrow>
     (\<exists>b. spqr_initial_state E (spqr_session_params B2A k self) = Ok b \<and> P a b))"

lemma spqr_linkedD:
  "spqr_linked E P \<Longrightarrow> spqr_initial_state E (spqr_session_params A2B k self) = Ok a \<Longrightarrow>
   \<exists>b. spqr_initial_state E (spqr_session_params B2A k self) = Ok b \<and> P a b"
  unfolding spqr_linked_def by blast

lemma spqr_pairs_linked:
  "spqr_pairs E = spqr_linked E (\<lambda>a b. \<forall>r a' key msg r'. spqr_send E a r = (Ok (a', key, msg), r') \<longrightarrow>
     (\<exists>b'. spqr_recv E b msg = Ok (b', key)))"
  by (simp add: spqr_pairs_def spqr_linked_def)

lemma spqr_pairsD:
  "spqr_pairs E \<Longrightarrow> spqr_initial_state E (spqr_session_params A2B k self) = Ok a \<Longrightarrow>
   \<exists>b. spqr_initial_state E (spqr_session_params B2A k self) = Ok b \<and>
     (\<forall>r a' key msg r'. spqr_send E a r = (Ok (a', key, msg), r') \<longrightarrow> (\<exists>b'. spqr_recv E b msg = Ok (b', key)))"
  unfolding spqr_pairs_def by blast

lemma parameters_match_keys_ok:
  assumes "curve_lengths E" "parameters_match E a b"
  shows "public_key_ok (id_identity_key (ap_our_identity_key_pair a))" "public_key_ok (ap_their_identity_key a)"
    "public_key_ok (id_identity_key (bp_our_identity_key_pair b))" "public_key_ok (bp_their_identity_key b)"
proof -
  have "public_key_ok (PrivateKey_public_key E x)" for x
    using assms(1) by (simp add: PrivateKey_public_key_def public_key_ok_def curve_lengths_def)
  then show "public_key_ok (id_identity_key (ap_our_identity_key_pair a))" "public_key_ok (ap_their_identity_key a)"
    "public_key_ok (id_identity_key (bp_our_identity_key_pair b))" "public_key_ok (bp_their_identity_key b)"
    using assms(2) by (metis parameters_match_def)+
qed

text \<open>The two sides of a handshake: the sessions are made from the same root and chain key.\<close>

lemma handshake_links:
  assumes "hash_lengths E" "dh_ok E" "curve_lengths E" "rng_length E" "spqr_linked E P"
    "parameters_match E a b"
    "kem_matching E (ap_their_kyber_pre_key a) (kkp_secret_key (bp_our_kyber_pre_key_pair b))"
    "is_canonical E (bp_their_base_key b)"
    "initialize_alice_session E a r = (Ok stA, r1)"
    "get_kyber_ciphertext stA = Some (bp_their_kyber_ciphertext b)"
  obtains rk ck kp rk' ck' pqA pqB where
    "stA = alice_session a rk' ck kp ck' (bp_their_kyber_ciphertext b) pqA"
    "initialize_bob_session E b = Ok (bob_session b rk ck pqB)"
    "length (root_key_key rk) = 32" "chain_key_ok ck" "chain_key_ok ck'" "chain_key_index ck' = 0"
    "public_key_ok (kp_public_key kp)"
    "create_chain E rk (kp_public_key kp) (kp_private_key (bp_our_ratchet_key_pair b)) = (rk', ck')"
    "create_chain E rk (ap_their_ratchet_key a) (kp_private_key kp) = (rk', ck')" "key_pair_ok E kp"
    "private_key_ok (kp_private_key kp)" "chain_key_index ck = 0" "P pqA pqB"
  using assms(9)
proof (cases rule: initialize_alice_session_cases)
  case (1 ss ct r1 rk ck pqr kp rk' ck' pq)
  have kp: "kp_public_key kp = PrivateKey_public_key E (kp_private_key kp)" "public_key_ok (kp_public_key kp)"
      "key_pair_ok E kp" "private_key_ok (kp_private_key kp)"
    using KeyPair_generate_key_pair_ok [OF assms(2), of r1] KeyPair_generate_ok [OF assms(3,4), of r1] 1(3)
    by (simp_all add: key_pair_ok_def)
  have ct: "ct = bp_their_kyber_ciphertext b"
    using assms(10) unfolding 1(6) by (simp add: get_kyber_ciphertext_def set_kyber_ciphertext_def)
  have flag: "(id_identity_key (ap_our_identity_key_pair a) = ap_their_identity_key a) =
      (id_identity_key (bp_our_identity_key_pair b) = bp_their_identity_key b)"
    using assms(6) by (auto simp: parameters_match_def)
  obtain pqb where pqb: "spqr_initial_state E (spqr_session_params B2A pqr
        (id_identity_key (bp_our_identity_key_pair b) = bp_their_identity_key b)) = Ok pqb"
    and pair: "P pq pqb"
    using spqr_linkedD [OF assms(5) 1(5)] unfolding flag by blast
  have "initialize_bob_session E b = Ok (bob_session b rk ck pqb)"
    unfolding bob_session_def
    using assms(8) kem_pair_decapsulates [OF assms(7) 1(1)] pqb 1(2) ct
    by (intro initialize_bob_session_Ok) (simp_all add: dh_agree [OF assms(2,6)])
  moreover have "create_chain E rk (kp_public_key kp) (kp_private_key (bp_our_ratchet_key_pair b)) = (rk', ck')"
    using create_chain_agree [OF assms(2), of rk "kp_private_key kp" "kp_private_key (bp_our_ratchet_key_pair b)"]
      assms(6) 1(4) kp(1) by (simp add: parameters_match_def)
  moreover have "chain_key_index ck' = 0" "chain_key_ok ck'"
    using create_chain_ok(1,3) [of E rk "ap_their_ratchet_key a" "kp_private_key kp"] assms(1) 1(4) by auto
  moreover have "stA = alice_session a rk' ck kp ck' (bp_their_kyber_ciphertext b) pq"
    using 1(6) ct by (simp add: alice_session_def)
  ultimately show thesis
    using that pair kp(2-4) 1(4) derive_keys_ok [OF assms(1) 1(2)] by blast
qed

lemma handshake_agrees:
  assumes "hash_lengths E" "dh_ok E" "curve_lengths E" "rng_length E" "spqr_pairs E"
    "parameters_match E a b"
    "kem_matching E (ap_their_kyber_pre_key a) (kkp_secret_key (bp_our_kyber_pre_key_pair b))"
    "is_canonical E (bp_their_base_key b)"
    "initialize_alice_session E a r = (Ok stA, r1)"
    "get_kyber_ciphertext stA = Some (bp_their_kyber_ciphertext b)"
  obtains rk ck kp rk' ck' pqA pqB where
    "stA = alice_session a rk' ck kp ck' (bp_their_kyber_ciphertext b) pqA"
    "initialize_bob_session E b = Ok (bob_session b rk ck pqB)"
    "length (root_key_key rk) = 32" "chain_key_ok ck" "chain_key_ok ck'" "chain_key_index ck' = 0"
    "public_key_ok (kp_public_key kp)"
    "create_chain E rk (kp_public_key kp) (kp_private_key (bp_our_ratchet_key_pair b)) = (rk', ck')"
    "\<And>r a' key msg r'. spqr_send E pqA r = (Ok (a', key, msg), r') \<Longrightarrow> \<exists>b'. spqr_recv E pqB msg = Ok (b', key)"
  by (rule handshake_links [OF assms(1-4) assms(5) [unfolded spqr_pairs_linked] assms(6-)]) (blast intro: that)

text \<open>
  What the first message needs of the two sessions: Bob has no receiver chain yet, his root key and his
  ratchet key give Alice's sending chain, the identities mirror each other, and the post-quantum ratchets
  started as a pair.
\<close>

definition sessions_paired :: "'r env \<Rightarrow> session_state \<Rightarrow> session_state \<Rightarrow> bool" where
  "sessions_paired E stA stB \<longleftrightarrow> session_healthy stB \<and> s_receiver_chains stB = [] \<and>
     (\<exists>ck eph a b rk sck our rk'.
        get_sender_chain_key stA = Ok ck \<and> chain_key_index ck = 0 \<and>
        sender_ratchet_key stA = Ok eph \<and> public_key_ok eph \<and>
        session_version stA = Ok 4 \<and> local_identity_key stA = Ok a \<and> remote_identity_key stA = Ok (Some b) \<and>
        session_version stB = Ok 4 \<and> local_identity_key stB = Ok b \<and> remote_identity_key stB = Ok (Some a) \<and>
        state_root_key stB = Ok rk \<and> get_sender_chain_key stB = Ok sck \<and>
        sender_ratchet_private_key E stB = Ok our \<and> create_chain E rk eph our = (rk', ck)) \<and>
     (\<forall>r a' key msg r'. spqr_send E (s_pq_ratchet_state stA) r = (Ok (a', key, msg), r') \<longrightarrow>
        (\<exists>b'. spqr_recv E (s_pq_ratchet_state stB) msg = Ok (b', key)))"

lemma sessions_paired_sends_as:
  assumes "sessions_paired E stA stB" "sends_as stA stA'" "sends_as stB stB'"
  shows "sessions_paired E stA' stB'"
proof -
  note a = sends_as_reads [OF assms(2)] and b = sends_as_reads [OF assms(3)] and p = sends_as_reads(3) [OF assms(3), of E]
  have "s_receiver_chains stB' = s_receiver_chains stB" "s_pq_ratchet_state stA' = s_pq_ratchet_state stA"
    "s_pq_ratchet_state stB' = s_pq_ratchet_state stB"
    using assms(2,3) by (simp_all add: sends_as_def)
  then show ?thesis using assms(1) by (simp add: sessions_paired_def a b p)
qed

lemma paired_first_message:
  assumes laws: "hash_lengths E" "cbc_ok E" and pair: "sessions_paired E stA stB"
    and enc: "encrypt_with_state E ptext addr now stA r = (Ok (msg, k, stA'), r2)" "signal_part msg = Some m"
  shows "sm_counter m = 0 \<and> message_ok m" (is ?message)
    "\<exists>st rB'. decrypt_message_with_state E stB m t rB = (Ok (ptext, st), rB')" (is ?decrypts)
proof -
  obtain ck eph a b rk sck our rk' where
      A: "get_sender_chain_key stA = Ok ck" "chain_key_index ck = 0" "sender_ratchet_key stA = Ok eph" "public_key_ok eph"
        "session_version stA = Ok 4" "local_identity_key stA = Ok a" "remote_identity_key stA = Ok (Some b)"
      and B: "session_version stB = Ok 4" "local_identity_key stB = Ok b" "remote_identity_key stB = Ok (Some a)"
        "state_root_key stB = Ok rk" "get_sender_chain_key stB = Ok sck" "sender_ratchet_private_key E stB = Ok our"
        "create_chain E rk eph our = (rk', ck)"
    using pair unfolding sessions_paired_def by blast
  have healthy: "session_healthy stB" "session_ok stB" "s_receiver_chains stB = []"
    using pair by (simp_all add: sessions_paired_def session_healthy_def)
  have "?message \<and> ?decrypts"
    using enc(1)
  proof (cases rule: encrypt_with_state_cases)
    case e: (1 ckA pq1 key pq_msg mk ephA v our_id ctx m0 items)
    have eqs: "ckA = ck" "ephA = eph" "v = 4" "our_id = a" "k = b"
      using e(1,4,5,7,8) A by simp_all
    have m: "m = m0"
      using enc(2) e(12) by (cases items) (simp_all add: signal_part_def PreKeySignalMessage_new_def Let_def)
    obtain st1 r1 c i where chain: "get_or_create_chain_key E stB eph rB = (Ok (ck, st1), r1)"
        "same_identity stB st1" "get_receiver_chain st1 eph = Ok (Some (c, i))"
        "c_chain_key c = Some (to_pb_chain_key ck)" "chain_tracks E ck c" "available st1 c 0"
        "s_pq_ratchet_state st1 = s_pq_ratchet_state stB"
      by (rule first_receiver_chain [OF healthy(2,3) B(4-6) A(4) laws(1), of rB, unfolded B(7) snd_conv])
    obtain pqb' where recv: "spqr_recv E (s_pq_ratchet_state st1) pq_msg = Ok (pqb', key)"
      using pair e(2) unfolding chain(7) sessions_paired_def by blast
    have keys: "generate_keys E (chain_message_keys E (nth_chain_key E ck 0)) key = (Ok mk :: (_, signal_error) result)"
      using e(3) by (simp add: eqs nth_chain_key_def)
    have ver: "session_version stB = Ok (ucast (ucast v :: u8))" by (simp add: B eqs)
    have ?decrypts
      using decrypt_message_with_state_correct [OF laws _ ver chain(1-6) recv keys B(3,2) e(9),
          where t = t and m = m] e(11) healthy(2) by (simp add: m eqs A session_ok_def) blast
    moreover have "SIGNAL_MAC_LENGTH \<le> length (sm_serialized m0)"
      using laws(1) e(11) by (rule SignalMessage_new_serialized) simp
    then have ?message
      using SignalMessage_new_fields [OF e(11)] A(2,4) by (simp add: m eqs message_ok_def)
    ultimately show ?thesis by blast
  qed
  then show ?message ?decrypts by blast+
qed

lemma first_message_decrypts:
  assumes laws: "hash_lengths E" "dh_ok E" "curve_lengths E" "rng_length E" "spqr_pairs E" "cbc_ok E"
    and match: "parameters_match E a b"
      "kem_matching E (ap_their_kyber_pre_key a) (kkp_secret_key (bp_our_kyber_pre_key_pair b))"
      "is_canonical E (bp_their_base_key b)"
    and ratchet: "key_pair_ok E (bp_our_ratchet_key_pair b)" "private_key_ok (kp_private_key (bp_our_ratchet_key_pair b))"
    and alice: "initialize_alice_session E a r = (Ok stA, r1)"
      "get_kyber_ciphertext stA = Some (bp_their_kyber_ciphertext b)"
    and enc: "sends_as stA stA'" "encrypt_with_state E ptext addr now stA' r1' = (Ok (msg, k, stA''), r2)"
      "signal_part msg = Some m"
  shows "\<exists>stB. initialize_bob_session E b = Ok stB \<and> session_healthy stB \<and>
    sm_counter m = 0 \<and> message_ok m \<and>
    (\<forall>stB' t rB. sends_as stB stB' \<longrightarrow>
      (\<exists>st rB'. decrypt_message_with_state E stB' m t rB = (Ok (ptext, st), rB')))"
proof -
  obtain rk ck kp rk' ck' pqA pqB where
    stA: "stA = alice_session a rk' ck kp ck' (bp_their_kyber_ciphertext b) pqA"
    and bob: "initialize_bob_session E b = Ok (bob_session b rk ck pqB)"
    and lens: "length (root_key_key rk) = 32" "chain_key_ok ck" "chain_key_ok ck'" "chain_key_index ck' = 0"
      "public_key_ok (kp_public_key kp)"
    and agree: "create_chain E rk (kp_public_key kp) (kp_private_key (bp_our_ratchet_key_pair b)) = (rk', ck')"
    and spqr: "\<And>r a' key msg r'. spqr_send E pqA r = (Ok (a', key, msg), r') \<Longrightarrow> \<exists>b'. spqr_recv E pqB msg = Ok (b', key)"
    using handshake_agrees [OF laws(1-5) match alice] by metis
  note pks = parameters_match_keys_ok [OF laws(3) match(1)]
  have ids: "id_identity_key (ap_our_identity_key_pair a) = bp_their_identity_key b"
    "ap_their_identity_key a = id_identity_key (bp_our_identity_key_pair b)"
    using match(1) by (simp_all add: parameters_match_def)
  have "public_key_ok (kp_public_key (bp_our_ratchet_key_pair b))"
    using ratchet(1) laws(3) by (simp add: key_pair_ok_def PrivateKey_public_key_def public_key_ok_def curve_lengths_def)
  note readsB = bob_session_reads [OF lens(1,2) ratchet pks(3,4) this]
  note readsA = alice_session_reads [OF lens(3,5) pks(1,2)]
  have "sessions_paired E stA (bob_session b rk ck pqB)"
    unfolding sessions_paired_def stA using spqr lens(4,5) agree by (auto simp: readsA readsB ids)
  then have pair: "sends_as (bob_session b rk ck pqB) stB' \<Longrightarrow> sessions_paired E stA' stB'" for stB'
    using sessions_paired_sends_as [OF _ enc(1)] by blast
  have self: "sends_as (bob_session b rk ck pqB) (bob_session b rk ck pqB)" by (simp add: sends_as_def)
  show ?thesis
    using bob readsB(1) paired_first_message [OF laws(1,6) pair enc(2,3)] self by blast
qed

end
