(* ===== verification/Double_Ratchet.thy ===== *)
theory Double_Ratchet
  imports Handlers_Correctness
begin

text \<open>
  The Double Ratchet between two session states. Its history is a list of epochs, the newest first: each has
  the ratchet key pair that one party generated, the root key after it and the chain of message keys that starts
  there. The parties take turns, so every other epoch belongs to the same party. One party leads: it sends in the
  newest epoch, the other in the one before it; both can read the epochs of the other before their own.
\<close>

subsection \<open>Epochs\<close>

record epoch =
  ep_key :: key_pair
  ep_root :: root_key
  ep_chain :: chain_key

abbreviation ep_public :: "epoch \<Rightarrow> public_key" where
  "ep_public x \<equiv> kp_public_key (ep_key x)"

definition epoch_ok :: "'r env \<Rightarrow> epoch \<Rightarrow> bool" where
  "epoch_ok E x \<longleftrightarrow> key_pair_ok E (ep_key x) \<and> private_key_ok (kp_private_key (ep_key x)) \<and> public_key_ok (ep_public x) \<and>
     length (root_key_key (ep_root x)) = 32 \<and> chain_key_ok (ep_chain x) \<and> chain_key_index (ep_chain x) = 0"

text \<open>The epoch that a party starts with a new key pair when the newest epoch is the other party's.\<close>

definition next_epoch :: "'r env \<Rightarrow> epoch \<Rightarrow> key_pair \<Rightarrow> epoch" where
  "next_epoch E y kp =
     (let (rk, ck) = create_chain E (ep_root y) (ep_public y) (kp_private_key kp)
      in \<lparr>ep_key = kp, ep_root = rk, ep_chain = ck\<rparr>)"

fun history_ok :: "'r env \<Rightarrow> epoch list \<Rightarrow> bool" where
  "history_ok E [] = True"
| "history_ok E [x] = epoch_ok E x"
| "history_ok E (x # y # h) \<longleftrightarrow> epoch_ok E x \<and> x = next_epoch E y (ep_key x) \<and> history_ok E (y # h)"

lemma next_epoch_sel [simp]:
  "ep_key (next_epoch E y kp) = kp"
  "ep_root (next_epoch E y kp) = fst (create_chain E (ep_root y) (ep_public y) (kp_private_key kp))"
  "ep_chain (next_epoch E y kp) = snd (create_chain E (ep_root y) (ep_public y) (kp_private_key kp))"
  by (simp_all add: next_epoch_def case_prod_beta)

lemma next_epoch_ok:
  assumes "hash_lengths E" "key_pair_ok E kp" "private_key_ok (kp_private_key kp)" "public_key_ok (kp_public_key kp)"
  shows "epoch_ok E (next_epoch E y kp)"
  using assms create_chain_ok [of E "ep_root y" "ep_public y" "kp_private_key kp"]
  by (simp add: epoch_ok_def)

lemma history_ok_tl: "history_ok E (x # h) \<Longrightarrow> history_ok E h"
  by (cases h) simp_all

lemma history_epoch_ok: "history_ok E h \<Longrightarrow> x \<in> set h \<Longrightarrow> epoch_ok E x"
  by (induction h rule: history_ok.induct) auto

text \<open>The party that did not start the epoch derives it from its own key pair of the epoch before.\<close>

lemma history_agree:
  assumes "dh_ok E" "history_ok E (x # y # h)"
  shows "create_chain E (ep_root y) (ep_public x) (kp_private_key (ep_key y)) = (ep_root x, ep_chain x)"
proof -
  let ?a = "kp_private_key (ep_key x)" and ?b = "kp_private_key (ep_key y)"
  have "epoch_ok E y" using history_epoch_ok [OF assms(2), of y] by simp
  then have "ep_public x = PrivateKey_public_key E ?a" "ep_public y = PrivateKey_public_key E ?b"
    using assms(2) by (simp_all add: epoch_ok_def key_pair_ok_def)
  moreover have "create_chain E (ep_root y) (ep_public y) ?a = (ep_root x, ep_chain x)"
    using assms(2) by (metis history_ok.simps(3) next_epoch_sel(2,3) prod.collapse)
  ultimately show ?thesis using create_chain_agree [OF assms(1), of "ep_root y" ?a ?b] by simp
qed

text \<open>The epochs of one party: the first element and every second one after it.\<close>

fun every_other :: "'a list \<Rightarrow> 'a list" where
  "every_other [] = []"
| "every_other [x] = [x]"
| "every_other (x # y # xs) = x # every_other xs"

lemma every_other_Cons: "every_other (x # xs) = x # every_other (tl xs)"
  by (cases xs) simp_all

lemma set_every_other: "set (every_other xs) \<subseteq> set xs"
  by (induction xs rule: every_other.induct) auto

lemma every_other_split: "set xs = set (every_other xs) \<union> set (every_other (tl xs))"
  by (induction xs rule: every_other.induct) (auto simp: every_other_Cons)

lemma take_every_other: "take n (every_other xs) = every_other (take (2 * n) xs)"
proof (induction xs arbitrary: n rule: every_other.induct)
  case (3 x y xs)
  then show ?case by (cases n) simp_all
next
  case (2 x)
  then show ?case by (cases n) simp_all
qed simp

lemma list_all2_left: "list_all2 P xs ys \<Longrightarrow> x \<in> set xs \<Longrightarrow> \<exists>y \<in> set ys. P x y"
  by (induction rule: list_all2_induct) auto

lemma list_all2_right: "list_all2 P xs ys \<Longrightarrow> y \<in> set ys \<Longrightarrow> \<exists>x \<in> set xs. P x y"
  by (induction rule: list_all2_induct) auto

subsection \<open>What a session knows of the history\<close>

definition sends_in :: "'r env \<Rightarrow> epoch \<Rightarrow> u32 \<Rightarrow> session_state \<Rightarrow> bool" where
  "sends_in E x n st \<longleftrightarrow> s_root_key st = root_key_key (ep_root x) \<and>
     s_sender_chain st = Some \<lparr>c_sender_ratchet_key = PublicKey_serialize (ep_public x),
       c_sender_ratchet_key_private = PrivateKey_serialize (kp_private_key (ep_key x)),
       c_chain_key = Some (to_pb_chain_key (nth_chain_key E (ep_chain x) n)), c_message_keys = []\<rparr>"

definition chain_of :: "'r env \<Rightarrow> pb_chain \<Rightarrow> epoch \<Rightarrow> bool" where
  "chain_of E c x \<longleftrightarrow> c_sender_ratchet_key c = PublicKey_serialize (ep_public x) \<and> chain_tracks E (ep_chain x) c"

text \<open>The receiver chains belong to the newest epochs of the other party, the oldest first.\<close>

definition reads_from :: "'r env \<Rightarrow> epoch list \<Rightarrow> session_state \<Rightarrow> bool" where
  "reads_from E xs st \<longleftrightarrow> list_all2 (chain_of E) (s_receiver_chains st) (rev (take MAX_RECEIVER_CHAINS xs))"

lemma sends_in_reads:
  assumes "sends_in E x n st" "epoch_ok E x" "hash_lengths E"
  shows "state_root_key st = Ok (ep_root x)" "sender_ratchet_private_key E st = Ok (kp_private_key (ep_key x))"
    "sender_ratchet_key st = Ok (ep_public x)" "get_sender_chain_key st = Ok (nth_chain_key E (ep_chain x) n)"
    "chain_key_index (nth_chain_key E (ep_chain x) n) = n"
proof -
  have "chain_key_ok (nth_chain_key E (ep_chain x) n)"
    using assms(2,3) by (intro nth_chain_key_ok) (simp_all add: epoch_ok_def)
  then show "get_sender_chain_key st = Ok (nth_chain_key E (ep_chain x) n)"
    using assms(1) by (simp add: sends_in_def get_sender_chain_key_def chain_key_ok_def)
  show "state_root_key st = Ok (ep_root x)"
    using assms(1,2) by (simp add: sends_in_def epoch_ok_def state_root_key_def)
  show "sender_ratchet_private_key E st = Ok (kp_private_key (ep_key x))"
    using assms(1,2) PrivateKey_deserialize_serialize [of "kp_private_key (ep_key x)" E]
    by (simp add: sends_in_def epoch_ok_def sender_ratchet_private_key_def key_pair_ok_def)
  show "sender_ratchet_key st = Ok (ep_public x)"
    using assms(1,2) by (simp add: sends_in_def epoch_ok_def sender_ratchet_key_def public_key_serde.de_ser)
  show "chain_key_index (nth_chain_key E (ep_chain x) n) = n"
    using assms(2) by (intro nth_chain_key_index) (simp add: epoch_ok_def)
qed

lemma reads_from_known:
  assumes "session_ok st" "reads_from E xs st" "x \<in> set (take MAX_RECEIVER_CHAINS xs)" "public_key_ok (ep_public x)"
  obtains c i where "get_receiver_chain st (ep_public x) = Ok (Some (c, i))" "chain_of E c x"
proof -
  let ?is = "\<lambda>c. c_sender_ratchet_key c = PublicKey_serialize (ep_public x)"
  let ?cs = "s_receiver_chains st"
  obtain d where d: "d \<in> set ?cs" "chain_of E d x"
    using assms(2,3) list_all2_right [of "chain_of E" ?cs "rev (take MAX_RECEIVER_CHAINS xs)" x]
    by (auto simp: reads_from_def)
  then obtain i where i: "position ?is ?cs = Some i"
    by (cases "position ?is ?cs") (auto simp: position_None chain_of_def)
  then have pos: "i < length ?cs" "?is (?cs ! i)" by (simp_all add: position_Some)
  have "inj_on c_sender_ratchet_key (set ?cs)" using assms(1) by (simp add: session_ok_def distinct_map)
  then have "?cs ! i = d" by (rule inj_onD) (use pos d in \<open>auto simp: chain_of_def\<close>)
  then show thesis using that i d(2) by (simp add: get_receiver_chain_spec [OF assms(1,4)])
qed

lemma reads_from_new:
  assumes "session_ok st" "reads_from E xs st" "public_key_ok k" "\<forall>x \<in> set xs. public_key_ok (ep_public x) \<and> ep_public x \<noteq> k"
  shows "get_receiver_chain st k = Ok None"
proof -
  have "c_sender_ratchet_key c \<noteq> PublicKey_serialize k" if c: "c \<in> set (s_receiver_chains st)" for c
  proof -
    obtain x where "x \<in> set (take MAX_RECEIVER_CHAINS xs)" "chain_of E c x"
      using assms(2) c list_all2_left [of "chain_of E" "s_receiver_chains st" "rev (take MAX_RECEIVER_CHAINS xs)" c]
      by (auto simp: reads_from_def)
    then show ?thesis
      using assms(3,4) public_key_serde.ser_eq_iff [of "ep_public x" k] by (auto simp: chain_of_def dest: in_set_takeD)
  qed
  then have "position (\<lambda>c. c_sender_ratchet_key c = PublicKey_serialize k) (s_receiver_chains st) = None"
    by (simp add: position_None)
  then show ?thesis by (simp add: get_receiver_chain_spec [OF assms(1,3)])
qed

lemma reads_from_update:
  assumes "reads_from E xs st" "get_receiver_chain st k = Ok (Some (c, i))"
    "c_sender_ratchet_key c' = c_sender_ratchet_key c" "\<And>ck0. chain_tracks E ck0 c \<Longrightarrow> chain_tracks E ck0 c'"
  shows "reads_from E xs (set_chain_at i c' st)"
proof -
  have "s_receiver_chains st ! i = c" "i < length (s_receiver_chains st)"
    using find_receiver_chain_SomeD [OF assms(2) [unfolded get_receiver_chain_def]] by simp_all
  then show ?thesis
    using assms(1,3,4) by (auto simp: reads_from_def set_chain_at_def list_all2_conv_all_nth nth_list_update chain_of_def)
qed

lemma reads_from_push:
  assumes "reads_from E xs st" "chain_key_ok (ep_chain x)" "chain_key_index (ep_chain x) = 0"
  shows "reads_from E (x # xs) (add_receiver_chain (ep_public x) (ep_chain x) st)"
proof -
  let ?c = "\<lparr>c_sender_ratchet_key = PublicKey_serialize (ep_public x), c_sender_ratchet_key_private = [],
      c_chain_key = Some (to_pb_chain_key (ep_chain x)), c_message_keys = []\<rparr>"
  let ?cs = "s_receiver_chains st"
  have c: "chain_of E ?c x"
    using assms(2,3) by (auto simp: chain_of_def chain_tracks_def nth_chain_key_def intro!: exI [of _ 0])
  have all: "list_all2 (chain_of E) (?cs @ [?c]) (rev (take MAX_RECEIVER_CHAINS xs) @ [x])"
    using assms(1) c by (auto simp: reads_from_def intro: list_all2_appendI)
  have len: "length ?cs = min (length xs) MAX_RECEIVER_CHAINS"
    using assms(1) by (simp add: reads_from_def list_all2_lengthD)
  show ?thesis
  proof (cases "length xs < MAX_RECEIVER_CHAINS")
    case True
    then show ?thesis
      using all len by (auto simp: reads_from_def add_receiver_chain_def push_receiver_chain_def Let_def take_Cons')
  next
    case False
    then have n: "length ?cs = MAX_RECEIVER_CHAINS" using len by simp
    have tl: "rev (take MAX_RECEIVER_CHAINS (x # xs)) = tl (rev (take MAX_RECEIVER_CHAINS xs) @ [x])"
      using False by (auto simp: MAX_RECEIVER_CHAINS_def numeral_eq_Suc take_Suc_conv_app_nth not_less)
    have "push_receiver_chain ?c ?cs = tl (?cs @ [?c])"
      using n by (cases ?cs) (auto simp: push_receiver_chain_def remove_nth_def Let_def)
    moreover have "list_all2 (chain_of E) (tl (?cs @ [?c])) (tl (rev (take MAX_RECEIVER_CHAINS xs) @ [x]))"
      using all by (cases "?cs @ [?c]"; cases "rev (take MAX_RECEIVER_CHAINS xs) @ [x]") auto
    ultimately show ?thesis by (simp add: reads_from_def add_receiver_chain_def tl)
  qed
qed

subsection \<open>Sending\<close>

definition speaks :: "identity_key \<Rightarrow> identity_key \<Rightarrow> session_state \<Rightarrow> bool" where
  "speaks a b st \<longleftrightarrow> session_version st = Ok 4 \<and> local_identity_key st = Ok a \<and> remote_identity_key st = Ok (Some b)"

lemma speaks_same: "same_identity st st' \<Longrightarrow> speaks a b st' = speaks a b st"
  by (simp add: speaks_def same_identityD)

text \<open>
  A message of an epoch: the text is encrypted with the keys of its counter, mixed with the key that the
  post-quantum ratchet gave, and authenticated from \<open>a\<close> to \<open>b\<close>.
\<close>

definition sealed_in ::
    "'r env \<Rightarrow> epoch \<Rightarrow> u32 \<Rightarrow> bytes option \<Rightarrow> bytes \<Rightarrow> identity_key \<Rightarrow> identity_key \<Rightarrow> signal_message \<Rightarrow> bool" where
  "sealed_in E x n key ptext a b m \<longleftrightarrow>
     (\<exists>mk ct pn. generate_keys E (chain_message_keys E (nth_chain_key E (ep_chain x) n)) key = (Ok mk :: (_, signal_error) result) \<and>
        aes_256_cbc_encrypt E ptext (mks_cipher_key mk) (mks_iv mk) = Ok ct \<and>
        SignalMessage_new E 4 (mks_mac_key mk) (ep_public x) n pn ct a b (sm_pq_ratchet m) = Ok m)"

lemma sealed_in_fields:
  assumes "sealed_in E x n key ptext a b m"
  shows "sm_sender_ratchet_key m = ep_public x" "sm_counter m = n" "sm_message_version m = 4"
  using assms SignalMessage_new_fields by (auto simp: sealed_in_def)

lemma sends_in_advance:
  assumes "sends_in E x n st" "n \<noteq> - 1" "ck = nth_chain_key E (ep_chain x) n"
  shows "sends_in E x (n + 1) (set_sender_chain_key (next_chain_key E ck) (st\<lparr>s_pq_ratchet_state := pq\<rparr>))"
  using assms by (simp add: sends_in_def set_sender_chain_key_def next_nth_chain_key)

lemma encrypt_sealed:
  assumes "encrypt_with_state E ptext addr now st r = (Ok (msg, k, st'), r')" "signal_part msg = Some m"
    and "sends_in E x n st" "epoch_ok E x" "hash_lengths E" "speaks a b st" "n \<noteq> - 1"
  obtains pq key where "spqr_send E (s_pq_ratchet_state st) r = (Ok (pq, key, sm_pq_ratchet m), r')"
    "sealed_in E x n key ptext a b m" "sends_in E x (n + 1) st'" "s_pq_ratchet_state st' = pq"
    "s_receiver_chains st' = s_receiver_chains st" "same_identity st st'" "session_ok st' = session_ok st"
  using assms(1)
proof (cases rule: encrypt_with_state_cases)
  case (1 ck pq key pq_msg mk eph v our_id ct m0 items)
  note reads = sends_in_reads [OF assms(3-5)]
  have eqs: "ck = nth_chain_key E (ep_chain x) n" "eph = ep_public x" "v = 4" "our_id = a" "k = b" "chain_key_index ck = n"
    using 1(1,4,5,7,8) reads assms(6) by (simp_all add: speaks_def)
  have m: "m = m0"
    using assms(2) 1(12) by (cases items) (simp_all add: signal_part_def PreKeySignalMessage_new_def Let_def)
  have pq: "sm_pq_ratchet m = pq_msg" using SignalMessage_new_fields(6) [OF 1(11)] m by simp
  show thesis
  proof (rule that [of pq key])
    show "sealed_in E x n key ptext a b m"
      unfolding sealed_in_def pq using 1(3,9,11) by (auto simp: eqs reads(5) m)
    show "sends_in E x (n + 1) st'" unfolding 1(13) using assms(3,7) eqs(1) by (rule sends_in_advance)
    show "same_identity st st'" "session_ok st' = session_ok st" "s_receiver_chains st' = s_receiver_chains st"
      "s_pq_ratchet_state st' = pq"
      by (simp_all add: 1(13) same_identity_def set_sender_chain_key_def session_ok_def)
  qed (use 1(2) pq in simp)
qed

subsection \<open>Receiving\<close>

text \<open>The chain after the key of a counter was taken from it.\<close>

definition chain_step :: "'r env \<Rightarrow> u32 \<Rightarrow> pb_chain \<Rightarrow> pb_chain \<Rightarrow> bool" where
  "chain_step E n c c' \<longleftrightarrow> (\<exists>ck. c_chain_key c = Some (to_pb_chain_key ck) \<and>
     (if n < chain_key_index ck
      then \<exists>q < length (c_message_keys c). mk_index (c_message_keys c ! q) = n \<and>
             c' = c\<lparr>c_message_keys := remove_nth q (c_message_keys c)\<rparr>
      else c' = advanced E ck n c))"

lemma chain_stepD:
  assumes "chain_step E n c c'" "c_chain_key c = Some (to_pb_chain_key ck)"
  shows "if n < chain_key_index ck
      then \<exists>q < length (c_message_keys c). mk_index (c_message_keys c ! q) = n \<and>
             c' = c\<lparr>c_message_keys := remove_nth q (c_message_keys c)\<rparr>
      else c' = advanced E ck n c"
proof -
  have "to_pb_chain_key d = to_pb_chain_key ck \<Longrightarrow> d = ck" for d
    by (cases d; cases ck) (simp add: to_pb_chain_key_def)
  then show ?thesis using assms unfolding chain_step_def by fastforce
qed

text \<open>
  The chain that a message is read from, with the state in which it is: the state before, or after a ratchet step.
\<close>

definition chain_found ::
    "'r env \<Rightarrow> session_state \<Rightarrow> public_key \<Rightarrow> 'r \<Rightarrow> session_state \<Rightarrow> pb_chain \<Rightarrow> nat \<Rightarrow> 'r \<Rightarrow> bool" where
  "chain_found E st te r st1 c i r1 \<longleftrightarrow> session_ok st1 \<and> same_identity st st1 \<and>
     s_pq_ratchet_state st1 = s_pq_ratchet_state st \<and> get_receiver_chain st1 te = Ok (Some (c, i)) \<and>
     (\<exists>ck. get_or_create_chain_key E st te r = (Ok (ck, st1), r1) \<and> c_chain_key c = Some (to_pb_chain_key ck))"

text \<open>What taking a key changes in the receiver chains: one chain makes a step, which may be a new one.\<close>

definition took_key :: "'r env \<Rightarrow> public_key \<Rightarrow> u32 \<Rightarrow> session_state \<Rightarrow> session_state \<Rightarrow> bool" where
  "took_key E te n st st' \<longleftrightarrow>
     (\<exists>c c'. receiver_chain_ok c \<and> c_sender_ratchet_key c = PublicKey_serialize te \<and> chain_step E n c c' \<and>
        c_sender_ratchet_key c' = c_sender_ratchet_key c \<and> c' \<in> set (s_receiver_chains st') \<and>
        set (s_receiver_chains st') \<subseteq> insert c' (set (s_receiver_chains st)) \<and>
        (c \<in> set (s_receiver_chains st) \<or> (\<exists>ck. c_chain_key c = Some ck \<and> ck_index ck = 0)))"

lemma took_key_update:
  assumes "session_ok st1" "public_key_ok te" "get_receiver_chain st1 te = Ok (Some (c, i))"
    and "chain_step E n c c'" "c_sender_ratchet_key c' = c_sender_ratchet_key c"
    and "set (s_receiver_chains st1) \<subseteq> insert c (set (s_receiver_chains st))"
    and "c \<in> set (s_receiver_chains st) \<or> (\<exists>ck. c_chain_key c = Some ck \<and> ck_index ck = 0)"
    and "s_receiver_chains st' = (s_receiver_chains st1)[i := c']"
  shows "took_key E te n st st'"
proof -
  note D = get_receiver_chain_SomeD [OF assms(1-3)]
  have "distinct (s_receiver_chains st1)" using assms(1) by (simp add: session_ok_def distinct_map)
  then have "set (s_receiver_chains st') = insert c' (set (s_receiver_chains st1) - {c})"
    using set_update_distinct D(1,2) assms(8) by metis
  then show ?thesis using D(3,4) assms(4-7) unfolding took_key_def by blast
qed

lemma decrypt_sealed:
  assumes laws: "hash_lengths E" "cbc_ok E"
    and dec: "decrypt_message_with_state E st m t r = (Ok (ptext', st'), r')"
    and m: "sealed_in E x n key ptext a b m" "n \<noteq> - 1" "public_key_ok (ep_public x)"
    and chain: "chain_found E st (ep_public x) r st1 c i r1" "chain_tracks E (ep_chain x) c"
    and spqr: "\<And>pq k. spqr_recv E (s_pq_ratchet_state st) (sm_pq_ratchet m) = Ok (pq, k) \<Longrightarrow> k = key"
  obtains c' pq where "ptext' = ptext" "r' = r1" "chain_step E n c c'"
    "spqr_recv E (s_pq_ratchet_state st) (sm_pq_ratchet m) = Ok (pq, key)"
    "st' = clear_unacknowledged_pre_key_message ((set_chain_at i c' st1)\<lparr>s_pq_ratchet_state := pq\<rparr>)"
    "session_ok st'" "c_sender_ratchet_key c' = c_sender_ratchet_key c"
    "\<And>ck0. chain_tracks E ck0 c \<Longrightarrow> chain_tracks E ck0 c'"
  using dec
proof (cases rule: decrypt_message_with_state_cases)
  case (1 ck st1' g st2 pq key' mk' their_id our_id)
  note fields = sealed_in_fields [OF m(1)]
  have ck: "get_or_create_chain_key E st (ep_public x) r = (Ok (ck, st1), r1)" "c_chain_key c = Some (to_pb_chain_key ck)"
    "st1' = st1" "r' = r1"
    using chain(1) 1(3) by (auto simp: chain_found_def fields)
  have found: "get_receiver_chain st1 (ep_public x) = Ok (Some (c, i))" "session_ok st1"
    "s_pq_ratchet_state st1 = s_pq_ratchet_state st"
    using chain(1) by (simp_all add: chain_found_def)
  have step: "get_or_create_message_key E st1 (ep_public x) t ck n = Ok (g, st2)"
    using 1(4) by (simp add: fields ck(3))
  obtain c' where c': "get_receiver_chain st2 (ep_public x) = Ok (Some (c', i))" "st2 = set_chain_at i c' st1" "session_ok st2"
      "\<And>ck0. chain_tracks E ck0 c \<Longrightarrow> g = chain_message_keys E (nth_chain_key E ck0 n) \<and> chain_tracks E ck0 c'"
    using get_or_create_message_key_step [OF found(2) m(3) laws(1) found(1) ck(2) step m(2)] by metis
  have cs: "chain_step E n c c' \<and> c_sender_ratchet_key c' = c_sender_ratchet_key c"
    using found(1) step
  proof (cases rule: get_or_create_message_key_cases)
    case (stored p)
    let ?c = "c\<lparr>c_message_keys := remove_nth p (c_message_keys c)\<rparr>"
    have "get_receiver_chain st2 (ep_public x) = Ok (Some (?c, i))"
      unfolding stored(5) using found(1) by (rule get_receiver_chain_set_chain_at) simp
    then show ?thesis using c'(1) stored(1-3) ck(2) by (auto simp: chain_step_def)
  next
    case ahead
    have "get_receiver_chain st2 (ep_public x) = Ok (Some (advanced E ck n c, i))"
      unfolding ahead(4) advanced_def using found(1) by (rule get_receiver_chain_set_chain_at) simp
    then show ?thesis using c'(1) ahead(1) ck(2) by (auto simp: chain_step_def advanced_def)
  qed
  obtain mk ct pn where s: "generate_keys E (chain_message_keys E (nth_chain_key E (ep_chain x) n)) key =
        (Ok mk :: (_, signal_error) result)"
      "aes_256_cbc_encrypt E ptext (mks_cipher_key mk) (mks_iv mk) = Ok ct"
      "SignalMessage_new E 4 (mks_mac_key mk) (ep_public x) n pn ct a b (sm_pq_ratchet m) = Ok m"
    using m(1) by (auto simp: sealed_in_def)
  have recv: "spqr_recv E (s_pq_ratchet_state st) (sm_pq_ratchet m) = Ok (pq, key')"
    using 1(5) found(3) by (simp add: c'(2) set_chain_at_def)
  then have key: "key' = key" by (rule spqr)
  have "mk' = mk" using 1(6) s(1) c'(4) [OF chain(2)] by (simp add: key)
  moreover have "sm_ciphertext m = ct" using SignalMessage_new_fields(5) [OF s(3)] .
  moreover have "aes_256_cbc_decrypt E ct (mks_cipher_key mk) (mks_iv mk) = Ok ptext"
    using aes_256_cbc_roundtrip [OF laws(2)] s(2) by (auto simp: aes_256_cbc_encrypt_def split: if_splits)
  ultimately have "ptext' = ptext" using 1(10) by simp
  then show thesis
    using that [of c' pq] ck(4) cs recv 1(11) c'(2-4) by (simp add: key)
qed

subsection \<open>Where a message is read\<close>

lemma receive_frames [simp]:
  "sends_in E x n (set_chain_at i c st) = sends_in E x n st"
  "sends_in E x n (st\<lparr>s_pq_ratchet_state := pq\<rparr>) = sends_in E x n st"
  "sends_in E x n (clear_unacknowledged_pre_key_message st) = sends_in E x n st"
  "reads_from E xs (st\<lparr>s_pq_ratchet_state := pq\<rparr>) = reads_from E xs st"
  "reads_from E xs (clear_unacknowledged_pre_key_message st) = reads_from E xs st"
  by (simp_all add: sends_in_def reads_from_def set_chain_at_def clear_unacknowledged_pre_key_message_def)

lemma chain_found_known:
  assumes "hash_lengths E" "session_ok st" "reads_from E xs st" "x \<in> set (take MAX_RECEIVER_CHAINS xs)" "epoch_ok E x"
  obtains c i where "chain_found E st (ep_public x) r st c i r" "chain_of E c x"
proof -
  have pk: "public_key_ok (ep_public x)" using assms(5) by (simp add: epoch_ok_def)
  obtain c i where c: "get_receiver_chain st (ep_public x) = Ok (Some (c, i))" "chain_of E c x"
    using assms(2-4) pk by (rule reads_from_known)
  have tr: "chain_tracks E (ep_chain x) c" using c(2) by (simp add: chain_of_def)
  obtain p where p: "c_chain_key c = Some (to_pb_chain_key (nth_chain_key E (ep_chain x) p))"
      "get_receiver_chain_key st (ep_public x) = Ok (Some (nth_chain_key E (ep_chain x) p))"
    using c(1) assms(1) tr by (rule tracked_chain_key)
  then have "chain_found E st (ep_public x) r st c i r"
    using assms(2) c(1) by (simp add: chain_found_def get_or_create_chain_key_def)
  then show thesis using that c(2) by blast
qed

lemma chain_found_new:
  assumes laws: "hash_lengths E" "dh_ok E" "curve_lengths E" "rng_length E"
    and h: "history_ok E (x # y # t)" "ep_public x \<notin> ep_public ` set t"
    and st: "session_ok st" "sends_in E y n st" "reads_from E (every_other t) st"
    and kp: "KeyPair_generate E r = (kp, r1)"
  obtains st1 c i where "chain_found E st (ep_public x) r st1 c i r1" "chain_of E c x"
    "sends_in E (next_epoch E x kp) 0 st1" "reads_from E (x # every_other t) st1" "get_receiver_chain st (ep_public x) = Ok None"
    "c_chain_key c = Some (to_pb_chain_key (ep_chain x))" "set (s_receiver_chains st1) \<subseteq> insert c (set (s_receiver_chains st))"
proof -
  have ok: "epoch_ok E x" "epoch_ok E y" using history_epoch_ok [OF h(1)] by simp_all
  then have pk: "public_key_ok (ep_public x)" and x: "chain_key_ok (ep_chain x)" "chain_key_index (ep_chain x) = 0"
      "length (root_key_key (ep_root x)) = 32"
    by (simp_all add: epoch_ok_def)
  note reads = sends_in_reads [OF st(2) ok(2) laws(1)]
  have "public_key_ok (ep_public z) \<and> ep_public z \<noteq> ep_public x" if "z \<in> set (every_other t)" for z
  proof -
    have z: "z \<in> set t" using that set_every_other [of t] by auto
    then have "epoch_ok E z" using history_epoch_ok [OF h(1), of z] by simp
    moreover have "ep_public z \<in> ep_public ` set t" using z by (rule imageI)
    ultimately show ?thesis using h(2) by (auto simp: epoch_ok_def)
  qed
  then have none: "get_receiver_chain st (ep_public x) = Ok None"
    by (intro reads_from_new [OF st(1,3) pk]) blast
  have rc: "create_chain E (ep_root y) (ep_public x) (kp_private_key (ep_key y)) = (ep_root x, ep_chain x)"
    using laws(2) h(1) by (rule history_agree)
  let ?z = "next_epoch E x kp"
  let ?st2 = "add_receiver_chain (ep_public x) (ep_chain x) (set_root_key (ep_root ?z) st)"
  have "get_sender_chain_key ?st2 = get_sender_chain_key st"
    by (simp add: get_sender_chain_key_def add_receiver_chain_def set_root_key_def)
  then obtain pn where step: "get_or_create_chain_key E st (ep_public x) r =
      (Ok (ep_chain x, set_sender_chain kp (ep_chain ?z) (set_previous_counter pn ?st2)), r1)"
    using none reads kp rc by (simp add: get_or_create_chain_key_def get_receiver_chain_key_def Let_def)
  let ?st1 = "set_sender_chain kp (ep_chain ?z) (set_previous_counter pn ?st2)"
  have "length (root_key_key (ep_root ?z)) = 32" using laws(1) by simp
  then have ok1: "session_ok (set_root_key (ep_root ?z) st)" using st(1) by (intro session_ok_set_root_key)
  then have ok2: "session_ok ?st2"
    using pk x(1) none by (intro session_ok_add_receiver_chain) simp_all
  obtain i where found: "get_receiver_chain ?st2 (ep_public x) = Ok (Some (\<lparr>c_sender_ratchet_key = PublicKey_serialize (ep_public x),
      c_sender_ratchet_key_private = [], c_chain_key = Some (to_pb_chain_key (ep_chain x)), c_message_keys = []\<rparr>, i))"
    using ok2 pk by (rule add_receiver_chain_found)
  have same: "same_identity st ?st1" and pq: "s_pq_ratchet_state ?st1 = s_pq_ratchet_state st"
    by (simp_all add: set_sender_chain_def set_previous_counter_def add_receiver_chain_def set_root_key_def same_identity_def)
  have push: "reads_from E (x # every_other t) ?st2"
    using st(3) x(1,2) by (intro reads_from_push) (simp_all add: reads_from_def set_root_key_def)
  show thesis
  proof (rule that)
    show "chain_found E st (ep_public x) r ?st1 \<lparr>c_sender_ratchet_key = PublicKey_serialize (ep_public x),
      c_sender_ratchet_key_private = [], c_chain_key = Some (to_pb_chain_key (ep_chain x)), c_message_keys = []\<rparr> i r1"
      using ok2 found step same pq by (simp add: chain_found_def)
    show "sends_in E ?z 0 ?st1"
      by (simp add: sends_in_def set_sender_chain_def set_previous_counter_def add_receiver_chain_def set_root_key_def
          nth_chain_key_def)
    show "reads_from E (x # every_other t) ?st1"
      using push by (simp add: reads_from_def set_sender_chain_def set_previous_counter_def)
    show "chain_of E \<lparr>c_sender_ratchet_key = PublicKey_serialize (ep_public x), c_sender_ratchet_key_private = [],
        c_chain_key = Some (to_pb_chain_key (ep_chain x)), c_message_keys = []\<rparr> x"
      using x(1,2) by (auto simp: chain_of_def chain_tracks_def nth_chain_key_def intro!: exI [of _ 0])
    show "set (s_receiver_chains ?st1) \<subseteq> insert \<lparr>c_sender_ratchet_key = PublicKey_serialize (ep_public x),
        c_sender_ratchet_key_private = [], c_chain_key = Some (to_pb_chain_key (ep_chain x)), c_message_keys = []\<rparr>
        (set (s_receiver_chains st))"
      using receiver_chain_buffer.push_subset
      by (simp add: set_sender_chain_def set_previous_counter_def add_receiver_chain_def set_root_key_def)
  qed (use none in simp_all)
qed

subsection \<open>Delivery\<close>

lemma decrypt_sealed_succeeds:
  assumes laws: "hash_lengths E" "cbc_ok E" and st: "session_ok st" "speaks b a st"
    and m: "sealed_in E x n key ptext a b m"
    and chain: "chain_found E st (ep_public x) r st1 c i r1" "chain_tracks E (ep_chain x) c" "available st1 c n"
    and spqr: "spqr_recv E (s_pq_ratchet_state st) (sm_pq_ratchet m) = Ok (pq, key)"
  shows "\<exists>st'. decrypt_message_with_state E st m t r = (Ok (ptext, st'), r1)"
proof -
  obtain mk ct pn where s: "generate_keys E (chain_message_keys E (nth_chain_key E (ep_chain x) n)) key =
        (Ok mk :: (_, signal_error) result)"
      "aes_256_cbc_encrypt E ptext (mks_cipher_key mk) (mks_iv mk) = Ok ct"
      "SignalMessage_new E 4 (mks_mac_key mk) (ep_public x) n pn ct a b (sm_pq_ratchet m) = Ok m"
    using m by (auto simp: sealed_in_def)
  obtain ck where c: "get_or_create_chain_key E st (ep_public x) r = (Ok (ck, st1), r1)" "same_identity st st1"
      "get_receiver_chain st1 (ep_public x) = Ok (Some (c, i))" "c_chain_key c = Some (to_pb_chain_key ck)"
      "s_pq_ratchet_state st1 = s_pq_ratchet_state st"
    using chain(1) by (auto simp: chain_found_def)
  have "length (s_root_key st) = 32" using st(1) by (simp add: session_ok_def)
  moreover have "session_version st = Ok (ucast (4 :: u8))" using st(2) by (simp add: speaks_def)
  ultimately show ?thesis
    using decrypt_message_with_state_correct [OF laws _ _ c(1-4) chain(2,3) _ s(1) _ _ s(2,3)] st(2) spqr
    by (simp add: c(5) speaks_def)
qed

text \<open>The counter was not used: it is ahead of the chain or its key is stored.\<close>

definition unused_at :: "pb_chain \<Rightarrow> u32 \<Rightarrow> bool" where
  "unused_at c n \<longleftrightarrow> (\<exists>ck. c_chain_key c = Some ck \<and> (ck_index ck \<le> n \<or> n \<in> mk_index ` set (c_message_keys c)))"

lemma unused_available:
  assumes "unused_at c n" "unat n < MAX_MESSAGE_KEYS"
  shows "available st c n"
proof -
  obtain ck where ck: "c_chain_key c = Some ck" "ck_index ck \<le> n \<or> n \<in> mk_index ` set (c_message_keys c)"
    using assms(1) by (auto simp: unused_at_def)
  have "jump_allowed st (ck_index ck) n"
    using assms(2) unfolding jump_allowed_def MAX_MESSAGE_KEYS_def MAX_FORWARD_JUMPS_def by linarith
  then show ?thesis using ck by (cases "ck_index ck \<le> n") (auto simp: available_def)
qed

lemma set_remove_nth_insert: "q < length xs \<Longrightarrow> set xs = insert (xs ! q) (set (remove_nth q xs))"
  by (subst id_take_nth_drop, assumption) (simp add: remove_nth_def)

lemma length_below:
  fixes k :: "'a :: len word"
  assumes "distinct xs" "\<forall>n \<in> set xs. n < k"
  shows "length xs \<le> unat k"
proof -
  have "card (unat ` set xs) = card (set xs)" by (intro card_image inj_onI) (simp add: word_unat_eq_iff)
  then have "length xs = card (unat ` set xs)" using assms(1) by (simp add: distinct_card)
  also have "\<dots> \<le> card {..<unat k}"
    using assms(2) by (intro card_mono) (auto simp: word_less_nat_alt)
  finally show ?thesis by simp
qed

text \<open>Taking the key of one counter leaves every other unused one readable, as long as no key is evicted.\<close>

lemma unused_chain_step:
  assumes "chain_step E n c c'" "receiver_chain_ok c" "unused_at c k" "k \<noteq> n" "unat n < MAX_MESSAGE_KEYS"
  shows "unused_at c' k"
proof -
  obtain ck where ck: "c_chain_key c = Some (to_pb_chain_key ck)"
    and step: "if n < chain_key_index ck
      then \<exists>q < length (c_message_keys c). mk_index (c_message_keys c ! q) = n \<and>
             c' = c\<lparr>c_message_keys := remove_nth q (c_message_keys c)\<rparr>
      else c' = advanced E ck n c"
    using assms(1) by (auto simp: chain_step_def)
  have k: "chain_key_index ck \<le> k \<or> k \<in> mk_index ` set (c_message_keys c)"
    using assms(3) ck by (simp add: unused_at_def)
  show ?thesis
  proof (cases "n < chain_key_index ck")
    case True
    then obtain q where q: "q < length (c_message_keys c)" "mk_index (c_message_keys c ! q) = n"
        "c' = c\<lparr>c_message_keys := remove_nth q (c_message_keys c)\<rparr>"
      using step by auto
    have "set (c_message_keys c) = insert (c_message_keys c ! q) (set (remove_nth q (c_message_keys c)))"
      using q(1) by (rule set_remove_nth_insert)
    then show ?thesis using k assms(4) q ck by (auto simp: unused_at_def)
  next
    case False
    then have le: "chain_key_index ck \<le> n" and c': "c' = advanced E ck n c" using step by simp_all
    let ?sk = "skipped_keys E ck n"
    have ok: "distinct (map mk_index (c_message_keys c))" "\<forall>i \<in> set (map mk_index (c_message_keys c)). i < chain_key_index ck"
      using assms(2) ck by (auto simp: receiver_chain_ok_def)
    have "length (c_message_keys c) \<le> unat (chain_key_index ck)" using length_below [OF ok] by simp
    moreover have "length ?sk = unat n - unat (chain_key_index ck)"
      by (simp add: skipped_keys_def ratchet_chain.walk_def)
    moreover have "unat (chain_key_index ck) \<le> unat n" using le by (simp add: word_le_nat_alt)
    ultimately have "length (c_message_keys c) + length ?sk \<le> MAX_MESSAGE_KEYS" using assms(5) by simp
    then have set: "set (fold push_message_key ?sk (c_message_keys c)) = set ?sk \<union> set (c_message_keys c)"
      by (rule message_key_buffer.push_many_room) (simp add: push_message_key_length)
    have idx: "chain_key_index (next_chain_key E (jump_to E ck n)) = n + 1"
      by (simp add: ratchet_chain.idx_nxt jump_to_index [OF le])
    have n: "n \<noteq> - 1" using assms(5) by (auto simp: MAX_MESSAGE_KEYS_def unsigned_minus_1_eq_mask mask_eq_exp_minus_1)
    consider "n < k" | "chain_key_index ck \<le> k" "k < n" | "k \<in> mk_index ` set (c_message_keys c)"
      using k assms(4) by (metis linorder_less_linear)
    then show ?thesis
    proof cases
      case 1
      then have "n + 1 \<le> k" by (rule u32_lt_Suc)
      then show ?thesis by (simp add: unused_at_def c' advanced_def idx)
    next
      case 2
      then obtain d where "d \<in> set (chain_walk E ck n)" "chain_key_index d = k"
        using ratchet_chain.walk_hits [of ck k n E] by auto
      then have "k \<in> mk_index ` set ?sk"
        by (force simp: skipped_keys_def chain_message_keys_pb image_image)
      then show ?thesis by (auto simp: unused_at_def c' advanced_def set)
    next
      case 3
      then show ?thesis by (auto simp: unused_at_def c' advanced_def set)
    qed
  qed
qed

end
