(* ===== verification/End_To_End.thy ===== *)
theory End_To_End
  imports Handlers_Correctness
begin

text \<open>
  The whole handshake over the stores: Alice processes Bob's bundle and encrypts; Bob, who has
  no session with Alice yet, decrypts the pre-key message to Alice's plaintext.
\<close>

subsection \<open>Alice\<close>

definition bundle_parameters :: "identity_key_pair \<Rightarrow> key_pair \<Rightarrow> pre_key_bundle \<Rightarrow> alice_parameters" where
  "bundle_parameters ours base bundle =
     \<lparr>ap_our_identity_key_pair = ours, ap_our_base_key_pair = base,
      ap_their_identity_key = b_identity_key bundle,
      ap_their_signed_pre_key = esp_public_key (b_ec_signed_pre_key bundle),
      ap_their_one_time_pre_key = b_pre_key_public bundle,
      ap_their_ratchet_key = esp_public_key (b_ec_signed_pre_key bundle),
      ap_their_kyber_pre_key = kpk_public_key (b_kyber_pre_key bundle)\<rparr>"

lemma bundle_parameters_eq:
  "(case b_pre_key_public bundle of
      Some key \<Rightarrow> set_their_one_time_pre_key key (AliceSignalProtocolParameters_new ours base
        (b_identity_key bundle) (esp_public_key (b_ec_signed_pre_key bundle))
        (esp_public_key (b_ec_signed_pre_key bundle)) (kpk_public_key (b_kyber_pre_key bundle)))
    | None \<Rightarrow> AliceSignalProtocolParameters_new ours base
        (b_identity_key bundle) (esp_public_key (b_ec_signed_pre_key bundle))
        (esp_public_key (b_ec_signed_pre_key bundle)) (kpk_public_key (b_kyber_pre_key bundle))) =
   bundle_parameters ours base bundle"
  by (simp add: bundle_parameters_def AliceSignalProtocolParameters_new_def set_their_one_time_pre_key_def
      split: option.split)

lemma process_prekey_bundle_cases:
  assumes "process_prekey_bundle E a bundle now (s, r) = (Ok (), (s', r'))"
  obtains base r1 st st1 rec where
    "KeyPair_generate E r = (base, r1)"
    "initialize_alice_session E (bundle_parameters (get_identity_key_pair s) base bundle) r1 = (Ok st, r')"
    "set_unacknowledged_kyber_pre_key_id (kpk_id (b_kyber_pre_key bundle))
       (set_unacknowledged_pre_key_message (b_pre_key_id bundle) (esp_id (b_ec_signed_pre_key bundle))
          (kp_public_key base) now st) = (Ok st1 :: (_, signal_error) result)"
    "rec = (case load_session a s of None \<Rightarrow> SessionRecord_new_fresh | Some rec \<Rightarrow> rec)"
    "s' = store_session a (promote_state E (set_remote_registration_id (b_registration_id bundle)
        (set_local_registration_id (get_local_registration_id s) st1)) rec)
        (snd (save_identity a (b_identity_key bundle) s))"
    "is_trusted_identity a (b_identity_key bundle) Sending s"
    "verify_signature E (b_identity_key bundle) (PublicKey_serialize (esp_public_key (b_ec_signed_pre_key bundle)))
       (esp_signature (b_ec_signed_pre_key bundle))"
    "verify_signature E (b_identity_key bundle) (kem_Key_serialize (kpk_public_key (b_kyber_pre_key bundle)))
       (kpk_signature (b_kyber_pre_key bundle))"
proof -
  obtain base r1 where base: "KeyPair_generate E r = (base, r1)" by fastforce
  let ?p = "bundle_parameters (get_identity_key_pair s) base bundle"
  note p = bundle_parameters_eq [where ours = "get_identity_key_pair s" and base = base]
  obtain x r2 where i: "initialize_alice_session E ?p r1 = (x, r2)" by fastforce
  show thesis
  proof (cases x)
    case (Ok st)
    let ?st = "set_unacknowledged_pre_key_message (b_pre_key_id bundle) (esp_id (b_ec_signed_pre_key bundle))
      (kp_public_key base) now st"
    obtain y where y: "set_unacknowledged_kyber_pre_key_id (kpk_id (b_kyber_pre_key bundle)) ?st =
        (y :: (_, signal_error) result)" by blast
    show thesis
      using assms base i Ok y that
      by (cases y) (auto simp: process_prekey_bundle_def Let_def p split: if_splits)
  qed (use assms base i in \<open>auto simp: process_prekey_bundle_def Let_def p split: if_splits\<close>)
qed

text \<open>An error, such as an untrusted identity or a bad signature, changes no store.\<close>

lemma process_prekey_bundle_frame:
  assumes "process_prekey_bundle E a bundle now (s, r) = (res, (s', r'))"
  shows "is_ok res \<or> s' = s"
  using assms
  by (auto simp: process_prekey_bundle_def Let_def split: if_splits prod.splits result.splits)

lemma set_unacknowledged_kyber_pre_key_id_Ok:
  assumes "set_unacknowledged_kyber_pre_key_id i st = Ok st1"
  shows "sends_as st st1" "s_pending_pre_key st1 = s_pending_pre_key st"
    "get_kyber_ciphertext st1 = get_kyber_ciphertext st"
    "map_option pkk_pre_key_id (s_pending_kyber_pre_key st1) = Some i"
  using assms
  by (auto simp: set_unacknowledged_kyber_pre_key_id_def result_simps sends_as_def get_kyber_ciphertext_def)

lemma sends_as_setters:
  "sends_as st (set_unacknowledged_pre_key_message p i k now st)"
  "sends_as st (set_local_registration_id n st)" "sends_as st (set_remote_registration_id n st)"
  by (simp_all add: sends_as_def set_unacknowledged_pre_key_message_def set_local_registration_id_def
      set_remote_registration_id_def)

lemma sends_as_refl: "sends_as st st"
  by (simp add: sends_as_def)

lemma sends_as_trans: "sends_as st st' \<Longrightarrow> sends_as st' st'' \<Longrightarrow> sends_as st st''"
  by (simp add: sends_as_def)

text \<open>The pre-key message of a session that was just made from a bundle.\<close>

lemma bundle_message:
  assumes "process_prekey_bundle E a bundle now (s, r) = (Ok (), (s1, r1))"
    and "message_encrypt E ptext a now' (s1, r1) = (Ok msg, (s2, r2))"
    and "curve_lengths E" "rng_length E"
  obtains base r0 st st' st'' k m pm where
    "KeyPair_generate E r = (base, r0)"
    "initialize_alice_session E (bundle_parameters (get_identity_key_pair s) base bundle) r0 = (Ok st, r1)"
    "sends_as st st'" "encrypt_with_state E ptext a now' st' r1 = (Ok (msg, k, st''), r2)"
    "msg = CPreKeySignalMessage pm" "pkm_message pm = m" "signal_part msg = Some m"
    "pkm_pre_key_id pm = b_pre_key_id bundle" "pkm_signed_pre_key_id pm = esp_id (b_ec_signed_pre_key bundle)"
    "pkm_base_key pm = kp_public_key base"
    "\<exists>ct. get_kyber_ciphertext st = Some ct \<and>
       pkm_kyber_payload pm = Some \<lparr>kyp_pre_key_id = kpk_id (b_kyber_pre_key bundle), kyp_ciphertext = ct\<rparr>"
    "session_version st = Ok 4 \<Longrightarrow> pkm_message_version pm = 4"
    "\<And>i. local_identity_key st = Ok i \<Longrightarrow> pkm_identity_key pm = i"
  using assms(1)
proof (cases rule: process_prekey_bundle_cases)
  case b: (1 base r0 st0 st1 rec)
  let ?st = "set_remote_registration_id (b_registration_id bundle)
      (set_local_registration_id (get_local_registration_id s) st1)"
  have as: "sends_as st0 ?st"
    using set_unacknowledged_kyber_pre_key_id_Ok(1) [OF b(3)] sends_as_setters sends_as_trans by metis
  have pend: "s_pending_pre_key ?st = Some \<lparr>ppk_pre_key_id = b_pre_key_id bundle,
      ppk_signed_pre_key_id = esp_id (b_ec_signed_pre_key bundle),
      ppk_base_key = PublicKey_serialize (kp_public_key base), ppk_timestamp = secs_since_epoch now\<rparr>"
    using set_unacknowledged_kyber_pre_key_id_Ok(2) [OF b(3)]
    by (simp add: set_unacknowledged_pre_key_message_def set_local_registration_id_def set_remote_registration_id_def)
  obtain ct where ct: "s_pending_kyber_pre_key st1 = Some \<lparr>pkk_pre_key_id = kpk_id (b_kyber_pre_key bundle), pkk_ciphertext = ct\<rparr>"
    using set_unacknowledged_kyber_pre_key_id_Ok(4) [OF b(3)]
    by (auto intro: that pb_pending_kyber_pre_key.equality) (metis (full_types) pb_pending_kyber_pre_key.surjective old.unit.exhaust)
  have ct0: "get_kyber_ciphertext st0 = Some ct"
    using set_unacknowledged_kyber_pre_key_id_Ok(3) [OF b(3)] ct
    by (simp add: get_kyber_ciphertext_def set_unacknowledged_pre_key_message_def)
  show thesis
    using assms(2)
  proof (cases rule: message_encrypt_cases)
    case m: (1 rec' st st' k)
    have st: "st = ?st"
      using m(2) m(1) [unfolded b(5) sessions.load_store_same] by (auto simp: promote_state_def)
    have pk: "public_key_ok (kp_public_key base)"
      using KeyPair_generate_ok(1) [OF assms(3,4), of r] b(1) by simp
    show thesis
      using m(3)
    proof (cases rule: encrypt_with_state_cases)
      case e: (1 ck pq key pq_msg mk eph v our_id ctx m0 items)
      obtain it where it: "items = Some it" "ui_pre_key_id it = b_pre_key_id bundle"
          "ui_signed_pre_key_id it = esp_id (b_ec_signed_pre_key bundle)" "ui_base_key it = kp_public_key base"
          "kyber_payload_of it = Some \<lparr>kyp_pre_key_id = kpk_id (b_kyber_pre_key bundle), kyp_ciphertext = ct\<rparr>"
        using e(10) pend ct pk
        by (auto simp: st unacknowledged_pre_key_message_items_def public_key_serde.de_ser result_simps
            kyber_payload_of_def set_local_registration_id_def set_remote_registration_id_def)
      show thesis
        by (rule that [OF b(1,2) as [folded st] m(3) e(12) [unfolded it(1) option.case]])
          (use it ct0 e(5,7) sends_as_reads [OF as] in \<open>auto simp: PreKeySignalMessage_new_def signal_part_def
              Let_def e(12) st\<close>)
    qed
  qed
qed

subsection \<open>Bob\<close>

text \<open>Bob's store holds the private keys of the bundle.\<close>

definition serves_bundle ::
    "'r env \<Rightarrow> pre_key_bundle \<Rightarrow> key_pair \<Rightarrow> kem_key_pair \<Rightarrow> key_pair option \<Rightarrow> protocol_store \<Rightarrow> bool" where
  "serves_bundle E bundle spk kyber otk s \<longleftrightarrow>
     b_identity_key bundle = id_identity_key (get_identity_key_pair s) \<and>
     id_identity_key (get_identity_key_pair s) = PrivateKey_public_key E (id_private_key (get_identity_key_pair s)) \<and>
     bindR (get_signed_pre_key (esp_id (b_ec_signed_pre_key bundle)) s) (SignedPreKeyRecord_key_pair E) = Ok spk \<and>
     esp_public_key (b_ec_signed_pre_key bundle) = kp_public_key spk \<and> key_pair_ok E spk \<and>
     private_key_ok (kp_private_key spk) \<and>
     bindR (get_kyber_pre_key (kpk_id (b_kyber_pre_key bundle)) s) KyberPreKeyRecord_key_pair = Ok kyber \<and>
     kem_matching E (kpk_public_key (b_kyber_pre_key bundle)) (kkp_secret_key kyber) \<and>
     (case b_pre_key_id bundle of
        None \<Rightarrow> otk = None
      | Some i \<Rightarrow> mapR Some (bindR (get_pre_key i s) (PreKeyRecord_key_pair E)) = Ok otk) \<and>
     b_pre_key_public bundle = map_option (\<lambda>kp. PrivateKey_public_key E (kp_private_key kp)) otk"

definition message_parameters ::
    "pre_key_signal_message \<Rightarrow> bytes \<Rightarrow> key_pair \<Rightarrow> kem_key_pair \<Rightarrow> key_pair option \<Rightarrow> protocol_store \<Rightarrow> bob_parameters" where
  "message_parameters pm ct spk kyber otk s =
     \<lparr>bp_our_identity_key_pair = get_identity_key_pair s, bp_our_signed_pre_key_pair = spk,
      bp_our_one_time_pre_key_pair = otk, bp_our_ratchet_key_pair = spk, bp_our_kyber_pre_key_pair = kyber,
      bp_their_identity_key = pkm_identity_key pm, bp_their_base_key = pkm_base_key pm,
      bp_their_kyber_ciphertext = ct\<rparr>"

lemma promote_matching_session_fresh: "promote_matching_session E v k SessionRecord_new_fresh = Ok (False, SessionRecord_new_fresh)"
  by (simp add: promote_matching_session_def SessionRecord_new_fresh_def previous_session_states_def)

lemma process_prekey_fresh:
  assumes "serves_bundle E bundle spk kyber otk s" "pkm_message_version pm = 4"
    "pkm_pre_key_id pm = b_pre_key_id bundle" "pkm_signed_pre_key_id pm = esp_id (b_ec_signed_pre_key bundle)"
    "pkm_kyber_payload pm = Some \<lparr>kyp_pre_key_id = kpk_id (b_kyber_pre_key bundle), kyp_ciphertext = ct\<rparr>"
    "initialize_bob_session E (message_parameters pm ct spk kyber otk s) = Ok stB"
    "is_trusted_identity a (pkm_identity_key pm) Receiving s"
  shows "process_prekey E pm a SessionRecord_new_fresh s =
    Ok (Some \<lparr>pu_one_time_ec_pre_key_id = b_pre_key_id bundle,
              pu_signed_ec_pre_key_id = esp_id (b_ec_signed_pre_key bundle),
              pu_kyber_pre_key_id = Some (kpk_id (b_kyber_pre_key bundle))\<rparr>,
        pkm_identity_key pm,
        promote_state E (set_remote_registration_id (pkm_registration_id pm)
          (set_local_registration_id (get_local_registration_id s) stB)) SessionRecord_new_fresh)"
proof -
  have spk: "bindR (get_signed_pre_key (esp_id (b_ec_signed_pre_key bundle)) s) (\<lambda>x. bindR (SignedPreKeyRecord_key_pair E x) f) = f spk"
    and kyb: "bindR (get_kyber_pre_key (kpk_id (b_kyber_pre_key bundle)) s) KyberPreKeyRecord_key_pair = Ok kyber"
    for f :: "key_pair \<Rightarrow> ('x, signal_error) result"
    using assms(1) by (auto simp: serves_bundle_def result_simps)
  have otk: "(case b_pre_key_id bundle of
      Some i \<Rightarrow> bindR (get_pre_key i s) (\<lambda>p. bindR (PreKeyRecord_key_pair E p) (\<lambda>kp. Ok (Some kp))) | None \<Rightarrow> Ok None) = Ok otk"
    using assms(1) by (auto simp: serves_bundle_def result_simps split: option.splits)
  show ?thesis
    using assms(2-7) otk kyb
    by (simp add: process_prekey_def process_prekey_impl_def promote_matching_session_fresh spk
        CIPHERTEXT_MESSAGE_PRE_KYBER_VERSION_def message_parameters_def Let_def)
qed

text \<open>A record whose current session decrypts the message, and logs it without a panic.\<close>

lemma decrypt_message_with_record_current:
  assumes "sr_current_session rec = Some st" "session_healthy st" "public_key_ok (sm_sender_ratchet_key m)"
    "hash_lengths E" "curve_lengths E" "rng_length E" "sm_counter m \<noteq> - 1"
    "decrypt_message_with_state E st m t r = (Ok (ptext, st'), r')"
  shows "decrypt_message_with_record E rec m t r = (Ok (ptext, set_session_state st' rec), r')"
proof -
  have "session_healthy st'" using assms(2-8) by (rule session_healthy_decrypt)
  then have "log_base_key E st' = Ok ()" by (rule log_base_key_healthy)
  then show ?thesis using assms(1,8) by (simp add: decrypt_message_with_record_def)
qed

lemma base_keys_seen_save_identity [simp]:
  "base_keys_seen i e (snd (save_identity a k s)) = base_keys_seen i e s"
  by (auto simp: base_keys_seen_def save_identity_def Let_def split: option.splits)

lemma consume_pre_keys_fresh:
  assumes "k \<notin> set (base_keys_seen kid eid s)"
  obtains s' where
    "consume_pre_keys (Some \<lparr>pu_one_time_ec_pre_key_id = i, pu_signed_ec_pre_key_id = eid,
       pu_kyber_pre_key_id = Some kid\<rparr>) k s = (Ok (), s')"
    "k \<in> set (base_keys_seen kid eid s')" "\<And>j. i = Some j \<Longrightarrow> get_pre_key j s' = Err InvalidPreKeyId"
    "get_identity a s' = get_identity a s"
  using assms that
  by (cases i) (auto simp: consume_pre_keys_def mark_kyber_pre_key_used_def remove_pre_key_def get_pre_key_def
      set_base_keys_seen_def base_keys_seen_def get_identity_def Let_def)

lemma store_session_reads [simp]:
  "base_keys_seen i e (store_session a rec s) = base_keys_seen i e s"
  "get_pre_key j (store_session a rec s) = get_pre_key j s"
  by (simp_all add: base_keys_seen_def store_session_def get_pre_key_def)

text \<open>
  Bob's store after the message: a session with Alice whose current state has used the message, her
  identity key is saved, the base key is on record and the one-time key is gone.
\<close>

definition received_from ::
    "protocol_address \<Rightarrow> pre_key_bundle \<Rightarrow> pre_key_signal_message \<Rightarrow> protocol_store \<Rightarrow> bool" where
  "received_from a bundle pm s \<longleftrightarrow>
     (\<exists>rec. load_session a s = Some rec \<and> sr_current_session rec \<noteq> None) \<and>
     get_identity a s = Some (pkm_identity_key pm) \<and>
     pkm_base_key pm \<in> set (base_keys_seen (kpk_id (b_kyber_pre_key bundle)) (esp_id (b_ec_signed_pre_key bundle)) s) \<and>
     (\<forall>i. b_pre_key_id bundle = Some i \<longrightarrow> get_pre_key i s = Err InvalidPreKeyId)"

lemma message_decrypt_prekey_fresh:
  assumes laws: "hash_lengths E" "curve_lengths E" "rng_length E"
    and bob: "serves_bundle E bundle spk kyber otk s" "load_session a s = None"
      "is_trusted_identity a (pkm_identity_key pm) Receiving s"
      "pkm_base_key pm \<notin> set (base_keys_seen (kpk_id (b_kyber_pre_key bundle)) (esp_id (b_ec_signed_pre_key bundle)) s)"
    and pm: "pkm_message_version pm = 4" "pkm_pre_key_id pm = b_pre_key_id bundle"
      "pkm_signed_pre_key_id pm = esp_id (b_ec_signed_pre_key bundle)"
      "pkm_kyber_payload pm = Some \<lparr>kyp_pre_key_id = kpk_id (b_kyber_pre_key bundle), kyp_ciphertext = ct\<rparr>"
      "sm_counter (pkm_message pm) \<noteq> - 1" "public_key_ok (sm_sender_ratchet_key (pkm_message pm))"
    and session: "initialize_bob_session E (message_parameters pm ct spk kyber otk s) = Ok stB" "session_healthy stB"
      "\<And>stB' r. sends_as stB stB' \<Longrightarrow> \<exists>st r'. decrypt_message_with_state E stB' (pkm_message pm) PreKey r = (Ok (ptext, st), r')"
  shows "\<exists>s' r'. message_decrypt_prekey E pm a (s, r) = (Ok ptext, (s', r')) \<and> received_from a bundle pm s'"
proof -
  let ?st = "set_remote_registration_id (pkm_registration_id pm)
      (set_local_registration_id (get_local_registration_id s) stB)"
  let ?rec = "promote_state E ?st SessionRecord_new_fresh"
  let ?used = "\<lparr>pu_one_time_ec_pre_key_id = b_pre_key_id bundle,
      pu_signed_ec_pre_key_id = esp_id (b_ec_signed_pre_key bundle),
      pu_kyber_pre_key_id = Some (kpk_id (b_kyber_pre_key bundle))\<rparr>"
  have pre: "process_prekey E pm a SessionRecord_new_fresh s = Ok (Some ?used, pkm_identity_key pm, ?rec)"
    using bob(1) pm(1-4) session(1) bob(3) by (rule process_prekey_fresh)
  have as: "sends_as stB ?st" using sends_as_setters(2,3) sends_as_trans by blast
  then have healthy: "session_healthy ?st" using session(2) by (simp add: sends_as_reads(9))
  obtain st' r' where "decrypt_message_with_state E ?st (pkm_message pm) PreKey r = (Ok (ptext, st'), r')"
    using session(3) [OF as] by blast
  then have dec: "decrypt_message_with_record E ?rec (pkm_message pm) PreKey r = (Ok (ptext, set_session_state st' ?rec), r')"
    using healthy laws pm(5,6) by (intro decrypt_message_with_record_current) (auto simp: promote_state_def)
  let ?s1 = "snd (save_identity a (pkm_identity_key pm) s)"
  have fresh: "pkm_base_key pm \<notin>
      set (base_keys_seen (kpk_id (b_kyber_pre_key bundle)) (esp_id (b_ec_signed_pre_key bundle)) ?s1)"
    using bob(4) by simp
  obtain s2 where s2: "consume_pre_keys (Some ?used) (pkm_base_key pm) ?s1 = (Ok (), s2)"
      "pkm_base_key pm \<in> set (base_keys_seen (kpk_id (b_kyber_pre_key bundle)) (esp_id (b_ec_signed_pre_key bundle)) s2)"
      "\<And>j. b_pre_key_id bundle = Some j \<Longrightarrow> get_pre_key j s2 = Err InvalidPreKeyId"
      "get_identity a s2 = get_identity a ?s1"
    by (rule consume_pre_keys_fresh [OF fresh, of "b_pre_key_id bundle" a]) (rule that)
  have "message_decrypt_prekey E pm a (s, r) = (Ok ptext, (store_session a (set_session_state st' ?rec) s2, r'))"
    using bob(2) pre dec s2(1) by (simp add: message_decrypt_prekey_def Let_def)
  moreover have "received_from a bundle pm (store_session a (set_session_state st' ?rec) s2)"
    using s2(2-) identities.load_store_same [of a "pkm_identity_key pm" s]
    by (simp add: received_from_def sessions.load_store_same set_session_state_def)
  ultimately show ?thesis by blast
qed

subsection \<open>From the bundle to the plaintext\<close>

lemma initialize_alice_session_reads:
  assumes "initialize_alice_session E p r = (Ok st, r')" "public_key_ok (id_identity_key (ap_our_identity_key_pair p))"
  shows "local_identity_key st = Ok (id_identity_key (ap_our_identity_key_pair p))" "session_version st = Ok 4"
proof -
  obtain ct kp ck' ck rk' pq where "st = alice_session p rk' ck kp ck' ct pq"
    using assms(1) by (cases rule: initialize_alice_session_cases) (auto simp: alice_session_def)
  then show "local_identity_key st = Ok (id_identity_key (ap_our_identity_key_pair p))" "session_version st = Ok 4"
    using assms(2) by (simp_all add: session_unfold local_identity_key_def session_version_def decode_PublicKey_serialize)
qed

lemma parameters_match_bundle:
  assumes "serves_bundle E bundle spk kyber otk s" "key_pair_ok E base"
    "id_identity_key ours = PrivateKey_public_key E (id_private_key ours)"
    "pkm_identity_key pm = id_identity_key ours" "pkm_base_key pm = kp_public_key base"
  shows "parameters_match E (bundle_parameters ours base bundle) (message_parameters pm ct spk kyber otk s)"
  using assms by (auto simp: parameters_match_def bundle_parameters_def message_parameters_def serves_bundle_def
      key_pair_ok_def)

lemma bundle_first_message:
  assumes laws: "hash_lengths E" "dh_ok E" "curve_lengths E" "rng_length E" "spqr_pairs E" "cbc_ok E"
    and alice: "id_identity_key (get_identity_key_pair sA) = PrivateKey_public_key E (id_private_key (get_identity_key_pair sA))"
      "process_prekey_bundle E b bundle now (sA, r) = (Ok (), (sA1, r1))"
      "message_encrypt E ptext b now' (sA1, r1) = (Ok msg, (sA2, r2))"
    and bob: "serves_bundle E bundle spk kyber otk sB"
    and canonical: "is_canonical E (kp_public_key (fst (KeyPair_generate E r)))"
  obtains pm ct stB where "msg = CPreKeySignalMessage pm"
    "pkm_identity_key pm = id_identity_key (get_identity_key_pair sA)" "pkm_message_version pm = 4"
    "pkm_pre_key_id pm = b_pre_key_id bundle" "pkm_signed_pre_key_id pm = esp_id (b_ec_signed_pre_key bundle)"
    "pkm_kyber_payload pm = Some \<lparr>kyp_pre_key_id = kpk_id (b_kyber_pre_key bundle), kyp_ciphertext = ct\<rparr>"
    "initialize_bob_session E (message_parameters pm ct spk kyber otk sB) = Ok stB" "session_healthy stB"
    "sm_counter (pkm_message pm) = 0" "message_ok (pkm_message pm)"
    "\<And>stB' t rB. sends_as stB stB' \<Longrightarrow>
       \<exists>st rB'. decrypt_message_with_state E stB' (pkm_message pm) t rB = (Ok (ptext, st), rB')"
  using alice(2,3) laws(3,4)
proof (cases rule: bundle_message)
  case m: (1 base r0 st st' st'' k m pm)
  obtain ct where ct: "get_kyber_ciphertext st = Some ct"
      "pkm_kyber_payload pm = Some \<lparr>kyp_pre_key_id = kpk_id (b_kyber_pre_key bundle), kyp_ciphertext = ct\<rparr>"
    using m(11) by blast
  let ?a = "bundle_parameters (get_identity_key_pair sA) base bundle"
  let ?b = "message_parameters pm ct spk kyber otk sB"
  have base: "key_pair_ok E base" "is_canonical E (kp_public_key base)"
    using KeyPair_generate_key_pair_ok [OF laws(2), of r] canonical m(1) by simp_all
  have "public_key_ok (id_identity_key (get_identity_key_pair sA))"
    using alice(1) laws(3) by (simp add: PrivateKey_public_key_def public_key_ok_def curve_lengths_def)
  note reads = initialize_alice_session_reads [OF m(2), unfolded bundle_parameters_def, simplified, OF this]
  have ident: "pkm_identity_key pm = id_identity_key (get_identity_key_pair sA)" and v4: "pkm_message_version pm = 4"
    using m(12,13) reads by blast+
  have match: "parameters_match E ?a ?b"
    using bob(1) base(1) alice(1) ident m(10) by (rule parameters_match_bundle)
  have kem: "kem_matching E (ap_their_kyber_pre_key ?a) (kkp_secret_key (bp_our_kyber_pre_key_pair ?b))"
    and spk: "key_pair_ok E (bp_our_ratchet_key_pair ?b)" "private_key_ok (kp_private_key (bp_our_ratchet_key_pair ?b))"
    using bob(1) by (simp_all add: serves_bundle_def bundle_parameters_def message_parameters_def)
  have can: "is_canonical E (bp_their_base_key ?b)" and kct: "get_kyber_ciphertext st = Some (bp_their_kyber_ciphertext ?b)"
    using base(2) m(10) ct(1) by (simp_all add: message_parameters_def)
  obtain stB where stB: "initialize_bob_session E ?b = Ok stB" "session_healthy stB" "sm_counter m = 0" "message_ok m"
      "\<And>stB' t rB. sends_as stB stB' \<Longrightarrow> \<exists>st rB'. decrypt_message_with_state E stB' m t rB = (Ok (ptext, st), rB')"
    using first_message_decrypts [OF laws match kem can spk m(2) kct m(3,4,7)] by blast
  show thesis
    by (rule that [OF m(5) ident v4 m(8,9) ct(2) stB(1,2)]) (use stB(3-) m(6) in simp_all)
qed

lemma bundle_message_decrypts:
  assumes laws: "hash_lengths E" "dh_ok E" "curve_lengths E" "rng_length E" "spqr_pairs E" "cbc_ok E"
    and alice: "id_identity_key (get_identity_key_pair sA) = PrivateKey_public_key E (id_private_key (get_identity_key_pair sA))"
      "process_prekey_bundle E b bundle now (sA, r) = (Ok (), (sA1, r1))"
      "message_encrypt E ptext b now' (sA1, r1) = (Ok msg, (sA2, r2))"
    and bob: "serves_bundle E bundle spk kyber otk sB" "load_session a sB = None"
      "is_trusted_identity a (id_identity_key (get_identity_key_pair sA)) Receiving sB"
      "base_keys_seen (kpk_id (b_kyber_pre_key bundle)) (esp_id (b_ec_signed_pre_key bundle)) sB = []"
    and canonical: "is_canonical E (kp_public_key (fst (KeyPair_generate E r)))"
  shows "\<exists>pm sB' rB'. msg = CPreKeySignalMessage pm \<and>
    message_decrypt E msg a (sB, rB) = (Ok ptext, (sB', rB')) \<and> received_from a bundle pm sB'"
  using laws alice bob(1) canonical
proof (cases rule: bundle_first_message)
  case m: (1 pm ct stB)
  have "\<exists>s' r'. message_decrypt_prekey E pm a (sB, rB) = (Ok ptext, (s', r')) \<and> received_from a bundle pm s'"
    using m bob
    by (intro message_decrypt_prekey_fresh [OF laws(1,3,4) bob(1,2), of pm ct]) (simp_all add: message_ok_def)
  then show ?thesis using m(1) by (simp add: message_decrypt_def)
qed

subsection \<open>The calls succeed\<close>

text \<open>What the \<open>spqr\<close> crate promises of a state it just made: it can send.\<close>

definition spqr_live :: "'r env \<Rightarrow> bool" where
  "spqr_live E \<longleftrightarrow> (\<forall>p. \<exists>s. spqr_initial_state E p = Ok s) \<and>
     (\<forall>p s r. spqr_initial_state E p = Ok s \<longrightarrow> (\<exists>x r'. spqr_send E s r = (Ok x, r')))"

lemma initialize_alice_session_succeeds:
  assumes "kem_matching E (ap_their_kyber_pre_key p) sk" "spqr_live E"
  shows "\<exists>st r'. initialize_alice_session E p r = (Ok st, r')"
proof -
  obtain ss ct r1 where k: "kem_PublicKey_encapsulate E (ap_their_kyber_pre_key p) r = (Ok (ss, ct), r1)"
    using kem_roundtrip [OF assms(1), of r] by blast
  obtain rk ck pqr where d: "derive_keys E (alice_dh E p @ ss) = (rk, ck, pqr)" by (metis prod_cases3)
  obtain kp r2 where kp: "KeyPair_generate E r1 = (kp, r2)" by fastforce
  obtain rk' ck' where c: "create_chain E rk (ap_their_ratchet_key p) (kp_private_key kp) = (rk', ck')" by fastforce
  obtain pq where "spqr_initial_state E (spqr_session_params A2B pqr
      (id_identity_key (ap_our_identity_key_pair p) = ap_their_identity_key p)) = Ok pq"
    using assms(2) unfolding spqr_live_def by blast
  then show ?thesis
    using k d kp c by (auto simp: initialize_alice_session_def alice_dh_def Let_def)
qed

text \<open>The bundle is trusted and its two signatures are those of its identity key.\<close>

definition bundle_valid :: "'r env \<Rightarrow> protocol_address \<Rightarrow> pre_key_bundle \<Rightarrow> protocol_store \<Rightarrow> bool" where
  "bundle_valid E b bundle s \<longleftrightarrow>
     is_trusted_identity b (b_identity_key bundle) Sending s \<and>
     verify_signature E (b_identity_key bundle) (PublicKey_serialize (esp_public_key (b_ec_signed_pre_key bundle)))
       (esp_signature (b_ec_signed_pre_key bundle)) \<and>
     verify_signature E (b_identity_key bundle) (kem_Key_serialize (kpk_public_key (b_kyber_pre_key bundle)))
       (kpk_signature (b_kyber_pre_key bundle))"

lemma process_prekey_bundle_succeeds:
  assumes "bundle_valid E b bundle s" "kem_matching E (kpk_public_key (b_kyber_pre_key bundle)) sk" "spqr_live E"
  shows "\<exists>w. process_prekey_bundle E b bundle now (s, r) = (Ok (), w)"
proof -
  obtain base r1 where base: "KeyPair_generate E r = (base, r1)" by fastforce
  let ?p = "bundle_parameters (get_identity_key_pair s) base bundle"
  note p = bundle_parameters_eq [where ours = "get_identity_key_pair s" and base = base]
  obtain st r2 where st: "initialize_alice_session E ?p r1 = (Ok st, r2)"
    using initialize_alice_session_succeeds [of E ?p sk r1] assms(2,3) by (auto simp: bundle_parameters_def)
  then obtain ct kp ck' ck rk' pq where "st = alice_session ?p rk' ck kp ck' ct pq"
    by (cases rule: initialize_alice_session_cases) (auto simp: alice_session_def)
  then have "\<exists>k. s_pending_kyber_pre_key st = Some k" by (simp add: session_unfold)
  then show ?thesis
    using assms(1) base st
    by (auto simp: process_prekey_bundle_def Let_def p bundle_valid_def set_unacknowledged_kyber_pre_key_id_def
        set_unacknowledged_pre_key_message_def)
qed

lemma encrypt_with_state_succeeds:
  assumes "hash_lengths E" "cbc_ok E" "get_sender_chain_key st = Ok ck" "sender_ratchet_key st = Ok eph"
    "session_version st = Ok 4" "local_identity_key st = Ok our_id" "remote_identity_key st = Ok (Some their_id)"
    "spqr_send E (s_pq_ratchet_state st) r = (Ok x, r')"
    "unacknowledged_pre_key_message_items st = Ok items"
    "\<And>it. items = Some it \<Longrightarrow> unacknowledged_too_old (ui_timestamp it) now = (Ok False :: (_, signal_error) result)"
  shows "\<exists>msg st'. encrypt_with_state E ptext b now st r = (Ok (msg, their_id, st'), r')"
proof -
  obtain pq key pq_msg where x: "x = (pq, key, pq_msg)" by (metis prod_cases3)
  obtain mk where mk: "generate_keys E (chain_message_keys E ck) key = (Ok mk :: (_, signal_error) result)"
      "length (mks_cipher_key mk) = 32" "length (mks_mac_key mk) = 32" "length (mks_iv mk) = 16"
    using derive_message_keys_lengths [OF assms(1)] by (simp add: chain_message_keys_def)
  obtain ct where ct: "aes_256_cbc_encrypt E ptext (mks_cipher_key mk) (mks_iv mk) = Ok ct"
    using aes_256_cbc_roundtrip(1) [OF assms(2) mk(2,4)] by blast
  show ?thesis
    using assms(3-) mk ct
    by (cases items) (auto simp: encrypt_with_state_def pq_ratchet_send_def x Let_def SignalMessage_new_def
        SignalMessage_compute_mac_def)
qed

lemma bundle_session_encrypts:
  assumes laws: "hash_lengths E" "curve_lengths E" "rng_length E" "cbc_ok E" "spqr_live E"
    and "process_prekey_bundle E b bundle now (s, r) = (Ok (), (s1, r1))"
    and keys: "public_key_ok (id_identity_key (get_identity_key_pair s))" "public_key_ok (b_identity_key bundle)"
    and time: "unacknowledged_too_old (secs_since_epoch now) now' = (Ok False :: (_, signal_error) result)"
  shows "\<exists>msg w. message_encrypt E ptext b now' (s1, r1) = (Ok msg, w)"
  using assms(6)
proof (cases rule: process_prekey_bundle_cases)
  case c: (1 base r0 st st1 rec)
  let ?st = "set_remote_registration_id (b_registration_id bundle)
      (set_local_registration_id (get_local_registration_id s) st1)"
  have as: "sends_as st ?st"
    using set_unacknowledged_kyber_pre_key_id_Ok(1) [OF c(3)] sends_as_setters sends_as_trans by metis
  let ?p = "bundle_parameters (get_identity_key_pair s) base bundle"
  show ?thesis
    using c(2)
  proof (cases rule: initialize_alice_session_cases)
    case i: (1 ss ct r2 rk ck pqr kp rk' ck' pq)
    have st: "st = alice_session ?p rk' ck kp ck' ct pq" using i(6) by (simp add: alice_session_def)
    have ck': "chain_key_ok ck'" using create_chain_ok(1) [OF laws(1)] i(4) by (metis snd_conv)
    have kp: "public_key_ok (kp_public_key kp)" using KeyPair_generate_ok(1) [OF laws(2,3), of r2] i(3) by simp
    have base: "public_key_ok (kp_public_key base)" using KeyPair_generate_ok(1) [OF laws(2,3), of r] c(1) by simp
    have ids: "public_key_ok (id_identity_key (ap_our_identity_key_pair ?p))" "public_key_ok (ap_their_identity_key ?p)"
      using keys by (simp_all add: bundle_parameters_def)
    note reads = alice_session_reads [OF ck' kp ids, of rk' ck ct pq, folded st]
    note reads' = sends_as_reads [OF as, unfolded reads]
    obtain items where items: "unacknowledged_pre_key_message_items ?st = Ok (Some items)"
        "ui_timestamp items = secs_since_epoch now"
      using set_unacknowledged_kyber_pre_key_id_Ok(2) [OF c(3)] base time
      by (auto simp: unacknowledged_pre_key_message_items_def set_unacknowledged_pre_key_message_def
          set_local_registration_id_def set_remote_registration_id_def public_key_serde.de_ser
          unacknowledged_too_old_def time_add_secs_def result_simps split: if_splits)
    have pq: "s_pq_ratchet_state ?st = pq" using as reads(6) by (simp add: sends_as_def)
    obtain x r' where "spqr_send E pq r1 = (Ok x, r')"
      using laws(5) i(5) unfolding spqr_live_def by blast
    then obtain msg st' where e: "encrypt_with_state E ptext b now' ?st r1 =
        (Ok (msg, b_identity_key bundle, st'), r')"
      using encrypt_with_state_succeeds [OF laws(1,4) reads'(1,2,4,5,6) _ items(1), of r1 x r' now' ptext b] time
      by (auto simp: items(2) pq bundle_parameters_def)
    show ?thesis
      using e is_trusted_after_save(1) [of b "b_identity_key bundle" Sending "b_identity_key bundle" s]
      by (simp add: c(5) message_encrypt_def sessions.load_store_same promote_state_def Let_def)
  qed
qed

text \<open>
  The first message of a conversation: from a valid bundle, whose private keys Bob has, Alice's
  calls succeed and Bob's decryption returns her plaintext.
\<close>

lemma conversation_starts:
  assumes laws: "hash_lengths E" "dh_ok E" "curve_lengths E" "rng_length E" "cbc_ok E" "spqr_pairs E" "spqr_live E"
    and alice: "id_identity_key (get_identity_key_pair sA) = PrivateKey_public_key E (id_private_key (get_identity_key_pair sA))"
      "bundle_valid E b bundle sA" "is_canonical E (kp_public_key (fst (KeyPair_generate E r)))"
      "unacknowledged_too_old (secs_since_epoch now) now' = (Ok False :: (_, signal_error) result)"
    and bob: "serves_bundle E bundle spk kyber otk sB" "load_session a sB = None"
      "is_trusted_identity a (id_identity_key (get_identity_key_pair sA)) Receiving sB"
      "base_keys_seen (kpk_id (b_kyber_pre_key bundle)) (esp_id (b_ec_signed_pre_key bundle)) sB = []"
  shows "\<exists>sA1 r1 pm sA2 r2 sB' rB'.
    process_prekey_bundle E b bundle now (sA, r) = (Ok (), (sA1, r1)) \<and>
    message_encrypt E ptext b now' (sA1, r1) = (Ok (CPreKeySignalMessage pm), (sA2, r2)) \<and>
    message_decrypt E (CPreKeySignalMessage pm) a (sB, rB) = (Ok ptext, (sB', rB')) \<and>
    received_from a bundle pm sB'"
proof -
  have pk: "public_key_ok (PrivateKey_public_key E k)" for k
    using laws(3) by (simp add: PrivateKey_public_key_def public_key_ok_def curve_lengths_def)
  have kem: "kem_matching E (kpk_public_key (b_kyber_pre_key bundle)) (kkp_secret_key kyber)"
    and ident: "public_key_ok (b_identity_key bundle)"
    using bob(1) pk by (simp_all add: serves_bundle_def)
  obtain sA1 r1 where 1: "process_prekey_bundle E b bundle now (sA, r) = (Ok (), (sA1, r1))"
    using process_prekey_bundle_succeeds [OF alice(2) kem laws(7), of now r] by auto
  obtain msg sA2 r2 where 2: "message_encrypt E ptext b now' (sA1, r1) = (Ok msg, (sA2, r2))"
    using bundle_session_encrypts [OF laws(1,3,4,5,7) 1 _ ident alice(4), of ptext] pk alice(1) by auto
  obtain pm sB' rB' where 3: "msg = CPreKeySignalMessage pm"
      "message_decrypt E msg a (sB, rB) = (Ok ptext, (sB', rB'))" "received_from a bundle pm sB'"
    using bundle_message_decrypts [OF laws(1-4,6,5) alice(1) 1 2 bob alice(3), of rB] by blast
  then show ?thesis using 1 2 by blast
qed

text \<open>The handshake alone: Bob derives the first sending chain of Alice from her ratchet key.\<close>

lemma handshake_ratchet:
  assumes laws: "hash_lengths E" "dh_ok E" "curve_lengths E" "rng_length E" "spqr_pairs E"
    and match: "parameters_match E a b"
      "kem_matching E (ap_their_kyber_pre_key a) (kkp_secret_key (bp_our_kyber_pre_key_pair b))"
      "is_canonical E (bp_their_base_key b)"
    and ratchet: "key_pair_ok E (bp_our_ratchet_key_pair b)" "private_key_ok (kp_private_key (bp_our_ratchet_key_pair b))"
    and alice: "initialize_alice_session E a r = (Ok stA, r1)"
      "get_kyber_ciphertext stA = Some (bp_their_kyber_ciphertext b)"
  shows "\<exists>stB rkB privB pubA rkA ckA. initialize_bob_session E b = Ok stB \<and>
    state_root_key stB = Ok rkB \<and> sender_ratchet_private_key E stB = Ok privB \<and>
    sender_ratchet_key stA = Ok pubA \<and> state_root_key stA = Ok rkA \<and> get_sender_chain_key stA = Ok ckA \<and>
    create_chain E rkB pubA privB = (rkA, ckA)"
  using laws match alice
proof (cases rule: handshake_agrees)
  case (1 rk ck kp rk' ck' pqA pqB)
  note ids = parameters_match_keys_ok [OF laws(3) match(1)]
  have "public_key_ok (kp_public_key (bp_our_ratchet_key_pair b))"
    using match(1) laws(3)
    by (simp add: parameters_match_def PrivateKey_public_key_def public_key_ok_def curve_lengths_def)
  note bob = bob_session_reads [OF 1(3,4) ratchet ids(3,4) this]
  note alice' = alice_session_reads [OF 1(5,7) ids(1,2)]
  have "length (root_key_key rk') = 32" using create_chain_ok(2) [OF laws(1)] 1(8) by (metis fst_conv)
  then have "state_root_key stA = Ok rk'"
    by (cases rk') (simp add: 1(1) state_root_key_def session_unfold)
  then show ?thesis using 1(1,2,8) bob(3,5) alice'(1,2) by auto
qed

end
