(* ===== verification/Conversation.thy ===== *)
theory Conversation
  imports Double_Ratchet End_To_End "HOL-Library.Multiset"
begin

text \<open>
  A conversation of two session states over a network that keeps the messages and delivers them in any order.
  Both parties send and receive at any time. The invariant relates the two states to one history of the Double
  Ratchet, and every message in transit to the epoch and counter it was sealed with.
\<close>

subsection \<open>The steps\<close>

datatype party = Alice | Bob

primrec other :: "party \<Rightarrow> party" where
  "other Alice = Bob"
| "other Bob = Alice"

lemma other_simps [simp]: "other (other p) = p" "other p \<noteq> p" "p \<noteq> other p"
  by (cases p; simp)+

lemma other_cases: "q = p \<or> q = other p"
  by (cases p; cases q) simp_all

text \<open>
  A message in transit; for the statements below it is kept together with the text that was encrypted and the
  key that the post-quantum ratchet gave to the sender.
\<close>

record parcel =
  pc_message :: signal_message
  pc_key :: "bytes option"
  pc_text :: bytes

abbreviation pc_pair :: "parcel \<Rightarrow> bytes \<times> bytes option" where
  "pc_pair q \<equiv> (sm_pq_ratchet (pc_message q), pc_key q)"

abbreviation pc_ratchet :: "parcel \<Rightarrow> public_key" where
  "pc_ratchet q \<equiv> sm_sender_ratchet_key (pc_message q)"

abbreviation pc_counter :: "parcel \<Rightarrow> u32" where
  "pc_counter q \<equiv> sm_counter (pc_message q)"

text \<open>The states, what is on its way to each party, and the ratchet keys so far, the newest first.\<close>

record conversation =
  cv_state :: "party \<Rightarrow> session_state"
  cv_inbox :: "party \<Rightarrow> parcel list"
  cv_keys :: "public_key list"

definition post :: "party \<Rightarrow> session_state \<Rightarrow> parcel \<Rightarrow> conversation \<Rightarrow> conversation" where
  "post p st' q c = c\<lparr>cv_state := (cv_state c)(p := st'), cv_inbox := (cv_inbox c)(other p := q # cv_inbox c (other p))\<rparr>"

definition fetch :: "party \<Rightarrow> session_state \<Rightarrow> parcel list \<Rightarrow> public_key list \<Rightarrow> conversation \<Rightarrow> conversation" where
  "fetch p st' qs ks c = c\<lparr>cv_state := (cv_state c)(p := st'), cv_inbox := (cv_inbox c)(p := qs), cv_keys := ks\<rparr>"

text \<open>A message that starts a receiver chain makes the receiver generate a ratchet key.\<close>

definition keys_after :: "session_state \<Rightarrow> public_key \<Rightarrow> session_state \<Rightarrow> public_key list \<Rightarrow> public_key list" where
  "keys_after st te st' ks =
     (case (get_receiver_chain st te, sender_ratchet_key st') of (Ok None, Ok k) \<Rightarrow> k # ks | _ \<Rightarrow> ks)"

text \<open>The receiver chain of the message was not evicted: each party keeps \<open>MAX_RECEIVER_CHAINS\<close> of them.\<close>

definition retained :: "signal_message \<Rightarrow> conversation \<Rightarrow> bool" where
  "retained m c \<longleftrightarrow> sm_sender_ratchet_key m \<in> set (take (2 * MAX_RECEIVER_CHAINS) (cv_keys c))"

inductive conv_step :: "'r env \<Rightarrow> u32 \<Rightarrow> conversation \<Rightarrow> conversation \<Rightarrow> bool" for E :: "'r env" and lim :: u32 where
  send: "encrypt_with_state E ptext addr now (cv_state c p) r = (Ok (msg, k, st'), r') \<Longrightarrow>
    signal_part msg = Some m \<Longrightarrow> sm_counter m < lim \<Longrightarrow>
    spqr_send E (s_pq_ratchet_state (cv_state c p)) r = (Ok (pq, key, w), r') \<Longrightarrow>
    conv_step E lim c (post p st' \<lparr>pc_message = m, pc_key = key, pc_text = ptext\<rparr> c)"
| receive: "cv_inbox c p = xs @ q # ys \<Longrightarrow> retained (pc_message q) c \<Longrightarrow>
    decrypt_message_with_state E (cv_state c p) (pc_message q) t r = (Ok (ptext, st'), r') \<Longrightarrow>
    ks = keys_after (cv_state c p) (pc_ratchet q) st' (cv_keys c) \<Longrightarrow> distinct ks \<Longrightarrow>
    conv_step E lim c (fetch p st' (xs @ ys) ks c)"

definition conv_reachable :: "'r env \<Rightarrow> u32 \<Rightarrow> conversation \<Rightarrow> conversation \<Rightarrow> bool" where
  "conv_reachable E lim = (conv_step E lim)\<^sup>*\<^sup>*"

subsection \<open>The post-quantum ratchet\<close>

text \<open>
  What the \<open>spqr\<close> crate promises: \<open>R\<close> relates the states of the two sides and the messages on their way,
  each with the key its sender got. Sending adds a message; a message that the other side accepts yields
  the same key there. The crate may refuse messages.
\<close>

definition spqr_channel ::
    "'r env \<Rightarrow> (bytes \<Rightarrow> bytes \<Rightarrow> (bytes \<times> bytes option) multiset \<Rightarrow> (bytes \<times> bytes option) multiset \<Rightarrow> bool) \<Rightarrow> bool" where
  "spqr_channel E R \<longleftrightarrow>
     (\<forall>a b M N. R a b M N \<longrightarrow> R b a N M) \<and>
     (\<forall>a b M N r a' key w r'. R a b M N \<longrightarrow> spqr_send E a r = (Ok (a', key, w), r') \<longrightarrow> R a' b (add_mset (w, key) M) N) \<and>
     (\<forall>a b M N w key b' key'. R a b M N \<longrightarrow> (w, key) \<in># M \<longrightarrow> spqr_recv E b w = Ok (b', key') \<longrightarrow>
        key' = key \<and> R a b' (M - {#(w, key)#}) N)"

lemma spqr_channelD:
  assumes "spqr_channel E R"
  shows "R a b M N \<Longrightarrow> R b a N M"
    "R a b M N \<Longrightarrow> spqr_send E a r = (Ok (a', key, w), r') \<Longrightarrow> R a' b (add_mset (w, key) M) N"
    "R a b M N \<Longrightarrow> (w, key) \<in># M \<Longrightarrow> spqr_recv E b w = Ok (b', key') \<Longrightarrow> key' = key"
    "R a b M N \<Longrightarrow> (w, key) \<in># M \<Longrightarrow> spqr_recv E b w = Ok (b', key') \<Longrightarrow> R a b' (M - {#(w, key)#}) N"
proof -
  note D = assms [unfolded spqr_channel_def, THEN conjunct2, THEN conjunct1, rule_format]
  note D' = assms [unfolded spqr_channel_def, THEN conjunct2, THEN conjunct2, rule_format]
  show "R a b M N \<Longrightarrow> R b a N M" by (rule assms [unfolded spqr_channel_def, THEN conjunct1, rule_format])
  show "R a b M N \<Longrightarrow> spqr_send E a r = (Ok (a', key, w), r') \<Longrightarrow> R a' b (add_mset (w, key) M) N" by (rule D)
  show "R a b M N \<Longrightarrow> (w, key) \<in># M \<Longrightarrow> spqr_recv E b w = Ok (b', key') \<Longrightarrow> key' = key"
    by (rule D' [THEN conjunct1])
  show "R a b M N \<Longrightarrow> (w, key) \<in># M \<Longrightarrow> spqr_recv E b w = Ok (b', key') \<Longrightarrow> R a b' (M - {#(w, key)#}) N"
    by (rule D' [THEN conjunct2])
qed

subsection \<open>One party\<close>

definition endpoint ::
    "'r env \<Rightarrow> epoch \<Rightarrow> u32 \<Rightarrow> epoch list \<Rightarrow> identity_key \<Rightarrow> identity_key \<Rightarrow> session_state \<Rightarrow> bool" where
  "endpoint E x n xs a b st \<longleftrightarrow> session_ok st \<and> sends_in E x n st \<and> reads_from E xs st \<and> speaks a b st"

lemma endpoint_send:
  assumes "encrypt_with_state E ptext addr now st r = (Ok (msg, k, st'), r')" "signal_part msg = Some m"
    and "endpoint E x n xs a b st" "epoch_ok E x" "hash_lengths E" "sm_counter m \<noteq> - 1"
  obtains key where "spqr_send E (s_pq_ratchet_state st) r = (Ok (s_pq_ratchet_state st', key, sm_pq_ratchet m), r')"
    "sealed_in E x n key ptext a b m" "endpoint E x (n + 1) xs a b st'" "s_receiver_chains st' = s_receiver_chains st"
proof -
  have st: "session_ok st" "sends_in E x n st" "reads_from E xs st" "speaks a b st"
    using assms(3) by (simp_all add: endpoint_def)
  obtain m0 ck where "signal_part msg = Some m0" "get_sender_chain_key st = Ok ck" "sm_counter m0 = chain_key_index ck"
    using encrypt_with_state_counter [OF assms(5,1)] by blast
  then have "n \<noteq> - 1" using assms(2,6) sends_in_reads(4,5) [OF st(2) assms(4,5)] by auto
  with assms(1,2) st(2) assms(4,5) st(4) obtain pq key
    where e: "spqr_send E (s_pq_ratchet_state st) r = (Ok (pq, key, sm_pq_ratchet m), r')"
      "sealed_in E x n key ptext a b m" "sends_in E x (n + 1) st'" "s_pq_ratchet_state st' = pq"
      "s_receiver_chains st' = s_receiver_chains st" "same_identity st st'" "session_ok st' = session_ok st"
    by (rule encrypt_sealed)
  moreover have "speaks a b st'" using st(4) speaks_same [OF e(6)] by simp
  ultimately have "endpoint E x (n + 1) xs a b st'" using st by (simp add: endpoint_def reads_from_def)
  then show thesis using that e by simp
qed

text \<open>A message of an epoch that the party already reads.\<close>

lemma endpoint_receive_known:
  assumes laws: "hash_lengths E" "cbc_ok E"
    and st: "endpoint E z k xs b a st" and x: "x \<in> set (take MAX_RECEIVER_CHAINS xs)" "epoch_ok E x"
    and m: "sealed_in E x n key ptext a b m" "n \<noteq> - 1"
    and dec: "decrypt_message_with_state E st m t r = (Ok (ptext', st'), r')"
    and spqr: "\<And>pq k. spqr_recv E (s_pq_ratchet_state st) (sm_pq_ratchet m) = Ok (pq, k) \<Longrightarrow> k = key"
  shows "ptext' = ptext" "endpoint E z k xs b a st'" "get_receiver_chain st (ep_public x) \<noteq> Ok None"
    "spqr_recv E (s_pq_ratchet_state st) (sm_pq_ratchet m) = Ok (s_pq_ratchet_state st', key)"
    "took_key E (ep_public x) n st st'"
proof -
  have e: "session_ok st" "sends_in E z k st" "reads_from E xs st" "speaks b a st"
    using st by (simp_all add: endpoint_def)
  obtain c i where f: "chain_found E st (ep_public x) r st c i r" "chain_of E c x"
    using laws(1) e(1,3) x by (rule chain_found_known)
  have pk: "public_key_ok (ep_public x)" using x(2) by (simp add: epoch_ok_def)
  have tr: "chain_tracks E (ep_chain x) c" using f(2) by (simp add: chain_of_def)
  obtain c' pq where d: "ptext' = ptext" "r' = r" "chain_step E n c c'"
      "spqr_recv E (s_pq_ratchet_state st) (sm_pq_ratchet m) = Ok (pq, key)"
      "st' = clear_unacknowledged_pre_key_message ((set_chain_at i c' st)\<lparr>s_pq_ratchet_state := pq\<rparr>)"
      "session_ok st'" "c_sender_ratchet_key c' = c_sender_ratchet_key c"
      "\<And>ck0. chain_tracks E ck0 c \<Longrightarrow> chain_tracks E ck0 c'"
    by (rule decrypt_sealed [OF laws dec m pk f(1) tr]) (erule spqr, rule that)
  have found: "get_receiver_chain st (ep_public x) = Ok (Some (c, i))" using f(1) by (simp add: chain_found_def)
  have "reads_from E xs (set_chain_at i c' st)" using e(3) found d(7,8) by (rule reads_from_update)
  moreover have "speaks b a st'" using e(4) speaks_same [of st st'] by (simp add: d(5))
  ultimately have "endpoint E z k xs b a st'" using e(2) d(6) by (simp add: endpoint_def d(5))
  then show "ptext' = ptext" "endpoint E z k xs b a st'" "get_receiver_chain st (ep_public x) \<noteq> Ok None"
    "spqr_recv E (s_pq_ratchet_state st) (sm_pq_ratchet m) = Ok (s_pq_ratchet_state st', key)"
    using d(1,4) found by (simp_all add: d(5) clear_unacknowledged_pre_key_message_def)
  have "c \<in> set (s_receiver_chains st)" using get_receiver_chain_SomeD(1,2) [OF e(1) pk found] by auto
  then show "took_key E (ep_public x) n st st'"
    using e(1) pk found d(3,7)
    by (rule_tac took_key_update) (auto simp: d(5) set_chain_at_def clear_unacknowledged_pre_key_message_def)
qed

text \<open>A message of the newest epoch, which the trailing party has not seen yet: it generates a key pair and leads.\<close>

lemma endpoint_receive_new:
  assumes laws: "hash_lengths E" "cbc_ok E" "dh_ok E" "curve_lengths E" "rng_length E"
    and h: "history_ok E (x # y # hs)" "ep_public x \<notin> ep_public ` set hs"
    and st: "endpoint E y k (every_other hs) b a st"
    and m: "sealed_in E x n key ptext a b m" "n \<noteq> - 1"
    and dec: "decrypt_message_with_state E st m t r = (Ok (ptext', st'), r')"
    and spqr: "\<And>pq k. spqr_recv E (s_pq_ratchet_state st) (sm_pq_ratchet m) = Ok (pq, k) \<Longrightarrow> k = key"
  obtains z where "ptext' = ptext" "endpoint E z 0 (x # every_other hs) b a st'" "history_ok E (z # x # y # hs)"
    "sender_ratchet_key st' = Ok (ep_public z)" "get_receiver_chain st (ep_public x) = Ok None"
    "spqr_recv E (s_pq_ratchet_state st) (sm_pq_ratchet m) = Ok (s_pq_ratchet_state st', key)"
    "took_key E (ep_public x) n st st'"
proof -
  have e: "session_ok st" "sends_in E y k st" "reads_from E (every_other hs) st" "speaks b a st"
    using st by (simp_all add: endpoint_def)
  obtain kp r1 where kp: "KeyPair_generate E r = (kp, r1)" by (rule prod.exhaust)
  let ?z = "next_epoch E x kp"
  obtain st1 c i where f: "chain_found E st (ep_public x) r st1 c i r1" "chain_of E c x"
      "sends_in E ?z 0 st1" "reads_from E (x # every_other hs) st1" "get_receiver_chain st (ep_public x) = Ok None"
      "c_chain_key c = Some (to_pb_chain_key (ep_chain x))" "set (s_receiver_chains st1) \<subseteq> insert c (set (s_receiver_chains st))"
    using laws(1,3-5) h e(1-3) kp by (rule chain_found_new)
  have ok: "epoch_ok E x" using history_epoch_ok [OF h(1)] by simp
  then have pk: "public_key_ok (ep_public x)" by (simp add: epoch_ok_def)
  have tr: "chain_tracks E (ep_chain x) c" using f(2) by (simp add: chain_of_def)
  obtain c' pq where d: "ptext' = ptext" "r' = r1" "chain_step E n c c'"
      "spqr_recv E (s_pq_ratchet_state st) (sm_pq_ratchet m) = Ok (pq, key)"
      "st' = clear_unacknowledged_pre_key_message ((set_chain_at i c' st1)\<lparr>s_pq_ratchet_state := pq\<rparr>)"
      "session_ok st'" "c_sender_ratchet_key c' = c_sender_ratchet_key c"
      "\<And>ck0. chain_tracks E ck0 c \<Longrightarrow> chain_tracks E ck0 c'"
    by (rule decrypt_sealed [OF laws(1,2) dec m pk f(1) tr]) (erule spqr, rule that)
  have found: "get_receiver_chain st1 (ep_public x) = Ok (Some (c, i))" "same_identity st st1"
    using f(1) by (simp_all add: chain_found_def)
  have "reads_from E (x # every_other hs) (set_chain_at i c' st1)" using f(4) found(1) d(7,8) by (rule reads_from_update)
  moreover have "speaks b a st'" using e(4) found(2) speaks_same [of st st'] by (simp add: d(5))
  ultimately have end': "endpoint E ?z 0 (x # every_other hs) b a st'" using f(3) d(6) by (simp add: endpoint_def d(5))
  have kpok: "key_pair_ok E kp" "private_key_ok (kp_private_key kp)" "public_key_ok (kp_public_key kp)"
    using KeyPair_generate_key_pair_ok [OF laws(3), of r] KeyPair_generate_ok [OF laws(4,5), of r] kp by simp_all
  have zok: "epoch_ok E ?z" using laws(1) kpok by (rule next_epoch_ok)
  then have hist: "history_ok E (?z # x # y # hs)" using h(1) by simp
  have "sender_ratchet_key st' = Ok (ep_public ?z)"
    using end' zok laws(1) by (intro sends_in_reads(3) [of E ?z 0]) (simp_all add: endpoint_def)
  moreover have "took_key E (ep_public x) n st st'"
  proof (rule took_key_update [OF _ pk found(1) d(3,7) f(7)])
    show "session_ok st1" using f(1) by (simp add: chain_found_def)
    show "c \<in> set (s_receiver_chains st) \<or> (\<exists>ck. c_chain_key c = Some ck \<and> ck_index ck = 0)"
      using f(6) ok by (simp add: epoch_ok_def)
    show "s_receiver_chains st' = (s_receiver_chains st1)[i := c']"
      by (simp add: d(5) set_chain_at_def clear_unacknowledged_pre_key_message_def)
  qed
  ultimately show thesis
    using that [OF d(1) end' hist _ f(5)] d(4,5) by (simp add: clear_unacknowledged_pre_key_message_def)
qed

subsection \<open>The invariant\<close>

definition parcels_ok :: "'r env \<Rightarrow> epoch list \<Rightarrow> identity_key \<Rightarrow> identity_key \<Rightarrow> parcel list \<Rightarrow> bool" where
  "parcels_ok E xs a b qs \<longleftrightarrow>
     (\<forall>q \<in> set qs. \<exists>x \<in> set xs. sealed_in E x (pc_counter q) (pc_key q) (pc_text q) a b (pc_message q) \<and> pc_counter q \<noteq> - 1)"

text \<open>The party \<open>p\<close> leads in the history \<open>x # y # hs\<close>.\<close>

definition led_by ::
    "'r env \<Rightarrow> (bytes \<Rightarrow> bytes \<Rightarrow> (bytes \<times> bytes option) multiset \<Rightarrow> (bytes \<times> bytes option) multiset \<Rightarrow> bool) \<Rightarrow>
     (party \<Rightarrow> identity_key) \<Rightarrow> party \<Rightarrow> epoch \<Rightarrow> epoch \<Rightarrow> epoch list \<Rightarrow> u32 \<Rightarrow> u32 \<Rightarrow> conversation \<Rightarrow> bool" where
  "led_by E R ids p x y hs n k c \<longleftrightarrow>
     history_ok E (x # y # hs) \<and> cv_keys c = map ep_public (x # y # hs) \<and> distinct (map ep_public (x # y # hs)) \<and>
     endpoint E x n (every_other (y # hs)) (ids p) (ids (other p)) (cv_state c p) \<and>
     endpoint E y k (every_other hs) (ids (other p)) (ids p) (cv_state c (other p)) \<and>
     R (s_pq_ratchet_state (cv_state c p)) (s_pq_ratchet_state (cv_state c (other p)))
       (mset (map pc_pair (cv_inbox c (other p)))) (mset (map pc_pair (cv_inbox c p))) \<and>
     parcels_ok E (every_other (x # y # hs)) (ids p) (ids (other p)) (cv_inbox c (other p)) \<and>
     parcels_ok E (every_other (y # hs)) (ids (other p)) (ids p) (cv_inbox c p)"

lemma parcels_ok_mono: "parcels_ok E xs a b qs \<Longrightarrow> set xs \<subseteq> set ys \<Longrightarrow> set rs \<subseteq> set qs \<Longrightarrow> parcels_ok E ys a b rs"
  unfolding parcels_ok_def by blast

lemma post_simps [simp]:
  "cv_state (post p st q c) = (cv_state c)(p := st)" "cv_keys (post p st q c) = cv_keys c"
  "cv_inbox (post p st q c) = (cv_inbox c)(other p := q # cv_inbox c (other p))"
  "cv_state (fetch p st qs ks c) = (cv_state c)(p := st)" "cv_keys (fetch p st qs ks c) = ks"
  "cv_inbox (fetch p st qs ks c) = (cv_inbox c)(p := qs)"
  by (simp_all add: post_def fetch_def)

text \<open>Of the epochs of one party, those among the first \<open>k\<close> of the whole history.\<close>

lemma every_other_take:
  assumes "distinct (map f zs)" "e \<in> set (every_other zs)" "f e \<in> set (take k (map f zs))"
  shows "e \<in> set (every_other (take k zs))"
  using assms
proof (induction zs arbitrary: k rule: every_other.induct)
  case (2 x)
  then show ?case by (cases k) simp_all
next
  case (3 x y xs)
  show ?case
  proof (cases "e = x")
    case True
    then show ?thesis using 3(4) by (cases k; cases "k - 1") simp_all
  next
    case False
    then have e: "e \<in> set (every_other xs)" using 3(3) by simp
    then have "e \<in> set xs" using set_every_other [of xs] by blast
    then have "f e \<noteq> f x" "f e \<noteq> f y" using 3(2) by (auto simp: image_iff)
    then have "f e \<in> set (take (k - 2) (map f xs))" using 3(4) by (cases k; cases "k - 1") simp_all
    moreover have "distinct (map f xs)" using 3(2) by simp
    ultimately have "e \<in> set (every_other (take (k - 2) xs))" using 3(1) e by blast
    moreover have "k = Suc (Suc (k - 2))" using \<open>f e \<noteq> f x\<close> \<open>f e \<noteq> f y\<close> 3(4) by (cases k; cases "k - 1") simp_all
    ultimately show ?thesis by (metis every_other.simps(3) insert_iff list.simps(15) take_Suc_Cons)
  qed
qed simp

lemma retained_readable:
  assumes "distinct (map ep_public (ws @ zs))" "x \<in> set (every_other zs)"
    "ep_public x \<in> set (take (2 * MAX_RECEIVER_CHAINS) (map ep_public (ws @ zs)))"
  shows "x \<in> set (take MAX_RECEIVER_CHAINS (every_other zs))"
proof -
  have "x \<in> set zs" using assms(2) set_every_other [of zs] by blast
  then have "ep_public x \<notin> ep_public ` set ws" using assms(1) by (auto simp: image_iff disjoint_iff)
  then have "ep_public x \<in> set (take (2 * MAX_RECEIVER_CHAINS - length ws) (map ep_public zs))"
    using assms(3) by (auto dest: in_set_takeD)
  then have "ep_public x \<in> set (take (2 * MAX_RECEIVER_CHAINS) (map ep_public zs))"
    using set_take_subset_set_take [of "2 * MAX_RECEIVER_CHAINS - length ws" "2 * MAX_RECEIVER_CHAINS" "map ep_public zs"]
    by (meson diff_le_self in_mono)
  moreover have "distinct (map ep_public zs)" using assms(1) by simp
  ultimately show ?thesis unfolding take_every_other using assms(2) by (intro every_other_take)
qed

subsection \<open>Every step keeps the invariant\<close>

lemma led_byD:
  assumes "led_by E R ids p x y hs n k c"
  shows "history_ok E (x # y # hs)" "cv_keys c = map ep_public (x # y # hs)" "distinct (map ep_public (x # y # hs))"
    "endpoint E x n (every_other (y # hs)) (ids p) (ids (other p)) (cv_state c p)"
    "endpoint E y k (every_other hs) (ids (other p)) (ids p) (cv_state c (other p))"
    "R (s_pq_ratchet_state (cv_state c p)) (s_pq_ratchet_state (cv_state c (other p)))
       (mset (map pc_pair (cv_inbox c (other p)))) (mset (map pc_pair (cv_inbox c p)))"
    "parcels_ok E (every_other (x # y # hs)) (ids p) (ids (other p)) (cv_inbox c (other p))"
    "parcels_ok E (every_other (y # hs)) (ids (other p)) (ids p) (cv_inbox c p)"
  using assms unfolding led_by_def by - (elim conjE, assumption)+

lemma led_by_parcel:
  assumes "led_by E R ids p x y hs n k c"
  shows "q \<in> set (cv_inbox c (other p)) \<Longrightarrow> \<exists>z \<in> set (every_other (x # y # hs)).
      sealed_in E z (pc_counter q) (pc_key q) (pc_text q) (ids p) (ids (other p)) (pc_message q) \<and> pc_counter q \<noteq> - 1"
    and "q \<in> set (cv_inbox c p) \<Longrightarrow> \<exists>z \<in> set (every_other (y # hs)).
      sealed_in E z (pc_counter q) (pc_key q) (pc_text q) (ids (other p)) (ids p) (pc_message q) \<and> pc_counter q \<noteq> - 1"
  using led_byD(7,8) [OF assms] by (simp_all only: parcels_ok_def)

text \<open>The leading party sends, or the trailing one.\<close>

lemma led_by_send:
  assumes laws: "hash_lengths E" "spqr_channel E R" and inv: "led_by E R ids p x y hs n k c"
    and enc: "encrypt_with_state E ptext addr now (cv_state c v) r = (Ok (msg, i, st'), r')" "signal_part msg = Some m"
      "sm_counter m \<noteq> - 1" "spqr_send E (s_pq_ratchet_state (cv_state c v)) r = (Ok (pq, key, w), r1)"
  shows "v = p \<Longrightarrow> led_by E R ids p x y hs (n + 1) k (post v st' \<lparr>pc_message = m, pc_key = key, pc_text = ptext\<rparr> c)"
    and "v = other p \<Longrightarrow> led_by E R ids p x y hs n (k + 1) (post v st' \<lparr>pc_message = m, pc_key = key, pc_text = ptext\<rparr> c)"
proof -
  note D = inv [unfolded led_by_def]
  have "epoch_ok E x" "epoch_ok E y" using D history_epoch_ok [of E "x # y # hs"] by simp_all
  let ?q = "\<lparr>pc_message = m, pc_key = key, pc_text = ptext\<rparr>"
  show "led_by E R ids p x y hs (n + 1) k (post v st' ?q c)" if v: "v = p"
  proof -
    have e: "endpoint E x n (every_other (y # hs)) (ids p) (ids (other p)) (cv_state c v)" using D v by simp
    obtain key' where s: "spqr_send E (s_pq_ratchet_state (cv_state c v)) r = (Ok (s_pq_ratchet_state st', key', sm_pq_ratchet m), r')"
        "sealed_in E x n key' ptext (ids p) (ids (other p)) m" "endpoint E x (n + 1) (every_other (y # hs)) (ids p) (ids (other p)) st'"
      using enc(1,2) e \<open>epoch_ok E x\<close> laws(1) enc(3) by (rule endpoint_send)
    then have key: "key' = key" "w = sm_pq_ratchet m" using enc(4) by simp_all
    have "R (s_pq_ratchet_state st') (s_pq_ratchet_state (cv_state c (other p)))
        (add_mset (sm_pq_ratchet m, key) (mset (map pc_pair (cv_inbox c (other p))))) (mset (map pc_pair (cv_inbox c p)))"
      using D v s(1) key by (intro spqr_channelD(2) [OF laws(2)]) auto
    moreover have "parcels_ok E (every_other (x # y # hs)) (ids p) (ids (other p)) (?q # cv_inbox c (other p))"
      using D s(2) sealed_in_fields(2) [OF s(2)] enc(3) by (auto simp: parcels_ok_def key)
    ultimately show ?thesis using D s(3) v by (simp add: led_by_def del: history_ok.simps every_other.simps)
  qed
  show "led_by E R ids p x y hs n (k + 1) (post v st' ?q c)" if v: "v = other p"
  proof -
    have e: "endpoint E y k (every_other hs) (ids (other p)) (ids p) (cv_state c v)" using D v by simp
    obtain key' where s: "spqr_send E (s_pq_ratchet_state (cv_state c v)) r = (Ok (s_pq_ratchet_state st', key', sm_pq_ratchet m), r')"
        "sealed_in E y k key' ptext (ids (other p)) (ids p) m" "endpoint E y (k + 1) (every_other hs) (ids (other p)) (ids p) st'"
      using enc(1,2) e \<open>epoch_ok E y\<close> laws(1) enc(3) by (rule endpoint_send)
    then have key: "key' = key" "w = sm_pq_ratchet m" using enc(4) by simp_all
    have "R (s_pq_ratchet_state st') (s_pq_ratchet_state (cv_state c p))
        (add_mset (sm_pq_ratchet m, key) (mset (map pc_pair (cv_inbox c p)))) (mset (map pc_pair (cv_inbox c (other p))))"
      using D v s(1) key spqr_channelD(1) [OF laws(2)] by (intro spqr_channelD(2) [OF laws(2)]) auto
    then have "R (s_pq_ratchet_state (cv_state c p)) (s_pq_ratchet_state st') (mset (map pc_pair (cv_inbox c (other p))))
        (add_mset (sm_pq_ratchet m, key) (mset (map pc_pair (cv_inbox c p))))"
      by (rule spqr_channelD(1) [OF laws(2)])
    moreover have "parcels_ok E (every_other (y # hs)) (ids (other p)) (ids p) (?q # cv_inbox c p)"
      using D s(2) sealed_in_fields(2) [OF s(2)] enc(3) by (auto simp: parcels_ok_def key every_other_Cons [of y])
    ultimately show ?thesis using D s(3) v by (simp add: led_by_def del: history_ok.simps every_other.simps)
  qed
qed

text \<open>A successful decryption of a message in transit, with its effect on the chains and the post-quantum state.\<close>

definition reads_parcel :: "'r env \<Rightarrow> parcel \<Rightarrow> session_state \<Rightarrow> bytes \<Rightarrow> session_state \<Rightarrow> bool" where
  "reads_parcel E q st ptext st' \<longleftrightarrow> ptext = pc_text q \<and> took_key E (pc_ratchet q) (pc_counter q) st st' \<and>
     spqr_recv E (s_pq_ratchet_state st) (sm_pq_ratchet (pc_message q)) = Ok (s_pq_ratchet_state st', pc_key q)"

text \<open>Where a message in transit was sealed, and that the post-quantum ratchets agree on its key.\<close>

lemma led_by_locate:
  assumes inv: "led_by E R ids p x y hs n k c" and q: "q \<in> set (cv_inbox c v)" "retained (pc_message q) c"
  obtains
    (leads) z where "v = p" "z \<in> set (take MAX_RECEIVER_CHAINS (every_other (y # hs)))" "epoch_ok E z"
      "sealed_in E z (pc_counter q) (pc_key q) (pc_text q) (ids (other p)) (ids p) (pc_message q)" "pc_counter q \<noteq> - 1"
  | (trails) z where "v = other p" "z \<in> set (take MAX_RECEIVER_CHAINS (every_other hs))" "epoch_ok E z"
      "sealed_in E z (pc_counter q) (pc_key q) (pc_text q) (ids p) (ids (other p)) (pc_message q)" "pc_counter q \<noteq> - 1"
  | (newest) "v = other p" "sealed_in E x (pc_counter q) (pc_key q) (pc_text q) (ids p) (ids (other p)) (pc_message q)"
      "pc_counter q \<noteq> - 1"
proof -
  note hist = led_byD(1,3) [OF inv] and keys = led_byD(2) [OF inv]
  show thesis
  proof (cases "v = p")
    case True
    obtain z where z: "z \<in> set (every_other (y # hs))"
        "sealed_in E z (pc_counter q) (pc_key q) (pc_text q) (ids (other p)) (ids p) (pc_message q)" "pc_counter q \<noteq> - 1"
      using led_by_parcel(2) [OF inv] q(1) True by blast
    have "pc_ratchet q = ep_public z" using z(2) by (rule sealed_in_fields)
    then have known: "z \<in> set (take MAX_RECEIVER_CHAINS (every_other (y # hs)))"
      using retained_readable [of "[x]" "y # hs" z] hist(2) z(1) q(2) by (simp add: retained_def keys)
    have "z \<in> set (x # y # hs)" using z(1) set_every_other [of "y # hs"] by auto
    then have "epoch_ok E z" by (rule history_epoch_ok [OF hist(1)])
    with True known show thesis using z(2,3) by (rule leads)
  next
    case False
    then have v: "v = other p" using other_cases by blast
    obtain z where z: "z \<in> set (every_other (x # y # hs))"
        "sealed_in E z (pc_counter q) (pc_key q) (pc_text q) (ids p) (ids (other p)) (pc_message q)" "pc_counter q \<noteq> - 1"
      using led_by_parcel(1) [OF inv] q(1) v by blast
    show thesis
    proof (cases "z = x")
      case True
      show thesis using v z(2,3) unfolding True by (rule newest)
    next
      case False
      then have old: "z \<in> set (every_other hs)" using z(1) by simp
      have "pc_ratchet q = ep_public z" using z(2) by (rule sealed_in_fields)
      then have known: "z \<in> set (take MAX_RECEIVER_CHAINS (every_other hs))"
        using retained_readable [of "[x, y]" hs z] hist(2) old q(2) by (simp add: retained_def keys)
      have "z \<in> set (x # y # hs)" using old set_every_other [of hs] by auto
      then have "epoch_ok E z" by (rule history_epoch_ok [OF hist(1)])
      with v known show thesis using z(2,3) by (rule trails)
    qed
  qed
qed

lemma led_by_spqr:
  assumes "spqr_channel E R" "led_by E R ids p x y hs n k c" "q \<in> set (cv_inbox c v)"
    "spqr_recv E (s_pq_ratchet_state (cv_state c v)) (sm_pq_ratchet (pc_message q)) = Ok (pq, key)"
  shows "key = pc_key q"
proof -
  have mem: "pc_pair q \<in># mset (map pc_pair (cv_inbox c v))" using assms(3) by simp
  note R = led_byD(6) [OF assms(2)]
  have "R (s_pq_ratchet_state (cv_state c (other v))) (s_pq_ratchet_state (cv_state c v))
      (mset (map pc_pair (cv_inbox c v))) (mset (map pc_pair (cv_inbox c (other v))))"
    using R spqr_channelD(1) [OF assms(1) R] other_cases [of v p] by auto
  then show ?thesis using mem assms(4) by (rule spqr_channelD(3) [OF assms(1)])
qed

lemma led_by_reads:
  assumes laws: "hash_lengths E" "cbc_ok E" "dh_ok E" "curve_lengths E" "rng_length E" "spqr_channel E R"
    and inv: "led_by E R ids p x y hs n k c" and q: "q \<in> set (cv_inbox c v)" "retained (pc_message q) c"
    and dec: "decrypt_message_with_state E (cv_state c v) (pc_message q) t r = (Ok (ptext, st'), r')"
  obtains
    (leads) "v = p" "endpoint E x n (every_other (y # hs)) (ids p) (ids (other p)) st'"
      "reads_parcel E q (cv_state c v) ptext st'" "get_receiver_chain (cv_state c v) (pc_ratchet q) \<noteq> Ok None"
  | (trails) "v = other p" "endpoint E y k (every_other hs) (ids (other p)) (ids p) st'"
      "reads_parcel E q (cv_state c v) ptext st'" "get_receiver_chain (cv_state c v) (pc_ratchet q) \<noteq> Ok None"
  | (ratchets) z where "v = other p" "endpoint E z 0 (x # every_other hs) (ids (other p)) (ids p) st'"
      "reads_parcel E q (cv_state c v) ptext st'" "get_receiver_chain (cv_state c v) (pc_ratchet q) = Ok None"
      "history_ok E (z # x # y # hs)" "sender_ratchet_key st' = Ok (ep_public z)" "pc_ratchet q = ep_public x"
proof -
  note spqr = led_by_spqr [OF laws(6) inv q(1)]
  from inv q show thesis
  proof (cases rule: led_by_locate)
    case (leads z)
    have st: "endpoint E x n (every_other (y # hs)) (ids p) (ids (other p)) (cv_state c v)"
      unfolding leads(1) by (rule led_byD(4) [OF inv])
    have te: "pc_ratchet q = ep_public z" using leads(4) by (rule sealed_in_fields)
    note r = endpoint_receive_known [OF laws(1,2) st leads(2-5) dec spqr]
    show thesis by (rule that(1) [OF leads(1) r(2)]) (simp_all only: reads_parcel_def te r simp_thms not_False_eq_True)
  next
    case (trails z)
    have st: "endpoint E y k (every_other hs) (ids (other p)) (ids p) (cv_state c v)"
      unfolding trails(1) by (rule led_byD(5) [OF inv])
    have te: "pc_ratchet q = ep_public z" using trails(4) by (rule sealed_in_fields)
    note r = endpoint_receive_known [OF laws(1,2) st trails(2-5) dec spqr]
    show thesis by (rule that(2) [OF trails(1) r(2)]) (simp_all only: reads_parcel_def te r simp_thms not_False_eq_True)
  next
    case newest
    have st: "endpoint E y k (every_other hs) (ids (other p)) (ids p) (cv_state c v)"
      unfolding newest(1) by (rule led_byD(5) [OF inv])
    have te: "pc_ratchet q = ep_public x" using newest(2) by (rule sealed_in_fields)
    have new: "ep_public x \<notin> ep_public ` set hs" using led_byD(3) [OF inv] by simp
    obtain w where w: "ptext = pc_text q" "endpoint E w 0 (x # every_other hs) (ids (other p)) (ids p) st'"
        "history_ok E (w # x # y # hs)" "sender_ratchet_key st' = Ok (ep_public w)"
        "get_receiver_chain (cv_state c v) (ep_public x) = Ok None"
        "spqr_recv E (s_pq_ratchet_state (cv_state c v)) (sm_pq_ratchet (pc_message q)) = Ok (s_pq_ratchet_state st', pc_key q)"
        "took_key E (ep_public x) (pc_counter q) (cv_state c v) st'"
      by (rule endpoint_receive_new [OF laws(1-5) led_byD(1) [OF inv] new st newest(2,3) dec]) (erule spqr, rule that)
    show thesis
      by (rule ratchets [OF newest(1) w(2) _ _ w(3,4)]) (simp_all only: reads_parcel_def te w simp_thms)
  qed
qed

lemma spqr_after_receive:
  assumes "spqr_channel E R" "R a b (mset (map pc_pair (xs @ q # ys))) N"
    "spqr_recv E b (sm_pq_ratchet (pc_message q)) = Ok (b', pc_key q)"
  shows "R a b' (mset (map pc_pair (xs @ ys))) N"
proof -
  have "R a b' (mset (map pc_pair (xs @ q # ys)) - {#pc_pair q#}) N"
    using assms(2) _ assms(3) by (rule spqr_channelD(4) [OF assms(1)]) simp
  then show ?thesis by simp
qed

lemma led_by_receive:
  assumes laws: "hash_lengths E" "cbc_ok E" "dh_ok E" "curve_lengths E" "rng_length E" "spqr_channel E R"
    and inv: "led_by E R ids p x y hs n k c" and q: "cv_inbox c v = xs @ q # ys" "retained (pc_message q) c"
    and dec: "decrypt_message_with_state E (cv_state c v) (pc_message q) t r = (Ok (ptext, st'), r')"
    and ks: "ks = keys_after (cv_state c v) (pc_ratchet q) st' (cv_keys c)" "distinct ks"
  obtains
    (known) "led_by E R ids p x y hs n k (fetch v st' (xs @ ys) ks c)" "reads_parcel E q (cv_state c v) ptext st'"
  | (ratchets) z where "v = other p" "led_by E R ids v z x (y # hs) 0 n (fetch v st' (xs @ ys) ks c)"
      "reads_parcel E q (cv_state c v) ptext st'" "pc_ratchet q = ep_public x" "ep_public z \<notin> set (cv_keys c)"
proof -
  note D = led_byD [OF inv]
  have sub: "set (xs @ ys) \<subseteq> set (cv_inbox c v)" using q(1) by auto
  have "q \<in> set (cv_inbox c v)" using q(1) by simp
  from laws inv this q(2) dec show thesis
  proof (cases rule: led_by_reads)
    case leads
    have recv: "spqr_recv E (s_pq_ratchet_state (cv_state c p)) (sm_pq_ratchet (pc_message q)) = Ok (s_pq_ratchet_state st', pc_key q)"
      using leads(1,3) by (simp add: reads_parcel_def)
    have "R (s_pq_ratchet_state (cv_state c (other p))) (s_pq_ratchet_state (cv_state c p)) (mset (map pc_pair (xs @ q # ys)))
        (mset (map pc_pair (cv_inbox c (other p))))"
      using spqr_channelD(1) [OF laws(6) D(6)] q(1) leads(1) by simp
    from spqr_after_receive [OF laws(6) this recv]
    have R: "R (s_pq_ratchet_state st') (s_pq_ratchet_state (cv_state c (other p))) (mset (map pc_pair (cv_inbox c (other p))))
        (mset (map pc_pair (xs @ ys)))"
      by (rule spqr_channelD(1) [OF laws(6)])
    have "ks = cv_keys c" using ks(1) leads(4) by (simp add: keys_after_def split: result.split option.split)
    then have "led_by E R ids p x y hs n k (fetch v st' (xs @ ys) ks c)"
      unfolding led_by_def using D(1-5,7) R leads(1,2) parcels_ok_mono [OF D(8) order.refl] sub
      by (simp del: history_ok.simps every_other.simps map_append mset_append)
    then show thesis using known leads(3) by blast
  next
    case trails
    have recv: "spqr_recv E (s_pq_ratchet_state (cv_state c (other p))) (sm_pq_ratchet (pc_message q)) = Ok (s_pq_ratchet_state st', pc_key q)"
      using trails(1,3) by (simp add: reads_parcel_def)
    have "R (s_pq_ratchet_state (cv_state c p)) (s_pq_ratchet_state (cv_state c (other p))) (mset (map pc_pair (xs @ q # ys)))
        (mset (map pc_pair (cv_inbox c p)))"
      using D(6) q(1) trails(1) by simp
    note R = spqr_after_receive [OF laws(6) this recv]
    have "ks = cv_keys c" using ks(1) trails(4) by (simp add: keys_after_def split: result.split option.split)
    then have "led_by E R ids p x y hs n k (fetch v st' (xs @ ys) ks c)"
      unfolding led_by_def using D(1-5,8) R trails(1,2) parcels_ok_mono [OF D(7) order.refl] sub
      by (simp del: history_ok.simps every_other.simps map_append mset_append)
    then show thesis using known trails(3) by blast
  next
    case (ratchets z)
    have recv: "spqr_recv E (s_pq_ratchet_state (cv_state c (other p))) (sm_pq_ratchet (pc_message q)) = Ok (s_pq_ratchet_state st', pc_key q)"
      using ratchets(1,3) by (simp add: reads_parcel_def)
    have "R (s_pq_ratchet_state (cv_state c p)) (s_pq_ratchet_state (cv_state c (other p))) (mset (map pc_pair (xs @ q # ys)))
        (mset (map pc_pair (cv_inbox c p)))"
      using D(6) q(1) ratchets(1) by simp
    from spqr_after_receive [OF laws(6) this recv]
    have R: "R (s_pq_ratchet_state st') (s_pq_ratchet_state (cv_state c p)) (mset (map pc_pair (cv_inbox c p))) (mset (map pc_pair (xs @ ys)))"
      by (rule spqr_channelD(1) [OF laws(6)])
    have keys: "ks = ep_public z # cv_keys c" using ks(1) ratchets(4,6) by (simp add: keys_after_def)
    then have fresh: "ep_public z \<notin> set (cv_keys c)" using ks(2) by simp
    have "parcels_ok E (every_other (z # x # y # hs)) (ids (other p)) (ids p) (cv_inbox c p)"
      using D(8) by (rule parcels_ok_mono) auto
    moreover have "parcels_ok E (every_other (x # y # hs)) (ids p) (ids (other p)) (xs @ ys)"
      using parcels_ok_mono [OF D(7) order.refl] sub ratchets(1) by simp
    moreover have "distinct (map ep_public (z # x # y # hs))" using D(2,3) fresh by simp
    ultimately have "led_by E R ids v z x (y # hs) 0 n (fetch v st' (xs @ ys) ks c)"
      unfolding led_by_def using D(2,4) R ratchets(1,2,5) keys every_other_Cons [of x "y # hs"]
      by (simp del: history_ok.simps map_append mset_append)
    then show thesis using ratchets(1,3,7) fresh that(2) by blast
  qed
qed

subsection \<open>Nothing in transit is lost\<close>

text \<open>
  The messages on their way to \<open>st\<close>, when the other party sends in epoch \<open>x\<close> and has used \<open>n\<close> counters: no two have
  the same epoch and counter, and the chains of \<open>st\<close> have not used any of their counters.
\<close>

definition inbox_open :: "epoch \<Rightarrow> u32 \<Rightarrow> session_state \<Rightarrow> parcel list \<Rightarrow> bool" where
  "inbox_open x n st qs \<longleftrightarrow>
     distinct (map (\<lambda>q. (pc_ratchet q, pc_counter q)) qs) \<and>
     (\<forall>q \<in> set qs. pc_ratchet q = ep_public x \<longrightarrow> pc_counter q < n) \<and>
     (\<forall>c \<in> set (s_receiver_chains st). c_sender_ratchet_key c = PublicKey_serialize (ep_public x) \<longrightarrow>
        (\<exists>ck. c_chain_key c = Some ck \<and> ck_index ck \<le> n)) \<and>
     (\<forall>q \<in> set qs. unat (pc_counter q) < MAX_MESSAGE_KEYS \<and>
        (\<forall>c \<in> set (s_receiver_chains st). c_sender_ratchet_key c = PublicKey_serialize (pc_ratchet q) \<longrightarrow>
           unused_at c (pc_counter q)))"

lemma inbox_open_chains:
  "inbox_open x n st qs \<Longrightarrow> s_receiver_chains st' = s_receiver_chains st \<Longrightarrow> inbox_open x n st' qs"
  by (simp add: inbox_open_def)

lemma inbox_open_send:
  assumes "inbox_open x n st qs" "pc_ratchet q = ep_public x" "pc_counter q = n" "unat n < MAX_MESSAGE_KEYS"
  shows "inbox_open x (n + 1) st (q # qs)"
proof -
  have "n \<noteq> - 1" using assms(4) by (auto simp: MAX_MESSAGE_KEYS_def unsigned_minus_1_eq_mask mask_eq_exp_minus_1)
  then have n: "n < n + 1" by (rule u32_Suc_no_wrap)
  have "\<forall>c \<in> set (s_receiver_chains st). c_sender_ratchet_key c = PublicKey_serialize (ep_public x) \<longrightarrow> unused_at c n"
    using assms(1) by (auto simp: inbox_open_def unused_at_def)
  moreover have "(pc_ratchet q, pc_counter q) \<notin> (\<lambda>q. (pc_ratchet q, pc_counter q)) ` set qs"
    using assms(1-3) by (auto simp: inbox_open_def)
  ultimately show ?thesis
    using assms n unfolding inbox_open_def by (auto dest: less_trans order.strict_trans1 intro: less_imp_le)
qed

lemma chain_step_index:
  assumes "chain_step E n c c'" "c_chain_key c = Some ck" "ck_index ck \<le> k" "n < k"
  shows "\<exists>ck'. c_chain_key c' = Some ck' \<and> ck_index ck' \<le> k"
proof -
  obtain d where d: "c_chain_key c = Some (to_pb_chain_key d)" using assms(1) by (auto simp: chain_step_def)
  show ?thesis
  proof (cases "n < chain_key_index d")
    case True
    then show ?thesis using assms(2,3) d chain_stepD [OF assms(1) d] by auto
  next
    case False
    then have "chain_key_index (next_chain_key E (jump_to E d n)) = n + 1"
      by (simp add: ratchet_chain.idx_nxt jump_to_index)
    moreover have "n + 1 \<le> k" using assms(4) by (rule u32_lt_Suc)
    moreover have "c' = advanced E d n c" using chain_stepD [OF assms(1) d] False by simp
    ultimately show ?thesis by (simp add: advanced_def)
  qed
qed

lemma inbox_open_receive:
  assumes "inbox_open x n st (xs @ q # ys)" "took_key E (pc_ratchet q) (pc_counter q) st st'" "session_ok st'"
    and keys: "public_key_ok (ep_public x)" "\<forall>q' \<in> set (xs @ q # ys). public_key_ok (pc_ratchet q')"
  shows "inbox_open x n st' (xs @ ys)"
proof -
  let ?k = "pc_counter q"
  obtain c c' where t: "receiver_chain_ok c" "c_sender_ratchet_key c = PublicKey_serialize (pc_ratchet q)" "chain_step E ?k c c'"
      "c_sender_ratchet_key c' = c_sender_ratchet_key c" "c' \<in> set (s_receiver_chains st')"
      "set (s_receiver_chains st') \<subseteq> insert c' (set (s_receiver_chains st))"
      "c \<in> set (s_receiver_chains st) \<or> (\<exists>ck. c_chain_key c = Some ck \<and> ck_index ck = 0)"
    using assms(2) by (auto simp: took_key_def)
  note I = assms(1) [unfolded inbox_open_def]
  have small: "unat ?k < MAX_MESSAGE_KEYS" using I by simp
  have tags: "(pc_ratchet q, ?k) \<notin> (\<lambda>q. (pc_ratchet q, pc_counter q)) ` set (xs @ ys)"
    "distinct (map (\<lambda>q. (pc_ratchet q, pc_counter q)) (xs @ ys))"
    using I by auto
  have head: "\<exists>ck. c_chain_key d = Some ck \<and> ck_index ck \<le> n"
    if d: "d \<in> set (s_receiver_chains st')" "c_sender_ratchet_key d = PublicKey_serialize (ep_public x)" for d
  proof (cases "d = c'")
    case True
    then have "pc_ratchet q = ep_public x"
      using d(2) t(2,4) keys public_key_serde.ser_eq_iff [of "pc_ratchet q" "ep_public x"] by simp
    then have "?k < n" "\<exists>ck. c_chain_key c = Some ck \<and> ck_index ck \<le> n" using I t(2,7) by auto
    then show ?thesis using chain_step_index [OF t(3)] True by blast
  next
    case False
    then show ?thesis using I t(6) d by auto
  qed
  have open': "unused_at d (pc_counter q')"
    if q': "q' \<in> set (xs @ ys)" and d: "d \<in> set (s_receiver_chains st')" "c_sender_ratchet_key d = PublicKey_serialize (pc_ratchet q')" for d q'
  proof (cases "d = c'")
    case True
    have "public_key_ok (pc_ratchet q)" "public_key_ok (pc_ratchet q')" using keys(2) q' by auto
    then have same: "pc_ratchet q' = pc_ratchet q"
      using d(2) t(2,4) True public_key_serde.ser_eq_iff [of "pc_ratchet q" "pc_ratchet q'"] by simp
    have other: "pc_counter q' \<noteq> ?k" using tags(1) imageI [OF q', of "\<lambda>q. (pc_ratchet q, pc_counter q)"] same by auto
    have "q' \<in> set (xs @ q # ys)" using q' by auto
    then have "unused_at c (pc_counter q')" using I t(2,7) same by (auto simp: unused_at_def)
    with t(3,1) show ?thesis unfolding True using other small by (rule unused_chain_step)
  next
    case False
    then show ?thesis using I t(6) d q' by auto
  qed
  show ?thesis using I tags(2) head open' unfolding inbox_open_def by auto
qed

lemma inbox_open_fresh:
  assumes "inbox_open y k st qs" "\<forall>q \<in> set qs. pc_ratchet q \<noteq> ep_public z"
    "\<forall>c \<in> set (s_receiver_chains st). c_sender_ratchet_key c \<noteq> PublicKey_serialize (ep_public z)"
  shows "inbox_open z 0 st qs"
  using assms by (simp add: inbox_open_def)

text \<open>The whole invariant; its second half holds when no epoch has more than \<open>MAX_MESSAGE_KEYS\<close> messages.\<close>

definition conv_inv ::
    "'r env \<Rightarrow> (bytes \<Rightarrow> bytes \<Rightarrow> (bytes \<times> bytes option) multiset \<Rightarrow> (bytes \<times> bytes option) multiset \<Rightarrow> bool) \<Rightarrow>
     (party \<Rightarrow> identity_key) \<Rightarrow> u32 \<Rightarrow> conversation \<Rightarrow> bool" where
  "conv_inv E R ids lim c \<longleftrightarrow> (\<exists>p x y hs n k. led_by E R ids p x y hs n k c \<and>
     (unat lim \<le> MAX_MESSAGE_KEYS \<longrightarrow> inbox_open x n (cv_state c (other p)) (cv_inbox c (other p)) \<and>
        inbox_open y k (cv_state c p) (cv_inbox c p)))"

lemma led_by_keys_ok:
  assumes "led_by E R ids p x y hs n k c"
  shows "public_key_ok (ep_public x)" "public_key_ok (ep_public y)" "\<forall>q \<in> set (cv_inbox c v). public_key_ok (pc_ratchet q)"
    "\<forall>q \<in> set (cv_inbox c v). pc_ratchet q \<in> set (cv_keys c)"
proof -
  note hist = history_epoch_ok [OF led_byD(1) [OF assms]]
  show "public_key_ok (ep_public x)" "public_key_ok (ep_public y)" using hist by (simp_all add: epoch_ok_def)
  have "\<exists>z \<in> set (x # y # hs). pc_ratchet q = ep_public z" if "q \<in> set (cv_inbox c v)" for q
  proof -
    have "\<exists>z \<in> set (every_other (x # y # hs)) \<union> set (every_other (y # hs)). pc_ratchet q = ep_public z"
      using led_by_parcel [OF assms, of q] that other_cases [of v p] sealed_in_fields(1) by blast
    then show ?thesis using set_every_other [of "x # y # hs"] set_every_other [of "y # hs"] by auto
  qed
  then show "\<forall>q \<in> set (cv_inbox c v). public_key_ok (pc_ratchet q)" "\<forall>q \<in> set (cv_inbox c v). pc_ratchet q \<in> set (cv_keys c)"
    using hist led_byD(2) [OF assms] by (fastforce simp: epoch_ok_def)+
qed

lemma led_by_sends:
  assumes "hash_lengths E" "led_by E R ids p x y hs n k c"
  shows "get_sender_chain_key (cv_state c p) = Ok (nth_chain_key E (ep_chain x) n)" "sender_ratchet_key (cv_state c p) = Ok (ep_public x)"
    "get_sender_chain_key (cv_state c (other p)) = Ok (nth_chain_key E (ep_chain y) k)"
    "sender_ratchet_key (cv_state c (other p)) = Ok (ep_public y)"
    "chain_key_index (nth_chain_key E (ep_chain x) n) = n" "chain_key_index (nth_chain_key E (ep_chain y) k) = k"
proof -
  note D = led_byD [OF assms(2)]
  have ok: "epoch_ok E x" "epoch_ok E y" using history_epoch_ok [OF D(1)] by simp_all
  have "sends_in E x n (cv_state c p)" "sends_in E y k (cv_state c (other p))" using D(4,5) by (simp_all add: endpoint_def)
  then show "get_sender_chain_key (cv_state c p) = Ok (nth_chain_key E (ep_chain x) n)" "sender_ratchet_key (cv_state c p) = Ok (ep_public x)"
    "get_sender_chain_key (cv_state c (other p)) = Ok (nth_chain_key E (ep_chain y) k)"
    "sender_ratchet_key (cv_state c (other p)) = Ok (ep_public y)"
    "chain_key_index (nth_chain_key E (ep_chain x) n) = n" "chain_key_index (nth_chain_key E (ep_chain y) k) = k"
    using ok assms(1) by (simp_all add: sends_in_reads)
qed

lemma encrypt_header:
  assumes "encrypt_with_state E ptext addr now st r = (Ok (msg, i, st'), r')" "signal_part msg = Some m"
  obtains ck where "get_sender_chain_key st = Ok ck" "sm_counter m = chain_key_index ck"
    "sender_ratchet_key st = Ok (sm_sender_ratchet_key m)" "s_receiver_chains st' = s_receiver_chains st"
  using assms(1)
proof (cases rule: encrypt_with_state_cases)
  case (1 ck pq key pq_msg mk eph v our_id ct m0 items)
  have "m = m0"
    using assms(2) 1(12) by (cases items) (simp_all add: signal_part_def PreKeySignalMessage_new_def Let_def)
  then show thesis
    using that [OF 1(1)] 1(4) SignalMessage_new_fields(2,3) [OF 1(11)] by (simp add: 1(13) set_sender_chain_key_def)
qed

lemma conv_inv_send:
  assumes laws: "hash_lengths E" "spqr_channel E R" and inv: "conv_inv E R ids lim c"
    and enc: "encrypt_with_state E ptext addr now (cv_state c v) r = (Ok (msg, i, st'), r')" "signal_part msg = Some m"
      "sm_counter m < lim" "spqr_send E (s_pq_ratchet_state (cv_state c v)) r = (Ok (pq, key, w), r1)"
  shows "conv_inv E R ids lim (post v st' \<lparr>pc_message = m, pc_key = key, pc_text = ptext\<rparr> c)"
proof -
  obtain p x y hs n k where led: "led_by E R ids p x y hs n k c"
    and live: "unat lim \<le> MAX_MESSAGE_KEYS \<Longrightarrow> inbox_open x n (cv_state c (other p)) (cv_inbox c (other p)) \<and>
      inbox_open y k (cv_state c p) (cv_inbox c p)"
    using inv unfolding conv_inv_def by blast
  let ?q = "\<lparr>pc_message = m, pc_key = key, pc_text = ptext\<rparr>"
  have no_wrap: "sm_counter m \<noteq> - 1" using enc(3) by auto
  have small: "unat (sm_counter m) < MAX_MESSAGE_KEYS" if "unat lim \<le> MAX_MESSAGE_KEYS"
    using enc(3) that by (simp add: word_less_nat_alt)
  note S = led_by_sends [OF laws(1) led]
  obtain ck where h: "get_sender_chain_key (cv_state c v) = Ok ck" "sm_counter m = chain_key_index ck"
      "sender_ratchet_key (cv_state c v) = Ok (sm_sender_ratchet_key m)" "s_receiver_chains st' = s_receiver_chains (cv_state c v)"
    using enc(1,2) by (rule encrypt_header)
  show ?thesis
  proof (cases "v = p")
    case True
    have m: "sm_counter m = n" "sm_sender_ratchet_key m = ep_public x" using h(1-3) S True by auto
    have "led_by E R ids p x y hs (n + 1) k (post v st' ?q c)"
      using led_by_send(1) [OF laws led enc(1,2) no_wrap enc(4)] True by blast
    moreover have "inbox_open x (n + 1) (cv_state c (other p)) (?q # cv_inbox c (other p)) \<and> inbox_open y k st' (cv_inbox c p)"
      if lim: "unat lim \<le> MAX_MESSAGE_KEYS"
      using live [OF lim] small [OF lim] m inbox_open_send [of x n _ _ ?q] inbox_open_chains [OF _ h(4)] True by auto
    ultimately show ?thesis using True unfolding conv_inv_def by (intro exI conjI) auto
  next
    case False
    then have v: "v = other p" using other_cases by blast
    have m: "sm_counter m = k" "sm_sender_ratchet_key m = ep_public y" using h(1-3) S v by auto
    have "led_by E R ids p x y hs n (k + 1) (post v st' ?q c)"
      using led_by_send(2) [OF laws led enc(1,2) no_wrap enc(4)] v by blast
    moreover have "inbox_open x n st' (cv_inbox c (other p)) \<and> inbox_open y (k + 1) (cv_state c p) (?q # cv_inbox c p)"
      if lim: "unat lim \<le> MAX_MESSAGE_KEYS"
      using live [OF lim] small [OF lim] m inbox_open_send [of y k _ _ ?q] inbox_open_chains [OF _ h(4)] v by auto
    ultimately show ?thesis using v unfolding conv_inv_def by (intro exI conjI) auto
  qed
qed

lemma reads_from_other_keys:
  assumes "reads_from E xs st" "set xs \<subseteq> set hs" "k \<notin> ep_public ` set hs" "public_key_ok k" "\<forall>x \<in> set hs. epoch_ok E x"
  shows "\<forall>c \<in> set (s_receiver_chains st). c_sender_ratchet_key c \<noteq> PublicKey_serialize k"
proof
  fix c assume "c \<in> set (s_receiver_chains st)"
  then obtain x where x: "x \<in> set xs" "chain_of E c x"
    using assms(1) list_all2_left [of "chain_of E" "s_receiver_chains st" "rev (take MAX_RECEIVER_CHAINS xs)" c]
    by (auto simp: reads_from_def dest: in_set_takeD)
  then have "public_key_ok (ep_public x)" "ep_public x \<noteq> k" using assms(2,3,5) by (auto simp: epoch_ok_def)
  then show "c_sender_ratchet_key c \<noteq> PublicKey_serialize k"
    using x(2) assms(4) public_key_serde.ser_eq_iff [of "ep_public x" k] by (simp add: chain_of_def)
qed

lemma conv_inv_receive:
  assumes laws: "hash_lengths E" "cbc_ok E" "dh_ok E" "curve_lengths E" "rng_length E" "spqr_channel E R"
    and inv: "conv_inv E R ids lim c" and q: "cv_inbox c v = xs @ q # ys" "retained (pc_message q) c"
    and dec: "decrypt_message_with_state E (cv_state c v) (pc_message q) t r = (Ok (ptext, st'), r')"
    and ks: "ks = keys_after (cv_state c v) (pc_ratchet q) st' (cv_keys c)" "distinct ks"
  shows "conv_inv E R ids lim (fetch v st' (xs @ ys) ks c)"
proof -
  obtain p x y hs n k where led: "led_by E R ids p x y hs n k c"
    and live: "unat lim \<le> MAX_MESSAGE_KEYS \<Longrightarrow> inbox_open x n (cv_state c (other p)) (cv_inbox c (other p)) \<and>
      inbox_open y k (cv_state c p) (cv_inbox c p)"
    using inv unfolding conv_inv_def by blast
  note ok = led_by_keys_ok [OF led]
  have pks: "\<forall>q' \<in> set (xs @ q # ys). public_key_ok (pc_ratchet q')" using ok(3) [of v] q(1) by simp
  from laws led q dec ks show ?thesis
  proof (cases rule: led_by_receive)
    case known
    have took: "took_key E (pc_ratchet q) (pc_counter q) (cv_state c v) st'" using known(2) by (simp add: reads_parcel_def)
    have st': "session_ok st'"
      using led_byD(4,5) [OF known(1)] other_cases [of v p] by (auto simp: endpoint_def)
    show ?thesis
    proof (cases "v = p")
      case True
      have "inbox_open x n (cv_state c (other p)) (cv_inbox c (other p)) \<and> inbox_open y k st' (xs @ ys)"
        if lim: "unat lim \<le> MAX_MESSAGE_KEYS"
        using live [OF lim] inbox_open_receive [OF _ took st' ok(2) pks, of k] q(1) True by simp
      then show ?thesis using known(1) True unfolding conv_inv_def by (intro exI conjI) auto
    next
      case False
      then have v: "v = other p" using other_cases by blast
      have "inbox_open x n st' (xs @ ys) \<and> inbox_open y k (cv_state c p) (cv_inbox c p)"
        if lim: "unat lim \<le> MAX_MESSAGE_KEYS"
        using live [OF lim] inbox_open_receive [OF _ took st' ok(1) pks, of n] q(1) v by simp
      then show ?thesis using known(1) v unfolding conv_inv_def by (intro exI conjI) auto
    qed
  next
    case (ratchets z)
    have took: "took_key E (pc_ratchet q) (pc_counter q) (cv_state c v) st'" using ratchets(3) by (simp add: reads_parcel_def)
    note D = led_byD [OF led] and D' = led_byD [OF ratchets(2)]
    have st': "session_ok st'" using D'(4) by (simp add: endpoint_def)
    have "epoch_ok E z" using history_epoch_ok [OF D'(1), of z] by simp
    then have zok: "public_key_ok (ep_public z)" by (simp add: epoch_ok_def)
    have hist: "\<forall>e \<in> set (x # y # hs). epoch_ok E e" using history_epoch_ok [OF D(1)] by blast
    have zfresh: "ep_public z \<notin> ep_public ` set (x # y # hs)" using ratchets(5) D(2) by simp
    have reads: "reads_from E (every_other (y # hs)) (cv_state c p)" using D(4) by (simp add: endpoint_def)
    have sub: "set (every_other (y # hs)) \<subseteq> set (x # y # hs)" using set_every_other [of "y # hs"] by auto
    have "inbox_open z 0 (cv_state c p) (cv_inbox c p) \<and> inbox_open x n st' (xs @ ys)"
      if lim: "unat lim \<le> MAX_MESSAGE_KEYS"
    proof
      have "\<forall>q \<in> set (cv_inbox c p). pc_ratchet q \<noteq> ep_public z" using ok(4) [of p] ratchets(5) by auto
      then show "inbox_open z 0 (cv_state c p) (cv_inbox c p)"
        using live [OF lim] reads_from_other_keys [OF reads sub zfresh zok hist] by (intro inbox_open_fresh [of y k]) blast+
      show "inbox_open x n st' (xs @ ys)"
        using live [OF lim] inbox_open_receive [OF _ took st' ok(1) pks, of n] q(1) ratchets(1) by simp
    qed
    then show ?thesis using ratchets(1,2) unfolding conv_inv_def by (intro exI conjI) auto
  qed
qed

subsection \<open>Any conversation\<close>

lemma conv_inv_step:
  assumes laws: "hash_lengths E" "cbc_ok E" "dh_ok E" "curve_lengths E" "rng_length E" "spqr_channel E R"
    and "conv_step E lim c c'" "conv_inv E R ids lim c"
  shows "conv_inv E R ids lim c'"
  using assms(7,8) by cases (auto intro: conv_inv_send [OF laws(1,6)] conv_inv_receive [OF laws])

lemma conv_inv_reachable:
  assumes laws: "hash_lengths E" "cbc_ok E" "dh_ok E" "curve_lengths E" "rng_length E" "spqr_channel E R"
    and "conv_reachable E lim c c'" "conv_inv E R ids lim c"
  shows "conv_inv E R ids lim c'"
  using assms(7) unfolding conv_reachable_def
  by (induction rule: rtranclp_induct) (use assms(8) conv_inv_step [OF laws] in auto)

text \<open>What a decryption returns is what was encrypted.\<close>

lemma conv_inv_reads:
  assumes laws: "hash_lengths E" "cbc_ok E" "dh_ok E" "curve_lengths E" "rng_length E" "spqr_channel E R"
    and "conv_inv E R ids lim c" "q \<in> set (cv_inbox c v)" "retained (pc_message q) c"
    and "decrypt_message_with_state E (cv_state c v) (pc_message q) t r = (Ok (ptext, st'), r')"
  shows "ptext = pc_text q"
proof -
  obtain p x y hs n k where led: "led_by E R ids p x y hs n k c" using assms(7) unfolding conv_inv_def by blast
  from laws led assms(8-10) show ?thesis by (cases rule: led_by_reads) (simp_all add: reads_parcel_def)
qed

text \<open>Every message in transit can be decrypted, unless the post-quantum ratchet refuses it.\<close>

lemma conv_inv_delivers:
  assumes laws: "hash_lengths E" "cbc_ok E" "dh_ok E" "curve_lengths E" "rng_length E" "spqr_channel E R"
    and inv: "conv_inv E R ids lim c" "unat lim \<le> MAX_MESSAGE_KEYS"
    and q: "q \<in> set (cv_inbox c v)" "retained (pc_message q) c"
    and recv: "spqr_recv E (s_pq_ratchet_state (cv_state c v)) (sm_pq_ratchet (pc_message q)) = Ok (pq, key)"
  shows "\<exists>st' r'. decrypt_message_with_state E (cv_state c v) (pc_message q) t r = (Ok (pc_text q, st'), r')"
proof -
  obtain p x y hs n k where led: "led_by E R ids p x y hs n k c"
    and live: "inbox_open x n (cv_state c (other p)) (cv_inbox c (other p))" "inbox_open y k (cv_state c p) (cv_inbox c p)"
    using inv unfolding conv_inv_def by blast
  have key: "key = pc_key q" by (rule led_by_spqr [OF laws(6) led q(1) recv])
  note recv' = recv [unfolded key]
  note D = led_byD [OF led]
  have small: "unat (pc_counter q) < MAX_MESSAGE_KEYS"
    using live q(1) other_cases [of v p] by (auto simp: inbox_open_def)
  have unused: "unused_at c' (pc_counter q)"
    if "c' \<in> set (s_receiver_chains (cv_state c v))" "c_sender_ratchet_key c' = PublicKey_serialize (pc_ratchet q)" for c'
    using live q(1) that other_cases [of v p] by (auto simp: inbox_open_def)
  have known: "\<exists>st' r'. decrypt_message_with_state E (cv_state c v) (pc_message q) t r = (Ok (pc_text q, st'), r')"
    if h: "endpoint E w j xs b a (cv_state c v)" "z \<in> set (take MAX_RECEIVER_CHAINS xs)" "epoch_ok E z"
      "sealed_in E z (pc_counter q) (pc_key q) (pc_text q) a b (pc_message q)" for w j xs b a z
  proof -
    have e: "session_ok (cv_state c v)" "reads_from E xs (cv_state c v)" "speaks b a (cv_state c v)"
      using h(1) by (simp_all add: endpoint_def)
    have pk: "public_key_ok (ep_public z)" using h(3) by (simp add: epoch_ok_def)
    obtain c' i where f: "chain_found E (cv_state c v) (ep_public z) r (cv_state c v) c' i r" "chain_of E c' z"
      using laws(1) e(1,2) h(2,3) by (rule chain_found_known)
    have found: "get_receiver_chain (cv_state c v) (ep_public z) = Ok (Some (c', i))" using f(1) by (simp add: chain_found_def)
    have "c' \<in> set (s_receiver_chains (cv_state c v))" using get_receiver_chain_SomeD(1,2) [OF e(1) pk found] by auto
    then have "unused_at c' (pc_counter q)"
      using f(2) sealed_in_fields(1) [OF h(4)] by (intro unused) (simp_all add: chain_of_def)
    then have "available (cv_state c v) c' (pc_counter q)" using small by (rule unused_available)
    then show ?thesis
      using decrypt_sealed_succeeds [OF laws(1,2) e(1,3) h(4) f(1) _ _ recv', where t = t] f(2) unfolding chain_of_def by blast
  qed
  from led q show ?thesis
  proof (cases rule: led_by_locate)
    case (leads z)
    show ?thesis by (rule known [OF _ leads(2-4)]) (unfold leads(1), rule D(4))
  next
    case (trails z)
    show ?thesis by (rule known [OF _ trails(2-4)]) (unfold trails(1), rule D(5))
  next
    case newest
    have e: "session_ok (cv_state c v)" "sends_in E y k (cv_state c v)" "reads_from E (every_other hs) (cv_state c v)"
      "speaks (ids (other p)) (ids p) (cv_state c v)"
      using D(5) newest(1) by (simp_all add: endpoint_def)
    obtain kp r1 where kp: "KeyPair_generate E r = (kp, r1)" by (rule prod.exhaust)
    have fresh: "ep_public x \<notin> ep_public ` set hs" using D(3) by simp
    obtain st1 c' i where f: "chain_found E (cv_state c v) (ep_public x) r st1 c' i r1" "chain_of E c' x"
        "c_chain_key c' = Some (to_pb_chain_key (ep_chain x))"
      using chain_found_new [OF laws(1,3-5) D(1) fresh e(1-3) kp] by metis
    have "chain_key_index (ep_chain x) = 0" using history_epoch_ok [OF D(1), of x] by (simp add: epoch_ok_def)
    then have "unused_at c' (pc_counter q)" using f(3) by (simp add: unused_at_def)
    then have "available st1 c' (pc_counter q)" using small by (rule unused_available)
    then show ?thesis
      using decrypt_sealed_succeeds [OF laws(1,2) e(1,4) newest(2) f(1) _ _ recv', where t = t] f(2) unfolding chain_of_def by blast
  qed
qed

text \<open>A party whose session was acknowledged can always send, unless the post-quantum ratchet refuses.\<close>

lemma endpoint_can_send:
  assumes laws: "hash_lengths E" "cbc_ok E" and e: "endpoint E x n xs a b st" "epoch_ok E x"
    and send: "s_pending_pre_key st = None" "spqr_send E (s_pq_ratchet_state st) r = (Ok (pq, key, w), r')"
  shows "\<exists>m st'. encrypt_with_state E ptext addr now st r = (Ok (CSignalMessage m, b, st'), r') \<and>
    sm_sender_ratchet_key m = ep_public x \<and> sm_counter m = n \<and> s_pending_pre_key st' = None"
proof -
  have st: "sends_in E x n st" "speaks a b st" using e(1) by (simp_all add: endpoint_def)
  note reads = sends_in_reads [OF st(1) e(2) laws(1)]
  have items: "unacknowledged_pre_key_message_items st = Ok None"
    using send(1) by (simp add: unacknowledged_pre_key_message_items_def)
  have sp: "session_version st = Ok 4" "local_identity_key st = Ok a" "remote_identity_key st = Ok (Some b)"
    using st(2) by (simp_all add: speaks_def)
  have "\<exists>msg st'. encrypt_with_state E ptext addr now st r = (Ok (msg, b, st'), r')"
    by (rule encrypt_with_state_succeeds [OF laws reads(4,3) sp send(2) items]) simp
  then obtain msg st' where enc: "encrypt_with_state E ptext addr now st r = (Ok (msg, b, st'), r')" by blast
  show ?thesis
    using enc
  proof (cases rule: encrypt_with_state_cases)
    case (1 ck pq' key' w' mk eph v our_id ct m items')
    have "sm_sender_ratchet_key m = eph" "sm_counter m = chain_key_index ck"
      using SignalMessage_new_fields [OF 1(11)] by simp_all
    moreover have "eph = ep_public x" "chain_key_index ck = n" "msg = CSignalMessage m"
      using 1(1,4,10,12) reads items by simp_all
    moreover have "s_pending_pre_key st' = None"
      using 1(13) send(1) by (simp add: set_sender_chain_key_def split: option.splits)
    ultimately show ?thesis using enc by blast
  qed
qed

lemma conv_inv_sends:
  assumes laws: "hash_lengths E" "cbc_ok E" and inv: "conv_inv E R ids lim c"
    and send: "s_pending_pre_key (cv_state c v) = None"
      "spqr_send E (s_pq_ratchet_state (cv_state c v)) r = (Ok (pq, key, w), r')"
    and below: "get_sender_chain_key (cv_state c v) = Ok ck" "chain_key_index ck < lim"
  shows "\<exists>st' q. conv_step E lim c (post v st' q c) \<and> pc_text q = ptext \<and> s_pending_pre_key st' = None \<and>
    (\<forall>c'. cv_keys c' = cv_keys c \<longrightarrow> retained (pc_message q) c') \<and> get_sender_chain_key st' = Ok (next_chain_key E ck)"
proof -
  obtain p x y hs n k where led: "led_by E R ids p x y hs n k c" using inv unfolding conv_inv_def by blast
  note D = led_byD [OF led]
  have ok: "epoch_ok E x" "epoch_ok E y" using history_epoch_ok [OF D(1)] by simp_all
  obtain z i xs where e: "endpoint E z i xs (ids v) (ids (other v)) (cv_state c v)" "epoch_ok E z" "z \<in> {x, y}"
    using D(4,5) ok other_cases [of v p] by (metis insertI1 insertI2 other_simps(1))
  obtain m st' where m: "encrypt_with_state E ptext undefined 0 (cv_state c v) r = (Ok (CSignalMessage m, ids (other v), st'), r')"
      "sm_sender_ratchet_key m = ep_public z" "sm_counter m = i" "s_pending_pre_key st' = None"
    using endpoint_can_send [OF laws e(1,2) send] by blast
  have "i = chain_key_index ck"
    using below(1) sends_in_reads(4,5) [of E z i "cv_state c v"] e(1,2) laws(1) by (simp add: endpoint_def)
  then have "conv_step E lim c (post v st' \<lparr>pc_message = m, pc_key = key, pc_text = ptext\<rparr> c)"
    using m(1,3) send(2) below(2) by (intro conv_step.send) (auto simp: signal_part_def)
  moreover have "retained m c'" if "cv_keys c' = cv_keys c" for c'
    using that m(2) e(3) D(2) by (auto simp: retained_def MAX_RECEIVER_CHAINS_def)
  moreover have "get_sender_chain_key st' = Ok (next_chain_key E ck)"
    using encrypt_with_state_counter [OF laws(1) m(1)] below(1) by auto
  ultimately show ?thesis using m(4) by force
qed

subsection \<open>The start\<close>

definition conv_start :: "session_state \<Rightarrow> session_state \<Rightarrow> public_key \<Rightarrow> public_key \<Rightarrow> conversation" where
  "conv_start stA stB kA kB =
     \<lparr>cv_state = (\<lambda>p. case p of Alice \<Rightarrow> stA | Bob \<Rightarrow> stB), cv_inbox = (\<lambda>p. []), cv_keys = [kA, kB]\<rparr>"

definition conv_ids :: "identity_key \<Rightarrow> identity_key \<Rightarrow> party \<Rightarrow> identity_key" where
  "conv_ids a b p = (case p of Alice \<Rightarrow> a | Bob \<Rightarrow> b)"

text \<open>Alice made the first ratchet step, from the chain that Bob sends in.\<close>

lemma conv_inv_start:
  assumes "history_ok E [x, y]" "ep_public x \<noteq> ep_public y"
    and "endpoint E x 0 [y] a b stA" "endpoint E y 0 [] b a stB"
    and "R (s_pq_ratchet_state stA) (s_pq_ratchet_state stB) {#} {#}"
    and "\<forall>c \<in> set (s_receiver_chains stA). \<exists>ck. c_chain_key c = Some ck \<and> ck_index ck = 0"
  shows "conv_inv E R (conv_ids a b) lim (conv_start stA stB (ep_public x) (ep_public y))"
proof -
  let ?c = "conv_start stA stB (ep_public x) (ep_public y)"
  have "led_by E R (conv_ids a b) Alice x y [] 0 0 ?c"
    using assms by (simp add: led_by_def conv_start_def conv_ids_def parcels_ok_def del: history_ok.simps)
  moreover have "inbox_open x 0 stB []"
    using assms(4) by (simp add: inbox_open_def endpoint_def reads_from_def)
  moreover have "inbox_open y 0 stA []" using assms(6) by (auto simp: inbox_open_def)
  ultimately show ?thesis unfolding conv_inv_def by (intro exI [of _ Alice] exI conjI) (auto simp: conv_start_def)
qed

lemma endpoint_sends_as: "sends_as st st' \<Longrightarrow> endpoint E x n xs a b st' = endpoint E x n xs a b st"
  using sends_as_reads(4-6,8) [of st st']
  by (simp add: endpoint_def sends_in_def reads_from_def speaks_def) (simp add: sends_as_def)

text \<open>The two sessions of a handshake, as they are or with pending pre-key data and registration ids set.\<close>

lemma conv_inv_handshake:
  assumes laws: "hash_lengths E" "dh_ok E" "curve_lengths E" "rng_length E"
    and spqr: "spqr_linked E (\<lambda>a b. R a b {#} {#})"
    and match: "parameters_match E a b"
      "kem_matching E (ap_their_kyber_pre_key a) (kkp_secret_key (bp_our_kyber_pre_key_pair b))"
      "is_canonical E (bp_their_base_key b)"
    and ratchet: "key_pair_ok E (bp_our_ratchet_key_pair b)" "private_key_ok (kp_private_key (bp_our_ratchet_key_pair b))"
    and alice: "initialize_alice_session E a r = (Ok stA, r1)"
      "get_kyber_ciphertext stA = Some (bp_their_kyber_ciphertext b)"
      "sender_ratchet_key stA = Ok kA" "kA \<noteq> ap_their_ratchet_key a"
    and bob: "initialize_bob_session E b = Ok stB"
    and as: "sends_as stA stA'" "sends_as stB stB'"
  shows "conv_inv E R (conv_ids (id_identity_key (ap_our_identity_key_pair a)) (ap_their_identity_key a)) lim
    (conv_start stA' stB' kA (ap_their_ratchet_key a))"
proof -
  obtain rk ck kp rk' ck' pqA pqB where
    stA: "stA = alice_session a rk' ck kp ck' (bp_their_kyber_ciphertext b) pqA"
    and stB: "initialize_bob_session E b = Ok (bob_session b rk ck pqB)"
    and ok: "length (root_key_key rk) = 32" "chain_key_ok ck" "chain_key_ok ck'" "chain_key_index ck' = 0"
      "public_key_ok (kp_public_key kp)"
    and agree: "create_chain E rk (ap_their_ratchet_key a) (kp_private_key kp) = (rk', ck')"
    and kp: "key_pair_ok E kp" "private_key_ok (kp_private_key kp)" and i0: "chain_key_index ck = 0" and R: "R pqA pqB {#} {#}"
    by (rule handshake_links [OF laws spqr match alice(1,2)]) (rule that)
  let ?x = "\<lparr>ep_key = kp, ep_root = rk', ep_chain = ck'\<rparr>"
  let ?y = "\<lparr>ep_key = bp_our_ratchet_key_pair b, ep_root = rk, ep_chain = ck\<rparr>"
  have B: "stB = bob_session b rk ck pqB" using bob stB by simp
  note pks = parameters_match_keys_ok [OF laws(3) match(1)]
  have ids: "id_identity_key (ap_our_identity_key_pair a) = bp_their_identity_key b"
    "ap_their_identity_key a = id_identity_key (bp_our_identity_key_pair b)"
    and rat: "kp_public_key (bp_our_ratchet_key_pair b) = ap_their_ratchet_key a"
    using match(1) by (simp_all add: parameters_match_def)
  have rpk: "public_key_ok (kp_public_key (bp_our_ratchet_key_pair b))"
    using ratchet(1) laws(3) by (simp add: key_pair_ok_def PrivateKey_public_key_def public_key_ok_def curve_lengths_def)
  have kA: "kA = kp_public_key kp"
    using alice(3) alice_session_reads(2) [OF ok(3,5) pks(1,2)] by (simp add: stA)
  have lens: "length (root_key_key rk') = 32" using create_chain_ok(2) [OF laws(1)] agree by (metis fst_conv)
  have "session_ok (add_receiver_chain (ap_their_ratchet_key a) ck
       (SessionState_new CIPHERTEXT_MESSAGE_CURRENT_VERSION (id_identity_key (ap_our_identity_key_pair a))
          (ap_their_identity_key a) rk' (kp_public_key (ap_our_base_key_pair a)) pqA))"
    using lens rpk rat ok(2) by (intro session_ok_add_receiver_chain SessionState_new_ok)
      (simp_all add: get_receiver_chain_def SessionState_new_def)
  then have "session_ok stA" by (simp add: stA alice_session_def)
  moreover have "sends_in E ?x 0 stA" by (simp add: stA session_unfold sends_in_def nth_chain_key_def)
  moreover have chains: "s_receiver_chains stA = [\<lparr>c_sender_ratchet_key = PublicKey_serialize (ap_their_ratchet_key a),
      c_sender_ratchet_key_private = [], c_chain_key = Some (to_pb_chain_key ck), c_message_keys = []\<rparr>]"
    by (simp add: stA session_unfold push_receiver_chain_def MAX_RECEIVER_CHAINS_def)
  then have "reads_from E [?y] stA"
    using ok(2) i0 rat by (auto simp: reads_from_def MAX_RECEIVER_CHAINS_def chain_of_def chain_tracks_def nth_chain_key_def
        intro!: exI [of _ 0])
  moreover have "speaks (id_identity_key (ap_our_identity_key_pair a)) (ap_their_identity_key a) stA"
    using alice_session_reads [OF ok(3,5) pks(1,2)] by (simp add: stA speaks_def)
  ultimately have A: "endpoint E ?x 0 [?y] (id_identity_key (ap_our_identity_key_pair a)) (ap_their_identity_key a) stA"
    by (simp add: endpoint_def)
  note readsB = bob_session_reads [OF ok(1,2) ratchet pks(3,4) rpk]
  have "sends_in E ?y 0 stB" by (simp add: B session_unfold sends_in_def nth_chain_key_def)
  then have B': "endpoint E ?y 0 [] (ap_their_identity_key a) (id_identity_key (ap_our_identity_key_pair a)) stB"
    using readsB by (simp add: B endpoint_def reads_from_def speaks_def ids session_healthy_def)
  have hist: "history_ok E [?x, ?y]"
    using ok i0 kp ratchet rpk agree lens by (simp add: epoch_ok_def next_epoch_def rat)
  have pq: "s_pq_ratchet_state stA' = pqA" "s_pq_ratchet_state stB' = pqB" "s_receiver_chains stA' = s_receiver_chains stA"
    using as readsB(9) alice_session_reads(6) [OF ok(3,5) pks(1,2)] by (simp_all add: sends_as_def stA B)
  have A2: "endpoint E ?x 0 [?y] (id_identity_key (ap_our_identity_key_pair a)) (ap_their_identity_key a) stA'"
    using A unfolding endpoint_sends_as [OF as(1), of E] .
  have B2: "endpoint E ?y 0 [] (ap_their_identity_key a) (id_identity_key (ap_our_identity_key_pair a)) stB'"
    using B' unfolding endpoint_sends_as [OF as(2), of E] .
  have R': "R (s_pq_ratchet_state stA') (s_pq_ratchet_state stB') {#} {#}" using R by (simp add: pq)
  have C: "\<forall>c \<in> set (s_receiver_chains stA'). \<exists>ck. c_chain_key c = Some ck \<and> ck_index ck = 0"
    using i0 by (simp add: pq chains)
  have "ep_public ?x \<noteq> ep_public ?y" using alice(4) by (simp add: kA rat)
  from conv_inv_start [of E ?x ?y, OF hist this A2 B2, of R, OF R' C] show ?thesis by (simp add: kA rat)
qed

end
