(* ===== verification/Group_Cipher.thy ===== *)
theory Group_Cipher
  imports Sender_Keys Messages Storage Session_Handlers
begin

text \<open>
  \<open>rust/protocol/src/group_cipher.rs\<close>: encryption and decryption with sender keys, and the
  distribution of a sender key. A record is loaded from the store, changed as a local value and
  stored again on success only.
\<close>

subsection \<open>Encryption\<close>

definition set_first_state :: "sender_key_state \<Rightarrow> sender_key_record \<Rightarrow> sender_key_record" where
  "set_first_state st rec = rec\<lparr>skrec_states := (skrec_states rec)[0 := st]\<rparr>"

definition group_encrypt ::
    "'r env \<Rightarrow> protocol_address \<Rightarrow> uuid \<Rightarrow> bytes \<Rightarrow> 'r world \<Rightarrow>
     (sender_key_message, signal_error) result \<times> 'r world" where
  "group_encrypt E sender distribution_id ptext w =
     (let (s, r) = w;
          invalid = InvalidSenderKeySession distribution_id in
      bindS (ok_or (NoSenderKeyState distribution_id) (load_sender_key sender distribution_id s), w) (\<lambda>rec w.
      bindS (map_err (\<lambda>_. invalid) (record_sender_key_state rec), w) (\<lambda>st w.
      bindS (if unat (state_message_version st) < 256 then Ok (ucast (state_message_version st) :: u8)
             else Err invalid, w) (\<lambda>message_version w.
      bindS (ok_or invalid (state_sender_chain_key st), w) (\<lambda>ck w.
      let message_keys = sender_message_key_of E ck in
      bindS (map_err (\<lambda>_. invalid)
              (aes_256_cbc_encrypt E ptext (smsg_cipher_key message_keys) (smsg_iv message_keys)), w) (\<lambda>ctext w.
      bindS (map_err (\<lambda>_. invalid) (signing_key_private E st), w) (\<lambda>signing_key w.
      let (skm, r') = SenderKeyMessage_new E message_version distribution_id (sks_chain_id st)
                        (smsg_iteration message_keys) ctext r signing_key in
      bindS (SenderChainKey_next E ck, (s, r')) (\<lambda>ck' _.
      let rec' = set_first_state (set_state_chain_key ck' st) rec
      in (Ok skm, (store_sender_key sender distribution_id rec' s, r'))))))))))"

subsection \<open>The key of a message\<close>

text \<open>The loop \<open>while sender_chain_key.iteration() < iteration\<close>.\<close>

function skip_sender_keys ::
    "'r env \<Rightarrow> u32 \<Rightarrow> sender_chain_key \<Rightarrow> sender_key_state \<Rightarrow>
     (sender_chain_key \<times> sender_key_state, signal_error) result" where
  "skip_sender_keys E iteration ck st =
     (if sch_iteration ck < iteration then
        let st' = add_sender_message_key (sender_message_key_of E ck) st in
        bindR (SenderChainKey_next E ck) (\<lambda>ck'.
        skip_sender_keys E iteration ck' st')
      else Ok (ck, st))"
  by pat_completeness auto
termination
proof (relation "measure (\<lambda>(E, iteration, ck, st). unat iteration - unat (sch_iteration ck))")
  fix E :: "'r env" and iteration and ck ck' :: sender_chain_key and st st' :: sender_key_state
  assume lt: "sch_iteration ck < iteration" and nx: "SenderChainKey_next E ck = Ok ck'"
  have "unat (sch_iteration ck) < unat iteration" using lt by (simp add: word_less_nat_alt)
  then show "((E, iteration, ck', st'), E, iteration, ck, st)
      \<in> measure (\<lambda>(E, iteration, ck, st). unat iteration - unat (sch_iteration ck))"
    using nx u32_lt_Suc(2) [OF lt] by (auto simp: SenderChainKey_next_def split: if_splits)
qed simp

declare skip_sender_keys.simps [simp del]

definition get_sender_key ::
    "'r env \<Rightarrow> sender_key_state \<Rightarrow> u32 \<Rightarrow> uuid \<Rightarrow> (sender_message_key \<times> sender_key_state, signal_error) result" where
  "get_sender_key E st iteration distribution_id =
     bindR (ok_or (InvalidSenderKeySession distribution_id) (state_sender_chain_key st)) (\<lambda>ck.
     let current_iteration = sch_iteration ck in
     if current_iteration > iteration then
       (case remove_sender_message_key E iteration st of
          (Some smk, st') \<Rightarrow> Ok (smk, st')
        | (None, _) \<Rightarrow> Err (DuplicatedMessage current_iteration iteration))
     else
       let jump = unat (iteration - current_iteration) in
       if jump > MAX_FORWARD_JUMPS
       then Err (InvalidMessage SenderKey ''message from too far into the future'')
       else
         bindR (skip_sender_keys E iteration ck st) (\<lambda>(ck', st').
         bindR (SenderChainKey_next E ck') (\<lambda>ck''.
         Ok (sender_message_key_of E ck', set_state_chain_key ck'' st'))))"

subsection \<open>Decryption\<close>

text \<open>Decryption with the record and the parsed message: the plaintext and the changed record.\<close>

definition group_decrypt_with_record ::
    "'r env \<Rightarrow> sender_key_message \<Rightarrow> sender_key_record \<Rightarrow> (bytes \<times> sender_key_record, signal_error) result" where
  "group_decrypt_with_record E skm rec =
     (let distribution_id = skm_distribution_id skm; chain_id = skm_chain_id skm in
      bindR (ok_or (NoSenderKeyState distribution_id) (sender_key_state_for_chain_id rec chain_id)) (\<lambda>(i, st).
      let message_version = ucast (skm_message_version skm) :: u32 in
      if message_version \<noteq> state_message_version st then Err (UnrecognizedMessageVersion message_version)
      else
        bindR (map_err (\<lambda>_. InvalidSenderKeySession distribution_id) (signing_key_public st)) (\<lambda>signing_key.
        bindR (SenderKeyMessage_verify_signature E skm signing_key) (\<lambda>valid.
        if \<not> valid then Err SignatureValidationFailed
        else
          bindR (get_sender_key E st (skm_iteration skm) distribution_id) (\<lambda>(sender_key, st').
          bindR (map_err (\<lambda>e. case e of
                    BadKeyOrIv \<Rightarrow> InvalidSenderKeySession distribution_id
                  | BadCiphertext _ \<Rightarrow> InvalidMessage SenderKey ''decryption failed'')
                  (aes_256_cbc_decrypt E (skm_ciphertext skm) (smsg_cipher_key sender_key) (smsg_iv sender_key)))
            (\<lambda>ptext. Ok (ptext, rec\<lparr>skrec_states := (skrec_states rec)[i := st']\<rparr>)))))))"

definition group_decrypt ::
    "'r env \<Rightarrow> bytes \<Rightarrow> protocol_address \<Rightarrow> protocol_store \<Rightarrow> (bytes, signal_error) result \<times> protocol_store" where
  "group_decrypt E skm_bytes sender s =
     bindS (SenderKeyMessage_try_from E skm_bytes, s) (\<lambda>skm s.
     let distribution_id = skm_distribution_id skm in
     bindS (ok_or (NoSenderKeyState distribution_id) (load_sender_key sender distribution_id s), s) (\<lambda>rec s.
     bindS (group_decrypt_with_record E skm rec, s) (\<lambda>(ptext, rec') s.
     (Ok ptext, store_sender_key sender distribution_id rec' s))))"

subsection \<open>Distribution\<close>

definition process_sender_key_distribution_message ::
    "protocol_address \<Rightarrow> sender_key_distribution_message \<Rightarrow> protocol_store \<Rightarrow> protocol_store" where
  "process_sender_key_distribution_message sender skdm s =
     (let distribution_id = skd_distribution_id skdm;
          rec = (case load_sender_key sender distribution_id s of
                   Some rec \<Rightarrow> rec | None \<Rightarrow> SenderKeyRecord_new_empty);
          rec' = add_sender_key_state (skd_message_version skdm) (skd_chain_id skdm) (skd_iteration skdm)
                   (skd_chain_key skdm) (skd_signing_key skdm) None rec
      in store_sender_key sender distribution_id rec' s)"

text \<open>The fresh record of \<open>create_sender_key_distribution_message\<close>: a random 31-bit chain id, key and key pair.\<close>

definition fresh_sender_key_record :: "'r env \<Rightarrow> 'r \<Rightarrow> sender_key_record \<times> 'r" where
  "fresh_sender_key_record E r =
     (let (n, r1) = rng_u32 E r;
          chain_id = drop_bit 1 n;
          iteration = 0;
          (sender_key, r2) = rng_random_bytes E 32 r1;
          (signing_key, r3) = KeyPair_generate E r2
      in (add_sender_key_state SENDERKEY_MESSAGE_CURRENT_VERSION chain_id iteration sender_key
            (kp_public_key signing_key) (Some (kp_private_key signing_key)) SenderKeyRecord_new_empty, r3))"

definition create_sender_key_distribution_message ::
    "'r env \<Rightarrow> protocol_address \<Rightarrow> uuid \<Rightarrow> 'r world \<Rightarrow>
     (sender_key_distribution_message, signal_error) result \<times> 'r world" where
  "create_sender_key_distribution_message E sender distribution_id w =
     (let (s, r) = w;
          invalid = InvalidSenderKeySession distribution_id;
          (rec, w') =
            (case load_sender_key sender distribution_id s of
               Some rec \<Rightarrow> (rec, w)
             | None \<Rightarrow> (let (rec, r') = fresh_sender_key_record E r
                       in (rec, (store_sender_key sender distribution_id rec s, r'))))
      in (bindR (map_err (\<lambda>_. invalid) (record_sender_key_state rec)) (\<lambda>st.
          bindR (ok_or invalid (state_sender_chain_key st)) (\<lambda>ck.
          bindR (if unat (state_message_version st) < 256 then Ok (ucast (state_message_version st) :: u8)
                 else Err invalid) (\<lambda>message_version.
          bindR (map_err (\<lambda>_. invalid) (signing_key_public st)) (\<lambda>signing_key.
          Ok (SenderKeyDistributionMessage_new E message_version distribution_id (sks_chain_id st)
                (sch_iteration ck) (sch_chain_key ck) signing_key))))), w'))"

end
