(* ===== verification/Group_Correctness.thy ===== *)
theory Group_Correctness
  imports Group_Cipher
begin

text \<open>
  Correctness of group messaging. A member's state tracks the sender's chain when its chain key
  and every stored key lie on that chain. The key chosen for an iteration is then the sender's key
  of that iteration, a used iteration is refused, the record invariant is kept, errors leave the
  store as it was, and the messages of one chain decrypt in every order of delivery.
\<close>

subsection \<open>The skip loop\<close>

definition sender_step :: "'r env \<Rightarrow> sender_chain_key \<Rightarrow> sender_chain_key" where
  "sender_step E ck = \<lparr>sch_iteration = sch_iteration ck + 1, sch_chain_key = get_derivative E ck 0x02\<rparr>"

lemma SenderChainKey_next_eq:
  "SenderChainKey_next E ck =
     (if sch_iteration ck = - 1 then Err (InvalidState ''sender_chain_key_next'' ''Sender chain is too long'')
      else Ok (sender_step E ck))"
  by (simp add: SenderChainKey_next_def sender_step_def)

interpretation sender_chain: symmetric_chain sch_iteration "sender_step E" for E :: "'r env"
  by unfold_locales (simp add: sender_step_def)

abbreviation sender_walk :: "'r env \<Rightarrow> sender_chain_key \<Rightarrow> u32 \<Rightarrow> sender_chain_key list" where
  "sender_walk E \<equiv> symmetric_chain.walk sch_iteration (sender_step E)"

abbreviation sender_reach :: "'r env \<Rightarrow> sender_chain_key \<Rightarrow> u32 \<Rightarrow> sender_chain_key" where
  "sender_reach E \<equiv> symmetric_chain.reach sch_iteration (sender_step E)"

definition stored_key :: "'r env \<Rightarrow> sender_chain_key \<Rightarrow> pb_sender_message_key" where
  "stored_key E ck = SenderMessageKey_as_protobuf (sender_message_key_of E ck)"

lemma stored_key_iteration [simp]: "smk_iteration (stored_key E ck) = sch_iteration ck"
  by (simp add: stored_key_def SenderMessageKey_as_protobuf_def sender_message_key_of_def
      SenderMessageKey_new_def Let_def)

lemma from_stored_key [simp]: "SenderMessageKey_from_protobuf E (stored_key E ck) = sender_message_key_of E ck"
  by (simp add: stored_key_def SenderMessageKey_as_protobuf_def sender_message_key_of_def
      SenderMessageKey_new_def SenderMessageKey_from_protobuf_def Let_def)

definition passed_keys :: "'r env \<Rightarrow> sender_chain_key \<Rightarrow> u32 \<Rightarrow> pb_sender_message_key list" where
  "passed_keys E ck n = map (stored_key E) (sender_walk E ck n)"

lemma passed_keys_bounds:
  "k \<in> set (passed_keys E ck n) \<Longrightarrow> sch_iteration ck \<le> smk_iteration k \<and> smk_iteration k < n"
  using sender_chain.walk_bounds by (fastforce simp: passed_keys_def)

lemma distinct_passed_keys: "distinct (map smk_iteration (passed_keys E ck n))"
  using sender_chain.distinct_walk [of E ck n] by (simp add: passed_keys_def comp_def)

lemma passed_keys_hit: "sch_iteration ck \<le> j \<Longrightarrow> j < n \<Longrightarrow> j \<in> smk_iteration ` set (passed_keys E ck n)"
  using sender_chain.walk_hits [of ck j n E] by (force simp: passed_keys_def)

lemma passed_keys_reach:
  assumes "sch_iteration ck0 \<le> p" "p \<le> n" "k \<in> set (passed_keys E (sender_reach E ck0 p) n)"
  shows "k = stored_key E (sender_reach E ck0 (smk_iteration k))"
proof -
  obtain d where d: "d \<in> set (sender_walk E (sender_reach E ck0 p) n)" "k = stored_key E d"
    using assms(3) by (auto simp: passed_keys_def)
  have "p \<le> sch_iteration d"
    using sender_chain.walk_bounds [OF d(1)] by (simp add: sender_chain.idx_reach [OF assms(1)])
  then have "d = sender_reach E ck0 (sch_iteration d)"
    using sender_chain.walk_reach [OF d(1)] by (simp add: sender_chain.reach_reach [OF assms(1)])
  then show ?thesis by (simp add: d(2))
qed

text \<open>The loop never fails: below the wanted iteration the counter is not exhausted.\<close>

lemma skip_sender_keys_spec:
  "skip_sender_keys E n ck st =
     Ok (sender_reach E ck n,
         st\<lparr>sks_sender_message_keys :=
              fold push_sender_message_key (passed_keys E ck n) (sks_sender_message_keys st)\<rparr>)"
proof (induction E n ck st rule: skip_sender_keys.induct)
  case (1 E n ck st)
  show ?case
  proof (cases "sch_iteration ck < n")
    case True
    have nw: "sch_iteration ck \<noteq> - 1" using True by auto
    then have nx: "SenderChainKey_next E ck = Ok (sender_step E ck)" by (simp add: SenderChainKey_next_eq)
    have "sch_iteration ck + 1 \<le> n" using u32_lt_Suc(1) [OF True] .
    then have "sender_reach E (sender_step E ck) n = sender_reach E ck n"
      using sender_chain.reach_reach [of ck "sch_iteration ck + 1" n E]
        sender_chain.nxt_reach [of ck "sch_iteration ck" E] nw u32_Suc_no_wrap(2) [OF nw] by simp
    then show ?thesis
      using "1.IH" [OF True refl nx] True nx
      by (simp add: skip_sender_keys.simps [of E n ck st] passed_keys_def sender_chain.walk_step [OF True]
          add_sender_message_key_def stored_key_def)
  next
    case False
    then show ?thesis
      by (simp add: skip_sender_keys.simps [of E n ck st] passed_keys_def sender_chain.walk_done
          sender_chain.reach_def word_less_nat_alt)
  qed
qed

subsection \<open>The key of an iteration\<close>

definition advanced_state :: "'r env \<Rightarrow> sender_chain_key \<Rightarrow> u32 \<Rightarrow> sender_key_state \<Rightarrow> sender_key_state" where
  "advanced_state E ck n st =
     st\<lparr>sks_sender_message_keys :=
          fold push_sender_message_key (passed_keys E ck n) (sks_sender_message_keys st),
        sks_sender_chain_key := Some (SenderChainKey_as_protobuf (sender_step E (sender_reach E ck n)))\<rparr>"

lemma get_sender_key_ahead:
  assumes "state_sender_chain_key st = Some ck" "sch_iteration ck \<le> n" "n \<noteq> - 1"
    "unat n - unat (sch_iteration ck) \<le> MAX_FORWARD_JUMPS"
  shows "get_sender_key E st n d = Ok (sender_message_key_of E (sender_reach E ck n), advanced_state E ck n st)"
  using assms unat_sub [OF assms(2)] leD [OF assms(2)]
  by (simp add: get_sender_key_def Let_def skip_sender_keys_spec SenderChainKey_next_eq sender_chain.idx_reach
      advanced_state_def set_state_chain_key_def)

lemma get_sender_key_too_far:
  assumes "state_sender_chain_key st = Some ck" "sch_iteration ck \<le> n"
    "MAX_FORWARD_JUMPS < unat n - unat (sch_iteration ck)"
  shows "get_sender_key E st n d = Err (InvalidMessage SenderKey ''message from too far into the future'')"
  using assms unat_sub [OF assms(2)] leD [OF assms(2)] by (simp add: get_sender_key_def Let_def)

text \<open>The last iteration of a chain can be encrypted by nobody and decrypted by nobody.\<close>

lemma get_sender_key_exhausted:
  assumes "state_sender_chain_key st = Some ck" "unat (- 1 - sch_iteration ck) \<le> MAX_FORWARD_JUMPS"
  shows "get_sender_key E st (- 1) d =
    Err (InvalidState ''sender_chain_key_next'' ''Sender chain is too long'')"
proof -
  have le: "sch_iteration ck \<le> - 1" by simp
  show ?thesis
    using assms leD [OF le]
    by (simp add: get_sender_key_def Let_def skip_sender_keys_spec SenderChainKey_next_eq
        sender_chain.idx_reach [OF le])
qed

lemma get_sender_key_last:
  "get_sender_key E st (- 1) d =
     (case state_sender_chain_key st of
        None \<Rightarrow> Err (InvalidSenderKeySession d)
      | Some ck \<Rightarrow>
          if unat (- 1 - sch_iteration ck) > MAX_FORWARD_JUMPS
          then Err (InvalidMessage SenderKey ''message from too far into the future'')
          else Err (InvalidState ''sender_chain_key_next'' ''Sender chain is too long''))"
proof (cases "state_sender_chain_key st")
  case (Some ck)
  have le: "sch_iteration ck \<le> - 1" by simp
  note sub = unat_sub [OF le]
  show ?thesis
  proof (cases "unat (- 1 - sch_iteration ck) > MAX_FORWARD_JUMPS")
    case True
    then show ?thesis using get_sender_key_too_far [OF Some le, unfolded sub [symmetric]] Some by (simp del: unat_minus_one)
  next
    case False
    then show ?thesis using get_sender_key_exhausted [OF Some, of E d] Some by (simp add: not_less)
  qed
qed (simp add: get_sender_key_def)

lemma get_sender_key_behind:
  assumes "state_sender_chain_key st = Some ck" "n < sch_iteration ck"
  shows "get_sender_key E st n d =
    (case position (\<lambda>x. smk_iteration x = n) (sks_sender_message_keys st) of
       None \<Rightarrow> Err (DuplicatedMessage (sch_iteration ck) n)
     | Some p \<Rightarrow> Ok (SenderMessageKey_from_protobuf E (sks_sender_message_keys st ! p),
         st\<lparr>sks_sender_message_keys := remove_nth p (sks_sender_message_keys st)\<rparr>))"
  using assms by (simp add: get_sender_key_def remove_sender_message_key_def split: option.split)

lemma get_sender_key_cases:
  assumes "get_sender_key E st n d = Ok (smk, st')"
  obtains
    (stored) ck p where "state_sender_chain_key st = Some ck" "n < sch_iteration ck"
      "p < length (sks_sender_message_keys st)" "smk_iteration (sks_sender_message_keys st ! p) = n"
      "smk = SenderMessageKey_from_protobuf E (sks_sender_message_keys st ! p)"
      "st' = st\<lparr>sks_sender_message_keys := remove_nth p (sks_sender_message_keys st)\<rparr>"
  | (ahead) ck where "state_sender_chain_key st = Some ck" "sch_iteration ck \<le> n" "n \<noteq> - 1"
      "unat n - unat (sch_iteration ck) \<le> MAX_FORWARD_JUMPS"
      "smk = sender_message_key_of E (sender_reach E ck n)" "st' = advanced_state E ck n st"
proof -
  obtain ck where ck: "state_sender_chain_key st = Some ck"
    using assms by (auto simp: get_sender_key_def result_simps)
  show thesis
  proof (cases "n < sch_iteration ck")
    case True
    then show thesis
      using assms stored [OF ck] unfolding get_sender_key_behind [OF ck True]
      by (auto simp: position_Some split: option.splits)
  next
    case False
    then have le: "sch_iteration ck \<le> n" by simp
    have bound: "unat n - unat (sch_iteration ck) \<le> MAX_FORWARD_JUMPS"
      using assms get_sender_key_too_far [OF ck le, of E d] by fastforce
    moreover have "n \<noteq> - 1"
    proof
      assume "n = - 1"
      then show False
        using assms get_sender_key_exhausted [OF ck, of E d] bound unat_sub [OF le] by simp
    qed
    ultimately show thesis
      using assms ahead [OF ck le] get_sender_key_ahead [OF ck le, of E d] by simp
  qed
qed

text \<open>The state lies on the sender's chain that starts with \<open>ck0\<close>.\<close>

definition sender_tracks :: "'r env \<Rightarrow> sender_chain_key \<Rightarrow> sender_key_state \<Rightarrow> bool" where
  "sender_tracks E ck0 st \<longleftrightarrow>
     (\<exists>p. sch_iteration ck0 \<le> p \<and>
       sks_sender_chain_key st = Some (SenderChainKey_as_protobuf (sender_reach E ck0 p))) \<and>
     (\<forall>k \<in> set (sks_sender_message_keys st). k = stored_key E (sender_reach E ck0 (smk_iteration k)))"

definition sender_consumed :: "sender_key_state \<Rightarrow> u32 \<Rightarrow> bool" where
  "sender_consumed st n \<longleftrightarrow>
     (\<exists>ck. state_sender_chain_key st = Some ck \<and> n < sch_iteration ck) \<and>
     n \<notin> smk_iteration ` set (sks_sender_message_keys st)"

lemma state_chain_key_protobuf [simp]:
  "sks_sender_chain_key st = Some (SenderChainKey_as_protobuf ck) \<Longrightarrow> state_sender_chain_key st = Some ck"
  by (simp add: state_sender_chain_key_def SenderChainKey_as_protobuf_def)

lemma state_chain_key_SomeD:
  "state_sender_chain_key st = Some ck \<Longrightarrow> sks_sender_chain_key st = Some (SenderChainKey_as_protobuf ck)"
  by (auto simp: state_sender_chain_key_def SenderChainKey_as_protobuf_def)

lemma advanced_state_simps [simp]:
  "state_sender_chain_key (advanced_state E ck n st) = Some (sender_step E (sender_reach E ck n))"
  "sks_sender_message_keys (advanced_state E ck n st) =
     fold push_sender_message_key (passed_keys E ck n) (sks_sender_message_keys st)"
  "sks_chain_id (advanced_state E ck n st) = sks_chain_id st"
  "sks_message_version (advanced_state E ck n st) = sks_message_version st"
  "sks_sender_signing_key (advanced_state E ck n st) = sks_sender_signing_key st"
  by (simp_all add: advanced_state_def)

lemma sender_tracks_chain_key:
  assumes "sender_tracks E ck0 st" "state_sender_chain_key st = Some ck"
  shows "ck = sender_reach E ck0 (sch_iteration ck)" "sch_iteration ck0 \<le> sch_iteration ck"
proof -
  obtain p where p: "sch_iteration ck0 \<le> p"
    "sks_sender_chain_key st = Some (SenderChainKey_as_protobuf (sender_reach E ck0 p))"
    using assms(1) by (auto simp: sender_tracks_def)
  then have ck: "ck = sender_reach E ck0 p" using assms(2) by simp
  then have "sch_iteration ck = p" using p(1) by (simp add: sender_chain.idx_reach)
  then show "ck = sender_reach E ck0 (sch_iteration ck)" "sch_iteration ck0 \<le> sch_iteration ck"
    using ck p(1) by simp_all
qed

lemma sender_tracks_advanced:
  assumes "sender_tracks E ck0 st" "state_sender_chain_key st = Some ck" "sch_iteration ck \<le> n" "n \<noteq> - 1"
  shows "sender_tracks E ck0 (advanced_state E ck n st)" "sender_reach E ck n = sender_reach E ck0 n"
proof -
  note t = sender_tracks_chain_key [OF assms(1,2)]
  show reach: "sender_reach E ck n = sender_reach E ck0 n"
    using sender_chain.reach_reach [OF t(2) assms(3), of E] unfolding t(1) [symmetric] .
  have le: "sch_iteration ck0 \<le> n" using t(2) assms(3) by simp
  have "\<forall>k \<in> set (passed_keys E ck n). k = stored_key E (sender_reach E ck0 (smk_iteration k))"
    using passed_keys_reach [OF t(2) assms(3), of _ E] unfolding t(1) [symmetric] by blast
  then have "\<forall>k \<in> set (sks_sender_message_keys (advanced_state E ck n st)).
      k = stored_key E (sender_reach E ck0 (smk_iteration k))"
    using assms(1) unfolding advanced_state_simps
    by (intro sender_message_key_buffer.push_many_all) (simp_all add: sender_tracks_def)
  moreover have "sender_step E (sender_reach E ck n) = sender_reach E ck0 (n + 1)"
    unfolding reach by (rule sender_chain.nxt_reach [OF le assms(4)])
  moreover have "sch_iteration ck0 \<le> n + 1" using le u32_Suc_no_wrap(2) [OF assms(4)] by simp
  ultimately show "sender_tracks E ck0 (advanced_state E ck n st)"
    by (auto simp: sender_tracks_def advanced_state_def)
qed

lemma sender_state_ok_advanced:
  assumes "sender_state_ok st" "state_sender_chain_key st = Some ck" "sch_iteration ck \<le> n" "n \<noteq> - 1"
  shows "sender_state_ok (advanced_state E ck n st)" "sender_consumed (advanced_state E ck n st) n"
    "sender_consumed st j \<Longrightarrow> sender_consumed (advanced_state E ck n st) j"
proof -
  let ?ks = "fold push_sender_message_key (passed_keys E ck n) (sks_sender_message_keys st)"
  note chain = state_chain_key_SomeD [OF assms(2)]
  have idx: "sch_iteration (sender_step E (sender_reach E ck n)) = n + 1"
    by (simp add: sender_chain.idx_nxt sender_chain.idx_reach [OF assms(3)])
  have lt: "n < n + 1" using assms(4) by (rule u32_Suc_no_wrap(2))
  have old: "\<forall>k \<in> set (sks_sender_message_keys st). smk_iteration k < sch_iteration ck"
    using assms(1) chain by (auto simp: sender_state_ok_def SenderChainKey_as_protobuf_def)
  have sub: "set ?ks \<subseteq> set (passed_keys E ck n) \<union> set (sks_sender_message_keys st)"
    by (rule sender_message_key_buffer.push_many_subset)
  have below: "\<forall>k \<in> set ?ks. smk_iteration k < n"
    using sub old passed_keys_bounds [of _ E ck n] assms(3) by fastforce
  have "distinct (map smk_iteration ?ks)"
    using assms(1) old passed_keys_bounds [of _ E ck n]
    by (intro sender_message_key_buffer.push_many_distinct distinct_passed_keys)
      (auto simp: sender_state_ok_def, fastforce)
  moreover have "length ?ks \<le> MAX_MESSAGE_KEYS"
    using assms(1) by (intro sender_message_key_buffer.push_many_bound) (simp add: sender_state_ok_def)
  ultimately show "sender_state_ok (advanced_state E ck n st)"
    using below lt idx by (auto simp: sender_state_ok_def advanced_state_def SenderChainKey_as_protobuf_def)
  show "sender_consumed (advanced_state E ck n st) n"
    using below lt idx by (auto simp: sender_consumed_def)
  assume "sender_consumed st j"
  then have j: "j < sch_iteration ck" "j \<notin> smk_iteration ` set (sks_sender_message_keys st)"
    using assms(2) by (auto simp: sender_consumed_def)
  then have "j \<notin> smk_iteration ` set ?ks" using sub passed_keys_bounds [of _ E ck n] by fastforce
  moreover have "j < n + 1" using j(1) assms(3) lt by simp
  ultimately show "sender_consumed (advanced_state E ck n st) j" by (simp add: sender_consumed_def idx)
qed

lemma sender_state_ok_remove:
  assumes "sender_state_ok st" "p < length (sks_sender_message_keys st)"
  defines "st' \<equiv> st\<lparr>sks_sender_message_keys := remove_nth p (sks_sender_message_keys st)\<rparr>"
  shows "sender_state_ok st'" "sender_consumed st' (smk_iteration (sks_sender_message_keys st ! p))"
    "sender_consumed st j \<Longrightarrow> sender_consumed st' j"
proof -
  have dist: "distinct (map smk_iteration (sks_sender_message_keys st))"
    using assms(1) by (simp add: sender_state_ok_def)
  have "map smk_iteration (sks_sender_message_keys st) ! p \<notin>
      set (remove_nth p (map smk_iteration (sks_sender_message_keys st)))"
    using dist assms(2) by (intro remove_nth_notin) auto
  then show "sender_consumed st' (smk_iteration (sks_sender_message_keys st ! p))"
    using assms(1,2) by (auto simp: sender_consumed_def sender_state_ok_def st'_def map_remove_nth [symmetric]
        state_sender_chain_key_def)
  show "sender_state_ok st'"
    using assms(1,2) dist set_remove_nth [of p "sks_sender_message_keys st"]
      distinct_remove_nth [OF dist, of p]
    by (auto simp: sender_state_ok_def st'_def length_remove_nth map_remove_nth)
  show "sender_consumed st j \<Longrightarrow> sender_consumed st' j"
    using set_remove_nth [of p "sks_sender_message_keys st"]
    by (auto simp: sender_consumed_def st'_def state_sender_chain_key_def)
qed

text \<open>One successful use of a state, with everything it preserves.\<close>

definition same_sender :: "sender_key_state \<Rightarrow> sender_key_state \<Rightarrow> bool" where
  "same_sender st st' \<longleftrightarrow>
     sks_chain_id st' = sks_chain_id st \<and> sks_message_version st' = sks_message_version st \<and>
     sks_sender_signing_key st' = sks_sender_signing_key st"

lemma get_sender_key_step:
  assumes "sender_state_ok st" "get_sender_key E st n d = Ok (smk, st')"
  obtains "sender_state_ok st'" "sender_consumed st' n" "\<And>j. sender_consumed st j \<Longrightarrow> sender_consumed st' j"
    "\<And>ck0. sender_tracks E ck0 st \<Longrightarrow>
       smk = sender_message_key_of E (sender_reach E ck0 n) \<and> sender_tracks E ck0 st'"
    "same_sender st st'"
  using assms(2)
proof (cases rule: get_sender_key_cases)
  case (stored ck p)
  have tracks: "smk = sender_message_key_of E (sender_reach E ck0 n) \<and> sender_tracks E ck0 st'"
    if tr: "sender_tracks E ck0 st" for ck0
  proof -
    have "sks_sender_message_keys st ! p = stored_key E (sender_reach E ck0 n)"
      using tr stored(3,4) by (metis sender_tracks_def nth_mem)
    then show ?thesis
      using tr stored(5,6) set_remove_nth [of p "sks_sender_message_keys st"] by (auto simp: sender_tracks_def)
  qed
  show thesis
    using that sender_state_ok_remove [OF assms(1) stored(3)] tracks
    unfolding stored(4,6) by (simp add: same_sender_def)
next
  case (ahead ck)
  show thesis
    using that sender_state_ok_advanced [OF assms(1) ahead(1,2,3), where E = E]
      sender_tracks_advanced [OF _ ahead(1,2,3), where E = E]
    unfolding ahead(5,6) by (simp add: same_sender_def)
qed

lemma sender_consumed_is_duplicate:
  assumes "sender_consumed st n"
  shows "\<exists>i. get_sender_key E st n d = Err (DuplicatedMessage i n)"
proof -
  obtain ck where ck: "state_sender_chain_key st = Some ck" "n < sch_iteration ck"
    "\<forall>k \<in> set (sks_sender_message_keys st). smk_iteration k \<noteq> n"
    using assms by (auto simp: sender_consumed_def)
  then have "position (\<lambda>x. smk_iteration x = n) (sks_sender_message_keys st) = None"
    by (simp add: position_None)
  then show ?thesis using get_sender_key_behind [OF ck(1,2), of E d] by simp
qed

subsection \<open>Decryption with a record\<close>

lemma sender_key_state_for_chain_id_Some:
  "sender_key_state_for_chain_id rec cid = Some (i, st) \<longleftrightarrow>
     i < length (skrec_states rec) \<and> st = skrec_states rec ! i \<and> sks_chain_id st = cid \<and>
     (\<forall>j < i. sks_chain_id (skrec_states rec ! j) \<noteq> cid)"
  by (auto simp: sender_key_state_for_chain_id_def position_Some)

lemma sender_key_state_for_chain_id_update:
  assumes "sender_key_state_for_chain_id rec cid = Some (i, st)" "sks_chain_id st' = cid"
  shows "sender_key_state_for_chain_id (rec\<lparr>skrec_states := (skrec_states rec)[i := st']\<rparr>) cid = Some (i, st')"
  using assms by (auto simp: sender_key_state_for_chain_id_Some nth_list_update)

lemma sender_record_ok_update:
  assumes "sender_record_ok rec" "i < length (skrec_states rec)"
    "sks_chain_id st' = sks_chain_id (skrec_states rec ! i)" "sender_state_ok st'"
  shows "sender_record_ok (rec\<lparr>skrec_states := (skrec_states rec)[i := st']\<rparr>)"
proof -
  have "map sks_chain_id ((skrec_states rec)[i := st']) = map sks_chain_id (skrec_states rec)"
    using assms(2,3) by (simp add: map_update list_update_same_conv)
  then show ?thesis
    using assms set_update_subset_insert [of "skrec_states rec" i st'] by (auto simp: sender_record_ok_def)
qed

lemma group_decrypt_with_record_cases:
  assumes "group_decrypt_with_record E skm rec = Ok (ptext, rec')"
  obtains i st pk smk st' where
    "sender_key_state_for_chain_id rec (skm_chain_id skm) = Some (i, st)"
    "ucast (skm_message_version skm) = state_message_version st"
    "signing_key_public st = Ok pk" "SenderKeyMessage_verify_signature E skm pk = Ok True"
    "get_sender_key E st (skm_iteration skm) (skm_distribution_id skm) = Ok (smk, st')"
    "aes_256_cbc_decrypt E (skm_ciphertext skm) (smsg_cipher_key smk) (smsg_iv smk) = Ok ptext"
    "rec' = rec\<lparr>skrec_states := (skrec_states rec)[i := st']\<rparr>"
  using assms
  by (auto simp: group_decrypt_with_record_def Let_def result_simps split: if_splits)

lemma group_decrypt_with_record_step:
  assumes "sender_record_ok rec" "group_decrypt_with_record E skm rec = Ok (ptext, rec')"
  obtains i st' where "sender_record_ok rec'"
    "sender_key_state_for_chain_id rec' (skm_chain_id skm) = Some (i, st')" "sender_consumed st' (skm_iteration skm)"
    "\<exists>n. group_decrypt_with_record E skm rec' = Err (DuplicatedMessage n (skm_iteration skm))"
  using assms(2)
proof (cases rule: group_decrypt_with_record_cases)
  case (1 i st pk smk st')
  note found = 1(1) [unfolded sender_key_state_for_chain_id_Some]
  have ok: "sender_state_ok st" using assms(1) found by (auto simp: sender_record_ok_def)
  show thesis
    using ok 1(5)
  proof (cases rule: get_sender_key_step)
    case step: 1
    have chain: "sks_chain_id st' = skm_chain_id skm" using step(5) found by (auto simp: same_sender_def)
    have look: "sender_key_state_for_chain_id rec' (skm_chain_id skm) = Some (i, st')"
      unfolding 1(7) using 1(1) chain by (rule sender_key_state_for_chain_id_update)
    obtain n where "get_sender_key E st' (skm_iteration skm) (skm_distribution_id skm) =
        Err (DuplicatedMessage n (skm_iteration skm))"
      using sender_consumed_is_duplicate [OF step(2)] by blast
    then have "\<exists>n. group_decrypt_with_record E skm rec' = Err (DuplicatedMessage n (skm_iteration skm))"
      using look 1(2,3,4) step(5)
      by (simp add: group_decrypt_with_record_def same_sender_def state_message_version_def
          signing_key_public_def)
    moreover have "sender_record_ok rec'"
      unfolding 1(7) using assms(1) found step(1,5) by (intro sender_record_ok_update) (auto simp: same_sender_def)
    ultimately show thesis using that look step(2) by blast
  qed
qed

subsection \<open>The stores\<close>

definition group_store_ok :: "protocol_store \<Rightarrow> bool" where
  "group_store_ok s \<longleftrightarrow> (\<forall>a d rec. load_sender_key a d s = Some rec \<longrightarrow> sender_record_ok rec)"

lemma load_store_sender_key:
  "load_sender_key a d (store_sender_key b e rec s) = (if (a, d) = (b, e) then Some rec else load_sender_key a d s)"
  using sender_keys.load_store [of "(a, d)" "(b, e)" rec s] by simp

lemma group_store_ok_store:
  "group_store_ok s \<Longrightarrow> sender_record_ok rec \<Longrightarrow> group_store_ok (store_sender_key a d rec s)"
  by (auto simp: group_store_ok_def load_store_sender_key split: if_splits)

lemma group_decrypt_cases:
  assumes "group_decrypt E bs sender s = (Ok ptext, s')"
  obtains skm rec rec' where "SenderKeyMessage_try_from E bs = Ok skm"
    "load_sender_key sender (skm_distribution_id skm) s = Some rec"
    "group_decrypt_with_record E skm rec = Ok (ptext, rec')"
    "s' = store_sender_key sender (skm_distribution_id skm) rec' s"
proof (cases "SenderKeyMessage_try_from E bs")
  case (Ok skm)
  obtain rec where rec: "load_sender_key sender (skm_distribution_id skm) s = Some rec"
    using assms Ok by (cases "load_sender_key sender (skm_distribution_id skm) s") (auto simp: group_decrypt_def Let_def)
  show thesis
    using assms Ok rec that
    by (cases "group_decrypt_with_record E skm rec") (auto simp: group_decrypt_def Let_def)
qed (use assms in \<open>auto simp: group_decrypt_def\<close>)

lemma group_decrypt_frame:
  assumes "group_decrypt E bs sender s = (res, s')"
  shows "is_ok res \<or> s' = s"
proof (cases "SenderKeyMessage_try_from E bs")
  case (Ok skm)
  show ?thesis
  proof (cases "load_sender_key sender (skm_distribution_id skm) s")
    case (Some rec)
    show ?thesis
      using assms Ok Some by (cases "group_decrypt_with_record E skm rec") (auto simp: group_decrypt_def Let_def)
  qed (use assms Ok in \<open>auto simp: group_decrypt_def Let_def\<close>)
qed (use assms in \<open>auto simp: group_decrypt_def\<close>)

lemma group_decrypt_store_ok:
  assumes "group_store_ok s" "group_decrypt E bs sender s = (res, s')"
  shows "group_store_ok s'"
proof (cases "is_ok res")
  case True
  then obtain ptext where "group_decrypt E bs sender s = (Ok ptext, s')" using assms(2) by (cases res) auto
  then show ?thesis
  proof (cases rule: group_decrypt_cases)
    case (1 skm rec rec')
    have "sender_record_ok rec" using assms(1) 1(2) by (auto simp: group_store_ok_def)
    then have "sender_record_ok rec'" using 1(3) by (rule group_decrypt_with_record_step)
    then show ?thesis using assms(1) 1(4) by (simp add: group_store_ok_store)
  qed
next
  case False
  then show ?thesis using group_decrypt_frame [OF assms(2)] assms(1) by simp
qed

lemma group_decrypt_replay:
  assumes "group_store_ok s" "group_decrypt E bs sender s = (Ok ptext, s')"
  shows "\<exists>i n. group_decrypt E bs sender s' = (Err (DuplicatedMessage i n), s')"
  using assms(2)
proof (cases rule: group_decrypt_cases)
  case (1 skm rec rec')
  have "sender_record_ok rec" using assms(1) 1(2) by (auto simp: group_store_ok_def)
  then obtain n where "group_decrypt_with_record E skm rec' = Err (DuplicatedMessage n (skm_iteration skm))"
    using 1(3) by (rule group_decrypt_with_record_step) blast
  then show ?thesis using 1(1,4) by (auto simp: group_decrypt_def load_store_sender_key)
qed

subsection \<open>Messages of the sender\<close>

lemma signing_key_public_no_panic [simp]: "signing_key_public st \<noteq> Panic"
  by (auto simp: signing_key_public_def result_simps split: option.split)

text \<open>Delivering the last iteration fails in every store, and changes none.\<close>

lemma group_decrypt_last:
  assumes "SenderKeyMessage_try_from E bs = Ok skm" "skm_iteration skm = - 1"
  shows "\<exists>e. group_decrypt E bs a s = (Err e, s)"
proof -
  have "SIGNATURE_LEN \<le> length (skm_serialized skm)"
    using assms(1) by (auto simp: SenderKeyMessage_try_from_def Let_def result_simps split: if_splits)
  then obtain valid where valid: "SenderKeyMessage_verify_signature E skm k = Ok (valid k)" for k
    by (simp add: SenderKeyMessage_verify_signature_def Let_def)
  have key: "\<exists>e. get_sender_key E st (- 1) d = Err e" for st d
    by (auto simp: get_sender_key_last split: option.split)
  have "\<exists>e. group_decrypt_with_record E skm rec = Err e" for rec
  proof (cases "sender_key_state_for_chain_id rec (skm_chain_id skm)")
    case (Some x)
    obtain i st where x: "x = (i, st)" by (rule prod.exhaust)
    show ?thesis
      using key [of st "skm_distribution_id skm"]
      by (cases "signing_key_public st") (auto simp: group_decrypt_with_record_def Let_def assms(2) valid Some x)
  qed (simp add: group_decrypt_with_record_def)
  then obtain e where "group_decrypt_with_record E skm rec = Err (e rec)" for rec by metis
  then show ?thesis
    using assms(1) by (cases "load_sender_key a (skm_distribution_id skm) s") (simp_all add: group_decrypt_def Let_def)
qed

lemma group_encrypt_cases:
  assumes "group_encrypt E a d ptext (s, r) = (Ok skm, (s', r'))"
  obtains rec st rest ck ct sk where
    "load_sender_key a d s = Some rec" "skrec_states rec = st # rest"
    "unat (state_message_version st) < 256" "state_sender_chain_key st = Some ck" "sch_iteration ck \<noteq> - 1"
    "aes_256_cbc_encrypt E ptext (smsg_cipher_key (sender_message_key_of E ck))
       (smsg_iv (sender_message_key_of E ck)) = Ok ct"
    "signing_key_private E st = Ok sk"
    "SenderKeyMessage_new E (ucast (state_message_version st)) d (sks_chain_id st) (sch_iteration ck) ct r sk = (skm, r')"
    "s' = store_sender_key a d (rec\<lparr>skrec_states := set_state_chain_key (sender_step E ck) st # rest\<rparr>) s"
proof -
  obtain rec where rec: "load_sender_key a d s = Some rec"
    using assms by (cases "load_sender_key a d s") (auto simp: group_encrypt_def Let_def)
  obtain st rest where st: "skrec_states rec = st # rest"
    using assms rec by (cases "skrec_states rec") (auto simp: group_encrypt_def Let_def record_sender_key_state_def)
  note unf = group_encrypt_def Let_def record_sender_key_state_def
  have v: "unat (state_message_version st) < 256"
    using assms rec st by (auto simp: unf split: if_splits)
  obtain ck where ck: "state_sender_chain_key st = Some ck"
    using assms rec st v by (cases "state_sender_chain_key st") (auto simp: unf)
  have it: "smsg_iteration (sender_message_key_of E ck) = sch_iteration ck"
    by (simp add: sender_message_key_of_def SenderMessageKey_new_def Let_def)
  obtain ct where ct: "aes_256_cbc_encrypt E ptext (smsg_cipher_key (sender_message_key_of E ck))
       (smsg_iv (sender_message_key_of E ck)) = Ok ct"
    using assms rec st v ck
    by (cases "aes_256_cbc_encrypt E ptext (smsg_cipher_key (sender_message_key_of E ck))
       (smsg_iv (sender_message_key_of E ck))") (auto simp: unf)
  obtain sk where sk: "signing_key_private E st = Ok sk"
    using assms rec st v ck ct by (cases "signing_key_private E st") (auto simp: unf)
  obtain m r1 where m: "SenderKeyMessage_new E (ucast (state_message_version st)) d (sks_chain_id st)
      (sch_iteration ck) ct r sk = (m, r1)" by fastforce
  show thesis
    using assms rec st v ck ct sk m it that
    by (auto simp: unf SenderChainKey_next_eq set_first_state_def split: if_splits)
qed

lemma group_encrypt_frame:
  assumes "group_encrypt E a d ptext (s, r) = (res, (s', r'))"
  shows "is_ok res \<or> s' = s"
  using assms
  by (auto simp: group_encrypt_def Let_def bindS_def split: prod.splits result.splits if_splits)

text \<open>What a member sees of a message that was encrypted with the chain key \<open>ck\<close>.\<close>

definition authentic ::
    "'r env \<Rightarrow> uuid \<Rightarrow> u32 \<Rightarrow> public_key \<Rightarrow> sender_chain_key \<Rightarrow> bytes \<Rightarrow> sender_key_message \<Rightarrow> bool" where
  "authentic E d cid pk ck ptext skm \<longleftrightarrow>
     SenderKeyMessage_try_from E (skm_serialized skm) = Ok skm \<and>
     SenderKeyMessage_verify_signature E skm pk = Ok True \<and>
     skm_message_version skm = 3 \<and> skm_distribution_id skm = d \<and> skm_chain_id skm = cid \<and>
     skm_iteration skm = sch_iteration ck \<and>
     aes_256_cbc_encrypt E ptext (smsg_cipher_key (sender_message_key_of E ck))
       (smsg_iv (sender_message_key_of E ck)) = Ok (skm_ciphertext skm)"

lemma group_encrypt_authentic:
  assumes laws: "xeddsa_ok E" "dh_ok E" "codec_ok (sender_key_message_codec E)" "length d = 16"
    and rec: "load_sender_key a d s = Some rec" "skrec_states rec = st # rest"
      "state_message_version st = 3" "state_sender_chain_key st = Some ck" "signing_key_private E st = Ok sk"
    and enc: "group_encrypt E a d ptext (s, r) = (Ok skm, (s', r'))"
  shows "authentic E d (sks_chain_id st) (PrivateKey_public_key E sk) ck ptext skm" "sch_iteration ck \<noteq> - 1"
    "s' = store_sender_key a d (rec\<lparr>skrec_states := set_state_chain_key (sender_step E ck) st # rest\<rparr>) s"
proof -
  obtain ct where ct: "sch_iteration ck \<noteq> - 1"
      "aes_256_cbc_encrypt E ptext (smsg_cipher_key (sender_message_key_of E ck))
         (smsg_iv (sender_message_key_of E ck)) = Ok ct"
      "SenderKeyMessage_new E 3 d (sks_chain_id st) (sch_iteration ck) ct r sk = (skm, r')"
      "s' = store_sender_key a d (rec\<lparr>skrec_states := set_state_chain_key (sender_step E ck) st # rest\<rparr>) s"
    by (rule group_encrypt_cases [OF enc]) (use rec in \<open>simp add: that\<close>)
  have skm: "skm = fst (SenderKeyMessage_new E 3 d (sks_chain_id st) (sch_iteration ck) ct r sk)"
    using ct(3) by simp
  have "skm_message_version skm = 3 \<and> skm_distribution_id skm = d \<and> skm_chain_id skm = sks_chain_id st \<and>
      skm_iteration skm = sch_iteration ck \<and> skm_ciphertext skm = ct"
    using ct(3) by (auto simp: SenderKeyMessage_new_def Let_def SENDERKEY_MESSAGE_CURRENT_VERSION_def split: prod.splits)
  then show "authentic E d (sks_chain_id st) (PrivateKey_public_key E sk) ck ptext skm"
    using SenderKeyMessage_new_ok [OF laws, of "sks_chain_id st" "sch_iteration ck" ct r sk] ct(2)
    by (simp add: authentic_def skm)
  show "sch_iteration ck \<noteq> - 1" by (rule ct(1))
  show "s' = store_sender_key a d (rec\<lparr>skrec_states := set_state_chain_key (sender_step E ck) st # rest\<rparr>) s"
    by (rule ct(4))
qed

lemma sender_key_lengths:
  "hash_lengths E \<Longrightarrow> length (smsg_cipher_key (sender_message_key_of E ck)) = 32"
  "hash_lengths E \<Longrightarrow> length (smsg_iv (sender_message_key_of E ck)) = 16"
  by (simp_all add: sender_message_key_of_def SenderMessageKey_new_def Let_def hash_lengths_def)

lemma group_decrypt_authentic:
  assumes "hash_lengths E" "cbc_ok E" "authentic E d cid pk ck ptext skm"
    and st: "load_sender_key a d s = Some rec" "sender_key_state_for_chain_id rec cid = Some (i, st)"
      "state_message_version st = 3" "signing_key_public st = Ok pk"
    and key: "get_sender_key E st (sch_iteration ck) d = Ok (sender_message_key_of E ck, st')"
  shows "group_decrypt E (skm_serialized skm) a s =
    (Ok ptext, store_sender_key a d (rec\<lparr>skrec_states := (skrec_states rec)[i := st']\<rparr>) s)"
proof -
  have "aes_256_cbc_decrypt E (skm_ciphertext skm) (smsg_cipher_key (sender_message_key_of E ck))
      (smsg_iv (sender_message_key_of E ck)) = Ok ptext"
    using aes_256_cbc_roundtrip [OF assms(2) sender_key_lengths(1) [OF assms(1), of ck]
        sender_key_lengths(2) [OF assms(1), of ck], of ptext] assms(3)
    by (auto simp: authentic_def)
  then show ?thesis
    using assms by (simp add: authentic_def group_decrypt_def group_decrypt_with_record_def)
qed

subsection \<open>Delivery in any order\<close>

text \<open>
  The members have used the iterations \<open>D\<close> of the \<open>N\<close> iterations from \<open>n0\<close> on: every other
  iteration behind the chain key still has its stored key.
\<close>

definition unread :: "u32 \<Rightarrow> nat \<Rightarrow> u32 set \<Rightarrow> sender_key_state \<Rightarrow> bool" where
  "unread n0 N D st \<longleftrightarrow>
     (\<exists>ck. state_sender_chain_key st = Some ck \<and> n0 \<le> sch_iteration ck \<and>
       unat (sch_iteration ck) \<le> unat n0 + N \<and> (\<forall>j \<in> D. j < sch_iteration ck) \<and>
       smk_iteration ` set (sks_sender_message_keys st) = {j. n0 \<le> j \<and> j < sch_iteration ck} - D)"

lemma card_u32_interval: "card {j :: u32. a \<le> j \<and> j < b} \<le> unat b - unat a"
proof -
  have "card {j :: u32. a \<le> j \<and> j < b} = card (unat ` {j :: u32. a \<le> j \<and> j < b})"
    by (rule card_image [symmetric]) (auto simp: inj_on_def word_unat_eq_iff)
  also have "\<dots> \<le> card {unat a..<unat b}"
    by (rule card_mono) (auto simp: word_le_nat_alt word_less_nat_alt)
  finally show ?thesis by simp
qed

lemma length_push_sender_message_key:
  "length zs < MAX_MESSAGE_KEYS \<Longrightarrow> length (push_sender_message_key z zs) = Suc (length zs)"
  by (simp add: push_sender_message_key_def trim_front_drop)

text \<open>While at most \<open>MAX_MESSAGE_KEYS\<close> iterations are in flight no stored key is dropped.\<close>

lemma advanced_keys_kept:
  assumes "sender_state_ok st" "state_sender_chain_key st = Some ck" "sch_iteration ck \<le> n"
    "smk_iteration ` set (sks_sender_message_keys st) \<subseteq> {j. n0 \<le> j \<and> j < sch_iteration ck}"
    "n0 \<le> sch_iteration ck" "unat n - unat n0 \<le> MAX_MESSAGE_KEYS"
  shows "set (sks_sender_message_keys (advanced_state E ck n st)) =
    set (passed_keys E ck n) \<union> set (sks_sender_message_keys st)"
proof -
  let ?ks = "sks_sender_message_keys st"
  have "length ?ks = card (smk_iteration ` set ?ks)"
    using assms(1) distinct_card [of "map smk_iteration ?ks"] by (simp add: sender_state_ok_def)
  also have "\<dots> \<le> card {j. n0 \<le> j \<and> j < sch_iteration ck}" using assms(4) by (intro card_mono) simp_all
  also have "\<dots> \<le> unat (sch_iteration ck) - unat n0" by (rule card_u32_interval)
  finally have "length ?ks \<le> unat (sch_iteration ck) - unat n0" .
  moreover have "length (passed_keys E ck n) = unat n - unat (sch_iteration ck)"
    by (simp add: passed_keys_def sender_chain.walk_def)
  ultimately have "length ?ks + length (passed_keys E ck n) \<le> MAX_MESSAGE_KEYS"
    using assms(3,5,6) by (simp add: word_le_nat_alt)
  then show ?thesis
    unfolding advanced_state_simps
    by (rule sender_message_key_buffer.push_many_room) (rule length_push_sender_message_key)
qed

lemma unread_advanced:
  assumes "sender_state_ok st" "unread n0 N D st" "state_sender_chain_key st = Some ck" "sch_iteration ck \<le> n"
    "n \<noteq> - 1" "unat n < unat n0 + N" "N \<le> MAX_MESSAGE_KEYS"
  shows "unread n0 N (insert n D) (advanced_state E ck n st)"
proof -
  have u: "n0 \<le> sch_iteration ck" "\<forall>j \<in> D. j < sch_iteration ck"
    "smk_iteration ` set (sks_sender_message_keys st) = {j. n0 \<le> j \<and> j < sch_iteration ck} - D"
    using assms(2,3) by (auto simp: unread_def)
  have idx: "sch_iteration (sender_step E (sender_reach E ck n)) = n + 1"
    by (simp add: sender_chain.idx_nxt sender_chain.idx_reach [OF assms(4)])
  have suc: "j < n + 1 \<longleftrightarrow> j \<le> n" for j
    using u32_Suc_no_wrap(1) [OF assms(5)] by (auto simp: word_less_nat_alt word_le_nat_alt)
  have "set (sks_sender_message_keys (advanced_state E ck n st)) =
      set (passed_keys E ck n) \<union> set (sks_sender_message_keys st)"
    using assms u by (intro advanced_keys_kept) auto
  moreover have "smk_iteration ` set (passed_keys E ck n) = {j. sch_iteration ck \<le> j \<and> j < n}"
    using passed_keys_bounds passed_keys_hit by blast
  ultimately have "smk_iteration ` set (sks_sender_message_keys (advanced_state E ck n st)) =
      {j. sch_iteration ck \<le> j \<and> j < n} \<union> ({j. n0 \<le> j \<and> j < sch_iteration ck} - D)"
    by (simp only: image_Un u(3))
  also have "\<dots> = {j. n0 \<le> j \<and> j < n + 1} - insert n D"
    using u(1,2) assms(4) suc by (auto simp: not_less)
  finally have "smk_iteration ` set (sks_sender_message_keys (advanced_state E ck n st)) =
      {j. n0 \<le> j \<and> j < n + 1} - insert n D" .
  moreover have "n0 \<le> n + 1" using u(1) assms(4) u32_Suc_no_wrap(2) [OF assms(5)] by simp
  ultimately show ?thesis
    using u(2) assms(4,6) u32_Suc_no_wrap(1) [OF assms(5)] suc by (auto simp: unread_def idx)
qed

lemma set_remove_nth_distinct:
  assumes "distinct xs" "i < length xs"
  shows "set (remove_nth i xs) = set xs - {xs ! i}"
proof -
  have "set xs = insert (xs ! i) (set (remove_nth i xs))"
    using arg_cong [OF id_take_nth_drop [OF assms(2)], of set] by (simp add: remove_nth_def)
  then show ?thesis using remove_nth_notin [OF assms] by blast
qed

lemma get_sender_key_unread:
  assumes "sender_state_ok st" "unread n0 N D st" "n0 \<le> n" "unat n < unat n0 + N" "n \<notin> D" "n \<noteq> - 1"
    "N \<le> MAX_MESSAGE_KEYS"
  shows "\<exists>smk st'. get_sender_key E st n d = Ok (smk, st') \<and> unread n0 N (insert n D) st'"
proof -
  obtain ck where ck: "state_sender_chain_key st = Some ck" "n0 \<le> sch_iteration ck"
      "unat (sch_iteration ck) \<le> unat n0 + N" "\<forall>j \<in> D. j < sch_iteration ck"
      "smk_iteration ` set (sks_sender_message_keys st) = {j. n0 \<le> j \<and> j < sch_iteration ck} - D"
    using assms(2) by (auto simp: unread_def)
  show ?thesis
  proof (cases "n < sch_iteration ck")
    case True
    let ?ks = "sks_sender_message_keys st"
    have "n \<in> smk_iteration ` set ?ks" using True ck(5) assms(3,5) by simp
    then obtain p where p: "position (\<lambda>x. smk_iteration x = n) ?ks = Some p" "p < length ?ks" "smk_iteration (?ks ! p) = n"
      using position_None [of "\<lambda>x. smk_iteration x = n" ?ks] position_Some [of "\<lambda>x. smk_iteration x = n" ?ks]
      by (cases "position (\<lambda>x. smk_iteration x = n) ?ks") auto
    have "set (map smk_iteration (remove_nth p ?ks)) = smk_iteration ` set ?ks - {n}"
      using assms(1) p(2,3) set_remove_nth_distinct [of "map smk_iteration ?ks" p]
      by (simp add: sender_state_ok_def map_remove_nth)
    then show ?thesis
      using get_sender_key_behind [OF ck(1) True, of E d] p(1) ck True
      by (auto simp: unread_def state_sender_chain_key_def)
  next
    case False
    then have le: "sch_iteration ck \<le> n" by simp
    have "unat n - unat (sch_iteration ck) \<le> MAX_FORWARD_JUMPS"
      using assms(4,7) ck(2) by (simp add: MAX_FORWARD_JUMPS_def MAX_MESSAGE_KEYS_def word_le_nat_alt)
    then show ?thesis
      using get_sender_key_ahead [OF ck(1) le assms(6), of E d]
        unread_advanced [OF assms(1,2) ck(1) le assms(6,4,7), of E] by blast
  qed
qed

text \<open>A run of \<open>group_encrypt\<close> and of \<open>group_decrypt\<close>; the first error ends it.\<close>

primrec group_encrypt_all ::
    "'r env \<Rightarrow> protocol_address \<Rightarrow> uuid \<Rightarrow> bytes list \<Rightarrow> 'r world \<Rightarrow>
     (sender_key_message list, signal_error) result \<times> 'r world" where
  "group_encrypt_all E a d [] w = (Ok [], w)"
| "group_encrypt_all E a d (p # ps) w =
     bindS (group_encrypt E a d p w) (\<lambda>m w.
     bindS (group_encrypt_all E a d ps w) (\<lambda>ms w. (Ok (m # ms), w)))"

primrec group_decrypt_all ::
    "'r env \<Rightarrow> protocol_address \<Rightarrow> bytes list \<Rightarrow> protocol_store \<Rightarrow> (bytes list, signal_error) result \<times> protocol_store" where
  "group_decrypt_all E a [] s = (Ok [], s)"
| "group_decrypt_all E a (b # bs) s =
     bindS (group_decrypt E b a s) (\<lambda>p s.
     bindS (group_decrypt_all E a bs s) (\<lambda>ps s. (Ok (p # ps), s)))"

definition member_ready ::
    "'r env \<Rightarrow> protocol_address \<Rightarrow> uuid \<Rightarrow> u32 \<Rightarrow> public_key \<Rightarrow> sender_chain_key \<Rightarrow> nat \<Rightarrow> u32 set \<Rightarrow>
     protocol_store \<Rightarrow> bool" where
  "member_ready E a d cid pk ck0 N D s \<longleftrightarrow>
     (\<exists>rec i st. load_sender_key a d s = Some rec \<and> sender_key_state_for_chain_id rec cid = Some (i, st) \<and>
       state_message_version st = 3 \<and> signing_key_public st = Ok pk \<and> sender_state_ok st \<and>
       sender_tracks E ck0 st \<and> unread (sch_iteration ck0) N D st)"

lemma member_decrypts:
  assumes laws: "hash_lengths E" "cbc_ok E" "N \<le> MAX_MESSAGE_KEYS"
    and ready: "member_ready E a d cid pk ck0 N D s"
    and msg: "authentic E d cid pk (sender_reach E ck0 n) ptext skm" "n \<noteq> - 1"
    and range: "sch_iteration ck0 \<le> n" "unat n < unat (sch_iteration ck0) + N" "n \<notin> D"
  shows "\<exists>s'. group_decrypt E (skm_serialized skm) a s = (Ok ptext, s') \<and>
    member_ready E a d cid pk ck0 N (insert n D) s'"
proof -
  obtain rec i st where m: "load_sender_key a d s = Some rec" "sender_key_state_for_chain_id rec cid = Some (i, st)"
      "state_message_version st = 3" "signing_key_public st = Ok pk"
    and st: "sender_state_ok st" "sender_tracks E ck0 st" "unread (sch_iteration ck0) N D st"
    using ready by (auto simp: member_ready_def)
  obtain smk st' where key: "get_sender_key E st n d = Ok (smk, st')"
    and un: "unread (sch_iteration ck0) N (insert n D) st'"
    using get_sender_key_unread [OF st(1,3) range msg(2) laws(3), of E d] by blast
  have idx: "sch_iteration (sender_reach E ck0 n) = n" using range(1) by (rule sender_chain.idx_reach)
  show ?thesis
    using st(1) key
  proof (cases rule: get_sender_key_step)
    case 1
    let ?rec = "rec\<lparr>skrec_states := (skrec_states rec)[i := st']\<rparr>"
    have smk: "smk = sender_message_key_of E (sender_reach E ck0 n)" and tr: "sender_tracks E ck0 st'"
      using 1(4) [OF st(2)] by simp_all
    have dec: "group_decrypt E (skm_serialized skm) a s = (Ok ptext, store_sender_key a d ?rec s)"
      using laws(1,2) msg(1) m by (rule group_decrypt_authentic) (simp add: idx key smk)
    have "sks_chain_id st = cid" using m(2) by (auto simp: sender_key_state_for_chain_id_Some)
    then have "sender_key_state_for_chain_id ?rec cid = Some (i, st')"
      using m(2) 1(5) by (intro sender_key_state_for_chain_id_update) (auto simp: same_sender_def)
    then have "member_ready E a d cid pk ck0 N (insert n D) (store_sender_key a d ?rec s)"
      using m(3,4) 1(1,5) tr un
      by (auto simp: member_ready_def load_store_sender_key same_sender_def state_message_version_def
          signing_key_public_def)
    then show ?thesis using dec by blast
  qed
qed

definition sender_ready ::
    "'r env \<Rightarrow> protocol_address \<Rightarrow> uuid \<Rightarrow> u32 \<Rightarrow> private_key \<Rightarrow> sender_chain_key \<Rightarrow> protocol_store \<Rightarrow> bool" where
  "sender_ready E a d cid sk ck s \<longleftrightarrow>
     (\<exists>rec st rest. load_sender_key a d s = Some rec \<and> skrec_states rec = st # rest \<and> sks_chain_id st = cid \<and>
       state_message_version st = 3 \<and> state_sender_chain_key st = Some ck \<and> signing_key_private E st = Ok sk)"

lemma sender_ready_encrypt:
  assumes laws: "xeddsa_ok E" "dh_ok E" "codec_ok (sender_key_message_codec E)" "length d = 16"
    and "sender_ready E a d cid sk ck s" "group_encrypt E a d ptext (s, r) = (Ok skm, (s', r'))"
  shows "authentic E d cid (PrivateKey_public_key E sk) ck ptext skm" "sch_iteration ck \<noteq> - 1"
    "sender_ready E a d cid sk (sender_step E ck) s'"
proof -
  obtain rec st rest where rec: "load_sender_key a d s = Some rec" "skrec_states rec = st # rest"
      "state_message_version st = 3" "state_sender_chain_key st = Some ck" "signing_key_private E st = Ok sk"
    and cid: "sks_chain_id st = cid"
    using assms(5) by (auto simp: sender_ready_def)
  note e = group_encrypt_authentic [OF laws rec assms(6)]
  show "authentic E d cid (PrivateKey_public_key E sk) ck ptext skm" "sch_iteration ck \<noteq> - 1"
    using e(1,2) cid by simp_all
  show "sender_ready E a d cid sk (sender_step E ck) s'"
    using e(3) rec cid
    by (auto simp: sender_ready_def load_store_sender_key set_state_chain_key_def state_message_version_def
        signing_key_private_def split: if_splits)
qed

lemma group_encrypt_all_authentic:
  assumes laws: "xeddsa_ok E" "dh_ok E" "codec_ok (sender_key_message_codec E)" "length d = 16"
    and "sender_ready E a d cid sk ck s" "group_encrypt_all E a d ps (s, r) = (Ok ms, w)"
  shows "length ms = length ps \<and> (\<forall>j < length ps.
      authentic E d cid (PrivateKey_public_key E sk) ((sender_step E ^^ j) ck) (ps ! j) (ms ! j) \<and>
      unat (sch_iteration ck + of_nat j) = unat (sch_iteration ck) + j \<and> sch_iteration ck + of_nat j \<noteq> - 1)"
  using assms(5,6)
proof (induction ps arbitrary: s r ms ck)
  case (Cons p ps)
  obtain x s1 r1 where e: "group_encrypt E a d p (s, r) = (x, (s1, r1))" by (metis prod_cases3)
  obtain m where x: "x = Ok m" using Cons.prems(2) e by (cases x) auto
  obtain y w1 where e': "group_encrypt_all E a d ps (s1, r1) = (y, w1)" by (metis surj_pair)
  obtain ms' where y: "y = Ok ms'" "ms = m # ms'" "w1 = w" using Cons.prems(2) e e' x by (cases y) auto
  note one = sender_ready_encrypt [OF laws Cons.prems(1) e [unfolded x]]
  have IH: "length ms' = length ps \<and> (\<forall>j < length ps.
      authentic E d cid (PrivateKey_public_key E sk) ((sender_step E ^^ j) (sender_step E ck)) (ps ! j) (ms' ! j) \<and>
      unat (sch_iteration (sender_step E ck) + of_nat j) = unat (sch_iteration (sender_step E ck)) + j \<and>
      sch_iteration (sender_step E ck) + of_nat j \<noteq> - 1)"
    using e' y by (intro Cons.IH [OF one(3)]) simp
  have idx: "sch_iteration (sender_step E ck) = sch_iteration ck + 1" by (simp add: sender_step_def)
  have "authentic E d cid (PrivateKey_public_key E sk) ((sender_step E ^^ j) ck) ((p # ps) ! j) (ms ! j) \<and>
      unat (sch_iteration ck + of_nat j) = unat (sch_iteration ck) + j \<and> sch_iteration ck + of_nat j \<noteq> - 1"
    if "j < length (p # ps)" for j
  proof (cases j)
    case (Suc i)
    then have "i < length ps" using that by simp
    then show ?thesis
      using IH Suc y(2) u32_Suc_no_wrap(1) [OF one(2)]
      by (simp add: idx funpow_swap1 add.assoc)
  qed (use one y(2) in simp)
  then show ?case using IH y(2) by simp
qed simp

lemma group_decrypt_all_any_order:
  assumes laws: "hash_lengths E" "cbc_ok E" "N \<le> MAX_MESSAGE_KEYS"
    and msgs: "\<And>j. j < N \<Longrightarrow> authentic E d cid pk ((sender_step E ^^ j) ck0) (ps ! j) (ms ! j) \<and>
      unat (sch_iteration ck0 + of_nat j) = unat (sch_iteration ck0) + j \<and> sch_iteration ck0 + of_nat j \<noteq> - 1"
    and "member_ready E a d cid pk ck0 N ((\<lambda>j. sch_iteration ck0 + of_nat j) ` D) s"
    and "distinct js" "set js \<subseteq> {..<N}" "D \<subseteq> {..<N}" "set js \<inter> D = {}"
  shows "\<exists>s'. group_decrypt_all E a (map (\<lambda>j. skm_serialized (ms ! j)) js) s = (Ok (map ((!) ps) js), s')"
  using assms(5-)
proof (induction js arbitrary: D s)
  case (Cons j js)
  let ?n = "\<lambda>j. sch_iteration ck0 + of_nat j"
  have j: "j < N" "j \<notin> D" using Cons.prems by auto
  note mj = msgs [OF j(1)]
  have le: "sch_iteration ck0 \<le> ?n j" using mj by (simp add: word_le_nat_alt)
  have reach: "(sender_step E ^^ j) ck0 = sender_reach E ck0 (?n j)" using mj by (simp add: sender_chain.reach_def)
  have fresh: "?n j \<notin> ?n ` D"
  proof
    assume "?n j \<in> ?n ` D"
    then obtain i where "i \<in> D" "?n j = ?n i" by blast
    then show False using mj msgs [of i] Cons.prems(4) j(2) by (metis add_left_cancel lessThan_iff subsetD)
  qed
  have auth: "authentic E d cid pk (sender_reach E ck0 (?n j)) (ps ! j) (ms ! j)" "?n j \<noteq> - 1"
    using mj by (simp_all add: reach [symmetric])
  have rng: "unat (?n j) < unat (sch_iteration ck0) + N" using mj j(1) by simp
  obtain s1 where s1: "group_decrypt E (skm_serialized (ms ! j)) a s = (Ok (ps ! j), s1)"
      "member_ready E a d cid pk ck0 N (insert (?n j) (?n ` D)) s1"
    using member_decrypts [OF laws Cons.prems(1) auth le rng fresh] by blast
  have "\<exists>s'. group_decrypt_all E a (map (\<lambda>j. skm_serialized (ms ! j)) js) s1 = (Ok (map ((!) ps) js), s')"
    using s1(2) Cons.prems(2-) by (intro Cons.IH [of "insert j D"]) auto
  then show ?case using s1(1) by auto
qed simp

subsection \<open>Distribution\<close>

lemma SenderKeyState_new_reads:
  assumes "public_key_ok pk"
  shows "state_message_version (SenderKeyState_new 3 cid it ck pk sko) = 3"
    "state_sender_chain_key (SenderKeyState_new v cid it ck pk sko) = Some \<lparr>sch_iteration = it, sch_chain_key = ck\<rparr>"
    "sks_chain_id (SenderKeyState_new v cid it ck pk sko) = cid"
    "signing_key_public (SenderKeyState_new v cid it ck pk sko) = Ok pk"
    "sks_sender_message_keys (SenderKeyState_new v cid it ck pk sko) = []"
  using assms
  by (simp_all add: SenderKeyState_new_def state_message_version_def state_sender_chain_key_def
      SenderChainKey_as_protobuf_def signing_key_public_def public_key_serde.de_ser)

lemma add_to_empty:
  "skrec_states (add_sender_key_state v cid it ck pk sko SenderKeyRecord_new_empty) =
     [SenderKeyState_new v cid it ck pk sko]"
  by (simp add: add_sender_key_state_def SenderKeyRecord_new_empty_def remove_state_def
      remove_states_with_chain_id_def push_sender_key_state_def trim_back_take)

text \<open>The fresh record of the sender, and the distribution message made from it.\<close>

lemma create_sender_key_distribution_message_fresh:
  assumes "curve_lengths E" "rng_length E" "dh_ok E" "load_sender_key a d s = None"
    and "create_sender_key_distribution_message E a d (s, r) = (Ok skdm, (s', r'))"
  obtains sk where
    "sender_ready E a d (skd_chain_id skdm) sk \<lparr>sch_iteration = skd_iteration skdm, sch_chain_key = skd_chain_key skdm\<rparr> s'"
    "skd_signing_key skdm = PrivateKey_public_key E sk" "public_key_ok (skd_signing_key skdm)"
    "skd_message_version skdm = 3" "skd_distribution_id skdm = d" "skd_iteration skdm = 0"
    "length (skd_chain_key skdm) = 32"
proof -
  obtain n r1 where n: "rng_u32 E r = (n, r1)" by fastforce
  obtain key r2 where key: "rng_random_bytes E 32 r1 = (key, r2)" by fastforce
  obtain kp r3 where kp: "KeyPair_generate E r2 = (kp, r3)" by fastforce
  have pk: "public_key_ok (kp_public_key kp)" "kp_public_key kp = PrivateKey_public_key E (kp_private_key kp)"
      "private_key_ok (kp_private_key kp)" "key_pair_ok E kp"
    using KeyPair_generate_ok [OF assms(1,2), of r2] KeyPair_generate_key_pair_ok [OF assms(3), of r2] kp
    by (simp_all add: key_pair_ok_def)
  let ?st = "SenderKeyState_new 3 (drop_bit 1 n) 0 key (kp_public_key kp) (Some (kp_private_key kp))"
  let ?rec = "add_sender_key_state SENDERKEY_MESSAGE_CURRENT_VERSION (drop_bit 1 n) 0 key (kp_public_key kp)
      (Some (kp_private_key kp)) SenderKeyRecord_new_empty"
  have fresh: "fresh_sender_key_record E r = (?rec, r3)"
    by (simp add: fresh_sender_key_record_def n key kp)
  have st: "skrec_states ?rec = [?st]"
    by (simp add: add_to_empty) (simp add: SENDERKEY_MESSAGE_CURRENT_VERSION_def)
  note reads = SenderKeyState_new_reads [OF pk(1)]
  have res: "s' = store_sender_key a d ?rec s"
      "skdm = SenderKeyDistributionMessage_new E 3 d (drop_bit 1 n) 0 key (kp_public_key kp)"
    using assms(4,5) fresh st reads
    by (simp_all add: create_sender_key_distribution_message_def record_sender_key_state_def)
  have "signing_key_private E ?st = Ok (kp_private_key kp)"
    using PrivateKey_deserialize_serialize [OF pk(3), of E] pk(4)
    by (simp add: signing_key_private_def SenderKeyState_new_def key_pair_ok_def)
  then have ready: "sender_ready E a d (drop_bit 1 n) (kp_private_key kp) \<lparr>sch_iteration = 0, sch_chain_key = key\<rparr> s'"
    unfolding sender_ready_def res(1) load_store_sender_key using st reads by simp
  have len: "length key = 32" using assms(2) key unfolding rng_length_def by (metis fst_conv)
  have fields: "skd_chain_id skdm = drop_bit 1 n" "skd_iteration skdm = 0" "skd_chain_key skdm = key"
      "skd_signing_key skdm = kp_public_key kp" "skd_message_version skdm = 3" "skd_distribution_id skdm = d"
    unfolding res(2) by (simp_all add: SenderKeyDistributionMessage_new_def Let_def)
  show thesis
    by (rule that [of "kp_private_key kp"]) (use ready len pk in \<open>simp_all add: fields\<close>)
qed

lemma process_sender_key_distribution_message_ready:
  assumes "load_sender_key a (skd_distribution_id skdm) s = None" "public_key_ok (skd_signing_key skdm)"
    "skd_message_version skdm = 3"
  shows "member_ready E a (skd_distribution_id skdm) (skd_chain_id skdm) (skd_signing_key skdm)
    \<lparr>sch_iteration = skd_iteration skdm, sch_chain_key = skd_chain_key skdm\<rparr> N {}
    (process_sender_key_distribution_message a skdm s)"
proof -
  let ?st = "SenderKeyState_new 3 (skd_chain_id skdm) (skd_iteration skdm) (skd_chain_key skdm)
      (skd_signing_key skdm) None"
  let ?ck = "\<lparr>sch_iteration = skd_iteration skdm, sch_chain_key = skd_chain_key skdm\<rparr>"
  note reads = SenderKeyState_new_reads [OF assms(2)]
  have "sender_tracks E ?ck ?st"
    using reads(5) sender_chain.reach_same [of E ?ck]
    by (auto simp: sender_tracks_def SenderKeyState_new_def)
  moreover have "unread (skd_iteration skdm) N {} ?st"
    using reads by (auto simp: unread_def)
  ultimately show ?thesis
    using assms reads SenderKeyState_new_ok [of 3]
    by (auto simp: member_ready_def process_sender_key_distribution_message_def Let_def load_store_sender_key
        sender_key_state_for_chain_id_def add_to_empty)
qed

lemma process_sender_key_distribution_message_store_ok:
  assumes "group_store_ok s"
  shows "group_store_ok (process_sender_key_distribution_message a skdm s)"
proof -
  have "sender_record_ok (case load_sender_key a (skd_distribution_id skdm) s of
      Some rec \<Rightarrow> rec | None \<Rightarrow> SenderKeyRecord_new_empty)"
    using assms by (auto simp: group_store_ok_def sender_record_ok_empty split: option.split)
  then show ?thesis
    using assms unfolding process_sender_key_distribution_message_def Let_def
    by (intro group_store_ok_store sender_record_ok_add)
qed

text \<open>From the distribution message to the plaintexts, in every order of delivery.\<close>

lemma group_session_any_order:
  assumes laws: "hash_lengths E" "cbc_ok E" "xeddsa_ok E" "dh_ok E" "curve_lengths E" "rng_length E"
      "codec_ok (sender_key_message_codec E)" "length d = 16"
    and alice: "load_sender_key a d s = None"
      "create_sender_key_distribution_message E a d (s, r) = (Ok skdm, (s1, r1))"
      "group_encrypt_all E a d ps (s1, r1) = (Ok ms, w)" "length ps \<le> MAX_MESSAGE_KEYS"
    and bob: "load_sender_key a d sB = None" "distinct js" "set js \<subseteq> {..<length ps}"
  shows "\<exists>s'. group_decrypt_all E a (map (\<lambda>j. skm_serialized (ms ! j)) js)
    (process_sender_key_distribution_message a skdm sB) = (Ok (map ((!) ps) js), s')"
  using laws(5,6,4) alice(1,2)
proof (cases rule: create_sender_key_distribution_message_fresh)
  case (1 sk)
  let ?ck = "\<lparr>sch_iteration = skd_iteration skdm, sch_chain_key = skd_chain_key skdm\<rparr>"
  have "member_ready E a d (skd_chain_id skdm) (PrivateKey_public_key E sk) ?ck (length ps)
      ((\<lambda>j. sch_iteration ?ck + of_nat j) ` {}) (process_sender_key_distribution_message a skdm sB)"
    using process_sender_key_distribution_message_ready [of a skdm sB E "length ps"] 1 bob(1) by simp
  then show ?thesis
    using group_encrypt_all_authentic [OF laws(3,4,7,8) 1(1) alice(3)] bob(2,3)
    by (intro group_decrypt_all_any_order [OF laws(1,2) alice(4), where D = "{}"]) auto
qed

text \<open>A message that was encrypted never has the last iteration.\<close>

lemma group_encrypt_not_last:
  assumes "group_encrypt E a d ptext w = (Ok skm, w')"
  shows "skm_iteration skm \<noteq> - 1"
proof -
  obtain s r s' r' where w: "w = (s, r)" "w' = (s', r')" by (metis prod.exhaust)
  show ?thesis
    using assms unfolding w
  proof (cases rule: group_encrypt_cases)
    case (1 rec st rest ck ct sk)
    have "skm_iteration skm = sch_iteration ck"
      using 1(8) by (auto simp: SenderKeyMessage_new_def Let_def split: prod.splits)
    then show ?thesis using 1(5) by simp
  qed
qed

end
