(* ===== verification/Prekey_Correctness.thy ===== *)
theory Prekey_Correctness
  imports End_To_End
begin

text \<open>
  What the handling of pre-key bundles and pre-key messages keeps of the stores: the record
  invariant, and that a pre-key message is accepted once.
\<close>

subsection \<open>New sessions are well-formed\<close>

lemma derive_keys_lengths:
  assumes "hash_lengths E" "derive_keys E x = (rk, ck, pqr)"
  shows "length (root_key_key rk) = 32" "chain_key_ok ck"
  using derive_keys_ok [OF assms] by simp_all

lemma initialize_alice_session_ok:
  assumes "hash_lengths E" "public_key_ok (ap_their_ratchet_key p)" "initialize_alice_session E p r = (Ok st, r')"
  shows "session_ok st"
  using assms(3)
proof (cases rule: initialize_alice_session_cases)
  case (1 ss ct r1 rk ck pqr kp rk' ck' pq)
  let ?st0 = "SessionState_new CIPHERTEXT_MESSAGE_CURRENT_VERSION (id_identity_key (ap_our_identity_key_pair p))
      (ap_their_identity_key p) rk' (kp_public_key (ap_our_base_key_pair p)) pq"
  have "length (root_key_key rk') = 32" using create_chain_ok(2) [OF assms(1)] 1(4) by (metis fst_conv)
  then have "session_ok ?st0" by (simp add: SessionState_new_def session_ok_def)
  moreover have "get_receiver_chain ?st0 (ap_their_ratchet_key p) = Ok None"
    by (simp add: SessionState_new_def get_receiver_chain_def)
  ultimately have "session_ok (add_receiver_chain (ap_their_ratchet_key p) ck ?st0)"
    using assms(2) derive_keys_lengths(2) [OF assms(1) 1(2)] by (intro session_ok_add_receiver_chain)
  then show ?thesis unfolding 1(6) by (simp add: session_ok_def set_kyber_ciphertext_def set_sender_chain_def)
qed

lemma initialize_bob_session_cases:
  assumes "initialize_bob_session E b = Ok st"
  obtains rk ck pqr pq x where "is_canonical E (bp_their_base_key b)" "derive_keys E x = (rk, ck, pqr)"
    "st = bob_session b rk ck pq"
proof -
  obtain ss where ss: "kem_SecretKey_decapsulate E (kkp_secret_key (bp_our_kyber_pre_key_pair b))
      (bp_their_kyber_ciphertext b) = Ok ss"
    using assms by (auto simp: initialize_bob_session_def Let_def result_simps split: if_splits)
  obtain rk ck pqr where d: "derive_keys E (bob_dh E b @ ss) = (rk, ck, pqr)" by (metis prod_cases3)
  show thesis
    using assms ss d that
    by (auto simp: initialize_bob_session_def bob_dh_def Let_def result_simps bob_session_def split: if_splits)
qed

lemma initialize_bob_session_ok:
  assumes "hash_lengths E" "initialize_bob_session E b = Ok st"
  shows "session_ok st" "session_version st = Ok 4" "s_alice_base_key st = PublicKey_serialize (bp_their_base_key b)"
proof -
  obtain rk ck pqr pq x where d: "derive_keys E x = (rk, ck, pqr)" "st = bob_session b rk ck pq"
    using assms(2) by (rule initialize_bob_session_cases)
  then show "session_ok st" "session_version st = Ok 4" "s_alice_base_key st = PublicKey_serialize (bp_their_base_key b)"
    using derive_keys_lengths [OF assms(1)] by (simp_all add: session_unfold session_ok_def session_version_def)
qed

lemma session_ok_setters [simp]:
  "session_ok (set_local_registration_id n st) = session_ok st"
  "session_ok (set_remote_registration_id n st) = session_ok st"
  "session_ok (set_unacknowledged_pre_key_message p i k now st) = session_ok st"
  by (simp_all add: session_ok_def set_local_registration_id_def set_remote_registration_id_def
      set_unacknowledged_pre_key_message_def)

subsection \<open>The record of a pre-key message\<close>

lemma process_prekey_impl_new:
  assumes "promote_matching_session E (ucast (pkm_message_version pm)) (PublicKey_serialize (pkm_base_key pm)) rec =
      Ok (False, rec0)" "process_prekey_impl E pm rec s = Ok (used, rec1)"
  obtains b st srec where "initialize_bob_session E b = Ok st" "bp_their_base_key b = pkm_base_key pm"
    "SignedPreKeyRecord_key_pair E srec = Ok (bp_our_ratchet_key_pair b)"
    "rec1 = promote_state E (set_remote_registration_id (pkm_registration_id pm)
       (set_local_registration_id (get_local_registration_id s) st)) rec0"
    "pkm_message_version pm \<noteq> CIPHERTEXT_MESSAGE_PRE_KYBER_VERSION"
proof -
  let ?b = "\<lambda>spk kyber otk ct. \<lparr>bp_our_identity_key_pair = get_identity_key_pair s, bp_our_signed_pre_key_pair = spk,
      bp_our_one_time_pre_key_pair = otk, bp_our_ratchet_key_pair = spk, bp_our_kyber_pre_key_pair = kyber,
      bp_their_identity_key = pkm_identity_key pm, bp_their_base_key = pkm_base_key pm,
      bp_their_kyber_ciphertext = ct\<rparr>"
  obtain spk kyber otk ct st srec where "initialize_bob_session E (?b spk kyber otk ct) = Ok st"
      "SignedPreKeyRecord_key_pair E srec = Ok spk"
      "rec1 = promote_state E (set_remote_registration_id (pkm_registration_id pm)
         (set_local_registration_id (get_local_registration_id s) st)) rec0"
      "pkm_message_version pm \<noteq> CIPHERTEXT_MESSAGE_PRE_KYBER_VERSION"
    using assms by (auto simp: process_prekey_impl_def Let_def result_simps split: if_splits)
  then show thesis by (intro that [of "?b spk kyber otk ct" st srec]) simp_all
qed

text \<open>
  The record after \<open>process_prekey_impl\<close>: its current session is the one of the message's base key,
  found or new.
\<close>

lemma process_prekey_impl_session:
  assumes "hash_lengths E" "codec_ok (session_codec E)" "record_ok E rec" "pkm_message_version pm \<in> {3, 4}"
    "process_prekey_impl E pm rec s = Ok (used, rec1)"
  shows "record_ok E rec1"
    "\<exists>st. sr_current_session rec1 = Some st \<and>
       session_matches (ucast (pkm_message_version pm)) (PublicKey_serialize (pkm_base_key pm)) st = Ok True"
proof -
  let ?v = "ucast (pkm_message_version pm) :: u32" and ?k = "PublicKey_serialize (pkm_base_key pm)"
  obtain found rec0 where p: "promote_matching_session E ?v ?k rec = Ok (found, rec0)"
    using assms(5) by (auto simp: process_prekey_impl_def result_simps)
  have rec0: "record_ok E rec0" using assms(2,3) p by (rule well_formed.record_promote_matching)
  have "record_ok E rec1 \<and> (\<exists>st. sr_current_session rec1 = Some st \<and> session_matches ?v ?k st = Ok True)"
  proof (cases found)
    case True
    then have "rec1 = rec0" using assms(5) p by (simp add: process_prekey_impl_def)
    moreover have "\<exists>st. sr_current_session rec0 = Some st \<and> session_matches ?v ?k st = Ok True"
      using p
    proof (cases rule: promote_matching_session_cases)
      case (old i st)
      then show ?thesis by (auto simp: promote_old_session_def promote_state_def result_simps)
    qed (use True in auto)
    ultimately show ?thesis using rec0 by simp
  next
    case False
    then obtain b st where b: "initialize_bob_session E b = Ok st" "bp_their_base_key b = pkm_base_key pm"
        "rec1 = promote_state E (set_remote_registration_id (pkm_registration_id pm)
           (set_local_registration_id (get_local_registration_id s) st)) rec0"
        "pkm_message_version pm \<noteq> CIPHERTEXT_MESSAGE_PRE_KYBER_VERSION"
      using p assms(5) by (auto elim: process_prekey_impl_new)
    note ok = initialize_bob_session_ok [OF assms(1) b(1)]
    have "pkm_message_version pm = 4" using b(4) assms(4) by (auto simp: CIPHERTEXT_MESSAGE_PRE_KYBER_VERSION_def)
    then have "session_matches ?v ?k (set_remote_registration_id (pkm_registration_id pm)
        (set_local_registration_id (get_local_registration_id s) st)) = Ok True"
      using ok b(2) by (simp add: session_matches_def session_version_def set_remote_registration_id_def
          set_local_registration_id_def split: if_splits)
    then show ?thesis
      using well_formed.record_promote_state [OF assms(2) rec0] ok(1) by (simp add: b(3) promote_state_def)
  qed
  then show "record_ok E rec1"
    "\<exists>st. sr_current_session rec1 = Some st \<and> session_matches ?v ?k st = Ok True" by simp_all
qed

lemma message_decrypt_prekey_cases:
  assumes "message_decrypt_prekey E pm a (s, r) = (Ok ptext, (s', r'))"
  obtains used rec1 rec2 s2 where
    "is_trusted_identity a (pkm_identity_key pm) Receiving s"
    "process_prekey_impl E pm (case load_session a s of None \<Rightarrow> SessionRecord_new_fresh | Some rec \<Rightarrow> rec) s = Ok (used, rec1)"
    "decrypt_message_with_record E rec1 (pkm_message pm) PreKey r = (Ok (ptext, rec2), r')"
    "consume_pre_keys used (pkm_base_key pm) (snd (save_identity a (pkm_identity_key pm) s)) = (Ok (), s2)"
    "s' = store_session a rec2 s2"
proof -
  let ?rec = "case load_session a s of None \<Rightarrow> SessionRecord_new_fresh | Some rec \<Rightarrow> rec"
  have tr: "is_trusted_identity a (pkm_identity_key pm) Receiving s"
    using assms by (auto simp: message_decrypt_prekey_def process_prekey_def Let_def split: if_splits)
  obtain used rec1 where p: "process_prekey_impl E pm ?rec s = Ok (used, rec1)"
    using assms tr
    by (cases "process_prekey_impl E pm ?rec s") (auto simp: message_decrypt_prekey_def process_prekey_def Let_def)
  then have q: "process_prekey E pm a ?rec s = Ok (used, pkm_identity_key pm, rec1)"
    using tr by (simp add: process_prekey_def)
  obtain x r1 where d: "decrypt_message_with_record E rec1 (pkm_message pm) PreKey r = (x, r1)" by fastforce
  obtain pt rec2 where x: "x = Ok (pt, rec2)"
    using assms q d by (cases x) (auto simp: message_decrypt_prekey_def Let_def)
  obtain y s2 where c: "consume_pre_keys used (pkm_base_key pm) (snd (save_identity a (pkm_identity_key pm) s)) = (y, s2)"
    by fastforce
  show thesis
    using assms q d x c tr p that by (cases y) (auto simp: message_decrypt_prekey_def Let_def)
qed

lemma consume_pre_keys_frame:
  assumes "consume_pre_keys used k s = (res, s2)"
  shows "load_session a s2 = load_session a s" "is_trusted_identity a i d s2 = is_trusted_identity a i d s"
  using assms
  by (auto simp: consume_pre_keys_def mark_kyber_pre_key_used_def set_base_keys_seen_def remove_pre_key_def
      load_session_def is_trusted_identity_def Let_def split: option.splits if_splits)

subsection \<open>One use\<close>

lemma decrypt_prekey_current:
  assumes "sr_current_session rec = Some st" "decrypt_message_with_record E rec m PreKey r = (Ok (ptext, rec'), r')"
  shows "\<exists>st'. decrypt_message_with_state E st m PreKey r = (Ok (ptext, st'), r') \<and> rec' = set_session_state st' rec"
proof -
  obtain x r1 where d: "decrypt_message_with_state E st m PreKey r = (x, r1)" by fastforce
  show ?thesis
  proof (cases x)
    case (Ok y)
    then show ?thesis
      using assms d by (cases y) (auto simp: decrypt_message_with_record_def result_simps)
  next
    case (Err e)
    have "decrypt_message_with_record E rec m PreKey r =
        (Err (if is_duplicated e then e else InvalidMessage PreKey ''decryption failed''), r1)"
      using assms(1) d Err by (simp add: decrypt_message_with_record_def)
    then show ?thesis using assms(2) by simp
  next
    case Panic
    have "decrypt_message_with_record E rec m PreKey r = (Panic, r1)"
      using assms(1) d Panic by (simp add: decrypt_message_with_record_def)
    then show ?thesis using assms(2) by simp
  qed
qed

text \<open>The session that decrypted a pre-key message is still the one of its base key.\<close>

lemma decrypt_prekey_keeps_session:
  assumes "hash_lengths E" "record_ok E rec" "sr_current_session rec = Some st" "session_matches v k st = Ok True"
    "public_key_ok (sm_sender_ratchet_key m)" "sm_counter m \<noteq> - 1"
    "decrypt_message_with_record E rec m PreKey r = (Ok (ptext, rec'), r')"
  shows "\<exists>st'. sr_current_session rec' = Some st' \<and> session_matches v k st' = Ok True"
proof -
  have ok: "session_ok st" using assms(2,3) by (simp add: record_inv_def)
  obtain st' where st': "decrypt_message_with_state E st m PreKey r = (Ok (ptext, st'), r')"
      "rec' = set_session_state st' rec"
    using decrypt_prekey_current [OF assms(3,7)] by blast
  have same: "same_identity st st'"
    using ok assms(5,1,6) st'(1) by (rule decrypt_message_with_state_step)
  have "session_matches v k st' = session_matches v k st"
    using same_identityD(1) [OF same] same by (simp add: session_matches_def same_identity_def)
  then show ?thesis using st'(2) assms(4) by (simp add: set_session_state_def)
qed

lemma process_prekey_again:
  assumes "sr_current_session rec = Some st" "is_trusted_identity a (pkm_identity_key pm) Receiving s"
    "session_matches (ucast (pkm_message_version pm)) (PublicKey_serialize (pkm_base_key pm)) st = Ok True"
  shows "process_prekey E pm a rec s = Ok (None, pkm_identity_key pm, rec)"
  using assms by (simp add: process_prekey_def process_prekey_impl_def promote_matching_session_def)

lemma message_decrypt_prekey_replay:
  assumes laws: "codec_ok (session_codec E)" "hash_lengths E"
    and pm: "pkm_message_version pm \<in> {3, 4}" "public_key_ok (sm_sender_ratchet_key (pkm_message pm))"
      "sm_counter (pkm_message pm) \<noteq> - 1"
    and "store_ok E s" "message_decrypt_prekey E pm a (s, r) = (Ok ptext, (s', r'))"
  shows "\<exists>n. message_decrypt_prekey E pm a (s', r2) =
    (Err (DuplicatedMessage n (sm_counter (pkm_message pm))), (s', r2))"
  using assms(7)
proof (cases rule: message_decrypt_prekey_cases)
  case (1 used rec1 rec2 s2)
  have rec: "record_ok E (case load_session a s of None \<Rightarrow> SessionRecord_new_fresh | Some rec \<Rightarrow> rec)"
    using assms(6) record_inv_fresh by (auto simp: store_ok_def split: option.split)
  note sess = process_prekey_impl_session [OF laws(2,1) rec pm(1) 1(2)]
  obtain st' where st': "sr_current_session rec2 = Some st'"
      "session_matches (ucast (pkm_message_version pm)) (PublicKey_serialize (pkm_base_key pm)) st' = Ok True"
    using decrypt_prekey_keeps_session [OF laws(2) sess(1) _ _ pm(2,3) 1(3)] sess(2) by blast
  have "is_trusted_identity a (pkm_identity_key pm) Receiving s'"
    using consume_pre_keys_frame(2) [OF 1(4)] is_trusted_after_save(1) [of a "pkm_identity_key pm"]
    by (simp add: 1(5))
  then have "process_prekey E pm a rec2 s' = Ok (None, pkm_identity_key pm, rec2)"
    using st' by (intro process_prekey_again)
  moreover obtain n where "decrypt_message_with_record E rec2 (pkm_message pm) PreKey r2 =
      (Err (DuplicatedMessage n (sm_counter (pkm_message pm))), r2)"
    using decrypt_message_with_record_replay [OF laws(1) sess(1) pm(2) laws(2) pm(3) 1(3)] by blast
  ultimately show ?thesis
    by (auto simp: message_decrypt_prekey_def 1(5) sessions.load_store_same)
qed

subsection \<open>The record invariant\<close>

lemma message_decrypt_prekey_store_ok:
  assumes laws: "codec_ok (session_codec E)" "hash_lengths E"
    and pm: "pkm_message_version pm \<in> {3, 4}" "public_key_ok (sm_sender_ratchet_key (pkm_message pm))"
      "sm_counter (pkm_message pm) \<noteq> - 1"
    and "store_ok E s" "message_decrypt_prekey E pm a (s, r) = (res, (s', r'))"
  shows "store_ok E s'"
proof (cases "is_ok res")
  case True
  then obtain ptext where "message_decrypt_prekey E pm a (s, r) = (Ok ptext, (s', r'))"
    using assms(7) by (cases res) auto
  then show ?thesis
  proof (cases rule: message_decrypt_prekey_cases)
    case (1 used rec1 rec2 s2)
    have rec: "record_ok E (case load_session a s of None \<Rightarrow> SessionRecord_new_fresh | Some rec \<Rightarrow> rec)"
      using assms(6) record_inv_fresh by (auto simp: store_ok_def split: option.split)
    have "record_ok E rec1" using process_prekey_impl_session(1) [OF laws(2,1) rec pm(1) 1(2)] .
    then have "record_ok E rec2"
      using decrypt_message_with_record_step(1) [OF laws(1) _ pm(2) laws(2) pm(3) 1(3)] by simp
    moreover have "store_ok E s2"
      using assms(6) consume_pre_keys_frame(1) [OF 1(4)] by (simp add: store_ok_def)
    ultimately show ?thesis by (simp add: 1(5) store_ok_store_session)
  qed
next
  case False
  have "load_session b s' = load_session b s" for b
  proof -
    let ?rec = "case load_session a s of None \<Rightarrow> SessionRecord_new_fresh | Some rec \<Rightarrow> rec"
    show ?thesis
    proof (cases "process_prekey E pm a ?rec s")
      case (Ok x)
      obtain used k rec1 where x: "x = (used, k, rec1)" by (metis prod_cases3)
      obtain y r1 where d: "decrypt_message_with_record E rec1 (pkm_message pm) PreKey r = (y, r1)" by fastforce
      obtain z s2 where c: "consume_pre_keys used (pkm_base_key pm) (snd (save_identity a k s)) = (z, s2)"
        by fastforce
      note fr = consume_pre_keys_frame(1) [OF c, of b]
      show ?thesis
        using assms(7) False Ok x d c fr
        by (cases y; cases z) (auto simp: message_decrypt_prekey_def Let_def split: prod.splits)
    qed (use assms(7) in \<open>auto simp: message_decrypt_prekey_def Let_def\<close>)
  qed
  then show ?thesis using assms(6) by (simp add: store_ok_def)
qed

lemma process_prekey_bundle_store_ok:
  assumes laws: "codec_ok (session_codec E)" "hash_lengths E" "public_key_ok (esp_public_key (b_ec_signed_pre_key bundle))"
    and "store_ok E s" "process_prekey_bundle E a bundle now (s, r) = (res, (s', r'))"
  shows "store_ok E s'"
proof (cases "is_ok res")
  case True
  then have "process_prekey_bundle E a bundle now (s, r) = (Ok (), (s', r'))" using assms(5) by (cases res) auto
  then show ?thesis
  proof (cases rule: process_prekey_bundle_cases)
    case (1 base r1 st st1 rec)
    have "session_ok st" using laws(2,3) 1(2) by (intro initialize_alice_session_ok) (auto simp: bundle_parameters_def)
    then have "session_ok st1"
      using set_unacknowledged_kyber_pre_key_id_Ok(1) [OF 1(3)] sends_as_reads(8) by fastforce
    moreover have "record_ok E rec"
      using assms(4) record_inv_fresh 1(4) by (auto simp: store_ok_def split: option.splits)
    ultimately show ?thesis
      using assms(4) laws(1) by (simp add: 1(5) store_ok_store_session well_formed.record_promote_state)
  qed
next
  case False
  then show ?thesis using process_prekey_bundle_frame [OF assms(5)] assms(4) by simp
qed

end
