(* ===== verification/Conversation_Once.thy ===== *)
theory Conversation_Once
  imports Conversation
begin

text \<open>
  Replays in a conversation: a message that was decrypted stays refused, however the conversation goes on, until the
  receiver chain of its ratchet key is evicted.
\<close>

subsection \<open>Spent counters of one session\<close>

definition spent_in :: "public_key \<Rightarrow> u32 \<Rightarrow> session_state \<Rightarrow> bool" where
  "spent_in te n st \<longleftrightarrow>
     (\<forall>c \<in> set (s_receiver_chains st). c_sender_ratchet_key c = PublicKey_serialize te \<longrightarrow> consumed c n)"

lemma receiver_chain_unique:
  assumes "session_ok st" "public_key_ok te" "get_receiver_chain st te = Ok (Some (c, i))"
  shows "c \<in> set (s_receiver_chains st)" "c_sender_ratchet_key c = PublicKey_serialize te"
    and "d \<in> set (s_receiver_chains st) \<Longrightarrow> c_sender_ratchet_key d = PublicKey_serialize te \<Longrightarrow> d = c"
proof -
  have i: "i < length (s_receiver_chains st)" "s_receiver_chains st ! i = c" "c_sender_ratchet_key c = PublicKey_serialize te"
    using assms(3) unfolding get_receiver_chain_spec [OF assms(1,2)] by (auto simp: position_Some)
  show "c \<in> set (s_receiver_chains st)" using i(1,2) by auto
  show "c_sender_ratchet_key c = PublicKey_serialize te" by (rule i(3))
  have "inj_on c_sender_ratchet_key (set (s_receiver_chains st))" using assms(1) by (simp add: session_ok_def distinct_map)
  then show "d \<in> set (s_receiver_chains st) \<Longrightarrow> c_sender_ratchet_key d = PublicKey_serialize te \<Longrightarrow> d = c"
    by (rule inj_onD) (use i in auto)
qed

lemma spent_in_used:
  assumes "session_ok st" "public_key_ok te" "get_receiver_chain st te = Ok (Some (c, i))" "consumed c n"
  shows "spent_in te n st"
  using receiver_chain_unique(3) [OF assms(1-3)] assms(4) by (auto simp: spent_in_def)

lemma spent_in_step:
  assumes "session_ok st" "public_key_ok te" "hash_lengths E"
    and m: "public_key_ok (sm_sender_ratchet_key m)" "sm_counter m \<noteq> - 1"
    and dec: "decrypt_message_with_state E st m t r = (Ok (ptext, st'), r')"
      "took_key E (sm_sender_ratchet_key m) (sm_counter m) st st'"
    and spent: "spent_in te n st" "sm_sender_ratchet_key m = te \<Longrightarrow> get_receiver_chain st te \<noteq> Ok None"
  shows "spent_in te n st'"
proof (cases "sm_sender_ratchet_key m = te")
  case True
  obtain c0 i0 where c0: "get_receiver_chain st te = Ok (Some (c0, i0))"
    using spent(2) [OF True] unfolding get_receiver_chain_spec [OF assms(1,2)] by auto
  then have "consumed c0 n" using receiver_chain_unique(1,2) [OF assms(1,2) c0] spent(1) by (simp add: spent_in_def)
  then show ?thesis
    using decrypt_message_with_state_step [OF assms(1) m(1) assms(3) m(2) dec(1)] c0 spent_in_used assms(2)
    unfolding True by metis
next
  case False
  then have "PublicKey_serialize (sm_sender_ratchet_key m) \<noteq> PublicKey_serialize te"
    using public_key_serde.ser_eq_iff [OF m(1) assms(2)] by simp
  then show ?thesis using dec(2) spent(1) by (fastforce simp: took_key_def spent_in_def)
qed

subsection \<open>Delivered messages of a conversation\<close>

definition delivered ::
    "'r env \<Rightarrow> (bytes \<Rightarrow> bytes \<Rightarrow> (bytes \<times> bytes option) multiset \<Rightarrow> (bytes \<times> bytes option) multiset \<Rightarrow> bool) \<Rightarrow>
     (party \<Rightarrow> identity_key) \<Rightarrow> party \<Rightarrow> signal_message \<Rightarrow> conversation \<Rightarrow> bool" where
  "delivered E R ids v m c \<longleftrightarrow> (\<exists>p x y hs n k z. led_by E R ids p x y hs n k c \<and>
     ep_public z = sm_sender_ratchet_key m \<and> z \<in> set (every_other (if v = p then y # hs else hs)) \<and>
     spent_in (sm_sender_ratchet_key m) (sm_counter m) (cv_state c v))"

lemma deliveredE:
  assumes "delivered E R ids v m c"
  obtains p x y hs n k z where "led_by E R ids p x y hs n k c" "ep_public z = sm_sender_ratchet_key m"
    "z \<in> set (every_other (if v = p then y # hs else hs))"
    "spent_in (sm_sender_ratchet_key m) (sm_counter m) (cv_state c v)"
  using assms unfolding delivered_def by blast

lemma read_epoch: "z \<in> set (every_other (if b then y # hs else hs)) \<Longrightarrow> z \<in> set (y # hs)"
  using set_every_other [of "y # hs"] set_every_other [of hs] by (cases b) auto

lemma led_by_session:
  assumes "led_by E R ids p x y hs n k c"
  shows "session_ok (cv_state c v)" "session_version (cv_state c v) = Ok 4"
    "reads_from E (every_other (if v = p then y # hs else hs)) (cv_state c v)"
  using led_byD(4,5) [OF assms] other_cases [of v p]
  by (auto simp: endpoint_def speaks_def simp del: every_other.simps)

lemma delivered_send:
  assumes laws: "hash_lengths E" "spqr_channel E R" and del: "delivered E R ids v m c"
    and enc: "encrypt_with_state E ptext addr now (cv_state c w) r = (Ok (msg, i, st'), r')" "signal_part msg = Some m'"
      "sm_counter m' \<noteq> - 1" "spqr_send E (s_pq_ratchet_state (cv_state c w)) r = (Ok (pq, key, b), r1)"
  shows "delivered E R ids v m (post w st' \<lparr>pc_message = m', pc_key = key, pc_text = ptext\<rparr> c)"
proof -
  obtain p x y hs n k z where d: "led_by E R ids p x y hs n k c" "ep_public z = sm_sender_ratchet_key m"
      "z \<in> set (every_other (if v = p then y # hs else hs))" "spent_in (sm_sender_ratchet_key m) (sm_counter m) (cv_state c v)"
    using del by (rule deliveredE)
  have "s_receiver_chains st' = s_receiver_chains (cv_state c w)" by (rule encrypt_header [OF enc(1,2)])
  then have s: "spent_in (sm_sender_ratchet_key m) (sm_counter m)
      (cv_state (post w st' \<lparr>pc_message = m', pc_key = key, pc_text = ptext\<rparr> c) v)"
    using d(4) by (simp add: spent_in_def)
  have "\<exists>n k. led_by E R ids p x y hs n k (post w st' \<lparr>pc_message = m', pc_key = key, pc_text = ptext\<rparr> c)"
    using led_by_send [OF laws d(1) enc] other_cases [of w p] by blast
  then show ?thesis unfolding delivered_def using d(2,3) s by blast
qed

lemma delivered_receive:
  assumes laws: "hash_lengths E" "cbc_ok E" "dh_ok E" "curve_lengths E" "rng_length E" "spqr_channel E R"
    and del: "delivered E R ids v m c" and q: "cv_inbox c w = xs @ q # ys" "retained (pc_message q) c"
    and dec: "decrypt_message_with_state E (cv_state c w) (pc_message q) t r = (Ok (ptext, st'), r')"
    and ks: "ks = keys_after (cv_state c w) (pc_ratchet q) st' (cv_keys c)" "distinct ks"
  shows "delivered E R ids v m (fetch w st' (xs @ ys) ks c)"
proof -
  obtain p x y hs n k z where d: "led_by E R ids p x y hs n k c" "ep_public z = sm_sender_ratchet_key m"
      "z \<in> set (every_other (if v = p then y # hs else hs))" "spent_in (sm_sender_ratchet_key m) (sm_counter m) (cv_state c v)"
    using del by (rule deliveredE)
  let ?te = "sm_sender_ratchet_key m"
  have qin: "q \<in> set (cv_inbox c w)" using q(1) by simp
  have "z \<in> set (y # hs)" using d(3) by (rule read_epoch)
  then have z: "z \<in> set (x # y # hs)" by simp
  have te: "public_key_ok ?te"
    using history_epoch_ok [OF led_byD(1) [OF d(1)] z] d(2) by (auto simp: epoch_ok_def)
  have pk: "public_key_ok (pc_ratchet q)" using led_by_keys_ok(3) [OF d(1), of w] qin by blast
  have n1: "pc_counter q \<noteq> - 1" using led_by_parcel [OF d(1), of q] qin other_cases [of w p] by blast
  have s: "spent_in ?te (sm_counter m) st'" if v: "v = w"
  proof (rule spent_in_step [OF led_by_session(1) [OF d(1)] te laws(1) pk n1 dec _ d(4) [unfolded v]])
    from laws d(1) qin q(2) dec
    have *: "took_key E (pc_ratchet q) (pc_counter q) (cv_state c w) st' \<and>
        (pc_ratchet q = ?te \<longrightarrow> get_receiver_chain (cv_state c w) ?te \<noteq> Ok None)"
    proof (cases rule: led_by_reads)
      case (ratchets u)
      then have "z \<in> set hs" using d(3) v set_every_other [of hs] by auto
      then have "ep_public x \<noteq> ?te" using led_byD(3) [OF d(1)] d(2) by (auto simp: image_iff)
      then show ?thesis using ratchets by (simp add: reads_parcel_def)
    qed (auto simp: reads_parcel_def)
    then show "took_key E (pc_ratchet q) (pc_counter q) (cv_state c w) st'" by blast
    show "pc_ratchet q = ?te \<Longrightarrow> get_receiver_chain (cv_state c w) ?te \<noteq> Ok None" using * by blast
  qed
  then have s': "spent_in ?te (sm_counter m) (cv_state (fetch w st' (xs @ ys) ks c) v)" using d(4) by simp
  from laws d(1) q dec ks show ?thesis
  proof (cases rule: led_by_receive)
    case known
    then show ?thesis unfolding delivered_def using d(2,3) s' by blast
  next
    case (ratchets u)
    have "z \<in> set (every_other (if v = w then x # y # hs else y # hs))"
      using d(3) ratchets(1) other_cases [of v p] by (auto simp: every_other_Cons split: if_splits)
    then show ?thesis unfolding delivered_def using d(2) s' ratchets(2) by blast
  qed
qed

lemma delivered_reachable:
  assumes laws: "hash_lengths E" "cbc_ok E" "dh_ok E" "curve_lengths E" "rng_length E" "spqr_channel E R"
    and "conv_reachable E lim c c'" "delivered E R ids v m c"
  shows "delivered E R ids v m c'"
  using assms(7) unfolding conv_reachable_def
proof (induction rule: rtranclp_induct)
  case (step c1 c2)
  show ?case
    using step(2)
  proof cases
    case (send ptext addr now p r msg k st' r' m' pq key w)
    have "sm_counter m' \<noteq> - 1" using send(4) by auto
    then show ?thesis unfolding send(1) using delivered_send [OF laws(1,6) step(3) send(2,3) _ send(5)] by blast
  qed (use delivered_receive [OF laws step(3)] in blast)
qed (rule assms(8))

text \<open>A decryption delivers its message.\<close>

lemma decrypt_delivers:
  assumes laws: "hash_lengths E" "cbc_ok E" "dh_ok E" "curve_lengths E" "rng_length E" "spqr_channel E R"
    and inv: "conv_inv E R ids lim c" and q: "cv_inbox c v = xs @ q # ys" "retained (pc_message q) c"
    and dec: "decrypt_message_with_state E (cv_state c v) (pc_message q) t r = (Ok (ptext, st'), r')"
    and ks: "ks = keys_after (cv_state c v) (pc_ratchet q) st' (cv_keys c)" "distinct ks"
  shows "delivered E R ids v (pc_message q) (fetch v st' (xs @ ys) ks c)"
proof -
  have "conv_inv E R ids lim (fetch v st' (xs @ ys) ks c)" by (rule conv_inv_receive [OF laws inv q dec ks])
  then obtain p x y hs n k where led: "led_by E R ids p x y hs n k (fetch v st' (xs @ ys) ks c)"
    unfolding conv_inv_def by blast
  obtain p0 x0 y0 hs0 n0 k0 where led0: "led_by E R ids p0 x0 y0 hs0 n0 k0 c" using inv unfolding conv_inv_def by blast
  have qin: "q \<in> set (cv_inbox c v)" using q(1) by simp
  have pk: "public_key_ok (pc_ratchet q)" using led_by_keys_ok(3) [OF led0, of v] qin by blast
  have n1: "pc_counter q \<noteq> - 1" using led_by_parcel [OF led0, of q] qin other_cases [of v p0] by blast
  obtain c' i where c': "session_ok st'" "get_receiver_chain st' (pc_ratchet q) = Ok (Some (c', i))" "consumed c' (pc_counter q)"
    using decrypt_message_with_state_step [OF led_by_session(1) [OF led0] pk laws(1) n1 dec] by metis
  let ?zs = "every_other (if v = p then y # hs else hs)"
  have mem: "c' \<in> set (s_receiver_chains st')" "c_sender_ratchet_key c' = PublicKey_serialize (pc_ratchet q)"
    by (rule receiver_chain_unique(1,2) [OF c'(1) pk c'(2)])+
  have "reads_from E ?zs st'" using led_by_session(3) [OF led, of v] by simp
  then obtain z where z: "z \<in> set ?zs" "chain_of E c' z"
    using mem(1) list_all2_left [of "chain_of E" "s_receiver_chains st'" "rev (take MAX_RECEIVER_CHAINS ?zs)" c']
    by (auto simp: reads_from_def dest: in_set_takeD simp del: every_other.simps)
  have "z \<in> set (y # hs)" using z(1) by (rule read_epoch)
  then have "epoch_ok E z" using history_epoch_ok [OF led_byD(1) [OF led], of z] by simp
  then have "ep_public z = pc_ratchet q"
    using z(2) mem(2) public_key_serde.ser_eq_iff [OF _ pk, of "ep_public z"] by (simp add: chain_of_def epoch_ok_def)
  moreover have "spent_in (pc_ratchet q) (pc_counter q) (cv_state (fetch v st' (xs @ ys) ks c) v)"
    using spent_in_used [OF c'(1) pk c'(2,3)] by simp
  ultimately show ?thesis unfolding delivered_def using led z(1) by blast
qed

text \<open>A delivered message is a duplicate while its chain is retained.\<close>

lemma delivered_chain:
  assumes "delivered E R ids v m c" "retained m c"
  obtains c0 i where "get_receiver_chain (cv_state c v) (sm_sender_ratchet_key m) = Ok (Some (c0, i))"
    "consumed c0 (sm_counter m)" "session_ok (cv_state c v)" "session_version (cv_state c v) = Ok 4"
    "public_key_ok (sm_sender_ratchet_key m)"
proof -
  obtain p x y hs n k z where d: "led_by E R ids p x y hs n k c" "ep_public z = sm_sender_ratchet_key m"
      "z \<in> set (every_other (if v = p then y # hs else hs))" "spent_in (sm_sender_ratchet_key m) (sm_counter m) (cv_state c v)"
    using assms(1) by (rule deliveredE)
  let ?ws = "if v = p then [x] else [x, y]" and ?zs = "if v = p then y # hs else hs"
  have split: "x # y # hs = ?ws @ ?zs" by simp
  have "z \<in> set (y # hs)" using d(3) by (rule read_epoch)
  then have ok: "epoch_ok E z" using history_epoch_ok [OF led_byD(1) [OF d(1)], of z] by simp
  then have pk: "public_key_ok (ep_public z)" by (simp add: epoch_ok_def)
  have "ep_public z \<in> set (take (2 * MAX_RECEIVER_CHAINS) (map ep_public (?ws @ ?zs)))"
    using assms(2) unfolding retained_def led_byD(2) [OF d(1)] split d(2) .
  then have "z \<in> set (take MAX_RECEIVER_CHAINS (every_other ?zs))"
    using retained_readable [OF _ d(3), of ?ws] led_byD(3) [OF d(1)] split by metis
  then obtain c0 i where c0: "get_receiver_chain (cv_state c v) (ep_public z) = Ok (Some (c0, i))" "chain_of E c0 z"
    using reads_from_known [OF led_by_session(1,3) [OF d(1)] _ pk] by blast
  then have "consumed c0 (sm_counter m)"
    using receiver_chain_unique(1,2) [OF led_by_session(1) [OF d(1)] pk c0(1)] d(2,4) by (simp add: spent_in_def)
  then show thesis using that c0(1) pk led_by_session(1,2) [OF d(1), of v] unfolding d(2) by blast
qed

lemma delivered_is_duplicate:
  assumes "delivered E R ids v m c" "retained m c" "sm_message_version m = 4"
  shows "\<exists>n. decrypt_message_with_state E (cv_state c v) m t r = (Err (DuplicatedMessage n (sm_counter m)), r)"
  using assms(1,2)
proof (rule delivered_chain)
  fix c0 i
  assume "get_receiver_chain (cv_state c v) (sm_sender_ratchet_key m) = Ok (Some (c0, i))"
    "consumed c0 (sm_counter m)" "session_ok (cv_state c v)" "session_version (cv_state c v) = Ok 4"
    "public_key_ok (sm_sender_ratchet_key m)"
  then show ?thesis using assms(3) by (intro decrypt_consumed_is_duplicate) simp_all
qed

end
