(* ===== verification/Store_Conversation.thy ===== *)
theory Store_Conversation
  imports Conversation_Once Prekey_Correctness
begin

text \<open>
  A conversation of two applications, each with its stores: \<open>message_encrypt\<close> and \<open>message_decrypt\<close> as steps over a
  network that reorders, loses and repeats messages. It starts when Alice has processed Bob's bundle; Bob has no
  session until one of Alice's pre-key messages makes it. Every step is a step of \<open>Conversation\<close> on the sessions
  in the stores, so that its invariant and its consequences carry over.
\<close>

subsection \<open>The network\<close>

text \<open>A message on its way: what was sent, with the signal message in it, the text and the ratchet's key.\<close>

type_synonym delivery = "ciphertext_message \<times> parcel"

record network =
  nw_store :: "party \<Rightarrow> protocol_store"
  nw_inbox :: "party \<Rightarrow> delivery list"
  nw_keys :: "public_key list"

definition session_at :: "protocol_address \<Rightarrow> protocol_store \<Rightarrow> session_state option" where
  "session_at a s = Option.bind (load_session a s) sr_current_session"

text \<open>The ratchet keys after a decryption, from the sessions before and after it.\<close>

definition nw_keys_after ::
    "session_state option \<Rightarrow> public_key \<Rightarrow> session_state option \<Rightarrow> public_key list \<Rightarrow> public_key list" where
  "nw_keys_after before te after ks =
     (case after of
        None \<Rightarrow> ks
      | Some st' \<Rightarrow> (case before of
            None \<Rightarrow> (case sender_ratchet_key st' of Ok k \<Rightarrow> k # ks | _ \<Rightarrow> ks)
          | Some st \<Rightarrow> keys_after st te st' ks))"

definition nw_retained :: "signal_message \<Rightarrow> network \<Rightarrow> bool" where
  "nw_retained m n \<longleftrightarrow> sm_sender_ratchet_key m \<in> set (take (2 * MAX_RECEIVER_CHAINS) (nw_keys n))"

definition nw_post :: "party \<Rightarrow> protocol_store \<Rightarrow> delivery \<Rightarrow> network \<Rightarrow> network" where
  "nw_post p s' d n = n\<lparr>nw_store := (nw_store n)(p := s'), nw_inbox := (nw_inbox n)(other p := d # nw_inbox n (other p))\<rparr>"

definition nw_fetch :: "party \<Rightarrow> protocol_store \<Rightarrow> delivery list \<Rightarrow> public_key list \<Rightarrow> network \<Rightarrow> network" where
  "nw_fetch p s' ds ks n = n\<lparr>nw_store := (nw_store n)(p := s'), nw_inbox := (nw_inbox n)(p := ds), nw_keys := ks\<rparr>"

lemma nw_simps [simp]:
  "nw_store (nw_post p s d n) = (nw_store n)(p := s)" "nw_keys (nw_post p s d n) = nw_keys n"
  "nw_inbox (nw_post p s d n) = (nw_inbox n)(other p := d # nw_inbox n (other p))"
  "nw_store (nw_fetch p s ds ks n) = (nw_store n)(p := s)" "nw_keys (nw_fetch p s ds ks n) = ks"
  "nw_inbox (nw_fetch p s ds ks n) = (nw_inbox n)(p := ds)"
  by (simp_all add: nw_post_def nw_fetch_def)

text \<open>Party \<open>p\<close> knows the other under the address \<open>at p\<close>.\<close>

inductive net_step :: "'r env \<Rightarrow> (party \<Rightarrow> protocol_address) \<Rightarrow> u32 \<Rightarrow> network \<Rightarrow> network \<Rightarrow> bool"
  for E :: "'r env" and at :: "party \<Rightarrow> protocol_address" and lim :: u32 where
  send: "message_encrypt E ptext (at p) now (nw_store n p, r) = (Ok msg, (s', r')) \<Longrightarrow>
    signal_part msg = Some m \<Longrightarrow> sm_counter m < lim \<Longrightarrow>
    session_at (at p) (nw_store n p) = Some st \<Longrightarrow> spqr_send E (s_pq_ratchet_state st) r = (Ok (pq, key, w), r') \<Longrightarrow>
    net_step E at lim n (nw_post p s' (msg, \<lparr>pc_message = m, pc_key = key, pc_text = ptext\<rparr>) n)"
| receive: "nw_inbox n p = ds @ d # es \<Longrightarrow> nw_retained (pc_message (snd d)) n \<Longrightarrow>
    message_decrypt E (fst d) (at p) (nw_store n p, r) = (Ok ptext, (s', r')) \<Longrightarrow>
    ks = nw_keys_after (session_at (at p) (nw_store n p)) (pc_ratchet (snd d)) (session_at (at p) s') (nw_keys n) \<Longrightarrow>
    distinct ks \<Longrightarrow>
    net_step E at lim n (nw_fetch p s' (ds @ es) ks n)"

definition net_reachable :: "'r env \<Rightarrow> (party \<Rightarrow> protocol_address) \<Rightarrow> u32 \<Rightarrow> network \<Rightarrow> network \<Rightarrow> bool" where
  "net_reachable E at lim = (net_step E at lim)\<^sup>*\<^sup>*"

definition net_start :: "protocol_store \<Rightarrow> protocol_store \<Rightarrow> public_key list \<Rightarrow> network" where
  "net_start sA sB ks = \<lparr>nw_store = (\<lambda>p. case p of Alice \<Rightarrow> sA | Bob \<Rightarrow> sB), nw_inbox = (\<lambda>p. []), nw_keys = ks\<rparr>"

subsection \<open>A store with one session for the peer\<close>

definition holds :: "protocol_address \<Rightarrow> bytes \<Rightarrow> session_state \<Rightarrow> protocol_store \<Rightarrow> bool" where
  "holds a base st s \<longleftrightarrow> (\<exists>rec. load_session a s = Some rec \<and> sr_current_session rec = Some st \<and>
     sr_previous_sessions rec = []) \<and> s_alice_base_key st = base"

lemma holds_session_at: "holds a base st s \<Longrightarrow> session_at a s = Some st"
  by (auto simp: holds_def session_at_def)

lemma holds_store_session:
  assumes "sr_previous_sessions rec = []" "s_alice_base_key st = base"
  shows "holds a base st (store_session a (set_session_state st rec) s)"
  using assms by (simp add: holds_def sessions.load_store_same set_session_state_def)

lemma save_identity_trusted: "is_trusted_identity a k d (snd (save_identity a k s))"
  by (auto simp: is_trusted_identity_def save_identity_def Let_def split: option.splits)

text \<open>Encrypting with the session of a store.\<close>

lemma message_encrypt_holds:
  assumes "holds a base st s" "message_encrypt E ptext a now (s, r) = (Ok msg, (s', r'))"
  obtains k st' where "encrypt_with_state E ptext a now st r = (Ok (msg, k, st'), r')" "holds a base st' s'"
    "is_trusted_identity a k d s'" "remote_identity_key st = Ok (Some k)"
  using assms(2)
proof (cases rule: message_encrypt_cases)
  case (1 rec st0 st' k)
  obtain rec0 where rec: "load_session a s = Some rec0" "sr_current_session rec0 = Some st" "sr_previous_sessions rec0 = []"
      "s_alice_base_key st = base"
    using assms(1) by (auto simp: holds_def)
  have eq: "rec0 = rec" "st0 = st" using 1(1,2) rec by simp_all
  have "s_alice_base_key st' = base"
    using 1(3)
  proof (cases rule: encrypt_with_state_cases)
    case (1 ck pq key w mk eph v our_id ct m items)
    then show ?thesis using rec(4) eq by (simp add: set_sender_chain_key_def)
  qed
  then have "holds a base st' s'" unfolding 1(5) using rec(3) eq by (intro holds_store_session) simp_all
  moreover have "remote_identity_key st = Ok (Some k)"
    using 1(3) [unfolded eq] by (cases rule: encrypt_with_state_cases)
  ultimately show thesis using that [of k st'] 1(3,5) eq save_identity_trusted by simp
qed

text \<open>Decrypting with a record that has no older sessions uses its current session.\<close>

lemma decrypt_with_single_session:
  assumes "sr_current_session rec = Some st" "sr_previous_sessions rec = []"
    "decrypt_message_with_record E rec m t r = (Ok (ptext, rec'), r')"
  obtains st' where "decrypt_message_with_state E st m t r = (Ok (ptext, st'), r')" "rec' = set_session_state st' rec"
  using assms(3) by (cases rule: decrypt_message_with_record_cases) (use assms(1,2) that in auto)

lemma decrypt_keeps_base_key:
  assumes "decrypt_message_with_state E st m t r = (Ok (ptext, st'), r')" "session_ok st"
    "public_key_ok (sm_sender_ratchet_key m)" "hash_lengths E" "sm_counter m \<noteq> - 1"
  shows "s_alice_base_key st' = s_alice_base_key st" "remote_identity_key st' = remote_identity_key st"
proof -
  have "same_identity st st'" using decrypt_message_with_state_step [OF assms(2-5,1)] by metis
  then show "s_alice_base_key st' = s_alice_base_key st" "remote_identity_key st' = remote_identity_key st"
    by (simp_all add: same_identity_def remote_identity_key_def)
qed

lemma decrypt_clears_pending:
  assumes "decrypt_message_with_state E st m t r = (Ok (ptext, st'), r')"
  shows "s_pending_pre_key st' = None"
  using assms by (cases rule: decrypt_message_with_state_cases) (simp add: clear_unacknowledged_pre_key_message_def)

lemma message_decrypt_signal_holds:
  assumes "holds a base st s" "message_decrypt_signal E m a (s, r) = (Ok ptext, (s', r'))"
    and "session_ok st" "public_key_ok (sm_sender_ratchet_key m)" "hash_lengths E" "sm_counter m \<noteq> - 1"
    and "remote_identity_key st = Ok (Some k)"
  obtains st' where "decrypt_message_with_state E st m Whisper r = (Ok (ptext, st'), r')" "holds a base st' s'"
    "is_trusted_identity a k d s'"
  using assms(2)
proof (cases rule: message_decrypt_signal_cases)
  case (1 rec rec' st0 k')
  obtain rec0 where rec: "load_session a s = Some rec0" "sr_current_session rec0 = Some st" "sr_previous_sessions rec0 = []"
      "s_alice_base_key st = base"
    using assms(1) by (auto simp: holds_def)
  have eq: "rec0 = rec" using 1(1) rec(1) by simp
  obtain st' where st': "decrypt_message_with_state E st m Whisper r = (Ok (ptext, st'), r')" "rec' = set_session_state st' rec"
    using rec(2,3) 1(2) unfolding eq by (rule decrypt_with_single_session)
  note keep = decrypt_keeps_base_key [OF st'(1) assms(3-6)]
  have "st0 = st'" using 1(3) st'(2) by (simp add: set_session_state_def)
  then have "k' = k" using 1(4) keep(2) assms(7) by simp
  moreover have "holds a base st' s'"
    unfolding 1(6) st'(2) using rec(3,4) keep(1) eq by (intro holds_store_session) simp_all
  ultimately show thesis using that [OF st'(1)] 1(6) save_identity_trusted by simp
qed

text \<open>A pre-key message for the session that the store has.\<close>

lemma message_decrypt_prekey_holds:
  assumes "holds a (PublicKey_serialize (pkm_base_key pm)) st s" "message_decrypt_prekey E pm a (s, r) = (Ok ptext, (s', r'))"
    and "session_version st = Ok (ucast (pkm_message_version pm))"
    and "session_ok st" "public_key_ok (sm_sender_ratchet_key (pkm_message pm))" "hash_lengths E"
      "sm_counter (pkm_message pm) \<noteq> - 1"
  obtains st' where "decrypt_message_with_state E st (pkm_message pm) PreKey r = (Ok (ptext, st'), r')"
    "holds a (PublicKey_serialize (pkm_base_key pm)) st' s'" "is_trusted_identity a (pkm_identity_key pm) d s'"
  using assms(2)
proof (cases rule: message_decrypt_prekey_cases)
  case (1 used rec1 rec2 s2)
  obtain rec where rec: "load_session a s = Some rec" "sr_current_session rec = Some st" "sr_previous_sessions rec = []"
      "s_alice_base_key st = PublicKey_serialize (pkm_base_key pm)"
    using assms(1) by (auto simp: holds_def)
  have "session_matches (ucast (pkm_message_version pm)) (PublicKey_serialize (pkm_base_key pm)) st = Ok True"
    using assms(3) rec(4) by (simp add: session_matches_def)
  then have eq: "used = None" "rec1 = rec"
    using 1(2) rec(1,2) by (simp_all add: process_prekey_impl_def promote_matching_session_def)
  obtain st' where st': "decrypt_message_with_state E st (pkm_message pm) PreKey r = (Ok (ptext, st'), r')"
      "rec2 = set_session_state st' rec"
    using rec(2,3) 1(3) unfolding eq(2) by (rule decrypt_with_single_session)
  have "holds a (PublicKey_serialize (pkm_base_key pm)) st' s'"
    unfolding 1(5) st'(2) using rec(3,4) decrypt_keeps_base_key(1) [OF st'(1) assms(4-7)] by (intro holds_store_session) simp_all
  moreover have "s2 = snd (save_identity a (pkm_identity_key pm) s)" using 1(4) eq(1) by (simp add: consume_pre_keys_def)
  ultimately show thesis using that [OF st'(1)] 1(5) save_identity_trusted by simp
qed

subsection \<open>The opening of the conversation\<close>

text \<open>All pre-key messages of Alice's session open the same session: they differ in the signal message only.\<close>

definition same_opening :: "pre_key_signal_message \<Rightarrow> pre_key_signal_message \<Rightarrow> bool" where
  "same_opening pm h \<longleftrightarrow>
     pkm_message_version pm = pkm_message_version h \<and> pkm_registration_id pm = pkm_registration_id h \<and>
     pkm_pre_key_id pm = pkm_pre_key_id h \<and> pkm_signed_pre_key_id pm = pkm_signed_pre_key_id h \<and>
     pkm_kyber_payload pm = pkm_kyber_payload h \<and> pkm_base_key pm = pkm_base_key h \<and>
     pkm_identity_key pm = pkm_identity_key h"

text \<open>The session sends pre-key messages with the opening of \<open>h\<close>, or none any more.\<close>

definition announces :: "pre_key_signal_message \<Rightarrow> session_state \<Rightarrow> bool" where
  "announces h st \<longleftrightarrow> (\<forall>it. unacknowledged_pre_key_message_items st = Ok (Some it) \<longrightarrow>
     pkm_message_version h = 4 \<and> pkm_registration_id h = s_local_registration_id st \<and>
     pkm_pre_key_id h = ui_pre_key_id it \<and> pkm_signed_pre_key_id h = ui_signed_pre_key_id it \<and>
     pkm_kyber_payload h = kyber_payload_of it \<and> pkm_base_key h = ui_base_key it \<and>
     session_version st = Ok 4 \<and> local_identity_key st = Ok (pkm_identity_key h))"

definition delivery_ok :: "pre_key_signal_message \<Rightarrow> delivery \<Rightarrow> bool" where
  "delivery_ok h d \<longleftrightarrow> (case fst d of
       CSignalMessage m \<Rightarrow> m = pc_message (snd d)
     | CPreKeySignalMessage pm \<Rightarrow> pkm_message pm = pc_message (snd d) \<and> same_opening pm h
     | _ \<Rightarrow> False)"

lemma unacknowledged_items_None: "s_pending_pre_key st = None \<Longrightarrow> unacknowledged_pre_key_message_items st = Ok None"
  by (simp add: unacknowledged_pre_key_message_items_def)

lemma announces_None: "s_pending_pre_key st = None \<Longrightarrow> announces h st"
  by (simp add: announces_def unacknowledged_items_None)

lemma encrypt_announces:
  assumes "encrypt_with_state E ptext a now st r = (Ok (msg, k, st'), r')" "signal_part msg = Some m" "announces h st"
  shows "delivery_ok h (msg, \<lparr>pc_message = m, pc_key = key, pc_text = ptext\<rparr>)" "announces h st'"
    "s_pending_pre_key st' = s_pending_pre_key st" "s_pending_pre_key st = None \<Longrightarrow> msg = CSignalMessage m"
    "s_pending_pre_key st \<noteq> None \<Longrightarrow> \<exists>pm. msg = CPreKeySignalMessage pm"
proof -
  have *: "delivery_ok h (msg, \<lparr>pc_message = m, pc_key = key, pc_text = ptext\<rparr>) \<and> announces h st' \<and>
    s_pending_pre_key st' = s_pending_pre_key st \<and> (s_pending_pre_key st = None \<longrightarrow> msg = CSignalMessage m) \<and>
    (s_pending_pre_key st \<noteq> None \<longrightarrow> (\<exists>pm. msg = CPreKeySignalMessage pm))"
    using assms(1)
  proof (cases rule: encrypt_with_state_cases)
    case (1 ck pq key' w mk eph v our_id ct m0 items)
    have same: "s_pending_pre_key st' = s_pending_pre_key st" "s_pending_kyber_pre_key st' = s_pending_kyber_pre_key st"
      "s_local_registration_id st' = s_local_registration_id st" "s_session_version st' = s_session_version st"
      "s_local_identity_public st' = s_local_identity_public st"
      by (simp_all add: 1(13) set_sender_chain_key_def)
    have "unacknowledged_pre_key_message_items st' = unacknowledged_pre_key_message_items st"
      "session_version st' = session_version st" "local_identity_key st' = local_identity_key st"
      by (simp_all add: unacknowledged_pre_key_message_items_def session_version_def local_identity_key_def same
          cong: option.case_cong)
    then have "announces h st' = announces h st" by (simp add: announces_def same(3))
    moreover have "items = None \<longleftrightarrow> s_pending_pre_key st = None"
      using 1(10) by (auto simp: unacknowledged_pre_key_message_items_def result_simps split: option.splits)
    moreover have "delivery_ok h (msg, \<lparr>pc_message = m, pc_key = key, pc_text = ptext\<rparr>)"
      using assms(2,3) 1(5,7,10,12)
      by (cases items) (auto simp: delivery_ok_def signal_part_def announces_def same_opening_def
          PreKeySignalMessage_new_def Let_def)
    ultimately show ?thesis using assms(2,3) 1(12) same(1) by (cases items) (auto simp: signal_part_def)
  qed
  show "delivery_ok h (msg, \<lparr>pc_message = m, pc_key = key, pc_text = ptext\<rparr>)" "announces h st'"
    "s_pending_pre_key st' = s_pending_pre_key st" "s_pending_pre_key st = None \<Longrightarrow> msg = CSignalMessage m"
    "s_pending_pre_key st \<noteq> None \<Longrightarrow> \<exists>pm. msg = CPreKeySignalMessage pm"
    using * by blast+
qed

text \<open>Bob's store before his first decryption: it answers every pre-key message of the opening with the session \<open>st0\<close>.\<close>

definition answers ::
    "'r env \<Rightarrow> protocol_address \<Rightarrow> pre_key_signal_message \<Rightarrow> session_state \<Rightarrow> pre_keys_used \<Rightarrow> protocol_store \<Rightarrow> bool" where
  "answers E a h st0 used s \<longleftrightarrow>
     pkm_message_version h = 4 \<and> load_session a s = None \<and> s_receiver_chains st0 = [] \<and> s_pending_pre_key st0 = None \<and>
     s_alice_base_key st0 = PublicKey_serialize (pkm_base_key h) \<and>
     (\<exists>ps. spqr_initial_state E ps = Ok (s_pq_ratchet_state st0)) \<and>
     (\<forall>pm. same_opening pm h \<longrightarrow> process_prekey E pm a SessionRecord_new_fresh s =
        Ok (Some used, pkm_identity_key h, promote_state E st0 SessionRecord_new_fresh)) \<and>
     is_ok (fst (consume_pre_keys (Some used) (pkm_base_key h) (snd (save_identity a (pkm_identity_key h) s))))"

lemma fresh_record_promoted:
  "sr_current_session (promote_state E st SessionRecord_new_fresh) = Some st"
  "sr_previous_sessions (promote_state E st SessionRecord_new_fresh) = []"
  by (simp_all add: promote_state_def archive_current_state_inner_def SessionRecord_new_fresh_def)

lemma message_decrypt_prekey_answered:
  assumes "answers E a h st0 used s" "same_opening pm h" "message_decrypt_prekey E pm a (s, r) = (Ok ptext, (s', r'))"
    and "session_ok st0" "public_key_ok (sm_sender_ratchet_key (pkm_message pm))" "hash_lengths E"
      "sm_counter (pkm_message pm) \<noteq> - 1"
  obtains st' where "decrypt_message_with_state E st0 (pkm_message pm) PreKey r = (Ok (ptext, st'), r')"
    "holds a (PublicKey_serialize (pkm_base_key h)) st' s'" "is_trusted_identity a (pkm_identity_key h) d s'"
  using assms(3)
proof (cases rule: message_decrypt_prekey_cases)
  case (1 used' rec1 rec2 s2)
  have A: "load_session a s = None" "s_alice_base_key st0 = PublicKey_serialize (pkm_base_key h)"
      "process_prekey E pm a SessionRecord_new_fresh s =
        Ok (Some used, pkm_identity_key h, promote_state E st0 SessionRecord_new_fresh)"
    using assms(1,2) unfolding answers_def by blast+
  have eq: "rec1 = promote_state E st0 SessionRecord_new_fresh"
    using 1(1,2) A(1,3) by (simp add: process_prekey_def)
  obtain st' where st': "decrypt_message_with_state E st0 (pkm_message pm) PreKey r = (Ok (ptext, st'), r')"
      "rec2 = set_session_state st' rec1"
    using decrypt_with_single_session [OF _ _ 1(3), of st0] fresh_record_promoted unfolding eq by metis
  have "holds a (PublicKey_serialize (pkm_base_key h)) st' s'"
    unfolding 1(5) st'(2) using decrypt_keeps_base_key(1) [OF st'(1) assms(4-7)] A(2) fresh_record_promoted(2)
    by (intro holds_store_session) (simp_all add: eq)
  moreover have "is_trusted_identity a (pkm_identity_key h) d s'"
    using consume_pre_keys_frame(2) [OF 1(4)] assms(2) save_identity_trusted
    by (simp add: 1(5) same_opening_def)
  ultimately show thesis using that [OF st'(1)] by simp
qed

end
