(* ===== verification/Store_Simulation.thy ===== *)
theory Store_Simulation
  imports Store_Conversation
begin

text \<open>
  The conversation on stores simulates the conversation on sessions: \<open>represents\<close> relates a network to a conversation
  whose states are the sessions in the stores, where Bob's session counts as made before the first message of Alice
  makes it. With the invariant of \<open>Conversation\<close> this gives what \<open>message_decrypt\<close> returns along the run.
\<close>

subsection \<open>The relation\<close>

definition represents ::
    "(party \<Rightarrow> protocol_address) \<Rightarrow> pre_key_signal_message \<Rightarrow> session_state \<Rightarrow> protocol_store \<Rightarrow>
     (party \<Rightarrow> identity_key) \<Rightarrow> network \<Rightarrow> conversation \<Rightarrow> bool" where
  "represents at h st0 sB ids n c \<longleftrightarrow>
     cv_keys c = nw_keys n \<and> (\<forall>p. cv_inbox c p = map snd (nw_inbox n p)) \<and>
     (\<forall>d \<in> set (nw_inbox n Bob). delivery_ok h d) \<and>
     (\<forall>d \<in> set (nw_inbox n Alice). fst d = CSignalMessage (pc_message (snd d))) \<and>
     (\<forall>p. is_trusted_identity (at p) (ids (other p)) Receiving (nw_store n p)) \<and>
     announces h (cv_state c Alice) \<and>
     holds (at Alice) (PublicKey_serialize (pkm_base_key h)) (cv_state c Alice) (nw_store n Alice) \<and>
     (holds (at Bob) (PublicKey_serialize (pkm_base_key h)) (cv_state c Bob) (nw_store n Bob) \<and>
        s_pending_pre_key (cv_state c Bob) = None \<or>
      nw_store n Bob = sB \<and> cv_state c Bob = st0 \<and> s_pending_pre_key (cv_state c Alice) \<noteq> None \<and>
        nw_inbox n Alice = [] \<and> (\<forall>d \<in> set (nw_inbox n Bob). \<exists>pm. fst d = CPreKeySignalMessage pm))"

lemma representsD:
  assumes "represents at h st0 sB ids n c"
  shows "cv_keys c = nw_keys n" "cv_inbox c p = map snd (nw_inbox n p)"
    "d \<in> set (nw_inbox n Bob) \<Longrightarrow> delivery_ok h d"
    "d \<in> set (nw_inbox n Alice) \<Longrightarrow> fst d = CSignalMessage (pc_message (snd d))"
    "is_trusted_identity (at p) (ids (other p)) t (nw_store n p)" "announces h (cv_state c Alice)"
    "holds (at Alice) (PublicKey_serialize (pkm_base_key h)) (cv_state c Alice) (nw_store n Alice)"
  using assms unfolding represents_def is_trusted_identity_def by blast+

lemma represents_bob:
  assumes "represents at h st0 sB ids n c"
  obtains
    (active) "holds (at Bob) (PublicKey_serialize (pkm_base_key h)) (cv_state c Bob) (nw_store n Bob)"
      "s_pending_pre_key (cv_state c Bob) = None"
  | (waiting) "nw_store n Bob = sB" "cv_state c Bob = st0" "s_pending_pre_key (cv_state c Alice) \<noteq> None"
      "nw_inbox n Alice = []" "\<And>d. d \<in> set (nw_inbox n Bob) \<Longrightarrow> \<exists>pm. fst d = CPreKeySignalMessage pm"
  using assms unfolding represents_def by (elim conjE disjE; use active waiting in blast)

text \<open>What the invariant of a conversation says of one session and of the messages on their way to it.\<close>

lemma conv_inv_session:
  assumes "hash_lengths E" "conv_inv E R ids lim c"
  shows "session_ok (cv_state c v)" "session_version (cv_state c v) = Ok 4"
    "remote_identity_key (cv_state c v) = Ok (Some (ids (other v)))"
    "q \<in> set (cv_inbox c v) \<Longrightarrow> public_key_ok (pc_ratchet q)" "q \<in> set (cv_inbox c v) \<Longrightarrow> pc_counter q \<noteq> - 1"
    "q \<in> set (cv_inbox c v) \<Longrightarrow> sm_message_version (pc_message q) = 4"
proof -
  obtain p x y hs n k where led: "led_by E R ids p x y hs n k c" using assms(2) unfolding conv_inv_def by blast
  show "session_ok (cv_state c v)" "session_version (cv_state c v) = Ok 4"
    by (rule led_by_session(1,2) [OF led])+
  show "remote_identity_key (cv_state c v) = Ok (Some (ids (other v)))"
    using led_byD(4,5) [OF led] other_cases [of v p] by (auto simp: endpoint_def speaks_def)
  show "q \<in> set (cv_inbox c v) \<Longrightarrow> public_key_ok (pc_ratchet q)" using led_by_keys_ok(3) [OF led, of v] by blast
  have "q \<in> set (cv_inbox c v) \<Longrightarrow> pc_counter q \<noteq> - 1 \<and> sm_message_version (pc_message q) = 4"
    using led_by_parcel [OF led, of q] other_cases [of v p] sealed_in_fields(3) by blast
  then show "q \<in> set (cv_inbox c v) \<Longrightarrow> pc_counter q \<noteq> - 1"
    "q \<in> set (cv_inbox c v) \<Longrightarrow> sm_message_version (pc_message q) = 4" by simp_all
qed

subsection \<open>Decrypting from a store\<close>

text \<open>Any successful \<open>message_decrypt\<close> of a message in transit decrypts it with the session of the conversation.\<close>

lemma represents_decrypt:
  assumes laws: "hash_lengths E" and inv: "conv_inv E R ids lim c" "represents at h st0 sB ids n c"
    and bob: "answers E (at Bob) h st0 used sB" "ids Alice = pkm_identity_key h"
    and d: "d \<in> set (nw_inbox n v)"
    and dec: "message_decrypt E (fst d) (at v) (nw_store n v, r) = (Ok ptext, (s', r'))"
  obtains t st' where "decrypt_message_with_state E (cv_state c v) (pc_message (snd d)) t r = (Ok (ptext, st'), r')"
    "holds (at v) (PublicKey_serialize (pkm_base_key h)) st' s'" "is_trusted_identity (at v) (ids (other v)) Receiving s'"
proof -
  have q: "snd d \<in> set (cv_inbox c v)" using d representsD(2) [where p = v, OF inv(2)] by simp
  note session = conv_inv_session [where v = v, OF laws inv(1)]
  note m = session(4,5) [OF q]
  show thesis
  proof (cases "v = Alice \<or> holds (at Bob) (PublicKey_serialize (pkm_base_key h)) (cv_state c Bob) (nw_store n Bob)")
    case True
    then have holds: "holds (at v) (PublicKey_serialize (pkm_base_key h)) (cv_state c v) (nw_store n v)"
      using representsD(7) [OF inv(2)] by (cases v) auto
    show thesis
    proof (cases "fst d")
      case (CSignalMessage m0)
      then have "m0 = pc_message (snd d)"
        using d CSignalMessage representsD(3,4) [where d = d, OF inv(2)] by (cases v) (simp_all add: delivery_ok_def)
      then have "message_decrypt_signal E (pc_message (snd d)) (at v) (nw_store n v, r) = (Ok ptext, (s', r'))"
        using dec CSignalMessage by (simp add: message_decrypt_def)
      then show thesis
        using message_decrypt_signal_holds [OF holds _ session(1) m(1) laws m(2) session(3)] that by metis
    next
      case (CPreKeySignalMessage pm)
      then have v: "v = Bob" using d CPreKeySignalMessage representsD(4) [where d = d, OF inv(2)] by (cases v) simp_all
      then have pm: "pkm_message pm = pc_message (snd d)" "same_opening pm h"
        using d v CPreKeySignalMessage representsD(3) [where d = d, OF inv(2)] by (simp_all add: delivery_ok_def)
      have dec': "message_decrypt_prekey E pm (at v) (nw_store n v, r) = (Ok ptext, (s', r'))"
        using dec CPreKeySignalMessage by (simp add: message_decrypt_def)
      have base: "pkm_base_key pm = pkm_base_key h" and ident: "pkm_identity_key pm = ids (other v)"
        using pm(2) bob(2) v by (simp_all add: same_opening_def)
      have version: "session_version (cv_state c v) = Ok (ucast (pkm_message_version pm))"
        using session(2) pm(2) bob(1) by (simp add: same_opening_def answers_def)
      show thesis
        using message_decrypt_prekey_holds [OF holds [folded base] dec' version session(1)] m laws that pm(1) base ident by metis
    qed (use dec in \<open>simp_all add: message_decrypt_def\<close>)
  next
    case False
    then have v: "v = Bob" and w: "nw_store n Bob = sB" "cv_state c Bob = st0"
        "\<And>d. d \<in> set (nw_inbox n Bob) \<Longrightarrow> \<exists>pm. fst d = CPreKeySignalMessage pm"
      using represents_bob [OF inv(2)] by (cases v; metis)+
    obtain pm where pm: "fst d = CPreKeySignalMessage pm" using w(3) d v by blast
    then have pm': "pkm_message pm = pc_message (snd d)" "same_opening pm h"
      using d v pm representsD(3) [where d = d, OF inv(2)] by (simp_all add: delivery_ok_def)
    have "message_decrypt_prekey E pm (at Bob) (sB, r) = (Ok ptext, (s', r'))"
      using dec pm v w(1) by (simp add: message_decrypt_def)
    then show thesis
      using message_decrypt_prekey_answered [OF bob(1) pm'(2) _ session(1) [unfolded v w(2)]] m laws that pm'(1) v w(2) bob(2)
      by (metis other.simps(2))
  qed
qed

subsection \<open>Simulation\<close>

lemma represents_send:
  assumes laws: "hash_lengths E" and inv: "conv_inv E R ids lim c" "represents at h st0 sB ids n c"
    and bob: "answers E (at Bob) h st0 used sB"
    and enc: "message_encrypt E ptext (at v) now (nw_store n v, r) = (Ok msg, (s', r'))" "signal_part msg = Some m"
      "session_at (at v) (nw_store n v) = Some st"
  obtains k st' where "st = cv_state c v" "encrypt_with_state E ptext (at v) now st r = (Ok (msg, k, st'), r')"
    "represents at h st0 sB ids (nw_post v s' (msg, \<lparr>pc_message = m, pc_key = key, pc_text = ptext\<rparr>) n)
       (post v st' \<lparr>pc_message = m, pc_key = key, pc_text = ptext\<rparr> c)"
proof -
  let ?base = "PublicKey_serialize (pkm_base_key h)"
  note D = representsD [OF inv(2)]
  have "session_at (at Bob) sB = None" using bob by (simp add: answers_def session_at_def)
  then have active: "holds (at Bob) ?base (cv_state c Bob) (nw_store n Bob) \<and> s_pending_pre_key (cv_state c Bob) = None"
    if "v = Bob"
    using represents_bob [OF inv(2)] that enc(3) by (metis option.distinct(1))
  have holds: "holds (at v) ?base (cv_state c v) (nw_store n v)" using active D(7) by (cases v) auto
  then have st: "st = cv_state c v" using holds_session_at enc(3) by fastforce
  obtain k st' where e: "encrypt_with_state E ptext (at v) now st r = (Ok (msg, k, st'), r')" "holds (at v) ?base st' s'"
      "\<And>d. is_trusted_identity (at v) k d s'" "remote_identity_key st = Ok (Some k)"
    using message_encrypt_holds [OF holds enc(1)] st by (metis is_trusted_identity_def)
  have k: "k = ids (other v)" using e(4) conv_inv_session(3) [OF laws inv(1), of v] st by simp
  have "announces h (cv_state c v)" using active D(6) announces_None by (cases v) auto
  note a = encrypt_announces(2-5) [OF e(1) enc(2) this [folded st]]
    and ok = encrypt_announces(1) [where key = key and ptext = ptext, OF e(1) enc(2) this [folded st]]
  have "represents at h st0 sB ids (nw_post v s' (msg, \<lparr>pc_message = m, pc_key = key, pc_text = ptext\<rparr>) n)
       (post v st' \<lparr>pc_message = m, pc_key = key, pc_text = ptext\<rparr> c)"
  proof (cases v)
    case Alice
    then show ?thesis using inv(2) a ok e(2,3) k st unfolding represents_def by simp blast
  next
    case Bob
    then show ?thesis using inv(2) active a ok e(2,3) k st unfolding represents_def by simp
  qed
  then show thesis by (rule that [OF st e(1)])
qed

lemma represents_keys:
  assumes "represents at h st0 sB ids n c" "answers E (at Bob) h st0 used sB" "holds (at v) base st' s'"
  shows "nw_keys_after (session_at (at v) (nw_store n v)) te (session_at (at v) s') (nw_keys n) =
    keys_after (cv_state c v) te st' (cv_keys c)"
proof -
  have after: "session_at (at v) s' = Some st'" using assms(3) by (rule holds_session_at)
  show ?thesis
  proof (cases "holds (at v) (PublicKey_serialize (pkm_base_key h)) (cv_state c v) (nw_store n v)")
    case True
    then show ?thesis using after holds_session_at representsD(1) [OF assms(1)] by (simp add: nw_keys_after_def)
  next
    case False
    then have v: "v = Bob" and w: "nw_store n Bob = sB" "cv_state c Bob = st0"
      using represents_bob [OF assms(1)] representsD(7) [OF assms(1)] by (cases v; metis)+
    have b: "session_at (at Bob) sB = None" "s_receiver_chains st0 = []"
      using assms(2) by (simp_all add: answers_def session_at_def)
    have "get_receiver_chain st0 te = Ok None" by (simp add: get_receiver_chain_def b(2))
    then show ?thesis
      using v w b(1) after representsD(1) [OF assms(1)] by (simp add: nw_keys_after_def keys_after_def)
  qed
qed

lemma represents_receive:
  assumes laws: "hash_lengths E" and inv: "conv_inv E R ids lim c" "represents at h st0 sB ids n c"
    and bob: "answers E (at Bob) h st0 used sB" "ids Alice = pkm_identity_key h"
    and d: "nw_inbox n v = ds @ d # es"
    and dec: "message_decrypt E (fst d) (at v) (nw_store n v, r) = (Ok ptext, (s', r'))"
    and ks: "ks = nw_keys_after (session_at (at v) (nw_store n v)) (pc_ratchet (snd d)) (session_at (at v) s') (nw_keys n)"
  obtains t st' where "decrypt_message_with_state E (cv_state c v) (pc_message (snd d)) t r = (Ok (ptext, st'), r')"
    "ks = keys_after (cv_state c v) (pc_ratchet (snd d)) st' (cv_keys c)"
    "represents at h st0 sB ids (nw_fetch v s' (ds @ es) ks n) (fetch v st' (map snd ds @ map snd es) ks c)"
proof -
  have "d \<in> set (nw_inbox n v)" using d by simp
  then obtain t st' where s: "decrypt_message_with_state E (cv_state c v) (pc_message (snd d)) t r = (Ok (ptext, st'), r')"
      "holds (at v) (PublicKey_serialize (pkm_base_key h)) st' s'" "is_trusted_identity (at v) (ids (other v)) Receiving s'"
    using represents_decrypt [OF laws inv bob _ dec] by metis
  have ks': "ks = keys_after (cv_state c v) (pc_ratchet (snd d)) st' (cv_keys c)"
    unfolding ks by (rule represents_keys [OF inv(2) bob(1) s(2)])
  have pend: "s_pending_pre_key st' = None" using s(1) by (rule decrypt_clears_pending)
  have sub: "set (ds @ es) \<subseteq> set (nw_inbox n v)" using d by auto
  let ?n = "nw_fetch v s' (ds @ es) ks n" and ?c = "fetch v st' (map snd ds @ map snd es) ks c"
  have "\<forall>d \<in> set (nw_inbox ?n Bob). delivery_ok h d"
    "\<forall>d \<in> set (nw_inbox ?n Alice). fst d = CSignalMessage (pc_message (snd d))"
    using sub representsD(3,4) [OF inv(2)] by (cases v; simp; blast)+
  moreover have "\<forall>p. cv_inbox ?c p = map snd (nw_inbox ?n p)" using representsD(2) [OF inv(2)] by simp
  moreover have "\<forall>p. is_trusted_identity (at p) (ids (other p)) Receiving (nw_store ?n p)"
    using s(3) representsD(5) [OF inv(2)] by simp
  moreover have "announces h (cv_state ?c Alice)"
    "holds (at Alice) (PublicKey_serialize (pkm_base_key h)) (cv_state ?c Alice) (nw_store ?n Alice)"
    using announces_None [OF pend] s(2) representsD(6,7) [OF inv(2)] by (cases v; simp)+
  moreover have "holds (at Bob) (PublicKey_serialize (pkm_base_key h)) (cv_state ?c Bob) (nw_store ?n Bob) \<and>
      s_pending_pre_key (cv_state ?c Bob) = None"
  proof (cases v)
    case Alice
    then have "nw_inbox n Alice \<noteq> []" using d by auto
    then show ?thesis using Alice by (cases rule: represents_bob [OF inv(2)]) simp_all
  qed (use s(2) pend in simp)
  ultimately have "represents at h st0 sB ids ?n ?c" unfolding represents_def by simp
  then show thesis by (rule that [OF s(1) ks'])
qed

lemma net_step_simulated:
  assumes laws: "hash_lengths E" and inv: "conv_inv E R ids lim c" "represents at h st0 sB ids n c"
    and bob: "answers E (at Bob) h st0 used sB" "ids Alice = pkm_identity_key h"
    and step: "net_step E at lim n n'"
  obtains c' where "conv_step E lim c c'" "represents at h st0 sB ids n' c'"
  using step
proof cases
  case (send ptext p now r msg s' r' m st pq key w)
  obtain k st' where s: "st = cv_state c p" "encrypt_with_state E ptext (at p) now st r = (Ok (msg, k, st'), r')"
      "represents at h st0 sB ids n' (post p st' \<lparr>pc_message = m, pc_key = key, pc_text = ptext\<rparr> c)"
    using represents_send [OF laws inv bob(1) send(2,3,5), of key] unfolding send(1) by blast
  have "conv_step E lim c (post p st' \<lparr>pc_message = m, pc_key = key, pc_text = ptext\<rparr> c)"
    using s(2) send(3,4,6) unfolding s(1) by (rule conv_step.send)
  then show thesis using that s(3) by blast
next
  case (receive p ds d es r ptext s' r' ks)
  obtain t st' where s: "decrypt_message_with_state E (cv_state c p) (pc_message (snd d)) t r = (Ok (ptext, st'), r')"
      "ks = keys_after (cv_state c p) (pc_ratchet (snd d)) st' (cv_keys c)"
      "represents at h st0 sB ids n' (fetch p st' (map snd ds @ map snd es) ks c)"
    using represents_receive [OF laws inv bob receive(2,4,5)] unfolding receive(1) by blast
  have inbox: "cv_inbox c p = map snd ds @ snd d # map snd es"
    using representsD(2) [where p = p, OF inv(2)] receive(2) by simp
  have ret: "retained (pc_message (snd d)) c"
    using receive(3) representsD(1) [OF inv(2)] by (simp add: retained_def nw_retained_def)
  have "conv_step E lim c (fetch p st' (map snd ds @ map snd es) ks c)"
    using inbox ret s(1,2) receive(6) by (rule conv_step.receive)
  then show thesis using s(3) by (rule that)
qed

subsection \<open>What a run delivers\<close>

definition net_inv ::
    "'r env \<Rightarrow> (bytes \<Rightarrow> bytes \<Rightarrow> (bytes \<times> bytes option) multiset \<Rightarrow> (bytes \<times> bytes option) multiset \<Rightarrow> bool) \<Rightarrow>
     (party \<Rightarrow> identity_key) \<Rightarrow> u32 \<Rightarrow> (party \<Rightarrow> protocol_address) \<Rightarrow> pre_key_signal_message \<Rightarrow> session_state \<Rightarrow>
     protocol_store \<Rightarrow> network \<Rightarrow> bool" where
  "net_inv E R ids lim at h st0 sB n \<longleftrightarrow> (\<exists>c. conv_inv E R ids lim c \<and> represents at h st0 sB ids n c)"

lemma net_reachable_simulated:
  assumes laws: "hash_lengths E" "cbc_ok E" "dh_ok E" "curve_lengths E" "rng_length E" "spqr_channel E R"
    and bob: "answers E (at Bob) h st0 used sB" "ids Alice = pkm_identity_key h"
    and run: "net_reachable E at lim n n'" "conv_inv E R ids lim c" "represents at h st0 sB ids n c"
  shows "\<exists>c'. conv_reachable E lim c c' \<and> conv_inv E R ids lim c' \<and> represents at h st0 sB ids n' c'"
  using run(1) unfolding net_reachable_def
proof (induction rule: rtranclp_induct)
  case base
  then show ?case using run(2,3) by (auto simp: conv_reachable_def)
next
  case (step n1 n2)
  then obtain c1 where c1: "conv_reachable E lim c c1" "conv_inv E R ids lim c1" "represents at h st0 sB ids n1 c1" by blast
  obtain c2 where c2: "conv_step E lim c1 c2" "represents at h st0 sB ids n2 c2"
    using net_step_simulated [OF laws(1) c1(2,3) bob step(2)] by blast
  have "conv_reachable E lim c c2" using c1(1) c2(1) unfolding conv_reachable_def by (rule rtranclp.rtrancl_into_rtrancl)
  then show ?case using conv_inv_step [OF laws c2(1) c1(2)] c2(2) by blast
qed

lemma net_inv_reachable:
  assumes "hash_lengths E" "cbc_ok E" "dh_ok E" "curve_lengths E" "rng_length E" "spqr_channel E R"
    and "answers E (at Bob) h st0 used sB" "ids Alice = pkm_identity_key h"
    and "net_reachable E at lim n n'" "net_inv E R ids lim at h st0 sB n"
  shows "net_inv E R ids lim at h st0 sB n'"
  using assms(10) net_reachable_simulated [where at = at and ids = ids, OF assms(1-9)] unfolding net_inv_def by blast

text \<open>What \<open>message_decrypt\<close> returns is what was encrypted.\<close>

lemma net_inv_reads:
  assumes laws: "hash_lengths E" "cbc_ok E" "dh_ok E" "curve_lengths E" "rng_length E" "spqr_channel E R"
    and bob: "answers E (at Bob) h st0 used sB" "ids Alice = pkm_identity_key h"
    and inv: "net_inv E R ids lim at h st0 sB n"
    and d: "d \<in> set (nw_inbox n v)" "nw_retained (pc_message (snd d)) n"
    and dec: "message_decrypt E (fst d) (at v) (nw_store n v, r) = (Ok ptext, (s', r'))"
  shows "ptext = pc_text (snd d)"
proof -
  obtain c where c: "conv_inv E R ids lim c" "represents at h st0 sB ids n c" using inv unfolding net_inv_def by blast
  obtain t st' where "decrypt_message_with_state E (cv_state c v) (pc_message (snd d)) t r = (Ok (ptext, st'), r')"
    using represents_decrypt [OF laws(1) c bob d(1) dec] by metis
  moreover have "snd d \<in> set (cv_inbox c v)" using d(1) representsD(2) [where p = v, OF c(2)] by simp
  moreover have "retained (pc_message (snd d)) c"
    using d(2) representsD(1) [OF c(2)] by (simp add: retained_def nw_retained_def)
  ultimately show ?thesis using conv_inv_reads [OF laws c(1)] by blast
qed

text \<open>The calls succeed when the session decrypts.\<close>

lemma conv_inv_decrypted:
  assumes laws: "hash_lengths E" "cbc_ok E" "dh_ok E" "curve_lengths E" "rng_length E" "spqr_channel E R"
    and inv: "conv_inv E R ids lim c" "q \<in> set (cv_inbox c v)" "retained (pc_message q) c"
    and dec: "decrypt_message_with_state E (cv_state c v) (pc_message q) t r = (Ok (ptext, st'), r')"
  shows "log_base_key E st' = Ok ()" "remote_identity_key st' = Ok (Some (ids (other v)))"
proof -
  obtain p x y hs n k where led: "led_by E R ids p x y hs n k c" using inv(1) unfolding conv_inv_def by blast
  have "\<exists>z i xs. endpoint E z i xs (ids v) (ids (other v)) st' \<and> epoch_ok E z"
    using laws led inv(2,3) dec
  proof (cases rule: led_by_reads)
    case leads
    then show ?thesis using history_epoch_ok [OF led_byD(1) [OF led], of x] by auto
  next
    case trails
    then show ?thesis using history_epoch_ok [OF led_byD(1) [OF led], of y] by auto
  next
    case (ratchets z)
    then show ?thesis using history_epoch_ok [OF ratchets(5), of z] by auto
  qed
  then obtain z i xs where e: "endpoint E z i xs (ids v) (ids (other v)) st'" "epoch_ok E z" by blast
  then have "sends_in E z i st'" by (simp add: endpoint_def)
  then have "sender_ratchet_key st' = Ok (ep_public z)" using e(2) laws(1) by (rule sends_in_reads(3))
  then show "log_base_key E st' = Ok ()" by (simp add: log_base_key_def)
  show "remote_identity_key st' = Ok (Some (ids (other v)))" using e(1) by (simp add: endpoint_def speaks_def)
qed

lemma record_decrypts:
  assumes "sr_current_session rec = Some st" "decrypt_message_with_state E st m t r = (Ok (ptext, st'), r')"
    "log_base_key E st' = Ok ()"
  shows "decrypt_message_with_record E rec m t r = (Ok (ptext, set_session_state st' rec), r')"
  using assms by (simp add: decrypt_message_with_record_def)

lemma message_decrypt_eqs:
  "message_decrypt E (CSignalMessage m) a w = message_decrypt_signal E m a w"
  "message_decrypt E (CPreKeySignalMessage pm) a w = message_decrypt_prekey E pm a w"
  by (simp_all add: message_decrypt_def)

lemma message_decrypt_signal_succeeds:
  assumes "holds a base st s" "decrypt_message_with_state E st m Whisper r = (Ok (ptext, st'), r')"
    "log_base_key E st' = Ok ()" "remote_identity_key st' = Ok (Some k)" "is_trusted_identity a k Receiving s"
  shows "\<exists>s'. message_decrypt_signal E m a (s, r) = (Ok ptext, (s', r'))"
proof -
  obtain rec where rec: "load_session a s = Some rec" "sr_current_session rec = Some st" using assms(1) by (auto simp: holds_def)
  note dec = record_decrypts [OF rec(2) assms(2,3)]
  show ?thesis using rec(1) dec assms(4,5) by (simp add: message_decrypt_signal_def set_session_state_def Let_def)
qed

lemma process_prekey_holds:
  assumes "holds a (PublicKey_serialize (pkm_base_key pm)) st s"
    "session_version st = Ok (ucast (pkm_message_version pm))" "is_trusted_identity a (pkm_identity_key pm) Receiving s"
  obtains rec where "load_session a s = Some rec" "sr_current_session rec = Some st"
    "process_prekey E pm a rec s = Ok (None, pkm_identity_key pm, rec)"
proof -
  obtain rec where rec: "load_session a s = Some rec" "sr_current_session rec = Some st"
      "s_alice_base_key st = PublicKey_serialize (pkm_base_key pm)"
    using assms(1) by (auto simp: holds_def)
  then have "session_matches (ucast (pkm_message_version pm)) (PublicKey_serialize (pkm_base_key pm)) st = Ok True"
    using assms(2) by (simp add: session_matches_def)
  then show thesis using that rec(1,2) process_prekey_again [OF rec(2) assms(3)] by blast
qed

lemma message_decrypt_prekey_succeeds:
  assumes "holds a (PublicKey_serialize (pkm_base_key pm)) st s"
    "session_version st = Ok (ucast (pkm_message_version pm))" "is_trusted_identity a (pkm_identity_key pm) Receiving s"
    "decrypt_message_with_state E st (pkm_message pm) PreKey r = (Ok (ptext, st'), r')" "log_base_key E st' = Ok ()"
  shows "\<exists>s'. message_decrypt_prekey E pm a (s, r) = (Ok ptext, (s', r'))"
proof -
  obtain rec where rec: "load_session a s = Some rec" "sr_current_session rec = Some st"
    "process_prekey E pm a rec s = Ok (None, pkm_identity_key pm, rec)"
    using assms(1-3) by (rule process_prekey_holds)
  note dec = record_decrypts [OF rec(2) assms(4,5)]
  show ?thesis using rec(1,3) dec by (simp add: message_decrypt_prekey_def consume_pre_keys_def Let_def)
qed

lemma is_ok_unit: "is_ok x \<Longrightarrow> x = Ok ()"
  by (cases x) simp_all

lemma message_decrypt_prekey_answers:
  assumes "answers E a h st0 used s" "same_opening pm h"
    "decrypt_message_with_state E st0 (pkm_message pm) PreKey r = (Ok (ptext, st'), r')" "log_base_key E st' = Ok ()"
  shows "\<exists>s'. message_decrypt_prekey E pm a (s, r) = (Ok ptext, (s', r'))"
proof -
  let ?rec = "promote_state E st0 SessionRecord_new_fresh"
  have A: "load_session a s = None" "process_prekey E pm a SessionRecord_new_fresh s = Ok (Some used, pkm_identity_key h, ?rec)"
      "is_ok (fst (consume_pre_keys (Some used) (pkm_base_key pm) (snd (save_identity a (pkm_identity_key h) s))))"
    using assms(1,2) same_opening_def [of pm h] unfolding answers_def by simp_all
  obtain s2 where x: "consume_pre_keys (Some used) (pkm_base_key pm) (snd (save_identity a (pkm_identity_key h) s)) = (Ok (), s2)"
    using A(3) is_ok_unit by (metis prod.collapse)
  note dec = record_decrypts [OF fresh_record_promoted(1) assms(3,4)]
  have "message_decrypt_prekey E pm a (s, r) = (Ok ptext, (store_session a (set_session_state st' ?rec) s2, r'))"
    unfolding message_decrypt_prekey_def Let_def prod.case A(1) option.case A(2) result.case dec x ..
  then show ?thesis by blast
qed

text \<open>The receiver's post-quantum ratchet accepts the message; a ratchet that was just made, when there is no session yet.\<close>

definition ratchet_accepts :: "'r env \<Rightarrow> protocol_address \<Rightarrow> protocol_store \<Rightarrow> bytes \<Rightarrow> bool" where
  "ratchet_accepts E a s w \<longleftrightarrow> (case session_at a s of
       Some st \<Rightarrow> is_ok (spqr_recv E (s_pq_ratchet_state st) w)
     | None \<Rightarrow> (\<forall>ps b. spqr_initial_state E ps = Ok b \<longrightarrow> is_ok (spqr_recv E b w)))"

text \<open>How a delivery reaches the session: to one that a store holds, or to the one that Bob's store answers with.\<close>

lemma held_route:
  assumes laws: "hash_lengths E" and inv: "conv_inv E R ids lim c" "represents at h st0 sB ids n c"
    and bob: "answers E (at Bob) h st0 used sB" "ids Alice = pkm_identity_key h"
    and d: "v = Alice \<longrightarrow> fst d = CSignalMessage (pc_message (snd d))" "v = Bob \<longrightarrow> delivery_ok h d"
    and held: "holds (at v) (PublicKey_serialize (pkm_base_key h)) (cv_state c v) (nw_store n v)"
  obtains
    (signal) "fst d = CSignalMessage (pc_message (snd d))"
  | (prekey) pm where "fst d = CPreKeySignalMessage pm" "pkm_message pm = pc_message (snd d)"
      "holds (at v) (PublicKey_serialize (pkm_base_key pm)) (cv_state c v) (nw_store n v)"
      "session_version (cv_state c v) = Ok (ucast (pkm_message_version pm))"
      "is_trusted_identity (at v) (pkm_identity_key pm) Receiving (nw_store n v)"
proof -
  have ok: "delivery_ok h d" using d by (cases v) (simp_all add: delivery_ok_def)
  show thesis
  proof (cases "fst d")
    case (CPreKeySignalMessage pm)
    then have v: "v = Bob" using d(1) by (cases v) simp_all
    have pm: "pkm_message pm = pc_message (snd d)" "same_opening pm h"
      using ok CPreKeySignalMessage by (simp_all add: delivery_ok_def)
    have "pkm_message_version h = 4" using bob(1) by (simp add: answers_def)
    then show thesis
      using prekey [OF CPreKeySignalMessage pm(1)] held pm(2) v bob(2) conv_inv_session(2) [OF laws inv(1), of v]
        representsD(5) [where p = v and t = Receiving, OF inv(2)] by (simp add: same_opening_def)
  qed (use ok signal in \<open>simp_all add: delivery_ok_def\<close>)
qed

lemma represents_route:
  assumes laws: "hash_lengths E" and inv: "conv_inv E R ids lim c" "represents at h st0 sB ids n c"
    and bob: "answers E (at Bob) h st0 used sB" "ids Alice = pkm_identity_key h" and d: "d \<in> set (nw_inbox n v)"
  obtains
    (held) "holds (at v) (PublicKey_serialize (pkm_base_key h)) (cv_state c v) (nw_store n v)"
      "v = Alice \<longrightarrow> fst d = CSignalMessage (pc_message (snd d))" "v = Bob \<longrightarrow> delivery_ok h d"
  | (first) pm where "fst d = CPreKeySignalMessage pm" "pkm_message pm = pc_message (snd d)" "same_opening pm h"
      "v = Bob" "nw_store n v = sB" "cv_state c v = st0"
proof -
  note ok = representsD(3,4) [where d = d, OF inv(2)]
  show thesis
  proof (cases "v = Alice \<or> holds (at Bob) (PublicKey_serialize (pkm_base_key h)) (cv_state c Bob) (nw_store n Bob)")
    case True
    then have "holds (at v) (PublicKey_serialize (pkm_base_key h)) (cv_state c v) (nw_store n v)"
      using representsD(7) [OF inv(2)] by (cases v) auto
    then show thesis by (rule held) (use d ok in auto)
  next
    case False
    then have v: "v = Bob" and w: "nw_store n Bob = sB" "cv_state c Bob = st0"
        "\<And>d. d \<in> set (nw_inbox n Bob) \<Longrightarrow> \<exists>pm. fst d = CPreKeySignalMessage pm"
      using represents_bob [OF inv(2)] by (cases v; metis)+
    obtain pm where pm: "fst d = CPreKeySignalMessage pm" using w(3) d v by blast
    then show thesis using first [OF pm] d v ok(1) w(1,2) by (simp add: delivery_ok_def)
  qed
qed

text \<open>Every message in transit that the ratchet accepts is decrypted.\<close>

lemma net_inv_delivers:
  assumes laws: "hash_lengths E" "cbc_ok E" "dh_ok E" "curve_lengths E" "rng_length E" "spqr_channel E R"
    and bob: "answers E (at Bob) h st0 used sB" "ids Alice = pkm_identity_key h"
    and inv: "net_inv E R ids lim at h st0 sB n" "unat lim \<le> MAX_MESSAGE_KEYS"
    and d: "d \<in> set (nw_inbox n v)" "nw_retained (pc_message (snd d)) n"
    and recv: "ratchet_accepts E (at v) (nw_store n v) (sm_pq_ratchet (pc_message (snd d)))"
  shows "\<exists>s' r'. message_decrypt E (fst d) (at v) (nw_store n v, r) = (Ok (pc_text (snd d)), (s', r'))"
proof -
  obtain c where c: "conv_inv E R ids lim c" "represents at h st0 sB ids n c" using inv(1) unfolding net_inv_def by blast
  have q: "snd d \<in> set (cv_inbox c v)" using d(1) representsD(2) [where p = v, OF c(2)] by simp
  have ret: "retained (pc_message (snd d)) c"
    using d(2) representsD(1) [OF c(2)] by (simp add: retained_def nw_retained_def)
  have dec: "\<exists>st' r'. decrypt_message_with_state E (cv_state c v) (pc_message (snd d)) t r = (Ok (pc_text (snd d), st'), r') \<and>
      log_base_key E st' = Ok () \<and> remote_identity_key st' = Ok (Some (ids (other v)))"
    if acc: "is_ok (spqr_recv E (s_pq_ratchet_state (cv_state c v)) (sm_pq_ratchet (pc_message (snd d))))" for t
  proof -
    obtain pq key where "spqr_recv E (s_pq_ratchet_state (cv_state c v)) (sm_pq_ratchet (pc_message (snd d))) = Ok (pq, key)"
      using acc by (cases "spqr_recv E (s_pq_ratchet_state (cv_state c v)) (sm_pq_ratchet (pc_message (snd d)))") auto
    then obtain st' r' where
        dec: "decrypt_message_with_state E (cv_state c v) (pc_message (snd d)) t r = (Ok (pc_text (snd d), st'), r')"
      using conv_inv_delivers [OF laws c(1) inv(2) q ret] by blast
    then show ?thesis using conv_inv_decrypted [OF laws c(1) q ret] by blast
  qed
  note trusted = representsD(5) [where p = v and t = Receiving, OF c(2)]
  from laws(1) c bob d(1) show ?thesis
  proof (cases rule: represents_route)
    case held
    have acc: "is_ok (spqr_recv E (s_pq_ratchet_state (cv_state c v)) (sm_pq_ratchet (pc_message (snd d))))"
      using recv holds_session_at [OF held(1)] by (simp add: ratchet_accepts_def)
    from laws(1) c bob held(2,3,1) show ?thesis
    proof (cases rule: held_route)
      case signal
      obtain st' r' where x: "decrypt_message_with_state E (cv_state c v) (pc_message (snd d)) Whisper r = (Ok (pc_text (snd d), st'), r')"
          "log_base_key E st' = Ok ()" "remote_identity_key st' = Ok (Some (ids (other v)))"
        using dec [OF acc, of Whisper] by blast
      show ?thesis
        unfolding signal message_decrypt_eqs using message_decrypt_signal_succeeds [OF held(1) x trusted] by blast
    next
      case (prekey pm)
      obtain st' r' where x: "decrypt_message_with_state E (cv_state c v) (pkm_message pm) PreKey r = (Ok (pc_text (snd d), st'), r')"
          "log_base_key E st' = Ok ()"
        using dec [OF acc, of PreKey] prekey(2) by auto
      show ?thesis
        unfolding prekey(1) message_decrypt_eqs using message_decrypt_prekey_succeeds [OF prekey(3-5) x] by blast
    qed
  next
    case (first pm)
    have "session_at (at Bob) sB = None" "\<exists>ps. spqr_initial_state E ps = Ok (s_pq_ratchet_state st0)"
      using bob(1) by (simp_all add: answers_def session_at_def)
    then have "is_ok (spqr_recv E (s_pq_ratchet_state (cv_state c v)) (sm_pq_ratchet (pc_message (snd d))))"
      using recv first(4-6) by (auto simp: ratchet_accepts_def)
    then obtain st' r' where x: "decrypt_message_with_state E st0 (pkm_message pm) PreKey r = (Ok (pc_text (snd d), st'), r')"
        "log_base_key E st' = Ok ()"
      using dec [of PreKey] first(2,6) by auto
    show ?thesis
      unfolding first(1,4) message_decrypt_eqs
      using message_decrypt_prekey_answers [OF bob(1) first(3) x] first(4,5) by auto
  qed
qed

text \<open>A message that was decrypted is refused from then on, and the store is left as it is.\<close>

lemma duplicate_signal_refused:
  assumes "holds a base st s" "decrypt_message_with_state E st m Whisper r = (Err (DuplicatedMessage i j), r')"
  shows "message_decrypt_signal E m a (s, r) = (Err (DuplicatedMessage i j), (s, r'))"
  using assms by (auto simp: holds_def message_decrypt_signal_def decrypt_message_with_record_def is_duplicated_def)

lemma duplicate_prekey_refused:
  assumes "holds a (PublicKey_serialize (pkm_base_key pm)) st s"
    "session_version st = Ok (ucast (pkm_message_version pm))" "is_trusted_identity a (pkm_identity_key pm) Receiving s"
    "decrypt_message_with_state E st (pkm_message pm) PreKey r = (Err (DuplicatedMessage i j), r')"
  shows "message_decrypt_prekey E pm a (s, r) = (Err (DuplicatedMessage i j), (s, r'))"
proof -
  obtain rec where rec: "load_session a s = Some rec" "sr_current_session rec = Some st"
    "process_prekey E pm a rec s = Ok (None, pkm_identity_key pm, rec)"
    using assms(1-3) by (rule process_prekey_holds)
  have "decrypt_message_with_record E rec (pkm_message pm) PreKey r = (Err (DuplicatedMessage i j), r')"
    using rec(2) assms(4) by (simp add: decrypt_message_with_record_def is_duplicated_def)
  then show ?thesis using rec(1,3) by (simp add: message_decrypt_prekey_def Let_def)
qed

lemma net_inv_refuses_replay:
  assumes laws: "hash_lengths E" "cbc_ok E" "dh_ok E" "curve_lengths E" "rng_length E" "spqr_channel E R"
    and bob: "answers E (at Bob) h st0 used sB" "ids Alice = pkm_identity_key h"
    and inv: "net_inv E R ids lim at h st0 sB n"
    and d: "nw_inbox n v = ds @ d # es" "nw_retained (pc_message (snd d)) n"
    and dec: "message_decrypt E (fst d) (at v) (nw_store n v, r) = (Ok ptext, (s', r'))"
    and ks: "ks = nw_keys_after (session_at (at v) (nw_store n v)) (pc_ratchet (snd d)) (session_at (at v) s') (nw_keys n)"
      "distinct ks"
    and run: "net_reachable E at lim (nw_fetch v s' (ds @ es) ks n) n2" "nw_retained (pc_message (snd d)) n2"
  shows "\<exists>i. message_decrypt E (fst d) (at v) (nw_store n2 v, r2) =
    (Err (DuplicatedMessage i (pc_counter (snd d))), (nw_store n2 v, r2))"
proof -
  obtain c where c: "conv_inv E R ids lim c" "represents at h st0 sB ids n c" using inv unfolding net_inv_def by blast
  obtain t st' where s: "decrypt_message_with_state E (cv_state c v) (pc_message (snd d)) t r = (Ok (ptext, st'), r')"
      "ks = keys_after (cv_state c v) (pc_ratchet (snd d)) st' (cv_keys c)"
      "represents at h st0 sB ids (nw_fetch v s' (ds @ es) ks n) (fetch v st' (map snd ds @ map snd es) ks c)"
    using represents_receive [OF laws(1) c bob d(1) dec ks(1)] by blast
  have inbox: "cv_inbox c v = map snd ds @ snd d # map snd es"
    using representsD(2) [where p = v, OF c(2)] d(1) by simp
  have ret: "retained (pc_message (snd d)) c"
    using d(2) representsD(1) [OF c(2)] by (simp add: retained_def nw_retained_def)
  let ?c1 = "fetch v st' (map snd ds @ map snd es) ks c"
  have del: "delivered E R ids v (pc_message (snd d)) ?c1"
    by (rule decrypt_delivers [OF laws c(1) inbox ret s(1,2) ks(2)])
  have inv1: "conv_inv E R ids lim ?c1" by (rule conv_inv_receive [OF laws c(1) inbox ret s(1,2) ks(2)])
  obtain c2 where c2: "conv_reachable E lim ?c1 c2" "conv_inv E R ids lim c2" "represents at h st0 sB ids n2 c2"
    using net_reachable_simulated [where at = at and ids = ids, OF laws bob run(1) inv1 s(3)] by blast
  have del2: "delivered E R ids v (pc_message (snd d)) c2" by (rule delivered_reachable [OF laws c2(1) del])
  have ret2: "retained (pc_message (snd d)) c2"
    using run(2) representsD(1) [OF c2(3)] by (simp add: retained_def nw_retained_def)
  have "snd d \<in> set (cv_inbox c v)" using inbox by simp
  then have v4: "sm_message_version (pc_message (snd d)) = 4" by (rule conv_inv_session(6) [OF laws(1) c(1)])
  have dup: "\<exists>i. decrypt_message_with_state E (cv_state c2 v) (pc_message (snd d)) t r2 =
      (Err (DuplicatedMessage i (pc_counter (snd d))), r2)" for t
    by (rule delivered_is_duplicate [OF del2 ret2 v4])
  obtain c0 i where chain: "get_receiver_chain (cv_state c2 v) (pc_ratchet (snd d)) = Ok (Some (c0, i))"
    by (rule delivered_chain [OF del2 ret2])
  have "s_receiver_chains st0 = []" using bob(1) by (simp add: answers_def)
  then have "cv_state c2 v \<noteq> st0" using chain by (auto simp: get_receiver_chain_def)
  then have held: "holds (at v) (PublicKey_serialize (pkm_base_key h)) (cv_state c2 v) (nw_store n2 v)"
    using represents_bob [OF c2(3)] representsD(7) [OF c2(3)] by (cases v) metis+
  have "d \<in> set (nw_inbox n v)" using d(1) by simp
  then have ok: "v = Alice \<longrightarrow> fst d = CSignalMessage (pc_message (snd d))" "v = Bob \<longrightarrow> delivery_ok h d"
    using representsD(3,4) [where d = d, OF c(2)] by auto
  from laws(1) c2(2,3) bob ok held show ?thesis
  proof (cases rule: held_route)
    case signal
    show ?thesis
      unfolding signal message_decrypt_eqs using dup [of Whisper] duplicate_signal_refused [OF held] by fastforce
  next
    case (prekey pm)
    show ?thesis
      unfolding prekey(1) message_decrypt_eqs
      using dup [of PreKey] duplicate_prekey_refused [OF prekey(3-5)] prekey(2) by fastforce
  qed
qed

end
