(* ===== verification/Store_Start.thy ===== *)
theory Store_Start
  imports Store_Simulation
begin

text \<open>
  How a conversation on stores begins: Alice's \<open>process_prekey_bundle\<close> leaves a store whose session announces itself,
  and Bob's store answers the announcement with the matching session. This is the start of the simulation.
\<close>

definition opened ::
    "'r env \<Rightarrow> (party \<Rightarrow> protocol_address) \<Rightarrow> pre_key_bundle \<Rightarrow> protocol_store \<Rightarrow> protocol_store \<Rightarrow> public_key \<Rightarrow>
     protocol_store \<Rightarrow> bool" where
  "opened E at bundle sA sA1 kA sB \<longleftrightarrow>
     id_identity_key (get_identity_key_pair sA) = PrivateKey_public_key E (id_private_key (get_identity_key_pair sA)) \<and>
     load_session (at Alice) sA = None \<and>
     (\<exists>now r r1. process_prekey_bundle E (at Alice) bundle now (sA, r) = (Ok (), (sA1, r1)) \<and>
        is_canonical E (kp_public_key (fst (KeyPair_generate E r)))) \<and>
     (\<exists>st. session_at (at Alice) sA1 = Some st \<and> sender_ratchet_key st = Ok kA) \<and>
     kA \<noteq> esp_public_key (b_ec_signed_pre_key bundle) \<and>
     (\<exists>spk kyber otk. serves_bundle E bundle spk kyber otk sB) \<and> load_session (at Bob) sB = None \<and>
     is_trusted_identity (at Bob) (id_identity_key (get_identity_key_pair sA)) Receiving sB \<and>
     base_keys_seen (kpk_id (b_kyber_pre_key bundle)) (esp_id (b_ec_signed_pre_key bundle)) sB = []"

text \<open>The session that Alice stores for a bundle, and the message data it announces.\<close>

lemma bundle_session:
  assumes "process_prekey_bundle E a bundle now (s, r) = (Ok (), (s1, r1))" "load_session a s = None"
    and "hash_lengths E" "curve_lengths E" "rng_length E" "public_key_ok (id_identity_key (get_identity_key_pair s))"
  obtains base r0 st st' ct h where
    "KeyPair_generate E r = (base, r0)"
    "initialize_alice_session E (bundle_parameters (get_identity_key_pair s) base bundle) r0 = (Ok st, r1)"
    "sends_as st st'" "get_kyber_ciphertext st = Some ct" "s_pending_pre_key st' \<noteq> None"
    "holds a (PublicKey_serialize (kp_public_key base)) st' s1" "announces h st'"
    "is_trusted_identity a (b_identity_key bundle) d s1"
    "pkm_message_version h = 4" "pkm_pre_key_id h = b_pre_key_id bundle"
    "pkm_signed_pre_key_id h = esp_id (b_ec_signed_pre_key bundle)"
    "pkm_kyber_payload h = Some \<lparr>kyp_pre_key_id = kpk_id (b_kyber_pre_key bundle), kyp_ciphertext = ct\<rparr>"
    "pkm_base_key h = kp_public_key base" "pkm_identity_key h = id_identity_key (get_identity_key_pair s)"
  using assms(1)
proof (cases rule: process_prekey_bundle_cases)
  case b: (1 base r0 st st1 rec)
  let ?st = "set_remote_registration_id (b_registration_id bundle)
      (set_local_registration_id (get_local_registration_id s) st1)"
  have as: "sends_as st ?st"
    using set_unacknowledged_kyber_pre_key_id_Ok(1) [OF b(3)] sends_as_setters sends_as_trans by metis
  have pend: "s_pending_pre_key ?st = Some \<lparr>ppk_pre_key_id = b_pre_key_id bundle,
      ppk_signed_pre_key_id = esp_id (b_ec_signed_pre_key bundle),
      ppk_base_key = PublicKey_serialize (kp_public_key base), ppk_timestamp = secs_since_epoch now\<rparr>"
    using set_unacknowledged_kyber_pre_key_id_Ok(2) [OF b(3)]
    by (simp add: set_unacknowledged_pre_key_message_def set_local_registration_id_def set_remote_registration_id_def)
  obtain ct where ct: "s_pending_kyber_pre_key st1 = Some \<lparr>pkk_pre_key_id = kpk_id (b_kyber_pre_key bundle), pkk_ciphertext = ct\<rparr>"
    using set_unacknowledged_kyber_pre_key_id_Ok(4) [OF b(3)]
    by (auto intro: that pb_pending_kyber_pre_key.equality) (metis (full_types) pb_pending_kyber_pre_key.surjective old.unit.exhaust)
  have ct0: "get_kyber_ciphertext st = Some ct"
    using set_unacknowledged_kyber_pre_key_id_Ok(3) [OF b(3)] ct
    by (simp add: get_kyber_ciphertext_def set_unacknowledged_pre_key_message_def)
  have base: "public_key_ok (kp_public_key base)" using KeyPair_generate_ok(1) [OF assms(4,5), of r] b(1) by simp
  define sm :: signal_message where "sm = undefined"
  define h where "h = \<lparr>pkm_message_version = 4, pkm_registration_id = s_local_registration_id ?st,
      pkm_pre_key_id = b_pre_key_id bundle, pkm_signed_pre_key_id = esp_id (b_ec_signed_pre_key bundle),
      pkm_kyber_payload = Some \<lparr>kyp_pre_key_id = kpk_id (b_kyber_pre_key bundle), kyp_ciphertext = ct\<rparr>,
      pkm_base_key = kp_public_key base, pkm_identity_key = id_identity_key (get_identity_key_pair s),
      pkm_message = sm, pkm_serialized = []\<rparr>"
  have own: "public_key_ok (id_identity_key (ap_our_identity_key_pair
      (bundle_parameters (get_identity_key_pair s) base bundle)))"
    using assms(6) by (simp add: bundle_parameters_def)
  note reads = initialize_alice_session_reads [OF b(2) own]
  have ours: "ap_our_identity_key_pair (bundle_parameters (get_identity_key_pair s) base bundle) = get_identity_key_pair s"
    by (simp add: bundle_parameters_def)
  have ann: "announces h ?st"
    using pend ct base reads sends_as_reads [OF as]
    by (auto simp: announces_def h_def ours unacknowledged_pre_key_message_items_def public_key_serde.de_ser result_simps
        kyber_payload_of_def set_local_registration_id_def set_remote_registration_id_def)
  have key: "s_alice_base_key ?st = PublicKey_serialize (kp_public_key base)"
  proof -
    obtain ct kp ck' ck rk' pq where "st = alice_session (bundle_parameters (get_identity_key_pair s) base bundle) rk' ck kp ck' ct pq"
      using b(2) by (cases rule: initialize_alice_session_cases) (auto simp: alice_session_def)
    then have "s_alice_base_key st = PublicKey_serialize (kp_public_key base)"
      by (simp add: session_unfold bundle_parameters_def)
    then show ?thesis
      using b(3) by (auto simp: set_unacknowledged_kyber_pre_key_id_def set_unacknowledged_pre_key_message_def
          set_local_registration_id_def set_remote_registration_id_def result_simps)
  qed
  have rec: "rec = SessionRecord_new_fresh" using b(4) assms(2) by simp
  have held: "holds a (PublicKey_serialize (kp_public_key base)) ?st s1"
    using key by (simp add: holds_def b(5) rec sessions.load_store_same fresh_record_promoted)
  have trust: "is_trusted_identity a (b_identity_key bundle) d s1"
    by (simp add: b(5) save_identity_trusted)
  show thesis
    by (rule that [OF b(1,2) as ct0 _ held ann trust]) (simp_all add: pend h_def)
qed

text \<open>Bob's store answers the announcement.\<close>

lemma initialize_bob_session_spqr:
  assumes "initialize_bob_session E b = Ok st"
  shows "\<exists>ps. spqr_initial_state E ps = Ok (s_pq_ratchet_state st)"
proof -
  obtain ss where ss: "kem_SecretKey_decapsulate E (kkp_secret_key (bp_our_kyber_pre_key_pair b))
      (bp_their_kyber_ciphertext b) = Ok ss"
    using assms by (auto simp: initialize_bob_session_def Let_def result_simps split: if_splits)
  obtain rk ck pqr where d: "derive_keys E (bob_dh E b @ ss) = (rk, ck, pqr)" by (metis prod_cases3)
  obtain pq ps where "spqr_initial_state E ps = Ok pq" "st = bob_session b rk ck pq"
    using assms ss d by (auto simp: initialize_bob_session_def bob_dh_def Let_def result_simps bob_session_def split: if_splits)
  then show ?thesis by (auto simp: session_unfold)
qed

lemma serves_bundle_answers:
  assumes "serves_bundle E bundle spk kyber otk s" "load_session a s = None"
    and "is_trusted_identity a (pkm_identity_key h) Receiving s"
    and "base_keys_seen (kpk_id (b_kyber_pre_key bundle)) (esp_id (b_ec_signed_pre_key bundle)) s = []"
    and h: "pkm_message_version h = 4" "pkm_pre_key_id h = b_pre_key_id bundle"
      "pkm_signed_pre_key_id h = esp_id (b_ec_signed_pre_key bundle)"
      "pkm_kyber_payload h = Some \<lparr>kyp_pre_key_id = kpk_id (b_kyber_pre_key bundle), kyp_ciphertext = ct\<rparr>"
    and stB: "initialize_bob_session E (message_parameters h ct spk kyber otk s) = Ok stB"
  shows "\<exists>used. answers E a h (set_remote_registration_id (pkm_registration_id h)
    (set_local_registration_id (get_local_registration_id s) stB)) used s"
proof -
  let ?used = "\<lparr>pu_one_time_ec_pre_key_id = b_pre_key_id bundle,
      pu_signed_ec_pre_key_id = esp_id (b_ec_signed_pre_key bundle),
      pu_kyber_pre_key_id = Some (kpk_id (b_kyber_pre_key bundle))\<rparr>"
  let ?st = "set_remote_registration_id (pkm_registration_id h)
    (set_local_registration_id (get_local_registration_id s) stB)"
  let ?s1 = "snd (save_identity a (pkm_identity_key h) s)"
  have process: "process_prekey E pm a SessionRecord_new_fresh s =
      Ok (Some ?used, pkm_identity_key h, promote_state E ?st SessionRecord_new_fresh)" if "same_opening pm h" for pm
  proof -
    have pm: "pkm_message_version pm = 4" "pkm_pre_key_id pm = b_pre_key_id bundle"
      "pkm_signed_pre_key_id pm = esp_id (b_ec_signed_pre_key bundle)"
      "pkm_kyber_payload pm = Some \<lparr>kyp_pre_key_id = kpk_id (b_kyber_pre_key bundle), kyp_ciphertext = ct\<rparr>"
      "message_parameters pm ct spk kyber otk s = message_parameters h ct spk kyber otk s"
      "pkm_identity_key pm = pkm_identity_key h" "pkm_registration_id pm = pkm_registration_id h"
      using that h by (simp_all add: same_opening_def message_parameters_def)
    show ?thesis
      using process_prekey_fresh [OF assms(1) pm(1-4) stB [folded pm(5)]] assms(3) by (simp add: pm(6,7))
  qed
  have "pkm_base_key h \<notin> set (base_keys_seen (kpk_id (b_kyber_pre_key bundle)) (esp_id (b_ec_signed_pre_key bundle)) ?s1)"
    using assms(4) by simp
  then obtain s2 where "consume_pre_keys (Some ?used) (pkm_base_key h) ?s1 = (Ok (), s2)"
    by (rule consume_pre_keys_fresh)
  then have consume: "is_ok (fst (consume_pre_keys (Some ?used) (pkm_base_key h) ?s1))" by simp
  have spqr: "\<exists>ps. spqr_initial_state E ps = Ok (s_pq_ratchet_state stB)"
    using stB by (rule initialize_bob_session_spqr)
  obtain rk ck pqr pq x where "stB = bob_session (message_parameters h ct spk kyber otk s) rk ck pq"
    by (rule initialize_bob_session_cases [OF stB]) blast
  then have fresh: "s_receiver_chains ?st = []" "s_pending_pre_key ?st = None"
      "s_alice_base_key ?st = PublicKey_serialize (pkm_base_key h)" "s_pq_ratchet_state ?st = s_pq_ratchet_state stB"
    by (simp_all add: session_unfold set_local_registration_id_def set_remote_registration_id_def message_parameters_def)
  have "answers E a h ?st ?used s"
    unfolding answers_def fresh using assms(2) h(1) process consume spqr by blast
  then show ?thesis ..
qed

lemma opened_conversation:
  assumes laws: "hash_lengths E" "dh_ok E" "curve_lengths E" "rng_length E" "spqr_linked E (\<lambda>a b. R a b {#} {#})"
    and "opened E at bundle sA sA1 kA sB"
  obtains h st0 used ids stA where "answers E (at Bob) h st0 used sB" "ids Alice = pkm_identity_key h"
    "session_at (at Alice) sA1 = Some stA"
    "conv_inv E R ids lim (conv_start stA st0 kA (esp_public_key (b_ec_signed_pre_key bundle)))"
    "represents at h st0 sB ids (net_start sA1 sB [kA, esp_public_key (b_ec_signed_pre_key bundle)])
       (conv_start stA st0 kA (esp_public_key (b_ec_signed_pre_key bundle)))"
proof -
  have o: "id_identity_key (get_identity_key_pair sA) = PrivateKey_public_key E (id_private_key (get_identity_key_pair sA))"
    "load_session (at Alice) sA = None" "kA \<noteq> esp_public_key (b_ec_signed_pre_key bundle)"
    "load_session (at Bob) sB = None" "is_trusted_identity (at Bob) (id_identity_key (get_identity_key_pair sA)) Receiving sB"
    "base_keys_seen (kpk_id (b_kyber_pre_key bundle)) (esp_id (b_ec_signed_pre_key bundle)) sB = []"
    using assms(6) unfolding opened_def by blast+
  obtain now r r1 where p: "process_prekey_bundle E (at Alice) bundle now (sA, r) = (Ok (), (sA1, r1))"
    "is_canonical E (kp_public_key (fst (KeyPair_generate E r)))"
    using assms(6) unfolding opened_def by blast
  obtain st' where st': "session_at (at Alice) sA1 = Some st'" "sender_ratchet_key st' = Ok kA"
    using assms(6) unfolding opened_def by blast
  obtain spk kyber otk where bob: "serves_bundle E bundle spk kyber otk sB" using assms(6) unfolding opened_def by blast
  have own: "public_key_ok (id_identity_key (get_identity_key_pair sA))"
    using o(1) laws(3) by (simp add: PrivateKey_public_key_def public_key_ok_def curve_lengths_def)
  obtain base r0 st st1 ct h where a:
    "KeyPair_generate E r = (base, r0)"
    "initialize_alice_session E (bundle_parameters (get_identity_key_pair sA) base bundle) r0 = (Ok st, r1)"
    "sends_as st st1" "get_kyber_ciphertext st = Some ct" "s_pending_pre_key st1 \<noteq> None"
    "holds (at Alice) (PublicKey_serialize (kp_public_key base)) st1 sA1" "announces h st1"
    "is_trusted_identity (at Alice) (b_identity_key bundle) Receiving sA1"
    "pkm_message_version h = 4" "pkm_pre_key_id h = b_pre_key_id bundle"
    "pkm_signed_pre_key_id h = esp_id (b_ec_signed_pre_key bundle)"
    "pkm_kyber_payload h = Some \<lparr>kyp_pre_key_id = kpk_id (b_kyber_pre_key bundle), kyp_ciphertext = ct\<rparr>"
    "pkm_base_key h = kp_public_key base" "pkm_identity_key h = id_identity_key (get_identity_key_pair sA)"
    by (rule bundle_session [where d = Receiving, OF p(1) o(2) laws(1,3,4) own]) blast
  have eq: "st' = st1" using holds_session_at [OF a(6)] st'(1) by simp
  let ?a = "bundle_parameters (get_identity_key_pair sA) base bundle"
  let ?b = "message_parameters h ct spk kyber otk sB"
  have base: "key_pair_ok E base" "is_canonical E (kp_public_key base)"
    using KeyPair_generate_key_pair_ok [OF laws(2), of r] p(2) a(1) by simp_all
  have match: "parameters_match E ?a ?b" using bob base(1) o(1) a(14,13) by (rule parameters_match_bundle)
  have kem: "kem_matching E (ap_their_kyber_pre_key ?a) (kkp_secret_key (bp_our_kyber_pre_key_pair ?b))"
    and spk: "key_pair_ok E (bp_our_ratchet_key_pair ?b)" "private_key_ok (kp_private_key (bp_our_ratchet_key_pair ?b))"
    and can: "is_canonical E (bp_their_base_key ?b)" and kct: "get_kyber_ciphertext st = Some (bp_their_kyber_ciphertext ?b)"
    using bob base(2) a(4,13) by (simp_all add: serves_bundle_def bundle_parameters_def message_parameters_def)
  have kA: "sender_ratchet_key st = Ok kA" "kA \<noteq> ap_their_ratchet_key ?a"
    using st'(2) sends_as_reads(2) [OF a(3)] o(3) by (simp_all add: eq bundle_parameters_def)
  obtain stB where stB: "initialize_bob_session E ?b = Ok stB"
    by (rule handshake_links [OF laws match kem can a(2) kct])
  let ?stB = "set_remote_registration_id (pkm_registration_id h)
      (set_local_registration_id (get_local_registration_id sB) stB)"
  have asB: "sends_as stB ?stB" using sends_as_setters(2,3) sends_as_trans by blast
  let ?ids = "conv_ids (id_identity_key (get_identity_key_pair sA)) (b_identity_key bundle)"
  let ?key = "esp_public_key (b_ec_signed_pre_key bundle)"
  have inv: "conv_inv E R ?ids lim (conv_start st1 ?stB kA ?key)"
    using conv_inv_handshake [where R = R, OF laws match kem can spk a(2) kct kA stB a(3) asB]
    by (simp add: bundle_parameters_def)
  obtain used where ans: "answers E (at Bob) h ?stB used sB"
    using serves_bundle_answers [OF bob o(4) _ o(6) a(9-12) stB] o(5) a(14) by auto
  have trust: "is_trusted_identity (at p) (?ids (other p)) Receiving (case p of Alice \<Rightarrow> sA1 | Bob \<Rightarrow> sB)" for p
    using a(8) o(5) by (cases p) (simp_all add: conv_ids_def)
  have rep: "represents at h ?stB sB ?ids (net_start sA1 sB [kA, ?key]) (conv_start st1 ?stB kA ?key)"
    unfolding represents_def using trust a(5-7,13) by (simp add: net_start_def conv_start_def)
  have "?ids Alice = pkm_identity_key h" using a(14) by (simp add: conv_ids_def)
  then show thesis by (rule that [OF ans _ st'(1) [unfolded eq] inv rep])
qed

subsection \<open>Runs\<close>

text \<open>Every run on the stores follows a conversation of the two sessions, from the session that Alice stored.\<close>

lemma opened_simulated:
  assumes laws: "hash_lengths E" "cbc_ok E" "dh_ok E" "curve_lengths E" "rng_length E" "spqr_channel E R"
      "spqr_linked E (\<lambda>a b. R a b {#} {#})"
    and "opened E at bundle sA sA1 kA sB"
    and "net_reachable E at lim (net_start sA1 sB [kA, esp_public_key (b_ec_signed_pre_key bundle)]) n"
  obtains h st0 used ids stA c where "answers E (at Bob) h st0 used sB" "ids Alice = pkm_identity_key h"
    "session_at (at Alice) sA1 = Some stA"
    "conv_reachable E lim (conv_start stA st0 kA (esp_public_key (b_ec_signed_pre_key bundle))) c"
    "conv_inv E R ids lim c" "represents at h st0 sB ids n c"
proof -
  let ?key = "esp_public_key (b_ec_signed_pre_key bundle)"
  obtain h st0 used ids stA where s: "answers E (at Bob) h st0 used sB" "ids Alice = pkm_identity_key h"
    "session_at (at Alice) sA1 = Some stA" "conv_inv E R ids lim (conv_start stA st0 kA ?key)"
    "represents at h st0 sB ids (net_start sA1 sB [kA, ?key]) (conv_start stA st0 kA ?key)"
    by (rule opened_conversation [where R = R and at = at, OF laws(1,3-5,7) assms(8)])
  then show thesis
    using net_reachable_simulated [where at = at and ids = ids, OF laws(1-6) s(1,2) assms(9) s(4,5)] that by blast
qed

lemma opened_reachable:
  assumes "hash_lengths E" "cbc_ok E" "dh_ok E" "curve_lengths E" "rng_length E" "spqr_channel E R"
      "spqr_linked E (\<lambda>a b. R a b {#} {#})" "opened E at bundle sA sA1 kA sB"
    and "net_reachable E at lim (net_start sA1 sB [kA, esp_public_key (b_ec_signed_pre_key bundle)]) n"
  obtains h st0 used ids where "answers E (at Bob) h st0 used sB" "ids Alice = pkm_identity_key h"
    "net_inv E R ids lim at h st0 sB n"
  by (rule opened_simulated [where R = R and at = at, OF assms]) (use that in \<open>unfold net_inv_def, blast\<close>)

end
