(* ===== verification/Store_Machine.thy ===== *)
theory Store_Machine
  imports Prekey_Correctness Group_Correctness
begin

text \<open>
  The library as a state machine over a client's stores: every call of an entry point is a step,
  whatever its arguments and its outcome.

  A message with counter \<open>u32::MAX\<close> wraps the index of its receiver chain, after which skipped keys of the chain may
  repeat a counter. The machine therefore takes a predicate \<open>C\<close> on the counters of received messages, and the
  locale \<open>session_inv\<close> a session invariant \<open>I\<close> that decryption keeps for the counters in \<open>C\<close>. Its two interpretations
  are \<open>session_sound\<close> for all counters, which rules out panics in every history, and \<open>session_healthy\<close>, with
  distinct counters below the chain key, for histories without the counter \<open>u32::MAX\<close>.
\<close>

text \<open>What the library relies on of the environment: output lengths and that an encoded session decodes.\<close>

definition env_ok :: "'r env \<Rightarrow> bool" where
  "env_ok E \<longleftrightarrow> codec_ok (session_codec E) \<and> env_lengths E"

lemma env_okD:
  assumes "env_ok E"
  shows "codec_ok (session_codec E)" "hash_lengths E" "curve_lengths E" "rng_length E" "env_lengths E"
  using assms by (simp_all add: env_ok_def env_lengths_def)

subsection \<open>Healthy new sessions\<close>

lemma initialize_alice_session_healthy:
  assumes "hash_lengths E" "curve_lengths E" "rng_length E" "public_key_ok (ap_their_ratchet_key p)"
    "initialize_alice_session E p r = (Ok st, r')"
  shows "session_healthy st"
  using assms(5)
proof (cases rule: initialize_alice_session_cases)
  case (1 ss ct r1 rk ck pqr kp rk' ck' pq)
  have "public_key_ok (kp_public_key kp)" using KeyPair_generate_ok(1) [OF assms(2,3), of r1] 1(3) by simp
  then have "is_ok (sender_ratchet_key st)"
    unfolding 1(6) by (simp add: sender_ratchet_key_def session_unfold public_key_serde.de_ser)
  moreover have "seeded st" unfolding 1(6) by (auto simp: seeded_def session_unfold push_receiver_chain_def Let_def MAX_RECEIVER_CHAINS_def)
  moreover have "session_ok st" using assms(1,4,5) by (rule initialize_alice_session_ok)
  ultimately show ?thesis by (simp add: session_healthy_def)
qed

lemma initialize_bob_session_healthy:
  assumes "hash_lengths E" "public_key_ok (kp_public_key (bp_our_ratchet_key_pair b))"
    "initialize_bob_session E b = Ok st"
  shows "session_healthy st"
proof -
  obtain rk ck pqr pq x where st: "st = bob_session b rk ck pq"
    using assms(3) by (rule initialize_bob_session_cases)
  then have "seeded st" "is_ok (sender_ratchet_key st)"
    using assms(2) by (simp_all add: seeded_def session_unfold sender_ratchet_key_def public_key_serde.de_ser)
  then show ?thesis using initialize_bob_session_ok(1) [OF assms(1,3)] by (simp add: session_healthy_def)
qed

lemma session_healthy_sends_as: "sends_as st st' \<Longrightarrow> session_healthy st' = session_healthy st"
  by (rule sends_as_reads(9))

lemma SignedPreKeyRecord_key_pair_ok:
  "SignedPreKeyRecord_key_pair E rec = Ok kp \<Longrightarrow> public_key_ok (kp_public_key kp)"
  using PublicKey_deserialize_ok
  by (auto simp: SignedPreKeyRecord_key_pair_def KeyPair_from_public_and_private_def result_simps)

subsection \<open>Session invariants\<close>

locale session_inv = archivable I for I :: "session_state \<Rightarrow> bool" +
  fixes E :: "'r env" and C :: "u32 \<Rightarrow> bool"
  assumes fresh: "session_healthy st \<Longrightarrow> I st"
    and decrypt: "I st \<Longrightarrow> env_lengths E \<Longrightarrow> message_ok m \<Longrightarrow> C (sm_counter m) \<Longrightarrow>
      decrypt_message_with_state E st m t r = (Ok (ptext, st'), r') \<Longrightarrow> I st'"
    and encrypt: "I st \<Longrightarrow> encrypt_with_state E ptext a now st r = (Ok (msg, k, st'), r') \<Longrightarrow> I st'"

lemma session_sound_encrypt:
  assumes "session_sound st" "encrypt_with_state E ptext a now st r = (Ok (msg, k, st'), r')"
  shows "session_sound st'"
  using assms(2)
proof (cases rule: encrypt_with_state_cases)
  case (1 ck pq key pq_msg mk eph v our_id ct msg' items)
  then show ?thesis
    using assms(1) unfolding 1(13) by (auto simp: session_sound_def session_shape_def seeded_def sender_ratchet_key_def
        set_sender_chain_key_def split: option.splits)
qed

lemma session_ok_encrypt:
  assumes "session_ok st" "encrypt_with_state E ptext a now st r = (Ok (msg, k, st'), r')"
  shows "session_ok st'"
  using assms(2)
proof (cases rule: encrypt_with_state_cases)
  case (1 ck pq key pq_msg mk eph v our_id ct msg' items)
  then show ?thesis
    using assms(1) unfolding 1(13) by (auto simp: session_ok_def set_sender_chain_key_def split: option.splits)
qed

lemma session_sound_clear:
  "session_sound st \<Longrightarrow> session_sound (clear_unacknowledged_pre_key_message st)"
  by (simp add: session_sound_def session_shape_def seeded_def sender_ratchet_key_def
      clear_unacknowledged_pre_key_message_def cong: option.case_cong)

interpretation sound: session_inv session_sound E "\<lambda>_. True" for E
proof unfold_locales
  show "session_sound st'"
    if "session_sound st" "env_lengths E" "message_ok m" "decrypt_message_with_state E st m t r = (Ok (ptext, st'), r')"
    for st m t r ptext st' r'
    using session_sound_decrypt [OF that(1) _ _ _ _ that(4)] that(2,3) by (simp add: env_lengths_def message_ok_def)
qed (auto simp: session_healthy_iff intro: session_sound_encrypt session_sound_clear)

interpretation healthy: session_inv session_healthy E "\<lambda>n. n \<noteq> - 1" for E
proof unfold_locales
  show "session_healthy st'"
    if "session_healthy st" "env_lengths E" "message_ok m" "sm_counter m \<noteq> - 1"
      "decrypt_message_with_state E st m t r = (Ok (ptext, st'), r')" for st m t r ptext st' r'
    using session_healthy_decrypt [OF that(1) _ _ _ _ that(4,5)] that(2,3) by (simp add: env_lengths_def message_ok_def)
qed (auto simp: session_healthy_iff intro: session_sound_encrypt session_ok_encrypt session_sound_clear well_formed.clear)

subsection \<open>The invariant of the stores\<close>

definition stores_inv :: "'r env \<Rightarrow> (session_state \<Rightarrow> bool) \<Rightarrow> protocol_store \<Rightarrow> bool" where
  "stores_inv E I s \<longleftrightarrow> (\<forall>a rec. load_session a s = Some rec \<longrightarrow> record_inv E I rec) \<and> group_store_ok s"

abbreviation stores_healthy :: "'r env \<Rightarrow> protocol_store \<Rightarrow> bool" where
  "stores_healthy E \<equiv> stores_inv E session_healthy"

abbreviation stores_sound :: "'r env \<Rightarrow> protocol_store \<Rightarrow> bool" where
  "stores_sound E \<equiv> stores_inv E session_sound"

lemma stores_inv_new: "stores_inv E I (InMemSignalProtocolStore_new kp i)"
  by (simp add: stores_inv_def load_session_def group_store_ok_def load_sender_key_def InMemSignalProtocolStore_new_def)

lemma stores_inv_cong:
  "st_sessions s' = st_sessions s \<Longrightarrow> st_sender_keys s' = st_sender_keys s \<Longrightarrow> stores_inv E I s' = stores_inv E I s"
  by (simp add: stores_inv_def load_session_def group_store_ok_def load_sender_key_def)

lemma stores_inv_store_session:
  "stores_inv E I s \<Longrightarrow> record_inv E I rec \<Longrightarrow> stores_inv E I (store_session a rec s)"
  by (auto simp: stores_inv_def load_session_def group_store_ok_def load_sender_key_def store_session_def)

lemma stores_inv_store_sender_key:
  "stores_inv E I s \<Longrightarrow> sender_record_ok rec \<Longrightarrow> stores_inv E I (store_sender_key a d rec s)"
  using group_store_ok_store [of s rec a d]
  by (simp add: stores_inv_def load_session_def store_sender_key_def)

lemma stores_inv_save_identity [simp]: "stores_inv E I (snd (save_identity a k s)) = stores_inv E I s"
  by (rule stores_inv_cong) (auto simp: save_identity_def Let_def split: option.splits)

lemma stores_inv_consume:
  assumes "consume_pre_keys used k s = (res, s2)"
  shows "stores_inv E I s2 = stores_inv E I s"
  using assms
  by (intro stores_inv_cong)
    (auto simp: consume_pre_keys_def mark_kyber_pre_key_used_def set_base_keys_seen_def remove_pre_key_def
      Let_def split: option.splits if_splits)

lemma stores_inv_load: "stores_inv E I s \<Longrightarrow> load_session a s = Some rec \<Longrightarrow> record_inv E I rec"
  by (simp add: stores_inv_def)

lemma stores_inv_load_or_fresh:
  "stores_inv E I s \<Longrightarrow> record_inv E I (case load_session a s of None \<Rightarrow> SessionRecord_new_fresh | Some rec \<Rightarrow> rec)"
  using record_inv_fresh by (auto simp: stores_inv_def split: option.split)

lemma stores_inv_load_sender:
  "stores_inv E I s \<Longrightarrow> load_sender_key a d s = Some rec \<Longrightarrow> sender_record_ok rec"
  by (auto simp: stores_inv_def group_store_ok_def)

subsection \<open>Every entry point keeps it\<close>

context session_inv
begin

lemma record_decrypt:
  assumes "env_ok E" "record_inv E I rec" "message_ok m" "C (sm_counter m)"
    "decrypt_message_with_record E rec m t r = (Ok (ptext, rec'), r')"
  shows "record_inv E I rec'"
  using assms(5)
proof (cases rule: decrypt_message_with_record_cases)
  case (current st st')
  have "I st" using assms(2) current(1) by (rule record_inv_current)
  then have "I st'" using env_okD(5) [OF assms(1)] assms(3,4) current(2) by (rule decrypt)
  then show ?thesis using assms(2) current(3) by (simp add: record_inv_set_session_state)
next
  case (previous i st st' r0)
  have "I st" using assms(2) previous(1,2) by (rule record_inv_previous)
  then have "I st'" using env_okD(5) [OF assms(1)] assms(3,4) previous(3) by (rule decrypt)
  then show ?thesis using record_promote_old_session [OF env_okD(1) [OF assms(1)]] assms(2) previous(4) by blast
qed

lemma process_prekey_impl_inv:
  assumes "env_ok E" "record_inv E I rec" "process_prekey_impl E pm rec s = Ok (used, rec1)"
  shows "record_inv E I rec1"
proof -
  obtain found rec0 where p: "promote_matching_session E (ucast (pkm_message_version pm))
      (PublicKey_serialize (pkm_base_key pm)) rec = Ok (found, rec0)"
    using assms(3) by (auto simp: process_prekey_impl_def result_simps)
  have rec0: "record_inv E I rec0" using env_okD(1) [OF assms(1)] assms(2) p by (rule record_promote_matching)
  show ?thesis
  proof (cases found)
    case False
    then obtain b st where b: "initialize_bob_session E b = Ok st" "public_key_ok (kp_public_key (bp_our_ratchet_key_pair b))"
        "rec1 = promote_state E (set_remote_registration_id (pkm_registration_id pm)
           (set_local_registration_id (get_local_registration_id s) st)) rec0"
      using p assms(3) by (auto elim!: process_prekey_impl_new dest: SignedPreKeyRecord_key_pair_ok)
    have "session_healthy st" using env_okD(2) [OF assms(1)] b(2,1) by (rule initialize_bob_session_healthy)
    then have "session_healthy (set_remote_registration_id (pkm_registration_id pm)
        (set_local_registration_id (get_local_registration_id s) st))"
      using session_healthy_sends_as [OF sends_as_setters(2)] session_healthy_sends_as [OF sends_as_setters(3)] by simp
    then show ?thesis using rec0 env_okD(1) [OF assms(1)] by (simp add: b(3) record_promote_state fresh)
  qed (use assms(3) p rec0 in \<open>simp add: process_prekey_impl_def\<close>)
qed

lemma message_encrypt_inv:
  assumes "stores_inv E I s" "message_encrypt E ptext a now (s, r) = (res, (s', r'))"
  shows "stores_inv E I s'"
proof (cases "is_ok res")
  case True
  then obtain msg where "message_encrypt E ptext a now (s, r) = (Ok msg, (s', r'))"
    using assms(2) by (cases res) auto
  then show ?thesis
  proof (cases rule: message_encrypt_cases)
    case m: (1 rec st st' k)
    have rec: "record_inv E I rec" using assms(1) m(1) by (rule stores_inv_load)
    then have "I st" using m(2) by (rule record_inv_current)
    then have "I st'" using m(3) by (rule encrypt)
    then show ?thesis
      using assms(1) rec by (simp add: m(5) stores_inv_store_session record_inv_set_session_state)
  qed
next
  case False
  then show ?thesis using message_encrypt_frame [OF assms(2)] assms(1) by simp
qed

lemma message_decrypt_signal_inv:
  assumes "env_ok E" "message_ok m" "C (sm_counter m)" "stores_inv E I s"
    "message_decrypt_signal E m a (s, r) = (res, (s', r'))"
  shows "stores_inv E I s'"
proof (cases "is_ok res")
  case True
  then obtain ptext where "message_decrypt_signal E m a (s, r) = (Ok ptext, (s', r'))"
    using assms(5) by (cases res) auto
  then show ?thesis
  proof (cases rule: message_decrypt_signal_cases)
    case (1 rec rec' st k)
    have "record_inv E I rec" using assms(4) 1(1) by (rule stores_inv_load)
    then have "record_inv E I rec'" using record_decrypt [OF assms(1) _ assms(2,3) 1(2)] by simp
    then show ?thesis using assms(4) by (simp add: 1(6) stores_inv_store_session)
  qed
next
  case False
  then show ?thesis using message_decrypt_signal_frame [OF assms(5)] assms(4) by simp
qed

lemma message_decrypt_prekey_inv:
  assumes "env_ok E" "message_ok (pkm_message pm)" "C (sm_counter (pkm_message pm))" "stores_inv E I s"
    "message_decrypt_prekey E pm a (s, r) = (res, (s', r'))"
  shows "stores_inv E I s'"
proof -
  let ?rec = "case load_session a s of None \<Rightarrow> SessionRecord_new_fresh | Some rec \<Rightarrow> rec"
  show ?thesis
  proof (cases "process_prekey E pm a ?rec s")
    case (Ok x)
    obtain used k rec1 where x: "x = (used, k, rec1)" by (metis prod_cases3)
    have "process_prekey_impl E pm ?rec s = Ok (used, rec1)"
      using Ok x by (auto simp: process_prekey_def Let_def result_simps split: if_splits)
    then have rec1: "record_inv E I rec1"
      using process_prekey_impl_inv [OF assms(1) stores_inv_load_or_fresh [OF assms(4)]] by blast
    obtain y r1 where d: "decrypt_message_with_record E rec1 (pkm_message pm) PreKey r = (y, r1)" by fastforce
    obtain z s2 where c: "consume_pre_keys used (pkm_base_key pm) (snd (save_identity a k s)) = (z, s2)" by fastforce
    have s2: "stores_inv E I s2" using stores_inv_consume [OF c, of E I] assms(4) by simp
    show ?thesis
    proof (cases y)
      case y: (Ok p)
      obtain ptext rec2 where p: "p = (ptext, rec2)" by fastforce
      have "record_inv E I rec2"
        using record_decrypt [OF assms(1) rec1 assms(2,3), of PreKey r ptext] d y p by simp
      then show ?thesis
        using assms(5) Ok x d y p c s2
        by (cases z) (auto simp: message_decrypt_prekey_def Let_def stores_inv_store_session)
    qed (use assms(4,5) Ok x d in \<open>auto simp: message_decrypt_prekey_def Let_def\<close>)
  qed (use assms(4,5) in \<open>auto simp: message_decrypt_prekey_def Let_def\<close>)
qed

lemma process_prekey_bundle_inv:
  assumes "env_ok E" "public_key_ok (esp_public_key (b_ec_signed_pre_key bundle))" "stores_inv E I s"
    "process_prekey_bundle E a bundle now (s, r) = (res, (s', r'))"
  shows "stores_inv E I s'"
proof (cases "is_ok res")
  case True
  then have "process_prekey_bundle E a bundle now (s, r) = (Ok (), (s', r'))" using assms(4) by (cases res) auto
  then show ?thesis
  proof (cases rule: process_prekey_bundle_cases)
    case (1 base r1 st st1 rec)
    let ?st = "set_remote_registration_id (b_registration_id bundle)
        (set_local_registration_id (get_local_registration_id s) st1)"
    have "session_healthy st"
      using env_okD(2-4) [OF assms(1)] assms(2) 1(2)
      by (intro initialize_alice_session_healthy) (auto simp: bundle_parameters_def)
    moreover have "sends_as st ?st"
      using set_unacknowledged_kyber_pre_key_id_Ok(1) [OF 1(3)] sends_as_setters sends_as_trans by metis
    ultimately have "I ?st" using session_healthy_sends_as fresh by blast
    then show ?thesis
      using assms(3) stores_inv_load_or_fresh [OF assms(3), of a] env_okD(1) [OF assms(1)]
      unfolding 1(5) by (intro stores_inv_store_session record_promote_state) (simp_all add: 1(4))
  qed
next
  case False
  then show ?thesis using process_prekey_bundle_frame [OF assms(4)] assms(3) by simp
qed

end

text \<open>The group entry points do not touch the sessions.\<close>

lemma sender_state_ok_step:
  assumes "sender_state_ok st" "state_sender_chain_key st = Some ck" "sch_iteration ck \<noteq> - 1"
  shows "sender_state_ok (set_state_chain_key (sender_step E ck) st)"
proof -
  have "sch_iteration ck < sch_iteration (sender_step E ck)"
    using assms(3) by (simp add: sender_step_def u32_Suc_no_wrap(2))
  then show ?thesis
    using assms(1,2)
    by (fastforce simp: sender_state_ok_def state_sender_chain_key_def set_state_chain_key_def SenderChainKey_as_protobuf_def)
qed

lemma group_encrypt_inv:
  assumes "stores_inv E I s" "group_encrypt E a d ptext (s, r) = (res, (s', r'))"
  shows "stores_inv E I s'"
proof (cases "is_ok res")
  case True
  then obtain skm where "group_encrypt E a d ptext (s, r) = (Ok skm, (s', r'))" using assms(2) by (cases res) auto
  then show ?thesis
  proof (cases rule: group_encrypt_cases)
    case (1 rec st rest ck ct sk)
    have rec: "sender_record_ok rec" using assms(1) 1(1) by (rule stores_inv_load_sender)
    then have "sender_state_ok (set_state_chain_key (sender_step E ck) st)"
      using 1(2,4,5) by (intro sender_state_ok_step) (auto simp: sender_record_ok_def)
    then have "sender_record_ok (rec\<lparr>skrec_states := set_state_chain_key (sender_step E ck) st # rest\<rparr>)"
      using sender_record_ok_update [OF rec, of 0] 1(2) by (simp add: set_state_chain_key_def)
    then show ?thesis using assms(1) by (simp add: 1(9) stores_inv_store_sender_key)
  qed
next
  case False
  then show ?thesis using group_encrypt_frame [OF assms(2)] assms(1) by simp
qed

lemma st_sessions_sender_keys [simp]:
  "st_sessions (store_sender_key a d rec s) = st_sessions s"
  by (simp add: store_sender_key_def)

lemma group_decrypt_inv:
  assumes "stores_inv E I s" "group_decrypt E bs a s = (res, s')"
  shows "stores_inv E I s'"
proof -
  have "st_sessions s' = st_sessions s"
    using assms(2) by (auto simp: group_decrypt_def Let_def bindS_def split: result.splits)
  then show ?thesis
    using assms group_decrypt_store_ok [of s E bs a res s'] by (simp add: stores_inv_def load_session_def)
qed

lemma process_distribution_inv:
  "stores_inv E I s \<Longrightarrow> stores_inv E I (process_sender_key_distribution_message a skdm s)"
  using process_sender_key_distribution_message_store_ok [of s a skdm]
  by (simp add: stores_inv_def load_session_def process_sender_key_distribution_message_def Let_def)

lemma create_distribution_inv:
  assumes "stores_inv E I s" "create_sender_key_distribution_message E a d (s, r) = (res, (s', r'))"
  shows "stores_inv E I s'"
proof (cases "load_sender_key a d s")
  case None
  obtain rec r1 where f: "fresh_sender_key_record E r = (rec, r1)" by fastforce
  then have "sender_record_ok rec"
    using sender_record_ok_add [OF sender_record_ok_empty]
    by (auto simp: fresh_sender_key_record_def Let_def split: prod.splits)
  then show ?thesis
    using assms None f by (auto simp: create_sender_key_distribution_message_def Let_def stores_inv_store_sender_key)
qed (use assms in \<open>auto simp: create_sender_key_distribution_message_def Let_def\<close>)

subsection \<open>The machine\<close>

text \<open>
  One call of the library by its client: sending and receiving in sessions and groups, whatever the
  outcome, and the store operations with which a client publishes or withdraws keys. Received messages have
  counters in \<open>C\<close>; every parsed message is a step of the machine for \<open>\<lambda>_. True\<close>.
\<close>

inductive client_step :: "'r env \<Rightarrow> (u32 \<Rightarrow> bool) \<Rightarrow> 'r world \<Rightarrow> 'r world \<Rightarrow> bool"
  for E :: "'r env" and C :: "u32 \<Rightarrow> bool" where
  encrypt: "message_encrypt E ptext a now w = (res, w') \<Longrightarrow> client_step E C w w'"
| decrypt_signal: "message_ok m \<Longrightarrow> C (sm_counter m) \<Longrightarrow>
    message_decrypt E (CSignalMessage m) a w = (res, w') \<Longrightarrow> client_step E C w w'"
| decrypt_prekey: "message_ok (pkm_message pm) \<Longrightarrow> C (sm_counter (pkm_message pm)) \<Longrightarrow>
    message_decrypt E (CPreKeySignalMessage pm) a w = (res, w') \<Longrightarrow> client_step E C w w'"
| open_session: "public_key_ok (esp_public_key (b_ec_signed_pre_key b)) \<Longrightarrow>
    process_prekey_bundle E a b now w = (res, w') \<Longrightarrow> client_step E C w w'"
| group_send: "group_encrypt E a d ptext w = (res, w') \<Longrightarrow> client_step E C w w'"
| group_receive: "group_decrypt E bs a s = (res, s') \<Longrightarrow> client_step E C (s, r) (s', r)"
| distribute: "create_sender_key_distribution_message E a d w = (res, w') \<Longrightarrow> client_step E C w w'"
| distributed: "client_step E C (s, r) (process_sender_key_distribution_message a skdm s, r)"
| publish_pre_key: "client_step E C (s, r) (save_pre_key i rec1 s, r)"
| publish_signed_pre_key: "client_step E C (s, r) (save_signed_pre_key i rec2 s, r)"
| publish_kyber_pre_key: "client_step E C (s, r) (save_kyber_pre_key i rec3 s, r)"
| withdraw_pre_key: "client_step E C (s, r) (remove_pre_key i s, r)"
| trust: "client_step E C (s, r) (snd (save_identity a k s), r)"
| forget_identities: "client_step E C (s, r) (reset_identities s, r)"

definition reachable :: "'r env \<Rightarrow> (u32 \<Rightarrow> bool) \<Rightarrow> 'r world \<Rightarrow> 'r world \<Rightarrow> bool" where
  "reachable E C = (client_step E C)\<^sup>*\<^sup>*"

lemma client_step_mono:
  assumes "client_step E C w w'" "\<And>n. C n \<Longrightarrow> D n"
  shows "client_step E D w w'"
  using assms(1)
proof (cases rule: client_step.cases)
  case (decrypt_signal m a res)
  then show ?thesis using assms(2) client_step.decrypt_signal by blast
next
  case (decrypt_prekey pm a res)
  then show ?thesis using assms(2) client_step.decrypt_prekey by blast
qed (auto intro: client_step.intros)

context session_inv
begin

lemma client_step_inv:
  assumes "env_ok E" "client_step E C w w'" "stores_inv E I (fst w)"
  shows "stores_inv E I (fst w')"
  using assms(2,3)
proof (cases rule: client_step.cases)
  case (encrypt ptext a now res)
  then show ?thesis using assms(3) message_encrypt_inv by (cases w; cases w') fastforce
next
  case (decrypt_signal m a res)
  then show ?thesis using assms(1,3) message_decrypt_signal_inv [of m "fst w" a "snd w" res "fst w'" "snd w'"]
    by (simp add: message_decrypt_def)
next
  case (decrypt_prekey pm a res)
  then show ?thesis using assms(1,3) message_decrypt_prekey_inv [of pm "fst w" a "snd w" res "fst w'" "snd w'"]
    by (simp add: message_decrypt_def)
next
  case (open_session b a now res)
  then show ?thesis using assms(1,3) process_prekey_bundle_inv [of b "fst w" a now "snd w" res "fst w'" "snd w'"]
    by simp
next
  case (group_send a d ptext res)
  then show ?thesis using assms(3) group_encrypt_inv [of E I "fst w" a d ptext "snd w" res "fst w'" "snd w'"] by simp
next
  case (group_receive bs a s res s' r)
  then show ?thesis using assms(3) group_decrypt_inv [of E I s bs a res s'] by simp
next
  case (distribute a d res)
  then show ?thesis using assms(3) create_distribution_inv [of E I "fst w" a d "snd w" res "fst w'" "snd w'"] by simp
next
  case (distributed s r a skdm)
  then show ?thesis using assms(3) process_distribution_inv by simp
next
  case (trust s r a k)
  then show ?thesis using assms(3) by simp
qed (use assms(3) in \<open>auto elim!: stores_inv_cong [THEN iffD2, rotated 2]
      simp: save_pre_key_def save_signed_pre_key_def save_kyber_pre_key_def remove_pre_key_def reset_identities_def\<close>)

lemma reachable_inv:
  assumes "env_ok E" "reachable E C w w'" "stores_inv E I (fst w)"
  shows "stores_inv E I (fst w')"
  using assms(2) unfolding reachable_def
  by (induction rule: rtranclp_induct) (use assms(1,3) client_step_inv in auto)

end

end
