(* ===== verification/Group_Session.thy ===== *)
theory Group_Session
  imports Group_Correctness
begin

text \<open>
  A group session from its creation to delivery: creating a distribution message and encrypting
  under it succeed, and the members that process the distribution message read every message they
  receive, in every order of delivery.
\<close>

lemma group_encrypt_succeeds:
  assumes "hash_lengths E" "cbc_ok E" "sender_ready E a d cid sk ck s" "sch_iteration ck \<noteq> - 1"
  shows "\<exists>skm s' r'. group_encrypt E a d ptext (s, r) = (Ok skm, (s', r'))"
proof -
  obtain rec st rest where rec: "load_sender_key a d s = Some rec" "skrec_states rec = st # rest"
      "state_message_version st = 3" "state_sender_chain_key st = Some ck" "signing_key_private E st = Ok sk"
    using assms(3) by (auto simp: sender_ready_def)
  obtain ct where ct: "aes_256_cbc_encrypt E ptext (smsg_cipher_key (sender_message_key_of E ck))
      (smsg_iv (sender_message_key_of E ck)) = Ok ct"
    using aes_256_cbc_roundtrip(1) [OF assms(2) sender_key_lengths(1) [OF assms(1)] sender_key_lengths(2) [OF assms(1)]]
    by blast
  show ?thesis
    using rec ct assms(4)
    by (auto simp: group_encrypt_def Let_def record_sender_key_state_def SenderChainKey_next_eq split: prod.split)
qed

lemma group_encrypt_all_succeeds:
  assumes laws: "hash_lengths E" "cbc_ok E" "xeddsa_ok E" "dh_ok E" "codec_ok (sender_key_message_codec E)" "length d = 16"
    and "sender_ready E a d cid sk ck s" "unat (sch_iteration ck) + length ps < 2 ^ 32"
  shows "\<exists>ms w. group_encrypt_all E a d ps (s, r) = (Ok ms, w)"
  using assms(7,8)
proof (induction ps arbitrary: s r ck)
  case (Cons p ps)
  have "unat (- 1 :: u32) = 2 ^ 32 - 1" by (simp add: unsigned_minus_1_eq_mask mask_eq_exp_minus_1)
  then have "sch_iteration ck \<noteq> - 1" using Cons.prems(2) by auto
  then obtain skm s1 r1 where e: "group_encrypt E a d p (s, r) = (Ok skm, (s1, r1))"
    using group_encrypt_succeeds [OF laws(1,2) Cons.prems(1)] by blast
  note one = sender_ready_encrypt [OF laws(3-6) Cons.prems(1) e]
  have "unat (sch_iteration (sender_step E ck)) = Suc (unat (sch_iteration ck))"
    using u32_Suc_no_wrap(1) [OF one(2)] by (simp add: sender_step_def)
  then obtain ms w where "group_encrypt_all E a d ps (s1, r1) = (Ok ms, w)"
    using Cons.IH [OF one(3), of r1] Cons.prems(2) by auto
  then show ?case using e by simp
qed simp

lemma create_sender_key_distribution_message_succeeds:
  assumes "curve_lengths E" "rng_length E" "load_sender_key a d s = None"
  shows "\<exists>skdm s' r'. create_sender_key_distribution_message E a d (s, r) = (Ok skdm, (s', r'))"
proof -
  obtain n r1 where n: "rng_u32 E r = (n, r1)" by fastforce
  obtain key r2 where key: "rng_random_bytes E 32 r1 = (key, r2)" by fastforce
  obtain kp r3 where kp: "KeyPair_generate E r2 = (kp, r3)" by fastforce
  have pk: "public_key_ok (kp_public_key kp)" using KeyPair_generate_ok(1) [OF assms(1,2), of r2] kp by simp
  have v: "SENDERKEY_MESSAGE_CURRENT_VERSION = 3" by (simp add: SENDERKEY_MESSAGE_CURRENT_VERSION_def)
  show ?thesis
    using assms(3) SenderKeyState_new_reads [OF pk]
    by (simp add: create_sender_key_distribution_message_def fresh_sender_key_record_def n key kp
        record_sender_key_state_def add_to_empty v)
qed

text \<open>The whole run: no step of the sender fails and a member reads what it receives.\<close>

lemma group_conversation:
  assumes laws: "hash_lengths E" "cbc_ok E" "xeddsa_ok E" "dh_ok E" "curve_lengths E" "rng_length E"
      "codec_ok (sender_key_message_codec E)" "length d = 16"
    and "load_sender_key a d s = None" "length ps \<le> MAX_MESSAGE_KEYS"
    and "load_sender_key a d sB = None" "distinct js" "set js \<subseteq> {..<length ps}"
  shows "\<exists>skdm w ms w' s'. create_sender_key_distribution_message E a d (s, r) = (Ok skdm, w) \<and>
    group_encrypt_all E a d ps w = (Ok ms, w') \<and>
    group_decrypt_all E a (map (\<lambda>j. skm_serialized (ms ! j)) js)
      (process_sender_key_distribution_message a skdm sB) = (Ok (map ((!) ps) js), s')"
proof -
  obtain skdm s1 r1 where c: "create_sender_key_distribution_message E a d (s, r) = (Ok skdm, (s1, r1))"
    using create_sender_key_distribution_message_succeeds [OF laws(5,6) assms(9)] by blast
  obtain sk where sk: "sender_ready E a d (skd_chain_id skdm) sk
      \<lparr>sch_iteration = skd_iteration skdm, sch_chain_key = skd_chain_key skdm\<rparr> s1" "skd_iteration skdm = 0"
    using laws(5,6,4) assms(9) c by (rule create_sender_key_distribution_message_fresh) blast
  have "unat (sch_iteration \<lparr>sch_iteration = skd_iteration skdm, sch_chain_key = skd_chain_key skdm\<rparr>) + length ps < 2 ^ 32"
    using assms(10) sk(2) by (simp add: MAX_MESSAGE_KEYS_def)
  then obtain ms w' where e: "group_encrypt_all E a d ps (s1, r1) = (Ok ms, w')"
    using group_encrypt_all_succeeds [OF laws(1-4,7,8) sk(1)] by blast
  show ?thesis
    using group_session_any_order [OF laws assms(9) c e assms(10-)] c e by blast
qed

end
