(* ===== verification/Receive_Loops.thy ===== *)
theory Receive_Loops
  imports Group_Correctness "HOL-Library.While_Combinator"
begin

text \<open>
  The two \<open>while\<close> loops of the receiving sides, of \<open>session_cipher.rs\<close> and \<open>group_cipher.rs\<close>, as
  loops: a guard and a body that may leave the loop with an error. The recursive functions that model them
  are what the loops return, and the number of rounds is bounded.
\<close>

definition loop_guard :: "('s \<Rightarrow> bool) \<Rightarrow> ('s, 'e) result \<Rightarrow> bool" where
  "loop_guard cond x = (case x of Ok s \<Rightarrow> cond s | _ \<Rightarrow> False)"

definition run_loop :: "('s \<Rightarrow> bool) \<Rightarrow> ('s \<Rightarrow> ('s, 'e) result) \<Rightarrow> 's \<Rightarrow> ('s, 'e) result option" where
  "run_loop cond body s = while_option (loop_guard cond) (\<lambda>x. bindR x body) (Ok s)"

text \<open>The state after a number of rounds.\<close>

definition after_rounds :: "('s \<Rightarrow> ('s, 'e) result) \<Rightarrow> nat \<Rightarrow> 's \<Rightarrow> ('s, 'e) result" where
  "after_rounds body k s = ((\<lambda>x. bindR x body) ^^ k) (Ok s)"

lemma after_rounds_Suc: "after_rounds body (Suc k) s = bindR (body s) (after_rounds body k)"
proof -
  have stuck: "((\<lambda>x. bindR x body) ^^ k) (Err e) = Err e" "((\<lambda>x. bindR x body) ^^ k) Panic = Panic" for e
    by (induction k) simp_all
  show ?thesis by (cases "body s") (simp_all add: after_rounds_def funpow_Suc_right stuck del: funpow.simps)
qed

locale fallible_loop =
  fixes cond :: "'s \<Rightarrow> bool" and body :: "'s \<Rightarrow> ('s, 'e) result" and result_of :: "'s \<Rightarrow> ('s, 'e) result"
    and rounds :: "'s \<Rightarrow> nat"
  assumes unfolds: "result_of s = (if cond s then bindR (body s) result_of else Ok s)"
    and decreases: "cond s \<Longrightarrow> body s = Ok s' \<Longrightarrow> rounds s = Suc (rounds s')"
    and positive: "cond s \<Longrightarrow> 0 < rounds s"
begin

lemma returns: "run_loop cond body s = Some (result_of s)"
proof (induction "rounds s" arbitrary: s rule: less_induct)
  case less
  show ?case
  proof (cases "cond s")
    case True
    show ?thesis
    proof (cases "body s")
      case (Ok s')
      then show ?thesis
        using less [of s'] decreases [OF True Ok] True
        by (simp add: run_loop_def unfolds [of s] while_option_unfold [of _ _ "Ok s"] loop_guard_def)
    qed (use True in \<open>simp_all add: run_loop_def unfolds [of s] while_option_unfold loop_guard_def\<close>)
  qed (simp add: run_loop_def unfolds [of s] while_option_unfold loop_guard_def)
qed

text \<open>An error can only end the loop early.\<close>

lemma bounded: "\<exists>k \<le> rounds s. after_rounds body k s = result_of s \<and> (\<forall>t. result_of s = Ok t \<longrightarrow> \<not> cond t)"
proof (induction "rounds s" arbitrary: s rule: less_induct)
  case less
  show ?case
  proof (cases "cond s")
    case True
    show ?thesis
    proof (cases "body s")
      case (Ok s')
      then obtain k where "k \<le> rounds s'" "after_rounds body k s' = result_of s'" "\<forall>t. result_of s' = Ok t \<longrightarrow> \<not> cond t"
        using less [of s'] decreases [OF True Ok] by auto
      then show ?thesis
        using True Ok decreases [OF True Ok] unfolds [of s] by (intro exI [of _ "Suc k"]) (simp add: after_rounds_Suc)
    qed (use True positive in \<open>auto intro!: exI [of _ "Suc 0"] simp: Suc_le_eq after_rounds_def unfolds [of s]\<close>)
  next
    case False
    then show ?thesis using unfolds [of s] by (intro exI [of _ 0]) (simp add: after_rounds_def)
  qed
qed

end

subsection \<open>The loops\<close>

definition skip_message_round ::
    "'r env \<Rightarrow> public_key \<Rightarrow> chain_key \<times> session_state \<Rightarrow> (chain_key \<times> session_state, invalid_session_error) result" where
  "skip_message_round E their_ephemeral = (\<lambda>(ck, st).
     bindR (set_message_keys their_ephemeral (chain_message_keys E ck) st) (\<lambda>st'.
     Ok (next_chain_key E ck, st')))"

definition skip_sender_round ::
    "'r env \<Rightarrow> sender_chain_key \<times> sender_key_state \<Rightarrow> (sender_chain_key \<times> sender_key_state, signal_error) result" where
  "skip_sender_round E = (\<lambda>(ck, st).
     let st' = add_sender_message_key (sender_message_key_of E ck) st in
     bindR (SenderChainKey_next E ck) (\<lambda>ck'. Ok (ck', st')))"

lemma bindR_body: "bindR (bindR x (\<lambda>y. Ok (g y))) f = bindR x (\<lambda>y. f (g y))"
  by (cases x) simp_all

interpretation skip_loop: fallible_loop "\<lambda>(ck, _). chain_key_index ck < counter" "skip_message_round E te"
  "\<lambda>(ck, st). skip_message_keys E te counter ck st" "\<lambda>(ck, _). unat counter - unat (chain_key_index ck)"
proof (unfold_locales; clarify)
  fix ck st
  show "skip_message_keys E te counter ck st = (if chain_key_index ck < counter
      then bindR (skip_message_round E te (ck, st)) (\<lambda>(ck, st). skip_message_keys E te counter ck st) else Ok (ck, st))"
    by (simp add: skip_message_round_def skip_message_keys.simps [of E te counter ck st] bindR_body)
  fix ck' st'
  assume "chain_key_index ck < counter" "skip_message_round E te (ck, st) = Ok (ck', st')"
  then show "unat counter - unat (chain_key_index ck) = Suc (unat counter - unat (chain_key_index ck'))"
    using u32_lt_Suc [of "chain_key_index ck" counter]
    by (auto simp: skip_message_round_def result_simps next_chain_key_def word_less_nat_alt)
qed (simp_all add: word_less_nat_alt)

interpretation sender_skip_loop: fallible_loop "\<lambda>(ck, _). sch_iteration ck < iteration" "skip_sender_round E"
  "\<lambda>(ck, st). skip_sender_keys E iteration ck st" "\<lambda>(ck, _). unat iteration - unat (sch_iteration ck)"
proof (unfold_locales; clarify)
  fix ck st
  show "skip_sender_keys E iteration ck st = (if sch_iteration ck < iteration
      then bindR (skip_sender_round E (ck, st)) (\<lambda>(ck, st). skip_sender_keys E iteration ck st) else Ok (ck, st))"
    by (simp add: skip_sender_round_def skip_sender_keys.simps [of E iteration ck st] bindR_body Let_def)
  fix ck' st'
  assume "sch_iteration ck < iteration" "skip_sender_round E (ck, st) = Ok (ck', st')"
  then show "unat iteration - unat (sch_iteration ck) = Suc (unat iteration - unat (sch_iteration ck'))"
    using u32_lt_Suc [of "sch_iteration ck" iteration]
    by (auto simp: skip_sender_round_def result_simps Let_def SenderChainKey_next_def word_less_nat_alt split: if_splits)
qed (simp_all add: word_less_nat_alt)

end
