(* ===== verification/Incremental_Mac.thy ===== *)
theory Incremental_Mac
  imports Prelude
begin

text \<open>
  \<open>rust/protocol/src/incremental_mac.rs\<close>: a MAC over a stream that emits the MAC of the prefix
  after every full chunk, and its validating counterpart. The MAC object (trait \<open>Mac\<close>) is a
  parameter: a record of its \<open>update\<close> and \<open>finalize\<close>. \<open>update\<close> of the sources returns a lazy
  iterator; the model is its complete consumption, as its callers do.
\<close>

record 'm mac_ops =
  mac_update :: "bytes \<Rightarrow> 'm \<Rightarrow> 'm"
  mac_finalize :: "'m \<Rightarrow> bytes"

text \<open>What the \<open>digest\<close> crate documents: finalizing after any updates is the MAC of their concatenation.\<close>

definition mac_streams :: "'m mac_ops \<Rightarrow> 'm \<Rightarrow> (bytes \<Rightarrow> bytes) \<Rightarrow> bool" where
  "mac_streams M m0 h \<longleftrightarrow> (\<forall>cs. mac_finalize M (fold (mac_update M) cs m0) = h (concat cs))"

subsection \<open>Chunk sizes\<close>

definition MINIMUM_CHUNK_SIZE :: nat where "MINIMUM_CHUNK_SIZE = 64 * 1024"
definition MAXIMUM_CHUNK_SIZE :: nat where "MAXIMUM_CHUNK_SIZE = 2 * 1024 * 1024"
definition TARGET_TOTAL_DIGEST_SIZE :: nat where "TARGET_TOTAL_DIGEST_SIZE = 8 * 1024"

text \<open>A digest of size 0 fails the remainder in the assertion, which panics as the assertion does.\<close>

definition calculate_chunk_size :: "nat \<Rightarrow> nat \<Rightarrow> (nat, 'e) result" where
  "calculate_chunk_size output_size data_size =
     bindR (assertR (output_size \<noteq> 0 \<and> 0 = TARGET_TOTAL_DIGEST_SIZE mod output_size)) (\<lambda>_.
     let target_chunk_count = TARGET_TOTAL_DIGEST_SIZE div output_size in
     if data_size < target_chunk_count * MINIMUM_CHUNK_SIZE then Ok MINIMUM_CHUNK_SIZE
     else if data_size < target_chunk_count * MAXIMUM_CHUNK_SIZE then Ok (div_ceil data_size target_chunk_count)
     else Ok MAXIMUM_CHUNK_SIZE)"

subsection \<open>\<open>Incremental\<close>\<close>

datatype mac_error = MacError

record 'm incremental =
  inc_mac :: 'm
  inc_chunk_size :: nat
  inc_unused_length :: nat

definition Incremental_new :: "'m \<Rightarrow> nat \<Rightarrow> ('m incremental, 'e) result" where
  "Incremental_new mac chunk_size =
     bindR (assertR (0 < chunk_size)) (\<lambda>_.
     Ok \<lparr>inc_mac = mac, inc_chunk_size = chunk_size, inc_unused_length = chunk_size\<rparr>)"

definition update_chunk ::
    "'m mac_ops \<Rightarrow> bytes \<Rightarrow> 'm incremental \<Rightarrow> (bytes option \<times> 'm incremental, mac_error) result" where
  "update_chunk M bytes inc =
     bindR (assertR (length bytes \<le> inc_unused_length inc)) (\<lambda>_.
     let mac = mac_update M bytes (inc_mac inc);
         unused_length = inc_unused_length inc - length bytes;
         inc' = inc\<lparr>inc_mac := mac, inc_unused_length := unused_length\<rparr> in
     if unused_length = 0
     then Ok (Some (mac_finalize M mac), inc'\<lparr>inc_unused_length := inc_chunk_size inc\<rparr>)
     else Ok (None, inc'))"

fun update_chunks ::
    "'m mac_ops \<Rightarrow> bytes list \<Rightarrow> 'm incremental \<Rightarrow> (bytes list \<times> 'm incremental, mac_error) result" where
  "update_chunks M [] inc = Ok ([], inc)"
| "update_chunks M (c # cs) inc =
     bindR (update_chunk M c inc) (\<lambda>(out, inc1).
     bindR (update_chunks M cs inc1) (\<lambda>(outs, inc2).
     Ok ((case out of None \<Rightarrow> outs | Some mac \<Rightarrow> mac # outs), inc2)))"

definition Incremental_update ::
    "'m mac_ops \<Rightarrow> bytes \<Rightarrow> 'm incremental \<Rightarrow> (bytes list \<times> 'm incremental, mac_error) result" where
  "Incremental_update M bytes inc =
     (let split_point = min (length bytes) (inc_unused_length inc);
          to_write = take split_point bytes;
          overflow = drop split_point bytes
      in update_chunks M (to_write # slice_chunks (inc_chunk_size inc) overflow) inc)"

definition Incremental_finalize :: "'m mac_ops \<Rightarrow> 'm incremental \<Rightarrow> bytes" where
  "Incremental_finalize M inc = mac_finalize M (inc_mac inc)"

definition pending_bytes_size :: "'m incremental \<Rightarrow> nat" where
  "pending_bytes_size inc = inc_chunk_size inc - inc_unused_length inc"

subsection \<open>\<open>Validating\<close>\<close>

record 'm validating =
  val_incremental :: "'m incremental"
  val_expected :: "bytes list" \<comment> \<open>reversed: the next expected MAC is the last\<close>

definition Incremental_validating :: "bytes list \<Rightarrow> 'm incremental \<Rightarrow> 'm validating" where
  "Incremental_validating macs inc = \<lparr>val_incremental = inc, val_expected = rev macs\<rparr>"

text \<open>The loop over the emitted MACs: the count of whole chunks, whether one failed, what is still expected.\<close>

fun check_macs :: "bytes list \<Rightarrow> nat \<times> bool \<times> bytes list \<Rightarrow> nat \<times> bool \<times> bytes list" where
  "check_macs [] acc = acc"
| "check_macs (mac # macs) (whole_chunks, failed, expected) =
     (if expected \<noteq> [] \<and> last expected = mac
      then check_macs macs (whole_chunks + 1, failed, butlast expected)
      else check_macs macs (whole_chunks, True, expected))"

definition Validating_update ::
    "'m mac_ops \<Rightarrow> bytes \<Rightarrow> 'm validating \<Rightarrow> (nat, mac_error) result \<times> 'm validating" where
  "Validating_update M bytes v =
     (case Incremental_update M bytes (val_incremental v) of
        Ok (macs, inc) \<Rightarrow>
          (let (whole_chunks, failed, expected) = check_macs macs (0, False, val_expected v);
               v' = \<lparr>val_incremental = inc, val_expected = expected\<rparr>
           in (if failed then Err MacError else Ok (whole_chunks * inc_chunk_size inc), v'))
      | Err e \<Rightarrow> (Err e, v)
      | Panic \<Rightarrow> (Panic, v))"

definition Validating_finalize :: "'m mac_ops \<Rightarrow> 'm validating \<Rightarrow> (nat, mac_error) result" where
  "Validating_finalize M v =
     (let pending = pending_bytes_size (val_incremental v);
          mac = Incremental_finalize M (val_incremental v)
      in if val_expected v = [mac] then Ok pending else Err MacError)"

subsection \<open>The chunk size is in range\<close>

lemma calculate_chunk_size_bounds:
  assumes "calculate_chunk_size out n = Ok c"
  shows "MINIMUM_CHUNK_SIZE \<le> c" "c \<le> MAXIMUM_CHUNK_SIZE"
    "n \<le> TARGET_TOTAL_DIGEST_SIZE div out * MAXIMUM_CHUNK_SIZE \<Longrightarrow> div_ceil n c * out \<le> TARGET_TOTAL_DIGEST_SIZE"
proof -
  let ?t = "TARGET_TOTAL_DIGEST_SIZE div out"
  have out: "out \<noteq> 0" "TARGET_TOTAL_DIGEST_SIZE mod out = 0"
    using assms by (auto simp: calculate_chunk_size_def result_simps)
  then have t: "?t * out = TARGET_TOTAL_DIGEST_SIZE" "0 < ?t"
    by (auto simp: TARGET_TOTAL_DIGEST_SIZE_def mod_eq_0_iff_dvd div_greater_zero_iff dest: dvd_imp_le)
  have c: "c = (if n < ?t * MINIMUM_CHUNK_SIZE then MINIMUM_CHUNK_SIZE
      else if n < ?t * MAXIMUM_CHUNK_SIZE then div_ceil n ?t else MAXIMUM_CHUNK_SIZE)"
    using assms by (auto simp: calculate_chunk_size_def result_simps Let_def split: if_splits)
  have le: "x \<le> div_ceil n ?t" if "x * ?t \<le> n" for x
    using div_ceil_bounds(1) [OF t(2), of n] that t(2) by (metis le_trans mult_le_cancel2 not_gr_zero)
  show "MINIMUM_CHUNK_SIZE \<le> c"
    using le [of MINIMUM_CHUNK_SIZE] by (auto simp: c mult.commute) (simp add: MINIMUM_CHUNK_SIZE_def MAXIMUM_CHUNK_SIZE_def)
  show "c \<le> MAXIMUM_CHUNK_SIZE"
  proof (cases "n < ?t * MAXIMUM_CHUNK_SIZE")
    case True
    then have "\<not> MAXIMUM_CHUNK_SIZE < div_ceil n ?t"
      using div_ceil_bounds(2) [OF t(2), of MAXIMUM_CHUNK_SIZE n] by (auto simp: mult.commute)
    then show ?thesis by (auto simp: c) (simp add: MINIMUM_CHUNK_SIZE_def MAXIMUM_CHUNK_SIZE_def)
  qed (simp add: c MINIMUM_CHUNK_SIZE_def MAXIMUM_CHUNK_SIZE_def)
  assume n: "n \<le> ?t * MAXIMUM_CHUNK_SIZE"
  have "n \<le> ?t * c"
    using n div_ceil_bounds(1) [OF t(2), of n] by (auto simp: c mult.commute)
  then have "div_ceil n c \<le> ?t"
  proof -
    have "0 < c" using \<open>MINIMUM_CHUNK_SIZE \<le> c\<close> by (simp add: MINIMUM_CHUNK_SIZE_def)
    then show ?thesis using div_ceil_bounds(2) [of c ?t n] \<open>n \<le> ?t * c\<close> by (meson not_le)
  qed
  then show "div_ceil n c * out \<le> TARGET_TOTAL_DIGEST_SIZE" using t(1) by (metis mult_le_mono1)
qed

subsection \<open>The emitted MACs are those of the prefixes\<close>

text \<open>The MACs of the whole chunks that end after \<open>D\<close> when \<open>b\<close> follows it.\<close>

definition new_macs :: "(bytes \<Rightarrow> bytes) \<Rightarrow> nat \<Rightarrow> bytes \<Rightarrow> bytes \<Rightarrow> bytes list" where
  "new_macs h c D b = map (\<lambda>k. h (take (Suc k * c) (D @ b))) [length D div c ..< length (D @ b) div c]"

text \<open>The MACs of all whole chunks of the data.\<close>

definition chunk_macs :: "(bytes \<Rightarrow> bytes) \<Rightarrow> nat \<Rightarrow> bytes \<Rightarrow> bytes list" where
  "chunk_macs h c D = map (\<lambda>k. h (take (Suc k * c) D)) [0 ..< length D div c]"

lemma new_macs_Nil: "new_macs h c [] D = chunk_macs h c D"
  by (simp add: new_macs_def chunk_macs_def)

lemma length_new_macs: "length (new_macs h c D b) = length (D @ b) div c - length D div c"
  by (simp add: new_macs_def)

lemma new_macs_append: "new_macs h c D (a @ b) = new_macs h c D a @ new_macs h c (D @ a) b"
proof -
  let ?i = "length D div c" and ?j = "length (D @ a) div c" and ?k = "length (D @ a @ b) div c"
  have range: "[?i ..< ?k] = [?i ..< ?j] @ [?j ..< ?k]"
    using upt_add_eq_append [of ?i ?j "?k - ?j"] by (simp add: div_le_mono)
  have "take (Suc k * c) (D @ a @ b) = take (Suc k * c) (D @ a)" if "k < ?j" for k
  proof -
    have "Suc k * c \<le> ?j * c" using that by (intro mult_le_mono1) simp
    also have "\<dots> \<le> length (D @ a)" by (rule div_times_less_eq_dividend)
    finally show ?thesis by simp
  qed
  then have "map (\<lambda>k. h (take (Suc k * c) (D @ a @ b))) [?i ..< ?j] = map (\<lambda>k. h (take (Suc k * c) (D @ a))) [?i ..< ?j]"
    by (intro map_cong refl arg_cong [of _ _ h]) (simp only: set_upt atLeastLessThan_iff)
  then show ?thesis by (simp only: new_macs_def append_assoc range map_append)
qed

text \<open>The object has consumed \<open>D\<close>.\<close>

definition inc_at :: "'m mac_ops \<Rightarrow> 'm \<Rightarrow> nat \<Rightarrow> bytes \<Rightarrow> 'm incremental \<Rightarrow> bool" where
  "inc_at M m0 c D inc \<longleftrightarrow>
     0 < c \<and> inc_chunk_size inc = c \<and> inc_unused_length inc = c - length D mod c \<and>
     (\<exists>cs. concat cs = D \<and> inc_mac inc = fold (mac_update M) cs m0)"

lemma inc_at_new: "Incremental_new m0 c = Ok inc \<Longrightarrow> inc_at M m0 c [] inc"
  by (auto simp: Incremental_new_def inc_at_def result_simps intro!: exI [of _ "[]"])

lemma inc_at_finalize: "mac_streams M m0 h \<Longrightarrow> inc_at M m0 c D inc \<Longrightarrow> Incremental_finalize M inc = h D"
  by (auto simp: mac_streams_def inc_at_def Incremental_finalize_def)

lemma inc_at_pending: "inc_at M m0 c D inc \<Longrightarrow> pending_bytes_size inc = length D mod c"
  using mod_less_divisor [of c "length D"] by (auto simp: inc_at_def pending_bytes_size_def simp del: mod_less_divisor)

lemma fill_chunk:
  fixes n b c :: nat
  assumes "0 < c" "b \<le> c - n mod c"
  shows "(n + b) div c = n div c + (if b = c - n mod c then 1 else 0)"
    and "(n + b) mod c = (if b = c - n mod c then 0 else n mod c + b)"
proof -
  have r: "n mod c < c" using assms(1) by simp
  have n: "n = n div c * c + n mod c" by simp
  have "(n + b) div c = n div c + (if b = c - n mod c then 1 else 0) \<and>
      (n + b) mod c = (if b = c - n mod c then 0 else n mod c + b)"
  proof (cases "b = c - n mod c")
    case True
    then have "n mod c + b = c" using r by simp
    then have "n + b = n div c * c + c" using n by linarith
    then have "n + b = (n div c + 1) * c" by simp
    then show ?thesis using assms(1) True by simp
  next
    case False
    then have lt: "n mod c + b < c" using assms(2) r by simp
    have eq: "n + b = n div c * c + (n mod c + b)" using n by simp
    have "(q * c + t) div c = q" "(q * c + t) mod c = t" if "t < c" for q t using that by simp_all
    from this [OF lt, of "n div c"] show ?thesis unfolding eq [symmetric] using False by simp
  qed
  then show "(n + b) div c = n div c + (if b = c - n mod c then 1 else 0)"
    "(n + b) mod c = (if b = c - n mod c then 0 else n mod c + b)" by simp_all
qed

lemma update_chunk_at:
  assumes "mac_streams M m0 h" "inc_at M m0 c D inc" "length b \<le> inc_unused_length inc"
  shows "\<exists>out inc'. update_chunk M b inc = Ok (out, inc') \<and> inc_at M m0 c (D @ b) inc' \<and>
    (case out of None \<Rightarrow> [] | Some mac \<Rightarrow> [mac]) = new_macs h c D b"
proof -
  let ?n = "length D" and ?b = "length b"
  obtain cs where cs: "concat cs = D" "inc_mac inc = fold (mac_update M) cs m0"
    and c: "0 < c" "inc_chunk_size inc = c" "inc_unused_length inc = c - ?n mod c"
    using assms(2) by (auto simp: inc_at_def)
  have mac: "mac_update M b (inc_mac inc) = fold (mac_update M) (cs @ [b]) m0" using cs(2) by simp
  have fin: "mac_finalize M (fold (mac_update M) cs' m0) = h (D @ b)" if "concat cs' = D @ b" for cs'
    using assms(1) that by (simp add: mac_streams_def)
  have le: "?b \<le> c - ?n mod c" using assms(3) c(3) by simp
  note fill = fill_chunk [OF c(1) le]
  have ex: "\<exists>cs'. concat cs' = D @ b \<and> fold (mac_update M) (cs @ [b]) m0 = fold (mac_update M) cs' m0"
    using cs(1) by (intro exI [of _ "cs @ [b]"]) simp
  show ?thesis
  proof (cases "?b = c - ?n mod c")
    case True
    have "(?n div c + 1) * c = ?n + ?b" using fill True mult_div_mod_eq [of c "?n + ?b"] by (simp add: mult.commute)
    then have "new_macs h c D b = [h (D @ b)]" using fill True by (simp add: new_macs_def)
    then show ?thesis
      using True c fill ex by (auto simp: update_chunk_def result_simps Let_def inc_at_def mac fin)
  next
    case False
    then have "new_macs h c D b = []" using fill by (simp add: new_macs_def)
    moreover have "c - ?n mod c - ?b = c - (?n + ?b) mod c" using fill False by simp
    ultimately show ?thesis
      using False le c ex by (auto simp: update_chunk_def result_simps Let_def inc_at_def mac)
  qed
qed

lemma update_chunks_slices:
  assumes "mac_streams M m0 h" "inc_at M m0 c D inc" "length D mod c = 0"
  shows "\<exists>inc'. update_chunks M (slice_chunks c xs) inc = Ok (new_macs h c D xs, inc') \<and> inc_at M m0 c (D @ xs) inc'"
  using assms(2,3)
proof (induction c xs arbitrary: D inc rule: slice_chunks.induct)
  case (1 c xs)
  show ?case
  proof (cases "xs = []")
    case True
    then show ?thesis using 1(2) by (simp add: new_macs_def)
  next
    case False
    have c: "c \<noteq> 0" "inc_unused_length inc = c" using 1(2,3) by (auto simp: inc_at_def)
    then obtain out inc1 where u: "update_chunk M (take c xs) inc = Ok (out, inc1)" "inc_at M m0 c (D @ take c xs) inc1"
        "(case out of None \<Rightarrow> [] | Some mac \<Rightarrow> [mac]) = new_macs h c D (take c xs)"
      using update_chunk_at [OF assms(1) 1(2), of "take c xs"] by auto
    have "\<exists>inc'. update_chunks M (slice_chunks c (drop c xs)) inc1 =
        Ok (new_macs h c (D @ take c xs) (drop c xs), inc') \<and> inc_at M m0 c ((D @ take c xs) @ drop c xs) inc'"
    proof (cases "length xs < c")
      case True
      then show ?thesis using u(2) by (simp add: new_macs_def)
    next
      case F: False
      then have "length (D @ take c xs) mod c = 0" using 1(3) by simp
      with 1(1) [OF _ u(2)] False c(1) show ?thesis by auto
    qed
    then show ?thesis
      using u(1,3) False c(1) new_macs_append [of h c D "take c xs" "drop c xs"]
      by (cases out) (auto simp: slice_chunks.simps [of c xs])
  qed
qed

lemma Incremental_update_at:
  assumes "mac_streams M m0 h" "inc_at M m0 c D inc"
  shows "\<exists>inc'. Incremental_update M b inc = Ok (new_macs h c D b, inc') \<and> inc_at M m0 c (D @ b) inc'"
proof -
  let ?u = "inc_unused_length inc" and ?s = "min (length b) (inc_unused_length inc)"
  have c: "inc_chunk_size inc = c" "0 < c" "?u = c - length D mod c" using assms(2) by (auto simp: inc_at_def)
  obtain out inc1 where u: "update_chunk M (take ?s b) inc = Ok (out, inc1)" "inc_at M m0 c (D @ take ?s b) inc1"
      "(case out of None \<Rightarrow> [] | Some mac \<Rightarrow> [mac]) = new_macs h c D (take ?s b)"
    using update_chunk_at [OF assms, of "take ?s b"] by auto
  have "\<exists>inc'. update_chunks M (slice_chunks c (drop ?s b)) inc1 =
      Ok (new_macs h c (D @ take ?s b) (drop ?s b), inc') \<and> inc_at M m0 c ((D @ take ?s b) @ drop ?s b) inc'"
  proof (cases "length b \<le> ?u")
    case True
    then show ?thesis using u(2) by (simp add: new_macs_def)
  next
    case False
    then have "length (D @ take ?s b) mod c = 0" using fill_chunk(2) [OF c(2), of ?u "length D"] c(3) by simp
    with update_chunks_slices [OF assms(1) u(2), of "drop ?s b"] show ?thesis by simp
  qed
  then show ?thesis
    using u(1,3) new_macs_append [of h c D "take ?s b" "drop ?s b"]
    by (cases out) (auto simp: Incremental_update_def Let_def c(1))
qed

subsection \<open>Validation\<close>

lemma check_macs_failed: "\<exists>n' ex'. check_macs macs (n, True, ex) = (n', True, ex')"
  by (induction macs arbitrary: n ex) simp_all

lemma check_macs_match:
  "take (length macs) rest = macs \<Longrightarrow>
   check_macs macs (n, False, rev rest) = (n + length macs, False, rev (drop (length macs) rest))"
proof (induction macs arbitrary: n rest)
  case (Cons m macs)
  then obtain rest' where "rest = m # rest'" by (cases rest) auto
  then show ?case using Cons by simp
qed simp

lemma check_macs_mismatch:
  "take (length macs) rest \<noteq> macs \<Longrightarrow> \<exists>n' ex'. check_macs macs (n, False, rev rest) = (n', True, ex')"
proof (induction macs arbitrary: n rest)
  case (Cons m macs)
  show ?case
  proof (cases "rev rest \<noteq> [] \<and> last (rev rest) = m")
    case True
    then obtain rest' where "rest = m # rest'" by (cases rest) auto
    then show ?thesis using Cons by simp
  next
    case False
    then show ?thesis by (simp only: check_macs.simps if_False check_macs_failed)
  qed
qed simp

lemma Validating_update_at:
  fixes b :: bytes
  assumes "mac_streams M m0 h" "inc_at M m0 c D (val_incremental v)" "val_expected v = rev rest"
  defines "ms \<equiv> new_macs h c D b"
  shows "if take (length ms) rest = ms
    then \<exists>v'. Validating_update M b v = (Ok (length ms * c), v') \<and> inc_at M m0 c (D @ b) (val_incremental v') \<and>
      val_expected v' = rev (drop (length ms) rest)
    else \<exists>v'. Validating_update M b v = (Err MacError, v')"
proof -
  obtain inc' where u: "Incremental_update M b (val_incremental v) = Ok (ms, inc')" "inc_at M m0 c (D @ b) inc'"
    using Incremental_update_at [OF assms(1,2)] ms_def by blast
  have c: "inc_chunk_size inc' = c" using u(2) by (simp add: inc_at_def)
  show ?thesis
    using check_macs_match [of ms rest 0] check_macs_mismatch [of ms rest 0] u c assms(3)
    by (auto simp: Validating_update_def)
qed

text \<open>The data in pieces, then the end of the stream; the first error ends the run.\<close>

primrec validate_all :: "'m mac_ops \<Rightarrow> bytes list \<Rightarrow> 'm validating \<Rightarrow> (nat, mac_error) result" where
  "validate_all M [] v = Validating_finalize M v"
| "validate_all M (p # ps) v =
     (case Validating_update M p v of
        (Ok n, v') \<Rightarrow> bindR (validate_all M ps v') (\<lambda>k. Ok (n + k))
      | (Err e, _) \<Rightarrow> Err e
      | (Panic, _) \<Rightarrow> Panic)"

lemma chunk_count: "(length (D @ b) div c - length D div c) * c + length (D @ b) mod c = length D mod c + length b"
proof -
  have "length D div c \<le> length (D @ b) div c" by (simp add: div_le_mono)
  then have "(length (D @ b) div c - length D div c) * c = length (D @ b) div c * c - length D div c * c"
    by (simp add: diff_mult_distrib)
  moreover have "length D div c * c \<le> length (D @ b) div c * c" by (simp add: div_le_mono)
  moreover have "length (D @ b) div c * c + length (D @ b) mod c = length D + length b" by simp
  moreover have "length D div c * c + length D mod c = length D" by simp
  ultimately show ?thesis by linarith
qed

lemma validate_all_at:
  assumes "mac_streams M m0 h" "inc_at M m0 c D (val_incremental v)" "val_expected v = rev rest"
  shows "validate_all M ps v =
    (if rest = new_macs h c D (concat ps) @ [h (D @ concat ps)] then Ok (length D mod c + length (concat ps))
     else Err MacError)"
  using assms(2,3)
proof (induction ps arbitrary: D v rest)
  case Nil
  have "rev rest = [x] \<longleftrightarrow> rest = [x]" for x :: bytes by (cases rest) auto
  then show ?case
    using Nil inc_at_finalize [OF assms(1) Nil(1)] inc_at_pending [OF Nil(1)]
    by (simp add: Validating_finalize_def Let_def new_macs_def)
next
  case (Cons p ps)
  let ?ms = "new_macs h c D p"
  have split: "new_macs h c D (concat (p # ps)) = ?ms @ new_macs h c (D @ p) (concat ps)"
    by (simp add: new_macs_append)
  show ?case
  proof (cases "take (length ?ms) rest = ?ms")
    case True
    then obtain v' where v': "Validating_update M p v = (Ok (length ?ms * c), v')" "inc_at M m0 c (D @ p) (val_incremental v')"
        "val_expected v' = rev (drop (length ?ms) rest)"
      using Validating_update_at [OF assms(1) Cons.prems, of p] by auto
    have "rest = ?ms @ drop (length ?ms) rest" using True by (metis append_take_drop_id)
    then have "drop (length ?ms) rest = xs \<longleftrightarrow> rest = ?ms @ xs" for xs by (metis same_append_eq)
    then show ?thesis
      using Cons.IH [OF v'(2,3)] v'(1) chunk_count [of D p c] unfolding split
      by (simp add: length_new_macs)
  next
    case False
    then obtain v' where "Validating_update M p v = (Err MacError, v')"
      using Validating_update_at [OF assms(1) Cons.prems, of p] by auto
    moreover have "rest \<noteq> ?ms @ xs" for xs using False by auto
    ultimately show ?thesis unfolding split by simp
  qed
qed

text \<open>Validation accepts a stream exactly with the MACs of its prefixes, however it is cut into pieces.\<close>

lemma validating_exact:
  assumes "mac_streams M m0 h" "Incremental_new m0 c = Ok inc"
  shows "validate_all M ps (Incremental_validating macs inc) =
    (if macs = chunk_macs h c (concat ps) @ [h (concat ps)] then Ok (length (concat ps)) else Err MacError)"
  using validate_all_at [OF assms(1), of c "[]" "Incremental_validating macs inc" macs ps] inc_at_new [OF assms(2)]
  by (simp add: Incremental_validating_def new_macs_Nil)

end
