(* ===== verification/Aes_Gcm.thy ===== *)
theory Aes_Gcm
  imports Prelude
begin

text \<open>
  \<open>rust/crypto/src/aes_ctr.rs\<close> and \<open>rust/crypto/src/aes_gcm.rs\<close>: AES-256-CTR with a 12-byte nonce
  and an initial counter, and streaming AES-256-GCM with its own buffering in front of GHASH. The
  block cipher, its CTR key stream and GHASH (crates \<open>aes\<close>, \<open>ctr\<close>, \<open>ghash\<close>) are parameters.
\<close>

datatype crypto_error =
    UnknownAlgorithm string string
  | InvalidKeySize
  | InvalidNonceSize
  | InvalidInputSize
  | InvalidTag

text \<open>
  \<open>ctr32be_stream\<close> gives the first bytes of the key stream of a key and nonce block, of which at
  most \<open>ctr32be_limit\<close> can be read: \<open>apply_keystream\<close> panics beyond. A \<open>GHash\<close> object is its key
  and the blocks it has absorbed.
\<close>

record crypto_prims =
  aes256_block :: "bytes \<Rightarrow> bytes \<Rightarrow> bytes"
  ctr32be_stream :: "bytes \<Rightarrow> bytes \<Rightarrow> nat \<Rightarrow> bytes"
  ctr32be_limit :: nat
  ghash_of :: "bytes \<Rightarrow> bytes list \<Rightarrow> bytes"

definition prims_ok :: "crypto_prims \<Rightarrow> bool" where
  "prims_ok P \<longleftrightarrow>
     (\<forall>k n l. length (ctr32be_stream P k n l) = l) \<and>
     (\<forall>k n a b. take a (ctr32be_stream P k n (a + b)) = ctr32be_stream P k n a) \<and>
     (\<forall>h bs. length (ghash_of P h bs) = 16)"

subsection \<open>\<open>aes_ctr.rs\<close>\<close>

record aes256_ctr32 =
  ctr_key :: bytes
  ctr_nonce_block :: bytes
  ctr_position :: nat

definition Aes256Ctr32_new :: "bytes \<Rightarrow> bytes \<Rightarrow> u32 \<Rightarrow> (aes256_ctr32, crypto_error) result" where
  "Aes256Ctr32_new aes256_key nonce init_ctr =
     (if length nonce \<noteq> 12 then Err InvalidNonceSize
      else Ok \<lparr>ctr_key = aes256_key, ctr_nonce_block = nonce @ replicate 4 0,
               ctr_position = 16 * unat init_ctr\<rparr>)"

definition Aes256Ctr32_from_key :: "bytes \<Rightarrow> bytes \<Rightarrow> u32 \<Rightarrow> (aes256_ctr32, crypto_error) result" where
  "Aes256Ctr32_from_key key nonce init_ctr =
     (if length key \<noteq> 32 then Err InvalidKeySize else Aes256Ctr32_new key nonce init_ctr)"

definition Aes256Ctr32_process ::
    "crypto_prims \<Rightarrow> bytes \<Rightarrow> aes256_ctr32 \<Rightarrow> (bytes \<times> aes256_ctr32, crypto_error) result" where
  "Aes256Ctr32_process P buf c =
     (let pos = ctr_position c + length buf in
      if ctr32be_limit P < pos then Panic
      else Ok (map2 (XOR) buf (drop (ctr_position c) (ctr32be_stream P (ctr_key c) (ctr_nonce_block c) pos)),
               c\<lparr>ctr_position := pos\<rparr>))"

subsection \<open>\<open>GcmGhash\<close>\<close>

definition TAG_SIZE :: nat where "TAG_SIZE = 16"
definition NONCE_SIZE :: nat where "NONCE_SIZE = 12"

record gcm_ghash =
  gg_key :: bytes
  gg_blocks :: "bytes list" \<comment> \<open>what \<open>GHash\<close> has absorbed\<close>
  gg_pad :: bytes
  gg_msg_buf :: bytes
  gg_msg_buf_offset :: nat
  gg_ad_len :: nat
  gg_msg_len :: nat

text \<open>\<open>update_padded\<close>: whole blocks, the last one filled with zeros.\<close>

definition pad_block :: "bytes \<Rightarrow> bytes" where
  "pad_block b = b @ replicate (16 - length b) 0"

definition padded_blocks :: "bytes \<Rightarrow> bytes list" where
  "padded_blocks xs = map pad_block (slice_chunks 16 xs)"

definition GcmGhash_new :: "bytes \<Rightarrow> bytes \<Rightarrow> bytes \<Rightarrow> gcm_ghash" where
  "GcmGhash_new h ghash_pad associated_data =
     \<lparr>gg_key = h, gg_blocks = padded_blocks associated_data, gg_pad = ghash_pad,
      gg_msg_buf = replicate TAG_SIZE 0, gg_msg_buf_offset = 0,
      gg_ad_len = length associated_data, gg_msg_len = 0\<rparr>"

text \<open>\<open>buf[offset..offset + src.len()].copy_from_slice(src)\<close>\<close>

definition copy_at :: "nat \<Rightarrow> bytes \<Rightarrow> bytes \<Rightarrow> bytes" where
  "copy_at offset src buf = take offset buf @ src @ drop (offset + length src) buf"

function GcmGhash_update :: "bytes \<Rightarrow> gcm_ghash \<Rightarrow> (gcm_ghash, crypto_error) result" where
  "GcmGhash_update msg g =
     (if gg_msg_buf_offset g > 0 then
        let taking = min (length msg) (TAG_SIZE - gg_msg_buf_offset g);
            offset = gg_msg_buf_offset g + taking;
            g1 = g\<lparr>gg_msg_buf := copy_at (gg_msg_buf_offset g) (take taking msg) (gg_msg_buf g),
                   gg_msg_buf_offset := offset\<rparr> in
        bindR (assertR (offset \<le> TAG_SIZE)) (\<lambda>_.
        let g2 = g1\<lparr>gg_msg_len := gg_msg_len g + taking\<rparr> in
        if offset = TAG_SIZE
        then GcmGhash_update (drop taking msg)
               (g2\<lparr>gg_blocks := gg_blocks g @ [gg_msg_buf g1], gg_msg_buf_offset := 0\<rparr>)
        else Ok g2)
      else
        let g1 = g\<lparr>gg_msg_len := gg_msg_len g + length msg\<rparr>;
            full_blocks = length msg div 16;
            leftover = length msg - 16 * full_blocks in
        bindR (assertR (leftover < TAG_SIZE)) (\<lambda>_.
        let g2 = (if full_blocks > 0
                  then g1\<lparr>gg_blocks := gg_blocks g @ slice_chunks 16 (take (16 * full_blocks) msg)\<rparr>
                  else g1)
        in Ok (g2\<lparr>gg_msg_buf := copy_at 0 (drop (full_blocks * 16) msg) (gg_msg_buf g),
                   gg_msg_buf_offset := leftover\<rparr>)))"
  by pat_completeness auto
termination
  by (relation "measure (\<lambda>(msg, g). gg_msg_buf_offset g)") auto

declare GcmGhash_update.simps [simp del]

definition GcmGhash_finalize :: "crypto_prims \<Rightarrow> gcm_ghash \<Rightarrow> bytes" where
  "GcmGhash_finalize P g =
     (let blocks1 = gg_blocks g @ (if gg_msg_buf_offset g > 0
            then padded_blocks (take (gg_msg_buf_offset g) (gg_msg_buf g)) else []);
          final_block = be_bytes 8 (8 * gg_ad_len g) @ be_bytes 8 (8 * gg_msg_len g);
          hash = ghash_of P (gg_key g) (blocks1 @ [final_block])
      in map2 (XOR) hash (gg_pad g))"

subsection \<open>Encryption and decryption objects\<close>

definition setup_gcm ::
    "crypto_prims \<Rightarrow> bytes \<Rightarrow> bytes \<Rightarrow> bytes \<Rightarrow> (aes256_ctr32 \<times> gcm_ghash, crypto_error) result" where
  "setup_gcm P key nonce associated_data =
     (if length nonce \<noteq> NONCE_SIZE then Err InvalidNonceSize
      else if length key \<noteq> 32 then Err InvalidKeySize
      else
        let h = aes256_block P key (replicate TAG_SIZE 0) in
        bindR (Aes256Ctr32_new key nonce 1) (\<lambda>ctr.
        bindR (Aes256Ctr32_process P (replicate 16 0) ctr) (\<lambda>(ghash_pad, ctr').
        Ok (ctr', GcmGhash_new h ghash_pad associated_data))))"

record aes256_gcm =
  gcm_ctr :: aes256_ctr32
  gcm_ghash_state :: gcm_ghash

definition Aes256GcmEncryption_new ::
    "crypto_prims \<Rightarrow> bytes \<Rightarrow> bytes \<Rightarrow> bytes \<Rightarrow> (aes256_gcm, crypto_error) result" where
  "Aes256GcmEncryption_new P key nonce ad =
     bindR (setup_gcm P key nonce ad) (\<lambda>(ctr, ghash). Ok \<lparr>gcm_ctr = ctr, gcm_ghash_state = ghash\<rparr>)"

definition Aes256GcmEncryption_encrypt ::
    "crypto_prims \<Rightarrow> bytes \<Rightarrow> aes256_gcm \<Rightarrow> (bytes \<times> aes256_gcm, crypto_error) result" where
  "Aes256GcmEncryption_encrypt P buf e =
     bindR (Aes256Ctr32_process P buf (gcm_ctr e)) (\<lambda>(buf', ctr').
     bindR (GcmGhash_update buf' (gcm_ghash_state e)) (\<lambda>ghash'.
     Ok (buf', \<lparr>gcm_ctr = ctr', gcm_ghash_state = ghash'\<rparr>)))"

definition compute_tag :: "crypto_prims \<Rightarrow> aes256_gcm \<Rightarrow> bytes" where
  "compute_tag P e = GcmGhash_finalize P (gcm_ghash_state e)"

definition Aes256GcmDecryption_new ::
    "crypto_prims \<Rightarrow> bytes \<Rightarrow> bytes \<Rightarrow> bytes \<Rightarrow> (aes256_gcm, crypto_error) result" where
  "Aes256GcmDecryption_new P key nonce ad =
     bindR (setup_gcm P key nonce ad) (\<lambda>(ctr, ghash). Ok \<lparr>gcm_ctr = ctr, gcm_ghash_state = ghash\<rparr>)"

definition Aes256GcmDecryption_decrypt ::
    "crypto_prims \<Rightarrow> bytes \<Rightarrow> aes256_gcm \<Rightarrow> (bytes \<times> aes256_gcm, crypto_error) result" where
  "Aes256GcmDecryption_decrypt P buf e =
     bindR (GcmGhash_update buf (gcm_ghash_state e)) (\<lambda>ghash'.
     bindR (Aes256Ctr32_process P buf (gcm_ctr e)) (\<lambda>(buf', ctr').
     Ok (buf', \<lparr>gcm_ctr = ctr', gcm_ghash_state = ghash'\<rparr>)))"

definition verify_tag :: "crypto_prims \<Rightarrow> bytes \<Rightarrow> aes256_gcm \<Rightarrow> (unit, crypto_error) result" where
  "verify_tag P tag e =
     (if length tag \<noteq> TAG_SIZE then Err InvalidTag
      else
        let computed_tag = GcmGhash_finalize P (gcm_ghash_state e) in
        if tag \<noteq> computed_tag then Err InvalidTag else Ok ())"

subsection \<open>The key stream of several calls\<close>

text \<open>The bytes of the key stream from one position on.\<close>

definition stream_at :: "crypto_prims \<Rightarrow> bytes \<Rightarrow> bytes \<Rightarrow> nat \<Rightarrow> nat \<Rightarrow> bytes" where
  "stream_at P k n pos l = drop pos (ctr32be_stream P k n (pos + l))"

lemma length_stream_at: "prims_ok P \<Longrightarrow> length (stream_at P k n pos l) = l"
  by (simp add: stream_at_def prims_ok_def)

lemma stream_at_append:
  assumes "prims_ok P"
  shows "stream_at P k n pos (a + b) = stream_at P k n pos a @ stream_at P k n (pos + a) b"
proof -
  let ?s = "ctr32be_stream P k n (pos + a + b)"
  have pre: "ctr32be_stream P k n (pos + a) = take (pos + a) ?s" using assms by (simp add: prims_ok_def)
  have t: "drop pos (take (pos + a) ?s) = take a (drop pos ?s)" by (simp add: drop_take)
  have d: "drop (pos + a) ?s = drop a (drop pos ?s)" by (simp add: add.commute)
  show ?thesis by (simp only: stream_at_def pre t d append_take_drop_id add.assoc [symmetric])
qed

lemma process_stream:
  assumes "ctr_position c + length buf \<le> ctr32be_limit P"
  shows "Aes256Ctr32_process P buf c =
    Ok (map2 (XOR) buf (stream_at P (ctr_key c) (ctr_nonce_block c) (ctr_position c) (length buf)),
      c\<lparr>ctr_position := ctr_position c + length buf\<rparr>)"
  using assms by (simp add: Aes256Ctr32_process_def stream_at_def Let_def)

lemma xor_twice: "length ks = length (p :: bytes) \<Longrightarrow> map2 (XOR) (map2 (XOR) p ks) ks = p"
  by (induction p ks rule: list_induct2') (simp_all add: xor.assoc)

subsection \<open>The buffered hash\<close>

definition whole :: "bytes \<Rightarrow> bytes" where "whole D = take (16 * (length D div 16)) D"
definition left :: "bytes \<Rightarrow> bytes" where "left D = drop (16 * (length D div 16)) D"

lemma whole_left: "whole D @ left D = D"
  by (simp add: whole_def left_def)

lemma length_left: "length (left D) = length D mod 16"
  by (simp add: left_def minus_mult_div_eq_mod)

lemma length_whole: "length (whole D) = 16 * (length D div 16)"
  by (simp add: whole_def min_absorb2)

lemma aligned_append:
  assumes "length A mod 16 = 0"
  shows "whole (A @ m) = A @ whole m" "left (A @ m) = left m"
proof -
  obtain q where q: "length A = 16 * q" using assms by (auto elim: dvdE simp: mod_eq_0_iff_dvd)
  have "16 * ((length A + length m) div 16) = length A + 16 * (length m div 16)" by (simp add: q)
  then show "whole (A @ m) = A @ whole m" "left (A @ m) = left m" by (simp_all add: whole_def left_def)
qed

lemma whole_append: "whole (D @ m) = whole D @ whole (left D @ m)" "left (D @ m) = left (left D @ m)"
  using aligned_append [of "whole D" "left D @ m"] whole_left [of D] length_whole [of D]
  by (metis append_assoc mod_mult_self1_is_0)+

lemma whole_short: "length D < 16 \<Longrightarrow> whole D = []" "length D < 16 \<Longrightarrow> left D = D"
  by (simp_all add: whole_def left_def)

lemma padded_blocks_split:
  "padded_blocks D = slice_chunks 16 (whole D) @ padded_blocks (left D)"
proof -
  have al: "length (whole D) mod 16 = 0" by (simp add: length_whole)
  have "map pad_block (slice_chunks 16 (whole D)) = slice_chunks 16 (whole D)"
    by (rule map_idI) (simp add: pad_block_def length_slice_chunks [OF al])
  moreover have "slice_chunks 16 D = slice_chunks 16 (whole D) @ slice_chunks 16 (left D)"
    using slice_chunks_append [OF al, of "left D"] by (simp add: whole_left)
  ultimately show ?thesis by (simp add: padded_blocks_def)
qed

text \<open>The object has absorbed the message bytes \<open>D\<close> after the associated data.\<close>

definition ghash_at :: "bytes \<Rightarrow> bytes \<Rightarrow> bytes \<Rightarrow> bytes \<Rightarrow> gcm_ghash \<Rightarrow> bool" where
  "ghash_at h pad ad D g \<longleftrightarrow>
     gg_key g = h \<and> gg_pad g = pad \<and> gg_ad_len g = length ad \<and> gg_msg_len g = length D \<and>
     length (gg_msg_buf g) = 16 \<and> gg_msg_buf_offset g = length (left D) \<and>
     take (length (left D)) (gg_msg_buf g) = left D \<and>
     gg_blocks g = padded_blocks ad @ slice_chunks 16 (whole D)"

lemma ghash_at_new: "ghash_at h pad ad [] (GcmGhash_new h pad ad)"
  by (simp add: ghash_at_def GcmGhash_new_def TAG_SIZE_def whole_def left_def)

lemma update_aligned:
  assumes "ghash_at h pad ad D g" "gg_msg_buf_offset g = 0"
  shows "\<exists>g'. GcmGhash_update m g = Ok g' \<and> ghash_at h pad ad (D @ m) g'"
proof -
  have l: "left D = []" using assms by (simp add: ghash_at_def)
  have wh: "whole (D @ m) = whole D @ whole m" "left (D @ m) = left m" using whole_append [of D m] l by simp_all
  have al: "length (whole D) mod 16 = 0" by (simp add: length_whole)
  have sc: "slice_chunks 16 (whole (D @ m)) = slice_chunks 16 (whole D) @ slice_chunks 16 (whole m)"
    by (simp add: wh slice_chunks_append [OF al])
  have lo: "length m - 16 * (length m div 16) = length (left m)" by (simp add: left_def)
  have lt: "length (left m) < 16" by (simp add: length_left)
  let ?g = "g\<lparr>gg_msg_len := gg_msg_len g + length m, gg_blocks := gg_blocks g @ slice_chunks 16 (whole m),
      gg_msg_buf := copy_at 0 (left m) (gg_msg_buf g), gg_msg_buf_offset := length (left m)\<rparr>"
  have "whole m = []" if "length m div 16 = 0" using that by (simp add: whole_def)
  then have "GcmGhash_update m g = Ok ?g"
    using assms(2) lt
    by (simp add: GcmGhash_update.simps [of m g] Let_def lo TAG_SIZE_def flip: whole_def)
      (simp add: left_def mult.commute)
  moreover have "ghash_at h pad ad (D @ m) ?g"
    using assms(1) lt by (simp add: ghash_at_def wh(2) sc copy_at_def)
  ultimately show ?thesis by blast
qed

lemma GcmGhash_update_at:
  assumes "ghash_at h pad ad D g"
  shows "\<exists>g'. GcmGhash_update m g = Ok g' \<and> ghash_at h pad ad (D @ m) g'"
proof (cases "gg_msg_buf_offset g = 0")
  case False
  let ?o = "gg_msg_buf_offset g" and ?t = "min (length m) (16 - gg_msg_buf_offset g)"
  let ?buf = "copy_at ?o (take ?t m) (gg_msg_buf g)"
  have g: "length (gg_msg_buf g) = 16" "?o = length (left D)" "take ?o (gg_msg_buf g) = left D" "?o < 16"
      "gg_blocks g = padded_blocks ad @ slice_chunks 16 (whole D)"
    using assms by (simp_all add: ghash_at_def length_left)
  have buf: "take (?o + ?t) ?buf = left D @ take ?t m" "length ?buf = 16"
    using g by (simp_all add: copy_at_def)
  show ?thesis
  proof (cases "?o + length m < 16")
    case True
    then have "whole (D @ m) = whole D" "left (D @ m) = left D @ m"
      using whole_append [of D m] whole_short [of "left D @ m"] g(2) by simp_all
    then show ?thesis
      using assms False True g buf by (auto simp: GcmGhash_update.simps [of m g] ghash_at_def Let_def TAG_SIZE_def)
  next
    case F: False
    then have t: "?o + ?t = 16" "?t \<le> length m" using g(4) by simp_all
    let ?g = "g\<lparr>gg_msg_buf := ?buf, gg_msg_len := gg_msg_len g + ?t, gg_blocks := gg_blocks g @ [?buf],
        gg_msg_buf_offset := 0\<rparr>"
    have b16: "?buf = left D @ take ?t m" using buf t(1) by simp
    have "whole (D @ take ?t m) = whole D @ ?buf" "left (D @ take ?t m) = []"
      using whole_append [of D "take ?t m"] buf(2) aligned_append [of ?buf "[]"] whole_short [of "[]"]
      unfolding b16 by simp_all
    moreover have "slice_chunks 16 (whole D @ ?buf) = slice_chunks 16 (whole D) @ [?buf]"
      using slice_chunks_append [of "whole D" 16 ?buf] slice_chunks_one [of ?buf 16] buf(2)
      by (cases "?buf = []") (simp_all add: length_whole)
    ultimately have at: "ghash_at h pad ad (D @ take ?t m) ?g"
      using assms buf(2) t(2) g(5) by (auto simp: ghash_at_def)
    have "gg_msg_buf_offset ?g = 0" by simp
    then obtain g' where "GcmGhash_update (drop ?t m) ?g = Ok g'" "ghash_at h pad ad ((D @ take ?t m) @ drop ?t m) g'"
      using update_aligned [OF at, of "drop ?t m"] by blast
    moreover have "?t = 16 - ?o" using F by simp
    ultimately show ?thesis using False t by (simp add: GcmGhash_update.simps [of m g] Let_def TAG_SIZE_def)
  qed
qed (use update_aligned assms in blast)

text \<open>The tag of the reference definition (NIST SP 800-38D, algorithm 4).\<close>

definition gcm_tag :: "crypto_prims \<Rightarrow> bytes \<Rightarrow> bytes \<Rightarrow> bytes \<Rightarrow> bytes \<Rightarrow> bytes" where
  "gcm_tag P h pad ad ct =
     map2 (XOR) (ghash_of P h (padded_blocks ad @ padded_blocks ct @
        [be_bytes 8 (8 * length ad) @ be_bytes 8 (8 * length ct)])) pad"

lemma GcmGhash_finalize_at:
  assumes "ghash_at h pad ad D g"
  shows "GcmGhash_finalize P g = gcm_tag P h pad ad D"
proof -
  have "padded_blocks (left D) = []" if "left D = []" using that by (simp add: padded_blocks_def)
  then show ?thesis
    using assms padded_blocks_split [of D]
    by (auto simp: ghash_at_def GcmGhash_finalize_def gcm_tag_def Let_def)
qed

subsection \<open>Streaming equals the one-shot definition\<close>

text \<open>The key stream that masks the message: the first block after the nonce is the tag's mask.\<close>

definition gcm_mask :: "crypto_prims \<Rightarrow> bytes \<Rightarrow> bytes \<Rightarrow> bytes" where
  "gcm_mask P key nonce = map2 (XOR) (replicate 16 0) (stream_at P key (nonce @ replicate 4 0) 16 16)"

definition gcm_crypt :: "crypto_prims \<Rightarrow> bytes \<Rightarrow> bytes \<Rightarrow> bytes \<Rightarrow> bytes" where
  "gcm_crypt P key nonce m = map2 (XOR) m (stream_at P key (nonce @ replicate 4 0) 32 (length m))"

definition gcm_at :: "crypto_prims \<Rightarrow> bytes \<Rightarrow> bytes \<Rightarrow> bytes \<Rightarrow> nat \<Rightarrow> bytes \<Rightarrow> aes256_gcm \<Rightarrow> bool" where
  "gcm_at P key nonce ad n ct e \<longleftrightarrow>
     gcm_ctr e = \<lparr>ctr_key = key, ctr_nonce_block = nonce @ replicate 4 0, ctr_position = 32 + n\<rparr> \<and>
     ghash_at (aes256_block P key (replicate 16 0)) (gcm_mask P key nonce) ad ct (gcm_ghash_state e)"

lemma setup_gcm_at:
  assumes "length key = 32" "length nonce = 12" "32 \<le> ctr32be_limit P"
  shows "\<exists>e. Aes256GcmEncryption_new P key nonce ad = Ok e \<and> Aes256GcmDecryption_new P key nonce ad = Ok e \<and>
    gcm_at P key nonce ad 0 [] e"
  using assms ghash_at_new [of "aes256_block P key (replicate 16 0)" "gcm_mask P key nonce" ad]
  by (simp add: Aes256GcmEncryption_new_def Aes256GcmDecryption_new_def setup_gcm_def Aes256Ctr32_new_def
      process_stream Let_def gcm_at_def TAG_SIZE_def NONCE_SIZE_def gcm_mask_def)

primrec gcm_run ::
    "(bytes \<Rightarrow> aes256_gcm \<Rightarrow> (bytes \<times> aes256_gcm, crypto_error) result) \<Rightarrow> bytes list \<Rightarrow> aes256_gcm \<Rightarrow>
     (bytes list \<times> aes256_gcm, crypto_error) result" where
  "gcm_run f [] e = Ok ([], e)"
| "gcm_run f (p # ps) e =
     bindR (f p e) (\<lambda>(c, e'). bindR (gcm_run f ps e') (\<lambda>(cs, e''). Ok (c # cs, e'')))"

lemma gcm_crypt_append:
  assumes "prims_ok P"
  shows "gcm_crypt P key nonce (D @ b) = gcm_crypt P key nonce D @
    map2 (XOR) b (stream_at P key (nonce @ replicate 4 0) (32 + length D) (length b))"
  using zip_append [of D "stream_at P key (nonce @ replicate 4 0) 32 (length D)" b]
  by (simp add: gcm_crypt_def stream_at_append [OF assms] length_stream_at [OF assms])

lemma encrypt_at:
  assumes "prims_ok P" "gcm_at P key nonce ad (length D) (gcm_crypt P key nonce D) e"
    "32 + length (D @ b) \<le> ctr32be_limit P"
  shows "\<exists>c e'. Aes256GcmEncryption_encrypt P b e = Ok (c, e') \<and> length c = length b \<and>
    gcm_crypt P key nonce D @ c = gcm_crypt P key nonce (D @ b) \<and>
    gcm_at P key nonce ad (length (D @ b)) (gcm_crypt P key nonce (D @ b)) e'"
proof -
  let ?n = "nonce @ replicate 4 0" and ?c = "map2 (XOR) b (stream_at P key (nonce @ replicate 4 0) (32 + length D) (length b))"
  have c: "gcm_crypt P key nonce (D @ b) = gcm_crypt P key nonce D @ ?c"
    by (rule gcm_crypt_append [OF assms(1)])
  have pr: "Aes256Ctr32_process P b (gcm_ctr e) = Ok (?c,
      \<lparr>ctr_key = key, ctr_nonce_block = ?n, ctr_position = 32 + length (D @ b)\<rparr>)"
    using assms(2,3) by (simp add: gcm_at_def process_stream)
  obtain g' where g': "GcmGhash_update ?c (gcm_ghash_state e) = Ok g'"
      "ghash_at (aes256_block P key (replicate 16 0)) (gcm_mask P key nonce) ad (gcm_crypt P key nonce D @ ?c) g'"
    using assms(2) GcmGhash_update_at unfolding gcm_at_def by blast
  show ?thesis
    using pr g' by (simp add: Aes256GcmEncryption_encrypt_def c gcm_at_def length_stream_at [OF assms(1)])
qed

lemma decrypt_at:
  assumes "prims_ok P" "gcm_at P key nonce ad (length D) (gcm_crypt P key nonce D) e"
    "32 + length (D @ b) \<le> ctr32be_limit P" "gcm_crypt P key nonce D @ c = gcm_crypt P key nonce (D @ b)"
  shows "\<exists>e'. Aes256GcmDecryption_decrypt P c e = Ok (b, e') \<and>
    gcm_at P key nonce ad (length (D @ b)) (gcm_crypt P key nonce (D @ b)) e'"
proof -
  let ?n = "nonce @ replicate 4 0" and ?ks = "stream_at P key (nonce @ replicate 4 0) (32 + length D) (length b)"
  have "gcm_crypt P key nonce (D @ b) = gcm_crypt P key nonce D @ map2 (XOR) b ?ks"
    by (rule gcm_crypt_append [OF assms(1)])
  then have c: "c = map2 (XOR) b ?ks" using assms(4) by simp
  then have lc: "length c = length b" by (simp add: length_stream_at [OF assms(1)])
  have "map2 (XOR) c ?ks = b" unfolding c by (rule xor_twice) (simp add: length_stream_at [OF assms(1)])
  then have pr: "Aes256Ctr32_process P c (gcm_ctr e) = Ok (b,
      \<lparr>ctr_key = key, ctr_nonce_block = ?n, ctr_position = 32 + length (D @ b)\<rparr>)"
    using assms(2,3) lc by (simp add: gcm_at_def process_stream)
  obtain g' where g': "GcmGhash_update c (gcm_ghash_state e) = Ok g'"
      "ghash_at (aes256_block P key (replicate 16 0)) (gcm_mask P key nonce) ad (gcm_crypt P key nonce D @ c) g'"
    using assms(2) GcmGhash_update_at unfolding gcm_at_def by blast
  show ?thesis using pr g' assms(4) by (simp add: Aes256GcmDecryption_decrypt_def gcm_at_def)
qed

lemma gcm_run_at:
  assumes "prims_ok P" "gcm_at P key nonce ad (length D) (gcm_crypt P key nonce D) e"
    "gcm_at P key nonce ad (length D) (gcm_crypt P key nonce D) d"
    "32 + length (D @ concat ps) \<le> ctr32be_limit P"
  shows "\<exists>cs e' d'. gcm_run (Aes256GcmEncryption_encrypt P) ps e = Ok (cs, e') \<and>
    gcm_run (Aes256GcmDecryption_decrypt P) cs d = Ok (ps, d') \<and>
    gcm_crypt P key nonce D @ concat cs = gcm_crypt P key nonce (D @ concat ps) \<and>
    gcm_at P key nonce ad (length (D @ concat ps)) (gcm_crypt P key nonce (D @ concat ps)) e' \<and>
    gcm_at P key nonce ad (length (D @ concat ps)) (gcm_crypt P key nonce (D @ concat ps)) d'"
  using assms(2-4)
proof (induction ps arbitrary: D e d)
  case (Cons p ps)
  have room: "32 + length (D @ p) \<le> ctr32be_limit P" using Cons.prems(3) by simp
  obtain c e1 where c: "Aes256GcmEncryption_encrypt P p e = Ok (c, e1)"
      "gcm_crypt P key nonce D @ c = gcm_crypt P key nonce (D @ p)"
      "gcm_at P key nonce ad (length (D @ p)) (gcm_crypt P key nonce (D @ p)) e1"
    using encrypt_at [OF assms(1) Cons.prems(1) room] by blast
  obtain d1 where d: "Aes256GcmDecryption_decrypt P c d = Ok (p, d1)"
      "gcm_at P key nonce ad (length (D @ p)) (gcm_crypt P key nonce (D @ p)) d1"
    using decrypt_at [OF assms(1) Cons.prems(2) room c(2)] by blast
  obtain cs e' d' where IH: "gcm_run (Aes256GcmEncryption_encrypt P) ps e1 = Ok (cs, e')"
    "gcm_run (Aes256GcmDecryption_decrypt P) cs d1 = Ok (ps, d')"
    "gcm_crypt P key nonce (D @ p) @ concat cs = gcm_crypt P key nonce ((D @ p) @ concat ps)"
    "gcm_at P key nonce ad (length ((D @ p) @ concat ps)) (gcm_crypt P key nonce ((D @ p) @ concat ps)) e'"
    "gcm_at P key nonce ad (length ((D @ p) @ concat ps)) (gcm_crypt P key nonce ((D @ p) @ concat ps)) d'"
    using Cons.IH [OF c(3) d(2)] Cons.prems(3) by auto
  have "gcm_crypt P key nonce D @ c @ concat cs = gcm_crypt P key nonce (D @ p @ concat ps)"
    using IH(3) c(2) by (metis append_assoc)
  then show ?case using c(1) d(1) IH by (intro exI [of _ "c # cs"] exI [of _ e'] exI [of _ d']) simp
qed (auto)

text \<open>
  A message encrypted in pieces is the one-shot ciphertext, its tag the reference tag, and the
  decryption object returns the plaintext and accepts exactly this tag.
\<close>

lemma gcm_streaming:
  assumes "prims_ok P" "length key = 32" "length nonce = 12" "32 + length (concat ps) \<le> ctr32be_limit P"
  shows "\<exists>e d cs e' d'. Aes256GcmEncryption_new P key nonce ad = Ok e \<and>
    Aes256GcmDecryption_new P key nonce ad = Ok d \<and>
    gcm_run (Aes256GcmEncryption_encrypt P) ps e = Ok (cs, e') \<and>
    concat cs = gcm_crypt P key nonce (concat ps) \<and>
    compute_tag P e' = gcm_tag P (aes256_block P key (replicate 16 0)) (gcm_mask P key nonce) ad (concat cs) \<and>
    gcm_run (Aes256GcmDecryption_decrypt P) cs d = Ok (ps, d') \<and>
    (\<forall>tag. verify_tag P tag d' = (if tag = compute_tag P e' then Ok () else Err InvalidTag))"
proof -
  obtain e where e: "Aes256GcmEncryption_new P key nonce ad = Ok e" "Aes256GcmDecryption_new P key nonce ad = Ok e"
      "gcm_at P key nonce ad 0 [] e"
    using setup_gcm_at [OF assms(2,3), of P ad] assms(4) by auto
  have nil: "gcm_crypt P key nonce [] = []" by (simp add: gcm_crypt_def)
  obtain cs e' d' where r: "gcm_run (Aes256GcmEncryption_encrypt P) ps e = Ok (cs, e')"
      "gcm_run (Aes256GcmDecryption_decrypt P) cs e = Ok (ps, d')" "concat cs = gcm_crypt P key nonce (concat ps)"
      "gcm_at P key nonce ad (length (concat ps)) (concat cs) e'" "gcm_at P key nonce ad (length (concat ps)) (concat cs) d'"
    using gcm_run_at [OF assms(1), of key nonce ad "[]" e e ps] e(3) assms(4) nil by auto
  let ?tag = "gcm_tag P (aes256_block P key (replicate 16 0)) (gcm_mask P key nonce) ad (concat cs)"
  have fin: "GcmGhash_finalize P (gcm_ghash_state e') = ?tag" "GcmGhash_finalize P (gcm_ghash_state d') = ?tag"
    using r(4,5) GcmGhash_finalize_at by (auto simp: gcm_at_def)
  have "length ?tag = 16"
    using assms(1) length_stream_at [OF assms(1)] by (simp add: gcm_tag_def gcm_mask_def prims_ok_def)
  then have "verify_tag P tag d' = (if tag = compute_tag P e' then Ok () else Err InvalidTag)" for tag
    by (auto simp: verify_tag_def compute_tag_def fin TAG_SIZE_def)
  then show ?thesis using e(1,2) r(1-3) fin(1) by (auto simp: compute_tag_def)
qed

end
