(* ===== verification/Hash_Objects.thy ===== *)
theory Hash_Objects
  imports Aes_Gcm
begin

text \<open>
  \<open>rust/crypto/src/hash.rs\<close>: the MAC and hash objects selected by an algorithm name. An object of
  the RustCrypto crates is its key and the bytes it has absorbed since it was created or reset; the
  digests are parameters.
\<close>

record hash_prims =
  hp_hmac_sha256 :: "bytes \<Rightarrow> bytes \<Rightarrow> bytes"
  hp_hmac_sha1 :: "bytes \<Rightarrow> bytes \<Rightarrow> bytes"
  hp_sha1 :: "bytes \<Rightarrow> bytes"
  hp_sha256 :: "bytes \<Rightarrow> bytes"
  hp_sha512 :: "bytes \<Rightarrow> bytes"

datatype cryptographic_mac = HmacSha256 bytes bytes | HmacSha1 bytes bytes

definition CryptographicMac_new :: "string \<Rightarrow> bytes \<Rightarrow> (cryptographic_mac, crypto_error) result" where
  "CryptographicMac_new algo key =
     (if algo = ''HMACSha1'' \<or> algo = ''HmacSha1'' then Ok (HmacSha1 key [])
      else if algo = ''HMACSha256'' \<or> algo = ''HmacSha256'' then Ok (HmacSha256 key [])
      else Err (UnknownAlgorithm ''MAC'' algo))"

primrec CryptographicMac_update :: "bytes \<Rightarrow> cryptographic_mac \<Rightarrow> cryptographic_mac" where
  "CryptographicMac_update input (HmacSha1 key data) = HmacSha1 key (data @ input)"
| "CryptographicMac_update input (HmacSha256 key data) = HmacSha256 key (data @ input)"

primrec CryptographicMac_finalize :: "hash_prims \<Rightarrow> cryptographic_mac \<Rightarrow> bytes \<times> cryptographic_mac" where
  "CryptographicMac_finalize H (HmacSha1 key data) = (hp_hmac_sha1 H key data, HmacSha1 key [])"
| "CryptographicMac_finalize H (HmacSha256 key data) = (hp_hmac_sha256 H key data, HmacSha256 key [])"

datatype cryptographic_hash = HashSha1 bytes | HashSha256 bytes | HashSha512 bytes

definition CryptographicHash_new :: "string \<Rightarrow> (cryptographic_hash, crypto_error) result" where
  "CryptographicHash_new algo =
     (if algo = ''SHA-1'' \<or> algo = ''SHA1'' \<or> algo = ''Sha1'' then Ok (HashSha1 [])
      else if algo = ''SHA-256'' \<or> algo = ''SHA256'' \<or> algo = ''Sha256'' then Ok (HashSha256 [])
      else if algo = ''SHA-512'' \<or> algo = ''SHA512'' \<or> algo = ''Sha512'' then Ok (HashSha512 [])
      else Err (UnknownAlgorithm ''digest'' algo))"

primrec CryptographicHash_update :: "bytes \<Rightarrow> cryptographic_hash \<Rightarrow> cryptographic_hash" where
  "CryptographicHash_update input (HashSha1 data) = HashSha1 (data @ input)"
| "CryptographicHash_update input (HashSha256 data) = HashSha256 (data @ input)"
| "CryptographicHash_update input (HashSha512 data) = HashSha512 (data @ input)"

primrec CryptographicHash_finalize :: "hash_prims \<Rightarrow> cryptographic_hash \<Rightarrow> bytes \<times> cryptographic_hash" where
  "CryptographicHash_finalize H (HashSha1 data) = (hp_sha1 H data, HashSha1 [])"
| "CryptographicHash_finalize H (HashSha256 data) = (hp_sha256 H data, HashSha256 [])"
| "CryptographicHash_finalize H (HashSha512 data) = (hp_sha512 H data, HashSha512 [])"

text \<open>A MAC object can be used again after it was finalized: it computes the MAC of the new input.\<close>

lemma mac_fold: "fold CryptographicMac_update ps (HmacSha256 key D) = HmacSha256 key (D @ concat ps)"
  "fold CryptographicMac_update ps (HmacSha1 key D) = HmacSha1 key (D @ concat ps)"
  by (induction ps arbitrary: D) simp_all

lemma hash_fold: "fold CryptographicHash_update ps (HashSha1 D) = HashSha1 (D @ concat ps)"
  "fold CryptographicHash_update ps (HashSha256 D) = HashSha256 (D @ concat ps)"
  "fold CryptographicHash_update ps (HashSha512 D) = HashSha512 (D @ concat ps)"
  by (induction ps arbitrary: D) simp_all

lemma mac_reusable:
  assumes "CryptographicMac_new algo key = Ok m"
  shows "CryptographicMac_finalize H (fold CryptographicMac_update ps m) =
      (fst (CryptographicMac_finalize H (CryptographicMac_update (concat ps) m)), m)"
proof -
  have "m = HmacSha1 key [] \<or> m = HmacSha256 key []"
    using assms unfolding CryptographicMac_new_def by (simp only: result.inject result.distinct split: if_splits) blast+
  then show ?thesis by (elim disjE) (simp_all add: mac_fold)
qed

lemma hash_reusable:
  assumes "CryptographicHash_new algo = Ok m"
  shows "CryptographicHash_finalize H (fold CryptographicHash_update ps m) =
      (fst (CryptographicHash_finalize H (CryptographicHash_update (concat ps) m)), m)"
proof -
  have "m = HashSha1 [] \<or> m = HashSha256 [] \<or> m = HashSha512 []"
    using assms unfolding CryptographicHash_new_def by (simp only: result.inject result.distinct split: if_splits) blast+
  then show ?thesis by (elim disjE) (simp_all add: hash_fold)
qed

end
