(* ===== verification/Hpke.thy ===== *)
theory Hpke
  imports Curve Aes_Gcm
begin

text \<open>
  \<open>rust/crypto/src/hpke.rs\<close> and \<open>hpke/provider.rs\<close>: sealed boxes in a stripped-down HPKE. The crate
  \<open>hpke-rs\<close> calls back into the provider that the repository implements, so that its two entry points are
  parameters which take the provider as an argument; the locale \<open>hpke_crypto\<close> is what it may expect of one.
  HKDF and the ChaCha generator are parameters too.
\<close>

subsection \<open>The provider\<close>

text \<open>The algorithms of the crate; those the repository never selects are one constructor with the code point.\<close>

datatype kdf_algorithm = HkdfSha256 | OtherKdf nat
datatype kem_algorithm = DhKem25519 | OtherKem nat
datatype aead_algorithm = Aes256Gcm | OtherAead nat
datatype hpke_mode = HpkeBase | OtherMode nat

datatype provider_error =
    UnknownKdfAlgorithm
  | UnknownKemAlgorithm
  | UnknownAeadAlgorithm
  | KemInvalidPublicKey
  | KemInvalidSecretKey
  | AeadInvalidNonce
  | AeadInvalidCiphertext
  | AeadOpenError
  | CryptoLibraryError string

record hpke_prims =
  hkdf_extract :: "bytes \<Rightarrow> bytes \<Rightarrow> bytes"
  hkdf_from_prk :: "bytes \<Rightarrow> (bytes, string) result"
  hkdf_expand :: "bytes \<Rightarrow> bytes \<Rightarrow> nat \<Rightarrow> (bytes, string) result"

definition supports_kdf :: "kdf_algorithm \<Rightarrow> (unit, provider_error) result" where
  "supports_kdf alg = (case alg of HkdfSha256 \<Rightarrow> Ok () | _ \<Rightarrow> Err UnknownKdfAlgorithm)"

definition supports_kem :: "kem_algorithm \<Rightarrow> (unit, provider_error) result" where
  "supports_kem alg = (case alg of DhKem25519 \<Rightarrow> Ok () | _ \<Rightarrow> Err UnknownKemAlgorithm)"

definition supports_aead :: "aead_algorithm \<Rightarrow> (unit, provider_error) result" where
  "supports_aead alg = (case alg of Aes256Gcm \<Rightarrow> Ok () | _ \<Rightarrow> Err UnknownAeadAlgorithm)"

definition kdf_extract :: "hpke_prims \<Rightarrow> kdf_algorithm \<Rightarrow> bytes \<Rightarrow> bytes \<Rightarrow> (bytes, provider_error) result" where
  "kdf_extract H alg salt ikm =
     (case alg of HkdfSha256 \<Rightarrow> Ok (hkdf_extract H salt ikm) | _ \<Rightarrow> Err UnknownKdfAlgorithm)"

definition kdf_expand :: "hpke_prims \<Rightarrow> kdf_algorithm \<Rightarrow> bytes \<Rightarrow> bytes \<Rightarrow> nat \<Rightarrow> (bytes, provider_error) result" where
  "kdf_expand H alg prk info output_size =
     (case alg of
        HkdfSha256 \<Rightarrow>
          bindR (map_err CryptoLibraryError (hkdf_from_prk H prk)) (\<lambda>hkdf.
          map_err CryptoLibraryError (hkdf_expand H hkdf info output_size))
      | _ \<Rightarrow> Err UnknownKdfAlgorithm)"

definition hpke_dh :: "'r env \<Rightarrow> kem_algorithm \<Rightarrow> bytes \<Rightarrow> bytes \<Rightarrow> (bytes, provider_error) result" where
  "hpke_dh E alg pk sk =
     (case alg of
        DhKem25519 \<Rightarrow>
          bindR (map_err (\<lambda>_. KemInvalidPublicKey) (from_djb_public_key_bytes pk)) (\<lambda>pk.
          bindR (map_err (\<lambda>_. KemInvalidSecretKey) (PrivateKey_deserialize E sk)) (\<lambda>sk.
          Ok (calculate_agreement E sk pk)))
      | _ \<Rightarrow> Err UnknownKemAlgorithm)"

definition secret_to_public :: "'r env \<Rightarrow> kem_algorithm \<Rightarrow> bytes \<Rightarrow> (bytes, provider_error) result" where
  "secret_to_public E alg sk =
     (case alg of
        DhKem25519 \<Rightarrow>
          bindR (map_err (\<lambda>_. KemInvalidSecretKey) (PrivateKey_deserialize E sk)) (\<lambda>sk.
          Ok (public_key_bytes (PrivateKey_public_key E sk)))
      | _ \<Rightarrow> Err UnknownKemAlgorithm)"

text \<open>
  The object's methods return no \<open>Result\<close> in the sources; they can only panic, on a message longer than the
  key stream.
\<close>

definition aead_seal ::
    "crypto_prims \<Rightarrow> aead_algorithm \<Rightarrow> bytes \<Rightarrow> bytes \<Rightarrow> bytes \<Rightarrow> bytes \<Rightarrow> (bytes, provider_error) result" where
  "aead_seal P alg key nonce aad msg =
     (case alg of
        Aes256Gcm \<Rightarrow>
          bindR (map_err (\<lambda>_. AeadInvalidNonce) (Aes256GcmEncryption_new P key nonce aad)) (\<lambda>enc.
          bindR (expect_ok (Aes256GcmEncryption_encrypt P msg enc)) (\<lambda>(output, enc').
          Ok (output @ compute_tag P enc')))
      | _ \<Rightarrow> Err UnknownAeadAlgorithm)"

definition aead_open ::
    "crypto_prims \<Rightarrow> aead_algorithm \<Rightarrow> bytes \<Rightarrow> bytes \<Rightarrow> bytes \<Rightarrow> bytes \<Rightarrow> (bytes, provider_error) result" where
  "aead_open P alg key nonce aad msg =
     (case alg of
        Aes256Gcm \<Rightarrow>
          bindR (map_err (\<lambda>_. AeadInvalidNonce) (Aes256GcmDecryption_new P key nonce aad)) (\<lambda>dec.
          if length msg < TAG_SIZE then Err AeadInvalidCiphertext
          else
            let tag = drop (length msg - TAG_SIZE) msg in
            bindR (expect_ok (Aes256GcmDecryption_decrypt P (take (length msg - TAG_SIZE) msg) dec)) (\<lambda>(output, dec').
            bindR (map_err (\<lambda>_. AeadOpenError) (verify_tag P tag dec')) (\<lambda>_.
            Ok output)))
      | _ \<Rightarrow> Err UnknownAeadAlgorithm)"

text \<open>The operations of other kinds of KEMs and of authenticated modes are \<open>unimplemented!()\<close>.\<close>

definition kem_key_gen :: "kem_algorithm \<Rightarrow> (bytes \<times> bytes, provider_error) result" where
  "kem_key_gen alg = Panic"

definition kem_key_gen_derand :: "kem_algorithm \<Rightarrow> bytes \<Rightarrow> (bytes \<times> bytes, provider_error) result" where
  "kem_key_gen_derand alg seed = Panic"

definition kem_encaps :: "kem_algorithm \<Rightarrow> bytes \<Rightarrow> (bytes \<times> bytes, provider_error) result" where
  "kem_encaps alg pk_r = Panic"

definition kem_decaps :: "kem_algorithm \<Rightarrow> bytes \<Rightarrow> bytes \<Rightarrow> (bytes, provider_error) result" where
  "kem_decaps alg ct sk_r = Panic"

definition dh_validate_sk :: "kem_algorithm \<Rightarrow> bytes \<Rightarrow> (bytes, provider_error) result" where
  "dh_validate_sk alg sk = Panic"

text \<open>The generator is replaced by one from a seed of exactly 32 bytes.\<close>

definition Rng_seed :: "(bytes \<Rightarrow> 'g) \<Rightarrow> bytes \<Rightarrow> 'g" where
  "Rng_seed from_seed seed =
     from_seed (if length seed \<ge> 32 then take 32 seed else seed @ replicate (32 - length seed) 0)"

subsection \<open>The sealed box\<close>

record hpke_provider =
  pv_kdf_extract :: "kdf_algorithm \<Rightarrow> bytes \<Rightarrow> bytes \<Rightarrow> (bytes, provider_error) result"
  pv_kdf_expand :: "kdf_algorithm \<Rightarrow> bytes \<Rightarrow> bytes \<Rightarrow> nat \<Rightarrow> (bytes, provider_error) result"
  pv_dh :: "kem_algorithm \<Rightarrow> bytes \<Rightarrow> bytes \<Rightarrow> (bytes, provider_error) result"
  pv_secret_to_public :: "kem_algorithm \<Rightarrow> bytes \<Rightarrow> (bytes, provider_error) result"
  pv_aead_seal :: "aead_algorithm \<Rightarrow> bytes \<Rightarrow> bytes \<Rightarrow> bytes \<Rightarrow> bytes \<Rightarrow> (bytes, provider_error) result"
  pv_aead_open :: "aead_algorithm \<Rightarrow> bytes \<Rightarrow> bytes \<Rightarrow> bytes \<Rightarrow> bytes \<Rightarrow> (bytes, provider_error) result"

definition CryptoProvider :: "'r env \<Rightarrow> hpke_prims \<Rightarrow> crypto_prims \<Rightarrow> hpke_provider" where
  "CryptoProvider E H P = \<lparr>pv_kdf_extract = kdf_extract H, pv_kdf_expand = kdf_expand H, pv_dh = hpke_dh E,
     pv_secret_to_public = secret_to_public E, pv_aead_seal = aead_seal P, pv_aead_open = aead_open P\<rparr>"

record hpke_config =
  hc_mode :: hpke_mode
  hc_kem :: kem_algorithm
  hc_kdf :: kdf_algorithm
  hc_aead :: aead_algorithm

datatype hpke_error = HpkeInvalidInput | HpkeUnknownMode | HpkeOtherError string

text \<open>
  \<open>Hpke::seal\<close> and \<open>Hpke::open\<close>. Sealing draws entropy from the operating system, an argument here; the
  order of the other arguments is that of the crate.
\<close>

record hpke_rs =
  hpke_seal :: "hpke_provider \<Rightarrow> hpke_config \<Rightarrow> bytes \<Rightarrow> bytes \<Rightarrow> bytes \<Rightarrow> bytes \<Rightarrow> bytes \<Rightarrow> (bytes \<times> bytes, hpke_error) result"
  hpke_open :: "hpke_provider \<Rightarrow> hpke_config \<Rightarrow> bytes \<Rightarrow> bytes \<Rightarrow> bytes \<Rightarrow> bytes \<Rightarrow> bytes \<Rightarrow> (bytes, hpke_error) result"
  shared_secret_len :: "kem_algorithm \<Rightarrow> nat"

datatype hpke_ciphertext_type = Base_X25519_HkdfSha256_Aes256Gcm

definition ciphertext_type_value :: "hpke_ciphertext_type \<Rightarrow> u8" where
  "ciphertext_type_value t = (case t of Base_X25519_HkdfSha256_Aes256Gcm \<Rightarrow> 1)"

definition ciphertext_type_try_from :: "u8 \<Rightarrow> hpke_ciphertext_type option" where
  "ciphertext_type_try_from b = (if b = 1 then Some Base_X25519_HkdfSha256_Aes256Gcm else None)"

definition hpke_set_up :: "hpke_ciphertext_type \<Rightarrow> hpke_config" where
  "hpke_set_up t = (case t of Base_X25519_HkdfSha256_Aes256Gcm \<Rightarrow>
     \<lparr>hc_mode = HpkeBase, hc_kem = DhKem25519, hc_kdf = HkdfSha256, hc_aead = Aes256Gcm\<rparr>)"

definition SimpleHpkeSender_seal ::
    "hpke_rs \<Rightarrow> hpke_provider \<Rightarrow> bytes \<Rightarrow> public_key \<Rightarrow> bytes \<Rightarrow> bytes \<Rightarrow> bytes \<Rightarrow> (bytes, hpke_error) result" where
  "SimpleHpkeSender_seal K V entropy key info aad plaintext =
     (let ciphertext_type = (case PublicKey_key_type key of Djb \<Rightarrow> Base_X25519_HkdfSha256_Aes256Gcm) in
      bindR (hpke_seal K V (hpke_set_up ciphertext_type) entropy (public_key_bytes key) info aad plaintext)
        (\<lambda>(encapsulated_secret, ciphertext).
      Ok (ciphertext_type_value ciphertext_type # encapsulated_secret @ ciphertext)))"

definition SimpleHpkeReceiver_open ::
    "hpke_rs \<Rightarrow> hpke_provider \<Rightarrow> private_key \<Rightarrow> bytes \<Rightarrow> bytes \<Rightarrow> bytes \<Rightarrow> (bytes, hpke_error) result" where
  "SimpleHpkeReceiver_open K V key info aad ciphertext =
     (case ciphertext of
        [] \<Rightarrow> Err HpkeInvalidInput
      | b # rest \<Rightarrow>
          bindR (ok_or HpkeUnknownMode (ciphertext_type_try_from b)) (\<lambda>ciphertext_type.
          let n = shared_secret_len K (hc_kem (hpke_set_up ciphertext_type)) in
          if length rest < n then Err HpkeInvalidInput
          else hpke_open K V (hpke_set_up ciphertext_type) (take n rest) (PrivateKey_serialize key) info aad (drop n rest)))"

subsection \<open>What the crate may expect of a provider\<close>

text \<open>\<open>usable\<close> says when the provider promises the laws, on messages up to a limit.\<close>

locale hpke_crypto =
  fixes V :: hpke_provider and limit :: nat and usable :: bool
  assumes public_key: "usable \<Longrightarrow> length a = 32 \<Longrightarrow> \<exists>p. pv_secret_to_public V DhKem25519 a = Ok p \<and> length p = 32"
    and dh_agrees: "usable \<Longrightarrow> length a = 32 \<Longrightarrow> length b = 32 \<Longrightarrow> pv_secret_to_public V DhKem25519 a = Ok pa \<Longrightarrow>
      pv_secret_to_public V DhKem25519 b = Ok pb \<Longrightarrow>
      \<exists>s. pv_dh V DhKem25519 pb a = Ok s \<and> pv_dh V DhKem25519 pa b = Ok s"
    and kdf: "usable \<Longrightarrow> n \<le> 255 * 32 \<Longrightarrow> \<exists>prk okm. pv_kdf_extract V HkdfSha256 salt ikm = Ok prk \<and>
      pv_kdf_expand V HkdfSha256 prk info n = Ok okm \<and> length okm = n"
    and aead_inverse: "usable \<Longrightarrow> length k = 32 \<Longrightarrow> length nonce = 12 \<Longrightarrow> length m \<le> limit \<Longrightarrow>
      \<exists>c. pv_aead_seal V Aes256Gcm k nonce aad m = Ok c \<and> pv_aead_open V Aes256Gcm k nonce aad c = Ok m"
begin

text \<open>A fresh key pair and a recipient share a secret.\<close>

lemma encapsulation:
  assumes "usable" "length a = 32" "length b = 32"
  obtains pa pb s where "pv_secret_to_public V DhKem25519 a = Ok pa" "pv_secret_to_public V DhKem25519 b = Ok pb"
    "length pa = 32" "pv_dh V DhKem25519 pb a = Ok s" "pv_dh V DhKem25519 pa b = Ok s"
  using public_key [OF assms(1,2)] public_key [OF assms(1,3)] dh_agrees [OF assms] by blast

end

text \<open>
  The law of the crate, after RFC 9180: over a provider that keeps the contract, a box sealed to a public key
  opens with its secret key.
\<close>

definition hpke_rs_ok :: "hpke_rs \<Rightarrow> bool" where
  "hpke_rs_ok K \<longleftrightarrow> shared_secret_len K DhKem25519 = 32 \<and>
     (\<forall>V limit ent pk sk info aad m.
        hpke_crypto V limit True \<longrightarrow> length sk = 32 \<longrightarrow> pv_secret_to_public V DhKem25519 sk = Ok pk \<longrightarrow> length m \<le> limit \<longrightarrow>
        (\<exists>enc ct. hpke_seal K V (hpke_set_up Base_X25519_HkdfSha256_Aes256Gcm) ent pk info aad m = Ok (enc, ct) \<and>
           length enc = 32 \<and>
           hpke_open K V (hpke_set_up Base_X25519_HkdfSha256_Aes256Gcm) enc sk info aad ct = Ok m))"

definition hkdf_ok :: "hpke_prims \<Rightarrow> bool" where
  "hkdf_ok H \<longleftrightarrow> (\<forall>salt ikm info n. n \<le> 255 * 32 \<longrightarrow>
     (\<exists>h okm. hkdf_from_prk H (hkdf_extract H salt ikm) = Ok h \<and> hkdf_expand H h info n = Ok okm \<and> length okm = n))"

subsection \<open>The provider of the repository keeps the contract\<close>

lemma aead_round_trip:
  assumes "prims_ok P" "length key = 32" "length nonce = 12" "32 + length m \<le> ctr32be_limit P"
  shows "\<exists>c tag. aead_seal P Aes256Gcm key nonce aad m = Ok (c @ tag) \<and> length c = length m \<and> length tag = 16 \<and>
    (\<forall>t. length t = 16 \<longrightarrow> aead_open P Aes256Gcm key nonce aad (c @ t) = (if t = tag then Ok m else Err AeadOpenError))"
proof -
  obtain e d cs e' d' where gcm: "Aes256GcmEncryption_new P key nonce aad = Ok e" "Aes256GcmDecryption_new P key nonce aad = Ok d"
      "gcm_run (Aes256GcmEncryption_encrypt P) [m] e = Ok (cs, e')" "concat cs = gcm_crypt P key nonce (concat [m])"
      "gcm_run (Aes256GcmDecryption_decrypt P) cs d = Ok ([m], d')"
      "\<forall>tag. verify_tag P tag d' = (if tag = compute_tag P e' then Ok () else Err InvalidTag)"
    using gcm_streaming [OF assms(1-3), of "[m]" aad] assms(4) by auto
  obtain c where c: "cs = [c]" "Aes256GcmEncryption_encrypt P m e = Ok (c, e')" using gcm(3) by (auto simp: result_simps)
  have dec: "Aes256GcmDecryption_decrypt P c d = Ok (m, d')" using gcm(5) c(1) by (auto simp: result_simps)
  have tag: "length (compute_tag P e') = 16"
    using gcm(6) [rule_format, of "compute_tag P e'"] by (auto simp: verify_tag_def TAG_SIZE_def split: if_splits)
  have "length c = length m"
    using gcm(4) c(1) length_stream_at [OF assms(1)] by (simp add: gcm_crypt_def)
  then show ?thesis
    using gcm(1,2,6) c(2) dec tag
    by (intro exI [of _ c] exI [of _ "compute_tag P e'"]) (simp add: aead_seal_def aead_open_def TAG_SIZE_def)
qed

lemma provider_dh:
  assumes "dh_ok E" "curve_lengths E" "length a = 32" "length b = 32"
  shows "\<exists>p. secret_to_public E DhKem25519 a = Ok p \<and> length p = 32"
    and "secret_to_public E DhKem25519 a = Ok pa \<Longrightarrow> secret_to_public E DhKem25519 b = Ok pb \<Longrightarrow>
      \<exists>s. hpke_dh E DhKem25519 pb a = Ok s \<and> hpke_dh E DhKem25519 pa b = Ok s"
  using assms calculate_agreement_commute [OF assms(1), of "DjbPrivateKey (clamp_integer E a)" "DjbPrivateKey (clamp_integer E b)"]
  by (auto simp: secret_to_public_def hpke_dh_def PrivateKey_deserialize_def from_djb_public_key_bytes_def
      PrivateKey_public_key_def curve_lengths_def)

lemma provider_kdf:
  assumes "hkdf_ok H" "n \<le> 255 * 32"
  shows "\<exists>prk okm. kdf_extract H HkdfSha256 salt ikm = Ok prk \<and> kdf_expand H HkdfSha256 prk info n = Ok okm \<and> length okm = n"
proof -
  obtain h okm where "hkdf_from_prk H (hkdf_extract H salt ikm) = Ok h" "hkdf_expand H h info n = Ok okm" "length okm = n"
    using assms unfolding hkdf_ok_def by meson
  then show ?thesis by (simp add: kdf_extract_def kdf_expand_def)
qed

definition provider_laws :: "'r env \<Rightarrow> hpke_prims \<Rightarrow> crypto_prims \<Rightarrow> nat \<Rightarrow> bool" where
  "provider_laws E H P limit \<longleftrightarrow> dh_ok E \<and> curve_lengths E \<and> hkdf_ok H \<and> prims_ok P \<and> 32 + limit \<le> ctr32be_limit P"

interpretation crypto_provider: hpke_crypto "CryptoProvider E H P" limit "provider_laws E H P limit"
proof (unfold_locales, unfold CryptoProvider_def hpke_provider.simps provider_laws_def)
  fix k nonce m aad :: bytes
  assume "dh_ok E \<and> curve_lengths E \<and> hkdf_ok H \<and> prims_ok P \<and> 32 + limit \<le> ctr32be_limit P"
    "length k = 32" "length nonce = 12" "length m \<le> limit"
  then show "\<exists>c. aead_seal P Aes256Gcm k nonce aad m = Ok c \<and> aead_open P Aes256Gcm k nonce aad c = Ok m"
    using aead_round_trip [of P k nonce m aad] by auto
qed (use provider_dh provider_kdf in blast)+

lemma CryptoProvider_ok: "provider_laws E H P limit \<Longrightarrow> hpke_crypto (CryptoProvider E H P) limit True"
  using crypto_provider.hpke_crypto_axioms [where E = E and H = H and P = P and limit = limit] by simp

subsection \<open>Sealed boxes open\<close>

lemma sealed_box_opens:
  assumes laws: "provider_laws E H P (length m)" "hpke_rs_ok K" and k: "private_key_ok k"
  shows "\<exists>box. SimpleHpkeSender_seal K (CryptoProvider E H P) ent (PrivateKey_public_key E k) info aad m = Ok box \<and>
    SimpleHpkeReceiver_open K (CryptoProvider E H P) k info aad box = Ok m \<and> length box \<ge> 33 \<and> box ! 0 = 1"
proof -
  let ?V = "CryptoProvider E H P" and ?pk = "public_key_bytes (PrivateKey_public_key E k)"
  have sk: "length (PrivateKey_serialize k) = 32" using k by (simp add: private_key_ok_def PrivateKey_serialize_def)
  have "pv_secret_to_public ?V DhKem25519 (PrivateKey_serialize k) = Ok ?pk"
    using sk laws(1)
    by (simp add: CryptoProvider_def provider_laws_def secret_to_public_def PrivateKey_deserialize_def PrivateKey_public_key_def
        PrivateKey_serialize_def dh_ok_def)
  then obtain enc ct where "hpke_seal K ?V (hpke_set_up Base_X25519_HkdfSha256_Aes256Gcm) ent ?pk info aad m = Ok (enc, ct)"
      "length enc = 32" "hpke_open K ?V (hpke_set_up Base_X25519_HkdfSha256_Aes256Gcm) enc (PrivateKey_serialize k) info aad ct = Ok m"
    using laws(2) sk CryptoProvider_ok [OF laws(1)] unfolding hpke_rs_ok_def by blast
  moreover have "shared_secret_len K DhKem25519 = 32" using laws(2) by (simp add: hpke_rs_ok_def)
  ultimately show ?thesis
    by (cases "PrivateKey_public_key E k")
      (simp add: SimpleHpkeSender_seal_def SimpleHpkeReceiver_open_def PublicKey_key_type_def ciphertext_type_value_def
        ciphertext_type_try_from_def Let_def hpke_set_up_def)
qed

lemma open_rejects:
  "SimpleHpkeReceiver_open K V k info aad [] = Err HpkeInvalidInput"
  "b \<noteq> 1 \<Longrightarrow> SimpleHpkeReceiver_open K V k info aad (b # rest) = Err HpkeUnknownMode"
  "length rest < shared_secret_len K DhKem25519 \<Longrightarrow>
    SimpleHpkeReceiver_open K V k info aad (1 # rest) = Err HpkeInvalidInput"
  by (simp_all add: SimpleHpkeReceiver_open_def ciphertext_type_try_from_def hpke_set_up_def Let_def)

end
