(* ===== verification/Fingerprint.thy ===== *)
theory Fingerprint
  imports Identity_Key
begin

text \<open>
  \<open>rust/protocol/src/fingerprint.rs\<close>: the iterated hash of an identity, the numeric fingerprint
  that two users compare by eye and the scannable one they compare by camera.
\<close>

datatype fingerprint_error =
    VersionMismatch u32 u32
  | ParsingError string
  | InvalidIterationCount u32

subsection \<open>The displayed fingerprint\<close>

record displayable_fingerprint =
  df_local :: string
  df_remote :: string

text \<open>The order of \<open>String\<close>s, which is that of their bytes.\<close>

fun string_less :: "string \<Rightarrow> string \<Rightarrow> bool" where
  "string_less _ [] = False"
| "string_less [] (_ # _) = True"
| "string_less (a # as) (b # bs) = (of_char a < (of_char b :: nat) \<or> a = b \<and> string_less as bs)"

definition DisplayableFingerprint_fmt :: "displayable_fingerprint \<Rightarrow> string" where
  "DisplayableFingerprint_fmt d =
     (if string_less (df_local d) (df_remote d) then df_local d @ df_remote d else df_remote d @ df_local d)"

text \<open>Its assertion that the slice has five bytes holds of every block of \<open>chunks_exact(5)\<close>, its only caller.\<close>

definition read5_mod_100k :: "bytes \<Rightarrow> u64" where
  "read5_mod_100k fprint = fold (\<lambda>x acc. push_bit 8 acc OR ucast x) fprint 0 mod 100000"

text \<open>The format \<open>{n:05}\<close> of a number below 100000: five decimal digits.\<close>

definition decimal_digit :: "nat \<Rightarrow> char" where
  "decimal_digit d = char_of (48 + d)"

definition format05 :: "u64 \<Rightarrow> string" where
  "format05 n = map (\<lambda>i. decimal_digit (unat n div 10 ^ i mod 10)) [4, 3, 2, 1, 0]"

text \<open>\<open>chunks_exact\<close>: the whole blocks of a slice.\<close>

definition chunks_exact :: "nat \<Rightarrow> 'a list \<Rightarrow> 'a list list" where
  "chunks_exact n xs = slice_chunks n (take (n * (length xs div n)) xs)"

definition get_encoded_string :: "bytes \<Rightarrow> (string, fingerprint_error) result" where
  "get_encoded_string fprint =
     (if length fprint < 30 then Err (ParsingError ''DisplayableFingerprint created with short encoding'')
      else Ok (concat (map (\<lambda>c. format05 (read5_mod_100k c)) (take 6 (chunks_exact 5 fprint)))))"

definition DisplayableFingerprint_new :: "bytes \<Rightarrow> bytes \<Rightarrow> (displayable_fingerprint, fingerprint_error) result" where
  "DisplayableFingerprint_new local_fprint remote_fprint =
     bindR (get_encoded_string local_fprint) (\<lambda>l.
     bindR (get_encoded_string remote_fprint) (\<lambda>r.
     Ok \<lparr>df_local = l, df_remote = r\<rparr>))"

subsection \<open>The scannable fingerprint\<close>

record scannable_fingerprint =
  sf_version :: u32
  sf_local_fingerprint :: bytes
  sf_remote_fingerprint :: bytes

definition ScannableFingerprint_new :: "u32 \<Rightarrow> bytes \<Rightarrow> bytes \<Rightarrow> (scannable_fingerprint, 'e) result" where
  "ScannableFingerprint_new version local_fprint remote_fprint =
     bindR (assertR (32 \<le> length local_fprint \<and> 32 \<le> length remote_fprint)) (\<lambda>_.
     Ok \<lparr>sf_version = version, sf_local_fingerprint = take 32 local_fprint,
         sf_remote_fingerprint = take 32 remote_fprint\<rparr>)"

definition logical_content :: "pb_logical_fingerprint option \<Rightarrow> bytes option" where
  "logical_content f = (case f of None \<Rightarrow> None | Some m \<Rightarrow> lf_content m)"

definition ScannableFingerprint_deserialize :: "'r env \<Rightarrow> bytes \<Rightarrow> (scannable_fingerprint, fingerprint_error) result" where
  "ScannableFingerprint_deserialize E protobuf =
     bindR (ok_or (ParsingError ''failed to decode protobuf'') (decode (fingerprint_codec E) protobuf)) (\<lambda>f.
     bindR (ok_or (ParsingError ''missing version'') (cf_version f)) (\<lambda>v.
     bindR (ok_or (ParsingError ''missing local fingerprint'') (logical_content (cf_local_fingerprint f))) (\<lambda>l.
     bindR (ok_or (ParsingError ''missing remote fingerprint'') (logical_content (cf_remote_fingerprint f))) (\<lambda>r.
     Ok \<lparr>sf_version = v, sf_local_fingerprint = l, sf_remote_fingerprint = r\<rparr>))))"

definition ScannableFingerprint_serialize :: "'r env \<Rightarrow> scannable_fingerprint \<Rightarrow> bytes" where
  "ScannableFingerprint_serialize E s =
     encode (fingerprint_codec E)
       \<lparr>cf_version = Some (sf_version s),
        cf_local_fingerprint = Some \<lparr>lf_content = Some (sf_local_fingerprint s)\<rparr>,
        cf_remote_fingerprint = Some \<lparr>lf_content = Some (sf_remote_fingerprint s)\<rparr>\<rparr>"

definition ScannableFingerprint_compare ::
    "'r env \<Rightarrow> scannable_fingerprint \<Rightarrow> bytes \<Rightarrow> (bool, fingerprint_error) result" where
  "ScannableFingerprint_compare E s combined =
     bindR (ok_or (ParsingError ''failed to decode their protobuf'') (decode (fingerprint_codec E) combined)) (\<lambda>f.
     let their_version = (case cf_version f of None \<Rightarrow> 0 | Some v \<Rightarrow> v) in
     if their_version \<noteq> sf_version s then Err (VersionMismatch their_version (sf_version s))
     else
       bindR (ok_or (ParsingError ''missing their local fingerprint'') (logical_content (cf_local_fingerprint f))) (\<lambda>l.
       bindR (ok_or (ParsingError ''missing their remote fingerprint'') (logical_content (cf_remote_fingerprint f))) (\<lambda>r.
       Ok (l = sf_remote_fingerprint s \<and> r = sf_local_fingerprint s))))"

subsection \<open>\<open>Fingerprint\<close>\<close>

record fingerprint =
  fp_display :: displayable_fingerprint
  fp_scannable :: scannable_fingerprint

definition get_fingerprint :: "'r env \<Rightarrow> u32 \<Rightarrow> bytes \<Rightarrow> identity_key \<Rightarrow> (bytes, fingerprint_error) result" where
  "get_fingerprint E iterations local_id local_key =
     (if iterations \<le> 1 \<or> iterations > 1000000 then Err (InvalidIterationCount iterations)
      else
        let fingerprint_version = [0, 0];
            key_bytes = IdentityKey_serialize local_key;
            buf = sha512 E (fingerprint_version @ key_bytes @ local_id @ key_bytes)
        in Ok (fold (\<lambda>_ buf. sha512 E (buf @ key_bytes)) [1..<unat iterations] buf))"

definition Fingerprint_new ::
    "'r env \<Rightarrow> u32 \<Rightarrow> u32 \<Rightarrow> bytes \<Rightarrow> identity_key \<Rightarrow> bytes \<Rightarrow> identity_key \<Rightarrow>
     (fingerprint, fingerprint_error) result" where
  "Fingerprint_new E version iterations local_id local_key remote_id remote_key =
     bindR (get_fingerprint E iterations local_id local_key) (\<lambda>l.
     bindR (get_fingerprint E iterations remote_id remote_key) (\<lambda>r.
     bindR (DisplayableFingerprint_new l r) (\<lambda>d.
     bindR (ScannableFingerprint_new version l r) (\<lambda>s.
     Ok \<lparr>fp_display = d, fp_scannable = s\<rparr>))))"

definition display_string :: "fingerprint \<Rightarrow> string" where
  "display_string f = DisplayableFingerprint_fmt (fp_display f)"

subsection \<open>Both parties see the same\<close>

lemma string_less_irrefl: "\<not> string_less s s"
  by (induction s) auto

lemma string_less_total: "string_less a b \<or> a = b \<or> string_less b a"
proof (induction a b rule: string_less.induct)
  case (3 a as b bs)
  then show ?case using linorder_less_linear [of "of_char a :: nat" "of_char b"] by auto
qed (auto simp: neq_Nil_conv, metis string_less.simps(2) list.exhaust)

lemma string_less_asym: "string_less a b \<Longrightarrow> \<not> string_less b a"
  by (induction a b rule: string_less.induct) auto

lemma fmt_commute:
  "DisplayableFingerprint_fmt \<lparr>df_local = a, df_remote = b\<rparr> = DisplayableFingerprint_fmt \<lparr>df_local = b, df_remote = a\<rparr>"
  using string_less_total [of a b] string_less_asym [of a b] by (auto simp: DisplayableFingerprint_fmt_def)

lemma length_get_fingerprint:
  assumes "hash_lengths E" "get_fingerprint E n i k = Ok f"
  shows "length f = 64"
proof -
  have "length (fold (\<lambda>_ buf. sha512 E (buf @ key)) xs b) = 64" if "length b = 64" for xs :: "nat list" and key b
    using that assms(1) by (induction xs arbitrary: b) (simp_all add: hash_lengths_def)
  then show ?thesis
    using assms by (auto simp: get_fingerprint_def Let_def hash_lengths_def split: if_splits)
qed

lemma get_encoded_string_Ok:
  assumes "30 \<le> length f"
  shows "\<exists>s. get_encoded_string f = Ok s \<and> length s = 30 \<and> set s \<subseteq> set ''0123456789''"
proof -
  let ?cs = "chunks_exact 5 f"
  have "length (concat (slice_chunks 5 xs)) = 5 * length (slice_chunks 5 xs)" if "length xs mod 5 = 0" for xs :: bytes
    using length_slice_chunks [OF that] by (simp add: length_concat sum_list_triv cong: map_cong)
  then have "5 * length ?cs = 5 * (length f div 5)"
    by (simp add: chunks_exact_def concat_slice_chunks min_absorb2)
  then have six: "length (take 6 ?cs) = 6" using div_le_mono [OF assms, of 5] by simp
  have len: "length (concat (map (\<lambda>c. format05 (g c)) xs)) = 5 * length xs" for g and xs :: "bytes list"
    by (simp add: length_concat comp_def format05_def sum_list_triv)
  have digit: "decimal_digit (n mod 10) \<in> set ''0123456789''" for n
  proof -
    have "n mod 10 < 10" by simp
    moreover have "\<forall>d < 10. decimal_digit d \<in> set ''0123456789''" by code_simp
    ultimately show ?thesis by blast
  qed
  have "set (format05 n) \<subseteq> set ''0123456789''" for n
    unfolding format05_def set_map using digit by blast
  then have "set (concat (map (\<lambda>c. format05 (g c)) xs)) \<subseteq> set ''0123456789''" for g and xs :: "bytes list"
    by (simp only: set_concat set_map) blast
  then show ?thesis using assms six len by (simp add: get_encoded_string_def)
qed

lemma Fingerprint_new_Ok:
  assumes "hash_lengths E" "1 < n" "n \<le> 1000000"
  shows "\<exists>f. Fingerprint_new E v n i k j l = Ok f"
proof -
  obtain a b where ab: "get_fingerprint E n i k = Ok a" "get_fingerprint E n j l = Ok b"
    using assms(2,3) by (auto simp: get_fingerprint_def Let_def not_le leD)
  then have len: "length a = 64" "length b = 64" using length_get_fingerprint [OF assms(1)] by blast+
  obtain s t where "get_encoded_string a = Ok s" "get_encoded_string b = Ok t"
    using get_encoded_string_Ok [of a] get_encoded_string_Ok [of b] len by auto
  then show ?thesis
    using ab len by (simp add: Fingerprint_new_def DisplayableFingerprint_new_def ScannableFingerprint_new_def)
qed

lemma Fingerprint_new_cases:
  assumes "Fingerprint_new E v n i k j l = Ok f"
  obtains a b s t where "get_fingerprint E n i k = Ok a" "get_fingerprint E n j l = Ok b"
    "get_encoded_string a = Ok s" "get_encoded_string b = Ok t" "fp_display f = \<lparr>df_local = s, df_remote = t\<rparr>"
    "fp_scannable f = \<lparr>sf_version = v, sf_local_fingerprint = take 32 a, sf_remote_fingerprint = take 32 b\<rparr>"
    "32 \<le> length a" "32 \<le> length b"
  using assms
  by (auto simp: Fingerprint_new_def DisplayableFingerprint_new_def ScannableFingerprint_new_def result_simps)

interpretation scannable_serde:
  serde "ScannableFingerprint_serialize E" "ScannableFingerprint_deserialize E" "\<lambda>_. codec_ok (fingerprint_codec E)" for E
  by unfold_locales (simp add: ScannableFingerprint_serialize_def ScannableFingerprint_deserialize_def logical_content_def)

lemma compare_serialized:
  assumes "codec_ok (fingerprint_codec E)" "sf_version t = sf_version s"
  shows "ScannableFingerprint_compare E s (ScannableFingerprint_serialize E t) =
    Ok (sf_local_fingerprint t = sf_remote_fingerprint s \<and> sf_remote_fingerprint t = sf_local_fingerprint s)"
  using assms by (simp add: ScannableFingerprint_compare_def ScannableFingerprint_serialize_def logical_content_def Let_def)

text \<open>
  The two users of a conversation compute fingerprints that display as the same 60 digits and that
  match each other when scanned.
\<close>

lemma fingerprints_agree:
  assumes "hash_lengths E" "codec_ok (fingerprint_codec E)" "1 < n" "n \<le> 1000000"
  shows "\<exists>f g. Fingerprint_new E v n i k j l = Ok f \<and> Fingerprint_new E v n j l i k = Ok g \<and>
    display_string f = display_string g \<and> length (display_string f) = 60 \<and>
    set (display_string f) \<subseteq> set ''0123456789'' \<and>
    ScannableFingerprint_compare E (fp_scannable f) (ScannableFingerprint_serialize E (fp_scannable g)) = Ok True"
proof -
  obtain f where f: "Fingerprint_new E v n i k j l = Ok f" using Fingerprint_new_Ok [OF assms(1,3,4)] by blast
  obtain g where g: "Fingerprint_new E v n j l i k = Ok g" using Fingerprint_new_Ok [OF assms(1,3,4)] by blast
  obtain a b s t where
    F: "get_fingerprint E n i k = Ok a" "get_fingerprint E n j l = Ok b" "get_encoded_string a = Ok s"
      "get_encoded_string b = Ok t" "fp_display f = \<lparr>df_local = s, df_remote = t\<rparr>"
      "fp_scannable f = \<lparr>sf_version = v, sf_local_fingerprint = take 32 a, sf_remote_fingerprint = take 32 b\<rparr>"
      "32 \<le> length a" "32 \<le> length b"
    using f by (rule Fingerprint_new_cases)
  have G: "fp_display g = \<lparr>df_local = t, df_remote = s\<rparr>"
      "fp_scannable g = \<lparr>sf_version = v, sf_local_fingerprint = take 32 b, sf_remote_fingerprint = take 32 a\<rparr>"
    using g F(1-4) by (auto elim!: Fingerprint_new_cases)
  have "length s = 30" "length t = 30" "set s \<subseteq> set ''0123456789''" "set t \<subseteq> set ''0123456789''"
    using get_encoded_string_Ok [of a] get_encoded_string_Ok [of b] F(3,4,7,8) by auto
  then have "length (display_string f) = 60" "set (display_string f) \<subseteq> set ''0123456789''"
    by (simp_all add: display_string_def F(5) DisplayableFingerprint_fmt_def)
  moreover have "display_string f = display_string g"
    by (simp add: display_string_def F(5) G(1) fmt_commute [of s t])
  moreover have "ScannableFingerprint_compare E (fp_scannable f) (ScannableFingerprint_serialize E (fp_scannable g)) = Ok True"
    by (simp add: compare_serialized [OF assms(2)] F(6) G(2))
  ultimately show ?thesis using f g by blast
qed

end
