(* ===== verification/Sealed_Sender_Proto.thy ===== *)
theory Sealed_Sender_Proto
  imports Externals
begin

text \<open>
  The messages of \<open>rust/protocol/src/proto/sealed_sender.proto\<close> as records, and the third-party code
  that only sealed sender uses as a record of parameters: the \<open>prost\<close> codecs of these messages,
  AES-256-GCM-SIV and the length delimiters of \<open>prost\<close>.
\<close>

record pb_server_certificate_data =
  scd_id :: "u32 option"
  scd_key :: "bytes option"

record pb_server_certificate =
  psc_certificate :: "bytes option"
  psc_signature :: "bytes option"

text \<open>The two \<open>oneof\<close> fields of \<open>SenderCertificate.Certificate\<close>.\<close>

datatype pb_sender_uuid = UuidString string | UuidBytes bytes
datatype pb_signer = SignerCertificate bytes | SignerId u32

record pb_sender_certificate_data =
  ecd_sender_e164 :: "string option"
  ecd_sender_uuid :: "pb_sender_uuid option"
  ecd_sender_device :: "u32 option"
  ecd_expires :: "u64 option"
  ecd_identity_key :: "bytes option"
  ecd_signer :: "pb_signer option"

record pb_sender_certificate =
  pec_certificate :: "bytes option"
  pec_signature :: "bytes option"

text \<open>Enumeration fields are \<open>i32\<close>s in the generated code.\<close>

record pb_usm_content =
  umc_type :: "u32 option"
  umc_sender_certificate :: "bytes option"
  umc_content :: "bytes option"
  umc_content_hint :: "u32 option"
  umc_group_id :: "bytes option"

record pb_unidentified_sender_message =
  usm_ephemeral_public :: "bytes option"
  usm_encrypted_static :: "bytes option"
  usm_encrypted_message :: "bytes option"

text \<open>
  \<open>gcm_siv_encrypt\<close> returns the ciphertext and the detached tag, or \<open>None\<close> when the crate refuses
  the input; \<open>gcm_siv_decrypt\<close> takes the ciphertext with its tag.
\<close>

record ss_prims =
  server_certificate_data_codec :: "pb_server_certificate_data codec"
  server_certificate_codec :: "pb_server_certificate codec"
  sender_certificate_data_codec :: "pb_sender_certificate_data codec"
  sender_certificate_codec :: "pb_sender_certificate codec"
  usm_content_codec :: "pb_usm_content codec"
  usm_codec :: "pb_unidentified_sender_message codec"
  gcm_siv_encrypt :: "bytes \<Rightarrow> bytes \<Rightarrow> bytes \<Rightarrow> bytes \<Rightarrow> (bytes \<times> bytes) option"
  gcm_siv_decrypt :: "bytes \<Rightarrow> bytes \<Rightarrow> bytes \<Rightarrow> bytes \<Rightarrow> bytes option"
  aead_error_display :: string
  encode_length_delimiter :: "nat \<Rightarrow> bytes"
  decode_length_delimiter :: "bytes \<Rightarrow> nat option"
  length_delimiter_len :: "nat \<Rightarrow> nat"

subsection \<open>Laws that theorems name as hypotheses\<close>

definition ss_codecs_ok :: "ss_prims \<Rightarrow> bool" where
  "ss_codecs_ok P \<longleftrightarrow>
     codec_ok (server_certificate_data_codec P) \<and> codec_ok (server_certificate_codec P) \<and>
     codec_ok (sender_certificate_data_codec P) \<and> codec_ok (sender_certificate_codec P) \<and>
     codec_ok (usm_content_codec P) \<and> codec_ok (usm_codec P)"

text \<open>AES-GCM-SIV under a 32-byte key and a 12-byte nonce decrypts what it encrypts (up to its limit).\<close>

definition gcm_siv_ok :: "ss_prims \<Rightarrow> bool" where
  "gcm_siv_ok P \<longleftrightarrow>
     (\<forall>k n ad p c t. length k = 32 \<longrightarrow> length n = 12 \<longrightarrow> gcm_siv_encrypt P k n ad p = Some (c, t) \<longrightarrow>
        gcm_siv_decrypt P k n ad (c @ t) = Some p)"

text \<open>The length delimiter of a \<open>u64\<close> is a prefix code of the length that \<open>length_delimiter_len\<close> says.\<close>

definition delimiter_ok :: "ss_prims \<Rightarrow> bool" where
  "delimiter_ok P \<longleftrightarrow>
     (\<forall>n rest. n < 2 ^ 64 \<longrightarrow> decode_length_delimiter P (encode_length_delimiter P n @ rest) = Some n \<and>
        length (encode_length_delimiter P n) = length_delimiter_len P n)"

lemma ss_codecsD [simp]:
  assumes "ss_codecs_ok P"
  shows "codec_ok (server_certificate_data_codec P)" "codec_ok (server_certificate_codec P)"
    "codec_ok (sender_certificate_data_codec P)" "codec_ok (sender_certificate_codec P)"
    "codec_ok (usm_content_codec P)" "codec_ok (usm_codec P)"
  using assms by (simp_all add: ss_codecs_ok_def)

end
