(* ===== verification/Sealed_Sender_Certs.thy ===== *)
theory Sealed_Sender_Certs
  imports Sealed_Sender_Proto Identity_Key Address Messages
begin

text \<open>
  The certificates of \<open>rust/protocol/src/sealed_sender.rs\<close>: a trust root signs server certificates, a
  server signs sender certificates, and a recipient validates the chain. A sender certificate embeds
  its server certificate or names one of the known ones by its id.
\<close>

subsection \<open>\<open>ServerCertificate\<close>\<close>

record server_certificate =
  svc_serialized :: bytes
  svc_key_id :: u32
  svc_key :: public_key
  svc_certificate :: bytes
  svc_signature :: bytes

definition REVOKED_SERVER_CERTIFICATE_KEY_IDS :: "u32 list" where
  "REVOKED_SERVER_CERTIFICATE_KEY_IDS = [0xDEADC357]"

text \<open>The key id, the trust root and the serialized certificate, with their base64 and hex texts decoded.\<close>

definition KNOWN_SERVER_CERTIFICATES :: "(u32 \<times> bytes \<times> bytes) list" where
  "KNOWN_SERVER_CERTIFICATES =
     [(2,
       [0x05, 0x88, 0x54, 0xEA, 0xD3, 0xE3, 0xA8, 0xFE, 0x3A, 0x28, 0x66, 0x44, 0xCD, 0x1B, 0x35, 0x38,
        0xBE, 0x14, 0xDF, 0xD5, 0x79, 0x76, 0x53, 0xC9, 0xFD, 0x7D, 0x3D, 0x85, 0xAE, 0x2B, 0x12, 0xB9,
        0x26],
       [0x0A, 0x25, 0x08, 0x02, 0x12, 0x21, 0x05, 0x39, 0x45, 0x0D, 0x63, 0xEB, 0xD0, 0x75, 0x2C, 0x0F,
        0xD4, 0x03, 0x8B, 0x9D, 0x07, 0xA9, 0x16, 0xF5, 0xE1, 0x74, 0xB7, 0x56, 0xD4, 0x09, 0xB5, 0xCA,
        0x79, 0xF4, 0xC9, 0x74, 0x00, 0x63, 0x1E, 0x12, 0x40, 0x64, 0xC5, 0xA3, 0x8B, 0x1E, 0x92, 0x74,
        0x97, 0xD3, 0xD4, 0x78, 0x6B, 0x10, 0x1A, 0x62, 0x3A, 0xB3, 0x4A, 0x7D, 0xA3, 0x95, 0x4F, 0xAE,
        0x12, 0x6B, 0x04, 0xDB, 0xA9, 0xD7, 0xA3, 0x60, 0x4E, 0xD8, 0x8C, 0xDC, 0x85, 0x50, 0x95, 0x0F,
        0x0D, 0x4A, 0x91, 0x34, 0xCE, 0xB7, 0xE1, 0x9B, 0x94, 0x13, 0x91, 0x51, 0xD2, 0xC3, 0xD6, 0xE1,
        0xC8, 0x1E, 0x9D, 0x11, 0x28, 0xAA, 0xFC, 0xA8, 0x06]),
      (3,
       [0x05, 0x49, 0x18, 0xD0, 0x8F, 0xBD, 0xFA, 0x83, 0xE0, 0x0C, 0x29, 0xF8, 0xF8, 0x07, 0x3A, 0x22,
        0xEF, 0x35, 0xDF, 0x2B, 0xEA, 0x90, 0x3A, 0xFF, 0x81, 0xAF, 0x03, 0xCC, 0xBC, 0x45, 0xC6, 0xE9,
        0x3A],
       [0x0A, 0x25, 0x08, 0x03, 0x12, 0x21, 0x05, 0xBC, 0x9D, 0x1D, 0x29, 0x0B, 0xE9, 0x64, 0x81, 0x0D,
        0xFA, 0x7E, 0x94, 0x85, 0x64, 0x80, 0xA3, 0xF7, 0x06, 0x0D, 0x00, 0x4C, 0x97, 0x62, 0xC2, 0x4C,
        0x57, 0x5A, 0x15, 0x22, 0x35, 0x3A, 0x5A, 0x12, 0x40, 0xC1, 0x1E, 0xC3, 0xC4, 0x01, 0xEB, 0x01,
        0x07, 0xAB, 0x38, 0xF8, 0x60, 0x0E, 0x87, 0x20, 0xA6, 0x31, 0x69, 0xE0, 0xE2, 0xEB, 0x8A, 0x3F,
        0xAE, 0x24, 0xF6, 0x30, 0x99, 0xF8, 0x5E, 0xA3, 0x19, 0xC3, 0xC1, 0xC4, 0x6D, 0x34, 0x54, 0x70,
        0x6A, 0xE2, 0xA6, 0x79, 0xD1, 0xFE, 0xE6, 0x90, 0xA4, 0x88, 0xAD, 0xDA, 0x98, 0xA2, 0x29, 0x0B,
        0x66, 0xC9, 0x06, 0xBB, 0x60, 0x29, 0x5E, 0xD7, 0x81]),
      (0x7357C357,
       [0x05, 0x2F, 0xE5, 0x7D, 0xA3, 0x47, 0xCD, 0x62, 0x43, 0x15, 0x28, 0xDA, 0xAC, 0x5F, 0xBB, 0x29,
        0x07, 0x30, 0xFF, 0xF6, 0x84, 0xAF, 0xC4, 0xCF, 0xC2, 0xED, 0x90, 0x99, 0x5F, 0x58, 0xCB, 0x3B,
        0x74],
       [0x0A, 0x29, 0x08, 0xD7, 0x86, 0xDF, 0x9A, 0x07, 0x12, 0x21, 0x05, 0x84, 0x7C, 0x0D, 0x2C, 0x37,
        0x52, 0x34, 0xF3, 0x65, 0xE6, 0x60, 0x95, 0x51, 0x87, 0xA3, 0x73, 0x5A, 0x0F, 0x76, 0x13, 0xD1,
        0x60, 0x9D, 0x3A, 0x6A, 0x4D, 0x8C, 0x53, 0xAE, 0xAA, 0x5A, 0x22, 0x12, 0x40, 0xE0, 0xB9, 0xEB,
        0xAC, 0xDF, 0xC3, 0xAA, 0x28, 0x27, 0xF7, 0x92, 0x4B, 0x69, 0x77, 0x84, 0xD1, 0xC2, 0x5E, 0x44,
        0xCA, 0x05, 0xDD, 0x43, 0x3E, 0x1A, 0x38, 0xDC, 0x63, 0x82, 0xEB, 0x27, 0x30, 0xD4, 0x19, 0xCA,
        0x9A, 0x25, 0x0B, 0x1B, 0xE9, 0xD5, 0xA9, 0x46, 0x3E, 0x61, 0xEF, 0xD6, 0x78, 0x17, 0x77, 0xA9,
        0x1B, 0x83, 0xC9, 0x7B, 0x84, 0x4D, 0x01, 0x42, 0x06, 0xE2, 0x82, 0x97, 0x85])]"

definition ServerCertificate_deserialize ::
    "ss_prims \<Rightarrow> bytes \<Rightarrow> (server_certificate, signal_error) result" where
  "ServerCertificate_deserialize P data =
     bindR (ok_or InvalidProtobufEncoding (decode (server_certificate_codec P) data)) (\<lambda>pb.
     if psc_certificate pb = None \<or> psc_signature pb = None then Err InvalidProtobufEncoding
     else
       bindR (ok_or InvalidProtobufEncoding (psc_certificate pb)) (\<lambda>certificate.
       bindR (ok_or InvalidProtobufEncoding (psc_signature pb)) (\<lambda>signature.
       bindR (ok_or InvalidProtobufEncoding (decode (server_certificate_data_codec P) certificate)) (\<lambda>certificate_data.
       bindR (ok_or InvalidProtobufEncoding (scd_key certificate_data)) (\<lambda>key_bytes.
       bindR (map_err from_curve_error (PublicKey_deserialize key_bytes)) (\<lambda>key.
       bindR (ok_or InvalidProtobufEncoding (scd_id certificate_data)) (\<lambda>key_id.
       Ok \<lparr>svc_serialized = data, svc_key_id = key_id, svc_key = key,
           svc_certificate = certificate, svc_signature = signature\<rparr>)))))))"

definition ServerCertificate_new ::
    "'r env \<Rightarrow> ss_prims \<Rightarrow> u32 \<Rightarrow> public_key \<Rightarrow> private_key \<Rightarrow> 'r \<Rightarrow> server_certificate \<times> 'r" where
  "ServerCertificate_new E P key_id key trust_root r =
     (let certificate = encode (server_certificate_data_codec P)
            \<lparr>scd_id = Some key_id, scd_key = Some (PublicKey_serialize key)\<rparr>;
          (signature, r') = PrivateKey_calculate_signature E trust_root certificate r;
          serialized = encode (server_certificate_codec P)
            \<lparr>psc_certificate = Some certificate, psc_signature = Some signature\<rparr>
      in (\<lparr>svc_serialized = serialized, svc_key_id = key_id, svc_key = key,
           svc_certificate = certificate, svc_signature = signature\<rparr>, r'))"

definition ServerCertificate_validate :: "'r env \<Rightarrow> server_certificate \<Rightarrow> public_key \<Rightarrow> bool" where
  "ServerCertificate_validate E c trust_root =
     (if svc_key_id c \<in> set REVOKED_SERVER_CERTIFICATE_KEY_IDS then False
      else verify_signature E trust_root (svc_certificate c) (svc_signature c))"

subsection \<open>\<open>SenderCertificate\<close>\<close>

datatype sender_certificate_signer = Embedded server_certificate | Reference u32

record sender_certificate =
  sec_signer :: sender_certificate_signer
  sec_key :: public_key
  sec_sender_device_id :: device_id
  sec_sender_uuid :: string
  sec_sender_e164 :: "string option"
  sec_expiration :: timestamp
  sec_serialized :: bytes
  sec_certificate :: bytes
  sec_signature :: bytes

definition SenderCertificate_deserialize ::
    "'r env \<Rightarrow> ss_prims \<Rightarrow> bytes \<Rightarrow> (sender_certificate, signal_error) result" where
  "SenderCertificate_deserialize E P data =
     bindR (ok_or InvalidProtobufEncoding (decode (sender_certificate_codec P) data)) (\<lambda>pb.
     bindR (ok_or InvalidProtobufEncoding (pec_certificate pb)) (\<lambda>certificate.
     bindR (ok_or InvalidProtobufEncoding (pec_signature pb)) (\<lambda>signature.
     bindR (ok_or InvalidProtobufEncoding (decode (sender_certificate_data_codec P) certificate)) (\<lambda>d.
     bindR (ok_or InvalidProtobufEncoding
       (case ecd_sender_device d of None \<Rightarrow> None | Some v \<Rightarrow> ok_opt (DeviceId_try_from_u32 v))) (\<lambda>device.
     bindR (ok_or InvalidProtobufEncoding (ecd_expires d)) (\<lambda>expiration.
     bindR (ok_or InvalidProtobufEncoding (ecd_signer d)) (\<lambda>pb_signer.
     bindR (case pb_signer of
         SignerCertificate encoded \<Rightarrow> mapR Embedded (ServerCertificate_deserialize P encoded)
       | SignerId i \<Rightarrow> Ok (Reference i)) (\<lambda>signer.
     bindR (ok_or InvalidProtobufEncoding (ecd_sender_uuid d)) (\<lambda>pb_uuid.
     bindR (case pb_uuid of
         UuidString s \<Rightarrow> Ok s
       | UuidBytes raw \<Rightarrow> mapR (uuid_to_string E) (ok_or InvalidProtobufEncoding (uuid_from_slice raw))) (\<lambda>sender_uuid.
     bindR (ok_or InvalidProtobufEncoding (ecd_identity_key d)) (\<lambda>key_bytes.
     bindR (map_err from_curve_error (PublicKey_deserialize key_bytes)) (\<lambda>key.
     Ok \<lparr>sec_signer = signer, sec_key = key, sec_sender_device_id = device, sec_sender_uuid = sender_uuid,
         sec_sender_e164 = ecd_sender_e164 d, sec_expiration = expiration, sec_serialized = data,
         sec_certificate = certificate, sec_signature = signature\<rparr>))))))))))))"

definition SenderCertificate_new ::
    "'r env \<Rightarrow> ss_prims \<Rightarrow> string \<Rightarrow> string option \<Rightarrow> public_key \<Rightarrow> device_id \<Rightarrow> timestamp \<Rightarrow>
     server_certificate \<Rightarrow> private_key \<Rightarrow> 'r \<Rightarrow> sender_certificate \<times> 'r" where
  "SenderCertificate_new E P sender_uuid sender_e164 key device expiration signer signer_key r =
     (let certificate = encode (sender_certificate_data_codec P)
            \<lparr>ecd_sender_e164 = sender_e164, ecd_sender_uuid = Some (UuidString sender_uuid),
             ecd_sender_device = Some (DeviceId_into_u32 device), ecd_expires = Some expiration,
             ecd_identity_key = Some (PublicKey_serialize key),
             ecd_signer = Some (SignerCertificate (svc_serialized signer))\<rparr>;
          (signature, r') = PrivateKey_calculate_signature E signer_key certificate r;
          serialized = encode (sender_certificate_codec P)
            \<lparr>pec_certificate = Some certificate, pec_signature = Some signature\<rparr>
      in (\<lparr>sec_signer = Embedded signer, sec_key = key, sec_sender_device_id = device,
           sec_sender_uuid = sender_uuid, sec_sender_e164 = sender_e164, sec_expiration = expiration,
           sec_serialized = serialized, sec_certificate = certificate, sec_signature = signature\<rparr>, r'))"

text \<open>The lazily built table of known certificates; a certificate that does not parse is a panic.\<close>

fun build_cert_map ::
    "ss_prims \<Rightarrow> (u32 \<times> bytes \<times> bytes) list \<Rightarrow>
     (u32 \<rightharpoonup> public_key \<times> server_certificate) \<Rightarrow> (u32 \<rightharpoonup> public_key \<times> server_certificate, signal_error) result" where
  "build_cert_map P [] m = Ok m"
| "build_cert_map P ((i, trust_root, cert) # rest) m =
     bindR (expect_ok (PublicKey_deserialize trust_root)) (\<lambda>root.
     bindR (expect_ok (ServerCertificate_deserialize P cert)) (\<lambda>c.
     build_cert_map P rest (m(i \<mapsto> (root, c)))))"

definition CERT_MAP :: "ss_prims \<Rightarrow> (u32 \<rightharpoonup> public_key \<times> server_certificate, signal_error) result" where
  "CERT_MAP P = build_cert_map P KNOWN_SERVER_CERTIFICATES Map.empty"

definition SenderCertificate_signer ::
    "ss_prims \<Rightarrow> sender_certificate \<Rightarrow> (server_certificate, signal_error) result" where
  "SenderCertificate_signer P c =
     (case sec_signer c of
        Embedded cert \<Rightarrow> Ok cert
      | Reference i \<Rightarrow>
          bindR (CERT_MAP P) (\<lambda>m. ok_or (UnknownSealedSenderServerCertificateId i) (map_option snd (m i))))"

definition validate_with_trust_roots ::
    "'r env \<Rightarrow> ss_prims \<Rightarrow> sender_certificate \<Rightarrow> public_key list \<Rightarrow> timestamp \<Rightarrow> (bool, signal_error) result" where
  "validate_with_trust_roots E P c trust_roots validation_time =
     bindR (SenderCertificate_signer P c) (\<lambda>signer.
     let any_valid = fold (\<lambda>root any. any \<or> ServerCertificate_validate E signer root) trust_roots False in
     if \<not> any_valid then Ok False
     else if \<not> verify_signature E (svc_key signer) (sec_certificate c) (sec_signature c) then Ok False
     else if validation_time > sec_expiration c then Ok False
     else Ok True)"

definition SenderCertificate_validate ::
    "'r env \<Rightarrow> ss_prims \<Rightarrow> sender_certificate \<Rightarrow> public_key \<Rightarrow> timestamp \<Rightarrow> (bool, signal_error) result" where
  "SenderCertificate_validate E P c trust_root validation_time =
     validate_with_trust_roots E P c [trust_root] validation_time"

subsection \<open>Round trips\<close>

definition server_certificate_ok :: "ss_prims \<Rightarrow> server_certificate \<Rightarrow> bool" where
  "server_certificate_ok P c \<longleftrightarrow> ServerCertificate_deserialize P (svc_serialized c) = Ok c"

lemma ServerCertificate_new_ok:
  assumes "ss_codecs_ok P" "public_key_ok key"
  shows "server_certificate_ok P (fst (ServerCertificate_new E P key_id key root r))"
  using assms
  by (simp add: server_certificate_ok_def ServerCertificate_new_def ServerCertificate_deserialize_def Let_def
      public_key_serde.de_ser split: prod.split)

lemma ServerCertificate_deserialize_ok:
  "ServerCertificate_deserialize P bs = Ok c \<Longrightarrow> server_certificate_ok P c \<and> svc_serialized c = bs"
  by (auto simp: server_certificate_ok_def ServerCertificate_deserialize_def result_simps split: if_splits)

definition sender_certificate_ok :: "'r env \<Rightarrow> ss_prims \<Rightarrow> sender_certificate \<Rightarrow> bool" where
  "sender_certificate_ok E P c \<longleftrightarrow> SenderCertificate_deserialize E P (sec_serialized c) = Ok c"

lemma SenderCertificate_new_ok:
  assumes "ss_codecs_ok P" "public_key_ok key" "device_id_ok device" "server_certificate_ok P signer"
  shows "sender_certificate_ok E P (fst (SenderCertificate_new E P uuid e164 key device exp signer sk r))"
proof -
  have "DeviceId_try_from_u32 (DeviceId_into_u32 device) = Ok device" using assms(3) by (simp add: DeviceId_u32_Ok)
  then show ?thesis
    using assms(1,2,4)
    by (simp add: sender_certificate_ok_def SenderCertificate_new_def SenderCertificate_deserialize_def Let_def
        server_certificate_ok_def public_key_serde.de_ser split: prod.split)
qed

lemma SenderCertificate_deserialize_ok:
  "SenderCertificate_deserialize E P bs = Ok c \<Longrightarrow> sender_certificate_ok E P c \<and> sec_serialized c = bs"
proof -
  assume c: "SenderCertificate_deserialize E P bs = Ok c"
  then have "sec_serialized c = bs" by (auto simp: SenderCertificate_deserialize_def result_simps)
  then show ?thesis using c by (simp add: sender_certificate_ok_def)
qed

interpretation server_certificate_serde:
  serde svc_serialized "ServerCertificate_deserialize P" "server_certificate_ok P" for P
  by unfold_locales (simp add: server_certificate_ok_def)

interpretation sender_certificate_serde:
  serde sec_serialized "SenderCertificate_deserialize E P" "sender_certificate_ok E P" for E P
  by unfold_locales (simp add: sender_certificate_ok_def)

subsection \<open>Validation\<close>

lemma any_valid: "fold (\<lambda>root any. any \<or> f root) roots b \<longleftrightarrow> b \<or> (\<exists>root \<in> set roots. f root)"
  by (induction roots arbitrary: b) auto

text \<open>Exactly the certificates with an unbroken, unrevoked and unexpired chain are valid.\<close>

lemma validate_with_trust_roots_iff:
  "validate_with_trust_roots E P c roots t = Ok True \<longleftrightarrow>
     (\<exists>signer. SenderCertificate_signer P c = Ok signer \<and>
        svc_key_id signer \<notin> set REVOKED_SERVER_CERTIFICATE_KEY_IDS \<and>
        (\<exists>root \<in> set roots. verify_signature E root (svc_certificate signer) (svc_signature signer)) \<and>
        verify_signature E (svc_key signer) (sec_certificate c) (sec_signature c) \<and> t \<le> sec_expiration c)"
  by (auto simp: validate_with_trust_roots_def result_simps any_valid ServerCertificate_validate_def not_less Let_def
      split: if_splits)

lemma issued_certificate_valid:
  assumes "xeddsa_ok E" "dh_ok E" "svc_key_id server \<notin> set REVOKED_SERVER_CERTIFICATE_KEY_IDS"
    "server = fst (ServerCertificate_new E P i (PrivateKey_public_key E server_key) root r)"
    "c = fst (SenderCertificate_new E P uuid e164 key device exp server server_key r2)"
  shows "SenderCertificate_validate E P c (PrivateKey_public_key E root) t = Ok (t \<le> exp)"
proof -
  have root: "verify_signature E (PrivateKey_public_key E root) (svc_certificate server) (svc_signature server)"
    using signature_roundtrip [OF assms(1,2), of root] unfolding assms(4)
    by (simp add: ServerCertificate_new_def Let_def verify_signature_def PrivateKey_calculate_signature_def
        split: prod.split) (metis fst_conv)
  have sk: "svc_key server = PrivateKey_public_key E server_key"
    unfolding assms(4) by (simp add: ServerCertificate_new_def Let_def split: prod.split)
  have sig: "verify_signature E (svc_key server) (sec_certificate c) (sec_signature c)"
    using signature_roundtrip [OF assms(1,2), of server_key] unfolding assms(5) sk
    by (simp add: SenderCertificate_new_def Let_def verify_signature_def PrivateKey_calculate_signature_def
        split: prod.split) (metis fst_conv)
  have "sec_signer c = Embedded server" "sec_expiration c = exp"
    unfolding assms(5) by (simp_all add: SenderCertificate_new_def Let_def split: prod.split)
  then show ?thesis
    using root sig assms(3)
    by (auto simp: SenderCertificate_validate_def validate_with_trust_roots_def SenderCertificate_signer_def
        ServerCertificate_validate_def Let_def)
qed

lemma ServerCertificate_deserialize_no_panic [simp]: "ServerCertificate_deserialize P bs \<noteq> Panic"
  by (simp add: ServerCertificate_deserialize_def result_simps)

lemma SenderCertificate_deserialize_no_panic [simp]: "SenderCertificate_deserialize E P bs \<noteq> Panic"
  by (auto simp: SenderCertificate_deserialize_def result_simps split: pb_signer.splits pb_sender_uuid.splits)

end
