(* ===== verification/Sealed_Sender.thy ===== *)
theory Sealed_Sender
  imports Sealed_Sender_Certs Crypto Session_Handlers
begin

text \<open>
  The messages of \<open>rust/protocol/src/sealed_sender.rs\<close>: the content that names its sender by a
  certificate, its encryption to one recipient (v1) and to many recipients (v2), the server's view of
  a v2 message, and decryption in either version down to the plaintext of the session.
\<close>

subsection \<open>Message types and content hints\<close>

text \<open>\<open>ProtoMessageType\<close>, with the values of \<open>sealed_sender.proto\<close>.\<close>

datatype proto_message_type = ProtoPrekeyMessage | ProtoMessage | ProtoSenderkeyMessage | ProtoPlaintextContent

primrec proto_message_type_value :: "proto_message_type \<Rightarrow> u32" where
  "proto_message_type_value ProtoPrekeyMessage = 1"
| "proto_message_type_value ProtoMessage = 2"
| "proto_message_type_value ProtoSenderkeyMessage = 7"
| "proto_message_type_value ProtoPlaintextContent = 8"

definition proto_message_type_try_from :: "u32 \<Rightarrow> proto_message_type option" where
  "proto_message_type_try_from t =
     (if t = 1 then Some ProtoPrekeyMessage else if t = 2 then Some ProtoMessage
      else if t = 7 then Some ProtoSenderkeyMessage else if t = 8 then Some ProtoPlaintextContent else None)"

primrec CiphertextMessageType_from :: "proto_message_type \<Rightarrow> ciphertext_message_type" where
  "CiphertextMessageType_from ProtoMessage = Whisper"
| "CiphertextMessageType_from ProtoPrekeyMessage = PreKey"
| "CiphertextMessageType_from ProtoSenderkeyMessage = SenderKey"
| "CiphertextMessageType_from ProtoPlaintextContent = Plaintext"

primrec ProtoMessageType_from :: "ciphertext_message_type \<Rightarrow> proto_message_type" where
  "ProtoMessageType_from PreKey = ProtoPrekeyMessage"
| "ProtoMessageType_from Whisper = ProtoMessage"
| "ProtoMessageType_from SenderKey = ProtoSenderkeyMessage"
| "ProtoMessageType_from Plaintext = ProtoPlaintextContent"

text \<open>The assertions of both conversions: the values agree except for pre-key messages.\<close>

lemma message_type_values:
  "CiphertextMessageType_from p = PreKey \<or> proto_message_type_value p = ucast (message_type_value (CiphertextMessageType_from p))"
  "ProtoMessageType_from t = ProtoPrekeyMessage \<or> proto_message_type_value (ProtoMessageType_from t) = ucast (message_type_value t)"
  by (cases p; simp) (cases t; simp)

datatype content_hint = HintDefault | HintResendable | HintImplicit | HintUnknown u32

primrec ContentHint_to_u32 :: "content_hint \<Rightarrow> u32" where
  "ContentHint_to_u32 HintDefault = 0"
| "ContentHint_to_u32 HintResendable = 1"
| "ContentHint_to_u32 HintImplicit = 2"
| "ContentHint_to_u32 (HintUnknown v) = v"

definition ContentHint_to_proto :: "content_hint \<Rightarrow> u32 option" where
  "ContentHint_to_proto h = (if h = HintDefault then None else Some (ContentHint_to_u32 h))"

definition ContentHint_from :: "u32 \<Rightarrow> content_hint" where
  "ContentHint_from raw_value =
     (if raw_value = 1 then HintResendable else if raw_value = 2 then HintImplicit
      else if raw_value = 0 then HintDefault else HintUnknown raw_value)"

subsection \<open>\<open>UnidentifiedSenderMessageContent\<close>\<close>

record usmc =
  uc_serialized :: bytes
  uc_contents :: bytes
  uc_sender :: sender_certificate
  uc_msg_type :: ciphertext_message_type
  uc_content_hint :: content_hint
  uc_group_id :: "bytes option"

definition USMC_deserialize :: "'r env \<Rightarrow> ss_prims \<Rightarrow> bytes \<Rightarrow> (usmc, signal_error) result" where
  "USMC_deserialize E P data =
     bindR (ok_or InvalidProtobufEncoding (decode (usm_content_codec P) data)) (\<lambda>pb.
     bindR (ok_or InvalidProtobufEncoding
       (case umc_type pb of
          None \<Rightarrow> None
        | Some t \<Rightarrow> map_option CiphertextMessageType_from (proto_message_type_try_from t))) (\<lambda>msg_type.
     bindR (ok_or InvalidProtobufEncoding (umc_sender_certificate pb)) (\<lambda>sender_bytes.
     bindR (ok_or InvalidProtobufEncoding (umc_content pb)) (\<lambda>contents.
     let content_hint = (case umc_content_hint pb of None \<Rightarrow> HintDefault | Some raw \<Rightarrow> ContentHint_from raw) in
     bindR (SenderCertificate_deserialize E P sender_bytes) (\<lambda>sender.
     Ok \<lparr>uc_serialized = data, uc_contents = contents, uc_sender = sender, uc_msg_type = msg_type,
         uc_content_hint = content_hint, uc_group_id = umc_group_id pb\<rparr>)))))"

definition USMC_new ::
    "ss_prims \<Rightarrow> ciphertext_message_type \<Rightarrow> sender_certificate \<Rightarrow> bytes \<Rightarrow> content_hint \<Rightarrow> bytes option \<Rightarrow> usmc" where
  "USMC_new P msg_type sender contents content_hint group_id =
     (let msg = \<lparr>umc_type = Some (proto_message_type_value (ProtoMessageType_from msg_type)),
                 umc_sender_certificate = Some (sec_serialized sender),
                 umc_content = Some contents,
                 umc_content_hint = ContentHint_to_proto content_hint,
                 umc_group_id = (case group_id of None \<Rightarrow> None | Some buf \<Rightarrow> if buf = [] then None else Some buf)\<rparr>
      in \<lparr>uc_serialized = encode (usm_content_codec P) msg, uc_contents = contents, uc_sender = sender,
          uc_msg_type = msg_type, uc_content_hint = content_hint, uc_group_id = group_id\<rparr>)"

subsection \<open>\<open>UnidentifiedSenderMessage\<close>\<close>

definition MESSAGE_KEY_LEN :: nat where "MESSAGE_KEY_LEN = 32"
definition AUTH_TAG_LEN :: nat where "AUTH_TAG_LEN = 16"
definition PUBLIC_KEY_LEN :: nat where "PUBLIC_KEY_LEN = 32"
definition CIPHER_KEY_LEN :: nat where "CIPHER_KEY_LEN = 32"

definition SEALED_SENDER_V1_MAJOR_VERSION :: u8 where "SEALED_SENDER_V1_MAJOR_VERSION = 1"
definition SEALED_SENDER_V1_FULL_VERSION :: u8 where "SEALED_SENDER_V1_FULL_VERSION = 0x11"
definition SEALED_SENDER_V2_MAJOR_VERSION :: u8 where "SEALED_SENDER_V2_MAJOR_VERSION = 2"
definition SEALED_SENDER_V2_UUID_FULL_VERSION :: u8 where "SEALED_SENDER_V2_UUID_FULL_VERSION = 0x22"
definition SEALED_SENDER_V2_SERVICE_ID_FULL_VERSION :: u8 where "SEALED_SENDER_V2_SERVICE_ID_FULL_VERSION = 0x23"

datatype unidentified_sender_message =
    USM_V1 public_key bytes bytes \<comment> \<open>ephemeral public key, encrypted static key, encrypted message\<close>
  | USM_V2 public_key bytes bytes bytes \<comment> \<open>ephemeral public key, encrypted message key, tag, encrypted message\<close>

definition UnidentifiedSenderMessage_deserialize ::
    "ss_prims \<Rightarrow> bytes \<Rightarrow> (unidentified_sender_message, signal_error) result" where
  "UnidentifiedSenderMessage_deserialize P data =
     (case data of
        [] \<Rightarrow> Err (InvalidSealedSenderMessage ''Message was empty'')
      | first # remaining \<Rightarrow>
          let version = drop_bit 4 first in
          if version = 0 \<or> version = SEALED_SENDER_V1_MAJOR_VERSION then
            bindR (ok_or InvalidProtobufEncoding (decode (usm_codec P) remaining)) (\<lambda>pb.
            bindR (ok_or InvalidProtobufEncoding (usm_ephemeral_public pb)) (\<lambda>ephemeral_bytes.
            bindR (ok_or InvalidProtobufEncoding (usm_encrypted_static pb)) (\<lambda>encrypted_static.
            bindR (ok_or InvalidProtobufEncoding (usm_encrypted_message pb)) (\<lambda>encrypted_message.
            bindR (map_err from_curve_error (PublicKey_deserialize ephemeral_bytes)) (\<lambda>ephemeral_public.
            Ok (USM_V1 ephemeral_public encrypted_static encrypted_message))))))
          else if version = SEALED_SENDER_V2_MAJOR_VERSION then
            if length remaining < MESSAGE_KEY_LEN + AUTH_TAG_LEN + PUBLIC_KEY_LEN then Err InvalidProtobufEncoding
            else
              let encrypted_message_key = take MESSAGE_KEY_LEN remaining;
                  rest1 = drop MESSAGE_KEY_LEN remaining;
                  encrypted_authentication_tag = take AUTH_TAG_LEN rest1;
                  rest2 = drop AUTH_TAG_LEN rest1;
                  ephemeral_public = take PUBLIC_KEY_LEN rest2;
                  encrypted_message = drop PUBLIC_KEY_LEN rest2 in
              bindR (map_err from_curve_error (from_djb_public_key_bytes ephemeral_public)) (\<lambda>ephemeral.
              Ok (USM_V2 ephemeral encrypted_message_key encrypted_authentication_tag encrypted_message))
          else Err (UnknownSealedSenderVersion version))"

subsection \<open>\<open>sealed_sender_v1\<close>\<close>

definition SALT_PREFIX :: bytes where "SALT_PREFIX = ascii ''UnidentifiedDelivery''"

record ephemeral_keys =
  ek_chain_key :: bytes
  ek_cipher_key :: bytes
  ek_mac_key :: bytes

text \<open>\<open>impl From<IdentityKeyPair> for KeyPair\<close>\<close>

definition KeyPair_from_identity :: "identity_key_pair \<Rightarrow> key_pair" where
  "KeyPair_from_identity p = \<lparr>kp_public_key = id_identity_key p, kp_private_key = id_private_key p\<rparr>"

definition EphemeralKeys_calculate ::
    "'r env \<Rightarrow> key_pair \<Rightarrow> public_key \<Rightarrow> direction \<Rightarrow> ephemeral_keys" where
  "EphemeralKeys_calculate E our_keys their_public direction =
     (let our_pub_key = PublicKey_serialize (kp_public_key our_keys);
          their_pub_key = PublicKey_serialize their_public;
          ephemeral_salt = (case direction of
              Sending \<Rightarrow> SALT_PREFIX @ their_pub_key @ our_pub_key
            | Receiving \<Rightarrow> SALT_PREFIX @ our_pub_key @ their_pub_key);
          shared_secret = calculate_agreement E (kp_private_key our_keys) their_public;
          derived = hkdf_sha256 E (Some ephemeral_salt) shared_secret [] 96
      in \<lparr>ek_chain_key = take 32 derived, ek_cipher_key = take 32 (drop 32 derived), ek_mac_key = drop 64 derived\<rparr>)"

record static_keys =
  stk_cipher_key :: bytes
  stk_mac_key :: bytes

definition StaticKeys_calculate ::
    "'r env \<Rightarrow> identity_key_pair \<Rightarrow> public_key \<Rightarrow> bytes \<Rightarrow> bytes \<Rightarrow> static_keys" where
  "StaticKeys_calculate E our_keys their_key chain_key ctext =
     (let salt = chain_key @ ctext;
          shared_secret = calculate_agreement E (id_private_key our_keys) their_key;
          derived = hkdf_sha256 E (Some salt) shared_secret [] 96
      in \<lparr>stk_cipher_key = take 32 (drop 32 derived), stk_mac_key = drop 64 derived\<rparr>)"

definition sealed_sender_encrypt_from_usmc ::
    "'r env \<Rightarrow> ss_prims \<Rightarrow> protocol_address \<Rightarrow> usmc \<Rightarrow> 'r world \<Rightarrow> (bytes, signal_error) result \<times> 'r world" where
  "sealed_sender_encrypt_from_usmc E P destination u w =
     (let (s, r) = w;
          our_identity = get_identity_key_pair s in
      case get_identity destination s of
        None \<Rightarrow> (Err (SessionNotFound destination), (s, r))
      | Some their_identity \<Rightarrow>
          let (ephemeral, r1) = KeyPair_generate E r;
              eph_keys = EphemeralKeys_calculate E ephemeral their_identity Sending in
          (bindR (expect_ok (aes256_ctr_hmacsha256_encrypt E (PublicKey_serialize (id_identity_key our_identity))
                     (ek_cipher_key eph_keys) (ek_mac_key eph_keys))) (\<lambda>static_key_ctext.
           let static_keys = StaticKeys_calculate E our_identity their_identity (ek_chain_key eph_keys) static_key_ctext in
           bindR (expect_ok (aes256_ctr_hmacsha256_encrypt E (uc_serialized u)
                     (stk_cipher_key static_keys) (stk_mac_key static_keys))) (\<lambda>message_data.
           Ok (SEALED_SENDER_V1_FULL_VERSION # encode (usm_codec P)
                 \<lparr>usm_ephemeral_public = Some (PublicKey_serialize (kp_public_key ephemeral)),
                  usm_encrypted_static = Some static_key_ctext, usm_encrypted_message = Some message_data\<rparr>))),
           (s, r1)))"

definition sealed_sender_encrypt ::
    "'r env \<Rightarrow> ss_prims \<Rightarrow> protocol_address \<Rightarrow> sender_certificate \<Rightarrow> bytes \<Rightarrow> system_time \<Rightarrow> 'r world \<Rightarrow>
     (bytes, signal_error) result \<times> 'r world" where
  "sealed_sender_encrypt E P destination sender_cert ptext now w =
     bindS (message_encrypt E ptext destination now w) (\<lambda>message w1.
     sealed_sender_encrypt_from_usmc E P destination
       (USMC_new P (message_type message) sender_cert (CiphertextMessage_serialize message) HintDefault None) w1)"

end
