(* ===== verification/Sealed_Sender_V2.thy ===== *)
theory Sealed_Sender_V2
  imports Sealed_Sender
begin

text \<open>
  Sealed sender v2: one ciphertext for many recipients, with the message key encrypted and
  authenticated for each of them (\<open>sealed_sender_v2\<close>, \<open>sealed_sender_multi_recipient_encrypt\<close>), and
  the server's parser that fans the message out (\<open>SealedSenderV2SentMessage\<close>).
\<close>

subsection \<open>\<open>sealed_sender_v2\<close>\<close>

definition LABEL_R :: bytes where "LABEL_R = ascii ''Sealed Sender v2: r (2023-08)''"
definition LABEL_K :: bytes where "LABEL_K = ascii ''Sealed Sender v2: K''"
definition LABEL_DH :: bytes where "LABEL_DH = ascii ''Sealed Sender v2: DH''"
definition LABEL_DH_S :: bytes where "LABEL_DH_S = ascii ''Sealed Sender v2: DH-sender''"

text \<open>The extracted \<open>Hkdf\<close> object of \<open>DerivedKeys\<close> is represented by its input key material.\<close>

datatype derived_keys = DerivedKeys bytes

primrec derive_e :: "'r env \<Rightarrow> derived_keys \<Rightarrow> (key_pair, signal_error) result" where
  "derive_e E (DerivedKeys m) =
     bindR (expect_ok (PrivateKey_deserialize E (hkdf_sha256 E None m LABEL_R 32))) (\<lambda>e.
     Ok \<lparr>kp_public_key = PrivateKey_public_key E e, kp_private_key = e\<rparr>)"

primrec derive_k :: "'r env \<Rightarrow> derived_keys \<Rightarrow> bytes" where
  "derive_k E (DerivedKeys m) = hkdf_sha256 E None m LABEL_K CIPHER_KEY_LEN"

definition apply_agreement_xor :: "'r env \<Rightarrow> key_pair \<Rightarrow> public_key \<Rightarrow> direction \<Rightarrow> bytes \<Rightarrow> bytes" where
  "apply_agreement_xor E our_keys their_key direction input =
     (let agreement = calculate_agreement E (kp_private_key our_keys) their_key;
          agreement_key_input = (case direction of
              Sending \<Rightarrow> agreement @ PublicKey_serialize (kp_public_key our_keys) @ PublicKey_serialize their_key
            | Receiving \<Rightarrow> agreement @ PublicKey_serialize their_key @ PublicKey_serialize (kp_public_key our_keys));
          result = hkdf_sha256 E None agreement_key_input LABEL_DH MESSAGE_KEY_LEN
      in map2 (XOR) result input)"

definition compute_authentication_tag ::
    "'r env \<Rightarrow> identity_key_pair \<Rightarrow> identity_key \<Rightarrow> direction \<Rightarrow> public_key \<Rightarrow> bytes \<Rightarrow> bytes" where
  "compute_authentication_tag E our_keys their_key direction ephemeral_pub_key encrypted_message_key =
     (let agreement = calculate_agreement E (id_private_key our_keys) their_key;
          agreement_key_input = agreement @ PublicKey_serialize ephemeral_pub_key @ encrypted_message_key @
            (case direction of
               Sending \<Rightarrow> PublicKey_serialize (id_identity_key our_keys) @ IdentityKey_serialize their_key
             | Receiving \<Rightarrow> IdentityKey_serialize their_key @ PublicKey_serialize (id_identity_key our_keys))
      in hkdf_sha256 E None agreement_key_input LABEL_DH_S AUTH_TAG_LEN)"

subsection \<open>\<open>sealed_sender_multi_recipient_encrypt\<close>\<close>

definition VALID_REGISTRATION_ID_MASK :: u16 where "VALID_REGISTRATION_ID_MASK = 0x3FFF"

text \<open>\<open>chunk_by\<close> on the names: the first destination of each group and the range of the group.\<close>

function chunk_by_name :: "nat \<Rightarrow> protocol_address list \<Rightarrow> (protocol_address \<times> nat \<times> nat) list" where
  "chunk_by_name i [] = []"
| "chunk_by_name i (d # ds) =
     (let next_group = takeWhile (\<lambda>next. pa_name next = pa_name d) ds;
          count = 1 + length next_group
      in (d, i, i + count) # chunk_by_name (i + count) (drop (length next_group) ds))"
  by pat_completeness auto
termination
  by (relation "measure (\<lambda>(i, ds). length ds)") auto

fun fetch_identities ::
    "protocol_store \<Rightarrow> (protocol_address \<times> nat \<times> nat) list \<Rightarrow> ((identity_key \<times> nat \<times> nat) list, signal_error) result" where
  "fetch_identities s [] = Ok []"
| "fetch_identities s ((destination, start, stop) # groups) =
     bindR (ok_or (SessionNotFound destination) (get_identity destination s)) (\<lambda>their_identity.
     bindR (fetch_identities s groups) (\<lambda>rest. Ok ((their_identity, start, stop) # rest)))"

text \<open>The loop over the devices of one recipient.\<close>

fun serialize_devices ::
    "(protocol_address \<times> session_record) list \<Rightarrow> (bytes, signal_error) result" where
  "serialize_devices [] = Ok []"
| "serialize_devices ((destination, session) # rest) =
     bindR (map_err (\<lambda>_. InvalidState ''sealed_sender_multi_recipient_encrypt''
              (''cannot get registration ID from session with '' @ ProtocolAddress_display destination @
               '' (maybe it was recently archived)'')) (record_remote_registration_id session)) (\<lambda>their_registration_id.
     if their_registration_id AND ucast VALID_REGISTRATION_ID_MASK \<noteq> their_registration_id
     then Err (InvalidRegistrationId destination their_registration_id)
     else
       bindR (if unat their_registration_id < 2 ^ 16 then Ok (ucast their_registration_id :: u16) else Panic) (\<lambda>reg.
       let reg' = (if rest \<noteq> [] then reg OR 0x8000 else reg) in
       bindR (serialize_devices rest) (\<lambda>more.
       Ok (device_id_value (pa_device_id destination) # be_bytes 2 (unat reg') @ more))))"

text \<open>What one recipient's section needs of the caller: \<open>our_identity\<close>, \<open>e\<close> and \<open>m\<close>.\<close>

record ssv2_sender =
  v2_identity :: identity_key_pair
  v2_e :: key_pair
  v2_m :: bytes

definition serialize_recipient_destinations_into ::
    "'r env \<Rightarrow> ssv2_sender \<Rightarrow> bytes \<Rightarrow> protocol_address list \<Rightarrow> session_record list \<Rightarrow> identity_key \<Rightarrow>
     (bytes, signal_error) result" where
  "serialize_recipient_destinations_into E c serialized destinations sessions their_identity =
     (case destinations of
        [] \<Rightarrow> Panic
      | first # _ \<Rightarrow>
          bindR (ok_or (InvalidArgument (''multi-recipient sealed sender requires recipients' ServiceId (not '' @
                   pa_name first @ '')'')) (parse_from_service_id_string E (pa_name first))) (\<lambda>their_service_id.
          bindR (serialize_devices (zip destinations sessions)) (\<lambda>devices.
          let c_i = apply_agreement_xor E (v2_e c) their_identity Sending (v2_m c);
              at_i = compute_authentication_tag E (v2_identity c) their_identity Sending (kp_public_key (v2_e c)) c_i
          in Ok (serialized @ service_id_fixed_width_binary their_service_id @ devices @ c_i @ at_i))))"

fun process_chunk ::
    "'r env \<Rightarrow> ssv2_sender \<Rightarrow> protocol_address list \<Rightarrow> session_record list \<Rightarrow> bytes \<Rightarrow>
     (identity_key \<times> nat \<times> nat) list \<Rightarrow> (bytes, signal_error) result" where
  "process_chunk E c destinations sessions serialized [] = Ok serialized"
| "process_chunk E c destinations sessions serialized ((their_identity, start, stop) # rest) =
     bindR (slice_range destinations start stop) (\<lambda>these_destinations.
     bindR (slice_range sessions start stop) (\<lambda>these_sessions.
     bindR (serialize_recipient_destinations_into E c serialized these_destinations these_sessions their_identity) (\<lambda>serialized'.
     process_chunk E c destinations sessions serialized' rest)))"

text \<open>\<open>serialized.extend(output?)\<close> for the outputs of the spawned tasks, in order.\<close>

fun collect_outputs :: "bytes \<Rightarrow> (bytes, signal_error) result list \<Rightarrow> (bytes, signal_error) result" where
  "collect_outputs serialized [] = Ok serialized"
| "collect_outputs serialized (output # outputs) =
     bindR output (\<lambda>bs. collect_outputs (serialized @ bs) outputs)"

text \<open>
  \<open>rayon::scope\<close> returns when all tasks have ended; a panic of a task is a panic of the scope. The
  number of processors is an argument.
\<close>

definition process_recipients ::
    "'r env \<Rightarrow> nat \<Rightarrow> ssv2_sender \<Rightarrow> protocol_address list \<Rightarrow> session_record list \<Rightarrow> bytes \<Rightarrow>
     (identity_key \<times> nat \<times> nat) list \<Rightarrow> (bytes, signal_error) result" where
  "process_recipients E parallelism c destinations sessions serialized recipients =
     (let chunk_size = max 6 (div_ceil (length recipients) parallelism) in
      if parallelism = 1 \<or> chunk_size \<ge> length recipients
      then process_chunk E c destinations sessions serialized recipients
      else
        case slice_chunks chunk_size recipients of
          [] \<Rightarrow> Panic
        | first_chunk # chunks' \<Rightarrow>
            let all_outputs = map (process_chunk E c destinations sessions []) chunks' in
            if Panic \<in> set all_outputs then Panic
            else
              bindR (process_chunk E c destinations sessions serialized first_chunk) (\<lambda>serialized'.
              collect_outputs serialized' all_outputs))"

definition serialize_excluded :: "service_id list \<Rightarrow> bytes" where
  "serialize_excluded excluded = concat (map (\<lambda>x. service_id_fixed_width_binary x @ [0]) excluded)"

definition sealed_sender_multi_recipient_encrypt ::
    "'r env \<Rightarrow> ss_prims \<Rightarrow> nat \<Rightarrow> protocol_address list \<Rightarrow> session_record list \<Rightarrow> service_id list \<Rightarrow> usmc \<Rightarrow>
     'r world \<Rightarrow> (bytes, signal_error) result \<times> 'r world" where
  "sealed_sender_multi_recipient_encrypt E P parallelism destinations destination_sessions excluded_recipients u w =
     (let (s, r) = w in
      if length destinations \<noteq> length destination_sessions
      then (Err (InvalidArgument ''must have the same number of destination sessions as addresses''), w)
      else
        let our_identity = get_identity_key_pair s;
            (m, r1) = rng_random_bytes E MESSAGE_KEY_LEN r;
            keys = DerivedKeys m in
        (bindR (derive_e E keys) (\<lambda>e.
         bindR (expect_some (gcm_siv_encrypt P (derive_k E keys) (replicate 12 0) [] (uc_serialized u))) (\<lambda>(body, tag).
         let ciphertext = body @ tag in
         bindR (fetch_identities s (chunk_by_name 0 destinations)) (\<lambda>identity_keys_and_ranges.
         let count_of_recipients = length identity_keys_and_ranges + length excluded_recipients;
             serialized = SEALED_SENDER_V2_SERVICE_ID_FULL_VERSION # encode_length_delimiter P count_of_recipients in
         bindR (process_recipients E parallelism \<lparr>v2_identity = our_identity, v2_e = e, v2_m = m\<rparr>
                  destinations destination_sessions serialized identity_keys_and_ranges) (\<lambda>serialized'.
         Ok (serialized' @ serialize_excluded excluded_recipients @
             public_key_bytes (kp_public_key e) @ ciphertext))))), (s, r1)))"

subsection \<open>\<open>SealedSenderV2SentMessage\<close>\<close>

text \<open>A slice of the full message: where it starts and its bytes. The empty slice \<open>&[]\<close> starts nowhere.\<close>

record byte_slice =
  sl_start :: "nat option"
  sl_bytes :: bytes

record sent_recipient =
  srp_devices :: "(device_id \<times> u16) list"
  srp_c_and_at :: byte_slice

text \<open>The \<open>IndexMap\<close> of recipients is an association list in order of first insertion.\<close>

record sent_message =
  snm_full_message :: bytes
  snm_version :: u8
  snm_recipients :: "(service_id \<times> sent_recipient) list"
  snm_shared_bytes :: byte_slice

definition advance :: "nat \<Rightarrow> bytes \<Rightarrow> (bytes \<times> bytes, signal_error) result" where
  "advance n buf = (if length buf < n then Err InvalidProtobufEncoding else Ok (take n buf, drop n buf))"

definition decode_varint :: "ss_prims \<Rightarrow> bytes \<Rightarrow> (nat \<times> bytes, signal_error) result" where
  "decode_varint P buf =
     bindR (ok_or InvalidProtobufEncoding (decode_length_delimiter P buf)) (\<lambda>result.
     bindR (slice_range buf (length_delimiter_len P result) (length buf)) (\<lambda>buf'.
     if result < 2 ^ 32 then Ok (result, buf') else Err InvalidProtobufEncoding))"

function parse_devices ::
    "(device_id \<times> u16) list \<Rightarrow> bytes \<Rightarrow> ((device_id \<times> u16) list \<times> bytes, signal_error) result" where
  "parse_devices devices buf =
     bindR (advance 1 buf) (\<lambda>(b, buf1).
     let device_byte = b ! 0 in
     if device_byte = 0 then (if devices \<noteq> [] then Err InvalidProtobufEncoding else Ok (devices, buf1))
     else
       bindR (map_err (\<lambda>_. InvalidProtobufEncoding) (DeviceId_new device_byte)) (\<lambda>device_id.
       bindR (advance 2 buf1) (\<lambda>(rb, buf2).
       let registration_id_and_has_more = of_nat (be_nat rb) :: u16;
           devices' = devices @ [(device_id, registration_id_and_has_more AND VALID_REGISTRATION_ID_MASK)]
       in if registration_id_and_has_more AND 0x8000 \<noteq> 0 then parse_devices devices' buf2
          else Ok (devices', buf2))))"
  by pat_completeness auto
termination
  by (relation "measure (\<lambda>(devices, buf). length buf)") (auto simp: advance_def split: if_splits)

declare parse_devices.simps [simp del]

definition parse_service_id :: "u8 \<Rightarrow> bytes \<Rightarrow> (service_id \<times> bytes, signal_error) result" where
  "parse_service_id version buf =
     (if version = SEALED_SENDER_V2_UUID_FULL_VERSION
      then bindR (advance 16 buf) (\<lambda>(b, rest). Ok (Aci b, rest))
      else
        bindR (advance 17 buf) (\<lambda>(b, rest).
        bindR (ok_or InvalidProtobufEncoding (parse_from_service_id_fixed_width_binary b)) (\<lambda>i. Ok (i, rest))))"

text \<open>The entry of the map for a service id: extended when it exists, appended otherwise.\<close>

fun insert_recipient ::
    "service_id \<Rightarrow> sent_recipient \<Rightarrow> (service_id \<times> sent_recipient) list \<Rightarrow>
     ((service_id \<times> sent_recipient) list, signal_error) result" where
  "insert_recipient i new [] = Ok [(i, new)]"
| "insert_recipient i new ((j, existing) # rest) =
     (if i = j then
        if srp_devices existing = [] \<or> srp_devices new = []
        then Err (InvalidSealedSenderMessage ''recipient redundantly encoded as empty'')
        else Ok ((j, existing\<lparr>srp_devices := srp_devices existing @ srp_devices new\<rparr>) # rest)
      else bindR (insert_recipient i new rest) (\<lambda>rest'. Ok ((j, existing) # rest')))"

definition parse_recipient ::
    "nat \<Rightarrow> u8 \<Rightarrow> bytes \<Rightarrow> (service_id \<times> sent_recipient \<times> bytes, signal_error) result" where
  "parse_recipient full_len version buf =
     bindR (parse_service_id version buf) (\<lambda>(service_id, buf1).
     bindR (parse_devices [] buf1) (\<lambda>(devices, buf2).
     bindR (if devices = [] then Ok (\<lparr>sl_start = None, sl_bytes = []\<rparr>, buf2)
            else bindR (advance (MESSAGE_KEY_LEN + AUTH_TAG_LEN) buf2) (\<lambda>(b, buf3).
                 Ok (\<lparr>sl_start = Some (full_len - length buf2), sl_bytes = b\<rparr>, buf3))) (\<lambda>(c_and_at, buf3).
     Ok (service_id, \<lparr>srp_devices = devices, srp_c_and_at = c_and_at\<rparr>, buf3))))"

fun parse_recipients ::
    "nat \<Rightarrow> u8 \<Rightarrow> nat \<Rightarrow> (service_id \<times> sent_recipient) list \<Rightarrow> bytes \<Rightarrow>
     ((service_id \<times> sent_recipient) list \<times> bytes, signal_error) result" where
  "parse_recipients full_len version 0 recipients buf = Ok (recipients, buf)"
| "parse_recipients full_len version (Suc n) recipients buf =
     bindR (parse_recipient full_len version buf) (\<lambda>(service_id, recipient, buf1).
     bindR (insert_recipient service_id recipient recipients) (\<lambda>recipients'.
     parse_recipients full_len version n recipients' buf1))"

definition SentMessage_parse :: "ss_prims \<Rightarrow> bytes \<Rightarrow> (sent_message, signal_error) result" where
  "SentMessage_parse P data =
     (case data of
        [] \<Rightarrow> Err (InvalidSealedSenderMessage ''Message was empty'')
      | version # remaining \<Rightarrow>
          if version \<noteq> SEALED_SENDER_V2_UUID_FULL_VERSION \<and> version \<noteq> SEALED_SENDER_V2_SERVICE_ID_FULL_VERSION
          then Err (UnknownSealedSenderVersion version)
          else
            bindR (decode_varint P remaining) (\<lambda>(recipient_count, buf).
            bindR (parse_recipients (length data) version recipient_count [] buf) (\<lambda>(recipients, buf').
            if length buf' < PUBLIC_KEY_LEN then Err InvalidProtobufEncoding
            else Ok \<lparr>snm_full_message = data, snm_version = version, snm_recipients = recipients,
                     snm_shared_bytes = \<lparr>sl_start = Some (length data - length buf'), sl_bytes = buf'\<rparr>\<rparr>)))"

definition received_message_parts_for_recipient :: "sent_message \<Rightarrow> sent_recipient \<Rightarrow> bytes list" where
  "received_message_parts_for_recipient m recipient =
     [[SEALED_SENDER_V2_UUID_FULL_VERSION], sl_bytes (srp_c_and_at recipient), sl_bytes (snm_shared_bytes m)]"

definition offset_within_full_message :: "sent_message \<Rightarrow> byte_slice \<Rightarrow> nat option" where
  "offset_within_full_message m sl =
     (case sl_start sl of
        None \<Rightarrow> None
      | Some offset \<Rightarrow> if offset \<le> length (snm_full_message m) then Some offset else None)"

definition range_for_recipient_key_material ::
    "sent_message \<Rightarrow> sent_recipient \<Rightarrow> (nat \<times> nat, signal_error) result" where
  "range_for_recipient_key_material m recipient =
     (if sl_bytes (srp_c_and_at recipient) = [] then Ok (0, 0)
      else
        bindR (expect_some (offset_within_full_message m (srp_c_and_at recipient))) (\<lambda>offset.
        let end_offset = offset + length (sl_bytes (srp_c_and_at recipient)) in
        bindR (assertR (end_offset \<le> length (snm_full_message m))) (\<lambda>_. Ok (offset, end_offset))))"

definition offset_of_shared_bytes :: "sent_message \<Rightarrow> (nat, signal_error) result" where
  "offset_of_shared_bytes m = expect_some (offset_within_full_message m (snm_shared_bytes m))"

end
