(* ===== verification/Sealed_Sender_Decrypt.thy ===== *)
theory Sealed_Sender_Decrypt
  imports Sealed_Sender_V2
begin

text \<open>
  The receiving side of \<open>rust/protocol/src/sealed_sender.rs\<close>: \<open>sealed_sender_decrypt_to_usmc\<close> and
  \<open>sealed_sender_decrypt\<close>. The operating system's generator, which \<open>sealed_sender_decrypt\<close> uses,
  is the generator of the world.
\<close>

text \<open>A decryption under keys just derived: a bad key is unreachable, a bad ciphertext is reported.\<close>

definition decrypt_with_derived_keys ::
    "'r env \<Rightarrow> string \<Rightarrow> bytes \<Rightarrow> bytes \<Rightarrow> bytes \<Rightarrow> (bytes, signal_error) result" where
  "decrypt_with_derived_keys E msg ctext cipher_key mac_key =
     (case aes256_ctr_hmacsha256_decrypt E ctext cipher_key mac_key of
        Ok plaintext \<Rightarrow> Ok plaintext
      | Err BadKeyOrIv \<Rightarrow> Panic
      | Err (BadCiphertext _) \<Rightarrow> Err (InvalidSealedSenderMessage msg)
      | Panic \<Rightarrow> Panic)"

definition decrypt_v1 ::
    "'r env \<Rightarrow> ss_prims \<Rightarrow> identity_key_pair \<Rightarrow> public_key \<Rightarrow> bytes \<Rightarrow> bytes \<Rightarrow> (usmc, signal_error) result" where
  "decrypt_v1 E P our_identity ephemeral_public encrypted_static encrypted_message =
     (let eph_keys = EphemeralKeys_calculate E (KeyPair_from_identity our_identity) ephemeral_public Receiving in
      bindR (decrypt_with_derived_keys E ''failed to decrypt sealed sender v1 message key'' encrypted_static
               (ek_cipher_key eph_keys) (ek_mac_key eph_keys)) (\<lambda>message_key_bytes.
      bindR (map_err from_curve_error (PublicKey_deserialize message_key_bytes)) (\<lambda>static_key.
      let static_keys = StaticKeys_calculate E our_identity static_key (ek_chain_key eph_keys) encrypted_static in
      bindR (decrypt_with_derived_keys E ''failed to decrypt sealed sender v1 message contents'' encrypted_message
               (stk_cipher_key static_keys) (stk_mac_key static_keys)) (\<lambda>message_bytes.
      bindR (USMC_deserialize E P message_bytes) (\<lambda>u.
      if message_key_bytes \<noteq> PublicKey_serialize (sec_key (uc_sender u))
      then Err (InvalidSealedSenderMessage ''sender certificate key does not match message key'')
      else Ok u)))))"

definition decrypt_v2 ::
    "'r env \<Rightarrow> ss_prims \<Rightarrow> identity_key_pair \<Rightarrow> public_key \<Rightarrow> bytes \<Rightarrow> bytes \<Rightarrow> bytes \<Rightarrow> (usmc, signal_error) result" where
  "decrypt_v2 E P our_identity ephemeral_public encrypted_message_key authentication_tag encrypted_message =
     (let m = apply_agreement_xor E (KeyPair_from_identity our_identity) ephemeral_public Receiving encrypted_message_key;
          keys = DerivedKeys m in
      bindR (derive_e E keys) (\<lambda>e.
      if kp_public_key e \<noteq> ephemeral_public
      then Err (InvalidSealedSenderMessage ''derived ephemeral key did not match key provided in message'')
      else
        bindR (ok_or (InvalidSealedSenderMessage (''failed to decrypt inner message: '' @ aead_error_display P))
                 (gcm_siv_decrypt P (derive_k E keys) (replicate 12 0) [] encrypted_message)) (\<lambda>message_bytes.
        bindR (USMC_deserialize E P message_bytes) (\<lambda>u.
        let at = compute_authentication_tag E our_identity (sec_key (uc_sender u)) Receiving ephemeral_public
                   encrypted_message_key in
        if authentication_tag \<noteq> at
        then Err (InvalidSealedSenderMessage ''sender certificate key does not match authentication tag'')
        else Ok u))))"

definition sealed_sender_decrypt_to_usmc ::
    "'r env \<Rightarrow> ss_prims \<Rightarrow> bytes \<Rightarrow> protocol_store \<Rightarrow> (usmc, signal_error) result" where
  "sealed_sender_decrypt_to_usmc E P ciphertext s =
     (let our_identity = get_identity_key_pair s in
      bindR (UnidentifiedSenderMessage_deserialize P ciphertext) (\<lambda>m. case m of
        USM_V1 ephemeral_public encrypted_static encrypted_message \<Rightarrow>
          decrypt_v1 E P our_identity ephemeral_public encrypted_static encrypted_message
      | USM_V2 ephemeral_public encrypted_message_key authentication_tag encrypted_message \<Rightarrow>
          decrypt_v2 E P our_identity ephemeral_public encrypted_message_key authentication_tag encrypted_message))"

record sealed_sender_decryption_result =
  sdr_sender_uuid :: string
  sdr_sender_e164 :: "string option"
  sdr_device_id :: device_id
  sdr_message :: bytes

definition is_self_send :: "sender_certificate \<Rightarrow> string option \<Rightarrow> string \<Rightarrow> device_id \<Rightarrow> bool" where
  "is_self_send sender local_e164 local_uuid local_device_id =
     (let is_local_uuid = (local_uuid = sec_sender_uuid sender);
          is_local_e164 = (case (local_e164, sec_sender_e164 sender) of (Some l, Some s) \<Rightarrow> l = s | _ \<Rightarrow> False)
      in (is_local_e164 \<or> is_local_uuid) \<and> sec_sender_device_id sender = local_device_id)"

definition sealed_sender_decrypt ::
    "'r env \<Rightarrow> ss_prims \<Rightarrow> bytes \<Rightarrow> public_key \<Rightarrow> timestamp \<Rightarrow> string option \<Rightarrow> string \<Rightarrow> device_id \<Rightarrow>
     'r world \<Rightarrow> (sealed_sender_decryption_result, signal_error) result \<times> 'r world" where
  "sealed_sender_decrypt E P ciphertext trust_root ts local_e164 local_uuid local_device_id w =
     (case bindR (sealed_sender_decrypt_to_usmc E P ciphertext (fst w)) (\<lambda>u.
            bindR (SenderCertificate_validate E P (uc_sender u) trust_root ts) (\<lambda>valid.
            if \<not> valid then Err (InvalidSealedSenderMessage ''trust root validation failed'')
            else if is_self_send (uc_sender u) local_e164 local_uuid local_device_id then Err SealedSenderSelfSend
            else Ok u)) of
        Err e \<Rightarrow> (Err e, w)
      | Panic \<Rightarrow> (Panic, w)
      | Ok u \<Rightarrow>
          let remote_address = ProtocolAddress_new (sec_sender_uuid (uc_sender u)) (sec_sender_device_id (uc_sender u)) in
          bindS (case uc_msg_type u of
                   Whisper \<Rightarrow> bindS (SignalMessage_try_from E (uc_contents u), w) (\<lambda>ctext w1.
                     message_decrypt_signal E ctext remote_address w1)
                 | PreKey \<Rightarrow> bindS (PreKeySignalMessage_try_from E (uc_contents u), w) (\<lambda>ctext w1.
                     message_decrypt_prekey E ctext remote_address w1)
                 | t \<Rightarrow> (Err (InvalidMessage t ''unexpected message type for sealed_sender_decrypt''), w)) (\<lambda>message w1.
          (Ok \<lparr>sdr_sender_uuid = sec_sender_uuid (uc_sender u), sdr_sender_e164 = sec_sender_e164 (uc_sender u),
               sdr_device_id = sec_sender_device_id (uc_sender u), sdr_message = message\<rparr>, w1)))"

end
