(* ===== verification/Sealed_Sender_Correctness.thy ===== *)
theory Sealed_Sender_Correctness
  imports Sealed_Sender_Decrypt
begin

text \<open>
  Sealed sender v1 and the entry point for decryption: both parties derive the same keys, a sealed
  content opens to itself, and a message is handed to the session only when its certificate chain is
  valid and its key is the one the message was sealed with.
\<close>

subsection \<open>Contents\<close>

definition usmc_ok :: "'r env \<Rightarrow> ss_prims \<Rightarrow> usmc \<Rightarrow> bool" where
  "usmc_ok E P u \<longleftrightarrow> USMC_deserialize E P (uc_serialized u) = Ok u"

lemma proto_message_type_roundtrip:
  "map_option CiphertextMessageType_from (proto_message_type_try_from
     (proto_message_type_value (ProtoMessageType_from t))) = Some t"
  by (cases t) (simp_all add: proto_message_type_try_from_def)

lemma content_hint_roundtrip:
  assumes "ContentHint_from (ContentHint_to_u32 h) = h"
  shows "(case ContentHint_to_proto h of None \<Rightarrow> HintDefault | Some raw \<Rightarrow> ContentHint_from raw) = h"
  using assms by (simp add: ContentHint_to_proto_def)

lemma USMC_new_ok:
  assumes "ss_codecs_ok P" "sender_certificate_ok E P sender" "g \<noteq> Some []"
    "ContentHint_from (ContentHint_to_u32 h) = h"
  shows "usmc_ok E P (USMC_new P t sender contents h g)"
proof -
  have g: "(case g of None \<Rightarrow> None | Some buf \<Rightarrow> if buf = [] then None else Some buf) = g"
    using assms(3) by (auto split: option.splits)
  show ?thesis
    using assms(1) sender_certificate_serde.de_ser [OF assms(2)] content_hint_roundtrip [OF assms(4)]
    by (simp add: usmc_ok_def USMC_new_def USMC_deserialize_def Let_def g proto_message_type_roundtrip)
qed

interpretation usmc_serde: serde uc_serialized "USMC_deserialize E P" "usmc_ok E P" for E P
  by unfold_locales (simp add: usmc_ok_def)

subsection \<open>The two parties of v1 derive the same keys\<close>

definition identity_consistent :: "'r env \<Rightarrow> identity_key_pair \<Rightarrow> bool" where
  "identity_consistent E p \<longleftrightarrow> id_identity_key p = PrivateKey_public_key E (id_private_key p)"

lemma EphemeralKeys_agree:
  assumes "dh_ok E" "key_pair_ok E e" "identity_consistent E b"
  shows "EphemeralKeys_calculate E (KeyPair_from_identity b) (kp_public_key e) Receiving =
    EphemeralKeys_calculate E e (id_identity_key b) Sending"
  using assms calculate_agreement_commute [OF assms(1), of "id_private_key b" "kp_private_key e"]
  by (simp add: EphemeralKeys_calculate_def KeyPair_from_identity_def key_pair_ok_def identity_consistent_def)

lemma StaticKeys_agree:
  assumes "dh_ok E" "identity_consistent E a" "identity_consistent E b"
  shows "StaticKeys_calculate E b (id_identity_key a) ck ct = StaticKeys_calculate E a (id_identity_key b) ck ct"
  using assms calculate_agreement_commute [OF assms(1), of "id_private_key b" "id_private_key a"]
  by (simp add: StaticKeys_calculate_def identity_consistent_def)

lemma derived_key_lengths:
  assumes "hash_lengths E"
  shows "length (ek_cipher_key (EphemeralKeys_calculate E k pk d)) = 32"
    "length (stk_cipher_key (StaticKeys_calculate E i pk' ck ct)) = 32"
  using assms by (simp_all add: EphemeralKeys_calculate_def StaticKeys_calculate_def Let_def hash_lengths_def)

lemma identity_public_ok: "curve_lengths E \<Longrightarrow> identity_consistent E p \<Longrightarrow> public_key_ok (id_identity_key p)"
  by (simp add: identity_consistent_def PrivateKey_public_key_def public_key_ok_def curve_lengths_def)

lemma decrypt_with_derived_keys_Ok:
  "aes256_ctr_hmacsha256_decrypt E c ck mk = Ok p \<Longrightarrow> decrypt_with_derived_keys E msg c ck mk = Ok p"
  by (simp add: decrypt_with_derived_keys_def)

text \<open>What \<open>sealed_sender_encrypt_from_usmc\<close> seals, the recipient opens to the same content.\<close>

lemma sealed_v1_roundtrip:
  assumes laws: "hash_lengths E" "keystream_length E" "curve_lengths E" "rng_length E" "dh_ok E" "ss_codecs_ok P"
    and alice: "identity_consistent E (get_identity_key_pair sA)" "usmc_ok E P u"
      "sec_key (uc_sender u) = id_identity_key (get_identity_key_pair sA)"
    and bob: "identity_consistent E (get_identity_key_pair sB)"
      "get_identity b sA = Some (id_identity_key (get_identity_key_pair sB))"
  shows "\<exists>bs. sealed_sender_encrypt_from_usmc E P b u (sA, r) = (Ok bs, (sA, snd (KeyPair_generate E r))) \<and>
    sealed_sender_decrypt_to_usmc E P bs sB = Ok u"
proof -
  let ?a = "get_identity_key_pair sA" and ?b = "get_identity_key_pair sB"
  obtain e r1 where e: "KeyPair_generate E r = (e, r1)" by (cases "KeyPair_generate E r")
  have e_ok: "key_pair_ok E e" "public_key_ok (kp_public_key e)"
    using KeyPair_generate_key_pair_ok [OF laws(5), of r] KeyPair_generate_ok(1) [OF laws(3,4), of r] e by simp_all
  let ?ek = "EphemeralKeys_calculate E e (id_identity_key ?b) Sending"
  obtain sct where sct:
      "aes256_ctr_hmacsha256_encrypt E (PublicKey_serialize (id_identity_key ?a)) (ek_cipher_key ?ek) (ek_mac_key ?ek) = Ok sct"
      "aes256_ctr_hmacsha256_decrypt E sct (ek_cipher_key ?ek) (ek_mac_key ?ek) = Ok (PublicKey_serialize (id_identity_key ?a))"
    using ctr_hmac_roundtrip [OF laws(1,2) derived_key_lengths(1) [OF laws(1)]] by blast
  let ?sk = "StaticKeys_calculate E ?a (id_identity_key ?b) (ek_chain_key ?ek) sct"
  obtain md where md:
      "aes256_ctr_hmacsha256_encrypt E (uc_serialized u) (stk_cipher_key ?sk) (stk_mac_key ?sk) = Ok md"
      "aes256_ctr_hmacsha256_decrypt E md (stk_cipher_key ?sk) (stk_mac_key ?sk) = Ok (uc_serialized u)"
    using ctr_hmac_roundtrip [OF laws(1,2) derived_key_lengths(2) [OF laws(1)]] by blast
  let ?bs = "SEALED_SENDER_V1_FULL_VERSION # encode (usm_codec P)
     \<lparr>usm_ephemeral_public = Some (PublicKey_serialize (kp_public_key e)), usm_encrypted_static = Some sct,
      usm_encrypted_message = Some md\<rparr>"
  have v: "drop_bit 4 SEALED_SENDER_V1_FULL_VERSION = SEALED_SENDER_V1_MAJOR_VERSION"
    by (simp add: SEALED_SENDER_V1_FULL_VERSION_def SEALED_SENDER_V1_MAJOR_VERSION_def)
  have enc: "sealed_sender_encrypt_from_usmc E P b u (sA, r) = (Ok ?bs, (sA, snd (KeyPair_generate E r)))"
    using sct(1) md(1) bob(2) by (simp add: sealed_sender_encrypt_from_usmc_def e Let_def)
  have parsed: "UnidentifiedSenderMessage_deserialize P ?bs = Ok (USM_V1 (kp_public_key e) sct md)"
    using laws(6) e_ok(2) by (simp add: UnidentifiedSenderMessage_deserialize_def v public_key_serde.de_ser)
  have ak: "public_key_ok (id_identity_key ?a)" using identity_public_ok [OF laws(3) alice(1)] .
  have "decrypt_v1 E P ?b (kp_public_key e) sct md = Ok u"
    using EphemeralKeys_agree [OF laws(5) e_ok(1) bob(1)] StaticKeys_agree [OF laws(5) alice(1) bob(1)]
      decrypt_with_derived_keys_Ok [OF sct(2)] decrypt_with_derived_keys_Ok [OF md(2)]
      usmc_serde.de_ser [OF alice(2)] alice(3) ak
    by (simp add: decrypt_v1_def Let_def public_key_serde.de_ser)
  then show ?thesis using enc parsed by (simp add: sealed_sender_decrypt_to_usmc_def)
qed

subsection \<open>What an accepted message proves\<close>

text \<open>
  The sender named in the certificate holds the key that the message was sealed with: in v1 the static
  key inside the message is the certificate's, in v2 the authentication tag was computed with it.
\<close>

definition sealed_with_key :: "'r env \<Rightarrow> identity_key_pair \<Rightarrow> public_key \<Rightarrow> unidentified_sender_message \<Rightarrow> bool" where
  "sealed_with_key E our_identity k m =
     (case m of
        USM_V1 ephemeral_public encrypted_static encrypted_message \<Rightarrow>
          let eph = EphemeralKeys_calculate E (KeyPair_from_identity our_identity) ephemeral_public Receiving;
              st = StaticKeys_calculate E our_identity k (ek_chain_key eph) encrypted_static
          in aes256_ctr_hmacsha256_decrypt E encrypted_static (ek_cipher_key eph) (ek_mac_key eph) = Ok (PublicKey_serialize k) \<and>
             is_ok (aes256_ctr_hmacsha256_decrypt E encrypted_message (stk_cipher_key st) (stk_mac_key st))
      | USM_V2 ephemeral_public encrypted_message_key authentication_tag encrypted_message \<Rightarrow>
          authentication_tag =
            compute_authentication_tag E our_identity k Receiving ephemeral_public encrypted_message_key)"

lemma decrypt_with_derived_keys_eq_Ok:
  "decrypt_with_derived_keys E msg c ck mk = Ok p \<longleftrightarrow> aes256_ctr_hmacsha256_decrypt E c ck mk = Ok p"
  by (auto simp: decrypt_with_derived_keys_def split: result.splits decryption_error.splits)

lemma USMC_sender_key_ok: "USMC_deserialize E P bs = Ok u \<Longrightarrow> public_key_ok (sec_key (uc_sender u))"
  by (auto simp: USMC_deserialize_def SenderCertificate_deserialize_def result_simps Let_def
      intro: PublicKey_deserialize_ok)

lemma decrypt_v1_sender:
  assumes "decrypt_v1 E P i ek es em = Ok u"
  shows "sealed_with_key E i (sec_key (uc_sender u)) (USM_V1 ek es em)"
proof -
  let ?eph = "EphemeralKeys_calculate E (KeyPair_from_identity i) ek Receiving"
  obtain kb k p where p: "aes256_ctr_hmacsha256_decrypt E es (ek_cipher_key ?eph) (ek_mac_key ?eph) = Ok kb"
      "PublicKey_deserialize kb = Ok k"
      "aes256_ctr_hmacsha256_decrypt E em (stk_cipher_key (StaticKeys_calculate E i k (ek_chain_key ?eph) es))
         (stk_mac_key (StaticKeys_calculate E i k (ek_chain_key ?eph) es)) = Ok p"
      "USMC_deserialize E P p = Ok u" "kb = PublicKey_serialize (sec_key (uc_sender u))"
    using assms by (auto simp: decrypt_v1_def decrypt_with_derived_keys_eq_Ok result_simps Let_def split: if_splits)
  have "k = sec_key (uc_sender u)"
    using p(2) public_key_serde.de_ser [OF USMC_sender_key_ok [OF p(4)]] by (simp add: p(5))
  then show ?thesis using p(1,3,5) by (simp add: sealed_with_key_def Let_def)
qed

lemma decrypt_v2_sender:
  assumes "decrypt_v2 E P i ek emk tag em = Ok u"
  shows "sealed_with_key E i (sec_key (uc_sender u)) (USM_V2 ek emk tag em)"
  using assms by (auto simp: decrypt_v2_def sealed_with_key_def result_simps Let_def split: if_splits)

lemma decrypt_to_usmc_sender:
  assumes "sealed_sender_decrypt_to_usmc E P ct s = Ok u"
  obtains m where "UnidentifiedSenderMessage_deserialize P ct = Ok m"
    "sealed_with_key E (get_identity_key_pair s) (sec_key (uc_sender u)) m"
proof -
  obtain m where m: "UnidentifiedSenderMessage_deserialize P ct = Ok m"
      "(case m of
          USM_V1 ek es em \<Rightarrow> decrypt_v1 E P (get_identity_key_pair s) ek es em
        | USM_V2 ek emk tag em \<Rightarrow> decrypt_v2 E P (get_identity_key_pair s) ek emk tag em) = Ok u"
    using assms unfolding sealed_sender_decrypt_to_usmc_def Let_def bindR_eq_Ok by blast
  then show thesis
    using that by (cases m) (auto dest: decrypt_v1_sender decrypt_v2_sender)
qed

lemma sealed_sender_decrypt_cases:
  assumes "sealed_sender_decrypt E P ct root t e164 uuid dev w = (Ok res, w')"
  obtains u where "sealed_sender_decrypt_to_usmc E P ct (fst w) = Ok u"
    "SenderCertificate_validate E P (uc_sender u) root t = Ok True"
    "\<not> is_self_send (uc_sender u) e164 uuid dev"
    "sdr_sender_uuid res = sec_sender_uuid (uc_sender u)" "sdr_device_id res = sec_sender_device_id (uc_sender u)"
    "sdr_sender_e164 res = sec_sender_e164 (uc_sender u)"
    "(\<exists>m. uc_msg_type u = Whisper \<and> SignalMessage_try_from E (uc_contents u) = Ok m \<and>
        message_decrypt_signal E m (ProtocolAddress_new (sdr_sender_uuid res) (sdr_device_id res)) w = (Ok (sdr_message res), w')) \<or>
     (\<exists>m. uc_msg_type u = PreKey \<and> PreKeySignalMessage_try_from E (uc_contents u) = Ok m \<and>
        message_decrypt_prekey E m (ProtocolAddress_new (sdr_sender_uuid res) (sdr_device_id res)) w = (Ok (sdr_message res), w'))"
proof -
  obtain u where u: "sealed_sender_decrypt_to_usmc E P ct (fst w) = Ok u"
      "SenderCertificate_validate E P (uc_sender u) root t = Ok True"
      "\<not> is_self_send (uc_sender u) e164 uuid dev"
    using assms by (auto simp: sealed_sender_decrypt_def result_simps split: result.splits if_splits)
  let ?a = "ProtocolAddress_new (sec_sender_uuid (uc_sender u)) (sec_sender_device_id (uc_sender u))"
  have step: "bindS (case uc_msg_type u of
        Whisper \<Rightarrow> bindS (SignalMessage_try_from E (uc_contents u), w) (\<lambda>c w1. message_decrypt_signal E c ?a w1)
      | PreKey \<Rightarrow> bindS (PreKeySignalMessage_try_from E (uc_contents u), w) (\<lambda>c w1. message_decrypt_prekey E c ?a w1)
      | ty \<Rightarrow> (Err (InvalidMessage ty ''unexpected message type for sealed_sender_decrypt''), w))
      (\<lambda>message w1. (Ok \<lparr>sdr_sender_uuid = sec_sender_uuid (uc_sender u), sdr_sender_e164 = sec_sender_e164 (uc_sender u),
               sdr_device_id = sec_sender_device_id (uc_sender u), sdr_message = message\<rparr>, w1)) = (Ok res, w')"
    using assms u by (simp add: sealed_sender_decrypt_def Let_def)
  show ?thesis
  proof (rule that [OF u])
    show "sdr_sender_uuid res = sec_sender_uuid (uc_sender u)" "sdr_device_id res = sec_sender_device_id (uc_sender u)"
      "sdr_sender_e164 res = sec_sender_e164 (uc_sender u)"
      using step by (auto simp: bindS_eq_Ok)
  next
    show "(\<exists>m. uc_msg_type u = Whisper \<and> SignalMessage_try_from E (uc_contents u) = Ok m \<and>
        message_decrypt_signal E m (ProtocolAddress_new (sdr_sender_uuid res) (sdr_device_id res)) w = (Ok (sdr_message res), w')) \<or>
     (\<exists>m. uc_msg_type u = PreKey \<and> PreKeySignalMessage_try_from E (uc_contents u) = Ok m \<and>
        message_decrypt_prekey E m (ProtocolAddress_new (sdr_sender_uuid res) (sdr_device_id res)) w = (Ok (sdr_message res), w'))"
      using step by (cases "uc_msg_type u") (auto simp: bindS_eq_Ok)
  qed
qed

text \<open>A message that is not from a valid sender changes nothing, whatever is inside.\<close>

lemma sealed_sender_decrypt_invalid:
  assumes "\<forall>u. sealed_sender_decrypt_to_usmc E P ct (fst w) = Ok u \<longrightarrow>
      SenderCertificate_validate E P (uc_sender u) root t \<noteq> Ok True \<or> is_self_send (uc_sender u) e164 uuid dev"
  shows "\<not> is_ok (fst (sealed_sender_decrypt E P ct root t e164 uuid dev w)) \<and>
    snd (sealed_sender_decrypt E P ct root t e164 uuid dev w) = w"
proof -
  have "bindR (sealed_sender_decrypt_to_usmc E P ct (fst w)) (\<lambda>u.
      bindR (SenderCertificate_validate E P (uc_sender u) root t) (\<lambda>valid.
      if \<not> valid then Err (InvalidSealedSenderMessage ''trust root validation failed'')
      else if is_self_send (uc_sender u) e164 uuid dev then Err SealedSenderSelfSend else Ok u)) \<noteq> Ok u" for u
    using assms by (auto simp: result_simps split: if_splits)
  then show ?thesis unfolding sealed_sender_decrypt_def by (auto split: result.splits)
qed

end
