(* ===== verification/Sealed_V2_Correctness.thy ===== *)
theory Sealed_V2_Correctness
  imports Sealed_Sender_Correctness
begin

text \<open>
  Sealed sender v2 from the sender over the server to each recipient: the parallel fan-out writes what
  a sequential loop would write, the server's parser recovers the recipients and their devices, and
  what it hands to a recipient opens to the sealed content.
\<close>

subsection \<open>The fan-out\<close>

lemma process_chunk_append:
  "process_chunk E c ds ss x (as @ bs) = bindR (process_chunk E c ds ss x as) (\<lambda>y. process_chunk E c ds ss y bs)"
  by (induction as arbitrary: x) (auto simp: bindR_assoc)

lemma mapR_bindR: "mapR g (bindR m f) = bindR m (\<lambda>y. mapR g (f y))"
  by (cases m) simp_all

lemma serialize_recipient_prefix:
  "serialize_recipient_destinations_into E c x ds ss k =
     mapR ((@) x) (serialize_recipient_destinations_into E c [] ds ss k)"
  by (cases ds) (simp_all add: serialize_recipient_destinations_into_def Let_def mapR_bindR)

lemma process_chunk_prefix: "process_chunk E c ds ss (x @ y) as = mapR ((@) x) (process_chunk E c ds ss y as)"
proof (induction as arbitrary: x y)
  case (Cons a as)
  obtain k i j where a: "a = (k, i, j)" by (cases a)
  have "bindR (serialize_recipient_destinations_into E c (x @ y) these these_s k) (\<lambda>z. process_chunk E c ds ss z as) =
      mapR ((@) x) (bindR (serialize_recipient_destinations_into E c y these these_s k) (\<lambda>z. process_chunk E c ds ss z as))"
    for these these_s
    using Cons.IH
    by (cases "serialize_recipient_destinations_into E c [] these these_s k")
      (simp_all add: serialize_recipient_prefix [of E c "x @ y"] serialize_recipient_prefix [of E c y])
  then show ?case by (simp add: a mapR_bindR)
qed simp

lemma collect_outputs_chunks:
  "collect_outputs x (map (process_chunk E c ds ss []) cs) = process_chunk E c ds ss x (concat cs)"
proof (induction cs arbitrary: x)
  case (Cons a cs)
  have "process_chunk E c ds ss x a = mapR ((@) x) (process_chunk E c ds ss [] a)"
    using process_chunk_prefix [of E c ds ss x "[]" a] by simp
  then show ?case
    by (cases "process_chunk E c ds ss [] a") (simp_all add: process_chunk_append Cons.IH)
qed simp

text \<open>No section panics: the ranges lie within both lists, and a checked registration id fits 16 bits.\<close>

lemma masked_registration_id:
  assumes "n AND ucast VALID_REGISTRATION_ID_MASK = (n :: u32)"
  shows "unat n < 2 ^ 16"
proof -
  have "n \<le> ucast VALID_REGISTRATION_ID_MASK" using assms word_and_le1 by metis
  then have "unat n \<le> unat (ucast VALID_REGISTRATION_ID_MASK :: u32)" by (simp add: word_le_nat_alt)
  then show ?thesis by (simp add: VALID_REGISTRATION_ID_MASK_def)
qed

lemma serialize_devices_no_panic: "serialize_devices ds \<noteq> Panic"
proof (induction ds)
  case (Cons d ds)
  then show ?case
    by (cases d) (auto simp: result_simps record_remote_registration_id_def current_or_invalid_def Let_def
        dest: masked_registration_id split: if_splits)
qed simp

lemma process_chunk_no_panic:
  assumes "\<forall>(k, i, j) \<in> set rs. i < j \<and> j \<le> length ds" "length ss = length ds"
  shows "process_chunk E c ds ss x rs \<noteq> Panic"
  using assms(1)
proof (induction rs arbitrary: x)
  case (Cons a rs)
  obtain k i j where a: "a = (k, i, j)" by (cases a)
  obtain d ds' where d: "take (j - i) (drop i ds) = d # ds'"
    using Cons.prems a by (cases "take (j - i) (drop i ds)") auto
  have "serialize_recipient_destinations_into E c y (d # ds') ss' k \<noteq> Panic" for y ss'
    by (simp add: serialize_recipient_destinations_into_def result_simps serialize_devices_no_panic Let_def)
  then show ?case using Cons a d assms(2) by (simp add: slice_range_def result_simps)
qed simp

text \<open>Splitting the recipients over threads changes neither the bytes nor the error.\<close>

lemma process_recipients_sequential:
  assumes "\<forall>(k, i, j) \<in> set rs. i < j \<and> j \<le> length ds" "length ss = length ds"
  shows "process_recipients E n c ds ss x rs = process_chunk E c ds ss x rs"
proof -
  define k where "k = max 6 (div_ceil (length rs) n)"
  have k: "0 < k" by (simp add: k_def)
  consider "n = 1 \<or> k \<ge> length rs" | "n \<noteq> 1" "k < length rs" by linarith
  then show ?thesis
  proof cases
    case 1
    then show ?thesis by (auto simp: process_recipients_def k_def Let_def)
  next
    case 2
    then have "rs \<noteq> []" by auto
    then obtain f cs where cs: "slice_chunks k rs = f # cs"
      using k by (cases "slice_chunks k rs") (auto simp: slice_chunks.simps [of k rs])
    then have rs: "rs = f @ concat cs" using concat_slice_chunks [OF k, of rs] by simp
    have "process_chunk E c ds ss [] ch \<noteq> Panic" if "ch \<in> set cs" for ch
    proof (rule process_chunk_no_panic [OF _ assms(2)])
      have "set ch \<subseteq> set rs" using that by (auto simp: rs)
      then show "\<forall>(k, i, j) \<in> set ch. i < j \<and> j \<le> length ds" using assms(1) by blast
    qed
    from not_sym [OF this] have "Panic \<notin> set (map (process_chunk E c ds ss []) cs)" by auto
    then have "process_recipients E n c ds ss x rs =
        bindR (process_chunk E c ds ss x f) (\<lambda>y. collect_outputs y (map (process_chunk E c ds ss []) cs))"
      using 2 cs unfolding process_recipients_def k_def [symmetric] Let_def by simp
    also have "\<dots> = process_chunk E c ds ss x rs"
      by (simp only: collect_outputs_chunks rs process_chunk_append)
    finally show ?thesis .
  qed
qed

subsection \<open>The sections of the message\<close>

text \<open>A recipient of the abstract message: its service id, its devices and its 48 bytes of key material.\<close>

record ss_section =
  sct_id :: service_id
  sct_devices :: "(device_id \<times> u16) list"
  sct_key :: bytes

definition section_ok :: "ss_section \<Rightarrow> bool" where
  "section_ok x \<longleftrightarrow> length (raw_uuid (sct_id x)) = 16 \<and>
     (\<forall>(d, n) \<in> set (sct_devices x). device_id_ok d \<and> n AND VALID_REGISTRATION_ID_MASK = n) \<and>
     length (sct_key x) = (if sct_devices x = [] then 0 else 48)"

fun device_bytes :: "(device_id \<times> u16) list \<Rightarrow> bytes" where
  "device_bytes [] = []"
| "device_bytes ((d, n) # ds) =
     device_id_value d # be_bytes 2 (unat (if ds \<noteq> [] then n OR 0x8000 else n)) @ device_bytes ds"

definition section_bytes :: "ss_section \<Rightarrow> bytes" where
  "section_bytes x = service_id_fixed_width_binary (sct_id x) @
     (if sct_devices x = [] then [0] else device_bytes (sct_devices x)) @ sct_key x"

lemma be_bytes_u16: "of_nat (be_nat (be_bytes 2 (unat n))) = (n :: u16)"
proof -
  have "unat n < 256 ^ 2" using unsigned_less [of n, where 'a = nat] by simp
  then show ?thesis by (simp add: be_nat_be_bytes)
qed

lemma has_more_bit:
  assumes "n AND VALID_REGISTRATION_ID_MASK = (n :: u16)"
  shows "n AND 0x8000 = 0" "(n OR 0x8000) AND VALID_REGISTRATION_ID_MASK = n" "(n OR 0x8000) AND 0x8000 \<noteq> 0"
proof -
  have m: "VALID_REGISTRATION_ID_MASK AND 0x8000 = 0" by (simp add: VALID_REGISTRATION_ID_MASK_def)
  have "n AND 0x8000 = (n AND VALID_REGISTRATION_ID_MASK) AND 0x8000" by (simp only: assms)
  also have "\<dots> = n AND (VALID_REGISTRATION_ID_MASK AND 0x8000)" by (rule and.assoc)
  finally show "n AND 0x8000 = 0" by (simp add: m)
  show "(n OR 0x8000) AND VALID_REGISTRATION_ID_MASK = n"
    using assms m by (simp add: bit.conj_disj_distrib2 and.commute [of _ VALID_REGISTRATION_ID_MASK] bit.conj_disj_distrib)
  show "(n OR 0x8000) AND 0x8000 \<noteq> 0" by (simp add: bit.conj_disj_distrib2 or_eq_0_iff)
qed

lemma advance_append: "length xs = n \<Longrightarrow> advance n (xs @ ys) = Ok (xs, ys)"
  by (simp add: advance_def)

lemma parse_devices_bytes:
  assumes "ds \<noteq> []" "\<forall>(d, n) \<in> set ds. device_id_ok d \<and> n AND VALID_REGISTRATION_ID_MASK = n"
  shows "parse_devices acc (device_bytes ds @ rest) = Ok (acc @ ds, rest)"
  using assms
proof (induction ds arbitrary: acc rule: device_bytes.induct)
  case (2 d n ds)
  let ?n = "if ds \<noteq> [] then n OR 0x8000 else n"
  let ?tail = "device_bytes ds @ rest"
  have d: "device_id_value d \<noteq> 0" "DeviceId_new (device_id_value d) = Ok d" and n: "n AND VALID_REGISTRATION_ID_MASK = n"
    using "2.prems" by (auto simp: DeviceId_new_Ok device_id_ok_def)
  have adv: "advance 1 (device_bytes ((d, n) # ds) @ rest) = Ok ([device_id_value d], be_bytes 2 (unat ?n) @ ?tail)"
    "advance 2 (be_bytes 2 (unat ?n) @ ?tail) = Ok (be_bytes 2 (unat ?n), ?tail)"
    using advance_append [of "[device_id_value d]" 1] advance_append [of "be_bytes 2 (unat ?n)" 2] by simp_all
  show ?case
  proof (cases "ds = []")
    case True
    then show ?thesis
      using adv d n has_more_bit(1) [OF n] be_bytes_u16 [of n] by (subst parse_devices.simps) simp
  next
    case False
    then have "parse_devices (acc @ [(d, n)]) ?tail = Ok (acc @ (d, n) # ds, rest)"
      using "2.IH" "2.prems"(2) by simp
    then show ?thesis
      using adv d False has_more_bit [OF n] be_bytes_u16 [of "n OR 0x8000"] by (subst parse_devices.simps) simp
  qed
qed simp

lemma parse_devices_excluded: "parse_devices [] (0 # rest) = Ok ([], rest)"
  by (subst parse_devices.simps) (simp add: advance_def)

interpretation service_id_parser:
  stream_parser service_id_fixed_width_binary "parse_service_id SEALED_SENDER_V2_SERVICE_ID_FULL_VERSION"
    "\<lambda>i. length (raw_uuid i) = 16"
proof
  fix i rest
  assume i: "length (raw_uuid i) = 16"
  have "length (service_id_fixed_width_binary i) = 17" using i by (simp add: service_id_fixed_width_binary_def)
  then show "parse_service_id SEALED_SENDER_V2_SERVICE_ID_FULL_VERSION (service_id_fixed_width_binary i @ rest) = Ok (i, rest)"
    using i by (simp add: parse_service_id_def SEALED_SENDER_V2_SERVICE_ID_FULL_VERSION_def
        SEALED_SENDER_V2_UUID_FULL_VERSION_def advance_append service_id_binary_roundtrip(2))
qed

interpretation device_list_parser:
  stream_parser device_bytes "parse_devices []"
    "\<lambda>ds. ds \<noteq> [] \<and> (\<forall>(d, n) \<in> set ds. device_id_ok d \<and> n AND VALID_REGISTRATION_ID_MASK = n)"
  using parse_devices_bytes [of _ "[]"] by unfold_locales simp

interpretation delimiter_parser:
  stream_parser "encode_length_delimiter P" "decode_varint P" "\<lambda>n. n < 2 ^ 32 \<and> delimiter_ok P" for P
proof
  fix n :: nat and rest
  assume n: "n < 2 ^ 32 \<and> delimiter_ok P"
  then have "n < 2 ^ 64" by simp
  then have "decode_length_delimiter P (encode_length_delimiter P n @ rest) = Some n"
    "length (encode_length_delimiter P n) = length_delimiter_len P n"
    using n unfolding delimiter_ok_def by blast+
  then show "decode_varint P (encode_length_delimiter P n @ rest) = Ok (n, rest)"
    using n by (simp add: decode_varint_def slice_range_def)
qed

text \<open>The key material of a section as a slice of the message, \<open>k\<close> bytes before the end of which it starts.\<close>

definition recipient_of :: "nat \<Rightarrow> ss_section \<Rightarrow> bytes \<Rightarrow> sent_recipient" where
  "recipient_of full_len x rest =
     \<lparr>srp_devices = sct_devices x,
      srp_c_and_at = \<lparr>sl_start = (if sct_devices x = [] then None else Some (full_len - length (sct_key x @ rest))),
                     sl_bytes = sct_key x\<rparr>\<rparr>"

lemma parse_recipient_section:
  assumes "section_ok x"
  shows "parse_recipient n SEALED_SENDER_V2_SERVICE_ID_FULL_VERSION (section_bytes x @ rest) =
    Ok (sct_id x, recipient_of n x rest, rest)"
proof -
  have i: "length (raw_uuid (sct_id x)) = 16" using assms by (simp add: section_ok_def)
  let ?tail = "(if sct_devices x = [] then [0] else device_bytes (sct_devices x)) @ sct_key x @ rest"
  have id: "parse_service_id SEALED_SENDER_V2_SERVICE_ID_FULL_VERSION (section_bytes x @ rest) = Ok (sct_id x, ?tail)"
    using service_id_parser.parse_ser [OF i, of ?tail] by (simp add: section_bytes_def)
  show ?thesis
  proof (cases "sct_devices x = []")
    case True
    then have "sct_key x = []" using assms by (simp add: section_ok_def)
    then show ?thesis
      using id True by (simp add: parse_recipient_def parse_devices_excluded recipient_of_def)
  next
    case False
    then have "length (sct_key x) = MESSAGE_KEY_LEN + AUTH_TAG_LEN"
      using assms by (simp add: section_ok_def MESSAGE_KEY_LEN_def AUTH_TAG_LEN_def)
    moreover have "parse_devices [] (device_bytes (sct_devices x) @ sct_key x @ rest) = Ok (sct_devices x, sct_key x @ rest)"
      using device_list_parser.parse_ser False assms by (simp add: section_ok_def)
    ultimately show ?thesis
      using id False by (simp add: parse_recipient_def advance_append recipient_of_def)
  qed
qed

fun recipients_of :: "nat \<Rightarrow> ss_section list \<Rightarrow> bytes \<Rightarrow> (service_id \<times> sent_recipient) list" where
  "recipients_of full_len [] rest = []"
| "recipients_of full_len (x # xs) rest =
     (sct_id x, recipient_of full_len x (concat (map section_bytes xs) @ rest)) # recipients_of full_len xs rest"

lemma insert_recipient_fresh: "i \<notin> fst ` set rs \<Longrightarrow> insert_recipient i x rs = Ok (rs @ [(i, x)])"
  by (induction i x rs rule: insert_recipient.induct) auto

lemma parse_recipients_sections:
  assumes "\<forall>x \<in> set xs. section_ok x" "distinct (map fst acc @ map sct_id xs)"
  shows "parse_recipients n SEALED_SENDER_V2_SERVICE_ID_FULL_VERSION (length xs) acc (concat (map section_bytes xs) @ rest) =
    Ok (acc @ recipients_of n xs rest, rest)"
  using assms
proof (induction xs arbitrary: acc)
  case (Cons x xs)
  have "sct_id x \<notin> fst ` set acc" using Cons.prems(2) by auto
  then show ?case
    using Cons parse_recipient_section [of x n "concat (map section_bytes xs) @ rest"]
    by (simp add: insert_recipient_fresh)
qed simp

lemma SentMessage_parse_sections:
  assumes "\<forall>x \<in> set xs. section_ok x" "distinct (map sct_id xs)" "length xs < 2 ^ 32" "delimiter_ok P" "32 \<le> length shared"
    "bs = SEALED_SENDER_V2_SERVICE_ID_FULL_VERSION # encode_length_delimiter P (length xs) @
       concat (map section_bytes xs) @ shared"
  shows "SentMessage_parse P bs = Ok \<lparr>snm_full_message = bs, snm_version = SEALED_SENDER_V2_SERVICE_ID_FULL_VERSION,
      snm_recipients = recipients_of (length bs) xs shared,
      snm_shared_bytes = \<lparr>sl_start = Some (length bs - length shared), sl_bytes = shared\<rparr>\<rparr>"
  using assms delimiter_parser.parse_ser [of "length xs" P "concat (map section_bytes xs) @ shared"]
    parse_recipients_sections [OF assms(1), of "[]" "length bs" shared]
  by (simp add: SentMessage_parse_def PUBLIC_KEY_LEN_def)

subsection \<open>What the sender writes\<close>

text \<open>The recipients of a message: service ids with their devices and the sessions with them.\<close>

type_synonym v2_recipient = "service_id \<times> (device_id \<times> session_record) list"

definition registration_of :: "session_record \<Rightarrow> u32" where
  "registration_of x = (case sr_current_session x of None \<Rightarrow> 0 | Some st \<Rightarrow> s_remote_registration_id st)"

definition registration_ok :: "session_record \<Rightarrow> bool" where
  "registration_ok x \<longleftrightarrow> sr_current_session x \<noteq> None \<and>
     registration_of x AND ucast VALID_REGISTRATION_ID_MASK = registration_of x"

definition recipient_ok :: "'r env \<Rightarrow> protocol_store \<Rightarrow> (service_id \<Rightarrow> identity_key) \<Rightarrow> v2_recipient \<Rightarrow> bool" where
  "recipient_ok E s ident x \<longleftrightarrow> length (raw_uuid (fst x)) = 16 \<and> snd x \<noteq> [] \<and>
     (\<forall>(d, ses) \<in> set (snd x). device_id_ok d \<and> registration_ok ses \<and>
        get_identity (to_protocol_address E (fst x) d) s = Some (ident (fst x)))"

definition addresses_of :: "'r env \<Rightarrow> v2_recipient \<Rightarrow> protocol_address list" where
  "addresses_of E x = map (\<lambda>d. to_protocol_address E (fst x) (fst d)) (snd x)"

definition v2_destinations :: "'r env \<Rightarrow> v2_recipient list \<Rightarrow> protocol_address list" where
  "v2_destinations E rs = concat (map (addresses_of E) rs)"

definition v2_sessions :: "v2_recipient list \<Rightarrow> session_record list" where
  "v2_sessions rs = concat (map (\<lambda>x. map snd (snd x)) rs)"

fun v2_ranges :: "(service_id \<Rightarrow> identity_key) \<Rightarrow> nat \<Rightarrow> v2_recipient list \<Rightarrow> (identity_key \<times> nat \<times> nat) list" where
  "v2_ranges ident k [] = []"
| "v2_ranges ident k (x # rs) =
     (ident (fst x), k, k + length (snd x)) # v2_ranges ident (k + length (snd x)) rs"

definition devices_of :: "v2_recipient \<Rightarrow> (device_id \<times> u16) list" where
  "devices_of x = map (\<lambda>d. (fst d, ucast (registration_of (snd d)))) (snd x)"

definition key_material :: "'r env \<Rightarrow> ssv2_sender \<Rightarrow> identity_key \<Rightarrow> bytes" where
  "key_material E c k =
     (let c_i = apply_agreement_xor E (v2_e c) k Sending (v2_m c)
      in c_i @ compute_authentication_tag E (v2_identity c) k Sending (kp_public_key (v2_e c)) c_i)"

definition section_of :: "'r env \<Rightarrow> ssv2_sender \<Rightarrow> (service_id \<Rightarrow> identity_key) \<Rightarrow> v2_recipient \<Rightarrow> ss_section" where
  "section_of E c ident x =
     \<lparr>sct_id = fst x, sct_devices = devices_of x, sct_key = key_material E c (ident (fst x))\<rparr>"

definition excluded_section :: "service_id \<Rightarrow> ss_section" where
  "excluded_section i = \<lparr>sct_id = i, sct_devices = [], sct_key = []\<rparr>"

lemma chunk_by_name_group:
  assumes "ds \<noteq> []" "\<forall>x \<in> set ds. pa_name x = n" "rest = [] \<or> pa_name (hd rest) \<noteq> n"
  shows "chunk_by_name k (ds @ rest) = (hd ds, k, k + length ds) # chunk_by_name (k + length ds) rest"
proof -
  obtain d ds' where d: "ds = d # ds'" using assms(1) by (cases ds) auto
  have "takeWhile (\<lambda>x. pa_name x = n) (ds' @ rest) = ds'"
    using assms(2,3) d by (cases rest) (auto simp: takeWhile_append takeWhile_eq_all_conv)
  then show ?thesis using assms(2) d by simp
qed

lemma fetch_v2_ranges:
  assumes "uuid_text_ok E" "\<forall>x \<in> set rs. recipient_ok E s ident x" "distinct (map fst rs)"
  shows "fetch_identities s (chunk_by_name k (v2_destinations E rs)) = Ok (v2_ranges ident k rs)"
  using assms(2,3)
proof (induction rs arbitrary: k)
  case (Cons x rs)
  have x: "recipient_ok E s ident x" using Cons.prems by simp
  let ?n = "service_id_string E (fst x)"
  have ne: "addresses_of E x \<noteq> []" using x by (simp add: addresses_of_def recipient_ok_def)
  have names: "\<forall>a \<in> set (addresses_of E x). pa_name a = ?n"
    by (auto simp: addresses_of_def to_protocol_address_def ProtocolAddress_new_def)
  have rest: "v2_destinations E rs = [] \<or> pa_name (hd (v2_destinations E rs)) \<noteq> ?n"
  proof (cases rs)
    case (Cons y ys)
    then have y: "recipient_ok E s ident y" "fst y \<noteq> fst x" using Cons.prems by auto
    then have "service_id_string E (fst y) \<noteq> ?n"
      using service_id_string_roundtrip [OF assms(1), of "fst x"] service_id_string_roundtrip [OF assms(1), of "fst y"] x
      by (metis option.inject recipient_ok_def)
    then show ?thesis
      using y(1) by (cases "snd y") (auto simp: Cons v2_destinations_def addresses_of_def recipient_ok_def
          to_protocol_address_def ProtocolAddress_new_def)
  qed (simp add: v2_destinations_def)
  have split: "v2_destinations E (x # rs) = addresses_of E x @ v2_destinations E rs"
    by (simp add: v2_destinations_def)
  have hd: "get_identity (hd (addresses_of E x)) s = Some (ident (fst x))"
    using x by (cases "snd x") (auto simp: addresses_of_def recipient_ok_def)
  show ?case
    unfolding split chunk_by_name_group [OF ne names rest]
    using hd Cons.IH [of "k + length (addresses_of E x)"] Cons.prems by (simp add: addresses_of_def)
qed (simp add: v2_destinations_def)

lemma serialize_devices_bytes:
  assumes "\<forall>d \<in> set ds. registration_ok (snd d)"
  shows "serialize_devices (zip (map (\<lambda>d. to_protocol_address E i (fst d)) ds) (map snd ds)) =
    Ok (device_bytes (map (\<lambda>d. (fst d, ucast (registration_of (snd d)))) ds))"
  using assms
proof (induction ds)
  case (Cons d ds)
  then obtain st where st: "sr_current_session (snd d) = Some st" "registration_of (snd d) = s_remote_registration_id st"
      "s_remote_registration_id st AND ucast VALID_REGISTRATION_ID_MASK = s_remote_registration_id st"
    by (auto simp: registration_ok_def registration_of_def)
  have "zip (map (\<lambda>d. to_protocol_address E i (fst d)) ds) (map snd ds) = [] \<longleftrightarrow> ds = []" by (cases ds) auto
  then show ?case
    using Cons st masked_registration_id [OF st(3)]
    by (simp add: record_remote_registration_id_def current_or_invalid_def Let_def to_protocol_address_def ProtocolAddress_new_def)
qed simp

lemma serialize_recipient_key_material:
  assumes "ds \<noteq> []" "parse_from_service_id_string E (pa_name (hd ds)) = Some i" "serialize_devices (zip ds ss) = Ok dev"
  shows "serialize_recipient_destinations_into E c b ds ss k =
    Ok (b @ service_id_fixed_width_binary i @ dev @ key_material E c k)"
proof -
  obtain d ds' where d: "ds = d # ds'" using assms(1) by (cases ds) auto
  then show ?thesis
    using assms(2,3) unfolding serialize_recipient_destinations_into_def key_material_def
    by (simp only: d list.sel list.case Let_def ok_or.simps bindR.simps append_assoc)
qed

lemma slice_range_middle: "slice_range (xs @ ys @ zs) (length xs) (length xs + length ys) = Ok ys"
  by (simp add: slice_range_def)

lemma process_chunk_sections:
  assumes "uuid_text_ok E" "\<forall>x \<in> set rs. recipient_ok E s ident x" "length ps = length pd"
  shows "process_chunk E c (pd @ v2_destinations E rs) (ps @ v2_sessions rs) b (v2_ranges ident (length pd) rs) =
    Ok (b @ concat (map (\<lambda>x. section_bytes (section_of E c ident x)) rs))"
  using assms(2,3)
proof (induction rs arbitrary: pd ps b)
  case (Cons x rs)
  let ?ds = "addresses_of E x" and ?ss = "map snd (snd x)"
  have x: "recipient_ok E s ident x" using Cons.prems by simp
  have len: "length ?ds = length (snd x)" "length ?ss = length (snd x)" by (simp_all add: addresses_of_def)
  have slices: "slice_range (pd @ ?ds @ v2_destinations E rs) (length pd) (length pd + length (snd x)) = (Ok ?ds :: (_, signal_error) result)"
    "slice_range (ps @ ?ss @ v2_sessions rs) (length pd) (length pd + length (snd x)) = (Ok ?ss :: (_, signal_error) result)"
    using slice_range_middle [of pd ?ds] slice_range_middle [of ps ?ss] len Cons.prems(2) by simp_all
  obtain d ds where d: "snd x = d # ds" using x by (cases "snd x") (auto simp: recipient_ok_def)
  have i: "parse_from_service_id_string E (service_id_string E (fst x)) = Some (fst x)"
    using x service_id_string_roundtrip [OF assms(1)] by (simp add: recipient_ok_def)
  have "\<forall>d \<in> set (snd x). registration_ok (snd d)" using x by (auto simp: recipient_ok_def)
  then have dev: "serialize_devices (zip ?ds ?ss) = Ok (device_bytes (devices_of x))"
    unfolding addresses_of_def devices_of_def by (rule serialize_devices_bytes)
  have "devices_of x \<noteq> []" by (simp add: devices_of_def d)
  moreover have "?ds \<noteq> []" "pa_name (hd ?ds) = service_id_string E (fst x)"
    by (simp_all add: addresses_of_def d to_protocol_address_def ProtocolAddress_new_def)
  ultimately have "serialize_recipient_destinations_into E c b ?ds ?ss (ident (fst x)) =
      Ok (b @ section_bytes (section_of E c ident x))"
    using serialize_recipient_key_material [of ?ds E "fst x" ?ss "device_bytes (devices_of x)"] i dev
    by (simp add: section_bytes_def section_of_def)
  moreover have "process_chunk E c ((pd @ ?ds) @ v2_destinations E rs) ((ps @ ?ss) @ v2_sessions rs)
      (b @ section_bytes (section_of E c ident x)) (v2_ranges ident (length (pd @ ?ds)) rs) =
    Ok ((b @ section_bytes (section_of E c ident x)) @ concat (map (\<lambda>x. section_bytes (section_of E c ident x)) rs))"
    using Cons.IH [of "ps @ ?ss" "pd @ ?ds"] Cons.prems len by simp
  ultimately show ?case
    using slices len by (simp add: v2_destinations_def v2_sessions_def)
qed (simp add: v2_destinations_def v2_sessions_def)

subsection \<open>What a recipient reads\<close>

lemma xor_prefix_twice: "length ks = length (m :: bytes) \<Longrightarrow> map2 (XOR) ks (map2 (XOR) ks m) = m"
proof (induction ks m rule: list_induct2)
  case (Cons x xs y ys)
  have "x XOR (x XOR y) = y" by (simp flip: xor.assoc)
  then show ?case using Cons by simp
qed simp

lemma length_apply_agreement_xor:
  "hash_lengths E \<Longrightarrow> length m = 32 \<Longrightarrow> length (apply_agreement_xor E k pk d m) = 32"
  by (simp add: apply_agreement_xor_def Let_def hash_lengths_def MESSAGE_KEY_LEN_def)

lemma agreement_xor_inverse:
  assumes "dh_ok E" "hash_lengths E" "length m = 32" "identity_consistent E b"
    "kp_public_key e = PrivateKey_public_key E (kp_private_key e)"
  shows "apply_agreement_xor E (KeyPair_from_identity b) (kp_public_key e) Receiving
      (apply_agreement_xor E e (id_identity_key b) Sending m) = m"
proof -
  let ?ks = "hkdf_sha256 E None (calculate_agreement E (kp_private_key e) (id_identity_key b) @
      PublicKey_serialize (kp_public_key e) @ PublicKey_serialize (id_identity_key b)) LABEL_DH MESSAGE_KEY_LEN"
  have agree: "calculate_agreement E (id_private_key b) (kp_public_key e) = calculate_agreement E (kp_private_key e) (id_identity_key b)"
    using calculate_agreement_commute [OF assms(1)] assms(4,5) by (simp add: identity_consistent_def)
  have "length ?ks = length m" using assms(2,3) by (simp add: hash_lengths_def MESSAGE_KEY_LEN_def)
  then show ?thesis
    by (simp add: apply_agreement_xor_def Let_def KeyPair_from_identity_def agree xor_prefix_twice)
qed

lemma authentication_tags_agree:
  assumes "dh_ok E" "identity_consistent E a" "identity_consistent E b"
  shows "compute_authentication_tag E b (id_identity_key a) Receiving ek c =
    compute_authentication_tag E a (id_identity_key b) Sending ek c"
  using assms calculate_agreement_commute [OF assms(1), of "id_private_key b" "id_private_key a"]
  by (simp add: compute_authentication_tag_def identity_consistent_def IdentityKey_serialize_def)

lemma derive_e_Ok:
  assumes "hash_lengths E"
  shows "\<exists>e. derive_e E (DerivedKeys m) = Ok e \<and> kp_public_key e = PrivateKey_public_key E (kp_private_key e)"
  using assms by (simp add: PrivateKey_deserialize_def hash_lengths_def)

text \<open>The received message of a recipient, as the sender's values determine it.\<close>

lemma received_v2_opens:
  assumes laws: "hash_lengths E" "curve_lengths E" "dh_ok E" "gcm_siv_ok P" "length m = 32"
    and alice: "identity_consistent E a" "usmc_ok E P u" "sec_key (uc_sender u) = id_identity_key a"
    and bob: "identity_consistent E (get_identity_key_pair sB)"
    and e: "derive_e E (DerivedKeys m) = Ok e"
    and ct: "gcm_siv_encrypt P (derive_k E (DerivedKeys m)) (replicate 12 0) [] (uc_serialized u) = Some (body, tag)"
  shows "sealed_sender_decrypt_to_usmc E P (SEALED_SENDER_V2_UUID_FULL_VERSION #
      key_material E \<lparr>v2_identity = a, v2_e = e, v2_m = m\<rparr> (id_identity_key (get_identity_key_pair sB)) @
      public_key_bytes (kp_public_key e) @ body @ tag) sB = Ok u"
proof -
  let ?b = "get_identity_key_pair sB"
  let ?c = "apply_agreement_xor E e (id_identity_key ?b) Sending m"
  let ?at = "compute_authentication_tag E a (id_identity_key ?b) Sending (kp_public_key e) ?c"
  have pub: "kp_public_key e = PrivateKey_public_key E (kp_private_key e)" using derive_e_Ok [OF laws(1), of m] e by auto
  have len: "length ?c = 32" "length ?at = 16" "length (public_key_bytes (kp_public_key e)) = 32"
    using length_apply_agreement_xor [OF laws(1,5)] laws(1,2)
    by (simp_all add: compute_authentication_tag_def Let_def hash_lengths_def AUTH_TAG_LEN_def pub
        PrivateKey_public_key_def curve_lengths_def)
  have v: "drop_bit 4 SEALED_SENDER_V2_UUID_FULL_VERSION = SEALED_SENDER_V2_MAJOR_VERSION"
    "SEALED_SENDER_V2_MAJOR_VERSION \<noteq> 0" "SEALED_SENDER_V2_MAJOR_VERSION \<noteq> SEALED_SENDER_V1_MAJOR_VERSION"
    by (simp_all add: SEALED_SENDER_V2_UUID_FULL_VERSION_def SEALED_SENDER_V2_MAJOR_VERSION_def SEALED_SENDER_V1_MAJOR_VERSION_def)
  have parsed: "UnidentifiedSenderMessage_deserialize P (SEALED_SENDER_V2_UUID_FULL_VERSION #
      ?c @ ?at @ public_key_bytes (kp_public_key e) @ body @ tag) = Ok (USM_V2 (kp_public_key e) ?c ?at (body @ tag))"
    using len by (simp add: UnidentifiedSenderMessage_deserialize_def v Let_def MESSAGE_KEY_LEN_def AUTH_TAG_LEN_def
        PUBLIC_KEY_LEN_def from_djb_public_key_bytes_def)
  have "length (derive_k E (DerivedKeys m)) = 32" using laws(1) by (simp add: hash_lengths_def CIPHER_KEY_LEN_def)
  then have plain: "gcm_siv_decrypt P (derive_k E (DerivedKeys m)) (replicate 12 0) [] (body @ tag) = Some (uc_serialized u)"
    using laws(4) ct unfolding gcm_siv_ok_def by simp
  have "decrypt_v2 E P ?b (kp_public_key e) ?c ?at (body @ tag) = Ok u"
    using agreement_xor_inverse [OF laws(3,1,5) bob pub] e plain usmc_serde.de_ser [OF alice(2)] alice(3)
      authentication_tags_agree [OF laws(3) alice(1) bob]
    by (simp add: decrypt_v2_def Let_def del: derive_e.simps derive_k.simps)
  then show ?thesis using parsed by (simp add: sealed_sender_decrypt_to_usmc_def key_material_def Let_def)
qed

subsection \<open>From the sender over the server to the recipients\<close>

lemma v2_ranges_within:
  "\<forall>(k, i, j) \<in> set (v2_ranges ident n rs). (rs \<noteq> [] \<longrightarrow> (\<forall>x \<in> set rs. snd x \<noteq> []) \<longrightarrow> i < j) \<and>
     j \<le> n + length (v2_destinations E rs)"
proof (induction rs arbitrary: n)
  case (Cons x rs)
  have "length (v2_destinations E (x # rs)) = length (snd x) + length (v2_destinations E rs)"
    by (simp add: v2_destinations_def addresses_of_def)
  then show ?case using Cons [of "n + length (snd x)"] by (fastforce simp: v2_destinations_def)
qed simp

lemma length_v2_sessions: "length (v2_sessions rs) = length (v2_destinations E rs)"
  by (induction rs) (simp_all add: v2_sessions_def v2_destinations_def addresses_of_def)

lemma length_v2_ranges: "length (v2_ranges ident n rs) = length rs"
  by (induction rs arbitrary: n) simp_all

lemma section_of_ok:
  assumes "hash_lengths E" "length (v2_m c) = 32" "recipient_ok E s ident x"
  shows "section_ok (section_of E c ident x)"
proof -
  have "length (key_material E c k) = 48" for k
    using assms(1,2) length_apply_agreement_xor [OF assms(1,2)]
    by (simp add: key_material_def Let_def compute_authentication_tag_def hash_lengths_def AUTH_TAG_LEN_def)
  moreover have "ucast n AND VALID_REGISTRATION_ID_MASK = (ucast n :: u16)"
    if "n AND ucast VALID_REGISTRATION_ID_MASK = (n :: u32)" for n
  proof -
    have "(ucast n :: u16) = ucast (n AND ucast VALID_REGISTRATION_ID_MASK)" using that by simp
    also have "\<dots> = ucast n AND ucast (ucast VALID_REGISTRATION_ID_MASK :: u32)" by (simp add: unsigned_and_eq)
    also have "ucast (ucast VALID_REGISTRATION_ID_MASK :: u32) = VALID_REGISTRATION_ID_MASK"
      by (simp add: VALID_REGISTRATION_ID_MASK_def)
    finally show ?thesis by simp
  qed
  ultimately show ?thesis
    using assms(3) by (auto simp: section_ok_def section_of_def devices_of_def recipient_ok_def registration_ok_def)
qed

lemma sct_id_simps [simp]: "sct_id (section_of E c ident x) = fst x" "sct_id (excluded_section i) = i"
  by (simp_all add: section_of_def excluded_section_def)

lemma recipients_of_ids: "map fst (recipients_of n xs rest) = map sct_id xs"
  by (induction xs) simp_all

lemma recipients_of_mem:
  "(i, r) \<in> set (recipients_of n xs rest) \<Longrightarrow> \<exists>x \<in> set xs. i = sct_id x \<and> srp_devices r = sct_devices x \<and>
     sl_bytes (srp_c_and_at r) = sct_key x"
  by (induction xs) (auto simp: recipient_of_def)

definition v2_message_opens ::
    "'r env \<Rightarrow> ss_prims \<Rightarrow> v2_recipient list \<Rightarrow> service_id list \<Rightarrow> (service_id \<Rightarrow> identity_key) \<Rightarrow> usmc \<Rightarrow> sent_message \<Rightarrow> bool" where
  "v2_message_opens E P rs excluded ident u msg \<longleftrightarrow>
     map fst (snm_recipients msg) = map fst rs @ excluded \<and>
     (\<forall>(i, r) \<in> set (snm_recipients msg).
        (i \<in> set excluded \<longrightarrow> srp_devices r = []) \<and>
        (\<forall>x \<in> set rs. fst x = i \<longrightarrow> srp_devices r = devices_of x \<and>
           (\<forall>sB. identity_consistent E (get_identity_key_pair sB) \<longrightarrow> id_identity_key (get_identity_key_pair sB) = ident i \<longrightarrow>
              sealed_sender_decrypt_to_usmc E P (concat (received_message_parts_for_recipient msg r)) sB = Ok u)))"

lemma v2_recipients_open:
  assumes laws: "hash_lengths E" "curve_lengths E" "dh_ok E" "gcm_siv_ok P" "length m = 32"
    and alice: "identity_consistent E a" "usmc_ok E P u" "sec_key (uc_sender u) = id_identity_key a"
    and e: "derive_e E (DerivedKeys m) = Ok e"
    and ct: "gcm_siv_encrypt P (derive_k E (DerivedKeys m)) (replicate 12 0) [] (uc_serialized u) = Some (body, tag)"
    and msg: "snm_recipients msg = recipients_of n (map (section_of E \<lparr>v2_identity = a, v2_e = e, v2_m = m\<rparr> ident) rs @
        map excluded_section excluded) rest"
      "sl_bytes (snm_shared_bytes msg) = public_key_bytes (kp_public_key e) @ body @ tag"
    and dist: "distinct (map fst rs @ excluded)"
  shows "v2_message_opens E P rs excluded ident u msg"
proof -
  let ?sec = "section_of E \<lparr>v2_identity = a, v2_e = e, v2_m = m\<rparr> ident"
  let ?xs = "map ?sec rs @ map excluded_section excluded"
  have ids: "map fst (snm_recipients msg) = map fst rs @ excluded"
    unfolding msg(1) recipients_of_ids by (simp add: section_of_def excluded_section_def comp_def)
  have one: "(i \<in> set excluded \<longrightarrow> srp_devices r = []) \<and>
      (\<forall>x \<in> set rs. fst x = i \<longrightarrow> srp_devices r = devices_of x \<and> sl_bytes (srp_c_and_at r) = sct_key (?sec x))"
    if mem: "(i, r) \<in> set (snm_recipients msg)" for i r
  proof -
    obtain y where y: "y \<in> set ?xs" "i = sct_id y" "srp_devices r = sct_devices y" "sl_bytes (srp_c_and_at r) = sct_key y"
      using recipients_of_mem [OF mem [unfolded msg(1)]] by blast
    have "(\<exists>z \<in> set rs. y = ?sec z) \<or> (\<exists>j \<in> set excluded. y = excluded_section j)" using y(1) by fastforce
    with y(2) consider z where "z \<in> set rs" "y = ?sec z" "i = fst z" | "i \<in> set excluded" "y = excluded_section i"
      by (metis sct_id_simps)
    then show ?thesis
    proof cases
      case 1
      have "inj_on fst (set rs)" "i \<notin> set excluded" using dist 1 by (auto simp: distinct_map)
      then have "x = z" if "x \<in> set rs" "fst x = i" for x using that 1 by (metis inj_onD)
      moreover have "sct_devices y = devices_of z" "sct_key y = sct_key (?sec z)" using 1 by (simp_all add: section_of_def)
      ultimately show ?thesis using y(3,4) \<open>i \<notin> set excluded\<close> by metis
    next
      case 2
      then have "\<forall>x \<in> set rs. fst x \<noteq> i" "sct_devices y = []" using dist by (force simp: excluded_section_def)+
      then show ?thesis using y(3) by simp
    qed
  qed
  show ?thesis
    unfolding v2_message_opens_def using ids one
      received_v2_opens [OF laws alice _ e ct]
    by (fastforce simp: received_message_parts_for_recipient_def msg(2) section_of_def)
qed

lemma multi_recipient_delivery:
  assumes laws: "hash_lengths E" "curve_lengths E" "rng_length E" "dh_ok E" "uuid_text_ok E" "gcm_siv_ok P" "delimiter_ok P"
    and alice: "identity_consistent E (get_identity_key_pair s)" "usmc_ok E P u"
      "sec_key (uc_sender u) = id_identity_key (get_identity_key_pair s)" "\<And>k n. gcm_siv_encrypt P k n [] (uc_serialized u) \<noteq> None"
    and rcpt: "\<forall>x \<in> set rs. recipient_ok E s ident x" "\<forall>i \<in> set excluded. length (raw_uuid i) = 16"
      "distinct (map fst rs @ excluded)" "length rs + length excluded < 2 ^ 32"
  shows "\<exists>bs w' msg. sealed_sender_multi_recipient_encrypt E P n (v2_destinations E rs) (v2_sessions rs) excluded u (s, r) =
      (Ok bs, w') \<and> SentMessage_parse P bs = Ok msg \<and> v2_message_opens E P rs excluded ident u msg"
proof -
  obtain m r1 where m: "rng_random_bytes E MESSAGE_KEY_LEN r = (m, r1)" by (cases "rng_random_bytes E MESSAGE_KEY_LEN r")
  have "length (fst (rng_random_bytes E MESSAGE_KEY_LEN r)) = MESSAGE_KEY_LEN" using laws(3) by (simp add: rng_length_def)
  then have "length m = MESSAGE_KEY_LEN" by (simp add: m)
  then have lm: "length m = 32" by (simp add: MESSAGE_KEY_LEN_def)
  obtain e where e: "derive_e E (DerivedKeys m) = Ok e" "kp_public_key e = PrivateKey_public_key E (kp_private_key e)"
    using derive_e_Ok [OF laws(1)] by blast
  obtain body tag where ct:
      "gcm_siv_encrypt P (derive_k E (DerivedKeys m)) (replicate 12 0) [] (uc_serialized u) = Some (body, tag)"
    using alice(4) by (metis option.exhaust surj_pair)
  let ?c = "\<lparr>v2_identity = get_identity_key_pair s, v2_e = e, v2_m = m\<rparr>"
  let ?xs = "map (section_of E ?c ident) rs @ map excluded_section excluded"
  let ?shared = "public_key_bytes (kp_public_key e) @ body @ tag"
  let ?head = "SEALED_SENDER_V2_SERVICE_ID_FULL_VERSION # encode_length_delimiter P (length ?xs)"
  let ?bs = "?head @ concat (map section_bytes ?xs) @ ?shared"
  have "process_recipients E n ?c (v2_destinations E rs) (v2_sessions rs) ?head (v2_ranges ident 0 rs) =
      process_chunk E ?c (v2_destinations E rs) (v2_sessions rs) ?head (v2_ranges ident 0 rs)"
  proof (rule process_recipients_sequential)
    have "\<forall>x \<in> set rs. snd x \<noteq> []" using rcpt(1) by (auto simp: recipient_ok_def)
    then show "\<forall>(k, i, j) \<in> set (v2_ranges ident 0 rs). i < j \<and> j \<le> length (v2_destinations E rs)"
      using v2_ranges_within [of ident 0 rs E] by (cases rs) fastforce+
  qed (rule length_v2_sessions)
  then have sections: "process_recipients E n ?c (v2_destinations E rs) (v2_sessions rs) ?head (v2_ranges ident 0 rs) =
      Ok (?head @ concat (map (\<lambda>x. section_bytes (section_of E ?c ident x)) rs))"
    using process_chunk_sections [OF laws(5) rcpt(1), of "[]" "[]" ?c ?head] by simp
  have ex: "serialize_excluded excluded = concat (map section_bytes (map excluded_section excluded))"
    by (simp add: serialize_excluded_def excluded_section_def section_bytes_def comp_def)
  have fetch: "fetch_identities s (chunk_by_name 0 (v2_destinations E rs)) = Ok (v2_ranges ident 0 rs)"
    using rcpt(3) by (intro fetch_v2_ranges [OF laws(5) rcpt(1)]) simp
  have enc: "sealed_sender_multi_recipient_encrypt E P n (v2_destinations E rs) (v2_sessions rs) excluded u (s, r) =
      (Ok ?bs, (s, r1))"
    using fetch sections e(1) ct ex
    by (simp add: sealed_sender_multi_recipient_encrypt_def m Let_def length_v2_sessions [of rs E] length_v2_ranges
        comp_def del: derive_e.simps derive_k.simps chunk_by_name.simps)
  have ok: "\<forall>x \<in> set ?xs. section_ok x"
  proof -
    have "section_ok (excluded_section i)" if "i \<in> set excluded" for i
      using rcpt(2) that by (simp add: section_ok_def excluded_section_def)
    moreover have "section_ok (section_of E ?c ident x)" if "x \<in> set rs" for x
      using section_of_ok [OF laws(1) _ bspec [OF rcpt(1) that]] lm by simp
    ultimately show ?thesis by auto
  qed
  have ids: "map sct_id ?xs = map fst rs @ excluded"
    by (simp add: comp_def)
  have dist: "distinct (map sct_id ?xs)" unfolding ids by (rule rcpt(3))
  have "32 \<le> length ?shared" using laws(2) by (simp add: e(2) PrivateKey_public_key_def curve_lengths_def)
  then have parse: "SentMessage_parse P ?bs = Ok \<lparr>snm_full_message = ?bs,
      snm_version = SEALED_SENDER_V2_SERVICE_ID_FULL_VERSION, snm_recipients = recipients_of (length ?bs) ?xs ?shared,
      snm_shared_bytes = \<lparr>sl_start = Some (length ?bs - length ?shared), sl_bytes = ?shared\<rparr>\<rparr>" (is "_ = Ok ?msg")
    using rcpt(4) by (intro SentMessage_parse_sections [OF ok dist _ laws(7)]) simp_all
  have "v2_message_opens E P rs excluded ident u ?msg"
    using v2_recipients_open [OF laws(1,2,4,6) lm alice(1-3) e(1) ct] rcpt(3) ids
    by simp
  then show ?thesis using enc parse by blast
qed

end
