(* ===== verification/Sealed_Conversation.thy ===== *)
theory Sealed_Conversation
  imports Sealed_V2_Correctness End_To_End
begin

text \<open>
  Sealed sender on top of sessions: the first message of a conversation, sealed by Alice, opens in
  Bob's store to her plaintext under her name, with the session established.
\<close>

subsection \<open>What is sent can be parsed\<close>

lemma sent_keys_ok:
  "sender_ratchet_key st = Ok k \<Longrightarrow> public_key_ok k"
  "local_identity_key st = Ok i \<Longrightarrow> public_key_ok i"
  "unacknowledged_pre_key_message_items st = Ok (Some items) \<Longrightarrow> public_key_ok (ui_base_key items)"
  by (auto simp: sender_ratchet_key_def local_identity_key_def unacknowledged_pre_key_message_items_def IdentityKey_decode_def
      result_simps dest!: PublicKey_deserialize_ok split: option.splits if_splits)

lemma sent_prekey_message_parses:
  assumes "hash_lengths E" "codec_ok (signal_message_codec E)" "codec_ok (pre_key_signal_message_codec E)"
    and "encrypt_with_state E ptext a now st r = (Ok (CPreKeySignalMessage pm, k, st'), r')"
    and "session_version st = Ok 4" "pkm_kyber_payload pm \<noteq> None"
  shows "PreKeySignalMessage_try_from E (pkm_serialized pm) = Ok pm"
  using assms(4)
proof (cases rule: encrypt_with_state_cases)
  case e: (1 ck pq key pq_msg mk eph v our_id ct m items)
  have v: "v = 4" using e(5) assms(5) by simp
  obtain it where it: "items = Some it" "pm = PreKeySignalMessage_new E 4 (s_local_registration_id st)
      (ui_pre_key_id it) (ui_signed_pre_key_id it) (kyber_payload_of it) (ui_base_key it) our_id m"
    using e(12) v by (cases items) auto
  have m: "SignalMessage_try_from E (sm_serialized m) = Ok m"
    by (rule SignalMessage_roundtrip [OF assms(1,2) sent_keys_ok(1) [OF e(4)] _ e(11) [unfolded v]]) simp
  have "kyber_payload_of it \<noteq> None" using assms(6) it(2) by (simp add: PreKeySignalMessage_new_def Let_def)
  then show ?thesis
    unfolding it(2)
    by (intro PreKeySignalMessage_roundtrip [OF assms(3) _ _ sent_keys_ok(3) sent_keys_ok(2) [OF e(7)] m])
      (use e(10) it(1) in simp_all)
qed

lemma alice_session_version: "initialize_alice_session E p r = (Ok st, r') \<Longrightarrow> session_version st = Ok 4"
  by (erule initialize_alice_session_cases) (simp add: session_version_def session_unfold)

subsection \<open>The sender's store after encryption\<close>

lemma stores_keep_own_identity:
  "get_identity_key_pair (snd (save_identity a k s)) = get_identity_key_pair s"
  "get_identity_key_pair (store_session a rec s) = get_identity_key_pair s"
  by (simp_all add: get_identity_key_pair_def save_identity_def store_session_def Let_def split: option.split)

lemmas identity_reads = stores_keep_own_identity identities.load_store_same get_identity_store_session

lemma encrypt_keeps_identity:
  assumes "message_encrypt E ptext b now (s, r) = (Ok msg, (s', r'))" "get_identity b s = Some k"
  shows "get_identity b s' = Some k" "get_identity_key_pair s' = get_identity_key_pair s"
  using assms(1)
proof (atomize (full), cases rule: message_encrypt_cases)
  case (1 rec st st' k')
  have "k' = k" using 1(4) assms(2) by (simp add: is_trusted_identity_def get_identity_def)
  then show "get_identity b s' = Some k \<and> get_identity_key_pair s' = get_identity_key_pair s"
    using 1(5) by (simp add: identity_reads)
qed

lemma bundle_saves_identity:
  assumes "process_prekey_bundle E b bundle now (s, r) = (Ok (), (s', r'))"
  shows "get_identity b s' = Some (b_identity_key bundle)" "get_identity_key_pair s' = get_identity_key_pair s"
  using assms
  by (auto elim!: process_prekey_bundle_cases simp: identity_reads)

subsection \<open>The conversation\<close>

lemma sealed_sender_decrypt_prekey:
  assumes "sealed_sender_decrypt_to_usmc E P bs s = Ok u" "SenderCertificate_validate E P (uc_sender u) root t = Ok True"
    "\<not> is_self_send (uc_sender u) e164 uuid dev" "uc_msg_type u = PreKey"
    "PreKeySignalMessage_try_from E (uc_contents u) = Ok pm"
    "message_decrypt_prekey E pm (ProtocolAddress_new (sec_sender_uuid (uc_sender u)) (sec_sender_device_id (uc_sender u)))
       (s, r) = (Ok ptext, w)"
  shows "sealed_sender_decrypt E P bs root t e164 uuid dev (s, r) =
    (Ok \<lparr>sdr_sender_uuid = sec_sender_uuid (uc_sender u), sdr_sender_e164 = sec_sender_e164 (uc_sender u),
         sdr_device_id = sec_sender_device_id (uc_sender u), sdr_message = ptext\<rparr>, w)"
  using assms by (simp add: sealed_sender_decrypt_def Let_def)

lemma sealed_conversation_starts:
  assumes laws: "hash_lengths E" "dh_ok E" "curve_lengths E" "rng_length E" "cbc_ok E" "spqr_pairs E" "spqr_live E"
    and seal: "keystream_length E" "codec_ok (signal_message_codec E)" "codec_ok (pre_key_signal_message_codec E)" "ss_codecs_ok P"
    and cert: "sender_certificate_ok E P cert" "sec_key cert = id_identity_key (get_identity_key_pair sA)"
      "SenderCertificate_validate E P cert root t = Ok True" "\<not> is_self_send cert e164 uuid dev"
      "a = ProtocolAddress_new (sec_sender_uuid cert) (sec_sender_device_id cert)"
    and alice: "id_identity_key (get_identity_key_pair sA) = PrivateKey_public_key E (id_private_key (get_identity_key_pair sA))"
      "bundle_valid E b bundle sA" "is_canonical E (kp_public_key (fst (KeyPair_generate E r)))"
      "unacknowledged_too_old (secs_since_epoch now) now' = (Ok False :: (_, signal_error) result)"
    and bob: "serves_bundle E bundle spk kyber otk sB" "load_session a sB = None"
      "is_trusted_identity a (id_identity_key (get_identity_key_pair sA)) Receiving sB"
      "base_keys_seen (kpk_id (b_kyber_pre_key bundle)) (esp_id (b_ec_signed_pre_key bundle)) sB = []"
  shows "\<exists>sA1 r1 bs w pm sB' rB'.
    process_prekey_bundle E b bundle now (sA, r) = (Ok (), (sA1, r1)) \<and>
    sealed_sender_encrypt E P b cert ptext now' (sA1, r1) = (Ok bs, w) \<and>
    sealed_sender_decrypt E P bs root t e164 uuid dev (sB, rB) =
      (Ok \<lparr>sdr_sender_uuid = sec_sender_uuid cert, sdr_sender_e164 = sec_sender_e164 cert,
           sdr_device_id = sec_sender_device_id cert, sdr_message = ptext\<rparr>, (sB', rB')) \<and>
    received_from a bundle pm sB'"
proof -
  obtain sA1 r1 pm sA2 r2 sB' rB' where run:
      "process_prekey_bundle E b bundle now (sA, r) = (Ok (), (sA1, r1))"
      "message_encrypt E ptext b now' (sA1, r1) = (Ok (CPreKeySignalMessage pm), (sA2, r2))"
      "message_decrypt E (CPreKeySignalMessage pm) a (sB, rB) = (Ok ptext, (sB', rB'))" "received_from a bundle pm sB'"
    using conversation_starts [OF laws alice bob] by blast
  have parses: "PreKeySignalMessage_try_from E (pkm_serialized pm) = Ok pm"
    using run(1,2) laws(3,4)
  proof (cases rule: bundle_message)
    case c: (1 base r0 st st' st'' k m pm')
    have "pm' = pm" using c(5) by simp
    moreover have "session_version st' = Ok 4"
      using sends_as_reads(4) [OF c(3)] alice_session_version [OF c(2)] by simp
    ultimately show ?thesis
      using sent_prekey_message_parses [OF laws(1) seal(2,3) c(4)] c(11) by auto
  qed
  let ?u = "USMC_new P PreKey cert (pkm_serialized pm) HintDefault None"
  have id2: "get_identity_key_pair sA2 = get_identity_key_pair sA" "get_identity b sA2 = Some (id_identity_key (get_identity_key_pair sB))"
    using encrypt_keeps_identity [OF run(2) bundle_saves_identity(1) [OF run(1)]] bundle_saves_identity(2) [OF run(1)] bob(1)
    by (simp_all add: serves_bundle_def)
  have u: "usmc_ok E P ?u" by (rule USMC_new_ok [OF seal(4) cert(1)]) (simp_all add: ContentHint_from_def)
  have fields: "uc_sender ?u = cert" "uc_msg_type ?u = PreKey" "uc_contents ?u = pkm_serialized pm"
    by (simp_all add: USMC_new_def Let_def)
  have consistent: "identity_consistent E (get_identity_key_pair sA2)" "identity_consistent E (get_identity_key_pair sB)"
    using alice(1) bob(1) by (simp_all add: identity_consistent_def id2(1) serves_bundle_def)
  obtain bs w where sealed: "sealed_sender_encrypt_from_usmc E P b ?u (sA2, r2) = (Ok bs, w)"
      "sealed_sender_decrypt_to_usmc E P bs sB = Ok ?u"
    using sealed_v1_roundtrip [OF laws(1) seal(1) laws(3,4,2) seal(4) consistent(1) u _ consistent(2) id2(2), of r2]
      cert(2) id2(1) fields(1) by auto
  have "sealed_sender_encrypt E P b cert ptext now' (sA1, r1) = (Ok bs, w)"
    using run(2) sealed(1) by (simp add: sealed_sender_encrypt_def)
  moreover have "sealed_sender_decrypt E P bs root t e164 uuid dev (sB, rB) =
      (Ok \<lparr>sdr_sender_uuid = sec_sender_uuid cert, sdr_sender_e164 = sec_sender_e164 cert,
           sdr_device_id = sec_sender_device_id cert, sdr_message = ptext\<rparr>, (sB', rB'))"
    using sealed_sender_decrypt_prekey [OF sealed(2), of root t e164 uuid dev pm rB ptext "(sB', rB')"]
      run(3) parses cert(3-5) fields by (simp add: message_decrypt_def)
  ultimately show ?thesis using run(1,4) by blast
qed

end
