(* ===== verification/Sent_Message_Layout.thy ===== *)
theory Sent_Message_Layout
  imports Sealed_V2_Correctness
begin

text \<open>
  What the server can rely on after parsing a v2 message, whatever bytes it received: every recipient
  appears once, devices and registration ids are in range, and the ranges reported for key material and
  shared bytes lie within the message and hold exactly those bytes.
\<close>

definition devices_wf :: "(device_id \<times> u16) list \<Rightarrow> bool" where
  "devices_wf ds \<longleftrightarrow> (\<forall>(d, n) \<in> set ds. device_id_ok d \<and> n AND VALID_REGISTRATION_ID_MASK = n)"

text \<open>The slice really is the part of the full message that its start says.\<close>

definition slice_within :: "bytes \<Rightarrow> byte_slice \<Rightarrow> bool" where
  "slice_within full sl \<longleftrightarrow>
     (case sl_start sl of
        None \<Rightarrow> sl_bytes sl = []
      | Some k \<Rightarrow> k + length (sl_bytes sl) \<le> length full \<and> take (length (sl_bytes sl)) (drop k full) = sl_bytes sl)"

definition recipient_wf :: "bytes \<Rightarrow> sent_recipient \<Rightarrow> bool" where
  "recipient_wf full r \<longleftrightarrow> devices_wf (srp_devices r) \<and> slice_within full (srp_c_and_at r) \<and>
     length (sl_bytes (srp_c_and_at r)) = (if srp_devices r = [] then 0 else 48)"

lemma advance_Ok: "advance n buf = Ok (b, rest) \<longleftrightarrow> buf = b @ rest \<and> length b = n"
  by (auto simp: advance_def)

lemma parse_devices_wf:
  assumes "parse_devices acc buf = Ok (ds, rest)" "devices_wf acc"
  shows "devices_wf ds \<and> (\<exists>pre. buf = pre @ rest)"
  using assms
proof (induction acc buf arbitrary: ds rest rule: parse_devices.induct)
  case (1 acc buf)
  obtain b buf1 where b: "buf = b @ buf1" "advance 1 buf = Ok (b, buf1)"
    using "1.prems"(1) by (subst (asm) parse_devices.simps) (auto simp: result_simps advance_Ok)
  show ?case
  proof (cases "b ! 0 = 0")
    case True
    then show ?thesis
      using "1.prems" b by (subst (asm) parse_devices.simps) (auto split: if_splits simp: devices_wf_def)
  next
    case False
    obtain d rb buf2 where d: "DeviceId_new (b ! 0) = Ok d" "advance 2 buf1 = Ok (rb, buf2)"
      using "1.prems"(1) b False by (subst (asm) parse_devices.simps) (auto simp: result_simps)
    let ?n = "of_nat (be_nat rb) :: u16"
    let ?acc = "acc @ [(d, ?n AND VALID_REGISTRATION_ID_MASK)]"
    have acc: "devices_wf ?acc"
      using "1.prems"(2) d(1) by (auto simp: devices_wf_def DeviceId_new_Ok and.assoc)
    have buf: "buf = (b @ rb) @ buf2" using b(1) d(2) by (simp add: advance_Ok)
    show ?thesis
    proof (cases "?n AND 0x8000 = 0")
      case True
      then have "ds = ?acc" "rest = buf2"
        using "1.prems"(1) b False d by (subst (asm) parse_devices.simps; simp add: Let_def)+
      then show ?thesis using acc buf by blast
    next
      case more: False
      then have "parse_devices ?acc buf2 = Ok (ds, rest)"
        using "1.prems"(1) b False d by (subst (asm) parse_devices.simps) (simp add: Let_def)
      then have "devices_wf ds \<and> (\<exists>pre. buf2 = pre @ rest)"
        using "1.IH" [OF b(2) refl refl False _ d(2) refl refl refl more] d(1) acc by auto
      then show ?thesis using buf by (metis append.assoc)
    qed
  qed
qed

lemma parse_service_id_suffix: "parse_service_id v buf = Ok (i, rest) \<Longrightarrow> \<exists>pre. buf = pre @ rest"
  by (auto simp: parse_service_id_def result_simps advance_Ok split: if_splits)

lemma parse_recipient_wf:
  assumes "parse_recipient (length full) v buf = Ok (i, r, rest)" "full = pre @ buf"
  shows "recipient_wf full r \<and> (\<exists>pre'. full = pre' @ rest)"
proof -
  obtain buf1 ds buf2 where p: "parse_service_id v buf = Ok (i, buf1)" "parse_devices [] buf1 = Ok (ds, buf2)"
    using assms(1) by (auto simp: parse_recipient_def result_simps)
  have wf: "devices_wf ds" using parse_devices_wf [OF p(2)] by (simp add: devices_wf_def)
  obtain p1 p2 where "buf = p1 @ buf1" "buf1 = p2 @ buf2"
    using parse_service_id_suffix [OF p(1)] parse_devices_wf [OF p(2)] by (auto simp: devices_wf_def)
  then obtain q where q: "full = q @ buf2" using assms(2) by simp
  show ?thesis
  proof (cases "ds = []")
    case True
    then show ?thesis using assms(1) p q wf by (auto simp: parse_recipient_def recipient_wf_def slice_within_def)
  next
    case False
    then obtain k where k: "buf2 = k @ rest" "length k = 48"
        "r = \<lparr>srp_devices = ds, srp_c_and_at = \<lparr>sl_start = Some (length full - length buf2), sl_bytes = k\<rparr>\<rparr>"
      using assms(1) p by (auto simp: parse_recipient_def result_simps advance_Ok MESSAGE_KEY_LEN_def AUTH_TAG_LEN_def)
    have "full = (q @ k) @ rest" using q k(1) by simp
    moreover have "recipient_wf full r"
      using wf False k q by (simp add: recipient_wf_def slice_within_def)
    ultimately show ?thesis by blast
  qed
qed

lemma insert_recipient_wf:
  assumes "insert_recipient i new rs = Ok rs'" "recipient_wf full new" "\<forall>x \<in> snd ` set rs. recipient_wf full x"
    "distinct (map fst rs)"
  shows "(\<forall>x \<in> snd ` set rs'. recipient_wf full x) \<and> distinct (map fst rs') \<and> fst ` set rs' = insert i (fst ` set rs)"
  using assms
proof (induction i new rs arbitrary: rs' rule: insert_recipient.induct)
  case (2 i new j existing rest)
  show ?case
  proof (cases "i = j")
    case True
    then have "rs' = (j, existing\<lparr>srp_devices := srp_devices existing @ srp_devices new\<rparr>) # rest" "srp_devices existing \<noteq> []"
      using "2.prems"(1) by (auto split: if_splits)
    moreover have "recipient_wf full (existing\<lparr>srp_devices := srp_devices existing @ srp_devices new\<rparr>)"
      if "srp_devices existing \<noteq> []"
      using "2.prems"(2,3) that by (auto simp: recipient_wf_def devices_wf_def)
    ultimately show ?thesis using "2.prems"(3,4) True by auto
  next
    case False
    then obtain rest' where "insert_recipient i new rest = Ok rest'" "rs' = (j, existing) # rest'"
      using "2.prems"(1) by (auto simp: result_simps)
    then show ?thesis using 2 False by auto
  qed
qed auto

lemma parse_recipients_wf:
  assumes "parse_recipients (length full) v n rs buf = Ok (rs', rest)" "full = pre @ buf"
    "\<forall>x \<in> snd ` set rs. recipient_wf full x" "distinct (map fst rs)"
  shows "(\<forall>x \<in> snd ` set rs'. recipient_wf full x) \<and> distinct (map fst rs') \<and> (\<exists>pre'. full = pre' @ rest)"
  using assms
proof (induction n arbitrary: rs buf pre)
  case (Suc n)
  obtain i r buf1 rs1 where p: "parse_recipient (length full) v buf = Ok (i, r, buf1)" "insert_recipient i r rs = Ok rs1"
      "parse_recipients (length full) v n rs1 buf1 = Ok (rs', rest)"
    using Suc.prems(1) by (auto simp: result_simps)
  obtain pre' where r: "recipient_wf full r" "full = pre' @ buf1" using parse_recipient_wf [OF p(1) Suc.prems(2)] by blast
  show ?case
    using Suc.IH [OF p(3) r(2)] insert_recipient_wf [OF p(2) r(1) Suc.prems(3,4)] by blast
qed auto

lemma SentMessage_parse_wf:
  assumes "SentMessage_parse P bs = Ok m"
  shows "snm_full_message m = bs \<and> distinct (map fst (snm_recipients m)) \<and>
    (\<forall>x \<in> snd ` set (snm_recipients m). recipient_wf bs x) \<and>
    slice_within bs (snm_shared_bytes m) \<and> 32 \<le> length (sl_bytes (snm_shared_bytes m)) \<and>
    (\<exists>k. sl_start (snm_shared_bytes m) = Some k \<and> drop k bs = sl_bytes (snm_shared_bytes m))"
proof -
  obtain v remaining n buf rs buf' where p: "bs = v # remaining" "decode_varint P remaining = Ok (n, buf)"
      "parse_recipients (length bs) v n [] buf = Ok (rs, buf')" "32 \<le> length buf'"
      "m = \<lparr>snm_full_message = bs, snm_version = v, snm_recipients = rs,
         snm_shared_bytes = \<lparr>sl_start = Some (length bs - length buf'), sl_bytes = buf'\<rparr>\<rparr>"
    using assms by (auto simp: SentMessage_parse_def result_simps PUBLIC_KEY_LEN_def split: list.splits if_splits)
  have "\<exists>x. remaining = x @ buf"
    using p(2) by (auto simp: decode_varint_def result_simps slice_range_def split: if_splits)
      (metis append_take_drop_id)
  then obtain pre where pre: "bs = pre @ buf" using p(1) by (metis append_Cons)
  have wf: "(\<forall>x \<in> snd ` set rs. recipient_wf bs x) \<and> distinct (map fst rs) \<and> (\<exists>pre'. bs = pre' @ buf')"
    using parse_recipients_wf [OF p(3) pre] by simp
  then obtain pre' where "bs = pre' @ buf'" by blast
  then have "slice_within bs \<lparr>sl_start = Some (length bs - length buf'), sl_bytes = buf'\<rparr>" "drop (length bs - length buf') bs = buf'"
    by (simp_all add: slice_within_def)
  then show ?thesis using wf p(4) by (simp add: p(5))
qed

text \<open>The ranges handed to the server select the bytes they promise, and none of the lookups panics.\<close>

lemma sent_message_ranges:
  assumes "SentMessage_parse P bs = Ok m" "(i, r) \<in> set (snm_recipients m)"
  shows "\<exists>a b k. range_for_recipient_key_material m r = Ok (a, b) \<and> a \<le> b \<and> b \<le> length bs \<and>
    take (b - a) (drop a bs) = sl_bytes (srp_c_and_at r) \<and> b - a = (if srp_devices r = [] then 0 else 48) \<and>
    offset_of_shared_bytes m = Ok k \<and> k + 32 \<le> length bs \<and>
    concat (received_message_parts_for_recipient m r) =
      SEALED_SENDER_V2_UUID_FULL_VERSION # take (b - a) (drop a bs) @ drop k bs"
proof -
  note wf = SentMessage_parse_wf [OF assms(1)]
  have r: "recipient_wf bs r" using wf assms(2) by force
  obtain k where k: "sl_start (snm_shared_bytes m) = Some k" "drop k bs = sl_bytes (snm_shared_bytes m)" using wf by blast
  then have sh: "offset_of_shared_bytes m = Ok k" "k + 32 \<le> length bs"
    using wf by (auto simp: offset_of_shared_bytes_def offset_within_full_message_def slice_within_def)
  show ?thesis
  proof (cases "srp_devices r = []")
    case True
    then have "sl_bytes (srp_c_and_at r) = []" using r by (simp add: recipient_wf_def)
    then show ?thesis
      using sh k(2) True by (simp add: range_for_recipient_key_material_def received_message_parts_for_recipient_def)
  next
    case False
    then have len: "length (sl_bytes (srp_c_and_at r)) = 48" using r by (simp add: recipient_wf_def)
    then obtain a where a: "sl_start (srp_c_and_at r) = Some a" "a + 48 \<le> length bs"
        "take 48 (drop a bs) = sl_bytes (srp_c_and_at r)"
      using r by (cases "sl_start (srp_c_and_at r)") (auto simp: recipient_wf_def slice_within_def)
    then have "range_for_recipient_key_material m r = Ok (a, a + 48)"
      using len wf by (auto simp: range_for_recipient_key_material_def offset_within_full_message_def Let_def)
    then show ?thesis
      using sh k(2) a False len by (simp add: received_message_parts_for_recipient_def)
  qed
qed

end
