(* ===== verification/Keyed_Sessions.thy ===== *)
theory Keyed_Sessions
  imports End_To_End
begin

text \<open>
  Double Ratchet sessions from a session key that was agreed beforehand, as \<open>spqxdh.rs\<close>,
  \<open>sealed_ringxkem_xhmqv.rs\<close> and \<open>sealed_ringxkem_x3dh.rs\<close> make them. The three modules hold the same
  two functions and differ in the label of their key derivation, which is an argument here. Two sessions
  made from the same key exchange their first message.
\<close>

definition initialize_alice_session_from_key ::
    "'r env \<Rightarrow> bytes \<Rightarrow> bytes \<Rightarrow> public_key \<Rightarrow> identity_key \<Rightarrow> identity_key \<Rightarrow> public_key \<Rightarrow> u32 \<Rightarrow> u32 \<Rightarrow> 'r \<Rightarrow>
     (session_record, signal_error) result \<times> 'r" where
  "initialize_alice_session_from_key E label session_key their_ratchet_key local_identity their_identity_key our_base_key
     local_registration_id remote_registration_id r =
     (let (root_key, ck, pqr_key) = derive_keys_with_label E label session_key;
          (sending_ratchet_key, r1) = KeyPair_generate E r;
          (sending_chain_root_key, sending_chain_chain_key) =
            create_chain E root_key their_ratchet_key (kp_private_key sending_ratchet_key);
          self_session = (local_identity = their_identity_key)
      in bindS (map_err (\<lambda>e. InvalidArgument
                 (''post-quantum ratchet: error creating initial A2B state: '' @ spqr_error_display E e))
               (spqr_initial_state E (spqr_session_params A2B pqr_key self_session)), r1) (\<lambda>pqr_state r1.
         (Ok (SessionRecord_new
               (set_remote_registration_id remote_registration_id
                 (set_local_registration_id local_registration_id
                   (set_sender_chain sending_ratchet_key sending_chain_chain_key
                     (add_receiver_chain their_ratchet_key ck
                       (SessionState_new CIPHERTEXT_MESSAGE_CURRENT_VERSION local_identity their_identity_key
                         sending_chain_root_key our_base_key pqr_state)))))), r1)))"

definition initialize_bob_session_from_key ::
    "'r env \<Rightarrow> bytes \<Rightarrow> bytes \<Rightarrow> public_key \<Rightarrow> identity_key \<Rightarrow> identity_key \<Rightarrow> key_pair \<Rightarrow> u32 \<Rightarrow> u32 \<Rightarrow>
     (session_record, signal_error) result" where
  "initialize_bob_session_from_key E label session_key their_base_key local_identity their_identity_key
     our_ratchet_key_pair local_registration_id remote_registration_id =
     (let (root_key, ck, pqr_key) = derive_keys_with_label E label session_key;
          self_session = (local_identity = their_identity_key)
      in bindR (map_err (\<lambda>e. InvalidArgument
                 (''post-quantum ratchet: error creating initial B2A state: '' @ spqr_error_display E e))
               (spqr_initial_state E (spqr_session_params B2A pqr_key self_session))) (\<lambda>pqr_state.
         Ok (SessionRecord_new
              (set_remote_registration_id remote_registration_id
                (set_local_registration_id local_registration_id
                  (set_sender_chain our_ratchet_key_pair ck
                    (SessionState_new CIPHERTEXT_MESSAGE_CURRENT_VERSION local_identity their_identity_key
                      root_key their_base_key pqr_state)))))))"

subsection \<open>Sessions from the same key belong together\<close>

lemma derive_keys_with_label_ok:
  assumes "hash_lengths E" "derive_keys_with_label E label s = (rk, ck, pk)"
  shows "length (root_key_key rk) = 32" "chain_key_ok ck" "chain_key_index ck = 0" "length pk = 32"
  using assms by (auto simp: derive_keys_with_label_def Let_def hash_lengths_def chain_key_ok_def)

lemma keyed_sessions_paired:
  assumes laws: "hash_lengths E" "dh_ok E" "curve_lengths E" "rng_length E" "spqr_pairs E"
    and keys: "public_key_ok idA" "public_key_ok idB" "key_pair_ok E ratchet" "private_key_ok (kp_private_key ratchet)"
    and alice: "initialize_alice_session_from_key E label key (kp_public_key ratchet) idA idB base rA rB r = (Ok recA, r1)"
  obtains stA stB where "recA = SessionRecord_new stA" "s_pending_pre_key stA = None"
    "initialize_bob_session_from_key E label key base idB idA ratchet rB rA = Ok (SessionRecord_new stB)"
    "sessions_paired E stA stB" "remote_identity_key stA = Ok (Some idB)" "remote_identity_key stB = Ok (Some idA)"
    "\<exists>p. spqr_initial_state E p = Ok (s_pq_ratchet_state stA)"
proof -
  obtain rk ck pqr where d: "derive_keys_with_label E label key = (rk, ck, pqr)" by (metis prod_cases3)
  obtain kp r0 where kp: "KeyPair_generate E r = (kp, r0)" by fastforce
  obtain rk' ck' where c: "create_chain E rk (kp_public_key ratchet) (kp_private_key kp) = (rk', ck')" by fastforce
  obtain pqA where pqA: "spqr_initial_state E (spqr_session_params A2B pqr (idA = idB)) = Ok pqA"
    using alice by (auto simp: initialize_alice_session_from_key_def Let_def d kp c bindS_eq_Ok result_simps)
  have flag: "(idA = idB) = (idB = idA)" by auto
  obtain pqB where pqB: "spqr_initial_state E (spqr_session_params B2A pqr (idB = idA)) = Ok pqB"
    and spqr: "\<And>r a' key msg r'. spqr_send E pqA r = (Ok (a', key, msg), r') \<Longrightarrow> \<exists>b'. spqr_recv E pqB msg = Ok (b', key)"
    using spqr_pairsD [OF laws(5) pqA] unfolding flag by blast
  define stA where "stA = set_remote_registration_id rB (set_local_registration_id rA (set_sender_chain kp ck'
      (add_receiver_chain (kp_public_key ratchet) ck
        (SessionState_new CIPHERTEXT_MESSAGE_CURRENT_VERSION idA idB rk' base pqA))))"
  define stB where "stB = set_remote_registration_id rA (set_local_registration_id rB (set_sender_chain ratchet ck
      (SessionState_new CIPHERTEXT_MESSAGE_CURRENT_VERSION idB idA rk base pqB)))"
  note lens = derive_keys_with_label_ok [OF laws(1) d]
  have ck': "chain_key_ok ck'" "chain_key_index ck' = 0"
    using create_chain_ok(1,3) [of E rk "kp_public_key ratchet" "kp_private_key kp"] laws(1) c by auto
  have eph: "kp_public_key kp = PrivateKey_public_key E (kp_private_key kp)" "public_key_ok (kp_public_key kp)"
    using KeyPair_generate_key_pair_ok [OF laws(2), of r] KeyPair_generate_ok(1) [OF laws(3,4), of r] kp
    by (simp_all add: key_pair_ok_def)
  have ratchet: "public_key_ok (kp_public_key ratchet)"
    using keys(3) laws(3) by (simp add: key_pair_ok_def PrivateKey_public_key_def public_key_ok_def curve_lengths_def)
  have agree: "create_chain E rk (kp_public_key kp) (kp_private_key ratchet) = (rk', ck')"
    using create_chain_agree [OF laws(2), of rk "kp_private_key kp" "kp_private_key ratchet"] keys(3) c eph(1)
    by (simp add: key_pair_ok_def)
  note unfold = set_remote_registration_id_def set_local_registration_id_def set_sender_chain_def add_receiver_chain_def
    SessionState_new_def CIPHERTEXT_MESSAGE_CURRENT_VERSION_def IdentityKey_serialize_def
  have A: "get_sender_chain_key stA = Ok ck'" "sender_ratchet_key stA = Ok (kp_public_key kp)" "session_version stA = Ok 4"
    "local_identity_key stA = Ok idA" "remote_identity_key stA = Ok (Some idB)" "s_pq_ratchet_state stA = pqA"
    "s_pending_pre_key stA = None"
    using ck' eph(2) keys(1,2)
    by (simp_all add: stA_def unfold get_sender_chain_key_def to_pb_chain_key_def chain_key_ok_def
        sender_ratchet_key_def public_key_serde.de_ser session_version_def local_identity_key_def
        remote_identity_key_def decode_PublicKey_serialize)
  have B: "session_healthy stB" "s_receiver_chains stB = []" "state_root_key stB = Ok rk" "get_sender_chain_key stB = Ok ck"
    "sender_ratchet_private_key E stB = Ok (kp_private_key ratchet)" "session_version stB = Ok 4"
    "local_identity_key stB = Ok idB" "remote_identity_key stB = Ok (Some idA)" "s_pq_ratchet_state stB = pqB"
    using lens keys ratchet PrivateKey_deserialize_serialize [of "kp_private_key ratchet" E]
    by (simp_all add: stB_def unfold session_ok_def state_root_key_def get_sender_chain_key_def to_pb_chain_key_def
        chain_key_ok_def sender_ratchet_private_key_def key_pair_ok_def session_version_def
        local_identity_key_def remote_identity_key_def decode_PublicKey_serialize
        session_healthy_def seeded_def sender_ratchet_key_def public_key_serde.de_ser)
  show thesis
  proof (rule that)
    show "recA = SessionRecord_new stA"
      using alice by (simp add: initialize_alice_session_from_key_def Let_def d kp c pqA stA_def)
    show "initialize_bob_session_from_key E label key base idB idA ratchet rB rA = Ok (SessionRecord_new stB)"
      by (simp add: initialize_bob_session_from_key_def Let_def d pqB stB_def)
    show "sessions_paired E stA stB"
      unfolding sessions_paired_def using spqr ck'(2) eph(2) agree by (auto simp: A B)
    show "\<exists>p. spqr_initial_state E p = Ok (s_pq_ratchet_state stA)" using pqA by (auto simp: A(6))
  qed (rule A B(8))+
qed

lemma alice_from_key_succeeds:
  assumes "spqr_live E"
  shows "\<exists>rec r1. initialize_alice_session_from_key E label key ratchet idA idB base rA rB r = (Ok rec, r1)"
proof -
  obtain rk ck pqr where d: "derive_keys_with_label E label key = (rk, ck, pqr)" by (metis prod_cases3)
  obtain pq where "spqr_initial_state E (spqr_session_params A2B pqr (idA = idB)) = Ok pq"
    using assms unfolding spqr_live_def by blast
  then show ?thesis by (auto simp: initialize_alice_session_from_key_def Let_def d split: prod.split)
qed

text \<open>Alice's first message in a paired session, sent and received through the stores.\<close>

lemma paired_exchange:
  assumes laws: "hash_lengths E" "curve_lengths E" "rng_length E" "cbc_ok E"
    and pair: "sessions_paired E stA stB" "s_pending_pre_key stA = None"
      "\<exists>x r'. spqr_send E (s_pq_ratchet_state stA) r = (Ok x, r')"
    and trust: "remote_identity_key stA = Ok (Some kB)" "is_trusted_identity b kB Sending sA"
      "remote_identity_key stB = Ok (Some kA)" "is_trusted_identity a kA Receiving sB"
  shows "\<exists>m wA wB.
    message_encrypt E ptext b now (store_session b (SessionRecord_new stA) sA, r) = (Ok (CSignalMessage m), wA) \<and>
    message_decrypt_signal E m a (store_session a (SessionRecord_new stB) sB, rB) = (Ok ptext, wB)"
proof -
  obtain x r1 where send: "spqr_send E (s_pq_ratchet_state stA) r = (Ok x, r1)" using pair(3) by blast
  have items: "unacknowledged_pre_key_message_items stA = Ok None"
    by (simp add: unacknowledged_pre_key_message_items_def pair(2))
  obtain msg stA' where e: "encrypt_with_state E ptext b now stA r = (Ok (msg, kB, stA'), r1)"
  proof -
    obtain ck eph i where "get_sender_chain_key stA = Ok ck" "sender_ratchet_key stA = Ok eph"
        "session_version stA = Ok 4" "local_identity_key stA = Ok i"
      using pair(1) unfolding sessions_paired_def by blast
    then show thesis
      using encrypt_with_state_succeeds [OF laws(1,4) _ _ _ _ trust(1) send items, of ck eph i now ptext b] that by auto
  qed
  obtain m where m: "msg = CSignalMessage m"
    using e items by (auto elim: encrypt_with_state_cases)
  have enc: "message_encrypt E ptext b now (store_session b (SessionRecord_new stA) sA, r) =
      (Ok (CSignalMessage m), (store_session b (set_session_state stA' (SessionRecord_new stA))
        (snd (save_identity b kB (store_session b (SessionRecord_new stA) sA))), r1))"
    using e m trust(2) by (simp add: message_encrypt_def sessions.load_store_same SessionRecord_new_def Let_def)
  have sig: "signal_part msg = Some m" by (simp add: m signal_part_def)
  note first = paired_first_message [OF laws(1,4) pair(1) e sig]
  obtain st rB' where d: "decrypt_message_with_state E stB m Whisper rB = (Ok (ptext, st), rB')"
    using first(2) by blast
  have healthy: "session_healthy stB" "public_key_ok (sm_sender_ratchet_key m)" "sm_counter m \<noteq> - 1"
    using pair(1) first(1) by (simp_all add: sessions_paired_def message_ok_def)
  then have "same_identity stB st"
    using decrypt_message_with_state_step [OF _ healthy(2) laws(1) healthy(3) d] by (auto simp: session_healthy_def)
  then have remote: "remote_identity_key st = Ok (Some kA)" using trust(3) same_identityD(2) by simp
  have "decrypt_message_with_record E (SessionRecord_new stB) m Whisper rB =
      (Ok (ptext, set_session_state st (SessionRecord_new stB)), rB')"
    using healthy laws(1-3) d by (intro decrypt_message_with_record_current) (auto simp: SessionRecord_new_def)
  then have "\<exists>wB. message_decrypt_signal E m a (store_session a (SessionRecord_new stB) sB, rB) = (Ok ptext, wB)"
    using remote trust(4)
    by (simp add: message_decrypt_signal_def sessions.load_store_same set_session_state_def Let_def)
  then show ?thesis using enc by blast
qed

end
