(* ===== verification/Spqxdh.thy ===== *)
theory Spqxdh
  imports Keyed_Sessions Sealed_Sender_Correctness
begin

text \<open>
  \<open>rust/protocol/src/spqxdh.rs\<close>: the sealed PQXDH handshake. The sender derives a sealing key and a
  chain key from its ephemeral key and the recipient's bundle, encrypts its certificate under the
  sealing key, mixes its identity into the chain key and authenticates the whole message with the
  result. Both parties make their sessions from the session key.
\<close>

definition spqxdh_aes_256_ctr_encrypt :: "'r env \<Rightarrow> bytes \<Rightarrow> bytes \<Rightarrow> (bytes, signal_error) result" where
  "spqxdh_aes_256_ctr_encrypt E ptext key =
     map_err (\<lambda>e. case e of EncBadKeyOrIv \<Rightarrow> InvalidArgument ''invalid key or IV for AES-256-CTR'')
       (aes_256_ctr_encrypt E ptext key)"

definition spqxdh_aes_256_ctr_decrypt :: "'r env \<Rightarrow> bytes \<Rightarrow> bytes \<Rightarrow> (bytes, signal_error) result" where
  "spqxdh_aes_256_ctr_decrypt E ctext key =
     map_err (\<lambda>e. case e of
         BadKeyOrIv \<Rightarrow> InvalidArgument ''invalid key or IV for AES-256-CTR''
       | BadCiphertext msg \<Rightarrow> InvalidSealedSenderMessage msg)
       (aes_256_ctr_decrypt E ctext key)"

definition SEALED_SENDER_V3_SPQXDH_UUID_FULL_VERSION :: u8 where
  "SEALED_SENDER_V3_SPQXDH_UUID_FULL_VERSION = 0x34"

definition PROTOCOL_LABEL_ONETIME_PREKEY_PRESENT :: bytes where
  "PROTOCOL_LABEL_ONETIME_PREKEY_PRESENT =
     ascii ''Signal_SealedPQXDH_20251111_X25519_SHA-256_CRYSTALS-KYBER-1024_ONETIME_KEY_PRESENT''"

definition PROTOCOL_LABEL_ONETIME_PREKEY_ABSENT :: bytes where
  "PROTOCOL_LABEL_ONETIME_PREKEY_ABSENT =
     ascii ''Signal_SealedPQXDH_20251111_X25519_SHA-256_CRYSTALS-KYBER-1024_ONETIME_KEY_ABSENT_''"

definition SPQXDH_SESSION_LABEL :: bytes where
  "SPQXDH_SESSION_LABEL = ascii ''Signal_SealedPQXDH_Session_20251111''"

record spqxdh_message =
  sx_message_version :: u8
  sx_ec_ephemeral :: bytes
  sx_kem_ciphertext :: bytes
  sx_pre_key_id :: "pre_key_id option"
  sx_signed_pre_key_id :: signed_pre_key_id
  sx_mlkem_pre_key_id :: kyber_pre_key_id
  sx_inner_msg_ct :: bytes
  sx_sealed_ciphertext :: bytes

record spqxdh_message_data =
  sxd_msg :: spqxdh_message
  sxd_mac :: bytes
  sxd_sealing_key :: bytes

definition SealedPQXDHMessageData_serialize :: "'r env \<Rightarrow> spqxdh_message_data \<Rightarrow> bytes" where
  "SealedPQXDHMessageData_serialize E d =
     (let msg = sxd_msg d;
          pb = \<lparr>wsp_pre_key_id = sx_pre_key_id msg, wsp_signed_pre_key_id = Some (sx_signed_pre_key_id msg),
                wsp_mlkem_pre_key_id = Some (sx_mlkem_pre_key_id msg), wsp_ec_ephemeral = Some (sx_ec_ephemeral msg),
                wsp_kem_ciphertext = Some (sx_kem_ciphertext msg), wsp_inner_msg_ct = Some (sx_inner_msg_ct msg),
                wsp_sealed_ciphertext = (if sx_sealed_ciphertext msg = [] then None else Some (sx_sealed_ciphertext msg))\<rparr>
      in SEALED_SENDER_V3_SPQXDH_UUID_FULL_VERSION # encode (sealed_pqxdh_codec E) pb @ sxd_mac d)"

record sealing_result =
  sr_sealing_and_chain_key :: bytes
  sr_ec_ephemeral :: bytes
  sr_kem_ciphertext :: bytes

definition prepare_sealing_key_send ::
    "'r env \<Rightarrow> pre_key_bundle \<Rightarrow> 'r \<Rightarrow> (sealing_result, signal_error) result \<times> 'r" where
  "prepare_sealing_key_send E bundle r =
     (let info = (if b_pre_key_public bundle \<noteq> None then PROTOCOL_LABEL_ONETIME_PREKEY_PRESENT
                  else PROTOCOL_LABEL_ONETIME_PREKEY_ABSENT);
          (ephemeral, r1) = KeyPair_generate E r;
          secrets1 = calculate_agreement E (kp_private_key ephemeral) (b_identity_key bundle)
            @ calculate_agreement E (kp_private_key ephemeral) (esp_public_key (b_ec_signed_pre_key bundle))
            @ (case b_pre_key_public bundle of
                 None \<Rightarrow> [] | Some opk \<Rightarrow> calculate_agreement E (kp_private_key ephemeral) opk)
      in bindS (kem_PublicKey_encapsulate E (kpk_public_key (b_kyber_pre_key bundle)) r1) (\<lambda>(ss, ct) r2.
         let sealing_and_chain_key = hkdf_sha256 E None (secrets1 @ ss) info 64;
             ephemeral_dh_key = PublicKey_serialize (kp_public_key ephemeral)
         in bindS (assertR (length ephemeral_dh_key = 33), r2) (\<lambda>_ r2.
            (Ok \<lparr>sr_sealing_and_chain_key = sealing_and_chain_key, sr_ec_ephemeral = ephemeral_dh_key,
                 sr_kem_ciphertext = ct\<rparr>, r2))))"

text \<open>The session key and the MAC key, from the chain key and the agreement with the sender's identity.\<close>

definition spqxdh_identity_mixin :: "'r env \<Rightarrow> bytes \<Rightarrow> bytes \<Rightarrow> bytes \<times> bytes" where
  "spqxdh_identity_mixin E chain_key ss =
     (let session_and_mac_key = hkdf_sha256 E None (chain_key @ ss) (ascii ''Signal_SealedPQXDH_LocalIdentity_Mixin'') 64
      in (take 32 session_and_mac_key, drop 32 session_and_mac_key))"

definition spqxdh_send ::
    "'r env \<Rightarrow> pre_key_bundle \<Rightarrow> sender_certificate \<Rightarrow> u32 \<Rightarrow> ciphertext_message_type \<Rightarrow> content_hint \<Rightarrow>
     protocol_store \<Rightarrow> 'r \<Rightarrow> (spqxdh_message_data \<times> bytes, signal_error) result \<times> 'r" where
  "spqxdh_send E bundle cert registration_id msg_type hint s r =
     bindS (prepare_sealing_key_send E bundle r) (\<lambda>sealing r1.
     let our_identity = get_identity_key_pair s;
         sealing_key = take 32 (sr_sealing_and_chain_key sealing);
         chain_key = drop 32 (sr_sealing_and_chain_key sealing);
         ss = calculate_agreement E (id_private_key our_identity) (esp_public_key (b_ec_signed_pre_key bundle));
         (session_key, mac_key) = spqxdh_identity_mixin E chain_key ss;
         inner_bytes = le_bytes 4 (unat registration_id) @ [message_type_value msg_type, ucast (ContentHint_to_u32 hint)]
           @ sec_serialized cert
     in bindS (case aes_256_ctr_encrypt E inner_bytes sealing_key of Ok ct \<Rightarrow> Ok ct | _ \<Rightarrow> Panic, r1) (\<lambda>inner_msg_ct r1.
        let msg = \<lparr>sx_message_version = SEALED_SENDER_V3_SPQXDH_UUID_FULL_VERSION,
                   sx_ec_ephemeral = sr_ec_ephemeral sealing, sx_kem_ciphertext = sr_kem_ciphertext sealing,
                   sx_pre_key_id = b_pre_key_id bundle, sx_signed_pre_key_id = esp_id (b_ec_signed_pre_key bundle),
                   sx_mlkem_pre_key_id = kpk_id (b_kyber_pre_key bundle), sx_inner_msg_ct = inner_msg_ct,
                   sx_sealed_ciphertext = []\<rparr>;
            pb = \<lparr>wsp_pre_key_id = sx_pre_key_id msg, wsp_signed_pre_key_id = Some (sx_signed_pre_key_id msg),
                  wsp_mlkem_pre_key_id = Some (sx_mlkem_pre_key_id msg), wsp_ec_ephemeral = Some (sx_ec_ephemeral msg),
                  wsp_kem_ciphertext = Some (sx_kem_ciphertext msg), wsp_inner_msg_ct = Some (sx_inner_msg_ct msg),
                  wsp_sealed_ciphertext = None\<rparr>;
            serialized = SEALED_SENDER_V3_SPQXDH_UUID_FULL_VERSION # encode (sealed_pqxdh_codec E) pb;
            mac = hmac_sha256 E mac_key serialized
        in (Ok (\<lparr>sxd_msg = msg, sxd_mac = mac, sxd_sealing_key = sealing_key\<rparr>, session_key), r1)))"

definition prepare_sealing_key_recv ::
    "'r env \<Rightarrow> public_key \<Rightarrow> bytes \<Rightarrow> identity_key_pair \<Rightarrow> key_pair \<Rightarrow> key_pair option \<Rightarrow> kem_key_pair \<Rightarrow>
     (bytes, signal_error) result" where
  "prepare_sealing_key_recv E ec_ephemeral kem_ciphertext id_key_pair signed_pre_key_pair one_time_pre_key_pair mlkem_key_pair =
     (let info = (if one_time_pre_key_pair \<noteq> None then PROTOCOL_LABEL_ONETIME_PREKEY_PRESENT
                  else PROTOCOL_LABEL_ONETIME_PREKEY_ABSENT);
          secrets1 = calculate_agreement E (id_private_key id_key_pair) ec_ephemeral
            @ calculate_agreement E (kp_private_key signed_pre_key_pair) ec_ephemeral
            @ (case one_time_pre_key_pair of
                 None \<Rightarrow> [] | Some opk \<Rightarrow> calculate_agreement E (kp_private_key opk) ec_ephemeral)
      in bindR (kem_SecretKey_decapsulate E (kkp_secret_key mlkem_key_pair) kem_ciphertext) (\<lambda>ss.
         Ok (hkdf_sha256 E None (secrets1 @ ss) info 64)))"

record sealed_recv_result =
  rr_sender_certificate :: sender_certificate
  rr_registration_id :: u32
  rr_msg_type :: ciphertext_message_type
  rr_content_hint :: content_hint
  rr_session_key :: bytes

text \<open>The checks on the decoded message, and the fields of \<open>SealedPQXDHMessage\<close>.\<close>

definition spqxdh_parse :: "'r env \<Rightarrow> bytes \<Rightarrow> (spqxdh_message \<times> bytes \<times> bytes, signal_error) result" where
  "spqxdh_parse E msg_bytes =
     (if length msg_bytes < 33 then Err InvalidProtobufEncoding
      else
        let message_version = msg_bytes ! 0;
            encoded = take (length msg_bytes - 32) msg_bytes;
            expected_mac = drop (length msg_bytes - 32) msg_bytes
        in bindR (ok_or InvalidProtobufEncoding (decode (sealed_pqxdh_codec E) (drop 1 encoded))) (\<lambda>pb.
           bindR (ok_or InvalidProtobufEncoding (wsp_ec_ephemeral pb)) (\<lambda>ec_ephemeral.
           if length ec_ephemeral \<noteq> 33 then Err InvalidProtobufEncoding
           else
             bindR (ok_or InvalidProtobufEncoding (wsp_kem_ciphertext pb)) (\<lambda>kem_ciphertext.
             bindR (ok_or InvalidProtobufEncoding (wsp_signed_pre_key_id pb)) (\<lambda>signed_id.
             bindR (ok_or InvalidProtobufEncoding (wsp_mlkem_pre_key_id pb)) (\<lambda>mlkem_id.
             bindR (ok_or InvalidProtobufEncoding (wsp_inner_msg_ct pb)) (\<lambda>inner_msg_ct.
             Ok (\<lparr>sx_message_version = message_version, sx_ec_ephemeral = ec_ephemeral,
                  sx_kem_ciphertext = kem_ciphertext, sx_pre_key_id = wsp_pre_key_id pb, sx_signed_pre_key_id = signed_id,
                  sx_mlkem_pre_key_id = mlkem_id, sx_inner_msg_ct = inner_msg_ct,
                  sx_sealed_ciphertext = (case wsp_sealed_ciphertext pb of None \<Rightarrow> [] | Some c \<Rightarrow> c)\<rparr>,
                 encoded, expected_mac))))))))"

definition spqxdh_recv :: "'r env \<Rightarrow> ss_prims \<Rightarrow> bytes \<Rightarrow> protocol_store \<Rightarrow> (sealed_recv_result, signal_error) result" where
  "spqxdh_recv E P msg_bytes s =
     bindR (spqxdh_parse E msg_bytes) (\<lambda>(msg, encoded, expected_mac).
     let id_key_pair = get_identity_key_pair s in
     bindR (bindR (get_signed_pre_key (sx_signed_pre_key_id msg) s) (SignedPreKeyRecord_key_pair E)) (\<lambda>signed_pre_key_pair.
     bindR (bindR (get_kyber_pre_key (sx_mlkem_pre_key_id msg) s) KyberPreKeyRecord_key_pair) (\<lambda>mlkem_key_pair.
     bindR (case sx_pre_key_id msg of
              Some pre_key_id \<Rightarrow> mapR Some (bindR (get_pre_key pre_key_id s) (PreKeyRecord_key_pair E))
            | None \<Rightarrow> Ok None) (\<lambda>one_time_pre_key_pair.
     bindR (map_err (\<lambda>_. InvalidProtobufEncoding) (PublicKey_deserialize (sx_ec_ephemeral msg))) (\<lambda>ec_ephemeral_key.
     bindR (prepare_sealing_key_recv E ec_ephemeral_key (sx_kem_ciphertext msg) id_key_pair signed_pre_key_pair
              one_time_pre_key_pair mlkem_key_pair) (\<lambda>sealing_and_chain_key.
     let sealing_key = take 32 sealing_and_chain_key; chain_key = drop 32 sealing_and_chain_key in
     bindR (case aes_256_ctr_decrypt E (sx_inner_msg_ct msg) sealing_key of
              Ok pt \<Rightarrow> Ok pt
            | Err (BadCiphertext e) \<Rightarrow> Err (InvalidSealedSenderMessage e)
            | _ \<Rightarrow> Panic) (\<lambda>inner_msg.
     if length inner_msg < 6 then Err (InvalidSealedSenderMessage ''inner message too short'')
     else
       let registration_id = of_nat (le_nat (take 4 inner_msg)) in
       bindR (ok_or (InvalidSealedSenderMessage ''invalid message type'') (message_type_try_from (inner_msg ! 4))) (\<lambda>msg_type.
       let hint = ContentHint_from (ucast (inner_msg ! 5)) in
       bindR (SenderCertificate_deserialize E P (drop 6 inner_msg)) (\<lambda>sender_certificate.
       let ss = calculate_agreement E (kp_private_key signed_pre_key_pair) (sec_key sender_certificate);
           (session_key, mac_key) = spqxdh_identity_mixin E chain_key ss
       in if hmac_sha256 E mac_key encoded \<noteq> expected_mac then Err BadSealedPQXDHMac
          else Ok \<lparr>rr_sender_certificate = sender_certificate, rr_registration_id = registration_id,
                   rr_msg_type = msg_type, rr_content_hint = hint, rr_session_key = session_key\<rparr>)))))))))"

definition spqxdh_initialize_alice_session ::
    "'r env \<Rightarrow> bytes \<Rightarrow> public_key \<Rightarrow> identity_key \<Rightarrow> identity_key \<Rightarrow> public_key \<Rightarrow> u32 \<Rightarrow> u32 \<Rightarrow> 'r \<Rightarrow>
     (session_record, signal_error) result \<times> 'r" where
  "spqxdh_initialize_alice_session E = initialize_alice_session_from_key E SPQXDH_SESSION_LABEL"

definition spqxdh_initialize_bob_session ::
    "'r env \<Rightarrow> bytes \<Rightarrow> public_key \<Rightarrow> identity_key \<Rightarrow> identity_key \<Rightarrow> key_pair \<Rightarrow> u32 \<Rightarrow> u32 \<Rightarrow>
     (session_record, signal_error) result" where
  "spqxdh_initialize_bob_session E = initialize_bob_session_from_key E SPQXDH_SESSION_LABEL"

end
