(* ===== verification/Spqxdh_Correctness.thy ===== *)
theory Spqxdh_Correctness
  imports Spqxdh
begin

text \<open>
  The sealed PQXDH handshake from sender to recipient: what \<open>recv\<close> returns for a message of \<open>send\<close>,
  what an accepted message proves about its sender, and the first message of the sessions that both
  make from the session key.
\<close>

lemma sealing_keys_agree:
  assumes laws: "hash_lengths E" "dh_ok E" "curve_lengths E" "rng_length E"
    and bob: "serves_bundle E bundle spk kyber otk sB"
  obtains eph x r1 where "prepare_sealing_key_send E bundle r = (Ok x, r1)"
    "length (sr_ec_ephemeral x) = 33" "PublicKey_deserialize (sr_ec_ephemeral x) = Ok eph"
    "length (sr_sealing_and_chain_key x) = 64"
    "prepare_sealing_key_recv E eph (sr_kem_ciphertext x) (get_identity_key_pair sB) spk otk kyber =
       Ok (sr_sealing_and_chain_key x)"
proof -
  obtain kp r0 where kp: "KeyPair_generate E r = (kp, r0)" by fastforce
  have pub: "kp_public_key kp = PrivateKey_public_key E (kp_private_key kp)" "public_key_ok (kp_public_key kp)"
    using KeyPair_generate_key_pair_ok [OF laws(2), of r] KeyPair_generate_ok(1) [OF laws(3,4), of r] kp
    by (simp_all add: key_pair_ok_def)
  have kem: "kem_matching E (kpk_public_key (b_kyber_pre_key bundle)) (kkp_secret_key kyber)"
    and spk: "esp_public_key (b_ec_signed_pre_key bundle) = PrivateKey_public_key E (kp_private_key spk)"
    and ident: "b_identity_key bundle = PrivateKey_public_key E (id_private_key (get_identity_key_pair sB))"
    and opk: "b_pre_key_public bundle = map_option (\<lambda>k. PrivateKey_public_key E (kp_private_key k)) otk"
    using bob by (auto simp: serves_bundle_def key_pair_ok_def)
  obtain ss ct r1 where enc: "kem_PublicKey_encapsulate E (kpk_public_key (b_kyber_pre_key bundle)) r0 = (Ok (ss, ct), r1)"
      "kem_SecretKey_decapsulate E (kkp_secret_key kyber) ct = Ok ss"
    using kem_roundtrip [OF kem, of r0] by blast
  show thesis
  proof (rule that)
    show "prepare_sealing_key_send E bundle r =
        (Ok \<lparr>sr_sealing_and_chain_key = hkdf_sha256 E None
          ((calculate_agreement E (kp_private_key kp) (b_identity_key bundle)
            @ calculate_agreement E (kp_private_key kp) (esp_public_key (b_ec_signed_pre_key bundle))
            @ (case b_pre_key_public bundle of None \<Rightarrow> [] | Some k \<Rightarrow> calculate_agreement E (kp_private_key kp) k)) @ ss)
          (if b_pre_key_public bundle \<noteq> None then PROTOCOL_LABEL_ONETIME_PREKEY_PRESENT
           else PROTOCOL_LABEL_ONETIME_PREKEY_ABSENT) 64,
         sr_ec_ephemeral = PublicKey_serialize (kp_public_key kp), sr_kem_ciphertext = ct\<rparr>, r1)"
      using enc(1) length_PublicKey_serialize [OF pub(2)] by (simp add: prepare_sealing_key_send_def Let_def kp)
  qed (use laws(1) enc(2) pub length_PublicKey_serialize [OF pub(2)] public_key_serde.de_ser [OF pub(2)]
        calculate_agreement_commute [OF laws(2)] in
      \<open>cases otk; simp add: prepare_sealing_key_recv_def hash_lengths_def spk ident opk\<close>)+
qed

text \<open>A content hint survives the single byte it is sent in.\<close>

definition hint_fits :: "content_hint \<Rightarrow> bool" where
  "hint_fits h \<longleftrightarrow> ContentHint_to_u32 h < 256 \<and> ContentHint_from (ContentHint_to_u32 h) = h"

lemma hint_byte: "hint_fits h \<Longrightarrow> ContentHint_from (ucast (ucast (ContentHint_to_u32 h) :: u8)) = h"
proof -
  assume h: "hint_fits h"
  then have "ucast (ucast (ContentHint_to_u32 h) :: u8) = ContentHint_to_u32 h"
    unfolding hint_fits_def 
    by (intro word_unat_eq_iff [THEN iffD2])
      (simp add: word_less_nat_alt unsigned_ucast_eq unsigned_take_bit_eq take_bit_nat_eq_self)
  then show ?thesis using h by (simp add: hint_fits_def)
qed

lemma u32_le_bytes: "of_nat (le_nat (le_bytes 4 (unat n))) = (n :: u32)"
proof -
  have "unat n < 256 ^ 4" using unsigned_less [of n, where 'a = nat] by simp
  then show ?thesis by (simp add: le_nat_le_bytes)
qed

lemma spqxdh_agreement:
  assumes laws: "hash_lengths E" "dh_ok E" "curve_lengths E" "rng_length E" "keystream_length E"
      "codec_ok (sealed_pqxdh_codec E)"
    and alice: "identity_consistent E (get_identity_key_pair sA)" "sender_certificate_ok E P cert"
      "sec_key cert = id_identity_key (get_identity_key_pair sA)" "hint_fits hint"
    and bob: "serves_bundle E bundle spk kyber otk sB"
  obtains data key r1 where "spqxdh_send E bundle cert reg t hint sA r = (Ok (data, key), r1)" "length key = 32"
    "spqxdh_recv E P (SealedPQXDHMessageData_serialize E data) sB =
       Ok \<lparr>rr_sender_certificate = cert, rr_registration_id = reg, rr_msg_type = t, rr_content_hint = hint,
           rr_session_key = key\<rparr>"
    "\<exists>eph. PublicKey_deserialize (sx_ec_ephemeral (sxd_msg data)) = Ok eph"
proof -
  obtain eph x r1 where x: "prepare_sealing_key_send E bundle r = (Ok x, r1)" "length (sr_ec_ephemeral x) = 33"
      "PublicKey_deserialize (sr_ec_ephemeral x) = Ok eph" "length (sr_sealing_and_chain_key x) = 64"
      "prepare_sealing_key_recv E eph (sr_kem_ciphertext x) (get_identity_key_pair sB) spk otk kyber =
        Ok (sr_sealing_and_chain_key x)"
    using sealing_keys_agree [OF laws(1-4) bob] by metis
  let ?sealing = "take 32 (sr_sealing_and_chain_key x)" and ?chain = "drop 32 (sr_sealing_and_chain_key x)"
  let ?inner = "le_bytes 4 (unat reg) @ [message_type_value t, ucast (ContentHint_to_u32 hint)] @ sec_serialized cert"
  have spk: "esp_public_key (b_ec_signed_pre_key bundle) = PrivateKey_public_key E (kp_private_key spk)"
      "bindR (get_signed_pre_key (esp_id (b_ec_signed_pre_key bundle)) sB) (SignedPreKeyRecord_key_pair E) = Ok spk"
      "bindR (get_kyber_pre_key (kpk_id (b_kyber_pre_key bundle)) sB) KyberPreKeyRecord_key_pair = Ok kyber"
      "(case b_pre_key_id bundle of
          Some i \<Rightarrow> mapR Some (bindR (get_pre_key i sB) (PreKeyRecord_key_pair E)) | None \<Rightarrow> Ok None) = Ok otk"
    using bob by (auto simp: serves_bundle_def key_pair_ok_def split: option.splits)
  obtain sk mk where keys: "spqxdh_identity_mixin E ?chain
      (calculate_agreement E (id_private_key (get_identity_key_pair sA)) (esp_public_key (b_ec_signed_pre_key bundle))) = (sk, mk)"
      "length sk = 32"
    using laws(1) by (simp add: spqxdh_identity_mixin_def Let_def hash_lengths_def)
  have keys': "spqxdh_identity_mixin E ?chain (calculate_agreement E (kp_private_key spk) (sec_key cert)) = (sk, mk)"
    using keys(1) alice(1,3) calculate_agreement_commute [OF laws(2)] by (simp add: spk(1) identity_consistent_def)
  have "length ?sealing = 32" using x(4) by simp
  then obtain ct where ct: "aes_256_ctr_encrypt E ?inner ?sealing = Ok ct" "aes_256_ctr_decrypt E ct ?sealing = Ok ?inner"
    using aes_256_ctr_roundtrip [OF laws(5)] by blast
  define msg where "msg = \<lparr>sx_message_version = SEALED_SENDER_V3_SPQXDH_UUID_FULL_VERSION,
      sx_ec_ephemeral = sr_ec_ephemeral x, sx_kem_ciphertext = sr_kem_ciphertext x, sx_pre_key_id = b_pre_key_id bundle,
      sx_signed_pre_key_id = esp_id (b_ec_signed_pre_key bundle), sx_mlkem_pre_key_id = kpk_id (b_kyber_pre_key bundle),
      sx_inner_msg_ct = ct, sx_sealed_ciphertext = []\<rparr>"
  define pb where "pb = \<lparr>wsp_pre_key_id = b_pre_key_id bundle, wsp_signed_pre_key_id = Some (esp_id (b_ec_signed_pre_key bundle)),
      wsp_mlkem_pre_key_id = Some (kpk_id (b_kyber_pre_key bundle)), wsp_ec_ephemeral = Some (sr_ec_ephemeral x),
      wsp_kem_ciphertext = Some (sr_kem_ciphertext x), wsp_inner_msg_ct = Some ct, wsp_sealed_ciphertext = None\<rparr>"
  define body where "body = SEALED_SENDER_V3_SPQXDH_UUID_FULL_VERSION # encode (sealed_pqxdh_codec E) pb"
  let ?data = "\<lparr>sxd_msg = msg, sxd_mac = hmac_sha256 E mk body, sxd_sealing_key = ?sealing\<rparr>"
  have send: "spqxdh_send E bundle cert reg t hint sA r = (Ok (?data, sk), r1)"
    using x(1) keys(1) ct(1) by (simp add: spqxdh_send_def Let_def msg_def body_def pb_def)
  have mac: "length (hmac_sha256 E mk body) = 32" using laws(1) by (simp add: hmac_sha256_def hash_lengths_def)
  have ser: "SealedPQXDHMessageData_serialize E ?data = body @ hmac_sha256 E mk body"
    by (simp add: SealedPQXDHMessageData_serialize_def Let_def msg_def body_def pb_def)
  have parse: "spqxdh_parse E (body @ hmac_sha256 E mk body) = Ok (msg, body, hmac_sha256 E mk body)"
    using mac x(2) laws(6) by (simp add: spqxdh_parse_def Let_def) (simp add: body_def pb_def msg_def)
  have "spqxdh_recv E P (body @ hmac_sha256 E mk body) sB =
      Ok \<lparr>rr_sender_certificate = cert, rr_registration_id = reg, rr_msg_type = t, rr_content_hint = hint,
          rr_session_key = sk\<rparr>"
    unfolding spqxdh_recv_def parse
    using spk x(3,5) ct(2) alice(2) keys'
    by (simp add: msg_def Let_def nth_append hint_byte [OF alice(4)] u32_le_bytes sender_certificate_ok_def)
  then show thesis using that send keys(2) x(3) unfolding ser [symmetric] by (simp add: msg_def)
qed

text \<open>An accepted message was authenticated with a key that only the owners of the two identities can derive.\<close>

lemma spqxdh_recv_authentic:
  assumes "spqxdh_recv E P msg_bytes s = Ok res"
  shows "\<exists>msg encoded mac spk eph otk kyber sealing. spqxdh_parse E msg_bytes = Ok (msg, encoded, mac) \<and>
    bindR (get_signed_pre_key (sx_signed_pre_key_id msg) s) (SignedPreKeyRecord_key_pair E) = Ok spk \<and>
    prepare_sealing_key_recv E eph (sx_kem_ciphertext msg) (get_identity_key_pair s) spk otk kyber = Ok sealing \<and>
    (rr_session_key res, mac) = apsnd (\<lambda>k. hmac_sha256 E k encoded) (spqxdh_identity_mixin E (drop 32 sealing)
      (calculate_agreement E (kp_private_key spk) (sec_key (rr_sender_certificate res))))"
  using assms
  by (fastforce simp: spqxdh_recv_def result_simps Let_def case_prod_beta apsnd_def map_prod_def split: if_splits)

lemma key_pair_no_panic [simp]:
  "PreKeyRecord_key_pair E p \<noteq> Panic" "SignedPreKeyRecord_key_pair E q \<noteq> Panic" "KyberPreKeyRecord_key_pair q \<noteq> Panic"
  by (auto simp: PreKeyRecord_key_pair_def SignedPreKeyRecord_key_pair_def KyberPreKeyRecord_key_pair_def
      KeyPair_from_public_and_private_def kem_KeyPair_from_public_and_private_def kem_PublicKey_deserialize_def
      kem_SecretKey_deserialize_def kem_Key_deserialize_def result_simps split: list.splits)

lemma get_pre_keys_no_panic [simp]:
  "get_pre_key i s \<noteq> Panic" "get_signed_pre_key j s \<noteq> Panic" "get_kyber_pre_key k s \<noteq> Panic"
  by (simp_all add: get_pre_key_def get_signed_pre_key_def get_kyber_pre_key_def)

lemma prepare_sealing_key_recv_total:
  assumes "hash_lengths E"
  shows "prepare_sealing_key_recv E e c i spk otk k \<noteq> Panic"
    "prepare_sealing_key_recv E e c i spk otk k = Ok x \<Longrightarrow> length x = 64"
  using assms by (auto simp: prepare_sealing_key_recv_def result_simps Let_def hash_lengths_def)

lemma aes_256_ctr_decrypt_cases:
  assumes "length k = 32"
  obtains p where "aes_256_ctr_decrypt E c k = Ok p"
  using assms by (simp add: aes_256_ctr_decrypt_def aes_256_ctr_encrypt_def Let_def)

lemma spqxdh_recv_no_panic:
  assumes "hash_lengths E"
  shows "spqxdh_recv E P msg_bytes s \<noteq> Panic"
proof -
  have inner: "(case aes_256_ctr_decrypt E c (take 32 x) of
        Ok pt \<Rightarrow> Ok pt | Err (BadCiphertext e) \<Rightarrow> Err (InvalidSealedSenderMessage e) | _ \<Rightarrow> Panic) \<noteq> Panic"
    if "length x = 64" for c x
  proof -
    have "length (take 32 x) = 32" using that by simp
    then obtain p where "aes_256_ctr_decrypt E c (take 32 x) = Ok p" by (rule aes_256_ctr_decrypt_cases)
    then show ?thesis by simp
  qed
  show ?thesis
    unfolding spqxdh_recv_def Let_def case_prod_beta
  proof (intro no_panic_intros)
    show "spqxdh_parse E msg_bytes \<noteq> Panic"
      by (simp add: spqxdh_parse_def Let_def result_simps)
  qed (use prepare_sealing_key_recv_total [OF assms] inner in \<open>auto simp: result_simps split: option.splits\<close>)
qed

text \<open>Handshake, sessions and first message in one run.\<close>

lemma spqxdh_conversation_starts:
  assumes laws: "hash_lengths E" "dh_ok E" "curve_lengths E" "rng_length E" "keystream_length E"
      "codec_ok (sealed_pqxdh_codec E)" "cbc_ok E" "spqr_pairs E" "spqr_live E"
    and alice: "identity_consistent E (get_identity_key_pair sA)" "sender_certificate_ok E P cert"
      "sec_key cert = id_identity_key (get_identity_key_pair sA)" "hint_fits hint"
      "is_trusted_identity b (b_identity_key bundle) Sending sA"
    and bob: "serves_bundle E bundle spk kyber otk sB" "is_trusted_identity a (sec_key cert) Receiving sB"
  shows "\<exists>data key r1 eph recA r2 recB m wA wB.
    spqxdh_send E bundle cert regA t hint sA r = (Ok (data, key), r1) \<and>
    PublicKey_deserialize (sx_ec_ephemeral (sxd_msg data)) = Ok eph \<and>
    spqxdh_initialize_alice_session E key (esp_public_key (b_ec_signed_pre_key bundle)) (sec_key cert) (b_identity_key bundle)
      eph regA regB r1 = (Ok recA, r2) \<and>
    spqxdh_recv E P (SealedPQXDHMessageData_serialize E data) sB =
      Ok \<lparr>rr_sender_certificate = cert, rr_registration_id = regA, rr_msg_type = t, rr_content_hint = hint,
          rr_session_key = key\<rparr> \<and>
    spqxdh_initialize_bob_session E key eph (id_identity_key (get_identity_key_pair sB)) (sec_key cert) spk regB regA = Ok recB \<and>
    message_encrypt E ptext b now (store_session b recA sA, r2) = (Ok (CSignalMessage m), wA) \<and>
    message_decrypt_signal E m a (store_session a recB sB, rB) = (Ok ptext, wB)"
proof -
  obtain data key r1 eph where hs: "spqxdh_send E bundle cert regA t hint sA r = (Ok (data, key), r1)"
      "spqxdh_recv E P (SealedPQXDHMessageData_serialize E data) sB =
        Ok \<lparr>rr_sender_certificate = cert, rr_registration_id = regA, rr_msg_type = t, rr_content_hint = hint,
            rr_session_key = key\<rparr>"
      "PublicKey_deserialize (sx_ec_ephemeral (sxd_msg data)) = Ok eph"
    using spqxdh_agreement [OF laws(1-6) alice(1-4) bob(1)] by metis
  have ids: "public_key_ok (sec_key cert)" "public_key_ok (b_identity_key bundle)"
    using alice(1,3) bob(1) laws(3)
    by (simp_all add: identity_consistent_def serves_bundle_def PrivateKey_public_key_def public_key_ok_def curve_lengths_def)
  have spk: "key_pair_ok E spk" "private_key_ok (kp_private_key spk)"
      "esp_public_key (b_ec_signed_pre_key bundle) = kp_public_key spk"
      "b_identity_key bundle = id_identity_key (get_identity_key_pair sB)"
    using bob(1) by (simp_all add: serves_bundle_def)
  obtain recA r2 where A: "initialize_alice_session_from_key E SPQXDH_SESSION_LABEL key (kp_public_key spk) (sec_key cert)
      (b_identity_key bundle) eph regA regB r1 = (Ok recA, r2)"
    using alice_from_key_succeeds [OF laws(9)] by blast
  obtain stA stB where st: "recA = SessionRecord_new stA" "s_pending_pre_key stA = None"
      "initialize_bob_session_from_key E SPQXDH_SESSION_LABEL key eph (b_identity_key bundle) (sec_key cert) spk regB regA =
        Ok (SessionRecord_new stB)"
      "sessions_paired E stA stB" "remote_identity_key stA = Ok (Some (b_identity_key bundle))"
      "remote_identity_key stB = Ok (Some (sec_key cert))" "\<exists>p. spqr_initial_state E p = Ok (s_pq_ratchet_state stA)"
    by (rule keyed_sessions_paired [OF laws(1-4,8) ids spk(1,2) A])
  have "\<exists>x r'. spqr_send E (s_pq_ratchet_state stA) r2 = (Ok x, r')"
    using st(7) laws(9) unfolding spqr_live_def by blast
  then obtain m wA wB where "message_encrypt E ptext b now (store_session b (SessionRecord_new stA) sA, r2) =
        (Ok (CSignalMessage m), wA)"
      "message_decrypt_signal E m a (store_session a (SessionRecord_new stB) sB, rB) = (Ok ptext, wB)"
    using paired_exchange [OF laws(1,3,4,7) st(4,2) _ st(5) alice(5) st(6) bob(2)] by blast
  then show ?thesis
    using hs A st(1,3) by (simp add: spk(3,4) spqxdh_initialize_alice_session_def spqxdh_initialize_bob_session_def)
qed

end
