(* ===== verification/Client_Machine.thy ===== *)
theory Client_Machine
  imports Store_Machine Sealed_Sender_Correctness Spqxdh
begin

text \<open>
  The machine of \<open>Store_Machine\<close> with the entry points that are built on it: sealed sender to one and to several
  recipients, and sessions initialized from a key that a sealed handshake agreed on. Steps of all components
  interleave in any order. As there, received messages have counters in \<open>C\<close>, and \<open>\<lambda>_. True\<close> leaves none out.
\<close>

subsection \<open>Sessions from an agreed key\<close>

lemmas keyed_unfold = session_unfold set_remote_registration_id_def set_local_registration_id_def

lemma alice_from_key_healthy:
  assumes "hash_lengths E" "curve_lengths E" "rng_length E" "public_key_ok their_ratchet_key"
    "initialize_alice_session_from_key E label key their_ratchet_key idA idB base rA rB r = (Ok rec, r')"
  shows "record_healthy E rec"
proof -
  obtain rk ck pqr where d: "derive_keys_with_label E label key = (rk, ck, pqr)" by (metis prod_cases3)
  obtain kp r1 where kp: "KeyPair_generate E r = (kp, r1)" by fastforce
  obtain rk' ck' where c: "create_chain E rk their_ratchet_key (kp_private_key kp) = (rk', ck')" by fastforce
  obtain pq where rec: "rec = SessionRecord_new (set_remote_registration_id rB (set_local_registration_id rA
      (set_sender_chain kp ck' (add_receiver_chain their_ratchet_key ck
        (SessionState_new CIPHERTEXT_MESSAGE_CURRENT_VERSION idA idB rk' base pq)))))" (is "_ = SessionRecord_new ?st")
    using assms(5) by (auto simp: initialize_alice_session_from_key_def Let_def d kp c bindS_eq_Ok result_simps)
  have "length (root_key_key rk') = 32" "chain_key_ok ck"
    using create_chain_ok(2) [OF assms(1), of rk their_ratchet_key "kp_private_key kp"] c derive_keys_with_label_ok [OF assms(1) d] by auto
  then have "session_ok (add_receiver_chain their_ratchet_key ck
      (SessionState_new CIPHERTEXT_MESSAGE_CURRENT_VERSION idA idB rk' base pq))"
    using assms(4) by (intro session_ok_add_receiver_chain SessionState_new_ok) (simp_all add: get_receiver_chain_def SessionState_new_def)
  then have "session_ok ?st" by simp
  moreover have "public_key_ok (kp_public_key kp)" using KeyPair_generate_ok(1) [OF assms(2,3), of r] kp by simp
  then have "is_ok (sender_ratchet_key ?st)"
    by (simp add: sender_ratchet_key_def keyed_unfold public_key_serde.de_ser)
  moreover have "seeded ?st" by (auto simp: seeded_def keyed_unfold push_receiver_chain_def Let_def MAX_RECEIVER_CHAINS_def)
  ultimately show ?thesis unfolding rec by (intro record_inv_new) (simp add: session_healthy_def)
qed

lemma bob_from_key_healthy:
  assumes "hash_lengths E" "public_key_ok (kp_public_key ratchet)"
    "initialize_bob_session_from_key E label key base idB idA ratchet rB rA = Ok rec"
  shows "record_healthy E rec"
proof -
  obtain rk ck pqr where d: "derive_keys_with_label E label key = (rk, ck, pqr)" by (metis prod_cases3)
  obtain pq where rec: "rec = SessionRecord_new (set_remote_registration_id rA (set_local_registration_id rB
      (set_sender_chain ratchet ck (SessionState_new CIPHERTEXT_MESSAGE_CURRENT_VERSION idB idA rk base pq))))"
      (is "_ = SessionRecord_new ?st")
    using assms(3) by (auto simp: initialize_bob_session_from_key_def Let_def d result_simps)
  have "session_healthy ?st"
    using assms(2) derive_keys_with_label_ok [OF assms(1) d]
    by (simp add: session_healthy_def session_ok_def seeded_def sender_ratchet_key_def keyed_unfold public_key_serde.de_ser)
  then show ?thesis unfolding rec by (rule record_inv_new)
qed

subsection \<open>The machine\<close>

text \<open>The counters of the messages inside sealed bytes.\<close>

definition sealed_counters_ok :: "'r env \<Rightarrow> ss_prims \<Rightarrow> (u32 \<Rightarrow> bool) \<Rightarrow> bytes \<Rightarrow> protocol_store \<Rightarrow> bool" where
  "sealed_counters_ok E P C ct s \<longleftrightarrow> (\<forall>u. sealed_sender_decrypt_to_usmc E P ct s = Ok u \<longrightarrow>
     (\<forall>m. SignalMessage_try_from E (uc_contents u) = Ok m \<longrightarrow> C (sm_counter m)) \<and>
     (\<forall>pm. PreKeySignalMessage_try_from E (uc_contents u) = Ok pm \<longrightarrow> C (sm_counter (pkm_message pm))))"

inductive app_step :: "'r env \<Rightarrow> ss_prims \<Rightarrow> (u32 \<Rightarrow> bool) \<Rightarrow> 'r world \<Rightarrow> 'r world \<Rightarrow> bool"
  for E :: "'r env" and P :: ss_prims and C :: "u32 \<Rightarrow> bool" where
  plain: "client_step E C w w' \<Longrightarrow> app_step E P C w w'"
| sealed_send: "sealed_sender_encrypt E P a cert ptext now w = (res, w') \<Longrightarrow> app_step E P C w w'"
| sealed_send_content: "sealed_sender_encrypt_from_usmc E P a u w = (res, w') \<Longrightarrow> app_step E P C w w'"
| sealed_send_many: "sealed_sender_multi_recipient_encrypt E P n ds recs excluded u w = (res, w') \<Longrightarrow> app_step E P C w w'"
| sealed_receive: "sealed_counters_ok E P C ct (fst w) \<Longrightarrow>
    sealed_sender_decrypt E P ct root t e164 uuid dev w = (res, w') \<Longrightarrow> app_step E P C w w'"
| keyed_sender: "public_key_ok spk \<Longrightarrow>
    initialize_alice_session_from_key E label key spk idA idB base rA rB r = (Ok rec, r') \<Longrightarrow>
    app_step E P C (s, r) (store_session a rec s, r')"
| keyed_recipient: "public_key_ok (kp_public_key ratchet) \<Longrightarrow>
    initialize_bob_session_from_key E label key base idB idA ratchet rB rA = Ok rec \<Longrightarrow>
    app_step E P C (s, r) (store_session a rec s, r)"

definition app_reachable :: "'r env \<Rightarrow> ss_prims \<Rightarrow> (u32 \<Rightarrow> bool) \<Rightarrow> 'r world \<Rightarrow> 'r world \<Rightarrow> bool" where
  "app_reachable E P C = (app_step E P C)\<^sup>*\<^sup>*"

lemma reachable_app_reachable:
  assumes "reachable E C w w'"
  shows "app_reachable E P C w w'"
  using assms unfolding reachable_def app_reachable_def
  by (rule rtranclp_mono [THEN predicate2D, rotated]) (blast intro: app_step.plain)

lemma sealed_counters_ok_all [simp]: "sealed_counters_ok E P (\<lambda>_. True) ct s"
  by (simp add: sealed_counters_ok_def)

lemma app_step_mono:
  assumes "app_step E P C w w'" "\<And>n. C n \<Longrightarrow> D n"
  shows "app_step E P D w w'"
  using assms(1)
proof (cases rule: app_step.cases)
  case plain
  then have "client_step E D w w'" using assms(2) by (rule client_step_mono)
  then show ?thesis by (rule app_step.plain)
next
  case (sealed_receive ct root t e164 uuid dev res)
  then have "sealed_counters_ok E P D ct (fst w)" using assms(2) by (auto simp: sealed_counters_ok_def)
  then show ?thesis using sealed_receive(2) by (rule app_step.sealed_receive)
qed (auto intro: app_step.intros)

lemma app_reachable_mono:
  assumes "app_reachable E P C w w'" "\<And>n. C n \<Longrightarrow> D n"
  shows "app_reachable E P D w w'"
  using assms(1) unfolding app_reachable_def
  by (rule rtranclp_mono [THEN predicate2D, rotated]) (auto intro: app_step_mono [OF _ assms(2)])

subsection \<open>The invariant\<close>

lemma sealed_send_content_frame:
  "fst (snd (sealed_sender_encrypt_from_usmc E P a u w)) = fst w"
  by (cases w) (simp add: sealed_sender_encrypt_from_usmc_def Let_def case_prod_beta split: option.split)

lemma sealed_send_many_frame:
  "fst (snd (sealed_sender_multi_recipient_encrypt E P n ds recs excluded u w)) = fst w"
  by (cases w) (simp add: sealed_sender_multi_recipient_encrypt_def Let_def case_prod_beta)

context session_inv
begin

lemma sealed_sender_encrypt_inv:
  assumes "stores_inv E I (fst w)" "sealed_sender_encrypt E P a cert ptext now w = (res, w')"
  shows "stores_inv E I (fst w')"
proof -
  obtain s r where w: "w = (s, r)" by (rule prod.exhaust)
  obtain res1 s1 r1 where e: "message_encrypt E ptext a now (s, r) = (res1, (s1, r1))" by (metis prod_cases3)
  have "stores_inv E I s" using assms(1) by (simp add: w)
  then have "stores_inv E I s1" using e by (rule message_encrypt_inv)
  moreover have "fst (snd (sealed_sender_encrypt E P a cert ptext now w)) = s1"
    by (cases res1) (simp_all add: sealed_sender_encrypt_def w e sealed_send_content_frame)
  ultimately show ?thesis using assms(2) by simp
qed

lemma sealed_sender_decrypt_inv:
  assumes "env_ok E" "stores_inv E I (fst w)" "sealed_counters_ok E P C ct (fst w)"
    "sealed_sender_decrypt E P ct root t e164 uuid dev w = (res, w')"
  shows "stores_inv E I (fst w')"
proof (cases "\<exists>u. sealed_sender_decrypt_to_usmc E P ct (fst w) = Ok u \<and> SenderCertificate_validate E P (uc_sender u) root t = Ok True \<and>
    \<not> is_self_send (uc_sender u) e164 uuid dev")
  case True
  then obtain u where u: "sealed_sender_decrypt_to_usmc E P ct (fst w) = Ok u"
      "SenderCertificate_validate E P (uc_sender u) root t = Ok True" "\<not> is_self_send (uc_sender u) e164 uuid dev" by blast
  let ?a = "ProtocolAddress_new (sec_sender_uuid (uc_sender u)) (sec_sender_device_id (uc_sender u))"
  have sig: "stores_inv E I (fst (snd (message_decrypt_signal E m ?a w)))"
    if "SignalMessage_try_from E (uc_contents u) = Ok m" for m
    using message_decrypt_signal_inv [OF assms(1) message_ok_parsed [OF that] _ assms(2), of ?a "snd w"] that assms(3) u(1)
    by (simp add: sealed_counters_ok_def) (metis prod.collapse)
  have pre: "stores_inv E I (fst (snd (message_decrypt_prekey E pm ?a w)))"
    if pm: "PreKeySignalMessage_try_from E (uc_contents u) = Ok pm" for pm
  proof -
    have "message_ok (pkm_message pm)" using PreKeySignalMessage_try_from_OkD(5) [OF pm] message_ok_parsed by blast
    then show ?thesis
      using message_decrypt_prekey_inv [OF assms(1) _ _ assms(2), of pm ?a "snd w"] pm assms(3) u(1)
      by (simp add: sealed_counters_ok_def) (metis prod.collapse)
  qed
  show ?thesis
  proof (cases "uc_msg_type u")
    case Whisper
    then show ?thesis
      using assms(2,4) u sig by (cases "SignalMessage_try_from E (uc_contents u)")
        (auto simp: sealed_sender_decrypt_def Let_def bindS_def split: prod.splits result.splits)
  next
    case PreKey
    then show ?thesis
      using assms(2,4) u pre by (cases "PreKeySignalMessage_try_from E (uc_contents u)")
        (auto simp: sealed_sender_decrypt_def Let_def bindS_def split: prod.splits result.splits)
  qed (use assms(2,4) u in \<open>auto simp: sealed_sender_decrypt_def Let_def\<close>)
next
  case False
  then have "snd (sealed_sender_decrypt E P ct root t e164 uuid dev w) = w"
    using sealed_sender_decrypt_invalid by blast
  then show ?thesis using assms(2,4) by simp
qed

lemma app_step_inv:
  assumes "env_ok E" "app_step E P C w w'" "stores_inv E I (fst w)"
  shows "stores_inv E I (fst w')"
  using assms(2)
proof (cases rule: app_step.cases)
  case plain
  then show ?thesis using assms(1,3) client_step_inv by blast
next
  case sealed_send
  then show ?thesis using assms(3) sealed_sender_encrypt_inv by blast
next
  case sealed_send_content
  then show ?thesis using assms(3) sealed_send_content_frame by (metis snd_conv)
next
  case sealed_send_many
  then show ?thesis using assms(3) sealed_send_many_frame by (metis snd_conv)
next
  case sealed_receive
  then show ?thesis using assms(1,3) sealed_sender_decrypt_inv by blast
next
  case (keyed_sender spk label key idA idB base rA rB r rec r' s a)
  have "record_healthy E rec" using env_okD(2-4) [OF assms(1)] keyed_sender(3,4) by (rule alice_from_key_healthy)
  then have "record_inv E I rec" using fresh by (rule record_inv_mono)
  then show ?thesis using assms(3) keyed_sender(1,2) by (simp add: stores_inv_store_session)
next
  case (keyed_recipient ratchet label key base idB idA rB rA rec s r a)
  have "record_healthy E rec" using env_okD(2) [OF assms(1)] keyed_recipient(3,4) by (rule bob_from_key_healthy)
  then have "record_inv E I rec" using fresh by (rule record_inv_mono)
  then show ?thesis using assms(3) keyed_recipient(1,2) by (simp add: stores_inv_store_session)
qed

lemma app_reachable_inv:
  assumes "env_ok E" "app_reachable E P C w w'" "stores_inv E I (fst w)"
  shows "stores_inv E I (fst w')"
  using assms(2) unfolding app_reachable_def
  by (induction rule: rtranclp_induct) (use assms(1,3) app_step_inv in auto)

end

text \<open>Both instances: the shape of all records over every history, their full invariant without the last counter.\<close>

lemma app_reachable_sound:
  assumes "env_ok E" "app_reachable E P C w w'" "stores_sound E (fst w)"
  shows "stores_sound E (fst w')"
  using assms(1) app_reachable_mono [OF assms(2)] assms(3) by (rule sound.app_reachable_inv) simp

lemma app_reachable_healthy:
  assumes "env_ok E" "app_reachable E P C w w'" "\<forall>n. C n \<longrightarrow> n \<noteq> - 1" "stores_healthy E (fst w)"
  shows "stores_healthy E (fst w')"
  using assms(1) app_reachable_mono [OF assms(2)] assms(4) by (rule healthy.app_reachable_inv) (use assms(3) in simp)

end
