(* ===== verification/Xhmqv.thy ===== *)
theory Xhmqv
  imports Spqxdh_Correctness
begin

text \<open>
  \<open>rust/protocol/src/xhmqv.rs\<close>: XHMQV over Ristretto255. The group, its scalars and SHA-256 come from
  other crates and are the parameters \<open>G\<close> and \<open>F\<close>; the types of points and scalars are type variables.
\<close>

text \<open>SHA-256 and the signature schemes used by the modules that combine XHMQV or X3DH with ML-KEM.\<close>

record hash_and_signatures =
  sha256 :: "bytes \<Rightarrow> bytes"
  ed25519_signature_from_slice :: "bytes \<Rightarrow> bytes option"
  ed25519_verify_strict :: "bytes \<Rightarrow> bytes \<Rightarrow> bytes \<Rightarrow> bool" \<comment> \<open>verifying key, message, signature\<close>
  falcon_keypair :: "bytes \<Rightarrow> bytes \<times> bytes" \<comment> \<open>from the entropy drawn: public key, secret key\<close>
  falcon_detached_sign :: "bytes \<Rightarrow> bytes \<Rightarrow> bytes \<Rightarrow> bytes" \<comment> \<open>entropy drawn, message, secret key\<close>
  falcon_public_key_from_bytes :: "bytes \<Rightarrow> bytes option"
  falcon_signature_from_bytes :: "bytes \<Rightarrow> bytes option"
  falcon_verify_detached :: "bytes \<Rightarrow> bytes \<Rightarrow> bytes \<Rightarrow> bool" \<comment> \<open>signature, message, public key\<close>

record ('p, 's) ristretto =
  point_compress :: "'p \<Rightarrow> bytes"
  point_decompress :: "bytes \<Rightarrow> 'p option"
  point_add :: "'p \<Rightarrow> 'p \<Rightarrow> 'p"
  point_mul :: "'s \<Rightarrow> 'p \<Rightarrow> 'p"
  basepoint_mul :: "'s \<Rightarrow> 'p"
  vartime_multiscalar_mul :: "'s list \<Rightarrow> 'p list \<Rightarrow> 'p"
  rs_from_bytes_mod_order :: "bytes \<Rightarrow> 's"
  rs_from_bytes_mod_order_wide :: "bytes \<Rightarrow> 's"
  rs_to_bytes :: "'s \<Rightarrow> bytes"
  rs_one :: 's
  rs_add :: "'s \<Rightarrow> 's \<Rightarrow> 's"
  rs_mul :: "'s \<Rightarrow> 's \<Rightarrow> 's"

text \<open>
  The group laws on multiples of the base point, and that compression is injective: what the crate
  documents about Ristretto255.
\<close>

definition sums_of_products :: "('p, 's) ristretto \<Rightarrow> bool" where
  "sums_of_products G \<longleftrightarrow>
     (\<forall>s p. vartime_multiscalar_mul G [s] [p] = point_mul G s p) \<and>
     (\<forall>s p ss ps. ss \<noteq> [] \<longrightarrow> length ss = length ps \<longrightarrow>
        vartime_multiscalar_mul G (s # ss) (p # ps) = point_add G (point_mul G s p) (vartime_multiscalar_mul G ss ps))"

definition ristretto_ok :: "('p, 's) ristretto \<Rightarrow> bool" where
  "ristretto_ok G \<longleftrightarrow>
     (\<forall>p. length (point_compress G p) = 32 \<and> point_decompress G (point_compress G p) = Some p) \<and>
     (\<forall>a b. point_mul G a (basepoint_mul G b) = basepoint_mul G (rs_mul G a b)) \<and>
     (\<forall>a b. point_add G (basepoint_mul G a) (basepoint_mul G b) = basepoint_mul G (rs_add G a b)) \<and>
     (\<forall>a b. rs_mul G a b = rs_mul G b a) \<and> (\<forall>a b c. rs_mul G (rs_mul G a b) c = rs_mul G a (rs_mul G b c)) \<and>
     (\<forall>a b. rs_add G a b = rs_add G b a) \<and> (\<forall>a b c. rs_add G (rs_add G a b) c = rs_add G a (rs_add G b c)) \<and>
     (\<forall>a. rs_mul G (rs_one G) a = a) \<and> sums_of_products G"

subsection \<open>Keys\<close>

record 'p ristretto_public_key =
  rp_point :: 'p
  rp_compressed :: bytes

datatype 's ristretto_private_key = RistrettoPrivateKey (rsk_scalar: 's)

record ('p, 's) ristretto_key_pair =
  rkp_public_key :: "'p ristretto_public_key"
  rkp_private_key :: "'s ristretto_private_key"

definition PUBLIC_KEY_LENGTH :: nat where "PUBLIC_KEY_LENGTH = 32"
definition PRIVATE_KEY_LENGTH :: nat where "PRIVATE_KEY_LENGTH = 32"
definition SHARED_SECRET_LENGTH :: nat where "SHARED_SECRET_LENGTH = 32"

definition RistrettoPublicKey_from_point :: "('p, 's) ristretto \<Rightarrow> 'p \<Rightarrow> 'p ristretto_public_key" where
  "RistrettoPublicKey_from_point G point = \<lparr>rp_point = point, rp_compressed = point_compress G point\<rparr>"

definition RistrettoPublicKey_deserialize ::
    "('p, 's) ristretto \<Rightarrow> bytes \<Rightarrow> ('p ristretto_public_key, signal_error) result" where
  "RistrettoPublicKey_deserialize G bs =
     (if length bs \<noteq> PUBLIC_KEY_LENGTH
      then Err (InvalidArgument (''invalid public key length: expected '' @ nat_to_string PUBLIC_KEY_LENGTH @ '', got ''
             @ nat_to_string (length bs)))
      else
        bindR (ok_or (InvalidArgument ''invalid Ristretto point'') (point_decompress G bs)) (\<lambda>point.
        Ok \<lparr>rp_point = point, rp_compressed = bs\<rparr>))"

definition RistrettoPublicKey_serialize :: "'p ristretto_public_key \<Rightarrow> bytes" where
  "RistrettoPublicKey_serialize k = rp_compressed k"

definition RistrettoPublicKey_eq :: "'p ristretto_public_key \<Rightarrow> 'p ristretto_public_key \<Rightarrow> bool" where
  "RistrettoPublicKey_eq a b = (rp_compressed a = rp_compressed b)"

definition RistrettoPublicKey_add ::
    "('p, 's) ristretto \<Rightarrow> 'p ristretto_public_key \<Rightarrow> 'p ristretto_public_key \<Rightarrow> 'p ristretto_public_key" where
  "RistrettoPublicKey_add G a b = RistrettoPublicKey_from_point G (point_add G (rp_point a) (rp_point b))"

definition RistrettoPublicKey_mul ::
    "('p, 's) ristretto \<Rightarrow> 'p ristretto_public_key \<Rightarrow> 's \<Rightarrow> 'p ristretto_public_key" where
  "RistrettoPublicKey_mul G a s = RistrettoPublicKey_from_point G (point_mul G s (rp_point a))"

definition RistrettoPrivateKey_generate ::
    "'r env \<Rightarrow> ('p, 's) ristretto \<Rightarrow> 'r \<Rightarrow> 's ristretto_private_key \<times> 'r" where
  "RistrettoPrivateKey_generate E G r =
     (let (bs, r') = rng_fill_bytes E 64 r in (RistrettoPrivateKey (rs_from_bytes_mod_order_wide G bs), r'))"

definition RistrettoPrivateKey_deserialize ::
    "('p, 's) ristretto \<Rightarrow> bytes \<Rightarrow> ('s ristretto_private_key, signal_error) result" where
  "RistrettoPrivateKey_deserialize G bs =
     (if length bs \<noteq> PRIVATE_KEY_LENGTH
      then Err (InvalidArgument (''invalid private key length: expected '' @ nat_to_string PRIVATE_KEY_LENGTH @ '', got ''
             @ nat_to_string (length bs)))
      else Ok (RistrettoPrivateKey (rs_from_bytes_mod_order G bs)))"

definition RistrettoPrivateKey_serialize :: "('p, 's) ristretto \<Rightarrow> 's ristretto_private_key \<Rightarrow> bytes" where
  "RistrettoPrivateKey_serialize G k = rs_to_bytes G (rsk_scalar k)"

definition RistrettoPrivateKey_public_key ::
    "('p, 's) ristretto \<Rightarrow> 's ristretto_private_key \<Rightarrow> 'p ristretto_public_key" where
  "RistrettoPrivateKey_public_key G k = RistrettoPublicKey_from_point G (basepoint_mul G (rsk_scalar k))"

definition RistrettoPrivateKey_agree ::
    "('p, 's) ristretto \<Rightarrow> 's ristretto_private_key \<Rightarrow> 'p ristretto_public_key \<Rightarrow> bytes" where
  "RistrettoPrivateKey_agree G k their_public = point_compress G (point_mul G (rsk_scalar k) (rp_point their_public))"

definition RistrettoPrivateKey_mul_scalar ::
    "('p, 's) ristretto \<Rightarrow> 's ristretto_private_key \<Rightarrow> 's \<Rightarrow> 's ristretto_private_key" where
  "RistrettoPrivateKey_mul_scalar G k s = RistrettoPrivateKey (rs_mul G (rsk_scalar k) s)"

definition RistrettoPrivateKey_add ::
    "('p, 's) ristretto \<Rightarrow> 's ristretto_private_key \<Rightarrow> 's ristretto_private_key \<Rightarrow> 's ristretto_private_key" where
  "RistrettoPrivateKey_add G a b = RistrettoPrivateKey (rs_add G (rsk_scalar a) (rsk_scalar b))"

definition RistrettoKeyPair_from_private ::
    "('p, 's) ristretto \<Rightarrow> 's ristretto_private_key \<Rightarrow> ('p, 's) ristretto_key_pair" where
  "RistrettoKeyPair_from_private G k = \<lparr>rkp_public_key = RistrettoPrivateKey_public_key G k, rkp_private_key = k\<rparr>"

definition RistrettoKeyPair_generate ::
    "'r env \<Rightarrow> ('p, 's) ristretto \<Rightarrow> 'r \<Rightarrow> ('p, 's) ristretto_key_pair \<times> 'r" where
  "RistrettoKeyPair_generate E G r =
     (let (private_key, r') = RistrettoPrivateKey_generate E G r
      in (\<lparr>rkp_public_key = RistrettoPrivateKey_public_key G private_key, rkp_private_key = private_key\<rparr>, r'))"

subsection \<open>The agreement\<close>

definition XHMQV_E1_LABEL :: bytes where "XHMQV_E1_LABEL = ascii ''Signal_XHMQV_e1_20260101''"
definition XHMQV_E2_LABEL :: bytes where "XHMQV_E2_LABEL = ascii ''Signal_XHMQV_e2_20260101''"
definition XHMQV_D_LABEL :: bytes where "XHMQV_D_LABEL = ascii ''Signal_XHMQV_d_20260101''"
definition XHMQV_SEALING_LABEL :: bytes where "XHMQV_SEALING_LABEL = ascii ''Signal_XHMQV_Sealing_20260101''"
definition XHMQV_FINAL_KEYS_LABEL :: bytes where "XHMQV_FINAL_KEYS_LABEL = ascii ''Signal_XHMQV_Final_20260101''"

text \<open>The first sixteen bytes of a digest as a scalar.\<close>

definition half_digest_scalar :: "hash_and_signatures \<Rightarrow> ('p, 's) ristretto \<Rightarrow> bytes \<Rightarrow> 's" where
  "half_digest_scalar F G input = rs_from_bytes_mod_order G (take 16 (sha256 F input) @ replicate 16 0)"

definition optional_key :: "'p ristretto_public_key option \<Rightarrow> bytes" where
  "optional_key k = (case k of None \<Rightarrow> [] | Some opk \<Rightarrow> RistrettoPublicKey_serialize opk)"

definition hash_e1 ::
    "hash_and_signatures \<Rightarrow> ('p, 's) ristretto \<Rightarrow> 'p ristretto_public_key \<Rightarrow> 'p ristretto_public_key \<Rightarrow>
     'p ristretto_public_key option \<Rightarrow> 's" where
  "hash_e1 F G identity_key signed_prekey one_time_prekey =
     half_digest_scalar F G (XHMQV_E1_LABEL @ RistrettoPublicKey_serialize identity_key
       @ RistrettoPublicKey_serialize signed_prekey @ optional_key one_time_prekey)"

definition hash_e2 ::
    "hash_and_signatures \<Rightarrow> ('p, 's) ristretto \<Rightarrow> 'p ristretto_public_key \<Rightarrow> 'p ristretto_public_key \<Rightarrow>
     'p ristretto_public_key option \<Rightarrow> 's" where
  "hash_e2 F G identity_key signed_prekey one_time_prekey =
     half_digest_scalar F G (XHMQV_E2_LABEL @ RistrettoPublicKey_serialize identity_key
       @ RistrettoPublicKey_serialize signed_prekey @ optional_key one_time_prekey)"

definition hash_d ::
    "hash_and_signatures \<Rightarrow> ('p, 's) ristretto \<Rightarrow> 'p ristretto_public_key \<Rightarrow> 'p ristretto_public_key \<Rightarrow> 's" where
  "hash_d F G sender_identity sender_ephemeral =
     half_digest_scalar F G (XHMQV_D_LABEL @ RistrettoPublicKey_serialize sender_identity
       @ RistrettoPublicKey_serialize sender_ephemeral)"

definition compute_aggregated_receiver_key ::
    "('p, 's) ristretto \<Rightarrow> 'p ristretto_public_key \<Rightarrow> 'p ristretto_public_key \<Rightarrow> 'p ristretto_public_key option \<Rightarrow>
     's \<Rightarrow> 's \<Rightarrow> 'p ristretto_public_key" where
  "compute_aggregated_receiver_key G receiver_identity receiver_signed_prekey receiver_one_time_prekey e1 e2 =
     (case receiver_one_time_prekey of
        Some opk \<Rightarrow> RistrettoPublicKey_from_point G (vartime_multiscalar_mul G [e1, e2, rs_one G]
          [rp_point receiver_identity, rp_point receiver_signed_prekey, rp_point opk])
      | None \<Rightarrow> RistrettoPublicKey_from_point G (vartime_multiscalar_mul G [e1, e2]
          [rp_point receiver_identity, rp_point receiver_signed_prekey]))"

definition compute_aggregated_receiver_secret ::
    "('p, 's) ristretto \<Rightarrow> 's ristretto_private_key \<Rightarrow> 's ristretto_private_key \<Rightarrow> 's ristretto_private_key option \<Rightarrow>
     's \<Rightarrow> 's \<Rightarrow> 's ristretto_private_key" where
  "compute_aggregated_receiver_secret G receiver_identity_sk receiver_signed_prekey_sk receiver_one_time_prekey_sk e1 e2 =
     (let ik_term = rs_mul G (rsk_scalar receiver_identity_sk) e1;
          spk_term = rs_mul G (rsk_scalar receiver_signed_prekey_sk) e2
      in RistrettoPrivateKey (case receiver_one_time_prekey_sk of
           Some opk_sk \<Rightarrow> rs_add G (rs_add G (rsk_scalar opk_sk) ik_term) spk_term
         | None \<Rightarrow> rs_add G ik_term spk_term))"

record 'p xhmqv_send_result =
  xs_ephemeral_public :: "'p ristretto_public_key"
  xs_shared_secret_1 :: bytes
  xs_shared_secret_2 :: bytes

definition xhmqv_send ::
    "'r env \<Rightarrow> hash_and_signatures \<Rightarrow> ('p, 's) ristretto \<Rightarrow> ('p, 's) ristretto_key_pair \<Rightarrow> 'p ristretto_public_key \<Rightarrow>
     'p ristretto_public_key \<Rightarrow> 'p ristretto_public_key option \<Rightarrow> 'r \<Rightarrow> 'p xhmqv_send_result \<times> 'r" where
  "xhmqv_send E F G sender_identity receiver_identity receiver_signed_prekey receiver_one_time_prekey r =
     (let (ephemeral, r') = RistrettoKeyPair_generate E G r;
          e1 = hash_e1 F G receiver_identity receiver_signed_prekey receiver_one_time_prekey;
          e2 = hash_e2 F G receiver_identity receiver_signed_prekey receiver_one_time_prekey;
          b = compute_aggregated_receiver_key G receiver_identity receiver_signed_prekey receiver_one_time_prekey e1 e2;
          d = hash_d F G (rkp_public_key sender_identity) (rkp_public_key ephemeral);
          d_times_ik = RistrettoPrivateKey_mul_scalar G (rkp_private_key sender_identity) d
      in (\<lparr>xs_ephemeral_public = rkp_public_key ephemeral,
           xs_shared_secret_1 = RistrettoPrivateKey_agree G (rkp_private_key ephemeral) b,
           xs_shared_secret_2 = RistrettoPrivateKey_agree G d_times_ik b\<rparr>, r'))"

record 's xhmqv_recv1_result =
  x1_b_secret :: "'s ristretto_private_key"
  x1_shared_secret_1 :: bytes

definition xhmqv_recv1 ::
    "hash_and_signatures \<Rightarrow> ('p, 's) ristretto \<Rightarrow> ('p, 's) ristretto_key_pair \<Rightarrow> ('p, 's) ristretto_key_pair \<Rightarrow>
     ('p, 's) ristretto_key_pair option \<Rightarrow> 'p ristretto_public_key \<Rightarrow> 's xhmqv_recv1_result" where
  "xhmqv_recv1 F G receiver_identity receiver_signed_prekey receiver_one_time_prekey sender_ephemeral =
     (let e1 = hash_e1 F G (rkp_public_key receiver_identity) (rkp_public_key receiver_signed_prekey)
            (map_option rkp_public_key receiver_one_time_prekey);
          e2 = hash_e2 F G (rkp_public_key receiver_identity) (rkp_public_key receiver_signed_prekey)
            (map_option rkp_public_key receiver_one_time_prekey);
          b_secret = compute_aggregated_receiver_secret G (rkp_private_key receiver_identity)
            (rkp_private_key receiver_signed_prekey) (map_option rkp_private_key receiver_one_time_prekey) e1 e2
      in \<lparr>x1_b_secret = b_secret, x1_shared_secret_1 = RistrettoPrivateKey_agree G b_secret sender_ephemeral\<rparr>)"

definition xhmqv_recv2 ::
    "hash_and_signatures \<Rightarrow> ('p, 's) ristretto \<Rightarrow> 's ristretto_private_key \<Rightarrow> 'p ristretto_public_key \<Rightarrow>
     'p ristretto_public_key \<Rightarrow> bytes" where
  "xhmqv_recv2 F G b_secret sender_identity sender_ephemeral =
     RistrettoPrivateKey_agree G
       (RistrettoPrivateKey_mul_scalar G b_secret (hash_d F G sender_identity sender_ephemeral)) sender_identity"

subsection \<open>Messages\<close>

record xhmqv_message =
  xm_version :: u8
  xm_ephemeral :: bytes
  xm_signed_prekey_id :: u32
  xm_one_time_prekey_id :: "u32 option"
  xm_inner_ct :: bytes

record xhmqv_send_message_result =
  xsm_message :: xhmqv_message
  xsm_session_key :: bytes
  xsm_sealing_key :: bytes

definition derive_kseal ::
    "'r env \<Rightarrow> bytes \<Rightarrow> 'p ristretto_public_key \<Rightarrow> 'p ristretto_public_key \<Rightarrow> 'p ristretto_public_key option \<Rightarrow>
     'p ristretto_public_key \<Rightarrow> bytes" where
  "derive_kseal E ss1 receiver_identity receiver_signed_prekey receiver_one_time_prekey sender_ephemeral =
     hkdf_sha256 E None (ss1 @ RistrettoPublicKey_serialize receiver_identity
       @ RistrettoPublicKey_serialize receiver_signed_prekey @ optional_key receiver_one_time_prekey
       @ RistrettoPublicKey_serialize sender_ephemeral) XHMQV_SEALING_LABEL 32"

definition derive_session_key ::
    "'r env \<Rightarrow> bytes \<Rightarrow> bytes \<Rightarrow> 'p ristretto_public_key \<Rightarrow> 'p ristretto_public_key \<Rightarrow> bytes" where
  "derive_session_key E ss1 ss2 sender_identity sender_ephemeral =
     hkdf_sha256 E None (ss1 @ ss2 @ RistrettoPublicKey_serialize sender_identity
       @ RistrettoPublicKey_serialize sender_ephemeral) XHMQV_FINAL_KEYS_LABEL 32"

text \<open>The identity key's number is not used by the code.\<close>

definition xhmqv_message_send ::
    "'r env \<Rightarrow> hash_and_signatures \<Rightarrow> ('p, 's) ristretto \<Rightarrow> ('p, 's) ristretto_key_pair \<Rightarrow>
     'p ristretto_public_key \<times> u32 \<Rightarrow> 'p ristretto_public_key \<times> u32 \<Rightarrow> ('p ristretto_public_key \<times> u32) option \<Rightarrow> 'r \<Rightarrow>
     (xhmqv_send_message_result, signal_error) result \<times> 'r" where
  "xhmqv_message_send E F G sender_identity receiver_identity receiver_signed_prekey receiver_one_time_prekey r =
     (let rcv_id = fst receiver_identity;
          rcv_spk = fst receiver_signed_prekey;
          rcv_opk = map_option fst receiver_one_time_prekey;
          (send, r') = xhmqv_send E F G sender_identity rcv_id rcv_spk rcv_opk r;
          kseal = derive_kseal E (xs_shared_secret_1 send) rcv_id rcv_spk rcv_opk (xs_ephemeral_public send);
          inner = RistrettoPublicKey_serialize (rkp_public_key sender_identity)
      in bindS (expect_ok (spqxdh_aes_256_ctr_encrypt E inner kseal), r') (\<lambda>inner_ct r'.
         (Ok \<lparr>xsm_message = \<lparr>xm_version = 1, xm_ephemeral = RistrettoPublicKey_serialize (xs_ephemeral_public send),
                xm_signed_prekey_id = snd receiver_signed_prekey,
                xm_one_time_prekey_id = map_option snd receiver_one_time_prekey, xm_inner_ct = inner_ct\<rparr>,
              xsm_session_key = derive_session_key E (xs_shared_secret_1 send) (xs_shared_secret_2 send)
                (rkp_public_key sender_identity) (xs_ephemeral_public send),
              xsm_sealing_key = kseal\<rparr>, r')))"

definition xhmqv_message_receive ::
    "'r env \<Rightarrow> hash_and_signatures \<Rightarrow> ('p, 's) ristretto \<Rightarrow> xhmqv_message \<Rightarrow> ('p, 's) ristretto_key_pair \<Rightarrow>
     ('p, 's) ristretto_key_pair \<Rightarrow> ('p, 's) ristretto_key_pair option \<Rightarrow>
     (bytes \<times> 'p ristretto_public_key, signal_error) result" where
  "xhmqv_message_receive E F G msg receiver_identity receiver_signed_prekey receiver_one_time_prekey =
     bindR (RistrettoPublicKey_deserialize G (xm_ephemeral msg)) (\<lambda>eph.
     let rec1 = xhmqv_recv1 F G receiver_identity receiver_signed_prekey receiver_one_time_prekey eph;
         kseal = derive_kseal E (x1_shared_secret_1 rec1) (rkp_public_key receiver_identity)
           (rkp_public_key receiver_signed_prekey) (map_option rkp_public_key receiver_one_time_prekey) eph
     in bindR (spqxdh_aes_256_ctr_decrypt E (xm_inner_ct msg) kseal) (\<lambda>inner.
        if length inner \<noteq> 32 then Err (InvalidSealedSenderMessage ''inner length invalid'')
        else
          bindR (RistrettoPublicKey_deserialize G inner) (\<lambda>sender_iks.
          let ss2 = xhmqv_recv2 F G (x1_b_secret rec1) sender_iks eph
          in Ok (derive_session_key E (x1_shared_secret_1 rec1) ss2 sender_iks eph, sender_iks))))"

subsection \<open>Both sides compute the same secrets\<close>

definition ristretto_pair_ok :: "('p, 's) ristretto \<Rightarrow> ('p, 's) ristretto_key_pair \<Rightarrow> bool" where
  "ristretto_pair_ok G kp \<longleftrightarrow> rkp_public_key kp = RistrettoPrivateKey_public_key G (rkp_private_key kp)"

lemma RistrettoKeyPair_generate_ok:
  "ristretto_pair_ok G (fst (RistrettoKeyPair_generate E G r))" "ristretto_pair_ok G (RistrettoKeyPair_from_private G k)"
  by (simp_all add: ristretto_pair_ok_def RistrettoKeyPair_generate_def RistrettoKeyPair_from_private_def split: prod.split)

lemma RistrettoPublicKey_roundtrip:
  assumes "ristretto_ok G"
  shows "RistrettoPublicKey_deserialize G (RistrettoPublicKey_serialize (RistrettoPublicKey_from_point G p)) =
      Ok (RistrettoPublicKey_from_point G p)"
    "length (RistrettoPublicKey_serialize (RistrettoPublicKey_from_point G p)) = 32"
  using assms
  by (simp_all add: ristretto_ok_def RistrettoPublicKey_deserialize_def RistrettoPublicKey_serialize_def
      RistrettoPublicKey_from_point_def PUBLIC_KEY_LENGTH_def)

interpretation ristretto_serde:
  serde RistrettoPublicKey_serialize "RistrettoPublicKey_deserialize G"
    "\<lambda>k. ristretto_ok G \<and> (\<exists>p. k = RistrettoPublicKey_from_point G p)" for G
  by unfold_locales (auto simp: RistrettoPublicKey_roundtrip)

lemma ristretto_okD:
  assumes "ristretto_ok G"
  shows "point_mul G a (basepoint_mul G b) = basepoint_mul G (rs_mul G a b)"
    "point_add G (basepoint_mul G a) (basepoint_mul G b) = basepoint_mul G (rs_add G a b)"
    "rs_mul G (rs_one G) a = a" "rs_mul G a b = rs_mul G b a" "rs_mul G (rs_mul G a b) c = rs_mul G (rs_mul G c b) a"
    "rs_add G a b = rs_add G b a" "rs_add G (rs_add G a b) c = rs_add G a (rs_add G b c)"
    "rs_add G a (rs_add G b c) = rs_add G b (rs_add G a c)" "sums_of_products G"
  using assms unfolding ristretto_ok_def by (simp_all, metis+)

text \<open>The aggregated public key belongs to the aggregated secret.\<close>

lemma aggregated_keys_match:
  assumes "ristretto_ok G" "ristretto_pair_ok G ik" "ristretto_pair_ok G spk" "\<forall>kp \<in> set_option opk. ristretto_pair_ok G kp"
  shows "compute_aggregated_receiver_key G (rkp_public_key ik) (rkp_public_key spk) (map_option rkp_public_key opk) e1 e2 =
    RistrettoPrivateKey_public_key G (compute_aggregated_receiver_secret G (rkp_private_key ik) (rkp_private_key spk)
      (map_option rkp_private_key opk) e1 e2)"
proof -
  note ok = ristretto_okD [OF assms(1)]
  have sums: "vartime_multiscalar_mul G [a, b] [basepoint_mul G x, basepoint_mul G y] =
      basepoint_mul G (rs_add G (rs_mul G a x) (rs_mul G b y))"
    "vartime_multiscalar_mul G [a, b, rs_one G] [basepoint_mul G x, basepoint_mul G y, basepoint_mul G z] =
      basepoint_mul G (rs_add G (rs_mul G a x) (rs_add G (rs_mul G b y) z))" for a b x y z
    using ok(9) by (simp_all add: sums_of_products_def ok(1-3))
  show ?thesis
    using assms(2-4)
    by (cases opk) (simp_all add: compute_aggregated_receiver_key_def compute_aggregated_receiver_secret_def Let_def
        ristretto_pair_ok_def RistrettoPrivateKey_public_key_def RistrettoPublicKey_from_point_def sums ok(4,6-8))
qed

lemma agree_public:
  assumes "ristretto_ok G"
  shows "RistrettoPrivateKey_agree G a (RistrettoPrivateKey_public_key G b) =
    RistrettoPrivateKey_agree G b (RistrettoPrivateKey_public_key G a)"
  using ristretto_okD(1) [OF assms] ristretto_okD(4) [OF assms, of "rsk_scalar a" "rsk_scalar b"]
  by (simp add: RistrettoPrivateKey_agree_def RistrettoPrivateKey_public_key_def RistrettoPublicKey_from_point_def)

lemma agree_mul_scalar:
  assumes "ristretto_ok G"
  shows "RistrettoPrivateKey_agree G (RistrettoPrivateKey_mul_scalar G a d) (RistrettoPrivateKey_public_key G b) =
    RistrettoPrivateKey_agree G (RistrettoPrivateKey_mul_scalar G b d) (RistrettoPrivateKey_public_key G a)"
  using ristretto_okD(1) [OF assms] ristretto_okD(5) [OF assms, of "rsk_scalar a" d "rsk_scalar b"]
  by (simp add: RistrettoPrivateKey_agree_def RistrettoPrivateKey_public_key_def RistrettoPublicKey_from_point_def
      RistrettoPrivateKey_mul_scalar_def)

lemma xhmqv_secrets_agree:
  assumes "ristretto_ok G" "ristretto_pair_ok G sender" "ristretto_pair_ok G ik" "ristretto_pair_ok G spk"
    "\<forall>kp \<in> set_option opk. ristretto_pair_ok G kp"
    "xhmqv_send E F G sender (rkp_public_key ik) (rkp_public_key spk) (map_option rkp_public_key opk) r = (x, r')"
  shows "x1_shared_secret_1 (xhmqv_recv1 F G ik spk opk (xs_ephemeral_public x)) = xs_shared_secret_1 x"
    "xhmqv_recv2 F G (x1_b_secret (xhmqv_recv1 F G ik spk opk (xs_ephemeral_public x))) (rkp_public_key sender)
       (xs_ephemeral_public x) = xs_shared_secret_2 x"
    "\<exists>p. xs_ephemeral_public x = RistrettoPublicKey_from_point G p"
proof -
  obtain eph r0 where g: "RistrettoKeyPair_generate E G r = (eph, r0)" by fastforce
  have eph: "rkp_public_key eph = RistrettoPrivateKey_public_key G (rkp_private_key eph)"
    using RistrettoKeyPair_generate_ok(1) [of G E r] g by (simp add: ristretto_pair_ok_def)
  have sender: "rkp_public_key sender = RistrettoPrivateKey_public_key G (rkp_private_key sender)"
    using assms(2) by (simp add: ristretto_pair_ok_def)
  note agg = aggregated_keys_match [OF assms(1,3-5)]
  show "x1_shared_secret_1 (xhmqv_recv1 F G ik spk opk (xs_ephemeral_public x)) = xs_shared_secret_1 x"
    using assms(6) agree_public [OF assms(1)] by (auto simp: xhmqv_send_def xhmqv_recv1_def Let_def g agg eph)
  show "xhmqv_recv2 F G (x1_b_secret (xhmqv_recv1 F G ik spk opk (xs_ephemeral_public x))) (rkp_public_key sender)
       (xs_ephemeral_public x) = xs_shared_secret_2 x"
    using assms(6) agree_mul_scalar [OF assms(1)]
    by (auto simp: xhmqv_send_def xhmqv_recv1_def xhmqv_recv2_def Let_def g agg eph sender)
  show "\<exists>p. xs_ephemeral_public x = RistrettoPublicKey_from_point G p"
    using assms(6) by (auto simp: xhmqv_send_def Let_def g eph RistrettoPrivateKey_public_key_def)
qed

lemma spqxdh_aes_roundtrip:
  assumes "keystream_length E" "length k = 32"
  shows "\<exists>c. spqxdh_aes_256_ctr_encrypt E p k = Ok c \<and> length c = length p \<and> spqxdh_aes_256_ctr_decrypt E c k = Ok p"
  using aes_256_ctr_roundtrip [OF assms, of p]
  by (auto simp: spqxdh_aes_256_ctr_encrypt_def spqxdh_aes_256_ctr_decrypt_def)

lemma xhmqv_message_delivered:
  assumes laws: "ristretto_ok G" "hash_lengths E" "keystream_length E"
    and keys: "ristretto_pair_ok G sender" "ristretto_pair_ok G ik" "ristretto_pair_ok G spk"
      "\<forall>kp \<in> set_option opk. ristretto_pair_ok G kp"
  shows "\<exists>res r'. xhmqv_message_send E F G sender (rkp_public_key ik, i) (rkp_public_key spk, j)
      (map_option (\<lambda>kp. (rkp_public_key kp, l)) opk) r = (Ok res, r') \<and> length (xsm_session_key res) = 32 \<and>
    xhmqv_message_receive E F G (xsm_message res) ik spk opk = Ok (xsm_session_key res, rkp_public_key sender)"
proof -
  have opk: "map_option fst (map_option (\<lambda>kp. (rkp_public_key kp, l)) opk) = map_option rkp_public_key opk"
    by (simp add: option.map_comp comp_def)
  obtain x r' where x: "xhmqv_send E F G sender (rkp_public_key ik) (rkp_public_key spk) (map_option rkp_public_key opk) r = (x, r')"
    by fastforce
  note agree = xhmqv_secrets_agree [OF laws(1) keys x]
  obtain p where p: "xs_ephemeral_public x = RistrettoPublicKey_from_point G p" using agree(3) by blast
  have sender: "rkp_public_key sender = RistrettoPublicKey_from_point G (basepoint_mul G (rsk_scalar (rkp_private_key sender)))"
    using keys(1) by (simp add: ristretto_pair_ok_def RistrettoPrivateKey_public_key_def)
  note rt = RistrettoPublicKey_roundtrip [OF laws(1)]
  let ?kseal = "derive_kseal E (xs_shared_secret_1 x) (rkp_public_key ik) (rkp_public_key spk) (map_option rkp_public_key opk)
      (xs_ephemeral_public x)"
  have "length ?kseal = 32" using laws(2) by (simp add: derive_kseal_def hash_lengths_def)
  then obtain c where c: "spqxdh_aes_256_ctr_encrypt E (RistrettoPublicKey_serialize (rkp_public_key sender)) ?kseal = Ok c"
      "spqxdh_aes_256_ctr_decrypt E c ?kseal = Ok (RistrettoPublicKey_serialize (rkp_public_key sender))"
    using spqxdh_aes_roundtrip [OF laws(3)] by blast
  have "xhmqv_message_receive E F G \<lparr>xm_version = 1, xm_ephemeral = RistrettoPublicKey_serialize (xs_ephemeral_public x),
      xm_signed_prekey_id = j, xm_one_time_prekey_id = map_option (\<lambda>_. l) opk, xm_inner_ct = c\<rparr> ik spk opk =
    Ok (derive_session_key E (xs_shared_secret_1 x) (xs_shared_secret_2 x) (rkp_public_key sender) (xs_ephemeral_public x),
        rkp_public_key sender)"
    using c(2) rt [of p, folded p] rt [of "basepoint_mul G (rsk_scalar (rkp_private_key sender))", folded sender] agree(1,2)
    by (simp add: xhmqv_message_receive_def Let_def)
  moreover have "length (derive_session_key E (xs_shared_secret_1 x) (xs_shared_secret_2 x) (rkp_public_key sender)
      (xs_ephemeral_public x)) = 32"
    using laws(2) by (simp add: derive_session_key_def hash_lengths_def)
  ultimately show ?thesis
    using c(1) by (simp add: xhmqv_message_send_def Let_def opk x option.map_comp comp_def)
qed

end
