(* ===== verification/Ring_Kem.thy ===== *)
theory Ring_Kem
  imports Xhmqv
begin

text \<open>
  What \<open>sealed_ringxkem_xhmqv.rs\<close> and \<open>sealed_ringxkem_x3dh.rs\<close> have in common, with \<open>pure_falcon.rs\<close>:
  the framing of the outer and the inner message, the post-quantum half of a bundle and the signed
  transcript. The two modules repeat these functions and differ in the version byte, in the size of the
  ephemeral key and in the parser of the sender's key, which are arguments here.
\<close>

subsection \<open>\<open>pure_falcon.rs\<close>\<close>

text \<open>Falcon draws from the operating system; the bytes it draws are an argument.\<close>

definition pure_falcon_keypair :: "hash_and_signatures \<Rightarrow> bytes \<Rightarrow> bytes \<times> bytes" where
  "pure_falcon_keypair F entropy = falcon_keypair F entropy"

definition pure_falcon_sign :: "hash_and_signatures \<Rightarrow> bytes \<Rightarrow> bytes \<Rightarrow> bytes \<Rightarrow> bytes" where
  "pure_falcon_sign F entropy sk msg = falcon_detached_sign F entropy msg sk"

definition pure_falcon_verify_bytes :: "hash_and_signatures \<Rightarrow> bytes \<Rightarrow> bytes \<Rightarrow> bytes \<Rightarrow> bool" where
  "pure_falcon_verify_bytes F pk_bytes msg sig_bytes =
     (case (falcon_public_key_from_bytes F pk_bytes, falcon_signature_from_bytes F sig_bytes) of
        (Some pk, Some sig) \<Rightarrow> falcon_verify_detached F sig msg pk
      | _ \<Rightarrow> False)"

subsection \<open>The outer message\<close>

record ring_message =
  rm_version :: u8
  rm_ec_ephemeral :: bytes
  rm_kem_ciphertext1 :: bytes
  rm_kem_ciphertext2 :: bytes
  rm_inner_msg_ct :: bytes

record ring_message_data =
  rmd_msg :: ring_message
  rmd_mac :: bytes
  rmd_sealing_key :: bytes

definition u32_prefixed :: "bytes \<Rightarrow> bytes" where
  "u32_prefixed bs = le_bytes 4 (unat (of_nat (length bs) :: u32)) @ bs"

definition serialize_without_mac_inner :: "ring_message \<Rightarrow> bytes" where
  "serialize_without_mac_inner msg =
     rm_version msg # rm_ec_ephemeral msg @ u32_prefixed (rm_kem_ciphertext1 msg)
       @ u32_prefixed (rm_kem_ciphertext2 msg) @ u32_prefixed (rm_inner_msg_ct msg)"

definition SealedMessageData_serialize :: "ring_message_data \<Rightarrow> bytes" where
  "SealedMessageData_serialize d = serialize_without_mac_inner (rmd_msg d) @ rmd_mac d"

definition read_prefixed :: "bytes \<Rightarrow> (bytes \<times> bytes, signal_error) result" where
  "read_prefixed bs =
     (if length bs < 4 then Err InvalidProtobufEncoding
      else
        let len = le_nat (take 4 bs); rest = drop 4 bs
        in if length rest < len then Err InvalidProtobufEncoding else Ok (take len rest, drop len rest))"

definition ring_parse_outer ::
    "u8 \<Rightarrow> nat \<Rightarrow> bytes \<Rightarrow> (bytes \<times> bytes \<times> bytes \<times> bytes \<times> bytes \<times> bytes, signal_error) result" where
  "ring_parse_outer protocol_version eph_len msg_bytes =
     (if length msg_bytes < 33 then Err InvalidProtobufEncoding
      else
        let encoded = take (length msg_bytes - 32) msg_bytes;
            expected_mac = drop (length msg_bytes - 32) msg_bytes
        in if encoded ! 0 \<noteq> protocol_version then Err InvalidProtobufEncoding
           else if length encoded < 1 + eph_len then Err InvalidProtobufEncoding
           else
             let eph = take eph_len (drop 1 encoded) in
             bindR (read_prefixed (drop (1 + eph_len) encoded)) (\<lambda>(ct1, rest1).
             bindR (read_prefixed rest1) (\<lambda>(ct2, rest2).
             bindR (read_prefixed rest2) (\<lambda>(inner_ct, _).
             Ok (encoded, expected_mac, eph, ct1, ct2, inner_ct)))))"

subsection \<open>The inner message\<close>

record 'k parsed_inner =
  pi_registration_id :: u32
  pi_msg_type :: ciphertext_message_type
  pi_content_hint :: content_hint
  pi_sender_iks :: 'k
  pi_vks :: bytes
  pi_sigma :: bytes
  pi_sender_certificate :: sender_certificate

definition ring_parse_inner ::
    "'r env \<Rightarrow> ss_prims \<Rightarrow> nat \<Rightarrow> (bytes \<Rightarrow> ('k, signal_error) result) \<Rightarrow> bytes \<Rightarrow> bytes \<Rightarrow>
     ('k parsed_inner, signal_error) result" where
  "ring_parse_inner E P key_len parse_key kseal inner_ct =
     bindR (spqxdh_aes_256_ctr_decrypt E inner_ct kseal) (\<lambda>inner.
     if length inner < 6 + key_len + 2 + 2 + 4 then Err (InvalidSealedSenderMessage ''inner too short'')
     else
       bindR (ok_or (InvalidSealedSenderMessage ''invalid message type'') (message_type_try_from (inner ! 4))) (\<lambda>msg_type.
       bindR (parse_key (take key_len (drop 6 inner))) (\<lambda>sender_iks.
       let b1 = drop (6 + key_len) inner; vks_len = le_nat (take 2 b1); b2 = drop 2 b1 in
       if length b2 < vks_len + 2 then Err (InvalidSealedSenderMessage ''inner too short'')
       else
         let vks = take vks_len b2; b3 = drop vks_len b2; sig_len = le_nat (take 2 b3); b4 = drop 2 b3 in
         if length b4 < sig_len + 4 then Err (InvalidSealedSenderMessage ''inner too short'')
         else
           let sigma = take sig_len b4; b5 = drop sig_len b4; cert_len = le_nat (take 4 b5); b6 = drop 4 b5 in
           if length b6 < cert_len then Err (InvalidSealedSenderMessage ''inner too short'')
           else
             bindR (SenderCertificate_deserialize E P (take cert_len b6)) (\<lambda>sender_certificate.
             Ok \<lparr>pi_registration_id = of_nat (le_nat (take 4 inner)), pi_msg_type = msg_type,
                 pi_content_hint = ContentHint_from (ucast (inner ! 5)), pi_sender_iks = sender_iks, pi_vks = vks,
                 pi_sigma = sigma, pi_sender_certificate = sender_certificate\<rparr>))))"

definition u16_prefixed :: "bytes \<Rightarrow> (bytes, signal_error) result" where
  "u16_prefixed bs = (if length bs < 2 ^ 16 then Ok (le_bytes 2 (length bs) @ bs) else Panic)"

definition build_inner_message ::
    "'r env \<Rightarrow> u32 \<Rightarrow> ciphertext_message_type \<Rightarrow> content_hint \<Rightarrow> bytes \<Rightarrow> bytes \<Rightarrow> bytes \<Rightarrow> bytes \<Rightarrow> bytes \<Rightarrow>
     (bytes, signal_error) result" where
  "build_inner_message E registration_id msg_type hint sender_iks vks sigma cert_bytes kseal =
     bindR (u16_prefixed vks) (\<lambda>vks_part.
     bindR (u16_prefixed sigma) (\<lambda>sigma_part.
     spqxdh_aes_256_ctr_encrypt E
       (le_bytes 4 (unat registration_id) @ [message_type_value msg_type, ucast (ContentHint_to_u32 hint)] @ sender_iks
         @ vks_part @ sigma_part @ u32_prefixed cert_bytes) kseal))"

subsection \<open>The post-quantum half\<close>

record pq_bundle =
  pq_receiver_falcon_vkey :: bytes
  pq_mlkem_identity_key :: kem_key
  pq_mlkem_signed_prekey :: kem_key
  pq_mlkem_signed_prekey_signature :: bytes

definition verify_pq_spk_sig :: "hash_and_signatures \<Rightarrow> pq_bundle \<Rightarrow> (unit, signal_error) result" where
  "verify_pq_spk_sig F pq =
     (if pure_falcon_verify_bytes F (pq_receiver_falcon_vkey pq) (kem_Key_serialize (pq_mlkem_signed_prekey pq))
           (pq_mlkem_signed_prekey_signature pq)
      then Ok () else Err (InvalidSealedSenderMessage ''bad PQ SPK signature''))"

definition sha256_concat :: "hash_and_signatures \<Rightarrow> bytes list \<Rightarrow> bytes" where
  "sha256_concat F parts = sha256 F (concat parts)"

definition falcon_transcript_hash ::
    "hash_and_signatures \<Rightarrow> bytes \<Rightarrow> bytes \<Rightarrow> bytes \<Rightarrow> bytes \<Rightarrow> bytes \<Rightarrow> bytes \<Rightarrow> bytes" where
  "falcon_transcript_hash F vkr_vk vks_vk ek_id_bytes ek_spk_bytes ct1 ct2 =
     sha256_concat F [vkr_vk, vks_vk, ek_id_bytes, ek_spk_bytes, ct1, ct2]"

subsection \<open>Framing round trips\<close>

lemma u32_prefixed_Ok: "length bs < 2 ^ 32 \<Longrightarrow> u32_prefixed bs = le_bytes 4 (length bs) @ bs"
  by (simp add: u32_prefixed_def unat_of_nat)

interpretation prefixed_parser: stream_parser u32_prefixed read_prefixed "\<lambda>bs. length bs < 2 ^ 32"
proof
  fix bs rest :: bytes
  assume bs: "length bs < 2 ^ 32"
  then have "le_nat (le_bytes 4 (length bs)) = length bs" by (intro le_nat_le_bytes) simp
  then show "read_prefixed (u32_prefixed bs @ rest) = Ok (bs, rest)"
    by (simp add: u32_prefixed_Ok [OF bs] read_prefixed_def Let_def)
qed

lemma read_prefixed_no_panic [simp]: "read_prefixed bs \<noteq> Panic"
  by (simp add: read_prefixed_def Let_def)

lemma ring_parse_outer_no_panic [simp]: "ring_parse_outer v n bs \<noteq> Panic"
  by (auto simp: ring_parse_outer_def Let_def result_simps)

definition ring_message_ok :: "nat \<Rightarrow> ring_message \<Rightarrow> bool" where
  "ring_message_ok n m \<longleftrightarrow> length (rm_ec_ephemeral m) = n \<and> length (rm_kem_ciphertext1 m) < 2 ^ 32 \<and>
     length (rm_kem_ciphertext2 m) < 2 ^ 32 \<and> length (rm_inner_msg_ct m) < 2 ^ 32"

lemma ring_parse_outer_serialize:
  assumes "ring_message_ok n m" "length mac = 32"
  shows "ring_parse_outer (rm_version m) n (serialize_without_mac_inner m @ mac) =
    Ok (serialize_without_mac_inner m, mac, rm_ec_ephemeral m, rm_kem_ciphertext1 m, rm_kem_ciphertext2 m, rm_inner_msg_ct m)"
proof -
  have inner: "read_prefixed (u32_prefixed (rm_inner_msg_ct m)) = Ok (rm_inner_msg_ct m, [])"
    using prefixed_parser.parse_ser [of "rm_inner_msg_ct m" "[]"] assms(1) by (simp add: ring_message_ok_def)
  show ?thesis
    using assms inner
    by (simp add: ring_parse_outer_def ring_message_ok_def serialize_without_mac_inner_def Let_def prefixed_parser.parse_ser)
qed

text \<open>What the inner message needs to fit its length fields.\<close>

definition inner_fits :: "bytes \<Rightarrow> bytes \<Rightarrow> bytes \<Rightarrow> bool" where
  "inner_fits vks sigma cert \<longleftrightarrow> length vks < 2 ^ 16 \<and> length sigma < 2 ^ 16 \<and> length cert < 2 ^ 31"

lemma ring_inner_roundtrip:
  assumes laws: "keystream_length E" "length kseal = 32"
    and fits: "inner_fits vks sigma (sec_serialized cert)" "hint_fits hint" "sender_certificate_ok E P cert"
    and key: "length iks = n" "parse_key iks = Ok k" "n < 2 ^ 16"
  obtains ct where "build_inner_message E reg t hint iks vks sigma (sec_serialized cert) kseal = Ok ct" "length ct < 2 ^ 32"
    "ring_parse_inner E P n parse_key kseal ct =
      Ok \<lparr>pi_registration_id = reg, pi_msg_type = t, pi_content_hint = hint, pi_sender_iks = k, pi_vks = vks,
          pi_sigma = sigma, pi_sender_certificate = cert\<rparr>"
proof -
  let ?cert = "sec_serialized cert"
  let ?inner = "le_bytes 4 (unat reg) @ [message_type_value t, ucast (ContentHint_to_u32 hint)] @ iks
      @ (le_bytes 2 (length vks) @ vks) @ (le_bytes 2 (length sigma) @ sigma) @ u32_prefixed ?cert"
  have lens: "length vks < 2 ^ 16" "length sigma < 2 ^ 16" "length ?cert < 2 ^ 31" using fits(1) by (simp_all add: inner_fits_def)
  then have le: "le_nat (le_bytes 2 (length vks)) = length vks" "le_nat (le_bytes 2 (length sigma)) = length sigma"
    "le_nat (le_bytes 4 (length ?cert)) = length ?cert"
    by (simp_all add: le_nat_le_bytes)
  have pre: "u32_prefixed ?cert = le_bytes 4 (length ?cert) @ ?cert" using lens(3) by (intro u32_prefixed_Ok) simp
  obtain ct where ct: "spqxdh_aes_256_ctr_encrypt E ?inner kseal = Ok ct" "length ct = length ?inner"
      "spqxdh_aes_256_ctr_decrypt E ct kseal = Ok ?inner"
    using spqxdh_aes_roundtrip [OF laws] by blast
  show thesis
  proof (rule that)
    show "build_inner_message E reg t hint iks vks sigma ?cert kseal = Ok ct"
      using ct(1) lens by (simp add: build_inner_message_def u16_prefixed_def)
    show "length ct < 2 ^ 32"
      using ct(2) lens key(1,3) by (simp add: pre)
    show "ring_parse_inner E P n parse_key kseal ct =
      Ok \<lparr>pi_registration_id = reg, pi_msg_type = t, pi_content_hint = hint, pi_sender_iks = k, pi_vks = vks,
          pi_sigma = sigma, pi_sender_certificate = cert\<rparr>"
      using ct(3) key(1,2) fits(3) le
      by (simp add: ring_parse_inner_def Let_def pre nth_append u32_le_bytes hint_byte [OF fits(2)] sender_certificate_ok_def)
  qed
qed

lemma ring_parse_inner_no_panic:
  assumes "\<And>b. parse_key b \<noteq> Panic"
  shows "ring_parse_inner E P n parse_key kseal ct \<noteq> Panic"
proof -
  have "spqxdh_aes_256_ctr_decrypt E ct kseal \<noteq> Panic"
    by (simp add: spqxdh_aes_256_ctr_decrypt_def aes_256_ctr_decrypt_def aes_256_ctr_encrypt_def result_simps Let_def)
  then show ?thesis
    unfolding ring_parse_inner_def Let_def using assms by (intro no_panic_intros) simp_all
qed

text \<open>A key pair whose signatures verify.\<close>

definition falcon_pair :: "hash_and_signatures \<Rightarrow> bytes \<Rightarrow> bytes \<Rightarrow> bool" where
  "falcon_pair F vk sk \<longleftrightarrow> length vk < 2 ^ 16 \<and>
     (\<forall>ent msg. length (pure_falcon_sign F ent sk msg) < 2 ^ 16 \<and>
        pure_falcon_verify_bytes F vk msg (pure_falcon_sign F ent sk msg))"

subsection \<open>Parts of both handshakes\<close>

lemma kem_ciphertext_short:
  assumes "kem_matching E pk sk" "kem_PublicKey_encapsulate E pk r = (Ok (ss, ct), r1)"
  shows "length ct < 2 ^ 32"
proof -
  have "length ct = 1569"
    using assms
    by (auto simp: kem_PublicKey_encapsulate_def kem_param_encapsulate_eq kem_matching_def kem_Ciphertext_serialize_def
        kem_lengths Let_def split: prod.splits if_splits) (metis fst_conv)
  then show ?thesis by simp
qed

lemma ring_encapsulations:
  assumes "kem_matching E pk1 sk1" "kem_matching E pk2 sk2"
  obtains ss1 ct1 r1 ss2 ct2 r2 where
    "kem_PublicKey_encapsulate E pk1 r = (Ok (ss1, ct1), r1)" "kem_PublicKey_encapsulate E pk2 r1 = (Ok (ss2, ct2), r2)"
    "kem_SecretKey_decapsulate E sk1 ct1 = Ok ss1" "kem_SecretKey_decapsulate E sk2 ct2 = Ok ss2"
    "length ct1 < 2 ^ 32" "length ct2 < 2 ^ 32"
proof -
  obtain ss1 ct1 r1 where 1: "kem_PublicKey_encapsulate E pk1 r = (Ok (ss1, ct1), r1)" "kem_SecretKey_decapsulate E sk1 ct1 = Ok ss1"
    using kem_roundtrip [OF assms(1), of r] by blast
  obtain ss2 ct2 r2 where 2: "kem_PublicKey_encapsulate E pk2 r1 = (Ok (ss2, ct2), r2)" "kem_SecretKey_decapsulate E sk2 ct2 = Ok ss2"
    using kem_roundtrip [OF assms(2), of r1] by blast
  show thesis using that 1 2 kem_ciphertext_short [OF assms(1) 1(1)] kem_ciphertext_short [OF assms(2) 2(1)] by blast
qed

lemma ring_framed:
  assumes laws: "keystream_length E" "length kseal = 32"
    and fits: "inner_fits vks sigma (sec_serialized cert)" "hint_fits hint" "sender_certificate_ok E P cert"
    and key: "length iks = n" "parse_key iks = Ok k" "n < 2 ^ 16"
    and outer: "length eph = n" "length ct1 < 2 ^ 32" "length ct2 < 2 ^ 32"
  obtains ct where "build_inner_message E reg t hint iks vks sigma (sec_serialized cert) kseal = Ok ct"
    "ring_parse_inner E P n parse_key kseal ct =
      Ok \<lparr>pi_registration_id = reg, pi_msg_type = t, pi_content_hint = hint, pi_sender_iks = k, pi_vks = vks,
          pi_sigma = sigma, pi_sender_certificate = cert\<rparr>"
    "\<forall>v mac m. m = \<lparr>rm_version = v, rm_ec_ephemeral = eph, rm_kem_ciphertext1 = ct1, rm_kem_ciphertext2 = ct2,
         rm_inner_msg_ct = ct\<rparr> \<longrightarrow> length mac = 32 \<longrightarrow>
       ring_parse_outer v n (serialize_without_mac_inner m @ mac) =
         Ok (serialize_without_mac_inner m, mac, eph, ct1, ct2, ct)"
  using laws fits key
proof (rule ring_inner_roundtrip)
  fix ct
  assume ct: "build_inner_message E reg t hint iks vks sigma (sec_serialized cert) kseal = Ok ct" "length ct < 2 ^ 32"
    "ring_parse_inner E P n parse_key kseal ct =
      Ok \<lparr>pi_registration_id = reg, pi_msg_type = t, pi_content_hint = hint, pi_sender_iks = k, pi_vks = vks,
          pi_sigma = sigma, pi_sender_certificate = cert\<rparr>"
  have "ring_parse_outer v n (serialize_without_mac_inner m @ mac) = Ok (serialize_without_mac_inner m, mac, eph, ct1, ct2, ct)"
    if "m = \<lparr>rm_version = v, rm_ec_ephemeral = eph, rm_kem_ciphertext1 = ct1, rm_kem_ciphertext2 = ct2, rm_inner_msg_ct = ct\<rparr>"
      "length mac = 32" for v mac m
    using ring_parse_outer_serialize [of n m mac] that outer ct(2) by (simp add: ring_message_ok_def)
  then show thesis by (intro that [OF ct(1,3)]) blast
qed

end
