(* ===== verification/Ring_Xhmqv.thy ===== *)
theory Ring_Xhmqv
  imports Ring_Kem
begin

text \<open>
  \<open>rust/protocol/src/sealed_ringxkem_xhmqv.rs\<close>: a sealed handshake from XHMQV and two ML-KEM
  encapsulations, with a Falcon signature on the post-quantum transcript.
\<close>

definition RX_PROTOCOL_VERSION :: u8 where "RX_PROTOCOL_VERSION = 0x54"
definition RX_LABEL_SEALING_PHASE :: bytes where
  "RX_LABEL_SEALING_PHASE = ascii ''Signal_SealedRingXKEMXHMQV_Sealing_20260101''"
definition RX_LABEL_FINAL_KEYS :: bytes where "RX_LABEL_FINAL_KEYS = ascii ''Signal_SealedRingXKEMXHMQV_Final_20260101''"
definition RX_SESSION_LABEL :: bytes where "RX_SESSION_LABEL = ascii ''Signal_SealedRingXKEMXHMQV_Session_20260101''"

record 'p classical_bundle =
  clb_identity_key :: "'p ristretto_public_key"
  clb_signed_prekey :: "'p ristretto_public_key"
  clb_signed_prekey_signature :: bytes
  clb_one_time_prekey :: "'p ristretto_public_key option"
  clb_ed25519_verify_key :: bytes

record 'p rx_bundle =
  rxb_classical :: "'p classical_bundle"
  rxb_pq :: pq_bundle
  rxb_registration_id :: u32

definition verify_classical_spk_sig :: "hash_and_signatures \<Rightarrow> 'p classical_bundle \<Rightarrow> (unit, signal_error) result" where
  "verify_classical_spk_sig F bundle =
     (let spk_bytes = RistrettoPublicKey_serialize (clb_signed_prekey bundle) in
      bindR (ok_or (InvalidArgument ''bad ed25519 sig'')
               (ed25519_signature_from_slice F (clb_signed_prekey_signature bundle))) (\<lambda>sig.
      if ed25519_verify_strict F (clb_ed25519_verify_key bundle) spk_bytes sig then Ok ()
      else Err (InvalidSealedSenderMessage ''bad SPK signature'')))"

record ('p, 's) rx_send_params =
  rxs_sender_classical_identity :: "('p, 's) ristretto_key_pair"
  rxs_sender_falcon_sk :: bytes
  rxs_sender_falcon_vk :: bytes
  rxs_cert :: sender_certificate
  rxs_registration_id :: u32
  rxs_msg_type :: ciphertext_message_type
  rxs_content_hint :: content_hint

record ('p, 's) rx_recv_params =
  rxr_receiver_identity :: "('p, 's) ristretto_key_pair"
  rxr_receiver_signed_prekey :: "('p, 's) ristretto_key_pair"
  rxr_receiver_one_time_prekey :: "('p, 's) ristretto_key_pair option"
  rxr_pq_identity_kp :: kem_key_pair
  rxr_pq_signed_prekey_kp :: kem_key_pair
  rxr_receiver_falcon_vk :: bytes

record ck_kseal =
  cks_ck :: bytes
  cks_kseal :: bytes

definition rx_derive_ck_kseal ::
    "'r env \<Rightarrow> bytes \<Rightarrow> bytes \<Rightarrow> bytes \<Rightarrow> 'p ristretto_public_key \<Rightarrow> 'p ristretto_public_key \<Rightarrow>
     'p ristretto_public_key option \<Rightarrow> bytes \<Rightarrow> bytes \<Rightarrow> bytes \<Rightarrow> bytes \<Rightarrow> bytes \<Rightarrow> bytes \<Rightarrow> ck_kseal" where
  "rx_derive_ck_kseal E ss1 ss2 ss_iii receiver_identity receiver_signed_prekey receiver_one_time_prekey eph_bytes
     pq_identity_key_bytes pq_signed_prekey_bytes receiver_falcon_vk ct1 ct2 =
     (let transcript = ss1 @ ss2 @ ss_iii @ RistrettoPublicKey_serialize receiver_identity
            @ RistrettoPublicKey_serialize receiver_signed_prekey @ optional_key receiver_one_time_prekey
            @ eph_bytes @ pq_identity_key_bytes @ pq_signed_prekey_bytes @ receiver_falcon_vk @ ct1 @ ct2;
          sealing_and_chain_key = hkdf_sha256 E None transcript RX_LABEL_SEALING_PHASE 64
      in \<lparr>cks_ck = take 32 sealing_and_chain_key, cks_kseal = drop 32 sealing_and_chain_key\<rparr>)"

definition rx_verified_parse_outer ::
    "bytes \<Rightarrow> (bytes \<times> bytes \<times> bytes \<times> bytes \<times> bytes \<times> bytes, signal_error) result" where
  "rx_verified_parse_outer = ring_parse_outer RX_PROTOCOL_VERSION PUBLIC_KEY_LENGTH"

definition rx_validated_parse_inner ::
    "'r env \<Rightarrow> ss_prims \<Rightarrow> ('p, 's) ristretto \<Rightarrow> bytes \<Rightarrow> bytes \<Rightarrow>
     ('p ristretto_public_key parsed_inner, signal_error) result" where
  "rx_validated_parse_inner E P G = ring_parse_inner E P 32 (RistrettoPublicKey_deserialize G)"

text \<open>The session key and the MAC key.\<close>

definition rx_final_keys ::
    "'r env \<Rightarrow> bytes \<Rightarrow> bytes \<Rightarrow> 'p ristretto_public_key \<Rightarrow> bytes \<Rightarrow> bytes \<Rightarrow> bytes \<times> bytes" where
  "rx_final_keys E ck ss_iv sender_iks vks sigma =
     (let session_and_mac = hkdf_sha256 E None (ck @ ss_iv @ RistrettoPublicKey_serialize sender_iks @ vks @ sigma)
            RX_LABEL_FINAL_KEYS 64
      in (take 32 session_and_mac, drop 32 session_and_mac))"

text \<open>The second signature, and the second verification below, are computed for benchmarks and dropped.\<close>

definition rx_send ::
    "'r env \<Rightarrow> hash_and_signatures \<Rightarrow> ('p, 's) ristretto \<Rightarrow> bytes \<Rightarrow> 'p rx_bundle \<Rightarrow> ('p, 's) rx_send_params \<Rightarrow> 'r \<Rightarrow>
     (ring_message_data \<times> bytes, signal_error) result \<times> 'r" where
  "rx_send E F G entropy bundle params r =
     (let classical = rxb_classical bundle; pq = rxb_pq bundle in
      bindS (verify_classical_spk_sig F classical, r) (\<lambda>_ r.
      bindS (verify_pq_spk_sig F pq, r) (\<lambda>_ r.
      bindS (kem_PublicKey_encapsulate E (pq_mlkem_identity_key pq) r) (\<lambda>(ss1, ct1) r1.
      bindS (kem_PublicKey_encapsulate E (pq_mlkem_signed_prekey pq) r1) (\<lambda>(ss2, ct2) r2.
      let (x, r3) = xhmqv_send E F G (rxs_sender_classical_identity params) (clb_identity_key classical)
            (clb_signed_prekey classical) (clb_one_time_prekey classical) r2;
          eph_bytes = RistrettoPublicKey_serialize (xs_ephemeral_public x);
          pq_id_bytes = kem_Key_serialize (pq_mlkem_identity_key pq);
          pq_spk_bytes = kem_Key_serialize (pq_mlkem_signed_prekey pq);
          ks = rx_derive_ck_kseal E ss1 ss2 (xs_shared_secret_1 x) (clb_identity_key classical) (clb_signed_prekey classical)
            (clb_one_time_prekey classical) eph_bytes pq_id_bytes pq_spk_bytes (pq_receiver_falcon_vkey pq) ct1 ct2;
          pq_transcript_hash = falcon_transcript_hash F (pq_receiver_falcon_vkey pq) (rxs_sender_falcon_vk params)
            pq_id_bytes pq_spk_bytes ct1 ct2;
          sigma = pure_falcon_sign F entropy (rxs_sender_falcon_sk params) pq_transcript_hash;
          iks = rkp_public_key (rxs_sender_classical_identity params);
          (session_key, mac_key) = rx_final_keys E (cks_ck ks) (xs_shared_secret_2 x) iks (rxs_sender_falcon_vk params) sigma
      in bindS (build_inner_message E (rxs_registration_id params) (rxs_msg_type params) (rxs_content_hint params)
                  (RistrettoPublicKey_serialize iks) (rxs_sender_falcon_vk params) sigma
                  (sec_serialized (rxs_cert params)) (cks_kseal ks), r3) (\<lambda>inner_ct r3.
         let msg = \<lparr>rm_version = RX_PROTOCOL_VERSION, rm_ec_ephemeral = eph_bytes, rm_kem_ciphertext1 = ct1,
                    rm_kem_ciphertext2 = ct2, rm_inner_msg_ct = inner_ct\<rparr>;
             mac = hmac_sha256 E mac_key (serialize_without_mac_inner msg)
         in (Ok (\<lparr>rmd_msg = msg, rmd_mac = mac, rmd_sealing_key = cks_kseal ks\<rparr>, session_key), r3)))))))"

definition rx_recv ::
    "'r env \<Rightarrow> ss_prims \<Rightarrow> hash_and_signatures \<Rightarrow> ('p, 's) ristretto \<Rightarrow> bytes \<Rightarrow> ('p, 's) rx_recv_params \<Rightarrow>
     (sealed_recv_result, signal_error) result" where
  "rx_recv E P F G msg_bytes params =
     bindR (rx_verified_parse_outer msg_bytes) (\<lambda>(encoded, expected_mac, eph, ct1, ct2, inner_ct).
     bindR (kem_SecretKey_decapsulate E (kkp_secret_key (rxr_pq_identity_kp params)) ct1) (\<lambda>ss1.
     bindR (kem_SecretKey_decapsulate E (kkp_secret_key (rxr_pq_signed_prekey_kp params)) ct2) (\<lambda>ss2.
     bindR (RistrettoPublicKey_deserialize G eph) (\<lambda>eph_pk.
     let rec1 = xhmqv_recv1 F G (rxr_receiver_identity params) (rxr_receiver_signed_prekey params)
           (rxr_receiver_one_time_prekey params) eph_pk;
         pq_id_bytes = kem_Key_serialize (kkp_public_key (rxr_pq_identity_kp params));
         pq_spk_bytes = kem_Key_serialize (kkp_public_key (rxr_pq_signed_prekey_kp params));
         ks = rx_derive_ck_kseal E ss1 ss2 (x1_shared_secret_1 rec1) (rkp_public_key (rxr_receiver_identity params))
           (rkp_public_key (rxr_receiver_signed_prekey params)) (map_option rkp_public_key (rxr_receiver_one_time_prekey params))
           eph pq_id_bytes pq_spk_bytes (rxr_receiver_falcon_vk params) ct1 ct2
     in bindR (rx_validated_parse_inner E P G (cks_kseal ks) inner_ct) (\<lambda>inner.
        let ss_iv = xhmqv_recv2 F G (x1_b_secret rec1) (pi_sender_iks inner) eph_pk;
            (session_key, mac_key) = rx_final_keys E (cks_ck ks) ss_iv (pi_sender_iks inner) (pi_vks inner) (pi_sigma inner)
        in if hmac_sha256 E mac_key encoded \<noteq> expected_mac then Err BadSealedPQXDHMac
           else if \<not> pure_falcon_verify_bytes F (pi_vks inner)
                     (falcon_transcript_hash F (rxr_receiver_falcon_vk params) (pi_vks inner) pq_id_bytes pq_spk_bytes ct1 ct2)
                     (pi_sigma inner)
           then Err (InvalidSealedSenderMessage ''invalid Falcon signature'')
           else Ok \<lparr>rr_sender_certificate = pi_sender_certificate inner, rr_registration_id = pi_registration_id inner,
                    rr_msg_type = pi_msg_type inner, rr_content_hint = pi_content_hint inner,
                    rr_session_key = session_key\<rparr>)))))"

definition rx_initialize_alice_session ::
    "'r env \<Rightarrow> bytes \<Rightarrow> public_key \<Rightarrow> identity_key \<Rightarrow> identity_key \<Rightarrow> public_key \<Rightarrow> u32 \<Rightarrow> u32 \<Rightarrow> 'r \<Rightarrow>
     (session_record, signal_error) result \<times> 'r" where
  "rx_initialize_alice_session E = initialize_alice_session_from_key E RX_SESSION_LABEL"

definition rx_initialize_bob_session ::
    "'r env \<Rightarrow> bytes \<Rightarrow> public_key \<Rightarrow> identity_key \<Rightarrow> identity_key \<Rightarrow> key_pair \<Rightarrow> u32 \<Rightarrow> u32 \<Rightarrow>
     (session_record, signal_error) result" where
  "rx_initialize_bob_session E = initialize_bob_session_from_key E RX_SESSION_LABEL"

subsection \<open>Sender and recipient agree\<close>

text \<open>The bundle carries the public halves of the recipient's keys.\<close>

definition rx_matching :: "'r env \<Rightarrow> ('p, 's) ristretto \<Rightarrow> 'p rx_bundle \<Rightarrow> ('p, 's) rx_recv_params \<Rightarrow> bool" where
  "rx_matching E G bundle p \<longleftrightarrow>
     ristretto_pair_ok G (rxr_receiver_identity p) \<and> ristretto_pair_ok G (rxr_receiver_signed_prekey p) \<and>
     (\<forall>kp \<in> set_option (rxr_receiver_one_time_prekey p). ristretto_pair_ok G kp) \<and>
     clb_identity_key (rxb_classical bundle) = rkp_public_key (rxr_receiver_identity p) \<and>
     clb_signed_prekey (rxb_classical bundle) = rkp_public_key (rxr_receiver_signed_prekey p) \<and>
     clb_one_time_prekey (rxb_classical bundle) = map_option rkp_public_key (rxr_receiver_one_time_prekey p) \<and>
     pq_mlkem_identity_key (rxb_pq bundle) = kkp_public_key (rxr_pq_identity_kp p) \<and>
     pq_mlkem_signed_prekey (rxb_pq bundle) = kkp_public_key (rxr_pq_signed_prekey_kp p) \<and>
     kem_matching E (kkp_public_key (rxr_pq_identity_kp p)) (kkp_secret_key (rxr_pq_identity_kp p)) \<and>
     kem_matching E (kkp_public_key (rxr_pq_signed_prekey_kp p)) (kkp_secret_key (rxr_pq_signed_prekey_kp p)) \<and>
     pq_receiver_falcon_vkey (rxb_pq bundle) = rxr_receiver_falcon_vk p"

lemma rx_delivered:
  assumes laws: "ristretto_ok G" "hash_lengths E" "keystream_length E"
    and valid: "rx_matching E G bundle recv" "verify_classical_spk_sig F (rxb_classical bundle) = Ok ()"
      "verify_pq_spk_sig F (rxb_pq bundle) = Ok ()"
    and sender: "ristretto_pair_ok G (rxs_sender_classical_identity p)"
      "falcon_pair F (rxs_sender_falcon_vk p) (rxs_sender_falcon_sk p)" "sender_certificate_ok E P (rxs_cert p)"
      "length (sec_serialized (rxs_cert p)) < 2 ^ 31" "hint_fits (rxs_content_hint p)"
  shows "\<exists>data key r'. rx_send E F G entropy bundle p r = (Ok (data, key), r') \<and> length key = 32 \<and>
    rx_recv E P F G (SealedMessageData_serialize data) recv =
      Ok \<lparr>rr_sender_certificate = rxs_cert p, rr_registration_id = rxs_registration_id p, rr_msg_type = rxs_msg_type p,
          rr_content_hint = rxs_content_hint p, rr_session_key = key\<rparr>"
proof -
  let ?id = "rxr_pq_identity_kp recv" and ?spk = "rxr_pq_signed_prekey_kp recv"
  let ?iks = "rkp_public_key (rxs_sender_classical_identity p)" and ?vks = "rxs_sender_falcon_vk p"
  note m = valid(1) [unfolded rx_matching_def]
  obtain ss1 ct1 r1 ss2 ct2 r2 where kem: "kem_PublicKey_encapsulate E (kkp_public_key ?id) r = (Ok (ss1, ct1), r1)"
      "kem_PublicKey_encapsulate E (kkp_public_key ?spk) r1 = (Ok (ss2, ct2), r2)"
      "kem_SecretKey_decapsulate E (kkp_secret_key ?id) ct1 = Ok ss1" "kem_SecretKey_decapsulate E (kkp_secret_key ?spk) ct2 = Ok ss2"
      "length ct1 < 2 ^ 32" "length ct2 < 2 ^ 32"
    using m ring_encapsulations by metis
  obtain x r3 where x: "xhmqv_send E F G (rxs_sender_classical_identity p) (rkp_public_key (rxr_receiver_identity recv))
      (rkp_public_key (rxr_receiver_signed_prekey recv)) (map_option rkp_public_key (rxr_receiver_one_time_prekey recv)) r2 = (x, r3)"
    by fastforce
  note agree = xhmqv_secrets_agree [OF laws(1) sender(1) _ _ _ x]
  let ?eph = "RistrettoPublicKey_serialize (xs_ephemeral_public x)"
  have eph: "RistrettoPublicKey_deserialize G ?eph = Ok (xs_ephemeral_public x)" "length ?eph = 32"
    using agree(3) m RistrettoPublicKey_roundtrip [OF laws(1)] by auto
  have iks: "RistrettoPublicKey_deserialize G (RistrettoPublicKey_serialize ?iks) = Ok ?iks"
      "length (RistrettoPublicKey_serialize ?iks) = 32"
    using sender(1) RistrettoPublicKey_roundtrip [OF laws(1)]
    by (simp_all add: ristretto_pair_ok_def RistrettoPrivateKey_public_key_def)
  define ks where "ks = rx_derive_ck_kseal E ss1 ss2 (xs_shared_secret_1 x) (rkp_public_key (rxr_receiver_identity recv))
      (rkp_public_key (rxr_receiver_signed_prekey recv)) (map_option rkp_public_key (rxr_receiver_one_time_prekey recv)) ?eph
      (kem_Key_serialize (kkp_public_key ?id)) (kem_Key_serialize (kkp_public_key ?spk)) (rxr_receiver_falcon_vk recv) ct1 ct2"
  have kseal: "length (cks_kseal ks) = 32" using laws(2) by (simp add: ks_def rx_derive_ck_kseal_def Let_def hash_lengths_def)
  define hash where "hash = falcon_transcript_hash F (rxr_receiver_falcon_vk recv) ?vks
      (kem_Key_serialize (kkp_public_key ?id)) (kem_Key_serialize (kkp_public_key ?spk)) ct1 ct2"
  define sigma where "sigma = pure_falcon_sign F entropy (rxs_sender_falcon_sk p) hash"
  have falcon: "inner_fits ?vks sigma (sec_serialized (rxs_cert p))" "pure_falcon_verify_bytes F ?vks hash sigma"
    using sender(2,4) by (simp_all add: sigma_def falcon_pair_def inner_fits_def)
  obtain sk mk where keys: "rx_final_keys E (cks_ck ks) (xs_shared_secret_2 x) ?iks ?vks sigma = (sk, mk)" "length sk = 32"
    using laws(2) by (simp add: rx_final_keys_def Let_def hash_lengths_def)
  have small: "(32 :: nat) < 2 ^ 16" by simp
  obtain ct where ct: "build_inner_message E (rxs_registration_id p) (rxs_msg_type p) (rxs_content_hint p)
        (RistrettoPublicKey_serialize ?iks) ?vks sigma (sec_serialized (rxs_cert p)) (cks_kseal ks) = Ok ct"
      "rx_validated_parse_inner E P G (cks_kseal ks) ct =
        Ok \<lparr>pi_registration_id = rxs_registration_id p, pi_msg_type = rxs_msg_type p, pi_content_hint = rxs_content_hint p,
            pi_sender_iks = ?iks, pi_vks = ?vks, pi_sigma = sigma, pi_sender_certificate = rxs_cert p\<rparr>"
      "\<forall>v mac m. m = \<lparr>rm_version = v, rm_ec_ephemeral = ?eph, rm_kem_ciphertext1 = ct1, rm_kem_ciphertext2 = ct2,
           rm_inner_msg_ct = ct\<rparr> \<longrightarrow> length mac = 32 \<longrightarrow>
         ring_parse_outer v 32 (serialize_without_mac_inner m @ mac) = Ok (serialize_without_mac_inner m, mac, ?eph, ct1, ct2, ct)"
    unfolding rx_validated_parse_inner_def
    by (rule ring_framed [where t = "rxs_msg_type p" and reg = "rxs_registration_id p" and
          parse_key = "RistrettoPublicKey_deserialize G", OF laws(3) kseal falcon(1) sender(5,3) iks(2,1) small eph(2) kem(5,6)])
  define msg where "msg = \<lparr>rm_version = RX_PROTOCOL_VERSION, rm_ec_ephemeral = ?eph, rm_kem_ciphertext1 = ct1,
      rm_kem_ciphertext2 = ct2, rm_inner_msg_ct = ct\<rparr>"
  let ?mac = "hmac_sha256 E mk (serialize_without_mac_inner msg)"
  have "length ?mac = 32" using laws(2) by (simp add: hmac_sha256_def hash_lengths_def)
  then have outer: "rx_verified_parse_outer (serialize_without_mac_inner msg @ ?mac) =
      Ok (serialize_without_mac_inner msg, ?mac, ?eph, ct1, ct2, ct)"
    by (simp add: rx_verified_parse_outer_def PUBLIC_KEY_LENGTH_def ct(3) [rule_format, OF msg_def])
  have "rx_send E F G entropy bundle p r =
      (Ok (\<lparr>rmd_msg = msg, rmd_mac = ?mac, rmd_sealing_key = cks_kseal ks\<rparr>, sk), r3)"
    using valid(2,3) kem(1,2) x keys(1) ct(1) m
    by (simp add: rx_send_def Let_def flip: ks_def hash_def sigma_def) (simp add: msg_def)
  moreover have "rx_recv E P F G (serialize_without_mac_inner msg @ ?mac) recv =
      Ok \<lparr>rr_sender_certificate = rxs_cert p, rr_registration_id = rxs_registration_id p, rr_msg_type = rxs_msg_type p,
          rr_content_hint = rxs_content_hint p, rr_session_key = sk\<rparr>"
    using outer kem(3,4) eph(1) ct(2) keys(1) falcon(2) agree(1,2) m
    by (simp add: rx_recv_def Let_def flip: ks_def hash_def)
  ultimately show ?thesis
    using keys(2) by (auto simp: SealedMessageData_serialize_def)
qed

lemma RistrettoPublicKey_deserialize_no_panic [simp]: "RistrettoPublicKey_deserialize G bs \<noteq> Panic"
  by (simp add: RistrettoPublicKey_deserialize_def result_simps)

lemma rx_recv_no_panic: "rx_recv E P F G msg_bytes params \<noteq> Panic"
  unfolding rx_recv_def Let_def case_prod_beta rx_verified_parse_outer_def rx_validated_parse_inner_def
  by (intro no_panic_intros ring_parse_inner_no_panic) simp_all

text \<open>An accepted message carries the MAC under the key of its session, and a signature on its transcript.\<close>

lemma rx_recv_authentic:
  assumes "rx_recv E P F G bs p = Ok res"
  shows "\<exists>encoded mac eph ct1 ct2 inner_ct ck kseal inner ss.
    rx_verified_parse_outer bs = Ok (encoded, mac, eph, ct1, ct2, inner_ct) \<and>
    rx_validated_parse_inner E P G kseal inner_ct = Ok inner \<and>
    rr_sender_certificate res = pi_sender_certificate inner \<and>
    (rr_session_key res, mac) = apsnd (\<lambda>k. hmac_sha256 E k encoded)
      (rx_final_keys E ck ss (pi_sender_iks inner) (pi_vks inner) (pi_sigma inner)) \<and>
    pure_falcon_verify_bytes F (pi_vks inner) (falcon_transcript_hash F (rxr_receiver_falcon_vk p) (pi_vks inner)
      (kem_Key_serialize (kkp_public_key (rxr_pq_identity_kp p))) (kem_Key_serialize (kkp_public_key (rxr_pq_signed_prekey_kp p)))
      ct1 ct2) (pi_sigma inner)"
  using assms
  by (clarsimp simp: rx_recv_def result_simps Let_def case_prod_beta apsnd_def map_prod_def split: if_splits) blast

end
