(* ===== verification/Ring_X3dh.thy ===== *)
theory Ring_X3dh
  imports Ring_Kem
begin

text \<open>
  \<open>rust/protocol/src/sealed_ringxkem_x3dh.rs\<close>: the sealed handshake with X25519 agreements in place of
  XHMQV. The sender's identity enters through its agreement with the recipient's signed pre-key, with
  the key that the certificate names.
\<close>

definition R3_PROTOCOL_VERSION :: u8 where "R3_PROTOCOL_VERSION = 0x55"
definition R3_LABEL_SEALING_PHASE :: bytes where
  "R3_LABEL_SEALING_PHASE = ascii ''Signal_SealedRingXKEMX3DH_Sealing_20260101''"
definition R3_LABEL_FINAL_KEYS :: bytes where
  "R3_LABEL_FINAL_KEYS = ascii ''Signal_SealedRingXKEMX3DH_LocalIdentity_Mixin_20260101''"
definition R3_SESSION_LABEL :: bytes where "R3_SESSION_LABEL = ascii ''Signal_SealedRingXKEMX3DH_Session_20260101''"

record r3_bundle =
  r3b_classical :: pre_key_bundle
  r3b_pq :: pq_bundle
  r3b_registration_id :: u32

definition r3_verified_parse_outer ::
    "bytes \<Rightarrow> (bytes \<times> bytes \<times> bytes \<times> bytes \<times> bytes \<times> bytes, signal_error) result" where
  "r3_verified_parse_outer = ring_parse_outer R3_PROTOCOL_VERSION 33"

definition verified_classical_spk_sig :: "'r env \<Rightarrow> pre_key_bundle \<Rightarrow> (unit, signal_error) result" where
  "verified_classical_spk_sig E bundle =
     (if \<not> verify_signature E (b_identity_key bundle) (PublicKey_serialize (esp_public_key (b_ec_signed_pre_key bundle)))
             (esp_signature (b_ec_signed_pre_key bundle))
      then Err (InvalidSealedSenderMessage ''bad classical SPK signature'') else Ok ())"

definition r3_derive_ck_kseal ::
    "'r env \<Rightarrow> bytes \<Rightarrow> bytes \<Rightarrow> bytes \<Rightarrow> bytes \<Rightarrow> bytes option \<Rightarrow> public_key \<Rightarrow> public_key \<Rightarrow> public_key option \<Rightarrow>
     bytes \<Rightarrow> bytes \<Rightarrow> bytes \<Rightarrow> bytes \<Rightarrow> bytes \<Rightarrow> bytes \<Rightarrow> bytes \<times> bytes" where
  "r3_derive_ck_kseal E ss1 ss2 ecdh_eph_ikr ecdh_eph_spkr ecdh_eph_opkr receiver_identity receiver_signed_prekey
     receiver_one_time_prekey eph_bytes pq_identity_key_bytes pq_signed_prekey_bytes receiver_falcon_vk ct1 ct2 =
     (let transcript = ss1 @ ss2 @ ecdh_eph_ikr @ ecdh_eph_spkr @ (case ecdh_eph_opkr of None \<Rightarrow> [] | Some opk \<Rightarrow> opk)
            @ PublicKey_serialize receiver_identity @ PublicKey_serialize receiver_signed_prekey
            @ (case receiver_one_time_prekey of None \<Rightarrow> [] | Some opk \<Rightarrow> PublicKey_serialize opk)
            @ eph_bytes @ pq_identity_key_bytes @ pq_signed_prekey_bytes @ receiver_falcon_vk @ ct1 @ ct2;
          sealing_and_chain_key = hkdf_sha256 E None transcript R3_LABEL_SEALING_PHASE 64
      in (take 32 sealing_and_chain_key, drop 32 sealing_and_chain_key))"

definition r3_validated_parse_inner ::
    "'r env \<Rightarrow> ss_prims \<Rightarrow> bytes \<Rightarrow> bytes \<Rightarrow> (public_key parsed_inner, signal_error) result" where
  "r3_validated_parse_inner E P =
     ring_parse_inner E P 33 (\<lambda>b. map_err (\<lambda>_. InvalidSealedSenderMessage ''bad IKs'') (PublicKey_deserialize b))"

record r3_send_params =
  r3s_sender_identity :: identity_key_pair
  r3s_sender_falcon_sk :: bytes
  r3s_sender_falcon_vk :: bytes
  r3s_cert :: sender_certificate
  r3s_registration_id :: u32
  r3s_msg_type :: ciphertext_message_type
  r3s_content_hint :: content_hint

record r3_recv_params =
  r3r_receiver_signed_prekey_kp :: key_pair
  r3r_receiver_one_time_prekey_kp :: "key_pair option"
  r3r_receiver_identity_kp :: identity_key_pair
  r3r_pq_identity_kp :: kem_key_pair
  r3r_pq_signed_prekey_kp :: kem_key_pair
  r3r_receiver_falcon_vk :: bytes

text \<open>The session key and the MAC key.\<close>

definition r3_final_keys :: "'r env \<Rightarrow> bytes \<Rightarrow> bytes \<Rightarrow> bytes \<times> bytes" where
  "r3_final_keys E ck ss_id =
     (let session_and_mac = hkdf_sha256 E None (ck @ ss_id) R3_LABEL_FINAL_KEYS 64
      in (take 32 session_and_mac, drop 32 session_and_mac))"

definition r3_send ::
    "'r env \<Rightarrow> hash_and_signatures \<Rightarrow> bytes \<Rightarrow> r3_bundle \<Rightarrow> r3_send_params \<Rightarrow> 'r \<Rightarrow>
     (ring_message_data \<times> bytes, signal_error) result \<times> 'r" where
  "r3_send E F entropy bundle params r =
     (let classical = r3b_classical bundle; pq = r3b_pq bundle; spkr = esp_public_key (b_ec_signed_pre_key classical) in
      bindS (verified_classical_spk_sig E classical, r) (\<lambda>_ r.
      bindS (verify_pq_spk_sig F pq, r) (\<lambda>_ r.
      bindS (kem_PublicKey_encapsulate E (pq_mlkem_identity_key pq) r) (\<lambda>(ss1, ct1) r1.
      bindS (kem_PublicKey_encapsulate E (pq_mlkem_signed_prekey pq) r1) (\<lambda>(ss2, ct2) r2.
      let (eph, r3) = KeyPair_generate E r2;
          ecdh_eph_ikr = calculate_agreement E (kp_private_key eph) (b_identity_key classical);
          ecdh_eph_spkr = calculate_agreement E (kp_private_key eph) spkr;
          ecdh_eph_opkr = map_option (calculate_agreement E (kp_private_key eph)) (b_pre_key_public classical);
          eph_bytes = PublicKey_serialize (kp_public_key eph)
      in bindS (assertR (length eph_bytes = 33), r3) (\<lambda>_ r3.
         let pq_id_bytes = kem_Key_serialize (pq_mlkem_identity_key pq);
             pq_spk_bytes = kem_Key_serialize (pq_mlkem_signed_prekey pq);
             (ck, kseal) = r3_derive_ck_kseal E ss1 ss2 ecdh_eph_ikr ecdh_eph_spkr ecdh_eph_opkr (b_identity_key classical)
               spkr (b_pre_key_public classical) eph_bytes pq_id_bytes pq_spk_bytes (pq_receiver_falcon_vkey pq) ct1 ct2;
             pq_transcript_hash = falcon_transcript_hash F (pq_receiver_falcon_vkey pq) (r3s_sender_falcon_vk params)
               pq_id_bytes pq_spk_bytes ct1 ct2;
             sigma = pure_falcon_sign F entropy (r3s_sender_falcon_sk params) pq_transcript_hash;
             ss_id = calculate_agreement E (id_private_key (r3s_sender_identity params)) spkr;
             (session_key, mac_key) = r3_final_keys E ck ss_id
         in bindS (build_inner_message E (r3s_registration_id params) (r3s_msg_type params) (r3s_content_hint params)
                     (PublicKey_serialize (id_identity_key (r3s_sender_identity params))) (r3s_sender_falcon_vk params) sigma
                     (sec_serialized (r3s_cert params)) kseal, r3) (\<lambda>inner_ct r3.
            let msg = \<lparr>rm_version = R3_PROTOCOL_VERSION, rm_ec_ephemeral = eph_bytes, rm_kem_ciphertext1 = ct1,
                       rm_kem_ciphertext2 = ct2, rm_inner_msg_ct = inner_ct\<rparr>;
                mac = hmac_sha256 E mac_key (serialize_without_mac_inner msg)
            in (Ok (\<lparr>rmd_msg = msg, rmd_mac = mac, rmd_sealing_key = kseal\<rparr>, session_key), r3))))))))"

definition r3_recv ::
    "'r env \<Rightarrow> ss_prims \<Rightarrow> hash_and_signatures \<Rightarrow> bytes \<Rightarrow> r3_recv_params \<Rightarrow> (sealed_recv_result, signal_error) result" where
  "r3_recv E P F msg_bytes params =
     bindR (r3_verified_parse_outer msg_bytes) (\<lambda>(encoded, expected_mac, eph, ct1, ct2, inner_ct).
     bindR (kem_SecretKey_decapsulate E (kkp_secret_key (r3r_pq_identity_kp params)) ct1) (\<lambda>ss1.
     bindR (kem_SecretKey_decapsulate E (kkp_secret_key (r3r_pq_signed_prekey_kp params)) ct2) (\<lambda>ss2.
     bindR (map_err (\<lambda>_. InvalidSealedSenderMessage ''bad eph'') (PublicKey_deserialize eph)) (\<lambda>eph_pk.
     let spk = r3r_receiver_signed_prekey_kp params;
         ecdh_eph_ikr = calculate_agreement E (id_private_key (r3r_receiver_identity_kp params)) eph_pk;
         ecdh_eph_spkr = calculate_agreement E (kp_private_key spk) eph_pk;
         ecdh_eph_opkr = map_option (\<lambda>opk. calculate_agreement E (kp_private_key opk) eph_pk)
           (r3r_receiver_one_time_prekey_kp params);
         pq_id_bytes = kem_Key_serialize (kkp_public_key (r3r_pq_identity_kp params));
         pq_spk_bytes = kem_Key_serialize (kkp_public_key (r3r_pq_signed_prekey_kp params));
         (ck, kseal) = r3_derive_ck_kseal E ss1 ss2 ecdh_eph_ikr ecdh_eph_spkr ecdh_eph_opkr
           (id_identity_key (r3r_receiver_identity_kp params)) (kp_public_key spk)
           (map_option kp_public_key (r3r_receiver_one_time_prekey_kp params)) eph pq_id_bytes pq_spk_bytes
           (r3r_receiver_falcon_vk params) ct1 ct2
     in bindR (r3_validated_parse_inner E P kseal inner_ct) (\<lambda>inner.
        let their_id_key = sec_key (pi_sender_certificate inner);
            (session_key, mac_key) = r3_final_keys E ck (calculate_agreement E (kp_private_key spk) their_id_key)
        in if hmac_sha256 E mac_key encoded \<noteq> expected_mac then Err BadSealedPQXDHMac
           else if \<not> pure_falcon_verify_bytes F (pi_vks inner)
                     (falcon_transcript_hash F (r3r_receiver_falcon_vk params) (pi_vks inner) pq_id_bytes pq_spk_bytes ct1 ct2)
                     (pi_sigma inner)
           then Err (InvalidSealedSenderMessage ''invalid Falcon signature'')
           else Ok \<lparr>rr_sender_certificate = pi_sender_certificate inner, rr_registration_id = pi_registration_id inner,
                    rr_msg_type = pi_msg_type inner, rr_content_hint = pi_content_hint inner,
                    rr_session_key = session_key\<rparr>)))))"

definition r3_initialize_alice_session ::
    "'r env \<Rightarrow> bytes \<Rightarrow> public_key \<Rightarrow> identity_key \<Rightarrow> identity_key \<Rightarrow> public_key \<Rightarrow> u32 \<Rightarrow> u32 \<Rightarrow> 'r \<Rightarrow>
     (session_record, signal_error) result \<times> 'r" where
  "r3_initialize_alice_session E = initialize_alice_session_from_key E R3_SESSION_LABEL"

definition r3_initialize_bob_session ::
    "'r env \<Rightarrow> bytes \<Rightarrow> public_key \<Rightarrow> identity_key \<Rightarrow> identity_key \<Rightarrow> key_pair \<Rightarrow> u32 \<Rightarrow> u32 \<Rightarrow>
     (session_record, signal_error) result" where
  "r3_initialize_bob_session E = initialize_bob_session_from_key E R3_SESSION_LABEL"

subsection \<open>Sender and recipient agree\<close>

definition r3_matching :: "'r env \<Rightarrow> r3_bundle \<Rightarrow> r3_recv_params \<Rightarrow> bool" where
  "r3_matching E bundle p \<longleftrightarrow>
     identity_consistent E (r3r_receiver_identity_kp p) \<and>
     kp_public_key (r3r_receiver_signed_prekey_kp p) = PrivateKey_public_key E (kp_private_key (r3r_receiver_signed_prekey_kp p)) \<and>
     (\<forall>kp \<in> set_option (r3r_receiver_one_time_prekey_kp p). kp_public_key kp = PrivateKey_public_key E (kp_private_key kp)) \<and>
     b_identity_key (r3b_classical bundle) = id_identity_key (r3r_receiver_identity_kp p) \<and>
     esp_public_key (b_ec_signed_pre_key (r3b_classical bundle)) = kp_public_key (r3r_receiver_signed_prekey_kp p) \<and>
     b_pre_key_public (r3b_classical bundle) = map_option kp_public_key (r3r_receiver_one_time_prekey_kp p) \<and>
     pq_mlkem_identity_key (r3b_pq bundle) = kkp_public_key (r3r_pq_identity_kp p) \<and>
     pq_mlkem_signed_prekey (r3b_pq bundle) = kkp_public_key (r3r_pq_signed_prekey_kp p) \<and>
     kem_matching E (kkp_public_key (r3r_pq_identity_kp p)) (kkp_secret_key (r3r_pq_identity_kp p)) \<and>
     kem_matching E (kkp_public_key (r3r_pq_signed_prekey_kp p)) (kkp_secret_key (r3r_pq_signed_prekey_kp p)) \<and>
     pq_receiver_falcon_vkey (r3b_pq bundle) = r3r_receiver_falcon_vk p"

lemma r3_delivered:
  assumes laws: "hash_lengths E" "dh_ok E" "curve_lengths E" "rng_length E" "keystream_length E"
    and valid: "r3_matching E bundle recv" "verified_classical_spk_sig E (r3b_classical bundle) = Ok ()"
      "verify_pq_spk_sig F (r3b_pq bundle) = Ok ()"
    and sender: "identity_consistent E (r3s_sender_identity p)" "sec_key (r3s_cert p) = id_identity_key (r3s_sender_identity p)"
      "falcon_pair F (r3s_sender_falcon_vk p) (r3s_sender_falcon_sk p)" "sender_certificate_ok E P (r3s_cert p)"
      "length (sec_serialized (r3s_cert p)) < 2 ^ 31" "hint_fits (r3s_content_hint p)"
  shows "\<exists>data key r'. r3_send E F entropy bundle p r = (Ok (data, key), r') \<and> length key = 32 \<and>
    r3_recv E P F (SealedMessageData_serialize data) recv =
      Ok \<lparr>rr_sender_certificate = r3s_cert p, rr_registration_id = r3s_registration_id p, rr_msg_type = r3s_msg_type p,
          rr_content_hint = r3s_content_hint p, rr_session_key = key\<rparr>"
proof -
  let ?id = "r3r_pq_identity_kp recv" and ?spk = "r3r_pq_signed_prekey_kp recv"
  let ?iks = "id_identity_key (r3s_sender_identity p)" and ?vks = "r3s_sender_falcon_vk p"
  note m = valid(1) [unfolded r3_matching_def identity_consistent_def]
  obtain ss1 ct1 r1 ss2 ct2 r2 where kem: "kem_PublicKey_encapsulate E (kkp_public_key ?id) r = (Ok (ss1, ct1), r1)"
      "kem_PublicKey_encapsulate E (kkp_public_key ?spk) r1 = (Ok (ss2, ct2), r2)"
      "kem_SecretKey_decapsulate E (kkp_secret_key ?id) ct1 = Ok ss1" "kem_SecretKey_decapsulate E (kkp_secret_key ?spk) ct2 = Ok ss2"
      "length ct1 < 2 ^ 32" "length ct2 < 2 ^ 32"
    using m ring_encapsulations by metis
  obtain e r3 where g: "KeyPair_generate E r2 = (e, r3)" by fastforce
  have e: "kp_public_key e = PrivateKey_public_key E (kp_private_key e)" "public_key_ok (kp_public_key e)"
    using KeyPair_generate_key_pair_ok [OF laws(2), of r2] KeyPair_generate_ok(1) [OF laws(3,4), of r2] g
    by (simp_all add: key_pair_ok_def)
  have iks: "public_key_ok ?iks" by (rule identity_public_ok [OF laws(3) sender(1)])
  let ?eph = "PublicKey_serialize (kp_public_key e)"
  let ?dh = "calculate_agreement E (kp_private_key e)"
  obtain ck kseal where ks: "r3_derive_ck_kseal E ss1 ss2 (?dh (b_identity_key (r3b_classical bundle)))
      (?dh (esp_public_key (b_ec_signed_pre_key (r3b_classical bundle)))) (map_option ?dh (b_pre_key_public (r3b_classical bundle)))
      (b_identity_key (r3b_classical bundle)) (esp_public_key (b_ec_signed_pre_key (r3b_classical bundle)))
      (b_pre_key_public (r3b_classical bundle)) ?eph
      (kem_Key_serialize (kkp_public_key ?id)) (kem_Key_serialize (kkp_public_key ?spk)) (r3r_receiver_falcon_vk recv) ct1 ct2 = (ck, kseal)"
      "length kseal = 32"
    using laws(1) by (simp add: r3_derive_ck_kseal_def Let_def hash_lengths_def)
  have opk: "map_option ?dh (b_pre_key_public (r3b_classical bundle)) =
      map_option (\<lambda>kp. calculate_agreement E (kp_private_key kp) (kp_public_key e)) (r3r_receiver_one_time_prekey_kp recv)"
    using m calculate_agreement_commute [OF laws(2)] by (cases "r3r_receiver_one_time_prekey_kp recv") (simp_all add: e(1))
  have dh: "?dh (b_identity_key (r3b_classical bundle)) =
      calculate_agreement E (id_private_key (r3r_receiver_identity_kp recv)) (kp_public_key e)"
    "?dh (esp_public_key (b_ec_signed_pre_key (r3b_classical bundle))) =
      calculate_agreement E (kp_private_key (r3r_receiver_signed_prekey_kp recv)) (kp_public_key e)"
    "calculate_agreement E (id_private_key (r3s_sender_identity p)) (esp_public_key (b_ec_signed_pre_key (r3b_classical bundle))) =
      calculate_agreement E (kp_private_key (r3r_receiver_signed_prekey_kp recv)) ?iks"
    using m sender(1) calculate_agreement_commute [OF laws(2)] by (simp_all add: e(1) identity_consistent_def)
  define hash where "hash = falcon_transcript_hash F (r3r_receiver_falcon_vk recv) ?vks
      (kem_Key_serialize (kkp_public_key ?id)) (kem_Key_serialize (kkp_public_key ?spk)) ct1 ct2"
  define sigma where "sigma = pure_falcon_sign F entropy (r3s_sender_falcon_sk p) hash"
  have falcon: "inner_fits ?vks sigma (sec_serialized (r3s_cert p))" "pure_falcon_verify_bytes F ?vks hash sigma"
    using sender(3,5) by (simp_all add: sigma_def falcon_pair_def inner_fits_def)
  obtain sk mk where keys: "r3_final_keys E ck
      (calculate_agreement E (kp_private_key (r3r_receiver_signed_prekey_kp recv)) ?iks) = (sk, mk)" "length sk = 32"
    using laws(1) by (simp add: r3_final_keys_def Let_def hash_lengths_def)
  have small: "(33 :: nat) < 2 ^ 16" by simp
  have parse: "map_err (\<lambda>_. InvalidSealedSenderMessage ''bad IKs'') (PublicKey_deserialize (PublicKey_serialize ?iks)) = Ok ?iks"
    by (simp add: public_key_serde.de_ser [OF iks])
  obtain ct where ct: "build_inner_message E (r3s_registration_id p) (r3s_msg_type p) (r3s_content_hint p)
        (PublicKey_serialize ?iks) ?vks sigma (sec_serialized (r3s_cert p)) kseal = Ok ct"
      "r3_validated_parse_inner E P kseal ct =
        Ok \<lparr>pi_registration_id = r3s_registration_id p, pi_msg_type = r3s_msg_type p, pi_content_hint = r3s_content_hint p,
            pi_sender_iks = ?iks, pi_vks = ?vks, pi_sigma = sigma, pi_sender_certificate = r3s_cert p\<rparr>"
      "\<forall>v mac m. m = \<lparr>rm_version = v, rm_ec_ephemeral = ?eph, rm_kem_ciphertext1 = ct1, rm_kem_ciphertext2 = ct2,
           rm_inner_msg_ct = ct\<rparr> \<longrightarrow> length mac = 32 \<longrightarrow>
         ring_parse_outer v 33 (serialize_without_mac_inner m @ mac) = Ok (serialize_without_mac_inner m, mac, ?eph, ct1, ct2, ct)"
    unfolding r3_validated_parse_inner_def
    by (rule ring_framed [where t = "r3s_msg_type p" and reg = "r3s_registration_id p" and
          parse_key = "\<lambda>b. map_err (\<lambda>_. InvalidSealedSenderMessage ''bad IKs'') (PublicKey_deserialize b)",
          OF laws(5) ks(2) falcon(1) sender(6,4) length_PublicKey_serialize [OF iks] parse small
             length_PublicKey_serialize [OF e(2)] kem(5,6)])
  define msg where "msg = \<lparr>rm_version = R3_PROTOCOL_VERSION, rm_ec_ephemeral = ?eph, rm_kem_ciphertext1 = ct1,
      rm_kem_ciphertext2 = ct2, rm_inner_msg_ct = ct\<rparr>"
  let ?mac = "hmac_sha256 E mk (serialize_without_mac_inner msg)"
  have "length ?mac = 32" using laws(1) by (simp add: hmac_sha256_def hash_lengths_def)
  then have outer: "r3_verified_parse_outer (serialize_without_mac_inner msg @ ?mac) =
      Ok (serialize_without_mac_inner msg, ?mac, ?eph, ct1, ct2, ct)"
    by (simp add: r3_verified_parse_outer_def ct(3) [rule_format, OF msg_def])
  have pq: "pq_mlkem_identity_key (r3b_pq bundle) = kkp_public_key ?id" "pq_mlkem_signed_prekey (r3b_pq bundle) = kkp_public_key ?spk"
      "pq_receiver_falcon_vkey (r3b_pq bundle) = r3r_receiver_falcon_vk recv"
    using m by simp_all
  have "r3_send E F entropy bundle p r =
      (Ok (\<lparr>rmd_msg = msg, rmd_mac = ?mac, rmd_sealing_key = kseal\<rparr>, sk), r3)"
    using valid(2,3) kem(1,2) g ks(1) keys(1) ct(1) length_PublicKey_serialize [OF e(2)]
    by (simp add: r3_send_def Let_def pq dh(3) flip: hash_def sigma_def) (simp add: msg_def)
  moreover have "r3_recv E P F (serialize_without_mac_inner msg @ ?mac) recv =
      Ok \<lparr>rr_sender_certificate = r3s_cert p, rr_registration_id = r3s_registration_id p, rr_msg_type = r3s_msg_type p,
          rr_content_hint = r3s_content_hint p, rr_session_key = sk\<rparr>"
    using outer kem(3,4) ct(2) keys(1) falcon(2) m sender(2) ks(1) [unfolded opk dh(1,2)]
    by (simp add: r3_recv_def Let_def public_key_serde.de_ser [OF e(2)] flip: hash_def)
  ultimately show ?thesis
    using keys(2) by (auto simp: SealedMessageData_serialize_def)
qed

lemma r3_recv_no_panic: "r3_recv E P F msg_bytes params \<noteq> Panic"
  unfolding r3_recv_def Let_def case_prod_beta r3_verified_parse_outer_def r3_validated_parse_inner_def
  by (intro no_panic_intros ring_parse_inner_no_panic) (simp_all add: result_simps)

lemma r3_recv_authentic:
  assumes "r3_recv E P F bs p = Ok res"
  shows "\<exists>encoded mac eph ct1 ct2 inner_ct ck kseal inner.
    r3_verified_parse_outer bs = Ok (encoded, mac, eph, ct1, ct2, inner_ct) \<and>
    r3_validated_parse_inner E P kseal inner_ct = Ok inner \<and>
    rr_sender_certificate res = pi_sender_certificate inner \<and>
    (rr_session_key res, mac) = apsnd (\<lambda>k. hmac_sha256 E k encoded)
      (r3_final_keys E ck (calculate_agreement E (kp_private_key (r3r_receiver_signed_prekey_kp p)) (sec_key (rr_sender_certificate res)))) \<and>
    pure_falcon_verify_bytes F (pi_vks inner) (falcon_transcript_hash F (r3r_receiver_falcon_vk p) (pi_vks inner)
      (kem_Key_serialize (kkp_public_key (r3r_pq_identity_kp p))) (kem_Key_serialize (kkp_public_key (r3r_pq_signed_prekey_kp p)))
      ct1 ct2) (pi_sigma inner)"
  using assms
  by (fastforce simp: r3_recv_def result_simps Let_def case_prod_beta apsnd_def map_prod_def split: if_splits)

end
