(* ===== verification/Sample_Env.thy ===== *)
theory Sample_Env
  imports Curve Kem Address
begin

text \<open>
  A concrete environment that satisfies every law named in \<open>Externals\<close>, \<open>Curve\<close>, \<open>Kem\<close> and
  \<open>Address\<close>: the witnesses of the properties instantiate the third-party parameters with it, so
  that no property rests on hypotheses that cannot hold together. Codecs are length-prefixed
  encodings built from combinators; the curve is the additive group of bytes, written with 32
  bytes; the random number generator counts.
\<close>

subsection \<open>Parser combinators\<close>

text \<open>An encoder with a parser that reads its output off the front of any input.\<close>

type_synonym 'a enc = "'a \<Rightarrow> bytes"
type_synonym 'a dec = "bytes \<Rightarrow> ('a \<times> bytes) option"

definition codes :: "'a enc \<Rightarrow> 'a dec \<Rightarrow> bool" where
  "codes e d \<longleftrightarrow> (\<forall>x rest. d (e x @ rest) = Some (x, rest))"

definition enc_u32 :: "u32 enc" where "enc_u32 x = le_bytes 4 (unat x)"
definition dec_u32 :: "u32 dec" where "dec_u32 bs = Some (of_nat (le_nat (take 4 bs)), drop 4 bs)"
definition enc_u64 :: "u64 enc" where "enc_u64 x = le_bytes 8 (unat x)"
definition dec_u64 :: "u64 dec" where "dec_u64 bs = Some (of_nat (le_nat (take 8 bs)), drop 8 bs)"

text \<open>A list, each element behind a 1 and a 0 at the end.\<close>

fun enc_list :: "'a enc \<Rightarrow> 'a list enc" where
  "enc_list e [] = [0]"
| "enc_list e (x # xs) = 1 # e x @ enc_list e xs"

text \<open>The list parser takes fuel: the length of the input is enough, as every element costs a byte.\<close>

fun dec_list_fuel :: "'a dec \<Rightarrow> nat \<Rightarrow> 'a list dec" where
  "dec_list_fuel d 0 bs = None"
| "dec_list_fuel d (Suc n) bs =
     (case bs of
        [] \<Rightarrow> None
      | b # bs' \<Rightarrow>
          if b = 0 then Some ([], bs')
          else (case d bs' of
                  None \<Rightarrow> None
                | Some (x, bs'') \<Rightarrow>
                    (case dec_list_fuel d n bs'' of None \<Rightarrow> None | Some (xs, rest) \<Rightarrow> Some (x # xs, rest))))"

definition dec_list :: "'a dec \<Rightarrow> 'a list dec" where
  "dec_list d bs = dec_list_fuel d (length bs) bs"

definition enc_byte :: "u8 enc" where "enc_byte b = [b]"
definition dec_byte :: "u8 dec" where "dec_byte bs = (case bs of [] \<Rightarrow> None | b # r \<Rightarrow> Some (b, r))"

definition enc_bytes :: "bytes enc" where "enc_bytes = enc_list enc_byte"
definition dec_bytes :: "bytes dec" where "dec_bytes = dec_list dec_byte"

fun enc_option :: "'a enc \<Rightarrow> 'a option enc" where
  "enc_option e None = [0]"
| "enc_option e (Some x) = 1 # e x"

definition dec_option :: "'a dec \<Rightarrow> 'a option dec" where
  "dec_option d bs =
     (case bs of
        [] \<Rightarrow> None
      | b # r \<Rightarrow> if b = 0 then Some (None, r) else map_option (\<lambda>(x, r'). (Some x, r')) (d r))"

definition enc_pair :: "'a enc \<Rightarrow> 'b enc \<Rightarrow> ('a \<times> 'b) enc" where
  "enc_pair e f p = e (fst p) @ f (snd p)"

definition dec_pair :: "'a dec \<Rightarrow> 'b dec \<Rightarrow> ('a \<times> 'b) dec" where
  "dec_pair d g bs = (case d bs of None \<Rightarrow> None | Some (x, r) \<Rightarrow> map_option (\<lambda>(y, r'). ((x, y), r')) (g r))"

text \<open>Encode through an isomorphism, such as that of a record and the tuple of its fields.\<close>

definition enc_iso :: "('b \<Rightarrow> 'a) \<Rightarrow> 'a enc \<Rightarrow> 'b enc" where "enc_iso f e x = e (f x)"
definition dec_iso :: "('a \<Rightarrow> 'b) \<Rightarrow> 'a dec \<Rightarrow> 'b dec" where
  "dec_iso g d bs = map_option (\<lambda>(x, r). (g x, r)) (d bs)"

named_theorems codes_intros "combinators that encode what they parse"

lemma codes_u32 [codes_intros]: "codes enc_u32 dec_u32"
proof -
  have "unat (x :: u32) < 256 ^ 4" for x using unsigned_less [of x, where 'a = nat] by simp
  then show ?thesis by (simp add: codes_def enc_u32_def dec_u32_def le_nat_le_bytes)
qed

lemma codes_u64 [codes_intros]: "codes enc_u64 dec_u64"
proof -
  have "unat (x :: u64) < 256 ^ 8" for x using unsigned_less [of x, where 'a = nat] by simp
  then show ?thesis by (simp add: codes_def enc_u64_def dec_u64_def le_nat_le_bytes)
qed

lemma codes_list [codes_intros]:
  assumes "codes e d"
  shows "codes (enc_list e) (dec_list d)"
proof -
  have "length (enc_list e xs) \<le> n \<Longrightarrow> dec_list_fuel d n (enc_list e xs @ rest) = Some (xs, rest)" for xs rest n
  proof (induction xs arbitrary: n)
    case Nil
    then show ?case by (cases n) auto
  next
    case (Cons x xs)
    then obtain n' where n: "n = Suc n'" by (cases n) auto
    then have "dec_list_fuel d n' (enc_list e xs @ rest) = Some (xs, rest)" using Cons by simp
    then show ?case using assms by (simp add: n codes_def)
  qed
  then show ?thesis by (simp add: codes_def dec_list_def)
qed

lemma codes_bytes [codes_intros]: "codes enc_bytes dec_bytes"
  unfolding enc_bytes_def dec_bytes_def
  by (rule codes_list) (simp add: codes_def enc_byte_def dec_byte_def)

lemma codes_option [codes_intros]: "codes e d \<Longrightarrow> codes (enc_option e) (dec_option d)"
  unfolding codes_def dec_option_def
proof (intro allI)
  fix x rest
  assume "\<forall>x rest. d (e x @ rest) = Some (x, rest)"
  then show "(case enc_option e x @ rest of [] \<Rightarrow> None
      | b # r \<Rightarrow> if b = 0 then Some (None, r) else map_option (\<lambda>(x, r'). (Some x, r')) (d r)) = Some (x, rest)"
    by (cases x) auto
qed

lemma codes_pair [codes_intros]: "codes e d \<Longrightarrow> codes f g \<Longrightarrow> codes (enc_pair e f) (dec_pair d g)"
  by (simp add: codes_def enc_pair_def dec_pair_def)

lemma codes_iso: "codes e d \<Longrightarrow> (\<And>x. g (f x) = x) \<Longrightarrow> codes (enc_iso f e) (dec_iso g d)"
  by (simp add: codes_def enc_iso_def dec_iso_def)

definition codec_of :: "'m enc \<Rightarrow> 'm dec \<Rightarrow> 'm codec" where
  "codec_of e d = \<lparr>encode = e, decode = (\<lambda>bs. map_option fst (d bs))\<rparr>"

lemma codec_of_ok: "codes e d \<Longrightarrow> codec_ok (codec_of e d)"
proof -
  assume "codes e d"
  then have "d (e x) = Some (x, [])" for x using append_Nil2 by (metis codes_def)
  then show ?thesis by (simp add: codec_ok_def codec_of_def)
qed

subsection \<open>Codecs of the protobuf messages\<close>

definition enc_pb_chain_key :: "pb_chain_key enc" where
  "enc_pb_chain_key = enc_iso (\<lambda>m. (ck_index m, ck_key m))
     (enc_pair enc_u32 enc_bytes)"
definition dec_pb_chain_key :: "pb_chain_key dec" where
  "dec_pb_chain_key = dec_iso (\<lambda>(x0, x1).
     \<lparr>ck_index = x0, ck_key = x1\<rparr>)
     (dec_pair dec_u32 dec_bytes)"

lemma codes_pb_chain_key [codes_intros]: "codes enc_pb_chain_key dec_pb_chain_key"
  unfolding enc_pb_chain_key_def dec_pb_chain_key_def by (intro codes_iso codes_intros) simp

definition enc_pb_message_key :: "pb_message_key enc" where
  "enc_pb_message_key = enc_iso (\<lambda>m. (mk_index m, mk_cipher_key m, mk_mac_key m, mk_iv m, mk_seed m))
     (enc_pair enc_u32 (enc_pair enc_bytes (enc_pair enc_bytes (enc_pair enc_bytes enc_bytes))))"
definition dec_pb_message_key :: "pb_message_key dec" where
  "dec_pb_message_key = dec_iso (\<lambda>(x0, x1, x2, x3, x4).
     \<lparr>mk_index = x0, mk_cipher_key = x1, mk_mac_key = x2, mk_iv = x3, mk_seed = x4\<rparr>)
     (dec_pair dec_u32 (dec_pair dec_bytes (dec_pair dec_bytes (dec_pair dec_bytes dec_bytes))))"

lemma codes_pb_message_key [codes_intros]: "codes enc_pb_message_key dec_pb_message_key"
  unfolding enc_pb_message_key_def dec_pb_message_key_def by (intro codes_iso codes_intros) simp

definition enc_pb_chain :: "pb_chain enc" where
  "enc_pb_chain = enc_iso (\<lambda>m. (c_sender_ratchet_key m, c_sender_ratchet_key_private m, c_chain_key m, c_message_keys m))
     (enc_pair enc_bytes (enc_pair enc_bytes (enc_pair (enc_option enc_pb_chain_key) (enc_list enc_pb_message_key))))"
definition dec_pb_chain :: "pb_chain dec" where
  "dec_pb_chain = dec_iso (\<lambda>(x0, x1, x2, x3).
     \<lparr>c_sender_ratchet_key = x0, c_sender_ratchet_key_private = x1, c_chain_key = x2, c_message_keys = x3\<rparr>)
     (dec_pair dec_bytes (dec_pair dec_bytes (dec_pair (dec_option dec_pb_chain_key) (dec_list dec_pb_message_key))))"

lemma codes_pb_chain [codes_intros]: "codes enc_pb_chain dec_pb_chain"
  unfolding enc_pb_chain_def dec_pb_chain_def by (intro codes_iso codes_intros) simp

definition enc_pb_pending_pre_key :: "pb_pending_pre_key enc" where
  "enc_pb_pending_pre_key = enc_iso (\<lambda>m. (ppk_pre_key_id m, ppk_signed_pre_key_id m, ppk_base_key m, ppk_timestamp m))
     (enc_pair (enc_option enc_u32) (enc_pair enc_u32 (enc_pair enc_bytes enc_u64)))"
definition dec_pb_pending_pre_key :: "pb_pending_pre_key dec" where
  "dec_pb_pending_pre_key = dec_iso (\<lambda>(x0, x1, x2, x3).
     \<lparr>ppk_pre_key_id = x0, ppk_signed_pre_key_id = x1, ppk_base_key = x2, ppk_timestamp = x3\<rparr>)
     (dec_pair (dec_option dec_u32) (dec_pair dec_u32 (dec_pair dec_bytes dec_u64)))"

lemma codes_pb_pending_pre_key [codes_intros]: "codes enc_pb_pending_pre_key dec_pb_pending_pre_key"
  unfolding enc_pb_pending_pre_key_def dec_pb_pending_pre_key_def by (intro codes_iso codes_intros) simp

definition enc_pb_pending_kyber_pre_key :: "pb_pending_kyber_pre_key enc" where
  "enc_pb_pending_kyber_pre_key = enc_iso (\<lambda>m. (pkk_pre_key_id m, pkk_ciphertext m))
     (enc_pair enc_u32 enc_bytes)"
definition dec_pb_pending_kyber_pre_key :: "pb_pending_kyber_pre_key dec" where
  "dec_pb_pending_kyber_pre_key = dec_iso (\<lambda>(x0, x1).
     \<lparr>pkk_pre_key_id = x0, pkk_ciphertext = x1\<rparr>)
     (dec_pair dec_u32 dec_bytes)"

lemma codes_pb_pending_kyber_pre_key [codes_intros]: "codes enc_pb_pending_kyber_pre_key dec_pb_pending_kyber_pre_key"
  unfolding enc_pb_pending_kyber_pre_key_def dec_pb_pending_kyber_pre_key_def by (intro codes_iso codes_intros) simp

definition enc_session_structure :: "session_structure enc" where
  "enc_session_structure = enc_iso (\<lambda>m. (s_session_version m, s_local_identity_public m, s_remote_identity_public m, s_root_key m, s_previous_counter m, s_sender_chain m, s_receiver_chains m, s_pending_pre_key m, s_pending_kyber_pre_key m, s_remote_registration_id m, s_local_registration_id m, s_alice_base_key m, s_pq_ratchet_state m))
     (enc_pair enc_u32 (enc_pair enc_bytes (enc_pair enc_bytes (enc_pair enc_bytes (enc_pair enc_u32 (enc_pair (enc_option enc_pb_chain) (enc_pair (enc_list enc_pb_chain) (enc_pair (enc_option enc_pb_pending_pre_key) (enc_pair (enc_option enc_pb_pending_kyber_pre_key) (enc_pair enc_u32 (enc_pair enc_u32 (enc_pair enc_bytes enc_bytes))))))))))))"
definition dec_session_structure :: "session_structure dec" where
  "dec_session_structure = dec_iso (\<lambda>(x0, x1, x2, x3, x4, x5, x6, x7, x8, x9, x10, x11, x12).
     \<lparr>s_session_version = x0, s_local_identity_public = x1, s_remote_identity_public = x2, s_root_key = x3, s_previous_counter = x4, s_sender_chain = x5, s_receiver_chains = x6, s_pending_pre_key = x7, s_pending_kyber_pre_key = x8, s_remote_registration_id = x9, s_local_registration_id = x10, s_alice_base_key = x11, s_pq_ratchet_state = x12\<rparr>)
     (dec_pair dec_u32 (dec_pair dec_bytes (dec_pair dec_bytes (dec_pair dec_bytes (dec_pair dec_u32 (dec_pair (dec_option dec_pb_chain) (dec_pair (dec_list dec_pb_chain) (dec_pair (dec_option dec_pb_pending_pre_key) (dec_pair (dec_option dec_pb_pending_kyber_pre_key) (dec_pair dec_u32 (dec_pair dec_u32 (dec_pair dec_bytes dec_bytes))))))))))))"

lemma codes_session_structure [codes_intros]: "codes enc_session_structure dec_session_structure"
  unfolding enc_session_structure_def dec_session_structure_def by (intro codes_iso codes_intros) simp

definition enc_record_structure :: "record_structure enc" where
  "enc_record_structure = enc_iso (\<lambda>m. (rs_current_session m, rs_previous_sessions m))
     (enc_pair (enc_option enc_session_structure) (enc_list enc_bytes))"
definition dec_record_structure :: "record_structure dec" where
  "dec_record_structure = dec_iso (\<lambda>(x0, x1).
     \<lparr>rs_current_session = x0, rs_previous_sessions = x1\<rparr>)
     (dec_pair (dec_option dec_session_structure) (dec_list dec_bytes))"

lemma codes_record_structure [codes_intros]: "codes enc_record_structure dec_record_structure"
  unfolding enc_record_structure_def dec_record_structure_def by (intro codes_iso codes_intros) simp

definition enc_pre_key_record_structure :: "pre_key_record_structure enc" where
  "enc_pre_key_record_structure = enc_iso (\<lambda>m. (pkr_id m, pkr_public_key m, pkr_private_key m))
     (enc_pair enc_u32 (enc_pair enc_bytes enc_bytes))"
definition dec_pre_key_record_structure :: "pre_key_record_structure dec" where
  "dec_pre_key_record_structure = dec_iso (\<lambda>(x0, x1, x2).
     \<lparr>pkr_id = x0, pkr_public_key = x1, pkr_private_key = x2\<rparr>)
     (dec_pair dec_u32 (dec_pair dec_bytes dec_bytes))"

lemma codes_pre_key_record_structure [codes_intros]: "codes enc_pre_key_record_structure dec_pre_key_record_structure"
  unfolding enc_pre_key_record_structure_def dec_pre_key_record_structure_def by (intro codes_iso codes_intros) simp

definition enc_signed_pre_key_record_structure :: "signed_pre_key_record_structure enc" where
  "enc_signed_pre_key_record_structure = enc_iso (\<lambda>m. (spk_id m, spk_public_key m, spk_private_key m, spk_signature m, spk_timestamp m))
     (enc_pair enc_u32 (enc_pair enc_bytes (enc_pair enc_bytes (enc_pair enc_bytes enc_u64))))"
definition dec_signed_pre_key_record_structure :: "signed_pre_key_record_structure dec" where
  "dec_signed_pre_key_record_structure = dec_iso (\<lambda>(x0, x1, x2, x3, x4).
     \<lparr>spk_id = x0, spk_public_key = x1, spk_private_key = x2, spk_signature = x3, spk_timestamp = x4\<rparr>)
     (dec_pair dec_u32 (dec_pair dec_bytes (dec_pair dec_bytes (dec_pair dec_bytes dec_u64))))"

lemma codes_signed_pre_key_record_structure [codes_intros]: "codes enc_signed_pre_key_record_structure dec_signed_pre_key_record_structure"
  unfolding enc_signed_pre_key_record_structure_def dec_signed_pre_key_record_structure_def by (intro codes_iso codes_intros) simp

definition enc_identity_key_pair_structure :: "identity_key_pair_structure enc" where
  "enc_identity_key_pair_structure = enc_iso (\<lambda>m. (ikp_public_key m, ikp_private_key m))
     (enc_pair enc_bytes enc_bytes)"
definition dec_identity_key_pair_structure :: "identity_key_pair_structure dec" where
  "dec_identity_key_pair_structure = dec_iso (\<lambda>(x0, x1).
     \<lparr>ikp_public_key = x0, ikp_private_key = x1\<rparr>)
     (dec_pair dec_bytes dec_bytes)"

lemma codes_identity_key_pair_structure [codes_intros]: "codes enc_identity_key_pair_structure dec_identity_key_pair_structure"
  unfolding enc_identity_key_pair_structure_def dec_identity_key_pair_structure_def by (intro codes_iso codes_intros) simp

definition enc_pb_sender_chain_key :: "pb_sender_chain_key enc" where
  "enc_pb_sender_chain_key = enc_iso (\<lambda>m. (sck_iteration m, sck_seed m))
     (enc_pair enc_u32 enc_bytes)"
definition dec_pb_sender_chain_key :: "pb_sender_chain_key dec" where
  "dec_pb_sender_chain_key = dec_iso (\<lambda>(x0, x1).
     \<lparr>sck_iteration = x0, sck_seed = x1\<rparr>)
     (dec_pair dec_u32 dec_bytes)"

lemma codes_pb_sender_chain_key [codes_intros]: "codes enc_pb_sender_chain_key dec_pb_sender_chain_key"
  unfolding enc_pb_sender_chain_key_def dec_pb_sender_chain_key_def by (intro codes_iso codes_intros) simp

definition enc_pb_sender_message_key :: "pb_sender_message_key enc" where
  "enc_pb_sender_message_key = enc_iso (\<lambda>m. (smk_iteration m, smk_seed m))
     (enc_pair enc_u32 enc_bytes)"
definition dec_pb_sender_message_key :: "pb_sender_message_key dec" where
  "dec_pb_sender_message_key = dec_iso (\<lambda>(x0, x1).
     \<lparr>smk_iteration = x0, smk_seed = x1\<rparr>)
     (dec_pair dec_u32 dec_bytes)"

lemma codes_pb_sender_message_key [codes_intros]: "codes enc_pb_sender_message_key dec_pb_sender_message_key"
  unfolding enc_pb_sender_message_key_def dec_pb_sender_message_key_def by (intro codes_iso codes_intros) simp

definition enc_pb_sender_signing_key :: "pb_sender_signing_key enc" where
  "enc_pb_sender_signing_key = enc_iso (\<lambda>m. (ssk_public m, ssk_private m))
     (enc_pair enc_bytes enc_bytes)"
definition dec_pb_sender_signing_key :: "pb_sender_signing_key dec" where
  "dec_pb_sender_signing_key = dec_iso (\<lambda>(x0, x1).
     \<lparr>ssk_public = x0, ssk_private = x1\<rparr>)
     (dec_pair dec_bytes dec_bytes)"

lemma codes_pb_sender_signing_key [codes_intros]: "codes enc_pb_sender_signing_key dec_pb_sender_signing_key"
  unfolding enc_pb_sender_signing_key_def dec_pb_sender_signing_key_def by (intro codes_iso codes_intros) simp

definition enc_sender_key_state_structure :: "sender_key_state_structure enc" where
  "enc_sender_key_state_structure = enc_iso (\<lambda>m. (sks_message_version m, sks_chain_id m, sks_sender_chain_key m, sks_sender_signing_key m, sks_sender_message_keys m))
     (enc_pair enc_u32 (enc_pair enc_u32 (enc_pair (enc_option enc_pb_sender_chain_key) (enc_pair (enc_option enc_pb_sender_signing_key) (enc_list enc_pb_sender_message_key)))))"
definition dec_sender_key_state_structure :: "sender_key_state_structure dec" where
  "dec_sender_key_state_structure = dec_iso (\<lambda>(x0, x1, x2, x3, x4).
     \<lparr>sks_message_version = x0, sks_chain_id = x1, sks_sender_chain_key = x2, sks_sender_signing_key = x3, sks_sender_message_keys = x4\<rparr>)
     (dec_pair dec_u32 (dec_pair dec_u32 (dec_pair (dec_option dec_pb_sender_chain_key) (dec_pair (dec_option dec_pb_sender_signing_key) (dec_list dec_pb_sender_message_key)))))"

lemma codes_sender_key_state_structure [codes_intros]: "codes enc_sender_key_state_structure dec_sender_key_state_structure"
  unfolding enc_sender_key_state_structure_def dec_sender_key_state_structure_def by (intro codes_iso codes_intros) simp

definition enc_sender_key_record_structure :: "sender_key_record_structure enc" where
  "enc_sender_key_record_structure = enc_iso (\<lambda>m. skr_sender_key_states m)
     (enc_list enc_sender_key_state_structure)"
definition dec_sender_key_record_structure :: "sender_key_record_structure dec" where
  "dec_sender_key_record_structure = dec_iso (\<lambda>x0.
     \<lparr>skr_sender_key_states = x0\<rparr>)
     (dec_list dec_sender_key_state_structure)"

lemma codes_sender_key_record_structure [codes_intros]: "codes enc_sender_key_record_structure dec_sender_key_record_structure"
  unfolding enc_sender_key_record_structure_def dec_sender_key_record_structure_def by (intro codes_iso codes_intros) simp

definition enc_pb_signal_message :: "pb_signal_message enc" where
  "enc_pb_signal_message = enc_iso (\<lambda>m. (wsm_ratchet_key m, wsm_counter m, wsm_previous_counter m, wsm_ciphertext m, wsm_pq_ratchet m))
     (enc_pair (enc_option enc_bytes) (enc_pair (enc_option enc_u32) (enc_pair (enc_option enc_u32) (enc_pair (enc_option enc_bytes) (enc_option enc_bytes)))))"
definition dec_pb_signal_message :: "pb_signal_message dec" where
  "dec_pb_signal_message = dec_iso (\<lambda>(x0, x1, x2, x3, x4).
     \<lparr>wsm_ratchet_key = x0, wsm_counter = x1, wsm_previous_counter = x2, wsm_ciphertext = x3, wsm_pq_ratchet = x4\<rparr>)
     (dec_pair (dec_option dec_bytes) (dec_pair (dec_option dec_u32) (dec_pair (dec_option dec_u32) (dec_pair (dec_option dec_bytes) (dec_option dec_bytes)))))"

lemma codes_pb_signal_message [codes_intros]: "codes enc_pb_signal_message dec_pb_signal_message"
  unfolding enc_pb_signal_message_def dec_pb_signal_message_def by (intro codes_iso codes_intros) simp

definition enc_pb_pre_key_signal_message :: "pb_pre_key_signal_message enc" where
  "enc_pb_pre_key_signal_message = enc_iso (\<lambda>m. (wpk_registration_id m, wpk_pre_key_id m, wpk_signed_pre_key_id m, wpk_kyber_pre_key_id m, wpk_kyber_ciphertext m, wpk_base_key m, wpk_identity_key m, wpk_message m))
     (enc_pair (enc_option enc_u32) (enc_pair (enc_option enc_u32) (enc_pair (enc_option enc_u32) (enc_pair (enc_option enc_u32) (enc_pair (enc_option enc_bytes) (enc_pair (enc_option enc_bytes) (enc_pair (enc_option enc_bytes) (enc_option enc_bytes))))))))"
definition dec_pb_pre_key_signal_message :: "pb_pre_key_signal_message dec" where
  "dec_pb_pre_key_signal_message = dec_iso (\<lambda>(x0, x1, x2, x3, x4, x5, x6, x7).
     \<lparr>wpk_registration_id = x0, wpk_pre_key_id = x1, wpk_signed_pre_key_id = x2, wpk_kyber_pre_key_id = x3, wpk_kyber_ciphertext = x4, wpk_base_key = x5, wpk_identity_key = x6, wpk_message = x7\<rparr>)
     (dec_pair (dec_option dec_u32) (dec_pair (dec_option dec_u32) (dec_pair (dec_option dec_u32) (dec_pair (dec_option dec_u32) (dec_pair (dec_option dec_bytes) (dec_pair (dec_option dec_bytes) (dec_pair (dec_option dec_bytes) (dec_option dec_bytes))))))))"

lemma codes_pb_pre_key_signal_message [codes_intros]: "codes enc_pb_pre_key_signal_message dec_pb_pre_key_signal_message"
  unfolding enc_pb_pre_key_signal_message_def dec_pb_pre_key_signal_message_def by (intro codes_iso codes_intros) simp

definition enc_pb_sender_key_message :: "pb_sender_key_message enc" where
  "enc_pb_sender_key_message = enc_iso (\<lambda>m. (wsk_distribution_uuid m, wsk_chain_id m, wsk_iteration m, wsk_ciphertext m))
     (enc_pair (enc_option enc_bytes) (enc_pair (enc_option enc_u32) (enc_pair (enc_option enc_u32) (enc_option enc_bytes))))"
definition dec_pb_sender_key_message :: "pb_sender_key_message dec" where
  "dec_pb_sender_key_message = dec_iso (\<lambda>(x0, x1, x2, x3).
     \<lparr>wsk_distribution_uuid = x0, wsk_chain_id = x1, wsk_iteration = x2, wsk_ciphertext = x3\<rparr>)
     (dec_pair (dec_option dec_bytes) (dec_pair (dec_option dec_u32) (dec_pair (dec_option dec_u32) (dec_option dec_bytes))))"

lemma codes_pb_sender_key_message [codes_intros]: "codes enc_pb_sender_key_message dec_pb_sender_key_message"
  unfolding enc_pb_sender_key_message_def dec_pb_sender_key_message_def by (intro codes_iso codes_intros) simp

definition enc_pb_sender_key_distribution_message :: "pb_sender_key_distribution_message enc" where
  "enc_pb_sender_key_distribution_message = enc_iso (\<lambda>m. (wsd_distribution_uuid m, wsd_chain_id m, wsd_iteration m, wsd_chain_key m, wsd_signing_key m))
     (enc_pair (enc_option enc_bytes) (enc_pair (enc_option enc_u32) (enc_pair (enc_option enc_u32) (enc_pair (enc_option enc_bytes) (enc_option enc_bytes)))))"
definition dec_pb_sender_key_distribution_message :: "pb_sender_key_distribution_message dec" where
  "dec_pb_sender_key_distribution_message = dec_iso (\<lambda>(x0, x1, x2, x3, x4).
     \<lparr>wsd_distribution_uuid = x0, wsd_chain_id = x1, wsd_iteration = x2, wsd_chain_key = x3, wsd_signing_key = x4\<rparr>)
     (dec_pair (dec_option dec_bytes) (dec_pair (dec_option dec_u32) (dec_pair (dec_option dec_u32) (dec_pair (dec_option dec_bytes) (dec_option dec_bytes)))))"

lemma codes_pb_sender_key_distribution_message [codes_intros]: "codes enc_pb_sender_key_distribution_message dec_pb_sender_key_distribution_message"
  unfolding enc_pb_sender_key_distribution_message_def dec_pb_sender_key_distribution_message_def by (intro codes_iso codes_intros) simp

definition enc_pb_sealed_pqxdh_message :: "pb_sealed_pqxdh_message enc" where
  "enc_pb_sealed_pqxdh_message = enc_iso (\<lambda>m. (wsp_pre_key_id m, wsp_signed_pre_key_id m, wsp_mlkem_pre_key_id m, wsp_ec_ephemeral m, wsp_kem_ciphertext m, wsp_inner_msg_ct m, wsp_sealed_ciphertext m))
     (enc_pair (enc_option enc_u32) (enc_pair (enc_option enc_u32) (enc_pair (enc_option enc_u32) (enc_pair (enc_option enc_bytes) (enc_pair (enc_option enc_bytes) (enc_pair (enc_option enc_bytes) (enc_option enc_bytes)))))))"
definition dec_pb_sealed_pqxdh_message :: "pb_sealed_pqxdh_message dec" where
  "dec_pb_sealed_pqxdh_message = dec_iso (\<lambda>(x0, x1, x2, x3, x4, x5, x6).
     \<lparr>wsp_pre_key_id = x0, wsp_signed_pre_key_id = x1, wsp_mlkem_pre_key_id = x2, wsp_ec_ephemeral = x3, wsp_kem_ciphertext = x4, wsp_inner_msg_ct = x5, wsp_sealed_ciphertext = x6\<rparr>)
     (dec_pair (dec_option dec_u32) (dec_pair (dec_option dec_u32) (dec_pair (dec_option dec_u32) (dec_pair (dec_option dec_bytes) (dec_pair (dec_option dec_bytes) (dec_pair (dec_option dec_bytes) (dec_option dec_bytes)))))))"

lemma codes_pb_sealed_pqxdh_message [codes_intros]: "codes enc_pb_sealed_pqxdh_message dec_pb_sealed_pqxdh_message"
  unfolding enc_pb_sealed_pqxdh_message_def dec_pb_sealed_pqxdh_message_def by (intro codes_iso codes_intros) simp

definition enc_pb_logical_fingerprint :: "pb_logical_fingerprint enc" where
  "enc_pb_logical_fingerprint = enc_iso (\<lambda>m. lf_content m)
     (enc_option enc_bytes)"
definition dec_pb_logical_fingerprint :: "pb_logical_fingerprint dec" where
  "dec_pb_logical_fingerprint = dec_iso (\<lambda>x0.
     \<lparr>lf_content = x0\<rparr>)
     (dec_option dec_bytes)"

lemma codes_pb_logical_fingerprint [codes_intros]: "codes enc_pb_logical_fingerprint dec_pb_logical_fingerprint"
  unfolding enc_pb_logical_fingerprint_def dec_pb_logical_fingerprint_def by (intro codes_iso codes_intros) simp

definition enc_pb_combined_fingerprints :: "pb_combined_fingerprints enc" where
  "enc_pb_combined_fingerprints = enc_iso (\<lambda>m. (cf_version m, cf_local_fingerprint m, cf_remote_fingerprint m))
     (enc_pair (enc_option enc_u32) (enc_pair (enc_option enc_pb_logical_fingerprint) (enc_option enc_pb_logical_fingerprint)))"
definition dec_pb_combined_fingerprints :: "pb_combined_fingerprints dec" where
  "dec_pb_combined_fingerprints = dec_iso (\<lambda>(x0, x1, x2).
     \<lparr>cf_version = x0, cf_local_fingerprint = x1, cf_remote_fingerprint = x2\<rparr>)
     (dec_pair (dec_option dec_u32) (dec_pair (dec_option dec_pb_logical_fingerprint) (dec_option dec_pb_logical_fingerprint)))"

lemma codes_pb_combined_fingerprints [codes_intros]: "codes enc_pb_combined_fingerprints dec_pb_combined_fingerprints"
  unfolding enc_pb_combined_fingerprints_def dec_pb_combined_fingerprints_def by (intro codes_iso codes_intros) simp

definition enc_pb_decryption_error_message :: "pb_decryption_error_message enc" where
  "enc_pb_decryption_error_message = enc_iso (\<lambda>m. (dem_ratchet_key m, dem_timestamp m, dem_device_id m))
     (enc_pair (enc_option enc_bytes) (enc_pair (enc_option enc_u64) (enc_option enc_u32)))"
definition dec_pb_decryption_error_message :: "pb_decryption_error_message dec" where
  "dec_pb_decryption_error_message = dec_iso (\<lambda>(x0, x1, x2).
     \<lparr>dem_ratchet_key = x0, dem_timestamp = x1, dem_device_id = x2\<rparr>)
     (dec_pair (dec_option dec_bytes) (dec_pair (dec_option dec_u64) (dec_option dec_u32)))"

lemma codes_pb_decryption_error_message [codes_intros]: "codes enc_pb_decryption_error_message dec_pb_decryption_error_message"
  unfolding enc_pb_decryption_error_message_def dec_pb_decryption_error_message_def by (intro codes_iso codes_intros) simp

definition enc_pb_content :: "pb_content enc" where
  "enc_pb_content = enc_iso (\<lambda>m. con_decryption_error_message m)
     (enc_option enc_bytes)"
definition dec_pb_content :: "pb_content dec" where
  "dec_pb_content = dec_iso (\<lambda>x0.
     \<lparr>con_decryption_error_message = x0\<rparr>)
     (dec_option dec_bytes)"

lemma codes_pb_content [codes_intros]: "codes enc_pb_content dec_pb_content"
  unfolding enc_pb_content_def dec_pb_content_def by (intro codes_iso codes_intros) simp

subsection \<open>A byte group, a padding cipher and a counting generator\<close>

text \<open>A scalar or point is a byte followed by 31 zeros; \<open>toy\<close> reads any byte string as a group element.\<close>

definition sc :: "u8 \<Rightarrow> bytes" where "sc x = x # replicate 31 0"

definition toy_pad :: "bytes \<Rightarrow> bytes" where
  "toy_pad p = (let n = 16 - length p mod 16 in p @ replicate n (of_nat n))"

definition toy_unpad :: "bytes \<Rightarrow> bytes option" where
  "toy_unpad c = (if c = [] then None else Some (take (length c - unat (last c)) c))"

definition toy_hex :: "u8 \<Rightarrow> string" where
  "toy_hex b = [char_of (97 + unat b div 16), char_of (97 + unat b mod 16)]"

definition toy_unhex :: "string \<Rightarrow> uuid" where
  "toy_unhex s = map (\<lambda>i. of_nat ((of_char (s ! (2 * i)) - 97) * 16 + (of_char (s ! (2 * i + 1)) - 97))) [0..<16]"

definition sample_env :: "nat env" where
  "sample_env = \<lparr>
     log_info_enabled = True,
     rng_fill_bytes = (\<lambda>n r. (replicate n (of_nat r), Suc r)),
     rng_random_bytes = (\<lambda>n r. (replicate n (of_nat r), Suc r)),
     rng_u32 = (\<lambda>r. (of_nat r, Suc r)),
     hmac_sha256_raw = (\<lambda>k m. replicate 32 (sum_list k + 3 * sum_list m)),
     hkdf_sha256 = (\<lambda>s i l n. replicate n (sum_list i + 5 * sum_list l + (case s of None \<Rightarrow> 0 | Some b \<Rightarrow> sum_list b))),
     sha512 = (\<lambda>m. replicate 64 (sum_list m)),
     aes256_ctr32be = (\<lambda>k n l. replicate l (sum_list k + sum_list n)),
     cbc_pkcs7_encrypt = (\<lambda>k iv p. toy_pad p),
     cbc_pkcs7_decrypt = (\<lambda>k iv c. toy_unpad c),
     clamp_integer = (\<lambda>b. b),
     x25519 = (\<lambda>a u. replicate 32 (sum_list a + hd (u @ [0]))),
     x25519_base = (\<lambda>a. replicate 32 (sum_list a)),
     scalar_from_bytes_mod_order = (\<lambda>b. sc (sum_list b)),
     scalar_from_hash = (\<lambda>b. sc (sum_list b)),
     scalar_mul = (\<lambda>a b. sc (sum_list a * sum_list b)),
     scalar_add = (\<lambda>a b. sc (sum_list a + sum_list b)),
     ed_basepoint_mul = (\<lambda>a. sc (sum_list a)),
     ed_neg = (\<lambda>p. sc (- sum_list p)),
     ed_double_scalar_mul_basepoint = (\<lambda>h p s. sc (sum_list h * sum_list p + sum_list s)),
     ed_compress = (\<lambda>p. sc (sum_list p)),
     ed_is_torsion_free = (\<lambda>p. True),
     mont_to_edwards = (\<lambda>u b. Some (sc (hd (u @ [0])))),
     kem_generate_key_pair = (\<lambda>t rnd. (replicate 3168 (sum_list rnd), replicate 1568 (sum_list rnd))),
     kem_encapsulate = (\<lambda>t pk rnd. (replicate 1568 (sum_list rnd), replicate 32 (sum_list rnd))),
     kem_decapsulate = (\<lambda>t sk ct. replicate 32 (hd (ct @ [0]))),
     spqr_initial_state = (\<lambda>p. Ok [1]),
     spqr_send = (\<lambda>s r. (Ok (s, Some (replicate 32 9), [7]), r)),
     spqr_recv = (\<lambda>s m. Ok (s, Some (replicate 32 9))),
     spqr_error_display = (\<lambda>e. ''spqr error''),
     uuid_to_string = (\<lambda>u. concat (map toy_hex u) @ ''----''),
     uuid_try_parse = (\<lambda>s. Some (toy_unhex s)),
     session_codec = codec_of enc_session_structure dec_session_structure,
     record_codec = codec_of enc_record_structure dec_record_structure,
     pre_key_record_codec = codec_of enc_pre_key_record_structure dec_pre_key_record_structure,
     signed_pre_key_record_codec = codec_of enc_signed_pre_key_record_structure dec_signed_pre_key_record_structure,
     identity_key_pair_codec = codec_of enc_identity_key_pair_structure dec_identity_key_pair_structure,
     sender_key_record_codec = codec_of enc_sender_key_record_structure dec_sender_key_record_structure,
     signal_message_codec = codec_of enc_pb_signal_message dec_pb_signal_message,
     pre_key_signal_message_codec = codec_of enc_pb_pre_key_signal_message dec_pb_pre_key_signal_message,
     sender_key_message_codec = codec_of enc_pb_sender_key_message dec_pb_sender_key_message,
     sender_key_distribution_codec = codec_of enc_pb_sender_key_distribution_message dec_pb_sender_key_distribution_message,
     sealed_pqxdh_codec = codec_of enc_pb_sealed_pqxdh_message dec_pb_sealed_pqxdh_message,
     fingerprint_codec = codec_of enc_pb_combined_fingerprints dec_pb_combined_fingerprints,
     decryption_error_codec = codec_of enc_pb_decryption_error_message dec_pb_decryption_error_message,
     content_codec = codec_of enc_pb_content dec_pb_content\<rparr>"

subsection \<open>The laws hold\<close>

lemma sample_codecs [simp]:
  "codec_ok (session_codec sample_env)" "codec_ok (record_codec sample_env)"
  "codec_ok (pre_key_record_codec sample_env)" "codec_ok (signed_pre_key_record_codec sample_env)"
  "codec_ok (identity_key_pair_codec sample_env)" "codec_ok (sender_key_record_codec sample_env)"
  "codec_ok (signal_message_codec sample_env)" "codec_ok (pre_key_signal_message_codec sample_env)"
  "codec_ok (sender_key_message_codec sample_env)" "codec_ok (sender_key_distribution_codec sample_env)"
  "codec_ok (sealed_pqxdh_codec sample_env)" "codec_ok (fingerprint_codec sample_env)"
  "codec_ok (decryption_error_codec sample_env)" "codec_ok (content_codec sample_env)"
  unfolding sample_env_def by (simp_all add: codec_of_ok codes_intros)

lemma sum_list_sc [simp]: "sum_list (sc x) = x"
  by (simp add: sc_def sum_list_replicate)

lemma sample_lengths [simp]:
  "hash_lengths sample_env" "keystream_length sample_env" "curve_lengths sample_env" "rng_length sample_env"
  by (simp_all add: hash_lengths_def keystream_length_def curve_lengths_def rng_length_def sample_env_def)

lemma sample_dh [simp]: "dh_ok sample_env"
  by (simp add: dh_ok_def sample_env_def add.commute)

lemma sample_xeddsa [simp]: "xeddsa_ok sample_env"
  by (simp add: xeddsa_ok_def sample_env_def Let_def) (simp add: sc_def)

lemma sample_cbc [simp]: "cbc_ok sample_env"
proof -
  have "toy_pad p \<noteq> [] \<and> length (toy_pad p) mod 16 = 0 \<and> toy_unpad (toy_pad p) = Some p" for p
  proof -
    define n where "n = 16 - length p mod 16"
    have n: "0 < n" "n \<le> 16" by (simp_all add: n_def)
    have "unat (word_of_nat n :: u8) = n" using n by (simp add: unat_of_nat)
    moreover have "last (p @ replicate n x) = x" for x using n(1) by (simp add: last_append)
    ultimately have "toy_unpad (toy_pad p) = Some p"
      using n by (simp add: toy_pad_def toy_unpad_def Let_def flip: n_def)
    moreover have "(length p + n) mod 16 = 0"
    proof -
      have "length p + n = 16 * (length p div 16 + 1)"
      proof -
        have sum: "k = q * 16 + m \<Longrightarrow> m < 16 \<Longrightarrow> k + (16 - m) = 16 * (q + 1)" for k q m :: nat by simp
        show ?thesis unfolding n_def by (rule sum) simp_all
      qed
      then show ?thesis by simp
    qed
    ultimately show ?thesis using n(1) by (simp add: toy_pad_def Let_def flip: n_def)
  qed
  then show ?thesis by (simp add: cbc_ok_def sample_env_def)
qed

lemma toy_hex_nth:
  "i < length u \<Longrightarrow> concat (map toy_hex u) ! (2 * i) = char_of (97 + unat (u ! i) div 16) \<and>
     concat (map toy_hex u) ! (2 * i + 1) = char_of (97 + unat (u ! i) mod 16)"
proof (induction u arbitrary: i)
  case (Cons b u)
  then show ?case by (cases i) (simp_all add: toy_hex_def)
qed simp

lemma sample_uuid [simp]: "uuid_text_ok sample_env"
proof -
  have hex: "length (concat (map toy_hex u)) = 2 * length u" for u
    by (induction u) (simp_all add: toy_hex_def)
  have "toy_unhex (concat (map toy_hex u) @ ''----'') = u" if "length u = 16" for u
  proof (rule nth_equalityI)
    fix i
    assume "i < length (toy_unhex (concat (map toy_hex u) @ ''----''))"
    then have i: "i < 16" by (simp add: toy_unhex_def)
    have b: "unat (u ! i) div 16 < 16" using unat_u8_less [of "u ! i"] by (simp add: less_mult_imp_div_less)
    have "of_nat (unat (u ! i) div 16 * 16 + unat (u ! i) mod 16) = u ! i"
      by (simp only: div_mult_mod_eq) simp
    then have "word_of_nat (unat (u ! i) div 16) * 16 + word_of_nat (unat (u ! i) mod 16) = u ! i"
      by (simp only: of_nat_add of_nat_mult of_nat_numeral)
    then show "toy_unhex (concat (map toy_hex u) @ ''----'') ! i = u ! i"
      using i b that toy_hex_nth [of i u] by (simp add: toy_unhex_def nth_append hex)
  qed (simp add: toy_unhex_def that)
  moreover have "CHR ''P'' \<notin> set (concat (map toy_hex u))" for u
  proof -
    have "char_of (97 + k) \<noteq> CHR ''P''" if "k < 16" for k :: nat
    proof -
      have "of_char (char_of (97 + k)) = 97 + k" using that by simp
      then have "of_char (char_of (97 + k)) \<noteq> (of_char (CHR ''P'') :: nat)" by simp
      then show ?thesis by metis
    qed
    moreover have "unat b div 16 < 16" "unat b mod 16 < 16" for b :: u8
      using unat_u8_less [of b] by (simp_all add: less_mult_imp_div_less)
    ultimately have "char_of (97 + unat b div 16) \<noteq> CHR ''P''" "char_of (97 + unat b mod 16) \<noteq> CHR ''P''" for b :: u8
      by blast+
    from not_sym [OF this(1)] not_sym [OF this(2)] show ?thesis by (simp add: toy_hex_def)
  qed
  ultimately show ?thesis by (simp add: uuid_text_ok_def sample_env_def hex)
qed

text \<open>A key pair of the sample KEM, as its key generation returns it.\<close>

definition sample_kem_pair :: "u8 \<Rightarrow> kem_key_pair" where
  "sample_kem_pair x =
     \<lparr>kkp_public_key = \<lparr>kk_key_type = Kyber1024, kk_key_data = replicate 1568 x\<rparr>,
      kkp_secret_key = \<lparr>kk_key_type = Kyber1024, kk_key_data = replicate 3168 x\<rparr>\<rparr>"

lemma sample_kem [simp]: "kem_matching sample_env (kkp_public_key (sample_kem_pair x)) (kkp_secret_key (sample_kem_pair x))"
  by (simp add: kem_matching_def kem_key_ok_def sample_kem_pair_def kem_lengths sample_env_def numeral_eq_Suc)

text \<open>A consistent key pair of the sample curve.\<close>

definition sample_pair :: "u8 \<Rightarrow> key_pair" where
  "sample_pair x = \<lparr>kp_public_key = DjbPublicKey (replicate 32 x), kp_private_key = DjbPrivateKey (sc x)\<rparr>"

lemma sample_pair_ok [simp]:
  "key_pair_ok sample_env (sample_pair x)" "public_key_ok (kp_public_key (sample_pair x))"
  "private_key_ok (kp_private_key (sample_pair x))"
  "PrivateKey_public_key sample_env (kp_private_key (sample_pair x)) = kp_public_key (sample_pair x)"
  by (simp_all add: key_pair_ok_def sample_pair_def PrivateKey_public_key_def wf_simps)
    (simp_all add: sample_env_def sc_def sum_list_replicate)

end
