(* ===== verification/Sample_Streams.thy ===== *)
theory Sample_Streams
  imports Incremental_Mac Hpke Sample_Env
begin

text \<open>
  Instances of the parameters of \<open>Incremental_Mac\<close>, \<open>Aes_Gcm\<close> and \<open>Hpke\<close>, on which the laws assumed of
  them hold: a MAC that keeps its input and returns 32 bytes computed from it, a key stream of constant
  bytes, a hash of the number of blocks, and a box from one agreement and one call of the cipher.
\<close>

definition sample_mac_ops :: "bytes mac_ops" where
  "sample_mac_ops = \<lparr>mac_update = (\<lambda>b m. m @ b), mac_finalize = (\<lambda>m. replicate 32 (sum_list m))\<rparr>"

lemma sample_mac_streams: "mac_streams sample_mac_ops [] (\<lambda>m. replicate 32 (sum_list m))"
proof -
  have "fold (mac_update sample_mac_ops) cs m = m @ concat cs" for cs m
    by (induction cs arbitrary: m) (simp_all add: sample_mac_ops_def)
  then show ?thesis by (simp add: mac_streams_def sample_mac_ops_def)
qed

definition sample_prims :: crypto_prims where
  "sample_prims =
     \<lparr>aes256_block = (\<lambda>k b. map2 (XOR) (take 16 k) b), ctr32be_stream = (\<lambda>k n l. replicate l (sum_list k)),
      ctr32be_limit = 16 * 2 ^ 32, ghash_of = (\<lambda>h bs. replicate 16 (of_nat (length bs)))\<rparr>"

lemma sample_prims_ok: "prims_ok sample_prims" "ctr32be_limit sample_prims = 16 * 2 ^ 32"
  by (simp_all add: prims_ok_def sample_prims_def take_replicate min_def)

subsection \<open>Sealed boxes\<close>

definition sample_hkdf :: hpke_prims where
  "sample_hkdf = \<lparr>hkdf_extract = (\<lambda>s i. replicate 32 (sum_list s + sum_list i)), hkdf_from_prk = Ok,
     hkdf_expand = (\<lambda>h i n. Ok (replicate n (sum_list h + sum_list i)))\<rparr>"

lemma sample_hkdf_ok: "hkdf_ok sample_hkdf"
  by (simp add: hkdf_ok_def sample_hkdf_def)

definition provided :: "('a, provider_error) result \<Rightarrow> ('a, hpke_error) result" where
  "provided = map_err (\<lambda>_. HpkeOtherError ''provider'')"

definition sample_hpke :: hpke_rs where
  "sample_hpke =
     \<lparr>hpke_seal = (\<lambda>V cfg ent pk info aad m.
        bindR (provided (pv_secret_to_public V (hc_kem cfg) (replicate 32 7))) (\<lambda>enc.
        bindR (provided (pv_dh V (hc_kem cfg) pk (replicate 32 7))) (\<lambda>s.
        bindR (provided (pv_aead_seal V (hc_aead cfg) (take 32 (s @ replicate 32 0)) (replicate 12 0) aad m)) (\<lambda>ct.
        Ok (enc, ct))))),
      hpke_open = (\<lambda>V cfg enc sk info aad ct.
        bindR (provided (pv_dh V (hc_kem cfg) enc sk)) (\<lambda>s.
        provided (pv_aead_open V (hc_aead cfg) (take 32 (s @ replicate 32 0)) (replicate 12 0) aad ct))),
      shared_secret_len = (\<lambda>_. 32)\<rparr>"

lemma sample_hpke_ok: "hpke_rs_ok sample_hpke"
  unfolding hpke_rs_ok_def
proof (intro conjI allI impI)
  fix V limit and ent pk sk info aad m :: bytes
  assume V: "hpke_crypto V limit True" and k: "length sk = 32" "pv_secret_to_public V DhKem25519 sk = Ok pk"
    and m: "length m \<le> limit"
  have esk: "length (replicate 32 7 :: bytes) = 32" by simp
  obtain enc pb s where dh: "pv_secret_to_public V DhKem25519 (replicate 32 7) = Ok enc" "length enc = 32"
      "pv_secret_to_public V DhKem25519 sk = Ok pb" "pv_dh V DhKem25519 pb (replicate 32 7) = Ok s" "pv_dh V DhKem25519 enc sk = Ok s"
    by (rule hpke_crypto.encapsulation [OF V TrueI esk k(1)]) blast
  let ?key = "take 32 (s @ replicate 32 0)"
  have "length ?key = 32" "length (replicate 12 0 :: bytes) = 12" by simp_all
  then obtain ct where "pv_aead_seal V Aes256Gcm ?key (replicate 12 0) aad m = Ok ct"
      "pv_aead_open V Aes256Gcm ?key (replicate 12 0) aad ct = Ok m"
    using hpke_crypto.aead_inverse [OF V TrueI _ _ m] by blast
  then show "\<exists>enc ct. hpke_seal sample_hpke V (hpke_set_up Base_X25519_HkdfSha256_Aes256Gcm) ent pk info aad m = Ok (enc, ct) \<and>
      length enc = 32 \<and>
      hpke_open sample_hpke V (hpke_set_up Base_X25519_HkdfSha256_Aes256Gcm) enc sk info aad ct = Ok m"
    using dh k(2) by (simp add: sample_hpke_def hpke_set_up_def provided_def)
qed (simp add: sample_hpke_def)

lemma sample_provider_laws: "n \<le> 1000 \<Longrightarrow> provider_laws sample_env sample_hkdf sample_prims n"
  by (simp add: provider_laws_def sample_hkdf_ok sample_prims_ok)

end
