(* ===== verification/Sample_Run.thy ===== *)
theory Sample_Run
  imports Sample_Env End_To_End Store_Machine Group_Session
begin

text \<open>
  A concrete run over the sample environment, for the witnesses: the stores of Alice and Bob,
  Bob's bundle, and a session of Bob's that decrypts a message of Alice's.
\<close>

subsection \<open>The laws of the post-quantum ratchet\<close>

lemma sample_spqr [simp]: "spqr_total sample_env" "spqr_pairs sample_env" "spqr_live sample_env"
  by (simp_all add: spqr_total_def spqr_pairs_def spqr_live_def sample_env_def)

lemma sample_env_lengths [simp]: "env_lengths sample_env"
  by (simp add: env_lengths_def)

subsection \<open>Two stores and a bundle\<close>

definition sample_identity :: "u8 \<Rightarrow> identity_key_pair" where
  "sample_identity x = \<lparr>id_identity_key = kp_public_key (sample_pair x), id_private_key = kp_private_key (sample_pair x)\<rparr>"

definition sample_alice :: protocol_store where
  "sample_alice = InMemSignalProtocolStore_new (sample_identity 2) 17"

definition alice_address :: protocol_address where "alice_address = ProtocolAddress_new ''alice'' (DeviceId 1)"
definition bob_address :: protocol_address where "bob_address = ProtocolAddress_new ''bob'' (DeviceId 1)"

definition sample_sign :: "bytes \<Rightarrow> bytes" where
  "sample_sign msg = fst (PrivateKey_calculate_signature sample_env (id_private_key (sample_identity 3)) msg 0)"

definition sample_bundle :: pre_key_bundle where
  "sample_bundle = PreKeyBundle_new 18 (DeviceId 1) (Some (31, kp_public_key (sample_pair 5)))
     22 (kp_public_key (sample_pair 4)) (sample_sign (PublicKey_serialize (kp_public_key (sample_pair 4))))
     8 (kkp_public_key (sample_kem_pair 6)) (sample_sign (kem_Key_serialize (kkp_public_key (sample_kem_pair 6))))
     (id_identity_key (sample_identity 3))"

definition sample_bob :: protocol_store where
  "sample_bob = save_kyber_pre_key 8 (KyberPreKeyRecord_new 8 0 (sample_kem_pair 6) [])
     (save_signed_pre_key 22 (SignedPreKeyRecord_new 22 0 (sample_pair 4) [])
       (save_pre_key 31 (PreKeyRecord_new 31 (sample_pair 5))
         (InMemSignalProtocolStore_new (sample_identity 3) 18)))"

lemma sample_identity_ok [simp]:
  "id_identity_key (sample_identity x) = PrivateKey_public_key sample_env (id_private_key (sample_identity x))"
  by (simp add: sample_identity_def)

lemma sample_sign_valid:
  "verify_signature sample_env (PrivateKey_public_key sample_env (id_private_key (sample_identity 3))) msg (sample_sign msg)"
  unfolding verify_signature_def sample_sign_def PrivateKey_calculate_signature_def
  by (rule signature_roundtrip [OF sample_xeddsa sample_dh])

lemma sample_bundle_fields:
  "b_identity_key sample_bundle = PrivateKey_public_key sample_env (id_private_key (sample_identity 3))"
  "esp_id (b_ec_signed_pre_key sample_bundle) = 22" "kpk_id (b_kyber_pre_key sample_bundle) = 8"
  "esp_public_key (b_ec_signed_pre_key sample_bundle) = kp_public_key (sample_pair 4)"
  "kpk_public_key (b_kyber_pre_key sample_bundle) = kkp_public_key (sample_kem_pair 6)"
  "b_pre_key_id sample_bundle = Some 31" "b_pre_key_public sample_bundle = Some (kp_public_key (sample_pair 5))"
  "esp_signature (b_ec_signed_pre_key sample_bundle) = sample_sign (PublicKey_serialize (kp_public_key (sample_pair 4)))"
  "kpk_signature (b_kyber_pre_key sample_bundle) = sample_sign (kem_Key_serialize (kkp_public_key (sample_kem_pair 6)))"
  by (simp_all add: sample_bundle_def PreKeyBundle_new_def)

lemma sample_bundle_valid: "bundle_valid sample_env bob_address sample_bundle sample_alice"
  by (simp add: bundle_valid_def sample_bundle_fields sample_sign_valid is_trusted_identity_def sample_alice_def
      InMemSignalProtocolStore_new_def)

lemma sample_stores:
  "get_identity_key_pair sample_alice = sample_identity 2" "get_identity_key_pair sample_bob = sample_identity 3"
  "load_session alice_address sample_bob = None" "base_keys_seen 8 22 sample_bob = []"
  "is_trusted_identity alice_address k d sample_bob"
  by (simp_all add: sample_alice_def sample_bob_def InMemSignalProtocolStore_new_def get_identity_key_pair_def
      save_kyber_pre_key_def save_signed_pre_key_def save_pre_key_def load_session_def base_keys_seen_def
      is_trusted_identity_def)

lemma sample_empty: "load_session a sample_bob = None"
  by (simp add: sample_bob_def InMemSignalProtocolStore_new_def save_kyber_pre_key_def save_signed_pre_key_def
      save_pre_key_def load_session_def)

lemma sample_bob_keys:
  "get_signed_pre_key 22 sample_bob = Ok (SignedPreKeyRecord_new 22 0 (sample_pair 4) [])"
  "get_kyber_pre_key 8 sample_bob = Ok (KyberPreKeyRecord_new 8 0 (sample_kem_pair 6) [])"
  "get_pre_key 31 sample_bob = Ok (PreKeyRecord_new 31 (sample_pair 5))"
  by (simp_all add: sample_bob_def save_kyber_pre_key_def save_signed_pre_key_def save_pre_key_def
      get_signed_pre_key_def get_kyber_pre_key_def get_pre_key_def)

lemma sample_kem_stored: "KyberPreKeyRecord_key_pair (KyberPreKeyRecord_new i ts (sample_kem_pair x) sig) = Ok (sample_kem_pair x)"
  using sample_kem [of x] by (intro KyberPreKeyRecord_key_pair_new) (simp_all add: kem_matching_def)

lemma sample_serves:
  "serves_bundle sample_env sample_bundle (sample_pair 4) (sample_kem_pair 6) (Some (sample_pair 5)) sample_bob"
  by (simp add: serves_bundle_def sample_bundle_fields sample_stores sample_bob_keys PreKeyRecord_key_pair_new
      sample_kem_stored)

lemma sample_canonical: "is_canonical sample_env (kp_public_key (fst (KeyPair_generate sample_env 1)))"
  by (simp add: is_canonical_def is_torsion_free_def scalar_is_in_range_def KeyPair_generate_def c25519_new_def
      sample_env_def sum_list_replicate Let_def)

lemma sample_time: "unacknowledged_too_old (secs_since_epoch 1000000000) 2000000000 = Ok False"
  by (simp add: unacknowledged_too_old_def secs_since_epoch_def time_add_secs_def MAX_UNACKNOWLEDGED_SESSION_AGE_def)

lemma sample_ids:
  "id_identity_key (get_identity_key_pair sample_alice) =
     PrivateKey_public_key sample_env (id_private_key (get_identity_key_pair sample_alice))"
  "base_keys_seen (kpk_id (b_kyber_pre_key sample_bundle)) (esp_id (b_ec_signed_pre_key sample_bundle)) sample_bob = []"
  by (simp_all add: sample_stores sample_bundle_fields)

lemmas sample_laws = sample_lengths(1) sample_dh sample_lengths(3,4)

lemmas sample_start = sample_ids(1) sample_bundle_valid sample_canonical sample_time sample_serves
  sample_stores(3,5) sample_ids(2)

subsection \<open>A message and the session that decrypts it\<close>

lemma sample_exchange:
  obtains stB m where "session_healthy stB" "message_ok m" "sm_counter m = 0"
    "\<And>t r. \<exists>st r'. decrypt_message_with_state sample_env stB m t r = (Ok ([104, 105], st), r')"
proof -
  obtain sA1 r1 pm sA2 r2 sB' rB' where
    1: "process_prekey_bundle sample_env bob_address sample_bundle 1000000000 (sample_alice, 1) = (Ok (), (sA1, r1))"
    and 2: "message_encrypt sample_env [104, 105] bob_address 2000000000 (sA1, r1) =
      (Ok (CPreKeySignalMessage pm), (sA2, r2))"
    using conversation_starts [OF sample_laws sample_cbc sample_spqr(2,3) sample_start, of "[104, 105]" 0] by blast
  show thesis
    using bundle_first_message [OF sample_laws sample_spqr(2) sample_cbc sample_ids(1) 1 2 sample_serves
        sample_canonical] that
    by (metis sends_as_refl)
qed

text \<open>The same message delivered to a store that holds the session.\<close>

lemma sample_signal_run:
  obtains m s s' r' where "store_ok sample_env s" "message_ok m" "sm_counter m = 0"
    "\<And>a rec. load_session a s = Some rec \<Longrightarrow> record_healthy sample_env rec"
    "message_decrypt_signal sample_env m alice_address (s, 0) = (Ok [104, 105], (s', r'))"
proof -
  obtain stB m where m: "session_healthy stB" "message_ok m" "sm_counter m = 0"
    and dec: "\<And>t r. \<exists>st r'. decrypt_message_with_state sample_env stB m t r = (Ok ([104, 105], st), r')"
    by (rule sample_exchange) blast
  let ?s = "store_session alice_address (SessionRecord_new stB) sample_bob"
  obtain st r' where st: "decrypt_message_with_state sample_env stB m Whisper 0 = (Ok ([104, 105], st), r')"
    using dec by blast
  have "session_ok stB" "public_key_ok (sm_sender_ratchet_key m)" "hash_lengths sample_env" "sm_counter m \<noteq> - 1"
    using m by (simp_all add: session_healthy_def message_ok_def)
  then obtain k where k: "remote_identity_key st = Ok (Some k)"
    using st by (rule decrypt_message_with_state_step) blast
  have "decrypt_message_with_record sample_env (SessionRecord_new stB) m Whisper 0 =
      (Ok ([104, 105], set_session_state st (SessionRecord_new stB)), r')"
    using m st by (intro decrypt_message_with_record_current) (auto simp: SessionRecord_new_def message_ok_def)
  then have "message_decrypt_signal sample_env m alice_address (?s, 0) =
      (Ok [104, 105], (store_session alice_address (set_session_state st (SessionRecord_new stB))
         (snd (save_identity alice_address k ?s)), r'))"
    using k by (simp add: message_decrypt_signal_def sessions.load_store_same set_session_state_def sample_stores Let_def)
  moreover have healthy: "record_healthy sample_env rec" if "load_session a ?s = Some rec" for a rec
    using that m(1)
    by (auto simp: sessions.load_store record_inv_new sample_empty split: if_splits)
  moreover have "store_ok sample_env ?s" using record_healthy_ok [OF healthy] by (simp add: store_ok_def)
  ultimately show thesis using that [of ?s m] m(2,3) by blast
qed

text \<open>The first message of the bundle, as the receiver's store decrypts it.\<close>

lemma sample_bob_ok: "stores_healthy sample_env sample_bob" "store_ok sample_env sample_bob"
proof -
  show "stores_healthy sample_env sample_bob"
    using stores_inv_new [of sample_env session_healthy]
    by (simp add: sample_bob_def stores_inv_def load_session_def group_store_ok_def load_sender_key_def
        save_pre_key_def save_signed_pre_key_def save_kyber_pre_key_def)
  then show "store_ok sample_env sample_bob"
    using record_healthy_ok by (auto simp: stores_inv_def store_ok_def)
qed

lemma sample_prekey_run:
  obtains pm s' r' where "pkm_message_version pm \<in> {3, 4}" "message_ok (pkm_message pm)"
    "sm_counter (pkm_message pm) = 0"
    "message_decrypt_prekey sample_env pm alice_address (sample_bob, 0) = (Ok [104, 105], (s', r'))"
proof -
  obtain sA1 r1 pm sA2 r2 sB' rB' where
    1: "process_prekey_bundle sample_env bob_address sample_bundle 1000000000 (sample_alice, 1) = (Ok (), (sA1, r1))"
    and 2: "message_encrypt sample_env [104, 105] bob_address 2000000000 (sA1, r1) =
      (Ok (CPreKeySignalMessage pm), (sA2, r2))"
    and 3: "message_decrypt sample_env (CPreKeySignalMessage pm) alice_address (sample_bob, 0) = (Ok [104, 105], (sB', rB'))"
    using conversation_starts [OF sample_laws sample_cbc sample_spqr(2,3) sample_start, of "[104, 105]" 0] by blast
  show thesis
    using bundle_first_message [OF sample_laws sample_spqr(2) sample_cbc sample_ids(1) 1 2 sample_serves
        sample_canonical] that [of pm sB' rB'] 3
    by (auto simp: message_decrypt_def)
qed

text \<open>These states are reached from an empty store by calls of the library.\<close>

lemma sample_reachable:
  "reachable sample_env C (InMemSignalProtocolStore_new (sample_identity 3) 18, 0) (sample_bob, 0)"
  unfolding sample_bob_def reachable_def
  by (rule rtranclp.rtrancl_into_rtrancl, rule rtranclp.rtrancl_into_rtrancl, rule r_into_rtranclp)
    (rule client_step.publish_pre_key client_step.publish_signed_pre_key client_step.publish_kyber_pre_key)+

lemma sample_prekey_reachable:
  obtains pm s' r' where "message_decrypt sample_env (CPreKeySignalMessage pm) alice_address (sample_bob, 0) =
      (Ok [104, 105], (s', r'))"
    "reachable sample_env (\<lambda>n. n \<noteq> - 1) (InMemSignalProtocolStore_new (sample_identity 3) 18, 0) (s', r')"
proof -
  obtain pm s' r' where pm: "message_ok (pkm_message pm)" "sm_counter (pkm_message pm) = 0"
      "message_decrypt_prekey sample_env pm alice_address (sample_bob, 0) = (Ok [104, 105], (s', r'))"
    by (rule sample_prekey_run) blast
  have dec: "message_decrypt sample_env (CPreKeySignalMessage pm) alice_address (sample_bob, 0) = (Ok [104, 105], (s', r'))"
    using pm(3) by (simp add: message_decrypt_def)
  have "client_step sample_env (\<lambda>n. n \<noteq> - 1) (sample_bob, 0) (s', r')"
    using pm(1) _ dec by (rule client_step.decrypt_prekey) (simp add: pm(2))
  then show thesis
    using that [OF dec] sample_reachable [of "\<lambda>n. n \<noteq> - 1"] unfolding reachable_def by (meson rtranclp.rtrancl_into_rtrancl)
qed

lemma sample_env_ok [simp]: "env_ok sample_env"
  by (simp add: env_ok_def)

subsection \<open>Group messages and single messages\<close>

lemma sample_no_sender_keys: "load_sender_key a d sample_alice = None" "load_sender_key a d sample_bob = None"
  by (simp_all add: load_sender_key_def sample_alice_def sample_bob_def save_pre_key_def save_signed_pre_key_def
      save_kyber_pre_key_def InMemSignalProtocolStore_new_def)

lemma sample_group_run:
  obtains bs s s' where "group_store_ok s" "group_decrypt sample_env bs alice_address s = (Ok [1], s')"
proof -
  have sizes: "length (replicate 16 1 :: uuid) = 16" "length [[1] :: bytes] \<le> MAX_MESSAGE_KEYS"
    "distinct [0 :: nat]" "set [0] \<subseteq> {..<length [[1] :: bytes]}"
    by (simp_all add: MAX_MESSAGE_KEYS_def)
  obtain skdm and ms :: "sender_key_message list" and s' where "group_decrypt_all sample_env alice_address (map (\<lambda>j. skm_serialized (ms ! j)) [0])
      (process_sender_key_distribution_message alice_address skdm sample_bob) = (Ok (map ((!) [[1]]) [0]), s')"
    using group_conversation [OF sample_lengths(1) sample_cbc sample_xeddsa sample_dh sample_lengths(3,4)
        sample_codecs(9) sizes(1) sample_no_sender_keys(1) sizes(2) sample_no_sender_keys(2) sizes(3,4),
        of alice_address 1] by blast
  then have "group_decrypt sample_env (skm_serialized (ms ! 0)) alice_address
      (process_sender_key_distribution_message alice_address skdm sample_bob) = (Ok [1], s')"
    by (auto simp: result_simps)
  moreover have "group_store_ok (process_sender_key_distribution_message alice_address skdm sample_bob)"
    using sample_bob_ok(1) by (intro process_sender_key_distribution_message_store_ok) (simp add: stores_inv_def)
  ultimately show thesis using that by blast
qed

lemma sample_message_at:
  obtains m where "SignalMessage_new sample_env 4 (replicate 32 5) (kp_public_key (sample_pair 1)) n 0 [1, 2]
      (kp_public_key (sample_pair 1)) (kp_public_key (sample_pair 2)) [] = Ok m"
    "SignalMessage_try_from sample_env (sm_serialized m) = Ok m" "sm_counter m = n"
proof -
  obtain m where m: "SignalMessage_new sample_env 4 (replicate 32 5) (kp_public_key (sample_pair 1)) n 0 [1, 2]
      (kp_public_key (sample_pair 1)) (kp_public_key (sample_pair 2)) [] = Ok m"
    by (metis SignalMessage_new_Ok length_replicate)
  then show thesis
    using that SignalMessage_roundtrip [OF sample_lengths(1) sample_codecs(7) sample_pair_ok(2) _ m]
      SignalMessage_new_fields(3) [OF m] by simp
qed

lemmas sample_message = sample_message_at [of 3]

subsection \<open>Single steps\<close>

lemma sample_no_session: "load_session a sample_alice = None"
  by (simp add: load_session_def sample_alice_def InMemSignalProtocolStore_new_def)

definition sample_session :: session_state where
  "sample_session = SessionState_new 4 (kp_public_key (sample_pair 1)) (kp_public_key (sample_pair 2))
     (RootKey (replicate 32 0)) (kp_public_key (sample_pair 3)) []"

lemma sample_session_ok: "session_ok sample_session"
  by (simp add: sample_session_def SessionState_new_ok)

lemma sample_two_parties: "session_with_self sample_session = Ok False"
proof -
  note ok = sample_pair_ok(2) [of 1] sample_pair_ok(2) [of 2]
  have "remote_identity_key sample_session = Ok (Some (kp_public_key (sample_pair 2)))"
      "local_identity_key sample_session = Ok (kp_public_key (sample_pair 1))"
    using IdentityKey_decode_serialize [OF ok(1)] IdentityKey_decode_serialize [OF ok(2)]
    by (simp_all add: sample_session_def SessionState_new_def remote_identity_key_def local_identity_key_def
        IdentityKey_serialize_def)
  then show ?thesis
    using public_key_serde.ser_eq_iff [OF ok(2,1)]
    by (simp add: session_with_self_def remote_identity_key_bytes_def local_identity_key_bytes_def IdentityKey_serialize_def)
      (simp add: sample_pair_def)
qed

lemma sample_receiver_chain:
  obtains st te c i ck g st' where "session_ok st" "public_key_ok te" "get_receiver_chain st te = Ok (Some (c, i))"
      "c_chain_key c = Some (to_pb_chain_key ck)" "chain_tracks sample_env ck c"
      "get_or_create_message_key sample_env st te Whisper ck 3 = Ok (g, st')"
proof -
  let ?te = "kp_public_key (sample_pair 4)"
  let ?ck = "\<lparr>chain_key_key = replicate 32 0, chain_key_index = 0\<rparr>"
  have none: "get_receiver_chain sample_session ?te = Ok None"
    by (simp add: sample_session_def get_receiver_chain_def SessionState_new_def)
  have ok: "session_ok (add_receiver_chain ?te ?ck sample_session)"
    using sample_session_ok none by (intro session_ok_add_receiver_chain) (simp_all add: chain_key_ok_def)
  obtain i where found: "get_receiver_chain (add_receiver_chain ?te ?ck sample_session) ?te =
    Ok (Some (\<lparr>c_sender_ratchet_key = PublicKey_serialize ?te, c_sender_ratchet_key_private = [],
       c_chain_key = Some (to_pb_chain_key ?ck), c_message_keys = []\<rparr>, i))"
    using ok sample_pair_ok(2) by (rule add_receiver_chain_found)
  have tracks: "chain_tracks sample_env ?ck \<lparr>c_sender_ratchet_key = PublicKey_serialize ?te,
      c_sender_ratchet_key_private = [], c_chain_key = Some (to_pb_chain_key ?ck), c_message_keys = []\<rparr>"
    by (auto simp: chain_tracks_def chain_key_ok_def nth_chain_key_def intro!: exI [of _ 0])
  have "\<exists>g st'. get_or_create_message_key sample_env (add_receiver_chain ?te ?ck sample_session) ?te Whisper ?ck 3 = Ok (g, st')"
    using get_or_create_message_key_ahead [OF found, of ?ck 3 sample_env Whisper]
    by (simp add: jump_allowed_def MAX_FORWARD_JUMPS_def)
  then show thesis using that [OF ok sample_pair_ok(2) found _ tracks] by auto
qed

text \<open>A handshake with matching parameters.\<close>

definition sample_alice_parameters :: alice_parameters where
  "sample_alice_parameters = AliceSignalProtocolParameters_new (sample_identity 2) (sample_pair 7)
     (id_identity_key (sample_identity 3)) (kp_public_key (sample_pair 4)) (kp_public_key (sample_pair 4))
     (kkp_public_key (sample_kem_pair 6))"

definition sample_bob_parameters :: "bytes \<Rightarrow> bob_parameters" where
  "sample_bob_parameters ct =
     \<lparr>bp_our_identity_key_pair = sample_identity 3, bp_our_signed_pre_key_pair = sample_pair 4,
      bp_our_one_time_pre_key_pair = None, bp_our_ratchet_key_pair = sample_pair 4,
      bp_our_kyber_pre_key_pair = sample_kem_pair 6, bp_their_identity_key = id_identity_key (sample_identity 2),
      bp_their_base_key = kp_public_key (sample_pair 7), bp_their_kyber_ciphertext = ct\<rparr>"

lemma sample_pair_canonical: "is_canonical sample_env (kp_public_key (sample_pair 7))"
  by (simp add: is_canonical_def is_torsion_free_def sample_pair_def scalar_is_in_range_def)
    (simp add: sample_env_def)

lemma sample_parameters:
  "parameters_match sample_env sample_alice_parameters (sample_bob_parameters ct)"
  "kem_matching sample_env (ap_their_kyber_pre_key sample_alice_parameters)
     (kkp_secret_key (bp_our_kyber_pre_key_pair (sample_bob_parameters ct)))"
  "is_canonical sample_env (bp_their_base_key (sample_bob_parameters ct))"
  "key_pair_ok sample_env (bp_our_ratchet_key_pair (sample_bob_parameters ct))"
  "private_key_ok (kp_private_key (bp_our_ratchet_key_pair (sample_bob_parameters ct)))"
  by (simp_all add: sample_alice_parameters_def sample_bob_parameters_def AliceSignalProtocolParameters_new_def
      parameters_match_def sample_pair_canonical)

lemma sample_handshake:
  obtains stA r1 ct where "initialize_alice_session sample_env sample_alice_parameters 1 = (Ok stA, r1)"
    "get_kyber_ciphertext stA = Some (bp_their_kyber_ciphertext (sample_bob_parameters ct))"
proof -
  obtain st r1 where a: "initialize_alice_session sample_env sample_alice_parameters 1 = (Ok st, r1)"
    using initialize_alice_session_succeeds [OF sample_parameters(2) sample_spqr(3)] by blast
  then obtain ct where "get_kyber_ciphertext st = Some ct"
    by (rule initialize_alice_session_cases) (simp add: get_kyber_ciphertext_def set_kyber_ciphertext_def)
  then show thesis using that [OF a] by (simp add: sample_bob_parameters_def)
qed

lemma sample_sent:
  obtains st r msg k st' r' where
    "encrypt_with_state sample_env [104, 105] bob_address 2000000000 st r = (Ok (msg, k, st'), r')"
proof -
  obtain sA1 r1 pm sA2 r2 where
    "message_encrypt sample_env [104, 105] bob_address 2000000000 (sA1, r1) = (Ok (CPreKeySignalMessage pm), (sA2, r2))"
    using conversation_starts [OF sample_laws sample_cbc sample_spqr(2,3) sample_start, of "[104, 105]" 0] by blast
  then show thesis by (rule message_encrypt_cases) (rule that)
qed

end
