(* ===== verification/Sample_Conversation.thy ===== *)
theory Sample_Conversation
  imports Sample_Run Conversation
begin

text \<open>
  A conversation over the sample environment: after the handshake of \<open>Sample_Run\<close> Alice sends two
  messages, so that the second one can arrive first.
\<close>

definition sample_channel ::
    "bytes \<Rightarrow> bytes \<Rightarrow> (bytes \<times> bytes option) multiset \<Rightarrow> (bytes \<times> bytes option) multiset \<Rightarrow> bool" where
  "sample_channel a b M N \<longleftrightarrow> (\<forall>x \<in># M + N. snd x = Some (replicate 32 9))"

lemma sample_spqr_channel:
  "spqr_channel sample_env sample_channel" "spqr_linked sample_env (\<lambda>a b. sample_channel a b {#} {#})"
proof -
  have s: "spqr_send sample_env a r = (Ok (a, Some (replicate 32 9), [7]), r)"
    "spqr_recv sample_env a w = Ok (a, Some (replicate 32 9))" "spqr_initial_state sample_env ps = Ok [1]" for a r w ps
    by (simp_all add: sample_env_def)
  show "spqr_channel sample_env sample_channel"
    unfolding spqr_channel_def s sample_channel_def by (force dest: in_diffD)
  show "spqr_linked sample_env (\<lambda>a b. sample_channel a b {#} {#})" by (simp add: spqr_linked_def s sample_channel_def)
qed

lemma sample_generated_key: "kp_public_key (fst (KeyPair_generate sample_env r)) \<noteq> kp_public_key (sample_pair 4)"
proof -
  have "32 * w \<noteq> (4 :: u8)" for w
  proof
    assume "32 * w = 4"
    then have "(8 * 32) * w = (8 * 4 :: u8)" by (simp only: mult.assoc)
    moreover have "8 * 32 = (0 :: u8)" by simp
    ultimately show False by (simp only: mult_zero_left) simp
  qed
  then show ?thesis
    by (simp add: KeyPair_generate_def c25519_new_def sample_pair_def sum_list_replicate)
      (simp add: sample_env_def sum_list_replicate)
qed

lemma sample_first_chain:
  assumes "initialize_alice_session sample_env sample_alice_parameters 1 = (Ok stA, r1)"
  obtains kA ck where "sender_ratchet_key stA = Ok kA" "kA \<noteq> ap_their_ratchet_key sample_alice_parameters"
    "s_pending_pre_key stA = None" "get_sender_chain_key stA = Ok ck" "chain_key_index ck = 0" "chain_key_ok ck"
  using assms
proof (cases rule: initialize_alice_session_cases)
  case (1 ss ct r0 rk ck pqr kp rk' ck' pq)
  have st: "stA = alice_session sample_alice_parameters rk' ck kp ck' ct pq" using 1(6) by (simp add: alice_session_def)
  have ck: "chain_key_ok ck'" "chain_key_index ck' = 0"
    using create_chain_ok(1,3) [of sample_env rk "ap_their_ratchet_key sample_alice_parameters" "kp_private_key kp"]
      sample_laws(1) 1(4) by auto
  have kp: "public_key_ok (kp_public_key kp)" "kp_public_key kp \<noteq> kp_public_key (sample_pair 4)"
    using KeyPair_generate_ok(1) [OF sample_laws(3,4), of r0] sample_generated_key [of r0] 1(3) by simp_all
  have keys: "public_key_ok (id_identity_key (ap_our_identity_key_pair sample_alice_parameters))"
      "public_key_ok (ap_their_identity_key sample_alice_parameters)"
    by (rule parameters_match_keys_ok [OF sample_laws(3) sample_parameters(1)])+
  note reads = alice_session_reads [OF ck(1) kp(1) keys]
  show thesis
    by (rule that [OF _ _ _ _ ck(2,1)])
      (use reads(1,2) kp(2) in \<open>simp_all add: st session_unfold sample_alice_parameters_def AliceSignalProtocolParameters_new_def\<close>)
qed

text \<open>Alice sends twice; the second message, at the head of Bob's inbox, can be delivered first.\<close>

lemma sample_conversation:
  obtains ct stA stB r1 kA c q q' ptext st' r' where
    "initialize_alice_session sample_env sample_alice_parameters 1 = (Ok stA, r1)"
    "get_kyber_ciphertext stA = Some (bp_their_kyber_ciphertext (sample_bob_parameters ct))"
    "sender_ratchet_key stA = Ok kA" "kA \<noteq> ap_their_ratchet_key sample_alice_parameters"
    "initialize_bob_session sample_env (sample_bob_parameters ct) = Ok stB"
    "conv_reachable sample_env 2000 (conv_start stA stB kA (ap_their_ratchet_key sample_alice_parameters)) c"
    "cv_inbox c Bob = [q, q']" "retained (pc_message q) c" "pc_text q = [104, 105]"
    "decrypt_message_with_state sample_env (cv_state c Bob) (pc_message q) Whisper 5 = (Ok (ptext, st'), r')"
proof -
  obtain stA r1 ct where a: "initialize_alice_session sample_env sample_alice_parameters 1 = (Ok stA, r1)"
      "get_kyber_ciphertext stA = Some (bp_their_kyber_ciphertext (sample_bob_parameters ct))"
    by (rule sample_handshake)
  obtain kA ck where k: "sender_ratchet_key stA = Ok kA" "kA \<noteq> ap_their_ratchet_key sample_alice_parameters"
      "s_pending_pre_key stA = None" "get_sender_chain_key stA = Ok ck" "chain_key_index ck = 0" "chain_key_ok ck"
    by (rule sample_first_chain [OF a(1)])
  obtain stB where b: "initialize_bob_session sample_env (sample_bob_parameters ct) = Ok stB"
    by (rule handshake_links [OF sample_laws sample_spqr_channel(2) sample_parameters(1-3) a])
  let ?c = "conv_start stA stB kA (ap_their_ratchet_key sample_alice_parameters)"
  have inv: "conv_inv sample_env sample_channel (conv_ids (id_identity_key (ap_our_identity_key_pair sample_alice_parameters))
      (ap_their_identity_key sample_alice_parameters)) 2000 ?c"
    by (rule conv_inv_handshake [where R = sample_channel, OF sample_laws sample_spqr_channel(2) sample_parameters a k(1,2) b sends_as_refl sends_as_refl])
  have A: "cv_state ?c Alice = stA" by (simp add: conv_start_def)
  have spqr: "spqr_send sample_env s 1 = (Ok (s, Some (replicate 32 9), [7]), 1)" for s by (simp add: sample_env_def)
  obtain st1 q' where 1: "conv_step sample_env 2000 ?c (post Alice st1 q' ?c)" "pc_text q' = [1]"
      "s_pending_pre_key st1 = None" "get_sender_chain_key st1 = Ok (next_chain_key sample_env ck)"
    using conv_inv_sends [OF sample_laws(1) sample_cbc inv, of Alice, unfolded A, OF k(3) spqr k(4), of "[1]"] k(5)
    by auto
  let ?c1 = "post Alice st1 q' ?c"
  have inv1: "conv_inv sample_env sample_channel (conv_ids (id_identity_key (ap_our_identity_key_pair sample_alice_parameters))
      (ap_their_identity_key sample_alice_parameters)) 2000 ?c1"
    by (rule conv_inv_step [OF sample_laws(1) sample_cbc sample_laws(2-4) sample_spqr_channel(1) 1(1) inv])
  have A1: "cv_state ?c1 Alice = st1" by simp
  have "chain_key_index (next_chain_key sample_env ck) = 1"
    using k(5,6) sample_laws(1) by (simp add: next_chain_key_def)
  then obtain st2 q where 2: "conv_step sample_env 2000 ?c1 (post Alice st2 q ?c1)" "pc_text q = [104, 105]"
      "\<forall>c'. cv_keys c' = cv_keys ?c1 \<longrightarrow> retained (pc_message q) c'"
    using conv_inv_sends [OF sample_laws(1) sample_cbc inv1, of Alice, unfolded A1, OF 1(3) spqr 1(4), of "[104, 105]"]
    by auto
  have "conv_reachable sample_env 2000 ?c (post Alice st2 q ?c1)"
    unfolding conv_reachable_def using 1(1) 2(1) by (meson converse_rtranclp_into_rtranclp rtranclp.rtrancl_refl)
  moreover have inbox: "cv_inbox (post Alice st2 q ?c1) Bob = [q, q']" by (simp add: conv_start_def)
  moreover have "\<exists>st' r'. decrypt_message_with_state sample_env (cv_state (post Alice st2 q ?c1) Bob) (pc_message q) Whisper 5 =
      (Ok (pc_text q, st'), r')"
  proof (rule conv_inv_delivers [OF sample_laws(1) sample_cbc sample_laws(2-4) sample_spqr_channel(1)])
    show "conv_inv sample_env sample_channel (conv_ids (id_identity_key (ap_our_identity_key_pair sample_alice_parameters))
      (ap_their_identity_key sample_alice_parameters)) 2000 (post Alice st2 q ?c1)"
      by (rule conv_inv_step [OF sample_laws(1) sample_cbc sample_laws(2-4) sample_spqr_channel(1) 2(1) inv1])
    show "spqr_recv sample_env s w = Ok (s, Some (replicate 32 9))" for s w by (simp add: sample_env_def)
  qed (use inbox 2(3) in \<open>simp_all add: MAX_MESSAGE_KEYS_def\<close>)
  ultimately show thesis using that [OF a k(1,2) b _ _ _ 2(2)] 2(3) by auto
qed

end
