(* ===== verification/Sample_Network.thy ===== *)
theory Sample_Network
  imports Sample_Conversation Store_Start
begin

text \<open>
  A conversation on the sample stores: Alice processes Bob's bundle and sends a pre-key message, which Bob can decrypt.
\<close>

definition sample_at :: "party \<Rightarrow> protocol_address" where
  "sample_at p = (case p of Alice \<Rightarrow> bob_address | Bob \<Rightarrow> alice_address)"

lemma sample_at_simps [simp]: "sample_at Alice = bob_address" "sample_at Bob = alice_address"
  by (simp_all add: sample_at_def)

abbreviation sample_network :: "protocol_store \<Rightarrow> public_key \<Rightarrow> network" where
  "sample_network sA1 kA \<equiv> net_start sA1 sample_bob [kA, esp_public_key (b_ec_signed_pre_key sample_bundle)]"

lemma bundle_session_ratchet:
  assumes "hash_lengths E" "curve_lengths E" "rng_length E" "initialize_alice_session E p r = (Ok st, r')"
    "public_key_ok (id_identity_key (ap_our_identity_key_pair p))" "public_key_ok (ap_their_identity_key p)"
  obtains rG where "sender_ratchet_key st = Ok (kp_public_key (fst (KeyPair_generate E rG)))"
  using assms(4)
proof (cases rule: initialize_alice_session_cases)
  case (1 ss ct r0 rk ck pqr kp rk' ck' pq)
  have st: "st = alice_session p rk' ck kp ck' ct pq" using 1(6) by (simp add: alice_session_def)
  have ck: "chain_key_ok ck'" using create_chain_ok(1) [of E rk "ap_their_ratchet_key p" "kp_private_key kp"] assms(1) 1(4) by auto
  have kp: "public_key_ok (kp_public_key kp)" using KeyPair_generate_ok(1) [OF assms(2,3), of r0] 1(3) by simp
  have "sender_ratchet_key st = Ok (kp_public_key (fst (KeyPair_generate E r0)))"
    using alice_session_reads(2) [OF ck kp assms(5,6)] 1(3) by (simp add: st)
  then show thesis by (rule that)
qed

lemma sample_opened:
  obtains sA1 r1 kA pm s2 r2 where "opened sample_env sample_at sample_bundle sample_alice sA1 kA sample_bob"
    "message_encrypt sample_env [104, 105] bob_address 2000000000 (sA1, r1) = (Ok (CPreKeySignalMessage pm), (s2, r2))"
    "sm_counter (pkm_message pm) = 0"
proof -
  obtain sA1 r1 pm s2 r2 sB' rB' where
    1: "process_prekey_bundle sample_env bob_address sample_bundle 1000000000 (sample_alice, 1) = (Ok (), (sA1, r1))"
    and 2: "message_encrypt sample_env [104, 105] bob_address 2000000000 (sA1, r1) =
      (Ok (CPreKeySignalMessage pm), (s2, r2))"
    using conversation_starts [OF sample_laws sample_cbc sample_spqr(2,3) sample_start, of "[104, 105]" 0] by blast
  have c0: "sm_counter (pkm_message pm) = 0"
    by (rule bundle_first_message [OF sample_laws sample_spqr(2) sample_cbc sample_ids(1) 1 2 sample_serves sample_canonical])
      simp
  have pk: "public_key_ok (PrivateKey_public_key sample_env k)" for k
    using sample_laws(3) by (simp add: PrivateKey_public_key_def public_key_ok_def curve_lengths_def)
  have own: "public_key_ok (id_identity_key (get_identity_key_pair sample_alice))"
    "public_key_ok (b_identity_key sample_bundle)"
    unfolding sample_ids(1) sample_bundle_fields(1) by (rule pk)+
  have none: "load_session (sample_at Alice) sample_alice = None" by (rule sample_no_session)
  obtain base r0 st st' where a:
    "initialize_alice_session sample_env (bundle_parameters (get_identity_key_pair sample_alice) base sample_bundle) r0 = (Ok st, r1)"
    "sends_as st st'" "holds bob_address (PublicKey_serialize (kp_public_key base)) st' sA1"
    by (rule bundle_session [OF 1 sample_no_session sample_laws(1,3,4) own(1)]) blast
  obtain rG where k: "sender_ratchet_key st = Ok (kp_public_key (fst (KeyPair_generate sample_env rG)))"
    by (rule bundle_session_ratchet [OF sample_laws(1,3,4) a(1)]) (simp_all add: bundle_parameters_def own)
  let ?kA = "kp_public_key (fst (KeyPair_generate sample_env rG))"
  have "sender_ratchet_key st' = Ok ?kA" using k sends_as_reads(2) [OF a(2)] by simp
  moreover have "?kA \<noteq> esp_public_key (b_ec_signed_pre_key sample_bundle)"
    unfolding sample_bundle_fields by (rule sample_generated_key)
  ultimately have "opened sample_env sample_at sample_bundle sample_alice sA1 ?kA sample_bob"
    unfolding opened_def using 1 none sample_start holds_session_at [OF a(3)] by (auto intro!: exI)
  then show thesis using that 2 c0 by blast
qed

lemma sample_spqr_send: "spqr_send sample_env s r = (Ok (s, Some (replicate 32 9), [7]), r)"
  by (simp add: sample_env_def)

lemma sample_network_sent:
  obtains sA1 kA d n where "opened sample_env sample_at sample_bundle sample_alice sA1 kA sample_bob"
    "net_reachable sample_env sample_at 2000 (sample_network sA1 kA) n" "nw_inbox n Bob = [d]"
    "nw_retained (pc_message (snd d)) n" "pc_text (snd d) = [104, 105]" "nw_store n Bob = sample_bob"
    "nw_keys n = [kA, esp_public_key (b_ec_signed_pre_key sample_bundle)]"
proof -
  obtain sA1 r1 kA pm s2 r2 where o: "opened sample_env sample_at sample_bundle sample_alice sA1 kA sample_bob"
    and enc: "message_encrypt sample_env [104, 105] bob_address 2000000000 (sA1, r1) = (Ok (CPreKeySignalMessage pm), (s2, r2))"
    and c0: "sm_counter (pkm_message pm) = 0"
    by (rule sample_opened)
  obtain st where st: "session_at bob_address sA1 = Some st" "sender_ratchet_key st = Ok kA" using o by (auto simp: opened_def)
  let ?n = "sample_network sA1 kA" and ?m = "pkm_message pm"
  let ?q = "\<lparr>pc_message = ?m, pc_key = Some (replicate 32 9), pc_text = [104, 105]\<rparr>"
  have m: "sm_sender_ratchet_key ?m = kA \<and> r2 = r1"
    using enc
  proof (cases rule: message_encrypt_cases)
    case e: (1 rec st0 st' k)
    have "st0 = st" using st(1) e(1,2) by (simp add: session_at_def)
    from e(3) show ?thesis
    proof (cases rule: encrypt_with_state_cases)
      case (1 ck pq key w mk eph v our_id ct m items)
      then show ?thesis
        using \<open>st0 = st\<close> st(2) SignalMessage_new_fields(2) [OF 1(11)] sample_spqr_send [of _ r1]
        by (cases items) (auto simp: PreKeySignalMessage_new_def Let_def)
    qed
  qed
  have "net_step sample_env sample_at 2000 ?n (nw_post Alice s2 (CPreKeySignalMessage pm, ?q) ?n)"
  proof (rule net_step.send)
    show "message_encrypt sample_env [104, 105] (sample_at Alice) 2000000000 (nw_store ?n Alice, r1) =
        (Ok (CPreKeySignalMessage pm), (s2, r1))"
      using enc m by (simp add: net_start_def)
    show "session_at (sample_at Alice) (nw_store ?n Alice) = Some st" using st(1) by (simp add: net_start_def)
  qed (use c0 sample_spqr_send in \<open>simp_all add: signal_part_def\<close>)
  then have "net_reachable sample_env sample_at 2000 ?n (nw_post Alice s2 (CPreKeySignalMessage pm, ?q) ?n)"
    unfolding net_reachable_def by blast
  then show thesis
    by (rule that [where d = "(CPreKeySignalMessage pm, ?q)", OF o]) (simp_all add: net_start_def nw_retained_def m MAX_RECEIVER_CHAINS_def)
qed

lemma sample_accepts: "ratchet_accepts sample_env a s w"
  by (simp add: ratchet_accepts_def sample_env_def split: option.splits)

text \<open>The first message makes Bob generate a ratchet key.\<close>

lemma decrypt_generates:
  assumes "session_ok st" "s_receiver_chains st = []" "decrypt_message_with_state E st m t r = (Ok (ptext, st'), r')"
    and "hash_lengths E" "curve_lengths E" "rng_length E" "public_key_ok (sm_sender_ratchet_key m)" "sm_counter m \<noteq> - 1"
  shows "sender_ratchet_key st' = Ok (kp_public_key (fst (KeyPair_generate E r)))"
  using assms(3)
proof (cases rule: decrypt_message_with_state_cases)
  case (1 ck st1 g st2 pq key mk their_id our_id)
  have none: "get_receiver_chain st te = Ok None" for te by (simp add: get_receiver_chain_def assms(2))
  have kp: "public_key_ok (kp_public_key (fst (KeyPair_generate E r)))"
    using KeyPair_generate_ok(1) [OF assms(5,6)] .
  obtain pair r2 where "KeyPair_generate E r = (pair, r2)" by (rule prod.exhaust)
  then have "\<exists>sck st2. st1 = set_sender_chain (fst (KeyPair_generate E r)) sck st2"
    using 1(3) by (auto simp: get_or_create_chain_key_def get_receiver_chain_key_def none Let_def result_simps)
  then have "sender_ratchet_key st1 = Ok (kp_public_key (fst (KeyPair_generate E r)))"
    using kp by (auto simp: sender_ratchet_key_def set_sender_chain_def public_key_serde.de_ser)
  moreover have "s_sender_chain st2 = s_sender_chain st1"
    using assms(1,7,4) 1(3)
  proof (cases rule: get_or_create_chain_key_step)
    case (created c i rk our)
    then obtain c2 where "st2 = set_chain_at i c2 st1"
      using get_or_create_message_key_step [OF created(5) assms(7,4) created(7,8) 1(4) assms(8)] by blast
    then show ?thesis by (simp add: set_chain_at_def)
  qed (simp add: none)
  ultimately show ?thesis
    by (simp add: 1(11) sender_ratchet_key_def clear_unacknowledged_pre_key_message_def)
qed

lemma sample_two_keys:
  obtains r where "kp_public_key (fst (KeyPair_generate sample_env r)) \<noteq> kA"
proof -
  have "kp_public_key (fst (KeyPair_generate sample_env 0)) \<noteq> kp_public_key (fst (KeyPair_generate sample_env 1))"
    by (simp add: KeyPair_generate_def c25519_new_def sum_list_replicate) (simp add: sample_env_def sum_list_replicate)
  then show thesis using that by metis
qed

lemma sample_network_received:
  obtains sA1 kA d n r ptext s' r' ks where "opened sample_env sample_at sample_bundle sample_alice sA1 kA sample_bob"
    "net_reachable sample_env sample_at 2000 (sample_network sA1 kA) n" "nw_inbox n Bob = [d]"
    "nw_retained (pc_message (snd d)) n" "pc_text (snd d) = [104, 105]"
    "message_decrypt sample_env (fst d) alice_address (nw_store n Bob, r) = (Ok ptext, (s', r'))"
    "ks = nw_keys_after (session_at alice_address (nw_store n Bob)) (pc_ratchet (snd d)) (session_at alice_address s') (nw_keys n)"
    "distinct ks" "nw_retained (pc_message (snd d)) (nw_fetch Bob s' [] ks n)"
proof -
  obtain sA1 kA d n where s: "opened sample_env sample_at sample_bundle sample_alice sA1 kA sample_bob"
    "net_reachable sample_env sample_at 2000 (sample_network sA1 kA) n" "nw_inbox n Bob = [d]"
    "nw_retained (pc_message (snd d)) n" "pc_text (snd d) = [104, 105]" "nw_store n Bob = sample_bob"
    "nw_keys n = [kA, esp_public_key (b_ec_signed_pre_key sample_bundle)]"
    by (rule sample_network_sent)
  note laws = sample_laws(1) sample_cbc sample_laws(2-4) sample_spqr_channel(1)
  obtain h st0 used ids where i: "answers sample_env (sample_at Bob) h st0 used sample_bob" "ids Alice = pkm_identity_key h"
    "net_inv sample_env sample_channel ids 2000 sample_at h st0 sample_bob n"
    by (rule opened_reachable [where R = sample_channel and at = sample_at, OF laws sample_spqr_channel(2) s(1,2)])
  have d: "d \<in> set (nw_inbox n Bob)" using s(3) by simp
  obtain r where r: "kp_public_key (fst (KeyPair_generate sample_env r)) \<noteq> kA" by (rule sample_two_keys)
  have lim: "unat (2000 :: u32) \<le> MAX_MESSAGE_KEYS" by (simp add: MAX_MESSAGE_KEYS_def)
  obtain s' r' where dec: "message_decrypt sample_env (fst d) (sample_at Bob) (nw_store n Bob, r) = (Ok (pc_text (snd d)), (s', r'))"
    using net_inv_delivers [where at = sample_at and ids = ids, OF laws i lim d s(4) sample_accepts] by blast
  obtain c where c: "conv_inv sample_env sample_channel ids 2000 c" "represents sample_at h st0 sample_bob ids n c"
    using i(3) unfolding net_inv_def by blast
  obtain t st' where st': "decrypt_message_with_state sample_env (cv_state c Bob) (pc_message (snd d)) t r = (Ok (pc_text (snd d), st'), r')"
      "holds alice_address (PublicKey_serialize (pkm_base_key h)) st' s'"
    using represents_decrypt [OF laws(1) c i(1,2) d dec] by (metis sample_at_simps(2))
  have none: "session_at alice_address sample_bob = None" using i(1) by (simp add: answers_def session_at_def)
  have "cv_state c Bob = st0"
    using represents_bob [OF c(2)] holds_session_at none s(6) by (metis option.distinct(1) sample_at_simps(2))
  then have chains: "s_receiver_chains (cv_state c Bob) = []" using i(1) by (simp add: answers_def)
  have q: "snd d \<in> set (cv_inbox c Bob)" using d representsD(2) [where p = Bob, OF c(2)] by simp
  note session = conv_inv_session [where v = Bob, OF laws(1) c(1)]
  have key: "sender_ratchet_key st' = Ok (kp_public_key (fst (KeyPair_generate sample_env r)))"
    by (rule decrypt_generates [OF session(1) chains st'(1) laws(1,4,5) session(4,5) [OF q]])
  let ?ks = "nw_keys_after (session_at alice_address (nw_store n Bob)) (pc_ratchet (snd d)) (session_at alice_address s') (nw_keys n)"
  have ks: "?ks = [kp_public_key (fst (KeyPair_generate sample_env r)), kA, kp_public_key (sample_pair 4)]"
    using key holds_session_at [OF st'(2)] none by (simp add: nw_keys_after_def s(6,7) sample_bundle_fields)
  have "kA \<noteq> kp_public_key (sample_pair 4)" using s(1) by (simp add: opened_def sample_bundle_fields)
  then have "distinct ?ks" using r sample_generated_key [of r] by (simp add: ks)
  moreover have "nw_retained (pc_message (snd d)) (nw_fetch Bob s' [] ?ks n)"
    using s(4) unfolding nw_retained_def nw_simps ks by (auto simp: s(7) sample_bundle_fields MAX_RECEIVER_CHAINS_def)
  ultimately show thesis using that [OF s(1-5) dec [unfolded sample_at_simps] refl] by blast
qed

end
