(* ===== verification/Sample_Sealed.thy ===== *)
theory Sample_Sealed
  imports Sample_Run Sealed_Conversation Sent_Message_Layout
begin

text \<open>
  Instances of the parameters of sealed sender on which its laws hold, with certificates issued to the
  Alice of \<open>Sample_Run\<close>, for the witnesses.
\<close>

definition enc_string :: "string enc" where "enc_string = enc_iso (map (\<lambda>c. of_nat (of_char c))) enc_bytes"
definition dec_string :: "string dec" where "dec_string = dec_iso (map (\<lambda>b. char_of (unat b))) dec_bytes"

lemma char_byte: "char_of (unat (of_nat (of_char c) :: u8)) = c"
proof -
  have "(of_char c :: nat) < 256" by simp
  then show ?thesis by (simp add: unsigned_of_nat take_bit_nat_eq_self)
qed

lemma codes_string [codes_intros]: "codes enc_string dec_string"
  unfolding enc_string_def dec_string_def by (intro codes_iso codes_intros) (simp add: comp_def char_byte)

primrec enc_sum :: "'a enc \<Rightarrow> 'b enc \<Rightarrow> ('a + 'b) enc" where
  "enc_sum e f (Inl x) = 0 # e x"
| "enc_sum e f (Inr y) = 1 # f y"

definition dec_sum :: "'a dec \<Rightarrow> 'b dec \<Rightarrow> ('a + 'b) dec" where
  "dec_sum d g bs =
     (case bs of
        [] \<Rightarrow> None
      | b # r \<Rightarrow> if b = 0 then map_option (\<lambda>(x, r'). (Inl x, r')) (d r) else map_option (\<lambda>(y, r'). (Inr y, r')) (g r))"

lemma codes_sum [codes_intros]:
  assumes "codes e d" "codes f g"
  shows "codes (enc_sum e f) (dec_sum d g)"
  unfolding codes_def
proof (intro allI)
  fix x rest
  show "dec_sum d g (enc_sum e f x @ rest) = Some (x, rest)"
    using assms by (cases x) (simp_all add: dec_sum_def codes_def)
qed

text \<open>The two \<open>oneof\<close> fields as sums.\<close>

primrec uuid_sum :: "pb_sender_uuid \<Rightarrow> string + bytes" where
  "uuid_sum (UuidString s) = Inl s"
| "uuid_sum (UuidBytes b) = Inr b"

primrec signer_sum :: "pb_signer \<Rightarrow> bytes + u32" where
  "signer_sum (SignerCertificate b) = Inl b"
| "signer_sum (SignerId i) = Inr i"

definition enc_uuid :: "pb_sender_uuid enc" where "enc_uuid = enc_iso uuid_sum (enc_sum enc_string enc_bytes)"
definition dec_uuid :: "pb_sender_uuid dec" where
  "dec_uuid = dec_iso (case_sum UuidString UuidBytes) (dec_sum dec_string dec_bytes)"
definition enc_signer :: "pb_signer enc" where "enc_signer = enc_iso signer_sum (enc_sum enc_bytes enc_u32)"
definition dec_signer :: "pb_signer dec" where
  "dec_signer = dec_iso (case_sum SignerCertificate SignerId) (dec_sum dec_bytes dec_u32)"

lemma case_sum_inverse: "case_sum UuidString UuidBytes (uuid_sum u) = u" "case_sum SignerCertificate SignerId (signer_sum s) = s"
  by (cases u; simp) (cases s; simp)

lemma codes_oneof [codes_intros]: "codes enc_uuid dec_uuid" "codes enc_signer dec_signer"
  unfolding enc_uuid_def dec_uuid_def enc_signer_def dec_signer_def
  by (intro codes_iso codes_intros case_sum_inverse)+

definition sample_ss :: ss_prims where
  "sample_ss =
    \<lparr>server_certificate_data_codec = codec_of
       (enc_iso (\<lambda>m. (scd_id m, scd_key m)) (enc_pair (enc_option enc_u32) (enc_option enc_bytes)))
       (dec_iso (\<lambda>(a, b). \<lparr>scd_id = a, scd_key = b\<rparr>) (dec_pair (dec_option dec_u32) (dec_option dec_bytes))),
     server_certificate_codec = codec_of
       (enc_iso (\<lambda>m. (psc_certificate m, psc_signature m)) (enc_pair (enc_option enc_bytes) (enc_option enc_bytes)))
       (dec_iso (\<lambda>(a, b). \<lparr>psc_certificate = a, psc_signature = b\<rparr>) (dec_pair (dec_option dec_bytes) (dec_option dec_bytes))),
     sender_certificate_data_codec = codec_of
       (enc_iso (\<lambda>m. (ecd_sender_e164 m, ecd_sender_uuid m, ecd_sender_device m, ecd_expires m, ecd_identity_key m, ecd_signer m))
         (enc_pair (enc_option enc_string) (enc_pair (enc_option enc_uuid) (enc_pair (enc_option enc_u32)
           (enc_pair (enc_option enc_u64) (enc_pair (enc_option enc_bytes) (enc_option enc_signer)))))))
       (dec_iso (\<lambda>(a, b, c, d, e, f). \<lparr>ecd_sender_e164 = a, ecd_sender_uuid = b, ecd_sender_device = c, ecd_expires = d,
           ecd_identity_key = e, ecd_signer = f\<rparr>)
         (dec_pair (dec_option dec_string) (dec_pair (dec_option dec_uuid) (dec_pair (dec_option dec_u32)
           (dec_pair (dec_option dec_u64) (dec_pair (dec_option dec_bytes) (dec_option dec_signer))))))),
     sender_certificate_codec = codec_of
       (enc_iso (\<lambda>m. (pec_certificate m, pec_signature m)) (enc_pair (enc_option enc_bytes) (enc_option enc_bytes)))
       (dec_iso (\<lambda>(a, b). \<lparr>pec_certificate = a, pec_signature = b\<rparr>) (dec_pair (dec_option dec_bytes) (dec_option dec_bytes))),
     usm_content_codec = codec_of
       (enc_iso (\<lambda>m. (umc_type m, umc_sender_certificate m, umc_content m, umc_content_hint m, umc_group_id m))
         (enc_pair (enc_option enc_u32) (enc_pair (enc_option enc_bytes) (enc_pair (enc_option enc_bytes)
           (enc_pair (enc_option enc_u32) (enc_option enc_bytes))))))
       (dec_iso (\<lambda>(a, b, c, d, e). \<lparr>umc_type = a, umc_sender_certificate = b, umc_content = c, umc_content_hint = d,
           umc_group_id = e\<rparr>)
         (dec_pair (dec_option dec_u32) (dec_pair (dec_option dec_bytes) (dec_pair (dec_option dec_bytes)
           (dec_pair (dec_option dec_u32) (dec_option dec_bytes)))))),
     usm_codec = codec_of
       (enc_iso (\<lambda>m. (usm_ephemeral_public m, usm_encrypted_static m, usm_encrypted_message m))
         (enc_pair (enc_option enc_bytes) (enc_pair (enc_option enc_bytes) (enc_option enc_bytes))))
       (dec_iso (\<lambda>(a, b, c). \<lparr>usm_ephemeral_public = a, usm_encrypted_static = b, usm_encrypted_message = c\<rparr>)
         (dec_pair (dec_option dec_bytes) (dec_pair (dec_option dec_bytes) (dec_option dec_bytes)))),
     gcm_siv_encrypt = (\<lambda>k n ad p. Some (map2 (XOR) p (replicate (length p) (sum_list k)), replicate 16 (sum_list p))),
     gcm_siv_decrypt = (\<lambda>k n ad c. let p = map2 (XOR) (take (length c - 16) c) (replicate (length c - 16) (sum_list k))
       in if drop (length c - 16) c = replicate 16 (sum_list p) then Some p else None),
     aead_error_display = ''aead::Error'',
     encode_length_delimiter = le_bytes 8,
     decode_length_delimiter = (\<lambda>bs. if length bs < 8 then None else Some (le_nat (take 8 bs))),
     length_delimiter_len = (\<lambda>_. 8)\<rparr>"

lemma sample_ss_codecs: "ss_codecs_ok sample_ss"
  unfolding ss_codecs_ok_def sample_ss_def ss_prims.select_convs
  by (intro conjI codec_of_ok codes_iso codes_intros) simp_all

lemma sample_ss_laws: "gcm_siv_ok sample_ss" "delimiter_ok sample_ss" "gcm_siv_encrypt sample_ss k n ad p \<noteq> None"
proof -
  have "map2 (XOR) (map2 (XOR) p (replicate (length p) x)) (replicate (length p) x) = p" for p :: bytes and x
    by (induction p) (simp_all add: xor.assoc)
  then show "gcm_siv_ok sample_ss" by (auto simp: gcm_siv_ok_def sample_ss_def Let_def)
  have "n < 256 ^ 8 \<longleftrightarrow> n < 2 ^ 64" for n :: nat by simp
  then show "delimiter_ok sample_ss" by (simp add: delimiter_ok_def sample_ss_def le_nat_le_bytes)
  show "gcm_siv_encrypt sample_ss k n ad p \<noteq> None" by (simp add: sample_ss_def)
qed

subsection \<open>Certificates\<close>

definition sample_server_certificate :: server_certificate where
  "sample_server_certificate =
     fst (ServerCertificate_new sample_env sample_ss 1 (kp_public_key (sample_pair 8)) (kp_private_key (sample_pair 9)) 0)"

definition sample_certificate :: sender_certificate where
  "sample_certificate =
     fst (SenderCertificate_new sample_env sample_ss ''alice'' None (id_identity_key (sample_identity 2)) (DeviceId 1) 1000
       sample_server_certificate (kp_private_key (sample_pair 8)) 0)"

lemma sample_certificate_fields:
  "sec_key sample_certificate = id_identity_key (sample_identity 2)" "sec_sender_uuid sample_certificate = ''alice''"
  "sec_sender_e164 sample_certificate = None" "sec_sender_device_id sample_certificate = DeviceId 1"
  "sec_expiration sample_certificate = 1000"
  by (simp_all add: sample_certificate_def SenderCertificate_new_def Let_def split: prod.split)

lemma sample_device_ok: "device_id_ok (DeviceId 1)"
  by (simp add: device_id_ok_def MAX_VALID_DEVICE_ID_def)

lemma sample_certificate_ok: "sender_certificate_ok sample_env sample_ss sample_certificate"
  unfolding sample_certificate_def sample_server_certificate_def
  by (intro SenderCertificate_new_ok ServerCertificate_new_ok sample_ss_codecs sample_device_ok)
    (simp_all add: sample_identity_def del: sample_identity_ok)

lemma sample_server_not_revoked: "svc_key_id sample_server_certificate \<notin> set REVOKED_SERVER_CERTIFICATE_KEY_IDS"
  by (simp add: sample_server_certificate_def ServerCertificate_new_def Let_def REVOKED_SERVER_CERTIFICATE_KEY_IDS_def
      split: prod.split)

lemma sample_certificate_valid:
  "SenderCertificate_validate sample_env sample_ss sample_certificate (kp_public_key (sample_pair 9)) t = Ok (t \<le> 1000)"
  using issued_certificate_valid [OF sample_xeddsa sample_dh sample_server_not_revoked _ sample_certificate_def,
      of 1 "kp_private_key (sample_pair 9)" 0]
  by (simp add: sample_server_certificate_def)

lemma sample_not_self: "\<not> is_self_send sample_certificate None ''bob'' (DeviceId 1)"
  by (simp add: is_self_send_def sample_certificate_fields)

lemma sample_sender: "alice_address = ProtocolAddress_new (sec_sender_uuid sample_certificate) (sec_sender_device_id sample_certificate)"
  by (simp add: alice_address_def sample_certificate_fields)

subsection \<open>A sealed exchange\<close>

lemma sample_sealed_run:
  obtains ct res w' where
    "sealed_sender_decrypt sample_env sample_ss ct (kp_public_key (sample_pair 9)) 500 None ''bob'' (DeviceId 1) (sample_bob, 0) =
      (Ok res, w')"
    "sdr_sender_uuid res = ''alice''"
proof -
  have valid: "SenderCertificate_validate sample_env sample_ss sample_certificate (kp_public_key (sample_pair 9)) 500 = Ok True"
    by (simp add: sample_certificate_valid)
  have key: "sec_key sample_certificate = id_identity_key (get_identity_key_pair sample_alice)"
    by (simp only: sample_certificate_fields sample_stores)
  show thesis
    using that sealed_conversation_starts [OF sample_laws sample_cbc sample_spqr(2,3) sample_lengths(2)
        sample_codecs(7,8) sample_ss_codecs sample_certificate_ok key valid sample_not_self sample_sender sample_start]
      sample_certificate_fields(2) by fastforce
qed

subsection \<open>A message to several recipients\<close>

definition sample_content :: usmc where
  "sample_content = USMC_new sample_ss SenderKey sample_certificate [1, 2, 3] HintResendable (Some [4])"

lemma sample_content_ok: "usmc_ok sample_env sample_ss sample_content" "uc_sender sample_content = sample_certificate"
  unfolding sample_content_def
  by (rule USMC_new_ok [OF sample_ss_codecs sample_certificate_ok]) (simp_all add: ContentHint_from_def USMC_new_def Let_def)

definition sample_peer_session :: session_record where
  "sample_peer_session = \<lparr>sr_current_session = Some (sample_session\<lparr>s_remote_registration_id := 18\<rparr>), sr_previous_sessions = []\<rparr>"

definition sample_recipients :: "v2_recipient list" where
  "sample_recipients = [(Aci (replicate 16 7), [(DeviceId 1, sample_peer_session), (DeviceId 2, sample_peer_session)])]"

definition sample_v2_store :: protocol_store where
  "sample_v2_store =
     snd (save_identity (to_protocol_address sample_env (Aci (replicate 16 7)) (DeviceId 2)) (id_identity_key (sample_identity 3))
     (snd (save_identity (to_protocol_address sample_env (Aci (replicate 16 7)) (DeviceId 1)) (id_identity_key (sample_identity 3))
       sample_alice)))"

lemma sample_recipients_ok:
  "\<forall>x \<in> set sample_recipients. recipient_ok sample_env sample_v2_store (\<lambda>_. id_identity_key (sample_identity 3)) x"
proof -
  let ?a = "\<lambda>d. to_protocol_address sample_env (Aci (replicate 16 7)) (DeviceId d)"
  have "?a 2 \<noteq> ?a 1" by (simp add: to_protocol_address_def ProtocolAddress_new_def)
  then have "get_identity (?a 1) sample_v2_store = Some (id_identity_key (sample_identity 3))"
    "get_identity (?a 2) sample_v2_store = Some (id_identity_key (sample_identity 3))"
    unfolding sample_v2_store_def by (simp_all add: identities.load_store_same identities.load_store_other)
  moreover have "registration_ok sample_peer_session"
    by (simp add: registration_ok_def registration_of_def sample_peer_session_def VALID_REGISTRATION_ID_MASK_def)
  ultimately show ?thesis
    by (simp add: recipient_ok_def sample_recipients_def device_id_ok_def MAX_VALID_DEVICE_ID_def)
qed

lemma sample_v2_identity: "get_identity_key_pair sample_v2_store = sample_identity 2"
  by (simp add: sample_v2_store_def stores_keep_own_identity sample_stores)

lemma sample_consistent: "identity_consistent sample_env (sample_identity x)"
  by (simp add: identity_consistent_def)

lemma sample_sent_message:
  obtains bs m i x where "SentMessage_parse sample_ss bs = Ok m" "(i, x) \<in> set (snm_recipients m)" "srp_devices x \<noteq> []"
proof -
  have key: "identity_consistent sample_env (get_identity_key_pair sample_v2_store)"
    "sec_key (uc_sender sample_content) = id_identity_key (get_identity_key_pair sample_v2_store)"
    by (simp_all only: sample_v2_identity sample_consistent sample_content_ok(2) sample_certificate_fields)
  have rcpt: "\<forall>i \<in> set []. length (raw_uuid i) = 16" "distinct (map fst sample_recipients @ [])"
    "length sample_recipients + length ([] :: service_id list) < 2 ^ 32"
    by (simp_all add: sample_recipients_def)
  obtain bs m where m: "SentMessage_parse sample_ss bs = Ok m"
      "v2_message_opens sample_env sample_ss sample_recipients [] (\<lambda>_. id_identity_key (sample_identity 3)) sample_content m"
    using multi_recipient_delivery [OF sample_lengths(1,3,4) sample_dh sample_uuid sample_ss_laws(1,2) key(1)
        sample_content_ok(1) key(2) sample_ss_laws(3) sample_recipients_ok rcpt] by blast
  then obtain x where "(Aci (replicate 16 7), x) \<in> set (snm_recipients m)" "srp_devices x \<noteq> []"
    by (auto simp: v2_message_opens_def sample_recipients_def devices_of_def)
  then show thesis using that m(1) by blast
qed

end
