(* ===== verification/Sample_Ring.thy ===== *)
theory Sample_Ring
  imports Sample_Sealed Ring_Xhmqv Ring_X3dh
begin

text \<open>
  Instances of the parameters of the sealed handshakes on which their laws hold, and keys, bundles
  and messages over them, for the witnesses. The group is the additive group of bytes.
\<close>

subsection \<open>The parameters\<close>

definition sample_ristretto :: "(u8, u8) ristretto" where
  "sample_ristretto =
     \<lparr>point_compress = (\<lambda>p. replicate 32 p), point_decompress = (\<lambda>b. Some (hd b)), point_add = (+), point_mul = (*),
      basepoint_mul = (\<lambda>s. s), vartime_multiscalar_mul = (\<lambda>ss ps. sum_list (map2 (*) ss ps)),
      rs_from_bytes_mod_order = hd, rs_from_bytes_mod_order_wide = hd, rs_to_bytes = (\<lambda>s. replicate 32 s),
      rs_one = 1, rs_add = (+), rs_mul = (*)\<rparr>"

lemma sample_ristretto_ok: "ristretto_ok sample_ristretto"
  by (simp add: ristretto_ok_def sums_of_products_def sample_ristretto_def ac_simps)

definition sample_falcon :: hash_and_signatures where
  "sample_falcon =
     \<lparr>sha256 = (\<lambda>m. replicate 32 (sum_list m)), ed25519_signature_from_slice = Some,
      ed25519_verify_strict = (\<lambda>vk m sig. sig = replicate 64 (sum_list vk + sum_list m)),
      falcon_keypair = (\<lambda>e. (e, e)), falcon_detached_sign = (\<lambda>e m sk. replicate 64 (sum_list sk + sum_list m)),
      falcon_public_key_from_bytes = Some, falcon_signature_from_bytes = Some,
      falcon_verify_detached = (\<lambda>sig m pk. sig = replicate 64 (sum_list pk + sum_list m))\<rparr>"

lemma sample_falcon_pair: "falcon_pair sample_falcon [x] [x]"
  by (simp add: falcon_pair_def pure_falcon_sign_def pure_falcon_verify_bytes_def sample_falcon_def)

subsection \<open>The size of the sample certificate\<close>

lemma length_enc:
  "length (enc_bytes b) = 2 * length b + 1" "length (enc_u32 w) = 4" "length (enc_u64 v) = 8"
  "length (enc_string s) = 2 * length s + 1"
proof -
  show bs: "length (enc_bytes b) = 2 * length b + 1" for b
    by (induction b) (simp_all add: enc_bytes_def enc_byte_def)
  show "length (enc_u32 w) = 4" "length (enc_u64 v) = 8" by (simp_all add: enc_u32_def enc_u64_def)
  show "length (enc_string s) = 2 * length s + 1" by (simp add: enc_string_def enc_iso_def bs)
qed

lemma sample_signature_length:
  "length (fst (PrivateKey_calculate_signature sample_env (kp_private_key (sample_pair x)) msg r)) = 64"
  unfolding PrivateKey_calculate_signature_def calculate_signature_for_multipart_message_def
  by (rule xeddsa_sign_verify(2) [OF sample_xeddsa]) (use sample_dh in \<open>simp add: dh_ok_def\<close>)

lemmas sample_certificate_simps = length_enc enc_pair_def enc_iso_def enc_uuid_def enc_signer_def codec_of_def sample_signature_length
  length_PublicKey_serialize [OF sample_pair_ok(2)]

lemma sample_certificate_short: "length (sec_serialized sample_certificate) < 2 ^ 31"
proof -
  have "length (svc_serialized sample_server_certificate) = 278"
    by (simp add: sample_server_certificate_def ServerCertificate_new_def Let_def case_prod_beta sample_ss_def
        sample_certificate_simps)
  then show ?thesis
    by (simp add: sample_certificate_def SenderCertificate_new_def Let_def case_prod_beta sample_ss_def sample_identity_def
        sample_certificate_simps del: sample_identity_ok)
qed

subsection \<open>Keys and bundles\<close>

definition sample_ristretto_pair :: "u8 \<Rightarrow> (u8, u8) ristretto_key_pair" where
  "sample_ristretto_pair x = RistrettoKeyPair_from_private sample_ristretto (RistrettoPrivateKey x)"

lemma sample_ristretto_pair_ok: "ristretto_pair_ok sample_ristretto (sample_ristretto_pair x)"
  by (simp add: sample_ristretto_pair_def RistrettoKeyPair_generate_ok)

definition sample_pq :: pq_bundle where
  "sample_pq = \<lparr>pq_receiver_falcon_vkey = [9], pq_mlkem_identity_key = kkp_public_key (sample_kem_pair 7),
     pq_mlkem_signed_prekey = kkp_public_key (sample_kem_pair 6),
     pq_mlkem_signed_prekey_signature = pure_falcon_sign sample_falcon [] [9] (kem_Key_serialize (kkp_public_key (sample_kem_pair 6)))\<rparr>"

lemma sample_pq_valid: "verify_pq_spk_sig sample_falcon sample_pq = Ok ()"
  using sample_falcon_pair [of 9] by (simp add: verify_pq_spk_sig_def sample_pq_def falcon_pair_def)

definition sample_rx_bundle :: "u8 rx_bundle" where
  "sample_rx_bundle = \<lparr>rxb_classical = \<lparr>clb_identity_key = rkp_public_key (sample_ristretto_pair 3),
       clb_signed_prekey = rkp_public_key (sample_ristretto_pair 4),
       clb_signed_prekey_signature = replicate 64 (8 + sum_list (RistrettoPublicKey_serialize (rkp_public_key (sample_ristretto_pair 4)))),
       clb_one_time_prekey = Some (rkp_public_key (sample_ristretto_pair 5)), clb_ed25519_verify_key = [8]\<rparr>,
     rxb_pq = sample_pq, rxb_registration_id = 18\<rparr>"

definition sample_rx_recv :: "(u8, u8) rx_recv_params" where
  "sample_rx_recv = \<lparr>rxr_receiver_identity = sample_ristretto_pair 3, rxr_receiver_signed_prekey = sample_ristretto_pair 4,
     rxr_receiver_one_time_prekey = Some (sample_ristretto_pair 5), rxr_pq_identity_kp = sample_kem_pair 7,
     rxr_pq_signed_prekey_kp = sample_kem_pair 6, rxr_receiver_falcon_vk = [9]\<rparr>"

definition sample_rx_send :: "(u8, u8) rx_send_params" where
  "sample_rx_send = \<lparr>rxs_sender_classical_identity = sample_ristretto_pair 2, rxs_sender_falcon_sk = [1],
     rxs_sender_falcon_vk = [1], rxs_cert = sample_certificate, rxs_registration_id = 17, rxs_msg_type = Whisper,
     rxs_content_hint = HintDefault\<rparr>"

lemma sample_rx:
  "rx_matching sample_env sample_ristretto sample_rx_bundle sample_rx_recv"
  "verify_classical_spk_sig sample_falcon (rxb_classical sample_rx_bundle) = Ok ()"
  "verify_pq_spk_sig sample_falcon (rxb_pq sample_rx_bundle) = Ok ()"
  by (simp_all add: rx_matching_def sample_rx_bundle_def sample_rx_recv_def sample_ristretto_pair_ok sample_pq_valid)
    (simp_all add: sample_pq_def verify_classical_spk_sig_def sample_falcon_def)

lemma sample_rx_sender:
  "ristretto_pair_ok sample_ristretto (rxs_sender_classical_identity sample_rx_send)"
  "falcon_pair sample_falcon (rxs_sender_falcon_vk sample_rx_send) (rxs_sender_falcon_sk sample_rx_send)"
  "sender_certificate_ok sample_env sample_ss (rxs_cert sample_rx_send)"
  "length (sec_serialized (rxs_cert sample_rx_send)) < 2 ^ 31" "hint_fits (rxs_content_hint sample_rx_send)"
  using sample_certificate_short
  by (simp_all add: sample_rx_send_def sample_ristretto_pair_ok sample_falcon_pair sample_certificate_ok hint_fits_def
      ContentHint_to_u32_def ContentHint_from_def)

definition sample_r3_bundle :: r3_bundle where
  "sample_r3_bundle = \<lparr>r3b_classical = sample_bundle, r3b_pq = sample_pq, r3b_registration_id = 18\<rparr>"

definition sample_r3_recv :: r3_recv_params where
  "sample_r3_recv = \<lparr>r3r_receiver_signed_prekey_kp = sample_pair 4, r3r_receiver_one_time_prekey_kp = Some (sample_pair 5),
     r3r_receiver_identity_kp = sample_identity 3, r3r_pq_identity_kp = sample_kem_pair 7,
     r3r_pq_signed_prekey_kp = sample_kem_pair 6, r3r_receiver_falcon_vk = [9]\<rparr>"

definition sample_r3_send :: r3_send_params where
  "sample_r3_send = \<lparr>r3s_sender_identity = sample_identity 2, r3s_sender_falcon_sk = [1], r3s_sender_falcon_vk = [1],
     r3s_cert = sample_certificate, r3s_registration_id = 17, r3s_msg_type = Whisper, r3s_content_hint = HintDefault\<rparr>"

lemma sample_r3:
  "r3_matching sample_env sample_r3_bundle sample_r3_recv"
  "verified_classical_spk_sig sample_env (r3b_classical sample_r3_bundle) = Ok ()"
  "verify_pq_spk_sig sample_falcon (r3b_pq sample_r3_bundle) = Ok ()"
  by (simp_all add: r3_matching_def identity_consistent_def sample_r3_bundle_def sample_r3_recv_def sample_bundle_fields sample_pq_valid)
    (simp_all add: sample_pq_def verified_classical_spk_sig_def sample_bundle_fields sample_sign_valid)

lemma sample_r3_sender:
  "identity_consistent sample_env (r3s_sender_identity sample_r3_send)"
  "sec_key (r3s_cert sample_r3_send) = id_identity_key (r3s_sender_identity sample_r3_send)"
  "falcon_pair sample_falcon (r3s_sender_falcon_vk sample_r3_send) (r3s_sender_falcon_sk sample_r3_send)"
  "sender_certificate_ok sample_env sample_ss (r3s_cert sample_r3_send)"
  "length (sec_serialized (r3s_cert sample_r3_send)) < 2 ^ 31" "hint_fits (r3s_content_hint sample_r3_send)"
  using sample_certificate_short
  by (simp_all add: sample_r3_send_def identity_consistent_def sample_falcon_pair sample_certificate_ok sample_certificate_fields
      hint_fits_def ContentHint_to_u32_def ContentHint_from_def)

lemma sample_r3_run:
  obtains bs res where "r3_recv sample_env sample_ss sample_falcon bs sample_r3_recv = Ok res"
  using r3_delivered [OF sample_lengths(1) sample_dh sample_lengths(3,4,2) sample_r3 sample_r3_sender] by blast

subsection \<open>Sealed PQXDH\<close>

lemma sample_sealed_codec: "codec_ok (sealed_pqxdh_codec sample_env)" by simp

lemma sample_hint_fits: "hint_fits HintDefault"
  by (simp add: hint_fits_def ContentHint_to_u32_def ContentHint_from_def)

lemma sample_alice_consistent: "identity_consistent sample_env (get_identity_key_pair sample_alice)"
  by (simp only: identity_consistent_def sample_ids)

lemma sample_certificate_key: "sec_key sample_certificate = id_identity_key (get_identity_key_pair sample_alice)"
  by (simp only: sample_certificate_fields sample_stores)

lemma sample_trusts_bob: "is_trusted_identity bob_address k d sample_alice"
  by (simp add: is_trusted_identity_def sample_alice_def InMemSignalProtocolStore_new_def)

end
