(* ===== verification/Spec2Isabelle.thy ===== *)
theory Spec2Isabelle
  imports
    Prelude Types Proto Externals Curve_Utils Curve
    Crypto Kem_Parameters Kem Identity_Key Ratchet_Keys Session_State
    Session_Record Messages Session_Cipher Ratchet_Correctness Session_Shape Record_Correctness
    Sender_Keys Prekeys Storage Session_Init Address Typed_Ids
    Orders Session_Handlers Failure_Log Handlers_Correctness Double_Ratchet End_To_End
    Conversation Group_Cipher Group_Correctness Prekey_Correctness Conversation_Once Store_Conversation
    Store_Simulation Store_Start Store_Machine Group_Session Receive_Loops Incremental_Mac
    Aes_Gcm Hash_Objects Hpke Fingerprint Sealed_Sender_Proto Sealed_Sender_Certs
    Sealed_Sender Sealed_Sender_V2 Sealed_Sender_Decrypt Sealed_Sender_Correctness Sealed_V2_Correctness Sealed_Conversation
    Sent_Message_Layout Keyed_Sessions Spqxdh Spqxdh_Correctness Client_Machine Xhmqv
    Ring_Kem Ring_Xhmqv Ring_X3dh Sample_Streams Sample_Env Sample_Run
    Sample_Conversation Sample_Network Sample_Sealed Sample_Ring
begin

text \<open>
  A verification of the Signal protocol library: the crates \<open>rust/core\<close> (addresses, curve keys),
  \<open>rust/crypto\<close> (AES modes, hash objects, HPKE) and \<open>rust/protocol\<close> (sessions, groups, messages, stores,
  fingerprints, sealed sender, sealed handshakes). The library keeps no state of its own: an application passes it stores and a random
  number generator, and its entry points (\<open>process_prekey_bundle\<close>, \<open>message_encrypt\<close>,
  \<open>message_decrypt\<close>, \<open>group_encrypt\<close>, \<open>group_decrypt\<close>, \<open>sealed_sender_encrypt\<close>,
  \<open>sealed_sender_decrypt\<close>, the handshakes of \<open>spqxdh.rs\<close> and the ring KEMs, and the two functions for sender key
  distribution messages) load records from the stores, compute, and store what changed.

  \<^bold>\<open>Conventions.\<close> A call that returns \<open>Result\<close> is a value of \<open>result\<close> (theory \<open>Prelude\<close>): \<open>Ok\<close>,
  \<open>Err\<close> or \<open>Panic\<close>, and every \<open>?\<close>, \<open>ok_or\<close>, \<open>map_err\<close>, \<open>expect\<close>, \<open>unwrap\<close>, \<open>assert\<close> and
  out-of-range slice of the sources is a branch of it. Machine integers are words of their width, so
  that \<open>+\<close> wraps; checked additions are written out. Protobuf messages are records (\<open>Proto\<close>), with an
  \<open>option\<close> for an optional field. Newtypes are type synonyms. A function that draws random numbers
  takes and returns the generator's state; a function on stores takes and returns the stores also
  when it fails, so that theorems can say what a failure leaves behind. Calls of the logger are not modelled,
  except where the arguments of a log statement can panic; the report on a failed decryption is (\<open>Failure_Log\<close>). Asynchronous functions are their
  sequential runs: the in-memory stores never suspend.

  \<^bold>\<open>Parameters.\<close> Third-party code is the record \<open>env\<close> (\<open>Externals\<close>): hashes and ciphers, curve
  arithmetic, KEMs, the \<open>spqr\<close> post-quantum ratchet, protobuf codecs, UUID texts, the generator.
  What a theorem uses of it is a named hypothesis: \<open>codec_ok\<close> (an encoded message decodes to
  itself), \<open>hash_lengths\<close>, \<open>keystream_length\<close>, \<open>curve_lengths\<close>, \<open>rng_length\<close> (output lengths),
  \<open>cbc_ok\<close> (CBC decrypts what it encrypts), \<open>dh_ok\<close> (agreements commute), \<open>xeddsa_ok\<close> (the
  verification equation holds for honest signatures), \<open>kem_matching\<close> (a key pair decapsulates what
  was encapsulated), \<open>uuid_text_ok\<close>, \<open>spqr_total\<close>, \<open>spqr_pairs\<close>, \<open>spqr_live\<close> (the ratchet's
  initial states exist, pair up and exchange a first message), \<open>spqr_linked\<close>, \<open>spqr_channel\<close> (a relation
  of the two ratchet states and the messages between them that sending and receiving keep, and under which the
  receiver gets the sender's key). \<open>Sample_Env\<close> gives an instance on
  which all of them hold together, \<open>Sample_Run\<close>, \<open>Sample_Conversation\<close> and \<open>Sample_Network\<close> run the protocol on it, and
  \<open>Sample_Streams\<close> does
  the same for the smaller parameter records of \<open>Incremental_Mac\<close>, \<open>Aes_Gcm\<close> and \<open>Hpke\<close>; the witnesses of
  the theorems below are taken there.

  \<^bold>\<open>Theories and what they model.\<close>
  \<^item> \<open>Prelude\<close>, \<open>Types\<close>, \<open>Proto\<close>, \<open>Externals\<close>: shared vocabulary; \<open>error.rs\<close>, \<open>consts.rs\<close>, the
    \<open>.proto\<close> files. The locale \<open>serde\<close> is the contract of a serializer and its parser.
  \<^item> \<open>Curve_Utils\<close>, \<open>Curve\<close>, \<open>Kem_Parameters\<close>, \<open>Kem\<close>, \<open>Crypto\<close>, \<open>Identity_Key\<close>: \<open>core/src/curve*\<close>, \<open>kem.rs\<close>, \<open>kem/\<close>,
    \<open>crypto.rs\<close>, \<open>aes_cbc.rs\<close>, \<open>identity_key.rs\<close>. Byte forms and their inverses, the constant-time
    comparison against its specification, the canonicity check, signatures, encrypt-then-MAC.
  \<^item> \<open>Ratchet_Keys\<close>, \<open>Session_State\<close>, \<open>Session_Record\<close>: \<open>ratchet/keys.rs\<close> and
    \<open>state/session.rs\<close>. Invariants \<open>session_ok\<close> and \<open>record_inv\<close> with their
    preservation, and how long an archived session stays.
  \<^item> \<open>Messages\<close>: \<open>protocol.rs\<close>. Parsers and constructors with every error, MACs and signatures.
  \<^item> \<open>Session_Cipher\<close>, \<open>Ratchet_Correctness\<close>, \<open>Session_Shape\<close>, \<open>Record_Correctness\<close>: the receiving half of
    \<open>session_cipher.rs\<close>. A receiver chain that tracks a chain of keys returns the key of a counter in
    every order of delivery, used counters are refused, a record of sessions keeps its invariant and
    never panics. \<open>session_shape\<close> is the part of \<open>session_ok\<close> that no counter can break.
  \<^item> \<open>Failure_Log\<close>: the texts of the errors of \<open>error.rs\<close> and \<open>create_decryption_failure_log\<close>, which always returns
    a report and puts every error next to the session that failed with it.
  \<^item> \<open>Sender_Keys\<close>, \<open>Group_Cipher\<close>, \<open>Group_Correctness\<close>, \<open>Group_Session\<close>: \<open>sender_keys.rs\<close> and
    \<open>group_cipher.rs\<close>, with the same results for groups up to the whole run of a group session.
  \<^item> \<open>Prekeys\<close>, \<open>Storage\<close>, \<open>Session_Init\<close>: \<open>state/prekey.rs\<close>, \<open>signed_prekey.rs\<close>,
    \<open>kyber_prekey.rs\<close>, \<open>bundle.rs\<close>, \<open>storage/inmem.rs\<close>, \<open>ratchet.rs\<close>, \<open>ratchet/params.rs\<close>,
    \<open>pqxdh.rs\<close>, whose receiving half is \<open>todo!()\<close> and so a panic. Both parties derive the same secrets.
  \<^item> \<open>Session_Handlers\<close>, \<open>Handlers_Correctness\<close>, \<open>Prekey_Correctness\<close>, \<open>End_To_End\<close>: the entry points
    of \<open>session.rs\<close> and \<open>session_cipher.rs\<close> on the stores: what failures leave behind, replay
    protection, and the first message of a conversation from bundle to plaintext.
  \<^item> \<open>Double_Ratchet\<close>, \<open>Conversation\<close>: the abstract view of a whole conversation. An epoch is a ratchet key pair
    with the root key and the chain that start there; a history lists the epochs, each derived from the one before
    (\<open>next_epoch\<close>), and the parties own them in turns. \<open>Conversation\<close> runs \<open>encrypt_with_state\<close> and
    \<open>decrypt_message_with_state\<close> for both parties as steps over a network that reorders and loses messages; its
    invariant \<open>conv_inv\<close> says that both session states and all messages in transit stem from one history. The
    handshake establishes it, every step keeps it, and it gives integrity and delivery for messages whose receiver
    chain was not evicted (\<open>retained\<close>). Delivery further takes at most \<open>MAX_MESSAGE_KEYS\<close> messages per epoch, the
    number of skipped keys that a chain holds; a receive step takes it that a generated ratchet key is new.
    \<open>Conversation_Once\<close>: a message that was decrypted is a duplicate in every later state.
  \<^item> \<open>Store_Conversation\<close>, \<open>Store_Simulation\<close>, \<open>Store_Start\<close>: the same conversation between two applications,
    whose steps are \<open>message_encrypt\<close> and \<open>message_decrypt\<close> on their stores (\<open>net_step\<close>). The relation
    \<open>represents\<close> makes every step a step of \<open>Conversation\<close> on the sessions in the stores, where Bob's session counts as
    made before one of Alice's pre-key messages makes it (\<open>answers\<close>); \<open>opened\<close> is the start, after
    \<open>process_prekey_bundle\<close>. Delivery, integrity and replay protection carry over to the stores.
  \<^item> \<open>Store_Machine\<close>, \<open>Client_Machine\<close>: the entry points on the stores as steps of an inductive relation, first
    sessions and groups, then sealed sender and keyed sessions too; the invariants of the records hold in every
    state a client can reach. The locale \<open>session_inv\<close> proves it once for a session invariant and a set of counters
    of received messages; \<open>session_sound\<close> (all counters) and \<open>session_healthy\<close> (without the last) are its instances.
  \<^item> \<open>Address\<close>, \<open>Typed_Ids\<close>, \<open>Orders\<close>: \<open>address.rs\<close>, \<open>e164.rs\<close>, with the \<open>Ord\<close> implementations of keys, ids and
    addresses as instances of \<open>linorder\<close>. \<open>Fingerprint\<close>: \<open>fingerprint.rs\<close>.
  \<^item> \<open>Incremental_Mac\<close>: \<open>incremental_mac.rs\<close>. \<open>Aes_Gcm\<close>, \<open>Hash_Objects\<close>: \<open>aes_ctr.rs\<close>,
    \<open>aes_gcm.rs\<close>, \<open>hash.rs\<close>. The streaming objects against one-shot definitions. \<open>Hpke\<close>: \<open>hpke.rs\<close>,
    \<open>hpke/provider.rs\<close>, the provider against the contract of the crate that calls it.
  \<^item> \<open>Sealed_Sender_Proto\<close>, \<open>Sealed_Sender_Certs\<close>: the messages of \<open>sealed_sender.proto\<close> and the certificates of
    \<open>sealed_sender.rs\<close>. What AES-GCM-SIV and the varints of prost do is in the record \<open>ss_prims\<close>, with the laws
    \<open>ss_codecs_ok\<close>, \<open>gcm_siv_ok\<close> and \<open>delimiter_ok\<close>. An issued certificate validates exactly until it expires.
  \<^item> \<open>Sealed_Sender\<close>, \<open>Sealed_Sender_Decrypt\<close>: message contents, the v1 key schedule, sealing
    (\<open>sealed_sender_encrypt\<close>), opening (\<open>sealed_sender_decrypt_to_usmc\<close>) and \<open>sealed_sender_decrypt\<close>.
    \<open>Sealed_Sender_Correctness\<close> and \<open>Sealed_Conversation\<close> show that a sealed content opens to itself, that only a
    certified sender who holds the sealing key reaches a session, and a whole sealed exchange.
  \<^item> \<open>Sealed_Sender_V2\<close>: messages to several recipients and the server's parser. The threads of the fan-out become
    the chunks they work on; \<open>Sealed_V2_Correctness\<close> shows that the result does not depend on their number and that
    every recipient opens its part, \<open>Sent_Message_Layout\<close> what the parser guarantees on arbitrary bytes.
  \<^item> \<open>Receive_Loops\<close>: the two receive loops as \<open>while\<close> loops, that they end and after how many rounds.
  \<^item> \<open>Keyed_Sessions\<close>, \<open>Spqxdh\<close>, \<open>Spqxdh_Correctness\<close>: \<open>spqxdh.rs\<close>. Sessions initialized from one key are paired,
    and a sealed handshake leads to a delivered first message; no input makes the receiver panic.
  \<^item> \<open>Xhmqv\<close>: \<open>xhmqv.rs\<close>, over the parameters \<open>ristretto\<close> (with the law \<open>ristretto_ok\<close>) and
    \<open>hash_and_signatures\<close>. \<open>Ring_Kem\<close>, \<open>Ring_Xhmqv\<close>, \<open>Ring_X3dh\<close>: \<open>sealed_ringxkem_xhmqv.rs\<close>,
    \<open>sealed_ringxkem_x3dh.rs\<close>, \<open>pure_falcon.rs\<close>. Sender and recipient derive the same keys, and the parsers are total.
    \<open>Sample_Ring\<close> has instances for the witnesses.

  \<^bold>\<open>Locales.\<close> \<open>serde\<close>; \<open>symmetric_chain\<close>, a chain of keys with an index, for the two ratchets;
  \<open>bounded_buffer\<close>, insertion that drops old entries, for skipped keys, receiver chains, archived
  sessions, sender message keys and sender key states; \<open>kv_store\<close>, lookup after update, for the
  parts of the in-memory store; \<open>stream_parser\<close>, a parser that reads one encoded value off the
  front, for recipients of sealed messages and length-prefixed fields; \<open>service_id_format\<close>, for the
  three forms of a service id; \<open>kem_module\<close>, the trait \<open>Parameters\<close> of the KEM modules; \<open>hpke_crypto\<close>, what HPKE expects of its provider; \<open>fallible_loop\<close>, a loop
  whose body may fail, for the two receive loops; \<open>archivable\<close> and, extending it, \<open>session_inv\<close>, the session invariants
  that records and stores keep; \<open>rust_ord\<close> and \<open>rust_ord_pair\<close>, the contract
  of \<open>Ord::cmp\<close>, for the comparisons. Each is interpreted on the definitions of the sources, in the theory
  that declares them, and the properties use the interpreted facts.

  \<^bold>\<open>Loops and bounds.\<close> No definition uses fuel: every loop is a \<open>fun\<close> or a \<open>function\<close> with a
  termination proof. The limits (\<open>MAX_FORWARD_JUMPS\<close>, \<open>MAX_MESSAGE_KEYS\<close>, \<open>MAX_RECEIVER_CHAINS\<close>,
  \<open>ARCHIVED_STATES_MAX_LENGTH\<close>, \<open>MAX_SENDER_KEY_STATES\<close>) have the values of \<open>consts.rs\<close>.
  At the counter \<open>u32::MAX\<close> the unchecked index of a receiver chain wraps (\<open>receiver_chain_index_wraps\<close>; builds with
  overflow checks panic there, which the model leaves out). The state machines take a predicate on the counters of
  received messages: the shape of all records and the absence of panics hold for every one of them, the order of
  skipped counters and chain keys for those that exclude this counter. The theorems on conversations that need the
  counter below it say so.

  \<^bold>\<open>Order of effects.\<close> \<open>message_decrypt_prekey\<close> saves the sender's identity before the pre-keys are
  consumed and before the session is stored; the model keeps this order.

  \<^bold>\<open>Not modelled.\<close>
  \<^item> Signatures that the ring handshakes compute a second time for benchmarks and drop.
  \<^item> The 768 parameter set of Kyber, behind a feature that is off by default.
  \<^item> Hashing of ids into Rust's hash tables; the maps of the model compare keys by equality.
  \<^item> \<open>Debug\<close> output of structures, the texts of the errors of \<open>rust/crypto\<close> and \<open>fingerprint.rs\<close>, benchmarks and tests.
\<close>

text \<open>
  C1. Delivery between two applications: Alice has processed Bob's pre-key bundle, whose private
  keys Bob's store holds (opened); from there both applications call
  \<open>message_encrypt\<close> and \<open>message_decrypt\<close> on their stores whenever they
  like, and the network delivers in any order, loses messages and may hold them back
  (\<open>net_reachable\<close>). As long as each party sends at most
  \<open>MAX_MESSAGE_KEYS\<close> messages per ratchet key (the bound lim on counters),
  \<open>message_decrypt\<close> of every message in transit, pre-key message or signal message,
  returns the text that was encrypted, if its receiver chain was not evicted
  (\<open>nw_retained\<close>) and the post-quantum ratchet accepts it.
\<close>

theorem stores_deliver:
  assumes laws: "hash_lengths E" "cbc_ok E" "dh_ok E" "curve_lengths E" "rng_length E"
    and spqr: "spqr_channel E R" "spqr_linked E (\<lambda>s t. R s t {#} {#})"
    and start: "opened E at bundle sA sA1 kA sB"
    and run: "net_reachable E at lim (net_start sA1 sB [kA, esp_public_key (b_ec_signed_pre_key bundle)]) n"
    and lim: "unat lim \<le> MAX_MESSAGE_KEYS"
    and transit: "d \<in> set (nw_inbox n v)" "nw_retained (pc_message (snd d)) n"
    and recv: "ratchet_accepts E (at v) (nw_store n v) (sm_pq_ratchet (pc_message (snd d)))"
  shows "\<exists>s' r'. message_decrypt E (fst d) (at v) (nw_store n v, r) = (Ok (pc_text (snd d)), (s', r'))"

proof -
  obtain h st0 used ids where s: "answers E (at Bob) h st0 used sB" "ids Alice = pkm_identity_key h"
      "net_inv E R ids lim at h st0 sB n"
    by (rule opened_reachable [where R = R and at = at, OF laws spqr start run])
  show ?thesis by (rule net_inv_delivers [where at = at and ids = ids, OF laws spqr(1) s lim transit recv])
qed

theorem stores_deliver_witness:
  "\<exists>sA1 kA n d r ptext s' r'. opened sample_env sample_at sample_bundle sample_alice sA1 kA sample_bob \<and>
    net_reachable sample_env sample_at 2000 (sample_network sA1 kA) n \<and> nw_inbox n Bob = [d] \<and>
    message_decrypt sample_env (fst d) alice_address (nw_store n Bob, r) = (Ok ptext, (s', r')) \<and> (\<exists>s2 r2. message_decrypt sample_env (fst d) alice_address (nw_store n Bob, 7) = (Ok [104, 105], (s2, r2)))"
proof -
  obtain sA1 kA d n r ptext s' r' ks where run: "opened sample_env sample_at sample_bundle sample_alice sA1 kA sample_bob"
      "net_reachable sample_env sample_at 2000 (sample_network sA1 kA) n" "nw_inbox n Bob = [d]"
      "nw_retained (pc_message (snd d)) n" "pc_text (snd d) = [104, 105]"
      "message_decrypt sample_env (fst d) alice_address (nw_store n Bob, r) = (Ok ptext, (s', r'))"
      "ks = nw_keys_after (session_at alice_address (nw_store n Bob)) (pc_ratchet (snd d)) (session_at alice_address s') (nw_keys n)"
      "distinct ks" "nw_retained (pc_message (snd d)) (nw_fetch Bob s' [] ks n)"
    by (rule sample_network_received)
  have d: "d \<in> set (nw_inbox n Bob)" "nw_inbox n Bob = [] @ d # []" using run(3) by simp_all
  have dec: "message_decrypt sample_env (fst d) (sample_at Bob) (nw_store n Bob, r) = (Ok ptext, (s', r'))"
    using run(6) by simp
  note start = sample_laws(1) sample_cbc sample_laws(2-4) sample_spqr_channel run(1)
  have lim: "unat (2000 :: u32) \<le> MAX_MESSAGE_KEYS" by (simp add: MAX_MESSAGE_KEYS_def)
  have "\<exists>s2 r2. message_decrypt sample_env (fst d) (sample_at Bob) (nw_store n Bob, 7) = (Ok (pc_text (snd d)), (s2, r2))"
    by (rule stores_deliver [where R = sample_channel and at = sample_at, OF start run(2) lim d(1) run(4) sample_accepts])
  then have "\<exists>s2 r2. message_decrypt sample_env (fst d) alice_address (nw_store n Bob, 7) = (Ok [104, 105], (s2, r2))"
    by (simp add: run(5))
  then show ?thesis using run(1-3,6) by blast
qed

text \<open>
  C2. Integrity between two applications: Alice has processed Bob's pre-key bundle, whose private
  keys Bob's store holds (opened); from there both applications call
  \<open>message_encrypt\<close> and \<open>message_decrypt\<close> on their stores whenever they
  like, and the network delivers in any order, loses messages and may hold them back
  (\<open>net_reachable\<close>). Whatever \<open>message_decrypt\<close> returns for a message in
  transit (whose receiver chain was not evicted) is the text that was given to
  \<open>message_encrypt\<close> when it was sent.
\<close>

theorem stores_genuine:
  assumes laws: "hash_lengths E" "cbc_ok E" "dh_ok E" "curve_lengths E" "rng_length E"
    and spqr: "spqr_channel E R" "spqr_linked E (\<lambda>s t. R s t {#} {#})"
    and start: "opened E at bundle sA sA1 kA sB"
    and run: "net_reachable E at lim (net_start sA1 sB [kA, esp_public_key (b_ec_signed_pre_key bundle)]) n"
    and transit: "d \<in> set (nw_inbox n v)" "nw_retained (pc_message (snd d)) n"
    and dec: "message_decrypt E (fst d) (at v) (nw_store n v, r) = (Ok ptext, (s', r'))"
  shows "ptext = pc_text (snd d)"

proof -
  obtain h st0 used ids where s: "answers E (at Bob) h st0 used sB" "ids Alice = pkm_identity_key h"
      "net_inv E R ids lim at h st0 sB n"
    by (rule opened_reachable [where R = R and at = at, OF laws spqr start run])
  show ?thesis by (rule net_inv_reads [where at = at and ids = ids, OF laws spqr(1) s transit dec])
qed

theorem stores_genuine_witness:
  "\<exists>sA1 kA n d r ptext s' r'. opened sample_env sample_at sample_bundle sample_alice sA1 kA sample_bob \<and>
    net_reachable sample_env sample_at 2000 (sample_network sA1 kA) n \<and> nw_inbox n Bob = [d] \<and>
    message_decrypt sample_env (fst d) alice_address (nw_store n Bob, r) = (Ok ptext, (s', r')) \<and> ptext = [104, 105]"
proof -
  obtain sA1 kA d n r ptext s' r' ks where run: "opened sample_env sample_at sample_bundle sample_alice sA1 kA sample_bob"
      "net_reachable sample_env sample_at 2000 (sample_network sA1 kA) n" "nw_inbox n Bob = [d]"
      "nw_retained (pc_message (snd d)) n" "pc_text (snd d) = [104, 105]"
      "message_decrypt sample_env (fst d) alice_address (nw_store n Bob, r) = (Ok ptext, (s', r'))"
      "ks = nw_keys_after (session_at alice_address (nw_store n Bob)) (pc_ratchet (snd d)) (session_at alice_address s') (nw_keys n)"
      "distinct ks" "nw_retained (pc_message (snd d)) (nw_fetch Bob s' [] ks n)"
    by (rule sample_network_received)
  have d: "d \<in> set (nw_inbox n Bob)" "nw_inbox n Bob = [] @ d # []" using run(3) by simp_all
  have dec: "message_decrypt sample_env (fst d) (sample_at Bob) (nw_store n Bob, r) = (Ok ptext, (s', r'))"
    using run(6) by simp
  note start = sample_laws(1) sample_cbc sample_laws(2-4) sample_spqr_channel run(1)
  have "ptext = pc_text (snd d)"
    by (rule stores_genuine [where R = sample_channel and at = sample_at, OF start run(2) d(1) run(4) dec])
  then show ?thesis using run(1-3,5,6) by metis
qed

text \<open>
  C3. Replay protection between two applications: Alice has processed Bob's pre-key bundle, whose
  private keys Bob's store holds (opened); from there both applications call
  \<open>message_encrypt\<close> and \<open>message_decrypt\<close> on their stores whenever they
  like, and the network delivers in any order, loses messages and may hold them back
  (\<open>net_reachable\<close>). Once \<open>message_decrypt\<close> has accepted a message, then
  however long the conversation continues (n2), and as long as the receiver chain is still there,
  \<open>message_decrypt\<close> of the same message fails with DuplicatedMessage and its counter,
  and leaves the store and the random generator as they are. The hypothesis distinct ks says that
  a ratchet key generated by this call was not generated before.
\<close>

theorem stores_refuse_replays:
  assumes laws: "hash_lengths E" "cbc_ok E" "dh_ok E" "curve_lengths E" "rng_length E"
    and spqr: "spqr_channel E R" "spqr_linked E (\<lambda>s t. R s t {#} {#})"
    and start: "opened E at bundle sA sA1 kA sB"
    and run: "net_reachable E at lim (net_start sA1 sB [kA, esp_public_key (b_ec_signed_pre_key bundle)]) n"
    and transit: "nw_inbox n v = ds @ d # es" "nw_retained (pc_message (snd d)) n"
    and dec: "message_decrypt E (fst d) (at v) (nw_store n v, r) = (Ok ptext, (s', r'))"
    and ks: "ks = nw_keys_after (session_at (at v) (nw_store n v)) (pc_ratchet (snd d)) (session_at (at v) s') (nw_keys n)"
      "distinct ks"
    and later: "net_reachable E at lim (nw_fetch v s' (ds @ es) ks n) n2" "nw_retained (pc_message (snd d)) n2"
  shows "\<exists>i. message_decrypt E (fst d) (at v) (nw_store n2 v, r2) =
    (Err (DuplicatedMessage i (pc_counter (snd d))), (nw_store n2 v, r2))"

proof -
  obtain h st0 used ids where s: "answers E (at Bob) h st0 used sB" "ids Alice = pkm_identity_key h"
      "net_inv E R ids lim at h st0 sB n"
    by (rule opened_reachable [where R = R and at = at, OF laws spqr start run])
  show ?thesis by (rule net_inv_refuses_replay [where at = at and ids = ids, OF laws spqr(1) s transit dec ks later])
qed

theorem stores_refuse_replays_witness:
  "\<exists>sA1 kA n d r ptext s' r'. opened sample_env sample_at sample_bundle sample_alice sA1 kA sample_bob \<and>
    net_reachable sample_env sample_at 2000 (sample_network sA1 kA) n \<and> nw_inbox n Bob = [d] \<and>
    message_decrypt sample_env (fst d) alice_address (nw_store n Bob, r) = (Ok ptext, (s', r')) \<and> (\<exists>i. message_decrypt sample_env (fst d) alice_address (s', r') = (Err (DuplicatedMessage i (pc_counter (snd d))), (s', r')))"
proof -
  obtain sA1 kA d n r ptext s' r' ks where run: "opened sample_env sample_at sample_bundle sample_alice sA1 kA sample_bob"
      "net_reachable sample_env sample_at 2000 (sample_network sA1 kA) n" "nw_inbox n Bob = [d]"
      "nw_retained (pc_message (snd d)) n" "pc_text (snd d) = [104, 105]"
      "message_decrypt sample_env (fst d) alice_address (nw_store n Bob, r) = (Ok ptext, (s', r'))"
      "ks = nw_keys_after (session_at alice_address (nw_store n Bob)) (pc_ratchet (snd d)) (session_at alice_address s') (nw_keys n)"
      "distinct ks" "nw_retained (pc_message (snd d)) (nw_fetch Bob s' [] ks n)"
    by (rule sample_network_received)
  have d: "d \<in> set (nw_inbox n Bob)" "nw_inbox n Bob = [] @ d # []" using run(3) by simp_all
  have dec: "message_decrypt sample_env (fst d) (sample_at Bob) (nw_store n Bob, r) = (Ok ptext, (s', r'))"
    using run(6) by simp
  note start = sample_laws(1) sample_cbc sample_laws(2-4) sample_spqr_channel run(1)
  have ks: "ks = nw_keys_after (session_at (sample_at Bob) (nw_store n Bob)) (pc_ratchet (snd d)) (session_at (sample_at Bob) s') (nw_keys n)"
    using run(7) by simp
  let ?n2 = "nw_fetch Bob s' ([] @ []) ks n"
  have later: "net_reachable sample_env sample_at 2000 ?n2 ?n2" "nw_retained (pc_message (snd d)) ?n2"
    using run(9) by (simp_all add: net_reachable_def)
  have "\<exists>i. message_decrypt sample_env (fst d) (sample_at Bob) (nw_store ?n2 Bob, r') =
      (Err (DuplicatedMessage i (pc_counter (snd d))), (nw_store ?n2 Bob, r'))"
    by (rule stores_refuse_replays [where R = sample_channel and at = sample_at, OF start run(2) d(2) run(4) dec ks run(8) later])
  then have "\<exists>i. message_decrypt sample_env (fst d) alice_address (s', r') = (Err (DuplicatedMessage i (pc_counter (snd d))), (s', r'))"
    by simp
  then show ?thesis using run(1-3,6) by blast
qed

text \<open>
  C4. The two applications implement the conversation of Conversation.thy, where a party is one
  session state: Alice has processed Bob's pre-key bundle, whose private keys Bob's store holds
  (opened); from there both applications call \<open>message_encrypt\<close> and
  \<open>message_decrypt\<close> on their stores whenever they like, and the network delivers in
  any order, loses messages and may hold them back (\<open>net_reachable\<close>). Then some
  conversation that starts with the session Alice stored (stA) and the session that Bob's store
  makes of any of her pre-key messages (st0, with the opening h) reaches a state c that the stores
  represent: the current sessions in the stores are the states of c, with no older sessions beside
  them, the messages in transit carry those of c, and all pre-key messages among them open the
  same session.
\<close>

theorem stores_refine_conversation:
  assumes laws: "hash_lengths E" "cbc_ok E" "dh_ok E" "curve_lengths E" "rng_length E"
    and spqr: "spqr_channel E R" "spqr_linked E (\<lambda>s t. R s t {#} {#})"
    and start: "opened E at bundle sA sA1 kA sB"
    and run: "net_reachable E at lim (net_start sA1 sB [kA, esp_public_key (b_ec_signed_pre_key bundle)]) n"
  shows "\<exists>h st0 used ids stA c. answers E (at Bob) h st0 used sB \<and> session_at (at Alice) sA1 = Some stA \<and>
    conv_reachable E lim (conv_start stA st0 kA (esp_public_key (b_ec_signed_pre_key bundle))) c \<and>
    represents at h st0 sB ids n c"

  by (rule opened_simulated [where R = R and at = at, OF laws spqr start run]) blast

theorem stores_refine_conversation_witness:
  "\<exists>sA1 kA n d r ptext s' r'. opened sample_env sample_at sample_bundle sample_alice sA1 kA sample_bob \<and>
    net_reachable sample_env sample_at 2000 (sample_network sA1 kA) n \<and> nw_inbox n Bob = [d] \<and>
    message_decrypt sample_env (fst d) alice_address (nw_store n Bob, r) = (Ok ptext, (s', r')) \<and> (\<exists>h st0 used ids stA c. answers sample_env alice_address h st0 used sample_bob \<and>
      conv_reachable sample_env 2000 (conv_start stA st0 kA (esp_public_key (b_ec_signed_pre_key sample_bundle))) c \<and>
      represents sample_at h st0 sample_bob ids n c)"
proof -
  obtain sA1 kA d n r ptext s' r' ks where run: "opened sample_env sample_at sample_bundle sample_alice sA1 kA sample_bob"
      "net_reachable sample_env sample_at 2000 (sample_network sA1 kA) n" "nw_inbox n Bob = [d]"
      "nw_retained (pc_message (snd d)) n" "pc_text (snd d) = [104, 105]"
      "message_decrypt sample_env (fst d) alice_address (nw_store n Bob, r) = (Ok ptext, (s', r'))"
      "ks = nw_keys_after (session_at alice_address (nw_store n Bob)) (pc_ratchet (snd d)) (session_at alice_address s') (nw_keys n)"
      "distinct ks" "nw_retained (pc_message (snd d)) (nw_fetch Bob s' [] ks n)"
    by (rule sample_network_received)
  have d: "d \<in> set (nw_inbox n Bob)" "nw_inbox n Bob = [] @ d # []" using run(3) by simp_all
  have dec: "message_decrypt sample_env (fst d) (sample_at Bob) (nw_store n Bob, r) = (Ok ptext, (s', r'))"
    using run(6) by simp
  note start = sample_laws(1) sample_cbc sample_laws(2-4) sample_spqr_channel run(1)
  have "\<exists>h st0 used ids stA c. answers sample_env (sample_at Bob) h st0 used sample_bob \<and>
      session_at (sample_at Alice) sA1 = Some stA \<and>
      conv_reachable sample_env 2000 (conv_start stA st0 kA (esp_public_key (b_ec_signed_pre_key sample_bundle))) c \<and>
      represents sample_at h st0 sample_bob ids n c"
    by (rule stores_refine_conversation [where R = sample_channel and at = sample_at, OF start run(2)])
  then have "\<exists>h st0 used ids stA c. answers sample_env alice_address h st0 used sample_bob \<and>
      conv_reachable sample_env 2000 (conv_start stA st0 kA (esp_public_key (b_ec_signed_pre_key sample_bundle))) c \<and>
      represents sample_at h st0 sample_bob ids n c"
    unfolding sample_at_simps by blast
  then show ?thesis using run(1-3,6) by blast
qed

text \<open>
  C5. Session establishment end to end: when Alice's store trusts a pre-key bundle with valid
  signatures and Bob's store holds its private keys, has no session with Alice and has not seen a
  base key for these pre-keys, then \<open>process_prekey_bundle\<close> and
  \<open>message_encrypt\<close> succeed and yield a pre-key message, and
  \<open>message_decrypt\<close> on Bob's store returns Alice's plaintext; afterwards Bob has a
  session with Alice, her identity key is saved, the base key is on record and the one-time
  pre-key is gone.
\<close>

theorem conversation_first_message:
  assumes laws: "hash_lengths E" "dh_ok E" "curve_lengths E" "rng_length E" "cbc_ok E" "spqr_pairs E" "spqr_live E"
    and alice: "id_identity_key (get_identity_key_pair sA) = PrivateKey_public_key E (id_private_key (get_identity_key_pair sA))"
      "bundle_valid E b bundle sA" "is_canonical E (kp_public_key (fst (KeyPair_generate E r)))"
      "unacknowledged_too_old (secs_since_epoch now) now' = (Ok False :: (_, signal_error) result)"
    and bob: "serves_bundle E bundle spk kyber otk sB" "load_session a sB = None"
      "is_trusted_identity a (id_identity_key (get_identity_key_pair sA)) Receiving sB"
      "base_keys_seen (kpk_id (b_kyber_pre_key bundle)) (esp_id (b_ec_signed_pre_key bundle)) sB = []"
  shows "\<exists>sA1 r1 pm sA2 r2 sB' rB'.
    process_prekey_bundle E b bundle now (sA, r) = (Ok (), (sA1, r1)) \<and>
    message_encrypt E ptext b now' (sA1, r1) = (Ok (CPreKeySignalMessage pm), (sA2, r2)) \<and>
    message_decrypt E (CPreKeySignalMessage pm) a (sB, rB) = (Ok ptext, (sB', rB')) \<and>
    received_from a bundle pm sB'"
  by (rule conversation_starts [OF laws alice bob])

theorem conversation_first_message_witness:
  "\<exists>sA1 r1 pm sA2 r2 sB' rB'.
    process_prekey_bundle sample_env bob_address sample_bundle 1000000000 (sample_alice, 1) = (Ok (), (sA1, r1)) \<and>
    message_encrypt sample_env [104, 105] bob_address 2000000000 (sA1, r1) = (Ok (CPreKeySignalMessage pm), (sA2, r2)) \<and>
    message_decrypt sample_env (CPreKeySignalMessage pm) alice_address (sample_bob, 0) = (Ok [104, 105], (sB', rB')) \<and>
    received_from alice_address sample_bundle pm sB'"
  by (rule conversation_first_message [OF sample_laws sample_cbc sample_spqr(2,3) sample_start])

text \<open>
  C6. Replay protection of session-opening messages: once \<open>message_decrypt_prekey\<close>
  has returned a plaintext, delivering the same pre-key message again to the resulting store finds
  the session it opened and is refused with DuplicatedMessage, without changing the store.
\<close>

theorem prekey_message_replay_refused:
  assumes "codec_ok (session_codec E)" "hash_lengths E" "pkm_message_version pm \<in> {3, 4}"
    "public_key_ok (sm_sender_ratchet_key (pkm_message pm))" "sm_counter (pkm_message pm) \<noteq> - 1"
    "store_ok E s" "message_decrypt_prekey E pm a (s, r) = (Ok ptext, (s', r'))"
  shows "\<exists>n. message_decrypt_prekey E pm a (s', r2) =
    (Err (DuplicatedMessage n (sm_counter (pkm_message pm))), (s', r2))"
  using assms by (rule message_decrypt_prekey_replay)

theorem prekey_message_replay_refused_witness:
  "\<exists>pm s' r' n. message_decrypt_prekey sample_env pm alice_address (sample_bob, 0) = (Ok [104, 105], (s', r')) \<and>
     message_decrypt_prekey sample_env pm alice_address (s', 7) =
       (Err (DuplicatedMessage n (sm_counter (pkm_message pm))), (s', 7))"
proof -
  obtain pm s' r' where run: "pkm_message_version pm \<in> {3, 4}" "message_ok (pkm_message pm)"
      "sm_counter (pkm_message pm) = 0"
      "message_decrypt_prekey sample_env pm alice_address (sample_bob, 0) = (Ok [104, 105], (s', r'))"
    by (rule sample_prekey_run)
  then have "public_key_ok (sm_sender_ratchet_key (pkm_message pm))" "sm_counter (pkm_message pm) \<noteq> - 1"
    by (simp_all add: message_ok_def)
  then show ?thesis
    using prekey_message_replay_refused [OF sample_codecs(1) sample_lengths(1) run(1) _ _ sample_bob_ok(2) run(4), of 7]
      run(4) by blast
qed

text \<open>
  C7. Sealed sender end to end: under the conditions of session establishment, when Alice holds a
  sender certificate for her identity key that is valid under the trust root at the time of
  receipt and does not name the recipient itself, \<open>sealed_sender_encrypt\<close> of her
  first message succeeds, and \<open>sealed_sender_decrypt\<close> on Bob's store returns her
  plaintext together with the uuid, phone number and device of the certificate, and leaves Bob
  with the session that the unsealed exchange would have opened.
\<close>

theorem sealed_conversation_first_message:
  assumes laws: "hash_lengths E" "dh_ok E" "curve_lengths E" "rng_length E" "cbc_ok E" "spqr_pairs E" "spqr_live E"
    and seal: "keystream_length E" "codec_ok (signal_message_codec E)" "codec_ok (pre_key_signal_message_codec E)" "ss_codecs_ok P"
    and cert: "sender_certificate_ok E P cert" "sec_key cert = id_identity_key (get_identity_key_pair sA)"
      "SenderCertificate_validate E P cert root t = Ok True" "\<not> is_self_send cert e164 uuid dev"
      "a = ProtocolAddress_new (sec_sender_uuid cert) (sec_sender_device_id cert)"
    and alice: "id_identity_key (get_identity_key_pair sA) = PrivateKey_public_key E (id_private_key (get_identity_key_pair sA))"
      "bundle_valid E b bundle sA" "is_canonical E (kp_public_key (fst (KeyPair_generate E r)))"
      "unacknowledged_too_old (secs_since_epoch now) now' = (Ok False :: (_, signal_error) result)"
    and bob: "serves_bundle E bundle spk kyber otk sB" "load_session a sB = None"
      "is_trusted_identity a (id_identity_key (get_identity_key_pair sA)) Receiving sB"
      "base_keys_seen (kpk_id (b_kyber_pre_key bundle)) (esp_id (b_ec_signed_pre_key bundle)) sB = []"
  shows "\<exists>sA1 r1 bs w pm sB' rB'.
    process_prekey_bundle E b bundle now (sA, r) = (Ok (), (sA1, r1)) \<and>
    sealed_sender_encrypt E P b cert ptext now' (sA1, r1) = (Ok bs, w) \<and>
    sealed_sender_decrypt E P bs root t e164 uuid dev (sB, rB) =
      (Ok \<lparr>sdr_sender_uuid = sec_sender_uuid cert, sdr_sender_e164 = sec_sender_e164 cert,
           sdr_device_id = sec_sender_device_id cert, sdr_message = ptext\<rparr>, (sB', rB')) \<and>
    received_from a bundle pm sB'"
  by (rule sealed_conversation_starts [OF laws seal cert alice bob])

theorem sealed_conversation_first_message_witness:
  "\<exists>sA1 r1 bs w pm sB' rB'.
    process_prekey_bundle sample_env bob_address sample_bundle 1000000000 (sample_alice, 1) = (Ok (), (sA1, r1)) \<and>
    sealed_sender_encrypt sample_env sample_ss bob_address sample_certificate [104, 105] 2000000000 (sA1, r1) = (Ok bs, w) \<and>
    sealed_sender_decrypt sample_env sample_ss bs (kp_public_key (sample_pair 9)) 500 None ''bob'' (DeviceId 1) (sample_bob, 0) =
      (Ok \<lparr>sdr_sender_uuid = sec_sender_uuid sample_certificate, sdr_sender_e164 = sec_sender_e164 sample_certificate,
           sdr_device_id = sec_sender_device_id sample_certificate, sdr_message = [104, 105]\<rparr>, (sB', rB')) \<and>
    received_from alice_address sample_bundle pm sB'"
proof -
  have valid: "SenderCertificate_validate sample_env sample_ss sample_certificate (kp_public_key (sample_pair 9)) 500 = Ok True"
    by (simp add: sample_certificate_valid)
  have key: "sec_key sample_certificate = id_identity_key (get_identity_key_pair sample_alice)"
    by (simp only: sample_certificate_fields sample_stores)
  show ?thesis
    by (rule sealed_conversation_first_message [OF sample_laws sample_cbc sample_spqr(2,3) sample_lengths(2)
        sample_codecs(7,8) sample_ss_codecs sample_certificate_ok key valid sample_not_self sample_sender sample_start])
qed

text \<open>
  C8. Sealed sender accepts only certified senders: when \<open>sealed_sender_decrypt\<close>
  returns a result, the certificate inside the message is signed by a server certificate that is
  not revoked and is itself signed by the trust root, it has not expired, it does not name the
  local device, its key is the key the outer message was sealed with (the static key that opens a
  v1 message, the key of the authentication tag of a v2 message), and the result carries the uuid,
  number and device of that certificate. When no such sender can be established the call reports
  an error and leaves stores and generator as they were.
\<close>

theorem sealed_sender_authenticated:
  "(sealed_sender_decrypt E P ct root t e164 uuid dev w = (Ok res, w') \<longrightarrow>
     (\<exists>u m signer. sealed_sender_decrypt_to_usmc E P ct (fst w) = Ok u \<and>
       UnidentifiedSenderMessage_deserialize P ct = Ok m \<and>
       sealed_with_key E (get_identity_key_pair (fst w)) (sec_key (uc_sender u)) m \<and>
       SenderCertificate_signer P (uc_sender u) = Ok signer \<and> svc_key_id signer \<notin> set REVOKED_SERVER_CERTIFICATE_KEY_IDS \<and>
       verify_signature E root (svc_certificate signer) (svc_signature signer) \<and>
       verify_signature E (svc_key signer) (sec_certificate (uc_sender u)) (sec_signature (uc_sender u)) \<and>
       t \<le> sec_expiration (uc_sender u) \<and> \<not> is_self_send (uc_sender u) e164 uuid dev \<and>
       sdr_sender_uuid res = sec_sender_uuid (uc_sender u) \<and> sdr_sender_e164 res = sec_sender_e164 (uc_sender u) \<and>
       sdr_device_id res = sec_sender_device_id (uc_sender u))) \<and>
   ((\<forall>u. sealed_sender_decrypt_to_usmc E P ct (fst w) = Ok u \<longrightarrow>
       SenderCertificate_validate E P (uc_sender u) root t \<noteq> Ok True \<or> is_self_send (uc_sender u) e164 uuid dev) \<longrightarrow>
     \<not> is_ok (fst (sealed_sender_decrypt E P ct root t e164 uuid dev w)) \<and>
     snd (sealed_sender_decrypt E P ct root t e164 uuid dev w) = w)"
proof (intro conjI impI)
  assume "sealed_sender_decrypt E P ct root t e164 uuid dev w = (Ok res, w')"
  then show "\<exists>u m signer. sealed_sender_decrypt_to_usmc E P ct (fst w) = Ok u \<and>
       UnidentifiedSenderMessage_deserialize P ct = Ok m \<and>
       sealed_with_key E (get_identity_key_pair (fst w)) (sec_key (uc_sender u)) m \<and>
       SenderCertificate_signer P (uc_sender u) = Ok signer \<and> svc_key_id signer \<notin> set REVOKED_SERVER_CERTIFICATE_KEY_IDS \<and>
       verify_signature E root (svc_certificate signer) (svc_signature signer) \<and>
       verify_signature E (svc_key signer) (sec_certificate (uc_sender u)) (sec_signature (uc_sender u)) \<and>
       t \<le> sec_expiration (uc_sender u) \<and> \<not> is_self_send (uc_sender u) e164 uuid dev \<and>
       sdr_sender_uuid res = sec_sender_uuid (uc_sender u) \<and> sdr_sender_e164 res = sec_sender_e164 (uc_sender u) \<and>
       sdr_device_id res = sec_sender_device_id (uc_sender u)"
  proof (cases rule: sealed_sender_decrypt_cases)
    case (1 u)
    obtain signer where "SenderCertificate_signer P (uc_sender u) = Ok signer"
        "svc_key_id signer \<notin> set REVOKED_SERVER_CERTIFICATE_KEY_IDS"
        "verify_signature E root (svc_certificate signer) (svc_signature signer)"
        "verify_signature E (svc_key signer) (sec_certificate (uc_sender u)) (sec_signature (uc_sender u))"
        "t \<le> sec_expiration (uc_sender u)"
      using 1(2) unfolding SenderCertificate_validate_def validate_with_trust_roots_iff by auto
    then show ?thesis using 1(1,3-6) decrypt_to_usmc_sender [OF 1(1)] by blast
  qed
qed (use sealed_sender_decrypt_invalid in blast)+

theorem sealed_sender_authenticated_witness:
  "\<exists>ct res w' u. sealed_sender_decrypt sample_env sample_ss ct (kp_public_key (sample_pair 9)) 500 None ''bob'' (DeviceId 1)
      (sample_bob, 0) = (Ok res, w') \<and> sdr_sender_uuid res = ''alice'' \<and>
    sealed_sender_decrypt_to_usmc sample_env sample_ss ct sample_bob = Ok u \<and>
    500 \<le> sec_expiration (uc_sender u) \<and> sec_sender_uuid (uc_sender u) = ''alice'' \<and>
    snd (sealed_sender_decrypt sample_env sample_ss [] (kp_public_key (sample_pair 9)) 500 None ''bob'' (DeviceId 1)
      (sample_bob, 0)) = (sample_bob, 0)"
proof -
  obtain ct res w' where run: "sealed_sender_decrypt sample_env sample_ss ct (kp_public_key (sample_pair 9)) 500 None ''bob''
      (DeviceId 1) (sample_bob, 0) = (Ok res, w')" "sdr_sender_uuid res = ''alice''"
    by (rule sample_sealed_run)
  have "sealed_sender_decrypt_to_usmc sample_env sample_ss [] sample_bob \<noteq> Ok u" for u
    by (simp add: sealed_sender_decrypt_to_usmc_def UnidentifiedSenderMessage_deserialize_def Let_def)
  then have "snd (sealed_sender_decrypt sample_env sample_ss [] (kp_public_key (sample_pair 9)) 500 None ''bob'' (DeviceId 1)
      (sample_bob, 0)) = (sample_bob, 0)"
    using conjunct2 [OF sealed_sender_authenticated [of sample_env sample_ss "[]"]] by simp
  moreover obtain u where "sealed_sender_decrypt_to_usmc sample_env sample_ss ct sample_bob = Ok u"
      "500 \<le> sec_expiration (uc_sender u)" "sdr_sender_uuid res = sec_sender_uuid (uc_sender u)"
    using conjunct1 [OF sealed_sender_authenticated] run(1) by fastforce
  ultimately show ?thesis using run by metis
qed

text \<open>
  C9. Group messaging end to end: a sender without a sender key creates a distribution message and
  encrypts up to \<open>MAX_MESSAGE_KEYS\<close> plaintexts, all calls succeed, and a member that
  processes the distribution message decrypts any selection of these messages in any order to
  their plaintexts.
\<close>

theorem group_messages_in_any_order:
  assumes "hash_lengths E" "cbc_ok E" "xeddsa_ok E" "dh_ok E" "curve_lengths E" "rng_length E"
      "codec_ok (sender_key_message_codec E)" "length d = 16"
    and "load_sender_key a d s = None" "length ps \<le> MAX_MESSAGE_KEYS"
    and "load_sender_key a d sB = None" "distinct js" "set js \<subseteq> {..<length ps}"
  shows "\<exists>skdm w ms w' s'. create_sender_key_distribution_message E a d (s, r) = (Ok skdm, w) \<and>
    group_encrypt_all E a d ps w = (Ok ms, w') \<and>
    group_decrypt_all E a (map (\<lambda>j. skm_serialized (ms ! j)) js)
      (process_sender_key_distribution_message a skdm sB) = (Ok (map ((!) ps) js), s')"
  using assms by (rule group_conversation)

theorem group_messages_in_any_order_witness:
  "\<exists>skdm w ms w' s'. create_sender_key_distribution_message sample_env alice_address (replicate 16 1) (sample_alice, 1) =
      (Ok skdm, w) \<and>
    group_encrypt_all sample_env alice_address (replicate 16 1) [[1], [2], [3]] w = (Ok ms, w') \<and>
    group_decrypt_all sample_env alice_address (map (\<lambda>j. skm_serialized (ms ! j)) [2, 0, 1])
      (process_sender_key_distribution_message alice_address skdm sample_bob) = (Ok [[3], [1], [2]], s')"
proof -
  have none: "load_sender_key alice_address (replicate 16 1) sample_alice = None"
    "load_sender_key alice_address (replicate 16 1) sample_bob = None"
    by (rule sample_no_sender_keys)+
  have sizes: "length (replicate 16 1 :: uuid) = 16" "length [[1], [2], [3] :: bytes] \<le> MAX_MESSAGE_KEYS"
    "distinct [2, 0, 1 :: nat]" "set [2, 0, 1] \<subseteq> {..<length [[1], [2], [3] :: bytes]}"
    by (simp_all add: MAX_MESSAGE_KEYS_def)
  show ?thesis
    using group_messages_in_any_order [OF sample_lengths(1) sample_cbc sample_xeddsa sample_dh sample_lengths(3,4)
        sample_codecs(9) sizes(1) none(1) sizes(2) none(2) sizes(3,4), of 1]
    by (simp add: numeral_2_eq_2)
qed

text \<open>
  C10. Replay protection of group messages: once \<open>group_decrypt\<close> has returned a
  plaintext for some bytes from a sender, the same bytes are refused as DuplicatedMessage by the
  resulting store, which stays as it is.
\<close>

theorem group_message_replay_refused:
  assumes "group_store_ok s" "group_decrypt E bs sender s = (Ok ptext, s')"
  shows "\<exists>i n. group_decrypt E bs sender s' = (Err (DuplicatedMessage i n), s')"
  using assms by (rule group_decrypt_replay)

theorem group_message_replay_refused_witness:
  "\<exists>bs s s' i n. group_decrypt sample_env bs alice_address s = (Ok [1], s') \<and>
     group_decrypt sample_env bs alice_address s' = (Err (DuplicatedMessage i n), s')"
proof -
  obtain bs s s' where "group_store_ok s" "group_decrypt sample_env bs alice_address s = (Ok [1], s')"
    by (rule sample_group_run)
  then show ?thesis using group_message_replay_refused [of s sample_env bs alice_address "[1]" s'] by blast
qed

text \<open>
  C11. State invariant over all histories: from a fresh in-memory store, whatever sequence of
  library calls a client makes (sending, receiving and failing in sessions and groups, pre-key
  bundles, key publication, sealed sender to one and several recipients, sessions initialized from
  a sealed handshake), every stored session record has the shape the ratchet relies on: 32-byte
  root and chain keys, at most \<open>MAX_RECEIVER_CHAINS\<close> chains with distinct ratchet
  keys, at most \<open>MAX_MESSAGE_KEYS\<close> skipped keys per chain, all seeds, a readable
  sender ratchet key, at most \<open>ARCHIVED_STATES_MAX_LENGTH\<close> archived sessions, each of
  this shape. Every sender key record is well-formed. The counters of received messages lie in a
  set C left open, which may be all of u32, so no message is excluded. Over histories whose C
  excludes u32::MAX, where the index of a chain wraps (C35), the skipped keys of each chain also
  have distinct counters below its chain key.
\<close>

theorem reachable_stores_are_healthy:
  assumes "env_ok E" "app_reachable E P C (InMemSignalProtocolStore_new kp i, r) w"
  shows "stores_sound E (fst w) \<and> ((\<forall>n. C n \<longrightarrow> n \<noteq> - 1) \<longrightarrow> stores_healthy E (fst w))"
  using app_reachable_sound [OF assms] app_reachable_healthy [OF assms] by (simp add: stores_inv_new)

theorem reachable_stores_are_healthy_witness:
  "\<exists>pm s' r'. message_decrypt sample_env (CPreKeySignalMessage pm) alice_address (sample_bob, 0) =
      (Ok [104, 105], (s', r')) \<and> stores_sound sample_env s' \<and> stores_healthy sample_env s'"
proof -
  obtain pm s' r' where run: "message_decrypt sample_env (CPreKeySignalMessage pm) alice_address (sample_bob, 0) =
      (Ok [104, 105], (s', r'))"
    "reachable sample_env (\<lambda>n. n \<noteq> - 1) (InMemSignalProtocolStore_new (sample_identity 3) 18, 0) (s', r')"
    by (rule sample_prekey_reachable)
  then show ?thesis using reachable_stores_are_healthy [OF sample_env_ok reachable_app_reachable [OF run(2), of sample_ss]] by auto
qed

text \<open>
  C12. In every store that a client can reach from a fresh one, by any history of library calls
  and received messages (the counter u32::MAX included, since C may be all of u32), delivering any
  parsed signal message, whatever its counter, returns a value or an error: none of the expects,
  unwraps and slice operations on the receiving path panics. Machine integers wrap, as in builds
  without overflow checks; C35 states the one addition on this path that does.
\<close>

theorem receiving_never_panics:
  assumes "env_ok E" "app_reachable E P C (InMemSignalProtocolStore_new kp i, r) (s, r1)"
    "SignalMessage_try_from E bs = Ok m"
  shows "fst (message_decrypt E (CSignalMessage m) a (s, r1)) \<noteq> Panic"
proof -
  have "stores_sound E s" using app_reachable_sound [OF assms(1,2)] by (simp add: stores_inv_new)
  then show ?thesis
    using message_decrypt_signal_no_panic [OF env_okD(5) [OF assms(1)] message_ok_parsed [OF assms(3)]]
    by (simp add: message_decrypt_def stores_inv_def)
qed

theorem receiving_never_panics_witness:
  "\<exists>pm s' r' m. message_decrypt sample_env (CPreKeySignalMessage pm) alice_address (sample_bob, 0) =
      (Ok [104, 105], (s', r')) \<and> sm_counter m = - 1 \<and>
      fst (message_decrypt sample_env (CSignalMessage m) alice_address (s', r')) \<noteq> Panic"
proof -
  obtain pm s' r' where run: "message_decrypt sample_env (CPreKeySignalMessage pm) alice_address (sample_bob, 0) =
      (Ok [104, 105], (s', r'))"
    "reachable sample_env (\<lambda>n. n \<noteq> - 1) (InMemSignalProtocolStore_new (sample_identity 3) 18, 0) (s', r')"
    by (rule sample_prekey_reachable)
  obtain m where m: "SignalMessage_try_from sample_env (sm_serialized m) = Ok m" "sm_counter m = - 1"
    by (rule sample_message_at [of "- 1"])
  show ?thesis
    using receiving_never_panics [OF sample_env_ok reachable_app_reachable [OF run(2), of sample_ss] m(1), of alice_address] run(1) m(2) by blast
qed

text \<open>
  C13. The receiving ratchet picks the right key: on a well-formed session whose receiver chain
  tracks a chain of message keys started at ck0, whenever \<open>get_or_create_message_key\<close>
  returns a key for counter n, it is the n-th message key of that chain, whatever was delivered
  before; the chain still tracks ck0, the session stays well-formed, counter n is used up and used
  counters stay used.
\<close>

theorem message_key_of_counter:
  assumes "session_ok st" "public_key_ok te" "hash_lengths E"
    "get_receiver_chain st te = Ok (Some (c, i))" "c_chain_key c = Some (to_pb_chain_key ck)"
    "chain_tracks E ck0 c" "n \<noteq> - 1"
    "get_or_create_message_key E st te t ck n = Ok (g, st')"
  shows "g = chain_message_keys E (nth_chain_key E ck0 n) \<and> session_ok st' \<and>
    (\<exists>c'. get_receiver_chain st' te = Ok (Some (c', i)) \<and> chain_tracks E ck0 c' \<and> consumed c' n \<and>
       (\<forall>j. consumed c j \<longrightarrow> consumed c' j))"
  using assms(1-5,8,7) by (rule get_or_create_message_key_step) (use assms(6) in blast)

theorem message_key_of_counter_witness:
  "\<exists>st te c i ck g st'. get_receiver_chain st te = Ok (Some (c, i)) \<and> c_chain_key c = Some (to_pb_chain_key ck) \<and>
     get_or_create_message_key sample_env st te Whisper ck 3 = Ok (g, st') \<and>
     g = chain_message_keys sample_env (nth_chain_key sample_env ck 3)"
proof -
  obtain st te c i ck g st' where x: "session_ok st" "public_key_ok te" "get_receiver_chain st te = Ok (Some (c, i))"
      "c_chain_key c = Some (to_pb_chain_key ck)" "chain_tracks sample_env ck c"
      "get_or_create_message_key sample_env st te Whisper ck 3 = Ok (g, st')"
    by (rule sample_receiver_chain)
  have "(3 :: u32) \<noteq> - 1" by simp
  then show ?thesis
    using message_key_of_counter [OF x(1,2) sample_lengths(1) x(3-5) _ x(6)] x(3,4,6) by blast
qed

text \<open>
  C14. The forward-jump bound: in a session with another user, a message whose counter lies more
  than \<open>MAX_FORWARD_JUMPS\<close> ahead of the receiver chain is refused before any key is
  derived.
\<close>

theorem message_far_ahead_refused:
  assumes "chain_key_index ck \<le> n" "MAX_FORWARD_JUMPS < unat n - unat (chain_key_index ck)"
    "session_with_self st = Ok False"
  shows "get_or_create_message_key E st te t ck n =
    Err (InvalidMessage t ''message from too far into the future'')"
  using assms by (rule get_or_create_message_key_too_far)

theorem message_far_ahead_refused_witness:
  "get_or_create_message_key sample_env sample_session (kp_public_key (sample_pair 1)) Whisper
     \<lparr>chain_key_key = replicate 32 0, chain_key_index = 7\<rparr> 25008 =
       Err (InvalidMessage Whisper ''message from too far into the future'')"
  by (rule message_far_ahead_refused [OF _ _ sample_two_parties]) (simp_all add: MAX_FORWARD_JUMPS_def)

text \<open>
  C15. Sealed sender v2 end to end: for any number of threads,
  \<open>sealed_sender_multi_recipient_encrypt\<close> to recipients whose identities and sessions
  are known succeeds, the server's SealedSenderV2SentMessage::parse of the result lists exactly
  the recipients in order and the excluded ids without devices, gives every recipient its devices
  with their registration ids, and the ReceivedMessage assembled for a recipient is decrypted by
  whoever holds that recipient's identity key to the very content that was sealed.
\<close>

theorem multi_recipient_message_delivered:
  assumes laws: "hash_lengths E" "curve_lengths E" "rng_length E" "dh_ok E" "uuid_text_ok E" "gcm_siv_ok P" "delimiter_ok P"
    and alice: "identity_consistent E (get_identity_key_pair s)" "usmc_ok E P u"
      "sec_key (uc_sender u) = id_identity_key (get_identity_key_pair s)" "\<And>k n. gcm_siv_encrypt P k n [] (uc_serialized u) \<noteq> None"
    and rcpt: "\<forall>x \<in> set rs. recipient_ok E s ident x" "\<forall>i \<in> set excluded. length (raw_uuid i) = 16"
      "distinct (map fst rs @ excluded)" "length rs + length excluded < 2 ^ 32"
  shows "\<exists>bs w' msg. sealed_sender_multi_recipient_encrypt E P n (v2_destinations E rs) (v2_sessions rs) excluded u (s, r) =
      (Ok bs, w') \<and> SentMessage_parse P bs = Ok msg \<and> v2_message_opens E P rs excluded ident u msg"
  by (rule multi_recipient_delivery [OF laws alice rcpt])

theorem multi_recipient_message_delivered_witness:
  "\<exists>bs w' msg. sealed_sender_multi_recipient_encrypt sample_env sample_ss 4 (v2_destinations sample_env sample_recipients)
      (v2_sessions sample_recipients) [Pni (replicate 16 9)] sample_content (sample_v2_store, 0) = (Ok bs, w') \<and>
    SentMessage_parse sample_ss bs = Ok msg \<and>
    v2_message_opens sample_env sample_ss sample_recipients [Pni (replicate 16 9)] (\<lambda>_. id_identity_key (sample_identity 3))
      sample_content msg"
proof (rule multi_recipient_message_delivered [OF sample_lengths(1,3,4) sample_dh sample_uuid sample_ss_laws(1,2)])
  show "identity_consistent sample_env (get_identity_key_pair sample_v2_store)"
    by (simp only: sample_v2_identity sample_consistent)
  show "sec_key (uc_sender sample_content) = id_identity_key (get_identity_key_pair sample_v2_store)"
    by (simp only: sample_content_ok(2) sample_certificate_fields sample_v2_identity)
qed (rule sample_content_ok(1) sample_ss_laws(3) sample_recipients_ok | simp add: sample_recipients_def)+

text \<open>
  C16. Authentication of signal messages: with a 32-byte MAC key, \<open>verify_mac\<close>
  accepts exactly the messages whose last 8 bytes are the truncated HMAC-SHA256 over the sender's
  identity key, the receiver's identity key and the rest of the message, in this order.
\<close>

theorem signal_message_authenticated:
  assumes "length k = 32" "SIGNAL_MAC_LENGTH \<le> length (sm_serialized m)"
  shows "SignalMessage_verify_mac E m a b k = Ok True \<longleftrightarrow>
    (\<exists>body mac. sm_serialized m = body @ mac \<and> length mac = SIGNAL_MAC_LENGTH \<and>
       mac = take SIGNAL_MAC_LENGTH (hmac_sha256 E k (IdentityKey_serialize a @ IdentityKey_serialize b @ body)))"
proof -
  have "SignalMessage_compute_mac E a b k body =
      Ok (take SIGNAL_MAC_LENGTH (hmac_sha256 E k (IdentityKey_serialize a @ IdentityKey_serialize b @ body)))" for body
    using assms(1) by (simp add: SignalMessage_compute_mac_def hmac_sha256_def IdentityKey_serialize_def)
  then show ?thesis using verify_mac_iff [OF assms, of E a b] by auto
qed

theorem signal_message_authenticated_witness:
  "\<exists>m. \<not> SignalMessage_verify_mac sample_env m (kp_public_key (sample_pair 1)) (kp_public_key (sample_pair 2))
     (replicate 32 5) = Ok True \<and> sm_serialized m = replicate 20 1"
proof -
  let ?m = "\<lparr>sm_message_version = 4, sm_sender_ratchet_key = kp_public_key (sample_pair 1), sm_counter = 0,
      sm_previous_counter = 0, sm_ciphertext = [], sm_pq_ratchet = [], sm_serialized = replicate 20 1\<rparr>"
  have "take 8 (hmac_sha256 sample_env (replicate 32 5) (x @ y @ replicate 12 1)) \<noteq> replicate 8 1"
    if "x = IdentityKey_serialize (kp_public_key (sample_pair 1))" "y = IdentityKey_serialize (kp_public_key (sample_pair 2))"
    for x y
    using that by (simp add: hmac_sha256_def sample_env_def IdentityKey_serialize_def PublicKey_serialize_def
        sample_pair_def sum_list_replicate KeyType_value_def PublicKey_key_type_def)
  moreover have "body = replicate 12 1 \<and> mac = replicate 8 1"
    if "replicate 20 1 = body @ mac" "length mac = SIGNAL_MAC_LENGTH" for body mac :: bytes
  proof -
    have "length body = 12" using arg_cong [OF that(1), of length] that(2) by (simp add: SIGNAL_MAC_LENGTH_def)
    then show ?thesis
      using arg_cong [OF that(1), of "take 12"] arg_cong [OF that(1), of "drop 12"] by simp
  qed
  ultimately have "\<not> SignalMessage_verify_mac sample_env ?m (kp_public_key (sample_pair 1)) (kp_public_key (sample_pair 2))
     (replicate 32 5) = Ok True"
    using signal_message_authenticated [of "replicate 32 5" ?m sample_env]
    by (fastforce simp: SIGNAL_MAC_LENGTH_def)
  then show ?thesis by (intro exI [of _ ?m]) simp
qed

text \<open>
  C17. What the server may rely on after SealedSenderV2SentMessage::parse accepted arbitrary
  bytes: recipients are distinct, device ids and registration ids are in range, the range reported
  for a recipient's key material lies within the message, holds exactly its 48 bytes (none for an
  excluded recipient), the offset of the shared bytes leaves room for the public key, neither
  lookup panics, and the message assembled for the recipient consists of the version byte, the
  bytes of that range and the bytes from that offset on.
\<close>

theorem sent_message_layout:
  assumes "SentMessage_parse P bs = Ok m" "(i, x) \<in> set (snm_recipients m)"
  shows "distinct (map fst (snm_recipients m)) \<and> devices_wf (srp_devices x) \<and>
    (\<exists>a b k. range_for_recipient_key_material m x = Ok (a, b) \<and> a \<le> b \<and> b \<le> length bs \<and>
      b - a = (if srp_devices x = [] then 0 else 48) \<and>
      offset_of_shared_bytes m = Ok k \<and> k + 32 \<le> length bs \<and>
      concat (received_message_parts_for_recipient m x) =
        SEALED_SENDER_V2_UUID_FULL_VERSION # take (b - a) (drop a bs) @ drop k bs)"
  using sent_message_ranges [OF assms] SentMessage_parse_wf [OF assms(1)] assms(2) unfolding recipient_wf_def by fastforce

theorem sent_message_layout_witness:
  "\<exists>bs m i x a b. SentMessage_parse sample_ss bs = Ok m \<and> (i, x) \<in> set (snm_recipients m) \<and> srp_devices x \<noteq> [] \<and>
     range_for_recipient_key_material m x = Ok (a, b) \<and> b = a + 48 \<and> b \<le> length bs"
proof -
  obtain bs m i x where p: "SentMessage_parse sample_ss bs = Ok m" "(i, x) \<in> set (snm_recipients m)" "srp_devices x \<noteq> []"
    by (rule sample_sent_message)
  then obtain a b where "range_for_recipient_key_material m x = Ok (a, b)" "a \<le> b" "b \<le> length bs" "b - a = 48"
    using sent_message_layout [OF p(1,2)] by auto
  moreover from this have "b = a + 48" by simp
  ultimately show ?thesis using p by blast
qed

text \<open>
  C18. Fanning the recipients of a v2 message out over threads changes nothing: whatever number of
  threads the machine reports, \<open>process_recipients\<close> returns the bytes, or the first
  error in recipient order, of processing all recipients one after another.
\<close>

theorem fan_out_is_sequential:
  assumes "\<forall>(k, i, j) \<in> set rs. i < j \<and> j \<le> length ds" "length ss = length ds"
  shows "process_recipients E n c ds ss x rs = process_chunk E c ds ss x rs"
  using assms by (rule process_recipients_sequential)

theorem fan_out_is_sequential_witness:
  "process_recipients sample_env 4 \<lparr>v2_identity = sample_identity 2, v2_e = sample_pair 5, v2_m = replicate 32 1\<rparr>
      (v2_destinations sample_env sample_recipients) (v2_sessions sample_recipients) [35]
      (replicate 30 (id_identity_key (sample_identity 3), 0, 2)) =
    process_chunk sample_env \<lparr>v2_identity = sample_identity 2, v2_e = sample_pair 5, v2_m = replicate 32 1\<rparr>
      (v2_destinations sample_env sample_recipients) (v2_sessions sample_recipients) [35]
      (replicate 30 (id_identity_key (sample_identity 3), 0, 2))"
  by (rule fan_out_is_sequential)
    (simp_all add: v2_destinations_def v2_sessions_def addresses_of_def sample_recipients_def)

text \<open>
  C19. Sealed PQXDH end to end: when Alice's certificate is well formed and carries her identity
  key and Bob's store holds the private keys of the bundle, spqxdh send succeeds, Bob's recv of
  the serialized message returns her certificate, registration id, message type and content hint
  with the same session key, and from that key both sides initialize sessions in which
  \<open>message_encrypt\<close> of Alice and \<open>message_decrypt_signal\<close> of Bob deliver
  her first plaintext as an ordinary message.
\<close>

theorem sealed_pqxdh_conversation:
  assumes laws: "hash_lengths E" "dh_ok E" "curve_lengths E" "rng_length E" "keystream_length E"
      "codec_ok (sealed_pqxdh_codec E)" "cbc_ok E" "spqr_pairs E" "spqr_live E"
    and alice: "identity_consistent E (get_identity_key_pair sA)" "sender_certificate_ok E P cert"
      "sec_key cert = id_identity_key (get_identity_key_pair sA)" "hint_fits hint"
      "is_trusted_identity b (b_identity_key bundle) Sending sA"
    and bob: "serves_bundle E bundle spk kyber otk sB" "is_trusted_identity a (sec_key cert) Receiving sB"
  shows "\<exists>data key r1 eph recA r2 recB m wA wB.
    spqxdh_send E bundle cert regA t hint sA r = (Ok (data, key), r1) \<and>
    PublicKey_deserialize (sx_ec_ephemeral (sxd_msg data)) = Ok eph \<and>
    spqxdh_initialize_alice_session E key (esp_public_key (b_ec_signed_pre_key bundle)) (sec_key cert) (b_identity_key bundle)
      eph regA regB r1 = (Ok recA, r2) \<and>
    spqxdh_recv E P (SealedPQXDHMessageData_serialize E data) sB =
      Ok \<lparr>rr_sender_certificate = cert, rr_registration_id = regA, rr_msg_type = t, rr_content_hint = hint,
          rr_session_key = key\<rparr> \<and>
    spqxdh_initialize_bob_session E key eph (id_identity_key (get_identity_key_pair sB)) (sec_key cert) spk regB regA = Ok recB \<and>
    message_encrypt E ptext b now (store_session b recA sA, r2) = (Ok (CSignalMessage m), wA) \<and>
    message_decrypt_signal E m a (store_session a recB sB, rB) = (Ok ptext, wB)"
  by (rule spqxdh_conversation_starts [OF laws alice bob])

theorem sealed_pqxdh_conversation_witness:
  "\<exists>data key r1 eph recA r2 recB m wA wB.
    spqxdh_send sample_env sample_bundle sample_certificate 17 Whisper HintDefault sample_alice 1 = (Ok (data, key), r1) \<and>
    PublicKey_deserialize (sx_ec_ephemeral (sxd_msg data)) = Ok eph \<and>
    spqxdh_initialize_alice_session sample_env key (esp_public_key (b_ec_signed_pre_key sample_bundle)) (sec_key sample_certificate)
      (b_identity_key sample_bundle) eph 17 18 r1 = (Ok recA, r2) \<and>
    spqxdh_recv sample_env sample_ss (SealedPQXDHMessageData_serialize sample_env data) sample_bob =
      Ok \<lparr>rr_sender_certificate = sample_certificate, rr_registration_id = 17, rr_msg_type = Whisper, rr_content_hint = HintDefault,
          rr_session_key = key\<rparr> \<and>
    spqxdh_initialize_bob_session sample_env key eph (id_identity_key (get_identity_key_pair sample_bob)) (sec_key sample_certificate)
      (sample_pair 4) 18 17 = Ok recB \<and>
    message_encrypt sample_env [104, 105] bob_address 2000000000 (store_session bob_address recA sample_alice, r2) =
      (Ok (CSignalMessage m), wA) \<and>
    message_decrypt_signal sample_env m alice_address (store_session alice_address recB sample_bob, 0) = (Ok [104, 105], wB)"
  by (rule sealed_pqxdh_conversation [OF sample_laws sample_lengths(2) sample_sealed_codec sample_cbc sample_spqr(2,3)
      sample_alice_consistent sample_certificate_ok sample_certificate_key sample_hint_fits sample_trusts_bob sample_serves sample_stores(5)])

text \<open>
  C20. The sealed handshake from XHMQV, two ML-KEM encapsulations and Falcon: when the bundle
  carries the public halves of the recipient's keys with valid signatures, send succeeds and recv
  of the serialized message returns the certificate, registration id, message type and content
  hint of the sender together with the same 32-byte session key. The statement puts no relation
  between the certificate and the keys the handshake ran with: recv checks none.
\<close>

theorem ring_xhmqv_handshake:
  assumes laws: "ristretto_ok G" "hash_lengths E" "keystream_length E"
    and valid: "rx_matching E G bundle recv" "verify_classical_spk_sig F (rxb_classical bundle) = Ok ()"
      "verify_pq_spk_sig F (rxb_pq bundle) = Ok ()"
    and sender: "ristretto_pair_ok G (rxs_sender_classical_identity p)"
      "falcon_pair F (rxs_sender_falcon_vk p) (rxs_sender_falcon_sk p)" "sender_certificate_ok E P (rxs_cert p)"
      "length (sec_serialized (rxs_cert p)) < 2 ^ 31" "hint_fits (rxs_content_hint p)"
  shows "\<exists>data key r'. rx_send E F G entropy bundle p r = (Ok (data, key), r') \<and> length key = 32 \<and>
    rx_recv E P F G (SealedMessageData_serialize data) recv =
      Ok \<lparr>rr_sender_certificate = rxs_cert p, rr_registration_id = rxs_registration_id p, rr_msg_type = rxs_msg_type p,
          rr_content_hint = rxs_content_hint p, rr_session_key = key\<rparr>"
  by (rule rx_delivered [OF laws valid sender])

theorem ring_xhmqv_handshake_witness:
  "\<exists>data key r'. rx_send sample_env sample_falcon sample_ristretto [0] sample_rx_bundle sample_rx_send 1 = (Ok (data, key), r') \<and>
    length key = 32 \<and>
    rx_recv sample_env sample_ss sample_falcon sample_ristretto (SealedMessageData_serialize data) sample_rx_recv =
      Ok \<lparr>rr_sender_certificate = rxs_cert sample_rx_send, rr_registration_id = rxs_registration_id sample_rx_send,
          rr_msg_type = rxs_msg_type sample_rx_send, rr_content_hint = rxs_content_hint sample_rx_send, rr_session_key = key\<rparr>"
  by (rule ring_xhmqv_handshake [OF sample_ristretto_ok sample_lengths(1,2) sample_rx sample_rx_sender])

text \<open>
  C21. The sealed handshake from X3DH, two ML-KEM encapsulations and Falcon: when the bundle
  carries the public halves of the recipient's keys with valid signatures and the sender's
  certificate carries its identity key, send succeeds and recv of the serialized message returns
  what the sender put in together with the same 32-byte session key.
\<close>

theorem ring_x3dh_handshake:
  assumes laws: "hash_lengths E" "dh_ok E" "curve_lengths E" "rng_length E" "keystream_length E"
    and valid: "r3_matching E bundle recv" "verified_classical_spk_sig E (r3b_classical bundle) = Ok ()"
      "verify_pq_spk_sig F (r3b_pq bundle) = Ok ()"
    and sender: "identity_consistent E (r3s_sender_identity p)" "sec_key (r3s_cert p) = id_identity_key (r3s_sender_identity p)"
      "falcon_pair F (r3s_sender_falcon_vk p) (r3s_sender_falcon_sk p)" "sender_certificate_ok E P (r3s_cert p)"
      "length (sec_serialized (r3s_cert p)) < 2 ^ 31" "hint_fits (r3s_content_hint p)"
  shows "\<exists>data key r'. r3_send E F entropy bundle p r = (Ok (data, key), r') \<and> length key = 32 \<and>
    r3_recv E P F (SealedMessageData_serialize data) recv =
      Ok \<lparr>rr_sender_certificate = r3s_cert p, rr_registration_id = r3s_registration_id p, rr_msg_type = r3s_msg_type p,
          rr_content_hint = r3s_content_hint p, rr_session_key = key\<rparr>"
  by (rule r3_delivered [OF laws valid sender])

theorem ring_x3dh_handshake_witness:
  "\<exists>data key r'. r3_send sample_env sample_falcon [0] sample_r3_bundle sample_r3_send 1 = (Ok (data, key), r') \<and>
    length key = 32 \<and>
    r3_recv sample_env sample_ss sample_falcon (SealedMessageData_serialize data) sample_r3_recv =
      Ok \<lparr>rr_sender_certificate = r3s_cert sample_r3_send, rr_registration_id = r3s_registration_id sample_r3_send,
          rr_msg_type = r3s_msg_type sample_r3_send, rr_content_hint = r3s_content_hint sample_r3_send, rr_session_key = key\<rparr>"
  by (rule ring_x3dh_handshake [OF sample_lengths(1) sample_dh sample_lengths(3,4,2) sample_r3 sample_r3_sender])

text \<open>
  C22. XHMQV: over any group that satisfies the Ristretto laws and with consistent key pairs, with
  or without a one-time pre-key, the sender's message is accepted by the recipient, who obtains
  the sender's 32-byte session key and learns the sender's identity key.
\<close>

theorem xhmqv_agreement:
  assumes laws: "ristretto_ok G" "hash_lengths E" "keystream_length E"
    and keys: "ristretto_pair_ok G sender" "ristretto_pair_ok G ik" "ristretto_pair_ok G spk"
      "\<forall>kp \<in> set_option opk. ristretto_pair_ok G kp"
  shows "\<exists>res r'. xhmqv_message_send E F G sender (rkp_public_key ik, i) (rkp_public_key spk, j)
      (map_option (\<lambda>kp. (rkp_public_key kp, l)) opk) r = (Ok res, r') \<and> length (xsm_session_key res) = 32 \<and>
    xhmqv_message_receive E F G (xsm_message res) ik spk opk = Ok (xsm_session_key res, rkp_public_key sender)"
  by (rule xhmqv_message_delivered [OF laws keys])

theorem xhmqv_agreement_witness:
  "\<exists>res r'. xhmqv_message_send sample_env sample_falcon sample_ristretto (sample_ristretto_pair 2)
      (rkp_public_key (sample_ristretto_pair 3), 1) (rkp_public_key (sample_ristretto_pair 4), 2)
      (map_option (\<lambda>kp. (rkp_public_key kp, 3)) (Some (sample_ristretto_pair 5))) 1 = (Ok res, r') \<and>
    length (xsm_session_key res) = 32 \<and>
    xhmqv_message_receive sample_env sample_falcon sample_ristretto (xsm_message res) (sample_ristretto_pair 3)
      (sample_ristretto_pair 4) (Some (sample_ristretto_pair 5)) =
      Ok (xsm_session_key res, rkp_public_key (sample_ristretto_pair 2))"
  by (rule xhmqv_agreement [OF sample_ristretto_ok sample_lengths(1,2) sample_ristretto_pair_ok sample_ristretto_pair_ok
      sample_ristretto_pair_ok]) (simp add: sample_ristretto_pair_ok)

text \<open>
  C23. Receiving a sealed handshake, whatever bytes arrive: no receiver panics. Sealed PQXDH
  accepts a message only if its last 32 bytes are the MAC of the rest under a key derived from the
  agreement of the signed pre-key the message names and the key in the sender certificate it
  returns, and returns the session key of the same derivation; the X3DH ring handshake likewise,
  and both ring handshakes only with a Falcon signature on the post-quantum transcript of both
  parties under the key inside the sealed part. In the XHMQV variant the MAC key comes from the
  identity key inside the sealed part and not from the certificate.
\<close>

theorem sealed_handshakes_authenticated:
  assumes "hash_lengths E"
  shows "spqxdh_recv E P bs s \<noteq> Panic \<and> rx_recv E P F G bs xp \<noteq> Panic \<and> r3_recv E P F bs yp \<noteq> Panic \<and>
    (spqxdh_recv E P bs s = Ok res \<longrightarrow>
      (\<exists>msg encoded mac spk eph otk kyber sealing. spqxdh_parse E bs = Ok (msg, encoded, mac) \<and>
        bindR (get_signed_pre_key (sx_signed_pre_key_id msg) s) (SignedPreKeyRecord_key_pair E) = Ok spk \<and>
        prepare_sealing_key_recv E eph (sx_kem_ciphertext msg) (get_identity_key_pair s) spk otk kyber = Ok sealing \<and>
        (rr_session_key res, mac) = apsnd (\<lambda>k. hmac_sha256 E k encoded) (spqxdh_identity_mixin E (drop 32 sealing)
          (calculate_agreement E (kp_private_key spk) (sec_key (rr_sender_certificate res)))))) \<and>
    (rx_recv E P F G bs xp = Ok res \<longrightarrow>
      (\<exists>encoded mac eph ct1 ct2 inner_ct ck kseal inner ss.
        rx_verified_parse_outer bs = Ok (encoded, mac, eph, ct1, ct2, inner_ct) \<and>
        rx_validated_parse_inner E P G kseal inner_ct = Ok inner \<and>
        rr_sender_certificate res = pi_sender_certificate inner \<and>
        (rr_session_key res, mac) = apsnd (\<lambda>k. hmac_sha256 E k encoded)
          (rx_final_keys E ck ss (pi_sender_iks inner) (pi_vks inner) (pi_sigma inner)) \<and>
        pure_falcon_verify_bytes F (pi_vks inner) (falcon_transcript_hash F (rxr_receiver_falcon_vk xp) (pi_vks inner)
          (kem_Key_serialize (kkp_public_key (rxr_pq_identity_kp xp)))
          (kem_Key_serialize (kkp_public_key (rxr_pq_signed_prekey_kp xp))) ct1 ct2) (pi_sigma inner))) \<and>
    (r3_recv E P F bs yp = Ok res \<longrightarrow>
      (\<exists>encoded mac eph ct1 ct2 inner_ct ck kseal inner.
        r3_verified_parse_outer bs = Ok (encoded, mac, eph, ct1, ct2, inner_ct) \<and>
        r3_validated_parse_inner E P kseal inner_ct = Ok inner \<and>
        rr_sender_certificate res = pi_sender_certificate inner \<and>
        (rr_session_key res, mac) = apsnd (\<lambda>k. hmac_sha256 E k encoded)
          (r3_final_keys E ck (calculate_agreement E (kp_private_key (r3r_receiver_signed_prekey_kp yp))
            (sec_key (rr_sender_certificate res)))) \<and>
        pure_falcon_verify_bytes F (pi_vks inner) (falcon_transcript_hash F (r3r_receiver_falcon_vk yp) (pi_vks inner)
          (kem_Key_serialize (kkp_public_key (r3r_pq_identity_kp yp)))
          (kem_Key_serialize (kkp_public_key (r3r_pq_signed_prekey_kp yp))) ct1 ct2) (pi_sigma inner)))"
  by (intro conjI impI spqxdh_recv_no_panic [OF assms] rx_recv_no_panic r3_recv_no_panic spqxdh_recv_authentic
      rx_recv_authentic r3_recv_authentic)

theorem sealed_handshakes_authenticated_witness:
  "spqxdh_recv sample_env sample_ss [0x34, 1, 2] sample_bob \<noteq> Panic \<and>
   (\<exists>bs res encoded mac eph ct1 ct2 inner_ct k. r3_recv sample_env sample_ss sample_falcon bs sample_r3_recv = Ok res \<and>
     r3_verified_parse_outer bs = Ok (encoded, mac, eph, ct1, ct2, inner_ct) \<and> mac = hmac_sha256 sample_env k encoded)"
proof
  show "spqxdh_recv sample_env sample_ss [0x34, 1, 2] sample_bob \<noteq> Panic"
    using sealed_handshakes_authenticated [OF sample_lengths(1)] by blast
  obtain bs res where r3: "r3_recv sample_env sample_ss sample_falcon bs sample_r3_recv = Ok res"
    by (rule sample_r3_run)
  obtain encoded mac eph ct1 ct2 inner_ct ck where parse: "r3_verified_parse_outer bs = Ok (encoded, mac, eph, ct1, ct2, inner_ct)"
    and "(rr_session_key res, mac) = apsnd (\<lambda>k. hmac_sha256 sample_env k encoded) (r3_final_keys sample_env ck
        (calculate_agreement sample_env (kp_private_key (r3r_receiver_signed_prekey_kp sample_r3_recv)) (sec_key (rr_sender_certificate res))))"
    using sealed_handshakes_authenticated [OF sample_lengths(1), where bs = bs and yp = sample_r3_recv and P = sample_ss
        and F = sample_falcon and res = res] r3 by blast
  then have "mac = hmac_sha256 sample_env (snd (r3_final_keys sample_env ck
      (calculate_agreement sample_env (kp_private_key (r3r_receiver_signed_prekey_kp sample_r3_recv)) (sec_key (rr_sender_certificate res))))) encoded"
    by (simp add: prod_eq_iff)
  then show "\<exists>bs res encoded mac eph ct1 ct2 inner_ct k. r3_recv sample_env sample_ss sample_falcon bs sample_r3_recv = Ok res \<and>
     r3_verified_parse_outer bs = Ok (encoded, mac, eph, ct1, ct2, inner_ct) \<and> mac = hmac_sha256 sample_env k encoded"
    using r3 parse by blast
qed

text \<open>
  C24. The two while loops of the receiving sides end: run as loops on any state, they return what
  the recursive models return, after at most as many rounds as the counter of the message is ahead
  of the chain, also when the loop body fails.
\<close>

theorem receive_loops_terminate:
  "run_loop (\<lambda>(ck, _). chain_key_index ck < counter) (skip_message_round E te) (ck, st) =
     Some (skip_message_keys E te counter ck st) \<and>
   (\<exists>k. k \<le> unat counter - unat (chain_key_index ck) \<and>
     after_rounds (skip_message_round E te) k (ck, st) = skip_message_keys E te counter ck st) \<and>
   run_loop (\<lambda>(sck, _). sch_iteration sck < iteration) (skip_sender_round E) (sck, sks) =
     Some (skip_sender_keys E iteration sck sks) \<and>
   (\<exists>k. k \<le> unat iteration - unat (sch_iteration sck) \<and>
     after_rounds (skip_sender_round E) k (sck, sks) = skip_sender_keys E iteration sck sks)"
  using skip_loop.returns [where s = "(ck, st)" and E = E and te = te and counter = counter]
    skip_loop.bounded [where s = "(ck, st)" and E = E and te = te and counter = counter]
    sender_skip_loop.returns [where s = "(sck, sks)" and E = E and iteration = iteration]
    sender_skip_loop.bounded [where s = "(sck, sks)" and E = E and iteration = iteration]
  by auto

text \<open>
  C25. Atomicity of the 1:1 and group entry points on failure: when
  \<open>message_encrypt\<close>, \<open>message_decrypt_signal\<close>,
  \<open>process_prekey_bundle\<close>, \<open>group_encrypt\<close> or
  \<open>group_decrypt\<close> does not succeed, the stores are exactly as before.
\<close>

theorem failed_calls_leave_stores:
  "(message_encrypt E ptext a now (s, r) = (res, (s1, r1)) \<longrightarrow> is_ok res \<or> s1 = s) \<and>
   (message_decrypt_signal E m a (s, r) = (res2, (s2, r2)) \<longrightarrow> is_ok res2 \<or> s2 = s) \<and>
   (process_prekey_bundle E a b now (s, r) = (res3, (s3, r3)) \<longrightarrow> is_ok res3 \<or> s3 = s) \<and>
   (group_encrypt E a d ptext (s, r) = (res4, (s4, r4)) \<longrightarrow> is_ok res4 \<or> s4 = s) \<and>
   (group_decrypt E bs a s = (res5, s5) \<longrightarrow> is_ok res5 \<or> s5 = s)"
  by (intro conjI impI; erule message_encrypt_frame message_decrypt_signal_frame process_prekey_bundle_frame
      group_encrypt_frame group_decrypt_frame)

theorem failed_calls_leave_stores_witness:
  "\<exists>r1. message_encrypt sample_env [1] bob_address 0 (sample_alice, 1) = (Err (SessionNotFound bob_address), (sample_alice, r1))"
proof -
  obtain res s1 r1 where e: "message_encrypt sample_env [1] bob_address 0 (sample_alice, 1) = (res, (s1, r1))"
    by (metis prod_cases3)
  then have "res = Err (SessionNotFound bob_address)" by (simp add: message_encrypt_def sample_no_session)
  then show ?thesis using failed_calls_leave_stores [THEN conjunct1, THEN mp, OF e] e by auto
qed

text \<open>
  C26. Wire format of signal messages: parsing the bytes of a message built by
  \<open>SignalMessage_new\<close> (versions 3 and 4) gives the message back, and its MAC verifies
  under the key it was built with.
\<close>

theorem signal_message_roundtrip:
  assumes "hash_lengths E" "codec_ok (signal_message_codec E)" "public_key_ok rk" "v \<in> {3, 4}"
    "SignalMessage_new E v mac_key rk n pn ct a b pq = Ok m"
  shows "SignalMessage_try_from E (sm_serialized m) = Ok m \<and> SignalMessage_verify_mac E m a b mac_key = Ok True \<and>
    sm_counter m = n \<and> sm_ciphertext m = ct \<and> sm_sender_ratchet_key m = rk"
  using SignalMessage_roundtrip [OF assms] verify_mac_new [OF assms(1,5)] SignalMessage_new_fields [OF assms(5)] by simp

theorem signal_message_roundtrip_witness:
  "\<exists>m. SignalMessage_new sample_env 4 (replicate 32 5) (kp_public_key (sample_pair 1)) 3 0 [1, 2]
      (kp_public_key (sample_pair 1)) (kp_public_key (sample_pair 2)) [] = Ok m \<and>
    SignalMessage_try_from sample_env (sm_serialized m) = Ok m \<and> sm_counter m = 3"
proof -
  obtain m where m: "SignalMessage_new sample_env 4 (replicate 32 5) (kp_public_key (sample_pair 1)) 3 0 [1, 2]
      (kp_public_key (sample_pair 1)) (kp_public_key (sample_pair 2)) [] = Ok m"
    by (rule sample_message) blast
  then show ?thesis
    using signal_message_roundtrip [OF sample_lengths(1) sample_codecs(7) sample_pair_ok(2) _ m] by simp
qed

text \<open>
  C27. Wire format of pre-key messages: parsing the bytes of a PreKeySignalMessage gives the
  message back with its ids, KEM payload, keys and inner message.
\<close>

theorem prekey_message_roundtrip:
  assumes "codec_ok (pre_key_signal_message_codec E)" "v \<in> {3, 4}" "v = 3 \<or> kp \<noteq> None"
    "public_key_ok base" "public_key_ok ident" "SignalMessage_try_from E (sm_serialized m) = Ok m"
    "pm = PreKeySignalMessage_new E v reg pid sid kp base ident m"
  shows "PreKeySignalMessage_try_from E (pkm_serialized pm) = Ok pm"
  using PreKeySignalMessage_roundtrip [OF assms(1-6)] assms(7) by simp

theorem prekey_message_roundtrip_witness:
  "\<exists>m. PreKeySignalMessage_try_from sample_env (pkm_serialized (PreKeySignalMessage_new sample_env 4 18 (Some 31) 22
      (Some \<lparr>kyp_pre_key_id = 8, kyp_ciphertext = [1]\<rparr>) (kp_public_key (sample_pair 1)) (kp_public_key (sample_pair 2)) m)) =
    Ok (PreKeySignalMessage_new sample_env 4 18 (Some 31) 22
      (Some \<lparr>kyp_pre_key_id = 8, kyp_ciphertext = [1]\<rparr>) (kp_public_key (sample_pair 1)) (kp_public_key (sample_pair 2)) m)"
proof -
  obtain m where m: "SignalMessage_try_from sample_env (sm_serialized m) = Ok m" by (rule sample_message) blast
  show ?thesis
    by (rule exI, rule prekey_message_roundtrip [OF sample_codecs(8) _ _ sample_pair_ok(2) sample_pair_ok(2) m refl]) simp_all
qed

text \<open>
  C28. Retention of replaced sessions: when up to \<open>ARCHIVED_STATES_MAX_LENGTH\<close> newer
  sessions replaced the current session one after the other, and the record was stored and loaded
  again, a pre-key message that names the version and base key of the old session (and of none of
  the newer ones) makes it current again, with nothing but its pending pre-key cleared. All newer
  sessions stay archived, newest first, before the most recent of the older ones that still fit.
\<close>

theorem replaced_session_returns:
  assumes "codec_ok (session_codec E)" "codec_ok (record_codec E)" "sr_current_session rec = Some st"
    "length (sr_previous_sessions rec) \<le> ARCHIVED_STATES_MAX_LENGTH"
    "session_matches v k st = Ok True" "\<forall>s \<in> set sts. session_matches v k s = Ok False"
    "sts \<noteq> []" "length sts \<le> ARCHIVED_STATES_MAX_LENGTH"
  shows "bindR (SessionRecord_deserialize E (SessionRecord_serialize E (fold (promote_state E) sts rec)))
      (\<lambda>loaded. map_err from_invalid_session_error (promote_matching_session E v k loaded)) =
    Ok (True, rec\<lparr>sr_current_session := Some (clear_unacknowledged_pre_key_message st),
      sr_previous_sessions := map (\<lambda>s. encode (session_codec E) (clear_unacknowledged_pre_key_message s)) (rev sts) @
        take (ARCHIVED_STATES_MAX_LENGTH - length sts) (sr_previous_sessions rec)\<rparr>)"
  using replaced_session_promoted [OF assms(1,3-8)] by (simp add: session_record_serde.de_ser [OF assms(2)])

theorem replaced_session_returns_witness:
  "\<exists>st k old. sr_previous_sessions old = [] \<and>
     bindR (SessionRecord_deserialize sample_env (SessionRecord_serialize sample_env
         (fold (promote_state sample_env) [st\<lparr>s_alice_base_key := []\<rparr>, st\<lparr>s_session_version := 3\<rparr>] old)))
       (\<lambda>loaded. map_err from_invalid_session_error (promote_matching_session sample_env 4 k loaded)) =
     Ok (True, old\<lparr>sr_current_session := Some (clear_unacknowledged_pre_key_message st),
       sr_previous_sessions := map (\<lambda>s. encode (session_codec sample_env) (clear_unacknowledged_pre_key_message s))
         (rev [st\<lparr>s_alice_base_key := []\<rparr>, st\<lparr>s_session_version := 3\<rparr>])\<rparr>)"
proof -
  let ?st = sample_session and ?k = "PublicKey_serialize (kp_public_key (sample_pair 3))"
  let ?sts = "[?st\<lparr>s_alice_base_key := []\<rparr>, ?st\<lparr>s_session_version := 3\<rparr>]" and ?old = "SessionRecord_new sample_session"
  have st: "s_alice_base_key ?st = ?k" "s_session_version ?st = 4"
    by (simp_all add: sample_session_def SessionState_new_def)
  have ne: "?k \<noteq> []" by (simp add: PublicKey_serialize_def)
  have old: "sr_current_session ?old = Some ?st" "sr_previous_sessions ?old = []" by (simp_all add: SessionRecord_new_def)
  have few: "length (sr_previous_sessions ?old) \<le> ARCHIVED_STATES_MAX_LENGTH" by (simp add: old)
  have matches: "session_matches 4 ?k ?st = Ok True" "\<forall>s \<in> set ?sts. session_matches 4 ?k s = Ok False"
    using ne by (simp_all add: session_matches_Ok st)
  have sizes: "?sts \<noteq> []" "length ?sts \<le> ARCHIVED_STATES_MAX_LENGTH" by (simp_all add: ARCHIVED_STATES_MAX_LENGTH_def)
  note main = replaced_session_returns [OF sample_codecs(1,2) old(1) few matches sizes]
  show ?thesis
    by (rule exI [of _ ?st], rule exI [of _ ?k], rule exI [of _ ?old], intro conjI old(2)) (use main in \<open>simp only: old(2) take_Nil append_Nil2\<close>)
qed

text \<open>
  C29. The branch-free comparison of byte strings used to order public keys equals lexicographic
  comparison after comparing lengths, so that the order of keys identifies only equal keys and is
  antisymmetric; and the derived order of service ids is the lexicographic order of their
  fixed-width binary forms.
\<close>

theorem constant_time_comparison:
  "constant_time_cmp x y =
     (if length x < length y then Less else if length x > length y then Greater else lex_cmp x y) \<and>
   (PublicKey_cmp a b = Equal \<longleftrightarrow> a = b) \<and> PublicKey_cmp b a = flip_ordering (PublicKey_cmp a b) \<and>
   ServiceId_cmp i j = lex_cmp (service_id_fixed_width_binary i) (service_id_fixed_width_binary j)"
  by (intro conjI constant_time_cmp_lex public_key_order.cmp_eq public_key_order.cmp_flip ServiceId_cmp_binary)

text \<open>
  C30. The byte-wise range check on public keys accepts exactly the little-endian numbers below
  2^255 - 19.
\<close>

theorem field_range_check:
  assumes "length k = 32"
  shows "scalar_is_in_range (DjbPublicKey k) \<longleftrightarrow> le_nat k < 2 ^ 255 - 19"
  using assms by (rule scalar_is_in_range_le)

theorem field_range_check_witness:
  "\<not> scalar_is_in_range (DjbPublicKey (237 # replicate 30 255 @ [127]))"
proof -
  have "le_nat (237 # replicate 30 255 @ [127]) = 2 ^ 255 - 19"
    by (simp add: le_nat_append le_nat_replicate_max)
  then show ?thesis using field_range_check [of "237 # replicate 30 255 @ [127]"] by simp
qed

text \<open>
  C31. Identity trust of the in-memory store: an address without a saved identity trusts every
  key; after saving, exactly the saved key is trusted for that address, in both directions, and no
  other address is affected.
\<close>

theorem trust_on_first_use:
  "(get_identity a s = None \<longrightarrow> is_trusted_identity a k dir s) \<and>
   (is_trusted_identity a k dir (snd (save_identity a k0 s)) \<longleftrightarrow> k = k0) \<and>
   (a' \<noteq> a \<longrightarrow> is_trusted_identity a' k dir (snd (save_identity a k0 s)) = is_trusted_identity a' k dir s)"
  by (simp add: is_trusted_after_save) (simp add: get_identity_def is_trusted_identity_def)

theorem trust_on_first_use_witness:
  "is_trusted_identity bob_address (kp_public_key (sample_pair 1)) Sending sample_alice \<and>
   \<not> is_trusted_identity bob_address (kp_public_key (sample_pair 1)) Sending
       (snd (save_identity bob_address (kp_public_key (sample_pair 2)) sample_alice))"
proof -
  have "get_identity bob_address sample_alice = None"
    by (simp add: get_identity_def sample_alice_def InMemSignalProtocolStore_new_def)
  then show ?thesis
    using trust_on_first_use [of bob_address sample_alice "kp_public_key (sample_pair 1)" Sending
        "kp_public_key (sample_pair 2)" bob_address]
    by (simp add: sample_pair_def)
qed

text \<open>
  C32. One base key per pair of pre-keys: \<open>mark_kyber_pre_key_used\<close> succeeds for a
  base key exactly when it was not recorded for these pre-keys, records it, and never forgets a
  recorded one.
\<close>

theorem base_key_used_once:
  "(fst (mark_kyber_pre_key_used i e k s) = Ok () \<longleftrightarrow> k \<notin> set (base_keys_seen i e s)) \<and>
   k \<in> set (base_keys_seen i e (snd (mark_kyber_pre_key_used i e k s))) \<and>
   set (base_keys_seen i' e' s) \<subseteq> set (base_keys_seen i' e' (snd (mark_kyber_pre_key_used i e k s)))"
  using mark_kyber_pre_key_used_seen by (metis subsetI)

text \<open>
  C33. Adding a sender key, exactly: the first state is the first existing one with the given
  chain id and signing key if there is one, otherwise a new state; after it come the existing
  states with other chain ids in their order, cut off at \<open>MAX_SENDER_KEY_STATES\<close>;
  states with the same chain id and another signing key are dropped. The lookup by chain id finds
  the first state, and the record stays well-formed: at most \<open>MAX_SENDER_KEY_STATES\<close>
  states with distinct chain ids.
\<close>

theorem sender_key_states_bounded:
  assumes "sender_record_ok rec"
  shows "sender_record_ok (add_sender_key_state v cid it ck pk sk rec) \<and>
    (\<exists>st. st = (case find (\<lambda>s. sks_chain_id s = cid \<and> ok_opt (signing_key_public s) = Some pk) (skrec_states rec) of
           Some s \<Rightarrow> s | None \<Rightarrow> SenderKeyState_new v cid it ck pk sk) \<and>
       skrec_states (add_sender_key_state v cid it ck pk sk rec) =
         st # take (MAX_SENDER_KEY_STATES - 1) (filter (\<lambda>s. sks_chain_id s \<noteq> cid) (skrec_states rec)) \<and>
       sender_key_state_for_chain_id (add_sender_key_state v cid it ck pk sk rec) cid = Some (0, st))"
proof -
  let ?st = "case find (\<lambda>s. sks_chain_id s = cid \<and> ok_opt (signing_key_public s) = Some pk) (skrec_states rec) of
      Some s \<Rightarrow> s | None \<Rightarrow> SenderKeyState_new v cid it ck pk sk"
  show ?thesis
    by (intro conjI sender_record_ok_add [OF assms] exI [of _ ?st] refl add_sender_key_state_eq add_sender_key_state_first)
qed

theorem sender_key_states_bounded_witness:
  "skrec_states (add_sender_key_state 3 5 7 [2] (kp_public_key (sample_pair 1)) None
      (add_sender_key_state 3 5 0 [1] (kp_public_key (sample_pair 1)) None SenderKeyRecord_new_empty)) =
    [SenderKeyState_new 3 5 0 [1] (kp_public_key (sample_pair 1)) None]"
proof -
  let ?st = "SenderKeyState_new 3 5 0 [1] (kp_public_key (sample_pair 1)) None"
  let ?rec = "add_sender_key_state 3 5 0 [1] (kp_public_key (sample_pair 1)) None SenderKeyRecord_new_empty"
  have rec: "skrec_states ?rec = [?st]" by (simp add: add_sender_key_state_eq SenderKeyRecord_new_empty_def)
  have "ok_opt (signing_key_public ?st) = Some (kp_public_key (sample_pair 1))" "sks_chain_id ?st = 5"
    by (simp_all add: signing_key_public_def SenderKeyState_new_def public_key_serde.de_ser)
  then show ?thesis
    using sender_key_states_bounded [OF sender_record_ok_add [OF sender_record_ok_empty,
          of 3 5 0 "[1]" "kp_public_key (sample_pair 1)" None], of 3 5 7 "[2]" "kp_public_key (sample_pair 1)" None]
    by (simp add: rec)
qed

text \<open>
  C34. The checked iteration counter of sender keys: the message with iteration u32::MAX is never
  decrypted and never encrypted. Delivering one to any store returns an error and leaves the store
  unchanged. The key lookup in any state fails: InvalidSenderKeySession without a chain key,
  InvalidMessage (too far into the future) when the chain is more than
  \<open>MAX_FORWARD_JUMPS\<close> behind, and InvalidState from the checked addition otherwise,
  so nothing wraps. No successful \<open>group_encrypt\<close> produces that iteration.
\<close>

theorem sender_chain_exhaustion:
  assumes "SenderKeyMessage_try_from E bs = Ok skm" "skm_iteration skm = - 1"
  shows "(\<exists>e. group_decrypt E bs a s = (Err e, s)) \<and>
    get_sender_key E st (- 1) d =
      (case state_sender_chain_key st of
         None \<Rightarrow> Err (InvalidSenderKeySession d)
       | Some ck \<Rightarrow>
           if unat (- 1 - sch_iteration ck) > MAX_FORWARD_JUMPS
           then Err (InvalidMessage SenderKey ''message from too far into the future'')
           else Err (InvalidState ''sender_chain_key_next'' ''Sender chain is too long'')) \<and>
    (\<forall>a' d' p w. \<not> (\<exists>skm' w'. group_encrypt E a' d' p w = (Ok skm', w') \<and> skm_iteration skm' = - 1))"
  by (intro conjI group_decrypt_last [OF assms] get_sender_key_last) (use group_encrypt_not_last in blast)

theorem sender_chain_exhaustion_witness:
  "\<exists>bs e. group_decrypt sample_env bs alice_address sample_bob = (Err e, sample_bob) \<and>
     get_sender_key sample_env (SenderKeyState_new 3 5 (- 1) [1] (kp_public_key (sample_pair 1)) None) (- 1) [] =
       Err (InvalidState ''sender_chain_key_next'' ''Sender chain is too long'')"
proof -
  let ?m = "fst (SenderKeyMessage_new sample_env 3 (replicate 16 1) 5 (- 1) [] 0 (kp_private_key (sample_pair 1)))"
  have m: "SenderKeyMessage_try_from sample_env (skm_serialized ?m) = Ok ?m"
    by (rule SenderKeyMessage_new_ok(2) [OF sample_xeddsa sample_dh sample_codecs(9)]) simp
  have last: "skm_iteration ?m = - 1" by (simp add: SenderKeyMessage_new_def Let_def split: prod.split)
  have "state_sender_chain_key (SenderKeyState_new 3 5 (- 1) [1] (kp_public_key (sample_pair 1)) None) =
      Some \<lparr>sch_iteration = - 1, sch_chain_key = [1]\<rparr>"
    by (simp add: state_sender_chain_key_def SenderKeyState_new_def SenderChainKey_as_protobuf_def)
  then show ?thesis
    using sender_chain_exhaustion [OF m last, of alice_address sample_bob
        "SenderKeyState_new 3 5 (- 1) [1] (kp_public_key (sample_pair 1)) None" "[]"] by auto
qed

text \<open>
  C35. The unchecked index of 1:1 chains: accepting the message with counter u32::MAX stores a
  chain key whose index is 0 again, so the chain starts over with counter 0.
\<close>

theorem receiver_chain_index_wraps:
  assumes "get_receiver_chain st te = Ok (Some (c, i))" "jump_allowed st (chain_key_index ck) (- 1)" "hash_lengths E"
  shows "\<exists>st' ck'. get_or_create_message_key E st te t ck (- 1) =
      Ok (chain_message_keys E (jump_to E ck (- 1)), st') \<and>
    get_receiver_chain_key st' te = Ok (Some ck') \<and> chain_key_index ck' = 0"
proof -
  have le: "chain_key_index ck \<le> - 1" by simp
  let ?ck = "next_chain_key E (jump_to E ck (- 1))"
  let ?c = "c\<lparr>c_message_keys := fold push_message_key (skipped_keys E ck (- 1)) (c_message_keys c),
      c_chain_key := Some (to_pb_chain_key ?ck)\<rparr>"
  have "get_receiver_chain (set_chain_at i ?c st) te = Ok (Some (?c, i))"
    using assms(1) by (rule get_receiver_chain_set_chain_at) simp
  then have "get_receiver_chain_key (set_chain_at i ?c st) te = Ok (Some ?ck)"
    by (rule get_receiver_chain_key_found) (simp_all add: assms(3))
  moreover have "chain_key_index ?ck = 0"
    by (simp add: ratchet_chain.idx_nxt jump_to_index [OF le])
  ultimately show ?thesis using get_or_create_message_key_ahead [OF assms(1) le assms(2)] by metis
qed

theorem receiver_chain_index_wraps_witness:
  "\<exists>st te ck g st' ck'. chain_key_index ck = - 1 \<and> get_or_create_message_key sample_env st te Whisper ck (- 1) = Ok (g, st') \<and>
    get_receiver_chain_key st' te = Ok (Some ck') \<and> chain_key_index ck' = 0"
proof -
  obtain st te c i where c: "get_receiver_chain st te = Ok (Some (c, i))" by (rule sample_receiver_chain) blast
  let ?ck = "\<lparr>chain_key_key = replicate 32 0, chain_key_index = - 1\<rparr>"
  have "jump_allowed st (chain_key_index ?ck) (- 1)" by (simp add: jump_allowed_def)
  then have "\<exists>st' ck'. get_or_create_message_key sample_env st te Whisper ?ck (- 1) =
      Ok (chain_message_keys sample_env (jump_to sample_env ?ck (- 1)), st') \<and>
    get_receiver_chain_key st' te = Ok (Some ck') \<and> chain_key_index ck' = 0"
    using c sample_lengths(1) by (intro receiver_chain_index_wraps)
  then show ?thesis by (metis chain_key.select_convs(2))
qed

text \<open>
  C36. Service ids: the binary, fixed-width and text forms of a service id parse back to it, a
  binary form is accepted only if it is the one that would be written, and the parsers of the
  typed ids (Aci, Pni) accept a written id of their own kind and no other.
\<close>

theorem service_id_roundtrip:
  assumes "uuid_text_ok E" "length (raw_uuid s) = 16"
  shows "parse_from_service_id_binary (service_id_binary s) = Some s \<and>
    parse_from_service_id_fixed_width_binary (service_id_fixed_width_binary s) = Some s \<and>
    parse_from_service_id_string E (service_id_string E s) = Some s \<and>
    (parse_from_service_id_binary bs = Some s \<longrightarrow> bs = service_id_binary s) \<and>
    (let typed = (if service_id_kind_of s = kind then Some (raw_uuid s) else None) in
      specific_parse_from_service_id_binary kind (service_id_binary s) = typed \<and>
      specific_parse_from_service_id_fixed_width_binary kind (service_id_fixed_width_binary s) = typed \<and>
      specific_parse_from_service_id_string E kind (service_id_string E s) = typed)"
  unfolding Let_def
  by (intro conjI impI service_id_binary_roundtrip service_id_string_roundtrip typed_parsers [OF assms] assms
      service_id_binary_canonical(1) [symmetric])

theorem service_id_roundtrip_witness:
  "parse_from_service_id_string sample_env (service_id_string sample_env (Pni (replicate 16 7))) = Some (Pni (replicate 16 7)) \<and>
   specific_parse_from_service_id_string sample_env KAci (service_id_string sample_env (Pni (replicate 16 7))) = None"
  using service_id_roundtrip [OF sample_uuid, of "Pni (replicate 16 7)" _ KAci] by (simp add: Let_def)

text \<open>
  C37. The incremental MAC: for every way of cutting a stream into pieces, feeding the pieces to a
  validating object and finalizing it succeeds exactly when the expected MACs are those of the
  prefixes at each chunk boundary followed by the MAC of the whole stream, it then reports exactly
  the length of the stream as validated, and otherwise it reports MacError; it never panics.
\<close>

theorem incremental_validation_exact:
  assumes "mac_streams M m0 h" "Incremental_new m0 c = Ok inc"
  shows "validate_all M ps (Incremental_validating macs inc) =
    (if macs = chunk_macs h c (concat ps) @ [h (concat ps)] then Ok (length (concat ps)) else Err MacError)"
  using assms by (rule validating_exact)

theorem incremental_validation_exact_witness:
  "validate_all sample_mac_ops [[1, 2], [3]] (Incremental_validating [replicate 32 3, replicate 32 6]
      \<lparr>inc_mac = [], inc_chunk_size = 2, inc_unused_length = 2\<rparr>) = Ok 3"
proof -
  have inc: "Incremental_new [] 2 = (Ok \<lparr>inc_mac = [], inc_chunk_size = 2, inc_unused_length = 2\<rparr> :: (_, mac_error) result)"
    by (simp add: Incremental_new_def)
  show ?thesis
    using incremental_validation_exact [OF sample_mac_streams inc, of "[[1, 2], [3]]" "[replicate 32 3, replicate 32 6]"]
    by (simp add: chunk_macs_def upt_rec)
qed

text \<open>
  C38. Streaming AES-256-GCM implements the one-shot definition: however the plaintext is cut into
  pieces, the pieces encrypt to the one-shot ciphertext, the tag is the reference tag of the
  associated data and the ciphertext although the hash is fed through a 16-byte buffer, decryption
  returns the pieces, and \<open>verify_tag\<close> accepts exactly that tag.
\<close>

theorem gcm_streaming_refines_one_shot:
  assumes "prims_ok P" "length key = 32" "length nonce = 12" "32 + length (concat ps) \<le> ctr32be_limit P"
  shows "\<exists>e d cs e' d'. Aes256GcmEncryption_new P key nonce ad = Ok e \<and>
    Aes256GcmDecryption_new P key nonce ad = Ok d \<and>
    gcm_run (Aes256GcmEncryption_encrypt P) ps e = Ok (cs, e') \<and>
    concat cs = gcm_crypt P key nonce (concat ps) \<and>
    compute_tag P e' = gcm_tag P (aes256_block P key (replicate 16 0)) (gcm_mask P key nonce) ad (concat cs) \<and>
    gcm_run (Aes256GcmDecryption_decrypt P) cs d = Ok (ps, d') \<and>
    (\<forall>tag. verify_tag P tag d' = (if tag = compute_tag P e' then Ok () else Err InvalidTag))"
  using assms by (rule gcm_streaming)

theorem gcm_streaming_refines_one_shot_witness:
  "\<exists>e d cs e' d'. Aes256GcmEncryption_new sample_prims (replicate 32 1) (replicate 12 2) [9] = Ok e \<and>
    Aes256GcmDecryption_new sample_prims (replicate 32 1) (replicate 12 2) [9] = Ok d \<and>
    gcm_run (Aes256GcmEncryption_encrypt sample_prims) [[1, 2], replicate 20 3] e = Ok (cs, e') \<and>
    gcm_run (Aes256GcmDecryption_decrypt sample_prims) cs d = Ok ([[1, 2], replicate 20 3], d') \<and>
    verify_tag sample_prims (compute_tag sample_prims e') d' = Ok ()"
  using gcm_streaming_refines_one_shot [OF sample_prims_ok(1), of "replicate 32 1" "replicate 12 2" "[[1, 2], replicate 20 3]" "[9]"]
  by (simp add: sample_prims_ok(2)) metis

text \<open>
  C39. Safety numbers: for an admissible iteration count both users of a conversation compute
  their fingerprint without error, the two displayed strings are the same 60 decimal digits
  although each puts its own half first, and scanning one against the other matches.
\<close>

theorem fingerprints_match:
  assumes "hash_lengths E" "codec_ok (fingerprint_codec E)" "1 < n" "n \<le> 1000000"
  shows "\<exists>f g. Fingerprint_new E v n i k j l = Ok f \<and> Fingerprint_new E v n j l i k = Ok g \<and>
    display_string f = display_string g \<and> length (display_string f) = 60 \<and>
    set (display_string f) \<subseteq> set ''0123456789'' \<and>
    ScannableFingerprint_compare E (fp_scannable f) (ScannableFingerprint_serialize E (fp_scannable g)) = Ok True"
  using assms by (rule fingerprints_agree)

theorem fingerprints_match_witness:
  "\<exists>f g. Fingerprint_new sample_env 2 5200 [1] (kp_public_key (sample_pair 1)) [2] (kp_public_key (sample_pair 2)) = Ok f \<and>
    Fingerprint_new sample_env 2 5200 [2] (kp_public_key (sample_pair 2)) [1] (kp_public_key (sample_pair 1)) = Ok g \<and>
    display_string f = display_string g"
proof -
  have n: "1 < (5200 :: u32)" "(5200 :: u32) \<le> 1000000" by simp_all
  show ?thesis
    using fingerprints_match [OF sample_lengths(1) sample_codecs(12) n, of 2 "[1]" "kp_public_key (sample_pair 1)" "[2]"
        "kp_public_key (sample_pair 2)"] by blast
qed

text \<open>
  C40. HPKE boxes: over the repository's own provider and any implementation of base mode that
  opens what it sealed over a provider keeping the contract of the crate, a box sealed to a public
  key carries the type byte in front of the encapsulated secret and opens with the private key to
  the plaintext; the provider's AES-GCM returns the message exactly for its own tag. An empty box,
  an unknown type byte and a box shorter than the encapsulated secret are refused with their
  errors before any key is used.
\<close>

theorem hpke_sealed_box:
  assumes "provider_laws E H P (length m)" "hpke_rs_ok K" "private_key_ok k" "length key = 32" "length nonce = 12"
    "length rest < 32" "b \<noteq> 1"
  shows "(\<exists>box. SimpleHpkeSender_seal K (CryptoProvider E H P) ent (PrivateKey_public_key E k) info aad m = Ok box \<and>
      SimpleHpkeReceiver_open K (CryptoProvider E H P) k info aad box = Ok m \<and> length box \<ge> 33 \<and> box ! 0 = 1) \<and>
    (\<exists>c tag. aead_seal P Aes256Gcm key nonce aad m = Ok (c @ tag) \<and> length c = length m \<and> length tag = 16 \<and>
      (\<forall>t. length t = 16 \<longrightarrow> aead_open P Aes256Gcm key nonce aad (c @ t) = (if t = tag then Ok m else Err AeadOpenError))) \<and>
    SimpleHpkeReceiver_open K V k info aad [] = Err HpkeInvalidInput \<and>
    SimpleHpkeReceiver_open K V k info aad (b # tail) = Err HpkeUnknownMode \<and>
    SimpleHpkeReceiver_open K V k info aad (1 # rest) = Err HpkeInvalidInput"
proof (intro conjI)
  show "\<exists>box. SimpleHpkeSender_seal K (CryptoProvider E H P) ent (PrivateKey_public_key E k) info aad m = Ok box \<and>
      SimpleHpkeReceiver_open K (CryptoProvider E H P) k info aad box = Ok m \<and> length box \<ge> 33 \<and> box ! 0 = 1"
    by (rule sealed_box_opens [OF assms(1-3)])
  show "\<exists>c tag. aead_seal P Aes256Gcm key nonce aad m = Ok (c @ tag) \<and> length c = length m \<and> length tag = 16 \<and>
      (\<forall>t. length t = 16 \<longrightarrow> aead_open P Aes256Gcm key nonce aad (c @ t) = (if t = tag then Ok m else Err AeadOpenError))"
    using assms(1,4,5) by (intro aead_round_trip) (simp_all add: provider_laws_def)
qed (use assms(2,6,7) in \<open>simp_all add: open_rejects hpke_rs_ok_def\<close>)

theorem hpke_sealed_box_witness:
  "(\<exists>box. SimpleHpkeSender_seal sample_hpke (CryptoProvider sample_env sample_hkdf sample_prims) [5]
       (kp_public_key (sample_pair 3)) [1] [2] [104, 105] = Ok box \<and>
     SimpleHpkeReceiver_open sample_hpke (CryptoProvider sample_env sample_hkdf sample_prims) (kp_private_key (sample_pair 3))
       [1] [2] box = Ok [104, 105]) \<and>
   SimpleHpkeReceiver_open sample_hpke (CryptoProvider sample_env sample_hkdf sample_prims) (kp_private_key (sample_pair 3))
     [1] [2] [7, 0] = Err HpkeUnknownMode"
proof -
  have laws: "provider_laws sample_env sample_hkdf sample_prims (length [104 :: u8, 105])" by (rule sample_provider_laws) simp
  have lens: "length (replicate 32 0 :: bytes) = 32" "length (replicate 12 0 :: bytes) = 12" "length ([] :: bytes) < 32" "(7 :: u8) \<noteq> 1"
    by simp_all
  show ?thesis
    using hpke_sealed_box [OF laws sample_hpke_ok sample_pair_ok(3) [of 3] lens, where ent = "[5]" and info = "[1]" and aad = "[2]"
        and V = "CryptoProvider sample_env sample_hkdf sample_prims" and tail = "[0]"] by auto
qed

section \<open>Further theorems\<close>

text \<open>
  Delivery in the Double Ratchet: take the two session states of a PQXDH handshake and any
  conversation over them in which both parties send and receive whenever they like and the network
  delivers in any order. As long as each party sends at most \<open>MAX_MESSAGE_KEYS\<close>
  messages per ratchet key (the bound lim on counters), every message in transit whose receiver
  chain is retained, and which the post-quantum ratchet accepts, is decrypted by
  \<open>decrypt_message_with_state\<close> to the text that was encrypted.
\<close>

theorem conversation_messages_deliverable:
  assumes laws: "hash_lengths E" "cbc_ok E" "dh_ok E" "curve_lengths E" "rng_length E"
    and spqr: "spqr_channel E R" "spqr_linked E (\<lambda>s t. R s t {#} {#})"
    and match: "parameters_match E a b"
      "kem_matching E (ap_their_kyber_pre_key a) (kkp_secret_key (bp_our_kyber_pre_key_pair b))"
      "is_canonical E (bp_their_base_key b)" "key_pair_ok E (bp_our_ratchet_key_pair b)"
      "private_key_ok (kp_private_key (bp_our_ratchet_key_pair b))"
    and alice: "initialize_alice_session E a rA = (Ok stA, rA')"
      "get_kyber_ciphertext stA = Some (bp_their_kyber_ciphertext b)"
      "sender_ratchet_key stA = Ok kA" "kA \<noteq> ap_their_ratchet_key a"
    and bob: "initialize_bob_session E b = Ok stB"
    and pending: "sends_as stA stA'" "sends_as stB stB'"
    and run: "conv_reachable E lim (conv_start stA' stB' kA (ap_their_ratchet_key a)) c"
      "q \<in> set (cv_inbox c v)" "retained (pc_message q) c"
      "unat lim \<le> MAX_MESSAGE_KEYS"
      "spqr_recv E (s_pq_ratchet_state (cv_state c v)) (sm_pq_ratchet (pc_message q)) = Ok (pq, key)"
  shows "\<exists>st' r'. decrypt_message_with_state E (cv_state c v) (pc_message q) t r = (Ok (pc_text q, st'), r')"
proof -
  note start = conv_inv_handshake [where R = R, OF laws(1,3-5) spqr(2) match alice bob pending]
  note inv = conv_inv_reachable [OF laws spqr(1) run(1) start]
  show ?thesis by (rule conv_inv_delivers [OF laws spqr(1) inv run(4,2,3,5)])
qed

theorem conversation_messages_deliverable_witness:
  "\<exists>ct stA stB r1 kA c q q' ptext st' r'.
    initialize_alice_session sample_env sample_alice_parameters 1 = (Ok stA, r1) \<and>
    initialize_bob_session sample_env (sample_bob_parameters ct) = Ok stB \<and>
    conv_reachable sample_env 2000 (conv_start stA stB kA (ap_their_ratchet_key sample_alice_parameters)) c \<and>
    cv_inbox c Bob = [q, q'] \<and> decrypt_message_with_state sample_env (cv_state c Bob) (pc_message q) Whisper 5 = (Ok ([104, 105], st'), r')"
proof -
  obtain ct stA stB r1 kA c q q' ptext st' r' where run:
      "initialize_alice_session sample_env sample_alice_parameters 1 = (Ok stA, r1)"
      "get_kyber_ciphertext stA = Some (bp_their_kyber_ciphertext (sample_bob_parameters ct))"
      "sender_ratchet_key stA = Ok kA" "kA \<noteq> ap_their_ratchet_key sample_alice_parameters"
      "initialize_bob_session sample_env (sample_bob_parameters ct) = Ok stB"
      "conv_reachable sample_env 2000 (conv_start stA stB kA (ap_their_ratchet_key sample_alice_parameters)) c"
      "cv_inbox c Bob = [q, q']" "retained (pc_message q) c" "pc_text q = [104, 105]"
      "decrypt_message_with_state sample_env (cv_state c Bob) (pc_message q) Whisper 5 = (Ok (ptext, st'), r')"
    by (rule sample_conversation)
  have q: "q \<in> set (cv_inbox c Bob)" using run(7) by simp
  have recv: "spqr_recv sample_env (s_pq_ratchet_state (cv_state c Bob)) (sm_pq_ratchet (pc_message q)) =
      Ok (s_pq_ratchet_state (cv_state c Bob), Some (replicate 32 9))" by (simp add: sample_env_def)
  have lim: "unat (2000 :: u32) \<le> MAX_MESSAGE_KEYS" by (simp add: MAX_MESSAGE_KEYS_def)
  have "\<exists>st' r'. decrypt_message_with_state sample_env (cv_state c Bob) (pc_message q) Whisper 5 = (Ok (pc_text q, st'), r')"
    using conversation_messages_deliverable [where R = sample_channel, OF sample_laws(1) sample_cbc sample_laws(2-4)
        sample_spqr_channel sample_parameters run(1-5) sends_as_refl sends_as_refl run(6) q run(8) lim recv]
    by blast
  then show ?thesis using run(1,5-7) unfolding run(9) by blast
qed

text \<open>
  Integrity in the Double Ratchet: in any conversation over the session states of a PQXDH
  handshake, with any interleaving of sending and receiving, any order of delivery and any loss,
  whatever \<open>decrypt_message_with_state\<close> returns for a message in transit (whose
  receiver chain is retained) is the text its sender encrypted.
\<close>

theorem conversation_messages_genuine:
  assumes laws: "hash_lengths E" "cbc_ok E" "dh_ok E" "curve_lengths E" "rng_length E"
    and spqr: "spqr_channel E R" "spqr_linked E (\<lambda>s t. R s t {#} {#})"
    and match: "parameters_match E a b"
      "kem_matching E (ap_their_kyber_pre_key a) (kkp_secret_key (bp_our_kyber_pre_key_pair b))"
      "is_canonical E (bp_their_base_key b)" "key_pair_ok E (bp_our_ratchet_key_pair b)"
      "private_key_ok (kp_private_key (bp_our_ratchet_key_pair b))"
    and alice: "initialize_alice_session E a rA = (Ok stA, rA')"
      "get_kyber_ciphertext stA = Some (bp_their_kyber_ciphertext b)"
      "sender_ratchet_key stA = Ok kA" "kA \<noteq> ap_their_ratchet_key a"
    and bob: "initialize_bob_session E b = Ok stB"
    and pending: "sends_as stA stA'" "sends_as stB stB'"
    and run: "conv_reachable E lim (conv_start stA' stB' kA (ap_their_ratchet_key a)) c"
      "q \<in> set (cv_inbox c v)" "retained (pc_message q) c"
      "decrypt_message_with_state E (cv_state c v) (pc_message q) t r = (Ok (ptext, st'), r')"
  shows "ptext = pc_text q"
proof -
  note start = conv_inv_handshake [where R = R, OF laws(1,3-5) spqr(2) match alice bob pending]
  note inv = conv_inv_reachable [OF laws spqr(1) run(1) start]
  show ?thesis by (rule conv_inv_reads [OF laws spqr(1) inv run(2-4)])
qed

theorem conversation_messages_genuine_witness:
  "\<exists>ct stA stB r1 kA c q q' ptext st' r'.
    initialize_alice_session sample_env sample_alice_parameters 1 = (Ok stA, r1) \<and>
    initialize_bob_session sample_env (sample_bob_parameters ct) = Ok stB \<and>
    conv_reachable sample_env 2000 (conv_start stA stB kA (ap_their_ratchet_key sample_alice_parameters)) c \<and>
    cv_inbox c Bob = [q, q'] \<and> decrypt_message_with_state sample_env (cv_state c Bob) (pc_message q) Whisper 5 = (Ok (ptext, st'), r') \<and>
    ptext = [104, 105]"
proof -
  obtain ct stA stB r1 kA c q q' ptext st' r' where run:
      "initialize_alice_session sample_env sample_alice_parameters 1 = (Ok stA, r1)"
      "get_kyber_ciphertext stA = Some (bp_their_kyber_ciphertext (sample_bob_parameters ct))"
      "sender_ratchet_key stA = Ok kA" "kA \<noteq> ap_their_ratchet_key sample_alice_parameters"
      "initialize_bob_session sample_env (sample_bob_parameters ct) = Ok stB"
      "conv_reachable sample_env 2000 (conv_start stA stB kA (ap_their_ratchet_key sample_alice_parameters)) c"
      "cv_inbox c Bob = [q, q']" "retained (pc_message q) c" "pc_text q = [104, 105]"
      "decrypt_message_with_state sample_env (cv_state c Bob) (pc_message q) Whisper 5 = (Ok (ptext, st'), r')"
    by (rule sample_conversation)
  have q: "q \<in> set (cv_inbox c Bob)" using run(7) by simp
  have "ptext = pc_text q"
    by (rule conversation_messages_genuine [where R = sample_channel, OF sample_laws(1) sample_cbc sample_laws(2-4)
        sample_spqr_channel sample_parameters run(1-5) sends_as_refl sends_as_refl run(6) q run(8,10)])
  then show ?thesis using run(1,5-7,9,10) by metis
qed

text \<open>
  The PQXDH handshake: with matching parameters and a matching KEM pair, when Alice's
  \<open>initialize_alice_session\<close> succeeds, Bob's \<open>initialize_bob_session\<close> on
  the resulting KEM ciphertext succeeds, and the root and chain key that Alice derives for sending
  by her first ratchet step are those Bob derives from her ratchet key; Bob's session has the
  agreed version and identities.
\<close>

theorem handshake_agreement:
  assumes "hash_lengths E" "dh_ok E" "curve_lengths E" "rng_length E" "spqr_pairs E"
    "parameters_match E a b"
    "kem_matching E (ap_their_kyber_pre_key a) (kkp_secret_key (bp_our_kyber_pre_key_pair b))"
    "is_canonical E (bp_their_base_key b)"
    "key_pair_ok E (bp_our_ratchet_key_pair b)" "private_key_ok (kp_private_key (bp_our_ratchet_key_pair b))"
    "initialize_alice_session E a r = (Ok stA, r1)"
    "get_kyber_ciphertext stA = Some (bp_their_kyber_ciphertext b)"
  shows "\<exists>stB rkB privB pubA rkA ckA. initialize_bob_session E b = Ok stB \<and>
    state_root_key stB = Ok rkB \<and> sender_ratchet_private_key E stB = Ok privB \<and>
    sender_ratchet_key stA = Ok pubA \<and> state_root_key stA = Ok rkA \<and> get_sender_chain_key stA = Ok ckA \<and>
    create_chain E rkB pubA privB = (rkA, ckA)"
  by (rule handshake_ratchet [OF assms])

theorem handshake_agreement_witness:
  "\<exists>ct stA stB r1 rkB privB pubA rkA ckA.
    initialize_alice_session sample_env sample_alice_parameters 1 = (Ok stA, r1) \<and>
    initialize_bob_session sample_env (sample_bob_parameters ct) = Ok stB \<and>
    state_root_key stB = Ok rkB \<and> sender_ratchet_private_key sample_env stB = Ok privB \<and>
    sender_ratchet_key stA = Ok pubA \<and> state_root_key stA = Ok rkA \<and> get_sender_chain_key stA = Ok ckA \<and>
    create_chain sample_env rkB pubA privB = (rkA, ckA)"
proof -
  obtain stA r1 ct where a: "initialize_alice_session sample_env sample_alice_parameters 1 = (Ok stA, r1)"
      "get_kyber_ciphertext stA = Some (bp_their_kyber_ciphertext (sample_bob_parameters ct))"
    by (rule sample_handshake)
  show ?thesis
    using handshake_agreement [OF sample_laws sample_spqr(2) sample_parameters a] a(1) by blast
qed

text \<open>
  Each message sent uses the current chain key and advances the sending chain by one step: the
  emitted message carries the index of the sender chain key as its counter, and the new state's
  chain key is the next one.
\<close>

theorem sending_counter_advances:
  assumes "hash_lengths E" "encrypt_with_state E ptext a now st r = (Ok (msg, k, st'), r')"
  shows "\<exists>m ck. signal_part msg = Some m \<and> get_sender_chain_key st = Ok ck \<and> sm_counter m = chain_key_index ck \<and>
     get_sender_chain_key st' = Ok (next_chain_key E ck)"
  using assms by (rule encrypt_with_state_counter)

theorem sending_counter_advances_witness:
  "\<exists>st r msg k st' r' m ck. encrypt_with_state sample_env [104, 105] bob_address 2000000000 st r = (Ok (msg, k, st'), r') \<and>
     signal_part msg = Some m \<and> sm_counter m = chain_key_index ck \<and> get_sender_chain_key st' = Ok (next_chain_key sample_env ck)"
proof -
  obtain st r msg k st' r' where
    e: "encrypt_with_state sample_env [104, 105] bob_address 2000000000 st r = (Ok (msg, k, st'), r')"
    by (rule sample_sent)
  then show ?thesis using sending_counter_advances [OF sample_lengths(1) e] by blast
qed

text \<open>
  Replay protection of 1:1 messages: once \<open>message_decrypt_signal\<close> has returned a
  plaintext, delivering the same message again to the resulting store is refused with
  DuplicatedMessage and changes nothing, whatever the random generator.
\<close>

theorem signal_message_replay_refused:
  assumes "codec_ok (session_codec E)" "hash_lengths E" "public_key_ok (sm_sender_ratchet_key m)"
    "sm_counter m \<noteq> - 1" "store_ok E s" "message_decrypt_signal E m a (s, r) = (Ok ptext, (s', r'))"
  shows "\<exists>n. message_decrypt_signal E m a (s', r2) = (Err (DuplicatedMessage n (sm_counter m)), (s', r2))"
  using assms by (rule message_decrypt_signal_replay)

theorem signal_message_replay_refused_witness:
  "\<exists>m s s' r' n. message_decrypt_signal sample_env m alice_address (s, 0) = (Ok [104, 105], (s', r')) \<and>
     message_decrypt_signal sample_env m alice_address (s', 7) = (Err (DuplicatedMessage n (sm_counter m)), (s', 7))"
proof -
  obtain m s s' r' where run: "store_ok sample_env s" "message_ok m" "sm_counter m = 0"
      "message_decrypt_signal sample_env m alice_address (s, 0) = (Ok [104, 105], (s', r'))"
    by (rule sample_signal_run)
  then have "public_key_ok (sm_sender_ratchet_key m)" "sm_counter m \<noteq> - 1" by (simp_all add: message_ok_def)
  then show ?thesis
    using signal_message_replay_refused [OF sample_codecs(1) sample_lengths(1) _ _ run(1,4), of 7] run(4) by blast
qed

text \<open>
  XEdDSA: every signature that a private key makes over a multipart message verifies under its
  public key, whatever the random bytes.
\<close>

theorem signature_verifies:
  assumes "xeddsa_ok E" "dh_ok E"
  shows "verify_signature_for_multipart_message E (PrivateKey_public_key E k) message
           (fst (calculate_signature_for_multipart_message E k message r))"
  using assms by (rule signature_roundtrip)

theorem signature_verifies_witness:
  "verify_signature_for_multipart_message sample_env (kp_public_key (sample_pair 3)) [[1, 2], [3]]
     (fst (calculate_signature_for_multipart_message sample_env (kp_private_key (sample_pair 3)) [[1, 2], [3]] 5))"
  using signature_verifies [OF sample_xeddsa sample_dh, of "kp_private_key (sample_pair 3)" "[[1, 2], [3]]" 5] by simp

end
